(* ===== verification/Sonar_Prelude.thy ===== *)
theory Sonar_Prelude
  imports Main "HOL-Library.Word" "HOL-Library.Multiset" "HOL-Library.Sublist"
begin

text \<open>
  Shared vocabulary of the development: the part of Go's \<open>strings\<close> and \<open>strconv\<close> packages the
  program uses, fixed-width integers, the insertion sort and the keyed row store that the SNMP
  collectors share, the rankings that roles and severities are, and the theorem collections the component theories add to.

  A Go string is a \<open>char list\<close>, one \<open>char\<close> per byte. Case folding and space trimming are
  modelled on ASCII, where they agree with Go. A signed machine integer is an \<open>int\<close> whose
  conversions wrap explicitly (\<open>i32\<close>, \<open>i64\<close>); an unsigned counter is a \<open>64 word\<close>.
\<close>

unbundle bit_operations_syntax

named_theorems str_simps "evaluation of the string functions"
named_theorems frame_simps "fields an operation leaves alone"

type_synonym u64 = "64 word"
type_synonym uuid = string

subsection \<open>Strings\<close>

definition char_code :: "char \<Rightarrow> nat" where
  "char_code c = of_char c"

definition lower_char :: "char \<Rightarrow> char" where
  "lower_char c = (if 65 \<le> char_code c \<and> char_code c \<le> 90 then char_of (char_code c + 32) else c)"

definition upper_char :: "char \<Rightarrow> char" where
  "upper_char c = (if 97 \<le> char_code c \<and> char_code c \<le> 122 then char_of (char_code c - 32) else c)"

definition to_lower :: "string \<Rightarrow> string" where
  "to_lower s = map lower_char s"

definition to_upper :: "string \<Rightarrow> string" where
  "to_upper s = map upper_char s"

text \<open>\<open>strings.EqualFold\<close> on ASCII.\<close>

definition equal_fold :: "string \<Rightarrow> string \<Rightarrow> bool" where
  "equal_fold s t \<longleftrightarrow> to_lower s = to_lower t"

definition is_space :: "char \<Rightarrow> bool" where
  "is_space c \<longleftrightarrow> c = CHR '' '' \<or> (9 \<le> char_code c \<and> char_code c \<le> 13)"

definition is_digit :: "char \<Rightarrow> bool" where
  "is_digit c \<longleftrightarrow> 48 \<le> char_code c \<and> char_code c \<le> 57"

definition trim_left :: "string \<Rightarrow> string" where
  "trim_left s = dropWhile is_space s"

definition trim_space :: "string \<Rightarrow> string" where
  "trim_space s = rev (dropWhile is_space (rev (dropWhile is_space s)))"

definition has_prefix :: "string \<Rightarrow> string \<Rightarrow> bool" where
  "has_prefix s p \<longleftrightarrow> take (length p) s = p"

definition has_suffix :: "string \<Rightarrow> string \<Rightarrow> bool" where
  "has_suffix s p \<longleftrightarrow> has_prefix (rev s) (rev p)"

definition trim_prefix :: "string \<Rightarrow> string \<Rightarrow> string" where
  "trim_prefix s p = (if has_prefix s p then drop (length p) s else s)"

definition trim_suffix :: "string \<Rightarrow> string \<Rightarrow> string" where
  "trim_suffix s p = (if has_suffix s p then take (length s - length p) s else s)"

fun contains :: "string \<Rightarrow> string \<Rightarrow> bool" where
  "contains [] p = (p = [])"
| "contains (c # cs) p = (has_prefix (c # cs) p \<or> contains cs p)"

text \<open>
  \<open>strings.Split\<close> for a non-empty separator: scan left to right, \<open>skip\<close> counts the bytes of a
  separator already recognised that are still to be passed over.
\<close>

fun split_from :: "string \<Rightarrow> nat \<Rightarrow> string \<Rightarrow> string \<Rightarrow> string list" where
  "split_from sep skip acc [] = [rev acc]"
| "split_from sep skip acc (c # cs) =
     (if 0 < skip then split_from sep (skip - 1) acc cs
      else if has_prefix (c # cs) sep then rev acc # split_from sep (length sep - 1) [] cs
      else split_from sep 0 (c # acc) cs)"

definition split_str :: "string \<Rightarrow> string \<Rightarrow> string list" where
  "split_str s sep = split_from sep 0 [] s"

fun join_str :: "string \<Rightarrow> string list \<Rightarrow> string" where
  "join_str sep [] = []"
| "join_str sep [x] = x"
| "join_str sep (x # y # zs) = x @ sep @ join_str sep (y # zs)"

subsection \<open>Decimal numbers\<close>

definition digit_char :: "nat \<Rightarrow> char" where
  "digit_char d = char_of (48 + d)"

definition digit_val :: "char \<Rightarrow> nat" where
  "digit_val c = char_code c - 48"

fun dec_nat :: "nat \<Rightarrow> string" where
  "dec_nat n = (if n < 10 then [digit_char n] else dec_nat (n div 10) @ [digit_char (n mod 10)])"

declare dec_nat.simps [simp del]

definition itoa :: "int \<Rightarrow> string" where
  "itoa n = (if n < 0 then CHR ''-'' # dec_nat (nat (- n)) else dec_nat (nat n))"

definition digits_val :: "string \<Rightarrow> nat" where
  "digits_val s = foldl (\<lambda>n c. 10 * n + digit_val c) 0 s"

definition i32 :: "int \<Rightarrow> int" where
  "i32 n = signed_take_bit 31 n"

definition i64 :: "int \<Rightarrow> int" where
  "i64 n = signed_take_bit 63 n"

text \<open>\<open>strconv.Atoi\<close>: an optional sign, at least one digit, only digits, in the range of int64.\<close>

definition atoi :: "string \<Rightarrow> int option" where
  "atoi s =
     (let (neg, ds) = (case s of [] \<Rightarrow> (False, [])
                       | c # cs \<Rightarrow> if c = CHR ''-'' then (True, cs)
                                  else if c = CHR ''+'' then (False, cs) else (False, s));
          n = int (digits_val ds); v = (if neg then - n else n)
      in if ds = [] \<or> \<not> list_all is_digit ds then None
         else if - (2 ^ 63) \<le> v \<and> v < 2 ^ 63 then Some v else None)"

subsection \<open>Round trips of the number and string functions\<close>

lemma char_code_digit [simp]: "d < 10 \<Longrightarrow> char_code (digit_char d) = 48 + d"
  by (simp add: char_code_def digit_char_def)

lemma is_digit_digit_char [simp]: "d < 10 \<Longrightarrow> is_digit (digit_char d)"
  by (simp add: is_digit_def)

lemma digit_val_digit_char [simp]: "d < 10 \<Longrightarrow> digit_val (digit_char d) = d"
  by (simp add: digit_val_def)

lemma dec_nat_digits: "list_all is_digit (dec_nat n) \<and> dec_nat n \<noteq> []"
proof (induction n rule: dec_nat.induct)
  case (1 n)
  then show ?case by (subst (1 2) dec_nat.simps) (simp del: dec_nat.simps)
qed

lemma digits_val_snoc [simp]: "digits_val (ds @ [c]) = 10 * digits_val ds + digit_val c"
  by (simp add: digits_val_def)

lemma digits_val_dec_nat [simp]: "digits_val (dec_nat n) = n"
proof (induction n rule: dec_nat.induct)
  case (1 n)
  show ?case
  proof (cases "n < 10")
    case True then show ?thesis by (subst dec_nat.simps) (simp add: digits_val_def)
  next
    case False then show ?thesis using 1 by (subst dec_nat.simps) simp
  qed
qed

lemma digit_not_sign: "is_digit c \<Longrightarrow> c \<noteq> CHR ''-'' \<and> c \<noteq> CHR ''+'' \<and> c \<noteq> CHR ''.''"
  by (auto simp: is_digit_def char_code_def)

lemma atoi_dec_nat:
  assumes "int n < 2 ^ 63"
  shows "atoi (dec_nat n) = Some (int n)"
proof -
  obtain c cs where c: "dec_nat n = c # cs" using dec_nat_digits [of n] by (cases "dec_nat n") auto
  then have "is_digit c" using dec_nat_digits [of n] by simp
  then have "atoi (dec_nat n) = (let v = int (digits_val (dec_nat n)) in
      if \<not> list_all is_digit (dec_nat n) then None
      else if - (2 ^ 63) \<le> v \<and> v < 2 ^ 63 then Some v else None)"
    using digit_not_sign [of c] by (simp add: atoi_def c Let_def)
  then show ?thesis using assms dec_nat_digits [of n] by (simp add: Let_def)
qed

lemma atoi_itoa:
  assumes "- (2 ^ 63) \<le> n" and "n < 2 ^ 63"
  shows "atoi (itoa n) = Some n"
proof (cases "n < 0")
  case True
  then have "digits_val (dec_nat (nat (- n))) = nat (- n)" by simp
  with True assms dec_nat_digits [of "nat (- n)"] show ?thesis
    by (simp add: itoa_def atoi_def Let_def)
next
  case False
  then show ?thesis using assms atoi_dec_nat [of "nat n"] by (simp add: itoa_def)
qed

lemma itoa_chars: "c \<in> set (itoa n) \<Longrightarrow> c \<noteq> CHR ''.''" "itoa n \<noteq> []"
  using dec_nat_digits [of "nat n"] dec_nat_digits [of "nat (- n)"] digit_not_sign
  by (auto simp: itoa_def list_all_iff split: if_splits)

lemma i32_id [simp]: "- (2 ^ 31) \<le> n \<Longrightarrow> n < 2 ^ 31 \<Longrightarrow> i32 n = n"
  by (simp add: i32_def signed_take_bit_int_eq_self)

lemma has_prefix_append [simp]: "has_prefix (p @ s) p"
  by (simp add: has_prefix_def)

lemma trim_prefix_append [simp]: "trim_prefix (p @ s) p = s"
  by (simp add: trim_prefix_def)

lemma split_from_piece:
  assumes "\<forall>c \<in> set p. c \<noteq> d"
  shows "split_from [d] 0 acc (p @ d # s) = (rev acc @ p) # split_from [d] 0 [] s"
    and "split_from [d] 0 acc p = [rev acc @ p]"
  using assms by (induction p arbitrary: acc) (auto simp: has_prefix_def)

lemma split_join:
  assumes "ps \<noteq> []" and "\<forall>p \<in> set ps. \<forall>c \<in> set p. c \<noteq> d"
  shows "split_str (join_str [d] ps) [d] = ps"
  unfolding split_str_def using assms
  by (induction "[d]" ps rule: join_str.induct) (simp_all add: split_from_piece)

subsection \<open>Insertion sort\<close>

text \<open>
  The nested loops of \<open>sortByIfIndex\<close> and \<open>sortByEntIndex\<close>: the element at position \<open>i\<close> is
  swapped to the left while its left neighbour has a larger key. The sorted part is kept
  reversed, so the inner loop walks it from its head.
\<close>

fun sink_left :: "('a \<Rightarrow> int) \<Rightarrow> 'a \<Rightarrow> 'a list \<Rightarrow> 'a list" where
  "sink_left key x [] = [x]"
| "sink_left key x (y # ys) = (if key y > key x then y # sink_left key x ys else x # y # ys)"

definition insertion_sort :: "('a \<Rightarrow> int) \<Rightarrow> 'a list \<Rightarrow> 'a list" where
  "insertion_sort key xs = rev (foldl (\<lambda>r x. sink_left key x r) [] xs)"

lemma mset_sink_left [simp]: "mset (sink_left key x r) = add_mset x (mset r)"
  by (induction r) auto

lemma set_sink_left [simp]: "set (sink_left key x r) = insert x (set r)"
  by (induction r) auto

lemma sink_left_sorted:
  "sorted_wrt (\<lambda>a b. key a \<ge> key b) r \<Longrightarrow> sorted_wrt (\<lambda>a b. key a \<ge> key b) (sink_left key x r)"
  by (induction r) (auto intro: order_trans)

lemma foldl_sink_left:
  assumes "sorted_wrt (\<lambda>a b. key a \<ge> key b) r"
  shows "sorted_wrt (\<lambda>a b. key a \<ge> key b) (foldl (\<lambda>r x. sink_left key x r) r xs)
    \<and> mset (foldl (\<lambda>r x. sink_left key x r) r xs) = mset r + mset xs"
  using assms by (induction xs arbitrary: r) (auto simp: sink_left_sorted)

lemma mset_insertion_sort [simp]: "mset (insertion_sort key xs) = mset xs"
  using foldl_sink_left [of key "[]" xs] by (simp add: insertion_sort_def)

lemma set_insertion_sort [simp]: "set (insertion_sort key xs) = set xs"
  by (metis mset_insertion_sort set_mset_mset)

lemma length_insertion_sort [simp]: "length (insertion_sort key xs) = length xs"
  by (metis mset_insertion_sort size_mset)

lemma sorted_insertion_sort: "sorted (map key (insertion_sort key xs))"
  using foldl_sink_left [of key "[]" xs]
  by (simp add: insertion_sort_def sorted_wrt_rev sorted_wrt_map)

text \<open>With distinct keys the sorted list is determined by the set of rows.\<close>

lemma insertion_sort_unique:
  assumes "mset xs = mset ys" and "distinct (map key xs)"
  shows "insertion_sort key xs = insertion_sort key ys"
proof (rule map_inj_on)
  have m: "mset (insertion_sort key xs) = mset (insertion_sort key ys)"
    using assms(1) by simp
  have "sort (map key xs) = map key (insertion_sort key xs)"
    by (rule properties_for_sort) (simp_all add: sorted_insertion_sort)
  moreover have "sort (map key xs) = map key (insertion_sort key ys)"
    by (rule properties_for_sort) (simp_all add: sorted_insertion_sort assms(1))
  ultimately show "map key (insertion_sort key xs) = map key (insertion_sort key ys)" by simp
  have "inj_on key (set xs)" using assms(2) by (simp add: distinct_map)
  then show "inj_on key (set (insertion_sort key xs) \<union> set (insertion_sort key ys))"
    using mset_eq_setD [OF assms(1)] by simp
qed

subsection \<open>Keyed rows\<close>

text \<open>
  The collectors keep \<open>map[key]*row\<close> and reach a row through a helper that creates it on first
  use. \<open>upsert\<close> is that helper followed by an assignment through the pointer it returns.
\<close>

fun upsert :: "'k \<Rightarrow> 'r \<Rightarrow> ('r \<Rightarrow> 'r) \<Rightarrow> ('k \<times> 'r) list \<Rightarrow> ('k \<times> 'r) list" where
  "upsert k d f [] = [(k, f d)]"
| "upsert k d f ((k', r) # rs) = (if k' = k then (k', f r) # rs else (k', r) # upsert k d f rs)"

lemma map_of_upsert:
  "map_of (upsert k d f rs) = (map_of rs)(k \<mapsto> f (case map_of rs k of None \<Rightarrow> d | Some r \<Rightarrow> r))"
  by (induction rs) (auto simp: fun_eq_iff)

lemma keys_upsert: "fst ` set (upsert k d f rs) = insert k (fst ` set rs)"
  by (induction k d f rs rule: upsert.induct) (simp_all add: insert_commute)

lemma distinct_upsert: "distinct (map fst rs) \<Longrightarrow> distinct (map fst (upsert k d f rs))"
  by (induction k d f rs rule: upsert.induct) (auto simp: keys_upsert)

text \<open>
  The contract of such a store: a row is found under the key it was written with, other keys
  keep their rows, and no key is stored twice. \<open>tag\<close> is the part of a row that says which key
  it belongs to (its index field); a fresh row carries its own key.
\<close>

locale row_store =
  fixes lookup :: "'s \<Rightarrow> 'k \<Rightarrow> 'r option"
    and put :: "'k \<Rightarrow> 'r \<Rightarrow> ('r \<Rightarrow> 'r) \<Rightarrow> 's \<Rightarrow> 's"
    and wf :: "'s \<Rightarrow> bool"
  assumes lookup_put: "lookup (put k d f s) = (lookup s)(k \<mapsto> f (case lookup s k of None \<Rightarrow> d | Some r \<Rightarrow> r))"
    and wf_put: "wf s \<Longrightarrow> wf (put k d f s)"
begin

definition tagged :: "('r \<Rightarrow> 'k) \<Rightarrow> 's \<Rightarrow> bool" where
  "tagged tag s \<longleftrightarrow> (\<forall>k r. lookup s k = Some r \<longrightarrow> tag r = k)"

lemma tagged_put:
  assumes "tagged tag s" and "tag d = k" and "\<And>r. tag (f r) = tag r"
  shows "tagged tag (put k d f s)"
  using assms by (auto simp: tagged_def lookup_put split: option.splits)

lemma lookup_put_other: "k' \<noteq> k \<Longrightarrow> lookup (put k d f s) k' = lookup s k'"
  by (simp add: lookup_put)

lemma put_twice:
  "lookup (put k d f (put k d g s)) = lookup (put k d (f \<circ> g) s)"
  by (auto simp: lookup_put fun_eq_iff)

lemma put_commute:
  "k \<noteq> k' \<Longrightarrow> lookup (put k d f (put k' d' g s)) = lookup (put k' d' g (put k d f s))"
  by (auto simp: lookup_put fun_eq_iff)

end

interpretation rows: row_store map_of upsert "\<lambda>rs. distinct (map fst rs)"
  by unfold_locales (simp_all add: map_of_upsert distinct_upsert)

subsection \<open>First match\<close>

lemma find_SomeD: "find P xs = Some x \<Longrightarrow> x \<in> set xs \<and> P x"
  by (induction xs) (auto split: if_splits)

lemma find_append: "find P (xs @ ys) = (case find P xs of None \<Rightarrow> find P ys | Some x \<Rightarrow> Some x)"
  by (induction xs) auto

subsection \<open>Rankings\<close>

text \<open>
  A comparison the code picks a maximum with: total and transitive. The loop keeps the first of
  the largest elements.
\<close>

locale ranking =
  fixes le :: "'a \<Rightarrow> 'a \<Rightarrow> bool"
  assumes le_total: "le x y \<or> le y x"
    and le_trans: "le x y \<Longrightarrow> le y z \<Longrightarrow> le x z"
begin

lemma le_refl: "le x x"
  using le_total by blast

definition pick :: "'a \<Rightarrow> 'a list \<Rightarrow> 'a" where
  "pick a xs = foldl (\<lambda>m x. if le x m then m else x) a xs"

lemma pick_member: "pick a xs \<in> insert a (set xs)"
  by (induction xs arbitrary: a) (auto simp: pick_def split: if_splits)

lemma pick_upper: "x \<in> insert a (set xs) \<Longrightarrow> le x (pick a xs)"
proof (induction xs arbitrary: a x)
  case Nil then show ?case by (simp add: pick_def le_refl)
next
  case (Cons y ys)
  let ?m = "if le y a then a else y"
  have p: "pick a (y # ys) = pick ?m ys" by (simp add: pick_def)
  have "le x ?m \<or> x \<in> set ys" using Cons.prems le_refl le_total by auto
  moreover have "le ?m (pick ?m ys)" using Cons.IH [of ?m ?m] by simp
  moreover have "x \<in> set ys \<Longrightarrow> le x (pick ?m ys)" using Cons.IH [of x ?m] by simp
  ultimately show ?case unfolding p using le_trans by blast
qed

end

end
