(* ===== verification/Snmp_Value.thy ===== *)
theory Snmp_Value
  imports Sonar_Prelude
begin

text \<open>
  \<open>internal/snmp/client.go\<close> and the helpers at the end of \<open>internal/snmp/collect.go\<close>: typed SNMP
  values and their coercions, \<open>Client.Get\<close> and \<open>Client.BulkWalk\<close> over the gosnmp session (a
  parameter: what the library answers to a GET or a walk), OID suffixes, MAC rendering.
\<close>

subsection \<open>Values\<close>

text \<open>
  The dynamic type of \<open>gosnmp.SnmpPDU.Value\<close>. \<open>VOther\<close> is any type the coercions do not name,
  with the text \<open>fmt.Sprintf\<close> gives for it.
\<close>

datatype snmp_value =
    VNil
  | VString string
  | VBytes string
  | VInt int
  | VInt32 int
  | VInt64 int
  | VUint u64
  | VUint32 "32 word"
  | VUint64 u64
  | VOther string

fun value_String :: "snmp_value \<Rightarrow> string" where
  "value_String VNil = []"
| "value_String (VString s) = s"
| "value_String (VBytes b) = b"
| "value_String (VInt n) = itoa n"
| "value_String (VUint n) = dec_nat (unat n)"
| "value_String (VInt64 n) = itoa n"
| "value_String (VUint64 n) = dec_nat (unat n)"
| "value_String (VInt32 n) = itoa n"
| "value_String (VUint32 n) = dec_nat (unat n)"
| "value_String (VOther s) = s"

fun value_Bytes :: "snmp_value \<Rightarrow> string" where
  "value_Bytes (VBytes b) = b"
| "value_Bytes _ = []"

fun value_Int64 :: "snmp_value \<Rightarrow> int option" where
  "value_Int64 (VInt n) = Some n"
| "value_Int64 (VInt32 n) = Some n"
| "value_Int64 (VInt64 n) = Some n"
| "value_Int64 (VUint n) = Some (sint n)"
| "value_Int64 (VUint32 n) = Some (uint n)"
| "value_Int64 (VUint64 n) = Some (sint n)"
| "value_Int64 _ = None"

fun value_Uint64 :: "snmp_value \<Rightarrow> u64 option" where
  "value_Uint64 (VUint64 n) = Some n"
| "value_Uint64 (VUint32 n) = Some (ucast n)"
| "value_Uint64 (VUint n) = Some n"
| "value_Uint64 (VInt n) = (if n < 0 then None else Some (word_of_int n))"
| "value_Uint64 (VInt32 n) = (if n < 0 then None else Some (word_of_int n))"
| "value_Uint64 (VInt64 n) = (if n < 0 then None else Some (word_of_int n))"
| "value_Uint64 _ = None"

text \<open>The Go values: a signed payload lies in the range of its type.\<close>

fun value_wf :: "snmp_value \<Rightarrow> bool" where
  "value_wf (VInt n) = (- (2 ^ 63) \<le> n \<and> n < 2 ^ 63)"
| "value_wf (VInt64 n) = (- (2 ^ 63) \<le> n \<and> n < 2 ^ 63)"
| "value_wf (VInt32 n) = (- (2 ^ 31) \<le> n \<and> n < 2 ^ 31)"
| "value_wf _ = True"

text \<open>
  Where both coercions answer and the unsigned one is below \<open>2 ^ 63\<close>, they agree; a negative
  integer has no unsigned reading.
\<close>

lemma uint_small: "0 \<le> n \<Longrightarrow> n < 2 ^ 63 \<Longrightarrow> uint (word_of_int n :: u64) = n"
  by (simp add: unsigned_of_int take_bit_int_eq_self)

lemma uint_ucast32: "uint (ucast (w :: 32 word) :: u64) = uint w"
proof -
  have "uint w < 2 ^ 64" using uint_lt2p [of w] by simp
  then show ?thesis by (simp add: unsigned_ucast_eq take_bit_int_eq_self)
qed

lemma value_Uint64_Int64:
  assumes "value_wf v" and "value_Uint64 v = Some n" and "unat n < 2 ^ 63"
  shows "value_Int64 v = Some (uint n)"
proof -
  from assms(3) have "int (unat n) < int (2 ^ 63)" by (rule iffD2 [OF of_nat_less_iff])
  then have "uint n < 2 ^ 63" by simp
  then have "signed_take_bit 63 (uint n) = uint n"
    using uint_ge_0 [of n] by (intro signed_take_bit_int_eq_self) linarith+
  then have s: "sint n = uint n" by (subst sint_uint) simp
  show ?thesis
  proof (cases v)
    case (VInt m) then show ?thesis using assms(1,2) uint_small [of m] by (auto split: if_splits)
  next
    case (VInt32 m) then show ?thesis using assms(1,2) uint_small [of m] by (auto split: if_splits)
  next
    case (VInt64 m) then show ?thesis using assms(1,2) uint_small [of m] by (auto split: if_splits)
  next
    case (VUint32 m) then show ?thesis using assms(2) uint_ucast32 [of m] by simp
  qed (use assms(2) s in simp_all)
qed

subsection \<open>GET and walk\<close>

datatype pdu_type = NoSuchObject | NoSuchInstance | EndOfMibView | OtherType

record pdu =
  pdu_Name :: string
  pdu_Type :: pdu_type
  pdu_Value :: snmp_value

text \<open>
  A session as the wrapper sees it: the variables (or the error) the library returns for a GET
  of some OIDs and for a walk of a root.
\<close>

record session =
  sess_Get :: "string list \<Rightarrow> string + pdu list"
  sess_Walk :: "string \<Rightarrow> string + pdu list"

type_synonym variable = "string \<times> snmp_value"

text \<open>The result of a GET is a Go map: an association list without repeated keys.\<close>

definition client_Get :: "session \<Rightarrow> string list \<Rightarrow> string + (string \<times> snmp_value) list" where
  "client_Get c oids =
     (if oids = [] then Inr []
      else case sess_Get c oids of
        Inl e \<Rightarrow> Inl (''snmp: GET ['' @ join_str '' '' oids @ '']: '' @ e)
      | Inr vars \<Rightarrow>
          Inr (foldl (\<lambda>out v.
                 if pdu_Type v \<in> {NoSuchObject, NoSuchInstance, EndOfMibView} then out
                 else upsert (trim_prefix (pdu_Name v) ''.'') (pdu_Value v) (\<lambda>_. pdu_Value v) out) [] vars))"

definition client_BulkWalk :: "session \<Rightarrow> string \<Rightarrow> string + variable list" where
  "client_BulkWalk c root =
     (case sess_Walk c root of
        Inl e \<Rightarrow> Inl (''snmp: WALK '' @ root @ '': '' @ e)
      | Inr vars \<Rightarrow> Inr (map (\<lambda>v. (trim_prefix (pdu_Name v) ''.'', pdu_Value v)) vars))"

subsection \<open>OID suffixes and MAC addresses\<close>

text \<open>\<open>strings.LastIndex\<close> by the part after the last separator, \<open>None\<close> when there is none.\<close>

fun after_last :: "char \<Rightarrow> string \<Rightarrow> string option" where
  "after_last d [] = None"
| "after_last d (c # cs) =
     (case after_last d cs of Some t \<Rightarrow> Some t | None \<Rightarrow> if c = d then Some cs else None)"

definition lastIndex :: "string \<Rightarrow> int" where
  "lastIndex oid =
     (case after_last CHR ''.'' oid of
        None \<Rightarrow> 0
      | Some t \<Rightarrow> if t = [] then 0 else (case atoi t of None \<Rightarrow> 0 | Some n \<Rightarrow> i32 n))"

fun atoi_all :: "string list \<Rightarrow> int list option" where
  "atoi_all [] = Some []"
| "atoi_all (p # ps) =
     (case atoi p of None \<Rightarrow> None
      | Some n \<Rightarrow> (case atoi_all ps of None \<Rightarrow> None | Some ns \<Rightarrow> Some (i32 n # ns)))"

text \<open>\<open>nil\<close> and the empty slice are one result: callers only read the length and the elements.\<close>

definition suffixParts :: "string \<Rightarrow> string \<Rightarrow> int list" where
  "suffixParts oid root =
     (let r = trim_suffix root ''.''
      in if \<not> has_prefix oid (r @ ''.'') then []
         else case atoi_all (split_str (trim_prefix oid (r @ ''.'')) ''.'') of
                None \<Rightarrow> [] | Some ns \<Rightarrow> ns)"

definition hex_digit :: "nat \<Rightarrow> char" where
  "hex_digit d = ''0123456789abcdef'' ! d"

fun mac_bytes :: "nat \<Rightarrow> string \<Rightarrow> string" where
  "mac_bytes i [] = []"
| "mac_bytes i (x # xs) =
     (if 0 < i then '':'' else []) @
     [hex_digit (char_code x div 16), hex_digit (char_code x mod 16)] @ mac_bytes (Suc i) xs"

definition formatMAC :: "string \<Rightarrow> string" where
  "formatMAC b = (if length b \<noteq> 6 then [] else mac_bytes 0 b)"

definition cleanOID :: "string \<Rightarrow> string" where
  "cleanOID s = trim_prefix s ''.''"

subsection \<open>Index round trip\<close>

lemma after_last_none: "\<forall>c \<in> set t. c \<noteq> d \<Longrightarrow> after_last d t = None"
  by (induction t) auto

lemma after_last_append: "\<forall>c \<in> set t. c \<noteq> d \<Longrightarrow> after_last d (s @ d # t) = Some t"
  by (induction s) (auto simp: after_last_none)

lemma lastIndex_append:
  assumes "- (2 ^ 31) \<le> n" and "n < 2 ^ 31"
  shows "lastIndex (s @ ''.'' @ itoa n) = n"
proof -
  have "after_last CHR ''.'' (s @ CHR ''.'' # itoa n) = Some (itoa n)"
    using itoa_chars(1) by (intro after_last_append) blast
  moreover have "atoi (itoa n) = Some n" using assms by (intro atoi_itoa) simp_all
  ultimately show ?thesis using assms itoa_chars(2) [of n] by (simp add: lastIndex_def)
qed

lemma atoi_all_itoa:
  "list_all (\<lambda>n. - (2 ^ 31) \<le> n \<and> n < 2 ^ 31) ns \<Longrightarrow> atoi_all (map itoa ns) = Some ns"
  by (induction ns) (simp_all add: atoi_itoa)

lemma join_str_last:
  "xs \<noteq> [] \<Longrightarrow> \<exists>s. p @ d @ join_str d xs = s @ d @ last xs"
proof (induction d xs arbitrary: p rule: join_str.induct)
  case (3 sep x y zs)
  then obtain s where "(p @ sep @ x) @ sep @ join_str sep (y # zs) = s @ sep @ last (y # zs)"
    by blast
  then show ?case by auto
qed auto

text \<open>
  an OID built from a table root and an index reads back: \<open>suffixParts\<close> returns exactly the
  int32 components appended below the root, and \<open>lastIndex\<close> the last one, for every root that
  does not itself end in a dot.
\<close>

theorem oid_index_roundtrip:
  assumes "ns \<noteq> []" and "list_all (\<lambda>n. - (2 ^ 31) \<le> n \<and> n < 2 ^ 31) ns" and "\<not> has_suffix base ''.''"
  shows "suffixParts (base @ ''.'' @ join_str ''.'' (map itoa ns)) base = ns \<and>
    lastIndex (base @ ''.'' @ join_str ''.'' (map itoa ns)) = last ns"
proof
  have "trim_prefix (base @ ''.'' @ join_str ''.'' (map itoa ns)) (base @ ''.'') = join_str ''.'' (map itoa ns)"
    "has_prefix (base @ ''.'' @ join_str ''.'' (map itoa ns)) (base @ ''.'')"
    using trim_prefix_append [of "base @ ''.''"] has_prefix_append [of "base @ ''.''"] by simp_all
  moreover have "split_str (join_str ''.'' (map itoa ns)) ''.'' = map itoa ns"
    using assms(1) itoa_chars(1) by (intro split_join) auto
  ultimately show "suffixParts (base @ ''.'' @ join_str ''.'' (map itoa ns)) base = ns"
    using assms by (simp add: suffixParts_def trim_suffix_def atoi_all_itoa)
  obtain s where "base @ ''.'' @ join_str ''.'' (map itoa ns) = s @ ''.'' @ itoa (last ns)"
    using join_str_last [of "map itoa ns" base "''.''"] assms(1) by (auto simp: last_map)
  then show "lastIndex (base @ ''.'' @ join_str ''.'' (map itoa ns)) = last ns"
    using assms(1,2) lastIndex_append [of "last ns" s] by (simp add: list_all_iff)
qed

text \<open>The interface index in a cell of the LLDP table.\<close>

theorem oid_index_roundtrip_witness:
  "suffixParts (''1.0.8802.1'' @ ''.'' @ join_str ''.'' (map itoa [0, 10101, 7])) ''1.0.8802.1'' = [0, 10101, 7] \<and>
   lastIndex (''1.0.8802.1'' @ ''.'' @ join_str ''.'' (map itoa [0, 10101, 7])) = last [0, 10101, 7]"
  by (rule oid_index_roundtrip) (simp_all add: has_suffix_def has_prefix_def)


end
