(* ===== verification/Float64.thy ===== *)
theory Float64
  imports Sonar_Prelude Complex_Main "HOL-Library.Log_Nat"
begin

text \<open>
  Go's \<open>float64\<close>: IEEE 754 binary64 with round-to-nearest-even. A finite value is the rational it
  denotes, an operation rounds the exact result, and a result too large to represent becomes an
  infinity. The two zeros are one value here: nothing in the modelled code tells them apart.
\<close>

datatype f64 = Fin rat | Inf bool | NaN

definition pow2 :: "int \<Rightarrow> rat" where
  "pow2 e = (if 0 \<le> e then of_int (2 ^ nat e) else 1 / of_int (2 ^ nat (- e)))"

text \<open>The exponent of the leading bit of a positive rational.\<close>

definition lead_exp :: "rat \<Rightarrow> int" where
  "lead_exp x = (let (n, d) = quotient_of x; e = bitlen n - bitlen d
                 in if pow2 e \<le> x then e else e - 1)"

text \<open>The exponent of the last bit kept: 53 bits of precision, gradual underflow at \<open>2 ^ -1074\<close>.\<close>

definition quantum :: "rat \<Rightarrow> int" where
  "quantum x = max (lead_exp x - 52) (- 1074)"

definition round_even :: "rat \<Rightarrow> int" where
  "round_even x = (let f = \<lfloor>x\<rfloor>; r = x - of_int f
                   in if r < 1 / 2 then f else if 1 / 2 < r then f + 1
                      else if even f then f else f + 1)"

definition round_pos :: "rat \<Rightarrow> rat" where
  "round_pos x = of_int (round_even (x / pow2 (quantum x))) * pow2 (quantum x)"

definition round_rat :: "rat \<Rightarrow> rat" where
  "round_rat x = (if x = 0 then 0 else if 0 < x then round_pos x else - round_pos (- x))"

definition f64_of_rat :: "rat \<Rightarrow> f64" where
  "f64_of_rat x = (let r = round_rat x in if \<bar>r\<bar> < pow2 1024 then Fin r else Inf (x < 0))"

definition f64_of_int :: "int \<Rightarrow> f64" where
  "f64_of_int n = f64_of_rat (of_int n)"

subsection \<open>Arithmetic and comparison\<close>

fun f64_neg :: "f64 \<Rightarrow> f64" where
  "f64_neg (Fin a) = Fin (- a)"
| "f64_neg (Inf s) = Inf (\<not> s)"
| "f64_neg NaN = NaN"

fun f64_add :: "f64 \<Rightarrow> f64 \<Rightarrow> f64" where
  "f64_add (Fin a) (Fin b) = f64_of_rat (a + b)"
| "f64_add (Inf s) (Inf t) = (if s = t then Inf s else NaN)"
| "f64_add (Inf s) (Fin b) = Inf s"
| "f64_add (Fin a) (Inf t) = Inf t"
| "f64_add _ _ = NaN"

definition f64_sub :: "f64 \<Rightarrow> f64 \<Rightarrow> f64" where
  "f64_sub x y = f64_add x (f64_neg y)"

fun f64_mul :: "f64 \<Rightarrow> f64 \<Rightarrow> f64" where
  "f64_mul (Fin a) (Fin b) = f64_of_rat (a * b)"
| "f64_mul (Inf s) (Inf t) = Inf (s \<noteq> t)"
| "f64_mul (Inf s) (Fin b) = (if b = 0 then NaN else Inf (s \<noteq> (b < 0)))"
| "f64_mul (Fin a) (Inf t) = (if a = 0 then NaN else Inf (t \<noteq> (a < 0)))"
| "f64_mul _ _ = NaN"

fun f64_div :: "f64 \<Rightarrow> f64 \<Rightarrow> f64" where
  "f64_div (Fin a) (Fin b) =
     (if b = 0 then if a = 0 then NaN else Inf (a < 0) else f64_of_rat (a / b))"
| "f64_div (Inf s) (Fin b) = Inf (s \<noteq> (b < 0))"
| "f64_div (Fin a) (Inf t) = Fin 0"
| "f64_div _ _ = NaN"

fun f64_lt :: "f64 \<Rightarrow> f64 \<Rightarrow> bool" where
  "f64_lt (Fin a) (Fin b) = (a < b)"
| "f64_lt (Inf s) (Inf t) = (s \<and> \<not> t)"
| "f64_lt (Inf s) (Fin b) = s"
| "f64_lt (Fin a) (Inf t) = (\<not> t)"
| "f64_lt _ _ = False"

fun f64_eq :: "f64 \<Rightarrow> f64 \<Rightarrow> bool" where
  "f64_eq (Fin a) (Fin b) = (a = b)"
| "f64_eq (Inf s) (Inf t) = (s = t)"
| "f64_eq _ _ = False"

definition f64_le :: "f64 \<Rightarrow> f64 \<Rightarrow> bool" where
  "f64_le x y = (f64_lt x y \<or> f64_eq x y)"

text \<open>\<open>math.Round\<close>: half away from zero.\<close>

fun f64_round :: "f64 \<Rightarrow> f64" where
  "f64_round (Fin a) = Fin (if 0 \<le> a then of_int \<lfloor>a + 1 / 2\<rfloor> else - of_int \<lfloor>1 / 2 - a\<rfloor>)"
| "f64_round x = x"

text \<open>
  \<open>uint64(f)\<close>: truncation where the truncated value fits. Go leaves every other conversion to the
  implementation; \<open>oor\<close> stands for what it returns there.
\<close>

fun f64_to_u64 :: "(f64 \<Rightarrow> u64) \<Rightarrow> f64 \<Rightarrow> u64" where
  "f64_to_u64 oor (Fin a) =
     (if -1 < a \<and> a < 2 ^ 64 then word_of_int (if 0 \<le> a then \<lfloor>a\<rfloor> else 0) else oor (Fin a))"
| "f64_to_u64 oor x = oor x"

subsection \<open>Rounding is monotone\<close>

lemma round_even_bounds: "\<lfloor>x\<rfloor> \<le> round_even x" "round_even x \<le> \<lfloor>x\<rfloor> + 1"
  by (auto simp: round_even_def Let_def)

lemma round_even_of_int [simp]: "round_even (of_int n) = n"
  by (simp add: round_even_def)

lemma round_even_mono: "x \<le> y \<Longrightarrow> round_even x \<le> round_even y"
proof (cases "\<lfloor>x\<rfloor> = \<lfloor>y\<rfloor>")
  case True
  moreover assume "x \<le> y"
  ultimately show ?thesis by (auto simp: round_even_def Let_def)
next
  case False
  moreover assume "x \<le> y"
  then have "\<lfloor>x\<rfloor> \<le> \<lfloor>y\<rfloor>" by (rule floor_mono)
  ultimately have "\<lfloor>x\<rfloor> + 1 \<le> \<lfloor>y\<rfloor>" by simp
  with round_even_bounds [of x] round_even_bounds [of y] show ?thesis by linarith
qed

lemma pow2_pos [simp]: "0 < pow2 e"
  by (simp add: pow2_def)

lemma pow2_nonneg_exp: "pow2 (int k) = 2 ^ k"
  by (simp add: pow2_def)

lemma pow2_add: "pow2 (a + b) = pow2 a * pow2 b"
proof -
  have "pow2 e = 2 powi e" for e
    by (simp add: pow2_def power_int_def field_simps)
  then show ?thesis by (simp add: power_int_add)
qed

lemma pow2_mono: "a \<le> b \<Longrightarrow> pow2 a \<le> pow2 b"
proof -
  assume "a \<le> b"
  then have "pow2 b = pow2 a * 2 ^ nat (b - a)"
    using pow2_add [of a "b - a"] by (simp add: pow2_def [of "b - a"])
  moreover have "(1::rat) \<le> 2 ^ nat (b - a)" by (rule one_le_power) simp
  ultimately show ?thesis by simp
qed

lemma pow2_less_cancel: "pow2 a < pow2 b \<Longrightarrow> a < b"
  using pow2_mono [of b a] by (meson leD not_le)

lemma lead_exp_bounds:
  assumes "0 < x"
  shows "pow2 (lead_exp x) \<le> x" "x < pow2 (lead_exp x + 1)"
proof -
  obtain n d where nd: "quotient_of x = (n, d)" by fastforce
  then have d: "0 < d" and x: "x = of_int n / of_int d"
    by (simp_all add: quotient_of_denom_pos quotient_of_div)
  from assms x d have n: "0 < n" by (simp add: zero_less_divide_iff)
  have P: "pow2 (bitlen k - 1) \<le> of_int k \<and> of_int k < pow2 (bitlen k)" if "0 < k" for k
  proof -
    from that bitlen_bounds [OF that] have "0 < bitlen k" by (cases "0 < bitlen k") auto
    then have "pow2 (bitlen k - 1) = of_int (2 ^ nat (bitlen k - 1))" "pow2 (bitlen k) = of_int (2 ^ nat (bitlen k))"
      by (simp_all add: pow2_def)
    with bitlen_bounds [OF that] show ?thesis by (metis of_int_le_iff of_int_less_iff)
  qed
  let ?e = "bitlen n - bitlen d"
  have up: "x < pow2 (?e + 1)"
  proof -
    have "pow2 (bitlen n) = pow2 (?e + 1) * pow2 (bitlen d - 1)"
      by (simp flip: pow2_add)
    moreover have "pow2 (?e + 1) * pow2 (bitlen d - 1) \<le> pow2 (?e + 1) * of_int d"
      using P [OF d] by (simp add: mult_left_mono less_imp_le)
    ultimately have "of_int n < pow2 (?e + 1) * of_int d" using P [OF n] by linarith
    with d show ?thesis by (simp add: x pos_divide_less_eq)
  qed
  have low: "pow2 (?e - 1) \<le> x"
  proof -
    have "pow2 (bitlen n - 1) = pow2 (?e - 1) * pow2 (bitlen d)"
      by (simp flip: pow2_add)
    moreover have "pow2 (?e - 1) * of_int d \<le> pow2 (?e - 1) * pow2 (bitlen d)"
      using P [OF d] by (simp add: mult_left_mono less_imp_le)
    ultimately have "pow2 (?e - 1) * of_int d \<le> of_int n" using P [OF n] by linarith
    with d show ?thesis by (simp add: x pos_le_divide_eq)
  qed
  from up low show "pow2 (lead_exp x) \<le> x" "x < pow2 (lead_exp x + 1)"
    by (auto simp: lead_exp_def nd Let_def)
qed

lemma lead_exp_mono: "0 < x \<Longrightarrow> x \<le> y \<Longrightarrow> lead_exp x \<le> lead_exp y"
  using lead_exp_bounds [of x] lead_exp_bounds [of y] pow2_less_cancel [of "lead_exp x" "lead_exp y + 1"]
  by linarith

lemma quantum_le: "0 < x \<Longrightarrow> x \<le> y \<Longrightarrow> quantum x \<le> quantum y"
  using lead_exp_mono [of x y] by (simp add: quantum_def)

text \<open>A multiple of the quantum is a fixed point, so it separates roundings.\<close>

lemma round_pos_le_multiple:
  assumes "x \<le> of_int k * pow2 (quantum x)"
  shows "round_pos x \<le> of_int k * pow2 (quantum x)"
proof -
  from assms have "x / pow2 (quantum x) \<le> of_int k" by (simp add: pos_divide_le_eq)
  then have "round_even (x / pow2 (quantum x)) \<le> k"
    using round_even_mono [of "x / pow2 (quantum x)" "of_int k"] by simp
  then show ?thesis by (simp add: round_pos_def)
qed

lemma round_pos_ge_multiple:
  assumes "of_int k * pow2 (quantum x) \<le> x"
  shows "of_int k * pow2 (quantum x) \<le> round_pos x"
proof -
  from assms have "of_int k \<le> x / pow2 (quantum x)" by (simp add: pos_le_divide_eq)
  then have "k \<le> round_even (x / pow2 (quantum x))"
    using round_even_mono [of "of_int k" "x / pow2 (quantum x)"] by simp
  then show ?thesis by (simp add: round_pos_def)
qed

lemma round_pos_mono:
  assumes "0 < x" "x \<le> y"
  shows "round_pos x \<le> round_pos y"
proof (cases "quantum x = quantum y")
  case True
  have "x / pow2 (quantum y) \<le> y / pow2 (quantum y)"
    using assms by (simp add: divide_right_mono less_imp_le)
  with True show ?thesis
    by (simp add: round_pos_def round_even_mono)
next
  case False
  with quantum_le [OF assms] have q: "quantum x < quantum y" by simp
  then have ey: "quantum y = lead_exp y - 52" by (auto simp: quantum_def)
  have yl: "of_int (2 ^ 52) * pow2 (quantum y) \<le> y"
  proof -
    have "of_int (2 ^ 52) * pow2 (quantum y) = pow2 (lead_exp y)"
      using pow2_add [of 52 "quantum y"] by (simp add: ey pow2_def [of 52])
    then show ?thesis using lead_exp_bounds(1) [of y] assms by simp
  qed
  let ?m = "pow2 (lead_exp y)"
  have "x \<le> ?m"
    using lead_exp_bounds [of x] assms lead_exp_mono [OF assms] q pow2_mono [of "lead_exp x + 1" "lead_exp y"]
    by (auto simp: quantum_def split: if_splits)
  moreover have "?m = of_int (2 ^ nat (lead_exp y - quantum x)) * pow2 (quantum x)"
    using pow2_add [of "lead_exp y - quantum x" "quantum x"] q ey
    by (simp add: pow2_def [of "lead_exp y - quantum x"])
  ultimately have "round_pos x \<le> ?m"
    using round_pos_le_multiple [of x "2 ^ nat (lead_exp y - quantum x)"] by simp
  also have "?m = of_int (2 ^ 52) * pow2 (quantum y)"
    using pow2_add [of 52 "quantum y"] by (simp add: ey pow2_def [of 52])
  also have "\<dots> \<le> round_pos y" by (rule round_pos_ge_multiple [OF yl])
  finally show ?thesis .
qed

lemma round_pos_nonneg: "0 < x \<Longrightarrow> 0 \<le> round_pos x"
  using round_pos_ge_multiple [of 0 x] by simp

lemma round_rat_mono: "x \<le> y \<Longrightarrow> round_rat x \<le> round_rat y"
proof -
  assume xy: "x \<le> y"
  consider "0 < x" | "x \<le> 0" "0 \<le> y" | "y < 0" by linarith
  then show ?thesis
  proof cases
    case 1 then show ?thesis using xy round_pos_mono [of x y] by (simp add: round_rat_def)
  next
    case 2 then show ?thesis using round_pos_nonneg [of y] round_pos_nonneg [of "- x"]
      by (auto simp: round_rat_def)
  next
    case 3 then show ?thesis using xy round_pos_mono [of "- y" "- x"] by (simp add: round_rat_def)
  qed
qed

lemma round_rat_minus: "round_rat (- x) = - round_rat x"
  by (simp add: round_rat_def)

lemma round_rat_of_int:
  assumes "\<bar>n\<bar> \<le> 2 ^ 53"
  shows "round_rat (of_int n) = of_int n"
proof -
  have pos: "round_pos (of_int m) = of_int m" if m: "0 < m" "m \<le> 2 ^ 53" for m
  proof -
    let ?x = "of_int m :: rat"
    have e: "lead_exp ?x \<le> 53"
    proof -
      have "pow2 (lead_exp ?x) < pow2 54"
        using lead_exp_bounds(1) [of ?x] m by (auto simp: pow2_def [of 54] intro: le_less_trans)
      then show ?thesis using pow2_less_cancel [of "lead_exp ?x" 54] by simp
    qed
    have "\<exists>k. ?x = of_int k * pow2 (quantum ?x)"
    proof (cases "lead_exp ?x = 53")
      case True
      then have "(2::rat) ^ 53 \<le> ?x" using lead_exp_bounds(1) [of ?x] m by (simp add: pow2_def)
      then have "of_int (2 ^ 53) \<le> ?x" by simp
      then have "2 ^ 53 \<le> m" by (simp only: of_int_le_iff)
      with m have "m = 2 ^ 53" by simp
      then have "?x = of_int (2 ^ 52) * 2" by simp
      moreover have "pow2 (quantum ?x) = 2" unfolding quantum_def True by (simp add: pow2_def)
      ultimately have "?x = of_int (2 ^ 52) * pow2 (quantum ?x)" by (simp only:)
      then show ?thesis by blast
    next
      case False
      with e have "quantum ?x \<le> 0" by (simp add: quantum_def)
      then have "?x = of_int (m * 2 ^ nat (- quantum ?x)) * pow2 (quantum ?x)"
        by (auto simp: pow2_def)
      then show ?thesis by blast
    qed
    then obtain k where "?x = of_int k * pow2 (quantum ?x)" by blast
    then show ?thesis using round_pos_le_multiple [of ?x k] round_pos_ge_multiple [of k ?x] by simp
  qed
  consider "n = 0" | "0 < n" | "n < 0" by linarith
  then show ?thesis
  proof cases
    case 1 then show ?thesis by (simp add: round_rat_def)
  next
    case 2 then show ?thesis using assms pos [of n] by (simp add: round_rat_def)
  next
    case 3
    then have "round_pos (of_int (- n)) = of_int (- n)" using assms by (intro pos) simp_all
    with 3 show ?thesis by (simp add: round_rat_def)
  qed
qed

lemma pow2_1024: "pow2 1024 = 2 ^ 1024"
  by (simp add: pow2_def)

lemma small_finite: "\<bar>x\<bar> \<le> of_int n \<Longrightarrow> n \<le> 2 ^ 53 \<Longrightarrow> f64_of_rat x = Fin (round_rat x)"
proof -
  assume a: "\<bar>x\<bar> \<le> of_int n" and n: "n \<le> 2 ^ 53"
  from a have "0 \<le> (of_int n :: rat)" by linarith
  then have "0 \<le> n" by simp
  with n have r: "round_rat (of_int n) = of_int n" by (intro round_rat_of_int) simp
  from a have "round_rat x \<le> of_int n" "round_rat (- x) \<le> of_int n"
    using round_rat_mono [of x "of_int n"] round_rat_mono [of "- x" "of_int n"] r by auto
  then have "\<bar>round_rat x\<bar> \<le> of_int n" by (simp add: round_rat_minus)
  also have "of_int n \<le> (of_int (2 ^ 53) :: rat)" using n by (simp only: of_int_le_iff)
  also have "\<dots> < pow2 1024"
    unfolding pow2_1024 by simp
  finally show ?thesis by (simp add: f64_of_rat_def Let_def)
qed

lemma f64_of_int_exact: "\<bar>n\<bar> \<le> 2 ^ 53 \<Longrightarrow> f64_of_int n = Fin (of_int n)"
  using small_finite [of "of_int n" "\<bar>n\<bar>"] by (simp add: f64_of_int_def round_rat_of_int)

subsection \<open>The rounding contract\<close>

text \<open>
  What the components rely on: rounding is monotone and leaves the integers up to \<open>2 ^ 53\<close> alone.
  A value between two such integers therefore stays between them.
\<close>

locale monotone_rounding =
  fixes rnd :: "rat \<Rightarrow> rat"
  assumes rnd_mono: "x \<le> y \<Longrightarrow> rnd x \<le> rnd y"
    and rnd_of_int: "\<bar>n\<bar> \<le> 2 ^ 53 \<Longrightarrow> rnd (of_int n) = of_int n"
begin

lemma rnd_le_int: "x \<le> of_int n \<Longrightarrow> \<bar>n\<bar> \<le> 2 ^ 53 \<Longrightarrow> rnd x \<le> of_int n"
  using rnd_mono [of x "of_int n"] rnd_of_int [of n] by simp

lemma rnd_ge_int: "of_int n \<le> x \<Longrightarrow> \<bar>n\<bar> \<le> 2 ^ 53 \<Longrightarrow> of_int n \<le> rnd x"
  using rnd_mono [of "of_int n" x] rnd_of_int [of n] by simp

lemma rnd_nonneg: "0 \<le> x \<Longrightarrow> 0 \<le> rnd x"
  using rnd_ge_int [of 0 x] by simp

lemma rnd_nonpos: "x \<le> 0 \<Longrightarrow> rnd x \<le> 0"
  using rnd_le_int [of x 0] by simp

end

interpretation b64: monotone_rounding round_rat
  by unfold_locales (simp_all add: round_rat_mono round_rat_of_int)

lemma f64_le_simps [simp]:
  "f64_le (Fin a) (Fin b) = (a \<le> b)" "f64_le (Fin a) (Inf s) = (\<not> s)" "f64_le (Inf s) (Fin a) = s"
  by (auto simp: f64_le_def)

lemma f64_sub_Fin [simp]: "f64_sub (Fin a) (Fin b) = f64_of_rat (a - b)"
  by (simp add: f64_sub_def)

end
