(* ===== verification/Snmp_Snapshot.thy ===== *)
theory Snmp_Snapshot
  imports Snmp_Value Float64
begin

text \<open>
  The records of \<open>internal/snmp/snapshot.go\<close>. A Go pointer field that may be nil is an
  \<open>option\<close>; field names carry a prefix per record because HOL field names are global. A fresh row
  is the record's Go zero value with its index set.
\<close>

record iface =
  if_Index :: int
  if_Name :: string
  if_Descr :: string
  if_Alias :: string
  if_Type :: int
  if_Kind :: string
  if_IsUplink :: bool
  if_MTU :: int
  if_SpeedBps :: u64
  if_MAC :: string
  if_AdminUp :: bool
  if_OperUp :: bool
  if_LastChangeS :: int
  if_InOctets :: u64
  if_OutOctets :: u64
  if_InUcast :: u64
  if_OutUcast :: u64
  if_InErrors :: u64
  if_OutErrors :: u64
  if_InDiscards :: u64
  if_OutDiscards :: u64
  if_InBps :: "u64 option"
  if_OutBps :: "u64 option"

definition fresh_iface :: "int \<Rightarrow> iface" where
  "fresh_iface idx =
     \<lparr>if_Index = idx, if_Name = [], if_Descr = [], if_Alias = [], if_Type = 0, if_Kind = [],
      if_IsUplink = False, if_MTU = 0, if_SpeedBps = 0, if_MAC = [], if_AdminUp = False,
      if_OperUp = False, if_LastChangeS = 0, if_InOctets = 0, if_OutOctets = 0, if_InUcast = 0,
      if_OutUcast = 0, if_InErrors = 0, if_OutErrors = 0, if_InDiscards = 0, if_OutDiscards = 0,
      if_InBps = None, if_OutBps = None\<rparr>"

record entity =
  ent_Index :: int
  ent_Class :: int
  ent_Description :: string
  ent_Name :: string
  ent_HardwareRev :: string
  ent_FirmwareRev :: string
  ent_SoftwareRev :: string
  ent_Serial :: string
  ent_ModelName :: string

definition fresh_entity :: "int \<Rightarrow> entity" where
  "fresh_entity idx =
     \<lparr>ent_Index = idx, ent_Class = 0, ent_Description = [], ent_Name = [], ent_HardwareRev = [],
      ent_FirmwareRev = [], ent_SoftwareRev = [], ent_Serial = [], ent_ModelName = []\<rparr>"

record lldp =
  lldp_LocalIfIndex :: int
  lldp_LocalPort :: string
  lldp_RemoteSysName :: string
  lldp_RemoteSysDescr :: string
  lldp_RemotePortID :: string
  lldp_RemotePortDescr :: string
  lldp_RemoteChassisID :: string
  lldp_RemoteCaps :: int

definition fresh_lldp :: "int \<Rightarrow> lldp" where
  "fresh_lldp idx =
     \<lparr>lldp_LocalIfIndex = idx, lldp_LocalPort = [], lldp_RemoteSysName = [], lldp_RemoteSysDescr = [],
      lldp_RemotePortID = [], lldp_RemotePortDescr = [], lldp_RemoteChassisID = [], lldp_RemoteCaps = 0\<rparr>"

record cdp =
  cdp_LocalIfIndex :: int
  cdp_RemoteSysName :: string
  cdp_RemotePortID :: string
  cdp_RemoteAddress :: string
  cdp_RemotePlatform :: string
  cdp_RemoteVersion :: string
  cdp_RemoteCaps :: int

definition fresh_cdp :: "int \<Rightarrow> cdp" where
  "fresh_cdp idx =
     \<lparr>cdp_LocalIfIndex = idx, cdp_RemoteSysName = [], cdp_RemotePortID = [], cdp_RemoteAddress = [],
      cdp_RemotePlatform = [], cdp_RemoteVersion = [], cdp_RemoteCaps = 0\<rparr>"

record sysinfo =
  sys_Description :: string
  sys_Name :: string
  sys_Contact :: string
  sys_Location :: string
  sys_ObjectID :: string
  sys_UptimeTicks :: u64
  sys_UptimeSecs :: int

definition zero_sysinfo :: sysinfo where
  "zero_sysinfo = \<lparr>sys_Description = [], sys_Name = [], sys_Contact = [], sys_Location = [],
     sys_ObjectID = [], sys_UptimeTicks = 0, sys_UptimeSecs = 0\<rparr>"

record chassis =
  ch_CPUPct :: "f64 option"
  ch_MemUsedBytes :: "u64 option"
  ch_MemTotalBytes :: "u64 option"
  ch_TempC :: "f64 option"

definition zero_chassis :: chassis where
  "zero_chassis = \<lparr>ch_CPUPct = None, ch_MemUsedBytes = None, ch_MemTotalBytes = None, ch_TempC = None\<rparr>"

record ups_health =
  ups_Model :: string
  ups_FirmwareVersion :: string
  ups_SerialNumber :: string
  ups_ManufactureDate :: string
  ups_BatteryReplaceDate :: string
  ups_BatteryStatus :: "int option"
  ups_BatteryReplaceNeeded :: "bool option"
  ups_OutputStatus :: "int option"
  ups_InputLineFailCause :: "int option"
  ups_EstRuntimeMin :: "int option"
  ups_EstChargePct :: "int option"
  ups_BatteryTempC :: "f64 option"
  ups_OutputLoadPct :: "int option"
  ups_InputVoltage :: "f64 option"
  ups_OutputVoltage :: "f64 option"

record synology_disk =
  disk_Index :: int
  disk_ID :: string
  disk_Model :: string
  disk_Type :: string
  disk_Status :: int
  disk_TempC :: f64

record synology_volume =
  raid_Index :: int
  raid_Name :: string
  raid_Status :: int

record synology_health =
  syno_Model :: string
  syno_Serial :: string
  syno_DSMVersion :: string
  syno_SystemStatus :: "int option"
  syno_PowerStatus :: "int option"
  syno_TempC :: "f64 option"
  syno_Disks :: "synology_disk list"
  syno_Volumes :: "synology_volume list"

record paloalto_health =
  pan_SessionActive :: "int option"
  pan_SessionMax :: "int option"
  pan_SessionActiveTcp :: "int option"
  pan_SessionActiveUdp :: "int option"
  pan_SessionUtilPct :: "f64 option"

record alletra_volume =
  vol_Index :: int
  vol_Name :: string
  vol_SizeBytes :: u64
  vol_UsageBytes :: u64
  vol_UsedPct :: f64
  vol_Online :: bool

record alletra_health =
  all_GlobalVolCount :: "int option"
  all_GlobalSnapCount :: "int option"
  all_Volumes :: "alletra_volume list"

record cisco_vlan =
  vlan_ID :: int
  vlan_Name :: string
  vlan_State :: int

record cisco_extras =
  cis_VLANs :: "cisco_vlan list"
  cis_CPU5sec :: "f64 option"
  cis_CPU1min :: "f64 option"
  cis_CPU5min :: "f64 option"

record oid_metric =
  om_PackID :: string
  om_Key :: string
  om_Value :: f64
  om_Text :: string
  om_Unit :: string
  om_Label :: string

record vendor_health =
  vh_UPS :: "ups_health option"
  vh_Synology :: "synology_health option"
  vh_PaloAlto :: "paloalto_health option"
  vh_Alletra :: "alletra_health option"
  vh_Cisco :: "cisco_extras option"
  vh_OIDMetrics :: "oid_metric list"

definition zero_vendor :: vendor_health where
  "zero_vendor = \<lparr>vh_UPS = None, vh_Synology = None, vh_PaloAlto = None, vh_Alletra = None,
     vh_Cisco = None, vh_OIDMetrics = []\<rparr>"

text \<open>\<open>CapturedAt\<close> is a time in nanoseconds.\<close>

record snapshot =
  snap_SchemaVersion :: int
  snap_CapturedAt :: int
  snap_CollectMs :: int
  snap_System :: sysinfo
  snap_Chassis :: chassis
  snap_Interfaces :: "iface list"
  snap_Entities :: "entity list"
  snap_LLDP :: "lldp list"
  snap_CDP :: "cdp list"
  snap_Vendor :: "vendor_health option"
  snap_CollectionWarnings :: "string list"

end
