(* ===== verification/Snmp_Collect.thy ===== *)
theory Snmp_Collect
  imports Snmp_Snapshot
begin

text \<open>
  \<open>internal/snmp/collect.go\<close>: the standard collectors. Each walks a list of columns; every column
  is a root OID with a setter that reads a value and says how the row changes, or \<open>None\<close> when
  the value is not of the expected type, in which case no row is touched.

  Go iterates over a map in an unspecified order. The collectors that do so take that order as
  a parameter \<open>ord\<close>, a function that permutes the rows.
\<close>

subsection \<open>Walking columns into rows\<close>

definition key_last :: "string \<Rightarrow> int option" where
  "key_last oid = (if lastIndex oid = 0 then None else Some (lastIndex oid))"

definition walk_step ::
  "(string \<Rightarrow> 'k option) \<Rightarrow> ('k \<Rightarrow> 'r) \<Rightarrow> ('k \<Rightarrow> snmp_value \<Rightarrow> ('r \<Rightarrow> 'r) option)
     \<Rightarrow> ('k \<times> 'r) list \<Rightarrow> variable \<Rightarrow> ('k \<times> 'r) list" where
  "walk_step key fresh set_col rows kv =
     (case key (fst kv) of None \<Rightarrow> rows
      | Some k \<Rightarrow> (case set_col k (snd kv) of None \<Rightarrow> rows | Some f \<Rightarrow> upsert k (fresh k) f rows))"

definition walk_vars ::
  "(string \<Rightarrow> 'k option) \<Rightarrow> ('k \<Rightarrow> 'r) \<Rightarrow> ('k \<Rightarrow> snmp_value \<Rightarrow> ('r \<Rightarrow> 'r) option)
     \<Rightarrow> variable list \<Rightarrow> ('k \<times> 'r) list \<Rightarrow> ('k \<times> 'r) list" where
  "walk_vars key fresh set_col vars rows = foldl (walk_step key fresh set_col) rows vars"

text \<open>A walk whose error is ignored leaves the rows alone.\<close>

definition walk_ignore ::
  "session \<Rightarrow> (string \<Rightarrow> string \<Rightarrow> 'k option) \<Rightarrow> ('k \<Rightarrow> 'r) \<Rightarrow> ('k \<times> 'r) list
     \<Rightarrow> string \<times> ('k \<Rightarrow> snmp_value \<Rightarrow> ('r \<Rightarrow> 'r) option) \<Rightarrow> ('k \<times> 'r) list" where
  "walk_ignore c key fresh rows col =
     (case client_BulkWalk c (fst col) of Inl e \<Rightarrow> rows
      | Inr vars \<Rightarrow> walk_vars (key (fst col)) fresh (snd col) vars rows)"

definition walk_columns ::
  "session \<Rightarrow> (string \<Rightarrow> string \<Rightarrow> 'k option) \<Rightarrow> ('k \<Rightarrow> 'r)
     \<Rightarrow> (string \<times> ('k \<Rightarrow> snmp_value \<Rightarrow> ('r \<Rightarrow> 'r) option)) list \<Rightarrow> ('k \<times> 'r) list \<Rightarrow> ('k \<times> 'r) list" where
  "walk_columns c key fresh cols rows = foldl (walk_ignore c key fresh) rows cols"

definition by_text :: "(string \<Rightarrow> 'r \<Rightarrow> 'r) \<Rightarrow> 'k \<Rightarrow> snmp_value \<Rightarrow> ('r \<Rightarrow> 'r) option" where
  "by_text upd k v = Some (upd (value_String v))"

definition by_int :: "(int \<Rightarrow> 'r \<Rightarrow> 'r) \<Rightarrow> 'k \<Rightarrow> snmp_value \<Rightarrow> ('r \<Rightarrow> 'r) option" where
  "by_int upd k v = map_option upd (value_Int64 v)"

definition by_uint :: "(u64 \<Rightarrow> 'r \<Rightarrow> 'r) \<Rightarrow> 'k \<Rightarrow> snmp_value \<Rightarrow> ('r \<Rightarrow> 'r) option" where
  "by_uint upd k v = map_option upd (value_Uint64 v)"

subsection \<open>System group\<close>

definition oidSysDescr :: string where "oidSysDescr = ''1.3.6.1.2.1.1.1.0''"
definition oidSysObjectID :: string where "oidSysObjectID = ''1.3.6.1.2.1.1.2.0''"
definition oidSysUpTime :: string where "oidSysUpTime = ''1.3.6.1.2.1.1.3.0''"
definition oidSysContact :: string where "oidSysContact = ''1.3.6.1.2.1.1.4.0''"
definition oidSysName :: string where "oidSysName = ''1.3.6.1.2.1.1.5.0''"
definition oidSysLocation :: string where "oidSysLocation = ''1.3.6.1.2.1.1.6.0''"

text \<open>A missing map entry reads as Go's zero \<open>Value\<close>, whose text is empty.\<close>

definition get_value :: "(string \<times> snmp_value) list \<Rightarrow> string \<Rightarrow> snmp_value" where
  "get_value res oid = (case map_of res oid of None \<Rightarrow> VNil | Some v \<Rightarrow> v)"

definition CollectSystem :: "session \<Rightarrow> string + sysinfo" where
  "CollectSystem c =
     (case client_Get c [oidSysDescr, oidSysObjectID, oidSysUpTime, oidSysContact, oidSysName, oidSysLocation] of
        Inl e \<Rightarrow> Inl e
      | Inr res \<Rightarrow>
          let s = zero_sysinfo\<lparr>sys_Description := value_String (get_value res oidSysDescr),
                    sys_ObjectID := cleanOID (value_String (get_value res oidSysObjectID)),
                    sys_Contact := value_String (get_value res oidSysContact),
                    sys_Name := value_String (get_value res oidSysName),
                    sys_Location := value_String (get_value res oidSysLocation)\<rparr>
          in Inr (case value_Uint64 (get_value res oidSysUpTime) of
                    None \<Rightarrow> s
                  | Some u \<Rightarrow> s\<lparr>sys_UptimeTicks := u, sys_UptimeSecs := int (unat u div 100)\<rparr>))"

subsection \<open>Interfaces\<close>

definition oidIfDescr :: string where "oidIfDescr = ''1.3.6.1.2.1.2.2.1.2''"
definition oidIfType :: string where "oidIfType = ''1.3.6.1.2.1.2.2.1.3''"
definition oidIfMTU :: string where "oidIfMTU = ''1.3.6.1.2.1.2.2.1.4''"
definition oidIfPhys :: string where "oidIfPhys = ''1.3.6.1.2.1.2.2.1.6''"
definition oidIfAdmin :: string where "oidIfAdmin = ''1.3.6.1.2.1.2.2.1.7''"
definition oidIfOper :: string where "oidIfOper = ''1.3.6.1.2.1.2.2.1.8''"
definition oidIfLastChg :: string where "oidIfLastChg = ''1.3.6.1.2.1.2.2.1.9''"
definition oidIfInErrs :: string where "oidIfInErrs = ''1.3.6.1.2.1.2.2.1.14''"
definition oidIfOutErrs :: string where "oidIfOutErrs = ''1.3.6.1.2.1.2.2.1.20''"
definition oidIfInDisc :: string where "oidIfInDisc = ''1.3.6.1.2.1.2.2.1.13''"
definition oidIfOutDisc :: string where "oidIfOutDisc = ''1.3.6.1.2.1.2.2.1.19''"
definition oidIfName :: string where "oidIfName = ''1.3.6.1.2.1.31.1.1.1.1''"
definition oidIfHCInOctets :: string where "oidIfHCInOctets = ''1.3.6.1.2.1.31.1.1.1.6''"
definition oidIfHCInUcast :: string where "oidIfHCInUcast = ''1.3.6.1.2.1.31.1.1.1.7''"
definition oidIfHCOutOctets :: string where "oidIfHCOutOctets = ''1.3.6.1.2.1.31.1.1.1.10''"
definition oidIfHCOutUcast :: string where "oidIfHCOutUcast = ''1.3.6.1.2.1.31.1.1.1.11''"
definition oidIfHighSpeed :: string where "oidIfHighSpeed = ''1.3.6.1.2.1.31.1.1.1.15''"
definition oidIfAlias :: string where "oidIfAlias = ''1.3.6.1.2.1.31.1.1.1.18''"

type_synonym 'r column = "string \<times> (int \<Rightarrow> snmp_value \<Rightarrow> ('r \<Rightarrow> 'r) option)"

definition descr_column :: "iface column" where
  "descr_column = (oidIfDescr, by_text (\<lambda>s r. r\<lparr>if_Descr := s\<rparr>))"

definition iface_columns :: "iface column list" where
  "iface_columns =
    [(oidIfName, by_text (\<lambda>s r. r\<lparr>if_Name := s\<rparr>)),
     (oidIfAlias, by_text (\<lambda>s r. r\<lparr>if_Alias := s\<rparr>)),
     (oidIfType, by_int (\<lambda>n r. r\<lparr>if_Type := i32 n\<rparr>)),
     (oidIfMTU, by_int (\<lambda>n r. r\<lparr>if_MTU := i32 n\<rparr>)),
     (oidIfPhys, \<lambda>k v. Some (\<lambda>r. r\<lparr>if_MAC := formatMAC (value_Bytes v)\<rparr>)),
     (oidIfAdmin, by_int (\<lambda>n r. r\<lparr>if_AdminUp := (n = 1)\<rparr>)),
     (oidIfOper, by_int (\<lambda>n r. r\<lparr>if_OperUp := (n = 1)\<rparr>)),
     (oidIfLastChg, by_uint (\<lambda>n r. r\<lparr>if_LastChangeS := int (unat n div 100)\<rparr>)),
     (oidIfHighSpeed, \<lambda>k v. case value_Uint64 v of None \<Rightarrow> None
        | Some n \<Rightarrow> if 0 < n then Some (\<lambda>r. r\<lparr>if_SpeedBps := n * 1000000\<rparr>) else None),
     (oidIfHCInOctets, by_uint (\<lambda>n r. r\<lparr>if_InOctets := n\<rparr>)),
     (oidIfHCOutOctets, by_uint (\<lambda>n r. r\<lparr>if_OutOctets := n\<rparr>)),
     (oidIfHCInUcast, by_uint (\<lambda>n r. r\<lparr>if_InUcast := n\<rparr>)),
     (oidIfHCOutUcast, by_uint (\<lambda>n r. r\<lparr>if_OutUcast := n\<rparr>)),
     (oidIfInErrs, by_uint (\<lambda>n r. r\<lparr>if_InErrors := n\<rparr>)),
     (oidIfOutErrs, by_uint (\<lambda>n r. r\<lparr>if_OutErrors := n\<rparr>)),
     (oidIfInDisc, by_uint (\<lambda>n r. r\<lparr>if_InDiscards := n\<rparr>)),
     (oidIfOutDisc, by_uint (\<lambda>n r. r\<lparr>if_OutDiscards := n\<rparr>))]"

definition classifyInterfaceKind :: "int \<Rightarrow> string \<Rightarrow> string \<Rightarrow> string" where
  "classifyInterfaceKind ifType name descr =
     (let n = to_lower name; d = to_lower descr in
      if has_prefix n ''stack'' \<or> has_prefix d ''stackport'' \<or> has_prefix d ''stacksub'' then ''stack''
      else if has_prefix n ''bl'' \<and> contains d ''bluetooth'' then ''other''
      else if has_prefix n ''nu'' \<or> has_prefix d ''null'' then ''other''
      else if has_prefix n ''ap'' \<and> has_prefix d ''appgigabit'' then ''other''
      else if ifType = 24 then ''loopback''
      else if ifType = 131 \<or> ifType = 150 then ''tunnel''
      else if ifType = 53 \<or> ifType = 135 \<or> ifType = 136 then ''vlan''
      else if ifType = 161 then ''lag''
      else if ifType = 1 then ''other''
      else if has_prefix n ''vl'' \<or> has_prefix d ''vlan'' then ''vlan''
      else if has_prefix n ''lo'' \<or> has_prefix d ''loopback'' then ''loopback''
      else if has_prefix n ''tu'' \<or> has_prefix d ''tunnel'' then ''tunnel''
      else if has_prefix n ''po'' \<or> has_prefix d ''port-channel'' then ''lag''
      else if has_prefix n ''bd'' \<or> has_prefix d ''bdi'' then ''vlan''
      else if has_prefix n ''ma'' \<or> has_prefix d ''management'' then ''mgmt''
      else if has_prefix n ''gi0/0'' \<or> has_prefix d ''gigabitethernet0/0'' then ''mgmt''
      else ''physical'')"

definition looksLikeUplink :: "iface \<Rightarrow> bool" where
  "looksLikeUplink i =
     (if if_Kind i \<in> {''loopback'', ''tunnel'', ''stack'', ''other''} then False
      else if if_Kind i = ''lag'' then True
      else let a = to_lower (if_Alias i) in
        if contains a ''uplink'' \<or> contains a ''trunk'' \<or> contains a ''to-'' \<or> contains a ''to_'' then True
        else if 10000000000 \<le> if_SpeedBps i \<and> if_OperUp i then True else False)"

definition finish_iface :: "iface \<Rightarrow> iface" where
  "finish_iface r0 =
     (let r1 = (if if_Name r0 = [] then r0\<lparr>if_Name := if_Descr r0\<rparr> else r0);
          r2 = r1\<lparr>if_Kind := classifyInterfaceKind (if_Type r1) (if_Name r1) (if_Descr r1)\<rparr>
      in r2\<lparr>if_IsUplink := looksLikeUplink r2\<rparr>)"

definition iface_rows :: "session \<Rightarrow> variable list \<Rightarrow> (int \<times> iface) list" where
  "iface_rows c vars =
     walk_columns c (\<lambda>_. key_last) fresh_iface iface_columns
       (walk_vars key_last fresh_iface (snd descr_column) vars [])"

definition CollectInterfaces ::
  "((int \<times> iface) list \<Rightarrow> (int \<times> iface) list) \<Rightarrow> session \<Rightarrow> string + iface list" where
  "CollectInterfaces ord c =
     (case client_BulkWalk c (fst descr_column) of Inl e \<Rightarrow> Inl e
      | Inr vars \<Rightarrow>
          Inr (insertion_sort if_Index (map (finish_iface \<circ> snd) (ord (iface_rows c vars)))))"

definition markUplinksFromNeighbors :: "iface list \<Rightarrow> lldp list \<Rightarrow> cdp list \<Rightarrow> iface list" where
  "markUplinksFromNeighbors ifs ls cs =
     (if (ls = [] \<and> cs = []) \<or> ifs = [] then ifs
      else let m1 = foldl (\<lambda>m n. if lldp_LocalIfIndex n \<noteq> 0 then lldp_LocalIfIndex n # m else m) [] ls;
               m2 = foldl (\<lambda>m n. if cdp_LocalIfIndex n \<noteq> 0 then cdp_LocalIfIndex n # m else m) m1 cs
           in map (\<lambda>i. if if_Index i \<in> set m2 then i\<lparr>if_IsUplink := True\<rparr> else i) ifs)"

subsection \<open>Entities\<close>

definition oidEntDescr :: string where "oidEntDescr = ''1.3.6.1.2.1.47.1.1.1.1.2''"
definition oidEntClass :: string where "oidEntClass = ''1.3.6.1.2.1.47.1.1.1.1.5''"
definition oidEntName :: string where "oidEntName = ''1.3.6.1.2.1.47.1.1.1.1.7''"
definition oidEntHWRev :: string where "oidEntHWRev = ''1.3.6.1.2.1.47.1.1.1.1.8''"
definition oidEntFWRev :: string where "oidEntFWRev = ''1.3.6.1.2.1.47.1.1.1.1.9''"
definition oidEntSWRev :: string where "oidEntSWRev = ''1.3.6.1.2.1.47.1.1.1.1.10''"
definition oidEntSerial :: string where "oidEntSerial = ''1.3.6.1.2.1.47.1.1.1.1.11''"
definition oidEntModelName :: string where "oidEntModelName = ''1.3.6.1.2.1.47.1.1.1.1.13''"

definition entity_columns :: "entity column list" where
  "entity_columns =
    [(oidEntClass, by_int (\<lambda>n r. r\<lparr>ent_Class := i32 n\<rparr>)),
     (oidEntDescr, by_text (\<lambda>s r. r\<lparr>ent_Description := s\<rparr>)),
     (oidEntName, by_text (\<lambda>s r. r\<lparr>ent_Name := s\<rparr>)),
     (oidEntHWRev, by_text (\<lambda>s r. r\<lparr>ent_HardwareRev := s\<rparr>)),
     (oidEntFWRev, by_text (\<lambda>s r. r\<lparr>ent_FirmwareRev := s\<rparr>)),
     (oidEntSWRev, by_text (\<lambda>s r. r\<lparr>ent_SoftwareRev := s\<rparr>)),
     (oidEntSerial, by_text (\<lambda>s r. r\<lparr>ent_Serial := s\<rparr>)),
     (oidEntModelName, by_text (\<lambda>s r. r\<lparr>ent_ModelName := s\<rparr>))]"

definition CollectEntities ::
  "((int \<times> entity) list \<Rightarrow> (int \<times> entity) list) \<Rightarrow> session \<Rightarrow> string + entity list" where
  "CollectEntities ord c =
     (let rows = walk_columns c (\<lambda>_. key_last) fresh_entity entity_columns [];
          kept = filter (\<lambda>r. ent_Class r \<in> {3, 4, 5, 6, 7, 8, 9}) (map snd (ord rows))
      in Inr (insertion_sort ent_Index kept))"

subsection \<open>LLDP and CDP neighbours\<close>

definition oidLldpRemChassisID :: string where "oidLldpRemChassisID = ''1.0.8802.1.1.2.1.4.1.1.5''"
definition oidLldpRemPortID :: string where "oidLldpRemPortID = ''1.0.8802.1.1.2.1.4.1.1.7''"
definition oidLldpRemPortDescr :: string where "oidLldpRemPortDescr = ''1.0.8802.1.1.2.1.4.1.1.8''"
definition oidLldpRemSysName :: string where "oidLldpRemSysName = ''1.0.8802.1.1.2.1.4.1.1.9''"
definition oidLldpRemSysDescr :: string where "oidLldpRemSysDescr = ''1.0.8802.1.1.2.1.4.1.1.10''"
definition oidLldpRemSysCapEnabled :: string where "oidLldpRemSysCapEnabled = ''1.0.8802.1.1.2.1.4.1.1.12''"

type_synonym lldp_key = "int \<times> int \<times> int"

definition lldp_key_of :: "string \<Rightarrow> string \<Rightarrow> lldp_key option" where
  "lldp_key_of base oid =
     (case suffixParts oid base of t # l # i # rest \<Rightarrow> Some (t, l, i) | _ \<Rightarrow> None)"

definition lldp_caps :: "lldp_key \<Rightarrow> snmp_value \<Rightarrow> (lldp \<Rightarrow> lldp) option" where
  "lldp_caps k v =
     (case value_Bytes v of b # bs \<Rightarrow> Some (\<lambda>r. r\<lparr>lldp_RemoteCaps := int (char_code b)\<rparr>)
      | [] \<Rightarrow> by_int (\<lambda>n r. r\<lparr>lldp_RemoteCaps := i32 n\<rparr>) k v)"

definition lldp_columns :: "(string \<times> (lldp_key \<Rightarrow> snmp_value \<Rightarrow> (lldp \<Rightarrow> lldp) option)) list" where
  "lldp_columns =
    [(oidLldpRemSysName, by_text (\<lambda>s r. r\<lparr>lldp_RemoteSysName := s\<rparr>)),
     (oidLldpRemSysDescr, by_text (\<lambda>s r. r\<lparr>lldp_RemoteSysDescr := s\<rparr>)),
     (oidLldpRemPortID, by_text (\<lambda>s r. r\<lparr>lldp_RemotePortID := s\<rparr>)),
     (oidLldpRemPortDescr, by_text (\<lambda>s r. r\<lparr>lldp_RemotePortDescr := s\<rparr>)),
     (oidLldpRemChassisID, \<lambda>k v. Some (\<lambda>r. r\<lparr>lldp_RemoteChassisID := formatMAC (value_Bytes v)\<rparr>)),
     (oidLldpRemSysCapEnabled, lldp_caps)]"

definition CollectLLDP ::
  "((lldp_key \<times> lldp) list \<Rightarrow> (lldp_key \<times> lldp) list) \<Rightarrow> session \<Rightarrow> string + lldp list" where
  "CollectLLDP ord c =
     (let rows = walk_columns c lldp_key_of (\<lambda>k. fresh_lldp (fst (snd k))) lldp_columns []
      in Inr (map snd (ord rows)))"

definition oidCdpCacheAddrType :: string where "oidCdpCacheAddrType = ''1.3.6.1.4.1.9.9.23.1.2.1.1.3''"
definition oidCdpCacheAddress :: string where "oidCdpCacheAddress = ''1.3.6.1.4.1.9.9.23.1.2.1.1.4''"
definition oidCdpCacheVersion :: string where "oidCdpCacheVersion = ''1.3.6.1.4.1.9.9.23.1.2.1.1.5''"
definition oidCdpCacheDeviceID :: string where "oidCdpCacheDeviceID = ''1.3.6.1.4.1.9.9.23.1.2.1.1.6''"
definition oidCdpCacheDevPort :: string where "oidCdpCacheDevPort = ''1.3.6.1.4.1.9.9.23.1.2.1.1.7''"
definition oidCdpCachePlatform :: string where "oidCdpCachePlatform = ''1.3.6.1.4.1.9.9.23.1.2.1.1.8''"
definition oidCdpCacheCaps :: string where "oidCdpCacheCaps = ''1.3.6.1.4.1.9.9.23.1.2.1.1.9''"

type_synonym cdp_key = "int \<times> int"

definition cdp_key_of :: "string \<Rightarrow> string \<Rightarrow> cdp_key option" where
  "cdp_key_of base oid =
     (case suffixParts oid base of i # d # rest \<Rightarrow> Some (i, d) | _ \<Rightarrow> None)"

definition cdp_columns :: "(string \<times> (cdp_key \<Rightarrow> snmp_value \<Rightarrow> (cdp \<Rightarrow> cdp) option)) list" where
  "cdp_columns =
    [(oidCdpCacheDeviceID, by_text (\<lambda>s r. r\<lparr>cdp_RemoteSysName := s\<rparr>)),
     (oidCdpCacheDevPort, by_text (\<lambda>s r. r\<lparr>cdp_RemotePortID := s\<rparr>)),
     (oidCdpCachePlatform, by_text (\<lambda>s r. r\<lparr>cdp_RemotePlatform := s\<rparr>)),
     (oidCdpCacheVersion, by_text (\<lambda>s r. r\<lparr>cdp_RemoteVersion := s\<rparr>)),
     (oidCdpCacheCaps, by_int (\<lambda>n r. r\<lparr>cdp_RemoteCaps := i32 n\<rparr>))]"

definition dotted_quad :: "string \<Rightarrow> string" where
  "dotted_quad b = join_str ''.'' (map (\<lambda>x. dec_nat (char_code x)) b)"

text \<open>The address column is read only under keys whose address type was reported as 1 (IPv4).\<close>

definition cdp_address :: "(cdp_key \<times> int) list \<Rightarrow> cdp_key \<Rightarrow> snmp_value \<Rightarrow> (cdp \<Rightarrow> cdp) option" where
  "cdp_address types k v =
     (let b = value_Bytes v
      in if map_of types k = Some 1 \<and> length b = 4
         then Some (\<lambda>r. r\<lparr>cdp_RemoteAddress := dotted_quad b\<rparr>) else None)"

definition CollectCDP ::
  "((cdp_key \<times> cdp) list \<Rightarrow> (cdp_key \<times> cdp) list) \<Rightarrow> session \<Rightarrow> string + cdp list" where
  "CollectCDP ord c =
     (let fresh = (\<lambda>k. fresh_cdp (fst k));
          rows = walk_columns c cdp_key_of fresh cdp_columns [];
          types = walk_columns c cdp_key_of (\<lambda>_. 0) [(oidCdpCacheAddrType, by_int (\<lambda>n _. i32 n))] [];
          rows' = walk_columns c cdp_key_of fresh [(oidCdpCacheAddress, cdp_address types)] rows
      in Inr (filter (\<lambda>r. cdp_RemoteSysName r \<noteq> [] \<or> cdp_RemoteAddress r \<noteq> []) (map snd (ord rows'))))"

subsection \<open>The whole poll\<close>

record map_orders =
  ord_ifaces :: "(int \<times> iface) list \<Rightarrow> (int \<times> iface) list"
  ord_entities :: "(int \<times> entity) list \<Rightarrow> (int \<times> entity) list"
  ord_lldp :: "(lldp_key \<times> lldp) list \<Rightarrow> (lldp_key \<times> lldp) list"
  ord_cdp :: "(cdp_key \<times> cdp) list \<Rightarrow> (cdp_key \<times> cdp) list"

text \<open>Each collector either fills its part of the snapshot or adds a warning.\<close>

definition collect_part ::
  "string \<Rightarrow> string + 'a \<Rightarrow> ('a \<Rightarrow> snapshot \<Rightarrow> snapshot) \<Rightarrow> snapshot \<Rightarrow> snapshot" where
  "collect_part name res put s =
     (case res of
        Inl e \<Rightarrow> s\<lparr>snap_CollectionWarnings := snap_CollectionWarnings s @ [name @ '': '' @ e]\<rparr>
      | Inr x \<Rightarrow> put x s)"

text \<open>\<open>start\<close> and \<open>stop\<close> are the two readings of the clock, in nanoseconds.\<close>

definition CollectAll :: "map_orders \<Rightarrow> int \<Rightarrow> int \<Rightarrow> session \<Rightarrow> snapshot" where
  "CollectAll ords start stop c =
     (let s0 = \<lparr>snap_SchemaVersion = 2, snap_CapturedAt = start, snap_CollectMs = 0,
                snap_System = zero_sysinfo, snap_Chassis = zero_chassis, snap_Interfaces = [],
                snap_Entities = [], snap_LLDP = [], snap_CDP = [], snap_Vendor = None,
                snap_CollectionWarnings = []\<rparr>;
          s1 = collect_part ''system'' (CollectSystem c) (\<lambda>x s. s\<lparr>snap_System := x\<rparr>) s0;
          s2 = collect_part ''interfaces'' (CollectInterfaces (ord_ifaces ords) c)
                 (\<lambda>x s. s\<lparr>snap_Interfaces := x\<rparr>) s1;
          s3 = collect_part ''entity'' (CollectEntities (ord_entities ords) c)
                 (\<lambda>x s. s\<lparr>snap_Entities := x\<rparr>) s2;
          s4 = collect_part ''lldp'' (CollectLLDP (ord_lldp ords) c) (\<lambda>x s. s\<lparr>snap_LLDP := x\<rparr>) s3;
          s5 = collect_part ''cdp'' (CollectCDP (ord_cdp ords) c) (\<lambda>x s. s\<lparr>snap_CDP := x\<rparr>) s4
      in s5\<lparr>snap_Interfaces := markUplinksFromNeighbors (snap_Interfaces s5) (snap_LLDP s5) (snap_CDP s5),
            snap_CollectMs := (stop - start) div 1000000\<rparr>)"

subsection \<open>What a walk does to the rows\<close>

definition field_of :: "('k \<times> 'r) list \<Rightarrow> 'f \<Rightarrow> ('r \<Rightarrow> 'f) \<Rightarrow> 'k \<Rightarrow> 'f" where
  "field_of rows d fld k = (case map_of rows k of None \<Rightarrow> d | Some r \<Rightarrow> fld r)"

text \<open>The last reading a walk gives for a key, among those the coercion accepts.\<close>

fun last_reading :: "(string \<Rightarrow> 'k option) \<Rightarrow> (snmp_value \<Rightarrow> 'v option) \<Rightarrow> 'k \<Rightarrow> variable list \<Rightarrow> 'v option" where
  "last_reading key conv k [] = None"
| "last_reading key conv k (kv # kvs) =
     (case last_reading key conv k kvs of
        Some n \<Rightarrow> Some n
      | None \<Rightarrow> if key (fst kv) = Some k then conv (snd kv) else None)"

definition keeps :: "('r \<Rightarrow> 'f) \<Rightarrow> ('k \<Rightarrow> snmp_value \<Rightarrow> ('r \<Rightarrow> 'r) option) \<Rightarrow> bool" where
  "keeps fld set_col \<longleftrightarrow> (\<forall>k v f r. set_col k v = Some f \<longrightarrow> fld (f r) = fld r)"

lemma keeps_by_text: "(\<And>s r. fld (upd s r) = fld r) \<Longrightarrow> keeps fld (by_text upd)"
  by (auto simp: keeps_def by_text_def)

lemma keeps_by_int: "(\<And>s r. fld (upd s r) = fld r) \<Longrightarrow> keeps fld (by_int upd)"
  by (auto simp: keeps_def by_int_def)

lemma keeps_by_uint: "(\<And>s r. fld (upd s r) = fld r) \<Longrightarrow> keeps fld (by_uint upd)"
  by (auto simp: keeps_def by_uint_def)

lemmas keeps_intros = keeps_by_text keeps_by_int keeps_by_uint

lemma walk_vars_Nil [simp]: "walk_vars key fresh set_col [] rows = rows"
  by (simp add: walk_vars_def)

lemma walk_vars_Cons [simp]:
  "walk_vars key fresh set_col (kv # kvs) rows =
     walk_vars key fresh set_col kvs (walk_step key fresh set_col rows kv)"
  by (simp add: walk_vars_def)

lemma field_of_walk_step:
  assumes "\<And>k. fld (fresh k) = d"
  shows "field_of (walk_step key fresh set_col rows kv) d fld k =
    (case key (fst kv) of
       Some k' \<Rightarrow> (case set_col k' (snd kv) of
           Some f \<Rightarrow> if k' = k then fld (f (case map_of rows k of None \<Rightarrow> fresh k | Some r \<Rightarrow> r))
                     else field_of rows d fld k
         | None \<Rightarrow> field_of rows d fld k)
     | None \<Rightarrow> field_of rows d fld k)"
  by (auto simp: walk_step_def field_of_def map_of_upsert split: option.splits)

lemma walk_step_keeps:
  assumes "\<forall>k. fld (fresh k) = d" and "keeps fld set_col"
  shows "field_of (walk_step key fresh set_col rows kv) d fld k = field_of rows d fld k"
proof -
  have "fld (f (case map_of rows k of None \<Rightarrow> fresh k | Some r \<Rightarrow> r)) = field_of rows d fld k"
    if "set_col k (snd kv) = Some f" for f
    using that assms by (simp add: keeps_def field_of_def split: option.splits)
  with assms(1) show ?thesis by (subst field_of_walk_step) (auto split: option.splits)
qed

lemma walk_vars_keeps:
  assumes "\<forall>k. fld (fresh k) = d" and "keeps fld set_col"
  shows "field_of (walk_vars key fresh set_col vars rows) d fld k = field_of rows d fld k"
  by (induction vars arbitrary: rows) (simp_all add: walk_step_keeps [OF assms])

lemma walk_vars_by_uint:
  assumes "\<And>k. fld (fresh k) = d" and "\<And>n r. fld (upd n r) = n"
  shows "field_of (walk_vars key fresh (by_uint upd) vars rows) d fld k =
    (case last_reading key value_Uint64 k vars of Some n \<Rightarrow> n | None \<Rightarrow> field_of rows d fld k)"
proof (induction vars arbitrary: rows)
  case (Cons kv kvs)
  have "field_of (walk_step key fresh (by_uint upd) rows kv) d fld k =
      (case (if key (fst kv) = Some k then value_Uint64 (snd kv) else None) of
         Some n \<Rightarrow> n | None \<Rightarrow> field_of rows d fld k)"
    using assms by (auto simp: field_of_walk_step by_uint_def split: option.splits)
  with Cons show ?case by (simp split: option.splits)
qed simp

lemma walk_ignore_keeps:
  assumes "\<forall>k. fld (fresh k) = d" and "keeps fld (snd col)"
  shows "field_of (walk_ignore c key fresh rows col) d fld k = field_of rows d fld k"
  by (simp add: walk_ignore_def walk_vars_keeps [OF assms] split: sum.split)

lemma walk_columns_keeps:
  assumes "\<forall>k. fld (fresh k) = d" and "\<forall>col \<in> set cols. keeps fld (snd col)"
  shows "field_of (walk_columns c key fresh cols rows) d fld k = field_of rows d fld k"
  using assms(2) unfolding walk_columns_def
  by (induction cols arbitrary: rows) (simp_all add: walk_ignore_keeps [of fld fresh d, OF assms(1)])

lemma walk_columns_append [simp]:
  "walk_columns c key fresh (xs @ ys) rows = walk_columns c key fresh ys (walk_columns c key fresh xs rows)"
  by (simp add: walk_columns_def)

text \<open>A property of rows that every fresh row has and every setter respects holds of all rows.\<close>

definition rows_ok :: "('k \<Rightarrow> 'r \<Rightarrow> bool) \<Rightarrow> ('k \<times> 'r) list \<Rightarrow> bool" where
  "rows_ok P rows \<longleftrightarrow> (\<forall>k r. map_of rows k = Some r \<longrightarrow> P k r)"

definition key_admits :: "('k \<Rightarrow> 'r \<Rightarrow> bool) \<Rightarrow> ('k \<Rightarrow> 'r) \<Rightarrow> (string \<Rightarrow> 'k option) \<Rightarrow> bool" where
  "key_admits P fresh key \<longleftrightarrow> (\<forall>oid k. key oid = Some k \<longrightarrow> P k (fresh k))"

definition setter_ok :: "('k \<Rightarrow> 'r \<Rightarrow> bool) \<Rightarrow> ('k \<Rightarrow> snmp_value \<Rightarrow> ('r \<Rightarrow> 'r) option) \<Rightarrow> bool" where
  "setter_ok P set_col \<longleftrightarrow> (\<forall>k v f r. set_col k v = Some f \<longrightarrow> P k r \<longrightarrow> P k (f r))"

lemma walk_vars_ok:
  assumes "key_admits P fresh key" and "setter_ok P set_col" and "rows_ok P rows"
  shows "rows_ok P (walk_vars key fresh set_col vars rows)"
  using assms(3)
proof (induction vars arbitrary: rows)
  case (Cons kv kvs)
  from Cons.prems assms(1,2) have "rows_ok P (walk_step key fresh set_col rows kv)"
    unfolding rows_ok_def key_admits_def setter_ok_def walk_step_def
    by (auto simp: map_of_upsert split: option.splits if_splits)
  then show ?case by (simp add: Cons.IH)
qed simp

lemma walk_columns_ok:
  assumes "\<forall>b. key_admits P fresh (key b)" and "\<forall>col \<in> set cols. setter_ok P (snd col)" and "rows_ok P rows"
  shows "rows_ok P (walk_columns c key fresh cols rows)"
  using assms(2,3) unfolding walk_columns_def
  by (induction cols arbitrary: rows)
     (simp_all add: walk_ignore_def walk_vars_ok [OF assms(1) [rule_format]] split: sum.split)

lemma distinct_walk_vars:
  "distinct (map fst rows) \<Longrightarrow> distinct (map fst (walk_vars key fresh set_col vars rows))"
  by (induction vars arbitrary: rows) (auto simp: walk_step_def rows.wf_put split: option.splits)

lemma distinct_walk_columns:
  "distinct (map fst rows) \<Longrightarrow> distinct (map fst (walk_columns c key fresh cols rows))"
  unfolding walk_columns_def
  by (induction cols arbitrary: rows) (auto simp: walk_ignore_def distinct_walk_vars split: sum.splits)

subsection \<open>The interface table\<close>

definition own_index :: "int \<Rightarrow> iface \<Rightarrow> bool" where
  "own_index k r \<longleftrightarrow> if_Index r = k \<and> k \<noteq> 0"

lemma setter_ok_by:
  "(\<And>s k r. P k r \<Longrightarrow> P k (upd s r)) \<Longrightarrow> setter_ok P (by_text upd)"
  "(\<And>n k r. P k r \<Longrightarrow> P k (upd' n r)) \<Longrightarrow> setter_ok P (by_int upd')"
  "(\<And>n k r. P k r \<Longrightarrow> P k (upd'' n r)) \<Longrightarrow> setter_ok P (by_uint upd'')"
  by (auto simp: setter_ok_def by_text_def by_int_def by_uint_def)

lemma iface_columns_ok: "\<forall>col \<in> set (descr_column # iface_columns). setter_ok own_index (snd col)"
proof -
  have "setter_ok own_index (\<lambda>k v. Some (\<lambda>r. r\<lparr>if_MAC := formatMAC (value_Bytes v)\<rparr>))"
    and "setter_ok own_index (\<lambda>k v. case value_Uint64 v of None \<Rightarrow> None
        | Some n \<Rightarrow> if 0 < n then Some (\<lambda>r. r\<lparr>if_SpeedBps := n * 1000000\<rparr>) else None)"
    by (auto simp: setter_ok_def own_index_def split: option.splits)
  then show ?thesis
    by (auto simp: iface_columns_def descr_column_def own_index_def intro!: setter_ok_by)
qed

lemma iface_key_admits: "key_admits own_index fresh_iface key_last"
  by (auto simp: key_admits_def own_index_def fresh_iface_def key_last_def)

lemma iface_rows_ok: "rows_ok own_index (iface_rows c vars)" "distinct (map fst (iface_rows c vars))"
proof -
  have "rows_ok own_index (walk_vars key_last fresh_iface (snd descr_column) vars [])"
    using iface_columns_ok by (intro walk_vars_ok iface_key_admits) (simp_all add: rows_ok_def)
  then show "rows_ok own_index (iface_rows c vars)"
    unfolding iface_rows_def using iface_columns_ok
    by (intro walk_columns_ok) (simp_all add: iface_key_admits)
  show "distinct (map fst (iface_rows c vars))"
    unfolding iface_rows_def by (simp add: distinct_walk_columns distinct_walk_vars)
qed

lemma finish_iface_frame [frame_simps]:
  "if_Index (finish_iface r) = if_Index r" "if_InOctets (finish_iface r) = if_InOctets r"
  "if_OutOctets (finish_iface r) = if_OutOctets r" "if_OperUp (finish_iface r) = if_OperUp r"
  by (simp_all add: finish_iface_def Let_def)

lemma iface_rows_index:
  assumes "(k, r) \<in> set (iface_rows c vars)"
  shows "if_Index r = k" "k \<noteq> 0"
  using iface_rows_ok [of c vars] map_of_is_SomeI [OF _ assms] by (auto simp: rows_ok_def own_index_def)

lemma indices_distinct:
  assumes "mset rs = mset (iface_rows c vars)"
  shows "distinct (map if_Index (map (finish_iface \<circ> snd) rs))"
proof -
  have idx: "map if_Index (map (finish_iface \<circ> snd) (iface_rows c vars)) = map fst (iface_rows c vars)"
    using iface_rows_index by (auto simp: frame_simps)
  have "mset (map if_Index (map (finish_iface \<circ> snd) rs)) =
      mset (map if_Index (map (finish_iface \<circ> snd) (iface_rows c vars)))"
    using assms by (metis mset_map)
  then have "mset (map if_Index (map (finish_iface \<circ> snd) rs)) = mset (map fst (iface_rows c vars))"
    by (simp only: idx)
  then show ?thesis using iface_rows_ok(2) mset_eq_imp_distinct_iff by blast
qed

text \<open>What a counter column reports for an index, zero when it reports nothing.\<close>

definition counter_reading :: "session \<Rightarrow> string \<Rightarrow> int \<Rightarrow> u64" where
  "counter_reading c oid k =
     (case client_BulkWalk c oid of Inl e \<Rightarrow> 0
      | Inr vars \<Rightarrow> (case last_reading key_last value_Uint64 k vars of None \<Rightarrow> 0 | Some n \<Rightarrow> n))"

lemma keeps_fun:
  "(\<And>v r. fld (g v r) = fld r) \<Longrightarrow> keeps fld (\<lambda>k v. Some (g v))"
  by (auto simp: keeps_def)

lemma keeps_speed:
  "(\<And>n r. fld (upd n r) = fld r) \<Longrightarrow>
   keeps fld (\<lambda>k v. case value_Uint64 v of None \<Rightarrow> None | Some n \<Rightarrow> if 0 < n then Some (upd n) else None)"
  by (auto simp: keeps_def split: option.splits)

lemma column_reading:
  assumes "cols = xs @ (oid, by_uint upd) # ys" and fresh: "\<forall>k. fld (fresh k) = 0"
    and "\<forall>col \<in> set xs. keeps fld (snd col)" and "\<forall>col \<in> set ys. keeps fld (snd col)"
    and "\<And>n r. fld (upd n r) = n" and "field_of rows 0 fld k = 0"
  shows "field_of (walk_columns c (\<lambda>_. key_last) fresh cols rows) 0 fld k = counter_reading c oid k"
proof -
  let ?r1 = "walk_columns c (\<lambda>_. key_last) fresh xs rows"
  have one: "field_of ?r1 0 fld k = 0"
    using walk_columns_keeps [of fld fresh 0 xs, OF fresh assms(3)] assms(6) by simp
  have "field_of (walk_columns c (\<lambda>_. key_last) fresh cols rows) 0 fld k =
      field_of (walk_ignore c (\<lambda>_. key_last) fresh ?r1 (oid, by_uint upd)) 0 fld k"
    using walk_columns_keeps [of fld fresh 0 ys, OF fresh assms(4)]
    by (simp add: assms(1)) (simp add: walk_columns_def)
  also have "\<dots> = counter_reading c oid k"
    using walk_vars_by_uint [of fld fresh 0 upd key_last _ ?r1 k] fresh assms(5) one
    by (simp add: walk_ignore_def counter_reading_def split: sum.splits option.splits)
  finally show ?thesis .
qed

lemma iface_octets:
  assumes "(k, r) \<in> set (iface_rows c vars)"
  shows "if_InOctets r = counter_reading c oidIfHCInOctets k"
    and "if_OutOctets r = counter_reading c oidIfHCOutOctets k"
proof -
  have r: "map_of (iface_rows c vars) k = Some r"
    using assms iface_rows_ok(2) by (simp add: map_of_is_SomeI)
  have fr: "\<forall>k. if_InOctets (fresh_iface k) = 0" "\<forall>k. if_OutOctets (fresh_iface k) = 0"
    by (simp_all add: fresh_iface_def)
  note kp = keeps_intros keeps_fun keeps_speed
  have d: "keeps if_InOctets (snd descr_column)" "keeps if_OutOctets (snd descr_column)"
    by (auto simp: descr_column_def intro!: kp)
  have start: "field_of (walk_vars key_last fresh_iface (snd descr_column) vars []) 0 if_InOctets k = 0"
    "field_of (walk_vars key_last fresh_iface (snd descr_column) vars []) 0 if_OutOctets k = 0"
    using walk_vars_keeps [of if_InOctets fresh_iface 0, OF fr(1) d(1)]
      walk_vars_keeps [of if_OutOctets fresh_iface 0, OF fr(2) d(2)]
    by (simp_all add: field_of_def)
  have "field_of (iface_rows c vars) 0 if_InOctets k = counter_reading c oidIfHCInOctets k"
    unfolding iface_rows_def
    by (rule column_reading [where xs = "take 9 iface_columns" and ys = "drop 10 iface_columns"
          and upd = "\<lambda>n r. r\<lparr>if_InOctets := n\<rparr>"])
       (auto simp: iface_columns_def start fr intro!: kp)
  with r show "if_InOctets r = counter_reading c oidIfHCInOctets k" by (simp add: field_of_def)
  have "field_of (iface_rows c vars) 0 if_OutOctets k = counter_reading c oidIfHCOutOctets k"
    unfolding iface_rows_def
    by (rule column_reading [where xs = "take 10 iface_columns" and ys = "drop 11 iface_columns"
          and upd = "\<lambda>n r. r\<lparr>if_OutOctets := n\<rparr>"])
       (auto simp: iface_columns_def start fr intro!: kp)
  with r show "if_OutOctets r = counter_reading c oidIfHCOutOctets k" by (simp add: field_of_def)
qed
lemma collect_interfaces_sorted:
  assumes "\<forall>rs. mset (ord rs) = mset rs" and "CollectInterfaces ord c = Inr out"
  shows "sorted_wrt (<) (map if_Index out) \<and> 0 \<notin> set (map if_Index out)"
proof -
  from assms(2) obtain vars where
    out: "out = insertion_sort if_Index (map (finish_iface \<circ> snd) (ord (iface_rows c vars)))"
    by (auto simp: CollectInterfaces_def split: sum.splits)
  let ?rs = "ord (iface_rows c vars)"
  have "set ?rs = set (iface_rows c vars)" using assms(1) by (metis set_mset_mset)
  then have "0 \<notin> set (map if_Index out)"
    unfolding out using iface_rows_index by (fastforce simp: frame_simps)
  moreover have "distinct (map if_Index out)"
  proof -
    have "mset (map if_Index out) = mset (map if_Index (map (finish_iface \<circ> snd) ?rs))"
      unfolding out by (simp del: map_map)
    with indices_distinct [of ?rs] assms(1) show ?thesis
      using mset_eq_imp_distinct_iff by metis
  qed
  moreover have "sorted (map if_Index out)" unfolding out by (rule sorted_insertion_sort)
  ultimately show ?thesis by (simp add: strict_sorted_iff)
qed


subsection \<open>Uplinks and warnings\<close>

lemma markUplinks_spec:
  "markUplinksFromNeighbors ifs ls cs =
     map (\<lambda>i. if if_Index i \<noteq> 0 \<and> (if_Index i \<in> lldp_LocalIfIndex ` set ls \<or> if_Index i \<in> cdp_LocalIfIndex ` set cs)
              then i\<lparr>if_IsUplink := True\<rparr> else i) ifs"
proof -
  have l: "set (foldl (\<lambda>m n. if lldp_LocalIfIndex n \<noteq> 0 then lldp_LocalIfIndex n # m else m) m ls) =
      set m \<union> (lldp_LocalIfIndex ` set ls - {0})" for m
    by (induction ls arbitrary: m) auto
  have c: "set (foldl (\<lambda>m n. if cdp_LocalIfIndex n \<noteq> 0 then cdp_LocalIfIndex n # m else m) m cs) =
      set m \<union> (cdp_LocalIfIndex ` set cs - {0})" for m
    by (induction cs arbitrary: m) auto
  show ?thesis
    unfolding markUplinksFromNeighbors_def Let_def l c by (cases ifs) auto
qed

lemma looksLikeUplink_frame [simp]: "looksLikeUplink (i\<lparr>if_IsUplink := b\<rparr>) = looksLikeUplink i"
  by (cases i) (simp only: looksLikeUplink_def iface.select_convs iface.update_convs)

lemma finish_iface_uplink: "if_IsUplink (finish_iface r) = looksLikeUplink (finish_iface r)"
  by (simp add: finish_iface_def Let_def)

lemma collect_interfaces_uplink:
  "CollectInterfaces ord c = Inr out \<Longrightarrow> list_all (\<lambda>i. if_IsUplink i = looksLikeUplink i) out"
  by (auto simp: CollectInterfaces_def list_all_iff finish_iface_uplink split: sum.splits)

lemma collect_part_frame [frame_simps]:
  "snap_CollectionWarnings (collect_part name res put s) =
     (case res of Inl e \<Rightarrow> snap_CollectionWarnings s @ [name @ '': '' @ e]
      | Inr x \<Rightarrow> snap_CollectionWarnings (put x s))"
  "(\<And>x. snap_Interfaces (put x s) = snap_Interfaces s) \<Longrightarrow>
     snap_Interfaces (collect_part name res put s) = snap_Interfaces s"
  by (auto simp: collect_part_def split: sum.split)

text \<open>
  the interface table does not depend on the order in which Go iterates over the row map:
  two iteration orders give the same list.
\<close>

theorem collect_interfaces_order_irrelevant:
  assumes "\<forall>rs. mset (ord rs) = mset rs" and "\<forall>rs. mset (ord' rs) = mset rs"
  shows "CollectInterfaces ord c = CollectInterfaces ord' c"
proof -
  have "insertion_sort if_Index (map (finish_iface \<circ> snd) (ord (iface_rows c vars))) =
      insertion_sort if_Index (map (finish_iface \<circ> snd) (ord' (iface_rows c vars)))" for vars
    by (rule insertion_sort_unique) (simp_all add: assms indices_distinct del: map_map)
  then show ?thesis by (simp add: CollectInterfaces_def split: sum.split)
qed


text \<open>
  \<open>CollectInterfaces\<close> returns the rows in strictly increasing \<open>ifIndex\<close> order (so no index
  twice, and never index 0), and the octet counters of a row are the last readings the two
  64-bit counter columns gave for that index, or 0 where a column gave none or its walk failed.
\<close>

theorem collect_interfaces_table:
  assumes "\<forall>rs. mset (ord rs) = mset rs" and "CollectInterfaces ord c = Inr out"
  shows "sorted_wrt (<) (map if_Index out) \<and> 0 \<notin> set (map if_Index out) \<and>
    (\<forall>i \<in> set out. if_InOctets i = counter_reading c oidIfHCInOctets (if_Index i) \<and>
                   if_OutOctets i = counter_reading c oidIfHCOutOctets (if_Index i))"
proof (intro conjI)
  note s = collect_interfaces_sorted [OF assms]
  then show "sorted_wrt (<) (map if_Index out)" "0 \<notin> set (map if_Index out)" by auto
  from assms(2) obtain vars where
    out: "out = insertion_sort if_Index (map (finish_iface \<circ> snd) (ord (iface_rows c vars)))"
    by (auto simp: CollectInterfaces_def split: sum.splits)
  have "set (ord (iface_rows c vars)) = set (iface_rows c vars)"
    using assms(1) by (metis set_mset_mset)
  then have mem: "\<exists>kr \<in> set (iface_rows c vars). i = finish_iface (snd kr)" if "i \<in> set out" for i
    using that unfolding out by auto
  show "\<forall>i \<in> set out. if_InOctets i = counter_reading c oidIfHCInOctets (if_Index i) \<and>
                   if_OutOctets i = counter_reading c oidIfHCOutOctets (if_Index i)"
  proof
    fix i assume "i \<in> set out"
    with mem obtain k r where kr: "(k, r) \<in> set (iface_rows c vars)" "i = finish_iface r" by fastforce
    from iface_octets [OF kr(1)] iface_rows_index(1) [OF kr(1)]
    show "if_InOctets i = counter_reading c oidIfHCInOctets (if_Index i) \<and>
        if_OutOctets i = counter_reading c oidIfHCOutOctets (if_Index i)"
      by (simp add: kr(2) frame_simps)
  qed
qed


text \<open>A small device: two ports, answered out of order, one with an octet counter.\<close>

definition lab_pdu :: "string \<Rightarrow> snmp_value \<Rightarrow> pdu" where
  "lab_pdu oid v = \<lparr>pdu_Name = CHR ''.'' # oid, pdu_Type = OtherType, pdu_Value = v\<rparr>"

definition lab_session :: session where
  "lab_session =
    \<lparr>sess_Get = (\<lambda>oids. Inl ''timeout''),
     sess_Walk = (\<lambda>oid.
       if oid = oidIfDescr then
         Inr [lab_pdu (oidIfDescr @ ''.2'') (VBytes ''Gi1/0/2''), lab_pdu (oidIfDescr @ ''.1'') (VBytes ''Gi1/0/1'')]
       else if oid = oidIfHCInOctets then Inr [lab_pdu (oidIfHCInOctets @ ''.2'') (VUint64 900)]
       else Inl ''timeout'')\<rparr>"

text \<open>
  after a poll a port is flagged as an uplink exactly when the local heuristics say so (a LAG,
  an uplink-like alias, or a fast port that is up, never a loopback, tunnel, stack or other
  port) or when a non-zero LLDP or CDP neighbour row of the same snapshot names its index.
\<close>

theorem collect_all_uplinks:
  "list_all (\<lambda>i. if_IsUplink i \<longleftrightarrow>
       looksLikeUplink i \<or>
       if_Index i \<noteq> 0 \<and> (if_Index i \<in> lldp_LocalIfIndex ` set (snap_LLDP (CollectAll ords t0 t1 c)) \<or>
                          if_Index i \<in> cdp_LocalIfIndex ` set (snap_CDP (CollectAll ords t0 t1 c))))
     (snap_Interfaces (CollectAll ords t0 t1 c))"
proof -
  have "list_all (\<lambda>i. if_IsUplink i = looksLikeUplink i)
      (case CollectInterfaces (ord_ifaces ords) c of Inl e \<Rightarrow> [] | Inr x \<Rightarrow> x)"
    by (simp add: collect_interfaces_uplink split: sum.split)
  then show ?thesis
    by (auto simp: CollectAll_def Let_def markUplinks_spec list_all_iff collect_part_def split: sum.splits)
qed

text \<open>
  the warnings of a snapshot are exactly the failure of the system GET and of the first
  interface walk. A failed walk of the entity, LLDP or CDP tables leaves no warning.
\<close>

theorem collect_all_warnings:
  "snap_CollectionWarnings (CollectAll ords t0 t1 c) =
     (case CollectSystem c of Inl e \<Rightarrow> [''system: '' @ e] | Inr s \<Rightarrow> []) @
     (case client_BulkWalk c oidIfDescr of Inl e \<Rightarrow> [''interfaces: '' @ e] | Inr vs \<Rightarrow> [])"
  by (simp add: CollectAll_def Let_def frame_simps CollectInterfaces_def CollectEntities_def
      CollectLLDP_def CollectCDP_def descr_column_def split: sum.split)


text \<open>Both tables have a witness on the small device.\<close>

lemma mset_rev_all: "\<forall>rs. mset (rev rs) = mset rs"
  by simp

lemma mset_id_all: "\<forall>rs. mset (id rs) = mset rs"
  by simp

lemma lab_interfaces: "\<exists>out. CollectInterfaces rev lab_session = Inr out"
  by (simp add: CollectInterfaces_def client_BulkWalk_def lab_session_def descr_column_def)

theorem collect_interfaces_table_witness:
  "\<exists>out. CollectInterfaces rev lab_session = Inr out \<and> sorted_wrt (<) (map if_Index out)"
proof -
  obtain out where o: "CollectInterfaces rev lab_session = Inr out" using lab_interfaces by blast
  then show ?thesis using collect_interfaces_table [OF mset_rev_all o] by blast
qed

theorem collect_interfaces_order_witness:
  "CollectInterfaces rev lab_session = CollectInterfaces id lab_session"
  by (rule collect_interfaces_order_irrelevant [OF mset_rev_all mset_id_all])

end
