(* ===== verification/Float_Text.thy ===== *)
theory Float_Text
  imports Float64
begin

text \<open>
  The text forms of \<open>float64\<close> the program uses: \<open>strconv.ParseFloat(s, 64)\<close> with Go's whole
  grammar (decimal and hexadecimal literals, underscores between digits, infinities and NaN, and
  the error on overflow), and the \<open>%.0f\<close> and \<open>%.1f\<close> renderings.
\<close>

definition is_hex_letter :: "char \<Rightarrow> bool" where
  "is_hex_letter c \<longleftrightarrow> 97 \<le> char_code (lower_char c) \<and> char_code (lower_char c) \<le> 102"

text \<open>
  The mantissa loop of \<open>readFloat\<close>: whether a point and a digit were seen, the digits read so far as
  a number, how many of them follow the point, and the rest of the input where the loop stops.
\<close>

fun scan_mantissa :: "bool \<Rightarrow> bool \<Rightarrow> bool \<Rightarrow> nat \<Rightarrow> nat \<Rightarrow> string \<Rightarrow> bool \<times> nat \<times> nat \<times> string" where
  "scan_mantissa hex dot digits v fd [] = (digits, v, fd, [])"
| "scan_mantissa hex dot digits v fd (c # cs) =
     (let b = (if hex then 16 else 10); fd' = (if dot then Suc fd else fd) in
      if c = CHR ''_'' then scan_mantissa hex dot digits v fd cs
      else if c = CHR ''.'' then
        if dot then (digits, v, fd, c # cs) else scan_mantissa hex True digits v fd cs
      else if is_digit c then scan_mantissa hex dot True (b * v + digit_val c) fd' cs
      else if hex \<and> is_hex_letter c then
        scan_mantissa hex dot True (b * v + (char_code (lower_char c) - 87)) fd' cs
      else (digits, v, fd, c # cs))"

fun scan_exponent :: "nat \<Rightarrow> string \<Rightarrow> nat \<times> string" where
  "scan_exponent e [] = (e, [])"
| "scan_exponent e (c # cs) =
     (if c = CHR ''_'' then scan_exponent e cs
      else if is_digit c then scan_exponent (if e < 10000 then 10 * e + digit_val c else e) cs
      else (e, c # cs))"

definition starts_digit :: "string \<Rightarrow> bool" where
  "starts_digit s = (case s of [] \<Rightarrow> False | c # _ \<Rightarrow> is_digit c)"

text \<open>The exponent after its letter: an optional sign, then at least one digit first.\<close>

definition read_exponent :: "string \<Rightarrow> (int \<times> string) option" where
  "read_exponent s =
     (let (neg, ds) = (case s of c # cs \<Rightarrow> if c = CHR ''+'' then (False, cs)
                                 else if c = CHR ''-'' then (True, cs) else (False, s)
                       | [] \<Rightarrow> (False, []))
      in if starts_digit ds
         then (case scan_exponent 0 ds of (e, rest) \<Rightarrow> Some (if neg then - int e else int e, rest))
         else None)"

text \<open>
  \<open>underscoreOK\<close>: an underscore stands only between digits, or between the base prefix and a digit.
  The flag \<open>last\<close> is the class of the character before: a digit, an underscore, or something else.
\<close>

datatype last_class = LDigit | LUnderscore | LOther

fun underscores_ok :: "bool \<Rightarrow> last_class \<Rightarrow> string \<Rightarrow> bool" where
  "underscores_ok hex l [] = (l \<noteq> LUnderscore)"
| "underscores_ok hex l (c # cs) =
     (if is_digit c \<or> (hex \<and> is_hex_letter c) then underscores_ok hex LDigit cs
      else if c = CHR ''_'' then l = LDigit \<and> underscores_ok hex LUnderscore cs
      else l \<noteq> LUnderscore \<and> underscores_ok hex LOther cs)"

definition strip_sign :: "string \<Rightarrow> bool \<times> string" where
  "strip_sign s = (case s of [] \<Rightarrow> (False, [])
     | c # cs \<Rightarrow> if c = CHR ''+'' then (False, cs) else if c = CHR ''-'' then (True, cs) else (False, s))"

definition underscoreOK :: "string \<Rightarrow> bool" where
  "underscoreOK s =
     (let t = snd (strip_sign s) in
      case t of
        a # b # cs \<Rightarrow>
          if a = CHR ''0'' \<and> lower_char b \<in> {CHR ''b'', CHR ''o'', CHR ''x''}
          then underscores_ok (lower_char b = CHR ''x'') LDigit cs else underscores_ok False LOther t
      | _ \<Rightarrow> underscores_ok False LOther t)"

definition f64_in_range :: "f64 \<Rightarrow> f64 option" where
  "f64_in_range x = (case x of Inf s \<Rightarrow> None | _ \<Rightarrow> Some x)"

definition rat_power :: "rat \<Rightarrow> int \<Rightarrow> rat" where
  "rat_power b e = (if 0 \<le> e then b ^ nat e else 1 / b ^ nat (- e))"

definition read_number :: "string \<Rightarrow> f64 option" where
  "read_number s =
     (let (neg, t) = strip_sign s;
          hex = (case t of a # b # _ # _ \<Rightarrow> a = CHR ''0'' \<and> lower_char b = CHR ''x'' | _ \<Rightarrow> False);
          (digits, v, fd, rest) = scan_mantissa hex False False 0 0 (if hex then drop 2 t else t);
          exp_char = (if hex then CHR ''p'' else CHR ''e'');
          exponent = (case rest of
             c # cs \<Rightarrow> if lower_char c = exp_char then read_exponent cs else if hex then None else Some (0, rest)
           | [] \<Rightarrow> if hex then None else Some (0, []))
      in case exponent of
           None \<Rightarrow> None
         | Some (e, rest') \<Rightarrow>
             if \<not> digits \<or> rest' \<noteq> [] \<or> (CHR ''_'' \<in> set s \<and> \<not> underscoreOK s) then None
             else let x = of_nat v * (if hex then rat_power 2 (e - 4 * int fd) else rat_power 10 (e - int fd))
                  in f64_in_range (f64_of_rat (if neg then - x else x)))"

definition ParseFloat :: "string \<Rightarrow> f64 option" where
  "ParseFloat s =
     (let (neg, t) = strip_sign s in
      if to_lower t = ''inf'' \<or> to_lower t = ''infinity'' then Some (Inf neg)
      else if to_lower s = ''nan'' then Some NaN
      else read_number s)"

subsection \<open>Fixed-point rendering\<close>

text \<open>Exact ties go to the even last digit, as \<open>strconv\<close> rounds the exact decimal expansion.\<close>

definition fmt_special :: "f64 \<Rightarrow> string" where
  "fmt_special x = (case x of Inf neg \<Rightarrow> if neg then ''-Inf'' else ''+Inf'' | _ \<Rightarrow> ''NaN'')"

definition fmt_f0 :: "f64 \<Rightarrow> string" where
  "fmt_f0 x = (case x of Fin a \<Rightarrow> (if a < 0 then ''-'' else []) @ dec_nat (nat (round_even \<bar>a\<bar>))
               | _ \<Rightarrow> fmt_special x)"

definition fmt_f1 :: "f64 \<Rightarrow> string" where
  "fmt_f1 x = (case x of
      Fin a \<Rightarrow> let t = nat (round_even (\<bar>a\<bar> * 10))
               in (if a < 0 then ''-'' else []) @ dec_nat (t div 10) @ ''.'' @ [digit_char (t mod 10)]
    | _ \<Rightarrow> fmt_special x)"

end
