(* ===== verification/Oid_Packs.thy ===== *)
theory Oid_Packs
  imports Snmp_Collect Float_Text
begin

text \<open>
  The data-driven OID catalog: \<open>internal/snmp/oidpack/oidpack.go\<close> (which packs apply to a device)
  and \<open>internal/snmp/collect_oidpacks.go\<close> (running them). The catalog itself is embedded JSON; what
  \<open>Load\<close> parses from it is the record \<open>catalog\<close>, an argument of the definitions.
\<close>

record pack_metric =
  pm_Key :: string
  pm_OID :: string
  pm_Mode :: string
  pm_Scale :: f64
  pm_Unit :: string
  pm_Label :: string
  pm_EnumMap :: string
  pm_FlatField :: "string option"

text \<open>\<open>pm_FlatField\<close> is the flat field of the metric's alarm, \<open>None\<close> when it carries no alarm.\<close>

record oid_pack =
  pk_ID :: string
  pk_Enterprises :: "string list"
  pk_VendorAliases :: "string list"
  pk_SysObjectPrefixes :: "string list"
  pk_Metrics :: "pack_metric list"

record catalog =
  cat_packs :: "oid_pack list"
  cat_enums :: "(string \<times> (string \<times> string) list) list"

subsection \<open>Selection\<close>

definition matchPack :: "oid_pack \<Rightarrow> string \<Rightarrow> string \<Rightarrow> bool" where
  "matchPack p vendor sysObjectID =
     ((vendor \<noteq> [] \<and> list_ex (\<lambda>a. equal_fold a vendor) (pk_VendorAliases p)) \<or>
      (sysObjectID \<noteq> [] \<and>
        (list_ex (\<lambda>pref. trim_prefix pref ''.'' \<noteq> [] \<and> has_prefix sysObjectID (trim_prefix pref ''.''))
           (pk_SysObjectPrefixes p) \<or>
         list_ex (\<lambda>ent. ent \<noteq> [] \<and> has_prefix sysObjectID (''1.3.6.1.4.1.'' @ ent) \<and>
                       \<not> (pk_ID p = ''linux_net'' \<or> pk_ID p = ''host_resources''))
           (pk_Enterprises p))))"

fun select_from :: "oid_pack list \<Rightarrow> string list \<Rightarrow> string \<Rightarrow> string \<Rightarrow> oid_pack list" where
  "select_from [] seen v oid = []"
| "select_from (p # ps) seen v oid =
     (if \<not> matchPack p v oid \<or> pk_ID p \<in> set seen then select_from ps seen v oid
      else p # select_from ps (pk_ID p # seen) v oid)"

definition Select :: "catalog \<Rightarrow> string \<Rightarrow> string \<Rightarrow> oid_pack list" where
  "Select cat vendor sysObjectID =
     select_from (cat_packs cat) [] (to_lower (trim_space vendor))
       (trim_prefix (trim_space sysObjectID) ''.'')"

definition EnumLookup :: "catalog \<Rightarrow> string \<Rightarrow> f64 \<Rightarrow> string" where
  "EnumLookup cat enumID v =
     (case map_of (cat_enums cat) enumID of None \<Rightarrow> []
      | Some em \<Rightarrow> (case map_of em (fmt_f0 v) of None \<Rightarrow> [] | Some s \<Rightarrow> s))"

text \<open>A map from flat field to metric key; a later metric overwrites an earlier one.\<close>

definition AlarmableFlatFields :: "catalog \<Rightarrow> (string \<times> string) list" where
  "AlarmableFlatFields cat =
     foldl (\<lambda>out m. case pm_FlatField m of None \<Rightarrow> out
              | Some f \<Rightarrow> if f \<noteq> [] then upsert f (pm_Key m) (\<lambda>_. pm_Key m) out else out)
       [] (concat (map pk_Metrics (cat_packs cat)))"

subsection \<open>Running a pack\<close>

definition oidPackMaxTableRows :: nat where "oidPackMaxTableRows = 200"
definition oidPackMaxMetricsGet :: nat where "oidPackMaxMetricsGet = 80"

definition oidWalkRoot :: "string \<Rightarrow> string" where
  "oidWalkRoot oid0 =
     (let oid = trim_prefix oid0 ''.'' in if has_suffix oid ''.0'' then trim_suffix oid ''.0'' else oid)"

definition oidScale :: "f64 \<Rightarrow> f64" where
  "oidScale s = (if f64_eq s (Fin 0) then Fin 1 else s)"

definition oidNumeric :: "snmp_value \<Rightarrow> f64 option" where
  "oidNumeric v =
     (case value_Int64 v of Some i \<Rightarrow> Some (f64_of_int i)
      | None \<Rightarrow> (let s = trim_space (value_String v) in
          if s = [] then None
          else (case ParseFloat s of None \<Rightarrow> None | Some f \<Rightarrow> if f = NaN then None else Some f)))"

definition pack_sample :: "catalog \<Rightarrow> oid_pack \<Rightarrow> pack_metric \<Rightarrow> string \<Rightarrow> f64 \<Rightarrow> oid_metric" where
  "pack_sample cat p m key v0 =
     (let v = f64_mul v0 (oidScale (pm_Scale m))
      in \<lparr>om_PackID = pk_ID p, om_Key = key, om_Value = v,
          om_Text = (if pm_EnumMap m \<noteq> [] then EnumLookup cat (pm_EnumMap m) v else []),
          om_Unit = pm_Unit m, om_Label = pm_Label m\<rparr>)"

definition dots_to_underscores :: "string \<Rightarrow> string" where
  "dots_to_underscores s = map (\<lambda>c. if c = CHR ''.'' then CHR ''_'' else c) s"

text \<open>The rows of one walked table, at most \<open>oidPackMaxTableRows\<close> numeric ones; \<open>n\<close> counts them.\<close>

fun pack_rows :: "catalog \<Rightarrow> oid_pack \<Rightarrow> pack_metric \<Rightarrow> string \<Rightarrow> nat \<Rightarrow> variable list \<Rightarrow> oid_metric list" where
  "pack_rows cat p m base n [] = []"
| "pack_rows cat p m base n (row # rows) =
     (if oidPackMaxTableRows \<le> n then []
      else let idx = trim_prefix (trim_prefix (fst row) base) ''.'' in
        case oidNumeric (snd row) of
          None \<Rightarrow> pack_rows cat p m base n rows
        | Some v \<Rightarrow>
            pack_sample cat p m (if idx \<noteq> [] then pm_Key m @ ''.'' @ dots_to_underscores idx else pm_Key m) v
              # pack_rows cat p m base (Suc n) rows)"

text \<open>
  The loop state: metrics so far, warnings so far, GETs issued, roots walked, and the number of
  metrics visited. \<open>expired i\<close> says whether the pack's deadline has passed when metric \<open>i\<close> is reached;
  \<open>pick\<close> is the value Go's map iteration yields first when the requested name is absent.
\<close>

record pack_run =
  pr_out :: "oid_metric list"
  pr_warnings :: "string list"
  pr_gets :: nat
  pr_walked :: "string list"

definition pack_walk :: "catalog \<Rightarrow> session \<Rightarrow> oid_pack \<Rightarrow> pack_metric \<Rightarrow> pack_run \<Rightarrow> pack_run" where
  "pack_walk cat c p m s =
     (let base = oidWalkRoot (pm_OID m) in
      if base \<in> set (pr_walked s) then s
      else let s' = s\<lparr>pr_walked := base # pr_walked s\<rparr> in
        case client_BulkWalk c base of
          Inl e \<Rightarrow> s'\<lparr>pr_warnings := pr_warnings s @ [''oidpack '' @ pk_ID p @ '' walk '' @ base @ '': '' @ e]\<rparr>
        | Inr rows \<Rightarrow> s'\<lparr>pr_out := pr_out s @ pack_rows cat p m base 0 rows\<rparr>)"

definition pack_get ::
  "catalog \<Rightarrow> ((string \<times> snmp_value) list \<Rightarrow> snmp_value) \<Rightarrow> session \<Rightarrow> oid_pack \<Rightarrow> pack_metric \<Rightarrow> pack_run \<Rightarrow> pack_run" where
  "pack_get cat pick c p m s =
     (if oidPackMaxMetricsGet \<le> pr_gets s then s
      else let s' = s\<lparr>pr_gets := Suc (pr_gets s)\<rparr> in
        case client_Get c [pm_OID m] of
          Inl e \<Rightarrow> s'
        | Inr vars \<Rightarrow>
            if vars = [] then s'
            else let v = (case map_of vars (pm_OID m) of Some v \<Rightarrow> v | None \<Rightarrow> pick vars) in
              case oidNumeric v of
                None \<Rightarrow>
                  if value_String v = [] then s'
                  else s'\<lparr>pr_out := pr_out s @ [\<lparr>om_PackID = pk_ID p, om_Key = pm_Key m, om_Value = Fin 0,
                            om_Text = value_String v, om_Unit = pm_Unit m, om_Label = pm_Label m\<rparr>]\<rparr>
              | Some n \<Rightarrow> s'\<lparr>pr_out := pr_out s @ [pack_sample cat p m (pm_Key m) n]\<rparr>)"

fun pack_loop ::
  "catalog \<Rightarrow> ((string \<times> snmp_value) list \<Rightarrow> snmp_value) \<Rightarrow> (nat \<Rightarrow> bool) \<Rightarrow> session \<Rightarrow> oid_pack
     \<Rightarrow> nat \<Rightarrow> pack_metric list \<Rightarrow> pack_run \<Rightarrow> pack_run" where
  "pack_loop cat pick expired c p i [] s = s"
| "pack_loop cat pick expired c p i (m # ms) s =
     (if expired i then s\<lparr>pr_warnings := pr_warnings s @ [''oidpack '' @ pk_ID p @ '': timed out'']\<rparr>
      else pack_loop cat pick expired c p (Suc i) ms
             (if to_lower (pm_Mode m) = ''walk'' then pack_walk cat c p m s else pack_get cat pick c p m s))"

definition collectOIDPack ::
  "catalog \<Rightarrow> ((string \<times> snmp_value) list \<Rightarrow> snmp_value) \<Rightarrow> (nat \<Rightarrow> bool) \<Rightarrow> session \<Rightarrow> oid_pack \<Rightarrow> pack_run" where
  "collectOIDPack cat pick expired c p =
     pack_loop cat pick expired c p 0 (pk_Metrics p)
       \<lparr>pr_out = [], pr_warnings = [], pr_gets = 0, pr_walked = []\<rparr>"

text \<open>\<open>expired\<close> is indexed by pack first: every pack has its own deadline.\<close>

definition CollectOIDPacks ::
  "catalog \<Rightarrow> ((string \<times> snmp_value) list \<Rightarrow> snmp_value) \<Rightarrow> (string \<Rightarrow> nat \<Rightarrow> bool) \<Rightarrow> session
     \<Rightarrow> string \<Rightarrow> snapshot \<Rightarrow> snapshot" where
  "CollectOIDPacks cat pick expired c vendor snap =
     (let selected = Select cat vendor (sys_ObjectID (snap_System snap)) in
      if selected = [] then snap
      else let runs = map (\<lambda>p. collectOIDPack cat pick (expired (pk_ID p)) c p) selected;
               snap' = snap\<lparr>snap_CollectionWarnings :=
                         snap_CollectionWarnings snap @ concat (map pr_warnings runs)\<rparr>;
               metrics = concat (map pr_out runs)
           in if metrics = [] then snap'
              else snap'\<lparr>snap_Vendor := Some ((case snap_Vendor snap of None \<Rightarrow> zero_vendor | Some v \<Rightarrow> v)
                                              \<lparr>vh_OIDMetrics := metrics\<rparr>)\<rparr>)"

subsection \<open>Selection and its bounds\<close>

lemma select_from_match: "p \<in> set (select_from ps seen v oid) \<Longrightarrow> p \<in> set ps \<and> matchPack p v oid \<and> pk_ID p \<notin> set seen"
  by (induction ps arbitrary: seen) (fastforce split: if_splits)+

lemma select_from_distinct: "distinct (map pk_ID (select_from ps seen v oid))"
  by (induction ps arbitrary: seen) (auto dest: select_from_match)

lemma select_from_complete:
  "p \<in> set ps \<Longrightarrow> matchPack p v oid \<Longrightarrow>
   pk_ID p \<in> set seen \<union> pk_ID ` set (select_from ps seen v oid)"
proof (induction ps arbitrary: seen)
  case (Cons q ps)
  show ?case
  proof (cases "p = q")
    case True
    then show ?thesis using Cons.prems by auto
  next
    case False
    then have "p \<in> set ps" using Cons.prems by simp
    then show ?thesis
      using Cons.IH [of seen] Cons.IH [of "pk_ID q # seen"] Cons.prems by auto
  qed
qed simp

text \<open>
  \<open>oidpack.Select\<close> returns packs of the catalog that match the device, no pack id twice, and
  the id of every matching pack is among them.
\<close>

theorem select_packs:
  "distinct (map pk_ID (Select cat vendor oid)) \<and>
   pk_ID ` set (Select cat vendor oid) =
     pk_ID ` {p \<in> set (cat_packs cat). matchPack p (to_lower (trim_space vendor)) (trim_prefix (trim_space oid) ''.'')}"
  unfolding Select_def
proof
  let ?v = "to_lower (trim_space vendor)" and ?o = "trim_prefix (trim_space oid) ''.''"
  show "distinct (map pk_ID (select_from (cat_packs cat) [] ?v ?o))" by (rule select_from_distinct)
  have "pk_ID p \<in> pk_ID ` set (select_from (cat_packs cat) [] ?v ?o)"
    if "p \<in> set (cat_packs cat)" "matchPack p ?v ?o" for p
    using select_from_complete [OF that, of "[]"] by simp
  then show "pk_ID ` set (select_from (cat_packs cat) [] ?v ?o) = pk_ID ` {p \<in> set (cat_packs cat). matchPack p ?v ?o}"
    using select_from_match [of _ "cat_packs cat" "[]" ?v ?o] by blast
qed

text \<open>An enterprise number is compared as a string prefix, without the dot that ends its arc.\<close>

lemma match_enterprise_prefix:
  "matchPack \<lparr>pk_ID = ''cisco'', pk_Enterprises = [''9''], pk_VendorAliases = [], pk_SysObjectPrefixes = [],
              pk_Metrics = []\<rparr> [] ''1.3.6.1.4.1.9600.1.1.1''"
  by (simp add: matchPack_def has_prefix_def)

lemma length_pack_rows: "length (pack_rows cat p m base n rows) \<le> oidPackMaxTableRows - n"
proof (induction rows arbitrary: n)
  case (Cons row rows)
  have "Suc (length (pack_rows cat p m base (Suc n) rows)) \<le> oidPackMaxTableRows - n"
    if "\<not> oidPackMaxTableRows \<le> n" using Cons [of "Suc n"] that by linarith
  with Cons [of n] show ?case by (auto simp: Let_def split: option.split)
qed simp

lemma pack_rows_id: "list_all (\<lambda>x. om_PackID x = pk_ID p) (pack_rows cat p m base n rows)"
  by (induction rows arbitrary: n) (auto simp: Let_def pack_sample_def split: option.split)

definition pack_run_ok :: "oid_pack \<Rightarrow> pack_run \<Rightarrow> bool" where
  "pack_run_ok p s \<longleftrightarrow> pr_gets s \<le> oidPackMaxMetricsGet \<and> distinct (pr_walked s) \<and>
     length (pr_out s) \<le> oidPackMaxTableRows * length (pr_walked s) + pr_gets s \<and>
     list_all (\<lambda>x. om_PackID x = pk_ID p) (pr_out s)"

lemma pack_walk_ok:
  assumes "pack_run_ok p s"
  shows "pack_run_ok p (pack_walk cat c p m s)"
proof (cases "client_BulkWalk c (oidWalkRoot (pm_OID m))")
  case (Inl e)
  then show ?thesis using assms by (auto simp: pack_run_ok_def pack_walk_def Let_def)
next
  case (Inr rows)
  have "length (pack_rows cat p m (oidWalkRoot (pm_OID m)) 0 rows) \<le> oidPackMaxTableRows"
    using length_pack_rows [of cat p m "oidWalkRoot (pm_OID m)" 0 rows] by simp
  then show ?thesis using assms Inr by (auto simp: pack_run_ok_def pack_walk_def Let_def pack_rows_id)
qed

lemma pack_get_ok: "pack_run_ok p s \<Longrightarrow> pack_run_ok p (pack_get cat pick c p m s)"
  by (auto simp: pack_run_ok_def pack_get_def Let_def pack_sample_def split: sum.split option.split)

lemma pack_loop_ok: "pack_run_ok p s \<Longrightarrow> pack_run_ok p (pack_loop cat pick expired c p i ms s)"
proof (induction ms arbitrary: i s)
  case (Cons m ms)
  then show ?case
    by (auto simp: pack_walk_ok pack_get_ok) (simp add: pack_run_ok_def)
qed simp

text \<open>
  one pack costs at most 80 GETs, walks no root twice, yields at most 200 metrics per walked
  table and one per GET, and labels every metric with its own pack id, whatever the device answers
  and whenever the deadline passes.
\<close>

theorem collect_oid_pack_bounds:
  "pr_gets (collectOIDPack cat pick expired c p) \<le> 80 \<and>
   distinct (pr_walked (collectOIDPack cat pick expired c p)) \<and>
   length (pr_out (collectOIDPack cat pick expired c p)) \<le>
     200 * length (pr_walked (collectOIDPack cat pick expired c p)) + pr_gets (collectOIDPack cat pick expired c p) \<and>
   list_all (\<lambda>x. om_PackID x = pk_ID p) (pr_out (collectOIDPack cat pick expired c p))"
proof -
  have "pack_run_ok p \<lparr>pr_out = [], pr_warnings = [], pr_gets = 0, pr_walked = []\<rparr>"
    by (simp add: pack_run_ok_def)
  from pack_loop_ok [OF this, of cat pick expired c 0 "pk_Metrics p"] show ?thesis
    by (simp add: collectOIDPack_def pack_run_ok_def oidPackMaxTableRows_def oidPackMaxMetricsGet_def)
qed

end
