(* ===== verification/Go_Any.thy ===== *)
theory Go_Any
  imports Float64
begin

text \<open>
  The values Go's \<open>any\<close> holds in metric payloads and alarm environments. What \<open>encoding/json\<close>
  decodes into an \<open>any\<close> is one of \<open>AnyNil\<close>, \<open>AnyBool\<close>, \<open>AnyF64\<close>, \<open>AnyString\<close>, \<open>AnyList\<close> and
  \<open>AnyObject\<close>. A \<open>float32\<close> is the float64 it converts to.
\<close>

datatype any =
    AnyNil
  | AnyBool bool
  | AnyString string
  | AnyF64 f64
  | AnyF32 f64
  | AnyInt int
  | AnyInt32 int
  | AnyInt64 int
  | AnyUint u64
  | AnyUint32 "32 word"
  | AnyUint64 u64
  | AnyList "any list"
  | AnyObject "(string \<times> any) list"

type_synonym payload = "string \<rightharpoonup> any"

definition any_string :: "any option \<Rightarrow> string" where
  "any_string x = (case x of Some (AnyString s) \<Rightarrow> s | _ \<Rightarrow> [])"

text \<open>\<open>p[k] = *x\<close> guarded by \<open>x != nil\<close>.\<close>

definition put_opt :: "string \<Rightarrow> ('a \<Rightarrow> any) \<Rightarrow> 'a option \<Rightarrow> payload \<Rightarrow> payload" where
  "put_opt k f x p = (case x of None \<Rightarrow> p | Some v \<Rightarrow> p(k \<mapsto> f v))"

lemma put_opt_simps [simp]: "put_opt k f None p = p" "put_opt k f (Some v) p = p(k \<mapsto> f v)"
  by (simp_all add: put_opt_def)

lemma put_opt_other [simp]: "k' \<noteq> k \<Longrightarrow> put_opt k f x p k' = p k'"
  by (simp add: put_opt_def split: option.split)

end
