(* ===== verification/Snmp_Vendor.thy ===== *)
theory Snmp_Vendor
  imports Oid_Packs Go_Any
begin

text \<open>
  The vendor health collectors of \<open>internal/snmp\<close>: UPS, Palo Alto, Synology, Alletra and Cisco, the
  dispatch on the appliance's vendor (\<open>CollectVendor\<close>), and the flattening of the result into the
  payload the alarm engine reads (\<open>AddVendorMetricsToPayload\<close>). Row maps are iterated in the order
  given by an \<open>ord\<close> argument, as in \<open>Snmp_Collect\<close>.
\<close>

subsection \<open>Scalars\<close>

definition scalar_text :: "(string \<times> snmp_value) list \<Rightarrow> string \<Rightarrow> string option" where
  "scalar_text res oid = map_option value_String (map_of res oid)"

definition scalar_int :: "(string \<times> snmp_value) list \<Rightarrow> string \<Rightarrow> int option" where
  "scalar_int res oid = (case map_of res oid of None \<Rightarrow> None | Some v \<Rightarrow> value_Int64 v)"

definition text_or_empty :: "string option \<Rightarrow> string" where
  "text_or_empty x = (case x of None \<Rightarrow> [] | Some s \<Rightarrow> s)"

definition scalar_i32 :: "(string \<times> snmp_value) list \<Rightarrow> string \<Rightarrow> int option" where
  "scalar_i32 res oid = map_option i32 (scalar_int res oid)"

definition scalar_float :: "(string \<times> snmp_value) list \<Rightarrow> string \<Rightarrow> f64 option" where
  "scalar_float res oid = map_option f64_of_int (scalar_int res oid)"

subsection \<open>UPS\<close>

definition oidUPSIdentModel :: string where "oidUPSIdentModel = ''1.3.6.1.2.1.33.1.1.2.0''"
definition oidUPSIdentAgentSWVersion :: string where "oidUPSIdentAgentSWVersion = ''1.3.6.1.2.1.33.1.1.3.0''"
definition oidUPSBatteryStatus :: string where "oidUPSBatteryStatus = ''1.3.6.1.2.1.33.1.2.1.0''"
definition oidUPSEstMinutesRemaining :: string where "oidUPSEstMinutesRemaining = ''1.3.6.1.2.1.33.1.2.3.0''"
definition oidUPSEstChargeRemaining :: string where "oidUPSEstChargeRemaining = ''1.3.6.1.2.1.33.1.2.4.0''"
definition oidUPSBatteryTemperature :: string where "oidUPSBatteryTemperature = ''1.3.6.1.2.1.33.1.2.7.0''"
definition oidUPSInputVoltage :: string where "oidUPSInputVoltage = ''1.3.6.1.2.1.33.1.3.3.1.3.1''"
definition oidUPSOutputPercentLoad :: string where "oidUPSOutputPercentLoad = ''1.3.6.1.2.1.33.1.4.4.1.5.1''"
definition oidAPCIdentModel :: string where "oidAPCIdentModel = ''1.3.6.1.4.1.318.1.1.1.1.1.1.0''"
definition oidAPCAdvIdentManufactureDate :: string where "oidAPCAdvIdentManufactureDate = ''1.3.6.1.4.1.318.1.1.1.1.2.2.0''"
definition oidAPCAdvIdentSerialNumber :: string where "oidAPCAdvIdentSerialNumber = ''1.3.6.1.4.1.318.1.1.1.1.2.3.0''"
definition oidAPCAdvBatteryReplaceDate :: string where "oidAPCAdvBatteryReplaceDate = ''1.3.6.1.4.1.318.1.1.1.2.1.3.0''"
definition oidAPCAdvBatteryReplaceInd :: string where "oidAPCAdvBatteryReplaceInd = ''1.3.6.1.4.1.318.1.1.1.2.2.4.0''"
definition oidAPCAdvInputLineFailCause :: string where "oidAPCAdvInputLineFailCause = ''1.3.6.1.4.1.318.1.1.1.3.2.5.0''"
definition oidAPCBasicOutputStatus :: string where "oidAPCBasicOutputStatus = ''1.3.6.1.4.1.318.1.1.1.4.1.1.0''"
definition oidAPCAdvOutputVoltage :: string where "oidAPCAdvOutputVoltage = ''1.3.6.1.4.1.318.1.1.1.4.2.1.0''"
definition oidAPCAdvOutputLoadPct :: string where "oidAPCAdvOutputLoadPct = ''1.3.6.1.4.1.318.1.1.1.4.2.3.0''"

definition ups_oids :: "string list" where
  "ups_oids = [oidUPSIdentModel, oidUPSIdentAgentSWVersion, oidUPSBatteryStatus, oidUPSEstMinutesRemaining,
     oidUPSEstChargeRemaining, oidUPSBatteryTemperature, oidUPSInputVoltage, oidUPSOutputPercentLoad,
     oidAPCIdentModel, oidAPCAdvIdentManufactureDate, oidAPCAdvIdentSerialNumber,
     oidAPCAdvBatteryReplaceDate, oidAPCAdvBatteryReplaceInd, oidAPCAdvInputLineFailCause,
     oidAPCBasicOutputStatus, oidAPCAdvOutputVoltage, oidAPCAdvOutputLoadPct]"

definition CollectUPS :: "session \<Rightarrow> ups_health option" where
  "CollectUPS c =
     (case client_Get c ups_oids of
        Inl e \<Rightarrow> None
      | Inr res \<Rightarrow>
          if res = [] then None
          else let model = text_or_empty (scalar_text res oidUPSIdentModel) in
            Some \<lparr>ups_Model = (if model = [] then text_or_empty (scalar_text res oidAPCIdentModel) else model),
              ups_FirmwareVersion = text_or_empty (scalar_text res oidUPSIdentAgentSWVersion),
              ups_SerialNumber = text_or_empty (scalar_text res oidAPCAdvIdentSerialNumber),
              ups_ManufactureDate = text_or_empty (scalar_text res oidAPCAdvIdentManufactureDate),
              ups_BatteryReplaceDate = text_or_empty (scalar_text res oidAPCAdvBatteryReplaceDate),
              ups_BatteryStatus = scalar_i32 res oidUPSBatteryStatus,
              ups_BatteryReplaceNeeded = map_option (\<lambda>n. n = 2) (scalar_int res oidAPCAdvBatteryReplaceInd),
              ups_OutputStatus = scalar_i32 res oidAPCBasicOutputStatus,
              ups_InputLineFailCause = scalar_i32 res oidAPCAdvInputLineFailCause,
              ups_EstRuntimeMin = scalar_i32 res oidUPSEstMinutesRemaining,
              ups_EstChargePct = scalar_i32 res oidUPSEstChargeRemaining,
              ups_BatteryTempC = scalar_float res oidUPSBatteryTemperature,
              ups_OutputLoadPct =
                (case scalar_i32 res oidAPCAdvOutputLoadPct of
                   Some n \<Rightarrow> Some n | None \<Rightarrow> scalar_i32 res oidUPSOutputPercentLoad),
              ups_InputVoltage = scalar_float res oidUPSInputVoltage,
              ups_OutputVoltage = scalar_float res oidAPCAdvOutputVoltage\<rparr>)"

subsection \<open>Palo Alto\<close>

definition oidPanSessionActive :: string where "oidPanSessionActive = ''1.3.6.1.4.1.25461.2.1.2.3.1.0''"
definition oidPanSessionMax :: string where "oidPanSessionMax = ''1.3.6.1.4.1.25461.2.1.2.3.2.0''"
definition oidPanSessionActiveTCP :: string where "oidPanSessionActiveTCP = ''1.3.6.1.4.1.25461.2.1.2.3.3.0''"
definition oidPanSessionActiveUDP :: string where "oidPanSessionActiveUDP = ''1.3.6.1.4.1.25461.2.1.2.3.4.0''"

definition CollectPaloAlto :: "session \<Rightarrow> paloalto_health option" where
  "CollectPaloAlto c =
     (case client_Get c [oidPanSessionActive, oidPanSessionMax, oidPanSessionActiveTCP, oidPanSessionActiveUDP] of
        Inl e \<Rightarrow> None
      | Inr res \<Rightarrow>
          if res = [] then None
          else let active = scalar_int res oidPanSessionActive; maxs = scalar_int res oidPanSessionMax in
            Some \<lparr>pan_SessionActive = active, pan_SessionMax = maxs,
              pan_SessionActiveTcp = scalar_int res oidPanSessionActiveTCP,
              pan_SessionActiveUdp = scalar_int res oidPanSessionActiveUDP,
              pan_SessionUtilPct =
                (case (active, maxs) of
                   (Some a, Some m) \<Rightarrow>
                     if 0 < m then Some (f64_div (f64_mul (Fin 100) (f64_of_int a)) (f64_of_int m)) else None
                 | _ \<Rightarrow> None)\<rparr>)"

subsection \<open>Synology\<close>

definition oidSynoSystemStatus :: string where "oidSynoSystemStatus = ''1.3.6.1.4.1.6574.1.1.0''"
definition oidSynoSystemTemp :: string where "oidSynoSystemTemp = ''1.3.6.1.4.1.6574.1.2.0''"
definition oidSynoPowerStatus :: string where "oidSynoPowerStatus = ''1.3.6.1.4.1.6574.1.3.0''"
definition oidSynoModelName :: string where "oidSynoModelName = ''1.3.6.1.4.1.6574.1.5.1.0''"
definition oidSynoSerialNumber :: string where "oidSynoSerialNumber = ''1.3.6.1.4.1.6574.1.5.2.0''"
definition oidSynoDSMVersion :: string where "oidSynoDSMVersion = ''1.3.6.1.4.1.6574.1.5.3.0''"
definition oidSynoDiskID :: string where "oidSynoDiskID = ''1.3.6.1.4.1.6574.2.1.1.2''"
definition oidSynoDiskModel :: string where "oidSynoDiskModel = ''1.3.6.1.4.1.6574.2.1.1.3''"
definition oidSynoDiskType :: string where "oidSynoDiskType = ''1.3.6.1.4.1.6574.2.1.1.4''"
definition oidSynoDiskStatus :: string where "oidSynoDiskStatus = ''1.3.6.1.4.1.6574.2.1.1.5''"
definition oidSynoDiskTemp :: string where "oidSynoDiskTemp = ''1.3.6.1.4.1.6574.2.1.1.6''"
definition oidSynoRAIDName :: string where "oidSynoRAIDName = ''1.3.6.1.4.1.6574.3.1.1.2''"
definition oidSynoRAIDStatus :: string where "oidSynoRAIDStatus = ''1.3.6.1.4.1.6574.3.1.1.3''"

definition fresh_disk :: "int \<Rightarrow> synology_disk" where
  "fresh_disk idx = \<lparr>disk_Index = idx, disk_ID = [], disk_Model = [], disk_Type = [], disk_Status = 0, disk_TempC = Fin 0\<rparr>"

definition fresh_raid :: "int \<Rightarrow> synology_volume" where
  "fresh_raid idx = \<lparr>raid_Index = idx, raid_Name = [], raid_Status = 0\<rparr>"

definition disk_columns :: "synology_disk column list" where
  "disk_columns =
    [(oidSynoDiskID, by_text (\<lambda>s r. r\<lparr>disk_ID := s\<rparr>)),
     (oidSynoDiskModel, by_text (\<lambda>s r. r\<lparr>disk_Model := s\<rparr>)),
     (oidSynoDiskType, by_text (\<lambda>s r. r\<lparr>disk_Type := s\<rparr>)),
     (oidSynoDiskStatus, by_int (\<lambda>n r. r\<lparr>disk_Status := i32 n\<rparr>)),
     (oidSynoDiskTemp, by_int (\<lambda>n r. r\<lparr>disk_TempC := f64_of_int n\<rparr>))]"

definition raid_columns :: "synology_volume column list" where
  "raid_columns =
    [(oidSynoRAIDName, by_text (\<lambda>s r. r\<lparr>raid_Name := s\<rparr>)),
     (oidSynoRAIDStatus, by_int (\<lambda>n r. r\<lparr>raid_Status := i32 n\<rparr>))]"

definition CollectSynology ::
  "((int \<times> synology_disk) list \<Rightarrow> (int \<times> synology_disk) list)
     \<Rightarrow> ((int \<times> synology_volume) list \<Rightarrow> (int \<times> synology_volume) list) \<Rightarrow> session \<Rightarrow> synology_health option" where
  "CollectSynology ord_d ord_v c =
     (case client_Get c [oidSynoSystemStatus, oidSynoSystemTemp, oidSynoPowerStatus,
                         oidSynoModelName, oidSynoSerialNumber, oidSynoDSMVersion] of
        Inl e \<Rightarrow> None
      | Inr res \<Rightarrow>
          if res = [] then None
          else Some \<lparr>syno_Model = text_or_empty (scalar_text res oidSynoModelName),
            syno_Serial = text_or_empty (scalar_text res oidSynoSerialNumber),
            syno_DSMVersion = text_or_empty (scalar_text res oidSynoDSMVersion),
            syno_SystemStatus = scalar_i32 res oidSynoSystemStatus,
            syno_PowerStatus = scalar_i32 res oidSynoPowerStatus,
            syno_TempC = scalar_float res oidSynoSystemTemp,
            syno_Disks = map snd (ord_d (walk_columns c (\<lambda>_. key_last) fresh_disk disk_columns [])),
            syno_Volumes = map snd (ord_v (walk_columns c (\<lambda>_. key_last) fresh_raid raid_columns []))\<rparr>)"

subsection \<open>Alletra\<close>

definition oidAlletraVolName :: string where "oidAlletraVolName = ''1.3.6.1.4.1.37447.1.2.1.3''"
definition oidAlletraVolSizeLow :: string where "oidAlletraVolSizeLow = ''1.3.6.1.4.1.37447.1.2.1.4''"
definition oidAlletraVolSizeHigh :: string where "oidAlletraVolSizeHigh = ''1.3.6.1.4.1.37447.1.2.1.5''"
definition oidAlletraVolUseLow :: string where "oidAlletraVolUseLow = ''1.3.6.1.4.1.37447.1.2.1.6''"
definition oidAlletraVolUseHigh :: string where "oidAlletraVolUseHigh = ''1.3.6.1.4.1.37447.1.2.1.7''"
definition oidAlletraVolOnline :: string where "oidAlletraVolOnline = ''1.3.6.1.4.1.37447.1.2.1.10''"
definition oidAlletraGlobalVolCount :: string where "oidAlletraGlobalVolCount = ''1.3.6.1.4.1.37447.1.4.1.0''"
definition oidAlletraGlobalSnapCount :: string where "oidAlletraGlobalSnapCount = ''1.3.6.1.4.1.37447.1.4.2.0''"

record vol_acc =
  va_name :: string
  va_sizeLow :: u64
  va_sizeHigh :: u64
  va_useLow :: u64
  va_useHigh :: u64
  va_online :: bool
  va_onlinePresent :: bool

definition fresh_vol :: "int \<Rightarrow> vol_acc" where
  "fresh_vol idx = \<lparr>va_name = [], va_sizeLow = 0, va_sizeHigh = 0, va_useLow = 0, va_useHigh = 0,
     va_online = False, va_onlinePresent = False\<rparr>"

definition vol_columns :: "vol_acc column list" where
  "vol_columns =
    [(oidAlletraVolName, by_text (\<lambda>s r. r\<lparr>va_name := s\<rparr>)),
     (oidAlletraVolSizeLow, by_uint (\<lambda>n r. r\<lparr>va_sizeLow := n\<rparr>)),
     (oidAlletraVolSizeHigh, by_uint (\<lambda>n r. r\<lparr>va_sizeHigh := n\<rparr>)),
     (oidAlletraVolUseLow, by_uint (\<lambda>n r. r\<lparr>va_useLow := n\<rparr>)),
     (oidAlletraVolUseHigh, by_uint (\<lambda>n r. r\<lparr>va_useHigh := n\<rparr>)),
     (oidAlletraVolOnline, by_int (\<lambda>n r. r\<lparr>va_online := (n = 1), va_onlinePresent := True\<rparr>))]"

definition f64_of_u64 :: "u64 \<Rightarrow> f64" where
  "f64_of_u64 w = f64_of_int (uint w)"

definition alletra_bytes :: "u64 \<Rightarrow> u64 \<Rightarrow> u64" where
  "alletra_bytes high low = (push_bit 32 high OR low) * 1024"

definition finish_vol :: "int \<Rightarrow> vol_acc \<Rightarrow> alletra_volume" where
  "finish_vol idx r =
     (let sz = alletra_bytes (va_sizeHigh r) (va_sizeLow r);
          us = alletra_bytes (va_useHigh r) (va_useLow r)
      in \<lparr>vol_Index = idx, vol_Name = va_name r, vol_SizeBytes = sz, vol_UsageBytes = us,
          vol_UsedPct = (if 0 < sz then f64_div (f64_mul (Fin 100) (f64_of_u64 us)) (f64_of_u64 sz)
                         else Fin 0),
          vol_Online = (va_online r \<or> \<not> va_onlinePresent r)\<rparr>)"

definition CollectAlletra ::
  "((int \<times> vol_acc) list \<Rightarrow> (int \<times> vol_acc) list) \<Rightarrow> session \<Rightarrow> alletra_health option" where
  "CollectAlletra ord c =
     (let scalars = (case client_Get c [oidAlletraGlobalVolCount, oidAlletraGlobalSnapCount] of
                       Inl e \<Rightarrow> [] | Inr res \<Rightarrow> res);
          vc = scalar_int scalars oidAlletraGlobalVolCount;
          sc = scalar_int scalars oidAlletraGlobalSnapCount;
          rows = walk_columns c (\<lambda>_. key_last) fresh_vol vol_columns [];
          vols = map (\<lambda>(idx, r). finish_vol idx r) (ord rows)
      in if vc = None \<and> sc = None \<and> vols = [] then None
         else Some \<lparr>all_GlobalVolCount = vc, all_GlobalSnapCount = sc, all_Volumes = vols\<rparr>)"

subsection \<open>Cisco\<close>

definition oidCpmCPUTotal5secRev :: string where "oidCpmCPUTotal5secRev = ''1.3.6.1.4.1.9.9.109.1.1.1.1.6''"
definition oidCpmCPUTotal1minRev :: string where "oidCpmCPUTotal1minRev = ''1.3.6.1.4.1.9.9.109.1.1.1.1.7''"
definition oidCpmCPUTotal5minRev :: string where "oidCpmCPUTotal5minRev = ''1.3.6.1.4.1.9.9.109.1.1.1.1.8''"
definition oidCmpMemUsed :: string where "oidCmpMemUsed = ''1.3.6.1.4.1.9.9.48.1.1.1.5''"
definition oidCmpMemFree :: string where "oidCmpMemFree = ''1.3.6.1.4.1.9.9.48.1.1.1.6''"
definition oidCempMemUsed :: string where "oidCempMemUsed = ''1.3.6.1.4.1.9.9.221.1.1.1.1.18''"
definition oidCempMemFree :: string where "oidCempMemFree = ''1.3.6.1.4.1.9.9.221.1.1.1.1.20''"
definition oidVtpVlanState :: string where "oidVtpVlanState = ''1.3.6.1.4.1.9.9.46.1.3.1.1.2''"
definition oidVtpVlanName :: string where "oidVtpVlanName = ''1.3.6.1.4.1.9.9.46.1.3.1.1.4''"

text \<open>Running total and count of the readings that are percentages; the mean when there is one.\<close>

definition pct_readings :: "variable list \<Rightarrow> u64 list" where
  "pct_readings vars = filter (\<lambda>u. u \<le> 100) (List.map_filter (\<lambda>kv. value_Uint64 (snd kv)) vars)"

definition pct_mean :: "variable list \<Rightarrow> f64 option" where
  "pct_mean vars =
     (case foldl (\<lambda>(tot, n) u. (f64_add tot (f64_of_u64 u), f64_add n (Fin 1)))
             (Fin 0, Fin 0) (pct_readings vars) of
        (tot, n) \<Rightarrow> if f64_lt (Fin 0) n then Some (f64_div tot n) else None)"

definition cpu_mean :: "session \<Rightarrow> string \<Rightarrow> f64 option" where
  "cpu_mean c oid = (case client_BulkWalk c oid of Inl e \<Rightarrow> None | Inr vars \<Rightarrow> pct_mean vars)"

definition walk_or_nil :: "session \<Rightarrow> string \<Rightarrow> variable list" where
  "walk_or_nil c oid = (case client_BulkWalk c oid of Inl e \<Rightarrow> [] | Inr vars \<Rightarrow> vars)"

definition sum_readings :: "variable list \<Rightarrow> u64" where
  "sum_readings vars = sum_list (List.map_filter (\<lambda>kv. value_Uint64 (snd kv)) vars)"

text \<open>Both walks failing, or both empty, is \<open>None\<close>; a failed walk returns no rows.\<close>

definition walkMemPair :: "session \<Rightarrow> string \<Rightarrow> string \<Rightarrow> (u64 \<times> u64) option" where
  "walkMemPair c usedOID freeOID =
     (if walk_or_nil c usedOID = [] \<and> walk_or_nil c freeOID = [] then None
      else Some (sum_readings (walk_or_nil c usedOID), sum_readings (walk_or_nil c freeOID)))"

definition CollectCiscoChassis :: "session \<Rightarrow> chassis" where
  "CollectCiscoChassis c =
     (let cpu = cpu_mean c oidCpmCPUTotal5secRev;
          mem = (case walkMemPair c oidCempMemUsed oidCempMemFree of
                   Some p \<Rightarrow> Some p | None \<Rightarrow> walkMemPair c oidCmpMemUsed oidCmpMemFree)
      in \<lparr>ch_CPUPct = cpu, ch_MemUsedBytes = map_option fst mem,
          ch_MemTotalBytes = map_option (\<lambda>(used, free). used + free) mem, ch_TempC = None\<rparr>)"

definition vlan_key :: "string \<Rightarrow> string \<Rightarrow> string option" where
  "vlan_key base oid =
     (if length oid \<le> length base + 1 then None else Some (drop (length base + 1) oid))"

definition fresh_vlan :: "string \<Rightarrow> cisco_vlan" where
  "fresh_vlan suf = \<lparr>vlan_ID = lastIndex (CHR ''.'' # suf), vlan_Name = [], vlan_State = 0\<rparr>"

definition vlan_columns :: "(string \<times> (string \<Rightarrow> snmp_value \<Rightarrow> (cisco_vlan \<Rightarrow> cisco_vlan) option)) list" where
  "vlan_columns =
    [(oidVtpVlanState, \<lambda>suf v. Some (\<lambda>r.
        (case value_Int64 v of None \<Rightarrow> r | Some n \<Rightarrow> r\<lparr>vlan_State := i32 n\<rparr>)
          \<lparr>vlan_ID := lastIndex (CHR ''.'' # suf)\<rparr>)),
     (oidVtpVlanName, by_text (\<lambda>s r. r\<lparr>vlan_Name := s\<rparr>))]"

definition CollectCiscoExtras ::
  "((string \<times> cisco_vlan) list \<Rightarrow> (string \<times> cisco_vlan) list) \<Rightarrow> session \<Rightarrow> cisco_extras option" where
  "CollectCiscoExtras ord c =
     (let s5 = cpu_mean c oidCpmCPUTotal5secRev; m1 = cpu_mean c oidCpmCPUTotal1minRev;
          m5 = cpu_mean c oidCpmCPUTotal5minRev;
          vlans = filter (\<lambda>r. 0 < vlan_ID r)
                    (map snd (ord (walk_columns c vlan_key fresh_vlan vlan_columns [])))
      in if s5 = None \<and> m1 = None \<and> m5 = None \<and> vlans = [] then None
         else Some \<lparr>cis_VLANs = vlans, cis_CPU5sec = s5, cis_CPU1min = m1, cis_CPU5min = m5\<rparr>)"

subsection \<open>Dispatch on the vendor\<close>

record vendor_orders =
  ord_disks :: "(int \<times> synology_disk) list \<Rightarrow> (int \<times> synology_disk) list"
  ord_raids :: "(int \<times> synology_volume) list \<Rightarrow> (int \<times> synology_volume) list"
  ord_vols :: "(int \<times> vol_acc) list \<Rightarrow> (int \<times> vol_acc) list"
  ord_vlans :: "(string \<times> cisco_vlan) list \<Rightarrow> (string \<times> cisco_vlan) list"

definition keep_old :: "'a option \<Rightarrow> 'a option \<Rightarrow> 'a option" where
  "keep_old new old = (case new of None \<Rightarrow> old | Some x \<Rightarrow> Some x)"

definition vendor_typed :: "vendor_orders \<Rightarrow> session \<Rightarrow> string \<Rightarrow> snapshot \<Rightarrow> vendor_health \<Rightarrow> snapshot \<times> vendor_health" where
  "vendor_typed ords c v snap vh =
     (if v = ''cisco'' then
        (snap\<lparr>snap_Chassis := CollectCiscoChassis c\<rparr>,
         vh\<lparr>vh_Cisco := keep_old (CollectCiscoExtras (ord_vlans ords) c) (vh_Cisco vh)\<rparr>)
      else if v \<in> {''ups'', ''ups-apc'', ''ups-generic'', ''apc''} then
        (snap, vh\<lparr>vh_UPS := keep_old (CollectUPS c) (vh_UPS vh)\<rparr>)
      else if v = ''synology'' then
        (snap, vh\<lparr>vh_Synology := keep_old (CollectSynology (ord_disks ords) (ord_raids ords) c) (vh_Synology vh)\<rparr>)
      else if v \<in> {''paloalto'', ''palo-alto'', ''panw''} then
        (snap, vh\<lparr>vh_PaloAlto := keep_old (CollectPaloAlto c) (vh_PaloAlto vh)\<rparr>)
      else if v \<in> {''alletra'', ''nimble'', ''hpe-alletra''} then
        (snap, vh\<lparr>vh_Alletra := keep_old (CollectAlletra (ord_vols ords) c) (vh_Alletra vh)\<rparr>)
      else (snap, vh))"

definition vendor_empty :: "vendor_health \<Rightarrow> bool" where
  "vendor_empty vh \<longleftrightarrow> vh_UPS vh = None \<and> vh_Synology vh = None \<and> vh_PaloAlto vh = None \<and>
     vh_Alletra vh = None \<and> vh_Cisco vh = None \<and> vh_OIDMetrics vh = []"

definition CollectVendor ::
  "catalog \<Rightarrow> ((string \<times> snmp_value) list \<Rightarrow> snmp_value) \<Rightarrow> (string \<Rightarrow> nat \<Rightarrow> bool) \<Rightarrow> vendor_orders
     \<Rightarrow> session \<Rightarrow> string \<Rightarrow> snapshot \<Rightarrow> snapshot" where
  "CollectVendor cat pick expired ords c vendor snap =
     (let v = to_lower (trim_space vendor);
          vh0 = (case snap_Vendor snap of None \<Rightarrow> zero_vendor | Some x \<Rightarrow> x);
          (snap1, vh1) = (if v = [] then (snap, vh0) else vendor_typed ords c v snap vh0);
          snap2 = CollectOIDPacks cat pick expired c vendor (snap1\<lparr>snap_Vendor := Some vh1\<rparr>)
      in case snap_Vendor snap2 of
           None \<Rightarrow> snap2
         | Some vh \<Rightarrow> if vendor_empty vh then snap2\<lparr>snap_Vendor := None\<rparr> else snap2)"

subsection \<open>The payload for the alarm engine\<close>

definition payload_ups :: "ups_health \<Rightarrow> payload \<Rightarrow> payload" where
  "payload_ups u p =
     put_opt ''battery_replace_needed'' (\<lambda>b. AnyInt (if b then 1 else 0)) (ups_BatteryReplaceNeeded u)
    (put_opt ''ups_output_status'' AnyInt32 (ups_OutputStatus u)
    (put_opt ''battery_status'' AnyInt32 (ups_BatteryStatus u)
    (put_opt ''battery_temp_c'' AnyF64 (ups_BatteryTempC u)
    (put_opt ''ups_load_pct'' AnyInt32 (ups_OutputLoadPct u)
    (put_opt ''battery_runtime_min'' AnyInt32 (ups_EstRuntimeMin u)
    (put_opt ''battery_charge_pct'' AnyInt32 (ups_EstChargePct u) p))))))"

definition worst_temp :: "synology_disk list \<Rightarrow> f64" where
  "worst_temp ds = foldl (\<lambda>w d. if f64_lt w (disk_TempC d) then disk_TempC d else w) (Fin 0) ds"

definition worst_status :: "int list \<Rightarrow> int" where
  "worst_status ss = foldl (\<lambda>w s. if s \<noteq> 1 \<and> w < s then s else w) 0 ss"

definition payload_synology :: "synology_health \<Rightarrow> payload \<Rightarrow> payload" where
  "payload_synology s p =
     (let p1 = put_opt ''synology_temp_c'' AnyF64 (syno_TempC s)
              (put_opt ''synology_power_status'' AnyInt32 (syno_PowerStatus s)
              (put_opt ''synology_system_status'' AnyInt32 (syno_SystemStatus s) p));
          t = worst_temp (syno_Disks s);
          d = worst_status (map disk_Status (syno_Disks s));
          r = worst_status (map raid_Status (syno_Volumes s));
          p2 = (if f64_lt (Fin 0) t then p1(''synology_disk_temp_max_c'' \<mapsto> AnyF64 t) else p1);
          p3 = (if 0 < d then p2(''synology_disk_worst_status'' \<mapsto> AnyInt32 d) else p2)
      in if 0 < r then p3(''synology_raid_worst_status'' \<mapsto> AnyInt32 r) else p3)"

definition payload_paloalto :: "paloalto_health \<Rightarrow> payload \<Rightarrow> payload" where
  "payload_paloalto pa p =
     put_opt ''session_active'' AnyInt64 (pan_SessionActive pa)
    (put_opt ''session_util_pct'' AnyF64 (pan_SessionUtilPct pa) p)"

definition payload_alletra :: "alletra_health \<Rightarrow> payload \<Rightarrow> payload" where
  "payload_alletra a p =
     (let m = foldl (\<lambda>w v. if f64_lt w (vol_UsedPct v) then vol_UsedPct v else w) (Fin 0) (all_Volumes a)
      in if f64_lt (Fin 0) m then p(''volume_used_pct_max'' \<mapsto> AnyF64 m) else p)"

definition payload_cisco :: "cisco_extras \<Rightarrow> payload \<Rightarrow> payload" where
  "payload_cisco c p = put_opt ''cisco_cpu_5min_pct'' AnyF64 (cis_CPU5min c) p"

definition metric_matches :: "string \<Rightarrow> oid_metric \<Rightarrow> bool" where
  "metric_matches key m \<longleftrightarrow>
     om_Key m = key \<or> has_prefix (om_Key m) (key @ ''.'') \<or> has_prefix (om_Key m) (key @ ''_'')"

definition payload_oid :: "oid_metric list \<Rightarrow> payload \<Rightarrow> string \<times> string \<Rightarrow> payload" where
  "payload_oid ms p fk =
     (case find (metric_matches (snd fk)) ms of None \<Rightarrow> p | Some m \<Rightarrow> p(fst fk \<mapsto> AnyF64 (om_Value m)))"

definition apply_opt :: "('a \<Rightarrow> payload \<Rightarrow> payload) \<Rightarrow> 'a option \<Rightarrow> payload \<Rightarrow> payload" where
  "apply_opt f x p = (case x of None \<Rightarrow> p | Some v \<Rightarrow> f v p)"

definition AddVendorMetricsToPayload :: "catalog \<Rightarrow> payload \<Rightarrow> snapshot \<Rightarrow> payload" where
  "AddVendorMetricsToPayload cat p snap =
     (case snap_Vendor snap of None \<Rightarrow> p
      | Some vh \<Rightarrow>
          let p5 = apply_opt payload_cisco (vh_Cisco vh)
                  (apply_opt payload_alletra (vh_Alletra vh)
                  (apply_opt payload_paloalto (vh_PaloAlto vh)
                  (apply_opt payload_synology (vh_Synology vh)
                  (apply_opt payload_ups (vh_UPS vh) p))))
          in foldl (payload_oid (vh_OIDMetrics vh)) p5 (AlarmableFlatFields cat))"

subsection \<open>Correctness of the vendor collectors\<close>

lemma Max_insert_two:
  "finite A \<Longrightarrow> Max (insert w (insert s A)) = Max (insert (max w s) A)" for w s :: int
  by (cases "A = {}") (simp_all add: max.assoc)

lemma worst_status_spec:
  "worst_status ss = Max (insert 0 {s \<in> set ss. s \<noteq> 1})"
proof -
  have "foldl (\<lambda>w s. if s \<noteq> 1 \<and> w < s then s else w) w0 ss = Max (insert w0 {s \<in> set ss. s \<noteq> 1})" for w0
  proof (induction ss arbitrary: w0)
    case (Cons s ss)
    let ?A = "{s \<in> set ss. s \<noteq> 1}"
    have fin: "finite ?A" by simp
    have "{x \<in> set (s # ss). x \<noteq> 1} = (if s \<noteq> 1 then insert s ?A else ?A)" by auto
    moreover have "Max (insert w0 (insert s ?A)) = Max (insert (max w0 s) ?A)"
      by (rule Max_insert_two [OF fin])
    ultimately show ?case using Cons.IH by (auto simp: max_def)
  qed simp
  then show ?thesis by (simp add: worst_status_def)
qed

text \<open>
  an Alletra capacity whose halves are 32-bit readings is the exact number of bytes:
  \<open>(high * 2 ^ 32 + low) KiB\<close>, wrapping only at 2 ^ 64 bytes.
\<close>

theorem alletra_bytes_exact:
  assumes "unat low < 2 ^ 32" and "unat high < 2 ^ 32"
  shows "unat (alletra_bytes high low) = (unat high * 2 ^ 32 + unat low) * 1024 mod 2 ^ 64"
proof -
  have disj: "push_bit 32 high AND low = 0"
  proof (rule bit_word_eqI)
    fix n assume "n < LENGTH(64)"
    have "\<not> bit low n" if "32 \<le> n"
    proof -
      have "(2::nat) ^ 32 \<le> 2 ^ n" using that by (intro power_increasing) simp_all
      then have "unat low div 2 ^ n = 0" using assms(1) by simp
      then have "\<not> bit (unat low) n" by (simp add: bit_iff_odd)
      then show ?thesis using \<open>n < LENGTH(64)\<close> by (simp add: bit_unsigned_iff)
    qed
    then show "bit (push_bit 32 high AND low) n = bit (0 :: u64) n"
      by (auto simp: bit_and_iff bit_push_bit_iff)
  qed
  then have "push_bit 32 high OR low = push_bit 32 high + low"
    by (simp add: disjunctive_add_eq_or)
  moreover have "unat (push_bit 32 high) = unat high * 2 ^ 32"
    using assms(2) by (simp add: push_bit_eq_mult unat_word_ariths)
  ultimately show ?thesis
    using assms by (simp add: alletra_bytes_def unat_word_ariths mod_simps)
qed

text \<open>A volume of \<open>2 ^ 32 + 1\<close> KiB.\<close>

theorem alletra_bytes_exact_witness: "unat (alletra_bytes 1 1) = (1 * 2 ^ 32 + 1) * 1024 mod 2 ^ 64"
  using alletra_bytes_exact [of 1 1] by simp

lemma f64_add_ints:
  "\<bar>a\<bar> \<le> 2 ^ 53 \<Longrightarrow> \<bar>b\<bar> \<le> 2 ^ 53 \<Longrightarrow> \<bar>a + b\<bar> \<le> 2 ^ 53 \<Longrightarrow>
   f64_add (Fin (of_int a)) (Fin (of_int b)) = Fin (of_int (a + b))"
  using f64_of_int_exact [of "a + b"] by (simp add: f64_of_int_def)

lemma pct_fold:
  assumes "\<forall>u \<in> set us. u \<le> 100" and "0 \<le> t" and "0 \<le> n"
    and "t + 100 * int (length us) \<le> 2 ^ 52" and "n + int (length us) \<le> 2 ^ 52"
  shows "\<exists>t' n'. foldl (\<lambda>(tot, n) u. (f64_add tot (f64_of_u64 u), f64_add n (Fin 1))) (Fin (of_int t), Fin (of_int n)) us
      = (Fin (of_int t'), Fin (of_int n')) \<and> t \<le> t' \<and> t' \<le> t + 100 * int (length us) \<and>
        n' = n + int (length us) \<and> t' - t \<le> 100 * (n' - n)"
  using assms
proof (induction us arbitrary: t n)
  case (Cons u us)
  have "uint u \<le> uint (100 :: u64)" using Cons.prems(1) by (simp add: word_le_def)
  then have u: "0 \<le> uint u" "uint u \<le> 100" by simp_all
  have "f64_of_u64 u = Fin (of_int (uint u))"
    using f64_of_int_exact [of "uint u"] u by (simp add: f64_of_u64_def)
  moreover have "f64_add (Fin (of_int t)) (Fin (of_int (uint u))) = Fin (of_int (t + uint u))"
    by (rule f64_add_ints) (use Cons.prems u in simp_all)
  ultimately have "f64_add (Fin (of_int t)) (f64_of_u64 u) = Fin (of_int (t + uint u))" by simp
  moreover have "f64_add (Fin (of_int n)) (Fin 1) = Fin (of_int (n + 1))"
    using f64_add_ints [of n 1] Cons.prems by simp
  ultimately have step: "foldl (\<lambda>(tot, n) u. (f64_add tot (f64_of_u64 u), f64_add n (Fin 1))) (Fin (of_int t), Fin (of_int n)) (u # us)
      = foldl (\<lambda>(tot, n) u. (f64_add tot (f64_of_u64 u), f64_add n (Fin 1))) (Fin (of_int (t + uint u)), Fin (of_int (n + 1))) us"
    by (simp only: foldl_Cons prod.case)
  obtain t' n' where
    fold: "foldl (\<lambda>(tot, n) u. (f64_add tot (f64_of_u64 u), f64_add n (Fin 1))) (Fin (of_int (t + uint u)), Fin (of_int (n + 1))) us
      = (Fin (of_int t'), Fin (of_int n'))" and bounds: "t + uint u \<le> t'" "t' \<le> t + uint u + 100 * int (length us)"
        "n' = n + 1 + int (length us)" "t' - (t + uint u) \<le> 100 * (n' - (n + 1))"
    using Cons.IH [of "t + uint u" "n + 1"] Cons.prems u by auto
  have l: "int (length (u # us)) = 1 + int (length us)" by simp
  show ?case unfolding step fold
  proof (rule exI [of _ t'], rule exI [of _ n'], intro conjI refl)
    show "t \<le> t'" using bounds(1) u(1) by linarith
    show "t' \<le> t + 100 * int (length (u # us))" using bounds(2) u(2) l by linarith
    show "n' = n + int (length (u # us))" using bounds(3) l by linarith
    show "t' - t \<le> 100 * (n' - n)" using bounds(4) u(2) by (simp add: algebra_simps)
  qed
qed auto

text \<open>
  the CPU figure of a Cisco chassis, the floating-point mean of the walked readings that are
  at most 100, lies between 0 and 100 for every walk of at most \<open>2 ^ 40\<close> rows.
\<close>

theorem pct_mean_bounds:
  assumes "pct_mean vars = Some m" and "length vars \<le> 2 ^ 40"
  shows "f64_le (Fin 0) m \<and> f64_le m (Fin 100)"
proof -
  let ?us = "pct_readings vars"
  have "length ?us \<le> length vars"
    by (metis pct_readings_def map_filter_def comp_apply length_filter_le le_trans length_map)
  then have len: "int (length ?us) \<le> 2 ^ 40" using assms(2) by simp
  have "\<forall>u \<in> set ?us. u \<le> 100" by (auto simp: pct_readings_def)
  then obtain t n where fold: "foldl (\<lambda>(tot, n) u. (f64_add tot (f64_of_u64 u), f64_add n (Fin 1))) (Fin 0, Fin 0) ?us
      = (Fin (of_int t), Fin (of_int n))" and t: "0 \<le> t" "t \<le> 100 * n" and n: "n = int (length ?us)"
    using pct_fold [of ?us 0 0] len by auto
  have pos: "0 < n" and m: "m = f64_div (Fin (of_int t)) (Fin (of_int n))"
    using assms(1) by (auto simp: pct_mean_def fold split: if_splits)
  let ?q = "of_int t / of_int n :: rat"
  have q: "of_int 0 \<le> ?q" "?q \<le> of_int 100"
    using t pos by (simp_all add: divide_le_eq)
  then have "m = Fin (round_rat ?q)" using m pos small_finite [of ?q 100] by simp
  then show ?thesis using b64.rnd_ge_int [OF q(1)] b64.rnd_le_int [OF q(2)] by simp
qed

text \<open>Three readings, one of them not a percentage.\<close>

theorem pct_mean_bounds_witness:
  "case pct_mean [(''1'', VInt 40), (''2'', VInt 101), (''3'', VInt 60)] of
     None \<Rightarrow> False | Some m \<Rightarrow> f64_le (Fin 0) m \<and> f64_le m (Fin 100)"
proof -
  have "pct_mean [(''1'', VInt 40), (''2'', VInt 101), (''3'', VInt 60)] = Some (Fin 50)" by code_simp
  then show ?thesis using pct_mean_bounds [of "[(''1'', VInt 40), (''2'', VInt 101), (''3'', VInt 60)]"] by simp
qed

lemma CollectOIDPacks_frame:
  "snap_Interfaces (CollectOIDPacks cat pick expired c vendor snap) = snap_Interfaces snap"
  "snap_Chassis (CollectOIDPacks cat pick expired c vendor snap) = snap_Chassis snap"
  by (simp_all add: CollectOIDPacks_def Let_def)

lemma CollectOIDPacks_vendor:
  assumes "snap_Vendor snap = Some vh"
  shows "\<exists>ms. snap_Vendor (CollectOIDPacks cat pick expired c vendor snap) = Some (vh\<lparr>vh_OIDMetrics := ms\<rparr>)"
  using assms by (auto simp: CollectOIDPacks_def Let_def intro: exI [of _ "vh_OIDMetrics vh"])

text \<open>
  on a snapshot without vendor data, \<open>CollectVendor\<close> ends with a vendor block only if something
  was collected, fills at most the typed part its vendor string selects, leaves the interfaces
  alone, and touches the chassis only for Cisco.
\<close>

theorem collect_vendor_dispatch:
  assumes "snap_Vendor snap = None"
  shows "(case snap_Vendor (CollectVendor cat pick expired ords c vendor snap) of None \<Rightarrow> True
      | Some vh \<Rightarrow> \<not> vendor_empty vh \<and>
          (vh_Cisco vh = None \<or> to_lower (trim_space vendor) = ''cisco'') \<and>
          (vh_UPS vh = None \<or> to_lower (trim_space vendor) \<in> {''ups'', ''ups-apc'', ''ups-generic'', ''apc''}) \<and>
          (vh_Synology vh = None \<or> to_lower (trim_space vendor) = ''synology'') \<and>
          (vh_PaloAlto vh = None \<or> to_lower (trim_space vendor) \<in> {''paloalto'', ''palo-alto'', ''panw''}) \<and>
          (vh_Alletra vh = None \<or> to_lower (trim_space vendor) \<in> {''alletra'', ''nimble'', ''hpe-alletra''})) \<and>
    snap_Interfaces (CollectVendor cat pick expired ords c vendor snap) = snap_Interfaces snap \<and>
    (to_lower (trim_space vendor) = ''cisco'' \<or>
     snap_Chassis (CollectVendor cat pick expired ords c vendor snap) = snap_Chassis snap)"
proof -
  let ?v = "to_lower (trim_space vendor)"
  obtain s1 vh1 where t: "(if ?v = [] then (snap, zero_vendor) else vendor_typed ords c ?v snap zero_vendor) = (s1, vh1)"
    by fastforce
  have typed: "(vh_Cisco vh1 = None \<or> ?v = ''cisco'') \<and>
      (vh_UPS vh1 = None \<or> ?v \<in> {''ups'', ''ups-apc'', ''ups-generic'', ''apc''}) \<and>
      (vh_Synology vh1 = None \<or> ?v = ''synology'') \<and>
      (vh_PaloAlto vh1 = None \<or> ?v \<in> {''paloalto'', ''palo-alto'', ''panw''}) \<and>
      (vh_Alletra vh1 = None \<or> ?v \<in> {''alletra'', ''nimble'', ''hpe-alletra''}) \<and>
      snap_Interfaces s1 = snap_Interfaces snap \<and> (?v = ''cisco'' \<or> snap_Chassis s1 = snap_Chassis snap)"
    using t by (auto simp: vendor_typed_def zero_vendor_def split: if_splits)
  let ?s2 = "CollectOIDPacks cat pick expired c vendor (s1\<lparr>snap_Vendor := Some vh1\<rparr>)"
  obtain ms where ms: "snap_Vendor ?s2 = Some (vh1\<lparr>vh_OIDMetrics := ms\<rparr>)"
    using CollectOIDPacks_vendor [of "s1\<lparr>snap_Vendor := Some vh1\<rparr>" vh1 cat pick expired c vendor] by auto
  have eq: "CollectVendor cat pick expired ords c vendor snap =
      (if vendor_empty (vh1\<lparr>vh_OIDMetrics := ms\<rparr>) then ?s2\<lparr>snap_Vendor := None\<rparr> else ?s2)"
    using assms t ms by (simp add: CollectVendor_def Let_def)
  show ?thesis using typed ms by (simp add: eq CollectOIDPacks_frame)
qed

definition lab_orders :: map_orders where
  "lab_orders = \<lparr>ord_ifaces = rev, ord_entities = id, ord_lldp = id, ord_cdp = id\<rparr>"

definition lab_vendor_orders :: vendor_orders where
  "lab_vendor_orders = \<lparr>ord_disks = id, ord_raids = id, ord_vols = rev, ord_vlans = id\<rparr>"

definition lab_catalog :: catalog where
  "lab_catalog =
     \<lparr>cat_packs =
        [\<lparr>pk_ID = ''fan'', pk_Enterprises = [''9''], pk_VendorAliases = [''cisco''], pk_SysObjectPrefixes = [],
          pk_Metrics = [\<lparr>pm_Key = ''fan.state'', pm_OID = ''1.3.6.1.4.1.9.9.13.1.4.1.3'', pm_Mode = ''walk'',
                         pm_Scale = Fin 0, pm_Unit = [], pm_Label = ''Fan'', pm_EnumMap = [],
                         pm_FlatField = Some ''fan_state''\<rparr>]\<rparr>],
      cat_enums = []\<rparr>"

lemma CollectAll_no_vendor: "snap_Vendor (CollectAll ords t0 t1 c) = None"
  by (simp add: CollectAll_def Let_def collect_part_def split: sum.split)

text \<open>A UPS that answers nothing, after a poll that found two ports.\<close>

theorem collect_vendor_dispatch_witness:
  "snap_Interfaces (CollectVendor lab_catalog (\<lambda>vs. VNil) (\<lambda>p i. False) lab_vendor_orders lab_session '' UPS ''
      (CollectAll lab_orders 0 0 lab_session))
   = snap_Interfaces (CollectAll lab_orders 0 0 lab_session)"
  using collect_vendor_dispatch [OF CollectAll_no_vendor] by blast

subsection \<open>The payload: what is written and what is left alone\<close>

lemma AlarmableFlatFields_distinct: "distinct (map fst (AlarmableFlatFields cat))"
proof -
  have "distinct (map fst (foldl (\<lambda>out m. case pm_FlatField m of None \<Rightarrow> out
          | Some f \<Rightarrow> if f \<noteq> [] then upsert f (pm_Key m) (\<lambda>_. pm_Key m) out else out) out ms))"
    if "distinct (map fst out)" for out ms
    using that by (induction ms arbitrary: out) (auto split: option.split intro: distinct_upsert)
  from this [of "[]"] show ?thesis by (simp add: AlarmableFlatFields_def)
qed

lemma payload_oid_frame:
  "k \<notin> fst ` set fks \<Longrightarrow> foldl (payload_oid ms) p fks k = p k"
  by (induction fks arbitrary: p) (auto simp: payload_oid_def split: option.split)

lemma payload_oid_written:
  "distinct (map fst fks) \<Longrightarrow> map_of fks f = Some key \<Longrightarrow> find (metric_matches key) ms = Some m \<Longrightarrow>
   foldl (payload_oid ms) p fks f = Some (AnyF64 (om_Value m))"
proof (induction fks arbitrary: p)
  case (Cons fk fks)
  show ?case
  proof (cases "fst fk = f")
    case True
    then have "f \<notin> fst ` set fks" and "snd fk = key" using Cons.prems by auto
    then show ?thesis using True Cons.prems by (simp add: payload_oid_frame) (simp add: payload_oid_def)
  next
    case False
    then show ?thesis using Cons by simp
  qed
qed simp

text \<open>The fields the typed vendor blocks write.\<close>

definition vendor_fields :: "string set" where
  "vendor_fields =
     {''battery_charge_pct'', ''battery_runtime_min'', ''ups_load_pct'', ''battery_temp_c'', ''battery_status'',
      ''ups_output_status'', ''battery_replace_needed'', ''synology_system_status'', ''synology_power_status'',
      ''synology_temp_c'', ''synology_disk_temp_max_c'', ''synology_disk_worst_status'',
      ''synology_raid_worst_status'', ''session_util_pct'', ''session_active'', ''volume_used_pct_max'',
      ''cisco_cpu_5min_pct''}"

lemma typed_payload_frame:
  assumes "k \<notin> vendor_fields"
  shows "apply_opt payload_ups u p k = p k" "apply_opt payload_synology sy p k = p k"
    "apply_opt payload_paloalto pa p k = p k" "apply_opt payload_alletra al p k = p k"
    "apply_opt payload_cisco ci p k = p k"
  using assms
  by (simp_all add: apply_opt_def payload_ups_def payload_synology_def payload_paloalto_def payload_alletra_def
        payload_cisco_def vendor_fields_def Let_def split: option.split)

text \<open>
  \<open>AddVendorMetricsToPayload\<close> writes each flat field of the OID catalog with the value of the
  first metric of the snapshot that belongs to it, and leaves every key that is neither a catalog
  field nor a typed vendor field as it was, so the identity of the appliance cannot be overwritten.
\<close>

theorem payload_fields:
  assumes "snap_Vendor snap = Some vh"
    and "map_of (AlarmableFlatFields cat) f = Some key"
    and "find (metric_matches key) (vh_OIDMetrics vh) = Some m"
    and "k \<notin> vendor_fields" and "k \<notin> fst ` set (AlarmableFlatFields cat)"
  shows "AddVendorMetricsToPayload cat p snap f = Some (AnyF64 (om_Value m)) \<and>
         AddVendorMetricsToPayload cat p snap k = p k"
  using assms payload_oid_written [OF AlarmableFlatFields_distinct assms(2,3)]
  by (simp add: AddVendorMetricsToPayload_def Let_def payload_oid_frame typed_payload_frame)

definition fan_snapshot :: snapshot where
  "fan_snapshot = (CollectAll lab_orders 0 0 lab_session)\<lparr>snap_Vendor := Some (zero_vendor\<lparr>vh_OIDMetrics :=
     [\<lparr>om_PackID = ''fan'', om_Key = ''fan.state.7'', om_Value = Fin 2, om_Text = [], om_Unit = [], om_Label = ''Fan''\<rparr>]\<rparr>)\<rparr>"

theorem payload_fields_witness:
  "AddVendorMetricsToPayload lab_catalog [''vendor'' \<mapsto> AnyString ''cisco''] fan_snapshot ''fan_state'' = Some (AnyF64 (Fin 2)) \<and>
   AddVendorMetricsToPayload lab_catalog [''vendor'' \<mapsto> AnyString ''cisco''] fan_snapshot ''vendor'' = Some (AnyString ''cisco'')"
proof -
  have flat: "AlarmableFlatFields lab_catalog = [(''fan_state'', ''fan.state'')]" by code_simp
  have "metric_matches ''fan.state'' \<lparr>om_PackID = ''fan'', om_Key = ''fan.state.7'', om_Value = Fin 2,
      om_Text = [], om_Unit = [], om_Label = ''Fan''\<rparr>" by code_simp
  then show ?thesis
    using payload_fields [of fan_snapshot _ lab_catalog "''fan_state''" "''fan.state''" _ "''vendor''"]
    by (simp add: fan_snapshot_def flat vendor_fields_def)
qed

end
