(* ===== verification/Persist_Snapshot.thy ===== *)
theory Persist_Snapshot
  imports Snmp_Vendor
begin

text \<open>
  \<open>internal/poller/persist_snapshot.go\<close>: the statements one poll sends, in the order it sends
  them, and the transaction that runs them. The four tables are maps keyed by their conflict
  targets; what the database may refuse (a lost connection, a foreign key, a failed commit) is the
  argument \<open>fault\<close>, which says for each step of the transaction whether it fails and with what.
  Times are nanoseconds.
\<close>

subsection \<open>Tables\<close>

record appliance_row =
  ar_snapshot :: string
  ar_snapshot_at :: "int option"
  ar_sys_descr :: "string option"
  ar_sys_name :: "string option"
  ar_uptime :: int
  ar_cpu :: "f64 option"
  ar_mem_used :: "int option"
  ar_mem_total :: "int option"
  ar_if_up :: nat
  ar_if_total :: nat
  ar_phys_total :: nat
  ar_phys_up :: nat
  ar_uplinks :: nat
  ar_polled_at :: "int option"
  ar_last_error :: "string option"

record chassis_sample =
  cs_cpu :: "f64 option"
  cs_mem_used :: "int option"
  cs_mem_total :: "int option"

record iface_sample =
  is_in_bps :: "int option"
  is_out_bps :: "int option"
  is_in_errors :: int
  is_out_errors :: int
  is_in_discards :: int
  is_out_discards :: int

record tables =
  tb_appliances :: "uuid \<rightharpoonup> appliance_row"
  tb_chassis :: "uuid \<times> int \<rightharpoonup> chassis_sample"
  tb_ifaces :: "uuid \<times> int \<times> int \<rightharpoonup> iface_sample"
  tb_vendor :: "uuid \<times> string \<times> int \<rightharpoonup> f64 option \<times> string option"

subsection \<open>Values\<close>

definition NULLIF :: "string \<Rightarrow> string option" where
  "NULLIF s = (if s = [] then None else Some s)"

definition uint64SQL :: "u64 option \<Rightarrow> int option" where
  "uint64SQL p = map_option (\<lambda>u. i64 (uint u)) p"

definition floatSQL :: "f64 option \<Rightarrow> f64 option" where
  "floatSQL p = p"

fun itoa32_digits :: "nat \<Rightarrow> string \<Rightarrow> string" where
  "itoa32_digits n acc =
     (if n = 0 then acc else itoa32_digits (n div 10) (char_of (48 + n mod 10) # acc))"

declare itoa32_digits.simps [simp del]

text \<open>The loop runs while \<open>n > 0\<close>, so a negative number is the empty string.\<close>

definition itoa32 :: "int \<Rightarrow> string" where
  "itoa32 n = (if n = 0 then ''0'' else if 0 < n then itoa32_digits (nat n) [] else [])"

definition truncateErr :: "string \<Rightarrow> nat \<Rightarrow> string" where
  "truncateErr s n = (if length s \<le> n then s else take n s)"

subsection \<open>Statements\<close>

datatype statement =
    UpdateAppliance uuid appliance_row
  | InsertChassis uuid int chassis_sample
  | InsertIface uuid int int iface_sample
  | InsertVendor uuid int string "f64 option" string

text \<open>
  An UPDATE of an absent row changes nothing; \<open>ON CONFLICT DO UPDATE\<close> overwrites, \<open>DO NOTHING\<close>
  keeps what is there.
\<close>

fun exec_statement :: "statement \<Rightarrow> tables \<Rightarrow> tables" where
  "exec_statement (UpdateAppliance i r) t =
     (if tb_appliances t i = None then t else t\<lparr>tb_appliances := (tb_appliances t)(i \<mapsto> r)\<rparr>)"
| "exec_statement (InsertChassis i tm s) t = t\<lparr>tb_chassis := (tb_chassis t)((i, tm) \<mapsto> s)\<rparr>"
| "exec_statement (InsertIface i idx tm s) t =
     (if tb_ifaces t (i, idx, tm) = None then t\<lparr>tb_ifaces := (tb_ifaces t)((i, idx, tm) \<mapsto> s)\<rparr> else t)"
| "exec_statement (InsertVendor i tm key num txt) t =
     t\<lparr>tb_vendor := (tb_vendor t)((i, key, tm) \<mapsto> (num, NULLIF txt))\<rparr>"

subsection \<open>What a snapshot is worth\<close>

definition upCount :: "iface list \<Rightarrow> nat" where
  "upCount ifs = length (filter if_OperUp ifs)"

definition physTotalCount :: "iface list \<Rightarrow> nat" where
  "physTotalCount ifs = length (filter (\<lambda>i. if_Kind i = ''physical'') ifs)"

definition physUpCount :: "iface list \<Rightarrow> nat" where
  "physUpCount ifs = length (filter (\<lambda>i. if_Kind i = ''physical'' \<and> if_OperUp i) ifs)"

definition uplinkCount :: "iface list \<Rightarrow> nat" where
  "uplinkCount ifs = length (filter if_IsUplink ifs)"

definition appliance_update :: "string \<Rightarrow> snapshot \<Rightarrow> appliance_row" where
  "appliance_update blob snap =
     \<lparr>ar_snapshot = blob, ar_snapshot_at = Some (snap_CapturedAt snap),
      ar_sys_descr = NULLIF (sys_Description (snap_System snap)),
      ar_sys_name = NULLIF (sys_Name (snap_System snap)),
      ar_uptime = sys_UptimeSecs (snap_System snap),
      ar_cpu = floatSQL (ch_CPUPct (snap_Chassis snap)),
      ar_mem_used = uint64SQL (ch_MemUsedBytes (snap_Chassis snap)),
      ar_mem_total = uint64SQL (ch_MemTotalBytes (snap_Chassis snap)),
      ar_if_up = upCount (snap_Interfaces snap), ar_if_total = length (snap_Interfaces snap),
      ar_phys_total = physTotalCount (snap_Interfaces snap),
      ar_phys_up = physUpCount (snap_Interfaces snap),
      ar_uplinks = uplinkCount (snap_Interfaces snap),
      ar_polled_at = Some (snap_CapturedAt snap), ar_last_error = None\<rparr>"

definition iface_statements :: "uuid \<Rightarrow> snapshot \<Rightarrow> statement list" where
  "iface_statements i snap =
     map (\<lambda>ifc. InsertIface i (if_Index ifc) (snap_CapturedAt snap)
             \<lparr>is_in_bps = uint64SQL (if_InBps ifc), is_out_bps = uint64SQL (if_OutBps ifc),
              is_in_errors = i64 (uint (if_InErrors ifc)), is_out_errors = i64 (uint (if_OutErrors ifc)),
              is_in_discards = i64 (uint (if_InDiscards ifc)), is_out_discards = i64 (uint (if_OutDiscards ifc))\<rparr>)
         (filter (\<lambda>ifc. \<not> (if_InBps ifc = None \<and> if_OutBps ifc = None)) (snap_Interfaces snap))"

subsection \<open>Vendor samples\<close>

text \<open>A sample is a metric key, a number or null, and a text. \<open>add\<close> queues even a null number.\<close>

type_synonym sample = "string \<times> f64 option \<times> string"

definition add_sample :: "string \<Rightarrow> f64 option \<Rightarrow> string \<Rightarrow> sample list" where
  "add_sample key num txt = [(key, num, txt)]"

definition addInt :: "string \<Rightarrow> int option \<Rightarrow> sample list" where
  "addInt key num = (case num of None \<Rightarrow> [] | Some n \<Rightarrow> add_sample key (Some (f64_of_int n)) [])"

definition addBool :: "string \<Rightarrow> bool option \<Rightarrow> sample list" where
  "addBool key b = (case b of None \<Rightarrow> [] | Some x \<Rightarrow> add_sample key (Some (Fin (if x then 1 else 0))) [])"

definition ups_samples :: "ups_health \<Rightarrow> sample list" where
  "ups_samples u =
     addInt ''ups.battery.charge_pct'' (ups_EstChargePct u) @
     addInt ''ups.battery.runtime_min'' (ups_EstRuntimeMin u) @
     addInt ''ups.output.load_pct'' (ups_OutputLoadPct u) @
     add_sample ''ups.battery.temp_c'' (ups_BatteryTempC u) [] @
     add_sample ''ups.input.voltage_v'' (ups_InputVoltage u) [] @
     add_sample ''ups.output.voltage_v'' (ups_OutputVoltage u) [] @
     addInt ''ups.battery.status'' (ups_BatteryStatus u) @
     addInt ''ups.output.status'' (ups_OutputStatus u) @
     addInt ''ups.input.line_fail_cause'' (ups_InputLineFailCause u) @
     addBool ''ups.battery.replace_needed'' (ups_BatteryReplaceNeeded u)"

definition disk_samples :: "synology_disk \<Rightarrow> sample list" where
  "disk_samples d =
     (let pre = ''synology.disk.'' @ itoa32 (disk_Index d) in
      add_sample (pre @ ''.status'') (Some (f64_of_int (disk_Status d))) [] @
      (if f64_lt (Fin 0) (disk_TempC d) then add_sample (pre @ ''.temp_c'') (Some (disk_TempC d)) [] else []))"

definition synology_samples :: "synology_health \<Rightarrow> sample list" where
  "synology_samples s =
     addInt ''synology.system.status'' (syno_SystemStatus s) @
     addInt ''synology.power.status'' (syno_PowerStatus s) @
     add_sample ''synology.system.temp_c'' (syno_TempC s) [] @
     concat (map disk_samples (syno_Disks s)) @
     concat (map (\<lambda>v. add_sample (''synology.volume.'' @ itoa32 (raid_Index v) @ ''.status'')
                         (Some (f64_of_int (raid_Status v))) []) (syno_Volumes s))"

definition paloalto_samples :: "paloalto_health \<Rightarrow> sample list" where
  "paloalto_samples p =
     addInt ''paloalto.session.active'' (pan_SessionActive p) @
     addInt ''paloalto.session.max'' (pan_SessionMax p) @
     addInt ''paloalto.session.active_tcp'' (pan_SessionActiveTcp p) @
     addInt ''paloalto.session.active_udp'' (pan_SessionActiveUdp p) @
     add_sample ''paloalto.session.util_pct'' (pan_SessionUtilPct p) []"

definition volume_samples :: "alletra_volume \<Rightarrow> sample list" where
  "volume_samples v =
     (let pre = ''alletra.volume.'' @ itoa32 (vol_Index v) in
      add_sample (pre @ ''.used_pct'') (Some (vol_UsedPct v)) (vol_Name v) @
      add_sample (pre @ ''.used_bytes'') (Some (f64_of_u64 (vol_UsageBytes v))) [] @
      add_sample (pre @ ''.size_bytes'') (Some (f64_of_u64 (vol_SizeBytes v))) [] @
      add_sample (pre @ ''.online'') (Some (Fin (if vol_Online v then 1 else 0))) [])"

definition alletra_samples :: "alletra_health \<Rightarrow> sample list" where
  "alletra_samples a =
     addInt ''alletra.global.vol_count'' (all_GlobalVolCount a) @
     addInt ''alletra.global.snap_count'' (all_GlobalSnapCount a) @
     concat (map volume_samples (all_Volumes a))"

definition cisco_samples :: "cisco_extras \<Rightarrow> sample list" where
  "cisco_samples c =
     add_sample ''cisco.cpu.5sec_pct'' (cis_CPU5sec c) [] @
     add_sample ''cisco.cpu.1min_pct'' (cis_CPU1min c) [] @
     add_sample ''cisco.cpu.5min_pct'' (cis_CPU5min c) []"

definition opt_samples :: "('a \<Rightarrow> sample list) \<Rightarrow> 'a option \<Rightarrow> sample list" where
  "opt_samples f x = (case x of None \<Rightarrow> [] | Some v \<Rightarrow> f v)"

definition vendor_samples :: "vendor_health \<Rightarrow> sample list" where
  "vendor_samples vh =
     opt_samples ups_samples (vh_UPS vh) @ opt_samples synology_samples (vh_Synology vh) @
     opt_samples paloalto_samples (vh_PaloAlto vh) @ opt_samples alletra_samples (vh_Alletra vh) @
     opt_samples cisco_samples (vh_Cisco vh) @
     concat (map (\<lambda>m. add_sample (om_Key m) (Some (om_Value m)) (om_Text m)) (vh_OIDMetrics vh))"

definition persistVendorSamples :: "uuid \<Rightarrow> snapshot \<Rightarrow> statement list" where
  "persistVendorSamples i snap =
     (case snap_Vendor snap of None \<Rightarrow> []
      | Some vh \<Rightarrow> map (\<lambda>(key, num, txt). InsertVendor i (snap_CapturedAt snap) key num txt) (vendor_samples vh))"

subsection \<open>The transaction\<close>

text \<open>
  Step \<open>0\<close> is BEGIN, the statements are numbered from \<open>1\<close>, and COMMIT is the step after the last.
  Rollback is the deferred call: it discards everything the transaction did.
\<close>

fun run_statements :: "(nat \<Rightarrow> string option) \<Rightarrow> nat \<Rightarrow> statement list \<Rightarrow> tables \<Rightarrow> string + tables" where
  "run_statements fault n [] t =
     (case fault n of Some e \<Rightarrow> Inl (''commit: '' @ e) | None \<Rightarrow> Inr t)"
| "run_statements fault n (s # ss) t =
     (case fault n of
        Some e \<Rightarrow> Inl ((case s of UpdateAppliance _ _ \<Rightarrow> ''update appliances: ''
                        | InsertChassis _ _ _ \<Rightarrow> ''insert chassis sample: ''
                        | InsertIface _ _ _ _ \<Rightarrow> ''iface sample '' @ itoa (int n - 3) @ '': ''
                        | InsertVendor _ _ _ _ _ \<Rightarrow> ''vendor samples: '') @ e)
      | None \<Rightarrow> run_statements fault (Suc n) ss (exec_statement s t))"

definition snapshot_statements :: "uuid \<Rightarrow> string \<Rightarrow> snapshot \<Rightarrow> statement list" where
  "snapshot_statements i blob snap =
     UpdateAppliance i (appliance_update blob snap) #
     InsertChassis i (snap_CapturedAt snap)
       \<lparr>cs_cpu = floatSQL (ch_CPUPct (snap_Chassis snap)),
        cs_mem_used = uint64SQL (ch_MemUsedBytes (snap_Chassis snap)),
        cs_mem_total = uint64SQL (ch_MemTotalBytes (snap_Chassis snap))\<rparr> #
     iface_statements i snap @ persistVendorSamples i snap"

text \<open>The result is the error returned, if any, and the tables after the call.\<close>

definition PersistSnapshot ::
  "(snapshot \<Rightarrow> string + string) \<Rightarrow> (nat \<Rightarrow> string option) \<Rightarrow> uuid \<Rightarrow> snapshot \<Rightarrow> tables \<Rightarrow> string option \<times> tables" where
  "PersistSnapshot marshal fault i snap t =
     (case marshal snap of
        Inl e \<Rightarrow> (Some (''marshal snapshot: '' @ e), t)
      | Inr blob \<Rightarrow>
          case fault 0 of
            Some e \<Rightarrow> (Some (''begin: '' @ e), t)
          | None \<Rightarrow>
              (case run_statements fault 1 (snapshot_statements i blob snap) t of
                 Inl e \<Rightarrow> (Some e, t)
               | Inr t' \<Rightarrow> (None, t')))"

text \<open>A failing UPDATE is only logged.\<close>

definition RecordPollError :: "(string option) \<Rightarrow> int \<Rightarrow> uuid \<Rightarrow> string option \<Rightarrow> tables \<Rightarrow> tables" where
  "RecordPollError fault now i pollErr t =
     (case pollErr of None \<Rightarrow> t
      | Some e \<Rightarrow>
          if fault \<noteq> None then t
          else (case tb_appliances t i of None \<Rightarrow> t
                | Some r \<Rightarrow> t\<lparr>tb_appliances := (tb_appliances t)
                      (i \<mapsto> r\<lparr>ar_last_error := Some (truncateErr e 500), ar_polled_at := Some now\<rparr>)\<rparr>))"

subsection \<open>What a committed poll leaves in the tables\<close>

definition iface_sample_rows :: "uuid \<Rightarrow> snapshot \<Rightarrow> ((uuid \<times> int \<times> int) \<times> iface_sample) list" where
  "iface_sample_rows i snap =
     map (\<lambda>ifc. ((i, if_Index ifc, snap_CapturedAt snap),
             \<lparr>is_in_bps = uint64SQL (if_InBps ifc), is_out_bps = uint64SQL (if_OutBps ifc),
              is_in_errors = i64 (uint (if_InErrors ifc)), is_out_errors = i64 (uint (if_OutErrors ifc)),
              is_in_discards = i64 (uint (if_InDiscards ifc)), is_out_discards = i64 (uint (if_OutDiscards ifc))\<rparr>))
         (filter (\<lambda>ifc. \<not> (if_InBps ifc = None \<and> if_OutBps ifc = None)) (snap_Interfaces snap))"

definition vendor_rows :: "uuid \<Rightarrow> snapshot \<Rightarrow> ((uuid \<times> string \<times> int) \<times> f64 option \<times> string option) list" where
  "vendor_rows i snap =
     (case snap_Vendor snap of None \<Rightarrow> []
      | Some vh \<Rightarrow> map (\<lambda>(key, num, txt). ((i, key, snap_CapturedAt snap), (num, NULLIF txt))) (vendor_samples vh))"

text \<open>
  The contract: the row of the appliance is replaced when there is one, a port keeps the sample it
  already has for that instant, and of two vendor samples with one key the later one stands.
\<close>

definition persist_spec :: "uuid \<Rightarrow> string \<Rightarrow> snapshot \<Rightarrow> tables \<Rightarrow> tables" where
  "persist_spec i blob snap t =
     \<lparr>tb_appliances = (if tb_appliances t i = None then tb_appliances t
                       else (tb_appliances t)(i \<mapsto> appliance_update blob snap)),
      tb_chassis = (tb_chassis t)((i, snap_CapturedAt snap) \<mapsto>
        \<lparr>cs_cpu = ch_CPUPct (snap_Chassis snap), cs_mem_used = uint64SQL (ch_MemUsedBytes (snap_Chassis snap)),
         cs_mem_total = uint64SQL (ch_MemTotalBytes (snap_Chassis snap))\<rparr>),
      tb_ifaces = map_of (iface_sample_rows i snap) ++ tb_ifaces t,
      tb_vendor = tb_vendor t ++ map_of (rev (vendor_rows i snap))\<rparr>"

lemma run_statements_result:
  "run_statements fault n ss t = Inr t' \<Longrightarrow> t' = foldl (\<lambda>t s. exec_statement s t) t ss"
  by (induction fault n ss t rule: run_statements.induct) (auto split: option.splits)

lemma run_statements_ok:
  "\<forall>k. fault k = None \<Longrightarrow> run_statements fault n ss t = Inr (foldl (\<lambda>t s. exec_statement s t) t ss)"
  by (induction fault n ss t rule: run_statements.induct) simp_all

lemma exec_ifaces:
  "foldl (\<lambda>t s. exec_statement s t) t (map (\<lambda>((i, idx, tm), r). InsertIface i idx tm r) rows)
   = t\<lparr>tb_ifaces := map_of rows ++ tb_ifaces t\<rparr>"
proof (induction rows arbitrary: t)
  case (Cons row rows)
  have "map_of rows ++ (tb_ifaces t)(k \<mapsto> r) = (map_of rows)(k \<mapsto> r) ++ tb_ifaces t" if "tb_ifaces t k = None" for k r
    using that by (auto simp: map_add_def fun_eq_iff split: option.split)
  moreover have "(map_of rows)(k \<mapsto> r) ++ tb_ifaces t = map_of rows ++ tb_ifaces t" if "tb_ifaces t k \<noteq> None" for k r
    using that by (auto simp: map_add_def fun_eq_iff split: option.split)
  ultimately show ?case using Cons.IH
    by (cases row) (force simp: fun_upd_def)
qed simp

lemma exec_vendor:
  "foldl (\<lambda>t s. exec_statement s t) t (map (\<lambda>(key, num, txt). InsertVendor i tm key num txt) xs)
   = t\<lparr>tb_vendor := tb_vendor t ++ map_of (rev (map (\<lambda>(key, num, txt). ((i, key, tm), (num, NULLIF txt))) xs))\<rparr>"
  by (induction xs arbitrary: t) auto

lemma iface_statements_rows:
  "iface_statements i snap = map (\<lambda>((i, idx, tm), r). InsertIface i idx tm r) (iface_sample_rows i snap)"
  by (simp add: iface_statements_def iface_sample_rows_def)

lemma exec_snapshot:
  "foldl (\<lambda>t s. exec_statement s t) t (snapshot_statements i blob snap) = persist_spec i blob snap t"
  by (cases "snap_Vendor snap")
    (simp_all add: snapshot_statements_def persist_spec_def iface_statements_rows exec_ifaces
      persistVendorSamples_def vendor_rows_def exec_vendor floatSQL_def)

lemma PersistSnapshot_ok:
  "PersistSnapshot marshal fault i snap t = (None, t') \<Longrightarrow> \<exists>blob. marshal snap = Inr blob \<and> t' = persist_spec i blob snap t"
  by (auto simp: PersistSnapshot_def exec_snapshot dest!: run_statements_result split: sum.splits option.splits)

lemma PersistSnapshot_failed:
  "PersistSnapshot marshal fault i snap t = (Some e, t') \<Longrightarrow> t' = t"
  by (auto simp: PersistSnapshot_def split: sum.splits option.splits)

text \<open>
  C7: \<open>PersistSnapshot\<close> is atomic: a call that returns an error, wherever in the transaction it arose,
  leaves every table as it was, and a call that returns none has written exactly what its contract
  says.
\<close>

theorem persist_snapshot_atomic:
  "case PersistSnapshot marshal fault i snap t of
     (Some e, t') \<Rightarrow> t' = t
   | (None, t') \<Rightarrow> \<exists>blob. marshal snap = Inr blob \<and> t' = persist_spec i blob snap t"
  by (auto dest: PersistSnapshot_ok PersistSnapshot_failed split: prod.split option.split)

lemma map_add_absorb: "m ++ (m ++ n) = m ++ n" "(n ++ m) ++ m = n ++ m"
  by (auto simp: map_add_def fun_eq_iff split: option.split)

lemma persist_spec_idem: "persist_spec i blob snap (persist_spec i blob snap t) = persist_spec i blob snap t"
  by (simp add: persist_spec_def map_add_absorb del: map_add_assoc)

text \<open>
  a poll that is written twice, for instance when the first commit's answer was lost, leaves the
  tables as one write does.
\<close>

theorem persist_snapshot_idempotent:
  assumes "PersistSnapshot marshal fault i snap t = (None, t')"
    and "PersistSnapshot marshal fault' i snap t' = (None, t'')"
  shows "t'' = t'"
  using PersistSnapshot_ok [OF assms(1)] PersistSnapshot_ok [OF assms(2)] by (auto simp: persist_spec_idem)

text \<open>An unknown appliance, so only the samples are written.\<close>

theorem persist_snapshot_idempotent_witness:
  "let t = \<lparr>tb_appliances = Map.empty, tb_chassis = Map.empty, tb_ifaces = Map.empty, tb_vendor = Map.empty\<rparr>;
       write = PersistSnapshot (\<lambda>s. Inr ''{}'') (\<lambda>k. None) ''ap1'' fan_snapshot
   in snd (write (snd (write t))) = snd (write t)"
  unfolding Let_def
  by (rule persist_snapshot_idempotent [of "\<lambda>s. Inr ''{}''" "\<lambda>k. None" _ _ _ _ "\<lambda>k. None"])
    (simp_all add: PersistSnapshot_def run_statements_ok)

lemma itoa32_digits_acc: "itoa32_digits n acc = (if n = 0 then acc else dec_nat n @ acc)"
proof (induction n acc rule: itoa32_digits.induct)
  case (1 n acc)
  show ?case
  proof (cases "n = 0")
    case False
    then show ?thesis
      using 1 by (subst itoa32_digits.simps, subst dec_nat.simps) (auto simp: digit_char_def)
  qed (simp add: itoa32_digits.simps)
qed

lemma dec_nat_0: "dec_nat 0 = ''0''"
  by code_simp

text \<open>
  the hand-written \<open>itoa32\<close> agrees with \<open>strconv.Itoa\<close> on every index that is not negative,
  and drops a negative one altogether.
\<close>

theorem itoa32_itoa: "itoa32 n = (if n < 0 then [] else itoa n)"
  by (auto simp: itoa32_def itoa_def itoa32_digits_acc dec_nat_0)

end
