(* ===== verification/Go_Time.thy ===== *)
theory Go_Time
  imports Float64
begin

text \<open>
  What the program uses of Go's \<open>time\<close>: instants and durations are nanoseconds. An instant is an
  \<open>int\<close> counted from 1970; a duration is a 64-bit count.
\<close>

text \<open>The zero \<open>time.Time\<close>, the first of January of the year 1.\<close>

definition zero_time :: int where
  "zero_time = - (62135596800 * 1000000000)"

text \<open>\<open>Time.Sub\<close> saturates at the range of a duration.\<close>

definition time_sub :: "int \<Rightarrow> int \<Rightarrow> int" where
  "time_sub t u = max (- (2 ^ 63)) (min (2 ^ 63 - 1) (t - u))"

text \<open>\<open>time.Duration(n) * time.Second\<close> wraps.\<close>

definition seconds :: "int \<Rightarrow> int" where
  "seconds n = i64 (n * 1000000000)"

text \<open>\<open>Duration.Seconds\<close>: whole seconds plus the fraction; both quotients truncate.\<close>

definition duration_seconds :: "int \<Rightarrow> f64" where
  "duration_seconds d =
     f64_add (f64_of_int (sgn d * (\<bar>d\<bar> div 1000000000)))
       (f64_div (f64_of_int (sgn d * (\<bar>d\<bar> mod 1000000000))) (f64_of_int 1000000000))"

lemma time_sub_self [simp]: "time_sub t t = 0"
  by (simp add: time_sub_def)

lemma i64_small: "- (2 ^ 63) \<le> n \<Longrightarrow> n < 2 ^ 63 \<Longrightarrow> i64 n = n"
  unfolding i64_def by (rule signed_take_bit_int_eq_self) simp_all

lemma seconds_small: "\<bar>n\<bar> \<le> 9000000000 \<Longrightarrow> seconds n = n * 1000000000"
  unfolding seconds_def by (rule i64_small) simp_all

end
