(* ===== verification/Scheduler.thy ===== *)
theory Scheduler
  imports Persist_Snapshot Go_Time
begin

text \<open>
  \<open>internal/poller/scheduler.go\<close>: the reconciliation of the workers with the appliances table, one
  poll of a worker, and the rates computed from two polls. A goroutine is a token of the map
  \<open>sch_live\<close>: it is in the map from its \<open>go\<close> statement until its context is cancelled. What the
  scheduler gets from elsewhere (the table's rows, the database, the sealed credentials, the
  clock, the network) is an argument.
\<close>

subsection \<open>Rates\<close>

record rate_state =
  rs_t :: int
  rs_inOctets :: u64
  rs_outOctets :: u64
  rs_inErrors :: u64
  rs_outErrors :: u64
  rs_inDiscards :: u64
  rs_outDiscards :: u64

type_synonym rates = "uuid \<times> int \<rightharpoonup> rate_state"

definition sanityMaxBps :: u64 where "sanityMaxBps = 10000000000000"

definition bpsDelta :: "(f64 \<Rightarrow> u64) \<Rightarrow> u64 \<Rightarrow> u64 \<Rightarrow> f64 \<Rightarrow> u64 option" where
  "bpsDelta oor prev cur dtSec =
     (let delta = cur - prev;
          bps = f64_to_u64 oor (f64_div (f64_mul (f64_of_u64 delta) (Fin 8)) dtSec)
      in if sanityMaxBps < bps then None else Some bps)"

definition reading :: "int \<Rightarrow> iface \<Rightarrow> rate_state" where
  "reading now ifc =
     \<lparr>rs_t = now, rs_inOctets = if_InOctets ifc, rs_outOctets = if_OutOctets ifc,
      rs_inErrors = if_InErrors ifc, rs_outErrors = if_OutErrors ifc,
      rs_inDiscards = if_InDiscards ifc, rs_outDiscards = if_OutDiscards ifc\<rparr>"

definition with_rates :: "(f64 \<Rightarrow> u64) \<Rightarrow> rate_state option \<Rightarrow> int \<Rightarrow> iface \<Rightarrow> iface" where
  "with_rates oor prev now ifc =
     (case prev of None \<Rightarrow> ifc
      | Some p \<Rightarrow>
          if rs_t p = zero_time then ifc
          else let dt = duration_seconds (time_sub now (rs_t p)) in
            if f64_le dt (Fin 0) then ifc
            else ifc
              \<lparr>if_InBps := (case bpsDelta oor (rs_inOctets p) (if_InOctets ifc) dt of
                             None \<Rightarrow> if_InBps ifc | Some b \<Rightarrow> Some b),
               if_OutBps := (case bpsDelta oor (rs_outOctets p) (if_OutOctets ifc) dt of
                              None \<Rightarrow> if_OutBps ifc | Some b \<Rightarrow> Some b)\<rparr>)"

fun compute_rates :: "(f64 \<Rightarrow> u64) \<Rightarrow> uuid \<Rightarrow> int \<Rightarrow> iface list \<Rightarrow> rates \<Rightarrow> iface list \<times> rates" where
  "compute_rates oor i now [] rt = ([], rt)"
| "compute_rates oor i now (ifc # ifs) rt =
     (let (ifs', rt') = compute_rates oor i now ifs (rt((i, if_Index ifc) \<mapsto> reading now ifc))
      in (with_rates oor (rt (i, if_Index ifc)) now ifc # ifs', rt'))"

definition computeRates :: "(f64 \<Rightarrow> u64) \<Rightarrow> uuid \<Rightarrow> snapshot \<Rightarrow> rates \<Rightarrow> snapshot \<times> rates" where
  "computeRates oor i snap rt =
     (let (ifs, rt') = compute_rates oor i (snap_CapturedAt snap) (snap_Interfaces snap) rt
      in (snap\<lparr>snap_Interfaces := ifs\<rparr>, rt'))"

subsection \<open>Workers\<close>

record worker_handle =
  wh_cancel :: nat
  wh_pollInterval :: int

record 'c worker =
  wk_id :: uuid
  wk_ip :: string
  wk_vendor :: string
  wk_interval :: int
  wk_creds :: 'c

record appliance_listing =
  al_id :: uuid
  al_ip :: string
  al_snmpv :: string
  al_sealed :: string
  al_pollSec :: int
  al_vendor :: string

text \<open>
  \<open>sch_next\<close> is the next unused token and \<open>sch_errors\<close> the calls of \<open>recordPollError\<close>, in order. The
  rate map of the struct is shared with the polls only and is a field of their state below.
\<close>

record 'c scheduler =
  sch_workers :: "uuid \<rightharpoonup> worker_handle"
  sch_live :: "nat \<rightharpoonup> 'c worker"
  sch_next :: nat
  sch_errors :: "(uuid \<times> string) list"

definition New :: "'c scheduler" where
  "New = \<lparr>sch_workers = Map.empty, sch_live = Map.empty, sch_next = 0, sch_errors = []\<rparr>"

definition cancel :: "nat \<Rightarrow> 'c scheduler \<Rightarrow> 'c scheduler" where
  "cancel t s = s\<lparr>sch_live := (sch_live s)(t := None)\<rparr>"

text \<open>
  \<open>open_sealed\<close> is \<open>Sealer.Open\<close> and \<open>decode\<close> is \<open>json.Unmarshal\<close> into \<open>snmp.Creds\<close>.
\<close>

definition openCreds :: "(string \<Rightarrow> string \<Rightarrow> string + string) \<Rightarrow> (string \<Rightarrow> string + 'c) \<Rightarrow> uuid \<Rightarrow> string \<Rightarrow> string + 'c" where
  "openCreds open_sealed decode i sealed =
     (if sealed = [] then Inl ''no sealed creds on row''
      else case open_sealed sealed (''appliance:'' @ i) of
             Inl e \<Rightarrow> Inl e
           | Inr plain \<Rightarrow> decode plain)"

text \<open>\<open>creds\<close> is \<open>openCreds\<close> on the row's id and sealed bytes.\<close>

definition startWorker ::
  "(uuid \<Rightarrow> string \<Rightarrow> string + 'c) \<Rightarrow> appliance_listing \<Rightarrow> int \<Rightarrow> 'c scheduler \<Rightarrow> 'c scheduler" where
  "startWorker creds row interval s =
     (let tok = sch_next s;
          s' = s\<lparr>sch_next := Suc tok,
                 sch_workers := (sch_workers s)(al_id row \<mapsto> \<lparr>wh_cancel = tok, wh_pollInterval = interval\<rparr>)\<rparr>
      in case creds (al_id row) (al_sealed row) of
           Inl e \<Rightarrow> cancel tok (s'\<lparr>sch_errors := sch_errors s @ [(al_id row, ''decrypt creds: '' @ e)]\<rparr>)
         | Inr c \<Rightarrow> s'\<lparr>sch_live := (sch_live s)
              (tok \<mapsto> \<lparr>wk_id = al_id row, wk_ip = al_ip row, wk_vendor = al_vendor row,
                        wk_interval = interval, wk_creds = c\<rparr>)\<rparr>)"

definition row_interval :: "appliance_listing \<Rightarrow> int" where
  "row_interval row = (let interval = seconds (al_pollSec row) in if interval < seconds 15 then seconds 15 else interval)"

definition reconcile_row ::
  "(uuid \<Rightarrow> string \<Rightarrow> string + 'c) \<Rightarrow> appliance_listing \<Rightarrow> 'c scheduler \<Rightarrow> 'c scheduler" where
  "reconcile_row creds row s =
     (case sch_workers s (al_id row) of
        Some h \<Rightarrow> if wh_pollInterval h = row_interval row then s
                  else startWorker creds row (row_interval row) (cancel (wh_cancel h) s)
      | None \<Rightarrow> startWorker creds row (row_interval row) s)"

text \<open>Rows that fail to scan are skipped and so not seen.\<close>

fun reconcile_rows ::
  "(uuid \<Rightarrow> string \<Rightarrow> string + 'c) \<Rightarrow> (string + appliance_listing) list \<Rightarrow> uuid list \<Rightarrow> 'c scheduler
     \<Rightarrow> uuid list \<times> 'c scheduler" where
  "reconcile_rows creds [] seen s = (seen, s)"
| "reconcile_rows creds (Inl e # rows) seen s = reconcile_rows creds rows seen s"
| "reconcile_rows creds (Inr row # rows) seen s =
     reconcile_rows creds rows (al_id row # seen) (reconcile_row creds row s)"

text \<open>The sweep over the map cancels and removes every handle whose id was not seen.\<close>

definition drop_unseen :: "uuid list \<Rightarrow> 'c scheduler \<Rightarrow> 'c scheduler" where
  "drop_unseen seen s =
     s\<lparr>sch_live := (\<lambda>t. if \<exists>i \<in> dom (sch_workers s) - set seen. map_option wh_cancel (sch_workers s i) = Some t
                        then None else sch_live s t),
       sch_workers := sch_workers s |` set seen\<rparr>"

definition reconcile ::
  "(uuid \<Rightarrow> string \<Rightarrow> string + 'c) \<Rightarrow> string + (string + appliance_listing) list \<Rightarrow> 'c scheduler \<Rightarrow> 'c scheduler" where
  "reconcile creds query s =
     (case query of Inl e \<Rightarrow> s
      | Inr rows \<Rightarrow> (case reconcile_rows creds rows [] s of (seen, s') \<Rightarrow> drop_unseen seen s'))"

definition stopAllWorkers :: "'c scheduler \<Rightarrow> 'c scheduler" where
  "stopAllWorkers s = drop_unseen [] s"

subsection \<open>One poll\<close>

record 'c poll_env =
  pe_slot :: bool
  pe_parse_ip :: "string \<Rightarrow> bool"
  pe_dial :: "string \<Rightarrow> 'c \<Rightarrow> string + session"
  pe_catalog :: catalog
  pe_pick :: "(string \<times> snmp_value) list \<Rightarrow> snmp_value"
  pe_expired :: "string \<Rightarrow> nat \<Rightarrow> bool"
  pe_orders :: map_orders
  pe_vendor_orders :: vendor_orders
  pe_start :: int
  pe_stop :: int
  pe_oor :: "f64 \<Rightarrow> u64"
  pe_marshal :: "snapshot \<Rightarrow> string + string"
  pe_fault :: "nat \<Rightarrow> string option"
  pe_error_fault :: "string option"
  pe_now :: int
  pe_connected :: bool
  pe_site :: "uuid \<Rightarrow> (uuid \<times> string) option"
  pe_encodable :: "payload \<Rightarrow> bool"

text \<open>The message \<open>metrics.appliance\<close>, or none: no NATS connection, no row, or a NaN to encode.\<close>

definition mem_ratio :: "chassis \<Rightarrow> f64" where
  "mem_ratio ch =
     (case (ch_MemTotalBytes ch, ch_MemUsedBytes ch) of
        (Some tot, Some used) \<Rightarrow> if 0 < tot then f64_div (f64_of_u64 used) (f64_of_u64 tot) else Fin 0
      | _ \<Rightarrow> Fin 0)"

definition publishApplianceMetrics :: "'c poll_env \<Rightarrow> uuid \<Rightarrow> string \<Rightarrow> snapshot \<Rightarrow> payload option" where
  "publishApplianceMetrics env i vendor snap =
     (if \<not> pe_connected env then None
      else case pe_site env i of None \<Rightarrow> None
      | Some (site, crit) \<Rightarrow>
          let base = [''applianceId'' \<mapsto> AnyString i, ''siteId'' \<mapsto> AnyString site, ''vendor'' \<mapsto> AnyString vendor,
                      ''criticality'' \<mapsto> AnyString crit,
                      ''cpuPct'' \<mapsto> AnyF64 (case ch_CPUPct (snap_Chassis snap) of None \<Rightarrow> Fin 0 | Some x \<Rightarrow> x),
                      ''memUsedRatio'' \<mapsto> AnyF64 (mem_ratio (snap_Chassis snap))];
              p = AddVendorMetricsToPayload (pe_catalog env) base snap
          in if pe_encodable env p then Some p else None)"

text \<open>What a poll changes: the rates, the tables and what has been published.\<close>

record poll_state =
  ps_rates :: rates
  ps_tables :: tables
  ps_published :: "payload list"

definition recordPollError :: "'c poll_env \<Rightarrow> uuid \<Rightarrow> string \<Rightarrow> poll_state \<Rightarrow> poll_state" where
  "recordPollError env i e st =
     st\<lparr>ps_tables := RecordPollError (pe_error_fault env) (pe_now env) i (Some e) (ps_tables st)\<rparr>"

definition collect :: "'c poll_env \<Rightarrow> session \<Rightarrow> string \<Rightarrow> snapshot" where
  "collect env c vendor =
     CollectVendor (pe_catalog env) (pe_pick env) (pe_expired env) (pe_vendor_orders env) c vendor
       (CollectAll (pe_orders env) (pe_start env) (pe_stop env) c)"

text \<open>
  \<open>pe_slot\<close>: a slot of the semaphore came free within the poll's 30 seconds. The address printed with
  \<open>%q\<close> is the text of a PostgreSQL \<open>inet\<close>, which has nothing to escape.
\<close>

definition pollOnce :: "'c poll_env \<Rightarrow> 'c worker \<Rightarrow> poll_state \<Rightarrow> poll_state" where
  "pollOnce env w st =
     (if \<not> pe_slot env then st
      else if \<not> pe_parse_ip env (wk_ip w)
        then recordPollError env (wk_id w) (''invalid mgmt_ip '' @ CHR 0x22 # wk_ip w @ [CHR 0x22]) st
      else case pe_dial env (wk_ip w) (wk_creds w) of
        Inl e \<Rightarrow> recordPollError env (wk_id w) (''dial: '' @ e) st
      | Inr c \<Rightarrow>
          let (snap, rt) = computeRates (pe_oor env) (wk_id w) (collect env c (wk_vendor w)) (ps_rates st);
              (err, tbs) = PersistSnapshot (pe_marshal env) (pe_fault env) (wk_id w) snap (ps_tables st);
              st' = st\<lparr>ps_rates := rt, ps_tables := tbs\<rparr>
          in case err of
               Some e \<Rightarrow> recordPollError env (wk_id w) (''persist: '' @ e) st'
             | None \<Rightarrow> (case publishApplianceMetrics env (wk_id w) (wk_vendor w) snap of
                          None \<Rightarrow> st' | Some p \<Rightarrow> st'\<lparr>ps_published := ps_published st' @ [p]\<rparr>))"

subsection \<open>The life of a scheduler\<close>

text \<open>
  \<open>Run\<close>: a first reconciliation, one per tick, and the shutdown. The credentials a row's sealed bytes
  open to may differ from tick to tick.
\<close>

inductive sched_step :: "((uuid \<Rightarrow> string \<Rightarrow> string + 'c) \<Rightarrow> bool) \<Rightarrow> 'c scheduler \<Rightarrow> 'c scheduler \<Rightarrow> bool"
  for sealer where
  tick: "sealer creds \<Longrightarrow> sched_step sealer s (reconcile creds query s)"
| shutdown: "sched_step sealer s (stopAllWorkers s)"

inductive_cases sched_stepE: "sched_step sealer s s'"

inductive reachable :: "((uuid \<Rightarrow> string \<Rightarrow> string + 'c) \<Rightarrow> bool) \<Rightarrow> 'c scheduler \<Rightarrow> bool" for sealer where
  start: "reachable sealer New"
| more: "reachable sealer s \<Longrightarrow> sched_step sealer s s' \<Longrightarrow> reachable sealer s'"

definition sched_inv :: "'c scheduler \<Rightarrow> bool" where
  "sched_inv s \<longleftrightarrow>
     (\<forall>t w. sch_live s t = Some w \<longrightarrow>
        sch_workers s (wk_id w) = Some \<lparr>wh_cancel = t, wh_pollInterval = wk_interval w\<rparr>) \<and>
     (\<forall>i h. sch_workers s i = Some h \<longrightarrow> wh_cancel h < sch_next s \<and> seconds 15 \<le> wh_pollInterval h) \<and>
     (\<forall>i j h k. sch_workers s i = Some h \<longrightarrow> sch_workers s j = Some k \<longrightarrow> wh_cancel h = wh_cancel k \<longrightarrow> i = j)"

lemma sched_invD:
  assumes "sched_inv s"
  shows "sch_live s t = Some w \<Longrightarrow> sch_workers s (wk_id w) = Some \<lparr>wh_cancel = t, wh_pollInterval = wk_interval w\<rparr>"
    and "sch_workers s i = Some h \<Longrightarrow> wh_cancel h < sch_next s"
    and "sch_workers s i = Some h \<Longrightarrow> seconds 15 \<le> wh_pollInterval h"
    and "sch_workers s i = Some h \<Longrightarrow> sch_workers s j = Some k \<Longrightarrow> wh_cancel h = wh_cancel k \<Longrightarrow> i = j"
  using assms by (auto simp: sched_inv_def)

lemma row_interval_min: "seconds 15 \<le> row_interval row"
  by (simp add: row_interval_def Let_def)

lemma sched_inv_New: "sched_inv New"
  by (simp add: sched_inv_def New_def)

lemma startWorker_maps [simp]:
  "sch_workers (startWorker creds row interval s) =
     (sch_workers s)(al_id row \<mapsto> \<lparr>wh_cancel = sch_next s, wh_pollInterval = interval\<rparr>)"
  "sch_next (startWorker creds row interval s) = Suc (sch_next s)"
  by (simp_all add: startWorker_def cancel_def Let_def split: sum.split)

lemma startWorker_live:
  "sch_live (startWorker creds row interval s) =
     (case creds (al_id row) (al_sealed row) of
        Inl e \<Rightarrow> (sch_live s)(sch_next s := None)
      | Inr c \<Rightarrow> (sch_live s)(sch_next s \<mapsto>
          \<lparr>wk_id = al_id row, wk_ip = al_ip row, wk_vendor = al_vendor row, wk_interval = interval, wk_creds = c\<rparr>))"
  by (simp add: startWorker_def cancel_def Let_def split: sum.split)

text \<open>A handle may be replaced once the goroutine it cancels is gone.\<close>

lemma startWorker_inv:
  assumes inv: "sched_inv s" and gone: "\<And>h. sch_workers s (al_id row) = Some h \<Longrightarrow> sch_live s (wh_cancel h) = None"
    and i: "seconds 15 \<le> interval"
  shows "sched_inv (startWorker creds row interval s)"
proof -
  have other: "wk_id w \<noteq> al_id row" if "sch_live s t = Some w" for t w
    using sched_invD(1) [OF inv that] gone that by fastforce
  have old: "wh_cancel h \<noteq> sch_next s" if "sch_workers s j = Some h" for j h
    using sched_invD(2) [OF inv that] by simp
  show ?thesis
    unfolding sched_inv_def
  proof (intro conjI allI impI)
    fix t w assume "sch_live (startWorker creds row interval s) t = Some w"
    then have "t = sch_next s \<and> wk_id w = al_id row \<and> wk_interval w = interval \<or> t \<noteq> sch_next s \<and> sch_live s t = Some w"
      by (auto simp: startWorker_live split: sum.splits if_splits)
    then show "sch_workers (startWorker creds row interval s) (wk_id w) = Some \<lparr>wh_cancel = t, wh_pollInterval = wk_interval w\<rparr>"
      using other sched_invD(1) [OF inv] by auto
  next
    fix j h assume "sch_workers (startWorker creds row interval s) j = Some h"
    then show "wh_cancel h < sch_next (startWorker creds row interval s)" and "seconds 15 \<le> wh_pollInterval h"
      using sched_invD(2,3) [OF inv] i by (auto split: if_splits intro: less_SucI)
  next
    fix j k h h'
    assume "sch_workers (startWorker creds row interval s) j = Some h"
      "sch_workers (startWorker creds row interval s) k = Some h'" "wh_cancel h = wh_cancel h'"
    then show "j = k" using old [of j h] old [of k h'] sched_invD(4) [OF inv, of j h k h'] by (auto split: if_splits)
  qed
qed

lemma cancel_inv: "sched_inv s \<Longrightarrow> sched_inv (cancel t s)"
  by (auto simp: sched_inv_def cancel_def)

lemma reconcile_row_inv:
  assumes "sched_inv s"
  shows "sched_inv (reconcile_row creds row s)"
  using assms
  by (auto simp: reconcile_row_def split: option.split
        intro!: startWorker_inv cancel_inv row_interval_min) (simp_all add: cancel_def)

lemma reconcile_rows_inv: "sched_inv s \<Longrightarrow> sched_inv (snd (reconcile_rows creds rows seen s))"
  by (induction creds rows seen s rule: reconcile_rows.induct) (simp_all add: reconcile_row_inv)

lemma drop_unseen_inv:
  assumes "sched_inv s"
  shows "sched_inv (drop_unseen seen s)"
proof -
  have "wk_id w \<in> set seen" if "sch_live (drop_unseen seen s) t = Some w" for t w
    using that sched_invD(1) [OF assms, of t w] by (fastforce simp: drop_unseen_def split: if_splits)
  then show ?thesis
    using sched_invD [OF assms] unfolding sched_inv_def
    by (auto simp: drop_unseen_def restrict_map_def split: if_splits)
qed

lemma reconcile_inv: "sched_inv s \<Longrightarrow> sched_inv (reconcile creds query s)"
  by (auto simp: reconcile_def intro!: drop_unseen_inv split: sum.split prod.split)
    (metis reconcile_rows_inv snd_conv)

lemma reachable_inv: "reachable sealer s \<Longrightarrow> sched_inv s"
  by (induction rule: reachable.induct)
    (auto elim!: sched_stepE simp: sched_inv_New reconcile_inv stopAllWorkers_def drop_unseen_inv)

text \<open>
  C1: in every reachable state an appliance has at most one live poll loop, the handle registered
  for the appliance is the one that cancels it, and no loop ticks faster than every 15 seconds.
\<close>

theorem one_worker_per_appliance:
  assumes "reachable sealer s" and "sch_live s t = Some w" and "sch_live s t' = Some w'" and "wk_id w' = wk_id w"
  shows "t' = t \<and> sch_workers s (wk_id w) = Some \<lparr>wh_cancel = t, wh_pollInterval = wk_interval w\<rparr> \<and>
         15 * 1000000000 \<le> wk_interval w"
proof -
  note inv = reachable_inv [OF assms(1)]
  have "seconds 15 = 15 * 1000000000" by code_simp
  then show ?thesis
    using sched_invD(1) [OF inv assms(2)] sched_invD(1) [OF inv assms(3)] assms(4)
      sched_invD(3) [OF inv, of "wk_id w"] by auto
qed

subsection \<open>A reconciliation follows the table\<close>

lemma reconcile_row_workers:
  "sch_workers (reconcile_row creds row s) j =
     (if j = al_id row then
        (case sch_workers s j of
           Some h \<Rightarrow> if wh_pollInterval h = row_interval row then Some h
                     else Some \<lparr>wh_cancel = sch_next s, wh_pollInterval = row_interval row\<rparr>
         | None \<Rightarrow> Some \<lparr>wh_cancel = sch_next s, wh_pollInterval = row_interval row\<rparr>)
      else sch_workers s j)"
  by (auto simp: reconcile_row_def cancel_def split: option.split)

definition row_ids :: "(string + appliance_listing) list \<Rightarrow> uuid set" where
  "row_ids rows = {al_id row | row. Inr row \<in> set rows}"

lemma row_ids_simps [simp]:
  "row_ids [] = {}" "row_ids (Inl e # rows) = row_ids rows" "row_ids (Inr row # rows) = insert (al_id row) (row_ids rows)"
  by (auto simp: row_ids_def)

lemma reconcile_rows_seen: "set (fst (reconcile_rows creds rows seen s)) = set seen \<union> row_ids rows"
  by (induction creds rows seen s rule: reconcile_rows.induct) auto

lemma reconcile_rows_dom:
  "dom (sch_workers (snd (reconcile_rows creds rows seen s))) = dom (sch_workers s) \<union> row_ids rows"
  by (induction creds rows seen s rule: reconcile_rows.induct)
    (auto simp: reconcile_row_workers dom_def split: if_splits option.splits)

lemma reconcile_rows_other:
  "j \<notin> row_ids rows \<Longrightarrow> sch_workers (snd (reconcile_rows creds rows seen s)) j = sch_workers s j"
  by (induction creds rows seen s rule: reconcile_rows.induct) (simp_all add: reconcile_row_workers)

lemma reconcile_rows_interval:
  "Inr row \<in> set rows \<Longrightarrow> distinct (map al_id (List.map_filter (case_sum (\<lambda>e. None) Some) rows)) \<Longrightarrow>
   map_option wh_pollInterval (sch_workers (snd (reconcile_rows creds rows seen s)) (al_id row)) = Some (row_interval row)"
proof (induction creds rows seen s rule: reconcile_rows.induct)
  case (3 creds r rows seen s)
  have ids: "row_ids rows = al_id ` set (List.map_filter (case_sum (\<lambda>e. None) Some) rows)" for rows
    by (induction rows) (auto simp: map_filter_simps split: sum.split)
  show ?case
  proof (cases "row = r")
    case True
    then have "al_id r \<notin> row_ids rows" using 3 by (simp add: ids map_filter_simps)
    then show ?thesis using True
      by (auto simp: reconcile_rows_other reconcile_row_workers split: option.split)
  qed (use 3 in \<open>auto simp: map_filter_simps\<close>)
qed (auto simp: map_filter_simps)

lemma reconcile_workers:
  "sch_workers (reconcile creds (Inr rows) s) =
     sch_workers (snd (reconcile_rows creds rows [] s)) |` row_ids rows"
  using reconcile_rows_seen [of creds rows "[]" s]
  by (auto simp: reconcile_def drop_unseen_def split: prod.split)

lemma reconcile_live_None:
  "sch_live (snd (reconcile_rows creds rows [] s)) t = None \<Longrightarrow> sch_live (reconcile creds (Inr rows) s) t = None"
  by (cases "reconcile_rows creds rows [] s") (simp add: reconcile_def drop_unseen_def)

text \<open>
  C2: after a reconciliation that could read the table the registered workers are exactly those of
  the rows that scanned, each with the row's interval, raised to 15 seconds; a query that fails
  changes nothing.
\<close>

theorem reconcile_follows_table:
  assumes "distinct (map al_id (List.map_filter (case_sum (\<lambda>e. None) Some) rows))"
  shows "dom (sch_workers (reconcile creds (Inr rows) s)) = row_ids rows \<and>
    (\<forall>row. Inr row \<in> set rows \<longrightarrow>
       map_option wh_pollInterval (sch_workers (reconcile creds (Inr rows) s) (al_id row)) = Some (row_interval row)) \<and>
    reconcile creds (Inl e) s = s"
proof (intro conjI allI impI)
  show "dom (sch_workers (reconcile creds (Inr rows) s)) = row_ids rows"
    using reconcile_rows_dom [of creds rows "[]" s] by (auto simp: reconcile_workers)
  fix row assume "Inr row \<in> set rows"
  then have "al_id row \<in> row_ids rows" by (auto simp: row_ids_def)
  with \<open>Inr row \<in> set rows\<close>
  show "map_option wh_pollInterval (sch_workers (reconcile creds (Inr rows) s) (al_id row)) = Some (row_interval row)"
    using reconcile_rows_interval [OF _ assms, of row creds "[]" s] by (simp add: reconcile_workers)
qed (simp add: reconcile_def)

subsection \<open>A worker whose credentials did not open\<close>

lemma reconcile_row_dead:
  assumes "sch_workers s i = Some h" and "sch_live s (wh_cancel h) = None" and "sched_inv s"
    and "al_id row = i \<longrightarrow> row_interval row = wh_pollInterval h"
  shows "sch_workers (reconcile_row creds row s) i = Some h \<and> sch_live (reconcile_row creds row s) (wh_cancel h) = None"
proof -
  have fresh: "wh_cancel h \<noteq> sch_next s" using sched_invD(2) [OF assms(3,1)] by simp
  show ?thesis
  proof (cases "al_id row = i")
    case True
    then show ?thesis using assms by (simp add: reconcile_row_def)
  next
    case False
    then have "sch_workers (reconcile_row creds row s) i = Some h" using assms(1) by (simp add: reconcile_row_workers)
    moreover have "sch_live (startWorker creds row (row_interval row) s') (wh_cancel h) = sch_live s' (wh_cancel h)"
      if "sch_next s' = sch_next s" for s'
      using fresh that by (simp add: startWorker_live split: sum.split)
    ultimately show ?thesis using assms(2) by (simp add: reconcile_row_def cancel_def split: option.split)
  qed
qed

lemma reconcile_rows_dead:
  "sched_inv s \<Longrightarrow> sch_workers s i = Some h \<Longrightarrow> sch_live s (wh_cancel h) = None \<Longrightarrow>
   \<forall>row. Inr row \<in> set rows \<longrightarrow> al_id row = i \<longrightarrow> row_interval row = wh_pollInterval h \<Longrightarrow>
   sch_workers (snd (reconcile_rows creds rows seen s)) i = Some h \<and>
   sch_live (snd (reconcile_rows creds rows seen s)) (wh_cancel h) = None"
proof (induction creds rows seen s rule: reconcile_rows.induct)
  case (3 creds row rows seen s)
  then show ?case
    using reconcile_row_dead [of s i h row creds] reconcile_row_inv [of s creds row] by simp
qed simp_all

text \<open>
  an appliance whose credentials could not be opened is not retried by a later reconciliation,
  whatever its credentials are by then: as long as its row keeps its interval, its dead handle
  stays registered and no poll loop is started for it.
\<close>

theorem failed_worker_not_retried:
  assumes "reachable sealer s" and "sch_workers s (al_id row) = None" and "creds (al_id row) (al_sealed row) = Inl e"
    and "al_id row \<in> row_ids rows" and "\<forall>r. Inr r \<in> set rows \<longrightarrow> al_id r = al_id row \<longrightarrow> row_interval r = row_interval row"
  shows "\<forall>t w. sch_live (reconcile creds' (Inr rows) (reconcile creds (Inr [Inr row]) s)) t = Some w
           \<longrightarrow> wk_id w \<noteq> al_id row"
proof -
  let ?s1 = "reconcile creds (Inr [Inr row]) s"
  let ?h = "\<lparr>wh_cancel = sch_next s, wh_pollInterval = row_interval row\<rparr>"
  note inv = reachable_inv [OF assms(1)]
  have inv1: "sched_inv ?s1" and inv2: "sched_inv (reconcile creds' (Inr rows) ?s1)"
    using inv by (simp_all add: reconcile_inv)
  have w1: "sch_workers ?s1 (al_id row) = Some ?h" "sch_live ?s1 (wh_cancel ?h) = None"
    using assms(2,3) by (simp_all add: reconcile_def reconcile_row_def drop_unseen_def startWorker_live)
  have "sch_workers (snd (reconcile_rows creds' rows [] ?s1)) (al_id row) = Some ?h"
      "sch_live (snd (reconcile_rows creds' rows [] ?s1)) (wh_cancel ?h) = None"
    using reconcile_rows_dead [OF inv1 w1, of rows creds' "[]"] assms(5) by simp_all
  then have "sch_workers (reconcile creds' (Inr rows) ?s1) (al_id row) = Some ?h"
      "sch_live (reconcile creds' (Inr rows) ?s1) (wh_cancel ?h) = None"
    using assms(4) by (simp_all only: reconcile_workers reconcile_live_None restrict_in)
  then show ?thesis using sched_invD(1) [OF inv2] by fastforce
qed

subsection \<open>Every registered worker is live when credentials open\<close>

definition all_live :: "'c scheduler \<Rightarrow> bool" where
  "all_live s \<longleftrightarrow> (\<forall>i h. sch_workers s i = Some h \<longrightarrow> sch_live s (wh_cancel h) \<noteq> None)"

lemma reconcile_row_all_live:
  assumes inv: "sched_inv s" and live: "all_live s" and ok: "\<forall>i b. \<exists>c. creds i b = Inr c"
  shows "all_live (reconcile_row creds row s)"
proof -
  have started: "all_live (startWorker creds row iv s')"
    if "\<And>j h. sch_workers s' j = Some h \<Longrightarrow> j \<noteq> al_id row \<Longrightarrow> sch_live s' (wh_cancel h) \<noteq> None" for s' iv
  proof -
    obtain c where c: "creds (al_id row) (al_sealed row) = Inr c" using ok by blast
    show ?thesis unfolding all_live_def
    proof (intro allI impI)
      fix j h assume "sch_workers (startWorker creds row iv s') j = Some h"
      then show "sch_live (startWorker creds row iv s') (wh_cancel h) \<noteq> None"
        using that [of j h] by (cases "j = al_id row") (auto simp: startWorker_live c)
    qed
  qed
  have "all_live (startWorker creds row iv (cancel (wh_cancel h) s))" if "sch_workers s (al_id row) = Some h" for h iv
    by (rule started) (use that live sched_invD(4) [OF inv] in \<open>auto simp: cancel_def all_live_def\<close>)
  moreover have "all_live (startWorker creds row iv s)" for iv
    by (rule started) (use live in \<open>auto simp: all_live_def\<close>)
  ultimately show ?thesis using live by (simp add: reconcile_row_def split: option.split)
qed

lemma reconcile_rows_all_live:
  "sched_inv s \<Longrightarrow> all_live s \<Longrightarrow> \<forall>i b. \<exists>c. creds i b = Inr c \<Longrightarrow> all_live (snd (reconcile_rows creds rows seen s))"
  by (induction creds rows seen s rule: reconcile_rows.induct)
    (simp_all add: reconcile_row_inv reconcile_row_all_live)

lemma drop_unseen_all_live:
  assumes inv: "sched_inv s" and live: "all_live s"
  shows "all_live (drop_unseen seen s)"
  unfolding all_live_def
proof (intro allI impI)
  fix i h assume a: "sch_workers (drop_unseen seen s) i = Some h"
  then have i: "i \<in> set seen" "sch_workers s i = Some h" by (auto simp: drop_unseen_def restrict_map_def split: if_splits)
  then have "\<not> (\<exists>j \<in> dom (sch_workers s) - set seen. map_option wh_cancel (sch_workers s j) = Some (wh_cancel h))"
    using sched_invD(4) [OF inv] by blast
  then show "sch_live (drop_unseen seen s) (wh_cancel h) \<noteq> None"
    using live i by (auto simp: drop_unseen_def all_live_def)
qed

lemma reachable_all_live:
  "reachable (\<lambda>creds. \<forall>i b. \<exists>c. creds i b = Inr c) s \<Longrightarrow> all_live s"
proof (induction rule: reachable.induct)
  case start show ?case by (simp add: all_live_def New_def)
next
  case (more s s')
  note inv = reachable_inv [OF more(1)]
  have "all_live (reconcile creds query s)" if "\<forall>i b. \<exists>c. creds i b = Inr c" for creds query
    using reconcile_rows_inv [OF inv, of creds _ "[]"] reconcile_rows_all_live [OF inv more(3) that, of _ "[]"] more(3)
    by (auto simp: reconcile_def split: sum.split prod.split intro!: drop_unseen_all_live) (metis snd_conv)+
  then show ?case using more(2) inv more(3)
    by (auto elim!: sched_stepE simp: stopAllWorkers_def drop_unseen_all_live)
qed

text \<open>
  when credentials always open, every active appliance is being polled: in a reachable state each
  registered worker has a live loop, for that appliance and at the registered interval.
\<close>

theorem registered_workers_poll:
  assumes "reachable (\<lambda>creds. \<forall>i b. \<exists>c. creds i b = Inr c) s" and "sch_workers s i = Some h"
  shows "\<exists>w. sch_live s (wh_cancel h) = Some w \<and> wk_id w = i \<and> wk_interval w = wh_pollInterval h"
proof -
  note inv = reachable_inv [OF assms(1)]
  obtain w where w: "sch_live s (wh_cancel h) = Some w"
    using reachable_all_live [OF assms(1)] assms(2) by (auto simp: all_live_def)
  then have r: "sch_workers s (wk_id w) = Some \<lparr>wh_cancel = wh_cancel h, wh_pollInterval = wk_interval w\<rparr>"
    by (rule sched_invD(1) [OF inv])
  then have "i = wk_id w" using sched_invD(4) [OF inv assms(2)] by simp
  then have "h = \<lparr>wh_cancel = wh_cancel h, wh_pollInterval = wk_interval w\<rparr>" using r assms(2) by simp
  then have "wh_pollInterval h = wk_interval w" by (metis worker_handle.select_convs(2))
  then show ?thesis using w \<open>i = wk_id w\<close> by simp
qed

subsection \<open>Rates between two polls\<close>

definition readings :: "uuid \<Rightarrow> snapshot \<Rightarrow> ((uuid \<times> int) \<times> rate_state) list" where
  "readings i snap = map (\<lambda>p. ((i, if_Index p), reading (snap_CapturedAt snap) p)) (snap_Interfaces snap)"

lemma compute_rates_result:
  "distinct (map if_Index ifs) \<Longrightarrow>
   compute_rates oor i now ifs rt =
     (map (\<lambda>p. with_rates oor (rt (i, if_Index p)) now p) ifs,
      rt ++ map_of (map (\<lambda>p. ((i, if_Index p), reading now p)) ifs))"
proof (induction ifs arbitrary: rt)
  case (Cons p ifs)
  have notin: "if_Index p \<notin> if_Index ` set ifs" using Cons.prems by simp
  then have "if_Index q \<noteq> if_Index p" if "q \<in> set ifs" for q
    using that by (metis image_eqI)
  then have "map (\<lambda>q. with_rates oor ((rt((i, if_Index p) \<mapsto> reading now p)) (i, if_Index q)) now q) ifs
      = map (\<lambda>q. with_rates oor (rt (i, if_Index q)) now q) ifs"
    by (intro map_cong refl) simp
  moreover have "(rt((i, if_Index p) \<mapsto> reading now p)) ++ map_of (map (\<lambda>q. ((i, if_Index q), reading now q)) ifs)
      = rt ++ map_of (map (\<lambda>q. ((i, if_Index q), reading now q)) (p # ifs))"
  proof (subst map_add_upd_left)
    show "(i, if_Index p) \<notin> dom (map_of (map (\<lambda>q. ((i, if_Index q), reading now q)) ifs))"
      using notin by (simp add: dom_map_of_conv_image_fst image_image image_iff)
  qed simp
  moreover have "distinct (map if_Index ifs)" using Cons.prems by simp
  ultimately show ?case
    by (simp only: compute_rates.simps Cons.IH Let_def prod.case list.map)
qed simp

lemma computeRates_result:
  "distinct (map if_Index (snap_Interfaces snap)) \<Longrightarrow>
   snap_Interfaces (fst (computeRates oor i snap rt)) =
     map (\<lambda>p. with_rates oor (rt (i, if_Index p)) (snap_CapturedAt snap) p) (snap_Interfaces snap) \<and>
   snd (computeRates oor i snap rt) = rt ++ map_of (readings i snap)"
  by (simp add: computeRates_def compute_rates_result readings_def)

lemma compute_rates_frame: "j \<noteq> i \<Longrightarrow> snd (compute_rates oor i now ifs rt) (j, idx) = rt (j, idx)"
proof (induction ifs arbitrary: rt)
  case (Cons p ifs)
  have "(rt((i, if_Index p) \<mapsto> reading now p)) (j, idx) = rt (j, idx)" using Cons.prems by simp
  then show ?case
    by (simp only: compute_rates.simps Let_def case_prod_unfold snd_conv Cons.IH [OF Cons.prems])
qed simp

lemma computeRates_frame: "j \<noteq> i \<Longrightarrow> snd (computeRates oor i snap rt) (j, idx) = rt (j, idx)"
  using compute_rates_frame [of j i oor "snap_CapturedAt snap" "snap_Interfaces snap" rt idx]
  by (cases "compute_rates oor i (snap_CapturedAt snap) (snap_Interfaces snap) rt") (simp add: computeRates_def)

definition other_polls :: "(f64 \<Rightarrow> u64) \<Rightarrow> (uuid \<times> snapshot) list \<Rightarrow> rates \<Rightarrow> rates" where
  "other_polls oor others rt = foldl (\<lambda>rt (j, snap). snd (computeRates oor j snap rt)) rt others"

lemma other_polls_frame: "\<forall>p \<in> set others. fst p \<noteq> i \<Longrightarrow> other_polls oor others rt (i, idx) = rt (i, idx)"
  by (induction others arbitrary: rt) (auto simp: other_polls_def computeRates_frame)

text \<open>
  the rates of a poll come from the appliance's own previous poll, however many polls of other
  appliances lie between: a port that was in the previous snapshot is compared with its counters
  there, at the distance of the two capture times.
\<close>

theorem rates_between_polls:
  assumes "distinct (map if_Index (snap_Interfaces s1))" and "distinct (map if_Index (snap_Interfaces s2))"
    and "\<forall>p \<in> set others. fst p \<noteq> i" and "p \<in> set (snap_Interfaces s1)"
    and "n < length (snap_Interfaces s2)" and "if_Index (snap_Interfaces s2 ! n) = if_Index p"
  shows "snap_Interfaces (fst (computeRates oor i s2 (other_polls oor others (snd (computeRates oor i s1 rt))))) ! n
    = with_rates oor (Some (reading (snap_CapturedAt s1) p)) (snap_CapturedAt s2) (snap_Interfaces s2 ! n)"
proof -
  have "map_of (readings i s1) (i, if_Index p) = Some (reading (snap_CapturedAt s1) p)"
    using assms(1,4)
    by (intro map_of_is_SomeI) (auto simp: readings_def o_def distinct_map inj_on_def)
  then show ?thesis
    using assms by (simp add: computeRates_result other_polls_frame map_add_def)
qed

lemma bpsDelta_bound: "bpsDelta oor prev cur dt = Some b \<Longrightarrow> b \<le> sanityMaxBps"
  by (auto simp: bpsDelta_def Let_def not_less split: if_splits)

lemma f64_to_u64_nonneg: "0 \<le> a \<Longrightarrow> a < 2 ^ 64 \<Longrightarrow> f64_to_u64 oor (Fin a) = word_of_int \<lfloor>a\<rfloor>"
  by simp

lemma bpsDelta_quotient:
  assumes d: "d < 2 ^ 49" and n: "0 < n" "n < 2 ^ 31"
  shows "\<exists>r. \<lfloor>of_nat (8 * d) / of_nat n :: rat\<rfloor> \<le> r \<and> r \<le> \<lceil>of_nat (8 * d) / of_nat n :: rat\<rceil> \<and>
    f64_to_u64 oor (f64_div (f64_mul (f64_of_u64 (of_nat d)) (Fin 8)) (Fin (of_nat n))) = word_of_int r"
proof -
  let ?q = "of_nat (8 * d) / of_nat n :: rat"
  have "uint (of_nat d :: u64) = int d" using d by (simp add: uint_nat unat_of_nat)
  moreover have "f64_of_int (int d) = Fin (of_int (int d))" by (rule f64_of_int_exact) (use d in simp)
  ultimately have cur: "f64_of_u64 (of_nat d) = Fin (of_int (int d))" by (simp only: f64_of_u64_def)
  have "f64_mul (Fin (of_int (int d))) (Fin 8) = f64_of_rat (of_int (8 * int d))" by (simp add: mult.commute)
  also have "\<dots> = Fin (of_int (8 * int d))"
    using small_finite [of "of_int (8 * int d)" "8 * int d"] round_rat_of_int [of "8 * int d"] d by simp
  finally have num: "f64_mul (f64_of_u64 (of_nat d)) (Fin 8) = Fin (of_nat (8 * d))" by (simp add: cur)
  have q0: "0 \<le> ?q" by simp
  have q1: "?q \<le> of_int (2 ^ 52)"
  proof -
    have "?q \<le> of_nat (8 * d)" using n by (simp add: divide_le_eq) (use mult_le_mono [of "8 * d" "8 * d" 1 n] in \<open>simp add: of_nat_mult [symmetric] del: of_nat_mult\<close>)
    also have "\<dots> \<le> of_nat (2 ^ 52)"
    proof (simp only: of_nat_le_iff)
      show "8 * d \<le> 2 ^ 52" using d by simp
    qed
    finally show ?thesis by simp
  qed
  have div: "f64_div (Fin (of_nat (8 * d))) (Fin (of_nat n)) = Fin (round_rat ?q)"
    using n small_finite [of ?q "2 ^ 52"] q0 q1 by simp
  have lo: "of_int \<lfloor>?q\<rfloor> \<le> round_rat ?q" and hi: "round_rat ?q \<le> of_int \<lceil>?q\<rceil>"
  proof -
    have "0 \<le> \<lfloor>?q\<rfloor>" "\<lfloor>?q\<rfloor> \<le> 2 ^ 52" "\<lceil>?q\<rceil> \<le> 2 ^ 52" "0 \<le> \<lceil>?q\<rceil>"
      using q0 q1 by linarith+
    then show "of_int \<lfloor>?q\<rfloor> \<le> round_rat ?q" "round_rat ?q \<le> of_int \<lceil>?q\<rceil>"
      using b64.rnd_ge_int [of "\<lfloor>?q\<rfloor>" ?q] b64.rnd_le_int [of ?q "\<lceil>?q\<rceil>"] by simp_all
  qed
  have "round_rat ?q \<le> of_int (2 ^ 52)" using b64.rnd_le_int [OF q1] by simp
  then have "f64_to_u64 oor (Fin (round_rat ?q)) = word_of_int \<lfloor>round_rat ?q\<rfloor>"
    using b64.rnd_nonneg [OF q0] by (intro f64_to_u64_nonneg) simp_all
  moreover have "\<lfloor>?q\<rfloor> \<le> \<lfloor>round_rat ?q\<rfloor>" using lo by (simp add: le_floor_iff)
  moreover have "\<lfloor>round_rat ?q\<rfloor> \<le> \<lceil>?q\<rceil>" using hi by (simp add: floor_le_iff; linarith)
  ultimately show ?thesis using num div by auto
qed

text \<open>
  a counter that advanced by fewer than \<open>2 ^ 49\<close> octets in a whole number of seconds, wrapping
  past \<open>2 ^ 64\<close> or not, gives the bit rate \<open>8 d / n\<close> to within the rounding of one unit, unless
  that exceeds 10 Tbps; a rate above 10 Tbps is never reported.
\<close>

theorem bps_delta_exact:
  assumes "d < 2 ^ 49" and "0 < n" and "n < 2 ^ 31"
  shows "case bpsDelta oor prev (prev + of_nat d) (Fin (of_nat n)) of
      None \<Rightarrow> 10 ^ 13 < \<lceil>of_nat (8 * d) / of_nat n :: rat\<rceil>
    | Some b \<Rightarrow> uint b \<le> 10 ^ 13 \<and> \<lfloor>of_nat (8 * d) / of_nat n :: rat\<rfloor> \<le> uint b \<and>
        uint b \<le> \<lceil>of_nat (8 * d) / of_nat n :: rat\<rceil>"
proof -
  let ?q = "of_nat (8 * d) / of_nat n :: rat"
  obtain r where r: "\<lfloor>?q\<rfloor> \<le> r" "r \<le> \<lceil>?q\<rceil>"
    "f64_to_u64 oor (f64_div (f64_mul (f64_of_u64 (of_nat d)) (Fin 8)) (Fin (of_nat n))) = word_of_int r"
    using bpsDelta_quotient [OF assms] by blast
  have "0 \<le> \<lfloor>?q\<rfloor>" by simp
  have "?q \<le> of_nat (8 * d)"
    using assms(2) by (simp add: divide_le_eq) (use mult_le_mono [of "8 * d" "8 * d" 1 n] assms(2) in \<open>simp add: of_nat_mult [symmetric] del: of_nat_mult\<close>)
  then have "\<lceil>?q\<rceil> \<le> int (8 * d)" by (simp add: ceiling_le_iff)
  then have "r \<le> int (8 * d)" using r(2) by linarith
  moreover have "int (8 * d) < 2 ^ 52" using assms(1) by simp
  ultimately have "r < 2 ^ 64" by simp
  moreover have "0 \<le> r" using r(1) \<open>0 \<le> \<lfloor>?q\<rfloor>\<close> by linarith
  ultimately have u: "uint (word_of_int r :: u64) = r" by (simp add: uint_word_of_int)
  have "prev + of_nat d - prev = (of_nat d :: u64)" by simp
  then have eq: "bpsDelta oor prev (prev + of_nat d) (Fin (of_nat n)) =
      (if 10 ^ 13 < r then None else Some (word_of_int r))"
    using u by (simp only: bpsDelta_def Let_def r(3)) (simp add: sanityMaxBps_def word_less_def)
  show ?thesis
  proof (cases "10 ^ 13 < r")
    case True
    then have "10 ^ 13 < \<lceil>?q\<rceil>" using r(2) by linarith
    then show ?thesis unfolding eq using True by (simp only: if_True option.case)
  next
    case False
    then show ?thesis unfolding eq if_not_P [OF False] option.case u using r(1,2) by linarith
  qed
qed

subsection \<open>A poll is all or nothing\<close>

lemma pollOnce_cases:
  "(\<exists>snap blob. ps_tables (pollOnce env w st) = persist_spec (wk_id w) blob snap (ps_tables st) \<and>
       ps_published (pollOnce env w st) = ps_published st @
         (case publishApplianceMetrics env (wk_id w) (wk_vendor w) snap of None \<Rightarrow> [] | Some p \<Rightarrow> [p])) \<or>
   (\<exists>e. ps_tables (pollOnce env w st) = RecordPollError (pe_error_fault env) (pe_now env) (wk_id w) e (ps_tables st) \<and>
       ps_published (pollOnce env w st) = ps_published st)"
proof -
  consider (quiet) "pollOnce env w st = st"
    | (refused) e where "pollOnce env w st = recordPollError env (wk_id w) e st"
    | (dialled) c where "pe_slot env" "pe_parse_ip env (wk_ip w)" "pe_dial env (wk_ip w) (wk_creds w) = Inr c"
  proof (cases "pe_slot env")
    case slot: True
    show ?thesis
    proof (cases "pe_parse_ip env (wk_ip w)")
      case True
      then show ?thesis using slot dialled refused
        by (cases "pe_dial env (wk_ip w) (wk_creds w)") (simp_all add: pollOnce_def)
    qed (use slot refused in \<open>simp add: pollOnce_def\<close>)
  qed (use quiet in \<open>simp add: pollOnce_def\<close>)
  then show ?thesis
  proof cases
    case quiet
    then show ?thesis by (intro disjI2 exI [of _ None]) (simp add: RecordPollError_def)
  next
    case (refused e)
    then show ?thesis by (auto simp: recordPollError_def)
  next
    case (dialled c)
    obtain snap rt where cr: "computeRates (pe_oor env) (wk_id w) (collect env c (wk_vendor w)) (ps_rates st) = (snap, rt)"
      by fastforce
    obtain err tbs where ps: "PersistSnapshot (pe_marshal env) (pe_fault env) (wk_id w) snap (ps_tables st) = (err, tbs)"
      by fastforce
    show ?thesis
    proof (cases err)
      case None
      obtain blob where "tbs = persist_spec (wk_id w) blob snap (ps_tables st)"
        using PersistSnapshot_ok [OF ps [unfolded None]] by blast
      then show ?thesis using None dialled
        by (intro disjI1 exI [of _ snap] exI [of _ blob]) (simp add: pollOnce_def cr ps Let_def split: option.split)
    next
      case (Some e)
      then show ?thesis using PersistSnapshot_failed [OF ps [unfolded Some]] dialled
        by (intro disjI2 exI [of _ "Some (''persist: '' @ e)"]) (simp add: pollOnce_def cr ps Let_def recordPollError_def)
    qed
  qed
qed

text \<open>
  a poll either commits its whole snapshot, or leaves every sample table alone and at most
  records an error on the appliance's row.
\<close>

theorem poll_once_all_or_nothing:
  "(\<exists>snap blob. ps_tables (pollOnce env w st) = persist_spec (wk_id w) blob snap (ps_tables st)) \<or>
   (\<exists>e. ps_tables (pollOnce env w st) = RecordPollError (pe_error_fault env) (pe_now env) (wk_id w) e (ps_tables st) \<and>
       ps_published (pollOnce env w st) = ps_published st)"
  using pollOnce_cases [of env w st] by metis

text \<open>
  C8: metrics reach the alarm engine only for a poll that was committed, at most one message per
  poll, and the message names the polled appliance unless the OID catalog claims that very key.
\<close>

theorem published_after_commit:
  assumes "ps_published (pollOnce env w st) \<noteq> ps_published st"
    and "''applianceId'' \<notin> fst ` set (AlarmableFlatFields (pe_catalog env))"
  shows "\<exists>snap blob p. ps_tables (pollOnce env w st) = persist_spec (wk_id w) blob snap (ps_tables st) \<and>
    ps_published (pollOnce env w st) = ps_published st @ [p] \<and> p ''applianceId'' = Some (AnyString (wk_id w))"
proof -
  have named: "p ''applianceId'' = Some (AnyString (wk_id w))"
    if "publishApplianceMetrics env (wk_id w) v snap = Some p" for v snap p
    using that assms(2)
    by (auto simp: publishApplianceMetrics_def Let_def AddVendorMetricsToPayload_def payload_oid_frame
          typed_payload_frame vendor_fields_def split: if_splits option.splits)
  obtain snap blob p where "ps_tables (pollOnce env w st) = persist_spec (wk_id w) blob snap (ps_tables st)"
    "ps_published (pollOnce env w st) = ps_published st @ [p]"
    "publishApplianceMetrics env (wk_id w) (wk_vendor w) snap = Some p"
    using pollOnce_cases [of env w st] assms(1) by (auto split: option.splits)
  then show ?thesis using named by blast
qed

subsection \<open>Concrete runs\<close>

definition core_row :: appliance_listing where
  "core_row = \<lparr>al_id = ''core'', al_ip = ''10.0.0.1'', al_snmpv = ''v2c'', al_sealed = ''blob'', al_pollSec = 5,
               al_vendor = ''cisco''\<rparr>"

definition core_started :: "unit scheduler" where
  "core_started = reconcile (\<lambda>i b. Inr ()) (Inr [Inl ''bad row'', Inr core_row]) New"

lemma core_row_interval: "row_interval core_row = 15000000000"
  by code_simp

lemma core_reachable: "reachable (\<lambda>creds. \<forall>i b. \<exists>c. creds i b = Inr c) core_started"
  unfolding core_started_def
  by (rule reachable.more [OF reachable.start], rule sched_step.tick) auto

lemma core_live:
  "sch_live core_started 0 = Some \<lparr>wk_id = ''core'', wk_ip = ''10.0.0.1'', wk_vendor = ''cisco'',
      wk_interval = 15000000000, wk_creds = ()\<rparr>"
  "sch_workers core_started ''core'' = Some \<lparr>wh_cancel = 0, wh_pollInterval = 15000000000\<rparr>"
proof -
  have i: "al_id core_row = ''core''" by (simp add: core_row_def)
  show "sch_live core_started 0 = Some \<lparr>wk_id = ''core'', wk_ip = ''10.0.0.1'', wk_vendor = ''cisco'',
      wk_interval = 15000000000, wk_creds = ()\<rparr>"
    by (simp add: core_started_def reconcile_def drop_unseen_def reconcile_row_def New_def startWorker_live
          core_row_interval) (simp add: core_row_def)
  show "sch_workers core_started ''core'' = Some \<lparr>wh_cancel = 0, wh_pollInterval = 15000000000\<rparr>"
    by (simp add: core_started_def reconcile_workers reconcile_row_workers i core_row_interval New_def)
qed

theorem one_worker_per_appliance_witness:
  "sch_workers core_started ''core'' = Some \<lparr>wh_cancel = 0, wh_pollInterval = 15000000000\<rparr>"
  using one_worker_per_appliance [OF core_reachable core_live(1) core_live(1)] by simp

theorem registered_workers_poll_witness: "\<exists>w. sch_live core_started 0 = Some w \<and> wk_id w = ''core''"
  using registered_workers_poll [OF core_reachable core_live(2)] by auto

theorem reconcile_follows_table_witness:
  "dom (sch_workers (reconcile (\<lambda>i b. Inr ()) (Inr [Inl ''bad row'', Inr core_row]) core_started)) = {''core''}"
  using reconcile_follows_table [of "[Inl ''bad row'', Inr core_row]" "\<lambda>i b. Inr ()" core_started]
  by (simp add: map_filter_simps core_row_def)

theorem failed_worker_not_retried_witness:
  "\<not> (\<exists>t w. sch_live (reconcile (\<lambda>i b. Inr ()) (Inr [Inr core_row])
            (reconcile (\<lambda>i b. Inl ''bad key'') (Inr [Inr core_row]) (New :: unit scheduler))) t = Some w \<and> wk_id w = ''core'')"
  using failed_worker_not_retried [OF reachable.start, of core_row "\<lambda>i b. Inl ''bad key''" "''bad key''" "[Inr core_row]" "\<lambda>i b. Inr ()"]
  by (simp add: New_def core_row_def)

definition port_snapshot :: "int \<Rightarrow> u64 \<Rightarrow> snapshot" where
  "port_snapshot t octets =
     \<lparr>snap_SchemaVersion = 2, snap_CapturedAt = t, snap_CollectMs = 0, snap_System = zero_sysinfo,
      snap_Chassis = zero_chassis, snap_Interfaces = [(fresh_iface 7)\<lparr>if_InOctets := octets\<rparr>],
      snap_Entities = [], snap_LLDP = [], snap_CDP = [], snap_Vendor = None, snap_CollectionWarnings = []\<rparr>"

theorem rates_between_polls_witness:
  "snap_Interfaces (fst (computeRates (\<lambda>x. 0) ''core'' (port_snapshot 60000000000 900)
       (other_polls (\<lambda>x. 0) [(''edge'', port_snapshot 5 1)] (snd (computeRates (\<lambda>x. 0) ''core'' (port_snapshot 0 0) Map.empty))))) ! 0
   = with_rates (\<lambda>x. 0) (Some (reading 0 (fresh_iface 7))) 60000000000 ((fresh_iface 7)\<lparr>if_InOctets := 900\<rparr>)"
  using rates_between_polls [of "port_snapshot 0 0" "port_snapshot 60000000000 900" "[(''edge'', port_snapshot 5 1)]"
      "''core''" "fresh_iface 7" 0 "\<lambda>x. 0" Map.empty]
  by (simp add: port_snapshot_def fresh_iface_def)

text \<open>The counter wraps: 60000 octets in a minute are 8000 bit/s.\<close>

lemma word_from_uint: "uint w = uint v \<Longrightarrow> w = v" for w v :: u64
  by (metis word_of_int_uint)

theorem bps_delta_exact_witness:
  "bpsDelta (\<lambda>x. 0) (- 1) 59999 (Fin 60) = Some 8000"
proof -
  have "case bpsDelta (\<lambda>x. 0) (- 1) (- 1 + of_nat 60000) (Fin (of_nat 60)) of
      None \<Rightarrow> 10 ^ 13 < \<lceil>of_nat (8 * 60000) / of_nat 60 :: rat\<rceil>
    | Some b \<Rightarrow> uint b \<le> 10 ^ 13 \<and> \<lfloor>of_nat (8 * 60000) / of_nat 60 :: rat\<rfloor> \<le> uint b \<and>
        uint b \<le> \<lceil>of_nat (8 * 60000) / of_nat 60 :: rat\<rceil>"
    by (rule bps_delta_exact) simp_all
  then show ?thesis by (auto intro!: word_from_uint split: option.splits)
qed

definition lab_env :: "unit poll_env" where
  "lab_env =
     \<lparr>pe_slot = True, pe_parse_ip = (\<lambda>ip. True), pe_dial = (\<lambda>ip c. Inr lab_session), pe_catalog = lab_catalog,
      pe_pick = (\<lambda>vs. VNil), pe_expired = (\<lambda>p i. False), pe_orders = lab_orders, pe_vendor_orders = lab_vendor_orders,
      pe_start = 0, pe_stop = 0, pe_oor = (\<lambda>x. 0), pe_marshal = (\<lambda>s. Inr ''{}''), pe_fault = (\<lambda>k. None),
      pe_error_fault = None, pe_now = 0, pe_connected = True, pe_site = (\<lambda>i. Some (''site'', ''normal'')),
      pe_encodable = (\<lambda>p. True)\<rparr>"

definition core_worker :: "unit worker" where
  "core_worker = \<lparr>wk_id = ''core'', wk_ip = ''10.0.0.1'', wk_vendor = ''cisco'', wk_interval = 15000000000, wk_creds = ()\<rparr>"

definition no_polls :: poll_state where
  "no_polls = \<lparr>ps_rates = Map.empty,
     ps_tables = \<lparr>tb_appliances = Map.empty, tb_chassis = Map.empty, tb_ifaces = Map.empty, tb_vendor = Map.empty\<rparr>,
     ps_published = []\<rparr>"

lemma lab_poll_published: "ps_published (pollOnce lab_env core_worker no_polls) \<noteq> ps_published no_polls"
  by (simp add: pollOnce_def lab_env_def core_worker_def no_polls_def PersistSnapshot_def run_statements_ok
      publishApplianceMetrics_def Let_def case_prod_unfold)

theorem published_after_commit_witness:
  "\<exists>snap blob p. ps_tables (pollOnce lab_env core_worker no_polls) = persist_spec ''core'' blob snap (ps_tables no_polls) \<and>
    ps_published (pollOnce lab_env core_worker no_polls) = [p] \<and> p ''applianceId'' = Some (AnyString ''core'')"
proof -
  have "AlarmableFlatFields lab_catalog = [(''fan_state'', ''fan.state'')]" by code_simp
  then have "''applianceId'' \<notin> fst ` set (AlarmableFlatFields (pe_catalog lab_env))" by (simp add: lab_env_def)
  from published_after_commit [OF lab_poll_published this] show ?thesis
    by (simp add: core_worker_def no_polls_def)
qed

end
