(* ===== verification/Mini_Expr.thy ===== *)
theory Mini_Expr
  imports Go_Any Float_Text
begin

text \<open>
  The expression language of alarm rules, \<open>internal/alarms/miniexpr.go\<close>: clauses
  \<open>device.FIELD op VALUE\<close> joined by \<open>&&\<close>, evaluated in an environment of metric values.
\<close>

subsection \<open>The clause pattern\<close>

text \<open>
  \<open>^\s*device\.(\w+)\s*(>=|<=|==|!=|>|<)\s*(?:"([^"]*)"|\s*([\d.+-eE]+))\s*$\<close>. Inside the last
  class \<open>+-e\<close> is a range, so the class is every character from \<open>'+'\<close> to \<open>'e'\<close>.
\<close>

definition re_space :: "char \<Rightarrow> bool" where
  "re_space c \<longleftrightarrow> char_code c \<in> {9, 10, 12, 13, 32}"

definition re_word :: "char \<Rightarrow> bool" where
  "re_word c \<longleftrightarrow> is_digit c \<or> (65 \<le> char_code c \<and> char_code c \<le> 90) \<or>
     (97 \<le> char_code c \<and> char_code c \<le> 122) \<or> c = CHR ''_''"

definition re_number :: "char \<Rightarrow> bool" where
  "re_number c \<longleftrightarrow> 43 \<le> char_code c \<and> char_code c \<le> 101"

definition quote_char :: char where
  "quote_char = CHR 0x22"

definition all_space :: "string \<Rightarrow> bool" where
  "all_space s \<longleftrightarrow> list_all re_space s"

text \<open>
  The value at the end of a clause: the quoted text and the number, one of them empty. The classes
  around a greedy repetition are disjoint, so the only backtracking is over the alternatives.
\<close>

definition match_quoted :: "string \<Rightarrow> string option" where
  "match_quoted s =
     (case s of [] \<Rightarrow> None
      | c # cs \<Rightarrow>
          if c \<noteq> quote_char then None
          else (case dropWhile (\<lambda>d. d \<noteq> quote_char) cs of
                  [] \<Rightarrow> None
                | _ # rest \<Rightarrow> if all_space rest then Some (takeWhile (\<lambda>d. d \<noteq> quote_char) cs) else None))"

definition match_number :: "string \<Rightarrow> string option" where
  "match_number s =
     (let n = takeWhile re_number s
      in if n \<noteq> [] \<and> all_space (dropWhile re_number s) then Some n else None)"

definition match_value :: "string \<Rightarrow> (string \<times> string) option" where
  "match_value s =
     (let t = dropWhile re_space s in
      case match_quoted t of
        Some q \<Rightarrow> Some (q, [])
      | None \<Rightarrow> map_option (\<lambda>n. ([], n)) (match_number t))"

text \<open>The operators are tried in the order of the pattern.\<close>

fun match_ops :: "string list \<Rightarrow> string \<Rightarrow> (string \<times> string \<times> string) option" where
  "match_ops [] s = None"
| "match_ops (op # ops) s =
     (case (if has_prefix s op then match_value (drop (length op) s) else None) of
        Some (q, n) \<Rightarrow> Some (op, q, n)
      | None \<Rightarrow> match_ops ops s)"

definition clause_ops :: "string list" where
  "clause_ops = [''>='', ''<='', ''=='', ''!='', ''>'', ''<'']"

definition match_clause :: "string \<Rightarrow> (string \<times> string \<times> string \<times> string) option" where
  "match_clause clause =
     (let s = dropWhile re_space clause in
      if \<not> has_prefix s ''device.'' then None
      else let t = drop 7 s; field = takeWhile re_word t in
        if field = [] then None
        else map_option (\<lambda>(op, q, n). (field, op, q, n))
               (match_ops clause_ops (dropWhile re_space (dropWhile re_word t))))"

subsection \<open>Evaluation\<close>

datatype eval_error =
    UnsupportedClause string
  | StringLHSRequired string
  | NotNumeric any
  | NumericRHSRequired string
  | FloatRHS string

fun toFloat64 :: "any \<Rightarrow> eval_error + f64" where
  "toFloat64 (AnyF64 x) = Inr x"
| "toFloat64 (AnyF32 x) = Inr x"
| "toFloat64 (AnyInt n) = Inr (f64_of_int n)"
| "toFloat64 (AnyInt64 n) = Inr (f64_of_int n)"
| "toFloat64 (AnyUint64 u) = Inr (f64_of_int (uint u))"
| "toFloat64 v = Inl (NotNumeric v)"

definition compareFloat :: "f64 \<Rightarrow> string \<Rightarrow> f64 \<Rightarrow> bool" where
  "compareFloat l op r =
     (if op = ''>'' then f64_lt r l
      else if op = ''>='' then f64_le r l
      else if op = ''<'' then f64_lt l r
      else if op = ''<='' then f64_le l r
      else if op = ''=='' then f64_eq l r
      else if op = ''!='' then \<not> f64_eq l r
      else False)"

definition compareString :: "string \<Rightarrow> string \<Rightarrow> string \<Rightarrow> bool" where
  "compareString l op r =
     (if op = ''=='' then l = r else if op = ''!='' then l \<noteq> r else False)"

definition evalClause :: "string \<Rightarrow> payload \<Rightarrow> eval_error + bool" where
  "evalClause clause env =
     (case match_clause clause of
        None \<Rightarrow> Inl (UnsupportedClause clause)
      | Some (field, op, qStr, num) \<Rightarrow>
          let numStr = trim_space num in
          case env field of
            None \<Rightarrow> Inr False
          | Some rv \<Rightarrow>
              if qStr \<noteq> [] then
                (case rv of AnyString ls \<Rightarrow> Inr (compareString ls op qStr) | _ \<Rightarrow> Inl (StringLHSRequired field))
              else
                (case toFloat64 rv of
                   Inl e \<Rightarrow> Inl e
                 | Inr lf \<Rightarrow>
                     if numStr = [] then Inl (NumericRHSRequired field)
                     else (case ParseFloat numStr of
                             None \<Rightarrow> Inl (FloatRHS numStr)
                           | Some rf \<Rightarrow> Inr (compareFloat lf op rf))))"

fun eval_clauses :: "string list \<Rightarrow> payload \<Rightarrow> eval_error + bool" where
  "eval_clauses [] env = Inr True"
| "eval_clauses (part # parts) env =
     (case evalClause (trim_space part) env of
        Inl e \<Rightarrow> Inl e
      | Inr ok \<Rightarrow> if ok then eval_clauses parts env else Inr False)"

definition EvalMini :: "string \<Rightarrow> payload \<Rightarrow> eval_error + bool" where
  "EvalMini expr0 env =
     (let expr = trim_space expr0 in
      if expr = [] \<or> expr = ''false'' then Inr False
      else if expr = ''true'' then Inr True
      else eval_clauses (split_str expr ''&&'') env)"

subsection \<open>Conjunction\<close>

lemma eval_clauses_find:
  "eval_clauses parts env =
     (case find (\<lambda>r. r \<noteq> Inr True) (map (\<lambda>p. evalClause (trim_space p) env) parts) of
        None \<Rightarrow> Inr True | Some r \<Rightarrow> r)"
  by (induction parts) (auto split: sum.splits)

text \<open>
  an expression that is not one of the literals is the conjunction of its clauses from left to
  right: its value is that of the first clause that is not true, an error included, and true when
  there is none. So a clause behind a false one is never an error.
\<close>

theorem eval_mini_conjunction:
  assumes "trim_space expr \<notin> {[], ''true'', ''false''}"
  shows "EvalMini expr env =
    (case find (\<lambda>r. r \<noteq> Inr True) (map (\<lambda>p. evalClause (trim_space p) env) (split_str (trim_space expr) ''&&'')) of
       None \<Rightarrow> Inr True | Some r \<Rightarrow> r)"
  using assms by (simp add: EvalMini_def Let_def eval_clauses_find)

theorem eval_mini_conjunction_witness:
  "EvalMini ''device.cpu_pct > 90 && device.vendor == 1'' [''cpu_pct'' \<mapsto> AnyF64 (Fin 12)] = Inr False"
proof -
  have "trim_space ''device.cpu_pct > 90 && device.vendor == 1'' \<notin> {[], ''true'', ''false''}" by code_simp
  moreover have "find (\<lambda>r. r \<noteq> Inr True)
      (map (\<lambda>p. evalClause (trim_space p) [''cpu_pct'' \<mapsto> AnyF64 (Fin 12)])
        (split_str (trim_space ''device.cpu_pct > 90 && device.vendor == 1'') ''&&'')) = Some (Inr False)"
    by code_simp
  ultimately show ?thesis by (simp add: eval_mini_conjunction)
qed

subsection \<open>A rendered clause reads back\<close>

lemma dropWhile_all: "list_all P s \<Longrightarrow> dropWhile P (s @ t) = dropWhile P t"
  by (induction s) auto

lemma takeWhile_all: "list_all P s \<Longrightarrow> takeWhile P (s @ t) = s @ takeWhile P t"
  by (induction s) auto

lemma re_space_not_word: "re_space c \<Longrightarrow> \<not> re_word c"
  by (auto simp: re_space_def re_word_def is_digit_def char_code_def)

lemma re_number_not_space: "re_number c \<Longrightarrow> \<not> re_space c"
  by (auto simp: re_space_def re_number_def)

lemma re_number_not_quote: "re_number c \<Longrightarrow> c \<noteq> quote_char"
  by (auto simp: re_number_def quote_char_def char_code_def)

lemma re_space_blank: "re_space CHR '' ''" "\<not> re_word CHR '' ''"
  by code_simp+

text \<open>A value as a rule is written: a number, or a text in quotes without a quote inside.\<close>

datatype clause_value = Number string | Quoted string

fun value_text :: "clause_value \<Rightarrow> string" where
  "value_text (Number n) = n"
| "value_text (Quoted q) = quote_char # q @ [quote_char]"

fun value_ok :: "clause_value \<Rightarrow> bool" where
  "value_ok (Number n) = (n \<noteq> [] \<and> list_all re_number n)"
| "value_ok (Quoted q) = list_all (\<lambda>c. c \<noteq> quote_char) q"

fun value_groups :: "clause_value \<Rightarrow> string \<times> string" where
  "value_groups (Number n) = ([], n)"
| "value_groups (Quoted q) = (q, [])"

lemma match_value_text: "value_ok v \<Longrightarrow> match_value (CHR '' '' # value_text v) = Some (value_groups v)"
proof (cases v)
  case (Number n)
  assume "value_ok v"
  then obtain c cs where n: "n = c # cs" "list_all re_number n" using Number by (cases n) auto
  then have c: "\<not> re_space c" "c \<noteq> quote_char"
    using re_number_not_space re_number_not_quote by auto
  then have "match_number n = Some n"
    using takeWhile_all [OF n(2), of "[]"] dropWhile_all [OF n(2), of "[]"] n(1)
    by (simp only: match_number_def all_space_def append_Nil2 Let_def) simp
  then show ?thesis using Number n(1) c by (simp add: match_value_def match_quoted_def re_space_blank)
next
  case (Quoted q)
  assume "value_ok v"
  then have q: "list_all (\<lambda>c. c \<noteq> quote_char) q" using Quoted by simp
  have "\<not> re_space quote_char" by code_simp
  then show ?thesis
    using Quoted dropWhile_all [OF q, of "[quote_char]"] takeWhile_all [OF q, of "[quote_char]"]
    by (simp add: match_value_def match_quoted_def re_space_blank all_space_def)
qed

lemma match_ops_text:
  assumes "op \<in> set clause_ops" and "value_ok v"
  shows "match_ops clause_ops (op @ CHR '' '' # value_text v) = Some (op, value_groups v)"
  using assms match_value_text [OF assms(2)]
  by (auto simp: clause_ops_def has_prefix_def split: prod.split)

lemma match_clause_text:
  assumes "field \<noteq> []" and "list_all re_word field" and "op \<in> set clause_ops" and "value_ok v"
  shows "match_clause (''device.'' @ field @ '' '' @ op @ '' '' @ value_text v) =
    Some (field, op, fst (value_groups v), snd (value_groups v))"
proof -
  let ?rest = "CHR '' '' # op @ CHR '' '' # value_text v"
  let ?s = "''device.'' @ field @ ?rest"
  have d: "\<not> re_space (CHR ''d'')" by code_simp
  have s: "dropWhile re_space ?s = ?s" "has_prefix ?s ''device.''" "drop 7 ?s = field @ ?rest"
    by (simp_all add: d has_prefix_def)
  have f: "dropWhile re_word (field @ ?rest) = ?rest" "takeWhile re_word (field @ ?rest) = field"
    using dropWhile_all [OF assms(2), of ?rest] takeWhile_all [OF assms(2), of ?rest] by (simp_all add: re_space_blank)
  have o: "dropWhile re_space ?rest = op @ CHR '' '' # value_text v"
  proof -
    have "\<not> re_space c" if "c \<in> {CHR ''>'', CHR ''<'', CHR ''='', CHR ''!''}" for c
      using that by (auto simp: re_space_def char_code_def)
    moreover obtain c cs where "op = c # cs" "c \<in> {CHR ''>'', CHR ''<'', CHR ''='', CHR ''!''}"
      using assms(3) by (fastforce simp: clause_ops_def)
    ultimately show ?thesis by (simp add: re_space_blank)
  qed
  have "match_clause ?s = Some (field, op, fst (value_groups v), snd (value_groups v))"
    unfolding match_clause_def Let_def s f o match_ops_text [OF assms(3,4)] using assms(1) s(2)
    by (simp add: case_prod_unfold)
  then show ?thesis by (simp only: append_Cons append_Nil)
qed

text \<open>
  a clause written as \<open>device.FIELD op VALUE\<close> with single blanks, whatever the field, operator and
  value, is read back as that field, operator and value.
\<close>

theorem clause_roundtrip:
  assumes "field \<noteq> []" and "list_all re_word field" and "op \<in> set clause_ops" and "value_ok v"
  shows "match_clause (''device.'' @ field @ '' '' @ op @ '' '' @ value_text v) =
    Some (field, op, fst (value_groups v), snd (value_groups v))"
  by (rule match_clause_text [OF assms])

theorem clause_roundtrip_witness:
  "match_clause (''device.'' @ ''vendor'' @ '' '' @ ''!='' @ '' '' @ value_text (Quoted ''cisco'')) =
     Some (''vendor'', ''!='', ''cisco'', [])"
proof -
  have "list_all re_word ''vendor'' \<and> value_ok (Quoted ''cisco'')" by code_simp
  then show ?thesis using clause_roundtrip [of "''vendor''" "''!=''" "Quoted ''cisco''"] by (simp add: clause_ops_def)
qed

text \<open>An empty quoted text is taken for a missing number: a rule cannot ask whether a text is empty.\<close>

lemma empty_text_is_an_error:
  "env field = Some (AnyString s) \<Longrightarrow> field \<noteq> [] \<Longrightarrow> list_all re_word field \<Longrightarrow>
   evalClause (''device.'' @ field @ '' '' @ ''=='' @ '' '' @ value_text (Quoted [])) env = Inl (NotNumeric (AnyString s))"
proof -
  assume a: "env field = Some (AnyString s)" "field \<noteq> []" "list_all re_word field"
  have "match_clause (''device.'' @ field @ '' '' @ ''=='' @ '' '' @ value_text (Quoted [])) = Some (field, ''=='', [], [])"
    using match_clause_text [OF a(2,3), of "''==''" "Quoted []"] by (simp add: clause_ops_def)
  then show ?thesis using a(1) by (simp add: evalClause_def Let_def)
qed

end
