(* ===== verification/Notify.thy ===== *)
theory Notify
  imports Go_Any
begin

text \<open>
  Outbound notifications: \<open>internal/notify\<close> (SMTP messages, signed webhooks, loading of channels)
  and \<open>internal/alarms/dispatch.go\<close> (one alarm event to its channels, one audit row per channel).
  The SMTP dialogue and the HTTP exchange are lists of commands with the answers an argument; an
  HMAC, a JSON encoder and the sealer are arguments too.
\<close>

subsection \<open>Mail: \<open>notify/email.go\<close>\<close>

definition crlf :: string where "crlf = [CHR 0x0D, CHR 0x0A]"

record SMTPConfig =
  smtp_Host :: string
  smtp_Port :: int
  smtp_User :: string
  smtp_Pass :: string
  smtp_From :: string
  smtp_UseTLS :: bool

definition smtp_Valid :: "SMTPConfig \<Rightarrow> bool" where
  "smtp_Valid c \<longleftrightarrow> smtp_Host c \<noteq> [] \<and> 0 < smtp_Port c \<and> smtp_From c \<noteq> []"

definition buildPlainMessage :: "string \<Rightarrow> string list \<Rightarrow> string \<Rightarrow> string \<Rightarrow> string" where
  "buildPlainMessage sender rcpts subject body =
     concat (map (\<lambda>t. ''To: '' @ t @ crlf) (filter (\<lambda>t. t \<noteq> []) (map trim_space rcpts))) @
     ''Subject: '' @ subject @ crlf @ ''From: '' @ sender @ crlf @
     ''Content-Type: text/plain; charset=UTF-8'' @ crlf @ crlf @ body"

datatype smtp_cmd =
    SmtpDial string
  | SmtpStartTLS string
  | SmtpAuth string string string
  | SmtpMail string
  | SmtpRcpt string
  | SmtpData
  | SmtpWrite string
  | SmtpClose
  | SmtpSendMail string string string string "string list" string

text \<open>Commands are sent until one fails; the result is the error and the commands sent.\<close>

fun smtp_run :: "(smtp_cmd \<Rightarrow> string option) \<Rightarrow> smtp_cmd list \<Rightarrow> string option \<times> smtp_cmd list" where
  "smtp_run answer [] = (None, [])"
| "smtp_run answer (c # cs) =
     (case answer c of
        Some e \<Rightarrow> (Some e, [c])
      | None \<Rightarrow> (case smtp_run answer cs of (e, sent) \<Rightarrow> (e, c # sent)))"

text \<open>
  Without TLS the library's \<open>SendMail\<close> is started and raced against the deadline, whose error is
  \<open>late\<close> when it wins.
\<close>

definition SendMailMsg ::
  "(smtp_cmd \<Rightarrow> string option) \<Rightarrow> string option \<Rightarrow> SMTPConfig \<Rightarrow> string list \<Rightarrow> string \<Rightarrow> string
     \<Rightarrow> string option \<times> smtp_cmd list" where
  "SendMailMsg answer late cfg rcpts subject body =
     (if rcpts = [] then (Some ''notify: no recipients'', [])
      else if \<not> smtp_Valid cfg then (Some ''notify: incomplete SMTP config'', [])
      else let addr = smtp_Host cfg @ '':'' @ itoa (smtp_Port cfg);
               msg = buildPlainMessage (smtp_From cfg) rcpts subject body
           in if smtp_UseTLS cfg then
                smtp_run answer
                  ([SmtpDial addr, SmtpStartTLS (smtp_Host cfg)] @
                   (if smtp_User cfg \<noteq> [] then [SmtpAuth (smtp_User cfg) (smtp_Pass cfg) (smtp_Host cfg)] else []) @
                   [SmtpMail (smtp_From cfg)] @ map (\<lambda>r. SmtpRcpt (trim_space r)) rcpts @
                   [SmtpData, SmtpWrite msg, SmtpClose])
              else let cmd = SmtpSendMail addr (smtp_User cfg) (smtp_Pass cfg) (smtp_From cfg) rcpts msg
                   in case late of Some e \<Rightarrow> (Some e, [cmd]) | None \<Rightarrow> smtp_run answer [cmd])"

subsection \<open>Signed webhooks: \<open>notify/webhook.go\<close>\<close>

record signed_request =
  sr_URL :: string
  sr_Timestamp :: string
  sr_Signature :: string
  sr_Body :: string

definition hex_nibble :: "nat \<Rightarrow> char" where
  "hex_nibble d = (if d < 10 then char_of (48 + d) else char_of (87 + d))"

definition hex_encode :: "string \<Rightarrow> string" where
  "hex_encode s = concat (map (\<lambda>c. [hex_nibble (char_code c div 16), hex_nibble (char_code c mod 16)]) s)"

text \<open>\<open>hmac key message\<close> is HMAC-SHA256; \<open>now\<close> is a count of seconds.\<close>

definition signed_request_of :: "(string \<Rightarrow> string \<Rightarrow> string) \<Rightarrow> int \<Rightarrow> string \<Rightarrow> string \<Rightarrow> string \<Rightarrow> signed_request" where
  "signed_request_of hmac now url secret body =
     \<lparr>sr_URL = url, sr_Timestamp = itoa now,
      sr_Signature = ''sha256='' @ hex_encode (hmac secret (itoa now @ ''.'' @ body)), sr_Body = body\<rparr>"

record http_response =
  hr_Code :: int
  hr_Status :: string
  hr_Body :: string

text \<open>The exchange fails, or answers with a status; only 2xx is success.\<close>

definition PostSignedJSON ::
  "(string \<Rightarrow> string \<Rightarrow> string) \<Rightarrow> int \<Rightarrow> (signed_request \<Rightarrow> string + http_response) \<Rightarrow> string \<Rightarrow> string \<Rightarrow> string
     \<Rightarrow> string option" where
  "PostSignedJSON hmac now http url secret body =
     (case http (signed_request_of hmac now url secret body) of
        Inl e \<Rightarrow> Some e
      | Inr r \<Rightarrow> if hr_Code r < 200 \<or> 300 \<le> hr_Code r
                 then Some (''webhook POST '' @ hr_Status r @ '': '' @ take 4096 (hr_Body r)) else None)"

subsection \<open>Channels: \<open>notify/loader.go\<close>\<close>

record channel =
  chan_ID :: uuid
  chan_Kind :: string
  chan_Name :: string
  chan_Config :: payload
  chan_SigningSecret :: string

record channel_row =
  cr_ID :: uuid
  cr_Kind :: string
  cr_Name :: string
  cr_Config :: string
  cr_Secret :: string

text \<open>\<open>decode\<close> is \<open>json.Unmarshal\<close> into a map, \<open>None\<close> on an error; \<open>open_sealed\<close> is \<open>Sealer.Open\<close>.\<close>

definition load_channel ::
  "(string \<Rightarrow> payload option) \<Rightarrow> (string \<Rightarrow> string \<Rightarrow> string option) \<Rightarrow> channel_row \<Rightarrow> channel" where
  "load_channel decode open_sealed r =
     \<lparr>chan_ID = cr_ID r, chan_Kind = cr_Kind r, chan_Name = cr_Name r,
      chan_Config = (if cr_Config r = [] then Map.empty
                     else case decode (cr_Config r) of None \<Rightarrow> Map.empty | Some m \<Rightarrow> m),
      chan_SigningSecret = (if cr_Secret r = [] then []
                            else case open_sealed (cr_Secret r) (''notification:'' @ cr_ID r) of
                                   None \<Rightarrow> [] | Some plain \<Rightarrow> plain)\<rparr>"

text \<open>
  The rows the query returns for the ids, each possibly failing to scan. The channels come in the
  order of the ids, inactive and unknown ones left out.
\<close>

fun collect_rows :: "(string + 'r) list \<Rightarrow> string + 'r list" where
  "collect_rows [] = Inr []"
| "collect_rows (Inl e # rows) = Inl e"
| "collect_rows (Inr r # rows) = (case collect_rows rows of Inl e \<Rightarrow> Inl e | Inr rs \<Rightarrow> Inr (r # rs))"

definition LoadChannels ::
  "(string \<Rightarrow> payload option) \<Rightarrow> (string \<Rightarrow> string \<Rightarrow> string option) \<Rightarrow> string + (string + channel_row) list
     \<Rightarrow> uuid list \<Rightarrow> string + channel list" where
  "LoadChannels decode open_sealed query ids =
     (if ids = [] then Inr []
      else case query of
        Inl e \<Rightarrow> Inl (''notify: load channels: '' @ e)
      | Inr answer \<Rightarrow>
          (case collect_rows answer of
             Inl e \<Rightarrow> Inl e
           | Inr rows \<Rightarrow>
               let byID = map_of (rev (map (\<lambda>r. (cr_ID r, load_channel decode open_sealed r)) rows))
               in Inr (List.map_filter byID ids)))"

subsection \<open>One event to its channels: \<open>alarms/dispatch.go\<close>\<close>

record alarm_event =
  ev_AlarmID :: nat
  ev_RuleID :: uuid
  ev_RuleName :: string
  ev_RuleExpression :: string
  ev_Severity :: string
  ev_SiteID :: uuid
  ev_TargetKind :: string
  ev_TargetID :: uuid
  ev_Title :: string
  ev_DedupKey :: string
  ev_LastValue :: string
  ev_ChannelIDs :: "uuid list"
  ev_SMTPFallback :: "SMTPConfig option"
  ev_Event :: string

record audit_row =
  au_Action :: string
  au_AlarmID :: nat
  au_ChannelID :: uuid
  au_Kind :: string
  au_Detail :: string

text \<open>\<open>au_Detail\<close> is the metadata's \<open>error\<close> of a failure and its \<open>channelName\<close> of a success.\<close>

definition audit_failed :: "alarm_event \<Rightarrow> channel \<Rightarrow> string \<Rightarrow> string \<Rightarrow> audit_row" where
  "audit_failed evt ch kind e =
     \<lparr>au_Action = ''alarm.notify_failed'', au_AlarmID = ev_AlarmID evt, au_ChannelID = chan_ID ch, au_Kind = kind, au_Detail = e\<rparr>"

definition audit_ok :: "alarm_event \<Rightarrow> channel \<Rightarrow> string \<Rightarrow> audit_row" where
  "audit_ok evt ch kind =
     \<lparr>au_Action = ''alarm.notified'', au_AlarmID = ev_AlarmID evt, au_ChannelID = chan_ID ch, au_Kind = kind,
      au_Detail = chan_Name ch\<rparr>"

definition audit_result :: "alarm_event \<Rightarrow> channel \<Rightarrow> string \<Rightarrow> string option \<Rightarrow> audit_row" where
  "audit_result evt ch kind err = (case err of Some e \<Rightarrow> audit_failed evt ch kind e | None \<Rightarrow> audit_ok evt ch kind)"

text \<open>Only a list decoded from JSON or a single text names recipients.\<close>

definition extractEmailRecipients :: "payload \<Rightarrow> string list" where
  "extractEmailRecipients cfg =
     (case cfg ''to'' of
        Some (AnyString t) \<Rightarrow> if trim_space t = [] then [] else [trim_space t]
      | Some (AnyList xs) \<Rightarrow>
          List.map_filter (\<lambda>x. case x of AnyString s \<Rightarrow> if trim_space s \<noteq> [] then Some (trim_space s) else None
                                | _ \<Rightarrow> None) xs
      | _ \<Rightarrow> [])"

definition cleared :: "alarm_event \<Rightarrow> bool" where
  "cleared evt \<longleftrightarrow> ev_Event evt = ''alarm.cleared''"

definition buildAlarmEmailBody :: "alarm_event \<Rightarrow> string" where
  "buildAlarmEmailBody evt =
     (if cleared evt then ''Sonar alarm RESOLVED'' else ''Sonar alarm'') @ crlf @ crlf @
     ''Rule: '' @ ev_RuleName evt @ crlf @ ''Expression: '' @ ev_RuleExpression evt @ crlf @
     ''Severity: '' @ ev_Severity evt @ crlf @ ''Site: '' @ ev_SiteID evt @ crlf @
     ''Target: '' @ ev_TargetKind evt @ '' '' @ ev_TargetID evt @ crlf @ ''Title: '' @ ev_Title evt @ crlf @
     ''Dedup: '' @ ev_DedupKey evt @ crlf @ crlf @
     (if ev_LastValue evt \<noteq> [] then ''Last metric payload (JSON):'' @ crlf @ ev_LastValue evt @ crlf else [])"

text \<open>
  What a dispatch meets outside: the sending of a mail and of a signed request, the JSON encoder
  and decoder, and the clock as RFC 3339 text.
\<close>

record outside =
  os_mail :: "SMTPConfig \<Rightarrow> string list \<Rightarrow> string \<Rightarrow> string \<Rightarrow> string option"
  os_post :: "string \<Rightarrow> string \<Rightarrow> string \<Rightarrow> string option"
  os_encode :: "payload \<Rightarrow> string + string"
  os_decode_any :: "string \<Rightarrow> any option"
  os_now :: string

definition sendEmailNotify :: "outside \<Rightarrow> SMTPConfig \<Rightarrow> alarm_event \<Rightarrow> channel \<Rightarrow> audit_row" where
  "sendEmailNotify w smtp evt ch =
     (let recipients = extractEmailRecipients (chan_Config ch) in
      if recipients = [] then audit_failed evt ch ''email'' ''no recipients in config.to''
      else if \<not> smtp_Valid smtp then audit_failed evt ch ''email'' ''SMTP not configured''
      else let prefix = (if cleared evt then ''RESOLVED '' @ ev_Severity evt else ev_Severity evt);
               subject = ''['' @ prefix @ ''] '' @ ev_Title evt
           in audit_result evt ch ''email'' (os_mail w smtp recipients subject (buildAlarmEmailBody evt)))"

definition webhook_payload :: "outside \<Rightarrow> alarm_event \<Rightarrow> payload" where
  "webhook_payload w evt =
     (let base = [''event'' \<mapsto> AnyString (if ev_Event evt = [] then ''alarm.opened'' else ev_Event evt),
                  ''alarmId'' \<mapsto> AnyInt64 (int (ev_AlarmID evt)), ''ruleId'' \<mapsto> AnyString (ev_RuleID evt),
                  ''ruleName'' \<mapsto> AnyString (ev_RuleName evt), ''severity'' \<mapsto> AnyString (ev_Severity evt),
                  ''siteId'' \<mapsto> AnyString (ev_SiteID evt), ''targetKind'' \<mapsto> AnyString (ev_TargetKind evt),
                  ''targetId'' \<mapsto> AnyString (ev_TargetID evt), ''title'' \<mapsto> AnyString (ev_Title evt),
                  ''dedupKey'' \<mapsto> AnyString (ev_DedupKey evt), ''openedAt'' \<mapsto> AnyString (os_now w)]
      in if ev_LastValue evt = [] then base
         else base(''lastValue'' \<mapsto> (case os_decode_any w (ev_LastValue evt) of
                                        Some lv \<Rightarrow> lv | None \<Rightarrow> AnyString (ev_LastValue evt))))"

definition channel_url :: "channel \<Rightarrow> string" where
  "channel_url ch = trim_space (any_string (chan_Config ch ''url''))"

definition sendWebhookNotify :: "outside \<Rightarrow> alarm_event \<Rightarrow> channel \<Rightarrow> audit_row" where
  "sendWebhookNotify w evt ch =
     (if channel_url ch = [] then audit_failed evt ch ''webhook'' ''missing config.url''
      else case os_encode w (webhook_payload w evt) of
        Inl e \<Rightarrow> audit_failed evt ch ''webhook'' e
      | Inr raw \<Rightarrow> audit_result evt ch ''webhook'' (os_post w (channel_url ch) (chan_SigningSecret ch) raw))"

text \<open>An encoder error is ignored here and leaves an empty body. The long dash is its three UTF-8 bytes.\<close>

definition encoded :: "outside \<Rightarrow> payload \<Rightarrow> string" where
  "encoded w p = (case os_encode w p of Inl e \<Rightarrow> [] | Inr raw \<Rightarrow> raw)"

definition sendSlackNotify :: "outside \<Rightarrow> alarm_event \<Rightarrow> channel \<Rightarrow> audit_row" where
  "sendSlackNotify w evt ch =
     (if channel_url ch = [] then audit_failed evt ch ''slack'' ''missing config.url''
      else let text = ''['' @ ev_Severity evt @ ''] '' @ ev_Title evt @ '' '' @ [CHR 0xE2, CHR 0x80, CHR 0x94] @ '' '' @ ev_RuleName evt;
               text' = (if cleared evt then ''[RESOLVED] '' @ text else text)
           in audit_result evt ch ''slack''
                (os_post w (channel_url ch) (chan_SigningSecret ch) (encoded w [''text'' \<mapsto> AnyString text'])))"

definition sendTeamsNotify :: "outside \<Rightarrow> alarm_event \<Rightarrow> channel \<Rightarrow> audit_row" where
  "sendTeamsNotify w evt ch =
     (if channel_url ch = [] then audit_failed evt ch ''teams'' ''missing config.url''
      else let title = (if cleared evt then ''RESOLVED: '' @ ev_Title evt else ev_Title evt);
               card = [''@type'' \<mapsto> AnyString ''MessageCard'', ''@context'' \<mapsto> AnyString ''http://schema.org/extensions'',
                       ''summary'' \<mapsto> AnyString title, ''themeColor'' \<mapsto> AnyString ''FF0000'',
                       ''title'' \<mapsto> AnyString title,
                       ''text'' \<mapsto> AnyString (''Rule **'' @ ev_RuleName evt @ ''** ('' @ ev_Severity evt @ '')'' @ [CHR 0x0A] @
                                             ''Target: '' @ ev_TargetKind evt @ '' '' @ ev_TargetID evt)]
           in audit_result evt ch ''teams'' (os_post w (channel_url ch) (chan_SigningSecret ch) (encoded w card)))"

definition dispatch_channel :: "outside \<Rightarrow> SMTPConfig \<Rightarrow> alarm_event \<Rightarrow> channel \<Rightarrow> audit_row" where
  "dispatch_channel w smtp evt ch =
     (let kind = to_lower (trim_space (chan_Kind ch)) in
      if kind = ''email'' then sendEmailNotify w smtp evt ch
      else if kind = ''webhook'' then sendWebhookNotify w evt ch
      else if kind = ''slack'' then sendSlackNotify w evt ch
      else if kind = ''teams'' then sendTeamsNotify w evt ch
      else audit_failed evt ch (chan_Kind ch) ''unknown channel kind'')"

definition dispatchAlarmChannels :: "outside \<Rightarrow> SMTPConfig \<Rightarrow> alarm_event \<Rightarrow> channel list \<Rightarrow> audit_row list" where
  "dispatchAlarmChannels w smtp evt channels = map (dispatch_channel w smtp evt) channels"

text \<open>\<open>loaded\<close> is what \<open>LoadChannels\<close> returned, \<open>smtp\<close> the settings row (zero when it could not be read).\<close>

definition Fire :: "outside \<Rightarrow> string + channel list \<Rightarrow> SMTPConfig \<Rightarrow> alarm_event \<Rightarrow> audit_row list" where
  "Fire w loaded smtp evt =
     (if ev_ChannelIDs evt = [] then []
      else case loaded of Inl e \<Rightarrow> []
      | Inr channels \<Rightarrow>
          let cfg = (case ev_SMTPFallback evt of Some fb \<Rightarrow> if \<not> smtp_Valid smtp then fb else smtp | None \<Rightarrow> smtp)
          in dispatchAlarmChannels w cfg evt channels)"

subsection \<open>Audit\<close>

definition row_for :: "alarm_event \<Rightarrow> channel \<Rightarrow> audit_row \<Rightarrow> bool" where
  "row_for evt ch r \<longleftrightarrow> au_ChannelID r = chan_ID ch \<and> au_AlarmID r = ev_AlarmID evt \<and>
     au_Action r \<in> {''alarm.notified'', ''alarm.notify_failed''}"

lemma row_for_audit: "row_for evt ch (audit_failed evt ch kind e)" "row_for evt ch (audit_result evt ch kind err)"
  by (simp_all add: row_for_def audit_result_def audit_failed_def audit_ok_def split: option.split)

lemma row_for_if: "row_for evt ch x \<Longrightarrow> row_for evt ch y \<Longrightarrow> row_for evt ch (if b then x else y)"
  by simp

lemma dispatch_channel_row: "row_for evt ch (dispatch_channel w smtp evt ch)"
proof -
  have "row_for evt ch (sendEmailNotify w smtp evt ch)"
    unfolding sendEmailNotify_def Let_def by (intro row_for_if row_for_audit)
  moreover have "row_for evt ch (sendWebhookNotify w evt ch)"
    unfolding sendWebhookNotify_def by (intro row_for_if row_for_audit, split sum.split) (intro conjI allI impI row_for_audit)
  moreover have "row_for evt ch (sendSlackNotify w evt ch)"
    unfolding sendSlackNotify_def Let_def by (intro row_for_if row_for_audit)
  moreover have "row_for evt ch (sendTeamsNotify w evt ch)"
    unfolding sendTeamsNotify_def Let_def by (intro row_for_if row_for_audit)
  ultimately show ?thesis unfolding dispatch_channel_def Let_def by (intro row_for_if row_for_audit)
qed

text \<open>The deliveries a channel of each kind may be audited as notified for.\<close>

definition delivered :: "outside \<Rightarrow> SMTPConfig \<Rightarrow> channel \<Rightarrow> bool" where
  "delivered w smtp ch \<longleftrightarrow>
     (let kind = to_lower (trim_space (chan_Kind ch)) in
      kind = ''email'' \<and> smtp_Valid smtp \<and> extractEmailRecipients (chan_Config ch) \<noteq> [] \<and>
        (\<exists>subject body. os_mail w smtp (extractEmailRecipients (chan_Config ch)) subject body = None) \<or>
      kind \<in> {''webhook'', ''slack'', ''teams''} \<and> channel_url ch \<noteq> [] \<and>
        (\<exists>raw. os_post w (channel_url ch) (chan_SigningSecret ch) raw = None))"

lemma audit_result_notified: "au_Action (audit_result evt ch kind err) = ''alarm.notified'' \<longleftrightarrow> err = None"
  by (simp add: audit_result_def audit_failed_def audit_ok_def split: option.split)

lemma audit_failed_action [simp]: "au_Action (audit_failed evt ch kind e) = ''alarm.notify_failed''"
  by (simp add: audit_failed_def)

lemma email_notified:
  "au_Action (sendEmailNotify w smtp evt ch) = ''alarm.notified'' \<Longrightarrow>
   smtp_Valid smtp \<and> extractEmailRecipients (chan_Config ch) \<noteq> [] \<and>
   (\<exists>subject body. os_mail w smtp (extractEmailRecipients (chan_Config ch)) subject body = None)"
  unfolding sendEmailNotify_def Let_def by (simp add: audit_result_notified split: if_splits) blast+

lemma webhook_notified:
  "au_Action (sendWebhookNotify w evt ch) = ''alarm.notified'' \<Longrightarrow>
   channel_url ch \<noteq> [] \<and> (\<exists>raw. os_post w (channel_url ch) (chan_SigningSecret ch) raw = None)"
  unfolding sendWebhookNotify_def by (simp add: audit_result_notified split: if_splits sum.splits) blast

lemma slack_notified:
  "au_Action (sendSlackNotify w evt ch) = ''alarm.notified'' \<Longrightarrow>
   channel_url ch \<noteq> [] \<and> (\<exists>raw. os_post w (channel_url ch) (chan_SigningSecret ch) raw = None)"
  unfolding sendSlackNotify_def Let_def by (simp only: audit_result_notified audit_failed_action split: if_splits) blast+

lemma teams_notified:
  "au_Action (sendTeamsNotify w evt ch) = ''alarm.notified'' \<Longrightarrow>
   channel_url ch \<noteq> [] \<and> (\<exists>raw. os_post w (channel_url ch) (chan_SigningSecret ch) raw = None)"
  unfolding sendTeamsNotify_def Let_def by (simp only: audit_result_notified audit_failed_action split: if_splits) blast+

lemma dispatch_channel_notified:
  "au_Action (dispatch_channel w smtp evt ch) = ''alarm.notified'' \<Longrightarrow> delivered w smtp ch"
  unfolding dispatch_channel_def Let_def
  by (auto simp: delivered_def dest!: email_notified webhook_notified slack_notified teams_notified split: if_splits)

text \<open>
  an event that reaches its channels leaves exactly one audit row per channel, in the order of
  the channels and naming the alarm; a row says \<open>alarm.notified\<close> only for a channel whose mail or
  request was accepted without an error.
\<close>

theorem dispatch_audits_every_channel:
  "map au_ChannelID (dispatchAlarmChannels w smtp evt channels) = map chan_ID channels \<and>
   list_all2 (\<lambda>row ch. au_AlarmID row = ev_AlarmID evt \<and>
       (au_Action row = ''alarm.notify_failed'' \<or> au_Action row = ''alarm.notified'' \<and> delivered w smtp ch))
     (dispatchAlarmChannels w smtp evt channels) channels"
  using dispatch_channel_row [of evt _ w smtp] dispatch_channel_notified [of w smtp evt]
  by (auto simp: dispatchAlarmChannels_def list_all2_conv_all_nth row_for_def)

text \<open>
  \<open>LoadChannels\<close> returns the active channels in the order of the ids the rule lists, each once
  per mention.
\<close>

theorem load_channels_order:
  assumes "LoadChannels decode open_sealed (Inr (map Inr rows)) ids = Inr channels"
  shows "map chan_ID channels = filter (\<lambda>i. i \<in> cr_ID ` set rows) ids"
proof -
  let ?byID = "map_of (rev (map (\<lambda>r. (cr_ID r, load_channel decode open_sealed r)) rows))"
  have rows: "collect_rows (map Inr rows) = Inr rows" by (induction rows) simp_all
  have found: "?byID i = None \<longleftrightarrow> i \<notin> cr_ID ` set rows" for i
    by (auto simp: map_of_eq_None_iff image_iff)
  have named: "chan_ID ch = i" if "?byID i = Some ch" for i ch
    using map_of_SomeD [OF that] by (auto simp: load_channel_def)
  have "map chan_ID (List.map_filter ?byID js) = filter (\<lambda>i. i \<in> cr_ID ` set rows) js" for js
  proof (induction js)
    case (Cons j js)
    then show ?case using found [of j] named [of j] by (cases "?byID j") (auto simp: map_filter_simps)
  qed (simp add: map_filter_simps)
  moreover have "channels = (if ids = [] then [] else List.map_filter ?byID ids)"
    using assms(1) by (simp add: LoadChannels_def rows split: if_splits)
  ultimately show ?thesis by (simp split: if_splits)
qed

theorem load_channels_order_witness:
  "map chan_ID (case LoadChannels (\<lambda>s. None) (\<lambda>s a. None)
      (Inr (map Inr [\<lparr>cr_ID = ''b'', cr_Kind = ''slack'', cr_Name = [], cr_Config = [], cr_Secret = []\<rparr>,
                     \<lparr>cr_ID = ''a'', cr_Kind = ''email'', cr_Name = [], cr_Config = [], cr_Secret = []\<rparr>]))
      [''a'', ''c'', ''b''] of Inl e \<Rightarrow> [] | Inr chs \<Rightarrow> chs) = [''a'', ''b'']"
proof -
  let ?rows = "[\<lparr>cr_ID = ''b'', cr_Kind = ''slack'', cr_Name = [], cr_Config = [], cr_Secret = []\<rparr>,
                \<lparr>cr_ID = ''a'', cr_Kind = ''email'', cr_Name = [], cr_Config = [], cr_Secret = []\<rparr>]"
  obtain chs where chs: "LoadChannels (\<lambda>s. None) (\<lambda>s a. None) (Inr (map Inr ?rows)) [''a'', ''c'', ''b''] = Inr chs"
    by (simp add: LoadChannels_def)
  have "map chan_ID chs = filter (\<lambda>i. i \<in> cr_ID ` set ?rows) [''a'', ''c'', ''b'']"
    by (rule load_channels_order [OF chs])
  then show ?thesis by (simp only: chs sum.case) simp
qed

end
