(* ===== verification/Alarm_Engine.thy ===== *)
theory Alarm_Engine
  imports Mini_Expr Notify Go_Time
begin

text \<open>
  The alarm engine, \<open>internal/alarms/engine.go\<close>, and the trap receiver that writes to the same
  table, \<open>internal/poller/traps.go\<close>. The engine's state is its rules and its pending windows; the
  \<open>alarms\<close> table and the effects on other parties are carried along with it. Whether a statement to
  the database fails is an argument, and so is whether NATS is connected when an alarm is cleared.
\<close>

subsection \<open>Rules\<close>

record rule_row =
  ru_ID :: uuid
  ru_SiteID :: "uuid option"
  ru_Name :: string
  ru_Severity :: string
  ru_Expression :: string
  ru_ChannelIDs :: "uuid list"
  ru_ForSeconds :: int
  ru_ClearForSeconds :: int
  ru_TargetKind :: string

text \<open>A row of the query carries its site as text; a text that is no UUID means every site.\<close>

definition scan_rule :: "(string \<Rightarrow> uuid option) \<Rightarrow> string \<times> rule_row \<Rightarrow> rule_row" where
  "scan_rule parse sr =
     (let r = snd sr in
      r\<lparr>ru_TargetKind := (if ru_TargetKind r = [] then ''any'' else ru_TargetKind r),
        ru_SiteID := (if fst sr = [] then None else parse (fst sr))\<rparr>)"

subsection \<open>State\<close>

record metric =
  me_site :: uuid
  me_kind :: string
  me_uuid :: uuid
  me_key :: string
  me_env :: payload
  me_json :: string

text \<open>Each field is the zero time when it is not set.\<close>

record pending_state =
  pd_truthySince :: int
  pd_falsySince :: int

definition fresh_pending :: pending_state where
  "fresh_pending = \<lparr>pd_truthySince = zero_time, pd_falsySince = zero_time\<rparr>"

record alarm =
  am_ID :: nat
  am_Rule :: "uuid option"
  am_Site :: uuid
  am_Kind :: string
  am_Target :: uuid
  am_Severity :: string
  am_Title :: string
  am_Body :: "string option"
  am_Dedup :: string
  am_Value :: string
  am_Cleared :: bool
  am_Auto :: bool

datatype alarm_effect =
    SystemEvent uuid uuid string string string string nat
  | Publish string payload
  | Dispatch alarm_event

record engine =
  en_rules :: "rule_row list"
  en_pending :: "string \<rightharpoonup> pending_state"
  en_alarms :: "alarm list"
  en_next :: nat
  en_effects :: "alarm_effect list"

definition is_open :: "string \<Rightarrow> alarm \<Rightarrow> bool" where
  "is_open d a \<longleftrightarrow> am_Dedup a = d \<and> \<not> am_Cleared a"

definition refreshRules ::
  "(string \<Rightarrow> uuid option) \<Rightarrow> string + (string + string \<times> rule_row) list \<Rightarrow> engine \<Rightarrow> engine" where
  "refreshRules parse query e =
     (case query of Inl err \<Rightarrow> e
      | Inr rows \<Rightarrow> e\<lparr>en_rules := map (scan_rule parse) (List.map_filter (case_sum (\<lambda>err. None) Some) rows)\<rparr>)"

subsection \<open>Metrics\<close>

definition float_or_zero :: "any option \<Rightarrow> f64" where
  "float_or_zero v = (case v of None \<Rightarrow> Fin 0 | Some x \<Rightarrow> (case toFloat64 x of Inl e \<Rightarrow> Fin 0 | Inr f \<Rightarrow> f))"

definition any_or_nil :: "any option \<Rightarrow> any" where
  "any_or_nil v = (case v of None \<Rightarrow> AnyNil | Some x \<Rightarrow> x)"

definition skip_keys :: "string list" where
  "skip_keys = [''applianceId'', ''siteId'', ''agentId'', ''checkId'', ''vendor'', ''criticality'', ''cpuPct'', ''memUsedRatio'']"

fun numeric_or_string :: "any \<Rightarrow> bool" where
  "numeric_or_string AnyNil = False"
| "numeric_or_string (AnyBool b) = False"
| "numeric_or_string (AnyList xs) = False"
| "numeric_or_string (AnyObject xs) = False"
| "numeric_or_string _ = True"

definition addVendorEnv :: "payload \<Rightarrow> payload \<Rightarrow> payload" where
  "addVendorEnv env p =
     (\<lambda>k. if k \<in> set skip_keys then env k
          else case p k of None \<Rightarrow> env k | Some v \<Rightarrow> if numeric_or_string v then Some v else env k)"

definition device_env :: "payload \<Rightarrow> payload" where
  "device_env p =
     (let cpu = AnyF64 (float_or_zero (p ''cpuPct'')); mem = AnyF64 (float_or_zero (p ''memUsedRatio''))
      in addVendorEnv [''cpu_pct'' \<mapsto> cpu, ''mem_used_ratio'' \<mapsto> mem, ''cpuPct'' \<mapsto> cpu, ''memUsedRatio'' \<mapsto> mem,
                       ''criticality'' \<mapsto> AnyString (any_string (p ''criticality'')),
                       ''vendor'' \<mapsto> any_or_nil (p ''vendor'')] p)"

definition check_env :: "payload \<Rightarrow> payload" where
  "check_env p =
     (let env = [''typeId'' \<mapsto> any_or_nil (p ''typeId''), ''name'' \<mapsto> any_or_nil (p ''name''),
                 ''runner'' \<mapsto> any_or_nil (p ''runner'')];
          env' = (case p ''ok'' of Some (AnyBool ok) \<Rightarrow> env(''ok'' \<mapsto> AnyF64 (Fin (if ok then 1 else 0))) | _ \<Rightarrow> env)
      in addVendorEnv env' p)"

text \<open>
  A message becomes a metric when it decodes, names its target and site, and both are UUIDs. \<open>body\<close>
  is the decoded payload with the bytes it came from.
\<close>

definition target_metric ::
  "(string \<Rightarrow> uuid option) \<Rightarrow> string \<Rightarrow> string \<Rightarrow> (payload \<Rightarrow> payload) \<Rightarrow> payload option \<Rightarrow> string \<Rightarrow> metric option" where
  "target_metric parse kind idKey env body raw =
     (case body of None \<Rightarrow> None
      | Some p \<Rightarrow>
          let target = any_string (p idKey); site = any_string (p ''siteId'') in
          if target = [] \<or> site = [] then None
          else case parse site of None \<Rightarrow> None
          | Some siteUUID \<Rightarrow>
              (case parse target of None \<Rightarrow> None
               | Some targetUUID \<Rightarrow>
                   Some \<lparr>me_site = siteUUID, me_kind = kind, me_uuid = targetUUID, me_key = target,
                         me_env = env p, me_json = raw\<rparr>))"

definition onApplianceMetric :: "(string \<Rightarrow> uuid option) \<Rightarrow> payload option \<Rightarrow> string \<Rightarrow> metric option" where
  "onApplianceMetric parse = target_metric parse ''appliance'' ''applianceId'' device_env"

definition onAgentMetric :: "(string \<Rightarrow> uuid option) \<Rightarrow> payload option \<Rightarrow> string \<Rightarrow> metric option" where
  "onAgentMetric parse = target_metric parse ''agent'' ''agentId'' device_env"

definition onCheckMetric :: "(string \<Rightarrow> uuid option) \<Rightarrow> payload option \<Rightarrow> string \<Rightarrow> metric option" where
  "onCheckMetric parse = target_metric parse ''check'' ''checkId'' check_env"

subsection \<open>Opening and clearing\<close>

record db_faults =
  df_count :: "string \<Rightarrow> bool"
  df_insert :: "string \<Rightarrow> bool"
  df_update :: "string \<Rightarrow> bool"
  df_nats_up :: bool

definition alarm_title :: "rule_row \<Rightarrow> metric \<Rightarrow> string" where
  "alarm_title rl m = ru_Name rl @ '' ('' @ take 8 (me_key m) @ '')''"

definition dispatch_event ::
  "SMTPConfig option \<Rightarrow> nat \<Rightarrow> rule_row \<Rightarrow> metric \<Rightarrow> string \<Rightarrow> string \<Rightarrow> string \<Rightarrow> alarm_event" where
  "dispatch_event fb i rl m title d event =
     \<lparr>ev_AlarmID = i, ev_RuleID = ru_ID rl, ev_RuleName = ru_Name rl, ev_RuleExpression = ru_Expression rl,
      ev_Severity = ru_Severity rl, ev_SiteID = me_site m, ev_TargetKind = me_kind m, ev_TargetID = me_uuid m,
      ev_Title = title, ev_DedupKey = d, ev_LastValue = me_json m, ev_ChannelIDs = ru_ChannelIDs rl,
      ev_SMTPFallback = fb, ev_Event = event\<rparr>"

text \<open>A COUNT that fails leaves the count at 0.\<close>

definition open_count :: "db_faults \<Rightarrow> string \<Rightarrow> engine \<Rightarrow> nat" where
  "open_count fa d e = (if df_count fa d then 0 else length (filter (is_open d) (en_alarms e)))"

definition opened_alarm :: "rule_row \<Rightarrow> metric \<Rightarrow> string \<Rightarrow> nat \<Rightarrow> alarm" where
  "opened_alarm rl m d i =
     \<lparr>am_ID = i, am_Rule = Some (ru_ID rl), am_Site = me_site m, am_Kind = me_kind m, am_Target = me_uuid m,
      am_Severity = ru_Severity rl, am_Title = alarm_title rl m, am_Body = None, am_Dedup = d, am_Value = me_json m,
      am_Cleared = False, am_Auto = False\<rparr>"

definition maybeOpen :: "SMTPConfig option \<Rightarrow> db_faults \<Rightarrow> metric \<Rightarrow> rule_row \<Rightarrow> string \<Rightarrow> engine \<Rightarrow> engine" where
  "maybeOpen fb fa m rl d e =
     (if 0 < open_count fa d e then e
      else if df_insert fa d then e
      else let title = alarm_title rl m; i = en_next e;
               event = (if me_kind m = ''agent''
                        then [SystemEvent (me_site m) (me_uuid m) ''alarm.opened'' (ru_Severity rl) title (ru_Expression rl) i]
                        else []);
               base = [''ruleId'' \<mapsto> AnyString (ru_ID rl), ''alarmId'' \<mapsto> AnyInt64 (int i)];
               pub = (if me_kind m = ''appliance'' then base(''applianceId'' \<mapsto> AnyString (me_key m))
                      else if me_kind m = ''agent'' then base(''agentId'' \<mapsto> AnyString (me_key m)) else base)
           in e\<lparr>en_alarms := en_alarms e @ [opened_alarm rl m d i], en_next := Suc i,
                en_effects := en_effects e @ event @
                  [Publish ''alarm.opened'' pub, Dispatch (dispatch_event fb i rl m title d ''alarm.opened'')]\<rparr>)"

definition clear_alarm :: "alarm \<Rightarrow> alarm" where
  "clear_alarm a = a\<lparr>am_Cleared := True, am_Auto := True\<rparr>"

text \<open>The UPDATE closes every open row of the key; the first row it returns is the one reported.\<close>

definition maybeAutoClear :: "SMTPConfig option \<Rightarrow> db_faults \<Rightarrow> metric \<Rightarrow> rule_row \<Rightarrow> string \<Rightarrow> engine \<Rightarrow> engine" where
  "maybeAutoClear fb fa m rl d e =
     (if df_update fa d then e
      else case filter (is_open d) (en_alarms e) of
        [] \<Rightarrow> e
      | a # _ \<Rightarrow>
          let title = alarm_title rl m; i = am_ID a;
              event = (if me_kind m = ''agent''
                       then [SystemEvent (me_site m) (me_uuid m) ''alarm.cleared'' ''info'' (title @ '' cleared'') (ru_Expression rl) i]
                       else [])
          in e\<lparr>en_alarms := map (\<lambda>a. if is_open d a then clear_alarm a else a) (en_alarms e),
               en_effects := en_effects e @ event @
                 (if df_nats_up fa then [Publish ''alarm.cleared'' [''alarmId'' \<mapsto> AnyInt64 (int i), ''auto'' \<mapsto> AnyBool True]]
                  else []) @
                 [Dispatch (dispatch_event fb i rl m title d ''alarm.cleared'')]\<rparr>)"

definition dedup_key :: "rule_row \<Rightarrow> string \<Rightarrow> string \<Rightarrow> string" where
  "dedup_key rl kind key = ru_ID rl @ '':'' @ kind @ '':'' @ key"

text \<open>The verdict of a rule on a metric, none when the rule does not apply or cannot be evaluated.\<close>

definition verdict :: "rule_row \<Rightarrow> metric \<Rightarrow> bool option" where
  "verdict rl m =
     (if (case ru_SiteID rl of None \<Rightarrow> False | Some s \<Rightarrow> s \<noteq> me_site m) then None
      else if ru_TargetKind rl \<noteq> [] \<and> ru_TargetKind rl \<noteq> ''any'' \<and> ru_TargetKind rl \<noteq> me_kind m then None
      else case EvalMini (ru_Expression rl) (me_env m) of Inl e \<Rightarrow> None | Inr v \<Rightarrow> Some v)"

definition pending_step :: "int \<Rightarrow> bool \<Rightarrow> pending_state \<Rightarrow> pending_state" where
  "pending_step now truthy p =
     (if truthy then \<lparr>pd_truthySince = (if pd_truthySince p = zero_time then now else pd_truthySince p), pd_falsySince = zero_time\<rparr>
      else \<lparr>pd_truthySince = zero_time, pd_falsySince = (if pd_falsySince p = zero_time then now else pd_falsySince p)\<rparr>)"

definition pendingFor :: "string \<Rightarrow> engine \<Rightarrow> pending_state" where
  "pendingFor d e = (case en_pending e d of None \<Rightarrow> fresh_pending | Some p \<Rightarrow> p)"

definition eval_rule :: "SMTPConfig option \<Rightarrow> db_faults \<Rightarrow> int \<Rightarrow> metric \<Rightarrow> rule_row \<Rightarrow> engine \<Rightarrow> engine" where
  "eval_rule fb fa now m rl e =
     (case verdict rl m of None \<Rightarrow> e
      | Some truthy \<Rightarrow>
          let d = dedup_key rl (me_kind m) (me_key m);
              p = pending_step now truthy (pendingFor d e);
              e' = e\<lparr>en_pending := (en_pending e)(d \<mapsto> p)\<rparr>
          in if truthy then
               if time_sub now (pd_truthySince p) < seconds (ru_ForSeconds rl) then e' else maybeOpen fb fa m rl d e'
             else
               if time_sub now (pd_falsySince p) < seconds (ru_ClearForSeconds rl) then e' else maybeAutoClear fb fa m rl d e')"

definition evaluate :: "SMTPConfig option \<Rightarrow> db_faults \<Rightarrow> int \<Rightarrow> metric \<Rightarrow> engine \<Rightarrow> engine" where
  "evaluate fb fa now m e = foldl (\<lambda>e rl. eval_rule fb fa now m rl e) e (en_rules e)"

subsection \<open>Other writers of the table\<close>

text \<open>\<open>handleClearAlarm\<close> of the API closes one row by its id.\<close>

definition clear_by_id :: "nat \<Rightarrow> engine \<Rightarrow> engine" where
  "clear_by_id i e =
     e\<lparr>en_alarms := map (\<lambda>a. if am_ID a = i \<and> \<not> am_Cleared a then a\<lparr>am_Cleared := True, am_Auto := False\<rparr> else a) (en_alarms e)\<rparr>"

record trap =
  tr_source :: string
  tr_version_ok :: bool
  tr_vars :: "(string \<times> string) list"

text \<open>The variables of a trap with their values as \<open>%v\<close> prints them; the summary stops past 2000 bytes.\<close>

fun summarize_from :: "nat \<Rightarrow> string \<Rightarrow> (string \<times> string) list \<Rightarrow> string" where
  "summarize_from i acc [] = acc"
| "summarize_from i acc ((n, v) # vs) =
     (let acc' = acc @ (if 0 < i then ''; '' else []) @ n @ ''='' @ v
      in if 2000 < length acc' then acc' else summarize_from (Suc i) acc' vs)"

definition summarizeTrapVars :: "(string \<times> string) list \<Rightarrow> string" where
  "summarizeTrapVars vs = summarize_from 0 [] vs"

definition trap_oid :: "trap \<Rightarrow> string" where
  "trap_oid t = (case tr_vars t of [] \<Rightarrow> [] | v # _ \<Rightarrow> fst v)"

text \<open>\<open>target\<close> is \<open>resolveTarget\<close>: the appliance with that address, or no appliance and the oldest site.\<close>

definition trap_dedup :: "trap \<Rightarrow> string" where
  "trap_dedup t = ''snmp-trap:'' @ tr_source t @ '':'' @ trap_oid t"

definition trap_alarm :: "(string \<Rightarrow> uuid \<times> uuid) \<Rightarrow> (payload \<Rightarrow> string) \<Rightarrow> nat \<Rightarrow> trap \<Rightarrow> alarm" where
  "trap_alarm target encode i t =
     \<lparr>am_ID = i, am_Rule = None, am_Site = fst (target (tr_source t)), am_Kind = ''appliance'',
      am_Target = snd (target (tr_source t)), am_Severity = ''warning'',
      am_Title = (if trap_oid t = [] then ''SNMP trap from '' @ tr_source t
                  else ''SNMP trap '' @ trap_oid t @ '' from '' @ tr_source t),
      am_Body = Some (summarizeTrapVars (tr_vars t)), am_Dedup = trap_dedup t,
      am_Value = encode [''sourceIp'' \<mapsto> AnyString (tr_source t), ''oid'' \<mapsto> AnyString (trap_oid t),
                         ''variables'' \<mapsto> AnyString (summarizeTrapVars (tr_vars t))],
      am_Cleared = False, am_Auto = False\<rparr>"

definition handleTrap ::
  "(string \<Rightarrow> uuid \<times> uuid) \<Rightarrow> (payload \<Rightarrow> string) \<Rightarrow> db_faults \<Rightarrow> bool \<Rightarrow> trap \<Rightarrow> engine \<Rightarrow> engine" where
  "handleTrap target encode fa nats_up t e =
     (if \<not> tr_version_ok t then e
      else if df_insert fa (trap_dedup t) \<or> filter (is_open (trap_dedup t)) (en_alarms e) \<noteq> [] then e
      else let i = en_next e
           in e\<lparr>en_alarms := en_alarms e @ [trap_alarm target encode i t], en_next := Suc i,
                en_effects := en_effects e @
                  (if nats_up then [Publish ''alarm.opened'' [''alarmId'' \<mapsto> AnyInt64 (int i), ''source'' \<mapsto> AnyString ''snmp-trap'']]
                   else [])\<rparr>)"

subsection \<open>At most one open alarm per key\<close>

text \<open>
  The writers of the table in any order: metrics whose COUNT succeeds, rule refreshes, manual clears
  and traps.
\<close>

inductive engine_step :: "engine \<Rightarrow> engine \<Rightarrow> bool" where
  metric: "\<forall>d. \<not> df_count fa d \<Longrightarrow> engine_step e (evaluate fb fa now m e)"
| refresh: "engine_step e (refreshRules parse query e)"
| manual_clear: "engine_step e (clear_by_id i e)"
| trap: "engine_step e (handleTrap target encode fa nats_up t e)"

inductive_cases engine_stepE: "engine_step e e'"

definition New_engine :: engine where
  "New_engine = \<lparr>en_rules = [], en_pending = Map.empty, en_alarms = [], en_next = 1, en_effects = []\<rparr>"

inductive engine_reachable :: "engine \<Rightarrow> bool" where
  start: "engine_reachable New_engine"
| more: "engine_reachable e \<Longrightarrow> engine_step e e' \<Longrightarrow> engine_reachable e'"

definition alarms_ok :: "engine \<Rightarrow> bool" where
  "alarms_ok e \<longleftrightarrow> (\<forall>d. length (filter (is_open d) (en_alarms e)) \<le> 1) \<and>
     distinct (map am_ID (en_alarms e)) \<and> (\<forall>a \<in> set (en_alarms e). am_ID a < en_next e)"

lemma alarms_ok_cong:
  "en_alarms e' = en_alarms e \<Longrightarrow> en_next e' = en_next e \<Longrightarrow> alarms_ok e' = alarms_ok e"
  by (simp add: alarms_ok_def)

lemma alarms_ok_append:
  assumes "alarms_ok e" and "filter (is_open (am_Dedup a)) (en_alarms e) = []" and "am_ID a = en_next e"
    and "en_alarms e' = en_alarms e @ [a]" and "en_next e' = Suc (en_next e)"
  shows "alarms_ok e'"
proof -
  have "length (filter (is_open d) (en_alarms e @ [a])) \<le> 1" for d
    using assms(1,2) by (cases "d = am_Dedup a") (auto simp: alarms_ok_def is_open_def)
  then show ?thesis using assms by (fastforce simp: alarms_ok_def)
qed

text \<open>Closing rows never opens one.\<close>

lemma alarms_ok_map:
  assumes ok: "alarms_ok e" and al: "en_alarms e' = map f (en_alarms e)" and nx: "en_next e' = en_next e"
    and f: "\<And>a. am_ID (f a) = am_ID a \<and> am_Dedup (f a) = am_Dedup a \<and> (am_Cleared a \<longrightarrow> am_Cleared (f a))"
  shows "alarms_ok e'"
proof -
  have less: "length (filter (is_open d) (map f xs)) \<le> length (filter (is_open d) xs)" for d xs
    using f by (induction xs) (auto simp: is_open_def)
  have ids: "map am_ID (map f xs) = map am_ID xs" for xs using f by simp
  show ?thesis unfolding alarms_ok_def al nx
  proof (intro conjI allI ballI)
    show "length (filter (is_open d) (map f (en_alarms e))) \<le> 1" for d
      using ok less [of d "en_alarms e"] by (auto simp: alarms_ok_def intro: le_trans)
    show "distinct (map am_ID (map f (en_alarms e)))" using ok unfolding ids by (simp add: alarms_ok_def)
    show "am_ID a < en_next e" if "a \<in> set (map f (en_alarms e))" for a
      using that ok f by (auto simp: alarms_ok_def)
  qed
qed

lemma maybeOpen_tables:
  "en_alarms (maybeOpen fb fa m rl d e) =
     (if 0 < open_count fa d e \<or> df_insert fa d then en_alarms e else en_alarms e @ [opened_alarm rl m d (en_next e)])"
  "en_next (maybeOpen fb fa m rl d e) = (if 0 < open_count fa d e \<or> df_insert fa d then en_next e else Suc (en_next e))"
  by (simp_all add: maybeOpen_def opened_alarm_def Let_def)

lemma maybeAutoClear_tables:
  "en_alarms (maybeAutoClear fb fa m rl d e) =
     (if df_update fa d \<or> filter (is_open d) (en_alarms e) = [] then en_alarms e
      else map (\<lambda>a. if is_open d a then clear_alarm a else a) (en_alarms e))"
  "en_next (maybeAutoClear fb fa m rl d e) = en_next e"
  by (simp_all add: maybeAutoClear_def Let_def split: list.split)

lemma eval_rule_alarms:
  "alarms_ok e \<Longrightarrow> \<forall>d. \<not> df_count fa d \<Longrightarrow> alarms_ok (eval_rule fb fa now m rl e)"
proof -
  assume ok: "alarms_ok e" and nf: "\<forall>d. \<not> df_count fa d"
  have opened: "alarms_ok (maybeOpen fb fa m rl d e1)" if "alarms_ok e1" for d e1
  proof (cases "0 < open_count fa d e1 \<or> df_insert fa d")
    case True then show ?thesis using that by (auto simp: maybeOpen_def)
  next
    case False
    then show ?thesis using nf
      by (intro alarms_ok_append [OF that, of "opened_alarm rl m d (en_next e1)"])
        (simp_all add: maybeOpen_tables open_count_def, simp_all add: opened_alarm_def)
  qed
  have closed: "alarms_ok (maybeAutoClear fb fa m rl d e1)" if "alarms_ok e1" for d e1
  proof (cases "df_update fa d \<or> filter (is_open d) (en_alarms e1) = []")
    case True then show ?thesis using that by (auto simp: maybeAutoClear_def)
  next
    case False
    then show ?thesis
      by (intro alarms_ok_map [OF that, where f = "\<lambda>a. if is_open d a then clear_alarm a else a"])
        (simp_all add: maybeAutoClear_tables clear_alarm_def)
  qed
  have "alarms_ok (e\<lparr>en_pending := p\<rparr>)" for p using ok by (simp add: alarms_ok_def)
  then show ?thesis using ok opened closed by (simp add: eval_rule_def Let_def split: option.split)
qed

lemma evaluate_alarms:
  assumes "alarms_ok e" and "\<forall>d. \<not> df_count fa d"
  shows "alarms_ok (evaluate fb fa now m e)"
proof -
  have "alarms_ok (foldl (\<lambda>e rl. eval_rule fb fa now m rl e) e1 rls)" if "alarms_ok e1" for rls e1
    using that by (induction rls arbitrary: e1) (simp_all add: eval_rule_alarms assms(2))
  then show ?thesis using assms(1) by (simp add: evaluate_def)
qed

lemma handleTrap_alarms:
  assumes "alarms_ok e"
  shows "alarms_ok (handleTrap target encode fa nats_up t e)"
proof (cases "\<not> tr_version_ok t \<or> df_insert fa (trap_dedup t) \<or> filter (is_open (trap_dedup t)) (en_alarms e) \<noteq> []")
  case True
  then show ?thesis using assms by (auto simp: handleTrap_def)
next
  case False
  then show ?thesis
    by (intro alarms_ok_append [OF assms, of "trap_alarm target encode (en_next e) t"])
      (simp_all add: handleTrap_def trap_alarm_def Let_def)
qed

lemma reachable_alarms_ok: "engine_reachable e \<Longrightarrow> alarms_ok e"
proof (induction rule: engine_reachable.induct)
  case start
  then show ?case by (simp add: alarms_ok_def New_engine_def)
next
  case (more e e')
  have "alarms_ok (clear_by_id i e)" for i
    by (rule alarms_ok_map [OF more.IH, where f = "\<lambda>a. if am_ID a = i \<and> \<not> am_Cleared a then a\<lparr>am_Cleared := True, am_Auto := False\<rparr> else a"])
      (simp_all add: clear_by_id_def)
  moreover have "alarms_ok (refreshRules parse query e)" for parse query
    using more.IH by (simp add: refreshRules_def alarms_ok_def split: sum.split)
  ultimately show ?case using more.hyps(2) more.IH
    by (auto elim!: engine_stepE intro: evaluate_alarms handleTrap_alarms)
qed

text \<open>
  C5: whatever the order of metrics, rule refreshes, manual clears and traps, a deduplication key
  never has two open alarms and alarm ids are unique, as long as the COUNT before an insert succeeds.
\<close>

theorem one_open_alarm_per_key:
  assumes "engine_reachable e"
  shows "length (filter (is_open d) (en_alarms e)) \<le> 1 \<and> distinct (map am_ID (en_alarms e))"
  using reachable_alarms_ok [OF assms] by (simp add: alarms_ok_def)

text \<open>A COUNT that fails is read as 0: the open alarm is not seen and a second one is opened.\<close>

lemma failed_count_opens_again:
  assumes "filter (is_open d) (en_alarms e) = [a]" and "df_count fa d" and "\<not> df_insert fa d"
  shows "length (filter (is_open d) (en_alarms (maybeOpen fb fa m rl d e))) = 2"
  using assms by (simp add: maybeOpen_tables open_count_def opened_alarm_def is_open_def)

subsection \<open>The windows\<close>

text \<open>Times and verdicts of one rule on one target, oldest first; the start of the run that is still going on.\<close>

definition run_since :: "bool \<Rightarrow> (int \<times> bool) list \<Rightarrow> int" where
  "run_since b h = (case takeWhile (\<lambda>tv. snd tv = b) (rev h) of [] \<Rightarrow> zero_time | x # xs \<Rightarrow> fst (last (x # xs)))"

lemma run_since_snoc:
  "run_since b (h @ [(now, v)]) =
     (if v \<noteq> b then zero_time else if takeWhile (\<lambda>tv. snd tv = b) (rev h) = [] then now else run_since b h)"
  by (simp add: run_since_def split: list.split)

lemma run_since_zero:
  assumes "\<forall>tv \<in> set h. fst tv \<noteq> zero_time"
  shows "run_since b h = zero_time \<longleftrightarrow> takeWhile (\<lambda>tv. snd tv = b) (rev h) = []"
proof (cases "takeWhile (\<lambda>tv. snd tv = b) (rev h)")
  case (Cons x xs)
  then have "last (x # xs) \<in> set (takeWhile (\<lambda>tv. snd tv = b) (rev h))" by (metis last_in_set list.discI)
  then have "last (x # xs) \<in> set h" by (auto dest: set_takeWhileD)
  then show ?thesis using assms Cons by (auto simp: run_since_def)
qed (simp add: run_since_def)

definition runs :: "(int \<times> bool) list \<Rightarrow> pending_state" where
  "runs h = \<lparr>pd_truthySince = run_since True h, pd_falsySince = run_since False h\<rparr>"

lemma runs_snoc:
  assumes "\<forall>tv \<in> set h. fst tv \<noteq> zero_time"
  shows "pending_step now v (runs h) = runs (h @ [(now, v)])"
  using run_since_zero [OF assms] by (simp add: pending_step_def runs_def run_since_snoc)

text \<open>Keys of different rules or targets never coincide.\<close>

lemma append_colon_inject:
  "c \<notin> set a \<Longrightarrow> c \<notin> set b \<Longrightarrow> a @ c # x = b @ c # y \<Longrightarrow> a = b \<and> x = y"
proof (induction a arbitrary: b)
  case Nil
  then show ?case by (cases b) auto
next
  case (Cons h t)
  then show ?case by (cases b) auto
qed

lemma dedup_key_inject:
  assumes "CHR '':'' \<notin> set (ru_ID r) \<union> set (ru_ID r') \<union> set k \<union> set k'" and "dedup_key r k x = dedup_key r' k' x'"
  shows "ru_ID r = ru_ID r' \<and> k = k' \<and> x = x'"
proof -
  have "ru_ID r = ru_ID r' \<and> k @ CHR '':'' # x = k' @ CHR '':'' # x'"
    by (rule append_colon_inject [of "CHR '':''"]) (use assms in \<open>auto simp: dedup_key_def\<close>)
  then show ?thesis using append_colon_inject [of "CHR '':''" k k' x x'] assms(1) by simp
qed

lemma eval_rule_pending:
  "en_pending (eval_rule fb fa now m rl e) =
     (case verdict rl m of None \<Rightarrow> en_pending e
      | Some v \<Rightarrow> (en_pending e)(dedup_key rl (me_kind m) (me_key m) \<mapsto>
                   pending_step now v (pendingFor (dedup_key rl (me_kind m) (me_key m)) e)))"
  by (simp add: eval_rule_def maybeOpen_def maybeAutoClear_def Let_def split: option.split list.split)

lemma eval_rule_rules [simp]: "en_rules (eval_rule fb fa now m rl e) = en_rules e"
  by (simp add: eval_rule_def maybeOpen_def maybeAutoClear_def Let_def split: option.split list.split)

lemma foldl_eval_pending_other:
  "\<forall>r \<in> set rls. dedup_key r (me_kind m) (me_key m) \<noteq> d \<Longrightarrow>
   en_pending (foldl (\<lambda>e rl. eval_rule fb fa now m rl e) e rls) d = en_pending e d"
  by (induction rls arbitrary: e) (auto simp: eval_rule_pending split: option.split)

lemma foldl_eval_rules: "en_rules (foldl (\<lambda>e rl. eval_rule fb fa now m rl e) e rls) = en_rules e"
  by (induction rls arbitrary: e) simp_all

text \<open>The part of a metric stream a rule judges for one target.\<close>

definition history :: "rule_row \<Rightarrow> string \<Rightarrow> string \<Rightarrow> (int \<times> metric) list \<Rightarrow> (int \<times> bool) list" where
  "history rl kind key ms =
     List.map_filter (\<lambda>(now, m). if me_kind m = kind \<and> me_key m = key then map_option (Pair now) (verdict rl m) else None) ms"

definition stream :: "SMTPConfig option \<Rightarrow> (db_faults \<times> int \<times> metric) list \<Rightarrow> engine \<Rightarrow> engine" where
  "stream fb ms e = foldl (\<lambda>e (fa, now, m). evaluate fb fa now m e) e ms"

definition names_ok :: "engine \<Rightarrow> (db_faults \<times> int \<times> metric) list \<Rightarrow> bool" where
  "names_ok e ms \<longleftrightarrow> distinct (map ru_ID (en_rules e)) \<and> (\<forall>r \<in> set (en_rules e). CHR '':'' \<notin> set (ru_ID r)) \<and>
     (\<forall>(fa, now, m) \<in> set ms. CHR '':'' \<notin> set (me_kind m) \<and> now \<noteq> zero_time)"

lemma evaluate_pending:
  assumes rl: "rl \<in> set (en_rules e)" and dist: "distinct (map ru_ID (en_rules e))"
    and ids: "\<forall>r \<in> set (en_rules e). CHR '':'' \<notin> set (ru_ID r)"
    and kinds: "CHR '':'' \<notin> set (me_kind m)" "CHR '':'' \<notin> set kind"
  shows "en_pending (evaluate fb fa now m e) (dedup_key rl kind key) =
    (if me_kind m = kind \<and> me_key m = key then
       (case verdict rl m of None \<Rightarrow> en_pending e (dedup_key rl kind key)
        | Some v \<Rightarrow> Some (pending_step now v (pendingFor (dedup_key rl kind key) e)))
     else en_pending e (dedup_key rl kind key))"
proof -
  let ?d = "dedup_key rl kind key"
  have key: "dedup_key r (me_kind m) (me_key m) \<noteq> ?d"
    if "r \<in> set (en_rules e)" "ru_ID r \<noteq> ru_ID rl \<or> me_kind m \<noteq> kind \<or> me_key m \<noteq> key" for r
    using dedup_key_inject [of r rl "me_kind m" kind "me_key m" key] that ids rl kinds by auto
  show ?thesis
  proof (cases "me_kind m = kind \<and> me_key m = key")
    case False
    then show ?thesis using key
      by (auto simp: evaluate_def intro!: foldl_eval_pending_other)
  next
    case True
    obtain rs rs' where split: "en_rules e = rs @ rl # rs'" using rl by (auto simp: in_set_conv_decomp)
    then have "ru_ID rl \<notin> ru_ID ` set (rs @ rs')" using dist by auto
    then have other: "\<forall>r \<in> set (rs @ rs'). ru_ID r \<noteq> ru_ID rl" by (metis imageI)
    let ?e1 = "foldl (\<lambda>e rl. eval_rule fb fa now m rl e) e rs"
    have before: "en_pending ?e1 ?d = en_pending e ?d"
      by (rule foldl_eval_pending_other) (use other key split in auto)
    have "en_pending (evaluate fb fa now m e) ?d = en_pending (eval_rule fb fa now m rl ?e1) ?d"
      unfolding evaluate_def split foldl_append foldl_Cons
      by (rule foldl_eval_pending_other) (use other key split in auto)
    then show ?thesis using True before by (simp add: eval_rule_pending pendingFor_def split: option.split)
  qed
qed

lemma evaluate_rules [simp]: "en_rules (evaluate fb fa now m e) = en_rules e"
  by (simp add: evaluate_def foldl_eval_rules)

lemma stream_rules [simp]: "en_rules (stream fb ms e) = en_rules e"
  by (induction ms arbitrary: e) (auto simp: stream_def)

lemma history_snoc:
  "history rl kind key (ms @ [(now, m)]) =
     history rl kind key ms @
       (if me_kind m = kind \<and> me_key m = key then (case verdict rl m of None \<Rightarrow> [] | Some v \<Rightarrow> [(now, v)]) else [])"
  by (auto simp: history_def map_filter_def split: option.split)

lemma history_times: "\<forall>tm \<in> set ms. fst tm \<noteq> zero_time \<Longrightarrow> \<forall>tv \<in> set (history rl kind key ms). fst tv \<noteq> zero_time"
  by (auto simp: history_def map_filter_def split: if_splits)

lemma stream_pending:
  assumes "rl \<in> set (en_rules e)" and "names_ok e ms" and "CHR '':'' \<notin> set kind" and "en_pending e = Map.empty"
  shows "pendingFor (dedup_key rl kind key) (stream fb ms e) = runs (history rl kind key (map snd ms))"
  using assms(2)
proof (induction ms rule: rev_induct)
  case Nil
  then show ?case
    by (simp add: stream_def pendingFor_def assms(4) fresh_pending_def runs_def run_since_def history_def map_filter_def)
next
  case (snoc x ms)
  obtain fa now m where x: "x = (fa, now, m)" by (cases x)
  have names: "names_ok e ms" using snoc.prems by (simp add: names_ok_def)
  let ?s = "stream fb ms e"
  have st: "stream fb (ms @ [x]) e = evaluate fb fa now m ?s" by (simp add: stream_def x)
  have h: "\<forall>tv \<in> set (history rl kind key (map snd ms)). fst tv \<noteq> zero_time"
    using snoc.prems by (intro history_times) (auto simp: names_ok_def)
  have "en_pending (evaluate fb fa now m ?s) (dedup_key rl kind key) =
    (if me_kind m = kind \<and> me_key m = key then
       (case verdict rl m of None \<Rightarrow> en_pending ?s (dedup_key rl kind key)
        | Some v \<Rightarrow> Some (pending_step now v (pendingFor (dedup_key rl kind key) ?s)))
     else en_pending ?s (dedup_key rl kind key))"
    by (rule evaluate_pending) (use assms snoc.prems x in \<open>auto simp: names_ok_def\<close>)
  then have "pendingFor (dedup_key rl kind key) (evaluate fb fa now m ?s) =
    (if me_kind m = kind \<and> me_key m = key then
       (case verdict rl m of None \<Rightarrow> pendingFor (dedup_key rl kind key) ?s
        | Some v \<Rightarrow> pending_step now v (pendingFor (dedup_key rl kind key) ?s))
     else pendingFor (dedup_key rl kind key) ?s)"
    by (simp add: pendingFor_def split: option.split)
  then show ?case
    unfolding st by (simp add: snoc.IH [OF names] runs_snoc [OF h] x history_snoc split: option.split)
qed

text \<open>
  C6: for every rule and target, however the metrics of different targets and rules interleave, the
  engine's pending state is the start of the current run of true verdicts and the start of the
  current run of false ones; a metric the rule cannot judge changes neither.
\<close>

theorem pending_tracks_runs:
  assumes "rl \<in> set (en_rules e)" and "names_ok e ms" and "CHR '':'' \<notin> set kind" and "en_pending e = Map.empty"
  shows "pendingFor (dedup_key rl kind key) (stream fb ms e) =
    \<lparr>pd_truthySince = run_since True (history rl kind key (map snd ms)),
     pd_falsySince = run_since False (history rl kind key (map snd ms))\<rparr>"
  using stream_pending [OF assms] by (simp add: runs_def)

subsection \<open>When alarms open and close\<close>

definition rows_of :: "string \<Rightarrow> engine \<Rightarrow> alarm list" where
  "rows_of d e = filter (\<lambda>a. am_Dedup a = d) (en_alarms e)"

definition open_of :: "string \<Rightarrow> engine \<Rightarrow> alarm list" where
  "open_of d e = filter (is_open d) (en_alarms e)"

lemma open_of_rows: "open_of d e = filter (\<lambda>a. \<not> am_Cleared a) (rows_of d e)"
  unfolding open_of_def rows_of_def filter_filter by (rule filter_cong) (auto simp: is_open_def)

lemma clear_other_rows:
  "d' \<noteq> d \<Longrightarrow> filter (\<lambda>a. am_Dedup a = d) (map (\<lambda>a. if is_open d' a then clear_alarm a else a) as) = filter (\<lambda>a. am_Dedup a = d) as"
  by (induction as) (auto simp: is_open_def clear_alarm_def)

lemma maybeOpen_rows:
  "rows_of d (maybeOpen fb fa m rl d' e) =
     (if d' = d \<and> (df_count fa d \<or> open_of d e = []) \<and> \<not> df_insert fa d
      then rows_of d e @ [opened_alarm rl m d (en_next e)] else rows_of d e)"
  by (auto simp: rows_of_def maybeOpen_tables open_count_def open_of_def opened_alarm_def)

lemma maybeAutoClear_rows:
  "rows_of d (maybeAutoClear fb fa m rl d' e) =
     (if d' = d \<and> \<not> df_update fa d then map (\<lambda>a. if is_open d a then clear_alarm a else a) (rows_of d e) else rows_of d e)"
proof -
  have same: "filter (\<lambda>a. am_Dedup a = d) (map (\<lambda>a. if is_open d a then clear_alarm a else a) as)
      = map (\<lambda>a. if is_open d a then clear_alarm a else a) (filter (\<lambda>a. am_Dedup a = d) as)" for as
    by (induction as) (auto simp: is_open_def clear_alarm_def)
  have none: "filter (is_open d) as = [] \<Longrightarrow> map (\<lambda>a. if is_open d a then clear_alarm a else a) (filter (\<lambda>a. am_Dedup a = d) as) = filter (\<lambda>a. am_Dedup a = d) as" for as
    by (induction as) (auto split: if_splits)
  show ?thesis by (cases "d' = d") (simp_all add: rows_of_def maybeAutoClear_tables same none clear_other_rows)
qed

lemma rows_of_pending [simp]: "rows_of d (e\<lparr>en_pending := p\<rparr>) = rows_of d e" "open_of d (e\<lparr>en_pending := p\<rparr>) = open_of d e"
  by (simp_all add: rows_of_def open_of_def)

text \<open>What a verdict does to the rows of its key.\<close>

definition verdict_rows ::
  "db_faults \<Rightarrow> int \<Rightarrow> rule_row \<Rightarrow> metric \<Rightarrow> string \<Rightarrow> nat \<Rightarrow> pending_state \<Rightarrow> alarm list \<Rightarrow> alarm list" where
  "verdict_rows fa now rl m d i p rows =
     (case verdict rl m of None \<Rightarrow> rows
      | Some truthy \<Rightarrow>
          if truthy then
            if seconds (ru_ForSeconds rl) \<le> time_sub now (pd_truthySince (pending_step now True p)) \<and>
               (df_count fa d \<or> filter (\<lambda>a. \<not> am_Cleared a) rows = []) \<and> \<not> df_insert fa d
            then rows @ [opened_alarm rl m d i] else rows
          else
            if seconds (ru_ClearForSeconds rl) \<le> time_sub now (pd_falsySince (pending_step now False p)) \<and> \<not> df_update fa d
            then map (\<lambda>a. if is_open d a then clear_alarm a else a) rows else rows)"

lemma eval_rule_rows:
  "rows_of d (eval_rule fb fa now m rl e) =
     (if dedup_key rl (me_kind m) (me_key m) \<noteq> d then rows_of d e
      else verdict_rows fa now rl m d (en_next e) (pendingFor d e) (rows_of d e))"
  by (simp add: verdict_rows_def eval_rule_def Let_def maybeOpen_rows maybeAutoClear_rows not_less open_of_rows
      split: option.split)

lemma foldl_eval_rows_other:
  "\<forall>r \<in> set rls. dedup_key r (me_kind m) (me_key m) \<noteq> d \<Longrightarrow>
   rows_of d (foldl (\<lambda>e rl. eval_rule fb fa now m rl e) e rls) = rows_of d e"
  by (induction rls arbitrary: e) (simp_all add: eval_rule_rows)

lemma evaluate_rows:
  assumes rl: "rl \<in> set (en_rules e)" and dist: "distinct (map ru_ID (en_rules e))"
    and ids: "\<forall>r \<in> set (en_rules e). CHR '':'' \<notin> set (ru_ID r)" and kind: "CHR '':'' \<notin> set (me_kind m)"
    and d: "d = dedup_key rl (me_kind m) (me_key m)"
  shows "\<exists>i. rows_of d (evaluate fb fa now m e) = verdict_rows fa now rl m d i (pendingFor d e) (rows_of d e)"
proof -
  obtain rs rs' where split: "en_rules e = rs @ rl # rs'" using rl by (auto simp: in_set_conv_decomp)
  then have "ru_ID rl \<notin> ru_ID ` set (rs @ rs')" using dist by auto
  then have "\<forall>r \<in> set (rs @ rs'). ru_ID r \<noteq> ru_ID rl" by (metis imageI)
  then have other: "dedup_key r (me_kind m) (me_key m) \<noteq> d" if "r \<in> set (rs @ rs')" for r
    using dedup_key_inject [of r rl "me_kind m" "me_kind m" "me_key m" "me_key m"] that ids kind split d by auto
  let ?e1 = "foldl (\<lambda>e rl. eval_rule fb fa now m rl e) e rs"
  have before: "rows_of d ?e1 = rows_of d e" "en_pending ?e1 d = en_pending e d"
    using other by (auto intro!: foldl_eval_rows_other foldl_eval_pending_other)
  have "rows_of d (evaluate fb fa now m e) = rows_of d (eval_rule fb fa now m rl ?e1)"
    unfolding evaluate_def split foldl_append foldl_Cons
    by (rule foldl_eval_rows_other) (use other in auto)
  then show ?thesis
    using before by (intro exI [of _ "en_next ?e1"]) (simp add: eval_rule_rows d [symmetric] pendingFor_def)
qed

text \<open>
  C3: a rule opens an alarm for a target exactly when the metric at hand makes it true, the run of
  true verdicts that this metric continues or starts began at least \<open>for_seconds\<close> ago, none is open
  yet (or the COUNT failed) and the insert succeeds; otherwise the target gets no new row.
\<close>

theorem alarm_opens_exactly:
  assumes "rl \<in> set (en_rules e)" and "names_ok e (ms @ [(fa, now, m)])" and "en_pending e = Map.empty"
    and "d = dedup_key rl (me_kind m) (me_key m)"
  shows "length (rows_of d (stream fb (ms @ [(fa, now, m)]) e)) = length (rows_of d (stream fb ms e)) +
    (if verdict rl m = Some True \<and>
        seconds (ru_ForSeconds rl)
          \<le> time_sub now (run_since True (history rl (me_kind m) (me_key m) (map snd (ms @ [(fa, now, m)])))) \<and>
        (df_count fa d \<or> open_of d (stream fb ms e) = []) \<and> \<not> df_insert fa d then 1 else 0)"
proof -
  let ?s = "stream fb ms e"
  have names: "names_ok e ms" and kind: "CHR '':'' \<notin> set (me_kind m)" using assms(2) by (auto simp: names_ok_def)
  have h: "\<forall>tv \<in> set (history rl (me_kind m) (me_key m) (map snd ms)). fst tv \<noteq> zero_time"
    using names by (intro history_times) (auto simp: names_ok_def)
  have p: "pendingFor d ?s = runs (history rl (me_kind m) (me_key m) (map snd ms))"
    unfolding assms(4) by (rule stream_pending [OF assms(1) names kind assms(3)])
  have st: "stream fb (ms @ [(fa, now, m)]) e = evaluate fb fa now m ?s" by (simp add: stream_def)
  obtain i where "rows_of d (evaluate fb fa now m ?s) = verdict_rows fa now rl m d i (pendingFor d ?s) (rows_of d ?s)"
    using evaluate_rows [of rl ?s m d fb fa now] assms names kind by (auto simp: names_ok_def)
  then show ?thesis unfolding st p verdict_rows_def runs_snoc [OF h] open_of_rows
    by (auto simp: runs_def history_snoc split: option.split)
qed

text \<open>
  C4: a rule closes a target's open alarm exactly when the metric at hand makes it false, the run of
  false verdicts began at least \<open>clear_for_seconds\<close> ago and the update succeeds; a metric that
  does not make it true leaves the other rows of the key as they were.
\<close>

theorem alarm_closes_exactly:
  assumes "rl \<in> set (en_rules e)" and "names_ok e (ms @ [(fa, now, m)])" and "en_pending e = Map.empty"
    and "d = dedup_key rl (me_kind m) (me_key m)" and "verdict rl m \<noteq> Some True"
  shows "open_of d (stream fb (ms @ [(fa, now, m)]) e) =
    (if verdict rl m = Some False \<and>
        seconds (ru_ClearForSeconds rl)
          \<le> time_sub now (run_since False (history rl (me_kind m) (me_key m) (map snd (ms @ [(fa, now, m)])))) \<and>
        \<not> df_update fa d then [] else open_of d (stream fb ms e))"
proof -
  let ?s = "stream fb ms e"
  have names: "names_ok e ms" and kind: "CHR '':'' \<notin> set (me_kind m)" using assms(2) by (auto simp: names_ok_def)
  have h: "\<forall>tv \<in> set (history rl (me_kind m) (me_key m) (map snd ms)). fst tv \<noteq> zero_time"
    using names by (intro history_times) (auto simp: names_ok_def)
  have p: "pendingFor d ?s = runs (history rl (me_kind m) (me_key m) (map snd ms))"
    unfolding assms(4) by (rule stream_pending [OF assms(1) names kind assms(3)])
  have st: "stream fb (ms @ [(fa, now, m)]) e = evaluate fb fa now m ?s" by (simp add: stream_def)
  have closed: "filter (\<lambda>a. \<not> am_Cleared a) (map (\<lambda>a. if is_open d a then clear_alarm a else a) (rows_of d ?s)) = []"
    by (auto simp: filter_empty_conv rows_of_def is_open_def clear_alarm_def)
  obtain i where "rows_of d (evaluate fb fa now m ?s) = verdict_rows fa now rl m d i (pendingFor d ?s) (rows_of d ?s)"
    using evaluate_rows [of rl ?s m d fb fa now] assms names kind by (auto simp: names_ok_def)
  then show ?thesis unfolding st p verdict_rows_def runs_snoc [OF h] open_of_rows
    using assms(5) closed by (cases "verdict rl m") (auto simp: runs_def history_snoc)
qed

subsection \<open>A concrete rule\<close>

definition cpu_rule :: rule_row where
  "cpu_rule = \<lparr>ru_ID = ''r1'', ru_SiteID = None, ru_Name = ''CPU'', ru_Severity = ''warning'',
     ru_Expression = ''device.cpu_pct > 90'', ru_ChannelIDs = [''c1''], ru_ForSeconds = 60, ru_ClearForSeconds = 120,
     ru_TargetKind = ''any''\<rparr>"

definition cpu_metric :: "rat \<Rightarrow> metric" where
  "cpu_metric x = \<lparr>me_site = ''s1'', me_kind = ''agent'', me_uuid = ''a1'', me_key = ''a1'',
     me_env = [''cpu_pct'' \<mapsto> AnyF64 (Fin x)], me_json = ''{}''\<rparr>"

definition no_faults :: db_faults where
  "no_faults = \<lparr>df_count = (\<lambda>d. False), df_insert = (\<lambda>d. False), df_update = (\<lambda>d. False), df_nats_up = True\<rparr>"

definition cpu_engine :: engine where
  "cpu_engine = New_engine\<lparr>en_rules := [cpu_rule]\<rparr>"

lemma cpu_facts:
  "verdict cpu_rule (cpu_metric 95) = Some True" "verdict cpu_rule (cpu_metric 12) = Some False"
  "cpu_rule \<in> set (en_rules cpu_engine)" "en_pending cpu_engine = Map.empty"
  by (code_simp, code_simp, simp add: cpu_engine_def, simp add: cpu_engine_def New_engine_def)

definition cpu_stream :: "(db_faults \<times> int \<times> metric) list" where
  "cpu_stream = [(no_faults, 1000000000, cpu_metric 95), (no_faults, 61000000000, cpu_metric 95)]"

lemma cpu_names: "names_ok cpu_engine cpu_stream" "names_ok cpu_engine (cpu_stream @ [(no_faults, 400000000000, cpu_metric 12)])"
  by (simp_all add: names_ok_def cpu_engine_def New_engine_def cpu_stream_def cpu_metric_def cpu_rule_def zero_time_def)

lemma cpu_windows [simp]: "ru_ForSeconds cpu_rule = 60" "ru_ClearForSeconds cpu_rule = 120"
  by (simp_all add: cpu_rule_def)

lemma cpu_key [simp]: "me_kind (cpu_metric x) = ''agent''" "me_key (cpu_metric x) = ''a1''"
  by (simp_all add: cpu_metric_def)

theorem one_open_alarm_per_key_witness:
  "length (filter (is_open ''snmp-trap:10.0.0.9:'') (en_alarms (handleTrap (\<lambda>s. (''s1'', [])) (\<lambda>p. []) no_faults True
     \<lparr>tr_source = ''10.0.0.9'', tr_version_ok = True, tr_vars = []\<rparr> New_engine))) \<le> 1"
  using one_open_alarm_per_key [OF engine_reachable.more [OF engine_reachable.start engine_step.trap]] by blast

theorem pending_tracks_runs_witness:
  "pendingFor (dedup_key cpu_rule ''agent'' ''a1'') (stream None cpu_stream cpu_engine) =
     \<lparr>pd_truthySince = 1000000000, pd_falsySince = zero_time\<rparr>"
proof -
  have "run_since True (history cpu_rule ''agent'' ''a1'' (map snd cpu_stream)) = 1000000000"
    "run_since False (history cpu_rule ''agent'' ''a1'' (map snd cpu_stream)) = zero_time"
    by (simp_all add: cpu_stream_def history_def map_filter_simps cpu_facts run_since_def)
  then show ?thesis
    using pending_tracks_runs [OF cpu_facts(3) cpu_names(1) _ cpu_facts(4), of "''agent''" "''a1''" None] by simp
qed

text \<open>True for a minute: the second metric opens the alarm.\<close>

theorem alarm_opens_exactly_witness:
  "length (rows_of (dedup_key cpu_rule ''agent'' ''a1'')
     (stream None ([(no_faults, 1000000000, cpu_metric 95)] @ [(no_faults, 61000000000, cpu_metric 95)]) cpu_engine)) = 1"
proof -
  let ?d = "dedup_key cpu_rule ''agent'' ''a1''" and ?ms = "[(no_faults, 1000000000, cpu_metric 95)]"
  have first: "rows_of ?d (stream None ?ms cpu_engine) = []"
    by (simp add: stream_def evaluate_def cpu_engine_def eval_rule_rows verdict_rows_def cpu_facts)
      (simp add: rows_of_def New_engine_def pending_step_def pendingFor_def fresh_pending_def seconds_small)
  have "run_since True (history cpu_rule ''agent'' ''a1'' (map snd (?ms @ [(no_faults, 61000000000, cpu_metric 95)]))) = 1000000000"
    by (simp add: history_def map_filter_simps cpu_facts run_since_def)
  then show ?thesis
    using alarm_opens_exactly [OF cpu_facts(3), of ?ms no_faults 61000000000 "cpu_metric 95" ?d None] cpu_names(1) first
    by (simp add: cpu_stream_def cpu_facts open_of_rows no_faults_def)
      (simp add: seconds_small time_sub_def)
qed

theorem alarm_closes_exactly_witness:
  "open_of (dedup_key cpu_rule ''agent'' ''a1'') (stream None (cpu_stream @ [(no_faults, 400000000000, cpu_metric 12)]) cpu_engine)
   = open_of (dedup_key cpu_rule ''agent'' ''a1'') (stream None cpu_stream cpu_engine)"
proof -
  have "run_since False (history cpu_rule ''agent'' ''a1'' (map snd (cpu_stream @ [(no_faults, 400000000000, cpu_metric 12)]))) = 400000000000"
    by (simp add: cpu_stream_def history_def map_filter_simps cpu_facts run_since_def)
  then show ?thesis
    using alarm_closes_exactly [OF cpu_facts(3) cpu_names(2) cpu_facts(4), of "dedup_key cpu_rule ''agent'' ''a1''" None]
    by (simp add: cpu_facts no_faults_def seconds_small)
qed

end
