(* ===== verification/Compliance.thy ===== *)
theory Compliance
  imports Float_Text Go_Time
begin

text \<open>
  The first half of \<open>internal/compliance/evaluator.go\<close>: the posture rules that turn an agent
  snapshot into issues, CVEs, a score and a severity. The static CVE map is the embedded
  \<open>cve_map.json\<close>.
\<close>

subsection \<open>Signals and findings\<close>

record patch_ref =
  pt_Title :: string
  pt_KB :: string
  pt_Severity :: string

record app_ref =
  ap_Name :: string
  ap_Version :: string

record signals =
  sg_PendingReboot :: bool
  sg_MissingPatchCount :: int
  sg_Patches :: "patch_ref list"
  sg_Apps :: "app_ref list"
  sg_Win11Eligible :: "bool option"
  sg_SecureBoot :: "bool option"
  sg_EDRProducts :: "string list"
  sg_LastSeenAge :: int
  sg_OS :: string

record issue =
  iss_Category :: string
  iss_Code :: string
  iss_Severity :: string
  iss_Title :: string
  iss_Detail :: string

record vuln =
  vu_CVEID :: string
  vu_Severity :: string
  vu_Product :: string

record cve_entry =
  cv_ID :: string
  cv_Severity :: string
  cv_MinVersion :: string
  cv_MaxVersion :: string

record cve_product =
  cp_Match :: string
  cp_CVEs :: "cve_entry list"

record kb_entry =
  kb_KB :: string
  kb_CVE :: string
  kb_Severity :: string
  kb_Product :: string

record cve_map =
  cm_Products :: "cve_product list"
  cm_KBs :: "kb_entry list"

text \<open>The embedded \<open>cve_map.json\<close>, which \<open>init\<close> unmarshals.\<close>

definition staticCVEMap :: cve_map where
  "staticCVEMap =
     \<lparr>cm_Products =
        [\<lparr>cp_Match = ''Chrome'', cp_CVEs = [\<lparr>cv_ID = ''CVE-2024-4058'', cv_Severity = ''high'',
            cv_MinVersion = ''0'', cv_MaxVersion = ''124.0.6367.60''\<rparr>]\<rparr>,
         \<lparr>cp_Match = ''Microsoft Edge'', cp_CVEs = [\<lparr>cv_ID = ''CVE-2024-38085'', cv_Severity = ''high'',
            cv_MinVersion = ''0'', cv_MaxVersion = ''126.0.2592.56''\<rparr>]\<rparr>,
         \<lparr>cp_Match = ''Firefox'', cp_CVEs = [\<lparr>cv_ID = ''CVE-2024-4367'', cv_Severity = ''critical'',
            cv_MinVersion = ''0'', cv_MaxVersion = ''125.0.2''\<rparr>]\<rparr>,
         \<lparr>cp_Match = ''Adobe Acrobat'', cp_CVEs = [\<lparr>cv_ID = ''CVE-2024-41869'', cv_Severity = ''critical'',
            cv_MinVersion = ''0'', cv_MaxVersion = ''24.002.20964''\<rparr>]\<rparr>,
         \<lparr>cp_Match = ''Zoom'', cp_CVEs = [\<lparr>cv_ID = ''CVE-2024-24697'', cv_Severity = ''high'',
            cv_MinVersion = ''0'', cv_MaxVersion = ''5.17.10''\<rparr>]\<rparr>],
      cm_KBs =
        [\<lparr>kb_KB = ''KB5039211'', kb_CVE = ''CVE-2024-30080'', kb_Severity = ''critical'', kb_Product = ''Windows''\<rparr>,
         \<lparr>kb_KB = ''KB5037768'', kb_CVE = ''CVE-2024-30078'', kb_Severity = ''high'', kb_Product = ''Windows''\<rparr>,
         \<lparr>kb_KB = ''KB5036893'', kb_CVE = ''CVE-2024-21338'', kb_Severity = ''high'', kb_Product = ''Windows''\<rparr>]\<rparr>"


subsection \<open>Versions\<close>

text \<open>The digit loop of \<open>parseVer\<close> on Go's 64-bit \<open>int\<close>; it stops at the first other character.\<close>

fun leading_digits :: "int \<Rightarrow> string \<Rightarrow> int" where
  "leading_digits n [] = n"
| "leading_digits n (c # cs) =
     (if is_digit c then leading_digits (i64 (n * 10 + int (digit_val c))) cs else n)"

definition parseVer :: "string \<Rightarrow> int list" where
  "parseVer s =
     (let s = trim_space s
      in if s = [] then [] else map (\<lambda>p. leading_digits 0 (trim_space p)) (split_str s ''.''))"

definition nth_or_zero :: "int list \<Rightarrow> nat \<Rightarrow> int" where
  "nth_or_zero xs i = (if i < length xs then xs ! i else 0)"

text \<open>The comparison loop from position \<open>i\<close>, with \<open>k\<close> positions left.\<close>

fun compare_from :: "int list \<Rightarrow> int list \<Rightarrow> nat \<Rightarrow> nat \<Rightarrow> bool" where
  "compare_from as bs i 0 = True"
| "compare_from as bs i (Suc k) =
     (let av = nth_or_zero as i; bv = nth_or_zero bs i
      in if av < bv then True else if av > bv then False else compare_from as bs (Suc i) k)"

definition versionLTE :: "string \<Rightarrow> string \<Rightarrow> bool" where
  "versionLTE a b =
     (let as = parseVer a; bs = parseVer b in compare_from as bs 0 (max (length as) (length bs)))"

subsection \<open>Evaluate\<close>

definition hasCriticalPatch :: "patch_ref list \<Rightarrow> bool" where
  "hasCriticalPatch ps =
     list_ex (\<lambda>p. to_lower (pt_Severity p) = ''critical'' \<or> to_lower (pt_Severity p) = ''important'') ps"

definition sevRank :: "string \<Rightarrow> nat" where
  "sevRank s =
     (let l = to_lower s
      in if l = ''critical'' then 4 else if l = ''high'' then 3 else if l = ''medium'' then 2
         else if l = ''low'' then 1 else 0)"

definition reboot_issues :: "signals \<Rightarrow> issue list" where
  "reboot_issues sig =
     (if sg_PendingReboot sig
      then [\<lparr>iss_Category = ''policy'', iss_Code = ''pending_reboot'', iss_Severity = ''medium'',
             iss_Title = ''Pending reboot'', iss_Detail = ''Host has a pending reboot flag set''\<rparr>]
      else [])"

definition patch_severity :: "signals \<Rightarrow> string" where
  "patch_severity sig =
     (if hasCriticalPatch (sg_Patches sig) then ''critical''
      else if 10 \<le> sg_MissingPatchCount sig then ''high'' else ''medium'')"

definition patch_issues :: "signals \<Rightarrow> issue list" where
  "patch_issues sig =
     (if 0 < sg_MissingPatchCount sig
      then [\<lparr>iss_Category = ''patch'', iss_Code = ''missing_patches'', iss_Severity = patch_severity sig,
             iss_Title = ''Missing patches'',
             iss_Detail = itoa (sg_MissingPatchCount sig) @ '' outstanding update(s)''\<rparr>]
      else [])"

definition normalize_kb :: "string \<Rightarrow> string" where
  "normalize_kb k = (let kb = to_upper (trim_space k) in if has_prefix kb ''KB'' then kb else ''KB'' @ kb)"

text \<open>One CVE found: the row it adds to \<open>vulns\<close> and the one it adds to \<open>issues\<close>.\<close>

definition cve_found :: "string \<Rightarrow> string \<Rightarrow> string \<Rightarrow> string \<Rightarrow> vuln \<times> issue" where
  "cve_found cve sev product detail =
     (\<lparr>vu_CVEID = cve, vu_Severity = sev, vu_Product = product\<rparr>,
      \<lparr>iss_Category = ''vulnerability'', iss_Code = ''cve:'' @ cve, iss_Severity = sev,
       iss_Title = cve, iss_Detail = detail\<rparr>)"

definition kb_found :: "signals \<Rightarrow> (vuln \<times> issue) list" where
  "kb_found sig =
     concat (map (\<lambda>p. if pt_KB p = [] then []
                      else let kb = normalize_kb (pt_KB p)
                           in map (\<lambda>m. cve_found (kb_CVE m) (kb_Severity m) (kb_Product m) (''Linked to missing '' @ kb))
                                  (filter (\<lambda>m. equal_fold (kb_KB m) kb) (cm_KBs staticCVEMap)))
                 (sg_Patches sig))"

definition app_found :: "signals \<Rightarrow> (vuln \<times> issue) list" where
  "app_found sig =
     concat (map (\<lambda>app. concat (map (\<lambda>prod.
         if \<not> contains (to_lower (ap_Name app)) (to_lower (cp_Match prod)) then []
         else map (\<lambda>c. cve_found (cv_ID c) (cv_Severity c) (ap_Name app) (ap_Name app @ '' '' @ ap_Version app))
                  (filter (\<lambda>c. versionLTE (ap_Version app) (cv_MaxVersion c)) (cp_CVEs prod)))
       (cm_Products staticCVEMap))) (sg_Apps sig))"

definition posture_issues :: "signals \<Rightarrow> issue list" where
  "posture_issues sig =
     (if sg_Win11Eligible sig = Some False
      then [\<lparr>iss_Category = ''misconfig'', iss_Code = ''win11_not_ready'', iss_Severity = ''low'',
             iss_Title = ''Windows 11 readiness failed'',
             iss_Detail = ''Host did not pass Win11 readiness checks''\<rparr>] else []) @
     (if sg_SecureBoot sig = Some False
      then [\<lparr>iss_Category = ''misconfig'', iss_Code = ''secure_boot_off'', iss_Severity = ''medium'',
             iss_Title = ''Secure Boot disabled'', iss_Detail = ''Secure Boot reported as not enabled''\<rparr>] else []) @
     (if equal_fold (sg_OS sig) ''windows'' \<and> length (sg_EDRProducts sig) = 0
      then [\<lparr>iss_Category = ''policy'', iss_Code = ''edr_missing'', iss_Severity = ''high'',
             iss_Title = ''EDR not detected'', iss_Detail = ''No endpoint protection product reported''\<rparr>] else []) @
     (if sg_LastSeenAge sig > seconds (24 * 3600)
      then [\<lparr>iss_Category = ''policy'', iss_Code = ''agent_stale'', iss_Severity = ''medium'',
             iss_Title = ''Stale agent'', iss_Detail = ''No heartbeat in over 24 hours''\<rparr>] else [])"

definition all_issues :: "signals \<Rightarrow> issue list" where
  "all_issues sig =
     reboot_issues sig @ patch_issues sig @ map snd (kb_found sig) @ map snd (app_found sig) @ posture_issues sig"

text \<open>The penalties, compared byte for byte while \<open>sevRank\<close> folds case.\<close>

definition penalty :: "string \<Rightarrow> int" where
  "penalty sev =
     (if sev = ''critical'' then 25 else if sev = ''high'' then 15 else if sev = ''medium'' then 8
      else if sev = ''low'' then 3 else 1)"

definition score_of :: "issue list \<Rightarrow> f64" where
  "score_of issues =
     (let score = foldl (\<lambda>score iss. f64_sub score (Fin (of_int (penalty (iss_Severity iss))))) (Fin 100) issues
      in if f64_lt score (Fin 0) then Fin 0 else score)"

definition severity_of :: "issue list \<Rightarrow> string" where
  "severity_of issues =
     (if length issues = 0 then ''info''
      else foldl (\<lambda>sev iss. if sevRank sev < sevRank (iss_Severity iss) then iss_Severity iss else sev)
             ''info'' issues)"

fun dedupe_from :: "string list \<Rightarrow> vuln list \<Rightarrow> vuln list" where
  "dedupe_from seen [] = []"
| "dedupe_from seen (v # vs) =
     (if vu_CVEID v \<in> set seen then dedupe_from seen vs else v # dedupe_from (vu_CVEID v # seen) vs)"

definition dedupeVulns :: "vuln list \<Rightarrow> vuln list" where
  "dedupeVulns vs = dedupe_from [] vs"

definition Evaluate :: "signals \<Rightarrow> f64 \<times> string \<times> issue list \<times> vuln list" where
  "Evaluate sig =
     (let issues = all_issues sig; vulns = map fst (kb_found sig @ app_found sig)
      in (score_of issues, severity_of issues, issues, dedupeVulns vulns))"

definition normalizeSev :: "string \<Rightarrow> string" where
  "normalizeSev s =
     (let l = to_lower s
      in if l \<in> set [''critical'', ''high'', ''medium'', ''low'', ''info''] then l
         else if l = ''important'' then ''high'' else ''info'')"

definition mapSev :: "string \<Rightarrow> string" where
  "mapSev s = (if s = ''critical'' then ''critical''
               else if s = ''high'' \<or> s = ''medium'' then ''warning'' else ''info'')"

definition formatScore :: "f64 \<Rightarrow> string" where
  "formatScore s = fmt_f1 s"

subsection \<open>Severity and version order\<close>

interpretation severity_rank: ranking "\<lambda>s t. sevRank s \<le> sevRank t"
  by unfold_locales auto

text \<open>Two version lists compare by their first difference, missing parts counting as zero.\<close>

lemma compare_from_first_difference:
  "compare_from as bs i k \<longleftrightarrow>
     (\<forall>j \<in> {i..<i + k}. nth_or_zero as j = nth_or_zero bs j) \<or>
     (\<exists>j \<in> {i..<i + k}. nth_or_zero as j < nth_or_zero bs j \<and> (\<forall>l \<in> {i..<j}. nth_or_zero as l = nth_or_zero bs l))"
    (is "_ \<longleftrightarrow> ?R i k")
proof (induction k arbitrary: i)
  case 0 then show ?case by simp
next
  case (Suc k)
  have r: "{i..<i + Suc k} = insert i {Suc i..<Suc i + k}" by auto
  have s: "i < j \<Longrightarrow> {i..<j} = insert i {Suc i..<j}" for j by auto
  consider "nth_or_zero as i < nth_or_zero bs i" | "nth_or_zero as i > nth_or_zero bs i"
    | "nth_or_zero as i = nth_or_zero bs i" by linarith
  then show ?case
  proof cases
    case 1 then show ?thesis by (auto simp: Let_def intro!: bexI [of _ i])
  next
    case 2 then show ?thesis unfolding r by (auto simp: Let_def s)
  next
    case 3
    then have "compare_from as bs i (Suc k) = ?R (Suc i) k" using Suc by (simp add: Let_def)
    also have "\<dots> = ?R i (Suc k)" unfolding r using 3 by (auto simp: s)
    finally show ?thesis .
  qed
qed

definition part :: "string \<Rightarrow> nat \<Rightarrow> int" where
  "part s i = nth_or_zero (parseVer s) i"

lemma versionLTE_first_difference:
  "versionLTE a b \<longleftrightarrow> part a = part b \<or> (\<exists>j. part a j < part b j \<and> (\<forall>l < j. part a l = part b l))"
proof -
  let ?n = "max (length (parseVer a)) (length (parseVer b))"
  have z: "\<not> j < ?n \<Longrightarrow> part a j = part b j" for j by (auto simp: part_def nth_or_zero_def)
  have e: "(\<forall>j \<in> {0..<?n}. part a j = part b j) \<longleftrightarrow> part a = part b"
    using z by (auto simp: fun_eq_iff)
  have d: "(\<exists>j \<in> {0..<?n}. part a j < part b j \<and> (\<forall>l \<in> {0..<j}. part a l = part b l))
      \<longleftrightarrow> (\<exists>j. part a j < part b j \<and> (\<forall>l < j. part a l = part b l))"
    using z by (metis atLeastLessThan_iff less_irrefl zero_le)
  show ?thesis
    using e d by (simp add: versionLTE_def Let_def compare_from_first_difference part_def)
qed

interpretation version_order: ranking versionLTE
proof
  fix x y z
  show "versionLTE x y \<or> versionLTE y x"
  proof (cases "part x = part y")
    case True then show ?thesis by (simp add: versionLTE_first_difference)
  next
    case False
    then have "\<exists>j. part x j \<noteq> part y j" by auto
    then obtain j where j: "part x j \<noteq> part y j" "\<forall>l < j. part x l = part y l"
      using exists_least_iff [of "\<lambda>j. part x j \<noteq> part y j"] by auto
    then show ?thesis unfolding versionLTE_first_difference by (metis linorder_neqE_linordered_idom)
  qed
  assume xy: "versionLTE x y" and yz: "versionLTE y z"
  show "versionLTE x z"
  proof (cases "part x = part y \<or> part y = part z")
    case True then show ?thesis using xy yz by (auto simp: versionLTE_first_difference)
  next
    case False
    then obtain i j where i: "part x i < part y i" "\<forall>l < i. part x l = part y l"
        and j: "part y j < part z j" "\<forall>l < j. part y l = part z l"
      using xy yz by (auto simp: versionLTE_first_difference)
    have "part x (min i j) < part z (min i j)"
      using i j by (cases i j rule: linorder_cases) (auto simp: min_def)
    moreover have "\<forall>l < min i j. part x l = part z l" using i(2) j(2) by simp
    ultimately show ?thesis unfolding versionLTE_first_difference by blast
  qed
qed

subsection \<open>What Evaluate returns\<close>

lemma penalty_bounds: "1 \<le> penalty s" "penalty s \<le> 25"
  by (simp_all add: penalty_def)

lemma f64_sub_int: "\<bar>a - b\<bar> \<le> 2 ^ 53 \<Longrightarrow> f64_sub (Fin (of_int a)) (Fin (of_int b)) = Fin (of_int (a - b))"
  using f64_of_int_exact [of "a - b"] by (simp add: f64_of_int_def)

text \<open>Once below zero the running score stays there, so the clamp makes the result exact.\<close>

lemma penalties_below_zero:
  "f64_lt x (Fin 0) \<Longrightarrow>
   f64_lt (foldl (\<lambda>score p. f64_sub score (Fin (of_int (penalty p)))) x ps) (Fin 0)"
proof (induction ps arbitrary: x)
  case (Cons p ps)
  have "f64_lt (f64_sub x (Fin (of_int (penalty p)))) (Fin 0)"
  proof (cases x)
    case (Fin a)
    have p: "(1 :: rat) \<le> of_int (penalty p)" using penalty_bounds(1) [of p] by linarith
    have a: "a - of_int (penalty p) \<le> of_int (- 1)" using Fin Cons.prems p by simp
    then have "round_rat (a - of_int (penalty p)) \<le> of_int (- 1)" by (rule b64.rnd_le_int) simp
    then show ?thesis using a Fin by (simp add: f64_of_rat_def Let_def)
  qed (use Cons.prems in \<open>simp_all add: f64_sub_def\<close>)
  then show ?case using Cons.IH by simp
qed simp

lemma penalties_exact:
  assumes "0 \<le> n" and "n \<le> 100"
  shows "(let score = foldl (\<lambda>score p. f64_sub score (Fin (of_int (penalty p)))) (Fin (of_int n)) ps
          in if f64_lt score (Fin 0) then Fin 0 else score)
    = Fin (of_int (max 0 (n - (\<Sum>p \<leftarrow> ps. penalty p))))"
  using assms
proof (induction ps arbitrary: n)
  case (Cons p ps)
  let ?m = "n - penalty p"
  have s: "f64_sub (Fin (of_int n)) (Fin (of_int (penalty p))) = Fin (of_int ?m)"
    using Cons.prems penalty_bounds [of p] by (intro f64_sub_int) simp
  show ?case
  proof (cases "0 \<le> ?m")
    case True
    then have "?m \<le> 100" using Cons.prems penalty_bounds [of p] by linarith
    from Cons.IH [OF True this] show ?thesis by (simp add: s algebra_simps del: f64_sub_Fin)
  next
    case False
    then have "f64_lt (Fin (of_int ?m)) (Fin 0)" by simp
    from penalties_below_zero [OF this] s
    have neg: "f64_lt (foldl (\<lambda>score p. f64_sub score (Fin (of_int (penalty p)))) (Fin (of_int n)) (p # ps)) (Fin 0)"
      by simp
    have "0 \<le> (\<Sum>p \<leftarrow> ps. penalty p)"
      using penalty_bounds(1) by (intro sum_list_nonneg) (auto intro: order_trans [of 0 1])
    then have "max 0 (n - (\<Sum>p \<leftarrow> p # ps. penalty p)) = 0" using False by simp
    with neg show ?thesis by (simp only: Let_def if_True of_int_0)
  qed
qed simp

lemma score_of_exact:
  "score_of issues = Fin (of_int (max 0 (100 - (\<Sum>iss \<leftarrow> issues. penalty (iss_Severity iss)))))"
  using penalties_exact [of 100 "map iss_Severity issues"]
  by (simp add: score_of_def foldl_map comp_def)

lemma severity_of_pick: "severity_of issues = severity_rank.pick ''info'' (map iss_Severity issues)"
proof -
  have "(if sevRank sev < sevRank s then s else sev) = (if sevRank s \<le> sevRank sev then sev else s)" for s sev
    by simp
  then show ?thesis by (simp add: severity_of_def severity_rank.pick_def foldl_map)
qed

lemma sevRank_info: "sevRank ''info'' = 0"
  by code_simp

lemma severity_of_rank:
  "sevRank (severity_of issues) = Max (insert 0 (sevRank ` iss_Severity ` set issues))"
proof (rule sym, rule Max_eqI)
  let ?p = "severity_rank.pick ''info'' (map iss_Severity issues)"
  show "finite (insert 0 (sevRank ` iss_Severity ` set issues))" by simp
  show "sevRank (severity_of issues) \<in> insert 0 (sevRank ` iss_Severity ` set issues)"
    using severity_rank.pick_member [of "''info''" "map iss_Severity issues"]
    by (auto simp: severity_of_pick sevRank_info)
  show "r \<le> sevRank (severity_of issues)" if "r \<in> insert 0 (sevRank ` iss_Severity ` set issues)" for r
    using that severity_rank.pick_upper [of _ "''info''" "map iss_Severity issues"]
    by (auto simp: severity_of_pick)
qed

lemma dedupe_from_props:
  "distinct (map vu_CVEID (dedupe_from seen vs))"
  "vu_CVEID ` set (dedupe_from seen vs) = vu_CVEID ` set vs - set seen"
  by (induction seen vs rule: dedupe_from.induct) auto

lemma dedupeVulns_props:
  "distinct (map vu_CVEID (dedupeVulns vs))" "vu_CVEID ` set (dedupeVulns vs) = vu_CVEID ` set vs"
  using dedupe_from_props [of "[]" vs] by (simp_all add: dedupeVulns_def)

lemma found_shape:
  "x \<in> set (kb_found sig @ app_found sig) \<Longrightarrow>
   iss_Category (snd x) = ''vulnerability'' \<and> iss_Code (snd x) = ''cve:'' @ vu_CVEID (fst x)"
  by (auto simp: kb_found_def app_found_def cve_found_def Let_def split: if_splits)

lemma plain_category:
  assumes "iss \<in> set (reboot_issues sig @ patch_issues sig @ posture_issues sig)"
  shows "iss_Category iss \<in> set [''policy'', ''patch'', ''misconfig'']"
  using assms by (simp add: reboot_issues_def patch_issues_def posture_issues_def split: if_splits)
    (elim disjE; simp)+

lemma vulnerability_issues:
  "{iss \<in> set (all_issues sig). iss_Category iss = ''vulnerability''} = snd ` set (kb_found sig @ app_found sig)"
proof -
  have "iss_Category iss \<noteq> ''vulnerability''"
    if "iss \<in> set (reboot_issues sig @ patch_issues sig @ posture_issues sig)" for iss
    using plain_category [OF that] by auto
  then show ?thesis using found_shape [of _ sig] by (auto simp: all_issues_def)
qed

text \<open>C11: Evaluate's score is 100 less the penalties of its issues, never below 0; its severity has
  the highest rank among them; its vulnerabilities name each CVE once and are exactly the CVEs of
  the vulnerability issues.\<close>

theorem evaluate_posture:
  "case Evaluate sig of (score, severity, issues, vulns) \<Rightarrow>
     score = Fin (of_int (max 0 (100 - (\<Sum>iss \<leftarrow> issues. penalty (iss_Severity iss))))) \<and>
     sevRank severity = Max (insert 0 (sevRank ` iss_Severity ` set issues)) \<and>
     distinct (map vu_CVEID vulns) \<and>
     (\<lambda>v. ''cve:'' @ vu_CVEID v) ` set vulns
       = iss_Code ` {iss \<in> set issues. iss_Category iss = ''vulnerability''}"
proof -
  let ?f = "kb_found sig @ app_found sig"
  have "(\<lambda>v. ''cve:'' @ vu_CVEID v) ` set (dedupeVulns (map fst ?f))
      = (\<lambda>c. ''cve:'' @ c) ` vu_CVEID ` fst ` set ?f"
    using dedupeVulns_props(2) [of "map fst ?f"] by (simp only: image_image [symmetric] set_map)
  also have "\<dots> = iss_Code ` snd ` set ?f"
    unfolding image_image using found_shape [of _ sig] by (intro image_cong refl) simp
  finally show ?thesis
    by (simp add: Evaluate_def Let_def score_of_exact severity_of_rank dedupeVulns_props
        vulnerability_issues del: map_append set_append)
qed

text \<open>versionLTE is a total preorder of version texts: any two are comparable, and it is
  transitive.\<close>

theorem versionLTE_orders:
  "(versionLTE a b \<or> versionLTE b a) \<and> \<not> (versionLTE a b \<and> versionLTE b c \<and> \<not> versionLTE a c)"
  using version_order.le_total version_order.le_trans by blast

end
