(* ===== verification/Compliance_Store.thy ===== *)
theory Compliance_Store
  imports Compliance
begin

text \<open>
  The second half of \<open>internal/compliance/evaluator.go\<close>: the transaction that reconciles the open
  rows of \<open>agent_compliance_issues\<close> and \<open>agent_vulnerabilities\<close> with an evaluation. The two tables
  are lists of rows under the constraints of migration 0027 (ids are primary keys, at most one open
  row per agent and code, the CHECK lists). What the database may refuse is \<open>pe_fault\<close>, by step of
  the transaction; the ids it generates, the rows that scan and the order in which Go walks a map
  are the rest of the environment.
\<close>

subsection \<open>The open-row tables\<close>

record 'v open_row =
  pr_id :: uuid
  pr_agent :: uuid
  pr_key :: string
  pr_val :: 'v
  pr_cleared :: bool

record agent_posture =
  ag_score :: "f64 option"
  ag_severity :: "string option"
  ag_count :: int
  ag_at :: "int option"

record posture_db =
  pd_agents :: "uuid \<rightharpoonup> agent_posture"
  pd_issues :: "(uuid \<times> issue) open_row list"
  pd_vulns :: "vuln open_row list"

text \<open>The rows \<open>WHERE agent_id = $1 AND cleared_at IS NULL\<close>.\<close>

definition open_rows :: "uuid \<Rightarrow> 'v open_row list \<Rightarrow> 'v open_row list" where
  "open_rows agent rows = filter (\<lambda>r. pr_agent r = agent \<and> \<not> pr_cleared r) rows"

definition clear_row :: "uuid \<Rightarrow> 'v open_row list \<Rightarrow> 'v open_row list" where
  "clear_row i rows = map (\<lambda>r. if pr_id r = i then r\<lparr>pr_cleared := True\<rparr> else r) rows"

text \<open>INSERT under the primary key, the partial unique index and the CHECK list of the table.\<close>

definition insert_row :: "('v \<Rightarrow> bool) \<Rightarrow> uuid \<Rightarrow> uuid \<Rightarrow> string \<Rightarrow> 'v \<Rightarrow> 'v open_row list \<Rightarrow> string + 'v open_row list" where
  "insert_row check i agent key v rows =
     (if \<not> check v then Inl ''violates check constraint''
      else if i \<in> set (map pr_id rows) \<or> key \<in> set (map pr_key (open_rows agent rows))
      then Inl ''duplicate key value violates unique constraint''
      else Inr (rows @ [\<lparr>pr_id = i, pr_agent = agent, pr_key = key, pr_val = v, pr_cleared = False\<rparr>]))"

definition stored_severities :: "string list" where
  "stored_severities = [''critical'', ''high'', ''medium'', ''low'', ''info'']"

definition issue_check :: "uuid \<times> issue \<Rightarrow> bool" where
  "issue_check v =
     (iss_Category (snd v) \<in> set [''patch'', ''misconfig'', ''vulnerability'', ''policy''] \<and>
      iss_Severity (snd v) \<in> set stored_severities)"

definition vuln_check :: "vuln \<Rightarrow> bool" where
  "vuln_check v = (vu_Severity v \<in> set stored_severities)"

subsection \<open>The transaction\<close>

text \<open>
  A transaction works on its own copy of the tables. A statement that fails aborts it: PostgreSQL
  refuses every later statement, and the commit, whether or not Go looks at the error. The steps
  are numbered in the order they are sent.
\<close>

record tx =
  tx_db :: posture_db
  tx_step :: nat
  tx_aborted :: bool

definition tx_exec :: "(nat \<Rightarrow> string option) \<Rightarrow> (posture_db \<Rightarrow> string + posture_db) \<Rightarrow> tx \<Rightarrow> string option \<times> tx" where
  "tx_exec fault f t =
     (let t' = t\<lparr>tx_step := Suc (tx_step t)\<rparr>
      in if tx_aborted t then (Some ''current transaction is aborted'', t')
         else case fault (tx_step t) of
           Some e \<Rightarrow> (Some e, t'\<lparr>tx_aborted := True\<rparr>)
         | None \<Rightarrow> (case f (tx_db t) of
               Inl e \<Rightarrow> (Some e, t'\<lparr>tx_aborted := True\<rparr>)
             | Inr db \<Rightarrow> (None, t'\<lparr>tx_db := db\<rparr>)))"

record persist_env =
  pe_fault :: "nat \<Rightarrow> string option"
  pe_scans :: "uuid \<Rightarrow> bool"
  pe_new_id :: "nat \<Rightarrow> uuid"
  pe_issue_order :: "(string \<times> issue) list \<Rightarrow> (string \<times> issue) list"
  pe_vuln_order :: "(string \<times> vuln) list \<Rightarrow> (string \<times> vuln) list"
  pe_now :: int
  pe_emit_ok :: bool

text \<open>Go's \<open>want\<close> maps: a later entry with the same key replaces the earlier one.\<close>

definition want_map :: "('a \<Rightarrow> string) \<Rightarrow> 'a list \<Rightarrow> (string \<times> 'a) list" where
  "want_map key xs = foldl (\<lambda>m x. upsert (key x) x (\<lambda>_. x) m) [] xs"

definition delete_key :: "string \<Rightarrow> (string \<times> 'a) list \<Rightarrow> (string \<times> 'a) list" where
  "delete_key k m = filter (\<lambda>(k', _). k' \<noteq> k) m"

text \<open>
  The first loop: an open row whose key is no longer wanted is cleared, ignoring the error; a key
  that is wanted leaves the map, so that a second open row with it would be cleared. \<open>clr\<close> is
  the UPDATE on the table.
\<close>

fun close_rows :: "(nat \<Rightarrow> string option) \<Rightarrow> (uuid \<Rightarrow> posture_db \<Rightarrow> posture_db) \<Rightarrow> (uuid \<times> string) list \<Rightarrow>
    (string \<times> 'a) list \<Rightarrow> bool \<Rightarrow> tx \<Rightarrow> (string \<times> 'a) list \<times> bool \<times> tx" where
  "close_rows fault clr [] want changed t = (want, changed, t)"
| "close_rows fault clr ((i, k) # os) want changed t =
     (case map_of want k of
        None \<Rightarrow> close_rows fault clr os want True (snd (tx_exec fault (\<lambda>db. Inr (clr i db)) t))
      | Some _ \<Rightarrow> close_rows fault clr os (delete_key k want) changed t)"

text \<open>The second loop: one INSERT per key still wanted, stopping at the first error.\<close>

fun add_rows :: "(nat \<Rightarrow> string option) \<Rightarrow> (nat \<Rightarrow> string \<times> 'a \<Rightarrow> posture_db \<Rightarrow> string + posture_db) \<Rightarrow>
    (string \<times> 'a) list \<Rightarrow> bool \<Rightarrow> tx \<Rightarrow> string + bool \<times> tx" where
  "add_rows fault ins [] changed t = Inr (changed, t)"
| "add_rows fault ins (kv # kvs) changed t =
     (case tx_exec fault (ins (tx_step t) kv) t of
        (Some e, _) \<Rightarrow> Inl e
      | (None, t') \<Rightarrow> add_rows fault ins kvs True t')"

text \<open>Query, collect the rows that scan, close, insert: what Persist does once per table.\<close>

definition reconcile_table ::
  "persist_env \<Rightarrow> (posture_db \<Rightarrow> (uuid \<times> string) list) \<Rightarrow> (uuid \<Rightarrow> posture_db \<Rightarrow> posture_db) \<Rightarrow>
   (nat \<Rightarrow> string \<times> 'a \<Rightarrow> posture_db \<Rightarrow> string + posture_db) \<Rightarrow>
   ((string \<times> 'a) list \<Rightarrow> (string \<times> 'a) list) \<Rightarrow> (string \<times> 'a) list \<Rightarrow> bool \<Rightarrow> tx \<Rightarrow> string + bool \<times> tx" where
  "reconcile_table env query clr ins order want changed t =
     (case tx_exec (pe_fault env) Inr t of
        (Some e, _) \<Rightarrow> Inl e
      | (None, t') \<Rightarrow>
          let open = filter (\<lambda>(i, _). pe_scans env i) (query (tx_db t'));
              (want', changed', t'') = close_rows (pe_fault env) clr open want changed t'
          in add_rows (pe_fault env) ins (order want') changed' t'')"

definition open_keys :: "uuid \<Rightarrow> 'v open_row list \<Rightarrow> (uuid \<times> string) list" where
  "open_keys agent rows = map (\<lambda>r. (pr_id r, pr_key r)) (open_rows agent rows)"

definition insert_issue :: "persist_env \<Rightarrow> uuid \<Rightarrow> uuid \<Rightarrow> nat \<Rightarrow> string \<times> issue \<Rightarrow> posture_db \<Rightarrow> string + posture_db" where
  "insert_issue env agent site n kv db =
     (case insert_row issue_check (pe_new_id env n) agent (iss_Code (snd kv))
             (site, (snd kv)\<lparr>iss_Severity := normalizeSev (iss_Severity (snd kv))\<rparr>) (pd_issues db) of
        Inl e \<Rightarrow> Inl e | Inr rows \<Rightarrow> Inr (db\<lparr>pd_issues := rows\<rparr>))"

definition insert_vuln :: "persist_env \<Rightarrow> uuid \<Rightarrow> nat \<Rightarrow> string \<times> vuln \<Rightarrow> posture_db \<Rightarrow> string + posture_db" where
  "insert_vuln env agent n kv db =
     (case insert_row vuln_check (pe_new_id env n) agent (vu_CVEID (snd kv))
             ((snd kv)\<lparr>vu_Severity := normalizeSev (vu_Severity (snd kv))\<rparr>) (pd_vulns db) of
        Inl e \<Rightarrow> Inl e | Inr rows \<Rightarrow> Inr (db\<lparr>pd_vulns := rows\<rparr>))"

definition update_agent :: "uuid \<Rightarrow> f64 \<Rightarrow> string \<Rightarrow> int \<Rightarrow> int \<Rightarrow> posture_db \<Rightarrow> posture_db" where
  "update_agent agent score severity n now db =
     (case pd_agents db agent of None \<Rightarrow> db
      | Some _ \<Rightarrow> db\<lparr>pd_agents := (pd_agents db)(agent \<mapsto>
            \<lparr>ag_score = Some score, ag_severity = Some severity, ag_count = n, ag_at = Some now\<rparr>)\<rparr>)"

text \<open>The SELECT of the previous count, whose error is ignored: no row or a failure leaves 0.\<close>

definition previous_count :: "persist_env \<Rightarrow> uuid \<Rightarrow> tx \<Rightarrow> int \<times> tx" where
  "previous_count env agent t =
     (case tx_exec (pe_fault env) Inr t of
        (Some _, t') \<Rightarrow> (0, t')
      | (None, t') \<Rightarrow> (case pd_agents (tx_db t') agent of None \<Rightarrow> 0 | Some a \<Rightarrow> ag_count a, t'))"

definition persist_body :: "persist_env \<Rightarrow> uuid \<Rightarrow> uuid \<Rightarrow> f64 \<Rightarrow> string \<Rightarrow> issue list \<Rightarrow> vuln list \<Rightarrow> tx \<Rightarrow> string + bool \<times> tx" where
  "persist_body env agent site score severity issues vulns t =
     (let (prevCount, t0) = previous_count env agent t
      in case reconcile_table env (\<lambda>db. open_keys agent (pd_issues db))
                (\<lambda>i db. db\<lparr>pd_issues := clear_row i (pd_issues db)\<rparr>) (insert_issue env agent site)
                (pe_issue_order env) (want_map iss_Code issues) False t0 of
           Inl e \<Rightarrow> Inl e
         | Inr (c1, t1) \<Rightarrow>
             (case reconcile_table env (\<lambda>db. open_keys agent (pd_vulns db))
                     (\<lambda>i db. db\<lparr>pd_vulns := clear_row i (pd_vulns db)\<rparr>) (insert_vuln env agent)
                     (pe_vuln_order env) (want_map vu_CVEID vulns) c1 t1 of
                Inl e \<Rightarrow> Inl e
              | Inr (c2, t2) \<Rightarrow>
                  (case tx_exec (pe_fault env)
                          (\<lambda>db. Inr (update_agent agent score severity (int (length issues)) (pe_now env) db)) t2 of
                     (Some e, _) \<Rightarrow> Inl e
                   | (None, t3) \<Rightarrow> Inr (c2 \<or> prevCount \<noteq> int (length issues), t3))))"

text \<open>Step 0 is BEGIN; the deferred rollback drops the copy unless the commit went through.\<close>

definition Persist :: "persist_env \<Rightarrow> uuid \<Rightarrow> uuid \<Rightarrow> f64 \<Rightarrow> string \<Rightarrow> issue list \<Rightarrow> vuln list \<Rightarrow> posture_db \<Rightarrow> (string + bool) \<times> posture_db" where
  "Persist env agent site score severity issues vulns db =
     (case pe_fault env 0 of Some e \<Rightarrow> (Inl e, db)
      | None \<Rightarrow>
         (case persist_body env agent site score severity issues vulns
                 \<lparr>tx_db = db, tx_step = 1, tx_aborted = False\<rparr> of
            Inl e \<Rightarrow> (Inl e, db)
          | Inr (changed, t) \<Rightarrow>
              (case tx_exec (pe_fault env) Inr t of
                 (Some e, _) \<Rightarrow> (Inl e, db)
               | (None, t') \<Rightarrow> (Inr changed, tx_db t'))))"

subsection \<open>Evaluate and persist\<close>

text \<open>The row \<open>agentevents.Emit\<close> inserts; an empty severity becomes info.\<close>

record system_event =
  ev_site :: uuid
  ev_agent :: uuid
  ev_kind :: string
  ev_severity :: string
  ev_title :: string
  ev_body :: string
  ev_meta :: "f64 \<times> string \<times> int"

definition Emit :: "bool \<Rightarrow> uuid \<Rightarrow> uuid \<Rightarrow> string \<Rightarrow> string \<Rightarrow> string \<Rightarrow> string \<Rightarrow> f64 \<times> string \<times> int \<Rightarrow> system_event list" where
  "Emit ok site agent kind sev title body meta =
     (if ok then [\<lparr>ev_site = site, ev_agent = agent, ev_kind = kind,
                   ev_severity = (if sev = [] then ''info'' else sev), ev_title = title, ev_body = body, ev_meta = meta\<rparr>]
      else [])"

definition EvaluateAndPersist :: "persist_env \<Rightarrow> uuid \<Rightarrow> uuid \<Rightarrow> signals \<Rightarrow> posture_db \<Rightarrow> string option \<times> posture_db \<times> system_event list" where
  "EvaluateAndPersist env agent site sig db =
     (case Evaluate sig of (score, severity, issues, vulns) \<Rightarrow>
        (case Persist env agent site score severity issues vulns db of
           (Inl e, db') \<Rightarrow> (Some e, db', [])
         | (Inr changed, db') \<Rightarrow>
             (None, db',
              if changed
              then Emit (pe_emit_ok env) site agent ''compliance.changed'' (mapSev severity) ''Compliance posture changed''
                     (itoa (int (length issues)) @ '' open issue(s); score '' @ formatScore score)
                     (score, severity, int (length issues))
              else [])))"

subsection \<open>Rows and the open view\<close>

text \<open>
  What the tables say: which agent has which open key, with which stored value. The constraints of
  the schema are \<open>rows_ok\<close>.
\<close>

definition open_list :: "'v open_row list \<Rightarrow> ((uuid \<times> string) \<times> 'v) list" where
  "open_list rows = map (\<lambda>r. ((pr_agent r, pr_key r), pr_val r)) (filter (\<lambda>r. \<not> pr_cleared r) rows)"

definition open_view :: "'v open_row list \<Rightarrow> uuid \<times> string \<Rightarrow> 'v option" where
  "open_view rows = map_of (open_list rows)"

definition rows_ok :: "'v open_row list \<Rightarrow> bool" where
  "rows_ok rows \<longleftrightarrow> distinct (map pr_id rows) \<and> distinct (map fst (open_list rows))"

lemma map_of_drop_key: "map_of (filter (\<lambda>(k, _). k \<noteq> x) l) = (map_of l)(x := None)"
  by (induction l) (auto simp: fun_eq_iff)

lemma keys_delete [simp]: "fst ` set (delete_key k m) = fst ` set m - {k}"
  by (force simp: delete_key_def)

lemma map_of_delete_key [simp]: "map_of (delete_key k m) = (map_of m)(k := None)"
  unfolding delete_key_def by (rule map_of_drop_key)

lemma distinct_delete_key: "distinct (map fst m) \<Longrightarrow> distinct (map fst (delete_key k m))"
  by (auto simp: delete_key_def distinct_map inj_on_def)

lemma open_list_append [simp]: "open_list (rows @ rows') = open_list rows @ open_list rows'"
  by (simp add: open_list_def)

lemma clear_row_ids [simp]: "map pr_id (clear_row i rows) = map pr_id rows"
  by (simp add: clear_row_def)

lemma open_list_unique:
  assumes "rows_ok rows" and "r \<in> set rows" "\<not> pr_cleared r" and "q \<in> set rows" "\<not> pr_cleared q"
  shows "pr_id q = pr_id r \<longleftrightarrow> (pr_agent q, pr_key q) = (pr_agent r, pr_key r)"
proof -
  have i: "inj_on pr_id (set rows)" using assms(1) by (simp add: rows_ok_def distinct_map)
  have k: "inj_on (\<lambda>r. (pr_agent r, pr_key r)) {r \<in> set rows. \<not> pr_cleared r}"
    using assms(1) by (simp add: rows_ok_def open_list_def distinct_map comp_def)
  show ?thesis using inj_onD [OF i] inj_onD [OF k] assms(2-) by blast
qed

lemma clear_row_open:
  assumes "rows_ok rows" and "r \<in> set rows" "\<not> pr_cleared r"
  shows "open_list (clear_row (pr_id r) rows)
    = filter (\<lambda>(k, _). k \<noteq> (pr_agent r, pr_key r)) (open_list rows)"
proof -
  have c: "filter (\<lambda>q. \<not> pr_cleared q) (clear_row i qs)
      = filter (\<lambda>q. pr_id q \<noteq> i) (filter (\<lambda>q. \<not> pr_cleared q) qs)" for i and qs :: "'a open_row list"
    by (induction qs) (auto simp: clear_row_def)
  have "filter (\<lambda>q. pr_id q \<noteq> pr_id r) (filter (\<lambda>q. \<not> pr_cleared q) rows)
      = filter (\<lambda>q. (pr_agent q, pr_key q) \<noteq> (pr_agent r, pr_key r)) (filter (\<lambda>q. \<not> pr_cleared q) rows)"
    by (rule filter_cong [OF refl]) (use open_list_unique [OF assms] in auto)
  then show ?thesis by (simp add: open_list_def c filter_map comp_def case_prod_beta)
qed

lemma rows_ok_clear:
  assumes "rows_ok rows" and "r \<in> set rows" "\<not> pr_cleared r"
  shows "rows_ok (clear_row (pr_id r) rows)"
    and "open_view (clear_row (pr_id r) rows) = (open_view rows)((pr_agent r, pr_key r) := None)"
  using assms(1) clear_row_open [OF assms]
  by (auto simp: rows_ok_def open_view_def map_of_drop_key distinct_map inj_on_def)

lemma open_row_clear_other:
  "r \<in> set rows \<Longrightarrow> pr_id r \<noteq> i \<Longrightarrow> r \<in> set (clear_row i rows)"
  by (force simp: clear_row_def)

lemma open_keys_view:
  "open_keys agent rows = map (\<lambda>r. (pr_id r, pr_key r)) (filter (\<lambda>r. pr_agent r = agent \<and> \<not> pr_cleared r) rows)"
  by (simp add: open_keys_def open_rows_def)

lemma keys_open_view: "k \<in> snd ` set (open_keys agent rows) \<longleftrightarrow> open_view rows (agent, k) \<noteq> None"
  by (force simp: open_keys_view open_view_def open_list_def map_of_eq_None_iff)

lemma insert_row_ok:
  assumes "insert_row check i agent key v rows = Inr rows'" and "rows_ok rows"
  shows "rows_ok rows'" and "open_view rows' = (open_view rows)((agent, key) \<mapsto> v)"
    and "set rows' = insert \<lparr>pr_id = i, pr_agent = agent, pr_key = key, pr_val = v, pr_cleared = False\<rparr> (set rows)"
proof -
  have i: "i \<notin> set (map pr_id rows)" and k: "key \<notin> set (map pr_key (open_rows agent rows))"
    and r: "rows' = rows @ [\<lparr>pr_id = i, pr_agent = agent, pr_key = key, pr_val = v, pr_cleared = False\<rparr>]"
    using assms(1) by (auto simp: insert_row_def split: if_splits)
  have f: "(agent, key) \<notin> fst ` set (open_list rows)"
    using k by (auto simp: open_list_def open_rows_def)
  then have n: "map_of (open_list rows) (agent, key) = None" by (simp add: map_of_eq_None_iff)
  have o: "open_list rows' = open_list rows @ [((agent, key), v)]" by (simp add: r) (simp add: open_list_def)
  show "open_view rows' = (open_view rows)((agent, key) \<mapsto> v)"
    using n by (auto simp: open_view_def o map_add_def fun_eq_iff split: option.splits)
  show "rows_ok rows'" using i f assms(2) unfolding rows_ok_def o by (simp add: r)
  show "set rows' = insert \<lparr>pr_id = i, pr_agent = agent, pr_key = key, pr_val = v, pr_cleared = False\<rparr> (set rows)"
    by (simp add: r)
qed

subsection \<open>A statement that did not abort took effect\<close>

lemma tx_exec_alive:
  assumes "\<not> tx_aborted (snd (tx_exec fault f t))"
  shows "fst (tx_exec fault f t) = None" and "\<not> tx_aborted t"
    and "f (tx_db t) = Inr (tx_db (snd (tx_exec fault f t)))"
  using assms by (auto simp: tx_exec_def Let_def split: if_splits option.splits sum.splits)

lemma tx_exec_None:
  assumes "tx_exec fault f t = (None, t')"
  shows "\<not> tx_aborted t" "\<not> tx_aborted t'" "f (tx_db t) = Inr (tx_db t')"
  using assms by (auto simp: tx_exec_def Let_def split: if_splits option.splits sum.splits)

lemma close_rows_aborted:
  "tx_aborted t \<Longrightarrow> tx_aborted (snd (snd (close_rows fault clr os want ch t)))"
proof (induction fault clr os want ch t rule: close_rows.induct)
  case (2 fault clr i k os want ch t)
  have "tx_aborted (snd (tx_exec fault (\<lambda>db. Inr (clr i db)) t))" using 2(3) tx_exec_alive(2) by blast
  then show ?case using 2 by (auto split: option.splits)
qed simp

lemma close_rows_want:
  "close_rows fault clr os want ch t = (want', ch', t') \<Longrightarrow> want' = filter (\<lambda>(k, _). k \<notin> snd ` set os) want"
proof (induction fault clr os want ch t rule: close_rows.induct)
  case (2 fault clr i k os want ch t)
  have "map_of want k = None \<Longrightarrow> filter (\<lambda>p. fst p \<noteq> k \<and> fst p \<notin> S) want = filter (\<lambda>p. fst p \<notin> S) want" for S
    by (rule filter_cong) (force simp: map_of_eq_None_iff)+
  then show ?case using 2 by (auto simp: delete_key_def case_prod_beta split: option.splits)
qed simp

lemma add_rows_alive:
  assumes "add_rows fault ins kvs ch t = Inr (ch', t')" and "\<not> tx_aborted t"
  shows "\<not> tx_aborted t'"
  using assms
  by (induction fault ins kvs ch t rule: add_rows.induct) (auto split: prod.splits option.splits dest: tx_exec_None)

lemma add_rows_aborted:
  assumes "add_rows fault ins kvs ch t = Inr (ch', t')" and "tx_aborted t"
  shows "tx_aborted t'"
  using assms
  by (induction fault ins kvs ch t rule: add_rows.induct) (auto split: prod.splits option.splits dest: tx_exec_None)

subsection \<open>The reconciliation contract\<close>

text \<open>
  The contract: after Persist the agent's open keys are the wanted ones, an open row keeps the value
  it has, a new one gets the last wanted value with its key; other agents' rows stay.
\<close>

definition reconciled ::
  "uuid \<Rightarrow> (string \<Rightarrow> 'v option) \<Rightarrow> (uuid \<times> string \<Rightarrow> 'v option) \<Rightarrow> uuid \<times> string \<Rightarrow> 'v option" where
  "reconciled agent wanted v x =
     (if fst x \<noteq> agent then v x
      else case wanted (snd x) of None \<Rightarrow> None
           | Some new \<Rightarrow> (case v x of None \<Rightarrow> Some new | Some old \<Rightarrow> Some old))"

lemma tx_view_split:
  assumes "(open_view rows') |` {x. fst x \<noteq> agent} = (open_view rows) |` {x. fst x \<noteq> agent}"
    and "(\<lambda>k. open_view rows' (agent, k)) = (\<lambda>k. case wanted k of None \<Rightarrow> None
           | Some v \<Rightarrow> (case open_view rows (agent, k) of None \<Rightarrow> Some v | Some old \<Rightarrow> Some old))"
  shows "open_view rows' = reconciled agent wanted (open_view rows)"
proof
  fix x
  show "open_view rows' x = reconciled agent wanted (open_view rows) x"
    using fun_cong [OF assms(1), of x] fun_cong [OF assms(2), of "snd x"]
    by (cases x) (auto simp: reconciled_def restrict_map_def split: if_splits option.splits)
qed

text \<open>
  Persist runs the same loop over two tables. What it needs of a table: \<open>clr\<close> clears the row with
  an id, \<open>ins\<close> adds an open row for the agent under the entry's key, and both leave the rest of the
  database (\<open>others\<close>) alone.
\<close>

locale open_table =
  fixes rows :: "posture_db \<Rightarrow> 'v open_row list"
    and others :: "posture_db \<Rightarrow> 'o"
    and clr :: "uuid \<Rightarrow> posture_db \<Rightarrow> posture_db"
    and ins :: "nat \<Rightarrow> string \<times> 'a \<Rightarrow> posture_db \<Rightarrow> string + posture_db"
    and agent :: uuid
    and key_of :: "'a \<Rightarrow> string"
    and stored :: "'a \<Rightarrow> 'v"
  assumes rows_clr: "rows (clr i db) = clear_row i (rows db)"
    and others_clr: "others (clr i db) = others db"
    and rows_ins: "ins n kv db = Inr db' \<Longrightarrow>
      \<exists>check i. insert_row check i agent (key_of (snd kv)) (stored (snd kv)) (rows db) = Inr (rows db')"
    and others_ins: "ins n kv db = Inr db' \<Longrightarrow> others db' = others db"
begin

definition view :: "tx \<Rightarrow> string \<Rightarrow> 'v option" where
  "view t k = open_view (rows (tx_db t)) (agent, k)"

definition elsewhere :: "tx \<Rightarrow> uuid \<times> string \<Rightarrow> 'v option" where
  "elsewhere t = (open_view (rows (tx_db t))) |` {x. fst x \<noteq> agent}"

lemma close_rows_effect:
  assumes "close_rows fault clr os want ch t = (want', ch', t')" and "\<not> tx_aborted t'"
    and "rows_ok (rows (tx_db t))" and "distinct (map snd os)"
    and "\<And>i k. (i, k) \<in> set os \<Longrightarrow> \<exists>r \<in> set (rows (tx_db t)). pr_id r = i \<and> pr_key r = k \<and> pr_agent r = agent \<and> \<not> pr_cleared r"
  shows "\<not> tx_aborted t \<and> rows_ok (rows (tx_db t')) \<and> others (tx_db t') = others (tx_db t) \<and>
    elsewhere t' = elsewhere t \<and>
    view t' = (\<lambda>k. if k \<in> snd ` set os \<and> map_of want k = None then None else view t k) \<and>
    map_of want' = (\<lambda>k. if k \<in> snd ` set os then None else map_of want k) \<and>
    (ch' \<longleftrightarrow> ch \<or> (\<exists>k \<in> snd ` set os. map_of want k = None))"
  using assms
proof (induction os arbitrary: want ch t)
  case (Cons x os)
  obtain i k where x: "x = (i, k)" by (cases x)
  obtain r where r: "r \<in> set (rows (tx_db t))" "\<not> pr_cleared r" "pr_id r = i" "pr_key r = k" "pr_agent r = agent"
    using Cons.prems(5) [of i k] x by auto
  have k: "k \<notin> snd ` set os" using Cons.prems(4) x by auto
  show ?case
  proof (cases "map_of want k")
    case None
    let ?t = "snd (tx_exec fault (\<lambda>db. Inr (clr i db)) t)"
    have c: "close_rows fault clr os want True ?t = (want', ch', t')" using Cons.prems(1) None x by simp
    then have al: "\<not> tx_aborted ?t" using close_rows_aborted [of ?t fault clr os want True] Cons.prems(2) by auto
    note e = tx_exec_alive [OF al]
    have d: "tx_db ?t = clr i (tx_db t)" using e(3) by simp
    have rw: "rows (tx_db ?t) = clear_row i (rows (tx_db t))" by (simp add: d rows_clr)
    note cl = rows_ok_clear [OF Cons.prems(3) r(1,2), unfolded r]
    have p: "\<exists>q \<in> set (rows (tx_db ?t)). pr_id q = i' \<and> pr_key q = k' \<and> pr_agent q = agent \<and> \<not> pr_cleared q"
      if m: "(i', k') \<in> set os" for i' k'
    proof -
      obtain q where q: "q \<in> set (rows (tx_db t))" "pr_id q = i'" "pr_key q = k'" "pr_agent q = agent" "\<not> pr_cleared q"
        using Cons.prems(5) [of i' k'] m by auto
      have "k' \<noteq> k" using k m by force
      then have "pr_id q \<noteq> i" using open_list_unique [OF Cons.prems(3) r(1,2) q(1,5)] q r by simp
      then show ?thesis using open_row_clear_other [OF q(1)] q rw by auto
    qed
    have "distinct (map snd os)" using Cons.prems(4) by simp
    from Cons.IH [OF c Cons.prems(2) _ this p] cl(1) rw
    have IH: "rows_ok (rows (tx_db t')) \<and> others (tx_db t') = others (tx_db ?t) \<and>
        elsewhere t' = elsewhere ?t \<and>
        view t' = (\<lambda>k. if k \<in> snd ` set os \<and> map_of want k = None then None else view ?t k) \<and>
        map_of want' = (\<lambda>k. if k \<in> snd ` set os then None else map_of want k) \<and> ch'" by simp
    have "elsewhere ?t = elsewhere t" by (auto simp: elsewhere_def rw cl(2) restrict_map_def fun_eq_iff)
    moreover have "view ?t = (view t)(k := None)" by (auto simp: view_def rw cl(2) fun_eq_iff)
    ultimately show ?thesis using IH e(2) None x by (auto simp: d others_clr fun_eq_iff)
  next
    case (Some v)
    have c: "close_rows fault clr os (delete_key k want) ch t = (want', ch', t')" using Cons.prems(1) Some x by simp
    from Cons.IH [OF c Cons.prems(2,3), unfolded map_of_delete_key] Cons.prems(4,5)
    have IH: "\<not> tx_aborted t \<and> rows_ok (rows (tx_db t')) \<and> others (tx_db t') = others (tx_db t) \<and>
        elsewhere t' = elsewhere t \<and>
        view t' = (\<lambda>k'. if k' \<in> snd ` set os \<and> ((map_of want)(k := None)) k' = None then None else view t k') \<and>
        map_of want' = (\<lambda>k'. if k' \<in> snd ` set os then None else ((map_of want)(k := None)) k') \<and>
        (ch' \<longleftrightarrow> ch \<or> (\<exists>k' \<in> snd ` set os. ((map_of want)(k := None)) k' = None))" by simp
    then show ?thesis using k Some x by (auto simp: fun_eq_iff)
  qed
qed auto

lemma add_rows_effect:
  assumes "add_rows fault ins kvs ch t = Inr (ch', t')" and "rows_ok (rows (tx_db t))"
    and "distinct (map fst kvs)" and "\<And>k v. (k, v) \<in> set kvs \<Longrightarrow> key_of v = k"
  shows "rows_ok (rows (tx_db t')) \<and> others (tx_db t') = others (tx_db t) \<and>
    elsewhere t' = elsewhere t \<and> view t' = view t ++ (\<lambda>k. map_option stored (map_of kvs k)) \<and>
    (ch' \<longleftrightarrow> ch \<or> kvs \<noteq> [])"
  using assms
proof (induction kvs arbitrary: ch t)
  case Nil then show ?case by (auto simp: map_add_def fun_eq_iff)
next
  case (Cons kv kvs)
  obtain k v where kv: "kv = (k, v)" by (cases kv)
  obtain t1 where e: "tx_exec fault (ins (tx_step t) kv) t = (None, t1)"
      and a: "add_rows fault ins kvs True t1 = Inr (ch', t')"
    using Cons.prems(1) by (auto split: prod.splits option.splits)
  note i = tx_exec_None(3) [OF e]
  from rows_ins [OF i] obtain check j
    where w: "insert_row check j agent (key_of v) (stored v) (rows (tx_db t)) = Inr (rows (tx_db t1))"
    by (auto simp: kv)
  have kk: "key_of v = k" using Cons.prems(4) kv by simp
  note n = insert_row_ok [OF w Cons.prems(2), unfolded kk]
  have "distinct (map fst kvs)" "\<And>k v. (k, v) \<in> set kvs \<Longrightarrow> key_of v = k" using Cons.prems(3,4) by auto
  from Cons.IH [OF a n(1) this]
  have IH: "rows_ok (rows (tx_db t')) \<and> others (tx_db t') = others (tx_db t1) \<and>
      elsewhere t' = elsewhere t1 \<and> view t' = view t1 ++ (\<lambda>k. map_option stored (map_of kvs k)) \<and> ch'" by simp
  have "elsewhere t1 = elsewhere t" by (auto simp: elsewhere_def n(2) restrict_map_def fun_eq_iff)
  moreover have "view t1 = (view t)(k \<mapsto> stored v)" by (auto simp: view_def n(2) fun_eq_iff)
  moreover have "map_of kvs k = None" using Cons.prems(3) kv by (simp add: map_of_eq_None_iff)
  ultimately show ?case using IH others_ins [OF i] kv
    by (auto simp: map_add_def fun_eq_iff split: option.splits)
qed

lemma reconcile_table_effect:
  assumes r: "reconcile_table env (\<lambda>db. open_keys agent (rows db)) clr ins order want ch t = Inr (ch', t')"
    and alive: "\<not> tx_aborted t'" and ok: "rows_ok (rows (tx_db t))"
    and scans: "\<forall>x \<in> set (open_keys agent (rows (tx_db t))). pe_scans env (fst x)"
    and order: "\<forall>m. mset (order m) = mset m"
    and want: "distinct (map fst want)" "\<forall>x \<in> set want. key_of (snd x) = fst x"
  shows "\<not> tx_aborted t \<and> rows_ok (rows (tx_db t')) \<and> others (tx_db t') = others (tx_db t) \<and>
    elsewhere t' = elsewhere t \<and>
    view t' = (\<lambda>k. case map_of want k of None \<Rightarrow> None
                   | Some v \<Rightarrow> (case view t k of None \<Rightarrow> Some (stored v) | Some old \<Rightarrow> Some old)) \<and>
    (ch' \<longleftrightarrow> ch \<or> dom (view t) \<noteq> fst ` set want)"
proof -
  obtain t1 where e: "tx_exec (pe_fault env) Inr t = (None, t1)"
    using r by (auto simp: reconcile_table_def split: prod.splits option.splits)
  have d: "tx_db t1 = tx_db t" "\<not> tx_aborted t" using tx_exec_None [OF e] by auto
  let ?os = "open_keys agent (rows (tx_db t))"
  have f: "filter (\<lambda>(i, _). pe_scans env i) ?os = ?os" using scans by (intro filter_True) (simp add: case_prod_beta)
  obtain want1 ch1 t2 where c: "close_rows (pe_fault env) clr ?os want ch t1 = (want1, ch1, t2)"
    by (metis prod.exhaust)
  have a: "add_rows (pe_fault env) ins (order want1) ch1 t2 = Inr (ch', t')"
    using r by (simp add: reconcile_table_def e d f c Let_def)
  have alive2: "\<not> tx_aborted t2" using add_rows_aborted [OF a] alive by blast
  have dk: "distinct (map snd ?os)"
    using ok by (auto simp: rows_ok_def open_list_def open_keys_view comp_def distinct_map inj_on_def)
  have rr: "\<exists>r \<in> set (rows (tx_db t1)). pr_id r = i \<and> pr_key r = k \<and> pr_agent r = agent \<and> \<not> pr_cleared r"
    if "(i, k) \<in> set ?os" for i k using that by (auto simp: open_keys_view d)
  have e1: "view t1 = view t" "elsewhere t1 = elsewhere t" by (simp_all add: view_def elsewhere_def d fun_eq_iff)
  note C = close_rows_effect [OF c alive2 _ dk rr, unfolded d, OF ok]
  have dom: "k \<in> snd ` set ?os \<longleftrightarrow> view t k \<noteq> None" for k by (simp add: keys_open_view view_def)
  have w1: "want1 = filter (\<lambda>(k, _). k \<notin> snd ` set ?os) want"
    using c unfolding d(1) [symmetric]
    by (rule close_rows_want)
  have m: "mset (order want1) = mset want1" using order by blast
  have "distinct (map fst want1)" using want(1) by (auto simp: w1 distinct_map inj_on_def)
  then have dw: "distinct (map fst (order want1))" using m by (metis mset_eq_imp_distinct_iff mset_map)
  have sw: "set (order want1) = set want1" using m by (metis set_mset_mset)
  have mo: "map_of (order want1) = map_of want1"
    using dw m by (intro map_of_inject_set [THEN iffD2]) (auto simp: sw \<open>distinct (map fst want1)\<close>)
  have "key_of v = k" if "(k, v) \<in> set (order want1)" for k v
    using that want(2) unfolding sw by (auto simp: w1)
  note A = add_rows_effect [OF a _ dw this]
  have "order want1 \<noteq> [] \<longleftrightarrow> want1 \<noteq> []" using m by (metis mset_zero_iff)
  also have "\<dots> \<longleftrightarrow> (\<exists>k \<in> fst ` set want. view t k = None)"
    unfolding w1 dom by (auto simp: filter_empty_conv) force
  finally have ne: "order want1 \<noteq> [] \<longleftrightarrow> (\<exists>k \<in> fst ` set want. view t k = None)" .
  have C1: "rows_ok (rows (tx_db t2)) \<and> others (tx_db t2) = others (tx_db t) \<and> elsewhere t2 = elsewhere t"
    and v2: "view t2 = (\<lambda>k. if k \<in> snd ` set ?os \<and> map_of want k = None then None else view t k)"
    and mw: "map_of want1 = (\<lambda>k. if k \<in> snd ` set ?os then None else map_of want k)"
    and c1: "ch1 \<longleftrightarrow> ch \<or> (\<exists>k \<in> snd ` set ?os. map_of want k = None)"
    using C unfolding e1 by simp_all
  note A = A [OF conjunct1 [OF C1]]
  have "view t' k = (case map_of want k of None \<Rightarrow> None
      | Some v \<Rightarrow> (case view t k of None \<Rightarrow> Some (stored v) | Some old \<Rightarrow> Some old))" for k
    using A unfolding mo mw v2 dom
    by (cases "map_of want k"; cases "view t k") (auto simp: map_add_def)
  moreover have "ch' \<longleftrightarrow> ch \<or> dom (view t) \<noteq> fst ` set want"
  proof -
    have S: "snd ` set ?os = dom (view t)" using dom by auto
    have "(\<exists>k \<in> snd ` set ?os. map_of want k = None) \<longleftrightarrow> \<not> dom (view t) \<subseteq> fst ` set want"
      unfolding S by (auto simp: map_of_eq_None_iff)
    moreover have "(\<exists>k \<in> fst ` set want. view t k = None) \<longleftrightarrow> \<not> fst ` set want \<subseteq> dom (view t)"
      unfolding subset_iff domIff by metis
    moreover have "ch' \<longleftrightarrow> ch1 \<or> order want1 \<noteq> []" using A by simp
    ultimately show ?thesis unfolding c1 ne set_eq_subset by argo
  qed
  ultimately show ?thesis using A C1 d(2) by (simp add: fun_eq_iff)
qed

lemma reconcile_table_abstract:
  assumes r: "reconcile_table env (\<lambda>db. open_keys agent (rows db)) clr ins order want ch t = Inr (ch', t')"
    and alive: "\<not> tx_aborted t'" and ok: "rows_ok (rows (tx_db t))"
    and scans: "\<forall>x \<in> set (open_keys agent (rows (tx_db t))). pe_scans env (fst x)"
    and order: "\<forall>m. mset (order m) = mset m"
    and want: "distinct (map fst want)" "\<forall>x \<in> set want. key_of (snd x) = fst x"
  shows "rows_ok (rows (tx_db t')) \<and> others (tx_db t') = others (tx_db t) \<and>
    open_view (rows (tx_db t')) = reconciled agent (\<lambda>k. map_option stored (map_of want k)) (open_view (rows (tx_db t))) \<and>
    (ch' \<longleftrightarrow> ch \<or> snd ` set (open_keys agent (rows (tx_db t))) \<noteq> fst ` set want)"
proof -
  note R = reconcile_table_effect [OF assms]
  have S: "snd ` set (open_keys agent (rows (tx_db t))) = dom (view t)"
    by (rule set_eqI) (simp add: keys_open_view view_def dom_def)
  have "open_view (rows (tx_db t')) = reconciled agent (\<lambda>k. map_option stored (map_of want k)) (open_view (rows (tx_db t)))"
  proof (rule tx_view_split)
    show "open_view (rows (tx_db t')) |` {x. fst x \<noteq> agent} = open_view (rows (tx_db t)) |` {x. fst x \<noteq> agent}"
      using R by (simp add: elsewhere_def)
    have "view t' = (\<lambda>k. case map_option stored (map_of want k) of None \<Rightarrow> None
        | Some v \<Rightarrow> (case view t k of None \<Rightarrow> Some v | Some old \<Rightarrow> Some old))"
      using R by (auto simp: fun_eq_iff split: option.splits)
    then show "(\<lambda>k. open_view (rows (tx_db t')) (agent, k)) = (\<lambda>k. case map_option stored (map_of want k) of None \<Rightarrow> None
        | Some v \<Rightarrow> (case open_view (rows (tx_db t)) (agent, k) of None \<Rightarrow> Some v | Some old \<Rightarrow> Some old))"
      by (auto simp: view_def fun_eq_iff split: option.splits)
  qed
  then show ?thesis using R S by simp
qed

end

interpretation issue_table: open_table pd_issues "\<lambda>db. (pd_agents db, pd_vulns db)"
    "\<lambda>i db. db\<lparr>pd_issues := clear_row i (pd_issues db)\<rparr>" "insert_issue env agent site" agent iss_Code
    "\<lambda>iss. (site, iss\<lparr>iss_Severity := normalizeSev (iss_Severity iss)\<rparr>)"
  for env agent site
  by unfold_locales (auto simp: insert_issue_def split: sum.splits, blast)

interpretation vuln_table: open_table pd_vulns "\<lambda>db. (pd_agents db, pd_issues db)"
    "\<lambda>i db. db\<lparr>pd_vulns := clear_row i (pd_vulns db)\<rparr>" "insert_vuln env agent" agent vu_CVEID
    "\<lambda>v. v\<lparr>vu_Severity := normalizeSev (vu_Severity v)\<rparr>"
  for env agent
  by unfold_locales (auto simp: insert_vuln_def split: sum.splits, blast)

subsection \<open>The wanted rows\<close>

lemma want_map_props:
  "distinct (map fst (want_map key xs)) \<and> set (want_map key xs) \<subseteq> (\<lambda>x. (key x, x)) ` set xs \<and>
   map_of (want_map key xs) = (\<lambda>k. find (\<lambda>x. key x = k) (rev xs)) \<and>
   fst ` set (want_map key xs) = key ` set xs"
proof (induction xs rule: rev_induct)
  case Nil then show ?case by (simp add: want_map_def)
next
  case (snoc x xs)
  let ?m = "want_map key xs"
  have u: "want_map key (xs @ [x]) = upsert (key x) x (\<lambda>_. x) ?m" by (simp add: want_map_def)
  have s: "set (upsert k v (\<lambda>_. v) m) \<subseteq> insert (k, v) (set m)" for k v and m :: "(string \<times> 'a) list"
    by (induction k v "\<lambda>_ :: 'a. v" m rule: upsert.induct) auto
  show ?case
    using snoc s [of "key x" x ?m] by (auto simp: u distinct_upsert map_of_upsert keys_upsert fun_eq_iff)
qed

definition envs_ok :: "persist_env \<Rightarrow> uuid \<Rightarrow> posture_db \<Rightarrow> bool" where
  "envs_ok env agent db \<longleftrightarrow>
     (\<forall>x \<in> set (open_keys agent (pd_issues db) @ open_keys agent (pd_vulns db)). pe_scans env (fst x)) \<and>
     (\<forall>m. mset (pe_issue_order env m) = mset m) \<and> (\<forall>m. mset (pe_vuln_order env m) = mset m)"

definition posture_ok :: "posture_db \<Rightarrow> bool" where
  "posture_ok db \<longleftrightarrow> rows_ok (pd_issues db) \<and> rows_ok (pd_vulns db)"

definition wanted_issues :: "uuid \<Rightarrow> issue list \<Rightarrow> string \<Rightarrow> (uuid \<times> issue) option" where
  "wanted_issues site issues k =
     map_option (\<lambda>iss. (site, iss\<lparr>iss_Severity := normalizeSev (iss_Severity iss)\<rparr>))
       (find (\<lambda>iss. iss_Code iss = k) (rev issues))"

definition wanted_vulns :: "vuln list \<Rightarrow> string \<Rightarrow> vuln option" where
  "wanted_vulns vulns k =
     map_option (\<lambda>v. v\<lparr>vu_Severity := normalizeSev (vu_Severity v)\<rparr>) (find (\<lambda>v. vu_CVEID v = k) (rev vulns))"

definition previous :: "uuid \<Rightarrow> posture_db \<Rightarrow> int" where
  "previous agent db = (case pd_agents db agent of None \<Rightarrow> 0 | Some a \<Rightarrow> ag_count a)"

lemma persist_effect:
  assumes p: "Persist env agent site score severity issues vulns db = (Inr changed, db')"
    and ok: "posture_ok db" and env: "envs_ok env agent db"
  shows "posture_ok db' \<and>
    open_view (pd_issues db') = reconciled agent (wanted_issues site issues) (open_view (pd_issues db)) \<and>
    open_view (pd_vulns db') = reconciled agent (wanted_vulns vulns) (open_view (pd_vulns db)) \<and>
    pd_agents db' = pd_agents (update_agent agent score severity (int (length issues)) (pe_now env) db) \<and>
    (changed \<longleftrightarrow>
       snd ` set (open_keys agent (pd_issues db)) \<noteq> iss_Code ` set issues \<or>
       snd ` set (open_keys agent (pd_vulns db)) \<noteq> vu_CVEID ` set vulns \<or>
       previous agent db \<noteq> int (length issues))"
proof -
  let ?t = "\<lparr>tx_db = db, tx_step = 1, tx_aborted = False\<rparr>"
  obtain prev t0 where q: "previous_count env agent ?t = (prev, t0)" by (metis prod.exhaust)
  obtain t3 t4 where b: "persist_body env agent site score severity issues vulns ?t = Inr (changed, t3)"
      and e4: "tx_exec (pe_fault env) Inr t3 = (None, t4)" and db': "db' = tx_db t4"
    using p by (auto simp: Persist_def split: option.splits sum.splits prod.splits)
  obtain c1 t1 c2 t2 where
      r1: "reconcile_table env (\<lambda>db. open_keys agent (pd_issues db))
        (\<lambda>i db. db\<lparr>pd_issues := clear_row i (pd_issues db)\<rparr>) (insert_issue env agent site)
        (pe_issue_order env) (want_map iss_Code issues) False t0 = Inr (c1, t1)"
    and r2: "reconcile_table env (\<lambda>db. open_keys agent (pd_vulns db))
        (\<lambda>i db. db\<lparr>pd_vulns := clear_row i (pd_vulns db)\<rparr>) (insert_vuln env agent)
        (pe_vuln_order env) (want_map vu_CVEID vulns) c1 t1 = Inr (c2, t2)"
    and e3: "tx_exec (pe_fault env)
        (\<lambda>db. Inr (update_agent agent score severity (int (length issues)) (pe_now env) db)) t2 = (None, t3)"
    and ch: "changed \<longleftrightarrow> c2 \<or> prev \<noteq> int (length issues)"
    using b unfolding persist_body_def q Let_def
    by (auto split: option.splits sum.splits prod.splits)
  note al2 = tx_exec_None(1) [OF e3]
  have al1: "\<not> tx_aborted t1" using r2 tx_exec_None(1)
    by (fastforce simp: reconcile_table_def split: prod.splits option.splits)
  have al0: "\<not> tx_aborted t0" using r1 tx_exec_None(1)
    by (fastforce simp: reconcile_table_def split: prod.splits option.splits)
  have t0: "tx_db t0 = db \<and> prev = previous agent db"
    using q al0 tx_exec_alive(3) [of "pe_fault env" Inr ?t] tx_exec_alive(1) [of "pe_fault env" Inr ?t]
    by (auto simp: previous_count_def previous_def split: prod.splits option.splits)
  have d4: "db' = update_agent agent score severity (int (length issues)) (pe_now env) (tx_db t2)"
    using tx_exec_None(3) [OF e3] tx_exec_None(3) [OF e4] db' by simp
  have sc: "\<forall>x \<in> set (open_keys agent (pd_issues db)). pe_scans env (fst x)"
      "\<forall>x \<in> set (open_keys agent (pd_vulns db)). pe_scans env (fst x)"
    and o: "\<forall>m. mset (pe_issue_order env m) = mset m" "\<forall>m. mset (pe_vuln_order env m) = mset m"
    using env by (auto simp: envs_ok_def)
  have ok12: "rows_ok (pd_issues db)" "rows_ok (pd_vulns db)" using ok by (auto simp: posture_ok_def)
  note w1 = want_map_props [of iss_Code issues] and w2 = want_map_props [of vu_CVEID vulns]
  have k1: "\<forall>x \<in> set (want_map iss_Code issues). iss_Code (snd x) = fst x" using w1 by auto
  have k2: "\<forall>x \<in> set (want_map vu_CVEID vulns). vu_CVEID (snd x) = fst x" using w2 by auto
  have R1: "rows_ok (pd_issues (tx_db t1)) \<and> pd_agents (tx_db t1) = pd_agents db \<and> pd_vulns (tx_db t1) = pd_vulns db \<and>
      open_view (pd_issues (tx_db t1)) = reconciled agent (wanted_issues site issues) (open_view (pd_issues db)) \<and>
      (c1 \<longleftrightarrow> snd ` set (open_keys agent (pd_issues db)) \<noteq> iss_Code ` set issues)"
    using issue_table.reconcile_table_abstract [OF r1 al1 _ _ o(1) conjunct1 [OF w1] k1, unfolded conjunct1 [OF t0], OF ok12(1) sc(1)]
      w1 by (simp add: wanted_issues_def [abs_def])
  have R2: "rows_ok (pd_vulns (tx_db t2)) \<and> pd_agents (tx_db t2) = pd_agents db \<and> pd_issues (tx_db t2) = pd_issues (tx_db t1) \<and>
      open_view (pd_vulns (tx_db t2)) = reconciled agent (wanted_vulns vulns) (open_view (pd_vulns db)) \<and>
      (c2 \<longleftrightarrow> c1 \<or> snd ` set (open_keys agent (pd_vulns db)) \<noteq> vu_CVEID ` set vulns)"
    using vuln_table.reconcile_table_abstract [OF r2 al2 _ _ o(2) conjunct1 [OF w2] k2] R1 ok12(2) sc(2)
      w2 by (simp add: wanted_vulns_def [abs_def])
  show ?thesis
    using R1 R2 ch t0 unfolding d4 by (auto simp: posture_ok_def update_agent_def split: option.splits)
qed

lemma close_rows_alive:
  "close_rows (\<lambda>_. None) clr os want ch t = (want', ch', t') \<Longrightarrow> \<not> tx_aborted t \<Longrightarrow> \<not> tx_aborted t'"
proof (induction os arbitrary: want ch t)
  case (Cons x os)
  then show ?case by (cases x) (auto simp: tx_exec_def Let_def split: option.splits)
qed simp

lemma reconcile_alive:
  assumes "pe_fault env = (\<lambda>_. None)"
    and "reconcile_table env query clr ins order want ch t = Inr (ch', t')" and "\<not> tx_aborted t"
  shows "\<not> tx_aborted t'"
  using assms
  by (auto simp: reconcile_table_def Let_def split: prod.splits option.splits
      dest!: add_rows_alive dest: close_rows_alive tx_exec_None)

subsection \<open>Without faults the transaction goes through\<close>

locale open_table_total = open_table +
  fixes new_id :: "nat \<Rightarrow> uuid"
    and good :: "'c \<Rightarrow> bool"
  assumes ins_ids: "ins n kv db = Inr db' \<Longrightarrow> map pr_id (rows db') = map pr_id (rows db) @ [new_id n]"
    and ins_total: "good (snd kv) \<Longrightarrow> new_id n \<notin> pr_id ` set (rows db) \<Longrightarrow>
      open_view (rows db) (agent, key_of (snd kv)) = None \<Longrightarrow> \<exists>db'. ins n kv db = Inr db'"
begin

lemma close_rows_no_fault:
  "close_rows (\<lambda>_. None) clr os want ch t = (want', ch', t') \<Longrightarrow> \<not> tx_aborted t \<Longrightarrow>
   \<not> tx_aborted t' \<and> map pr_id (rows (tx_db t')) = map pr_id (rows (tx_db t))"
proof (induction os arbitrary: want ch t)
  case (Cons x os)
  then show ?case
    by (cases x) (auto simp: tx_exec_def Let_def rows_clr split: option.splits)
qed simp

lemma add_rows_total:
  assumes "\<not> tx_aborted t" and "inj new_id"
    and "\<And>n. tx_step t \<le> n \<Longrightarrow> new_id n \<notin> pr_id ` set (rows (tx_db t))" and "rows_ok (rows (tx_db t))"
    and "distinct (map fst kvs)"
    and "\<And>k v. (k, v) \<in> set kvs \<Longrightarrow> good v \<and> key_of v = k \<and> view t k = None"
  shows "\<exists>ch' t'. add_rows (\<lambda>_. None) ins kvs ch t = Inr (ch', t')"
  using assms
proof (induction kvs arbitrary: ch t)
  case (Cons kv kvs)
  obtain k v where kv: "kv = (k, v)" by (cases kv)
  have g: "good v" "key_of v = k" "view t k = None" using Cons.prems(6) kv by auto
  obtain db' where i: "ins (tx_step t) kv (tx_db t) = Inr db'"
    using ins_total [of kv "tx_step t" "tx_db t"] g Cons.prems(3) by (auto simp: kv view_def)
  let ?t = "t\<lparr>tx_step := Suc (tx_step t), tx_db := db'\<rparr>"
  have e: "tx_exec (\<lambda>_. None) (ins (tx_step t) kv) t = (None, ?t)"
    using Cons.prems(1) i by (simp add: tx_exec_def Let_def)
  from rows_ins [OF i] obtain check j
    where w: "insert_row check j agent k (stored v) (rows (tx_db t)) = Inr (rows db')" by (auto simp: kv g)
  note n = insert_row_ok [OF w Cons.prems(4)]
  have ids: "pr_id ` set (rows db') = insert (new_id (tx_step t)) (pr_id ` set (rows (tx_db t)))"
    using arg_cong [OF ins_ids [OF i], of set] by simp
  have "new_id n \<notin> pr_id ` set (rows db')" if "Suc (tx_step t) \<le> n" for n
    using that Cons.prems(3) [of n] injD [OF Cons.prems(2), of n "tx_step t"] by (auto simp: ids)
  moreover have "good v' \<and> key_of v' = k' \<and> view ?t k' = None" if "(k', v') \<in> set kvs" for k' v'
  proof -
    have "k' \<noteq> k" using that Cons.prems(5) kv by force
    then show ?thesis using Cons.prems(6) [of k' v'] that by (simp add: view_def n(2))
  qed
  ultimately have "\<exists>ch' t'. add_rows (\<lambda>_. None) ins kvs True ?t = Inr (ch', t')"
    using Cons.prems(1,2,5) n(1) by (intro Cons.IH) auto
  then show ?case by (simp add: e)
qed simp

lemma reconcile_table_total:
  assumes fault: "pe_fault env = (\<lambda>_. None)" and alive: "\<not> tx_aborted t" and inj: "inj new_id"
    and fresh: "\<And>n. new_id n \<notin> pr_id ` set (rows (tx_db t))" and ok: "rows_ok (rows (tx_db t))"
    and scans: "\<forall>x \<in> set (open_keys agent (rows (tx_db t))). pe_scans env (fst x)"
    and order: "\<forall>m. mset (order m) = mset m"
    and want: "distinct (map fst want)" "\<forall>x \<in> set want. good (snd x) \<and> key_of (snd x) = fst x"
  shows "\<exists>ch' t'. reconcile_table env (\<lambda>db. open_keys agent (rows db)) clr ins order want ch t = Inr (ch', t')"
proof -
  let ?os = "open_keys agent (rows (tx_db t))" and ?t = "t\<lparr>tx_step := Suc (tx_step t)\<rparr>"
  have e: "tx_exec (pe_fault env) Inr t = (None, ?t)" using alive by (simp add: fault tx_exec_def Let_def)
  have f: "filter (\<lambda>(i, _). pe_scans env i) ?os = ?os" using scans by (intro filter_True) (simp add: case_prod_beta)
  obtain want1 ch1 t2 where c: "close_rows (pe_fault env) clr ?os want ch ?t = (want1, ch1, t2)"
    by (metis prod.exhaust)
  have al: "\<not> tx_aborted t2" and ids: "map pr_id (rows (tx_db t2)) = map pr_id (rows (tx_db t))"
    using close_rows_no_fault [OF c [unfolded fault]] alive by simp_all
  have dk: "distinct (map snd ?os)"
    using ok by (auto simp: rows_ok_def open_list_def open_keys_view comp_def distinct_map inj_on_def)
  have rr: "\<exists>r \<in> set (rows (tx_db ?t)). pr_id r = i \<and> pr_key r = k \<and> pr_agent r = agent \<and> \<not> pr_cleared r"
    if "(i, k) \<in> set ?os" for i k using that by (auto simp: open_keys_view)
  have C: "rows_ok (rows (tx_db t2)) \<and> view t2 = (\<lambda>k. if k \<in> snd ` set ?os \<and> map_of want k = None then None else view ?t k)"
    using close_rows_effect [OF c al _ dk rr] ok by simp
  have w1: "want1 = filter (\<lambda>(k, _). k \<notin> snd ` set ?os) want" using c by (rule close_rows_want)
  have m: "mset (order want1) = mset want1" using order by blast
  have "distinct (map fst want1)" using want(1) by (auto simp: w1 distinct_map inj_on_def)
  then have dw: "distinct (map fst (order want1))" using m by (metis mset_eq_imp_distinct_iff mset_map)
  have sw: "set (order want1) = set want1" using m by (metis set_mset_mset)
  have "good v \<and> key_of v = k \<and> view t2 k = None" if "(k, v) \<in> set (order want1)" for k v
  proof -
    have "k \<notin> snd ` set ?os" "(k, v) \<in> set want" using that unfolding sw by (auto simp: w1)
    then show ?thesis using C want(2) keys_open_view [of k agent "rows (tx_db t)"] by (auto simp: view_def)
  qed
  moreover have "new_id n \<notin> pr_id ` set (rows (tx_db t2))" for n
    using fresh [of n] arg_cong [OF ids, of set] by simp
  ultimately have "\<exists>ch' t'. add_rows (\<lambda>_. None) ins (order want1) ch1 t2 = Inr (ch', t')"
    using C al inj dw by (intro add_rows_total) auto
  then show ?thesis by (simp add: reconcile_table_def e f c Let_def) (simp add: fault)
qed

end

lemma normalizeSev_stored: "normalizeSev s \<in> set stored_severities"
  by (simp add: normalizeSev_def stored_severities_def Let_def)

lemma insert_row_total:
  "check v \<Longrightarrow> i \<notin> pr_id ` set rows \<Longrightarrow> open_view rows (agent, key) = None \<Longrightarrow>
   \<exists>rows'. insert_row check i agent key v rows = Inr rows'"
  using keys_open_view [of key agent rows] by (auto simp: insert_row_def open_keys_def image_image)

lemma insert_row_ids: "insert_row check i agent key v rows = Inr rows' \<Longrightarrow> map pr_id rows' = map pr_id rows @ [i]"
  by (auto simp: insert_row_def split: if_splits)

definition good_issue :: "issue \<Rightarrow> bool" where
  "good_issue iss \<longleftrightarrow> iss_Category iss \<in> set [''patch'', ''misconfig'', ''vulnerability'', ''policy'']"

interpretation issue_table: open_table_total pd_issues "\<lambda>db. (pd_agents db, pd_vulns db)"
    "\<lambda>i db. db\<lparr>pd_issues := clear_row i (pd_issues db)\<rparr>" "insert_issue env agent site" agent iss_Code
    "\<lambda>iss. (site, iss\<lparr>iss_Severity := normalizeSev (iss_Severity iss)\<rparr>)" "pe_new_id env" good_issue
  for env agent site
proof (unfold_locales, goal_cases)
  case (1 n kv db db') then show ?case by (auto simp: insert_issue_def insert_row_ids split: sum.splits)
next
  case (2 kv n db)
  have "issue_check (site, (snd kv)\<lparr>iss_Severity := normalizeSev (iss_Severity (snd kv))\<rparr>)"
    using 2(1) normalizeSev_stored by (simp add: issue_check_def good_issue_def)
  then show ?case using insert_row_total [OF _ 2(2,3)] by (fastforce simp: insert_issue_def)
qed

interpretation vuln_table: open_table_total pd_vulns "\<lambda>db. (pd_agents db, pd_issues db)"
    "\<lambda>i db. db\<lparr>pd_vulns := clear_row i (pd_vulns db)\<rparr>" "insert_vuln env agent" agent vu_CVEID
    "\<lambda>v. v\<lparr>vu_Severity := normalizeSev (vu_Severity v)\<rparr>" "pe_new_id env" "\<lambda>_. True"
  for env agent
proof (unfold_locales, goal_cases)
  case (1 n kv db db') then show ?case by (auto simp: insert_vuln_def insert_row_ids split: sum.splits)
next
  case (2 kv n db)
  have "vuln_check ((snd kv)\<lparr>vu_Severity := normalizeSev (vu_Severity (snd kv))\<rparr>)"
    using normalizeSev_stored by (simp add: vuln_check_def)
  then show ?case using insert_row_total [OF _ 2(2,3)] by (fastforce simp: insert_vuln_def)
qed

lemma persist_total:
  assumes fault: "pe_fault env = (\<lambda>_. None)" and inj: "inj (pe_new_id env)"
    and fresh: "\<And>n. pe_new_id env n \<notin> pr_id ` set (pd_issues db)" "\<And>n. pe_new_id env n \<notin> pr_id ` set (pd_vulns db)"
    and ok: "posture_ok db" and env: "envs_ok env agent db" and good: "\<forall>iss \<in> set issues. good_issue iss"
  shows "\<exists>changed db'. Persist env agent site score severity issues vulns db = (Inr changed, db')"
proof -
  let ?t = "\<lparr>tx_db = db, tx_step = 1, tx_aborted = False\<rparr>" and ?u = "\<lparr>tx_db = db, tx_step = Suc 1, tx_aborted = False\<rparr>"
  have q: "previous_count env agent ?t = (previous agent db, ?u)"
    by (simp add: previous_count_def previous_def tx_exec_def fault Let_def)
  note w1 = want_map_props [of iss_Code issues] and w2 = want_map_props [of vu_CVEID vulns]
  have sc: "\<forall>x \<in> set (open_keys agent (pd_issues db)). pe_scans env (fst x)"
      "\<forall>x \<in> set (open_keys agent (pd_vulns db)). pe_scans env (fst x)"
    and o: "\<forall>m. mset (pe_issue_order env m) = mset m" "\<forall>m. mset (pe_vuln_order env m) = mset m"
    using env by (auto simp: envs_ok_def)
  have ok12: "rows_ok (pd_issues db)" "rows_ok (pd_vulns db)" using ok by (auto simp: posture_ok_def)
  have g1: "\<forall>x \<in> set (want_map iss_Code issues). good_issue (snd x) \<and> iss_Code (snd x) = fst x" using w1 good by fastforce
  have g2: "\<forall>x \<in> set (want_map vu_CVEID vulns). True \<and> vu_CVEID (snd x) = fst x" using w2 by auto
  obtain c1 t1 where r1: "reconcile_table env (\<lambda>db. open_keys agent (pd_issues db))
        (\<lambda>i db. db\<lparr>pd_issues := clear_row i (pd_issues db)\<rparr>) (insert_issue env agent site)
        (pe_issue_order env) (want_map iss_Code issues) False ?u = Inr (c1, t1)"
    using issue_table.reconcile_table_total [where t = ?u and ch = False and agent = agent and site = site,
        OF fault _ inj _ _ _ o(1) conjunct1 [OF w1] g1] fresh(1) ok12(1) sc(1) by auto
  have al1: "\<not> tx_aborted t1" using reconcile_alive [OF fault r1] by simp
  have v1: "pd_vulns (tx_db t1) = pd_vulns db"
    using issue_table.reconcile_table_abstract [OF r1 al1 _ _ o(1) conjunct1 [OF w1]] g1 ok12(1) sc(1) by auto
  obtain c2 t2 where r2: "reconcile_table env (\<lambda>db. open_keys agent (pd_vulns db))
        (\<lambda>i db. db\<lparr>pd_vulns := clear_row i (pd_vulns db)\<rparr>) (insert_vuln env agent)
        (pe_vuln_order env) (want_map vu_CVEID vulns) c1 t1 = Inr (c2, t2)"
    using vuln_table.reconcile_table_total [where ch = c1 and agent = agent,
        OF fault al1 inj _ _ _ o(2) conjunct1 [OF w2] g2] fresh(2) ok12(2) sc(2) v1 by auto
  have al2: "\<not> tx_aborted t2" using reconcile_alive [OF fault r2 al1] .
  show ?thesis
    using al2 by (simp add: Persist_def fault persist_body_def q r1 r2 tx_exec_def Let_def del: One_nat_def Suc_1)
qed

lemma evaluated_issues_good: "\<forall>iss \<in> set (all_issues sig). good_issue iss"
proof
  fix iss assume "iss \<in> set (all_issues sig)"
  then consider "iss \<in> set (reboot_issues sig @ patch_issues sig @ posture_issues sig)"
    | x where "x \<in> set (kb_found sig @ app_found sig)" "iss = snd x"
    by (auto simp: all_issues_def)
  then show "good_issue iss"
  proof cases
    case 1 from plain_category [OF this] show ?thesis by (auto simp: good_issue_def)
  next
    case 2 then show ?thesis using found_shape [OF 2(1)] by (simp add: good_issue_def)
  qed
qed

lemma reconciled_twice: "reconciled agent w (reconciled agent w v) = reconciled agent w v"
  by (auto simp: reconciled_def fun_eq_iff split: option.splits)

lemma reconciled_keys:
  assumes "open_view rows = reconciled agent w v"
  shows "snd ` set (open_keys agent rows) = dom w"
  by (rule set_eqI) (auto simp: keys_open_view assms reconciled_def split: option.splits)

lemma wanted_dom: "dom (wanted_issues site issues) = iss_Code ` set issues" "dom (wanted_vulns vulns) = vu_CVEID ` set vulns"
  by (force simp: wanted_issues_def wanted_vulns_def dom_def find_None_iff)+

lemma evaluate_persist_cases:
  assumes "EvaluateAndPersist env agent site sig db = (None, db', events)"
    and "Evaluate sig = (score, severity, issues, vulns)"
  obtains changed where "Persist env agent site score severity issues vulns db = (Inr changed, db')"
    and "events \<noteq> [] \<Longrightarrow> changed"
  using assms by (auto simp: EvaluateAndPersist_def Emit_def split: prod.splits sum.splits if_splits)

subsection \<open>Properties\<close>

text \<open>A concrete database, environment and signal set for the witnesses.\<close>

definition demo_env :: persist_env where
  "demo_env = \<lparr>pe_fault = (\<lambda>_. None), pe_scans = (\<lambda>_. True), pe_new_id = (\<lambda>n. ''new-'' @ replicate n (CHR ''x'')),
     pe_issue_order = (\<lambda>m. m), pe_vuln_order = rev, pe_now = 1000, pe_emit_ok = True\<rparr>"

definition demo_signals :: signals where
  "demo_signals = \<lparr>sg_PendingReboot = True, sg_MissingPatchCount = 0, sg_Patches = [], sg_Apps = [],
     sg_Win11Eligible = None, sg_SecureBoot = None, sg_EDRProducts = [], sg_LastSeenAge = 0, sg_OS = ''linux''\<rparr>"

definition demo_db :: posture_db where
  "demo_db = \<lparr>pd_agents = [''a'' \<mapsto> \<lparr>ag_score = None, ag_severity = None, ag_count = 0, ag_at = None\<rparr>],
     pd_issues = [\<lparr>pr_id = ''1'', pr_agent = ''a'', pr_key = ''edr_missing'',
        pr_val = (''s'', \<lparr>iss_Category = ''policy'', iss_Code = ''edr_missing'', iss_Severity = ''high'', iss_Title = [], iss_Detail = []\<rparr>),
        pr_cleared = False\<rparr>],
     pd_vulns = []\<rparr>"

lemma demo_ok: "posture_ok demo_db" "envs_ok demo_env agent db"
  by (simp_all add: posture_ok_def rows_ok_def open_list_def demo_db_def envs_ok_def demo_env_def)

lemma demo_fresh:
  "pe_fault demo_env = (\<lambda>_. None)" "inj (pe_new_id demo_env)"
  "pe_new_id demo_env n \<notin> pr_id ` set (pd_issues demo_db)" "pe_new_id demo_env n \<notin> pr_id ` set (pd_vulns demo_db)"
  by (auto simp: demo_env_def demo_db_def inj_def)

definition reboot_issue :: issue where
  "reboot_issue = \<lparr>iss_Category = ''policy'', iss_Code = ''pending_reboot'', iss_Severity = ''medium'',
     iss_Title = ''Pending reboot'', iss_Detail = ''Host has a pending reboot flag set''\<rparr>"

lemma demo_evaluate: "Evaluate demo_signals = (Fin 92, ''medium'', [reboot_issue], [])"
  by (simp add: Evaluate_def all_issues_def kb_found_def app_found_def posture_issues_def patch_issues_def
      demo_signals_def reboot_issues_def reboot_issue_def severity_of_def score_of_exact penalty_def equal_fold_def
      to_lower_def lower_char_def char_code_def seconds_def dedupeVulns_def sevRank_def i64_def Let_def)

lemma normalize_medium: "normalizeSev ''medium'' = ''medium''"
  by (simp add: normalizeSev_def to_lower_def lower_char_def char_code_def Let_def)
definition demo_db1 :: posture_db where
  "demo_db1 = \<lparr>pd_agents = [''a'' \<mapsto> \<lparr>ag_score = Some (Fin 92), ag_severity = Some ''medium'', ag_count = 1, ag_at = Some 1000\<rparr>],
     pd_issues = clear_row ''1'' (pd_issues demo_db) @ [\<lparr>pr_id = ''new-xxxx'', pr_agent = ''a'', pr_key = ''pending_reboot'',
        pr_val = (''s'', reboot_issue), pr_cleared = False\<rparr>],
     pd_vulns = []\<rparr>"

lemmas persist_simps = EvaluateAndPersist_def Persist_def persist_body_def previous_count_def tx_exec_def
  reconcile_table_def want_map_def open_keys_def open_rows_def insert_issue_def insert_vuln_def insert_row_def issue_check_def
  delete_key_def update_agent_def clear_row_def normalize_medium stored_severities_def Let_def

lemma demo_runs:
  "fst (EvaluateAndPersist demo_env ''a'' ''s'' demo_signals demo_db) = None"
  "fst (snd (EvaluateAndPersist demo_env ''a'' ''s'' demo_signals demo_db)) = demo_db1"
  "snd (snd (EvaluateAndPersist demo_env ''a'' ''s'' demo_signals demo_db)) \<noteq> []"
  "fst (EvaluateAndPersist demo_env ''a'' ''s'' demo_signals demo_db1) = None"
  by (simp_all add: persist_simps demo_evaluate reboot_issue_def demo_db_def demo_env_def demo_db1_def Emit_def)

text \<open>C12: EvaluateAndPersist either fails and leaves every table as it was and emits nothing, or
  reconciles: the agent's open issues and CVEs become the evaluated ones (an open row keeps the
  severity and text it was opened with, a new one gets its severity normalized), other agents'
  open rows stay, the agent row takes score, severity and count, and an event is emitted at most
  when the set of open keys or the issue count changed.\<close>

theorem evaluation_reconciles:
  assumes "posture_ok db" and "envs_ok env agent db" and "Evaluate sig = (score, severity, issues, vulns)"
  shows "case EvaluateAndPersist env agent site sig db of
      (Some e, db', events) \<Rightarrow> db' = db \<and> events = []
    | (None, db', events) \<Rightarrow>
        posture_ok db' \<and>
        open_view (pd_issues db') = reconciled agent (wanted_issues site issues) (open_view (pd_issues db)) \<and>
        open_view (pd_vulns db') = reconciled agent (wanted_vulns vulns) (open_view (pd_vulns db)) \<and>
        pd_agents db' = pd_agents (update_agent agent score severity (int (length issues)) (pe_now env) db) \<and>
        (events \<noteq> [] \<longleftrightarrow> pe_emit_ok env \<and>
          (snd ` set (open_keys agent (pd_issues db)) \<noteq> iss_Code ` set issues \<or>
           snd ` set (open_keys agent (pd_vulns db)) \<noteq> vu_CVEID ` set vulns \<or>
           previous agent db \<noteq> int (length issues)))"
proof (cases "Persist env agent site score severity issues vulns db")
  case (Pair r db')
  show ?thesis
  proof (cases r)
    case (Inl e)
    then have "db' = db" using Pair
      by (auto simp: Persist_def split: option.splits sum.splits prod.splits)
    then show ?thesis using Pair Inl by (simp add: EvaluateAndPersist_def assms(3))
  next
    case (Inr changed)
    show ?thesis using persist_effect [OF Pair [unfolded Inr] assms(1,2)] Pair Inr
      by (simp add: EvaluateAndPersist_def assms(3) Emit_def)
  qed
qed

theorem evaluation_reconciles_witness:
  "\<exists>db' events. EvaluateAndPersist demo_env ''a'' ''s'' demo_signals demo_db = (None, db', events) \<and> events \<noteq> [] \<and>
     open_view (pd_issues db') (''a'', ''edr_missing'') = None \<and>
     open_view (pd_issues db') (''a'', ''pending_reboot'') = Some (''s'', reboot_issue)"
proof -
  let ?r = "EvaluateAndPersist demo_env ''a'' ''s'' demo_signals demo_db"
  obtain events where r: "?r = (None, demo_db1, events)" "events \<noteq> []" using demo_runs(1-3) by (metis prod.collapse)
  have w: "wanted_issues ''s'' [reboot_issue] = [''pending_reboot'' \<mapsto> (''s'', reboot_issue)]"
    by (auto simp: wanted_issues_def reboot_issue_def normalize_medium)
  have v: "open_view (pd_issues demo_db) = [(''a'', ''edr_missing'') \<mapsto> pr_val (hd (pd_issues demo_db))]"
    by (simp add: open_view_def open_list_def demo_db_def)
  have "open_view (pd_issues demo_db1) = reconciled ''a'' (wanted_issues ''s'' [reboot_issue]) (open_view (pd_issues demo_db))"
    using evaluation_reconciles [OF demo_ok demo_evaluate, of "''a''" "''s''"] unfolding r(1) by simp
  then show ?thesis using r by (intro exI [of _ demo_db1]) (simp add: w v reconciled_def)
qed

text \<open>Evaluating the same signals again changes nothing that is open and emits no event.\<close>

theorem second_evaluation_quiet:
  assumes "posture_ok db" and "pd_agents db agent \<noteq> None"
    and "envs_ok env agent db" and "envs_ok env2 agent db1"
    and "EvaluateAndPersist env agent site sig db = (None, db1, events)"
    and "EvaluateAndPersist env2 agent site sig db1 = (None, db2, events2)"
  shows "events2 = [] \<and> open_view (pd_issues db2) = open_view (pd_issues db1) \<and>
    open_view (pd_vulns db2) = open_view (pd_vulns db1)"
proof -
  obtain score severity issues vulns where E: "Evaluate sig = (score, severity, issues, vulns)" by (metis prod.exhaust)
  obtain c1 where p1: "Persist env agent site score severity issues vulns db = (Inr c1, db1)"
    using evaluate_persist_cases [OF assms(5) E] by blast
  obtain c2 where p2: "Persist env2 agent site score severity issues vulns db1 = (Inr c2, db2)"
      and c2: "events2 \<noteq> [] \<Longrightarrow> c2"
    using evaluate_persist_cases [OF assms(6) E] by blast
  note e1 = persist_effect [OF p1 assms(1,3)]
  then have ok1: "posture_ok db1" by blast
  note e2 = persist_effect [OF p2 ok1 assms(4)]
  have "snd ` set (open_keys agent (pd_issues db1)) = iss_Code ` set issues"
    using e1 reconciled_keys wanted_dom(1) by metis
  moreover have "snd ` set (open_keys agent (pd_vulns db1)) = vu_CVEID ` set vulns"
    using e1 reconciled_keys wanted_dom(2) by metis
  moreover have "previous agent db1 = int (length issues)"
    using e1 assms(2) by (auto simp: previous_def update_agent_def)
  ultimately have "\<not> c2" using e2 by simp
  then show ?thesis using e1 e2 c2 reconciled_twice by metis
qed

theorem second_evaluation_quiet_witness:
  "\<exists>db2. EvaluateAndPersist demo_env ''a'' ''s'' demo_signals demo_db1 = (None, db2, []) \<and>
     open_view (pd_issues db2) = open_view (pd_issues demo_db1)"
proof -
  let ?r = "EvaluateAndPersist demo_env ''a'' ''s'' demo_signals demo_db"
  let ?q = "EvaluateAndPersist demo_env ''a'' ''s'' demo_signals demo_db1"
  obtain events where r: "?r = (None, demo_db1, events)" using demo_runs(1,2) by (metis prod.collapse)
  obtain db2 events2 where q: "?q = (None, db2, events2)" using demo_runs(4) by (metis prod.collapse)
  have a: "pd_agents demo_db ''a'' \<noteq> None" by (simp add: demo_db_def)
  show ?thesis using second_evaluation_quiet [OF demo_ok(1) a demo_ok(2) demo_ok(2) r q] q by metis
qed

text \<open>When the database takes every statement, hands out fresh ids and every row scans, an
  evaluation always goes through: none of its rows can violate a constraint of the schema.\<close>

theorem evaluation_goes_through:
  assumes "posture_ok db" and "envs_ok env agent db"
    and "pe_fault env = (\<lambda>_. None)" and "inj (pe_new_id env)"
    and "\<And>n. pe_new_id env n \<notin> pr_id ` set (pd_issues db)" and "\<And>n. pe_new_id env n \<notin> pr_id ` set (pd_vulns db)"
  shows "fst (EvaluateAndPersist env agent site sig db) = None"
proof -
  obtain score severity issues vulns where E: "Evaluate sig = (score, severity, issues, vulns)" by (metis prod.exhaust)
  have "issues = all_issues sig" using E by (simp add: Evaluate_def Let_def)
  then have "\<forall>iss \<in> set issues. good_issue iss" using evaluated_issues_good by simp
  from persist_total [OF assms(3-6,1,2) this] obtain changed db'
    where "Persist env agent site score severity issues vulns db = (Inr changed, db')" by blast
  then show ?thesis by (simp add: EvaluateAndPersist_def E)
qed

theorem evaluation_goes_through_witness:
  "fst (EvaluateAndPersist demo_env ''a'' ''s'' demo_signals demo_db) = None"
  by (rule evaluation_goes_through [OF demo_ok demo_fresh(1,2,3,4)])

end
