(* ===== verification/Base64.thy ===== *)
theory Base64
  imports Sonar_Prelude
begin

text \<open>
  Go's \<open>encoding/base64\<close> in the three flavours the program uses: standard with padding (master
  key, JWT secret), standard without (password hashes) and URL-safe without (API keys). Decoding
  skips carriage returns and line feeds and, not being strict, ignores the unused low bits of the
  last character.
\<close>

type_synonym byte = "8 word"

text \<open>\<open>[]byte(s)\<close> and \<open>string(b)\<close>.\<close>

definition bytes_of :: "string \<Rightarrow> byte list" where
  "bytes_of s = map (\<lambda>c. word_of_nat (char_code c)) s"

definition string_of :: "byte list \<Rightarrow> string" where
  "string_of bs = map (\<lambda>b. char_of (unat b)) bs"

datatype encoding = StdEncoding | RawStdEncoding | RawURLEncoding

definition sextet_char :: "encoding \<Rightarrow> nat \<Rightarrow> char" where
  "sextet_char e n =
     (if n < 26 then char_of (65 + n) else if n < 52 then char_of (97 + (n - 26))
      else if n < 62 then char_of (48 + (n - 52))
      else if n = 62 then (if e = RawURLEncoding then CHR ''-'' else CHR ''+'')
      else if e = RawURLEncoding then CHR ''_'' else CHR ''/'')"

definition sextet_val :: "encoding \<Rightarrow> char \<Rightarrow> nat option" where
  "sextet_val e c =
     (let n = char_code c in
      if 65 \<le> n \<and> n \<le> 90 then Some (n - 65) else if 97 \<le> n \<and> n \<le> 122 then Some (n - 97 + 26)
      else if 48 \<le> n \<and> n \<le> 57 then Some (n - 48 + 52)
      else if c = (if e = RawURLEncoding then CHR ''-'' else CHR ''+'') then Some 62
      else if c = (if e = RawURLEncoding then CHR ''_'' else CHR ''/'') then Some 63 else None)"

definition padded :: "encoding \<Rightarrow> bool" where
  "padded e = (e = StdEncoding)"

definition pad :: "encoding \<Rightarrow> nat \<Rightarrow> string" where
  "pad e n = (if padded e then replicate n (CHR ''='') else [])"

fun EncodeToString :: "encoding \<Rightarrow> byte list \<Rightarrow> string" where
  "EncodeToString e [] = []"
| "EncodeToString e [a] =
     (let x = unat a in [sextet_char e (x div 4), sextet_char e (x mod 4 * 16)] @ pad e 2)"
| "EncodeToString e [a, b] =
     (let x = unat a * 256 + unat b
      in [sextet_char e (x div 1024), sextet_char e (x div 16 mod 64), sextet_char e (x mod 16 * 4)] @ pad e 1)"
| "EncodeToString e (a # b # c # bs) =
     (let x = (unat a * 256 + unat b) * 256 + unat c
      in [sextet_char e (x div 262144), sextet_char e (x div 4096 mod 64),
          sextet_char e (x div 64 mod 64), sextet_char e (x mod 64)] @ EncodeToString e bs)"

text \<open>The sextets of one quantum, most significant first, as a number.\<close>

fun sextets :: "encoding \<Rightarrow> string \<Rightarrow> nat option" where
  "sextets e [] = Some 0"
| "sextets e (c # cs) =
     (case (sextet_val e c, sextets e cs) of
        (Some v, Some x) \<Rightarrow> Some (v * 64 ^ length cs + x) | _ \<Rightarrow> None)"

definition one_byte :: "encoding \<Rightarrow> string \<Rightarrow> byte list option" where
  "one_byte e q = map_option (\<lambda>x. [word_of_nat (x div 16)]) (sextets e q)"

definition two_bytes :: "encoding \<Rightarrow> string \<Rightarrow> byte list option" where
  "two_bytes e q = map_option (\<lambda>x. [word_of_nat (x div 1024), word_of_nat (x div 4 mod 256)]) (sextets e q)"

definition three_bytes :: "encoding \<Rightarrow> string \<Rightarrow> byte list option" where
  "three_bytes e q =
     map_option (\<lambda>x. [word_of_nat (x div 65536), word_of_nat (x div 256 mod 256), word_of_nat (x mod 256)]) (sextets e q)"

fun decode_quanta :: "encoding \<Rightarrow> string \<Rightarrow> byte list option" where
  "decode_quanta e [] = Some []"
| "decode_quanta e [a] = None"
| "decode_quanta e [a, b] = (if padded e then None else one_byte e [a, b])"
| "decode_quanta e [a, b, c] = (if padded e then None else two_bytes e [a, b, c])"
| "decode_quanta e (a # b # c # d # cs) =
     (if padded e \<and> c = CHR ''='' then (if d = CHR ''='' \<and> cs = [] then one_byte e [a, b] else None)
      else if padded e \<and> d = CHR ''='' then (if cs = [] then two_bytes e [a, b, c] else None)
      else case (three_bytes e [a, b, c, d], decode_quanta e cs) of
        (Some x, Some y) \<Rightarrow> Some (x @ y) | _ \<Rightarrow> None)"

definition DecodeString :: "encoding \<Rightarrow> string \<Rightarrow> byte list option" where
  "DecodeString e s = decode_quanta e (filter (\<lambda>c. char_code c \<noteq> 10 \<and> char_code c \<noteq> 13) s)"

subsection \<open>Decoding inverts encoding\<close>

lemma char_code_of [simp]: "n < 256 \<Longrightarrow> char_code (char_of n) = n"
  by (simp add: char_code_def)

lemma string_of_bytes_of [simp]: "string_of (bytes_of s) = s"
proof -
  have "char_of (unat (word_of_nat (char_code c) :: byte)) = c" for c
  proof -
    have "char_code c < 256" by (simp add: char_code_def)
    then show ?thesis by (simp add: unat_of_nat take_bit_eq_mod char_code_def)
  qed
  then show ?thesis by (induction s) (simp_all add: string_of_def bytes_of_def)
qed

lemma sextet_cases: "(n :: nat) < 64 \<Longrightarrow> P 62 \<Longrightarrow> P 63 \<Longrightarrow> (n < 62 \<Longrightarrow> P n) \<Longrightarrow> P n"
  by (cases "n = 62 \<or> n = 63") auto

lemma sextet_roundtrip [simp]: "n < 64 \<Longrightarrow> sextet_val e (sextet_char e n) = Some n"
  by (rule sextet_cases [where n = n]) (auto simp: sextet_val_def sextet_char_def Let_def char_code_def)

lemma sextet_char_plain:
  "n < 64 \<Longrightarrow> char_code (sextet_char e n) \<noteq> 10 \<and> char_code (sextet_char e n) \<noteq> 13 \<and> sextet_char e n \<noteq> CHR ''=''"
  by (rule sextet_cases [where n = n]) (auto simp: sextet_char_def char_code_def dest: arg_cong [where f = char_code])

lemma unat_byte [simp]: "unat (b :: byte) < 256"
proof -
  have "unat b < 2 ^ LENGTH(8)" by (rule unsigned_less)
  then show ?thesis by simp
qed

lemma word_of_unat_byte [simp]: "(word_of_nat (unat b) :: byte) = b"
  by simp

lemma base256: "(c :: nat) < 256 \<Longrightarrow> (y * 256 + c) div 256 = y \<and> (y * 256 + c) mod 256 = c"
  by simp

lemma byte_quotients:
  fixes a b c :: byte
  defines "x \<equiv> (unat a * 256 + unat b) * 256 + unat c"
  shows "x div 65536 = unat a" "x div 256 mod 256 = unat b" "x mod 256 = unat c" "x < 16777216"
proof -
  have y: "x div 256 = unat a * 256 + unat b" and "x mod 256 = unat c"
    using base256 [OF unat_byte, of "unat a * 256 + unat b" c] by (simp_all only: x_def)
  then show "x mod 256 = unat c" "x div 256 mod 256 = unat b" using base256 [OF unat_byte, of "unat a" b] by simp_all
  have "x div 65536 = x div 256 div 256" by (simp add: div_mult2_eq [symmetric])
  then show "x div 65536 = unat a" using y base256 [OF unat_byte, of "unat a" b] by simp
  have "unat a \<le> 255" "unat b \<le> 255" "unat c \<le> 255"
    using unat_byte [of a] unat_byte [of b] unat_byte [of c] by (simp_all del: unat_byte)
  then show "x < 16777216" unfolding x_def by simp
qed

lemma word_pair_quotients:
  fixes a b :: byte
  defines "x \<equiv> unat a * 256 + unat b"
  shows "x div 256 = unat a" "x mod 256 = unat b" "x < 65536"
  using unat_byte [of a] unat_byte [of b] unfolding x_def by (simp_all del: unat_byte)

lemma four_sextets:
  fixes x :: nat
  assumes "x < 16777216"
  shows "sextets e [sextet_char e (x div 262144), sextet_char e (x div 4096 mod 64),
     sextet_char e (x div 64 mod 64), sextet_char e (x mod 64)] = Some x"
proof -
  have "x div 262144 < 64" using assms by simp
  moreover have "x div 262144 * 262144 + (x div 4096 mod 64 * 4096 + (x div 64 mod 64 * 64 + x mod 64)) = x"
  proof -
    have "x = x div 64 * 64 + x mod 64" by simp
    moreover have "x div 64 = x div 4096 * 64 + x div 64 mod 64"
      using div_mult_mod_eq [of "x div 64" 64] by (simp add: div_mult2_eq [symmetric])
    moreover have "x div 4096 = x div 262144 * 64 + x div 4096 mod 64"
      using div_mult_mod_eq [of "x div 4096" 64] by (simp add: div_mult2_eq [symmetric])
    ultimately show ?thesis by linarith
  qed
  ultimately show ?thesis by simp
qed

lemma three_sextets:
  fixes x :: nat
  assumes "x < 65536"
  shows "sextets e [sextet_char e (x div 1024), sextet_char e (x div 16 mod 64), sextet_char e (x mod 16 * 4)] = Some (x * 4)"
proof -
  have "x div 1024 < 64" using assms by simp
  moreover have "x mod 16 * 4 < 64" by simp
  moreover have "x div 1024 * 4096 + (x div 16 mod 64 * 64 + x mod 16 * 4) = x * 4"
  proof -
    have "x = x div 16 * 16 + x mod 16" by simp
    moreover have "x div 16 = x div 1024 * 64 + x div 16 mod 64"
      using div_mult_mod_eq [of "x div 16" 64] by (simp add: div_mult2_eq [symmetric])
    ultimately show ?thesis by linarith
  qed
  ultimately show ?thesis by simp
qed

lemma two_sextets:
  fixes x :: nat
  assumes "x < 256"
  shows "sextets e [sextet_char e (x div 4), sextet_char e (x mod 4 * 16)] = Some (x * 16)"
proof -
  have "x div 4 < 64" "x mod 4 * 16 < 64" using assms by simp_all
  moreover have "x div 4 * 64 + x mod 4 * 16 = x * 16"
    using div_mult_mod_eq [of x 4] by presburger
  ultimately show ?thesis by simp
qed

lemma pad_cases: "pad e n = (if padded e then replicate n (CHR ''='') else [])"
  by (simp add: pad_def)

lemma encoded_plain:
  "c \<in> set (EncodeToString e bs) \<Longrightarrow> char_code c \<noteq> 10 \<and> char_code c \<noteq> 13"
proof (induction e bs rule: EncodeToString.induct)
  case (2 e a)
  have "unat a div 4 < 64" using unat_byte [of a] by linarith
  with 2 show ?case using sextet_char_plain by (auto simp: Let_def pad_def char_code_def)
next
  case (3 e a b)
  have "(unat a * 256 + unat b) div 1024 < 64" using word_pair_quotients(3) [of a b] by simp
  with 3 show ?case using sextet_char_plain by (auto simp: Let_def pad_def char_code_def)
next
  case (4 e a b c bs)
  have "((unat a * 256 + unat b) * 256 + unat c) div 262144 < 64" using byte_quotients(4) [of a b c] by simp
  with 4 show ?case using sextet_char_plain by (auto simp: Let_def)
qed simp

lemma pad_two: "pad e 2 = (if padded e then ''=='' else [])"
  by (simp add: pad_def numeral_2_eq_2)

lemma decode_quanta_encode: "decode_quanta e (EncodeToString e bs) = Some bs"
proof (induction e bs rule: EncodeToString.induct)
  case (2 e a)
  have s: "sextets e [sextet_char e (unat a div 4), sextet_char e (unat a mod 4 * 16)] = Some (unat a * 16)"
    by (rule two_sextets) simp
  then have "one_byte e [sextet_char e (unat a div 4), sextet_char e (unat a mod 4 * 16)] = Some [a]"
    by (simp only: one_byte_def) simp
  then show ?case by (cases e) (simp_all add: Let_def pad_two padded_def)
next
  case (3 e a b)
  let ?x = "unat a * 256 + unat b"
  let ?q = "[sextet_char e (?x div 1024), sextet_char e (?x div 16 mod 64), sextet_char e (?x mod 16 * 4)]"
  have "sextets e ?q = Some (?x * 4)" by (rule three_sextets) (rule word_pair_quotients)
  moreover have "?x * 4 div 1024 = unat a"
    using word_pair_quotients(1) [of a b] div_mult_mult2 [of 4 ?x 256] by simp
  moreover have "?x * 4 div 4 mod 256 = unat b" using word_pair_quotients(2) [of a b] by simp
  ultimately have "two_bytes e ?q = Some [a, b]" by (simp only: two_bytes_def option.map) simp
  moreover have "sextet_char e (?x mod 16 * 4) \<noteq> CHR ''=''" by (intro conjunct2 [OF conjunct2 [OF sextet_char_plain]]) simp
  ultimately show ?case by (cases e) (simp_all add: Let_def pad_def padded_def)
next
  case (4 e a b c bs)
  let ?x = "(unat a * 256 + unat b) * 256 + unat c"
  let ?q = "[sextet_char e (?x div 262144), sextet_char e (?x div 4096 mod 64),
     sextet_char e (?x div 64 mod 64), sextet_char e (?x mod 64)]"
  have "sextets e ?q = Some ?x" by (rule four_sextets) (rule byte_quotients)
  then have "three_bytes e ?q = Some [a, b, c]"
    using byte_quotients [of a b c] by (simp only: three_bytes_def option.map word_of_unat_byte)
  moreover have "sextet_char e (?x div 64 mod 64) \<noteq> CHR ''=''" "sextet_char e (?x mod 64) \<noteq> CHR ''=''"
    using sextet_char_plain by simp_all
  ultimately show ?case using 4 by (simp add: Let_def)
qed simp

lemma DecodeString_EncodeToString: "DecodeString e (EncodeToString e bs) = Some bs"
  using encoded_plain [of _ e bs] by (simp add: DecodeString_def filter_id_conv [THEN iffD2] decode_quanta_encode)

end
