(* ===== verification/Envelope.thy ===== *)
theory Envelope
  imports Base64
begin

text \<open>
  \<open>internal/crypto/envelope.go\<close>: secrets sealed under a one-shot data key that the master key
  wraps. AES-256-GCM is Go's \<open>crypto/cipher\<close> GCM mode (counter mode from the 12-byte nonce, GHASH
  over associated data and ciphertext) on a block function \<open>aes\<close>, which is the parameter of the
  component: the theorems hold for every block function. The reads of \<open>crypto/rand\<close> are the
  parameter \<open>rd\<close>.
\<close>

subsection \<open>Blocks and bytes\<close>

type_synonym block = "128 word"
type_synonym blockfun = "byte list \<Rightarrow> block \<Rightarrow> block"

definition block_of :: "byte list \<Rightarrow> block" where
  "block_of bs = foldl (\<lambda>w b. push_bit 8 w OR ucast b) 0 (take 16 (bs @ replicate 16 0))"

definition block_bytes :: "block \<Rightarrow> byte list" where
  "block_bytes w = map (\<lambda>i. ucast (drop_bit (120 - 8 * i) w)) [0..<16]"

fun blocks_of :: "byte list \<Rightarrow> block list" where
  "blocks_of [] = []"
| "blocks_of (b # bs) = block_of (b # take 15 bs) # blocks_of (drop 15 bs)"

definition xor_bytes :: "byte list \<Rightarrow> byte list \<Rightarrow> byte list" where
  "xor_bytes xs ys = map (\<lambda>(x, y). x XOR y) (zip xs ys)"

subsection \<open>Galois counter mode\<close>

fun gmul_loop :: "nat \<Rightarrow> block \<Rightarrow> block \<Rightarrow> block \<Rightarrow> block" where
  "gmul_loop 0 x v z = z"
| "gmul_loop (Suc k) x v z =
     gmul_loop k x (if bit v 0 then drop_bit 1 v XOR push_bit 120 0xe1 else drop_bit 1 v)
       (if bit x k then z XOR v else z)"

definition gmul :: "block \<Rightarrow> block \<Rightarrow> block" where
  "gmul x y = gmul_loop 128 x y 0"

definition ghash :: "block \<Rightarrow> block list \<Rightarrow> block" where
  "ghash h bs = foldl (\<lambda>y b. gmul (y XOR b) h) 0 bs"

definition counter0 :: "byte list \<Rightarrow> block" where
  "counter0 nonce = block_of (take 12 nonce @ [0, 0, 0, 1])"

text \<open>The counter is the low 32 bits of the block.\<close>

definition counter :: "byte list \<Rightarrow> nat \<Rightarrow> block" where
  "counter nonce i =
     (let j = counter0 nonce
      in push_bit 32 (drop_bit 32 j) OR take_bit 32 (j + word_of_nat i))"

definition keystream :: "blockfun \<Rightarrow> byte list \<Rightarrow> byte list \<Rightarrow> nat \<Rightarrow> byte list" where
  "keystream aes key nonce n =
     concat (map (\<lambda>i. block_bytes (aes key (counter nonce (Suc i)))) [0..<(n + 15) div 16])"

definition gcm_tag :: "blockfun \<Rightarrow> byte list \<Rightarrow> byte list \<Rightarrow> byte list \<Rightarrow> byte list \<Rightarrow> byte list" where
  "gcm_tag aes key nonce ct ad =
     (let lens = push_bit 64 (word_of_nat (8 * length ad)) OR word_of_nat (8 * length ct);
          s = ghash (aes key 0) (blocks_of ad @ blocks_of ct @ [lens])
      in block_bytes (s XOR aes key (counter0 nonce)))"

definition gcm_seal :: "blockfun \<Rightarrow> byte list \<Rightarrow> byte list \<Rightarrow> byte list \<Rightarrow> byte list \<Rightarrow> byte list" where
  "gcm_seal aes key nonce pt ad =
     (let ct = xor_bytes pt (keystream aes key nonce (length pt)) in ct @ gcm_tag aes key nonce ct ad)"

definition gcm_open :: "blockfun \<Rightarrow> byte list \<Rightarrow> byte list \<Rightarrow> byte list \<Rightarrow> byte list \<Rightarrow> byte list option" where
  "gcm_open aes key nonce c ad =
     (if length c < 16 then None
      else let ct = take (length c - 16) c; tag = drop (length c - 16) c
           in if tag = gcm_tag aes key nonce ct ad
              then Some (xor_bytes ct (keystream aes key nonce (length ct))) else None)"

subsection \<open>The envelope\<close>

datatype crypto_error = ErrInvalidMasterKey | ErrShortCiphertext | ErrUnknownVersion | CryptoError string

definition versionV1 :: byte where "versionV1 = 1"
definition masterKeyLen :: nat where "masterKeyLen = 32"
definition dataKeyLen :: nat where "dataKeyLen = 32"
definition gcmNonceLen :: nat where "gcmNonceLen = 12"
definition gcmTagLen :: nat where "gcmTagLen = 16"
definition wrappedLen :: nat where "wrappedLen = dataKeyLen + gcmTagLen"

lemmas envelope_lengths = masterKeyLen_def dataKeyLen_def gcmNonceLen_def gcmTagLen_def wrappedLen_def

text \<open>A Sealer is its master key. \<open>aes.NewCipher\<close> takes keys of 16, 24 and 32 bytes.\<close>

definition key_size_ok :: "byte list \<Rightarrow> bool" where
  "key_size_ok k = (length k = 16 \<or> length k = 24 \<or> length k = 32)"

definition NewSealer :: "string \<Rightarrow> crypto_error + byte list" where
  "NewSealer masterKeyB64 =
     (case DecodeString StdEncoding masterKeyB64 of
        None \<Rightarrow> Inl (CryptoError ''crypto: decode master key'')
      | Some key \<Rightarrow> if length key \<noteq> masterKeyLen then Inl ErrInvalidMasterKey
                    else if \<not> key_size_ok key then Inl (CryptoError ''crypto: new aes cipher'')
                    else Inr key)"

definition wrap_label :: "byte list" where
  "wrap_label = bytes_of ''sonar:dk:v1''"

text \<open>\<open>rd i n\<close> is the \<open>i\<close>-th \<open>io.ReadFull\<close> of \<open>n\<close> random bytes.\<close>

definition Seal :: "blockfun \<Rightarrow> (nat \<Rightarrow> nat \<Rightarrow> string + byte list) \<Rightarrow> byte list \<Rightarrow> byte list \<Rightarrow> byte list \<Rightarrow> crypto_error + byte list" where
  "Seal aes rd master plaintext ad =
     (case rd 0 dataKeyLen of
        Inl e \<Rightarrow> Inl (CryptoError (''crypto: read data key: '' @ e))
      | Inr dataKey \<Rightarrow> (case rd 1 gcmNonceLen of
          Inl e \<Rightarrow> Inl (CryptoError (''crypto: read wrap nonce: '' @ e))
        | Inr wrapNonce \<Rightarrow>
            let wrapped = gcm_seal aes master wrapNonce dataKey wrap_label
            in if length wrapped \<noteq> wrappedLen
               then Inl (CryptoError (''crypto: unexpected wrapped length '' @ itoa (int (length wrapped))))
               else if \<not> key_size_ok dataKey then Inl (CryptoError ''crypto: data cipher'')
               else (case rd 2 gcmNonceLen of
                  Inl e \<Rightarrow> Inl (CryptoError (''crypto: read data nonce: '' @ e))
                | Inr dataNonce \<Rightarrow>
                    Inr (versionV1 # wrapNonce @ wrapped @ dataNonce @ gcm_seal aes dataKey dataNonce plaintext ad))))"

definition Open :: "blockfun \<Rightarrow> byte list \<Rightarrow> byte list \<Rightarrow> byte list \<Rightarrow> crypto_error + byte list" where
  "Open aes master sealed ad =
     (if length sealed < 1 + gcmNonceLen + wrappedLen + gcmNonceLen + gcmTagLen then Inl ErrShortCiphertext
      else if hd sealed \<noteq> versionV1 then Inl ErrUnknownVersion
      else let r0 = tl sealed;
               wrapNonce = take gcmNonceLen r0; r1 = drop gcmNonceLen r0;
               wrapped = take wrappedLen r1; r2 = drop wrappedLen r1;
               dataNonce = take gcmNonceLen r2; ciphertext = drop gcmNonceLen r2
           in case gcm_open aes master wrapNonce wrapped wrap_label of
                None \<Rightarrow> Inl (CryptoError ''crypto: unwrap data key'')
              | Some dataKey \<Rightarrow>
                  if \<not> key_size_ok dataKey then Inl (CryptoError ''crypto: data cipher'')
                  else (case gcm_open aes dataKey dataNonce ciphertext ad of
                      None \<Rightarrow> Inl (CryptoError ''crypto: open ciphertext'')
                    | Some plaintext \<Rightarrow> Inr plaintext))"

definition GenerateMasterKey :: "(nat \<Rightarrow> nat \<Rightarrow> string + byte list) \<Rightarrow> string + string" where
  "GenerateMasterKey rd =
     (case rd 0 masterKeyLen of Inl e \<Rightarrow> Inl e | Inr key \<Rightarrow> Inr (EncodeToString StdEncoding key))"

subsection \<open>The AEAD contract\<close>

text \<open>
  What the envelope relies on: opening what was sealed gives the plaintext back, nothing else
  opens, and sealing adds a tag of fixed length.
\<close>

locale aead =
  fixes seal :: "'k \<Rightarrow> 'n \<Rightarrow> byte list \<Rightarrow> 'a \<Rightarrow> byte list"
    and unseal :: "'k \<Rightarrow> 'n \<Rightarrow> byte list \<Rightarrow> 'a \<Rightarrow> byte list option"
    and tag :: nat
  assumes unseal_seal: "unseal k n (seal k n p a) a = Some p"
    and seal_unseal: "unseal k n c a = Some p \<Longrightarrow> seal k n p a = c"
    and length_seal: "length (seal k n p a) = length p + tag"
begin

lemma unseal_iff: "unseal k n c a = Some p \<longleftrightarrow> c = seal k n p a"
  using unseal_seal seal_unseal by blast

lemma seal_inj: "seal k n p a = seal k n q a \<Longrightarrow> p = q"
  by (metis unseal_seal option.inject)

lemma unseal_length: "unseal k n c a = Some p \<Longrightarrow> length c = length p + tag"
  using seal_unseal length_seal by metis

end

lemma length_block_bytes [simp]: "length (block_bytes w) = 16"
  by (simp add: block_bytes_def)

lemma length_keystream: "n \<le> length (keystream aes key nonce n)"
proof -
  have "length (keystream aes key nonce n) = 16 * ((n + 15) div 16)"
    by (simp add: keystream_def length_concat comp_def sum_list_triv)
  then show ?thesis by linarith
qed

lemma length_xor_bytes: "length xs \<le> length ys \<Longrightarrow> length (xor_bytes xs ys) = length xs"
  by (simp add: xor_bytes_def)

lemma xor_bytes_twice: "length xs \<le> length ys \<Longrightarrow> xor_bytes (xor_bytes xs ys) ys = xs"
  by (induction xs ys rule: list_induct2') (simp_all add: xor_bytes_def xor.assoc)

lemma length_gcm_tag [simp]: "length (gcm_tag aes key nonce ct ad) = 16"
  by (simp add: gcm_tag_def Let_def)

interpretation gcm: aead "gcm_seal aes" "gcm_open aes" 16 for aes
proof
  fix k n p a
  have l: "length (xor_bytes p (keystream aes k n (length p))) = length p"
    by (rule length_xor_bytes) (rule length_keystream)
  show "length (gcm_seal aes k n p a) = length p + 16" by (simp add: gcm_seal_def Let_def l)
  show "gcm_open aes k n (gcm_seal aes k n p a) a = Some p"
    by (simp add: gcm_open_def gcm_seal_def Let_def l xor_bytes_twice length_keystream)
  fix c
  assume o: "gcm_open aes k n c a = Some p"
  let ?ct = "take (length c - 16) c"
  have g: "16 \<le> length c" and t: "drop (length c - 16) c = gcm_tag aes k n ?ct a"
    and p: "p = xor_bytes ?ct (keystream aes k n (length ?ct))"
    using o by (auto simp: gcm_open_def Let_def split: if_splits)
  have "length p = length ?ct" unfolding p by (rule length_xor_bytes) (rule length_keystream)
  then have "xor_bytes p (keystream aes k n (length p)) = ?ct"
    using p by (simp add: xor_bytes_twice length_keystream)
  then show "gcm_seal aes k n p a = c" using t by (simp add: gcm_seal_def Let_def t [symmetric])
qed

subsection \<open>Sealing and opening\<close>

definition reads_ok :: "(nat \<Rightarrow> nat \<Rightarrow> string + byte list) \<Rightarrow> bool" where
  "reads_ok rd \<longleftrightarrow> (\<forall>i n bs. rd i n = Inr bs \<longrightarrow> length bs = n)"

definition sealed_with :: "blockfun \<Rightarrow> byte list \<Rightarrow> byte list \<Rightarrow> byte list \<Rightarrow> byte list \<Rightarrow> byte list \<Rightarrow> byte list \<Rightarrow> byte list" where
  "sealed_with aes master dataKey wrapNonce dataNonce plaintext ad =
     versionV1 # wrapNonce @ gcm_seal aes master wrapNonce dataKey wrap_label @ dataNonce @
       gcm_seal aes dataKey dataNonce plaintext ad"

lemma Seal_shape:
  assumes "reads_ok rd"
  shows "Seal aes rd master pt ad = Inr blob \<longleftrightarrow>
    (\<exists>dk wn dn. rd 0 32 = Inr dk \<and> rd 1 12 = Inr wn \<and> rd 2 12 = Inr dn \<and>
      blob = sealed_with aes master dk wn dn pt ad)"
proof -
  have "length dk = 32" if "rd 0 32 = Inr dk" for dk using that assms by (auto simp: reads_ok_def)
  then show ?thesis
    by (auto simp: Seal_def sealed_with_def envelope_lengths key_size_ok_def gcm.length_seal Let_def split: sum.splits)
qed

lemma Open_sealed_with:
  assumes "length dk = 32" "length wn = 12" "length dn = 12"
  shows "Open aes master (sealed_with aes master dk wn dn pt ad) ad = Inr pt"
    and "length (sealed_with aes master dk wn dn pt ad) = 89 + length pt"
  using assms
  by (simp_all add: Open_def sealed_with_def envelope_lengths key_size_ok_def gcm.length_seal gcm.unseal_seal Let_def)

lemma Open_shape:
  assumes "Open aes master blob ad = Inr pt"
  shows "\<exists>dk wn dn. length dk = 32 \<and> length wn = 12 \<and> length dn = 12 \<and>
    blob = sealed_with aes master dk wn dn pt ad"
proof -
  have len: "89 \<le> length blob" and v: "hd blob = versionV1"
    using assms by (auto simp: Open_def envelope_lengths split: if_splits)
  let ?r0 = "tl blob" and ?r1 = "drop 12 (tl blob)"
  let ?r2 = "drop 48 (drop 12 (tl blob))"
  obtain dk where dk: "gcm_open aes master (take 12 ?r0) (take 48 ?r1) wrap_label = Some dk"
    and p: "gcm_open aes dk (take 12 ?r2) (drop 12 ?r2) ad = Some pt"
    using assms by (auto simp: Open_def envelope_lengths Let_def split: if_splits option.splits)
  have "length (take 48 ?r1) = length dk + 16" using dk by (rule gcm.unseal_length)
  then have "length dk = 32" using len by simp
  moreover have "blob = sealed_with aes master dk (take 12 ?r0) (take 12 ?r2) pt ad"
  proof -
    have "blob = versionV1 # ?r0" using v len by (cases blob) auto
    moreover have "?r0 = take 12 ?r0 @ take 48 ?r1 @ take 12 ?r2 @ drop 12 ?r2"
      by (metis append_take_drop_id)
    ultimately show ?thesis
      using gcm.seal_unseal [OF dk] gcm.seal_unseal [OF p] by (simp add: sealed_with_def)
  qed
  ultimately show ?thesis using len by (intro exI [of _ dk] exI) auto
qed

text \<open>What Seal returns, Open gives back under the same associated data, and the sealed value
  is exactly 89 bytes longer than the secret.\<close>

theorem seal_open_roundtrip:
  assumes "reads_ok rd" and "Seal aes rd master plaintext ad = Inr blob"
  shows "Open aes master blob ad = Inr plaintext \<and> length blob = 89 + length plaintext"
proof -
  obtain dk wn dn where r: "rd 0 32 = Inr dk" "rd 1 12 = Inr wn" "rd 2 12 = Inr dn"
      and b: "blob = sealed_with aes master dk wn dn plaintext ad"
    using assms Seal_shape by blast
  have "length dk = 32" "length wn = 12" "length dn = 12" using r assms(1) by (auto simp: reads_ok_def)
  then show ?thesis using Open_sealed_with unfolding b by blast
qed

text \<open>C15: Open accepts exactly the values some Seal under the same master key and associated data
  can have produced, and returns the secret that was sealed.\<close>

theorem open_only_sealed:
  "Open aes master blob ad = Inr plaintext \<longleftrightarrow>
   (\<exists>rd. reads_ok rd \<and> Seal aes rd master plaintext ad = Inr blob)"
proof
  assume "Open aes master blob ad = Inr plaintext"
  then obtain dk wn dn where l: "length dk = 32" "length wn = 12" "length dn = 12"
      and b: "blob = sealed_with aes master dk wn dn plaintext ad"
    using Open_shape by blast
  define rd :: "nat \<Rightarrow> nat \<Rightarrow> string + byte list" where
    "rd = (\<lambda>i n. if i = 0 \<and> n = 32 then Inr dk else if i = 1 \<and> n = 12 then Inr wn
                 else if i = 2 \<and> n = 12 then Inr dn else Inl [])"
  have "reads_ok rd" using l by (auto simp: reads_ok_def rd_def split: if_splits)
  moreover have "Seal aes rd master plaintext ad = Inr blob"
    unfolding Seal_shape [OF \<open>reads_ok rd\<close>] by (simp add: rd_def b)
  ultimately show "\<exists>rd. reads_ok rd \<and> Seal aes rd master plaintext ad = Inr blob" by blast
next
  assume "\<exists>rd. reads_ok rd \<and> Seal aes rd master plaintext ad = Inr blob"
  then obtain rd dk wn dn where "reads_ok rd" "rd 0 32 = Inr dk" "rd 1 12 = Inr wn" "rd 2 12 = Inr dn"
      and b: "blob = sealed_with aes master dk wn dn plaintext ad"
    using Seal_shape by blast
  then show "Open aes master blob ad = Inr plaintext"
    unfolding b by (intro Open_sealed_with(1)) (auto simp: reads_ok_def)
qed

text \<open>A generated master key is accepted by NewSealer, which reads back the key bytes.\<close>

theorem master_key_roundtrip:
  assumes "reads_ok rd"
  shows "case GenerateMasterKey rd of Inl e \<Rightarrow> rd 0 32 = Inl e
    | Inr text \<Rightarrow> (\<exists>key. rd 0 32 = Inr key \<and> NewSealer text = Inr key)"
  using assms
  by (auto simp: GenerateMasterKey_def NewSealer_def DecodeString_EncodeToString masterKeyLen_def
      key_size_ok_def reads_ok_def split: sum.splits)

definition demo_rd :: "nat \<Rightarrow> nat \<Rightarrow> string + byte list" where
  "demo_rd i n = Inr (replicate n (word_of_nat (i + 1)))"

lemma demo_reads: "reads_ok demo_rd"
  by (auto simp: reads_ok_def demo_rd_def)

theorem seal_open_roundtrip_witness:
  "\<exists>blob. Seal (\<lambda>k w. w XOR block_of k) demo_rd (replicate 32 7) [1, 2, 3] [9] = Inr blob \<and> length blob = 92 \<and>
     Open (\<lambda>k w. w XOR block_of k) (replicate 32 7) blob [9] = Inr [1, 2, 3]"
proof -
  let ?aes = "\<lambda>k w. w XOR block_of k"
  obtain blob where s: "Seal ?aes demo_rd (replicate 32 7) [1, 2, 3] [9] = Inr blob"
    unfolding Seal_shape [OF demo_reads] by (simp add: demo_rd_def)
  show ?thesis using seal_open_roundtrip [OF demo_reads s] s by auto
qed

theorem master_key_roundtrip_witness:
  "\<exists>text. GenerateMasterKey demo_rd = Inr text \<and> NewSealer text = Inr (replicate 32 1)"
  using master_key_roundtrip [OF demo_reads]
  by (auto simp: GenerateMasterKey_def demo_rd_def masterKeyLen_def)

end
