(* ===== verification/Auth.thy ===== *)
theory Auth
  imports Base64 Go_Time
begin

text \<open>
  \<open>internal/auth\<close>: roles (\<open>rbac.go\<close>), Argon2id password hashes (\<open>password.go\<close>) and the kinds
  and lifetimes of JSON web tokens (\<open>jwt.go\<close>). Argon2 and the JWT library are third-party: the key
  derivation \<open>idkey\<close> and the token functions are parameters, and what the properties need of them
  is a named hypothesis. Times are nanoseconds.
\<close>

subsection \<open>Roles\<close>

definition RoleSuperAdmin :: string where "RoleSuperAdmin = ''superadmin''"
definition RoleSiteAdmin :: string where "RoleSiteAdmin = ''siteadmin''"
definition RoleTech :: string where "RoleTech = ''tech''"
definition RoleReadOnly :: string where "RoleReadOnly = ''readonly''"

lemmas role_names = RoleSuperAdmin_def RoleSiteAdmin_def RoleTech_def RoleReadOnly_def

definition Role_Valid :: "string \<Rightarrow> bool" where
  "Role_Valid r = (r \<in> set [RoleSuperAdmin, RoleSiteAdmin, RoleTech, RoleReadOnly])"

definition rank :: "string \<Rightarrow> nat" where
  "rank r = (if r = RoleSuperAdmin then 4 else if r = RoleSiteAdmin then 3
             else if r = RoleTech then 2 else if r = RoleReadOnly then 1 else 0)"

definition AtLeast :: "string \<Rightarrow> string \<Rightarrow> bool" where
  "AtLeast r required = (rank required \<le> rank r)"

interpretation role_rank: ranking "\<lambda>required r. AtLeast r required"
  by unfold_locales (auto simp: AtLeast_def)

lemma rank_valid: "0 < rank r \<longleftrightarrow> Role_Valid r"
  by (simp add: rank_def Role_Valid_def)

lemma AtLeast_antisym: "Role_Valid r \<Longrightarrow> AtLeast r s \<Longrightarrow> AtLeast s r \<Longrightarrow> r = s"
  by (auto simp: AtLeast_def rank_def Role_Valid_def role_names split: if_splits)

subsection \<open>Scanning with Sscanf\<close>

text \<open>
  The verbs the password format uses. \<open>%d\<close> skips blanks (a newline is an error), reads the longest
  run of digits and fails when there is none or the number does not fit; trailing input is left.
\<close>

fun skip_blanks :: "string \<Rightarrow> string option" where
  "skip_blanks [] = Some []"
| "skip_blanks (c # cs) = (if char_code c = 10 then None else if is_space c then skip_blanks cs else Some (c # cs))"

definition scan_digits :: "string \<Rightarrow> (nat \<times> string) option" where
  "scan_digits s = (let ds = takeWhile is_digit s
                    in if ds = [] then None else Some (digits_val ds, dropWhile is_digit s))"

definition scan_uint :: "nat \<Rightarrow> string \<Rightarrow> (nat \<times> string) option" where
  "scan_uint bits s =
     (case skip_blanks s of None \<Rightarrow> None
      | Some t \<Rightarrow> (case scan_digits t of None \<Rightarrow> None
          | Some (n, r) \<Rightarrow> if n < 2 ^ bits then Some (n, r) else None))"

definition scan_int :: "string \<Rightarrow> (int \<times> string) option" where
  "scan_int s =
     (case skip_blanks s of None \<Rightarrow> None
      | Some t \<Rightarrow>
          let neg = has_prefix t ''-''; u = (if neg \<or> has_prefix t ''+'' then tl t else t)
          in case scan_digits u of None \<Rightarrow> None
             | Some (n, r) \<Rightarrow> (let v = (if neg then - int n else int n)
                                in if - (2 ^ 63) \<le> v \<and> v < 2 ^ 63 then Some (v, r) else None))"

definition scan_literal :: "string \<Rightarrow> string \<Rightarrow> string option" where
  "scan_literal lit s = (if has_prefix s lit then Some (drop (length lit) s) else None)"

definition scan_version :: "string \<Rightarrow> int option" where
  "scan_version s =
     (case scan_literal ''v='' s of None \<Rightarrow> None | Some t \<Rightarrow> map_option fst (scan_int t))"

definition scan_cost :: "string \<Rightarrow> (nat \<times> nat \<times> nat) option" where
  "scan_cost s =
     (case scan_literal ''m='' s of None \<Rightarrow> None | Some s1 \<Rightarrow>
      (case scan_uint 32 s1 of None \<Rightarrow> None | Some (m, s2) \<Rightarrow>
      (case scan_literal '',t='' s2 of None \<Rightarrow> None | Some s3 \<Rightarrow>
      (case scan_uint 32 s3 of None \<Rightarrow> None | Some (t, s4) \<Rightarrow>
      (case scan_literal '',p='' s4 of None \<Rightarrow> None | Some s5 \<Rightarrow>
      (case scan_uint 8 s5 of None \<Rightarrow> None | Some (p, _) \<Rightarrow> Some (m, t, p)))))))"

subsection \<open>Password hashes\<close>

type_synonym kdf = "byte list \<Rightarrow> byte list \<Rightarrow> nat \<Rightarrow> nat \<Rightarrow> nat \<Rightarrow> nat \<Rightarrow> byte list"

record argon_params =
  arg_Time :: nat
  arg_Memory :: nat
  arg_Threads :: nat
  arg_KeyLen :: nat
  arg_SaltLen :: nat

definition max8 :: "nat \<Rightarrow> nat \<Rightarrow> nat" where
  "max8 a b = (if b < a then a else b)"

definition argonParams :: "nat \<Rightarrow> argon_params" where
  "argonParams numCPU =
     \<lparr>arg_Time = 3, arg_Memory = 64 * 1024, arg_Threads = max8 (numCPU mod 256) 1, arg_KeyLen = 32, arg_SaltLen = 16\<rparr>"

definition argon2_Version :: nat where "argon2_Version = 19"

text \<open>\<open>salt\<close> is what \<open>rand.Read\<close> returned.\<close>

definition HashPassword :: "kdf \<Rightarrow> nat \<Rightarrow> string + byte list \<Rightarrow> string \<Rightarrow> string + string" where
  "HashPassword idkey numCPU salt password =
     (let p = argonParams numCPU
      in case salt of
           Inl e \<Rightarrow> Inl (''auth: read salt: '' @ e)
         | Inr salt \<Rightarrow>
             let hash = idkey (bytes_of password) salt (arg_Time p) (arg_Memory p) (arg_Threads p) (arg_KeyLen p)
             in Inr (''$argon2id$v='' @ dec_nat argon2_Version @ ''$m='' @ dec_nat (arg_Memory p) @
                     '',t='' @ dec_nat (arg_Time p) @ '',p='' @ dec_nat (arg_Threads p) @ ''$'' @
                     EncodeToString RawStdEncoding salt @ ''$'' @ EncodeToString RawStdEncoding hash))"

text \<open>
  The argon2 package panics on a time or parallelism of zero, which a stored hash may carry.
\<close>

datatype verify_result = Verified | ErrInvalidHash | ErrIncompatibleVersion | ErrPasswordMismatch | Panics

definition VerifyPassword :: "kdf \<Rightarrow> string \<Rightarrow> string \<Rightarrow> verify_result" where
  "VerifyPassword idkey password encoded =
     (let parts = split_str encoded ''$''
      in if length parts \<noteq> 6 \<or> parts ! 1 \<noteq> ''argon2id'' then ErrInvalidHash
         else case scan_version (parts ! 2) of
           None \<Rightarrow> ErrInvalidHash
         | Some version \<Rightarrow>
             if version \<noteq> int argon2_Version then ErrIncompatibleVersion
             else case scan_cost (parts ! 3) of
               None \<Rightarrow> ErrInvalidHash
             | Some (memory, time, threads) \<Rightarrow>
                 (case DecodeString RawStdEncoding (parts ! 4) of
                    None \<Rightarrow> ErrInvalidHash
                  | Some salt \<Rightarrow> (case DecodeString RawStdEncoding (parts ! 5) of
                      None \<Rightarrow> ErrInvalidHash
                    | Some want \<Rightarrow>
                        if time < 1 \<or> threads < 1 then Panics
                        else if idkey (bytes_of password) salt time memory threads (length want) \<noteq> want
                        then ErrPasswordMismatch else Verified)))"

lemma takeWhile_digits:
  "list_all is_digit ds \<Longrightarrow> (r = [] \<or> \<not> is_digit (hd r)) \<Longrightarrow>
   takeWhile is_digit (ds @ r) = ds \<and> dropWhile is_digit (ds @ r) = r"
  by (induction ds) (cases r; auto)+

lemma digit_not_blank: "is_digit c \<Longrightarrow> \<not> is_space c \<and> char_code c \<noteq> 10"
  by (auto simp: is_digit_def is_space_def char_code_def)

lemma skip_blanks_digits:
  assumes "list_all is_digit ds" and "ds \<noteq> []"
  shows "skip_blanks (ds @ r) = Some (ds @ r)"
  using assms digit_not_blank by (cases ds) auto

lemma scan_digits_dec_nat:
  "(r = [] \<or> \<not> is_digit (hd r)) \<Longrightarrow> scan_digits (dec_nat n @ r) = Some (n, r)"
  using dec_nat_digits [of n] takeWhile_digits [of "dec_nat n" r] by (auto simp: scan_digits_def Let_def)

lemma scan_uint_dec_nat:
  "n < 2 ^ bits \<Longrightarrow> (r = [] \<or> \<not> is_digit (hd r)) \<Longrightarrow> scan_uint bits (dec_nat n @ r) = Some (n, r)"
  using dec_nat_digits [of n] by (simp add: scan_uint_def skip_blanks_digits scan_digits_dec_nat)

lemma dec_nat_no_sign: "\<not> has_prefix (dec_nat n) ''-''" "\<not> has_prefix (dec_nat n) ''+''"
  using dec_nat_digits [of n] digit_not_sign by (cases "dec_nat n"; auto simp: has_prefix_def)+

lemma scan_int_dec_nat: "int n < 2 ^ 63 \<Longrightarrow> scan_int (dec_nat n) = Some (int n, [])"
  using dec_nat_digits [of n] dec_nat_no_sign [of n] skip_blanks_digits [of "dec_nat n" "[]"] scan_digits_dec_nat [of "[]" n]
  by (simp add: scan_int_def Let_def)

lemma scan_version_dec_nat: "int n < 2 ^ 63 \<Longrightarrow> scan_version (''v='' @ dec_nat n) = Some (int n)"
  unfolding scan_version_def scan_literal_def by (simp add: has_prefix_def scan_int_dec_nat)

lemma scan_cost_dec_nat:
  assumes "m < 2 ^ 32" "t < 2 ^ 32" "p < 2 ^ 8"
  shows "scan_cost (''m='' @ dec_nat m @ '',t='' @ dec_nat t @ '',p='' @ dec_nat p) = Some (m, t, p)"
proof -
  have c: "\<not> is_digit (CHR '','')" by (simp add: is_digit_def char_code_def)
  have "scan_uint 32 (dec_nat m @ '',t='' @ dec_nat t @ '',p='' @ dec_nat p) = Some (m, '',t='' @ dec_nat t @ '',p='' @ dec_nat p)"
    using assms c by (intro scan_uint_dec_nat) auto
  moreover have "scan_uint 32 (dec_nat t @ '',p='' @ dec_nat p) = Some (t, '',p='' @ dec_nat p)"
    using assms c by (intro scan_uint_dec_nat) auto
  moreover have "scan_uint 8 (dec_nat p) = Some (p, [])"
    using assms scan_uint_dec_nat [of p 8 "[]"] by simp
  ultimately show ?thesis
    unfolding scan_cost_def scan_literal_def by (simp add: has_prefix_def)
qed

definition dollar_free :: "string \<Rightarrow> bool" where
  "dollar_free s \<longleftrightarrow> (\<forall>c \<in> set s. c \<noteq> CHR ''$'')"

lemma dollar_free_append [simp]: "dollar_free (s @ t) \<longleftrightarrow> dollar_free s \<and> dollar_free t"
  by (auto simp: dollar_free_def)

lemma dollar_free_simps [simp]: "dollar_free []" "dollar_free (c # s) \<longleftrightarrow> c \<noteq> CHR ''$'' \<and> dollar_free s"
  by (simp_all add: dollar_free_def)

lemma dollar_free_dec_nat [simp]: "dollar_free (dec_nat n)"
  using dec_nat_digits [of n] by (auto simp: dollar_free_def list_all_iff is_digit_def char_code_def)

lemma sextet_char_dollar: "n < 64 \<Longrightarrow> sextet_char e n \<noteq> CHR ''$''"
  by (rule sextet_cases [where n = n]) (auto simp: sextet_char_def char_code_def dest: arg_cong [where f = char_code])

lemma dollar_free_encoded [simp]: "dollar_free (EncodeToString RawStdEncoding bs)"
proof (induction RawStdEncoding bs rule: EncodeToString.induct)
  case (2 a)
  have "unat a div 4 < 64" using unat_byte [of a] by linarith
  then show ?case using sextet_char_dollar by (auto simp: dollar_free_def Let_def pad_def padded_def)
next
  case (3 a b)
  have "(unat a * 256 + unat b) div 1024 < 64" using word_pair_quotients(3) [of a b] by simp
  then show ?case using sextet_char_dollar by (auto simp: dollar_free_def Let_def pad_def padded_def)
next
  case (4 a b c bs)
  have "((unat a * 256 + unat b) * 256 + unat c) div 262144 < 64" using byte_quotients(4) [of a b c] by simp
  with 4 show ?case using sextet_char_dollar by (auto simp: dollar_free_def Let_def)
qed (simp add: dollar_free_def)

lemma hashed_password_verifies:
  assumes kdf: "\<And>pw salt t m p n. length (idkey pw salt t m p n) = n"
    and hash: "HashPassword idkey numCPU (Inr salt) password = Inr encoded"
  shows "VerifyPassword idkey password encoded = Verified \<and>
    VerifyPassword idkey other encoded =
      (if idkey (bytes_of other) salt 3 65536 (max8 (numCPU mod 256) 1) 32
          = idkey (bytes_of password) salt 3 65536 (max8 (numCPU mod 256) 1) 32
       then Verified else ErrPasswordMismatch)"
proof -
  let ?p = "max8 (numCPU mod 256) 1"
  let ?h = "idkey (bytes_of password) salt 3 65536 ?p 32"
  let ?v = "''v='' @ dec_nat 19" and ?c = "''m='' @ dec_nat 65536 @ '',t='' @ dec_nat 3 @ '',p='' @ dec_nat ?p"
  let ?parts = "[[], ''argon2id'', ?v, ?c, EncodeToString RawStdEncoding salt, EncodeToString RawStdEncoding ?h]"
  have e: "encoded = join_str [CHR ''$''] ?parts"
    using hash by (simp add: HashPassword_def argonParams_def argon2_Version_def Let_def)
  have p: "1 \<le> ?p" "?p < 2 ^ 8" by (auto simp: max8_def)
  have "\<forall>q \<in> set ?parts. dollar_free q" by simp
  then have "split_str encoded [CHR ''$''] = ?parts"
    unfolding e by (intro split_join) (simp_all add: dollar_free_def)
  moreover have "scan_version ?v = Some 19" using scan_version_dec_nat [of 19] by simp
  moreover have "scan_cost ?c = Some (65536, 3, ?p)" using p by (intro scan_cost_dec_nat) simp_all
  ultimately show ?thesis
    using p kdf by (simp add: VerifyPassword_def argon2_Version_def DecodeString_EncodeToString)
qed

text \<open>A password verifies against the hash HashPassword made of it, on every machine; another
  password verifies exactly when Argon2 derives the same key from it.\<close>

theorem password_roundtrip:
  assumes kdf: "\<And>pw salt t m p n. length (idkey pw salt t m p n) = n"
    and hash: "HashPassword idkey numCPU (Inr salt) password = Inr encoded"
  shows "VerifyPassword idkey password encoded = Verified \<and>
    VerifyPassword idkey other encoded =
      (if idkey (bytes_of other) salt 3 65536 (max8 (numCPU mod 256) 1) 32
          = idkey (bytes_of password) salt 3 65536 (max8 (numCPU mod 256) 1) 32
       then Verified else ErrPasswordMismatch)"
  by (rule hashed_password_verifies [OF assms])

definition demo_kdf :: kdf where
  "demo_kdf pw salt t m p n = take n (pw @ salt @ replicate n 0)"

lemma demo_kdf_length: "length (demo_kdf pw salt t m p n) = n"
  by (simp add: demo_kdf_def)

theorem password_roundtrip_witness:
  "\<exists>encoded. HashPassword demo_kdf 8 (Inr (replicate 16 5)) ''pw'' = Inr encoded \<and>
     VerifyPassword demo_kdf ''pw'' encoded = Verified \<and> VerifyPassword demo_kdf ''pv'' encoded = ErrPasswordMismatch"
proof -
  obtain encoded where e: "HashPassword demo_kdf 8 (Inr (replicate 16 5)) ''pw'' = Inr encoded"
    by (simp add: HashPassword_def Let_def)
  have "demo_kdf (bytes_of ''pv'') (replicate 16 5) 3 65536 (max8 (8 mod 256) 1) 32
      \<noteq> demo_kdf (bytes_of ''pw'') (replicate 16 5) 3 65536 (max8 (8 mod 256) 1) 32"
    by (simp add: demo_kdf_def bytes_of_def char_code_def)
  then show ?thesis using password_roundtrip [OF demo_kdf_length e, of "''pv''"] e by auto
qed

subsection \<open>Tokens\<close>

definition KindAccess :: string where "KindAccess = ''access''"
definition KindRefresh :: string where "KindRefresh = ''refresh''"
definition KindAgent :: string where "KindAgent = ''agent''"
definition KindCollector :: string where "KindCollector = ''collector''"
definition KindDocs :: string where "KindDocs = ''docs''"

lemmas kind_names = KindAccess_def KindRefresh_def KindAgent_def KindCollector_def KindDocs_def

definition AgentTTL :: int where "AgentTTL = seconds (30 * 24 * 3600)"
definition CollectorTTL :: int where "CollectorTTL = seconds (30 * 24 * 3600)"

definition uuid_Nil :: uuid where
  "uuid_Nil = ''00000000-0000-0000-0000-000000000000''"

text \<open>The registered claims (numeric dates in whole seconds) and Sonar's own three.\<close>

record Claims =
  cl_Issuer :: string
  cl_Subject :: string
  cl_ExpiresAt :: int
  cl_IssuedAt :: int
  cl_NotBefore :: int
  cl_ID :: string
  cl_UserID :: uuid
  cl_Kind :: string
  cl_Role :: string

record Issuer =
  is_secret :: "byte list"
  is_accessTTL :: int
  is_refreshTTL :: int

text \<open>
  The JWT library: \<open>jl_sign\<close> is \<open>SignedString\<close> with HS256, \<open>jl_parse\<close> is \<open>ParseWithClaims\<close> with
  the key function of \<open>Parse\<close> at a given time, \<open>None\<close> for every error.
\<close>

record jwt_lib =
  jl_sign :: "byte list \<Rightarrow> Claims \<Rightarrow> string + string"
  jl_parse :: "byte list \<Rightarrow> int \<Rightarrow> string \<Rightarrow> Claims option"

definition numeric_date :: "int \<Rightarrow> int" where
  "numeric_date t = t div 1000000000"

definition NewIssuer :: "string \<Rightarrow> int \<Rightarrow> int \<Rightarrow> string + Issuer" where
  "NewIssuer secretB64 accessTTL refreshTTL =
     (case DecodeString StdEncoding secretB64 of
        None \<Rightarrow> Inl ''auth: decode jwt secret''
      | Some key \<Rightarrow> if length key < 32 then Inl ''auth: jwt secret must be >= 32 bytes''
                    else Inr \<lparr>is_secret = key, is_accessTTL = accessTTL, is_refreshTTL = refreshTTL\<rparr>)"

definition token_ttl :: "Issuer \<Rightarrow> string \<Rightarrow> int" where
  "token_ttl iss kind =
     (if kind = KindRefresh then is_refreshTTL iss else if kind = KindAgent then AgentTTL
      else if kind = KindCollector then CollectorTTL else is_accessTTL iss)"

definition token_claims :: "Issuer \<Rightarrow> int \<Rightarrow> string \<Rightarrow> uuid \<Rightarrow> string \<Rightarrow> string \<Rightarrow> Claims" where
  "token_claims iss now jti userID role kind =
     \<lparr>cl_Issuer = ''sonar'', cl_Subject = userID, cl_ExpiresAt = numeric_date (now + token_ttl iss kind),
      cl_IssuedAt = numeric_date now, cl_NotBefore = numeric_date now, cl_ID = jti,
      cl_UserID = userID, cl_Kind = kind, cl_Role = role\<rparr>"

definition Issue :: "jwt_lib \<Rightarrow> Issuer \<Rightarrow> int \<Rightarrow> string \<Rightarrow> uuid \<Rightarrow> string \<Rightarrow> string \<Rightarrow> string + string \<times> int" where
  "Issue lib iss now jti userID role kind =
     (case jl_sign lib (is_secret iss) (token_claims iss now jti userID role kind) of
        Inl e \<Rightarrow> Inl (''auth: sign: '' @ e)
      | Inr tok \<Rightarrow> Inr (tok, now + token_ttl iss kind))"

definition Parse_token :: "jwt_lib \<Rightarrow> Issuer \<Rightarrow> int \<Rightarrow> string \<Rightarrow> string \<Rightarrow> Claims option" where
  "Parse_token lib iss now token expectedKind =
     (case jl_parse lib (is_secret iss) now token of
        None \<Rightarrow> None
      | Some c \<Rightarrow> if cl_Kind c \<noteq> expectedKind then None
                  else if cl_UserID c = uuid_Nil then None else Some c)"

text \<open>
  What the library documents: a signed token parses to its claims between its not-before and its
  expiry.
\<close>

definition jwt_ok :: "jwt_lib \<Rightarrow> bool" where
  "jwt_ok lib \<longleftrightarrow> (\<forall>secret c tok now. jl_sign lib secret c = Inr tok \<longrightarrow>
     jl_parse lib secret now tok =
       (if cl_NotBefore c * 1000000000 \<le> now \<and> now < cl_ExpiresAt c * 1000000000 then Some c else None))"

lemma parse_issued:
  assumes "jwt_ok lib" and "Issue lib iss now jti uid role kind = Inr (tok, expiry)"
  shows "Parse_token lib iss later tok expected =
    (if kind = expected \<and> uid \<noteq> uuid_Nil \<and> numeric_date now * 1000000000 \<le> later \<and>
        later < numeric_date (now + token_ttl iss kind) * 1000000000
     then Some (token_claims iss now jti uid role kind) else None)"
proof -
  have "jl_sign lib (is_secret iss) (token_claims iss now jti uid role kind) = Inr tok"
    using assms(2) by (auto simp: Issue_def split: sum.splits)
  then have "jl_parse lib (is_secret iss) later tok =
      (let c = token_claims iss now jti uid role kind
       in if cl_NotBefore c * 1000000000 \<le> later \<and> later < cl_ExpiresAt c * 1000000000 then Some c else None)"
    using assms(1) by (simp add: jwt_ok_def Let_def)
  then show ?thesis by (simp add: Parse_token_def token_claims_def Let_def)
qed

text \<open>A token Issue made is accepted exactly as the kind it was made for, for a real user, from
  the second it was made and before it expires; it then carries the user and role it was made
  with. No kind of token passes for another.\<close>

theorem token_kinds_separate:
  assumes "jwt_ok lib" and "Issue lib iss now jti uid role kind = Inr (tok, expiry)"
  shows "map_option (\<lambda>c. (cl_UserID c, cl_Role c)) (Parse_token lib iss later tok expected) =
    (if kind = expected \<and> uid \<noteq> uuid_Nil \<and> now div 1000000000 * 1000000000 \<le> later \<and>
        later < expiry div 1000000000 * 1000000000
     then Some (uid, role) else None)"
proof -
  have "expiry = now + token_ttl iss kind" using assms(2) by (auto simp: Issue_def split: sum.splits)
  then show ?thesis by (simp add: parse_issued [OF assms] token_claims_def numeric_date_def)
qed

text \<open>A library that satisfies the hypothesis: a table of the tokens it has signed.\<close>

definition table_lib :: "(Claims \<times> string) list \<Rightarrow> jwt_lib" where
  "table_lib tbl =
     \<lparr>jl_sign = (\<lambda>secret c. case map_of tbl c of None \<Rightarrow> Inl ''no entropy'' | Some t \<Rightarrow> Inr t),
      jl_parse = (\<lambda>secret now tok. case map_of (map prod.swap tbl) tok of None \<Rightarrow> None
         | Some c \<Rightarrow> if cl_NotBefore c * 1000000000 \<le> now \<and> now < cl_ExpiresAt c * 1000000000 then Some c else None)\<rparr>"

lemma table_lib_ok:
  assumes "distinct (map snd tbl)"
  shows "jwt_ok (table_lib tbl)"
proof -
  have "map_of (map prod.swap tbl) tok = Some c" if "map_of tbl c = Some tok" for c tok
    using assms map_of_SomeD [OF that] by (intro map_of_is_SomeI) (force simp: comp_def)+
  then show ?thesis by (auto simp: jwt_ok_def table_lib_def split: option.splits)
qed

definition demo_iss :: Issuer where
  "demo_iss = \<lparr>is_secret = replicate 32 1, is_accessTTL = seconds 900, is_refreshTTL = seconds 86400\<rparr>"

definition demo_tokens :: "(Claims \<times> string) list" where
  "demo_tokens = [(token_claims demo_iss 5000000000 ''j1'' ''ann'' RoleTech KindAccess, ''t-access''),
     (token_claims demo_iss 5000000000 ''j2'' ''ann'' RoleTech KindRefresh, ''t-refresh'')]"

lemma demo_lib_ok: "jwt_ok (table_lib demo_tokens)"
  by (rule table_lib_ok) (simp add: demo_tokens_def)

lemma demo_issue:
  "Issue (table_lib demo_tokens) demo_iss 5000000000 ''j1'' ''ann'' RoleTech KindAccess = Inr (''t-access'', 905000000000)"
  "Issue (table_lib demo_tokens) demo_iss 5000000000 ''j2'' ''ann'' RoleTech KindRefresh = Inr (''t-refresh'', 86405000000000)"
  by (simp_all add: Issue_def table_lib_def demo_tokens_def token_ttl_def demo_iss_def kind_names seconds_small
      token_claims_def numeric_date_def)

theorem token_kinds_separate_witness:
  "Parse_token (table_lib demo_tokens) demo_iss 6000000000 ''t-refresh'' KindAccess = None \<and>
   map_option cl_Role (Parse_token (table_lib demo_tokens) demo_iss 6000000000 ''t-access'' KindAccess) = Some RoleTech"
  using token_kinds_separate [OF demo_lib_ok demo_issue(2), of 6000000000 KindAccess]
    token_kinds_separate [OF demo_lib_ok demo_issue(1), of 6000000000 KindAccess]
  by (auto simp: kind_names uuid_Nil_def)

end
