(* ===== verification/Access.thy ===== *)
theory Access
  imports Auth
begin

text \<open>
  Who may call what: the middleware of \<open>internal/api\<close> (\<open>middleware.go\<close>, \<open>handlers_docs.go\<close>), the
  site scope of API keys (\<open>apikey_scope.go\<close>), login and refresh (\<open>handlers_auth.go\<close>), the API-key
  handlers (\<open>handlers_apikeys.go\<close>) and the route table (\<open>server.go\<close>). The JWT library, SHA-256,
  Argon2, the random source and what the database answers are parameters; chi's matching of a path
  to its route is not modelled, a request arrives with its route.
\<close>

subsection \<open>State and requests\<close>

record user_row =
  us_id :: uuid
  us_email :: string
  us_role :: string
  us_hash :: string
  us_totp_enrolled :: bool
  us_active :: bool

record key_row =
  ak_id :: uuid
  ak_user :: uuid
  ak_name :: string
  ak_hash :: "byte list"
  ak_scopes :: "string list"
  ak_revoked :: bool
  ak_expires :: "int option"

record access_db =
  ad_users :: "user_row list"
  ad_keys :: "key_row list"
  ad_key_sites :: "(uuid \<times> uuid) list"

record access_env =
  ae_lib :: jwt_lib
  ae_iss :: Issuer
  ae_now :: int
  ae_sha256 :: "byte list \<Rightarrow> byte list"
  ae_kdf :: kdf
  ae_rand :: "string + byte list"
  ae_new_id :: uuid
  ae_jti :: "nat \<Rightarrow> string"
  ae_fault :: "string \<Rightarrow> bool"
  ae_site_scans :: "uuid \<Rightarrow> bool"
  ae_parse_uuid :: "string \<Rightarrow> uuid option"

record request =
  rq_authorization :: string
  rq_docs_cookie :: "string option"
  rq_accept :: string

record site_scope =
  sc_Restrict :: bool
  sc_Sites :: "uuid list"

record ctx =
  cx_user :: "uuid option"
  cx_role :: "string option"
  cx_collector :: "uuid option"
  cx_key :: "uuid option"
  cx_scope :: "site_scope option"

definition no_ctx :: ctx where
  "no_ctx = \<lparr>cx_user = None, cx_role = None, cx_collector = None, cx_key = None, cx_scope = None\<rparr>"

datatype response = Refused nat string string | RedirectTo string | Serve ctx

subsection \<open>Middleware\<close>

definition apiKeyBearerPrefix :: string where "apiKeyBearerPrefix = ''scr_''"

definition bearerToken :: "request \<Rightarrow> string" where
  "bearerToken rq =
     (let h = rq_authorization rq in
      if h = [] then [] else if \<not> has_prefix h ''Bearer '' then [] else trim_space (drop 7 h))"

definition unauthorized :: "string \<Rightarrow> response" where
  "unauthorized msg = Refused 401 ''unauthorized'' msg"

definition user_ctx :: "uuid \<Rightarrow> string \<Rightarrow> ctx" where
  "user_ctx uid role = no_ctx\<lparr>cx_user := Some uid, cx_role := Some role\<rparr>"

text \<open>The query for a live key, and the site rows that scan. A failed site query leaves no restriction.\<close>

definition live_key :: "access_env \<Rightarrow> access_db \<Rightarrow> string \<Rightarrow> key_row option" where
  "live_key env db raw =
     (if ae_fault env ''key'' then None
      else find (\<lambda>k. ak_hash k = ae_sha256 env (bytes_of raw) \<and> \<not> ak_revoked k \<and>
                      (case ak_expires k of None \<Rightarrow> True | Some e \<Rightarrow> e > ae_now env)) (ad_keys db))"

definition key_scope :: "access_env \<Rightarrow> access_db \<Rightarrow> uuid \<Rightarrow> site_scope" where
  "key_scope env db keyID =
     (let sids = (if ae_fault env ''sites'' then []
                  else filter (ae_site_scans env) (map snd (filter (\<lambda>(k, _). k = keyID) (ad_key_sites db))))
      in \<lparr>sc_Restrict = (sids \<noteq> []), sc_Sites = remdups sids\<rparr>)"

definition authAPIKey :: "access_env \<Rightarrow> access_db \<Rightarrow> string \<Rightarrow> response" where
  "authAPIKey env db raw =
     (case live_key env db raw of
        None \<Rightarrow> unauthorized ''invalid api key''
      | Some k \<Rightarrow>
          (case (if ae_fault env ''user'' then None
                 else find (\<lambda>u. us_id u = ak_user k \<and> us_active u) (ad_users db)) of
             None \<Rightarrow> unauthorized ''api key user inactive''
           | Some u \<Rightarrow> Serve ((user_ctx (ak_user k) (us_role u))
                 \<lparr>cx_key := Some (ak_id k), cx_scope := Some (key_scope env db (ak_id k))\<rparr>)))"

definition authRequired :: "access_env \<Rightarrow> access_db \<Rightarrow> request \<Rightarrow> response" where
  "authRequired env db rq =
     (let raw = bearerToken rq in
      if raw = [] then unauthorized ''missing bearer token''
      else if has_prefix raw apiKeyBearerPrefix then authAPIKey env db raw
      else case Parse_token (ae_lib env) (ae_iss env) (ae_now env) raw KindAccess of
             None \<Rightarrow> unauthorized ''invalid token''
           | Some c \<Rightarrow> Serve (user_ctx (cl_UserID c) (cl_Role c)))"

definition requireRole :: "string \<Rightarrow> ctx \<Rightarrow> response" where
  "requireRole required cx =
     (let role = (case cx_role cx of None \<Rightarrow> [] | Some r \<Rightarrow> r)
      in if \<not> AtLeast role required then Refused 403 ''forbidden'' ''insufficient role'' else Serve cx)"

definition collectorAuthRequired :: "access_env \<Rightarrow> request \<Rightarrow> response" where
  "collectorAuthRequired env rq =
     (let raw = bearerToken rq in
      if raw = [] then unauthorized ''missing bearer token''
      else case Parse_token (ae_lib env) (ae_iss env) (ae_now env) raw KindCollector of
             None \<Rightarrow> unauthorized ''invalid collector token''
           | Some c \<Rightarrow> Serve (no_ctx\<lparr>cx_collector := Some (cl_UserID c)\<rparr>))"

definition docsAuthRequired :: "access_env \<Rightarrow> request \<Rightarrow> response" where
  "docsAuthRequired env rq =
     (let raw = bearerToken rq;
          parse = (\<lambda>tok kind. Parse_token (ae_lib env) (ae_iss env) (ae_now env) tok kind);
          bearer = (if raw \<noteq> [] \<and> \<not> has_prefix raw apiKeyBearerPrefix then parse raw KindAccess else None);
          cookie = (case rq_docs_cookie rq of None \<Rightarrow> None
                    | Some v \<Rightarrow> if v = [] then None else parse v KindDocs)
      in case bearer of
           Some c \<Rightarrow> Serve (user_ctx (cl_UserID c) (cl_Role c))
         | None \<Rightarrow> (case cookie of
             Some c \<Rightarrow> Serve (user_ctx (cl_UserID c) (cl_Role c))
           | None \<Rightarrow> if contains (rq_accept rq) ''text/html'' then RedirectTo ''/login''
                     else unauthorized ''docs session required''))"

definition userIDFromCtx :: "ctx \<Rightarrow> uuid" where
  "userIDFromCtx cx = (case cx_user cx of None \<Rightarrow> uuid_Nil | Some u \<Rightarrow> u)"

definition apiKeyIDFromCtx :: "ctx \<Rightarrow> uuid" where
  "apiKeyIDFromCtx cx = (case cx_key cx of None \<Rightarrow> uuid_Nil | Some u \<Rightarrow> u)"

definition collectorIDFromCtx :: "ctx \<Rightarrow> uuid" where
  "collectorIDFromCtx cx = (case cx_collector cx of None \<Rightarrow> uuid_Nil | Some u \<Rightarrow> u)"

definition apiKeyAllowsSite :: "ctx \<Rightarrow> uuid \<Rightarrow> bool" where
  "apiKeyAllowsSite cx site =
     (case cx_scope cx of None \<Rightarrow> True
      | Some sc \<Rightarrow> if \<not> sc_Restrict sc then True else site \<in> set (sc_Sites sc))"

text \<open>The SQL text with its arguments; \<open>ids\<close> are the sites in the order Go walks the map.\<close>

definition appendAPISiteFilter :: "(uuid list \<Rightarrow> uuid list) \<Rightarrow> string \<Rightarrow> uuid list list \<Rightarrow> ctx \<Rightarrow> string \<Rightarrow> string \<times> uuid list list" where
  "appendAPISiteFilter order q args cx siteColumn =
     (case cx_scope cx of None \<Rightarrow> (q, args)
      | Some sc \<Rightarrow>
          if \<not> sc_Restrict sc then (q, args)
          else if length (sc_Sites sc) = 0 then (q @ '' AND FALSE'', args)
          else (q @ '' AND '' @ siteColumn @ ''::text = ANY($'' @ itoa (int (length args) + 1) @ ''::text[])'',
                args @ [order (sc_Sites sc)]))"

subsection \<open>Login and refresh\<close>

record login_req =
  lg_Email :: string
  lg_Password :: string
  lg_TOTP :: string

text \<open>The body answered: an error, a second-factor prompt, or tokens. A panic becomes a 500.\<close>

datatype login_result =
    LoginFailed nat string string
  | MFARequired uuid
  | Tokens string string int "uuid option"

text \<open>\<open>GetUserByEmail\<close> compares in lower case; its errors are no row and everything else.\<close>

definition GetUserByEmail :: "access_env \<Rightarrow> access_db \<Rightarrow> string \<Rightarrow> bool + user_row" where
  "GetUserByEmail env db email =
     (if ae_fault env ''lookup'' then Inl False
      else case find (\<lambda>u. to_lower (us_email u) = to_lower email) (ad_users db) of
             None \<Rightarrow> Inl True | Some u \<Rightarrow> Inr u)"

definition handleLogin :: "access_env \<Rightarrow> access_db \<Rightarrow> login_req option \<Rightarrow> login_result" where
  "handleLogin env db body =
     (case body of None \<Rightarrow> LoginFailed 400 ''bad_request'' ''invalid JSON body''
      | Some req \<Rightarrow> (case GetUserByEmail env db (lg_Email req) of
          Inl True \<Rightarrow> LoginFailed 401 ''unauthorized'' ''invalid credentials''
        | Inl False \<Rightarrow> LoginFailed 500 ''server_error'' ''lookup failed''
        | Inr u \<Rightarrow>
            if \<not> us_active u then LoginFailed 401 ''unauthorized'' ''account disabled''
            else case VerifyPassword (ae_kdf env) (lg_Password req) (us_hash u) of
                Panics \<Rightarrow> LoginFailed 500 [] []
              | Verified \<Rightarrow>
                  if us_totp_enrolled u \<and> lg_TOTP req = [] then MFARequired (us_id u)
                  else (case Issue (ae_lib env) (ae_iss env) (ae_now env) (ae_jti env 0) (us_id u) (us_role u) KindAccess of
                      Inl _ \<Rightarrow> LoginFailed 500 ''server_error'' ''token issue failed''
                    | Inr (access, expiry) \<Rightarrow>
                        (case Issue (ae_lib env) (ae_iss env) (ae_now env) (ae_jti env 1) (us_id u) (us_role u) KindRefresh of
                           Inl _ \<Rightarrow> LoginFailed 500 ''server_error'' ''token issue failed''
                         | Inr (refresh, _) \<Rightarrow> Tokens access refresh expiry (Some (us_id u))))
              | _ \<Rightarrow> LoginFailed 401 ''unauthorized'' ''invalid credentials''))"

definition handleRefresh :: "access_env \<Rightarrow> string option \<Rightarrow> login_result" where
  "handleRefresh env body =
     (case body of None \<Rightarrow> LoginFailed 400 ''bad_request'' ''invalid JSON body''
      | Some tok \<Rightarrow>
          (case Parse_token (ae_lib env) (ae_iss env) (ae_now env) tok KindRefresh of
             None \<Rightarrow> LoginFailed 401 ''unauthorized'' ''invalid refresh token''
           | Some c \<Rightarrow>
               (case Issue (ae_lib env) (ae_iss env) (ae_now env) (ae_jti env 0) (cl_UserID c) (cl_Role c) KindAccess of
                  Inl _ \<Rightarrow> LoginFailed 500 ''server_error'' ''token issue failed''
                | Inr (access, expiry) \<Rightarrow> Tokens access tok expiry None)))"

subsection \<open>API keys\<close>

record create_key_req =
  ck_Name :: string
  ck_Scopes :: "string list"
  ck_ExpiresAt :: "int option"

datatype key_result = KeyFailed nat string string | KeyCreated uuid string string | NoContent

definition handleCreateAPIKey :: "access_env \<Rightarrow> ctx \<Rightarrow> create_key_req option \<Rightarrow> access_db \<Rightarrow> key_result \<times> access_db" where
  "handleCreateAPIKey env cx body db =
     (case body of None \<Rightarrow> (KeyFailed 400 ''bad_request'' ''name required'', db)
      | Some req \<Rightarrow>
          if ck_Name req = [] then (KeyFailed 400 ''bad_request'' ''name required'', db)
          else (case ae_rand env of
              Inl _ \<Rightarrow> (KeyFailed 500 ''server_error'' ''rng failed'', db)
            | Inr raw \<Rightarrow>
                let token = apiKeyBearerPrefix @ EncodeToString RawURLEncoding raw;
                    row = \<lparr>ak_id = ae_new_id env, ak_user = userIDFromCtx cx, ak_name = ck_Name req,
                           ak_hash = ae_sha256 env (bytes_of token), ak_scopes = ck_Scopes req,
                           ak_revoked = False, ak_expires = ck_ExpiresAt req\<rparr>
                in if ae_fault env ''insert key'' \<or> list_ex (\<lambda>k. ak_hash k = ak_hash row) (ad_keys db) then (KeyFailed 400 ''bad_request'' ''create failed'', db)
                   else (KeyCreated (ae_new_id env) (ck_Name req) token, db\<lparr>ad_keys := ad_keys db @ [row]\<rparr>)))"

definition handleRevokeAPIKey :: "access_env \<Rightarrow> ctx \<Rightarrow> string \<Rightarrow> access_db \<Rightarrow> key_result \<times> access_db" where
  "handleRevokeAPIKey env cx param db =
     (case ae_parse_uuid env param of None \<Rightarrow> (KeyFailed 400 ''bad_request'' ''invalid id'', db)
      | Some i \<Rightarrow>
          let mine = (\<lambda>k. ak_id k = i \<and> ak_user k = userIDFromCtx cx \<and> \<not> ak_revoked k)
          in if ae_fault env ''revoke'' then (KeyFailed 500 ''server_error'' ''revoke failed'', db)
             else if \<not> list_ex mine (ad_keys db) then (KeyFailed 404 ''not_found'' ''key not found'', db)
             else (NoContent, db\<lparr>ad_keys := map (\<lambda>k. if mine k then k\<lparr>ak_revoked := True\<rparr> else k) (ad_keys db)\<rparr>))"

text \<open>The inserts of one PUT, in order; a conflicting pair is kept once.\<close>

fun bind_sites :: "access_env \<Rightarrow> uuid \<Rightarrow> string list \<Rightarrow> (uuid \<times> uuid) list \<Rightarrow> key_result + (uuid \<times> uuid) list" where
  "bind_sites env i [] ps = Inr ps"
| "bind_sites env i (raw # raws) ps =
     (case ae_parse_uuid env raw of
        None \<Rightarrow> Inl (KeyFailed 400 ''bad_request'' ''invalid site id'')
      | Some sid \<Rightarrow> if ae_fault env sid then Inl (KeyFailed 400 ''bad_request'' ''bind site failed'')
                    else bind_sites env i raws (if (i, sid) \<in> set ps then ps else ps @ [(i, sid)]))"

definition handlePutAPIKeySites :: "access_env \<Rightarrow> ctx \<Rightarrow> string \<Rightarrow> string list option \<Rightarrow> access_db \<Rightarrow> key_result \<times> access_db" where
  "handlePutAPIKeySites env cx param body db =
     (case ae_parse_uuid env param of None \<Rightarrow> (KeyFailed 400 ''bad_request'' ''invalid id'', db)
      | Some i \<Rightarrow> (case body of None \<Rightarrow> (KeyFailed 400 ''bad_request'' ''invalid JSON'', db)
        | Some raws \<Rightarrow>
            (case (if ae_fault env ''owner'' then None else find (\<lambda>k. ak_id k = i \<and> \<not> ak_revoked k) (ad_keys db)) of
               None \<Rightarrow> (KeyFailed 404 ''not_found'' ''key not found'', db)
             | Some k \<Rightarrow>
                 if ak_user k \<noteq> userIDFromCtx cx then (KeyFailed 403 ''forbidden'' ''not your API key'', db)
                 else if ae_fault env ''begin'' then (KeyFailed 500 ''server_error'' ''tx failed'', db)
                 else if ae_fault env ''delete'' then (KeyFailed 400 ''bad_request'' ''clear sites failed'', db)
                 else (case bind_sites env i raws (filter (\<lambda>(k, _). k \<noteq> i) (ad_key_sites db)) of
                     Inl e \<Rightarrow> (e, db)
                   | Inr ps \<Rightarrow> if ae_fault env ''commit'' then (KeyFailed 500 ''server_error'' ''commit failed'', db)
                               else (NoContent, db\<lparr>ad_key_sites := ps\<rparr>)))))"

subsection \<open>Routes\<close>

datatype guard = Public | NeedUser | NeedRole string | NeedCollector | NeedDocs

datatype route = Route (rt_method: string) (rt_path: string) (rt_guard: guard)

text \<open>The table \<open>Routes\<close> builds, in order; a HandleFunc answers every method.\<close>

definition routes :: "route list" where
  "routes =
     [Route ''GET'' ''/api/v1/healthz'' Public,
      Route ''GET'' ''/api/v1/version'' Public,
      Route ''GET'' ''/api/v1/openapi.yaml'' Public,
      Route ''POST'' ''/api/v1/auth/login'' Public,
      Route ''POST'' ''/api/v1/auth/refresh'' Public,
      Route ''GET'' ''/api/v1/auth/oidc/login'' Public,
      Route ''GET'' ''/api/v1/auth/oidc/callback'' Public,
      Route ''POST'' ''/api/v1/agents/enroll'' Public,
      Route ''POST'' ''/api/v1/collectors/enroll'' Public,
      Route ''GET'' ''/api/v1/agent/checks'' Public,
      Route ''POST'' ''/api/v1/agent/checks/results'' Public,
      Route ''GET'' ''/api/v1/collectors/me'' NeedCollector,
      Route ''GET'' ''/api/v1/collectors/me/jobs'' NeedCollector,
      Route ''GET'' ''/api/v1/collectors/me/snmp-targets'' NeedCollector,
      Route ''POST'' ''/api/v1/collectors/me/snmp-result'' NeedCollector,
      Route ''POST'' ''/api/v1/collectors/me/snmp-error'' NeedCollector,
      Route ''GET'' ''/api/v1/collectors/me/site-credentials'' NeedCollector,
      Route ''POST'' ''/api/v1/collectors/me/discovery-results'' NeedCollector,
      Route ''GET'' ''/api/v1/collectors/me/passive-snmp-settings'' NeedCollector,
      Route ''POST'' ''/api/v1/collectors/me/passive-snmp'' NeedCollector,
      Route ''GET'' ''/api/v1/probe/download/{os}/{arch}'' Public,
      Route ''GET'' ''/api/v1/probe/latest'' Public,
      Route ''GET'' ''/api/v1/probe/install.sh'' Public,
      Route ''GET'' ''/api/v1/probe/install.ps1'' Public,
      Route ''GET'' ''/api/v1/auth/me'' NeedUser,
      Route ''POST'' ''/api/v1/docs/session'' NeedUser,
      Route ''GET'' ''/api/v1/sites'' NeedUser,
      Route ''POST'' ''/api/v1/sites'' (NeedRole RoleSuperAdmin),
      Route ''PATCH'' ''/api/v1/sites/{id}'' (NeedRole RoleSuperAdmin),
      Route ''DELETE'' ''/api/v1/sites/{id}'' (NeedRole RoleSuperAdmin),
      Route ''GET'' ''/api/v1/users'' (NeedRole RoleSuperAdmin),
      Route ''POST'' ''/api/v1/users'' (NeedRole RoleSuperAdmin),
      Route ''PATCH'' ''/api/v1/users/{id}'' (NeedRole RoleSuperAdmin),
      Route ''DELETE'' ''/api/v1/users/{id}'' (NeedRole RoleSuperAdmin),
      Route ''GET'' ''/api/v1/agents'' NeedUser,
      Route ''GET'' ''/api/v1/agents/overview/devices-averages'' NeedUser,
      Route ''GET'' ''/api/v1/agents/overview/devices-performance'' NeedUser,
      Route ''GET'' ''/api/v1/agents/overview/network-latency'' NeedUser,
      Route ''GET'' ''/api/v1/agents/overview/network-performance'' NeedUser,
      Route ''GET'' ''/api/v1/agents/overview/applications-performance'' NeedUser,
      Route ''GET'' ''/api/v1/agents/overview/user-experience'' NeedUser,
      Route ''GET'' ''/api/v1/agents/data'' NeedUser,
      Route ''GET'' ''/api/v1/agents/data/{index}'' NeedUser,
      Route ''GET'' ''/api/v1/agents/events'' NeedUser,
      Route ''GET'' ''/api/v1/agents/compliance'' NeedUser,
      Route ''GET'' ''/api/v1/agents/{id}/compliance'' NeedUser,
      Route ''GET'' ''/api/v1/agents/{id}'' NeedUser,
      Route ''GET'' ''/api/v1/agents/{id}/metrics'' NeedUser,
      Route ''GET'' ''/api/v1/agents/{id}/network'' NeedUser,
      Route ''GET'' ''/api/v1/agents/{id}/latency'' NeedUser,
      Route ''GET'' ''/api/v1/agents/{id}/network-graph'' NeedUser,
      Route ''PATCH'' ''/api/v1/agents/{id}'' (NeedRole RoleSiteAdmin),
      Route ''DELETE'' ''/api/v1/agents/{id}'' (NeedRole RoleSiteAdmin),
      Route ''GET'' ''/api/v1/agents/enrollment-tokens'' (NeedRole RoleSiteAdmin),
      Route ''POST'' ''/api/v1/agents/enrollment-tokens'' (NeedRole RoleSiteAdmin),
      Route ''DELETE'' ''/api/v1/agents/enrollment-tokens/{id}'' (NeedRole RoleSiteAdmin),
      Route ''GET'' ''/api/v1/collectors'' NeedUser,
      Route ''GET'' ''/api/v1/collectors/{id}'' NeedUser,
      Route ''GET'' ''/api/v1/collectors/{id}/health'' NeedUser,
      Route ''PATCH'' ''/api/v1/collectors/{id}'' (NeedRole RoleSiteAdmin),
      Route ''DELETE'' ''/api/v1/collectors/{id}'' (NeedRole RoleSiteAdmin),
      Route ''POST'' ''/api/v1/collectors/enrollment-tokens'' (NeedRole RoleSiteAdmin),
      Route ''GET'' ''/api/v1/collectors/enrollment-tokens'' (NeedRole RoleSiteAdmin),
      Route ''DELETE'' ''/api/v1/collectors/enrollment-tokens/{id}'' (NeedRole RoleSiteAdmin),
      Route ''GET'' ''/api/v1/appliances'' NeedUser,
      Route ''POST'' ''/api/v1/appliances'' (NeedRole RoleSiteAdmin),
      Route ''GET'' ''/api/v1/appliances/{id}'' NeedUser,
      Route ''GET'' ''/api/v1/appliances/{id}/metrics'' NeedUser,
      Route ''GET'' ''/api/v1/appliances/{id}/vendor-metrics'' NeedUser,
      Route ''GET'' ''/api/v1/appliances/{id}/interfaces/{ifIndex}/metrics'' NeedUser,
      Route ''PATCH'' ''/api/v1/appliances/{id}'' (NeedRole RoleSiteAdmin),
      Route ''DELETE'' ''/api/v1/appliances/{id}'' (NeedRole RoleSiteAdmin),
      Route ''GET'' ''/api/v1/audit-log'' (NeedRole RoleSuperAdmin),
      Route ''GET'' ''/api/v1/discovery/devices'' (NeedRole RoleSuperAdmin),
      Route ''GET'' ''/api/v1/discovery/networks'' (NeedRole RoleSuperAdmin),
      Route ''GET'' ''/api/v1/settings/smtp'' (NeedRole RoleSiteAdmin),
      Route ''PUT'' ''/api/v1/settings/smtp'' (NeedRole RoleSiteAdmin),
      Route ''POST'' ''/api/v1/settings/smtp/test'' (NeedRole RoleSiteAdmin),
      Route ''GET'' ''/api/v1/settings/retention'' (NeedRole RoleSuperAdmin),
      Route ''PUT'' ''/api/v1/settings/retention'' (NeedRole RoleSuperAdmin),
      Route ''GET'' ''/api/v1/settings/webhooks'' (NeedRole RoleSiteAdmin),
      Route ''POST'' ''/api/v1/settings/webhooks'' (NeedRole RoleSiteAdmin),
      Route ''PATCH'' ''/api/v1/settings/webhooks/{id}'' (NeedRole RoleSiteAdmin),
      Route ''POST'' ''/api/v1/settings/webhooks/{id}/test'' (NeedRole RoleSiteAdmin),
      Route ''DELETE'' ''/api/v1/settings/webhooks/{id}'' (NeedRole RoleSiteAdmin),
      Route ''GET'' ''/api/v1/alarm-rules'' NeedUser,
      Route ''POST'' ''/api/v1/alarm-rules'' (NeedRole RoleSiteAdmin),
      Route ''PATCH'' ''/api/v1/alarm-rules/{id}'' (NeedRole RoleSiteAdmin),
      Route ''DELETE'' ''/api/v1/alarm-rules/{id}'' (NeedRole RoleSiteAdmin),
      Route ''GET'' ''/api/v1/check-types'' NeedUser,
      Route ''GET'' ''/api/v1/checks'' NeedUser,
      Route ''POST'' ''/api/v1/checks'' (NeedRole RoleSiteAdmin),
      Route ''PATCH'' ''/api/v1/checks/{id}'' (NeedRole RoleSiteAdmin),
      Route ''DELETE'' ''/api/v1/checks/{id}'' (NeedRole RoleSiteAdmin),
      Route ''GET'' ''/api/v1/checks/{id}/samples'' NeedUser,
      Route ''GET'' ''/api/v1/notification-channels'' NeedUser,
      Route ''POST'' ''/api/v1/notification-channels'' (NeedRole RoleSiteAdmin),
      Route ''DELETE'' ''/api/v1/notification-channels/{id}'' (NeedRole RoleSiteAdmin),
      Route ''GET'' ''/api/v1/alarms'' NeedUser,
      Route ''POST'' ''/api/v1/alarms/{id}/ack'' (NeedRole RoleSiteAdmin),
      Route ''POST'' ''/api/v1/alarms/{id}/clear'' (NeedRole RoleSiteAdmin),
      Route ''GET'' ''/api/v1/device-groups'' NeedUser,
      Route ''POST'' ''/api/v1/device-groups'' (NeedRole RoleSiteAdmin),
      Route ''PATCH'' ''/api/v1/device-groups/{id}'' (NeedRole RoleSiteAdmin),
      Route ''DELETE'' ''/api/v1/device-groups/{id}'' (NeedRole RoleSiteAdmin),
      Route ''POST'' ''/api/v1/device-groups/{id}/members'' (NeedRole RoleSiteAdmin),
      Route ''DELETE'' ''/api/v1/device-groups/{id}/members'' (NeedRole RoleSiteAdmin),
      Route ''GET'' ''/api/v1/documents'' NeedUser,
      Route ''GET'' ''/api/v1/documents/{id}/download'' NeedUser,
      Route ''GET'' ''/api/v1/documents/{id}/versions'' NeedUser,
      Route ''POST'' ''/api/v1/sites/{id}/documents'' (NeedRole RoleSiteAdmin),
      Route ''GET'' ''/api/v1/sites/{id}/discovery-settings'' (NeedRole RoleSiteAdmin),
      Route ''PUT'' ''/api/v1/sites/{id}/discovery-settings'' (NeedRole RoleSiteAdmin),
      Route ''GET'' ''/api/v1/sites/{id}/credentials'' (NeedRole RoleSiteAdmin),
      Route ''POST'' ''/api/v1/sites/{id}/credentials'' (NeedRole RoleSiteAdmin),
      Route ''PATCH'' ''/api/v1/sites/{id}/credentials/{credId}'' (NeedRole RoleSiteAdmin),
      Route ''DELETE'' ''/api/v1/sites/{id}/credentials/{credId}'' (NeedRole RoleSiteAdmin),
      Route ''GET'' ''/api/v1/sites/{id}/meraki-sync'' (NeedRole RoleSiteAdmin),
      Route ''PUT'' ''/api/v1/sites/{id}/meraki-sync'' (NeedRole RoleSiteAdmin),
      Route ''POST'' ''/api/v1/sites/{id}/meraki/sync'' (NeedRole RoleSiteAdmin),
      Route ''GET'' ''/api/v1/sites/{id}/network-map'' NeedUser,
      Route ''GET'' ''/api/v1/sites/{id}/passive-snmp'' NeedUser,
      Route ''GET'' ''/api/v1/sites/{id}/passive-snmp/changes'' NeedUser,
      Route ''GET'' ''/api/v1/query/devices'' NeedUser,
      Route ''GET'' ''/api/v1/query/alarms'' NeedUser,
      Route ''GET'' ''/api/v1/query/metrics'' NeedUser,
      Route ''GET'' ''/api/v1/api-keys'' NeedUser,
      Route ''POST'' ''/api/v1/api-keys'' NeedUser,
      Route ''PUT'' ''/api/v1/api-keys/{id}/sites'' NeedUser,
      Route ''DELETE'' ''/api/v1/api-keys/{id}'' NeedUser,
      Route ''GET'' ''/api/v1/admin/api-keys'' (NeedRole RoleSuperAdmin),
      Route ''GET'' ''/api/v1/topology'' NeedUser,
      Route ''GET'' ''/api/v1/traffic/flows'' NeedUser,
      Route ''GET'' ''/api/v1/report-templates'' NeedUser,
      Route ''POST'' ''/api/v1/reports'' (NeedRole RoleSiteAdmin),
      Route ''GET'' ''/api/v1/reports'' NeedUser,
      Route ''GET'' ''/api/v1/reports/{id}'' NeedUser,
      Route ''GET'' ''/api/v1/reports/{id}/download'' NeedUser,
      Route ''ANY'' ''/agent/ws'' Public,
      Route ''ANY'' ''/collector/ws'' Public,
      Route ''GET'' ''/docs'' NeedDocs,
      Route ''GET'' ''/docs/*'' NeedDocs,
      Route ''ANY'' ''/ws'' NeedUser]"

definition dispatch :: "access_env \<Rightarrow> access_db \<Rightarrow> request \<Rightarrow> route \<Rightarrow> response" where
  "dispatch env db rq rt =
     (case rt_guard rt of
        Public \<Rightarrow> Serve no_ctx
      | NeedUser \<Rightarrow> authRequired env db rq
      | NeedRole required \<Rightarrow> (case authRequired env db rq of Serve cx \<Rightarrow> requireRole required cx | r \<Rightarrow> r)
      | NeedCollector \<Rightarrow> collectorAuthRequired env rq
      | NeedDocs \<Rightarrow> docsAuthRequired env rq)"

subsection \<open>Who a served request is\<close>

lemma requireRole_iff:
  "requireRole required cx = Serve cx' \<longleftrightarrow>
   cx' = cx \<and> AtLeast (case cx_role cx of None \<Rightarrow> [] | Some r \<Rightarrow> r) required"
  by (auto simp: requireRole_def Let_def)

definition session_role :: "access_env \<Rightarrow> access_db \<Rightarrow> string \<Rightarrow> string \<Rightarrow> bool" where
  "session_role env db raw role \<longleftrightarrow>
     (\<exists>c. Parse_token (ae_lib env) (ae_iss env) (ae_now env) raw KindAccess = Some c \<and> cl_Role c = role) \<or>
     (\<exists>k u. live_key env db raw = Some k \<and> u \<in> set (ad_users db) \<and> us_id u = ak_user k \<and> us_active u \<and> us_role u = role)"

lemma authRequired_Serve:
  assumes "authRequired env db rq = Serve cx"
  shows "\<exists>role. cx_role cx = Some role \<and> session_role env db (bearerToken rq) role"
  using assms
  by (auto simp: authRequired_def authAPIKey_def user_ctx_def unauthorized_def session_role_def Let_def
      split: if_splits option.splits dest!: find_SomeD)

definition demands_site_admin :: "guard \<Rightarrow> bool" where
  "demands_site_admin g = (case g of NeedRole r \<Rightarrow> AtLeast r RoleSiteAdmin | _ \<Rightarrow> False)"

text \<open>The calls that change something without a role: sign-in, enrolment, the agent's and
  collector's own reports, the user's docs session and API keys, and the sockets.\<close>

definition self_service :: "(string \<times> string) list" where
  "self_service =
     [(''POST'', ''/api/v1/auth/login''), (''POST'', ''/api/v1/auth/refresh''), (''POST'', ''/api/v1/agents/enroll''),
      (''POST'', ''/api/v1/collectors/enroll''), (''POST'', ''/api/v1/agent/checks/results''),
      (''POST'', ''/api/v1/collectors/me/snmp-result''), (''POST'', ''/api/v1/collectors/me/snmp-error''),
      (''POST'', ''/api/v1/collectors/me/discovery-results''), (''POST'', ''/api/v1/collectors/me/passive-snmp''),
      (''POST'', ''/api/v1/docs/session''), (''POST'', ''/api/v1/api-keys''), (''PUT'', ''/api/v1/api-keys/{id}/sites''),
      (''DELETE'', ''/api/v1/api-keys/{id}''), (''ANY'', ''/agent/ws''), (''ANY'', ''/collector/ws''), (''ANY'', ''/ws'')]"

lemma open_writes:
  "map (\<lambda>r. (rt_method r, rt_path r))
     (filter (\<lambda>r. rt_method r \<noteq> ''GET'' \<and> \<not> demands_site_admin (rt_guard r)) routes) = self_service"
  by code_simp

lemma guarded_write:
  assumes "rt \<in> set routes" and "rt_method rt \<noteq> ''GET''" and "(rt_method rt, rt_path rt) \<notin> set self_service"
  shows "demands_site_admin (rt_guard rt)"
proof (rule ccontr)
  assume "\<not> demands_site_admin (rt_guard rt)"
  then have "(rt_method rt, rt_path rt) \<in> set self_service"
    unfolding open_writes [symmetric] using assms(1,2) by auto
  then show False using assms(3) by simp
qed

lemma dispatch_role:
  assumes "dispatch env db rq rt = Serve cx" and "demands_site_admin (rt_guard rt)"
  shows "\<exists>role. cx_role cx = Some role \<and> AtLeast role RoleSiteAdmin \<and> session_role env db (bearerToken rq) role"
proof -
  obtain r where g: "rt_guard rt = NeedRole r" and r: "AtLeast r RoleSiteAdmin"
    using assms(2) by (auto simp: demands_site_admin_def split: guard.splits)
  have a: "authRequired env db rq = Serve cx" and l: "AtLeast (case cx_role cx of None \<Rightarrow> [] | Some r \<Rightarrow> r) r"
    using assms(1) g by (auto simp: dispatch_def requireRole_iff split: response.splits)
  then show ?thesis using authRequired_Serve [OF a] role_rank.le_trans [OF r] by auto
qed

text \<open>C13: Of all routes, only the listed self-service calls change anything without the site
  admin role: every other non-GET request that reaches its handler comes with a live access token
  or API key whose role is at least site admin.\<close>

theorem writes_need_siteadmin:
  assumes "rt \<in> set routes" and "rt_method rt \<noteq> ''GET''" and "(rt_method rt, rt_path rt) \<notin> set self_service"
    and "dispatch env db rq rt = Serve cx"
  shows "\<exists>role. cx_role cx = Some role \<and> AtLeast role RoleSiteAdmin \<and> session_role env db (bearerToken rq) role"
  using dispatch_role [OF assms(4) guarded_write [OF assms(1-3)]] .

text \<open>A technician's token is refused the acknowledgement of an alarm, which the route table
  reserves for site admins.\<close>

theorem tech_cannot_ack:
  assumes "bearerToken rq \<noteq> []" and "\<not> has_prefix (bearerToken rq) apiKeyBearerPrefix"
    and "Parse_token (ae_lib env) (ae_iss env) (ae_now env) (bearerToken rq) KindAccess = Some c" and "cl_Role c = RoleTech"
  shows "\<exists>rt \<in> set routes. rt_path rt = ''/api/v1/alarms/{id}/ack'' \<and>
    dispatch env db rq rt = Refused 403 ''forbidden'' ''insufficient role''"
proof -
  let ?rt = "Route ''POST'' ''/api/v1/alarms/{id}/ack'' (NeedRole RoleSiteAdmin)"
  have "?rt \<in> set routes" by code_simp
  moreover have "\<not> AtLeast RoleTech RoleSiteAdmin" by code_simp
  ultimately show ?thesis
    using assms by (intro bexI [of _ ?rt])
      (simp_all add: dispatch_def authRequired_def requireRole_def user_ctx_def no_ctx_def Let_def)
qed

subsection \<open>Scope of API keys\<close>

lemma key_scope_allows:
  assumes "\<forall>s. ae_site_scans env s" and "cx_scope cx = Some (key_scope env db i)"
  shows "apiKeyAllowsSite cx site \<longleftrightarrow>
    ae_fault env ''sites'' \<or> (\<forall>s. (i, s) \<notin> set (ad_key_sites db)) \<or> (i, site) \<in> set (ad_key_sites db)"
proof -
  let ?bound = "map snd (filter (\<lambda>(k, _). k = i) (ad_key_sites db))"
  have "filter (ae_site_scans env) ?bound = ?bound" using assms(1) by (intro filter_True) simp
  moreover have "s \<in> set ?bound \<longleftrightarrow> (i, s) \<in> set (ad_key_sites db)" for s by force
  moreover have "?bound = [] \<longleftrightarrow> (\<forall>s. (i, s) \<notin> set (ad_key_sites db))"
    by (auto simp: filter_empty_conv)
  ultimately show ?thesis
    using assms(2) by (auto simp: apiKeyAllowsSite_def key_scope_def Let_def)
qed

text \<open>A request made with an API key may touch a site exactly when the key is bound to it or to
  no site at all; if the query for its sites fails, it may touch every site.\<close>

theorem key_scope_exact:
  assumes "\<forall>s. ae_site_scans env s" and "has_prefix (bearerToken rq) apiKeyBearerPrefix"
    and "authRequired env db rq = Serve cx" and "live_key env db (bearerToken rq) = Some k"
  shows "apiKeyAllowsSite cx site \<longleftrightarrow>
    ae_fault env ''sites'' \<or> (\<forall>s. (ak_id k, s) \<notin> set (ad_key_sites db)) \<or> (ak_id k, site) \<in> set (ad_key_sites db)"
proof (rule key_scope_allows [OF assms(1)])
  have "bearerToken rq \<noteq> []" using assms(2) by (auto simp: has_prefix_def apiKeyBearerPrefix_def)
  then show "cx_scope cx = Some (key_scope env db (ak_id k))"
    using assms(2-4) by (auto simp: authRequired_def authAPIKey_def unauthorized_def Let_def split: if_splits option.splits)
qed

definition bearer :: "string \<Rightarrow> request" where
  "bearer tok = \<lparr>rq_authorization = ''Bearer '' @ tok, rq_docs_cookie = None, rq_accept = []\<rparr>"

definition plain_token :: "string \<Rightarrow> bool" where
  "plain_token tok \<longleftrightarrow> tok \<noteq> [] \<and> (\<forall>c \<in> set tok. \<not> is_space c)"

lemma trim_space_plain: "\<forall>c \<in> set s. \<not> is_space c \<Longrightarrow> trim_space s = s"
proof -
  assume a: "\<forall>c \<in> set s. \<not> is_space c"
  have d: "dropWhile is_space t = t" if "set t \<subseteq> set s" for t
    using a that by (cases t) auto
  show ?thesis by (simp add: trim_space_def d)
qed

lemma bearerToken_bearer: "plain_token tok \<Longrightarrow> bearerToken (bearer tok) = tok"
  by (simp add: bearerToken_def bearer_def has_prefix_def plain_token_def trim_space_plain Let_def)

lemma sextet_char_blank: "n < 64 \<Longrightarrow> \<not> is_space (sextet_char e n)"
  by (rule sextet_cases [where n = n]) (auto simp: sextet_char_def is_space_def char_code_def dest: arg_cong [where f = char_code])

lemma encoded_no_blank: "c \<in> set (EncodeToString RawURLEncoding bs) \<Longrightarrow> \<not> is_space c"
proof (induction RawURLEncoding bs rule: EncodeToString.induct)
  case (2 a)
  have "unat a div 4 < 64" using unat_byte [of a] by linarith
  then show ?case using 2 sextet_char_blank by (auto simp: Let_def pad_def padded_def)
next
  case (3 a b)
  have "(unat a * 256 + unat b) div 1024 < 64" using word_pair_quotients(3) [of a b] by simp
  then show ?case using 3 sextet_char_blank by (auto simp: Let_def pad_def padded_def)
next
  case (4 a b c bs)
  have "((unat a * 256 + unat b) * 256 + unat c) div 262144 < 64" using byte_quotients(4) [of a b c] by simp
  with 4 show ?case using sextet_char_blank by (auto simp: Let_def)
qed simp

lemma api_key_token: "plain_token (apiKeyBearerPrefix @ EncodeToString RawURLEncoding raw)"
  using encoded_no_blank by (auto simp: plain_token_def apiKeyBearerPrefix_def is_space_def char_code_def)

text \<open>C14: The site scope of an API key does not bind its holder: whatever the scope of a request,
  the API key it creates is not restricted to any site.\<close>

theorem restricted_key_escapes:
  assumes new: "handleCreateAPIKey env cx (Some req) db = (KeyCreated i name tok, db')"
    and fresh: "\<forall>s. (i, s) \<notin> set (ad_key_sites db)"
    and user: "find (\<lambda>u. us_id u = userIDFromCtx cx \<and> us_active u) (ad_users db) = Some u"
    and alive: "ck_ExpiresAt req = None" and healthy: "ae_fault env = (\<lambda>_. False)" "\<forall>s. ae_site_scans env s"
  shows "\<exists>cx'. authRequired env db' (bearer tok) = Serve cx' \<and> cx_user cx' = Some (userIDFromCtx cx) \<and>
    cx_role cx' = Some (us_role u) \<and> apiKeyAllowsSite cx' site"
proof -
  obtain raw where r: "ae_rand env = Inr raw" and t: "tok = apiKeyBearerPrefix @ EncodeToString RawURLEncoding raw"
      and i: "i = ae_new_id env" and new_hash: "\<forall>k \<in> set (ad_keys db). ak_hash k \<noteq> ae_sha256 env (bytes_of tok)"
      and d: "db' = db\<lparr>ad_keys := ad_keys db @ [\<lparr>ak_id = i, ak_user = userIDFromCtx cx, ak_name = ck_Name req,
                 ak_hash = ae_sha256 env (bytes_of tok), ak_scopes = ck_Scopes req, ak_revoked = False, ak_expires = None\<rparr>]\<rparr>"
    using new alive healthy by (auto simp: handleCreateAPIKey_def Let_def list_ex_iff split: if_splits sum.splits)
  let ?k = "\<lparr>ak_id = i, ak_user = userIDFromCtx cx, ak_name = ck_Name req,
                 ak_hash = ae_sha256 env (bytes_of tok), ak_scopes = ck_Scopes req, ak_revoked = False, ak_expires = None\<rparr>"
  have b: "bearerToken (bearer tok) = tok" unfolding t by (rule bearerToken_bearer) (rule api_key_token)
  have p: "has_prefix tok apiKeyBearerPrefix" "tok \<noteq> []" unfolding t by (simp_all add: has_prefix_def apiKeyBearerPrefix_def)
  have "find (\<lambda>k. ak_hash k = ae_sha256 env (bytes_of tok) \<and> \<not> ak_revoked k \<and>
      (case ak_expires k of None \<Rightarrow> True | Some e \<Rightarrow> e > ae_now env)) (ad_keys db) = None"
    using new_hash by (auto simp: find_None_iff)
  then have k: "live_key env db' tok = Some ?k"
    by (simp add: live_key_def healthy d find_append)
  have du: "ad_users db' = ad_users db" by (simp add: d)
  have s: "authRequired env db' (bearer tok) = Serve ((user_ctx (userIDFromCtx cx) (us_role u))
      \<lparr>cx_key := Some i, cx_scope := Some (key_scope env db' i)\<rparr>)"
    using p user du by (simp add: authRequired_def b authAPIKey_def k healthy Let_def)
  moreover have "apiKeyAllowsSite ((user_ctx (userIDFromCtx cx) (us_role u))
      \<lparr>cx_key := Some i, cx_scope := Some (key_scope env db' i)\<rparr>) site"
    using key_scope_allows [OF healthy(2), of _ db' i] fresh by (simp add: d)
  ultimately show ?thesis by (simp add: user_ctx_def no_ctx_def)
qed

subsection \<open>Sessions\<close>

text \<open>The second factor is not checked: for an enrolled user every non-empty code gives the
  same answer, and with the right password that answer is a session.\<close>

theorem second_factor_unchecked:
  assumes "lg_TOTP req \<noteq> []" and "code \<noteq> []"
  shows "handleLogin env db (Some (req\<lparr>lg_TOTP := code\<rparr>)) = handleLogin env db (Some req)"
  using assms
  by (cases "GetUserByEmail env db (lg_Email req)")
    (auto simp: handleLogin_def split: bool.split verify_result.split)

text \<open>What a compact JWT looks like: not blank, no white space, not an API key.\<close>

definition jwt_text :: "jwt_lib \<Rightarrow> bool" where
  "jwt_text lib \<longleftrightarrow> (\<forall>secret c tok. jl_sign lib secret c = Inr tok \<longrightarrow> plain_token tok \<and> \<not> has_prefix tok apiKeyBearerPrefix)"

lemma issued_text:
  assumes "jwt_text lib" and "Issue lib iss now jti uid role kind = Inr (tok, expiry)"
  shows "plain_token tok \<and> \<not> has_prefix tok apiKeyBearerPrefix"
  using assms by (auto simp: Issue_def jwt_text_def split: sum.splits)

text \<open>A session outlives its user: the refresh token of a login keeps yielding access tokens
  that are served with the role of the login, until it expires, whatever has happened to the user
  in the meantime.\<close>

theorem session_outlives_user:
  assumes lib: "jwt_ok (ae_lib env)" "jwt_text (ae_lib env)"
    and login: "handleLogin env db (Some req) = Tokens access refresh expiry (Some uid)" and real: "uid \<noteq> uuid_Nil"
    and same: "ae_lib env1 = ae_lib env" "ae_iss env1 = ae_iss env"
    and inside: "ae_now env \<le> ae_now env1" "ae_now env1 < numeric_date (ae_now env + is_refreshTTL (ae_iss env)) * 1000000000"
    and refreshed: "handleRefresh env1 (Some refresh) = Tokens access1 refresh expiry1 u"
    and ttl: "ae_now env1 < numeric_date (ae_now env1 + is_accessTTL (ae_iss env)) * 1000000000"
  shows "\<exists>us \<in> set (ad_users db). us_id us = uid \<and>
    authRequired env1 db1 (bearer access1) = Serve (user_ctx uid (us_role us))"
proof -
  obtain us where us: "us \<in> set (ad_users db)" "us_id us = uid"
      and ir: "\<exists>e. Issue (ae_lib env) (ae_iss env) (ae_now env) (ae_jti env 1) uid (us_role us) KindRefresh = Inr (refresh, e)"
    using login
    by (auto simp: handleLogin_def GetUserByEmail_def split: sum.splits bool.splits if_splits option.splits
        verify_result.splits dest!: find_SomeD)
  have kd: "KindRefresh \<noteq> KindAgent" "KindAccess \<noteq> KindRefresh" "KindAccess \<noteq> KindAgent" "KindAccess \<noteq> KindCollector"
    by (simp_all add: kind_names)
  have nb: "numeric_date t * 1000000000 \<le> t" for t by (simp add: numeric_date_def)
  obtain e where "Issue (ae_lib env) (ae_iss env) (ae_now env) (ae_jti env 1) uid (us_role us) KindRefresh = Inr (refresh, e)"
    using ir by blast
  from parse_issued [OF lib(1) this, of "ae_now env1" KindRefresh]
  have "Parse_token (ae_lib env) (ae_iss env) (ae_now env1) refresh KindRefresh
      = Some (token_claims (ae_iss env) (ae_now env) (ae_jti env 1) uid (us_role us) KindRefresh)"
    using inside real order_trans [OF nb inside(1)] by (simp add: token_ttl_def)
  then have ia: "\<exists>e. Issue (ae_lib env) (ae_iss env) (ae_now env1) (ae_jti env1 0) uid (us_role us) KindAccess = Inr (access1, e)"
    using refreshed same by (auto simp: handleRefresh_def token_claims_def split: sum.splits)
  then obtain e1 where i1: "Issue (ae_lib env) (ae_iss env) (ae_now env1) (ae_jti env1 0) uid (us_role us) KindAccess = Inr (access1, e1)"
    by blast
  from issued_text [OF lib(2) i1] have x: "plain_token access1" "\<not> has_prefix access1 apiKeyBearerPrefix" by auto
  from parse_issued [OF lib(1) i1, of "ae_now env1" KindAccess]
  have "Parse_token (ae_lib env) (ae_iss env) (ae_now env1) access1 KindAccess
      = Some (token_claims (ae_iss env) (ae_now env1) (ae_jti env1 0) uid (us_role us) KindAccess)"
    using ttl real nb kd by (simp add: token_ttl_def)
  then have "authRequired env1 db1 (bearer access1) = Serve (user_ctx uid (us_role us))"
    using x same bearerToken_bearer [OF x(1)] by (simp add: authRequired_def token_claims_def plain_token_def Let_def)
  then show ?thesis using us by blast
qed

subsection \<open>Concrete requests\<close>

definition access_tokens :: "(Claims \<times> string) list" where
  "access_tokens = demo_tokens @
     [(token_claims demo_iss 7000000000 ''j3'' ''ann'' RoleTech KindAccess, ''t-later''),
      (token_claims demo_iss 5000000000 ''j4'' ''bob'' RoleSiteAdmin KindAccess, ''t-admin'')]"

definition demo_access_env :: "int \<Rightarrow> access_env" where
  "demo_access_env now =
     \<lparr>ae_lib = table_lib access_tokens, ae_iss = demo_iss, ae_now = now, ae_sha256 = (\<lambda>bs. bs), ae_kdf = demo_kdf,
      ae_rand = Inr [1, 2, 3], ae_new_id = ''k2'',
      ae_jti = (\<lambda>n. if now = 7000000000 then ''j3'' else if n = 0 then ''j1'' else ''j2''),
      ae_fault = (\<lambda>_. False), ae_site_scans = (\<lambda>_. True), ae_parse_uuid = Some\<rparr>"

definition demo_hash :: string where
  "demo_hash = (case HashPassword demo_kdf 1 (Inr (replicate 16 5)) ''pw'' of Inl e \<Rightarrow> e | Inr h \<Rightarrow> h)"

definition demo_access_db :: access_db where
  "demo_access_db =
     \<lparr>ad_users = [\<lparr>us_id = ''ann'', us_email = ''ann@x'', us_role = RoleTech, us_hash = demo_hash,
                   us_totp_enrolled = True, us_active = True\<rparr>],
      ad_keys = [\<lparr>ak_id = ''k1'', ak_user = ''ann'', ak_name = ''n'', ak_hash = bytes_of ''scr_old'', ak_scopes = [],
                  ak_revoked = False, ak_expires = None\<rparr>],
      ad_key_sites = [(''k1'', ''s1'')]\<rparr>"

lemma demo_password: "VerifyPassword demo_kdf ''pw'' demo_hash = Verified"
proof -
  obtain h where h: "HashPassword demo_kdf 1 (Inr (replicate 16 5)) ''pw'' = Inr h"
    by (simp add: HashPassword_def Let_def)
  then show ?thesis using hashed_password_verifies [OF demo_kdf_length h] by (simp add: demo_hash_def)
qed

lemma access_lib: "jwt_ok (table_lib access_tokens)" "jwt_text (table_lib access_tokens)"
proof -
  have d: "map snd access_tokens = [''t-access'', ''t-refresh'', ''t-later'', ''t-admin'']"
    by (simp add: access_tokens_def demo_tokens_def)
  show "jwt_ok (table_lib access_tokens)" by (rule table_lib_ok) (simp add: d)
  have "tok \<in> set (map snd access_tokens)" if "map_of access_tokens c = Some tok" for c tok
    using map_of_SomeD [OF that] by force
  then have "plain_token tok \<and> \<not> has_prefix tok apiKeyBearerPrefix" if "map_of access_tokens c = Some tok" for c tok
    using that unfolding d by (fastforce simp: plain_token_def has_prefix_def apiKeyBearerPrefix_def is_space_def char_code_def)
  then show "jwt_text (table_lib access_tokens)"
    by (auto simp: jwt_text_def table_lib_def split: option.splits)
qed

lemma demo_parse:
  "Parse_token (table_lib access_tokens) demo_iss 6000000000 ''t-access'' KindAccess
     = Some (token_claims demo_iss 5000000000 ''j1'' ''ann'' RoleTech KindAccess)"
  "Parse_token (table_lib access_tokens) demo_iss 6000000000 ''t-admin'' KindAccess
     = Some (token_claims demo_iss 5000000000 ''j4'' ''bob'' RoleSiteAdmin KindAccess)"
  by (simp_all add: Parse_token_def table_lib_def access_tokens_def demo_tokens_def token_claims_def numeric_date_def
      token_ttl_def demo_iss_def kind_names role_names uuid_Nil_def seconds_small)

lemma plain_demo: "plain_token ''t-access''" "plain_token ''t-admin''" "plain_token ''t-later''" "plain_token ''t-refresh''"
  "plain_token ''scr_old''"
  by (simp_all add: plain_token_def is_space_def char_code_def)

lemma demo_env_simps [simp]:
  "ae_lib (demo_access_env now) = table_lib access_tokens" "ae_iss (demo_access_env now) = demo_iss"
  "ae_now (demo_access_env now) = now" "ae_fault (demo_access_env now) = (\<lambda>_. False)"
  "ae_site_scans (demo_access_env now) = (\<lambda>_. True)" "ae_sha256 (demo_access_env now) = (\<lambda>bs. bs)"
  "ae_kdf (demo_access_env now) = demo_kdf"
  by (simp_all add: demo_access_env_def)

theorem writes_need_siteadmin_witness:
  "\<exists>cx. dispatch (demo_access_env 6000000000) demo_access_db (bearer ''t-admin'')
      (Route ''POST'' ''/api/v1/checks'' (NeedRole RoleSiteAdmin)) = Serve cx \<and> cx_role cx = Some RoleSiteAdmin"
proof -
  let ?rt = "Route ''POST'' ''/api/v1/checks'' (NeedRole RoleSiteAdmin)" and ?env = "demo_access_env 6000000000"
  have r: "?rt \<in> set routes" "(rt_method ?rt, rt_path ?rt) \<notin> set self_service" by code_simp+
  have p: "\<not> has_prefix ''t-admin'' apiKeyBearerPrefix" by code_simp
  have a: "AtLeast RoleSiteAdmin RoleSiteAdmin" by code_simp
  let ?cx = "user_ctx ''bob'' RoleSiteAdmin"
  have d: "dispatch ?env demo_access_db (bearer ''t-admin'') ?rt = Serve ?cx"
    using p a by (simp add: dispatch_def authRequired_def bearerToken_bearer plain_demo demo_parse requireRole_def
        token_claims_def user_ctx_def no_ctx_def Let_def)
  show ?thesis using writes_need_siteadmin [OF r(1) _ r(2) d] d by (auto simp: user_ctx_def)
qed

theorem tech_cannot_ack_witness:
  "\<exists>rt \<in> set routes. dispatch (demo_access_env 6000000000) demo_access_db (bearer ''t-access'') rt
      = Refused 403 ''forbidden'' ''insufficient role''"
proof -
  have p: "\<not> has_prefix ''t-access'' apiKeyBearerPrefix" by code_simp
  have c: "cl_Role (token_claims demo_iss 5000000000 ''j1'' ''ann'' RoleTech KindAccess) = RoleTech"
    by (simp add: token_claims_def)
  show ?thesis
    using tech_cannot_ack [of "bearer ''t-access''" "demo_access_env 6000000000", OF _ _ _ c] p
    by (simp add: bearerToken_bearer plain_demo demo_parse) blast
qed

lemma demo_live_key:
  "live_key (demo_access_env now) demo_access_db ''scr_old'' = Some (hd (ad_keys demo_access_db))"
  by (simp add: live_key_def demo_access_db_def)

lemma demo_key_request:
  "authRequired (demo_access_env now) demo_access_db (bearer ''scr_old'') =
     Serve ((user_ctx ''ann'' RoleTech)\<lparr>cx_key := Some ''k1'', cx_scope := Some (key_scope (demo_access_env now) demo_access_db ''k1'')\<rparr>)"
proof -
  have "has_prefix ''scr_old'' apiKeyBearerPrefix" by code_simp
  then show ?thesis
    by (simp add: authRequired_def authAPIKey_def bearerToken_bearer plain_demo demo_live_key Let_def)
      (simp add: demo_access_db_def)
qed

theorem key_scope_exact_witness:
  "\<exists>cx. authRequired (demo_access_env 6000000000) demo_access_db (bearer ''scr_old'') = Serve cx \<and>
     apiKeyAllowsSite cx ''s1'' \<and> \<not> apiKeyAllowsSite cx ''s2''"
proof -
  have p: "has_prefix (bearerToken (bearer ''scr_old'')) apiKeyBearerPrefix"
    unfolding bearerToken_bearer [OF plain_demo(5)] by code_simp
  have k: "live_key (demo_access_env 6000000000) demo_access_db (bearerToken (bearer ''scr_old'')) = Some (hd (ad_keys demo_access_db))"
    by (simp add: bearerToken_bearer plain_demo demo_live_key)
  have s: "\<forall>s. ae_site_scans (demo_access_env 6000000000) s" by simp
  note e = key_scope_exact [OF s p demo_key_request k]
  have "ak_id (hd (ad_keys demo_access_db)) = ''k1''" "ad_key_sites demo_access_db = [(''k1'', ''s1'')]"
    by (simp_all add: demo_access_db_def)
  then show ?thesis using e [of "''s1''"] e [of "''s2''"] demo_key_request [of 6000000000] by auto
qed

theorem restricted_key_escapes_witness:
  "\<exists>cx tok db' cx'. authRequired (demo_access_env 6000000000) demo_access_db (bearer ''scr_old'') = Serve cx \<and>
     fst (handleCreateAPIKey (demo_access_env 6000000000) cx (Some \<lparr>ck_Name = ''n2'', ck_Scopes = [], ck_ExpiresAt = None\<rparr>)
       demo_access_db) = KeyCreated ''k2'' ''n2'' tok \<and>
     authRequired (demo_access_env 6000000000) db' (bearer tok) = Serve cx' \<and> apiKeyAllowsSite cx' ''s2''"
proof -
  let ?env = "demo_access_env 6000000000" and ?req = "\<lparr>ck_Name = ''n2'', ck_Scopes = [], ck_ExpiresAt = None\<rparr>"
  let ?cx = "(user_ctx ''ann'' RoleTech)\<lparr>cx_key := Some ''k1'', cx_scope := Some (key_scope ?env demo_access_db ''k1'')\<rparr>"
  let ?tok = "apiKeyBearerPrefix @ EncodeToString RawURLEncoding [1, 2, 3]"
  have "length (bytes_of ?tok) \<noteq> length (bytes_of ''scr_old'')"
    by (simp add: bytes_of_def apiKeyBearerPrefix_def Let_def)
  then have t: "bytes_of ?tok \<noteq> bytes_of ''scr_old''" by metis
  obtain db' where c: "handleCreateAPIKey ?env ?cx (Some ?req) demo_access_db = (KeyCreated ''k2'' ''n2'' ?tok, db')"
    using not_sym [OF t] by (simp add: handleCreateAPIKey_def demo_access_env_def demo_access_db_def Let_def)
  have n: "\<forall>s. (''k2'', s) \<notin> set (ad_key_sites demo_access_db)" by (simp add: demo_access_db_def)
  have u: "find (\<lambda>u. us_id u = userIDFromCtx ?cx \<and> us_active u) (ad_users demo_access_db) = Some (hd (ad_users demo_access_db))"
    by (simp add: demo_access_db_def userIDFromCtx_def user_ctx_def)
  obtain cx' where "authRequired ?env db' (bearer ?tok) = Serve cx'" "apiKeyAllowsSite cx' ''s2''"
    using restricted_key_escapes [OF c n u, of "''s2''"] by auto
  then show ?thesis using demo_key_request [of 6000000000] c by (metis fst_conv)
qed

lemma demo_login:
  "handleLogin (demo_access_env 5000000000) demo_access_db
     (Some \<lparr>lg_Email = ''ann@x'', lg_Password = ''pw'', lg_TOTP = ''123456''\<rparr>)
   = Tokens ''t-access'' ''t-refresh'' 905000000000 (Some ''ann'')"
proof -
  have i: "Issue (table_lib access_tokens) demo_iss 5000000000 ''j1'' ''ann'' RoleTech KindAccess = Inr (''t-access'', 905000000000)"
    "Issue (table_lib access_tokens) demo_iss 5000000000 ''j2'' ''ann'' RoleTech KindRefresh = Inr (''t-refresh'', 86405000000000)"
    by (simp_all add: Issue_def table_lib_def access_tokens_def demo_tokens_def token_ttl_def demo_iss_def kind_names
        seconds_small token_claims_def numeric_date_def)
  have j: "ae_jti (demo_access_env 5000000000) 0 = ''j1''" "ae_jti (demo_access_env 5000000000) 1 = ''j2''"
    by (simp_all add: demo_access_env_def)
  have g: "GetUserByEmail (demo_access_env 5000000000) demo_access_db ''ann@x'' = Inr (hd (ad_users demo_access_db))"
    by (simp add: GetUserByEmail_def demo_access_db_def)
  have h: "hd (ad_users demo_access_db) = \<lparr>us_id = ''ann'', us_email = ''ann@x'', us_role = RoleTech, us_hash = demo_hash,
                   us_totp_enrolled = True, us_active = True\<rparr>" by (simp add: demo_access_db_def)
  show ?thesis by (simp add: handleLogin_def g h demo_password i j del: One_nat_def)
qed

theorem second_factor_unchecked_witness:
  "\<exists>access refresh expiry. handleLogin (demo_access_env 5000000000) demo_access_db
     (Some \<lparr>lg_Email = ''ann@x'', lg_Password = ''pw'', lg_TOTP = ''wrong''\<rparr>) = Tokens access refresh expiry (Some ''ann'')"
proof -
  let ?env = "demo_access_env 5000000000" and ?req = "\<lparr>lg_Email = ''ann@x'', lg_Password = ''pw'', lg_TOTP = ''123456''\<rparr>"
  have "handleLogin ?env demo_access_db (Some ?req) = Tokens ''t-access'' ''t-refresh'' 905000000000 (Some ''ann'')"
    by (rule demo_login)
  then show ?thesis using second_factor_unchecked [of ?req "''wrong''" ?env demo_access_db] by simp
qed

theorem session_outlives_user_witness:
  "\<exists>access. handleRefresh (demo_access_env 7000000000) (Some ''t-refresh'') = Tokens access ''t-refresh'' 907000000000 None \<and>
     authRequired (demo_access_env 7000000000) \<lparr>ad_users = [], ad_keys = [], ad_key_sites = []\<rparr> (bearer access)
       = Serve (user_ctx ''ann'' RoleTech)"
proof -
  have r: "handleRefresh (demo_access_env 7000000000) (Some ''t-refresh'') = Tokens ''t-later'' ''t-refresh'' 907000000000 None"
    by (simp add: handleRefresh_def Parse_token_def Issue_def demo_access_env_def table_lib_def access_tokens_def
        demo_tokens_def token_claims_def numeric_date_def token_ttl_def demo_iss_def kind_names uuid_Nil_def seconds_small)
  have u: "us_id us = ''ann'' \<Longrightarrow> us_role us = RoleTech" if "us \<in> set (ad_users demo_access_db)" for us
    using that by (simp add: demo_access_db_def)
  show ?thesis
    using session_outlives_user [OF _ _ demo_login _ _ _ _ _ r, of "\<lparr>ad_users = [], ad_keys = [], ad_key_sites = []\<rparr>"]
      access_lib r u by (fastforce simp: uuid_Nil_def numeric_date_def demo_iss_def seconds_small)
qed

end
