(* ===== verification/Go_Net.thy ===== *)
theory Go_Net
  imports Base64
begin

text \<open>
  What the program uses of Go's \<open>net\<close> and \<open>encoding/binary\<close> packages: addresses as byte slices of
  length 4 or 16, their textual form, the parsers behind \<open>net.ParseCIDR\<close>, masks, and big-endian
  integers. An operation that can index out of range has the outcome \<open>Panicked\<close>.
\<close>

datatype ('e, 'a) outcome = Returned 'a | Failed 'e | Panicked

type_synonym ip = "byte list"

subsection \<open>Big-endian integers\<close>

text \<open>\<open>binary.BigEndian.Uint16(b[i:i+2])\<close> and \<open>Uint32(b[i:i+4])\<close>, for a slice known to be long enough.\<close>

definition be16 :: "byte list \<Rightarrow> nat \<Rightarrow> 16 word" where
  "be16 b i = push_bit 8 (ucast (b ! i)) OR ucast (b ! (i + 1))"

definition be32 :: "byte list \<Rightarrow> nat \<Rightarrow> 32 word" where
  "be32 b i = push_bit 24 (ucast (b ! i)) OR push_bit 16 (ucast (b ! (i + 1))) OR
     push_bit 8 (ucast (b ! (i + 2))) OR ucast (b ! (i + 3))"

definition put16 :: "16 word \<Rightarrow> byte list" where
  "put16 w = [ucast (drop_bit 8 w), ucast w]"

definition put32 :: "32 word \<Rightarrow> byte list" where
  "put32 w = [ucast (drop_bit 24 w), ucast (drop_bit 16 w), ucast (drop_bit 8 w), ucast w]"

lemma length_put [simp]: "length (put16 w) = 2" "length (put32 v) = 4"
  by (simp_all add: put16_def put32_def)

lemma nth_append_at: "length pre = i \<Longrightarrow> (pre @ s) ! (i + k) = s ! k"
  by (metis nth_append_length_plus)

lemma be16_cons: "be16 [a, b] 0 = push_bit 8 (ucast a) OR ucast b"
  by (simp add: be16_def)

lemma be32_cons: "be32 [a, b, c, d] 0 =
    push_bit 24 (ucast a) OR push_bit 16 (ucast b) OR push_bit 8 (ucast c) OR ucast d"
  by (simp add: be32_def eval_nat_numeral)

lemma be16_put16: "be16 (put16 w) 0 = w"
  by (rule bit_word_eqI) (auto simp: put16_def be16_cons bit_simps)

lemma be32_put32: "be32 (put32 w) 0 = w"
proof (rule bit_word_eqI)
  fix k assume "k < LENGTH(32)"
  then show "bit (be32 (put32 w) 0) k = bit w k"
    by (cases "k < 8"; cases "k < 16"; cases "k < 24") (auto simp: put32_def be32_cons bit_simps not_less less_diff_conv2)
qed

lemma be_in_context:
  assumes "length pre = i"
  shows "be16 (pre @ put16 w @ post) i = w" and "be32 (pre @ put32 v @ post) i = v"
proof -
  show "be16 (pre @ put16 w @ post) i = w"
    using be16_put16 [of w] assms
    by (simp add: be16_def nth_append)
  show "be32 (pre @ put32 v @ post) i = v"
    using be32_put32 [of v] assms
    by (simp add: be32_def nth_append eval_nat_numeral)
qed

lemma bit_be32:
  "bit (be32 [a, b, c, d] 0) k = (if 24 \<le> k then k < 32 \<and> bit a (k - 24) else if 16 \<le> k then bit b (k - 16)
     else if 8 \<le> k then bit c (k - 8) else bit d k)"
  unfolding be32_cons by (auto simp: bit_simps dest: bit_imp_le_length)

lemma be32_eq_iff:
  "be32 [a, b, c, d] 0 = be32 [a', b', c', d'] 0 \<longleftrightarrow> [a, b, c, d] = [a', b', c', d']"
proof
  assume eq: "be32 [a, b, c, d] 0 = be32 [a', b', c', d'] 0"
  have bits: "bit (be32 [a, b, c, d] 0) k = bit (be32 [a', b', c', d'] 0) k" for k using eq by simp
  have "bit a j = bit a' j" "bit b j = bit b' j" "bit c j = bit c' j" "bit d j = bit d' j" if "j < 8" for j
    using that bits [of "j + 24"] bits [of "j + 16"] bits [of "j + 8"] bits [of j] by (simp_all add: bit_be32)
  then have "a = a'" "b = b'" "c = c'" "d = d'" by (auto intro!: bit_word_eqI)
  then show "[a, b, c, d] = [a', b', c', d']" by simp
qed simp

lemma put32_be32: "put32 (be32 [a, b, c, d] 0) = [a, b, c, d]"
proof -
  have "be32 (put32 (be32 [a, b, c, d] 0)) 0 = be32 [a, b, c, d] 0" by (rule be32_put32)
  then show ?thesis unfolding put32_def by (simp only: be32_eq_iff)
qed

subsection \<open>Addresses\<close>

definition v4InV6Prefix :: "byte list" where
  "v4InV6Prefix = replicate 10 0 @ [255, 255]"

definition net_IPv4 :: "byte \<Rightarrow> byte \<Rightarrow> byte \<Rightarrow> byte \<Rightarrow> ip" where
  "net_IPv4 a b c d = v4InV6Prefix @ [a, b, c, d]"

text \<open>\<open>IP.To4\<close>; \<open>None\<close> is the nil slice.\<close>

definition To4 :: "ip \<Rightarrow> ip option" where
  "To4 x = (if length x = 4 then Some x
     else if length x = 16 \<and> take 12 x = v4InV6Prefix then Some (drop 12 x) else None)"

lemma To4_simps [simp]:
  "To4 [a, b, c, d] = Some [a, b, c, d]" "To4 (net_IPv4 a b c d) = Some [a, b, c, d]"
  by (simp_all add: To4_def net_IPv4_def v4InV6Prefix_def)

definition dotted :: "byte list \<Rightarrow> string" where
  "dotted bs = join_str ''.'' (map (\<lambda>b. dec_nat (unat b)) bs)"

fun dec_hex :: "nat \<Rightarrow> string" where
  "dec_hex n = (let d = (\<lambda>k. if k < 10 then char_of (48 + k) else char_of (87 + k)) in
     if n < 16 then [d n] else dec_hex (n div 16) @ [d (n mod 16)])"

declare dec_hex.simps [simp del]

definition v6_words :: "ip \<Rightarrow> nat list" where
  "v6_words x = map (\<lambda>i. unat (be16 x (2 * i))) [0..<8]"

text \<open>The first longest run of at least two zero groups: its start and its end.\<close>

definition zero_run :: "nat list \<Rightarrow> (nat \<times> nat) option" where
  "zero_run ws = foldl (\<lambda>best i. let n = length (takeWhile (\<lambda>w. w = 0) (drop i ws)) in
       if 2 \<le> n \<and> (case best of None \<Rightarrow> True | Some (s, e) \<Rightarrow> e - s < n) then Some (i, i + n) else best)
     None [0..<length ws]"

definition v6_text :: "ip \<Rightarrow> string" where
  "v6_text x = (let ws = v6_words x; g = join_str '':'' in
     case zero_run ws of
       None \<Rightarrow> g (map dec_hex ws)
     | Some (s, e) \<Rightarrow> g (map dec_hex (take s ws)) @ ''::'' @ g (map dec_hex (drop e ws)))"

text \<open>\<open>IP.String\<close>: the empty slice prints as nil, an unusual length as a question mark and hex digits.\<close>

definition hex_byte :: "byte \<Rightarrow> string" where
  "hex_byte b = (if unat b < 16 then ''0'' @ dec_hex (unat b) else dec_hex (unat b))"

definition ip_String :: "ip \<Rightarrow> string" where
  "ip_String x = (if x = [] then ''<nil>''
     else case To4 x of Some b \<Rightarrow> dotted b
     | None \<Rightarrow> if length x = 16 then v6_text x else ''?'' @ concat (map hex_byte x))"

subsection \<open>Parsing\<close>

definition parse_octet :: "string \<Rightarrow> byte option" where
  "parse_octet s = (if s \<noteq> [] \<and> list_all is_digit s \<and> (length s = 1 \<or> hd s \<noteq> CHR ''0'') \<and> digits_val s \<le> 255
     then Some (word_of_nat (digits_val s)) else None)"

definition parse_v4 :: "string \<Rightarrow> byte list option" where
  "parse_v4 s = (case map parse_octet (split_str s ''.'') of
      [Some a, Some b, Some c, Some d] \<Rightarrow> Some [a, b, c, d] | _ \<Rightarrow> None)"

definition is_hex :: "char \<Rightarrow> bool" where
  "is_hex c \<longleftrightarrow> is_digit c \<or> (97 \<le> char_code (lower_char c) \<and> char_code (lower_char c) \<le> 102)"

definition hex_val :: "string \<Rightarrow> nat" where
  "hex_val s = foldl (\<lambda>n c. 16 * n + (if is_digit c then digit_val c else char_code (lower_char c) - 87)) 0 s"

text \<open>
  The loop of netip's \<open>parseIPv6\<close>: \<open>k\<close> groups may still follow, \<open>acc\<close> holds the bytes read, \<open>ell\<close>
  the position of the double colon.
\<close>

fun v6_groups :: "nat \<Rightarrow> nat option \<Rightarrow> byte list \<Rightarrow> string \<Rightarrow> (byte list \<times> nat option) option" where
  "v6_groups 0 ell acc s = (if s = [] then Some (acc, ell) else None)"
| "v6_groups (Suc k) ell acc s =
     (let hex = takeWhile is_hex s; rest = dropWhile is_hex s; acc' = acc @ put16 (word_of_nat (hex_val hex)) in
      if hex = [] \<or> 4 < length hex then None
      else case rest of
        [] \<Rightarrow> Some (acc', ell)
      | c # t \<Rightarrow>
          if c = CHR ''.'' then
            if (ell = None \<and> length acc \<noteq> 12) \<or> 16 < length acc + 4 then None
            else map_option (\<lambda>b. (acc @ b, ell)) (parse_v4 s)
          else if c \<noteq> CHR '':'' then None
          else case t of
            [] \<Rightarrow> None
          | c2 # t2 \<Rightarrow>
              if c2 = CHR '':'' then
                if ell \<noteq> None then None
                else if t2 = [] then Some (acc', Some (length acc'))
                else v6_groups k (Some (length acc')) acc' t2
              else v6_groups k ell acc' t)"

definition parse_v6 :: "string \<Rightarrow> ip option" where
  "parse_v6 s = (let lead = take 2 s = ''::'' in
     if s = ''::'' then Some (replicate 16 0)
     else case v6_groups 8 (if lead then Some 0 else None) [] (if lead then drop 2 s else s) of
       None \<Rightarrow> None
     | Some (acc, ell) \<Rightarrow>
         if length acc < 16 then
           (case ell of None \<Rightarrow> None | Some e \<Rightarrow> Some (take e acc @ replicate (16 - length acc) 0 @ drop e acc))
         else if ell \<noteq> None then None else Some acc)"

text \<open>
  \<open>netip.ParseAddr\<close> decides by the first dot, colon or percent sign. Addresses with a zone are
  rejected by \<open>ParseCIDR\<close>, the only caller, so a percent sign anywhere is an error here.
\<close>

definition parse_addr :: "string \<Rightarrow> ip option" where
  "parse_addr s = (if CHR ''%'' \<in> set s then None
     else case find (\<lambda>c. c = CHR ''.'' \<or> c = CHR '':'') s of
       None \<Rightarrow> None | Some c \<Rightarrow> if c = CHR ''.'' then parse_v4 s else parse_v6 s)"

subsection \<open>Networks\<close>

record ip_net =
  net_IP :: ip
  net_Mask :: "byte list"

definition mask_byte :: "nat \<Rightarrow> nat \<Rightarrow> byte" where
  "mask_byte n i = (if 8 * (i + 1) \<le> n then 255 else if n \<le> 8 * i then 0 else NOT (drop_bit (n - 8 * i) 255))"

text \<open>\<open>net.CIDRMask(n, bits)\<close> for a prefix length in range.\<close>

definition CIDRMask :: "nat \<Rightarrow> nat \<Rightarrow> byte list" where
  "CIDRMask n bits = map (mask_byte n) [0..<bits div 8]"

text \<open>\<open>IP.Mask\<close>; the nil result is the empty list.\<close>

definition ip_Mask :: "ip \<Rightarrow> byte list \<Rightarrow> ip" where
  "ip_Mask x m =
     (let m' = (if length m = 16 \<and> length x = 4 \<and> take 12 m = replicate 12 255 then drop 12 m else m);
          x' = (if length m' = 4 \<and> length x = 16 \<and> take 12 x = v4InV6Prefix then drop 12 x else x)
      in if length x' = length m' then map2 (AND) x' m' else [])"

text \<open>\<open>IPMask.Size\<close>: the number of leading ones, or 0 for a mask that is not of this form.\<close>

definition lead_ones :: "byte \<Rightarrow> nat" where
  "lead_ones v = length (takeWhile (bit v) [7, 6, 5, 4, 3, 2, 1, 0])"

fun simpleMaskLength :: "byte list \<Rightarrow> nat option" where
  "simpleMaskLength [] = Some 0"
| "simpleMaskLength (v # vs) =
     (if v = 255 then map_option (\<lambda>n. 8 + n) (simpleMaskLength vs)
      else if push_bit (lead_ones v) v = 0 \<and> list_all (\<lambda>u. u = 0) vs then Some (lead_ones v) else None)"

definition mask_ones :: "byte list \<Rightarrow> nat" where
  "mask_ones m = (case simpleMaskLength m of None \<Rightarrow> 0 | Some n \<Rightarrow> n)"

text \<open>\<open>net.ParseCIDR\<close>: the network part of its result.\<close>

definition ParseCIDR :: "string \<Rightarrow> ip_net option" where
  "ParseCIDR s =
     (let a = takeWhile (\<lambda>c. c \<noteq> CHR ''/'') s; m = drop (length a + 1) s in
      if length a = length s then None
      else case parse_addr a of
        None \<Rightarrow> None
      | Some x \<Rightarrow>
          let bits = 8 * length x in
          if m = [] \<or> \<not> list_all is_digit m \<or> bits < digits_val m then None
          else let mask = CIDRMask (digits_val m) bits;
                   addr16 = (if length x = 4 then v4InV6Prefix @ x else x)
               in Some \<lparr>net_IP = ip_Mask addr16 mask, net_Mask = mask\<rparr>)"

end
