(* ===== verification/Flows.thy ===== *)
theory Flows
  imports Go_Net Go_Time
begin

text \<open>
  \<open>internal/flows\<close>: the decoder of NetFlow v5 datagrams (\<open>netflow_v5.go\<close>) and the listener that
  collects decoded flows and writes them to \<open>flow_summaries\<close> (\<open>listener.go\<close>). The socket, the
  clock and the context are the events of the listener's loop; \<open>fails r t\<close> says whether the
  database refuses the row \<open>r\<close> when the table holds \<open>t\<close> (a fault, or the 15 second timeout).
\<close>

subsection \<open>Decoding\<close>

record flow_record =
  SrcAddr :: ip
  DstAddr :: ip
  SrcPort :: "16 word"
  DstPort :: "16 word"
  Proto :: "8 word"
  Bytes :: u64
  Packets :: u64
  First :: "32 word"
  Last :: "32 word"

datatype flow_error = ShortHeader | WrongVersion nat | Truncated nat nat | ShortIPFIX | NotIPFIX nat

definition hdrLen :: nat where "hdrLen = 24"
definition recLen :: nat where "recLen = 48"

text \<open>\<open>pkt[i:j]\<close>: \<open>None\<close> is the run-time panic of a slice out of range.\<close>

definition go_slice :: "'a list \<Rightarrow> nat \<Rightarrow> nat \<Rightarrow> 'a list option" where
  "go_slice xs i j = (if i \<le> j \<and> j \<le> length xs then Some (take (j - i) (drop i xs)) else None)"

definition decode_record :: "byte list \<Rightarrow> flow_record" where
  "decode_record rec =
     \<lparr>SrcAddr = net_IPv4 (rec ! 0) (rec ! 1) (rec ! 2) (rec ! 3),
      DstAddr = net_IPv4 (rec ! 4) (rec ! 5) (rec ! 6) (rec ! 7),
      SrcPort = be16 rec 32, DstPort = be16 rec 34, Proto = rec ! 38,
      Bytes = ucast (be32 rec 20), Packets = ucast (be32 rec 16),
      First = be32 rec 24, Last = be32 rec 28\<rparr>"

fun decode_records :: "nat \<Rightarrow> nat \<Rightarrow> byte list \<Rightarrow> flow_record list \<Rightarrow> flow_record list option" where
  "decode_records 0 off pkt out = Some out"
| "decode_records (Suc n) off pkt out =
     (case go_slice pkt off (off + recLen) of
        None \<Rightarrow> None
      | Some rec \<Rightarrow> decode_records n (off + recLen) pkt (out @ [decode_record rec]))"

definition ParseNetFlowV5 :: "byte list \<Rightarrow> (flow_error, flow_record list) outcome" where
  "ParseNetFlowV5 pkt =
     (if length pkt < hdrLen then Failed ShortHeader
      else if be16 pkt 0 \<noteq> 5 then Failed (WrongVersion (unat (be16 pkt 0)))
      else let count = unat (be16 pkt 2); need = hdrLen + count * recLen in
        if count = 0 then Returned []
        else if length pkt < need then Failed (Truncated need (length pkt))
        else case decode_records count hdrLen pkt [] of None \<Rightarrow> Panicked | Some out \<Rightarrow> Returned out)"

definition ParseIPFIX :: "byte list \<Rightarrow> (flow_error, flow_record list) outcome" where
  "ParseIPFIX pkt =
     (if length pkt < 16 then Failed ShortIPFIX
      else if be16 pkt 0 \<noteq> 10 then Failed (NotIPFIX (unat (be16 pkt 0)))
      else Returned [])"

subsection \<open>The listener\<close>

record persist_row =
  pr_t :: int
  pr_src :: ip
  pr_dst :: ip
  pr_srcPort :: int
  pr_dstPort :: int
  pr_proto :: int
  pr_bytes :: int
  pr_packets :: int
  pr_exporter :: ip

text \<open>The parameters of the INSERT statement; \<open>None\<close> is NULL.\<close>

record flow_row =
  fr_time :: int
  fr_src_addr :: string
  fr_dst_addr :: string
  fr_src_port :: "int option"
  fr_dst_port :: "int option"
  fr_proto :: int
  fr_bytes :: int
  fr_packets :: int
  fr_exporter_ip :: "string option"

record listener =
  pending :: "persist_row list"
  flow_summaries :: "flow_row list"

type_synonym faults = "flow_row \<Rightarrow> flow_row list \<Rightarrow> bool"

definition nullInt :: "int \<Rightarrow> int option" where
  "nullInt n = (if n = 0 then None else Some n)"

definition nullableIP :: "ip \<Rightarrow> string option" where
  "nullableIP x = (if x = [] then None else Some (ip_String x))"

definition binaryVersion :: "byte list \<Rightarrow> 16 word" where
  "binaryVersion pkt = (if length pkt < 2 then 0 else push_bit 8 (ucast (pkt ! 0)) OR ucast (pkt ! 1))"

definition pending_row :: "int \<Rightarrow> ip \<Rightarrow> flow_record \<Rightarrow> persist_row" where
  "pending_row now exporter r =
     \<lparr>pr_t = now, pr_src = SrcAddr r, pr_dst = DstAddr r, pr_srcPort = uint (SrcPort r),
      pr_dstPort = uint (DstPort r), pr_proto = uint (Proto r), pr_bytes = i64 (uint (Bytes r)),
      pr_packets = i64 (uint (Packets r)), pr_exporter = exporter\<rparr>"

definition insert_args :: "persist_row \<Rightarrow> flow_row" where
  "insert_args r =
     \<lparr>fr_time = pr_t r, fr_src_addr = ip_String (pr_src r), fr_dst_addr = ip_String (pr_dst r),
      fr_src_port = nullInt (pr_srcPort r), fr_dst_port = nullInt (pr_dstPort r), fr_proto = pr_proto r,
      fr_bytes = pr_bytes r, fr_packets = pr_packets r, fr_exporter_ip = nullableIP (pr_exporter r)\<rparr>"

text \<open>The loop of \<open>flush\<close>: the first failed INSERT ends it.\<close>

fun insert_batch :: "faults \<Rightarrow> persist_row list \<Rightarrow> flow_row list \<Rightarrow> flow_row list" where
  "insert_batch fails [] table = table"
| "insert_batch fails (r # rs) table =
     (if fails (insert_args r) table then table else insert_batch fails rs (table @ [insert_args r]))"

definition flush_flows :: "faults \<Rightarrow> listener \<Rightarrow> listener" where
  "flush_flows fails l =
     (let batch = pending l; l' = l\<lparr>pending := []\<rparr> in
      if batch = [] then l'
      else l'\<lparr>flow_summaries := insert_batch fails batch (flow_summaries l')\<rparr>)"

definition flow_records_of :: "byte list \<Rightarrow> (flow_error, flow_record list) outcome option" where
  "flow_records_of pkt =
     (if 2 \<le> length pkt \<and> binaryVersion pkt = 5 then Some (ParseNetFlowV5 pkt)
      else if 2 \<le> length pkt \<and> binaryVersion pkt = 10 then Some (ParseIPFIX pkt)
      else None)"

text \<open>\<open>None\<close> is a panic of the decoder.\<close>

definition handlePacket :: "faults \<Rightarrow> int \<Rightarrow> byte list \<Rightarrow> ip \<Rightarrow> listener \<Rightarrow> listener option" where
  "handlePacket fails now pkt exporter l =
     (case flow_records_of pkt of
        None \<Rightarrow> Some l
      | Some Panicked \<Rightarrow> None
      | Some (Failed e) \<Rightarrow> Some l
      | Some (Returned recs) \<Rightarrow>
          if recs = [] then Some l
          else let l' = l\<lparr>pending := pending l @ map (pending_row now exporter) recs\<rparr> in
            Some (if 500 \<le> length (pending l') then flush_flows fails l' else l'))"

text \<open>
  What one round of \<open>Run\<close> meets: the end of the context, the flush ticker, a read that timed out,
  a failed read (with or without a finished context), a datagram from an exporter.
\<close>

datatype flow_event =
    CtxDone
  | FlushTick
  | ReadTimeout
  | ReadFailed bool
  | Datagram int "byte list" ip

datatype run_state = Running listener | Stopped listener | Crashed

definition bufLen :: nat where "bufLen = 65535"

fun run_round :: "faults \<Rightarrow> flow_event \<Rightarrow> listener \<Rightarrow> run_state" where
  "run_round fails CtxDone l = Stopped (flush_flows fails l)"
| "run_round fails FlushTick l = Running (flush_flows fails l)"
| "run_round fails ReadTimeout l = Running l"
| "run_round fails (ReadFailed ended) l = (if ended then Stopped (flush_flows fails l) else Running l)"
| "run_round fails (Datagram now pkt exporter) l =
     (case handlePacket fails now (take bufLen pkt) exporter l of None \<Rightarrow> Crashed | Some l' \<Rightarrow> Running l')"

fun run_flows :: "faults \<Rightarrow> flow_event list \<Rightarrow> listener \<Rightarrow> run_state" where
  "run_flows fails [] l = Running l"
| "run_flows fails (e # es) l =
     (case run_round fails e l of Running l' \<Rightarrow> run_flows fails es l' | s \<Rightarrow> s)"

subsection \<open>The decoder stays inside the datagram\<close>

lemma decode_records_ok:
  assumes "off + n * recLen \<le> length pkt"
  shows "decode_records n off pkt out =
    Some (out @ map (\<lambda>i. decode_record (take recLen (drop (off + i * recLen) pkt))) [0..<n])"
  using assms
proof (induction n arbitrary: off out)
  case (Suc n)
  have "off + recLen \<le> length pkt" using Suc.prems by simp
  then have s: "go_slice pkt off (off + recLen) = Some (take recLen (drop off pkt))"
    by (simp add: go_slice_def)
  have i: "map (\<lambda>i. decode_record (take recLen (drop (off + i * recLen) pkt))) [0..<Suc n] =
      decode_record (take recLen (drop off pkt)) #
      map (\<lambda>i. decode_record (take recLen (drop (off + recLen + i * recLen) pkt))) [0..<n]"
    by (simp add: upt_conv_Cons map_Suc_upt [symmetric] comp_def add.assoc del: upt_Suc)
  show ?case using Suc.IH [of "off + recLen" "out @ [decode_record (take recLen (drop off pkt))]"] Suc.prems
    by (simp add: s i add.assoc del: upt_Suc)
qed simp

lemma ParseNetFlowV5_eq:
  "ParseNetFlowV5 pkt =
     (if length pkt < 24 then Failed ShortHeader
      else if be16 pkt 0 \<noteq> 5 then Failed (WrongVersion (unat (be16 pkt 0)))
      else let count = unat (be16 pkt 2) in
        if length pkt < 24 + count * 48 then Failed (Truncated (24 + count * 48) (length pkt))
        else Returned (map (\<lambda>i. decode_record (take 48 (drop (24 + i * 48) pkt))) [0..<count]))"
  using decode_records_ok [of hdrLen "unat (be16 pkt 2)" pkt "[]"]
  by (auto simp: ParseNetFlowV5_def Let_def hdrLen_def recLen_def)

text \<open>ParseNetFlowV5 never indexes outside the datagram: it answers with an error exactly for a
  datagram shorter than the header, of another version, or shorter than its record count asks for,
  and otherwise with exactly as many records as the header announces.\<close>

theorem v5_decoder_total:
  "ParseNetFlowV5 pkt \<noteq> Panicked
   \<and> ((\<exists>e. ParseNetFlowV5 pkt = Failed e) \<longleftrightarrow>
      \<not> (24 \<le> length pkt \<and> be16 pkt 0 = 5 \<and> 24 + unat (be16 pkt 2) * 48 \<le> length pkt))
   \<and> (case ParseNetFlowV5 pkt of Returned recs \<Rightarrow> length recs = unat (be16 pkt 2) | _ \<Rightarrow> True)"
  by (simp add: ParseNetFlowV5_eq Let_def not_le)

subsection \<open>The wire format\<close>

text \<open>A NetFlow v5 record as exporters send it, every field included.\<close>

record v5_flow =
  w_srcaddr :: "32 word"
  w_dstaddr :: "32 word"
  w_nexthop :: "32 word"
  w_input :: "16 word"
  w_output :: "16 word"
  w_dPkts :: "32 word"
  w_dOctets :: "32 word"
  w_first :: "32 word"
  w_last :: "32 word"
  w_srcport :: "16 word"
  w_dstport :: "16 word"
  w_pad1 :: byte
  w_tcp_flags :: byte
  w_prot :: byte
  w_tos :: byte
  w_src_as :: "16 word"
  w_dst_as :: "16 word"
  w_src_mask :: byte
  w_dst_mask :: byte
  w_pad2 :: "16 word"

definition wire_record :: "v5_flow \<Rightarrow> byte list" where
  "wire_record f = put32 (w_srcaddr f) @ put32 (w_dstaddr f) @ put32 (w_nexthop f) @ put16 (w_input f)
     @ put16 (w_output f) @ put32 (w_dPkts f) @ put32 (w_dOctets f) @ put32 (w_first f) @ put32 (w_last f)
     @ put16 (w_srcport f) @ put16 (w_dstport f) @ [w_pad1 f, w_tcp_flags f, w_prot f, w_tos f]
     @ put16 (w_src_as f) @ put16 (w_dst_as f) @ [w_src_mask f, w_dst_mask f] @ put16 (w_pad2 f)"

definition wire_packet :: "byte list \<Rightarrow> v5_flow list \<Rightarrow> byte list" where
  "wire_packet hdr fs = put16 5 @ put16 (of_nat (length fs)) @ hdr @ concat (map wire_record fs)"

definition addr_of :: "32 word \<Rightarrow> ip" where
  "addr_of w = v4InV6Prefix @ put32 w"

definition flow_of :: "v5_flow \<Rightarrow> flow_record" where
  "flow_of f = \<lparr>SrcAddr = addr_of (w_srcaddr f), DstAddr = addr_of (w_dstaddr f), SrcPort = w_srcport f,
     DstPort = w_dstport f, Proto = w_prot f, Bytes = ucast (w_dOctets f), Packets = ucast (w_dPkts f),
     First = w_first f, Last = w_last f\<rparr>"

lemma length_wire_record [simp]: "length (wire_record f) = 48"
  by (simp add: wire_record_def)

lemma decode_wire_record: "decode_record (wire_record f) = flow_of f"
proof -
  have a: "net_IPv4 (wire_record f ! 0) (wire_record f ! 1) (wire_record f ! 2) (wire_record f ! 3) = addr_of (w_srcaddr f)"
    "net_IPv4 (wire_record f ! 4) (wire_record f ! 5) (wire_record f ! 6) (wire_record f ! 7) = addr_of (w_dstaddr f)"
    by (simp_all add: net_IPv4_def addr_of_def wire_record_def put32_def)
  have p: "wire_record f ! 38 = w_prot f" by (simp add: wire_record_def put32_def put16_def)
  let ?pre16 = "put32 (w_srcaddr f) @ put32 (w_dstaddr f) @ put32 (w_nexthop f) @ put16 (w_input f) @ put16 (w_output f)"
  let ?pre32 = "?pre16 @ put32 (w_dPkts f) @ put32 (w_dOctets f) @ put32 (w_first f) @ put32 (w_last f)"
  have "be32 (wire_record f) 16 = w_dPkts f"
    using be_in_context(2) [of ?pre16 16] by (simp add: wire_record_def)
  moreover have "be32 (wire_record f) 20 = w_dOctets f"
    using be_in_context(2) [of "?pre16 @ put32 (w_dPkts f)" 20] by (simp add: wire_record_def)
  moreover have "be32 (wire_record f) 24 = w_first f"
    using be_in_context(2) [of "?pre16 @ put32 (w_dPkts f) @ put32 (w_dOctets f)" 24] by (simp add: wire_record_def)
  moreover have "be32 (wire_record f) 28 = w_last f"
    using be_in_context(2) [of "?pre16 @ put32 (w_dPkts f) @ put32 (w_dOctets f) @ put32 (w_first f)" 28]
    by (simp add: wire_record_def)
  moreover have "be16 (wire_record f) 32 = w_srcport f"
    using be_in_context(1) [of ?pre32 32] by (simp add: wire_record_def)
  moreover have "be16 (wire_record f) 34 = w_dstport f"
    using be_in_context(1) [of "?pre32 @ put16 (w_srcport f)" 34] by (simp add: wire_record_def)
  ultimately show ?thesis by (simp only: decode_record_def flow_of_def a p)
qed

lemma wire_record_at:
  assumes "i < length fs"
  shows "take 48 (drop (i * 48) (concat (map wire_record fs) @ rest)) = wire_record (fs ! i)"
  using assms
proof (induction fs arbitrary: i)
  case (Cons f fs)
  show ?case
  proof (cases i)
    case (Suc j)
    then have "take 48 (drop (j * 48) (concat (map wire_record fs) @ rest)) = wire_record (fs ! j)" using Cons by simp
    then show ?thesis using Suc by simp
  qed simp
qed simp

text \<open>ParseNetFlowV5 is a left inverse of the NetFlow v5 wire format: a datagram of any flows,
  whatever the rest of its header and whatever follows it, is decoded to exactly these flows in
  order.\<close>

theorem v5_roundtrip:
  assumes "length hdr = 20" and "length fs < 65536"
  shows "ParseNetFlowV5 (wire_packet hdr fs @ trailer) = Returned (map flow_of fs)"
proof -
  let ?p = "wire_packet hdr fs @ trailer"
  have v: "be16 ?p 0 = 5" using be_in_context(1) [of "[]" 0 5] by (simp add: wire_packet_def)
  have c: "be16 ?p 2 = of_nat (length fs)"
    using be_in_context(1) [of "put16 5" 2] by (simp add: wire_packet_def)
  have n: "unat (of_nat (length fs) :: 16 word) = length fs" using assms(2) by (simp add: unat_of_nat)
  have l: "length ?p = 24 + length fs * 48 + length trailer"
    using assms(1) by (simp add: wire_packet_def length_concat comp_def sum_list_triv)
  have h: "take 48 (drop (24 + i * 48) ?p) = wire_record (fs ! i)" if "i < length fs" for i
  proof -
    have "drop (24 + i * 48) ?p = drop (i * 48) (drop 24 ?p)" by (simp only: drop_drop add.commute)
    also have "drop 24 ?p = concat (map wire_record fs) @ trailer"
      using assms(1) by (simp add: wire_packet_def put16_def)
    finally show ?thesis using wire_record_at [OF that, of trailer] by simp
  qed
  have "map (\<lambda>i. decode_record (take 48 (drop (24 + i * 48) ?p))) [0..<length fs] = map flow_of fs"
    by (rule nth_equalityI) (simp_all only: length_map length_upt diff_zero nth_map nth_upt h decode_wire_record add_0)
  moreover have "\<not> length ?p < 24 + length fs * 48" and "\<not> length ?p < 24" using l by simp_all
  ultimately show ?thesis by (simp only: ParseNetFlowV5_eq Let_def v c n if_False not_True_eq_False simp_thms)
qed

definition demo_flow :: v5_flow where
  "demo_flow = \<lparr>w_srcaddr = 0x0A000001, w_dstaddr = 0xC0A80005, w_nexthop = 0, w_input = 1, w_output = 2,
     w_dPkts = 3, w_dOctets = 1500, w_first = 100, w_last = 200, w_srcport = 443, w_dstport = 50000,
     w_pad1 = 0, w_tcp_flags = 16, w_prot = 6, w_tos = 0, w_src_as = 0, w_dst_as = 0, w_src_mask = 24,
     w_dst_mask = 24, w_pad2 = 0\<rparr>"

theorem v5_roundtrip_witness:
  "ParseNetFlowV5 (wire_packet (replicate 20 0) [demo_flow, demo_flow] @ [9]) =
     Returned [flow_of demo_flow, flow_of demo_flow]"
  using v5_roundtrip [of "replicate 20 0" "[demo_flow, demo_flow]" "[9]"] by simp

subsection \<open>The listener keeps and stores the flows\<close>

lemma insert_batch_no_fault: "(\<And>r t. \<not> fails r t) \<Longrightarrow> insert_batch fails rs table = table @ map insert_args rs"
  by (induction rs arbitrary: table) simp_all

lemma insert_batch_prefix: "\<exists>k \<le> length rs. insert_batch fails rs table = table @ map insert_args (take k rs)
    \<and> (k < length rs \<longrightarrow> fails (insert_args (rs ! k)) (table @ map insert_args (take k rs)))"
proof (induction rs arbitrary: table)
  case (Cons r rs)
  show ?case
  proof (cases "fails (insert_args r) table")
    case True then show ?thesis by (intro exI [of _ 0]) simp
  next
    case False
    obtain k where k: "k \<le> length rs" "insert_batch fails rs (table @ [insert_args r]) =
        (table @ [insert_args r]) @ map insert_args (take k rs)"
      "k < length rs \<longrightarrow> fails (insert_args (rs ! k)) ((table @ [insert_args r]) @ map insert_args (take k rs))"
      using Cons.IH [of "table @ [insert_args r]"] by blast
    then show ?thesis using False by (intro exI [of _ "Suc k"]) simp
  qed
qed simp

lemma flush_flows_simps [simp]:
  "pending (flush_flows fails l) = []"
  "flow_summaries (flush_flows fails l) = insert_batch fails (pending l) (flow_summaries l)"
  by (simp_all add: flush_flows_def Let_def)

text \<open>The rows of one datagram.\<close>

definition rows_of :: "int \<Rightarrow> byte list \<Rightarrow> ip \<Rightarrow> persist_row list" where
  "rows_of now pkt exporter = (case flow_records_of (take bufLen pkt) of
      Some (Returned recs) \<Rightarrow> map (pending_row now exporter) recs | _ \<Rightarrow> [])"

lemma flow_records_no_panic: "flow_records_of pkt \<noteq> Some Panicked"
  by (simp add: flow_records_of_def ParseNetFlowV5_eq ParseIPFIX_def Let_def)

lemma handlePacket_rows:
  "handlePacket fails now (take bufLen pkt) exporter l =
     (let rows = rows_of now pkt exporter; l' = l\<lparr>pending := pending l @ rows\<rparr> in
      Some (if rows \<noteq> [] \<and> 500 \<le> length (pending l') then flush_flows fails l' else l'))"
  using flow_records_no_panic [of "take bufLen pkt"]
  by (auto simp: handlePacket_def rows_of_def Let_def split: option.splits outcome.splits)

lemma rows_of_bound: "length (rows_of now pkt exporter) \<le> 1364"
proof -
  have "24 + length recs * 48 \<le> 65535"
    if "flow_records_of (take bufLen pkt) = Some (Returned recs)" and "recs \<noteq> []" for recs
    using that by (auto simp: flow_records_of_def ParseNetFlowV5_eq ParseIPFIX_def bufLen_def Let_def
        split: if_splits)
  then show ?thesis by (fastforce simp: rows_of_def split: option.split outcome.split)
qed

text \<open>The specification: what the events deliver, in order, until the loop stops.\<close>

fun delivered :: "flow_event list \<Rightarrow> persist_row list" where
  "delivered [] = []"
| "delivered (CtxDone # es) = []"
| "delivered (ReadFailed ended # es) = (if ended then [] else delivered es)"
| "delivered (Datagram now pkt exporter # es) = rows_of now pkt exporter @ delivered es"
| "delivered (_ # es) = delivered es"

fun listener_of :: "run_state \<Rightarrow> listener option" where
  "listener_of (Running l) = Some l"
| "listener_of (Stopped l) = Some l"
| "listener_of Crashed = None"

lemma run_flows_invariant:
  assumes "length (pending l) < 500"
  shows "\<exists>l'. listener_of (run_flows fails es l) = Some l' \<and> length (pending l') < 500
    \<and> (\<forall>l''. run_flows fails es l = Stopped l'' \<longrightarrow> pending l'' = [])"
  using assms
proof (induction es arbitrary: l)
  case (Cons e es)
  show ?case using Cons.prems
    by (cases e) (auto simp: handlePacket_rows Let_def intro!: Cons.IH)
qed simp

text \<open>The listener never crashes, whatever datagrams it receives, and after every round fewer
  than 500 rows wait in memory; when it stops, none does.\<close>

theorem pending_bounded:
  "\<exists>l. listener_of (run_flows fails es \<lparr>pending = [], flow_summaries = t\<rparr>) = Some l
     \<and> length (pending l) < 500
     \<and> (case run_flows fails es \<lparr>pending = [], flow_summaries = t\<rparr> of Stopped l' \<Rightarrow> pending l' = [] | _ \<Rightarrow> True)"
  using run_flows_invariant [of "\<lparr>pending = [], flow_summaries = t\<rparr>" fails es]
  by (auto split: run_state.split)

lemma run_flows_stored:
  assumes "\<And>r t. \<not> fails r t"
  shows "\<exists>l'. listener_of (run_flows fails es l) = Some l'
    \<and> flow_summaries l' @ map insert_args (pending l') =
       flow_summaries l @ map insert_args (pending l) @ map insert_args (delivered es)"
proof (induction es arbitrary: l)
  case (Cons e es)
  note i = insert_batch_no_fault [OF assms]
  show ?case
  proof (cases e)
    case (Datagram now pkt exporter)
    obtain l1 where l1: "handlePacket fails now (take bufLen pkt) exporter l = Some l1"
      "flow_summaries l1 @ map insert_args (pending l1) =
         flow_summaries l @ map insert_args (pending l) @ map insert_args (rows_of now pkt exporter)"
      by (auto simp: handlePacket_rows Let_def i)
    then show ?thesis using Cons.IH [of l1] by (auto simp: Datagram)
  next
    case FlushTick
    then show ?thesis using Cons.IH [of "flush_flows fails l"] by (auto simp: i)
  qed (auto simp: i Cons.IH)
qed simp

text \<open>As long as the database accepts every row, no flow is lost, duplicated or reordered: the
  stored rows followed by the waiting ones are exactly the flows of the datagrams received, in
  order.\<close>

theorem flows_kept:
  assumes "\<And>r t. \<not> fails r t"
  shows "\<exists>l. listener_of (run_flows fails es \<lparr>pending = [], flow_summaries = t\<rparr>) = Some l
    \<and> flow_summaries l @ map insert_args (pending l) = t @ map insert_args (delivered es)"
  using run_flows_stored [of fails es "\<lparr>pending = [], flow_summaries = t\<rparr>"] assms by simp

definition demo_packet :: "byte list" where
  "demo_packet = wire_packet (replicate 20 0) [demo_flow]"

theorem flows_kept_witness:
  "\<exists>l. listener_of (run_flows (\<lambda>_ _. False) [Datagram 7 demo_packet [10, 0, 0, 9], FlushTick]
      \<lparr>pending = [], flow_summaries = []\<rparr>) = Some l
    \<and> flow_summaries l @ map insert_args (pending l) =
       map insert_args (delivered [Datagram 7 demo_packet [10, 0, 0, 9], FlushTick])"
  using flows_kept [of "\<lambda>_ _. False" "[Datagram 7 demo_packet [10, 0, 0, 9], FlushTick]" "[]"] by simp

text \<open>A single refused row costs the rest of the batch: flush writes the rows before it, empties
  the buffer and forgets every row after it, even those the database would have taken.\<close>

theorem refused_row_drops_batch:
  assumes "pending l = good @ bad # rest"
    and "\<And>r t. fails r t \<longleftrightarrow> r = insert_args bad" and "\<forall>r \<in> set good. insert_args r \<noteq> insert_args bad"
  shows "flush_flows fails l = l\<lparr>pending := [], flow_summaries := flow_summaries l @ map insert_args good\<rparr>"
proof -
  have "insert_batch fails (good @ bad # rest) t = t @ map insert_args good" for t
    using assms(3) by (induction good arbitrary: t) (simp_all add: assms(2))
  then show ?thesis using assms(1) by (simp add: flush_flows_def Let_def)
qed

definition demo_row :: "int \<Rightarrow> persist_row" where
  "demo_row p = \<lparr>pr_t = 0, pr_src = [10, 0, 0, 1], pr_dst = [10, 0, 0, 2], pr_srcPort = p, pr_dstPort = 53,
     pr_proto = 17, pr_bytes = 100, pr_packets = 1, pr_exporter = []\<rparr>"

theorem refused_row_drops_batch_witness:
  "flush_flows (\<lambda>r t. r = insert_args (demo_row 2))
     \<lparr>pending = [demo_row 1, demo_row 2, demo_row 3], flow_summaries = []\<rparr> =
   \<lparr>pending = [], flow_summaries = [insert_args (demo_row 1)]\<rparr>"
  using refused_row_drops_batch [of "\<lparr>pending = [demo_row 1, demo_row 2, demo_row 3], flow_summaries = []\<rparr>"
      "[demo_row 1]" "demo_row 2" "[demo_row 3]" "\<lambda>r t. r = insert_args (demo_row 2)"]
  by (simp add: demo_row_def insert_args_def nullInt_def)

end
