(* ===== verification/Passive_Inventory.thy ===== *)
theory Passive_Inventory
  imports Go_Net
begin

text \<open>
  \<open>internal/api/handlers_passive_snmp.go\<close>: merging a batch of passively seen devices into
  \<open>passive_snmp_inventory\<close> and \<open>passive_snmp_changes\<close>. The tables are those of migration 0018; the
  primary key of the inventory is the site and the address. The faults of the statements, the order
  in which Go walks the map \<open>seen\<close>, the ids of new feed entries and which entries the trimming
  query keeps are parameters.
\<close>

subsection \<open>Tables\<close>

record passive_row =
  ps_vendor :: "string option"
  ps_type :: "string option"
  ps_sub_type :: "string option"
  ps_sys_descr :: "string option"
  ps_sys_object_id :: "string option"
  ps_sys_name :: "string option"
  ps_sys_location :: "string option"
  ps_active :: bool
  ps_first_seen :: int
  ps_last_seen :: int
  ps_miss_count :: int

record passive_wire =
  pw_IP :: string
  pw_Vendor :: string
  pw_Type :: string
  pw_SubType :: string
  pw_SysDescr :: string
  pw_SysObjectID :: string
  pw_SysName :: string
  pw_SysLocation :: string

datatype change_kind = Added | Reactivated | ChangedRow | RetiredRow

text \<open>A feed entry: the old vendor, type and description and the new device, as far as stored.\<close>

record feed_entry =
  fe_time :: int
  fe_site :: uuid
  fe_ip :: ip
  fe_kind :: change_kind
  fe_old :: "(string \<times> string \<times> string) option"
  fe_new :: "passive_wire option"

record passive_db =
  pv_rows :: "((uuid \<times> ip) \<times> passive_row) list"
  pv_feed :: "feed_entry list"

record passive_req =
  pr_Devices :: "passive_wire list"
  pr_RetireAfter :: int

record passive_env =
  pn_fault :: "nat \<Rightarrow> bool"
  pn_order :: "passive_wire list \<Rightarrow> passive_wire list"
  pn_newest :: "feed_entry list \<Rightarrow> feed_entry list"
  pn_now :: int

subsection \<open>Statements\<close>

text \<open>
  The transaction: its copy of the tables, the number of the next statement, and whether an earlier
  statement failed. After a failure PostgreSQL refuses everything, the commit included, whether or
  not Go looked at the error.
\<close>

record ptx =
  px_db :: passive_db
  px_step :: nat
  px_dead :: bool

definition stmt :: "passive_env \<Rightarrow> (passive_db \<Rightarrow> passive_db) \<Rightarrow> ptx \<Rightarrow> bool \<times> ptx" where
  "stmt env f t =
     (if px_dead t \<or> pn_fault env (px_step t) then (False, t\<lparr>px_step := px_step t + 1, px_dead := True\<rparr>)
      else (True, t\<lparr>px_step := px_step t + 1, px_db := f (px_db t)\<rparr>))"

definition nullif :: "string \<Rightarrow> string option" where
  "nullif s = (if s = [] then None else Some s)"

definition coalesce :: "'a option \<Rightarrow> 'a option \<Rightarrow> 'a option" where
  "coalesce x y = (case x of None \<Rightarrow> y | Some _ \<Rightarrow> x)"

definition text_of :: "string option \<Rightarrow> string" where
  "text_of x = (case x of None \<Rightarrow> [] | Some s \<Rightarrow> s)"

definition new_row :: "int \<Rightarrow> passive_wire \<Rightarrow> passive_row" where
  "new_row now d =
     \<lparr>ps_vendor = nullif (pw_Vendor d), ps_type = nullif (pw_Type d), ps_sub_type = nullif (pw_SubType d),
      ps_sys_descr = nullif (pw_SysDescr d), ps_sys_object_id = nullif (pw_SysObjectID d),
      ps_sys_name = nullif (pw_SysName d), ps_sys_location = nullif (pw_SysLocation d),
      ps_active = True, ps_first_seen = now, ps_last_seen = now, ps_miss_count = 0\<rparr>"

text \<open>\<open>ON CONFLICT (site_id, ip) DO UPDATE\<close>.\<close>

definition seen_again :: "int \<Rightarrow> passive_wire \<Rightarrow> passive_row \<Rightarrow> passive_row" where
  "seen_again now d r =
     r\<lparr>ps_vendor := coalesce (nullif (pw_Vendor d)) (ps_vendor r),
       ps_type := coalesce (nullif (pw_Type d)) (ps_type r),
       ps_sub_type := coalesce (nullif (pw_SubType d)) (ps_sub_type r),
       ps_sys_descr := coalesce (nullif (pw_SysDescr d)) (ps_sys_descr r),
       ps_sys_object_id := coalesce (nullif (pw_SysObjectID d)) (ps_sys_object_id r),
       ps_sys_name := coalesce (nullif (pw_SysName d)) (ps_sys_name r),
       ps_sys_location := coalesce (nullif (pw_SysLocation d)) (ps_sys_location r),
       ps_active := True, ps_last_seen := now, ps_miss_count := 0\<rparr>"

definition upsert_device :: "uuid \<Rightarrow> int \<Rightarrow> passive_wire \<Rightarrow> ip \<Rightarrow> passive_db \<Rightarrow> passive_db" where
  "upsert_device site now d x db =
     db\<lparr>pv_rows := (case map_of (pv_rows db) (site, x) of
          None \<Rightarrow> pv_rows db @ [((site, x), new_row now d)]
        | Some _ \<Rightarrow> upsert (site, x) (new_row now d) (seen_again now d) (pv_rows db))\<rparr>"

definition old_values :: "passive_row \<Rightarrow> string \<times> string \<times> string" where
  "old_values r = (text_of (ps_vendor r), text_of (ps_type r), text_of (ps_sys_descr r))"

text \<open>The event of the last switch of the loop, from the row before the upsert.\<close>

definition device_event :: "uuid \<Rightarrow> int \<Rightarrow> passive_wire \<Rightarrow> ip \<Rightarrow> passive_row option \<Rightarrow> feed_entry list" where
  "device_event site now d x prev =
     (case prev of
        None \<Rightarrow> [\<lparr>fe_time = now, fe_site = site, fe_ip = x, fe_kind = Added, fe_old = None, fe_new = Some d\<rparr>]
      | Some r \<Rightarrow>
          if \<not> ps_active r then
            [\<lparr>fe_time = now, fe_site = site, fe_ip = x, fe_kind = Reactivated, fe_old = None, fe_new = Some d\<rparr>]
          else case old_values r of (prevVendor, prevType, prevDescr) \<Rightarrow>
            if (pw_Vendor d \<noteq> [] \<and> pw_Vendor d \<noteq> prevVendor) \<or> (pw_Type d \<noteq> [] \<and> pw_Type d \<noteq> prevType)
               \<or> (pw_SysDescr d \<noteq> [] \<and> pw_SysDescr d \<noteq> prevDescr)
            then [\<lparr>fe_time = now, fe_site = site, fe_ip = x, fe_kind = ChangedRow, fe_old = Some (old_values r), fe_new = Some d\<rparr>]
            else [])"

definition add_feed :: "feed_entry list \<Rightarrow> passive_db \<Rightarrow> passive_db" where
  "add_feed es db = db\<lparr>pv_feed := pv_feed db @ es\<rparr>"

definition inet :: "string \<Rightarrow> ip" where
  "inet s = (case parse_addr s of None \<Rightarrow> [] | Some x \<Rightarrow> x)"

text \<open>One device; \<open>None\<close> is \<open>return err\<close>. The INSERT of the event is sent only when there is one.\<close>

definition merge_device :: "passive_env \<Rightarrow> uuid \<Rightarrow> passive_wire \<Rightarrow> ptx \<Rightarrow> ptx option" where
  "merge_device env site d t =
     (case stmt env id t of
        (False, _) \<Rightarrow> None
      | (True, t1) \<Rightarrow>
          let x = inet (pw_IP d); prev = map_of (pv_rows (px_db t1)) (site, x) in
          (case stmt env (upsert_device site (pn_now env) d x) t1 of
             (False, _) \<Rightarrow> None
           | (True, t2) \<Rightarrow>
               let es = device_event site (pn_now env) d x prev in
               Some (if es = [] then t2 else snd (stmt env (add_feed es) t2))))"

fun merge_devices :: "passive_env \<Rightarrow> uuid \<Rightarrow> passive_wire list \<Rightarrow> ptx \<Rightarrow> ptx option" where
  "merge_devices env site [] t = Some t"
| "merge_devices env site (d # ds) t =
     (case merge_device env site d t of None \<Rightarrow> None | Some t' \<Rightarrow> merge_devices env site ds t')"

definition bump_missing :: "uuid \<Rightarrow> ip list \<Rightarrow> passive_db \<Rightarrow> passive_db" where
  "bump_missing site seen db =
     db\<lparr>pv_rows := map (\<lambda>(k, r). (k,
          if fst k = site \<and> ps_active r \<and> snd k \<notin> set seen then r\<lparr>ps_miss_count := ps_miss_count r + 1\<rparr> else r)) (pv_rows db)\<rparr>"

definition retiring :: "uuid \<Rightarrow> int \<Rightarrow> passive_db \<Rightarrow> (ip \<times> passive_row) list" where
  "retiring site retireAfter db =
     map (\<lambda>((s, x), r). (x, r)) (filter (\<lambda>((s, x), r). s = site \<and> ps_active r \<and> retireAfter \<le> ps_miss_count r) (pv_rows db))"

definition retire_row :: "uuid \<Rightarrow> ip \<Rightarrow> passive_db \<Rightarrow> passive_db" where
  "retire_row site x db =
     db\<lparr>pv_rows := map (\<lambda>(k, r). (k, if k = (site, x) then r\<lparr>ps_active := False\<rparr> else r)) (pv_rows db)\<rparr>"

definition retired_event :: "uuid \<Rightarrow> int \<Rightarrow> ip \<Rightarrow> passive_row \<Rightarrow> feed_entry" where
  "retired_event site now x r =
     \<lparr>fe_time = now, fe_site = site, fe_ip = x, fe_kind = RetiredRow, fe_old = Some (old_values r), fe_new = None\<rparr>"

fun retire_rows :: "passive_env \<Rightarrow> uuid \<Rightarrow> (ip \<times> passive_row) list \<Rightarrow> ptx \<Rightarrow> ptx option" where
  "retire_rows env site [] t = Some t"
| "retire_rows env site ((x, r) # xs) t =
     (case stmt env (retire_row site x) t of
        (False, _) \<Rightarrow> None
      | (True, t') \<Rightarrow> retire_rows env site xs (snd (stmt env (add_feed [retired_event site (pn_now env) x r]) t')))"

text \<open>The DELETE that keeps the 500 newest entries of the site.\<close>

definition trim_feed :: "passive_env \<Rightarrow> uuid \<Rightarrow> passive_db \<Rightarrow> passive_db" where
  "trim_feed env site db =
     db\<lparr>pv_feed := filter (\<lambda>e. fe_site e \<noteq> site) (pv_feed db) @ pn_newest env (filter (\<lambda>e. fe_site e = site) (pv_feed db))\<rparr>"

text \<open>Go's \<open>seen\<close> map: of devices with the same text as address the last counts.\<close>

definition seen_devices :: "passive_wire list \<Rightarrow> passive_wire list" where
  "seen_devices ds = map snd (foldl (\<lambda>m d. upsert (pw_IP d) d (\<lambda>_. d) m) [] ds)"

definition merge_body :: "passive_env \<Rightarrow> uuid \<Rightarrow> passive_req \<Rightarrow> ptx \<Rightarrow> ptx option" where
  "merge_body env site req t =
     (let ds = pn_order env (seen_devices (pr_Devices req)) in
      case merge_devices env site ds t of
        None \<Rightarrow> None
      | Some t1 \<Rightarrow>
          (case stmt env (bump_missing site (map (\<lambda>d. inet (pw_IP d)) ds)) t1 of
             (False, _) \<Rightarrow> None
           | (True, t2) \<Rightarrow>
               (case stmt env id t2 of
                  (False, _) \<Rightarrow> None
                | (True, t3) \<Rightarrow>
                    (case retire_rows env site (retiring site (pr_RetireAfter req) (px_db t3)) t3 of
                       None \<Rightarrow> None
                     | Some t4 \<Rightarrow> Some (snd (stmt env (trim_feed env site) t4))))))"

text \<open>BEGIN is statement 0; without a commit the deferred rollback leaves the tables alone.\<close>

definition mergePassiveSNMPBatch :: "passive_env \<Rightarrow> uuid \<Rightarrow> passive_req \<Rightarrow> passive_db \<Rightarrow> bool \<times> passive_db" where
  "mergePassiveSNMPBatch env site req db =
     (if pn_fault env 0 then (False, db)
      else case merge_body env site req \<lparr>px_db = db, px_step = 1, px_dead = False\<rparr> of
        None \<Rightarrow> (False, db)
      | Some t \<Rightarrow> (case stmt env id t of (False, _) \<Rightarrow> (False, db) | (True, t') \<Rightarrow> (True, px_db t')))"

text \<open>
  The handler: \<open>site_of\<close> is the site of the active collector, \<open>Inl\<close> a lookup that failed, and the
  request is \<open>None\<close> when its body does not decode. The result is the HTTP status.
\<close>

definition handleCollectorPassiveSNMP :: "passive_env \<Rightarrow> string + uuid option \<Rightarrow> passive_req option \<Rightarrow> passive_db \<Rightarrow> nat \<times> passive_db" where
  "handleCollectorPassiveSNMP env site_of body db =
     (case site_of of
        Inl _ \<Rightarrow> (500, db)
      | Inr None \<Rightarrow> (404, db)
      | Inr (Some site) \<Rightarrow>
          (case body of
             None \<Rightarrow> (400, db)
           | Some req0 \<Rightarrow>
               let req = (if pr_RetireAfter req0 \<le> 0 then req0\<lparr>pr_RetireAfter := 3\<rparr> else req0) in
               if \<not> list_all (\<lambda>d. parse_addr (pw_IP d) \<noteq> None) (pr_Devices req) then (400, db)
               else case mergePassiveSNMPBatch env site req db of
                 (False, db') \<Rightarrow> (500, db') | (True, db') \<Rightarrow> (204, db')))"

subsection \<open>A committed transaction met no fault\<close>

lemma stmt_True: "stmt env f t = (True, t') \<Longrightarrow> \<not> px_dead t \<and> px_db t' = f (px_db t) \<and> \<not> px_dead t'"
  by (auto simp: stmt_def split: if_splits)

lemma stmt_alive: "\<not> px_dead (snd (stmt env f t)) \<Longrightarrow> \<not> px_dead t \<and> px_db (snd (stmt env f t)) = f (px_db t)"
  by (auto simp: stmt_def split: if_splits)

definition device_effect :: "passive_env \<Rightarrow> uuid \<Rightarrow> passive_db \<Rightarrow> passive_wire \<Rightarrow> passive_db" where
  "device_effect env site db d =
     add_feed (device_event site (pn_now env) d (inet (pw_IP d)) (map_of (pv_rows db) (site, inet (pw_IP d))))
       (upsert_device site (pn_now env) d (inet (pw_IP d)) db)"

lemma add_feed_Nil [simp]: "add_feed [] db = db"
  by (simp add: add_feed_def)

lemma merge_device_alive:
  assumes "merge_device env site d t = Some t'" and "\<not> px_dead t'"
  shows "\<not> px_dead t \<and> px_db t' = device_effect env site (px_db t) d"
proof -
  let ?x = "inet (pw_IP d)"
  obtain t1 where t1: "stmt env id t = (True, t1)"
    using assms(1) by (cases "stmt env id t") (auto simp: merge_device_def split: bool.splits)
  obtain t2 where t2: "stmt env (upsert_device site (pn_now env) d ?x) t1 = (True, t2)"
    using assms(1) t1 by (cases "stmt env (upsert_device site (pn_now env) d ?x) t1")
      (auto simp: merge_device_def Let_def split: bool.splits)
  let ?es = "device_event site (pn_now env) d ?x (map_of (pv_rows (px_db t1)) (site, ?x))"
  have t': "t' = (if ?es = [] then t2 else snd (stmt env (add_feed ?es) t2))"
    using assms(1) by (simp add: merge_device_def t1 t2 Let_def)
  have "px_db t' = add_feed ?es (px_db t2)"
    using assms(2) stmt_alive [of env "add_feed ?es" t2] unfolding t' by (cases "?es = []") simp_all
  then show ?thesis using stmt_True [OF t1] stmt_True [OF t2] by (simp add: device_effect_def)
qed

lemma merge_devices_alive:
  assumes "merge_devices env site ds t = Some t'" and "\<not> px_dead t'"
  shows "\<not> px_dead t \<and> px_db t' = foldl (device_effect env site) (px_db t) ds"
  using assms
  by (induction env site ds t rule: merge_devices.induct) (auto split: option.splits dest: merge_device_alive)

definition retire_effect :: "passive_env \<Rightarrow> uuid \<Rightarrow> passive_db \<Rightarrow> ip \<times> passive_row \<Rightarrow> passive_db" where
  "retire_effect env site db = (\<lambda>(x, r). add_feed [retired_event site (pn_now env) x r] (retire_row site x db))"

lemma retire_rows_alive:
  assumes "retire_rows env site xs t = Some t'" and "\<not> px_dead t'"
  shows "\<not> px_dead t \<and> px_db t' = foldl (retire_effect env site) (px_db t) xs"
  using assms
proof (induction xs arbitrary: t)
  case (Cons xr xs)
  obtain x r where xr: "xr = (x, r)" by (cases xr)
  let ?add = "add_feed [retired_event site (pn_now env) x r]"
  obtain t1 where t1: "stmt env (retire_row site x) t = (True, t1)"
    using Cons.prems(1) xr by (cases "stmt env (retire_row site x) t") (auto split: bool.splits)
  have "retire_rows env site xs (snd (stmt env ?add t1)) = Some t'" using Cons.prems(1) by (simp add: xr t1)
  note IH = Cons.IH [OF this Cons.prems(2)]
  have "px_db (snd (stmt env ?add t1)) = ?add (px_db t1)" using IH stmt_alive by blast
  then show ?case using IH stmt_True [OF t1] by (simp add: xr retire_effect_def)
qed simp

definition merge_effect :: "passive_env \<Rightarrow> uuid \<Rightarrow> passive_req \<Rightarrow> passive_db \<Rightarrow> passive_db" where
  "merge_effect env site req db =
     (let ds = pn_order env (seen_devices (pr_Devices req));
          db1 = bump_missing site (map (\<lambda>d. inet (pw_IP d)) ds) (foldl (device_effect env site) db ds)
      in trim_feed env site (foldl (retire_effect env site) db1 (retiring site (pr_RetireAfter req) db1)))"

lemma merge_body_alive:
  assumes "merge_body env site req t = Some t'" and "\<not> px_dead t'"
  shows "px_db t' = merge_effect env site req (px_db t)"
proof -
  let ?ds = "pn_order env (seen_devices (pr_Devices req))"
  let ?bump = "bump_missing site (map (\<lambda>d. inet (pw_IP d)) ?ds)"
  obtain t1 where t1: "merge_devices env site ?ds t = Some t1"
    using assms(1) by (auto simp: merge_body_def Let_def split: option.splits)
  obtain t2 where t2: "stmt env ?bump t1 = (True, t2)"
    using assms(1) t1 by (cases "stmt env ?bump t1") (auto simp: merge_body_def Let_def split: bool.splits)
  obtain t3 where t3: "stmt env id t2 = (True, t3)"
    using assms(1) t1 t2 by (cases "stmt env id t2") (auto simp: merge_body_def Let_def split: bool.splits)
  let ?rs = "retiring site (pr_RetireAfter req) (px_db t3)"
  obtain t4 where t4: "retire_rows env site ?rs t3 = Some t4" and t': "t' = snd (stmt env (trim_feed env site) t4)"
    using assms(1) t1 t2 t3 by (auto simp: merge_body_def Let_def split: option.splits)
  have a4: "\<not> px_dead t4" "px_db t' = trim_feed env site (px_db t4)"
    using stmt_alive assms(2) unfolding t' by blast+
  note s2 = stmt_True [OF t2] and s3 = stmt_True [OF t3]
  have "px_db t4 = foldl (retire_effect env site) (px_db t3) ?rs"
    using retire_rows_alive [OF t4 a4(1)] by blast
  moreover have "px_db t1 = foldl (device_effect env site) (px_db t) ?ds"
    using merge_devices_alive [OF t1] s2 by blast
  ultimately show ?thesis using a4(2) s2 s3 by (simp add: merge_effect_def Let_def)
qed

lemma merge_committed:
  assumes "mergePassiveSNMPBatch env site req db = (ok, db')"
  shows "db' = (if ok then merge_effect env site req db else db)"
proof (cases "pn_fault env 0 \<or> merge_body env site req \<lparr>px_db = db, px_step = 1, px_dead = False\<rparr> = None")
  case True then show ?thesis using assms by (auto simp: mergePassiveSNMPBatch_def split: if_splits)
next
  case False
  then obtain t where t: "merge_body env site req \<lparr>px_db = db, px_step = 1, px_dead = False\<rparr> = Some t" by blast
  show ?thesis
  proof (cases "stmt env id t")
    case (Pair c t')
    then show ?thesis using assms False t merge_body_alive [OF t] stmt_True [of env id t t']
      by (cases c) (auto simp: mergePassiveSNMPBatch_def)
  qed
qed

subsection \<open>The inventory after a merge\<close>

definition row_of :: "passive_db \<Rightarrow> uuid \<times> ip \<Rightarrow> passive_row option" where
  "row_of db = map_of (pv_rows db)"

definition keys_ok :: "passive_db \<Rightarrow> bool" where
  "keys_ok db \<longleftrightarrow> distinct (map fst (pv_rows db))"

text \<open>What a merge makes of the row of a device that was seen, and of one that was not.\<close>

definition seen_row :: "int \<Rightarrow> passive_wire \<Rightarrow> passive_row option \<Rightarrow> passive_row" where
  "seen_row now d old = (case old of None \<Rightarrow> new_row now d | Some r \<Rightarrow> seen_again now d r)"

definition absent_row :: "int \<Rightarrow> passive_row \<Rightarrow> passive_row" where
  "absent_row retireAfter r =
     (if ps_active r then r\<lparr>ps_miss_count := ps_miss_count r + 1, ps_active := ps_miss_count r + 1 < retireAfter\<rparr> else r)"

lemma map_of_map_keyed: "map_of (map (\<lambda>(k, r). (k, f k r)) rs) k = map_option (f k) (map_of rs k)"
  by (induction rs) auto

lemma fst_map_keyed: "map fst (map (\<lambda>(k, r). (k, f k r)) rs) = map fst rs"
  by (induction rs) auto

lemma feed_rows [simp]: "row_of (add_feed es db) = row_of db" "row_of (trim_feed env site db) = row_of db"
    "keys_ok (add_feed es db) = keys_ok db" "keys_ok (trim_feed env site db) = keys_ok db"
  by (simp_all add: row_of_def keys_ok_def add_feed_def trim_feed_def)

lemma upsert_device_rows:
  "row_of (upsert_device site now d x db) = (row_of db)((site, x) \<mapsto> seen_row now d (row_of db (site, x)))"
  "keys_ok db \<Longrightarrow> keys_ok (upsert_device site now d x db)"
proof -
  show "row_of (upsert_device site now d x db) = (row_of db)((site, x) \<mapsto> seen_row now d (row_of db (site, x)))"
    by (auto simp: row_of_def upsert_device_def seen_row_def map_of_upsert map_add_def fun_eq_iff split: option.splits)
  show "keys_ok db \<Longrightarrow> keys_ok (upsert_device site now d x db)"
    by (auto simp: keys_ok_def upsert_device_def distinct_upsert map_of_eq_None_iff split: option.splits)
qed

lemma device_effect_rows:
  "row_of (device_effect env site db d) =
     (row_of db)((site, inet (pw_IP d)) \<mapsto> seen_row (pn_now env) d (row_of db (site, inet (pw_IP d))))"
  "keys_ok db \<Longrightarrow> keys_ok (device_effect env site db d)"
  by (simp_all add: device_effect_def upsert_device_rows)

lemma devices_effect_rows:
  assumes "distinct (map (\<lambda>d. inet (pw_IP d)) ds)"
  shows "\<forall>d \<in> set ds. row_of (foldl (device_effect env site) db ds) (site, inet (pw_IP d)) =
      Some (seen_row (pn_now env) d (row_of db (site, inet (pw_IP d))))"
    and "\<forall>s x. s \<noteq> site \<or> x \<notin> (\<lambda>d. inet (pw_IP d)) ` set ds \<longrightarrow>
      row_of (foldl (device_effect env site) db ds) (s, x) = row_of db (s, x)"
proof -
  have "(\<forall>d \<in> set ds. row_of (foldl (device_effect env site) db ds) (site, inet (pw_IP d)) =
      Some (seen_row (pn_now env) d (row_of db (site, inet (pw_IP d)))))
    \<and> (\<forall>s x. s \<noteq> site \<or> x \<notin> (\<lambda>d. inet (pw_IP d)) ` set ds \<longrightarrow>
      row_of (foldl (device_effect env site) db ds) (s, x) = row_of db (s, x))"
    using assms
  proof (induction ds arbitrary: db)
    case (Cons d ds)
    let ?db = "device_effect env site db d" and ?key = "\<lambda>d. inet (pw_IP d)"
    have d: "?key d \<notin> ?key ` set ds" using Cons.prems by simp
    have "distinct (map ?key ds)" using Cons.prems by simp
    note IH = conjunct1 [OF Cons.IH [OF this, of ?db]] conjunct2 [OF Cons.IH [OF this, of ?db]]
    have "row_of (foldl (device_effect env site) ?db ds) (site, ?key d) = row_of ?db (site, ?key d)"
      using IH(2) d by blast
    moreover have "row_of ?db (site, ?key e) = row_of db (site, ?key e)" if "e \<in> set ds" for e
    proof -
      have "?key e \<noteq> ?key d" using that d by (metis imageI)
      then show ?thesis by (simp add: device_effect_rows)
    qed
    moreover have "row_of ?db (s, x) = row_of db (s, x)" if "s \<noteq> site \<or> x \<noteq> ?key d" for s x
      using that by (auto simp: device_effect_rows)
    ultimately show ?case using IH by (simp add: device_effect_rows(1))
  qed simp
  then show "\<forall>d \<in> set ds. row_of (foldl (device_effect env site) db ds) (site, inet (pw_IP d)) =
      Some (seen_row (pn_now env) d (row_of db (site, inet (pw_IP d))))"
    and "\<forall>s x. s \<noteq> site \<or> x \<notin> (\<lambda>d. inet (pw_IP d)) ` set ds \<longrightarrow>
      row_of (foldl (device_effect env site) db ds) (s, x) = row_of db (s, x)" by blast+
qed

lemma devices_effect_keys: "keys_ok db \<Longrightarrow> keys_ok (foldl (device_effect env site) db ds)"
  by (induction ds arbitrary: db) (simp_all add: device_effect_rows)

lemma bump_rows:
  "row_of (bump_missing site seen db) (s, x) = map_option (\<lambda>r.
     if s = site \<and> ps_active r \<and> x \<notin> set seen then r\<lparr>ps_miss_count := ps_miss_count r + 1\<rparr> else r) (row_of db (s, x))"
  "keys_ok (bump_missing site seen db) = keys_ok db"
  by (simp_all add: row_of_def keys_ok_def bump_missing_def map_of_map_keyed fst_map_keyed del: map_map)

lemma retire_rows_lookup:
  "row_of (foldl (retire_effect env site) db xs) k = map_option (\<lambda>r.
     if fst k = site \<and> snd k \<in> fst ` set xs then r\<lparr>ps_active := False\<rparr> else r) (row_of db k)"
  "keys_ok (foldl (retire_effect env site) db xs) = keys_ok db"
proof (induction xs arbitrary: db)
  case (Cons xr xs)
  obtain x r where xr: "xr = (x, r)" by (cases xr)
  have one: "row_of (retire_effect env site db (x, r)) k =
      map_option (\<lambda>r. if k = (site, x) then r\<lparr>ps_active := False\<rparr> else r) (row_of db k)" for db
    using map_of_map_keyed [of "\<lambda>k r. if k = (site, x) then r\<lparr>ps_active := False\<rparr> else r" "pv_rows db" k]
    by (simp add: retire_effect_def) (simp add: row_of_def retire_row_def)
  { case 1 show ?case using Cons(1) [of "retire_effect env site db (x, r)"] unfolding one
      by (cases "row_of db k") (auto simp: xr prod_eq_iff) }
  have two: "keys_ok (retire_effect env site db (x, r)) = keys_ok db" for db
  proof -
    have "keys_ok (retire_row site x db) = keys_ok db"
    proof -
      have "pv_rows (retire_row site x db) = map (\<lambda>(k, r). (k, if k = (site, x) then r\<lparr>ps_active := False\<rparr> else r)) (pv_rows db)"
        by (simp add: retire_row_def)
      then show ?thesis by (simp only: keys_ok_def fst_map_keyed)
    qed
    then show ?thesis by (simp add: retire_effect_def)
  qed
  { case 2 show ?case using Cons(2) [of "retire_effect env site db (x, r)"] by (simp add: xr two) }
qed (simp_all add: option.map_ident)

lemma retiring_lookup:
  assumes "keys_ok db"
  shows "x \<in> fst ` set (retiring site n db) \<longleftrightarrow>
    (\<exists>r. row_of db (site, x) = Some r \<and> ps_active r \<and> n \<le> ps_miss_count r)"
proof -
  have m: "row_of db k = Some r \<longleftrightarrow> (k, r) \<in> set (pv_rows db)" for k r
    using assms by (simp add: row_of_def keys_ok_def map_of_eq_Some_iff)
  show ?thesis unfolding m by (force simp: retiring_def)
qed

lemma merge_effect_rows:
  assumes "keys_ok db" and "1 \<le> pr_RetireAfter req"
    and ds: "ds = pn_order env (seen_devices (pr_Devices req))" and "distinct (map (\<lambda>d. inet (pw_IP d)) ds)"
  shows "\<forall>d \<in> set ds. row_of (merge_effect env site req db) (site, inet (pw_IP d)) =
      Some (seen_row (pn_now env) d (row_of db (site, inet (pw_IP d))))"
    and "\<forall>x. x \<notin> (\<lambda>d. inet (pw_IP d)) ` set ds \<longrightarrow> row_of (merge_effect env site req db) (site, x) =
      map_option (absent_row (pr_RetireAfter req)) (row_of db (site, x))"
    and "\<forall>s x. s \<noteq> site \<longrightarrow> row_of (merge_effect env site req db) (s, x) = row_of db (s, x)"
    and "keys_ok (merge_effect env site req db)"
proof -
  let ?db0 = "foldl (device_effect env site) db ds"
  let ?db1 = "bump_missing site (map (\<lambda>d. inet (pw_IP d)) ds) ?db0"
  have k: "keys_ok ?db1" using assms(1) by (simp add: bump_rows devices_effect_keys)
  note rules = merge_effect_def Let_def ds [symmetric] retire_rows_lookup retiring_lookup [OF k] bump_rows
  have seen: "ps_active (seen_row now d old) \<and> ps_miss_count (seen_row now d old) = 0" for now d old
    by (simp add: seen_row_def new_row_def seen_again_def split: option.split)
  show "\<forall>d \<in> set ds. row_of (merge_effect env site req db) (site, inet (pw_IP d)) =
      Some (seen_row (pn_now env) d (row_of db (site, inet (pw_IP d))))"
    using devices_effect_rows(1) [OF assms(4), of env site db] seen assms(2) by (simp add: rules)
  show "\<forall>x. x \<notin> (\<lambda>d. inet (pw_IP d)) ` set ds \<longrightarrow> row_of (merge_effect env site req db) (site, x) =
      map_option (absent_row (pr_RetireAfter req)) (row_of db (site, x))"
  proof (intro allI impI)
    fix x assume "x \<notin> (\<lambda>d. inet (pw_IP d)) ` set ds"
    then show "row_of (merge_effect env site req db) (site, x) =
        map_option (absent_row (pr_RetireAfter req)) (row_of db (site, x))"
      using devices_effect_rows(2) [OF assms(4), of site env db]
      by (cases "row_of db (site, x)") (simp_all add: rules absent_row_def)
  qed
  show "\<forall>s x. s \<noteq> site \<longrightarrow> row_of (merge_effect env site req db) (s, x) = row_of db (s, x)"
    using devices_effect_rows(2) [OF assms(4), of site env db] by (simp add: rules option.map_ident)
  show "keys_ok (merge_effect env site req db)" using k by (simp add: rules)
qed

lemma seen_devices_keys:
  "distinct (map pw_IP (seen_devices ds)) \<and> pw_IP ` set (seen_devices ds) = pw_IP ` set ds"
proof -
  let ?ins = "\<lambda>m d. upsert (pw_IP d) d (\<lambda>_. d) m"
  have up: "\<forall>(k, e) \<in> set m. pw_IP e = k \<Longrightarrow> \<forall>(k, e) \<in> set (?ins m d). pw_IP e = k" for m and d :: passive_wire
    by (induction m) (auto split: if_splits)
  have "distinct (map fst m) \<and> (\<forall>(k, e) \<in> set m. pw_IP e = k) \<Longrightarrow>
      distinct (map fst (foldl ?ins m ds)) \<and> (\<forall>(k, e) \<in> set (foldl ?ins m ds). pw_IP e = k)
      \<and> fst ` set (foldl ?ins m ds) = fst ` set m \<union> pw_IP ` set ds" for m
  proof (induction ds arbitrary: m)
    case (Cons d ds)
    have "distinct (map fst (?ins m d)) \<and> (\<forall>(k, e) \<in> set (?ins m d). pw_IP e = k)"
      using Cons.prems up [of m d] by (simp add: distinct_upsert)
    from Cons.IH [OF this] show ?case by (simp add: keys_upsert)
  qed simp
  from this [of "[]"] have *: "distinct (map fst (foldl ?ins [] ds))"
    "\<forall>(k, e) \<in> set (foldl ?ins [] ds). pw_IP e = k" "fst ` set (foldl ?ins [] ds) = pw_IP ` set ds" by simp_all
  have "map pw_IP (seen_devices ds) = map fst (foldl ?ins [] ds)"
    using *(2) by (auto simp: seen_devices_def)
  then show ?thesis using *(1,3) by (metis set_map)
qed

definition batch_ok :: "passive_env \<Rightarrow> passive_req \<Rightarrow> bool" where
  "batch_ok env req \<longleftrightarrow> 1 \<le> pr_RetireAfter req \<and> mset (pn_order env (seen_devices (pr_Devices req))) = mset (seen_devices (pr_Devices req))
     \<and> inj_on inet (pw_IP ` set (pr_Devices req))"

lemma batch_distinct:
  assumes "batch_ok env req"
  shows "distinct (map (\<lambda>d. inet (pw_IP d)) (pn_order env (seen_devices (pr_Devices req))))"
    and "set (pn_order env (seen_devices (pr_Devices req))) = set (seen_devices (pr_Devices req))"
proof -
  let ?ds = "seen_devices (pr_Devices req)"
  have m: "mset (pn_order env ?ds) = mset ?ds" using assms by (simp add: batch_ok_def)
  then show s: "set (pn_order env ?ds) = set ?ds" by (rule mset_eq_setD)
  have "mset (map pw_IP (pn_order env ?ds)) = mset (map pw_IP ?ds)" using m by simp
  then have "distinct (map pw_IP (pn_order env ?ds))" using seen_devices_keys by (metis mset_eq_imp_distinct_iff)
  moreover have "inj_on inet (set (map pw_IP (pn_order env ?ds)))"
    using assms s seen_devices_keys [of "pr_Devices req"] by (simp add: batch_ok_def)
  ultimately have "distinct (map inet (map pw_IP (pn_order env ?ds)))"
    using distinct_map [of inet "map pw_IP (pn_order env ?ds)"] by blast
  then show "distinct (map (\<lambda>d. inet (pw_IP d)) (pn_order env ?ds))" by (simp only: map_map comp_def)
qed

lemma merged_rows:
  assumes "keys_ok db" and "batch_ok env req" and "mergePassiveSNMPBatch env site req db = (True, db')"
  shows "keys_ok db'"
    and "\<forall>d \<in> set (seen_devices (pr_Devices req)). row_of db' (site, inet (pw_IP d)) =
      Some (seen_row (pn_now env) d (row_of db (site, inet (pw_IP d))))"
    and "\<forall>x. x \<notin> inet ` pw_IP ` set (pr_Devices req) \<longrightarrow>
      row_of db' (site, x) = map_option (absent_row (pr_RetireAfter req)) (row_of db (site, x))"
    and "\<forall>s x. s \<noteq> site \<longrightarrow> row_of db' (s, x) = row_of db (s, x)"
proof -
  have r: "1 \<le> pr_RetireAfter req" using assms(2) by (simp add: batch_ok_def)
  have e: "db' = merge_effect env site req db" using merge_committed [OF assms(3)] by simp
  note m = merge_effect_rows [OF assms(1) r refl batch_distinct(1) [OF assms(2)], of site, unfolded batch_distinct(2) [OF assms(2)]]
  have i: "(\<lambda>d. inet (pw_IP d)) ` set (seen_devices (pr_Devices req)) = inet ` pw_IP ` set (pr_Devices req)"
    using seen_devices_keys [of "pr_Devices req"] by (metis image_image)
  show "keys_ok db'"
    and "\<forall>d \<in> set (seen_devices (pr_Devices req)). row_of db' (site, inet (pw_IP d)) =
      Some (seen_row (pn_now env) d (row_of db (site, inet (pw_IP d))))"
    and "\<forall>x. x \<notin> inet ` pw_IP ` set (pr_Devices req) \<longrightarrow>
      row_of db' (site, x) = map_option (absent_row (pr_RetireAfter req)) (row_of db (site, x))"
    and "\<forall>s x. s \<noteq> site \<longrightarrow> row_of db' (s, x) = row_of db (s, x)"
    using m unfolding e i by blast+
qed

text \<open>C25: Merging a passive batch is all or nothing. When it succeeds, every device of the batch is
  active with no misses and its non-empty fields, every other active device of the site has one more
  miss and is retired exactly when it reaches the limit, retired devices and other sites stay as they
  were, and no address is stored twice.\<close>

theorem inventory_after_merge:
  assumes "keys_ok db" and "batch_ok env req" and "mergePassiveSNMPBatch env site req db = (ok, db')"
  shows "if ok then keys_ok db'
      \<and> (\<forall>d \<in> set (seen_devices (pr_Devices req)). row_of db' (site, inet (pw_IP d)) =
            Some (seen_row (pn_now env) d (row_of db (site, inet (pw_IP d)))))
      \<and> (\<forall>x. x \<notin> inet ` pw_IP ` set (pr_Devices req) \<longrightarrow>
            row_of db' (site, x) = map_option (absent_row (pr_RetireAfter req)) (row_of db (site, x)))
      \<and> (\<forall>s x. s \<noteq> site \<longrightarrow> row_of db' (s, x) = row_of db (s, x))
    else db' = db"
  using merge_committed [OF assms(3)] merged_rows [OF assms(1,2)] assms(3) by (cases ok) auto

definition demo_wire :: "string \<Rightarrow> passive_wire" where
  "demo_wire addr = \<lparr>pw_IP = addr, pw_Vendor = ''cisco'', pw_Type = ''switch'', pw_SubType = [], pw_SysDescr = [],
     pw_SysObjectID = [], pw_SysName = [], pw_SysLocation = []\<rparr>"

definition demo_env :: "int \<Rightarrow> passive_env" where
  "demo_env now = \<lparr>pn_fault = (\<lambda>_. False), pn_order = (\<lambda>ds. ds), pn_newest = take 500, pn_now = now\<rparr>"

definition demo_db :: passive_db where
  "demo_db = \<lparr>pv_rows = [((''s'', [10, 0, 0, 9]), (new_row 1 (demo_wire ''10.0.0.9''))\<lparr>ps_miss_count := 2\<rparr>)], pv_feed = []\<rparr>"

definition demo_req :: passive_req where
  "demo_req = \<lparr>pr_Devices = [demo_wire ''10.0.0.1''], pr_RetireAfter = 3\<rparr>"

lemma demo_inet: "inet ''10.0.0.1'' = [10, 0, 0, 1]"
  by code_simp

theorem inventory_after_merge_witness:
  "row_of (snd (mergePassiveSNMPBatch (demo_env 5) ''s'' demo_req demo_db)) (''s'', [10, 0, 0, 9]) =
     Some ((new_row 1 (demo_wire ''10.0.0.9''))\<lparr>ps_miss_count := 3, ps_active := False\<rparr>)
   \<and> fst (mergePassiveSNMPBatch (demo_env 5) ''s'' demo_req demo_db)"
proof -
  obtain ok db' where m: "mergePassiveSNMPBatch (demo_env 5) ''s'' demo_req demo_db = (ok, db')" by fastforce
  have ok: "fst (mergePassiveSNMPBatch (demo_env 5) ''s'' demo_req demo_db)" by code_simp
  have "keys_ok demo_db" by (simp add: keys_ok_def demo_db_def)
  moreover have "batch_ok (demo_env 5) demo_req"
    by (simp add: batch_ok_def demo_req_def demo_env_def)
  ultimately have "row_of db' (''s'', [10, 0, 0, 9]) = map_option (absent_row 3) (row_of demo_db (''s'', [10, 0, 0, 9]))"
    using inventory_after_merge [OF _ _ m] ok m by (simp add: demo_req_def demo_wire_def demo_inet)
  then show ?thesis using ok m by (simp add: row_of_def demo_db_def absent_row_def new_row_def)
qed

subsection \<open>How long a device may be away\<close>

text \<open>The merges of one site in order.\<close>

definition run_merges :: "uuid \<Rightarrow> (passive_env \<times> passive_req) list \<Rightarrow> passive_db \<Rightarrow> passive_db" where
  "run_merges site ms db = foldl (\<lambda>db (env, req). snd (mergePassiveSNMPBatch env site req db)) db ms"

definition misses :: "ip \<Rightarrow> int \<Rightarrow> passive_env \<times> passive_req \<Rightarrow> bool" where
  "misses x n m = (case m of (env, req) \<Rightarrow> batch_ok env req \<and> pr_RetireAfter req = n \<and> x \<notin> inet ` pw_IP ` set (pr_Devices req))"

definition commits :: "uuid \<Rightarrow> passive_env \<times> passive_req \<Rightarrow> bool" where
  "commits site m = (case m of (env, req) \<Rightarrow> \<forall>db. fst (mergePassiveSNMPBatch env site req db))"

lemma absent_row_iterate:
  assumes "ps_active r" and "ps_miss_count r = 0" and "1 \<le> n"
  shows "ps_miss_count ((absent_row n ^^ k) r) = min (int k) n \<and> ps_active ((absent_row n ^^ k) r) = (int k < n)"
proof (induction k)
  case (Suc k)
  then show ?case using assms by (auto simp: absent_row_def)
qed (use assms in simp)

text \<open>A device that stays away is retired at exactly the configured number of consecutive merges,
  not earlier and not later, and then keeps its miss count; merges that fail do not count.\<close>

theorem retired_after_misses:
  assumes "keys_ok db" and "row_of db (site, x) = Some r" and "ps_active r" and "ps_miss_count r = 0" and "1 \<le> n"
    and "\<forall>m \<in> set ms. misses x n m \<and> commits site m"
  shows "\<exists>r'. row_of (run_merges site ms db) (site, x) = Some r'
    \<and> ps_active r' = (int (length ms) < n) \<and> ps_miss_count r' = min (int (length ms)) n"
proof -
  have "keys_ok (run_merges site ms db) \<and> row_of (run_merges site ms db) (site, x) = Some ((absent_row n ^^ length ms) r)"
    using assms(6)
  proof (induction ms rule: rev_induct)
    case Nil then show ?case using assms(1,2) by (simp add: run_merges_def)
  next
    case (snoc m ms)
    obtain env req where m: "m = (env, req)" by (cases m)
    let ?db = "run_merges site ms db"
    obtain db' where db': "mergePassiveSNMPBatch env site req ?db = (True, db')"
    proof -
      have "fst (mergePassiveSNMPBatch env site req ?db)" using snoc.prems by (simp add: m commits_def)
      then show thesis using that by (cases "mergePassiveSNMPBatch env site req ?db") auto
    qed
    have b: "batch_ok env req" "pr_RetireAfter req = n" "x \<notin> inet ` pw_IP ` set (pr_Devices req)"
      using snoc.prems by (auto simp: m misses_def)
    have IH: "keys_ok ?db" "row_of ?db (site, x) = Some ((absent_row n ^^ length ms) r)" using snoc by simp_all
    have "run_merges site (ms @ [m]) db = db'" using db' by (simp add: run_merges_def m)
    then show ?case using merged_rows(1,3) [OF IH(1) b(1) db'] b(2,3) IH(2) by simp
  qed
  then show ?thesis using absent_row_iterate [OF assms(3-5), of "length ms"] by simp
qed

text \<open>Without faults every merge commits.\<close>

definition healthy :: "passive_env \<Rightarrow> bool" where
  "healthy env \<longleftrightarrow> pn_fault env = (\<lambda>_. False)"

lemma healthy_stmt:
  "healthy env \<Longrightarrow> \<not> px_dead t \<Longrightarrow> stmt env f t = (True, t\<lparr>px_step := px_step t + 1, px_db := f (px_db t)\<rparr>)"
  by (simp add: healthy_def stmt_def)

lemma healthy_device:
  assumes "healthy env" and "\<not> px_dead t"
  shows "\<exists>t'. merge_device env site d t = Some t' \<and> \<not> px_dead t'"
  using assms by (simp add: merge_device_def healthy_stmt Let_def)

lemma healthy_devices:
  assumes "healthy env" and "\<not> px_dead t"
  shows "\<exists>t'. merge_devices env site ds t = Some t' \<and> \<not> px_dead t'"
  using assms(2)
proof (induction ds arbitrary: t)
  case (Cons d ds)
  then show ?case using healthy_device [OF assms(1) Cons.prems, of site d] by auto
qed simp

lemma healthy_retire:
  assumes "healthy env" and "\<not> px_dead t"
  shows "\<exists>t'. retire_rows env site xs t = Some t' \<and> \<not> px_dead t'"
  using assms(2) by (induction xs arbitrary: t) (auto simp: healthy_stmt [OF assms(1)])

lemma healthy_commits:
  assumes "healthy env"
  shows "commits site (env, req)"
proof -
  have "fst (mergePassiveSNMPBatch env site req db)" for db
  proof -
    let ?t = "\<lparr>px_db = db, px_step = 1, px_dead = False\<rparr>"
    let ?ds = "pn_order env (seen_devices (pr_Devices req))"
    obtain t1 where t1: "merge_devices env site ?ds ?t = Some t1" "\<not> px_dead t1"
      using healthy_devices [OF assms, of ?t] by auto
    define t3 where "t3 = t1\<lparr>px_step := px_step t1 + 1 + 1, px_db := bump_missing site (map (\<lambda>d. inet (pw_IP d)) ?ds) (px_db t1)\<rparr>"
    have d3: "\<not> px_dead t3" using t1 by (simp add: t3_def)
    obtain t4 where t4: "retire_rows env site (retiring site (pr_RetireAfter req) (px_db t3)) t3 = Some t4" "\<not> px_dead t4"
      using healthy_retire [OF assms d3] by blast
    have "merge_body env site req ?t = Some (t4\<lparr>px_step := px_step t4 + 1, px_db := trim_feed env site (px_db t4)\<rparr>)"
      using t1 t4 by (simp add: merge_body_def Let_def healthy_stmt [OF assms] t3_def)
    then show ?thesis using t4(2) assms by (simp add: mergePassiveSNMPBatch_def healthy_stmt healthy_def [of env])
  qed
  then show ?thesis by (simp add: commits_def)
qed

theorem retired_after_misses_witness:
  "\<exists>r'. row_of (run_merges ''s'' (replicate 3 (demo_env 5, demo_req))
      \<lparr>pv_rows = [((''s'', [10, 0, 0, 9]), new_row 1 (demo_wire ''10.0.0.9''))], pv_feed = []\<rparr>) (''s'', [10, 0, 0, 9]) = Some r'
    \<and> \<not> ps_active r' \<and> ps_miss_count r' = 3"
proof -
  let ?db = "\<lparr>pv_rows = [((''s'', [10, 0, 0, 9]), new_row 1 (demo_wire ''10.0.0.9''))], pv_feed = []\<rparr>"
  have "\<forall>m \<in> set (replicate 3 (demo_env 5, demo_req)). misses [10, 0, 0, 9] 3 m \<and> commits ''s'' m"
    using healthy_commits [of "demo_env 5" "''s''" demo_req]
    by (simp add: healthy_def misses_def batch_ok_def demo_inet) (simp add: demo_env_def demo_req_def demo_wire_def demo_inet)
  moreover have "keys_ok ?db" "row_of ?db (''s'', [10, 0, 0, 9]) = Some (new_row 1 (demo_wire ''10.0.0.9''))"
    by (simp_all add: keys_ok_def row_of_def)
  moreover have "ps_active (new_row 1 (demo_wire ''10.0.0.9''))" "ps_miss_count (new_row 1 (demo_wire ''10.0.0.9'')) = 0"
    by (simp_all add: new_row_def)
  ultimately show ?thesis
    using retired_after_misses [of ?db "''s''" "[10, 0, 0, 9]" "new_row 1 (demo_wire ''10.0.0.9'')" 3
        "replicate 3 (demo_env 5, demo_req)"] by simp
qed

end
