(* ===== verification/Discovery.thy ===== *)
theory Discovery
  imports Snmp_Value Float64 Go_Net
begin

text \<open>
  The pure parts of \<open>internal/collector/discovery\<close>: the classification of passively seen devices
  (\<open>passive_snmp.go\<close>), the vendor profiles of the CLI poller (\<open>cli.go\<close>) and the reachability probe
  (\<open>tcp.go\<close>, \<open>icmp.go\<close>). The device's answers to SNMP and the outcome of every dial are parameters.
\<close>

subsection \<open>Passive SNMP classification\<close>

record passive_device =
  pd_IP :: string
  pd_SysDescr :: string
  pd_SysObjectID :: string
  pd_SysName :: string
  pd_SysLocation :: string
  pd_Vendor :: string
  pd_Type :: string
  pd_SubType :: string

text \<open>Vendor, type and subtype as the first switch of \<open>ClassifyDevice\<close> leaves them.\<close>

type_synonym device_class = "string \<times> string \<times> string"

definition cisco_class :: "string \<Rightarrow> device_class" where
  "cisco_class descrLow =
     (if contains descrLow ''meraki'' then ''meraki'' else ''cisco'',
      if contains descrLow ''wireless'' \<or> contains descrLow ''access point'' then ''wireless-ap''
      else if contains descrLow ''router'' then ''router''
      else if contains descrLow ''firewall'' \<or> contains descrLow ''asa'' \<or> contains descrLow ''ftd'' then ''firewall''
      else ''switch'', [])"

definition hp_class :: "string \<Rightarrow> device_class" where
  "hp_class descrLow =
     (if contains descrLow ''switch'' \<or> contains descrLow ''procurve'' then (''hp-procurve'', ''switch'', [])
      else if contains descrLow ''printer'' \<or> contains descrLow ''laserjet'' then (''printer'', ''printer'', [])
      else (''hp'', [], []))"

definition oid_class :: "string \<Rightarrow> string \<Rightarrow> device_class" where
  "oid_class oid descrLow =
     (if has_prefix oid ''1.3.6.1.4.1.674.10893'' then (''dell-storage'', ''san'', [])
      else if has_prefix oid ''1.3.6.1.4.1.674'' then (''dell'', ''server'', [])
      else if has_prefix oid ''1.3.6.1.4.1.9600'' then (''windows'', ''server'', [])
      else if has_prefix oid ''1.3.6.1.4.1.8072'' \<or> has_prefix oid ''1.3.6.1.4.1.2021'' then (''linux'', ''server'', [])
      else if has_prefix oid ''1.3.6.1.4.1.318.1.1.1'' then (''apc'', ''ups'', ''ups-apc'')
      else if has_prefix oid ''1.3.6.1.4.1.318.1.1.10'' then (''apc-env'', ''power'', ''apc-env'')
      else if has_prefix oid ''1.3.6.1.4.1.318'' then (''apc'', ''power'', ''apc-other'')
      else if has_prefix oid ''1.3.6.1.4.1.6574'' then (''synology'', ''nas'', [])
      else if has_prefix oid ''1.3.6.1.4.1.37447'' then (''alletra'', ''san'', [])
      else if has_prefix oid ''1.3.6.1.4.1.25461'' then (''paloalto'', ''firewall'', [])
      else if has_prefix oid ''1.3.6.1.4.1.9'' then cisco_class descrLow
      else if has_prefix oid ''1.3.6.1.4.1.29671'' then (''meraki'', ''switch'', [])
      else if has_prefix oid ''1.3.6.1.4.1.11'' then hp_class descrLow
      else if has_prefix oid ''1.3.6.1.4.1.30065'' then (''arista'', ''switch'', [])
      else if has_prefix oid ''1.3.6.1.4.1.41112'' then
        (''ubiquiti'', if contains descrLow ''uap'' \<or> contains descrLow ''wireless'' then ''wireless-ap'' else ''switch'', [])
      else if has_prefix oid ''1.3.6.1.4.1.14988'' then (''mikrotik'', ''router'', [])
      else if has_prefix oid ''1.3.6.1.4.1.4413'' then (''broadcom'', ''switch'', [])
      else ([], [], []))"

definition vendor_fallback :: "string \<Rightarrow> device_class \<Rightarrow> device_class" where
  "vendor_fallback descrLow c = (case c of (vendor, ty, sub) \<Rightarrow>
     if vendor \<noteq> [] then c
     else if contains descrLow ''meraki'' then (''meraki'', ''switch'', sub)
     else if contains descrLow ''synology'' then (''synology'', ''nas'', sub)
     else if contains descrLow ''ubiquiti'' \<or> contains descrLow ''ubnt'' then (''ubiquiti'', ty, sub)
     else c)"

definition type_fallback :: "string \<Rightarrow> device_class \<Rightarrow> device_class" where
  "type_fallback descrLow c = (case c of (vendor, ty, sub) \<Rightarrow>
     if ty \<noteq> [] then c
     else if contains descrLow ''ups'' \<or> contains descrLow ''uninterruptible'' then
       (vendor, ''ups'', if sub = [] then ''ups-generic'' else sub)
     else if contains descrLow ''printer'' \<or> contains descrLow ''laserjet'' \<or> contains descrLow ''ricoh'' \<or>
       contains descrLow ''konica'' then (vendor, ''printer'', sub)
     else if contains descrLow ''switch'' then (vendor, ''switch'', sub)
     else if contains descrLow ''firewall'' then (vendor, ''firewall'', sub)
     else if contains descrLow ''access point'' \<or> contains descrLow ''wireless'' then (vendor, ''wireless-ap'', sub)
     else if contains descrLow ''router'' then (vendor, ''router'', sub)
     else c)"

definition unknown_type :: "device_class \<Rightarrow> device_class" where
  "unknown_type c = (case c of (vendor, ty, sub) \<Rightarrow> (vendor, if ty = [] then ''unknown'' else ty, sub))"

definition ClassifyDevice :: "string \<Rightarrow> string \<Rightarrow> string \<Rightarrow> string \<Rightarrow> string \<Rightarrow> passive_device" where
  "ClassifyDevice ip sysDescr sysObjectID sysName sysLocation =
     (let oid = trim_prefix sysObjectID ''.''; descrLow = to_lower sysDescr;
          (vendor, ty, sub) = unknown_type (type_fallback descrLow (vendor_fallback descrLow (oid_class oid descrLow)))
      in \<lparr>pd_IP = ip, pd_SysDescr = sysDescr, pd_SysObjectID = sysObjectID, pd_SysName = sysName,
          pd_SysLocation = sysLocation, pd_Vendor = vendor, pd_Type = ty, pd_SubType = sub\<rparr>)"

text \<open>The device of a dial or GET that failed.\<close>

definition unknown_device :: "string \<Rightarrow> passive_device" where
  "unknown_device ip = \<lparr>pd_IP = ip, pd_SysDescr = [], pd_SysObjectID = [], pd_SysName = [], pd_SysLocation = [],
     pd_Vendor = [], pd_Type = ''unknown'', pd_SubType = []\<rparr>"

text \<open>\<open>dial\<close> is the outcome of \<open>snmp.Dial\<close> with the community; an absent variable reads as the empty text.\<close>

definition Classify :: "(string \<Rightarrow> string + session) \<Rightarrow> string \<Rightarrow> passive_device" where
  "Classify dial ip =
     (case dial ip of
        Inl _ \<Rightarrow> unknown_device ip
      | Inr c \<Rightarrow>
          (case client_Get c [''1.3.6.1.2.1.1.1.0'', ''1.3.6.1.2.1.1.2.0'', ''1.3.6.1.2.1.1.5.0'', ''1.3.6.1.2.1.1.6.0''] of
             Inl _ \<Rightarrow> unknown_device ip
           | Inr res \<Rightarrow>
               let var = (\<lambda>oid. case map_of res oid of None \<Rightarrow> [] | Some v \<Rightarrow> value_String v) in
               ClassifyDevice ip (var ''1.3.6.1.2.1.1.1.0'') (trim_prefix (var ''1.3.6.1.2.1.1.2.0'') ''.'')
                 (var ''1.3.6.1.2.1.1.5.0'') (var ''1.3.6.1.2.1.1.6.0'')))"

definition device_types :: "string list" where
  "device_types = [''san'', ''server'', ''ups'', ''power'', ''nas'', ''firewall'', ''wireless-ap'', ''router'',
     ''switch'', ''printer'', ''unknown'']"

definition device_subtypes :: "string list" where
  "device_subtypes = [[], ''ups-apc'', ''apc-other'', ''ups-generic'']"

lemma has_prefix_mono: "has_prefix s (p @ q) \<Longrightarrow> has_prefix s p"
proof -
  assume "has_prefix s (p @ q)"
  then have "take (length p) (take (length (p @ q)) s) = take (length p) (p @ q)" by (simp add: has_prefix_def)
  then show "has_prefix s p" by (simp add: has_prefix_def)
qed

lemma no_apc_env: "has_prefix oid ''1.3.6.1.4.1.318.1.1.10'' \<Longrightarrow> has_prefix oid ''1.3.6.1.4.1.318.1.1.1''"
  using has_prefix_mono [of oid "''1.3.6.1.4.1.318.1.1.1''" "''0''"] by simp

definition known_type :: "string \<Rightarrow> bool" where
  "known_type ty \<longleftrightarrow> ty = [] \<or> ty \<in> set device_types"

definition class_ok :: "device_class \<Rightarrow> bool" where
  "class_ok c = (case c of (vendor, ty, sub) \<Rightarrow> known_type ty \<and> sub \<in> set device_subtypes)"

lemma known_types:
  "known_type []" "known_type ''san''" "known_type ''server''" "known_type ''ups''" "known_type ''power''"
  "known_type ''nas''" "known_type ''firewall''" "known_type ''wireless-ap''" "known_type ''router''"
  "known_type ''switch''" "known_type ''printer''"
  by code_simp+

lemma known_subtypes:
  "[] \<in> set device_subtypes" "''ups-apc'' \<in> set device_subtypes" "''apc-other'' \<in> set device_subtypes"
  "''ups-generic'' \<in> set device_subtypes"
  by code_simp+

lemma class_okI: "known_type ty \<Longrightarrow> sub \<in> set device_subtypes \<Longrightarrow> class_ok (vendor, ty, sub)"
  by (simp add: class_ok_def)

lemma class_ok_if: "(b \<Longrightarrow> class_ok c) \<Longrightarrow> (\<not> b \<Longrightarrow> class_ok c') \<Longrightarrow> class_ok (if b then c else c')"
  by simp

lemma known_if:
  "known_type t \<Longrightarrow> known_type t' \<Longrightarrow> known_type (if b then t else t')"
  "u \<in> set device_subtypes \<Longrightarrow> u' \<in> set device_subtypes \<Longrightarrow> (if b then u else u') \<in> set device_subtypes"
  by simp_all

lemmas class_rules = class_ok_if class_okI known_if known_types known_subtypes

lemma oid_class_ok: "class_ok (oid_class oid d)"
  unfolding oid_class_def cisco_class_def hp_class_def
  by (rule class_rules | (drule no_apc_env, erule (1) notE))+

lemma fallbacks_ok:
  "class_ok c \<Longrightarrow> class_ok (vendor_fallback d c)"
  "class_ok c \<Longrightarrow> class_ok (type_fallback d c)"
proof -
  assume c: "class_ok c"
  obtain v t u where vtu: "c = (v, t, u)" by (cases c)
  have k: "known_type t" "u \<in> set device_subtypes" using c by (simp_all add: vtu class_ok_def)
  show "class_ok (vendor_fallback d c)"
    unfolding vendor_fallback_def vtu prod.case by (rule k class_rules)+
  show "class_ok (type_fallback d c)"
    unfolding type_fallback_def vtu prod.case by (rule k class_rules)+
qed

lemma class_is_typed:
  "class_ok c \<Longrightarrow> case unknown_type c of (_, ty, sub) \<Rightarrow> ty \<in> set device_types \<and> sub \<in> set device_subtypes"
proof -
  have "''unknown'' \<in> set device_types" by code_simp
  then show "class_ok c \<Longrightarrow> case unknown_type c of (_, ty, sub) \<Rightarrow> ty \<in> set device_types \<and> sub \<in> set device_subtypes"
    by (auto simp: unknown_type_def class_ok_def known_type_def split: prod.split)
qed

lemma ClassifyDevice_class:
  "(pd_Vendor d, pd_Type d, pd_SubType d) =
     unknown_type (type_fallback (to_lower sd) (vendor_fallback (to_lower sd) (oid_class (trim_prefix so ''.'') (to_lower sd))))"
  if "d = ClassifyDevice ip sd so sn sl"
  using that by (simp add: ClassifyDevice_def Let_def split: prod.split)

lemma ClassifyDevice_typed:
  "pd_Type (ClassifyDevice ip sd so sn sl) \<in> set device_types \<and>
   pd_SubType (ClassifyDevice ip sd so sn sl) \<in> set device_subtypes"
  using class_is_typed [OF fallbacks_ok(2) [OF fallbacks_ok(1) [OF oid_class_ok]]]
    ClassifyDevice_class [OF refl, of ip sd so sn sl]
  by (metis (no_types, lifting) prod.case)

text \<open>Every classified device, answering or not, has one of eleven types, never an empty one, and
  one of four subtypes; the address and the system fields are passed through unchanged.\<close>

theorem classified_device_typed:
  "pd_Type (Classify dial ip) \<in> set device_types \<and> pd_SubType (Classify dial ip) \<in> set device_subtypes
   \<and> pd_IP (Classify dial ip) = ip
   \<and> pd_Type (ClassifyDevice ip sd so sn sl) \<in> set device_types
   \<and> pd_SubType (ClassifyDevice ip sd so sn sl) \<in> set device_subtypes
   \<and> (pd_IP (ClassifyDevice ip sd so sn sl), pd_SysDescr (ClassifyDevice ip sd so sn sl),
       pd_SysObjectID (ClassifyDevice ip sd so sn sl), pd_SysName (ClassifyDevice ip sd so sn sl),
       pd_SysLocation (ClassifyDevice ip sd so sn sl)) = (ip, sd, so, sn, sl)"
proof -
  have u: "pd_Type (unknown_device ip) \<in> set device_types \<and> pd_SubType (unknown_device ip) \<in> set device_subtypes"
    unfolding unknown_device_def by code_simp
  have f: "pd_IP (ClassifyDevice ip sd so sn sl) = ip \<and> pd_SysDescr (ClassifyDevice ip sd so sn sl) = sd
      \<and> pd_SysObjectID (ClassifyDevice ip sd so sn sl) = so \<and> pd_SysName (ClassifyDevice ip sd so sn sl) = sn
      \<and> pd_SysLocation (ClassifyDevice ip sd so sn sl) = sl" for sd so sn sl
    by (simp add: ClassifyDevice_def Let_def split: prod.split)
  show ?thesis
    using u f ClassifyDevice_typed
    by (auto simp: Classify_def Let_def unknown_device_def split: sum.split)
qed

text \<open>The environmental monitors of APC are never recognised: the prefix of the UPS family comes
  first and also matches their OIDs, so every device under 318.1.1.10 is classified as an APC UPS.\<close>

theorem apc_env_is_ups:
  assumes "has_prefix (trim_prefix so ''.'') ''1.3.6.1.4.1.318.1.1.10''"
  shows "pd_Vendor (ClassifyDevice ip sd so sn sl) = ''apc'' \<and> pd_Type (ClassifyDevice ip sd so sn sl) = ''ups''
    \<and> pd_SubType (ClassifyDevice ip sd so sn sl) = ''ups-apc''"
proof -
  let ?o = "trim_prefix so ''.''"
  obtain r where o: "?o = ''1.3.6.1.4.1.318.1.1.10'' @ r"
    using assms unfolding has_prefix_def by (metis append_take_drop_id)
  have "oid_class ?o (to_lower sd) = (''apc'', ''ups'', ''ups-apc'')"
    unfolding o by (simp add: oid_class_def has_prefix_def)
  then show ?thesis using ClassifyDevice_class [OF refl, of ip sd so sn sl]
    by (simp add: vendor_fallback_def type_fallback_def unknown_type_def)
qed

theorem apc_env_is_ups_witness:
  "pd_Vendor (ClassifyDevice ''10.0.0.7'' ''APC NetBotz'' ''.1.3.6.1.4.1.318.1.1.10.2'' [] []) = ''apc''
   \<and> pd_Type (ClassifyDevice ''10.0.0.7'' ''APC NetBotz'' ''.1.3.6.1.4.1.318.1.1.10.2'' [] []) = ''ups''
   \<and> pd_SubType (ClassifyDevice ''10.0.0.7'' ''APC NetBotz'' ''.1.3.6.1.4.1.318.1.1.10.2'' [] []) = ''ups-apc''"
  by (rule apc_env_is_ups) (simp add: trim_prefix_def has_prefix_def)

subsection \<open>Vendor profiles\<close>

record vendor_profile =
  vp_Name :: string
  vp_IdentifyCmd :: string
  vp_IdentifyMatch :: "string list"
  vp_ConfigCmds :: "string list"
  vp_NeedsEnable :: bool

definition VendorProfiles :: "vendor_profile list" where
  "VendorProfiles =
    [\<lparr>vp_Name = ''cisco-ios'', vp_IdentifyCmd = ''show version'',
      vp_IdentifyMatch = [''Cisco IOS'', ''IOS-XE'', ''Cisco Internetwork'', ''C2960'', ''C3560'', ''C3850'', ''Catalyst''],
      vp_ConfigCmds = [''terminal length 0'', ''show running-config''], vp_NeedsEnable = True\<rparr>,
     \<lparr>vp_Name = ''cisco-nxos'', vp_IdentifyCmd = ''show version'', vp_IdentifyMatch = [''Nexus'', ''NX-OS''],
      vp_ConfigCmds = [''terminal length 0'', ''show running-config''], vp_NeedsEnable = False\<rparr>,
     \<lparr>vp_Name = ''aruba-aoss'', vp_IdentifyCmd = ''show version'',
      vp_IdentifyMatch = [''Aruba'', ''ArubaOS-Switch'', ''ProCurve'', ''HP J'', ''HPE OfficeConnect''],
      vp_ConfigCmds = [''no page'', ''show running-config''], vp_NeedsEnable = False\<rparr>,
     \<lparr>vp_Name = ''mikrotik'', vp_IdentifyCmd = ''/system resource print'', vp_IdentifyMatch = [''RouterOS'', ''MikroTik''],
      vp_ConfigCmds = [''/export''], vp_NeedsEnable = False\<rparr>,
     \<lparr>vp_Name = ''junos'', vp_IdentifyCmd = ''show version'', vp_IdentifyMatch = [''JUNOS'', ''Junos OS'', ''Juniper''],
      vp_ConfigCmds = [''set cli screen-length 0'', ''show configuration | display set''], vp_NeedsEnable = False\<rparr>,
     \<lparr>vp_Name = ''fortinet'', vp_IdentifyCmd = ''get system status'', vp_IdentifyMatch = [''FortiOS'', ''Fortigate'', ''Fortinet''],
      vp_ConfigCmds = [''show full-configuration''], vp_NeedsEnable = False\<rparr>]"

definition IdentifyVendor :: "string \<Rightarrow> vendor_profile option" where
  "IdentifyVendor out = find (\<lambda>p. list_ex (contains out) (vp_IdentifyMatch p)) VendorProfiles"

lemma IdentifyVendor_first:
  "IdentifyVendor out = Some p \<longleftrightarrow>
     (\<exists>i < length VendorProfiles. p = VendorProfiles ! i \<and> list_ex (contains out) (vp_IdentifyMatch p)
        \<and> (\<forall>j < i. \<not> list_ex (contains out) (vp_IdentifyMatch (VendorProfiles ! j))))"
  unfolding IdentifyVendor_def by (auto simp: find_Some_iff)

subsection \<open>Reachability\<close>

text \<open>
  \<open>dial p\<close> is the time to connect to port \<open>p\<close> in microseconds, \<open>None\<close> a failed dial. The
  \<open>break\<close> of \<open>ProbeReachability\<close> on a finished context leaves the \<open>select\<close>, not the loop, so the
  context does not appear: a finished context shows only in dials that fail.
\<close>

definition ProbeTCP :: "(int \<Rightarrow> int option) \<Rightarrow> int list \<Rightarrow> bool" where
  "ProbeTCP dial ports = list_ex (\<lambda>p. dial p \<noteq> None) ports"

definition rtt_ms :: "int \<Rightarrow> f64" where
  "rtt_ms us = f64_div (f64_of_int us) (f64_of_int 1000)"

fun best_rtt :: "(int \<Rightarrow> int option) \<Rightarrow> int list \<Rightarrow> f64 \<Rightarrow> f64" where
  "best_rtt dial [] best = best"
| "best_rtt dial (p # ps) best =
     (case dial p of
        None \<Rightarrow> best_rtt dial ps best
      | Some us \<Rightarrow> best_rtt dial ps
          (if f64_lt best (f64_of_int 0) \<or> f64_lt (rtt_ms us) best then rtt_ms us else best))"

definition ProbeReachability :: "(int \<Rightarrow> int option) \<Rightarrow> int list \<Rightarrow> bool \<times> f64" where
  "ProbeReachability dial ports =
     (let best = best_rtt dial (if ports = [] then [443, 22, 80, 161, 23] else ports) (f64_of_int (- 1)) in
      if f64_lt best (f64_of_int 0) then (False, f64_of_int 0) else (True, best))"

lemma rtt_ms_Fin:
  assumes "0 \<le> us" and "us \<le> 2 ^ 53"
  obtains r where "rtt_ms us = Fin r" and "0 \<le> r"
proof -
  have "\<bar>of_int us / of_int 1000 :: rat\<bar> \<le> of_int us" using assms(1) by (simp add: divide_le_eq)
  then have "f64_of_rat (of_int us / of_int 1000) = Fin (round_rat (of_int us / of_int 1000))"
    by (rule small_finite) (use assms in simp)
  then have "rtt_ms us = Fin (round_rat (of_int us / of_int 1000))"
    using assms by (simp add: rtt_ms_def f64_of_int_exact)
  moreover have "0 \<le> round_rat (of_int us / of_int 1000)" using assms(1) by (intro b64.rnd_nonneg) simp
  ultimately show thesis by (rule that)
qed

lemma best_rtt_least:
  assumes "\<forall>p us. dial p = Some us \<longrightarrow> 0 \<le> us \<and> us \<le> 2 ^ 53" and "b = - 1 \<or> 0 \<le> b"
  shows "\<exists>r. best_rtt dial ps (Fin b) = Fin r \<and> (r = - 1 \<or> 0 \<le> r)
    \<and> (r = - 1 \<longleftrightarrow> b = - 1 \<and> (\<forall>p \<in> set ps. dial p = None))
    \<and> (r \<noteq> - 1 \<longrightarrow> (b \<noteq> - 1 \<longrightarrow> r \<le> b) \<and> (\<forall>p \<in> set ps. \<forall>us. dial p = Some us \<longrightarrow> f64_le (Fin r) (rtt_ms us))
         \<and> (r = b \<or> (\<exists>p \<in> set ps. \<exists>us. dial p = Some us \<and> rtt_ms us = Fin r)))"
  using assms(2)
proof (induction ps arbitrary: b)
  case (Cons p ps)
  show ?case
  proof (cases "dial p")
    case None then show ?thesis using Cons by simp
  next
    case (Some us)
    obtain t where t: "rtt_ms us = Fin t" "0 \<le> t" using rtt_ms_Fin [of us] assms(1) Some by blast
    let ?b = "if b < 0 \<or> t < b then t else b"
    have nb: "?b \<noteq> - 1" "?b = - 1 \<or> 0 \<le> ?b" using t Cons.prems by auto
    have e: "best_rtt dial (p # ps) (Fin b) = best_rtt dial ps (Fin ?b)"
      using f64_of_int_exact [of 0] by (simp add: Some t)
    obtain r where r: "best_rtt dial ps (Fin ?b) = Fin r" "r = - 1 \<or> 0 \<le> r" "r \<noteq> - 1" "r \<le> ?b"
      "\<forall>p \<in> set ps. \<forall>us. dial p = Some us \<longrightarrow> f64_le (Fin r) (rtt_ms us)"
      "r = ?b \<or> (\<exists>p \<in> set ps. \<exists>us. dial p = Some us \<and> rtt_ms us = Fin r)"
      using Cons.IH [OF nb(2)] nb(1) by blast
    have "r \<le> t" "b \<noteq> - 1 \<Longrightarrow> r \<le> b" using r(4) Cons.prems by (auto split: if_splits)
    moreover have "r = b \<or> (\<exists>p \<in> set (p # ps). \<exists>us. dial p = Some us \<and> rtt_ms us = Fin r)"
      using r(6) Some t by (auto split: if_splits)
    ultimately show ?thesis unfolding e using r Some t by auto
  qed
qed simp

lemma ProbeReachability_exact:
  assumes "\<forall>p us. dial p = Some us \<longrightarrow> 0 \<le> us \<and> us \<le> 2 ^ 53" and "ports \<noteq> []"
  shows "fst (ProbeReachability dial ports) = ProbeTCP dial ports"
    and "ProbeTCP dial ports \<Longrightarrow>
      (\<forall>p \<in> set ports. \<forall>us. dial p = Some us \<longrightarrow> f64_le (snd (ProbeReachability dial ports)) (rtt_ms us))
      \<and> (\<exists>p \<in> set ports. \<exists>us. dial p = Some us \<and> snd (ProbeReachability dial ports) = rtt_ms us)"
proof -
  obtain r where r: "best_rtt dial ports (Fin (- 1)) = Fin r" "r = - 1 \<or> 0 \<le> r"
    "r = - 1 \<longleftrightarrow> (\<forall>p \<in> set ports. dial p = None)"
    "r \<noteq> - 1 \<longrightarrow> (\<forall>p \<in> set ports. \<forall>us. dial p = Some us \<longrightarrow> f64_le (Fin r) (rtt_ms us))
         \<and> (\<exists>p \<in> set ports. \<exists>us. dial p = Some us \<and> rtt_ms us = Fin r)"
    using best_rtt_least [OF assms(1), of "- 1" ports] by auto
  have e: "ProbeReachability dial ports = (if r < 0 then (False, Fin 0) else (True, Fin r))"
    using f64_of_int_exact [of 0] f64_of_int_exact [of "- 1"] r(1) assms(2)
    by (simp add: ProbeReachability_def Let_def)
  have p: "ProbeTCP dial ports \<longleftrightarrow> r \<noteq> - 1" using r(3) by (auto simp: ProbeTCP_def list_ex_iff)
  then show "fst (ProbeReachability dial ports) = ProbeTCP dial ports" unfolding e using r(2) by auto
  show "ProbeTCP dial ports \<Longrightarrow>
      (\<forall>p \<in> set ports. \<forall>us. dial p = Some us \<longrightarrow> f64_le (snd (ProbeReachability dial ports)) (rtt_ms us))
      \<and> (\<exists>p \<in> set ports. \<exists>us. dial p = Some us \<and> snd (ProbeReachability dial ports) = rtt_ms us)"
    unfolding e p using r(2,4) by (cases "r < 0") (auto simp: eq_commute)
qed

end
