(* ===== verification/Subnet.thy ===== *)
theory Subnet
  imports Go_Net
begin

text \<open>
  \<open>internal/collector/discovery/subnet.go\<close>: the hosts of an IPv4 CIDR. The enumeration counts in
  32-bit words, so it is modelled as a partial function whose result \<open>None\<close> is a loop that does not
  end; an index out of range is the outcome \<open>Panicked\<close>.
\<close>

datatype subnet_error = BadCIDR | NotIPv4 | CIDRTooSmall

definition ipToUint32 :: "ip \<Rightarrow> 32 word" where
  "ipToUint32 x = (case To4 x of None \<Rightarrow> 0 | Some b \<Rightarrow>
     push_bit 24 (ucast (b ! 0)) OR push_bit 16 (ucast (b ! 1)) OR push_bit 8 (ucast (b ! 2)) OR ucast (b ! 3))"

definition uint32ToIP :: "32 word \<Rightarrow> ip" where
  "uint32ToIP n = net_IPv4 (ucast (drop_bit 24 n)) (ucast (drop_bit 16 n)) (ucast (drop_bit 8 n)) (ucast n)"

text \<open>
  \<open>lastIPv4\<close>: \<open>mask\<close> is nil for a mask of 16 bytes, and \<open>mask[0]\<close> then panics. \<open>Returned None\<close> is
  the nil address.
\<close>

definition lastIPv4 :: "ip_net \<Rightarrow> (subnet_error, ip option) outcome" where
  "lastIPv4 n =
     (case To4 (net_IP n) of
        None \<Rightarrow> Returned None
      | Some x \<Rightarrow>
          (case To4 (net_Mask n) of
             None \<Rightarrow> Panicked
           | Some m \<Rightarrow> Returned (Some (map2 (\<lambda>a b. a OR NOT b) x m))))"

partial_function (option) host_loop :: "32 word \<Rightarrow> 32 word \<Rightarrow> int \<Rightarrow> string list \<Rightarrow> string list option" where
  "host_loop n last_host maxHosts out =
     (if n \<le> last_host \<and> int (length out) < maxHosts
      then host_loop (n + 1) last_host maxHosts (out @ [ip_String (uint32ToIP n)])
      else Some out)"

definition IPv4Hosts :: "string \<Rightarrow> int \<Rightarrow> (subnet_error, string list) outcome option" where
  "IPv4Hosts cidr maxHosts =
     (case ParseCIDR cidr of
        None \<Rightarrow> Some (Failed BadCIDR)
      | Some ipnet \<Rightarrow>
          (case lastIPv4 ipnet of
             Panicked \<Rightarrow> Some Panicked
           | Failed e \<Rightarrow> Some (Failed e)
           | Returned last_ip \<Rightarrow>
               (case (To4 (ip_Mask (net_IP ipnet) (net_Mask ipnet)), Option.bind last_ip To4) of
                  (Some network, Some broadcast) \<Rightarrow>
                    let ones = mask_ones (net_Mask ipnet) in
                    if ones = 32 then Some (Returned [ip_String network])
                    else if ones = 31 then
                      Some (Returned ([ip_String network] @
                        (if 2 \<le> maxHosts \<and> network \<noteq> broadcast then [ip_String broadcast] else [])))
                    else
                      let start = ipToUint32 network + 1; end_host = ipToUint32 broadcast - 1 in
                      if end_host < start then Some (Failed CIDRTooSmall)
                      else map_option Returned (host_loop start end_host maxHosts [])
                | _ \<Rightarrow> Some (Failed NotIPv4))))"

subsection \<open>Addresses as numbers\<close>

lemma ipToUint32_be32: "ipToUint32 [a, b, c, d] = be32 [a, b, c, d] 0"
  by (simp add: ipToUint32_def be32_cons)

lemma uint32ToIP_put32: "uint32ToIP n = v4InV6Prefix @ put32 n"
  by (simp add: uint32ToIP_def net_IPv4_def put32_def)

definition addr_text :: "32 word \<Rightarrow> string" where
  "addr_text n = dotted (put32 n)"

lemma ip_String_uint32ToIP: "ip_String (uint32ToIP n) = addr_text n"
  by (simp add: ip_String_def uint32ToIP_put32 addr_text_def To4_def v4InV6Prefix_def put32_def)

lemma ip_String_v4: "ip_String [a, b, c, d] = addr_text (be32 [a, b, c, d] 0)"
  by (simp add: ip_String_def addr_text_def put32_be32)

lemma bit_mask_byte:
  assumes "j < 8"
  shows "bit (mask_byte n i) j \<longleftrightarrow> 8 * i + (7 - j) < n"
proof -
  have ones: "(255 :: byte) = - 1" by simp
  show ?thesis using assms unfolding mask_byte_def ones by (auto simp: bit_simps)
qed

lemma CIDRMask_32: "CIDRMask n 32 = [mask_byte n 0, mask_byte n 1, mask_byte n 2, mask_byte n 3]"
proof -
  have "[0..<4] = [0, 1, 2, 3 :: nat]" by code_simp
  then show ?thesis by (simp add: CIDRMask_def)
qed

lemma be32_CIDRMask: "n \<le> 32 \<Longrightarrow> be32 (CIDRMask n 32) 0 = NOT (mask (32 - n))"
proof (rule bit_word_eqI)
  fix k assume n: "n \<le> 32" and k: "k < LENGTH(32)"
  have j: "k < 32 \<Longrightarrow> 24 \<le> k \<Longrightarrow> k - 24 < 8" "k < 24 \<Longrightarrow> 16 \<le> k \<Longrightarrow> k - 16 < 8"
    "k < 16 \<Longrightarrow> 8 \<le> k \<Longrightarrow> k - 8 < 8" by auto
  show "bit (be32 (CIDRMask n 32) 0) k = bit (NOT (mask (32 - n)) :: 32 word) k"
    unfolding CIDRMask_32 bit_be32 using n k j
    by (auto simp: bit_mask_byte bit_simps not_le not_less)
qed

lemma be32_map2:
  assumes "\<And>x y k. k < 8 \<Longrightarrow> bit (f x y) k = g (bit x k) (bit y k)"
    and "\<And>x y k. k < 32 \<Longrightarrow> bit (h x y) k = g (bit x k) (bit y k)"
  shows "be32 (map2 f [a, b, c, d] [a', b', c', d']) 0 = h (be32 [a, b, c, d] 0) (be32 [a', b', c', d'] 0)"
proof (rule bit_word_eqI)
  fix k assume "k < LENGTH(32)"
  then show "bit (be32 (map2 f [a, b, c, d] [a', b', c', d']) 0) k =
      bit (h (be32 [a, b, c, d] 0) (be32 [a', b', c', d'] 0)) k"
    by (simp add: bit_be32 assms less_diff_conv2)
qed

lemma map2_put32:
  assumes "\<And>x y k. k < 8 \<Longrightarrow> bit (f x y) k = g (bit x k) (bit y k)"
    and "\<And>x y k. k < 32 \<Longrightarrow> bit (h x y) k = g (bit x k) (bit y k)"
  shows "map2 f [a, b, c, d] [a', b', c', d'] = put32 (h (be32 [a, b, c, d] 0) (be32 [a', b', c', d'] 0))"
proof -
  have "put32 (be32 (map2 f [a, b, c, d] [a', b', c', d']) 0) = map2 f [a, b, c, d] [a', b', c', d']"
    by (simp add: put32_be32)
  then show ?thesis using be32_map2 [where f = f and g = g and h = h, OF assms] by simp
qed

text \<open>The network and the broadcast address of \<open>w / n\<close> as numbers.\<close>

lemma unat_network:
  "unat (w AND NOT (mask k) :: 32 word) = unat w div 2 ^ k * 2 ^ k"
proof -
  have "w AND NOT (mask k) = push_bit k (drop_bit k w)"
    by (rule bit_word_eqI) (auto simp: bit_simps)
  moreover have d: "unat (drop_bit k w) = unat w div 2 ^ k"
    by (subst unat_drop_bit_eq) (simp only: drop_bit_eq_div)
  moreover have "unat w div 2 ^ k * 2 ^ k < 2 ^ 32"
    using unsigned_less [of w, where ?'a = nat] by (simp add: le_less_trans [OF div_times_less_eq_dividend])
  ultimately have "unat (push_bit k (drop_bit k w)) = unat w div 2 ^ k * 2 ^ k"
    by (subst unsigned_push_bit_eq) (simp only: d push_bit_eq_mult take_bit_nat_eq_self len_bit0 len_num1 mult_1_right numeral_eq_one_iff,
      simp add: take_bit_nat_eq_self)
  with \<open>w AND NOT (mask k) = push_bit k (drop_bit k w)\<close> show ?thesis by simp
qed

lemma unat_broadcast:
  assumes "k \<le> 32"
  shows "unat (w OR mask k :: 32 word) = unat w div 2 ^ k * 2 ^ k + (2 ^ k - 1)"
proof -
  have "w OR mask k = (w AND NOT (mask k)) OR mask k"
    by (rule bit_word_eqI) (auto simp: bit_simps)
  also have "\<dots> = (w AND NOT (mask k)) + mask k"
    by (rule disjunctive_add [symmetric]) (auto simp: bit_simps)
  finally have e: "w OR mask k = (w AND NOT (mask k)) + mask k" .
  have "(2 :: nat) ^ k dvd 2 ^ 32" using assms by (rule le_imp_power_dvd)
  have "unat (mask k :: 32 word) = mask k"
    using assms by (intro bit_eqI) (auto simp: bit_simps)
  then have m: "unat (mask k :: 32 word) = 2 ^ k - 1" by (simp only: mask_eq_exp_minus_1)
  have "unat w div 2 ^ k * 2 ^ k + 2 ^ k \<le> 2 ^ 32"
  proof -
    obtain q where q: "(2 :: nat) ^ 32 = q * 2 ^ k" using \<open>2 ^ k dvd 2 ^ 32\<close> by (auto elim: dvdE simp: mult.commute)
    have "unat w < q * 2 ^ k" using unsigned_less [of w, where ?'a = nat] q by simp
    then have "unat w div 2 ^ k < q" by (simp add: less_mult_imp_div_less)
    then have "(unat w div 2 ^ k + 1) * 2 ^ k \<le> q * 2 ^ k" by (intro mult_right_mono) simp_all
    then show ?thesis using q by (simp add: algebra_simps)
  qed
  then have "unat w div 2 ^ k * 2 ^ k + (2 ^ k - 1) < 2 ^ 32"
    using zero_less_power [of "2 :: nat" k] by linarith
  then show ?thesis unfolding e by (subst unat_add_lem [THEN iffD1]) (simp_all add: m unat_network)
qed

subsection \<open>Parsing a dotted CIDR\<close>

lemma dec_nat_lead: "0 < n \<Longrightarrow> hd (dec_nat n) \<noteq> CHR ''0''"
proof (induction n rule: dec_nat.induct)
  case (1 n)
  show ?case
  proof (cases "n < 10")
    case True
    then have "char_code (digit_char n) \<noteq> 48" using 1 by simp
    then have "digit_char n \<noteq> CHR ''0''" by (auto simp: char_code_def)
    then show ?thesis using True by (subst dec_nat.simps) simp
  next
    case False
    then have "hd (dec_nat (n div 10)) \<noteq> CHR ''0''" using 1 by simp
    then show ?thesis using False dec_nat_digits [of "n div 10"] by (subst dec_nat.simps) simp
  qed
qed

lemma parse_octet_dec_nat: "parse_octet (dec_nat (unat (b :: byte))) = Some b"
proof -
  have b: "unat b \<le> 255" using unat_byte [of b] by linarith
  have "length (dec_nat (unat b)) = 1 \<or> hd (dec_nat (unat b)) \<noteq> CHR ''0''"
  proof (cases "unat b = 0")
    case True then show ?thesis by (subst dec_nat.simps) simp
  next
    case False then show ?thesis using dec_nat_lead by simp
  qed
  then show ?thesis using b dec_nat_digits [of "unat b"] by (simp add: parse_octet_def)
qed

lemma dec_nat_char: "c \<in> set (dec_nat n) \<Longrightarrow> is_digit c"
  using dec_nat_digits [of n] by (simp add: list_all_iff)

lemma not_digit: "\<not> is_digit CHR ''.''" "\<not> is_digit CHR ''/''" "\<not> is_digit CHR '':''" "\<not> is_digit CHR ''%''"
  by (simp_all add: is_digit_def char_code_def)

lemma parse_v4_dotted: "parse_v4 (dotted [a, b, c, d]) = Some [a, b, c, d]"
proof -
  let ?ps = "map (\<lambda>b :: byte. dec_nat (unat b)) [a, b, c, d]"
  have "split_str (join_str [CHR ''.''] ?ps) [CHR ''.''] = ?ps"
    by (rule split_join) (auto dest!: dec_nat_char simp: not_digit)
  then show ?thesis by (simp add: parse_v4_def dotted_def parse_octet_dec_nat)
qed

lemma dotted_chars: "c \<in> set (dotted [a, b, c1, d]) \<Longrightarrow> is_digit c \<or> c = CHR ''.''"
  by (auto simp: dotted_def dest: dec_nat_char)

lemma parse_addr_dotted: "parse_addr (dotted [a, b, c, d]) = Some [a, b, c, d]"
proof -
  have "CHR ''%'' \<notin> set (dotted [a, b, c, d])" using dotted_chars not_digit by fastforce
  moreover have "find (\<lambda>x. x = CHR ''.'' \<or> x = CHR '':'') (dotted [a, b, c, d]) = Some (CHR ''.'')"
  proof -
    have "\<exists>x. find (\<lambda>x. x = CHR ''.'' \<or> x = CHR '':'') (dotted [a, b, c, d]) = Some x"
      by (simp add: dotted_def find_append split: option.split)
    moreover have "x = CHR ''.''"
      if "find (\<lambda>x. x = CHR ''.'' \<or> x = CHR '':'') (dotted [a, b, c, d]) = Some x" for x
      using find_SomeD [OF that] dotted_chars [of x] not_digit by auto
    ultimately show ?thesis by auto
  qed
  ultimately show ?thesis by (simp add: parse_addr_def parse_v4_dotted)
qed

lemma takeWhile_slash: "\<forall>c \<in> set p. c \<noteq> x \<Longrightarrow> takeWhile (\<lambda>c. c \<noteq> x) (p @ x # s) = p"
  by (induction p) auto

lemma ParseCIDR_dotted:
  assumes "n \<le> 32"
  shows "ParseCIDR (dotted [a, b, c, d] @ ''/'' @ dec_nat n) =
    Some \<lparr>net_IP = map2 (AND) [a, b, c, d] (CIDRMask n 32), net_Mask = CIDRMask n 32\<rparr>"
proof -
  have t: "takeWhile (\<lambda>c. c \<noteq> CHR ''/'') (dotted [a, b, c, d] @ CHR ''/'' # dec_nat n) = dotted [a, b, c, d]"
    by (rule takeWhile_slash) (use dotted_chars not_digit in fastforce)
  show ?thesis using assms dec_nat_digits [of n]
    by (simp add: ParseCIDR_def t Let_def parse_addr_dotted ip_Mask_def CIDRMask_32 v4InV6Prefix_def)
qed

lemma simpleMaskLength_CIDRMask: "n \<le> 32 \<Longrightarrow> simpleMaskLength (CIDRMask n 32) = Some n"
proof -
  have "\<forall>n \<in> set [0..<33]. simpleMaskLength (CIDRMask n 32) = Some n" by code_simp
  then show "n \<le> 32 \<Longrightarrow> simpleMaskLength (CIDRMask n 32) = Some n" by simp
qed

subsection \<open>The enumeration\<close>

lemma host_loop_run:
  assumes "unat last_host + 1 < 2 ^ 32"
  shows "host_loop n last_host m out = Some (out @ map (addr_text \<circ> of_nat)
    (take (nat (m - int (length out))) [unat n ..< unat last_host + 1]))"
proof (induction "unat last_host + 1 - unat n" arbitrary: n out)
  case 0
  then have "\<not> n \<le> last_host" by (simp add: word_le_nat_alt)
  then show ?case using 0 by (subst host_loop.simps) simp
next
  case (Suc x)
  then have le: "n \<le> last_host" and lt: "unat n < unat last_host + 1" by (simp_all add: word_le_nat_alt)
  have n1: "unat (n + 1) = unat n + 1" using lt assms by (simp add: unat_word_ariths)
  show ?case
  proof (cases "int (length out) < m")
    case True
    then have k: "nat (m - int (length out)) = Suc (nat (m - int (length (out @ [addr_text n]))))" by simp
    have "host_loop n last_host m out = host_loop (n + 1) last_host m (out @ [addr_text n])"
      using le True by (subst host_loop.simps) (simp add: ip_String_uint32ToIP)
    also have "\<dots> = Some ((out @ [addr_text n]) @ map (addr_text \<circ> of_nat)
        (take (nat (m - int (length (out @ [addr_text n])))) [unat (n + 1) ..< unat last_host + 1]))"
      by (rule Suc.hyps(1)) (use Suc.hyps(2) n1 in simp)
    finally show ?thesis using upt_conv_Cons [of "unat n" "Suc (unat last_host)"] lt
      by (simp add: k n1 del: length_append upt_Suc)
  next
    case False then show ?thesis using le by (subst host_loop.simps) simp
  qed
qed

text \<open>The specification: the hosts of \<open>w / n\<close> as numbers.\<close>

definition cidr_hosts :: "32 word \<Rightarrow> nat \<Rightarrow> nat list" where
  "cidr_hosts w n =
     (let size = 2 ^ (32 - n); base = unat w div size * size in
      if n = 32 then [base] else if n = 31 then [base, base + 1] else [base + 1 ..< base + size - 1])"

lemma network_and_broadcast:
  assumes "n \<le> 32"
  shows "\<exists>N B. To4 (ip_Mask (map2 (AND) [a, b, c, d] (CIDRMask n 32)) (CIDRMask n 32)) = Some (put32 N)
    \<and> lastIPv4 \<lparr>net_IP = map2 (AND) [a, b, c, d] (CIDRMask n 32), net_Mask = CIDRMask n 32\<rparr> = Returned (Some (put32 B))
    \<and> N = be32 [a, b, c, d] 0 AND NOT (mask (32 - n)) \<and> B = be32 [a, b, c, d] 0 OR mask (32 - n)"
proof -
  let ?m = "[mask_byte n 0, mask_byte n 1, mask_byte n 2, mask_byte n 3]"
  let ?w = "be32 [a, b, c, d] 0"
  have m: "be32 ?m 0 = NOT (mask (32 - n))" using be32_CIDRMask [OF assms] by (simp add: CIDRMask_32)
  have N: "map2 (AND) [a, b, c, d] ?m = put32 (?w AND NOT (mask (32 - n)))"
    unfolding m [symmetric] by (rule map2_put32 [where g = "(\<and>)"]) (simp_all add: bit_simps)
  have "map2 (\<lambda>x y. x OR NOT y) (put32 (?w AND NOT (mask (32 - n)))) ?m
      = put32 (be32 (put32 (?w AND NOT (mask (32 - n)))) 0 OR NOT (be32 ?m 0))"
  proof -
    obtain a' b' c' d' where p: "put32 (?w AND NOT (mask (32 - n))) = [a', b', c', d']" by (simp add: put32_def)
    show ?thesis unfolding p
      by (rule map2_put32 [where g = "\<lambda>x y. x \<or> \<not> y" and h = "\<lambda>x y. x OR NOT y"]) (simp_all add: bit_simps)
  qed
  also have "be32 (put32 (?w AND NOT (mask (32 - n)))) 0 OR NOT (be32 ?m 0) = ?w OR mask (32 - n)"
    unfolding be32_put32 m by (rule bit_word_eqI) (auto simp: bit_simps)
  finally have B: "map2 (\<lambda>x y. x OR NOT y) (map2 (AND) [a, b, c, d] ?m) ?m = put32 (?w OR mask (32 - n))"
    unfolding N .
  have "ip_Mask (map2 (AND) [a, b, c, d] ?m) ?m = map2 (AND) [a, b, c, d] ?m"
    by (simp add: ip_Mask_def)
  then show ?thesis using N B by (simp add: CIDRMask_32 lastIPv4_def To4_def)
qed

lemma word_of_unat: "unat (x :: 32 word) = k \<Longrightarrow> x = of_nat k"
  by auto

lemma IPv4Hosts_dotted:
  assumes "n \<le> 32"
  shows "IPv4Hosts (addr_text w @ ''/'' @ dec_nat n) m =
    Some (Returned (map (addr_text \<circ> of_nat)
      (take (if n \<le> 30 then nat m else max 1 (nat m)) (cidr_hosts w n))))"
proof -
  let ?k = "32 - n"
  let ?base = "unat w div 2 ^ ?k * 2 ^ ?k"
  let ?N = "w AND NOT (mask ?k)"
  let ?B = "w OR mask ?k"
  obtain a b c d where p: "put32 w = [a, b, c, d]" by (simp add: put32_def)
  have w: "be32 [a, b, c, d] 0 = w" using be32_put32 [of w] p by simp
  have N: "unat ?N = ?base" by (rule unat_network)
  have B: "unat ?B = ?base + (2 ^ ?k - 1)" by (rule unat_broadcast) simp
  have B32: "?base + (2 ^ ?k - 1) < 2 ^ 32" using unsigned_less [of ?B, where ?'a = nat] B by simp
  have text4: "ip_String (put32 x) = addr_text x" for x by (simp add: ip_String_def addr_text_def To4_def put32_def)
  have w32: "ipToUint32 (put32 x) = x" for x
    using be32_put32 [of x] by (simp add: put32_def ipToUint32_be32)
  have parse: "ParseCIDR (addr_text w @ ''/'' @ dec_nat n) =
      Some \<lparr>net_IP = map2 (AND) [a, b, c, d] (CIDRMask n 32), net_Mask = CIDRMask n 32\<rparr>"
    using ParseCIDR_dotted [OF assms] by (simp add: addr_text_def p)
  have ones: "mask_ones (CIDRMask n 32) = n" by (simp add: mask_ones_def simpleMaskLength_CIDRMask [OF assms])
  have t4: "To4 (put32 x) = Some (put32 x)" for x by (simp add: To4_def)
  have neq: "put32 ?N = put32 ?B \<longleftrightarrow> ?N = ?B" by (metis be32_put32)
  have hosts: "IPv4Hosts (addr_text w @ ''/'' @ dec_nat n) m =
     (if n = 32 then Some (Returned [addr_text ?N])
      else if n = 31 then Some (Returned ([addr_text ?N] @ (if 2 \<le> m \<and> ?N \<noteq> ?B then [addr_text ?B] else [])))
      else if ?B - 1 < ?N + 1 then Some (Failed CIDRTooSmall)
      else map_option Returned (host_loop (?N + 1) (?B - 1) m []))"
  proof -
    have net: "To4 (ip_Mask (map2 (AND) [a, b, c, d] (CIDRMask n 32)) (CIDRMask n 32)) = Some (put32 ?N)"
      and last_ip: "lastIPv4 \<lparr>net_IP = map2 (AND) [a, b, c, d] (CIDRMask n 32), net_Mask = CIDRMask n 32\<rparr>
        = Returned (Some (put32 ?B))"
      using network_and_broadcast [OF assms, of a b c d] unfolding w by auto
    show ?thesis
      by (simp only: IPv4Hosts_def parse option.case outcome.case ip_net.select_convs net last_ip ones text4 t4
          neq w32 Let_def bind.bind_lunit prod.case)
  qed
  consider "n = 32" | "n = 31" | "n \<le> 30" using assms by linarith
  then show ?thesis
  proof cases
    case 1
    then have "?N = of_nat (unat w)" by simp
    then show ?thesis unfolding hosts using 1 by (simp add: cidr_hosts_def)
  next
    case 2
    have eN: "?N = of_nat ?base" using N by (rule word_of_unat)
    have "unat ?B = ?base + 1" using B 2 by simp
    then have eB: "?B = of_nat (?base + 1)" by (rule word_of_unat)
    have "?N \<noteq> ?B" using N \<open>unat ?B = ?base + 1\<close> by (metis n_not_Suc_n Suc_eq_plus1)
    have t: "take (max 1 (nat m)) [x, y] = (if 2 \<le> m then [x, y] else [x])" for x y :: nat
    proof -
      have "m < 2 \<Longrightarrow> max 1 (nat m) = 1" "2 \<le> m \<Longrightarrow> 2 \<le> max 1 (nat m)" by auto
      then show ?thesis by (cases "2 \<le> m") simp_all
    qed
    have "cidr_hosts w n = [?base, ?base + 1]" using 2 by (simp add: cidr_hosts_def Let_def)
    then show ?thesis unfolding hosts using 2 eN eB \<open>?N \<noteq> ?B\<close> by (simp add: t Let_def)
  next
    case 3
    have k: "4 \<le> (2 :: nat) ^ ?k" using power_increasing [of 2 ?k "2 :: nat"] 3 by simp
    have "?base + 1 < 2 ^ 32" using B32 k by linarith
    then have n1: "unat (?N + 1) = ?base + 1" using N by (subst unat_add_lem [THEN iffD1]) simp_all
    have b1: "unat (?B - 1) = ?base + 2 ^ ?k - 2"
    proof -
      have "1 \<le> unat ?B" using B k by linarith
      then have "unat (?B - 1) = unat ?B - 1" by (subst unat_sub) (simp_all add: word_le_nat_alt)
      then show ?thesis using B k by linarith
    qed
    have "\<not> ?B - 1 < ?N + 1" unfolding word_less_nat_alt using n1 b1 k by linarith
    moreover have "host_loop (?N + 1) (?B - 1) m [] =
        Some (map (addr_text \<circ> of_nat) (take (nat m) [?base + 1 ..< ?base + 2 ^ ?k - 1]))"
    proof -
      have u: "unat (?B - 1) + 1 = ?base + 2 ^ ?k - 1" using b1 k by linarith
      moreover have "?base + 2 ^ ?k - 1 < 2 ^ 32" using B32 k by linarith
      ultimately show ?thesis using host_loop_run [of "?B - 1" "?N + 1" m "[]"] unfolding u n1
        by simp
    qed
    ultimately show ?thesis unfolding hosts using 3 by (simp add: cidr_hosts_def Let_def)
  qed
qed

subsection \<open>Every CIDR\<close>

lemma v6_groups_length:
  assumes "v6_groups k ell acc s = Some (acc', ell')" and "length acc + 2 * k = 16"
    and "case ell of None \<Rightarrow> True | Some e \<Rightarrow> e \<le> length acc"
  shows "length acc' \<le> 16 \<and> (case ell' of None \<Rightarrow> True | Some e \<Rightarrow> e \<le> length acc')"
  using assms
proof (induction k ell acc s rule: v6_groups.induct)
  case (2 k ell acc s)
  have p4: "parse_v4 s = Some b \<Longrightarrow> length b = 4" for b
    by (auto simp: parse_v4_def split: list.splits option.splits)
  show ?case using 2 p4
    by (auto simp: Let_def split: if_splits list.splits option.splits)
qed (auto split: if_splits)

lemma parse_v6_length: "parse_v6 s = Some x \<Longrightarrow> length x = 16"
  by (auto simp: parse_v6_def Let_def split: if_splits option.splits prod.splits
      dest!: v6_groups_length)

lemma parse_addr_length: "parse_addr s = Some x \<Longrightarrow> length x = 4 \<or> length x = 16"
  by (auto simp: parse_addr_def parse_v4_def dest: parse_v6_length split: if_splits option.splits list.splits)

lemma ParseCIDR_cases:
  assumes "ParseCIDR cidr = Some net"
  obtains (v4) w n where "n \<le> 32" "ParseCIDR cidr = ParseCIDR (addr_text w @ ''/'' @ dec_nat n)" "length (net_IP net) = 4"
  | (v6) n where "n \<le> 128" "length (net_IP net) = 16" "net_Mask net = CIDRMask n 128"
proof -
  obtain x where x: "parse_addr (takeWhile (\<lambda>c. c \<noteq> CHR ''/'') cidr) = Some x"
    using assms by (auto simp: ParseCIDR_def Let_def split: if_splits option.splits)
  obtain n where n: "n \<le> 8 * length x"
    and net: "net = \<lparr>net_IP = ip_Mask (if length x = 4 then v4InV6Prefix @ x else x) (CIDRMask n (8 * length x)),
      net_Mask = CIDRMask n (8 * length x)\<rparr>"
    using assms by (intro that [of "digits_val (drop (length (takeWhile (\<lambda>c. c \<noteq> CHR ''/'') cidr) + 1) cidr)"])
      (simp_all add: ParseCIDR_def Let_def x split: if_splits)
  consider "length x = 4" | "length x = 16" using parse_addr_length [OF x] by blast
  then show thesis
  proof cases
    case 1
    then obtain a b c d where abcd: "x = [a, b, c, d]"
      by (auto simp: eval_nat_numeral length_Suc_conv)
    have t: "addr_text (be32 [a, b, c, d] 0) = dotted [a, b, c, d]" by (simp add: addr_text_def put32_be32)
    have n32: "n \<le> 32" using n 1 by simp
    have "net = \<lparr>net_IP = map2 (AND) [a, b, c, d] (CIDRMask n 32), net_Mask = CIDRMask n 32\<rparr>"
      unfolding net abcd by (simp add: ip_Mask_def v4InV6Prefix_def CIDRMask_32)
    then have e: "Some net = ParseCIDR (addr_text (be32 [a, b, c, d] 0) @ ''/'' @ dec_nat n)"
      unfolding t by (simp only: ParseCIDR_dotted [OF n32])
    have "length (net_IP net) = 4" unfolding net abcd by (simp add: ip_Mask_def v4InV6Prefix_def CIDRMask_32)
    then show thesis using e assms n32 by (intro v4 [of n "be32 [a, b, c, d] 0"]) simp_all
  next
    case 2
    then have "length (CIDRMask n (8 * length x)) = 16" by (simp add: CIDRMask_def)
    then show thesis using n 2 by (intro v6 [of n]) (simp_all add: net ip_Mask_def)
  qed
qed

lemma To4_mask_16: "To4 (CIDRMask n 128) = None"
proof -
  have l: "length (CIDRMask n 128) = 16" by (simp add: CIDRMask_def)
  have "take 12 (CIDRMask n 128) \<noteq> v4InV6Prefix"
  proof
    assume eq: "take 12 (CIDRMask n 128) = v4InV6Prefix"
    have nth: "take 12 (CIDRMask n 128) ! i = mask_byte n i" if "i < 12" for i
      using that by (simp add: CIDRMask_def)
    have "mask_byte n 0 = 0" using nth [of 0] eq by (simp add: v4InV6Prefix_def nth_append)
    then have n: "n = 0" using bit_mask_byte [of 7 n 0] by (cases n) simp_all
    have "mask_byte n 11 = 255" using nth [of 11] eq by (simp add: v4InV6Prefix_def nth_append)
    then show False unfolding n by (simp add: mask_byte_def)
  qed
  then show ?thesis using l by (simp add: To4_def)
qed

lemma IPv4Hosts_parsed: "ParseCIDR cidr = ParseCIDR cidr' \<Longrightarrow> IPv4Hosts cidr m = IPv4Hosts cidr' m"
  by (simp add: IPv4Hosts_def)

lemma IPv4Hosts_v6:
  assumes "ParseCIDR cidr = Some net" and "length (net_IP net) = 16" and "net_Mask net = CIDRMask n 128"
  shows "IPv4Hosts cidr m = Some (if To4 (net_IP net) = None then Failed NotIPv4 else Panicked)"
  using assms by (auto simp: IPv4Hosts_def lastIPv4_def To4_mask_16 split: option.split)

lemma IPv4Hosts_total:
  "\<exists>r. IPv4Hosts cidr m = Some r \<and> (case r of Returned hs \<Rightarrow> length hs \<le> max 1 (nat m) | _ \<Rightarrow> True)"
proof (cases "ParseCIDR cidr")
  case None then show ?thesis by (simp add: IPv4Hosts_def)
next
  case (Some net)
  from Some show ?thesis
  proof (cases rule: ParseCIDR_cases)
    case (v4 w n)
    then show ?thesis using IPv4Hosts_dotted [OF v4(1), of w m] IPv4Hosts_parsed [OF v4(2), of m] by auto
  next
    case (v6 n) then show ?thesis using IPv4Hosts_v6 [OF Some v6(2,3), of m] by auto
  qed
qed

lemma cidr_hosts_network: "n \<le> 32 \<Longrightarrow> cidr_hosts (w AND NOT (mask (32 - n))) n = cidr_hosts w n"
  by (simp add: cidr_hosts_def unat_network Let_def)

lemma be32_network:
  assumes "n \<le> 32"
  shows "be32 (map2 (AND) [a, b, c, d] (CIDRMask n 32)) 0 = be32 [a, b, c, d] 0 AND NOT (mask (32 - n))"
proof -
  have "be32 (map2 (AND) [a, b, c, d] (CIDRMask n 32)) 0 = be32 [a, b, c, d] 0 AND be32 (CIDRMask n 32) 0"
    unfolding CIDRMask_32 by (rule be32_map2 [where g = "(\<and>)"]) (simp_all add: bit_simps)
  then show ?thesis by (simp only: be32_CIDRMask [OF assms])
qed

lemma ParseCIDR_numbers:
  assumes "n \<le> 32" and "ParseCIDR (addr_text w @ ''/'' @ dec_nat n) = Some net"
  shows "mask_ones (net_Mask net) = n" "cidr_hosts (be32 (net_IP net) 0) n = cidr_hosts w n"
proof -
  obtain a b c d where p: "put32 w = [a, b, c, d]" by (simp add: put32_def)
  have w: "be32 [a, b, c, d] 0 = w" using be32_put32 [of w] p by simp
  have net: "net = \<lparr>net_IP = map2 (AND) [a, b, c, d] (CIDRMask n 32), net_Mask = CIDRMask n 32\<rparr>"
    using ParseCIDR_dotted [OF assms(1)] assms(2) by (simp add: addr_text_def p)
  show "mask_ones (net_Mask net) = n" using assms(1) by (simp add: net mask_ones_def simpleMaskLength_CIDRMask)
  show "cidr_hosts (be32 (net_IP net) 0) n = cidr_hosts w n"
    by (simp only: net ip_net.select_convs be32_network [OF assms(1)] w cidr_hosts_network [OF assms(1)])
qed

text \<open>C40: What the enumeration returns is known for every text and every limit, so its loop always ends: for an IPv4
  network it is the hosts of the network in order, without the network and the broadcast address (both addresses of a /31,
  the address of a /32), cut after maxHosts of them, a /31 or /32 keeping its first address even for a limit of zero; a text
  that is no CIDR and an IPv6 network are errors, an IPv6 network of mapped IPv4 addresses is a panic, and no network is
  reported as too small.\<close>

theorem hosts_enumerated:
  "IPv4Hosts cidr m = Some (case ParseCIDR cidr of
     None \<Rightarrow> Failed BadCIDR
   | Some net \<Rightarrow>
       if length (net_IP net) = 4 then
         (let n = mask_ones (net_Mask net)
          in Returned (map (addr_text \<circ> of_nat)
               (take (if n \<le> 30 then nat m else max 1 (nat m)) (cidr_hosts (be32 (net_IP net) 0) n))))
       else if To4 (net_IP net) = None then Failed NotIPv4 else Panicked)"
proof (cases "ParseCIDR cidr")
  case None then show ?thesis by (simp add: IPv4Hosts_def)
next
  case (Some net)
  from Some show ?thesis
  proof (cases rule: ParseCIDR_cases)
    case (v4 w n)
    have parsed: "ParseCIDR (addr_text w @ ''/'' @ dec_nat n) = Some net" using v4(2) Some by simp
    show ?thesis
      using IPv4Hosts_dotted [OF v4(1), of w m] IPv4Hosts_parsed [OF v4(2), of m] ParseCIDR_numbers [OF v4(1) parsed] v4(3) Some
      by (simp add: Let_def)
  next
    case (v6 n) then show ?thesis using IPv4Hosts_v6 [OF Some v6(2,3), of m] Some by simp
  qed
qed

text \<open>Three hosts of 192.168.1.0/24, named by the address of one of its machines.\<close>

theorem hosts_enumerated_witness:
  "IPv4Hosts (addr_text 0xC0A8010A @ ''/'' @ dec_nat 24) 3 =
    Some (Returned (map (addr_text \<circ> of_nat) [0xC0A80101, 0xC0A80102, 0xC0A80103]))"
proof -
  have p: "put32 0xC0A8010A = [192, 168, 1, 10]" by code_simp
  have parsed: "ParseCIDR (addr_text 0xC0A8010A @ ''/'' @ dec_nat 24) =
      Some \<lparr>net_IP = map2 (AND) [192, 168, 1, 10] (CIDRMask 24 32), net_Mask = CIDRMask 24 32\<rparr>"
    using ParseCIDR_dotted [of 24 192 168 1 10] by (simp add: addr_text_def p)
  have l: "length (map2 (AND) [192, 168, 1, 10] (CIDRMask 24 32)) = 4" by (simp add: CIDRMask_32)
  have "take 3 (cidr_hosts 0xC0A8010A 24) = [0xC0A80101, 0xC0A80102, 0xC0A80103]"
    by (simp add: cidr_hosts_def upt_rec [of _ "Suc _"] upt_conv_Cons)
  then show ?thesis
    using hosts_enumerated [of "addr_text 0xC0A8010A @ ''/'' @ dec_nat 24" 3] ParseCIDR_numbers [OF _ parsed] parsed l
    by (simp add: Let_def)
qed

text \<open>The texts the function panics on are the IPv4-mapped IPv6 networks.\<close>

lemma IPv4Hosts_panics_iff:
  "IPv4Hosts cidr m = Some Panicked \<longleftrightarrow>
    (\<exists>net. ParseCIDR cidr = Some net \<and> length (net_IP net) = 16 \<and> To4 (net_IP net) \<noteq> None)"
proof (cases "ParseCIDR cidr")
  case None then show ?thesis by (simp add: IPv4Hosts_def)
next
  case (Some net)
  from Some show ?thesis
  proof (cases rule: ParseCIDR_cases)
    case (v4 w n)
    then show ?thesis using IPv4Hosts_dotted [OF v4(1), of w m] IPv4Hosts_parsed [OF v4(2), of m] Some by auto
  next
    case (v6 n) then show ?thesis using IPv4Hosts_v6 [OF Some v6(2,3), of m] Some by auto
  qed
qed

lemma length_dec_nat: "n < 1000 \<Longrightarrow> length (dec_nat n) \<le> 3"
  by (subst dec_nat.simps, simp, subst dec_nat.simps, simp, subst dec_nat.simps, simp)

lemma digits_are_hex: "list_all is_digit ds \<Longrightarrow> \<not> is_hex c \<Longrightarrow> takeWhile is_hex (ds @ c # s) = ds \<and>
    dropWhile is_hex (ds @ c # s) = c # s"
  by (induction ds) (auto simp: is_hex_def)

lemma parse_addr_mapped:
  "parse_addr (''::ffff:'' @ dotted [a, b, c, d]) = Some (v4InV6Prefix @ [a, b, c, d])"
proof -
  have dot: "dotted [a, b, c, d] = dec_nat (unat a) @ CHR ''.'' # drop (Suc (length (dec_nat (unat a)))) (dotted [a, b, c, d])"
    by (simp add: dotted_def)
  have hx: "takeWhile is_hex (dotted [a, b, c, d]) = dec_nat (unat a)"
    "\<exists>t. dropWhile is_hex (dotted [a, b, c, d]) = CHR ''.'' # t"
    using digits_are_hex [of "dec_nat (unat a)" "CHR ''.''"] dec_nat_digits [of "unat a"]
    by (subst dot, simp add: is_hex_def is_digit_def lower_char_def char_code_def)+
  obtain t where t: "dropWhile is_hex (dotted [a, b, c, d]) = CHR ''.'' # t" using hx(2) by blast
  have la: "length (dec_nat (unat a)) \<le> 4" "dec_nat (unat a) \<noteq> []"
    using length_dec_nat [of "unat a"] unat_byte [of a] dec_nat_digits [of "unat a"] by linarith+
  obtain e ds where e: "dotted [a, b, c, d] = e # ds" "is_digit e"
    using la(2) dec_nat_digits [of "unat a"] by (cases "dec_nat (unat a)") (auto simp: dotted_def)
  have ne: "e \<noteq> CHR '':''" using e(2) not_digit by auto
  have f: "takeWhile is_hex (''ffff:'' @ x) = ''ffff''" "dropWhile is_hex (''ffff:'' @ x) = CHR '':'' # x" for x
    by (simp_all add: is_hex_def is_digit_def lower_char_def char_code_def)
  have pc: "CHR ''%'' \<notin> set (dotted [a, b, c, d])" using dotted_chars not_digit by fastforce
  have g7: "v6_groups 7 (Some 0) [255, 255] (dotted [a, b, c, d]) = Some ([255, 255, a, b, c, d], Some 0)"
    using la by (simp add: eval_nat_numeral(3) [of num.One] hx(1) t parse_v4_dotted numeral_eq_Suc)
  have hf: "is_hex CHR ''f''" "\<not> is_hex CHR '':''"
    by (simp_all add: is_hex_def is_digit_def lower_char_def char_code_def)
  have hv: "put16 (word_of_nat (hex_val ''ffff'')) = [255, 255]"
    by (simp add: hex_val_def is_digit_def char_code_def lower_char_def put16_def)
  have "v6_groups 8 (Some 0) [] (''ffff:'' @ dotted [a, b, c, d]) = Some ([255, 255, a, b, c, d], Some 0)"
    using g7 ne by (simp add: f hf hv e(1) v6_groups.simps(2) [of 7, simplified] del: v6_groups.simps)
  then have "parse_v6 (''::ffff:'' @ dotted [a, b, c, d]) = Some (v4InV6Prefix @ [a, b, c, d])"
    by (simp add: parse_v6_def Let_def v4InV6Prefix_def)
  then show ?thesis using pc by (simp add: parse_addr_def)
qed

text \<open>
  On every IPv4-mapped IPv6 network the address converts to four bytes, the mask does not, and
  indexing the nil mask is out of range.
\<close>

lemma IPv4Hosts_mapped:
  assumes "96 \<le> n" and "n \<le> 128"
  shows "IPv4Hosts (''::ffff:'' @ dotted [a, b, c, d] @ ''/'' @ dec_nat n) m = Some Panicked"
proof -
  have t: "takeWhile (\<lambda>c. c \<noteq> CHR ''/'') ((''::ffff:'' @ dotted [a, b, c, d]) @ CHR ''/'' # dec_nat n)
      = ''::ffff:'' @ dotted [a, b, c, d]"
    by (rule takeWhile_slash) (use dotted_chars [of _ a b c d] not_digit in auto)
  have "[0..<16] = [0..<12] @ [12, 13, 14, 15 :: nat]" by code_simp
  moreover have "map (mask_byte n) [0..<12] = replicate 12 255"
    using assms(1) by (intro nth_equalityI) (simp_all add: mask_byte_def)
  ultimately have mask: "CIDRMask n 128 = replicate 12 255 @ map (mask_byte n) [12, 13, 14, 15]"
    by (simp add: CIDRMask_def)
  let ?net = "\<lparr>net_IP = ip_Mask (v4InV6Prefix @ [a, b, c, d]) (CIDRMask n 128), net_Mask = CIDRMask n 128\<rparr>"
  have "ParseCIDR (''::ffff:'' @ dotted [a, b, c, d] @ ''/'' @ dec_nat n) = Some ?net"
    using assms(2) dec_nat_digits [of n] t parse_addr_mapped [of a b c d]
    by (simp add: ParseCIDR_def Let_def v4InV6Prefix_def)
  moreover have "length (net_IP ?net) = 16" "To4 (net_IP ?net) \<noteq> None"
    unfolding mask by (simp_all add: ip_Mask_def To4_def v4InV6Prefix_def numeral_eq_Suc)
  ultimately show ?thesis using IPv4Hosts_panics_iff by blast
qed

end
