(* ===== verification/Telnet.thy ===== *)
theory Telnet
  imports Base64
begin

text \<open>
  \<open>internal/collector/discovery/telnet.go\<close>: the option filter and the login dialogue. A connection
  is the script of what its reads will return, the lines and refusals written so far, and which
  write attempts fail. A script that is used up stands for a read that runs into the deadline set
  before it, which every read has.
\<close>

definition IAC :: byte where "IAC = 255"
definition DONT :: byte where "DONT = 254"
definition DO_opt :: byte where "DO_opt = 253"
definition WONT :: byte where "WONT = 252"
definition WILL :: byte where "WILL = 251"
definition SB :: byte where "SB = 250"
definition SE :: byte where "SE = 240"

lemmas telnet_codes = IAC_def DONT_def DO_opt_def WONT_def WILL_def SB_def SE_def

subsection \<open>The option filter\<close>

text \<open>Skipping a subnegotiation: past the next \<open>IAC SE\<close>, or to the end of the chunk.\<close>

fun skip_sub :: "byte list \<Rightarrow> byte list" where
  "skip_sub (a # b # rest) = (if a = IAC \<and> b = SE then rest else skip_sub (b # rest))"
| "skip_sub _ = []"

lemma length_skip_sub: "length (skip_sub xs) \<le> length xs"
  by (induction xs rule: skip_sub.induct) auto

definition refusal :: "byte \<Rightarrow> byte \<Rightarrow> byte list list" where
  "refusal cmd opt =
     (let reply = (if cmd = DO_opt then WONT else if cmd = WILL then DONT else 0) in
      if reply \<noteq> 0 then [[IAC, reply, opt]] else [])"

text \<open>The bytes kept and the refusals written for one chunk.\<close>

function stripIAC :: "byte list \<Rightarrow> byte list \<times> byte list list" where
  "stripIAC [] = ([], [])"
| "stripIAC (b # rest) =
     (if b \<noteq> IAC then (let (out, w) = stripIAC rest in (b # out, w))
      else case rest of
        [] \<Rightarrow> ([], [])
      | cmd # rest2 \<Rightarrow>
          if cmd = DO_opt \<or> cmd = DONT \<or> cmd = WILL \<or> cmd = WONT then
            (case rest2 of
               [] \<Rightarrow> ([], [])
             | opt # rest3 \<Rightarrow> (let (out, w) = stripIAC rest3 in (out, refusal cmd opt @ w)))
          else if cmd = SB then stripIAC (skip_sub rest2)
          else stripIAC rest2)"
  by pat_completeness auto
termination
  by (relation "measure length") (auto simp: le_imp_less_Suc length_skip_sub le_trans [OF length_skip_sub] less_Suc_eq_le)

declare stripIAC.simps(2) [simp del]

lemma codes_differ [simp]:
  "DO_opt \<noteq> IAC" "SB \<noteq> IAC" "SE \<noteq> IAC" "WONT \<noteq> 0" "DONT \<noteq> 0" "WILL \<noteq> DO_opt"
  "DONT \<noteq> DO_opt" "WONT \<noteq> DO_opt" "DONT \<noteq> WILL" "WONT \<noteq> WILL" "SB \<notin> {DO_opt, DONT, WILL, WONT}"
  by (simp_all add: telnet_codes)

lemma refusal_simps [simp]:
  "refusal DO_opt opt = [[IAC, WONT, opt]]" "refusal WILL opt = [[IAC, DONT, opt]]"
  "refusal DONT opt = []" "refusal WONT opt = []"
  by (simp_all add: refusal_def)

lemma stripIAC_data [simp]: "b \<noteq> IAC \<Longrightarrow> stripIAC (b # rest) = (b # fst (stripIAC rest), snd (stripIAC rest))"
  by (subst stripIAC.simps) (simp add: case_prod_beta Let_def)

lemma stripIAC_option [simp]:
  "cmd \<in> {DO_opt, DONT, WILL, WONT} \<Longrightarrow>
    stripIAC (IAC # cmd # opt # rest) = (fst (stripIAC rest), refusal cmd opt @ snd (stripIAC rest))"
  by (subst stripIAC.simps) (auto simp: case_prod_beta Let_def)

lemma stripIAC_sub [simp]: "stripIAC (IAC # SB # rest) = stripIAC (skip_sub rest)"
  by (subst stripIAC.simps) (simp add: telnet_codes)

lemma stripIAC_command [simp]:
  "cmd \<notin> {DO_opt, DONT, WILL, WONT, SB} \<Longrightarrow> stripIAC (IAC # cmd # rest) = stripIAC rest"
  by (subst stripIAC.simps) auto

lemma stripIAC_cut [simp]: "stripIAC [IAC] = ([], [])" "cmd \<in> {DO_opt, DONT, WILL, WONT} \<Longrightarrow> stripIAC [IAC, cmd] = ([], [])"
  by (subst stripIAC.simps; auto)+

lemma stripIAC_clean: "IAC \<notin> set (fst (stripIAC xs))"
proof (induction "length xs" arbitrary: xs rule: less_induct)
  case less
  show ?case
  proof (cases xs)
    case (Cons b rest)
    note IH = less(1) [unfolded Cons]
    show ?thesis
    proof (cases "b = IAC")
      case True
      show ?thesis
      proof (cases rest)
        case Nil then show ?thesis using Cons True by simp
      next
        case (Cons cmd rest2)
        have s: "length (skip_sub rest2) < Suc (length rest)" using length_skip_sub [of rest2] Cons by simp
        show ?thesis unfolding \<open>xs = b # rest\<close> True Cons
          using IH [of rest2] IH [of "skip_sub rest2"] IH [of "drop 1 rest2"] s Cons
          by (cases "cmd = SB"; cases "cmd \<in> {DO_opt, DONT, WILL, WONT}"; cases rest2) auto
      qed
    next
      case False then show ?thesis using IH [of rest] Cons by auto
    qed
  qed simp
qed

text \<open>The specification: the units of a telnet stream and what is to happen with each.\<close>

datatype telnet_unit = Plain byte | Option byte byte | Sub "byte list" | Command byte

fun unit_ok :: "telnet_unit \<Rightarrow> bool" where
  "unit_ok (Plain b) = (b \<noteq> IAC)"
| "unit_ok (Option cmd opt) = (cmd \<in> {DO_opt, DONT, WILL, WONT})"
| "unit_ok (Sub payload) = (IAC \<notin> set payload)"
| "unit_ok (Command cmd) = (cmd \<notin> {DO_opt, DONT, WILL, WONT, SB})"

fun unit_bytes :: "telnet_unit \<Rightarrow> byte list" where
  "unit_bytes (Plain b) = [b]"
| "unit_bytes (Option cmd opt) = [IAC, cmd, opt]"
| "unit_bytes (Sub payload) = IAC # SB # payload @ [IAC, SE]"
| "unit_bytes (Command cmd) = [IAC, cmd]"

fun unit_data :: "telnet_unit \<Rightarrow> byte list" where
  "unit_data (Plain b) = [b]"
| "unit_data _ = []"

fun unit_reply :: "telnet_unit \<Rightarrow> byte list list" where
  "unit_reply (Option cmd opt) =
     (if cmd = DO_opt then [[IAC, WONT, opt]] else if cmd = WILL then [[IAC, DONT, opt]] else [])"
| "unit_reply _ = []"

lemma skip_sub_payload: "IAC \<notin> set payload \<Longrightarrow> skip_sub (payload @ IAC # SE # rest) = rest"
proof (induction payload)
  case (Cons a p)
  then show ?case by (cases p) auto
qed simp

lemma stripIAC_unit:
  assumes "unit_ok u"
  shows "stripIAC (unit_bytes u @ rest) = (unit_data u @ fst (stripIAC rest), unit_reply u @ snd (stripIAC rest))"
  using assms
  by (cases u) (auto simp: skip_sub_payload)

text \<open>On a stream of complete telnet units stripIAC keeps exactly the data bytes in order and
  answers exactly the DO and WILL requests, each with the refusal of its option; commands and
  subnegotiations disappear.\<close>

theorem telnet_filter_exact:
  assumes "\<forall>u \<in> set us. unit_ok u"
  shows "stripIAC (concat (map unit_bytes us)) = (concat (map unit_data us), concat (map unit_reply us))"
  using assms by (induction us) (simp_all add: stripIAC_unit)

theorem telnet_filter_exact_witness:
  "stripIAC [255, 253, 24, 108, 111, 255, 250, 24, 1, 255, 240, 103, 255, 251, 1, 255, 241] =
     ([108, 111, 103], [[255, 252, 24], [255, 254, 1]])"
  using telnet_filter_exact [of "[Option 253 24, Plain 108, Plain 111, Sub [24, 1], Plain 103, Option 251 1, Command 241]"]
  by (simp add: telnet_codes)

text \<open>The filter has no memory between two reads: when a read ends inside a request, the rest of
  the request is taken for text of the device and the request is never answered.\<close>

theorem split_request_leaks:
  assumes "opt \<noteq> IAC"
  shows "stripIAC [IAC, DO_opt, opt] = ([], [[IAC, WONT, opt]])"
    and "fst (stripIAC [IAC]) @ fst (stripIAC [DO_opt, opt]) = [DO_opt, opt]"
    and "snd (stripIAC [IAC]) @ snd (stripIAC [DO_opt, opt]) = []"
proof -
  show "stripIAC [IAC, DO_opt, opt] = ([], [[IAC, WONT, opt]])"
    by simp
  show "fst (stripIAC [IAC]) @ fst (stripIAC [DO_opt, opt]) = [DO_opt, opt]"
    and "snd (stripIAC [IAC]) @ snd (stripIAC [DO_opt, opt]) = []"
    using assms by simp_all
qed

subsection \<open>The dialogue\<close>

record telnet_cred =
  tc_Username :: string
  tc_Password :: string
  tc_EnablePass :: string
  tc_LoginPrompt :: string
  tc_PassPrompt :: string
  tc_EnablePrompt :: string

text \<open>One return of \<open>conn.Read\<close>: the bytes, the error, and whether the deadline has passed by then.\<close>

record telnet_read =
  rd_bytes :: "byte list"
  rd_err :: "string option"
  rd_late :: bool

datatype telnet_write = Refusal "byte list" | Sent string

record telnet_conn =
  script :: "telnet_read list"
  written :: "telnet_write list"
  attempts :: nat

type_synonym write_faults = "nat \<Rightarrow> string option"

definition conn_write :: "write_faults \<Rightarrow> telnet_write \<Rightarrow> telnet_conn \<Rightarrow> string option \<times> telnet_conn" where
  "conn_write faulty w c =
     (let c' = c\<lparr>attempts := attempts c + 1\<rparr> in
      case faulty (attempts c) of None \<Rightarrow> (None, c'\<lparr>written := written c' @ [w]\<rparr>) | Some e \<Rightarrow> (Some e, c'))"

definition write_refusals :: "write_faults \<Rightarrow> byte list list \<Rightarrow> telnet_conn \<Rightarrow> telnet_conn" where
  "write_refusals faulty ws c = foldl (\<lambda>c w. snd (conn_write faulty (Refusal w) c)) c ws"

text \<open>\<open>telnetReadUntilAny\<close>: the text read, the marker found, the error.\<close>

fun read_until_any :: "write_faults \<Rightarrow> string list \<Rightarrow> string \<Rightarrow> telnet_read list \<Rightarrow> telnet_conn \<Rightarrow>
    (string \<times> string \<times> string option) \<times> telnet_conn" where
  "read_until_any faulty markers buf [] c = ((buf, [], Some ''i/o timeout''), c\<lparr>script := []\<rparr>)"
| "read_until_any faulty markers buf (r # rs) c =
     (let (out, refusals) = stripIAC (rd_bytes r); buf' = buf @ string_of out;
          c' = write_refusals faulty refusals (c\<lparr>script := rs\<rparr>) in
      case (if rd_bytes r = [] then None else find (contains buf') markers) of
        Some m \<Rightarrow> ((buf', m, None), c')
      | None \<Rightarrow>
          if rd_err r \<noteq> None then ((buf', [], rd_err r), c')
          else if rd_late r then ((buf', [], Some ''telnet: read deadline exceeded''), c')
          else read_until_any faulty markers buf' rs c')"

definition telnetReadUntilAny :: "write_faults \<Rightarrow> string list \<Rightarrow> telnet_conn \<Rightarrow>
    (string \<times> string \<times> string option) \<times> telnet_conn" where
  "telnetReadUntilAny faulty markers c = read_until_any faulty markers [] (script c) c"

definition telnetExpect :: "write_faults \<Rightarrow> string \<Rightarrow> telnet_conn \<Rightarrow> string option \<times> telnet_conn" where
  "telnetExpect faulty marker c = (let ((_, _, err), c') = telnetReadUntilAny faulty [marker] c in (err, c'))"

definition defaultStr :: "string \<Rightarrow> string \<Rightarrow> string" where
  "defaultStr v d = (if v = [] then d else v)"

definition crlf :: string where "crlf = [CHR 0x0D, CHR 0x0A]"

text \<open>
  A step of the dialogue either goes on or ends it with an error. \<open>bind_step\<close> chains them: \<open>Inl e\<close>
  is \<open>return ..., err\<close>.
\<close>

type_synonym 'a dialogue = "telnet_conn \<Rightarrow> (string + 'a) \<times> telnet_conn"

definition bind_step :: "'a dialogue \<Rightarrow> ('a \<Rightarrow> 'b dialogue) \<Rightarrow> 'b dialogue" where
  "bind_step m k c = (case m c of (Inl e, c') \<Rightarrow> (Inl e, c') | (Inr x, c') \<Rightarrow> k x c')"

definition expect :: "write_faults \<Rightarrow> string \<Rightarrow> unit dialogue" where
  "expect faulty marker c = (case telnetExpect faulty marker c of (Some e, c') \<Rightarrow> (Inl e, c') | (None, c') \<Rightarrow> (Inr (), c'))"

definition send_line :: "write_faults \<Rightarrow> string \<Rightarrow> unit dialogue" where
  "send_line faulty line c =
     (case conn_write faulty (Sent (line @ crlf)) c of (Some e, c') \<Rightarrow> (Inl e, c') | (None, c') \<Rightarrow> (Inr (), c'))"

definition read_prompt :: "write_faults \<Rightarrow> string list \<Rightarrow> (string \<times> string) dialogue" where
  "read_prompt faulty markers c = (case telnetReadUntilAny faulty markers c of
      ((out, m, Some e), c') \<Rightarrow> (Inl e, c') | ((out, m, None), c') \<Rightarrow> (Inr (out, m), c'))"

text \<open>The last read: the end of the stream counts as the end of the output.\<close>

definition read_body :: "write_faults \<Rightarrow> string list \<Rightarrow> string dialogue" where
  "read_body faulty markers c = (case telnetReadUntilAny faulty markers c of
      ((body, m, Some e), c') \<Rightarrow> (if e = ''EOF'' then Inr body else Inl e, c') | ((body, m, None), c') \<Rightarrow> (Inr body, c'))"

definition telnet_login :: "write_faults \<Rightarrow> telnet_cred \<Rightarrow> (string \<times> string) dialogue" where
  "telnet_login faulty cred =
     bind_step (expect faulty (defaultStr (tc_LoginPrompt cred) ''ogin:'')) (\<lambda>_.
     bind_step (send_line faulty (tc_Username cred)) (\<lambda>_.
     bind_step (expect faulty (defaultStr (tc_PassPrompt cred) ''assword:'')) (\<lambda>_.
     bind_step (send_line faulty (tc_Password cred)) (\<lambda>_.
     read_prompt faulty [''>'', ''#'', ''$'']))))"

definition telnet_enable :: "write_faults \<Rightarrow> telnet_cred \<Rightarrow> unit dialogue" where
  "telnet_enable faulty cred =
     bind_step (send_line faulty ''enable'') (\<lambda>_.
     bind_step (expect faulty (defaultStr (tc_PassPrompt cred) ''assword:'')) (\<lambda>_.
     bind_step (send_line faulty (tc_EnablePass cred)) (\<lambda>_.
     expect faulty (defaultStr (tc_EnablePrompt cred) ''#''))))"

definition TelnetRun :: "string + telnet_conn \<Rightarrow> write_faults \<Rightarrow> telnet_cred \<Rightarrow> string \<Rightarrow>
    (string + string) \<times> telnet_conn option" where
  "TelnetRun dialled faulty cred cmd =
     (case dialled of
        Inl e \<Rightarrow> (Inl e, None)
      | Inr conn \<Rightarrow>
          let (r, c) = bind_step (telnet_login faulty cred) (\<lambda>(out, prompt).
            bind_step (if prompt = ''>'' \<and> tc_EnablePass cred \<noteq> [] then telnet_enable faulty cred else (\<lambda>c. (Inr (), c))) (\<lambda>_.
            bind_step (send_line faulty cmd) (\<lambda>_.
            read_body faulty [defaultStr (tc_EnablePrompt cred) ''#'', ''$ '']))) conn
          in (r, Some c))"

subsection \<open>What is sent, and when\<close>

definition lines_sent :: "telnet_conn \<Rightarrow> string list" where
  "lines_sent c = concat (map (\<lambda>w. case w of Sent s \<Rightarrow> [s] | Refusal _ \<Rightarrow> []) (written c))"

lemma lines_sent_simps [simp]:
  "lines_sent (c\<lparr>script := rs\<rparr>) = lines_sent c" "lines_sent (c\<lparr>attempts := n\<rparr>) = lines_sent c"
  "lines_sent (snd (conn_write faulty (Refusal w) c)) = lines_sent c"
  by (simp_all add: lines_sent_def conn_write_def Let_def split: option.split)

lemma lines_sent_refusals [simp]: "lines_sent (write_refusals faulty ws c) = lines_sent c"
  unfolding write_refusals_def by (induction ws arbitrary: c) simp_all

lemma lines_sent_read [simp]: "lines_sent (snd (read_until_any faulty ms buf rs c)) = lines_sent c"
  by (induction faulty ms buf rs c rule: read_until_any.induct)
    (auto simp: Let_def split: option.split prod.split)

text \<open>
  The contract of the dialogue's steps: a step appends a prefix of the lines it is meant to send,
  all of them when it succeeds.
\<close>

definition says :: "'a dialogue \<Rightarrow> string list \<Rightarrow> bool" where
  "says m ls \<longleftrightarrow> (\<forall>c. case m c of
     (Inl _, c') \<Rightarrow> \<exists>k. lines_sent c' = lines_sent c @ take k ls
   | (Inr _, c') \<Rightarrow> lines_sent c' = lines_sent c @ ls)"

lemma saysD:
  "says m ls \<Longrightarrow> m c = (Inl e, c') \<Longrightarrow> \<exists>k. lines_sent c' = lines_sent c @ take k ls"
  "says m ls \<Longrightarrow> m c = (Inr x, c') \<Longrightarrow> lines_sent c' = lines_sent c @ ls"
  unfolding says_def by (drule spec [of _ c], simp)+

lemma says_bind:
  assumes "says m ls" and "\<And>x. says (k x) ls'"
  shows "says (bind_step m k) (ls @ ls')"
  unfolding says_def
proof
  fix c
  obtain r c1 where m: "m c = (r, c1)" by (cases "m c")
  show "case bind_step m k c of (Inl _, c') \<Rightarrow> \<exists>n. lines_sent c' = lines_sent c @ take n (ls @ ls')
      | (Inr _, c') \<Rightarrow> lines_sent c' = lines_sent c @ ls @ ls'"
  proof (cases r)
    case (Inl e)
    then obtain n where "lines_sent c1 = lines_sent c @ take n ls"
      using saysD(1) [OF assms(1)] m by blast
    then have "lines_sent c1 = lines_sent c @ take (min n (length ls)) (ls @ ls')" by (simp add: min_def)
    then show ?thesis by (auto simp: bind_step_def m Inl simp del: take_append)
  next
    case (Inr x)
    then have l: "lines_sent c1 = lines_sent c @ ls" using saysD(2) [OF assms(1)] m by blast
    obtain r' c2 where k: "k x c1 = (r', c2)" by (cases "k x c1")
    show ?thesis
    proof (cases r')
      case (Inl e)
      then obtain n where "lines_sent c2 = lines_sent c1 @ take n ls'"
        using saysD(1) [OF assms(2)] k by blast
      then have "lines_sent c2 = lines_sent c @ take (length ls + n) (ls @ ls')" using l by simp
      then show ?thesis by (auto simp: bind_step_def m k Inr Inl simp del: take_append)
    next
      case (Inr y)
      then have "lines_sent c2 = lines_sent c1 @ ls'" using saysD(2) [OF assms(2)] k by blast
      then show ?thesis using l by (simp add: bind_step_def m k \<open>r = Inr x\<close> Inr)
    qed
  qed
qed

lemma says_nothing: "says (\<lambda>c. (Inr x, c)) []"
  by (simp add: says_def)

lemma says_send_line: "says (send_line faulty line) [line @ crlf]"
  by (auto simp: says_def send_line_def conn_write_def lines_sent_def Let_def intro: exI [of _ 0] split: option.split)

lemma lines_sent_after: "read_until_any faulty ms buf rs c = (r, c') \<Longrightarrow> lines_sent c' = lines_sent c"
  by (metis lines_sent_read snd_conv)

lemma says_reads: "says (expect faulty m) []" "says (read_prompt faulty ms) []" "says (read_body faulty ms) []"
  by (auto simp: says_def expect_def read_prompt_def read_body_def telnetExpect_def telnetReadUntilAny_def Let_def
      dest!: lines_sent_after split: prod.split option.split)

lemmas says_rules = says_bind says_send_line says_reads says_nothing

text \<open>The two dialogues: without and with the privileged mode.\<close>

definition plain_lines :: "telnet_cred \<Rightarrow> string \<Rightarrow> string list" where
  "plain_lines cred cmd = map (\<lambda>l. l @ crlf) [tc_Username cred, tc_Password cred, cmd]"

definition enable_lines :: "telnet_cred \<Rightarrow> string \<Rightarrow> string list" where
  "enable_lines cred cmd = map (\<lambda>l. l @ crlf) [tc_Username cred, tc_Password cred, ''enable'', tc_EnablePass cred, cmd]"

lemma says_login: "says (telnet_login faulty cred) [tc_Username cred @ crlf, tc_Password cred @ crlf]"
proof -
  have "says (telnet_login faulty cred) ([] @ [tc_Username cred @ crlf] @ [] @ [tc_Password cred @ crlf] @ [])"
    unfolding telnet_login_def by (intro says_rules)
  then show ?thesis by simp
qed

lemma says_enable: "says (telnet_enable faulty cred) [''enable'' @ crlf, tc_EnablePass cred @ crlf]"
proof -
  have "says (telnet_enable faulty cred) ([''enable'' @ crlf] @ [] @ [tc_EnablePass cred @ crlf] @ [])"
    unfolding telnet_enable_def by (intro says_rules)
  then show ?thesis by simp
qed

lemma says_command:
  "says (bind_step (send_line faulty cmd) (\<lambda>_. read_body faulty ms)) [cmd @ crlf]"
  using says_bind [OF says_send_line says_reads(3)] by simp

text \<open>Whatever the device sends and whichever writes fail, TelnetRun sends a beginning of one of
  two dialogues: user, password and command, or - only with an enable password - user, password,
  enable, enable password and command. When it reports success it has sent one of them in full.\<close>

theorem telnet_dialogue:
  "case TelnetRun (Inr conn) faulty cred cmd of
     (r, Some c) \<Rightarrow> \<exists>k ls. lines_sent c = lines_sent conn @ take k ls
       \<and> (ls = plain_lines cred cmd \<or> ls = enable_lines cred cmd \<and> tc_EnablePass cred \<noteq> [])
       \<and> (\<forall>body. r = Inr body \<longrightarrow> length ls \<le> k)
   | (r, None) \<Rightarrow> False"
proof -
  let ?login = "[tc_Username cred @ crlf, tc_Password cred @ crlf]"
  let ?rest = "\<lambda>(out :: string, prompt).
      bind_step (if prompt = ''>'' \<and> tc_EnablePass cred \<noteq> [] then telnet_enable faulty cred else (\<lambda>c. (Inr (), c))) (\<lambda>_.
      bind_step (send_line faulty cmd) (\<lambda>_. read_body faulty [defaultStr (tc_EnablePrompt cred) ''#'', ''$ '']))"
  let ?ls = "\<lambda>prompt. if prompt = ''>'' \<and> tc_EnablePass cred \<noteq> [] then enable_lines cred cmd else plain_lines cred cmd"
  have rest: "says (?rest (out, prompt)) (drop 2 (?ls prompt))" for out prompt
    using says_bind [OF says_enable says_command] says_bind [OF says_nothing says_command]
    by (auto simp: enable_lines_def plain_lines_def)
  obtain r1 c1 where login: "telnet_login faulty cred conn = (r1, c1)" by (cases "telnet_login faulty cred conn")
  show ?thesis
  proof (cases r1)
    case (Inl e)
    then obtain k where "lines_sent c1 = lines_sent conn @ take k ?login" using saysD(1) [OF says_login] login by blast
    then have "lines_sent c1 = lines_sent conn @ take (min k 2) (plain_lines cred cmd)"
      by (simp add: plain_lines_def take_Cons' min_def)
    then show ?thesis by (auto simp: TelnetRun_def bind_step_def login Inl)
  next
    case (Inr op)
    obtain out prompt where op: "op = (out, prompt)" by (cases op)
    have l1: "lines_sent c1 = lines_sent conn @ ?login" using saysD(2) [OF says_login] login Inr by blast
    obtain r2 c2 where run: "?rest (out, prompt) c1 = (r2, c2)" by (cases "?rest (out, prompt) c1")
    have t: "TelnetRun (Inr conn) faulty cred cmd = (r2, Some c2)"
      using run by (simp add: TelnetRun_def bind_step_def [of "telnet_login faulty cred"] login Inr op)
    have ls: "?ls prompt = ?login @ drop 2 (?ls prompt)" by (simp add: enable_lines_def plain_lines_def)
    show ?thesis
    proof (cases r2)
      case (Inl e)
      then obtain k where "lines_sent c2 = lines_sent c1 @ take k (drop 2 (?ls prompt))"
        using saysD(1) [OF rest] run by blast
      then have "lines_sent c2 = lines_sent conn @ take (2 + k) (?ls prompt)" using l1 by (subst ls) simp
      then show ?thesis unfolding t using Inl by (auto split: if_splits)
    next
      case (Inr body)
      then have "lines_sent c2 = lines_sent c1 @ drop 2 (?ls prompt)" using saysD(2) [OF rest] run by blast
      then have "lines_sent c2 = lines_sent conn @ take (length (?ls prompt)) (?ls prompt)"
        using l1 ls by simp
      then show ?thesis unfolding t prod.case option.case
        by (intro exI [of _ "length (?ls prompt)"] exI [of _ "?ls prompt"]) auto
    qed
  qed
qed

end
