(* ===== verification/Go_Json.thy ===== *)
theory Go_Json
  imports Sonar_Prelude
begin

text \<open>
  What the program uses of \<open>encoding/json\<close> on texts it does not control: the decoder, from a text
  to a syntax tree, and \<open>Unmarshal\<close> into a \<open>map[string]string\<close>. A text is a list of bytes that
  form valid UTF-8; the nesting limit of 10000 levels is not modelled.
\<close>

datatype json = JNull | JBool bool | JNumber string | JString string | JArray "json list" | JObject "(string \<times> json) list"

definition json_space :: "char \<Rightarrow> bool" where
  "json_space c \<longleftrightarrow> c \<in> {CHR '' '', CHR 0x09, CHR 0x0A, CHR 0x0D}"

definition skip_json_space :: "string \<Rightarrow> string" where
  "skip_json_space s = dropWhile json_space s"

definition nibble :: "char \<Rightarrow> nat option" where
  "nibble c = (let n = char_code c in
     if 48 \<le> n \<and> n \<le> 57 then Some (n - 48) else if 97 \<le> n \<and> n \<le> 102 then Some (n - 87)
     else if 65 \<le> n \<and> n \<le> 70 then Some (n - 55) else None)"

fun hex4 :: "string \<Rightarrow> (nat \<times> string) option" where
  "hex4 (a # b # c # d # s) = (case (nibble a, nibble b, nibble c, nibble d) of
      (Some w, Some x, Some y, Some z) \<Rightarrow> Some (((w * 16 + x) * 16 + y) * 16 + z, s) | _ \<Rightarrow> None)"
| "hex4 _ = None"

definition utf8 :: "nat \<Rightarrow> string" where
  "utf8 r = map char_of
     (if r < 0x80 then [r]
      else if r < 0x800 then [0xC0 + r div 64, 0x80 + r mod 64]
      else if r < 0x10000 then [0xE0 + r div 4096, 0x80 + r div 64 mod 64, 0x80 + r mod 64]
      else [0xF0 + r div 262144, 0x80 + r div 4096 mod 64, 0x80 + r div 64 mod 64, 0x80 + r mod 64])"

text \<open>A \<open>\u\<close> escape: a surrogate pair is one rune, a lone surrogate the replacement character.\<close>

definition unicode_escape :: "nat \<Rightarrow> string \<Rightarrow> string \<times> string" where
  "unicode_escape r s =
     (if r < 0xD800 \<or> 0xDFFF < r then (utf8 r, s)
      else case s of
        c1 # c2 # t \<Rightarrow>
          (case (if c1 = CHR 0x5C \<and> c2 = CHR ''u'' \<and> r < 0xDC00 then hex4 t else None) of
             Some (r2, t2) \<Rightarrow> if 0xDC00 \<le> r2 \<and> r2 \<le> 0xDFFF
               then (utf8 ((r - 0xD800) * 1024 + (r2 - 0xDC00) + 0x10000), t2) else (utf8 0xFFFD, s)
           | None \<Rightarrow> (utf8 0xFFFD, s))
      | _ \<Rightarrow> (utf8 0xFFFD, s))"

definition simple_escape :: "char \<Rightarrow> char option" where
  "simple_escape c = map_of [(CHR 0x22, CHR 0x22), (CHR 0x5C, CHR 0x5C), (CHR ''/'', CHR ''/''), (CHR ''b'', CHR 0x08),
     (CHR ''f'', CHR 0x0C), (CHR ''n'', CHR 0x0A), (CHR ''r'', CHR 0x0D), (CHR ''t'', CHR 0x09)] c"

text \<open>The text after an opening quote: the string and what follows the closing quote.\<close>

fun json_string :: "nat \<Rightarrow> string \<Rightarrow> string \<Rightarrow> (string \<times> string) option" where
  "json_string 0 acc s = None"
| "json_string (Suc f) acc s =
     (case s of
        [] \<Rightarrow> None
      | c # t \<Rightarrow>
          if c = CHR 0x22 then Some (acc, t)
          else if char_code c < 32 then None
          else if c \<noteq> CHR 0x5C then json_string f (acc @ [c]) t
          else case t of
            [] \<Rightarrow> None
          | e # t2 \<Rightarrow>
              if e = CHR ''u'' then
                (case hex4 t2 of None \<Rightarrow> None
                 | Some (r, t3) \<Rightarrow> (let (out, t4) = unicode_escape r t3 in json_string f (acc @ out) t4))
              else case simple_escape e of None \<Rightarrow> None | Some x \<Rightarrow> json_string f (acc @ [x]) t2)"

text \<open>A number literal: sign, integer part without leading zero, fraction, exponent.\<close>

definition digits_of :: "string \<Rightarrow> (string \<times> string) option" where
  "digits_of s = (let d = takeWhile is_digit s in if d = [] then None else Some (d, dropWhile is_digit s))"

definition json_number :: "string \<Rightarrow> (string \<times> string) option" where
  "json_number s =
     (let (sign_part, s1) = (case s of c # t \<Rightarrow> if c = CHR ''-'' then ([c], t) else ([], s) | [] \<Rightarrow> ([], s)) in
      case digits_of s1 of
        None \<Rightarrow> None
      | Some (d, s2) \<Rightarrow>
          let (d, s2) = (if hd d = CHR ''0'' then ([CHR ''0''], drop 1 s1) else (d, s2));
              frac = (case s2 of c # t \<Rightarrow> if c = CHR ''.'' then map_option (\<lambda>(f, u). (c # f, u)) (digits_of t) else Some ([], s2)
                      | [] \<Rightarrow> Some ([], s2))
          in (case frac of
                None \<Rightarrow> None
              | Some (f, s3) \<Rightarrow>
                  (case s3 of
                     c # t \<Rightarrow>
                       if lower_char c = CHR ''e'' then
                         (let (g, u) = (case t of x # v \<Rightarrow> if x = CHR ''+'' \<or> x = CHR ''-'' then ([x], v) else ([], t) | [] \<Rightarrow> ([], t)) in
                          map_option (\<lambda>(d', u'). (sign_part @ d @ f @ c # g @ d', u')) (digits_of u))
                       else Some (sign_part @ d @ f, s3)
                   | [] \<Rightarrow> Some (sign_part @ d @ f, s3))))"

definition literal :: "string \<Rightarrow> json \<Rightarrow> string \<Rightarrow> (json \<times> string) option" where
  "literal word v s = (if has_prefix s word then Some (v, drop (length word) s) else None)"

text \<open>
  The decoder, one unit of fuel per call. \<open>elements\<close> reads the values of an array after a bracket
  or comma, \<open>members\<close> the pairs of an object.
\<close>

fun json_value :: "nat \<Rightarrow> string \<Rightarrow> (json \<times> string) option"
  and elements :: "nat \<Rightarrow> string \<Rightarrow> (json list \<times> string) option"
  and members :: "nat \<Rightarrow> string \<Rightarrow> ((string \<times> json) list \<times> string) option" where
  "json_value 0 s = None"
| "json_value (Suc f) s0 =
     (let s = skip_json_space s0 in
      case s of
        [] \<Rightarrow> None
      | c # t \<Rightarrow>
          if c = CHR 0x22 then map_option (\<lambda>(x, u). (JString x, u)) (json_string (length t + 1) [] t)
          else if c = CHR ''['' then
            (if take 1 (skip_json_space t) = '']'' then Some (JArray [], drop 1 (skip_json_space t))
             else map_option (\<lambda>(vs, u). (JArray vs, u)) (elements f t))
          else if c = CHR ''{'' then
            (if take 1 (skip_json_space t) = ''}'' then Some (JObject [], drop 1 (skip_json_space t))
             else map_option (\<lambda>(kvs, u). (JObject kvs, u)) (members f t))
          else if c = CHR ''n'' then literal ''null'' JNull s
          else if c = CHR ''t'' then literal ''true'' (JBool True) s
          else if c = CHR ''f'' then literal ''false'' (JBool False) s
          else map_option (\<lambda>(n, u). (JNumber n, u)) (json_number s))"
| "elements 0 s = None"
| "elements (Suc f) s =
     (case json_value f s of
        None \<Rightarrow> None
      | Some (v, t) \<Rightarrow>
          (case skip_json_space t of
             [] \<Rightarrow> None
           | c # u \<Rightarrow> if c = CHR '']'' then Some ([v], u)
               else if c = CHR '','' then map_option (\<lambda>(vs, w). (v # vs, w)) (elements f u) else None))"
| "members 0 s = None"
| "members (Suc f) s =
     (case skip_json_space s of
        [] \<Rightarrow> None
      | q # t \<Rightarrow>
          if q \<noteq> CHR 0x22 then None
          else case json_string (length t + 1) [] t of
            None \<Rightarrow> None
          | Some (k, u) \<Rightarrow>
              (case skip_json_space u of
                 [] \<Rightarrow> None
               | c # v \<Rightarrow>
                   if c \<noteq> CHR '':'' then None
                   else case json_value f v of
                     None \<Rightarrow> None
                   | Some (x, w) \<Rightarrow>
                       (case skip_json_space w of
                          [] \<Rightarrow> None
                        | d # y \<Rightarrow> if d = CHR ''}'' then Some ([(k, x)], y)
                            else if d = CHR '','' then map_option (\<lambda>(kvs, z). ((k, x) # kvs, z)) (members f y) else None)))"

definition json_decode :: "string \<Rightarrow> json option" where
  "json_decode s = (case json_value (2 * length s + 2) s of
      Some (v, rest) \<Rightarrow> if skip_json_space rest = [] then Some v else None | None \<Rightarrow> None)"

text \<open>
  \<open>Unmarshal\<close> into a nil \<open>map[string]string\<close>: \<open>null\<close> leaves it nil, a null member is the empty
  text, a member of another type is an error, of equal keys the last counts.
\<close>

fun member_text :: "json \<Rightarrow> string option" where
  "member_text JNull = Some []"
| "member_text (JString s) = Some s"
| "member_text _ = None"

fun string_map :: "json \<Rightarrow> (string \<rightharpoonup> string) option" where
  "string_map JNull = Some Map.empty"
| "string_map (JObject kvs) =
     (if list_all (\<lambda>(k, v). member_text v \<noteq> None) kvs
      then Some (map_of (rev (map (\<lambda>(k, v). (k, the (member_text v))) kvs))) else None)"
| "string_map _ = None"

definition unmarshal_string_map :: "string \<Rightarrow> (string \<rightharpoonup> string) option" where
  "unmarshal_string_map s = Option.bind (json_decode s) string_map"

lemma json_decode_demo:
  "json_decode (map char_of [123 :: nat, 34, 107, 34, 58, 32, 91, 49, 44, 32, 45, 50, 46, 53, 101, 51, 93, 125]) =
    Some (JObject [(''k'', JArray [JNumber ''1'', JNumber ''-2.5e3''])])"
  by code_simp

end
