(* ===== verification/Discovery_Poller.thy ===== *)
theory Discovery_Poller
  imports Discovery Subnet Telnet Go_Json
begin

text \<open>
  \<open>internal/collector/discovery_poller.go\<close> with the vCenter client (\<open>discovery/vmware.go\<close>), the
  Windows agent client (\<open>winagent/client.go\<close>) and the entry of \<open>discovery/ssh.go\<close>: what one
  discovery job does. The network is a record of functions: dialled ports, SSH sessions, telnet
  connections, HTTP exchanges; the context is the credential at which it is found finished.
\<close>

subsection \<open>HTTP and vCenter\<close>

record http_response =
  hr_StatusCode :: nat
  hr_body :: string

text \<open>Method, URL, and the authorization header or session the request carries.\<close>

datatype http_auth = BasicAuth string string | SessionID string | BearerToken string

type_synonym http_do = "string \<Rightarrow> string \<Rightarrow> http_auth \<Rightarrow> string + http_response"

text \<open>
  Decoding an object into a struct whose fields are strings: keys match up to case, a null leaves
  the field alone, another type is an error.
\<close>

definition struct_field :: "string list \<Rightarrow> string \<Rightarrow> string option" where
  "struct_field names k = (if k \<in> set names then Some k else find (equal_fold k) names)"

definition decode_struct :: "string list \<Rightarrow> json \<Rightarrow> (string \<rightharpoonup> string) option" where
  "decode_struct names v =
     (case v of
        JNull \<Rightarrow> Some Map.empty
      | JObject kvs \<Rightarrow>
          foldl (\<lambda>acc (k, x). case (acc, struct_field names k) of
              (Some m, Some f) \<Rightarrow> (case x of JString s \<Rightarrow> Some (m(f \<mapsto> s)) | JNull \<Rightarrow> Some m | _ \<Rightarrow> None)
            | _ \<Rightarrow> acc) (Some Map.empty) kvs
      | _ \<Rightarrow> None)"

definition decode_rows :: "string list \<Rightarrow> json \<Rightarrow> (string \<rightharpoonup> string) list option" where
  "decode_rows names v =
     (case v of
        JNull \<Rightarrow> Some []
      | JArray vs \<Rightarrow> (let rs = map (decode_struct names) vs in if None \<in> set rs then None else Some (map the rs))
      | _ \<Rightarrow> None)"

definition field :: "(string \<rightharpoonup> string) \<Rightarrow> string \<Rightarrow> string" where
  "field m k = (case m k of None \<Rightarrow> [] | Some v \<Rightarrow> v)"

text \<open>\<open>json.NewDecoder(...).Decode\<close> reads the first value and ignores the rest.\<close>

definition decode_first :: "string \<Rightarrow> json option" where
  "decode_first s = map_option fst (json_value (2 * length s + 2) s)"

definition ok_2xx :: "http_response \<Rightarrow> bool" where
  "ok_2xx r \<longleftrightarrow> 200 \<le> hr_StatusCode r \<and> hr_StatusCode r < 300"

definition trim_right_slash :: "string \<Rightarrow> string" where
  "trim_right_slash s = rev (dropWhile (\<lambda>c. c = CHR ''/'') (rev s))"

definition trim_quotes :: "string \<Rightarrow> string" where
  "trim_quotes s = rev (dropWhile (\<lambda>c. c = CHR 0x22) (rev (dropWhile (\<lambda>c. c = CHR 0x22) s)))"

record vmware_host =
  vh_Name :: string
  vh_Vendor :: string

record vmware_vm =
  vv_Name :: string
  vv_PowerOn :: bool

record vmware_inventory =
  vi_Hosts :: "vmware_host list"
  vi_VMs :: "vmware_vm list"
  vi_Datacenters :: "string list"

definition vmwareLogin :: "http_do \<Rightarrow> string \<Rightarrow> string \<Rightarrow> string \<Rightarrow> string option" where
  "vmwareLogin http base user pass =
     (case http ''POST'' (base @ ''/api/session'') (BasicAuth user pass) of
        Inl _ \<Rightarrow> None
      | Inr resp \<Rightarrow>
          if \<not> ok_2xx resp then None
          else case decode_first (hr_body resp) of
            Some (JString s) \<Rightarrow> Some (trim_quotes s) | Some JNull \<Rightarrow> Some [] | _ \<Rightarrow> None)"

definition vmwareGET :: "http_do \<Rightarrow> string \<Rightarrow> string \<Rightarrow> string list \<Rightarrow> (string \<rightharpoonup> string) list option" where
  "vmwareGET http url session names =
     (case http ''GET'' url (SessionID session) of
        Inl _ \<Rightarrow> None
      | Inr resp \<Rightarrow> if ok_2xx resp then Option.bind (decode_first (hr_body resp)) (decode_rows names) else None)"

definition vmwareListVMs :: "http_do \<Rightarrow> string \<Rightarrow> string \<Rightarrow> vmware_vm list option" where
  "vmwareListVMs http base session =
     map_option (map (\<lambda>r. \<lparr>vv_Name = field r ''name'', vv_PowerOn = equal_fold (field r ''power_state'') ''POWERED_ON''\<rparr>))
       (vmwareGET http (base @ ''/api/vcenter/vm'') session [''name'', ''power_state'', ''vm''])"

definition vmwareListHosts :: "http_do \<Rightarrow> string \<Rightarrow> string \<Rightarrow> vmware_host list option" where
  "vmwareListHosts http base session =
     map_option (map (\<lambda>r. \<lparr>vh_Name = field r ''name'', vh_Vendor = ''vmware''\<rparr>))
       (vmwareGET http (base @ ''/api/vcenter/host'') session [''name'', ''host''])"

definition vmwareListDatacenters :: "http_do \<Rightarrow> string \<Rightarrow> string \<Rightarrow> string list option" where
  "vmwareListDatacenters http base session =
     map_option (\<lambda>rs. filter (\<lambda>n. n \<noteq> []) (map (\<lambda>r. field r ''name'') rs))
       (vmwareGET http (base @ ''/api/vcenter/datacenter'') session [''name''])"

definition or_nil :: "'a list option \<Rightarrow> 'a list" where
  "or_nil x = (case x of None \<Rightarrow> [] | Some xs \<Rightarrow> xs)"

definition vmwareRESTCollect :: "http_do \<Rightarrow> string \<Rightarrow> string \<Rightarrow> string \<Rightarrow> vmware_inventory option" where
  "vmwareRESTCollect http url user pass =
     (let base = trim_right_slash (trim_space url) in
      if base = [] then None
      else case vmwareLogin http base user pass of
        None \<Rightarrow> None
      | Some session \<Rightarrow> Some \<lparr>vi_Hosts = or_nil (vmwareListHosts http base session),
          vi_VMs = or_nil (vmwareListVMs http base session),
          vi_Datacenters = or_nil (vmwareListDatacenters http base session)\<rparr>)"

text \<open>\<open>VMwareCollect\<close> turns every error into an empty inventory.\<close>

definition VMwareCollect :: "http_do \<Rightarrow> string \<Rightarrow> string \<Rightarrow> string \<Rightarrow> vmware_inventory" where
  "VMwareCollect http url user pass =
     (case vmwareRESTCollect http url user pass of
        Some stock \<Rightarrow> stock | None \<Rightarrow> \<lparr>vi_Hosts = [], vi_VMs = [], vi_Datacenters = []\<rparr>)"

subsection \<open>Credentials\<close>

record site_cred =
  sc_ID :: string
  sc_Kind :: string
  sc_Name :: string
  sc_Secret :: string

definition parseCredSecret :: "string \<Rightarrow> string \<times> string \<times> string" where
  "parseCredSecret s =
     (let t = trim_space s in
      case (if has_prefix t ''{'' then unmarshal_string_map t else None) of
        Some m \<Rightarrow> (field m ''username'', field m ''password'', field m ''key'')
      | None \<Rightarrow> ([], t, []))"

definition appendUniq :: "string list \<Rightarrow> string \<Rightarrow> string list" where
  "appendUniq xs v = (if v \<in> set xs then xs else xs @ [v])"

text \<open>\<open>SSHRun\<close> refuses an empty user name; the session itself belongs to the SSH library.\<close>

definition SSHRun :: "(string \<Rightarrow> string \<Rightarrow> string \<Rightarrow> string \<Rightarrow> string \<Rightarrow> string + string) \<Rightarrow>
    string \<Rightarrow> string \<Rightarrow> string \<Rightarrow> string \<Rightarrow> string \<Rightarrow> string + string" where
  "SSHRun ssh host user pass key cmd = (if user = [] then Inl ''ssh: empty username'' else ssh host user pass key cmd)"

text \<open>The fields of a Windows agent's inventory that the poller reads.\<close>

record win_inventory =
  wi_Manufacturer :: string
  wi_Hostname :: string

definition FetchInventory :: "http_do \<Rightarrow> (string \<Rightarrow> win_inventory option) \<Rightarrow> string \<Rightarrow> string \<Rightarrow> win_inventory option" where
  "FetchInventory http decode host token =
     (if host = [] then None
      else case http ''GET'' (''https://'' @ host @ '':8443/v1/inventory'') (BearerToken token) of
        Inl _ \<Rightarrow> None
      | Inr resp \<Rightarrow> if hr_StatusCode resp = 200 then decode (hr_body resp) else None)"

subsection \<open>Building a device\<close>

record network =
  nw_dial :: "string \<Rightarrow> int \<Rightarrow> int option"
  nw_ssh :: "string \<Rightarrow> string \<Rightarrow> string \<Rightarrow> string \<Rightarrow> string \<Rightarrow> string + string"
  nw_telnet :: "string \<Rightarrow> string + telnet_conn"
  nw_telnet_faults :: "string \<Rightarrow> write_faults"
  nw_http :: http_do
  nw_win_decode :: "string \<Rightarrow> win_inventory option"
  nw_done :: "string \<Rightarrow> nat \<Rightarrow> bool"

datatype inventory = NoInventory | VMwareInv vmware_inventory | WinagentInv win_inventory

text \<open>The posted map: absent keys are \<open>None\<close>; the port list of the metadata is constant.\<close>

record disc_device =
  dd_ip :: string
  dd_identified :: bool
  dd_protocols :: "string list"
  dd_vendor :: "string option"
  dd_hostname :: "string option"
  dd_rttMs :: f64
  dd_identifiedBy :: "string option"
  dd_outputBytes :: "nat option"
  dd_inventory :: inventory

definition base_device :: "string \<Rightarrow> f64 \<Rightarrow> disc_device" where
  "base_device ip rtt = \<lparr>dd_ip = ip, dd_identified = False, dd_protocols = [''tcp''], dd_vendor = None, dd_hostname = None,
     dd_rttMs = rtt, dd_identifiedBy = None, dd_outputBytes = None, dd_inventory = NoInventory\<rparr>"

definition identified :: "string \<Rightarrow> string \<Rightarrow> disc_device \<Rightarrow> disc_device" where
  "identified proto vendor dev =
     dev\<lparr>dd_identified := True, dd_identifiedBy := Some proto, dd_vendor := Some vendor,
         dd_protocols := appendUniq (dd_protocols dev) proto\<rparr>"

definition vmware_url :: "string \<Rightarrow> string \<Rightarrow> string" where
  "vmware_url ip secret =
     (case (if has_prefix (trim_space secret) ''{'' then unmarshal_string_map secret else None) of
        Some m \<Rightarrow> if field m ''url'' \<noteq> [] then field m ''url'' else ip
      | None \<Rightarrow> ip)"

definition telnet_cred_of :: "string \<Rightarrow> string \<Rightarrow> telnet_cred" where
  "telnet_cred_of user pass = \<lparr>tc_Username = user, tc_Password = pass, tc_EnablePass = [], tc_LoginPrompt = [],
     tc_PassPrompt = [], tc_EnablePrompt = []\<rparr>"

text \<open>One round of the loop over the credentials: the finished device, or go on.\<close>

definition try_cred :: "network \<Rightarrow> string \<Rightarrow> disc_device \<Rightarrow> site_cred \<Rightarrow> disc_device option" where
  "try_cred nw ip dev c =
     (let kind = to_lower (sc_Kind c); (user, pass, key) = parseCredSecret (sc_Secret c) in
      if kind = ''ssh'' then
        (case SSHRun (nw_ssh nw) ip user pass key ''show version'' of
           Inl _ \<Rightarrow> None
         | Inr out \<Rightarrow> map_option (\<lambda>p. (identified ''ssh'' (vp_Name p) dev)\<lparr>dd_outputBytes := Some (length out)\<rparr>) (IdentifyVendor out))
      else if kind = ''telnet'' then
        (case fst (TelnetRun (nw_telnet nw ip) (nw_telnet_faults nw ip) (telnet_cred_of user pass) ''show version'') of
           Inl _ \<Rightarrow> None
         | Inr out \<Rightarrow> map_option (\<lambda>p. identified ''telnet'' (vp_Name p) dev) (IdentifyVendor out))
      else if kind = ''vmware'' then
        (let stock = VMwareCollect (nw_http nw) (vmware_url ip (sc_Secret c)) user pass in
         if vi_VMs stock = [] \<and> vi_Hosts stock = [] then None
         else Some ((identified ''vmware'' ''vmware'' dev)\<lparr>dd_inventory := VMwareInv stock\<rparr>))
      else if kind = ''winagent'' then
        (case FetchInventory (nw_http nw) (nw_win_decode nw) ip pass of
           None \<Rightarrow> None
         | Some stock \<Rightarrow>
             Some ((identified ''winagent'' (if wi_Manufacturer stock \<noteq> [] then wi_Manufacturer stock else ''windows'') dev)
               \<lparr>dd_hostname := (if wi_Hostname stock \<noteq> [] then Some (wi_Hostname stock) else None),
                dd_inventory := WinagentInv stock\<rparr>))
      else None)"

fun try_creds :: "network \<Rightarrow> string \<Rightarrow> disc_device \<Rightarrow> nat \<Rightarrow> site_cred list \<Rightarrow> disc_device" where
  "try_creds nw ip dev n [] = dev"
| "try_creds nw ip dev n (c # cs) =
     (if nw_done nw ip n then dev
      else case try_cred nw ip dev c of Some d \<Rightarrow> d | None \<Rightarrow> try_creds nw ip dev (n + 1) cs)"

definition buildDevice :: "network \<Rightarrow> string \<Rightarrow> f64 \<Rightarrow> site_cred list \<Rightarrow> disc_device" where
  "buildDevice nw ip rtt creds = try_creds nw ip (base_device ip rtt) 0 creds"

subsection \<open>A discovery job\<close>

text \<open>The payload is what \<open>Unmarshal\<close> made of it, \<open>None\<close> an error.\<close>

record collector_job =
  cj_ID :: string
  cj_Kind :: string
  cj_Payload :: "(string list \<times> int) option"

definition probe_ports :: "int list" where
  "probe_ports = [443, 22, 80, 161, 23]"

fun scan_hosts :: "network \<Rightarrow> site_cred list \<Rightarrow> string list \<Rightarrow> disc_device list \<Rightarrow> disc_device list" where
  "scan_hosts nw creds [] devices = devices"
| "scan_hosts nw creds (h # hs) devices =
     (let (reachable, rtt) = ProbeReachability (nw_dial nw h) probe_ports in
      if \<not> reachable then scan_hosts nw creds hs devices
      else let devices' = devices @ [buildDevice nw h rtt creds] in
        if 200 \<le> length devices' then devices' else scan_hosts nw creds hs devices')"

text \<open>\<open>Panicked\<close> ends the collector process.\<close>

fun scan_subnets :: "network \<Rightarrow> site_cred list \<Rightarrow> string list \<Rightarrow> disc_device list \<Rightarrow>
    (subnet_error, disc_device list) outcome option" where
  "scan_subnets nw creds [] devices = Some (Returned devices)"
| "scan_subnets nw creds (cidr # cidrs) devices =
     (case IPv4Hosts cidr 512 of
        None \<Rightarrow> None
      | Some Panicked \<Rightarrow> Some Panicked
      | Some (Failed _) \<Rightarrow> scan_subnets nw creds cidrs devices
      | Some (Returned hosts) \<Rightarrow>
          let devices' = scan_hosts nw creds hosts devices in
          if 200 \<le> length devices' then Some (Returned devices') else scan_subnets nw creds cidrs devices')"

text \<open>The loop over the jobs: the batch to post, \<open>Returned None\<close> when no job found a device.\<close>

fun run_jobs :: "network \<Rightarrow> site_cred list \<Rightarrow> collector_job list \<Rightarrow> (subnet_error, disc_device list option) outcome option" where
  "run_jobs nw creds [] = Some (Returned None)"
| "run_jobs nw creds (j # js) =
     (if cj_Kind j \<noteq> ''discovery_scan'' then run_jobs nw creds js
      else case cj_Payload j of
        None \<Rightarrow> run_jobs nw creds js
      | Some (subnets, icmpTimeoutMs) \<Rightarrow>
          if subnets = [] then run_jobs nw creds js
          else (case scan_subnets nw creds subnets [] of
              None \<Rightarrow> None
            | Some Panicked \<Rightarrow> Some Panicked
            | Some (Failed e) \<Rightarrow> Some (Failed e)
            | Some (Returned devices) \<Rightarrow>
                if devices = [] then run_jobs nw creds js else Some (Returned (Some devices))))"

definition runDiscoveryOnce :: "network \<Rightarrow> collector_job list option \<Rightarrow> site_cred list \<Rightarrow>
    (subnet_error, disc_device list option) outcome option" where
  "runDiscoveryOnce nw jobs creds = (case jobs of None \<Rightarrow> Some (Returned None) | Some js \<Rightarrow> run_jobs nw creds js)"

subsection \<open>What a job posts\<close>

text \<open>A device as it leaves \<open>buildDevice\<close>.\<close>

definition device_ok :: "string \<Rightarrow> disc_device \<Rightarrow> bool" where
  "device_ok ip d \<longleftrightarrow> dd_ip d = ip
    \<and> (case dd_identifiedBy d of
         None \<Rightarrow> \<not> dd_identified d \<and> dd_protocols d = [''tcp''] \<and> dd_vendor d = None
       | Some proto \<Rightarrow> dd_identified d \<and> dd_vendor d \<noteq> None \<and> dd_protocols d = [''tcp'', proto])"

lemma base_device_ok: "device_ok ip (base_device ip rtt)"
  by (simp add: device_ok_def base_device_def)

lemma identified_ok:
  assumes "proto \<noteq> ''tcp''"
  shows "device_ok ip (identified proto vendor (base_device ip rtt))"
  using assms by (simp add: device_ok_def identified_def base_device_def appendUniq_def)

lemma device_ok_update [simp]:
  "device_ok ip (d\<lparr>dd_outputBytes := x\<rparr>) = device_ok ip d"
  "device_ok ip (d\<lparr>dd_hostname := h\<rparr>) = device_ok ip d"
  "device_ok ip (d\<lparr>dd_inventory := i\<rparr>) = device_ok ip d"
  by (simp_all add: device_ok_def split: option.split)

lemma try_cred_ok: "try_cred nw ip (base_device ip rtt) c = Some d \<Longrightarrow> device_ok ip d"
  by (auto simp: try_cred_def Let_def identified_ok split: if_splits prod.splits sum.splits option.splits)

lemma buildDevice_ok: "device_ok ip (buildDevice nw ip rtt creds)"
proof -
  have "device_ok ip (try_creds nw ip (base_device ip rtt) n creds)" for n
    by (induction creds arbitrary: n) (auto simp: base_device_ok try_cred_ok split: option.split)
  then show ?thesis by (simp add: buildDevice_def)
qed

definition reached :: "network \<Rightarrow> disc_device \<Rightarrow> bool" where
  "reached nw d \<longleftrightarrow> fst (ProbeReachability (nw_dial nw (dd_ip d)) probe_ports) \<and> device_ok (dd_ip d) d"

lemma scan_hosts_ok:
  assumes "length devices < 200" and "\<forall>d \<in> set devices. reached nw d"
  shows "length (scan_hosts nw creds hs devices) \<le> 200 \<and> (\<forall>d \<in> set (scan_hosts nw creds hs devices). reached nw d)"
  using assms
proof (induction hs arbitrary: devices)
  case (Cons h hs)
  have b: "reached nw (buildDevice nw h rtt creds)" if "ProbeReachability (nw_dial nw h) probe_ports = (True, rtt)" for rtt
    using that buildDevice_ok [of h nw rtt creds] by (auto simp: reached_def device_ok_def)
  obtain up rtt where p: "ProbeReachability (nw_dial nw h) probe_ports = (up, rtt)"
    by (cases "ProbeReachability (nw_dial nw h) probe_ports")
  show ?case
  proof (cases "up \<and> length devices < 199")
    case True
    then show ?thesis using Cons.IH [of "devices @ [buildDevice nw h rtt creds]"] Cons.prems b [of rtt] p
      by simp
  next
    case False then show ?thesis using Cons b [of rtt] p by (auto simp: Let_def)
  qed
qed simp

lemma scan_subnets_ok:
  assumes "length devices < 200" and "\<forall>d \<in> set devices. reached nw d"
  shows "case scan_subnets nw creds cidrs devices of
      Some (Returned ds) \<Rightarrow> length ds \<le> 200 \<and> (\<forall>d \<in> set ds. reached nw d) | Some (Failed _) \<Rightarrow> False
    | Some Panicked \<Rightarrow> True | None \<Rightarrow> False"
  using assms
proof (induction cidrs arbitrary: devices)
  case (Cons cidr cidrs)
  obtain r where r: "IPv4Hosts cidr 512 = Some r" using IPv4Hosts_total by blast
  show ?case
    using Cons.IH Cons.prems scan_hosts_ok [OF Cons.prems, of creds]
    by (cases r) (auto simp: r Let_def not_le)
qed simp

text \<open>A discovery round always ends, and what it posts is a batch of one to two hundred devices,
  each of which accepted a connection; a device has the protocol tcp and, exactly when a credential
  identified it, the protocol of that credential and a vendor.\<close>

theorem discovery_batch:
  "case runDiscoveryOnce nw jobs creds of
     Some (Returned (Some ds)) \<Rightarrow> 1 \<le> length ds \<and> length ds \<le> 200 \<and> (\<forall>d \<in> set ds. reached nw d)
   | Some (Returned None) \<Rightarrow> True | Some (Failed _) \<Rightarrow> False | Some Panicked \<Rightarrow> True | None \<Rightarrow> False"
proof -
  have s: "case scan_subnets nw creds subnets [] of
      Some (Returned ds) \<Rightarrow> length ds \<le> 200 \<and> (\<forall>d \<in> set ds. reached nw d) | Some (Failed _) \<Rightarrow> False
    | Some Panicked \<Rightarrow> True | None \<Rightarrow> False" for subnets
    by (rule scan_subnets_ok) simp_all
  have "case run_jobs nw creds js of
     Some (Returned (Some ds)) \<Rightarrow> 1 \<le> length ds \<and> length ds \<le> 200 \<and> (\<forall>d \<in> set ds. reached nw d)
   | Some (Returned None) \<Rightarrow> True | Some (Failed _) \<Rightarrow> False | Some Panicked \<Rightarrow> True | None \<Rightarrow> False" for js
  proof (induction js)
    case (Cons j js)
    show ?case
      using Cons s [of "fst (the (cj_Payload j))"]
      by (auto simp: Suc_le_eq split: option.splits outcome.splits)
  qed simp
  then show ?thesis by (cases jobs) (simp_all add: runDiscoveryOnce_def)
qed

text \<open>One IPv4-mapped IPv6 subnet at the head of a job's subnet list ends the collector: the round
  panics before anything is probed or posted, and does so again after every restart.\<close>

theorem mapped_subnet_kills_collector:
  assumes "96 \<le> n" and "n \<le> 128" and "cj_Kind j = ''discovery_scan''"
    and "cj_Payload j = Some ((''::ffff:'' @ dotted [a, b, c, d] @ ''/'' @ dec_nat n) # subnets, timeout)"
  shows "runDiscoveryOnce nw (Some (j # js)) creds = Some Panicked"
  using IPv4Hosts_mapped [OF assms(1,2), of a b c d 512] assms(3,4) by (simp add: runDiscoveryOnce_def)

definition dark_network :: network where
  "dark_network = \<lparr>nw_dial = (\<lambda>_ _. None), nw_ssh = (\<lambda>_ _ _ _ _. Inl ''no route''), nw_telnet = (\<lambda>_. Inl ''no route''),
     nw_telnet_faults = (\<lambda>_ _. None), nw_http = (\<lambda>_ _ _. Inl ''no route''), nw_win_decode = (\<lambda>_. None),
     nw_done = (\<lambda>_ _. False)\<rparr>"

theorem mapped_subnet_kills_collector_witness:
  "runDiscoveryOnce dark_network (Some [\<lparr>cj_ID = ''discovery'', cj_Kind = ''discovery_scan'',
     cj_Payload = Some ([''::ffff:'' @ dotted [10, 0, 0, 0] @ ''/'' @ dec_nat 120], 2000)\<rparr>]) [] = Some Panicked"
  by (rule mapped_subnet_kills_collector [of 120]) simp_all

end
