(* ===== verification/Collector_Poller.thy ===== *)
theory Collector_Poller
  imports Scheduler Envelope
begin

text \<open>
  Polling by a remote collector: \<open>internal/collector/snmp_poller.go\<close> on the collector's side and
  \<open>internal/api/handlers_collectors_snmp.go\<close> on the server's. The device, the decoding of the
  credentials, the tables and the message bus are those of the central poller's model
  (\<open>Scheduler\<close>), so that the two paths can be compared.
\<close>

subsection \<open>Rates\<close>

text \<open>\<open>applyRates\<close> of the collector: the loop over the interfaces with the map of previous readings.\<close>

definition rated :: "(f64 \<Rightarrow> u64) \<Rightarrow> rate_state option \<Rightarrow> int \<Rightarrow> iface \<Rightarrow> iface" where
  "rated oor prev now ifc =
     (case prev of None \<Rightarrow> ifc
      | Some p \<Rightarrow>
          if rs_t p = zero_time then ifc
          else let dt = duration_seconds (time_sub now (rs_t p)) in
            if f64_le dt (Fin 0) then ifc
            else let inBps = bpsDelta oor (rs_inOctets p) (if_InOctets ifc) dt;
                     outBps = bpsDelta oor (rs_outOctets p) (if_OutOctets ifc) dt;
                     ifc1 = (if inBps \<noteq> None then ifc\<lparr>if_InBps := inBps\<rparr> else ifc)
                 in if outBps \<noteq> None then ifc1\<lparr>if_OutBps := outBps\<rparr> else ifc1)"

fun apply_rates :: "(f64 \<Rightarrow> u64) \<Rightarrow> uuid \<Rightarrow> int \<Rightarrow> iface list \<Rightarrow> iface list \<Rightarrow> rates \<Rightarrow> iface list \<times> rates" where
  "apply_rates oor i now done [] rt = (done, rt)"
| "apply_rates oor i now done (ifc # ifs) rt =
     (let k = (i, if_Index ifc); prev = rt k;
          rt' = rt(k \<mapsto> \<lparr>rs_t = now, rs_inOctets = if_InOctets ifc, rs_outOctets = if_OutOctets ifc,
                         rs_inErrors = if_InErrors ifc, rs_outErrors = if_OutErrors ifc,
                         rs_inDiscards = if_InDiscards ifc, rs_outDiscards = if_OutDiscards ifc\<rparr>)
      in apply_rates oor i now (done @ [rated oor prev now ifc]) ifs rt')"

definition applyRates :: "(f64 \<Rightarrow> u64) \<Rightarrow> uuid \<Rightarrow> snapshot \<Rightarrow> rates \<Rightarrow> snapshot \<times> rates" where
  "applyRates oor i snap rt =
     (let (ifs, rt') = apply_rates oor i (snap_CapturedAt snap) [] (snap_Interfaces snap) rt
      in (snap\<lparr>snap_Interfaces := ifs\<rparr>, rt'))"

lemma rated_with_rates: "rated oor prev now ifc = with_rates oor prev now ifc"
proof (cases prev)
  case (Some p)
  let ?dt = "duration_seconds (time_sub now (rs_t p))"
  show ?thesis unfolding rated_def with_rates_def Some option.case Let_def
    by (cases "bpsDelta oor (rs_inOctets p) (if_InOctets ifc) ?dt";
        cases "bpsDelta oor (rs_outOctets p) (if_OutOctets ifc) ?dt") simp_all
qed (simp add: rated_def with_rates_def)

lemma apply_rates_compute:
  "apply_rates oor i now acc ifs rt = (acc @ fst (compute_rates oor i now ifs rt), snd (compute_rates oor i now ifs rt))"
  by (induction ifs arbitrary: acc rt) (simp_all add: Let_def rated_with_rates reading_def case_prod_beta)

lemma applyRates_computeRates: "applyRates oor i snap rt = computeRates oor i snap rt"
  by (simp add: applyRates_def computeRates_def apply_rates_compute case_prod_beta)

subsection \<open>Workers\<close>

record snmp_target =
  st_ID :: uuid
  st_MgmtIP :: string
  st_Version :: string
  st_Vendor :: string
  st_PollIntervalSeconds :: int
  st_EncSNMPCreds :: string

definition snmpMinPollInterval :: int where "snmpMinPollInterval = seconds 15"
definition snmpDefaultPoll :: int where "snmpDefaultPoll = seconds 60"

definition normalizeInterval :: "int \<Rightarrow> int" where
  "normalizeInterval secs =
     (if secs \<le> 0 then snmpDefaultPoll
      else let d = seconds secs in if d < snmpMinPollInterval then snmpMinPollInterval else d)"

text \<open>
  The map of handles, the goroutines that have not been cancelled (each with its target and its
  interval), and the next goroutine's number.
\<close>

record collector_workers =
  cw_workers :: "uuid \<rightharpoonup> nat \<times> int"
  cw_live :: "nat \<rightharpoonup> snmp_target \<times> int"
  cw_next :: nat

definition start_target :: "snmp_target \<Rightarrow> collector_workers \<Rightarrow> collector_workers" where
  "start_target t s =
     (let n = cw_next s; interval = normalizeInterval (st_PollIntervalSeconds t) in
      s\<lparr>cw_workers := (cw_workers s)(st_ID t \<mapsto> (n, interval)), cw_live := (cw_live s)(n \<mapsto> (t, interval)), cw_next := n + 1\<rparr>)"

definition reconcile_target :: "snmp_target \<Rightarrow> collector_workers \<Rightarrow> collector_workers" where
  "reconcile_target t s =
     (case cw_workers s (st_ID t) of
        Some (n, interval) \<Rightarrow>
          if interval = normalizeInterval (st_PollIntervalSeconds t) then s
          else start_target t (s\<lparr>cw_live := (cw_live s)(n := None)\<rparr>)
      | None \<Rightarrow> start_target t s)"

definition drop_targets :: "uuid set \<Rightarrow> collector_workers \<Rightarrow> collector_workers" where
  "drop_targets seen s =
     s\<lparr>cw_live := (\<lambda>n. if \<exists>i. i \<notin> seen \<and> map_option fst (cw_workers s i) = Some n then None else cw_live s n),
       cw_workers := cw_workers s |` seen\<rparr>"

text \<open>A failed fetch changes nothing.\<close>

definition reconcile_targets :: "string + snmp_target list \<Rightarrow> collector_workers \<Rightarrow> collector_workers" where
  "reconcile_targets fetched s =
     (case fetched of Inl e \<Rightarrow> s
      | Inr ts \<Rightarrow> drop_targets (st_ID ` set ts) (foldl (\<lambda>s t. reconcile_target t s) s ts))"

definition no_workers :: collector_workers where
  "no_workers = \<lparr>cw_workers = Map.empty, cw_live = Map.empty, cw_next = 0\<rparr>"

text \<open>Every handle belongs to a running worker for its id and at its interval, and every worker to a handle.\<close>

definition workers_ok :: "collector_workers \<Rightarrow> bool" where
  "workers_ok s \<longleftrightarrow>
     (\<forall>i n iv. cw_workers s i = Some (n, iv) \<longrightarrow> (\<exists>t. cw_live s n = Some (t, iv) \<and> st_ID t = i \<and> iv = normalizeInterval (st_PollIntervalSeconds t)))
     \<and> (\<forall>n t iv. cw_live s n = Some (t, iv) \<longrightarrow> cw_workers s (st_ID t) = Some (n, iv) \<and> n < cw_next s)"

lemma workers_okD:
  assumes "workers_ok s"
  shows "cw_workers s i = Some (n, iv) \<Longrightarrow>
      \<exists>t. cw_live s n = Some (t, iv) \<and> st_ID t = i \<and> iv = normalizeInterval (st_PollIntervalSeconds t)"
    and "cw_live s n = Some (t, iv) \<Longrightarrow> cw_workers s (st_ID t) = Some (n, iv) \<and> n < cw_next s"
  using assms unfolding workers_ok_def by blast+

lemma workers_okI:
  assumes "\<And>i n iv. cw_workers s i = Some (n, iv) \<Longrightarrow>
      \<exists>t. cw_live s n = Some (t, iv) \<and> st_ID t = i \<and> iv = normalizeInterval (st_PollIntervalSeconds t)"
    and "\<And>n t iv. cw_live s n = Some (t, iv) \<Longrightarrow> cw_workers s (st_ID t) = Some (n, iv) \<and> n < cw_next s"
  shows "workers_ok s"
  using assms unfolding workers_ok_def by blast

lemma start_target_ok:
  assumes "workers_ok s" and "cw_workers s (st_ID t) = None"
  shows "workers_ok (start_target t s)"
proof (rule workers_okI)
  fix i n iv assume h: "cw_workers (start_target t s) i = Some (n, iv)"
  show "\<exists>u. cw_live (start_target t s) n = Some (u, iv) \<and> st_ID u = i \<and> iv = normalizeInterval (st_PollIntervalSeconds u)"
  proof (cases "i = st_ID t")
    case True then show ?thesis using h by (simp add: start_target_def Let_def)
  next
    case False
    then have "cw_workers s i = Some (n, iv)" using h by (simp add: start_target_def Let_def)
    from workers_okD(1) [OF assms(1) this] obtain u where
      u: "cw_live s n = Some (u, iv)" "st_ID u = i" "iv = normalizeInterval (st_PollIntervalSeconds u)" by blast
    then have "n \<noteq> cw_next s" using workers_okD(2) [OF assms(1)] by blast
    then show ?thesis using u by (simp add: start_target_def Let_def)
  qed
next
  fix n u iv assume l: "cw_live (start_target t s) n = Some (u, iv)"
  show "cw_workers (start_target t s) (st_ID u) = Some (n, iv) \<and> n < cw_next (start_target t s)"
  proof (cases "n = cw_next s")
    case True then show ?thesis using l by (auto simp: start_target_def Let_def)
  next
    case False
    then have "cw_live s n = Some (u, iv)" using l by (simp add: start_target_def Let_def)
    from workers_okD(2) [OF assms(1) this] show ?thesis using assms(2) by (auto simp: start_target_def Let_def)
  qed
qed

text \<open>Removing a handle together with its worker.\<close>

lemma remove_worker_ok:
  assumes "workers_ok s" and "cw_workers s i = Some (n, iv)"
  shows "workers_ok (s\<lparr>cw_live := (cw_live s)(n := None), cw_workers := (cw_workers s)(i := None)\<rparr>)"
proof (rule workers_okI)
  fix j m jv assume h: "cw_workers (s\<lparr>cw_live := (cw_live s)(n := None), cw_workers := (cw_workers s)(i := None)\<rparr>) j = Some (m, jv)"
  then have j: "j \<noteq> i" "cw_workers s j = Some (m, jv)" by (auto split: if_splits)
  obtain u where u: "cw_live s m = Some (u, jv)" "st_ID u = j" "jv = normalizeInterval (st_PollIntervalSeconds u)"
    using workers_okD(1) [OF assms(1) j(2)] by blast
  obtain v where v: "cw_live s n = Some (v, iv)" "st_ID v = i" using workers_okD(1) [OF assms] by blast
  have "m \<noteq> n" using u v j(1) by auto
  then show "\<exists>u. cw_live (s\<lparr>cw_live := (cw_live s)(n := None), cw_workers := (cw_workers s)(i := None)\<rparr>) m = Some (u, jv)
      \<and> st_ID u = j \<and> jv = normalizeInterval (st_PollIntervalSeconds u)" using u by simp
next
  fix m u jv assume "cw_live (s\<lparr>cw_live := (cw_live s)(n := None), cw_workers := (cw_workers s)(i := None)\<rparr>) m = Some (u, jv)"
  then have m: "m \<noteq> n" "cw_live s m = Some (u, jv)" by (auto split: if_splits)
  have "cw_workers s (st_ID u) = Some (m, jv) \<and> m < cw_next s" by (rule workers_okD(2) [OF assms(1) m(2)])
  then show "cw_workers (s\<lparr>cw_live := (cw_live s)(n := None), cw_workers := (cw_workers s)(i := None)\<rparr>) (st_ID u) = Some (m, jv)
      \<and> m < cw_next (s\<lparr>cw_live := (cw_live s)(n := None), cw_workers := (cw_workers s)(i := None)\<rparr>)"
    using assms(2) m(1) by auto
qed

lemma reconcile_target_ok:
  assumes "workers_ok s"
  shows "workers_ok (reconcile_target t s)"
proof (cases "cw_workers s (st_ID t)")
  case None then show ?thesis using assms by (simp add: reconcile_target_def start_target_ok)
next
  case (Some h)
  obtain n iv where h: "h = (n, iv)" by (cases h)
  let ?s = "s\<lparr>cw_live := (cw_live s)(n := None), cw_workers := (cw_workers s)(st_ID t := None)\<rparr>"
  have "workers_ok (start_target t ?s)"
    by (rule start_target_ok) (use remove_worker_ok [OF assms] Some h in simp_all)
  moreover have "start_target t ?s = start_target t (s\<lparr>cw_live := (cw_live s)(n := None)\<rparr>)"
    by (simp add: start_target_def Let_def)
  ultimately show ?thesis using assms Some h by (simp add: reconcile_target_def)
qed

lemma reconcile_target_ids:
  "cw_workers (reconcile_target t s) i \<noteq> None \<longleftrightarrow> i = st_ID t \<or> cw_workers s i \<noteq> None"
  "i \<noteq> st_ID t \<Longrightarrow> cw_workers (reconcile_target t s) i = cw_workers s i"
  "map_option snd (cw_workers (reconcile_target t s) (st_ID t)) = Some (normalizeInterval (st_PollIntervalSeconds t))"
  by (auto simp: reconcile_target_def start_target_def Let_def split: option.split)

lemma drop_targets_ok:
  assumes "workers_ok s"
  shows "workers_ok (drop_targets seen s)"
proof (rule workers_okI)
  fix i n iv assume "cw_workers (drop_targets seen s) i = Some (n, iv)"
  then have i: "i \<in> seen" "cw_workers s i = Some (n, iv)" by (auto simp: drop_targets_def restrict_map_def split: if_splits)
  obtain u where u: "cw_live s n = Some (u, iv)" "st_ID u = i" "iv = normalizeInterval (st_PollIntervalSeconds u)"
    using workers_okD(1) [OF assms i(2)] by blast
  have "\<not> (\<exists>j. j \<notin> seen \<and> map_option fst (cw_workers s j) = Some n)"
    using workers_okD(1) [OF assms] u i(1) by force
  then show "\<exists>u. cw_live (drop_targets seen s) n = Some (u, iv) \<and> st_ID u = i \<and> iv = normalizeInterval (st_PollIntervalSeconds u)"
    using u by (auto simp: drop_targets_def)
next
  fix n u iv assume l: "cw_live (drop_targets seen s) n = Some (u, iv)"
  then have n: "cw_live s n = Some (u, iv)" "\<not> (\<exists>j. j \<notin> seen \<and> map_option fst (cw_workers s j) = Some n)"
    by (auto simp: drop_targets_def split: if_splits)
  have w: "cw_workers s (st_ID u) = Some (n, iv) \<and> n < cw_next s" by (rule workers_okD(2) [OF assms n(1)])
  then have "st_ID u \<in> seen" using n(2) by force
  then show "cw_workers (drop_targets seen s) (st_ID u) = Some (n, iv) \<and> n < cw_next (drop_targets seen s)"
    using w by (simp add: drop_targets_def)
qed

lemma reconcile_targets_ok: "workers_ok s \<Longrightarrow> workers_ok (reconcile_targets fetched s)"
proof -
  have "workers_ok s \<Longrightarrow> workers_ok (foldl (\<lambda>s t. reconcile_target t s) s ts)" for ts
    by (induction ts arbitrary: s) (simp_all add: reconcile_target_ok)
  then show "workers_ok s \<Longrightarrow> workers_ok (reconcile_targets fetched s)"
    by (auto simp: reconcile_targets_def intro!: drop_targets_ok split: sum.split)
qed

lemma reconcile_fold_ids:
  assumes "distinct (map st_ID ts)"
  shows "(\<forall>i. cw_workers (foldl (\<lambda>s t. reconcile_target t s) s ts) i \<noteq> None \<longleftrightarrow> i \<in> st_ID ` set ts \<or> cw_workers s i \<noteq> None)
    \<and> (\<forall>t \<in> set ts. map_option snd (cw_workers (foldl (\<lambda>s t. reconcile_target t s) s ts) (st_ID t))
          = Some (normalizeInterval (st_PollIntervalSeconds t)))"
  using assms
proof (induction ts rule: rev_induct)
  case (snoc t ts)
  let ?f = "foldl (\<lambda>s t. reconcile_target t s) s ts"
  have d: "st_ID t \<notin> st_ID ` set ts" and ds: "distinct (map st_ID ts)" using snoc.prems by auto
  note I = snoc.IH [OF ds]
  have fold: "foldl (\<lambda>s t. reconcile_target t s) s (ts @ [t]) = reconcile_target t ?f" by simp
  show ?case unfolding fold
  proof (intro conjI allI ballI)
    fix i show "cw_workers (reconcile_target t ?f) i \<noteq> None \<longleftrightarrow> i \<in> st_ID ` set (ts @ [t]) \<or> cw_workers s i \<noteq> None"
      unfolding reconcile_target_ids(1) using I by auto
  next
    fix u assume "u \<in> set (ts @ [t])"
    then consider "u = t" | "u \<in> set ts" "st_ID u \<noteq> st_ID t" using d by (metis Un_iff empty_iff empty_set image_eqI insertE list.simps(15) set_append)
    then show "map_option snd (cw_workers (reconcile_target t ?f) (st_ID u)) = Some (normalizeInterval (st_PollIntervalSeconds u))"
    proof cases
      case 1 then show ?thesis by (simp only: reconcile_target_ids(3))
    next
      case 2 show ?thesis unfolding reconcile_target_ids(2) [OF 2(2)] using I 2(1) by blast
    qed
  qed
qed simp

text \<open>After a successful reconcile exactly the listed appliances have a running worker, each exactly
  one, at the interval computed from the listed one; a failed fetch stops nobody.\<close>

theorem targets_served:
  assumes "workers_ok s" and "distinct (map st_ID ts)"
  shows "(\<forall>t \<in> set ts. \<exists>!n. \<exists>u iv. cw_live (reconcile_targets (Inr ts) s) n = Some (u, iv) \<and> st_ID u = st_ID t
        \<and> iv = normalizeInterval (st_PollIntervalSeconds t))
    \<and> (\<forall>n u iv. cw_live (reconcile_targets (Inr ts) s) n = Some (u, iv) \<longrightarrow> st_ID u \<in> st_ID ` set ts)
    \<and> (\<forall>e. reconcile_targets (Inl e) s = s)"
proof (intro conjI ballI allI impI)
  let ?r = "reconcile_targets (Inr ts) s"
  have ok: "workers_ok ?r" by (rule reconcile_targets_ok [OF assms(1)])
  note D = workers_okD [OF ok]
  note ids = reconcile_fold_ids [OF assms(2), of s]
  fix t assume t: "t \<in> set ts"
  obtain n where n: "cw_workers ?r (st_ID t) = Some (n, normalizeInterval (st_PollIntervalSeconds t))"
    using ids t by (auto simp: reconcile_targets_def drop_targets_def)
  from D(1) [OF n] obtain u where
    u: "cw_live ?r n = Some (u, normalizeInterval (st_PollIntervalSeconds t))" "st_ID u = st_ID t" by blast
  show "\<exists>!n. \<exists>u iv. cw_live ?r n = Some (u, iv) \<and> st_ID u = st_ID t \<and> iv = normalizeInterval (st_PollIntervalSeconds t)"
  proof (rule ex1I [of _ n])
    show "\<exists>u iv. cw_live ?r n = Some (u, iv) \<and> st_ID u = st_ID t \<and> iv = normalizeInterval (st_PollIntervalSeconds t)"
      using u by blast
    fix m assume "\<exists>u iv. cw_live ?r m = Some (u, iv) \<and> st_ID u = st_ID t \<and> iv = normalizeInterval (st_PollIntervalSeconds t)"
    then show "m = n" using D(2) n by fastforce
  qed
next
  fix n u iv assume "cw_live (reconcile_targets (Inr ts) s) n = Some (u, iv)"
  from workers_okD(2) [OF reconcile_targets_ok [OF assms(1)] this] show "st_ID u \<in> st_ID ` set ts"
    by (auto simp: reconcile_targets_def drop_targets_def restrict_map_def split: if_splits)
qed (simp add: reconcile_targets_def)

definition demo_target :: "uuid \<Rightarrow> int \<Rightarrow> snmp_target" where
  "demo_target i secs = \<lparr>st_ID = i, st_MgmtIP = ''10.0.0.1'', st_Version = ''v2c'', st_Vendor = ''cisco'',
     st_PollIntervalSeconds = secs, st_EncSNMPCreds = []\<rparr>"

lemma no_workers_ok: "workers_ok no_workers"
  by (simp add: workers_ok_def no_workers_def)

theorem targets_served_witness:
  "\<exists>!n. \<exists>u iv. cw_live (reconcile_targets (Inr [demo_target ''a'' 0])
      (reconcile_targets (Inr [demo_target ''a'' 5, demo_target ''b'' 20]) no_workers)) n = Some (u, iv)
      \<and> st_ID u = ''a'' \<and> iv = normalizeInterval 0"
  using targets_served [OF reconcile_targets_ok [OF no_workers_ok], of "[demo_target ''a'' 0]" "Inr [demo_target ''a'' 5, demo_target ''b'' 20]"]
  by (simp add: demo_target_def)

subsection \<open>The poll on the collector\<close>

text \<open>
  What the collector gets from outside: the sealer and the credential decoder, \<open>json.Marshal\<close> of the
  posted map, and the fate of each of its two requests: not sent, sent but unanswered, answered. The
  device is that of the central poller's environment.
\<close>

datatype delivery = Unsent string | Unanswered string | Answered

record 'c collector_env =
  ce_open :: "string \<Rightarrow> string \<Rightarrow> string + string"
  ce_decode :: "string \<Rightarrow> string + 'c"
  ce_b64_error :: "string \<Rightarrow> string"
  ce_marshal :: "uuid \<Rightarrow> snapshot \<Rightarrow> string + string"
  ce_marshal_error :: "uuid \<Rightarrow> string \<Rightarrow> string"
  ce_result :: delivery
  ce_error :: delivery

datatype answer = NoContent | Refusal nat string string

text \<open>The body of an answer as the client reads it.\<close>

definition answer_body :: "(string \<Rightarrow> string \<Rightarrow> string) \<Rightarrow> answer \<Rightarrow> string" where
  "answer_body encode a = (case a of NoContent \<Rightarrow> [] | Refusal _ code msg \<Rightarrow> encode code msg)"

text \<open>
  \<open>pollOne\<close>: the snapshot to post, with the rates updated, or the error. \<open>post_result\<close> is the exchange
  that follows, whose error text is reported like those of the poll.
\<close>

definition pollOne :: "'c poll_env \<Rightarrow> 'c collector_env \<Rightarrow> snmp_target \<Rightarrow> rates \<Rightarrow> (string + string) \<times> rates" where
  "pollOne env ce t rt =
     (case DecodeString StdEncoding (st_EncSNMPCreds t) of
        None \<Rightarrow> (Inl (''decode creds: '' @ ce_b64_error ce (st_EncSNMPCreds t)), rt)
      | Some raw \<Rightarrow>
          (case ce_open ce (string_of raw) (''appliance:'' @ st_ID t) of
             Inl e \<Rightarrow> (Inl (''open creds: '' @ e), rt)
           | Inr plain \<Rightarrow>
               (case ce_decode ce plain of
                  Inl e \<Rightarrow> (Inl (''creds json: '' @ e), rt)
                | Inr creds \<Rightarrow>
                    (case pe_dial env (st_MgmtIP t) creds of
                       Inl e \<Rightarrow> (Inl (''dial: '' @ e), rt)
                     | Inr c \<Rightarrow>
                         let (snap, rt') = applyRates (pe_oor env) (st_ID t) (collect env c (st_Vendor t)) rt
                         in (ce_marshal ce (st_ID t) snap, rt')))))"

text \<open>A request that reaches the server changes it whether or not the answer comes back.\<close>

definition exchange :: "delivery \<Rightarrow> ('s \<Rightarrow> answer \<times> 's) \<Rightarrow> 's \<Rightarrow> (string + answer) \<times> 's" where
  "exchange d serve s =
     (case d of
        Unsent e \<Rightarrow> (Inl e, s)
      | Unanswered e \<Rightarrow> (Inl e, snd (serve s))
      | Answered \<Rightarrow> (case serve s of (a, s') \<Rightarrow> (Inr a, s')))"

definition post_result :: "(string \<Rightarrow> string \<Rightarrow> string) \<Rightarrow> 'c collector_env \<Rightarrow> (string \<Rightarrow> 's \<Rightarrow> answer \<times> 's) \<Rightarrow> string
    \<Rightarrow> 's \<Rightarrow> string option \<times> 's" where
  "post_result encode ce serve body s =
     (case exchange (ce_result ce) (serve body) s of
        (Inl e, s') \<Rightarrow> (Some e, s')
      | (Inr NoContent, s') \<Rightarrow> (None, s')
      | (Inr (Refusal status code msg), s') \<Rightarrow>
          (Some (''post snapshot '' @ itoa (int status) @ '': '' @ answer_body encode (Refusal status code msg)), s'))"

definition postPollError :: "'c collector_env \<Rightarrow> (string \<Rightarrow> 's \<Rightarrow> answer \<times> 's) \<Rightarrow> uuid \<Rightarrow> string \<Rightarrow> 's \<Rightarrow> 's" where
  "postPollError ce serve i msg s = snd (exchange (ce_error ce) (serve (ce_marshal_error ce i msg)) s)"

text \<open>The closure \<open>poll\<close> of a worker: any error is reported, and the report may fail.\<close>

definition worker_poll :: "'c poll_env \<Rightarrow> 'c collector_env \<Rightarrow> (string \<Rightarrow> string \<Rightarrow> string) \<Rightarrow> (string \<Rightarrow> 's \<Rightarrow> answer \<times> 's) \<Rightarrow>
    (string \<Rightarrow> 's \<Rightarrow> answer \<times> 's) \<Rightarrow> snmp_target \<Rightarrow> rates \<times> 's \<Rightarrow> rates \<times> 's" where
  "worker_poll env ce encode result_handler error_handler t st =
     (case st of (rt, s) \<Rightarrow>
        case pollOne env ce t rt of
          (Inl e, rt') \<Rightarrow> (rt', postPollError ce error_handler (st_ID t) e s)
        | (Inr body, rt') \<Rightarrow>
            (case post_result encode ce result_handler body s of
               (None, s') \<Rightarrow> (rt', s')
             | (Some e, s') \<Rightarrow> (rt', postPollError ce error_handler (st_ID t) e s')))"

subsection \<open>The server's handlers\<close>

record assignment =
  as_ID :: uuid
  as_Name :: string
  as_MgmtIP :: string
  as_Version :: string
  as_Vendor :: string
  as_PollInterval :: int
  as_Sealed :: "string option"
  as_Collector :: "uuid option"
  as_Site :: uuid
  as_Criticality :: "string option"
  as_Active :: bool

text \<open>
  The table of appliances, the outcome of the queries, \<open>uuid.Parse\<close>, the decoders of the two request
  bodies and of the posted snapshot, and the database's ordering by name.
\<close>

record server_env =
  sv_rows :: "assignment list"
  sv_query_fails :: bool
  sv_scan_fails :: "assignment \<Rightarrow> bool"
  sv_by_name :: "assignment list \<Rightarrow> assignment list"
  sv_parse_uuid :: "string \<Rightarrow> uuid option"
  sv_decode :: "string \<Rightarrow> (string \<times> string) option"
  sv_snapshot :: "string \<Rightarrow> snapshot option"

definition target_of :: "assignment \<Rightarrow> snmp_target" where
  "target_of a = \<lparr>st_ID = as_ID a, st_MgmtIP = as_MgmtIP a, st_Version = as_Version a, st_Vendor = as_Vendor a,
     st_PollIntervalSeconds = as_PollInterval a,
     st_EncSNMPCreds = EncodeToString StdEncoding (bytes_of (case as_Sealed a of None \<Rightarrow> [] | Some b \<Rightarrow> b))\<rparr>"

definition handleCollectorSNMPTargets :: "server_env \<Rightarrow> uuid \<Rightarrow> answer + snmp_target list" where
  "handleCollectorSNMPTargets sv cid =
     (if sv_query_fails sv then Inl (Refusal 500 ''server_error'' ''query failed'')
      else let rows = sv_by_name sv (filter (\<lambda>a. as_Collector a = Some cid \<and> as_Active a \<and> as_Sealed a \<noteq> None) (sv_rows sv)) in
        if list_ex (sv_scan_fails sv) rows then Inl (Refusal 500 ''server_error'' ''scan failed'')
        else Inr (map target_of rows))"

definition find_appliance :: "server_env \<Rightarrow> uuid \<Rightarrow> assignment option" where
  "find_appliance sv i = find (\<lambda>a. as_ID a = i) (sv_rows sv)"

text \<open>What the two handlers have in common: the appliance, if the collector may speak for it.\<close>

definition delegated :: "server_env \<Rightarrow> bool \<Rightarrow> uuid \<Rightarrow> string \<Rightarrow> answer + assignment \<times> string" where
  "delegated sv only_active cid body =
     (case sv_decode sv body of
        None \<Rightarrow> Inl (Refusal 400 ''bad_request'' ''invalid JSON body'')
      | Some (applianceId, payload) \<Rightarrow>
          (case sv_parse_uuid sv applianceId of
             None \<Rightarrow> Inl (Refusal 400 ''bad_request'' ''applianceId must be a UUID'')
           | Some i \<Rightarrow>
               if sv_query_fails sv then Inl (Refusal 500 ''server_error'' ''lookup failed'')
               else case find_appliance sv i of
                 None \<Rightarrow> Inl (Refusal 404 ''not_found'' ''appliance not found'')
               | Some a \<Rightarrow>
                   if only_active \<and> \<not> as_Active a then Inl (Refusal 404 ''not_found'' ''appliance not found'')
                   else if as_Collector a \<noteq> Some cid
                     then Inl (Refusal 403 ''forbidden'' ''appliance not delegated to this collector'')
                   else Inr (a, payload)))"

text \<open>The server's tables and the messages on the bus; \<open>None\<close> is the empty message of a payload that does not encode.\<close>

record delegated_state =
  dg_tables :: tables
  dg_published :: "payload option list"

definition metrics_payload :: "'c poll_env \<Rightarrow> assignment \<Rightarrow> snapshot \<Rightarrow> payload option" where
  "metrics_payload env a snap =
     (let base = [''applianceId'' \<mapsto> AnyString (as_ID a), ''siteId'' \<mapsto> AnyString (as_Site a), ''vendor'' \<mapsto> AnyString (as_Vendor a),
                  ''criticality'' \<mapsto> AnyString (case as_Criticality a of None \<Rightarrow> ''normal'' | Some c \<Rightarrow> c),
                  ''cpuPct'' \<mapsto> AnyF64 (case ch_CPUPct (snap_Chassis snap) of None \<Rightarrow> Fin 0 | Some x \<Rightarrow> x),
                  ''memUsedRatio'' \<mapsto> AnyF64 (mem_ratio (snap_Chassis snap))];
          p = AddVendorMetricsToPayload (pe_catalog env) base snap
      in if pe_encodable env p then Some p else None)"

definition handleCollectorSNMPResult :: "'c poll_env \<Rightarrow> server_env \<Rightarrow> uuid \<Rightarrow> string \<Rightarrow> delegated_state \<Rightarrow> answer \<times> delegated_state" where
  "handleCollectorSNMPResult env sv cid body s =
     (case delegated sv True cid body of
        Inl a \<Rightarrow> (a, s)
      | Inr (a, raw) \<Rightarrow>
          (case sv_snapshot sv raw of
             None \<Rightarrow> (Refusal 400 ''bad_request'' ''invalid snapshot'', s)
           | Some snap \<Rightarrow>
               (case PersistSnapshot (pe_marshal env) (pe_fault env) (as_ID a) snap (dg_tables s) of
                  (Some e, tbs) \<Rightarrow> (Refusal 500 ''server_error'' ''persist failed'', s\<lparr>dg_tables := tbs\<rparr>)
                | (None, tbs) \<Rightarrow>
                    (NoContent, s\<lparr>dg_tables := tbs,
                       dg_published := (if pe_connected env then dg_published s @ [metrics_payload env a snap] else dg_published s)\<rparr>))))"

definition errFromMsg :: "string \<Rightarrow> string" where
  "errFromMsg m = (if m = [] then ''collector poll error'' else m)"

definition handleCollectorSNMPError :: "'c poll_env \<Rightarrow> server_env \<Rightarrow> uuid \<Rightarrow> string \<Rightarrow> delegated_state \<Rightarrow> answer \<times> delegated_state" where
  "handleCollectorSNMPError env sv cid body s =
     (case delegated sv False cid body of
        Inl a \<Rightarrow> (a, s)
      | Inr (a, msg) \<Rightarrow>
          (NoContent, s\<lparr>dg_tables := RecordPollError (pe_error_fault env) (pe_now env) (as_ID a) (Some (errFromMsg msg)) (dg_tables s)\<rparr>))"

subsection \<open>The two paths agree\<close>

definition as_delegated :: "poll_state \<Rightarrow> rates \<times> delegated_state" where
  "as_delegated st = (ps_rates st, \<lparr>dg_tables = ps_tables st, dg_published = map Some (ps_published st)\<rparr>)"

definition central_worker :: "assignment \<Rightarrow> 'c \<Rightarrow> int \<Rightarrow> 'c worker" where
  "central_worker a c interval = \<lparr>wk_id = as_ID a, wk_ip = as_MgmtIP a, wk_vendor = as_Vendor a, wk_interval = interval, wk_creds = c\<rparr>"

text \<open>
  What the two JSON encoders and decoders owe each other: an error text, and the snapshot at hand,
  arrive as they were sent.
\<close>

definition wire_ok :: "'c collector_env \<Rightarrow> server_env \<Rightarrow> uuid \<Rightarrow> snapshot \<Rightarrow> bool" where
  "wire_ok ce sv i snap \<longleftrightarrow>
     (case ce_marshal ce i snap of Inl e \<Rightarrow> False
      | Inr body \<Rightarrow> (case sv_decode sv body of None \<Rightarrow> False
          | Some (j, raw) \<Rightarrow> sv_parse_uuid sv j = Some i \<and> sv_snapshot sv raw = Some snap))"

definition error_wire_ok :: "'c collector_env \<Rightarrow> server_env \<Rightarrow> uuid \<Rightarrow> string \<Rightarrow> bool" where
  "error_wire_ok ce sv i e \<longleftrightarrow>
     (case sv_decode sv (ce_marshal_error ce i e) of None \<Rightarrow> False | Some (j, m) \<Rightarrow> sv_parse_uuid sv j = Some i \<and> m = e)"

text \<open>The appliance is delegated to the collector and both know the same of it.\<close>

definition delegation_ok :: "'c poll_env \<Rightarrow> 'c collector_env \<Rightarrow> server_env \<Rightarrow> uuid \<Rightarrow> assignment \<Rightarrow> 'c \<Rightarrow> bool" where
  "delegation_ok env ce sv cid a c \<longleftrightarrow>
     find_appliance sv (as_ID a) = Some a \<and> as_Active a \<and> as_Collector a = Some cid \<and> \<not> sv_query_fails sv
     \<and> openCreds (ce_open ce) (ce_decode ce) (as_ID a) (case as_Sealed a of None \<Rightarrow> [] | Some b \<Rightarrow> b) = Inr c
     \<and> pe_site env (as_ID a) = Some (as_Site a, case as_Criticality a of None \<Rightarrow> ''normal'' | Some x \<Rightarrow> x)"

definition polled :: "'c poll_env \<Rightarrow> assignment \<Rightarrow> session \<Rightarrow> rates \<Rightarrow> snapshot" where
  "polled env a s rt = fst (computeRates (pe_oor env) (as_ID a) (collect env s (as_Vendor a)) rt)"

lemma delegated_ok:
  assumes "delegation_ok env ce sv cid a c" and "sv_decode sv body = Some (j, raw)" and "sv_parse_uuid sv j = Some (as_ID a)"
  shows "delegated sv only_active cid body = Inr (a, raw)"
  using assms by (simp add: delegated_def delegation_ok_def)

lemma target_of_ID [simp]: "st_ID (target_of a) = as_ID a"
  by (simp add: target_of_def)

lemma target_creds:
  assumes "delegation_ok env ce sv cid a c"
  shows "\<exists>plain. ce_open ce (string_of (bytes_of (case as_Sealed a of None \<Rightarrow> [] | Some b \<Rightarrow> b))) (''appliance:'' @ as_ID a) = Inr plain
    \<and> ce_decode ce plain = Inr c"
  using assms by (auto simp: delegation_ok_def openCreds_def split: if_splits sum.splits)

lemma pollOne_dialled:
  assumes "delegation_ok env ce sv cid a c"
  shows "pollOne env ce (target_of a) rt =
    (case pe_dial env (as_MgmtIP a) c of
       Inl e \<Rightarrow> (Inl (''dial: '' @ e), rt)
     | Inr s \<Rightarrow> (ce_marshal ce (as_ID a) (polled env a s rt),
         snd (computeRates (pe_oor env) (as_ID a) (collect env s (as_Vendor a)) rt)))"
proof -
  obtain plain where "ce_open ce (string_of (bytes_of (case as_Sealed a of None \<Rightarrow> [] | Some b \<Rightarrow> b))) (''appliance:'' @ as_ID a) = Inr plain"
    "ce_decode ce plain = Inr c" using target_creds [OF assms] by blast
  then show ?thesis
    by (simp add: pollOne_def target_of_def DecodeString_EncodeToString applyRates_computeRates polled_def case_prod_beta split: sum.split)
qed

lemma metrics_payload_central:
  assumes "delegation_ok env ce sv cid a c" and "pe_connected env"
  shows "publishApplianceMetrics env (as_ID a) (as_Vendor a) snap = metrics_payload env a snap"
  using assms by (simp add: delegation_ok_def publishApplianceMetrics_def metrics_payload_def Let_def)

text \<open>C24: A poll by the collector to which an appliance is delegated has the effect of the central poller's
  poll: the same rates, tables and messages, and the same recorded error when the device cannot be
  dialled, provided both requests are answered, the posted snapshot survives its JSON encoding, its
  metrics can be encoded and its transaction commits.\<close>

theorem delegated_poll_is_central:
  assumes "delegation_ok env ce sv cid a c"
    and "pe_slot env" and "pe_parse_ip env (as_MgmtIP a)"
    and "ce_result ce = Answered" and "ce_error ce = Answered"
    and "\<forall>e. pe_dial env (as_MgmtIP a) c = Inl e \<longrightarrow> error_wire_ok ce sv (as_ID a) (''dial: '' @ e)"
    and "\<forall>s. pe_dial env (as_MgmtIP a) c = Inr s \<longrightarrow>
        wire_ok ce sv (as_ID a) (polled env a s (ps_rates st)) \<and> metrics_payload env a (polled env a s (ps_rates st)) \<noteq> None
        \<and> fst (PersistSnapshot (pe_marshal env) (pe_fault env) (as_ID a) (polled env a s (ps_rates st)) (ps_tables st)) = None"
  shows "worker_poll env ce encode (handleCollectorSNMPResult env sv cid) (handleCollectorSNMPError env sv cid) (target_of a) (as_delegated st)
    = as_delegated (pollOnce env (central_worker a c interval) st)"
proof (cases "pe_dial env (as_MgmtIP a) c")
  case (Inl e)
  then obtain j where "sv_decode sv (ce_marshal_error ce (as_ID a) (''dial: '' @ e)) = Some (j, ''dial: '' @ e)"
    "sv_parse_uuid sv j = Some (as_ID a)"
    using assms(6) by (auto simp: error_wire_ok_def split: option.splits)
  note d = delegated_ok [OF assms(1) this, simplified append_Cons append_Nil]
  show ?thesis using Inl assms(2,3,5)
    by (simp add: worker_poll_def as_delegated_def pollOne_dialled [OF assms(1)] postPollError_def exchange_def
        handleCollectorSNMPError_def d errFromMsg_def pollOnce_def central_worker_def recordPollError_def)
next
  case (Inr s)
  let ?snap = "polled env a s (ps_rates st)"
  obtain rt where cr: "computeRates (pe_oor env) (as_ID a) (collect env s (as_Vendor a)) (ps_rates st) = (?snap, rt)"
    unfolding polled_def by (metis prod.collapse)
  have w: "wire_ok ce sv (as_ID a) ?snap" and m: "metrics_payload env a ?snap \<noteq> None"
    and p: "fst (PersistSnapshot (pe_marshal env) (pe_fault env) (as_ID a) ?snap (ps_tables st)) = None"
    using assms(7) Inr by blast+
  obtain tbs where ps: "PersistSnapshot (pe_marshal env) (pe_fault env) (as_ID a) ?snap (ps_tables st) = (None, tbs)"
    using p by (metis prod.collapse)
  obtain pl where pl: "metrics_payload env a ?snap = Some pl" using m by blast
  obtain body j raw where b: "ce_marshal ce (as_ID a) ?snap = Inr body" "sv_decode sv body = Some (j, raw)"
    "sv_parse_uuid sv j = Some (as_ID a)" "sv_snapshot sv raw = Some ?snap"
    using w by (auto simp: wire_ok_def split: sum.splits option.splits)
  note d = delegated_ok [OF assms(1) b(2,3)]
  have pub: "publishApplianceMetrics env (as_ID a) (as_Vendor a) ?snap = (if pe_connected env then Some pl else None)"
    using metrics_payload_central [OF assms(1)] pl by (simp add: publishApplianceMetrics_def)
  show ?thesis using Inr assms(2-4) b(1,4) pl
    by (simp add: worker_poll_def as_delegated_def pollOne_dialled [OF assms(1)] post_result_def exchange_def cr
        handleCollectorSNMPResult_def d ps pollOnce_def central_worker_def pub Let_def)
qed

definition lab_assignment :: assignment where
  "lab_assignment = \<lparr>as_ID = ''core'', as_Name = ''core'', as_MgmtIP = ''10.0.0.1'', as_Version = ''v2c'', as_Vendor = ''cisco'',
     as_PollInterval = 60, as_Sealed = Some ''blob'', as_Collector = Some ''col'', as_Site = ''site'', as_Criticality = None, as_Active = True\<rparr>"

definition lab_collector :: "unit collector_env" where
  "lab_collector = \<lparr>ce_open = (\<lambda>sealed ad. if ad = ''appliance:core'' then Inr sealed else Inl ''bad ad''), ce_decode = (\<lambda>p. Inr ()),
     ce_b64_error = (\<lambda>s. []), ce_marshal = (\<lambda>i snap. Inr (''s'' @ i)), ce_marshal_error = (\<lambda>i e. ''e'' @ e),
     ce_result = Answered, ce_error = Answered\<rparr>"

definition lab_server :: "snapshot \<Rightarrow> server_env" where
  "lab_server snap = \<lparr>sv_rows = [lab_assignment], sv_query_fails = False, sv_scan_fails = (\<lambda>a. False), sv_by_name = id,
     sv_parse_uuid = Some, sv_decode = (\<lambda>b. if take 1 b = ''s'' then Some (drop 1 b, b) else Some (''core'', drop 1 b)),
     sv_snapshot = (\<lambda>raw. Some snap)\<rparr>"

lemma lab_delegation: "delegation_ok lab_env lab_collector (lab_server snap) ''col'' lab_assignment ()"
  by (simp add: delegation_ok_def find_appliance_def lab_server_def lab_assignment_def lab_collector_def openCreds_def lab_env_def)

theorem delegated_poll_is_central_witness:
  "let snap = polled lab_env lab_assignment lab_session Map.empty; sv = lab_server snap in
   worker_poll lab_env lab_collector (\<lambda>c m. m) (handleCollectorSNMPResult lab_env sv ''col'') (handleCollectorSNMPError lab_env sv ''col'')
     (target_of lab_assignment) (as_delegated no_polls) = as_delegated (pollOnce lab_env (central_worker lab_assignment () 0) no_polls)"
  unfolding Let_def
  by (rule delegated_poll_is_central [OF lab_delegation])
    (simp_all add: lab_env_def lab_collector_def lab_server_def wire_ok_def no_polls_def metrics_payload_def Let_def
       PersistSnapshot_def run_statements_ok lab_assignment_def)

subsection \<open>A collector reaches only its own appliances\<close>

lemma delegated_own: "delegated sv only_active cid body = Inr (a, payload) \<Longrightarrow> as_Collector a = Some cid \<and> a \<in> set (sv_rows sv)"
  by (auto simp: delegated_def find_appliance_def find_Some_iff split: option.splits if_splits)

text \<open>Whatever a collector posts, a table or the bus changes only for an appliance delegated to that
  very collector, and what is refused changes nothing.\<close>

theorem collector_confined:
  "case handleCollectorSNMPResult env sv cid body s of
      (Refusal status code msg, s') \<Rightarrow> s' = s
    | (NoContent, s') \<Rightarrow> \<exists>a \<in> set (sv_rows sv). as_Collector a = Some cid \<and>
        (\<exists>snap blob. dg_tables s' = persist_spec (as_ID a) blob snap (dg_tables s))"
proof (cases "delegated sv True cid body")
  case (Inl a)
  obtain st c m where "a = Refusal st c m \<or> a = NoContent" by (cases a) blast+
  moreover have "a \<noteq> NoContent" using Inl by (auto simp: delegated_def split: option.splits if_splits)
  ultimately show ?thesis using Inl by (auto simp: handleCollectorSNMPResult_def)
next
  case (Inr p)
  obtain a raw where p: "delegated sv True cid body = Inr (a, raw)" using Inr by (cases p) simp
  note own = delegated_own [OF p]
  show ?thesis
  proof (cases "sv_snapshot sv raw")
    case None then show ?thesis by (simp add: handleCollectorSNMPResult_def p)
  next
    case (Some snap)
    obtain err tbs where ps: "PersistSnapshot (pe_marshal env) (pe_fault env) (as_ID a) snap (dg_tables s) = (err, tbs)" by fastforce
    show ?thesis
    proof (cases err)
      case None
      with ps obtain blob where "tbs = persist_spec (as_ID a) blob snap (dg_tables s)" using PersistSnapshot_ok by blast
      then show ?thesis using own None Some by (auto simp: handleCollectorSNMPResult_def p ps)
    next
      case (Some e)
      then have "tbs = dg_tables s" using PersistSnapshot_failed ps by blast
      then show ?thesis using Some \<open>sv_snapshot sv raw = Some snap\<close> by (simp add: handleCollectorSNMPResult_def p ps)
    qed
  qed
qed

end
