(* ===== verification/Checks.thy ===== *)
theory Checks
  imports Go_Any Float_Text Go_Time Go_Net
begin

text \<open>
  \<open>internal/checks\<close>: the catalog of synthetic checks (\<open>catalog.go\<close> with \<open>catalog/*.json\<close>), their
  parameters and credentials (\<open>creds.go\<close>), the choice of a runner (\<open>select.go\<close>) and the checks
  themselves (\<open>run.go\<close>, \<open>run_sql.go\<close>, \<open>run_mail.go\<close>, \<open>run_ldap.go\<close>). Whatever answers a check over the
  network is a record of functions; the printing of floats, lists and objects is \<open>cn_fmt\<close>.
\<close>

type_synonym params = "(string \<times> any) list"

subsection \<open>Catalog\<close>

record check_channel =
  ch_Key :: string
  ch_FlatField :: string

record check_pack =
  cp_ID :: string
  cp_Runner :: string
  cp_Channels :: "check_channel list"

text \<open>The channels of the embedded files, with the flat field of the default alarm where there is one.\<close>

definition chan :: "string \<Rightarrow> string \<Rightarrow> check_channel" where
  "chan k f = \<lparr>ch_Key = k, ch_FlatField = f\<rparr>"

definition Packs :: "check_pack list" where
  "Packs =
     [\<lparr>cp_ID = ''dns'', cp_Runner = ''either'',
       cp_Channels = [chan ''response_time_ms'' [], chan ''record_count'' [], chan ''up'' ''dns_up'']\<rparr>,
      \<lparr>cp_ID = ''http'', cp_Runner = ''either'',
       cp_Channels = [chan ''response_time_ms'' ''http_response_time_ms'', chan ''status_code'' [], chan ''up'' ''http_up'']\<rparr>,
      \<lparr>cp_ID = ''icmp'', cp_Runner = ''either'',
       cp_Channels = [chan ''response_time_ms'' ''icmp_response_time_ms'', chan ''packet_loss_pct'' ''icmp_packet_loss_pct'', chan ''up'' []]\<rparr>,
      \<lparr>cp_ID = ''imap'', cp_Runner = ''central'',
       cp_Channels = [chan ''response_time_ms'' [], chan ''mailbox_count'' [], chan ''up'' ''imap_up'']\<rparr>,
      \<lparr>cp_ID = ''ldap_bind'', cp_Runner = ''central'', cp_Channels = [chan ''response_time_ms'' [], chan ''up'' ''ldap_up'']\<rparr>,
      \<lparr>cp_ID = ''smtp'', cp_Runner = ''central'', cp_Channels = [chan ''response_time_ms'' [], chan ''up'' ''smtp_up'']\<rparr>,
      \<lparr>cp_ID = ''sql_query'', cp_Runner = ''central'',
       cp_Channels = [chan ''response_time_ms'' ''sql_response_time_ms'', chan ''row_count'' [], chan ''up'' ''sql_up'']\<rparr>,
      \<lparr>cp_ID = ''tcp'', cp_Runner = ''either'', cp_Channels = [chan ''response_time_ms'' [], chan ''up'' ''tcp_up'']\<rparr>,
      \<lparr>cp_ID = ''tls'', cp_Runner = ''either'',
       cp_Channels = [chan ''days_to_expiration'' ''tls_days_to_expiration'', chan ''cn_match'' [], chan ''up'' ''tls_up'']\<rparr>]"

definition Lookup :: "string \<Rightarrow> check_pack option" where
  "Lookup typeID = find (\<lambda>p. cp_ID p = typeID) Packs"

record sample_obs =
  sm_Key :: string
  sm_Value :: f64
  sm_Text :: string
  sm_HasNum :: bool

record check_result =
  rs_OK :: bool
  rs_Error :: string
  rs_Samples :: "sample_obs list"

text \<open>Of samples with the same key the last one counts.\<close>

definition sample_for :: "sample_obs list \<Rightarrow> string \<Rightarrow> sample_obs option" where
  "sample_for ss k = find (\<lambda>s. sm_Key s = k) (rev ss)"

definition flat_field :: "string \<Rightarrow> check_channel \<Rightarrow> string" where
  "flat_field typeID ch = (if ch_FlatField ch \<noteq> [] then ch_FlatField ch else typeID @ ''_'' @ ch_Key ch)"

fun flat_channels :: "string \<Rightarrow> sample_obs list \<Rightarrow> check_channel list \<Rightarrow> payload \<Rightarrow> payload" where
  "flat_channels typeID ss [] out = out"
| "flat_channels typeID ss (ch # chs) out =
     (case sample_for ss (ch_Key ch) of
        None \<Rightarrow> flat_channels typeID ss chs out
      | Some s \<Rightarrow> flat_channels typeID ss chs
          (if sm_HasNum s then out(flat_field typeID ch \<mapsto> AnyF64 (sm_Value s)) else out))"

fun flat_unknown :: "string \<Rightarrow> sample_obs list \<Rightarrow> payload \<Rightarrow> payload" where
  "flat_unknown typeID [] out = out"
| "flat_unknown typeID (s # ss) out =
     flat_unknown typeID ss (if sm_HasNum s then out(typeID @ ''_'' @ sm_Key s \<mapsto> AnyF64 (sm_Value s)) else out)"

definition FlatFields :: "string \<Rightarrow> check_result \<Rightarrow> payload" where
  "FlatFields typeID res =
     (case Lookup typeID of
        None \<Rightarrow> flat_unknown typeID (rs_Samples res) Map.empty
      | Some p \<Rightarrow>
          let out = flat_channels typeID (rs_Samples res) (cp_Channels p) Map.empty
          in if rs_OK res then out else out(typeID @ ''_up'' \<mapsto> AnyF64 (Fin 0)))"

subsection \<open>Credentials and parameters\<close>

record resolved_cred =
  rc_Kind :: string
  rc_Username :: string
  rc_Password :: string
  rc_Driver :: string
  rc_Database :: string
  rc_SSLMode :: string
  rc_UseTLS :: bool

definition ExpectedCredKind :: "string \<Rightarrow> string option" where
  "ExpectedCredKind typeID =
     (let t = to_lower (trim_space typeID) in
      if t = ''sql_query'' then Some ''sql'' else if t = ''smtp'' then Some ''smtp''
      else if t = ''imap'' then Some ''imap'' else if t = ''ldap_bind'' then Some ''ldap'' else None)"

definition RequiresCredential :: "string \<Rightarrow> bool" where
  "RequiresCredential typeID = (ExpectedCredKind typeID \<noteq> None)"

definition IsCentralOnly :: "string \<Rightarrow> bool" where
  "IsCentralOnly typeID = RequiresCredential typeID"

definition forbiddenParamKeys :: "string list" where
  "forbiddenParamKeys = [''password'', ''passwd'', ''secret'', ''apikey'', ''api_key'', ''privatekey'', ''private_key'',
     ''community'', ''token'', ''authpass'', ''privpass'', ''enc_secret'', ''rawsecret'']"

definition param_norm :: "string \<Rightarrow> string" where
  "param_norm k = filter (\<lambda>c. c \<noteq> CHR ''_'' \<and> c \<noteq> CHR ''-'') (to_lower k)"

text \<open>The first offending key in the iteration order of the map.\<close>

definition RejectSecretParams :: "params \<Rightarrow> string option" where
  "RejectSecretParams ps = map_option fst (find (\<lambda>(k, v). param_norm k \<in> set forbiddenParamKeys) ps)"

text \<open>\<open>fmt.Sprint\<close> of what is neither nil nor a string is \<open>fmt_any\<close>.\<close>

definition CredentialIDFromParams :: "(any \<Rightarrow> string) \<Rightarrow> (string \<Rightarrow> uuid option) \<Rightarrow> params \<Rightarrow> uuid option" where
  "CredentialIDFromParams fmt_any parse_uuid ps =
     (case map_of ps ''credentialId'' of
        None \<Rightarrow> None | Some AnyNil \<Rightarrow> None | Some (AnyString t) \<Rightarrow> parse_uuid t | Some v \<Rightarrow> parse_uuid (fmt_any v))"

definition stringField :: "(any \<Rightarrow> string) \<Rightarrow> params \<Rightarrow> string \<Rightarrow> string" where
  "stringField fmt_any m k =
     (case map_of m k of None \<Rightarrow> [] | Some AnyNil \<Rightarrow> [] | Some (AnyString t) \<Rightarrow> t | Some v \<Rightarrow> fmt_any v)"

text \<open>\<open>decode\<close> is \<open>json.Unmarshal\<close> into a map; its error is \<open>Inl\<close>. A JSON null is the nil map.\<close>

definition ParseResolvedCred :: "(any \<Rightarrow> string) \<Rightarrow> (string \<Rightarrow> string + params) \<Rightarrow> (string \<Rightarrow> string) \<Rightarrow> string \<Rightarrow> string
    \<Rightarrow> string + resolved_cred" where
  "ParseResolvedCred fmt_any decode quote kind0 plaintext =
     (let kind = to_lower (trim_space kind0) in
      case decode plaintext of
        Inl e \<Rightarrow> Inl (''credential secret must be JSON: '' @ e)
      | Inr m \<Rightarrow>
          let ssl = stringField fmt_any m ''sslmode'';
              c = \<lparr>rc_Kind = kind, rc_Username = stringField fmt_any m ''username'', rc_Password = stringField fmt_any m ''password'',
                   rc_Driver = to_lower (stringField fmt_any m ''driver''), rc_Database = stringField fmt_any m ''database'',
                   rc_SSLMode = (if ssl = [] then stringField fmt_any m ''sslMode'' else ssl),
                   rc_UseTLS = (case map_of m ''useTLS'' of Some (AnyBool v) \<Rightarrow> v | _ \<Rightarrow> False)\<rparr>
          in if kind = ''sql'' then
               if rc_Username c = [] \<or> rc_Password c = [] then Inl ''sql credential requires username and password''
               else Inr (if rc_Driver c = [] then c\<lparr>rc_Driver := ''postgres''\<rparr> else c)
             else if kind = ''ldap'' \<or> kind = ''smtp'' \<or> kind = ''imap'' then
               if rc_Username c = [] \<or> rc_Password c = [] then Inl (kind @ '' credential requires username and password'')
               else Inr c
             else Inl (''unsupported check credential kind '' @ quote kind))"

definition paramString :: "(any \<Rightarrow> string) \<Rightarrow> params \<Rightarrow> string \<Rightarrow> string \<Rightarrow> string" where
  "paramString fmt_any ps k d =
     (case map_of ps k of None \<Rightarrow> d | Some AnyNil \<Rightarrow> d | Some (AnyString t) \<Rightarrow> if t = [] then d else t | Some v \<Rightarrow> fmt_any v)"

definition paramFloat :: "params \<Rightarrow> string \<Rightarrow> f64 \<Rightarrow> f64" where
  "paramFloat ps k d =
     (case map_of ps k of
        Some (AnyF64 t) \<Rightarrow> t
      | Some (AnyInt n) \<Rightarrow> f64_of_int n
      | Some (AnyInt64 n) \<Rightarrow> f64_of_int n
      | Some (AnyString t) \<Rightarrow> (case ParseFloat t of None \<Rightarrow> d | Some f \<Rightarrow> f)
      | _ \<Rightarrow> d)"

text \<open>\<open>int(f)\<close> truncates; out of range (and for NaN) the result \<open>oor\<close> is the implementation's.\<close>

fun f64_to_i64 :: "(f64 \<Rightarrow> int) \<Rightarrow> f64 \<Rightarrow> int" where
  "f64_to_i64 oor (Fin a) =
     (let n = (if 0 \<le> a then \<lfloor>a\<rfloor> else \<lceil>a\<rceil>) in if - (2 ^ 63) \<le> n \<and> n < 2 ^ 63 then n else oor (Fin a))"
| "f64_to_i64 oor x = oor x"

definition paramInt :: "(f64 \<Rightarrow> int) \<Rightarrow> params \<Rightarrow> string \<Rightarrow> int \<Rightarrow> int" where
  "paramInt oor ps k d = f64_to_i64 oor (paramFloat ps k (f64_of_int d))"

definition param_timeout :: "(f64 \<Rightarrow> int) \<Rightarrow> params \<Rightarrow> int \<Rightarrow> int" where
  "param_timeout oor ps d = seconds (f64_to_i64 oor (paramFloat ps ''timeoutSec'' (f64_of_int d)))"

subsection \<open>The choice of a runner\<close>

record check_row =
  cr_ID :: uuid
  cr_SiteID :: uuid
  cr_Name :: string
  cr_TypeID :: string
  cr_Params :: params
  cr_IntervalSeconds :: int
  cr_PreferredRunner :: string
  cr_AssignedAgentID :: "uuid option"
  cr_AssignedCollectorID :: "uuid option"
  cr_ApplianceID :: "uuid option"
  cr_CredentialID :: "uuid option"

record online_agent =
  oa_ID :: uuid
  oa_SiteID :: uuid
  oa_LastSeen :: int

definition agent_fresh :: "int \<Rightarrow> online_agent \<Rightarrow> bool" where
  "agent_fresh now a \<longleftrightarrow> time_sub now (oa_LastSeen a) < seconds 120"

definition SelectRunner :: "'a check_row_scheme \<Rightarrow> online_agent list \<Rightarrow> int \<Rightarrow> string" where
  "SelectRunner c agents now =
     (if IsCentralOnly (cr_TypeID c) then ''central''
      else let p = to_lower (trim_space (cr_PreferredRunner c)); pref = (if p = [] then ''auto'' else p);
               online = (\<lambda>i. list_ex (\<lambda>a. oa_ID a = i \<and> agent_fresh now a) agents);
               siteOnline = find (\<lambda>a. oa_SiteID a = cr_SiteID c \<and> agent_fresh now a) agents;
               by_agents = (if (case cr_AssignedAgentID c of None \<Rightarrow> False | Some i \<Rightarrow> online i) then ''agent''
                            else if siteOnline \<noteq> None then ''agent'' else ''central'')
           in if pref = ''agent'' then by_agents
              else if pref = ''collector'' then ''collector''
              else if pref = ''central'' then ''central''
              else by_agents)"

subsection \<open>The read-only guard and the data source names of the SQL check\<close>

datatype sql_guard = GuardOK | QueryRequired | MultiStatement | WriteKeyword | NotSelect

definition write_words :: "string list" where
  "write_words = ['' INSERT '', '' UPDATE '', '' DELETE '', '' DROP '', '' ALTER '', '' CREATE '', '' TRUNCATE '', '' GRANT '',
     '' REVOKE '', '' COPY '', '' CALL '', '' EXEC '', '' EXECUTE '']"

definition validateReadOnlySQL :: "string \<Rightarrow> sql_guard" where
  "validateReadOnlySQL q =
     (let s = trim_space q; upper = to_upper s in
      if s = [] then QueryRequired
      else if contains s '';'' then MultiStatement
      else if has_prefix upper ''SELECT'' \<or> has_prefix upper ''WITH'' then
        (if list_ex (contains ('' '' @ upper @ '' '')) write_words then WriteKeyword else GuardOK)
      else NotSelect)"

definition guard_text :: "sql_guard \<Rightarrow> string" where
  "guard_text g = (case g of GuardOK \<Rightarrow> [] | QueryRequired \<Rightarrow> ''query required''
     | MultiStatement \<Rightarrow> ''multi-statement queries are not allowed''
     | WriteKeyword \<Rightarrow> ''only read-only SELECT/WITH queries are allowed''
     | NotSelect \<Rightarrow> ''only SELECT or WITH'' @ map char_of [226, 128, 166 :: nat] @ ''SELECT queries are allowed'')"

definition defaultSQLPort :: "string \<Rightarrow> int" where
  "defaultSQLPort driver =
     (if driver = ''sqlserver'' \<or> driver = ''mssql'' then 1433 else if driver = ''mysql'' then 3306 else 5432)"

definition sqlDriverName :: "string \<Rightarrow> string" where
  "sqlDriverName driver =
     (if driver = ''sqlserver'' \<or> driver = ''mssql'' then ''sqlserver'' else if driver = ''mysql'' then ''mysql'' else ''pgx'')"

text \<open>\<open>net.JoinHostPort\<close>.\<close>

definition join_host_port :: "string \<Rightarrow> string \<Rightarrow> string" where
  "join_host_port h p = (if CHR '':'' \<in> set h then ''['' @ h @ '']:'' @ p else h @ '':'' @ p)"

definition sqlDSN :: "(string \<Rightarrow> string) \<Rightarrow> string \<Rightarrow> string \<Rightarrow> int \<Rightarrow> resolved_cred \<Rightarrow> string + string" where
  "sqlDSN quote driver host port cred =
     (let user = rc_Username cred; pass = rc_Password cred;
          dbName = (if rc_Database cred = [] then ''postgres'' else rc_Database cred);
          addr = join_host_port host (itoa port)
      in if driver \<in> set [''postgres'', ''postgresql'', ''pgx'', ''''] then
           Inr (''host='' @ host @ '' port='' @ itoa port @ '' user='' @ user @ '' password='' @ pass @ '' dbname='' @ dbName @
                '' sslmode='' @ (if rc_SSLMode cred = [] then ''disable'' else rc_SSLMode cred))
         else if driver = ''mysql'' then
           Inr (user @ '':'' @ pass @ ''@tcp('' @ addr @ '')/'' @ dbName @ ''?parseTime=true&timeout=10s'')
         else if driver = ''sqlserver'' \<or> driver = ''mssql'' then
           Inr (''sqlserver://'' @ user @ '':'' @ pass @ ''@'' @ addr @ ''?database='' @
                (if dbName = ''postgres'' then ''master'' else dbName))
         else Inl (''unsupported sql driver '' @ quote driver))"

end
