(* ===== verification/Check_Run.thy ===== *)
theory Check_Run
  imports Checks
begin

text \<open>
  The checks of \<open>internal/checks\<close> themselves: \<open>run.go\<close>, \<open>run_sql.go\<close>, \<open>run_mail.go\<close> and
  \<open>run_ldap.go\<close>. Every exchange with a target is a field of \<open>check_net\<close>; durations in
  milliseconds come with the exchange they time.
\<close>

record cert_facts =
  ct_NotAfter :: int
  ct_CommonName :: string
  ct_verifies :: "string \<Rightarrow> bool"

datatype tls_reply = TLSDialFailed string | HandshakeFailed string | PeerCerts int "cert_facts list"

datatype sql_reply =
    SQLOpenFailed string
  | SQLQueryFailed string int
  | SQLColumnsFailed string int
  | SQLRows int nat "(nat \<times> string) option" "string option"

text \<open>What each call on an SMTP or IMAP session answers; \<open>None\<close> is no error.\<close>

record smtp_peer =
  sp_dial :: "string option"
  sp_handshake :: "string option"
  sp_client :: "string option"
  sp_has_starttls :: bool
  sp_starttls :: "string option"
  sp_has_auth :: bool
  sp_auth :: "string \<Rightarrow> string \<Rightarrow> string option"
  sp_mail :: "string \<Rightarrow> string option"
  sp_rcpt :: "string \<Rightarrow> string option"
  sp_quit :: "string option"

record imap_peer =
  ip_dial :: "string option"
  ip_handshake :: "string option"
  ip_client :: "string option"
  ip_starttls :: "string option"
  ip_login :: "string \<Rightarrow> string \<Rightarrow> string option"
  ip_list :: "nat \<times> string option"

record check_net =
  cn_fmt :: "any \<Rightarrow> string"
  cn_quote :: "string \<Rightarrow> string"
  cn_oor :: "f64 \<Rightarrow> int"
  cn_lookup :: "string \<Rightarrow> string \<Rightarrow> string \<Rightarrow> (string + string list) \<times> int"
  cn_cname :: "string \<Rightarrow> string \<Rightarrow> (string + string) \<times> int"
  cn_icmp_listen :: "string option"
  cn_done :: "nat \<Rightarrow> bool"
  cn_echo :: "string \<Rightarrow> nat \<Rightarrow> int option"
  cn_dial :: "string \<Rightarrow> int \<Rightarrow> string option \<times> int"
  cn_bad_url :: "string \<Rightarrow> string option"
  cn_http :: "string \<Rightarrow> int \<Rightarrow> (string + int) \<times> int"
  cn_tls :: "string \<Rightarrow> string \<Rightarrow> int \<Rightarrow> tls_reply"
  cn_sql :: "string \<Rightarrow> string \<Rightarrow> string \<Rightarrow> int \<Rightarrow> sql_reply"
  cn_smtp :: "string \<Rightarrow> int \<Rightarrow> smtp_peer \<times> int"
  cn_imap :: "string \<Rightarrow> int \<Rightarrow> imap_peer \<times> int"
  cn_ldap :: "string \<Rightarrow> bool \<Rightarrow> string \<Rightarrow> string \<Rightarrow> int \<Rightarrow> string option \<times> int"

definition sampleNum :: "string \<Rightarrow> f64 \<Rightarrow> sample_obs" where
  "sampleNum k v = \<lparr>sm_Key = k, sm_Value = v, sm_Text = [], sm_HasNum = True\<rparr>"

definition failed :: "string \<Rightarrow> sample_obs list \<Rightarrow> check_result" where
  "failed e ss = \<lparr>rs_OK = False, rs_Error = e, rs_Samples = ss\<rparr>"

definition errString :: "string option \<Rightarrow> string" where
  "errString e = (case e of None \<Rightarrow> ''no records'' | Some t \<Rightarrow> t)"

subsection \<open>Ping\<close>

definition tries :: nat where "tries = 4"

fun echo_loop :: "check_net \<Rightarrow> string \<Rightarrow> nat \<Rightarrow> nat \<Rightarrow> int list \<Rightarrow> int list" where
  "echo_loop cn addr 0 i rtts = rtts"
| "echo_loop cn addr (Suc n) i rtts =
     (if cn_done cn i then rtts
      else echo_loop cn addr n (i + 1) (case cn_echo cn addr i of None \<Rightarrow> rtts | Some r \<Rightarrow> rtts @ [r]))"

definition pingICMP :: "check_net \<Rightarrow> string \<Rightarrow> (f64 \<times> f64) \<times> string option" where
  "pingICMP cn addr =
     (if (case parse_addr addr of None \<Rightarrow> True | Some x \<Rightarrow> To4 x = None)
      then ((Fin 0, Fin 100), Some (''icmp: '' @ cn_quote cn addr @ '' is not a valid IPv4 address''))
      else case cn_icmp_listen cn of
        Some e \<Rightarrow> ((Fin 0, Fin 100), Some e)
      | None \<Rightarrow>
          let rtts = insertion_sort (\<lambda>r. r) (echo_loop cn addr tries 0 []) in
          if rtts = [] then ((Fin 0, Fin 100), None)
          else let sum_ns = foldl (\<lambda>s r. i64 (s + r)) 0 rtts; n = int (length rtts) in
            ((f64_div (f64_div (f64_of_int sum_ns) (f64_of_int n)) (f64_of_int 1000000),
              f64_mul (f64_div (f64_of_int (int tries - n)) (f64_of_int (int tries))) (Fin 100)), None))"

definition up_value :: "bool \<Rightarrow> f64" where
  "up_value b = (if b then Fin 1 else Fin 0)"

definition runICMP :: "check_net \<Rightarrow> params \<Rightarrow> check_result" where
  "runICMP cn ps =
     (let host = paramString (cn_fmt cn) ps ''host'' [] in
      if host = [] then failed ''host required'' []
      else case (if parse_addr host \<noteq> None then Inr host
                 else case fst (cn_lookup cn ''ip4'' [] host) of
                   Inl e \<Rightarrow> Inl (Some e) | Inr [] \<Rightarrow> Inl None | Inr (x # xs) \<Rightarrow> Inr x) of
        Inl e \<Rightarrow> failed (''resolve: '' @ errString e) [sampleNum ''up'' (Fin 0)]
      | Inr addr \<Rightarrow>
          (case pingICMP cn addr of
             (_, Some e) \<Rightarrow> failed e [sampleNum ''up'' (Fin 0), sampleNum ''packet_loss_pct'' (Fin 100)]
           | ((avgMs, lossPct), None) \<Rightarrow>
               let alive = f64_lt lossPct (Fin 100) in
               \<lparr>rs_OK = alive, rs_Error = [],
                rs_Samples = [sampleNum ''response_time_ms'' avgMs, sampleNum ''packet_loss_pct'' lossPct, sampleNum ''up'' (up_value alive)]\<rparr>))"

subsection \<open>TCP, HTTP, DNS, TLS\<close>

definition runTCP :: "check_net \<Rightarrow> params \<Rightarrow> check_result" where
  "runTCP cn ps =
     (let host = paramString (cn_fmt cn) ps ''host'' []; port = paramInt (cn_oor cn) ps ''port'' 0;
          timeout = param_timeout (cn_oor cn) ps 5
      in if host = [] \<or> port \<le> 0 then failed ''host and port required'' []
         else case cn_dial cn (join_host_port host (itoa port)) timeout of
           (Some e, ms) \<Rightarrow> failed e [sampleNum ''up'' (Fin 0), sampleNum ''response_time_ms'' (f64_of_int ms)]
         | (None, ms) \<Rightarrow> \<lparr>rs_OK = True, rs_Error = [],
             rs_Samples = [sampleNum ''up'' (Fin 1), sampleNum ''response_time_ms'' (f64_of_int ms)]\<rparr>)"

definition status_expected :: "int \<Rightarrow> int \<Rightarrow> bool" where
  "status_expected expect code \<longleftrightarrow> code = expect \<or> (expect = 200 \<and> 200 \<le> code \<and> code < 400)"

definition runHTTP :: "check_net \<Rightarrow> params \<Rightarrow> check_result" where
  "runHTTP cn ps =
     (let url = paramString (cn_fmt cn) ps ''url'' []; host = paramString (cn_fmt cn) ps ''host'' [] in
      if url = [] \<and> host = [] then failed ''url or host required'' []
      else let rawURL = (if url = [] then ''https://'' @ host else url);
               expect = paramInt (cn_oor cn) ps ''expectCode'' 200; timeout = param_timeout (cn_oor cn) ps 10 in
        case cn_bad_url cn rawURL of
          Some e \<Rightarrow> failed e [sampleNum ''up'' (Fin 0)]
        | None \<Rightarrow>
            (case cn_http cn rawURL timeout of
               (Inl e, ms) \<Rightarrow> failed e [sampleNum ''up'' (Fin 0), sampleNum ''response_time_ms'' (f64_of_int ms), sampleNum ''status_code'' (Fin 0)]
             | (Inr code, ms) \<Rightarrow>
                 let alive = status_expected expect code in
                 \<lparr>rs_OK = alive, rs_Error = [],
                  rs_Samples = [sampleNum ''response_time_ms'' (f64_of_int ms), sampleNum ''status_code'' (f64_of_int code),
                                sampleNum ''up'' (up_value alive)]\<rparr>))"

text \<open>The answer to a DNS query: count, error and duration.\<close>

definition dns_answer :: "check_net \<Rightarrow> string \<Rightarrow> string \<Rightarrow> string \<Rightarrow> int \<times> string option \<times> int" where
  "dns_answer cn rtype resolver host =
     (if rtype = ''CNAME'' then
        (case cn_cname cn resolver host of (Inl e, ms) \<Rightarrow> (0, Some e, ms) | (Inr c, ms) \<Rightarrow> (if c = [] then 0 else 1, None, ms))
      else case cn_lookup cn (if rtype = ''AAAA'' then ''ip6'' else ''ip4'') resolver host of
        (Inl e, ms) \<Rightarrow> (0, Some e, ms) | (Inr xs, ms) \<Rightarrow> (int (length xs), None, ms))"

definition dns_result :: "int \<times> string option \<times> int \<Rightarrow> check_result" where
  "dns_result a = (case a of (n, err, ms) \<Rightarrow>
     if err \<noteq> None \<or> n = 0
     then failed (errString err) [sampleNum ''up'' (Fin 0), sampleNum ''record_count'' (Fin 0), sampleNum ''response_time_ms'' (f64_of_int ms)]
     else \<lparr>rs_OK = True, rs_Error = [],
       rs_Samples = [sampleNum ''up'' (Fin 1), sampleNum ''record_count'' (f64_of_int n), sampleNum ''response_time_ms'' (f64_of_int ms)]\<rparr>)"

definition runDNS :: "check_net \<Rightarrow> params \<Rightarrow> check_result" where
  "runDNS cn ps =
     (let host = paramString (cn_fmt cn) ps ''host'' [] in
      if host = [] then failed ''host required'' []
      else dns_result (dns_answer cn (to_upper (paramString (cn_fmt cn) ps ''recordType'' ''A''))
             (paramString (cn_fmt cn) ps ''resolver'' []) host))"

text \<open>\<open>Duration.Hours\<close>: whole hours plus the fraction.\<close>

definition duration_hours :: "int \<Rightarrow> f64" where
  "duration_hours d =
     f64_add (f64_of_int (sgn d * (\<bar>d\<bar> div 3600000000000)))
       (f64_div (f64_of_int (sgn d * (\<bar>d\<bar> mod 3600000000000))) (f64_of_int 3600000000000))"

definition certMatches :: "cert_facts \<Rightarrow> string \<Rightarrow> bool" where
  "certMatches cert name \<longleftrightarrow> name = [] \<or> ct_verifies cert name \<or> equal_fold (ct_CommonName cert) name"

definition runTLS :: "check_net \<Rightarrow> params \<Rightarrow> check_result" where
  "runTLS cn ps =
     (let host = paramString (cn_fmt cn) ps ''host'' []; port = paramInt (cn_oor cn) ps ''port'' 443;
          sni = paramString (cn_fmt cn) ps ''sni'' host; timeout = param_timeout (cn_oor cn) ps 10
      in if host = [] then failed ''host required'' []
         else case cn_tls cn (join_host_port host (itoa port)) sni timeout of
           TLSDialFailed e \<Rightarrow> failed e [sampleNum ''up'' (Fin 0)]
         | HandshakeFailed e \<Rightarrow> failed e [sampleNum ''up'' (Fin 0)]
         | PeerCerts now [] \<Rightarrow> failed ''no peer certificate'' [sampleNum ''up'' (Fin 0)]
         | PeerCerts now (cert # _) \<Rightarrow>
             \<lparr>rs_OK = True, rs_Error = [],
              rs_Samples = [sampleNum ''days_to_expiration'' (f64_div (duration_hours (time_sub (ct_NotAfter cert) now)) (Fin 24)),
                            sampleNum ''cn_match'' (up_value (certMatches cert sni)), sampleNum ''up'' (Fin 1)]\<rparr>)"

subsection \<open>SQL\<close>

definition down :: "sample_obs" where
  "down = sampleNum ''up'' (Fin 0)"

definition ms_sample :: "int \<Rightarrow> sample_obs" where
  "ms_sample ms = sampleNum ''response_time_ms'' (f64_of_int ms)"

definition rows_sample :: "nat \<Rightarrow> sample_obs" where
  "rows_sample n = sampleNum ''row_count'' (f64_of_int (int n))"

text \<open>\<open>SQLRows ms n scan err\<close>: \<open>n\<close> rows, the scan of row \<open>k\<close> failing when \<open>scan = Some (k, e)\<close>.\<close>

definition sql_result :: "int \<Rightarrow> sql_reply \<Rightarrow> check_result" where
  "sql_result expectMin r =
     (case r of
        SQLOpenFailed e \<Rightarrow> failed e [down]
      | SQLQueryFailed e ms \<Rightarrow> failed e [down, ms_sample ms, rows_sample 0]
      | SQLColumnsFailed e ms \<Rightarrow> failed e [down, ms_sample ms, rows_sample 0]
      | SQLRows ms n (Some (k, e)) err \<Rightarrow> failed e [down, ms_sample ms, rows_sample k]
      | SQLRows ms n None (Some e) \<Rightarrow> failed e [down, ms_sample ms, rows_sample n]
      | SQLRows ms n None None \<Rightarrow>
          let alive = (expectMin \<le> int n) in
          \<lparr>rs_OK = alive,
           rs_Error = (if alive then [] else ''expected at least '' @ itoa expectMin @ '' rows, got '' @ itoa (int n)),
           rs_Samples = [sampleNum ''up'' (up_value alive), ms_sample ms, rows_sample n]\<rparr>)"

definition runSQL :: "check_net \<Rightarrow> params \<Rightarrow> resolved_cred option \<Rightarrow> check_result" where
  "runSQL cn ps mcred =
     (case mcred of
        None \<Rightarrow> failed ''credential required'' [down]
      | Some cred \<Rightarrow>
          let host = paramString (cn_fmt cn) ps ''host'' [] in
          if host = [] then failed ''host required'' [down]
          else let d = to_lower (paramString (cn_fmt cn) ps ''driver'' (rc_Driver cred));
                   driver = (if d = [] then ''postgres'' else d);
                   port = paramInt (cn_oor cn) ps ''port'' (defaultSQLPort driver);
                   query = trim_space (paramString (cn_fmt cn) ps ''query'' ''SELECT 1'')
            in if validateReadOnlySQL query \<noteq> GuardOK then failed (guard_text (validateReadOnlySQL query)) [down]
               else case sqlDSN (cn_quote cn) driver host port cred of
                 Inl e \<Rightarrow> failed e [down]
               | Inr dsn \<Rightarrow> sql_result (paramInt (cn_oor cn) ps ''expectMinRows'' 1)
                   (cn_sql cn (sqlDriverName driver) dsn query (param_timeout (cn_oor cn) ps 15)))"

subsection \<open>Mail and LDAP\<close>

definition or_else :: "string option \<Rightarrow> string option \<Rightarrow> string option" where
  "or_else e f = (case e of None \<Rightarrow> f | Some t \<Rightarrow> Some t)"

definition smtpProbe :: "smtp_peer \<Rightarrow> string \<Rightarrow> string \<Rightarrow> string \<Rightarrow> resolved_cred \<Rightarrow> string option" where
  "smtpProbe p tlsMode sender to cred =
     or_else (sp_dial p)
     (or_else (if tlsMode = ''tls'' \<or> tlsMode = ''smtps'' then sp_handshake p else None)
     (or_else (sp_client p)
     (or_else (if (tlsMode = ''starttls'' \<or> tlsMode = []) \<and> sp_has_starttls p then sp_starttls p else None)
     (or_else (if sp_has_auth p \<and> rc_Username cred \<noteq> [] then sp_auth p (rc_Username cred) (rc_Password cred) else None)
     (or_else (if sender \<noteq> [] then or_else (sp_mail p sender) (if to \<noteq> [] then sp_rcpt p to else None) else None)
     (sp_quit p))))))"

definition mail_result :: "string option \<Rightarrow> int \<Rightarrow> sample_obs list \<Rightarrow> sample_obs list \<Rightarrow> check_result" where
  "mail_result err ms bad good =
     (case err of
        Some e \<Rightarrow> failed e ([down, ms_sample ms] @ bad)
      | None \<Rightarrow> \<lparr>rs_OK = True, rs_Error = [], rs_Samples = [sampleNum ''up'' (Fin 1), ms_sample ms] @ good\<rparr>)"

definition runSMTP :: "check_net \<Rightarrow> params \<Rightarrow> resolved_cred option \<Rightarrow> check_result" where
  "runSMTP cn ps mcred =
     (case mcred of
        None \<Rightarrow> failed ''credential required'' [down]
      | Some cred \<Rightarrow>
          let host = paramString (cn_fmt cn) ps ''host'' [] in
          if host = [] then failed ''host required'' [down]
          else let port = paramInt (cn_oor cn) ps ''port'' 587;
                   tlsMode = to_lower (paramString (cn_fmt cn) ps ''tlsMode'' ''starttls'');
                   sender = paramString (cn_fmt cn) ps ''from'' (rc_Username cred);
                   to = paramString (cn_fmt cn) ps ''to'' [];
                   (peer, ms) = cn_smtp cn (join_host_port host (itoa port)) (param_timeout (cn_oor cn) ps 15)
               in mail_result (smtpProbe peer tlsMode sender to cred) ms [] [])"

definition imapProbe :: "imap_peer \<Rightarrow> string \<Rightarrow> resolved_cred \<Rightarrow> nat \<times> string option" where
  "imapProbe p tlsMode cred =
     (case or_else (ip_dial p)
        (or_else (if tlsMode \<in> set [''tls'', ''imaps'', ''''] then ip_handshake p else None)
        (or_else (ip_client p)
        (or_else (if tlsMode = ''starttls'' then ip_starttls p else None)
        (ip_login p (rc_Username cred) (rc_Password cred))))) of
        Some e \<Rightarrow> (0, Some e)
      | None \<Rightarrow> ip_list p)"

definition imap_port :: "string \<Rightarrow> int \<Rightarrow> int" where
  "imap_port tlsMode port0 =
     (let port = (if port0 = 993 \<and> tlsMode = ''plain'' then 143 else port0)
      in if port = 0 then if tlsMode = ''tls'' then 993 else 143 else port)"

definition runIMAP :: "check_net \<Rightarrow> params \<Rightarrow> resolved_cred option \<Rightarrow> check_result" where
  "runIMAP cn ps mcred =
     (case mcred of
        None \<Rightarrow> failed ''credential required'' [down]
      | Some cred \<Rightarrow>
          let host = paramString (cn_fmt cn) ps ''host'' [] in
          if host = [] then failed ''host required'' [down]
          else let tlsMode = to_lower (paramString (cn_fmt cn) ps ''tlsMode'' ''tls'');
                   port = imap_port tlsMode (paramInt (cn_oor cn) ps ''port'' 993);
                   (peer, ms) = cn_imap cn (join_host_port host (itoa port)) (param_timeout (cn_oor cn) ps 15);
                   (count, err) = imapProbe peer tlsMode cred
               in mail_result err ms [sampleNum ''mailbox_count'' (Fin 0)] [sampleNum ''mailbox_count'' (f64_of_int (int count))])"

definition ldap_tls :: "check_net \<Rightarrow> params \<Rightarrow> resolved_cred \<Rightarrow> bool" where
  "ldap_tls cn ps cred \<longleftrightarrow>
     rc_UseTLS cred \<or>
     (case map_of ps ''useTLS'' of
        Some (AnyBool v) \<Rightarrow> v
      | _ \<Rightarrow> paramString (cn_fmt cn) ps ''useTLS'' [] = ''true'' \<or> paramString (cn_fmt cn) ps ''useTLS'' [] = ''1'')"

definition runLDAPBind :: "check_net \<Rightarrow> params \<Rightarrow> resolved_cred option \<Rightarrow> check_result" where
  "runLDAPBind cn ps mcred =
     (case mcred of
        None \<Rightarrow> failed ''credential required'' [down]
      | Some cred \<Rightarrow>
          let host = paramString (cn_fmt cn) ps ''host'' [] in
          if host = [] then failed ''host required'' [down]
          else let useTLS = ldap_tls cn ps cred; port0 = paramInt (cn_oor cn) ps ''port'' 0;
                   port = (if port0 = 0 then if useTLS then 636 else 389 else port0);
                   bindDN = paramString (cn_fmt cn) ps ''bindDN'' (rc_Username cred);
                   (err, ms) = cn_ldap cn (join_host_port host (itoa port)) useTLS bindDN (rc_Password cred) (param_timeout (cn_oor cn) ps 15)
               in mail_result err ms [] [])"

definition Run :: "check_net \<Rightarrow> string \<Rightarrow> params \<Rightarrow> resolved_cred option \<Rightarrow> check_result" where
  "Run cn typeID ps cred =
     (let t = to_lower (trim_space typeID) in
      if t = ''icmp'' then runICMP cn ps else if t = ''tcp'' then runTCP cn ps
      else if t = ''http'' then runHTTP cn ps else if t = ''dns'' then runDNS cn ps
      else if t = ''tls'' then runTLS cn ps else if t = ''sql_query'' then runSQL cn ps cred
      else if t = ''smtp'' then runSMTP cn ps cred else if t = ''imap'' then runIMAP cn ps cred
      else if t = ''ldap_bind'' then runLDAPBind cn ps cred
      else failed (''unknown check type: '' @ typeID) [])"

subsection \<open>The verdict and the samples agree\<close>

text \<open>The sample \<open>up\<close>, if there is one, is 1 for a check that is fine and 0 for one that is not.\<close>

definition up_agrees :: "check_result \<Rightarrow> bool" where
  "up_agrees r \<longleftrightarrow>
     (case sample_for (rs_Samples r) ''up'' of
        None \<Rightarrow> \<not> rs_OK r \<and> rs_Samples r = []
      | Some s \<Rightarrow> sm_HasNum s \<and> sm_Value s = up_value (rs_OK r))"

lemma sampleNum_sel [simp]:
  "sm_Key (sampleNum k v) = k" "sm_Value (sampleNum k v) = v" "sm_HasNum (sampleNum k v)"
  by (simp_all add: sampleNum_def)

lemma check_samples_key [simp]:
  "sm_Key down = ''up''" "sm_Value down = Fin 0" "sm_HasNum down" "sm_Key (ms_sample ms) = ''response_time_ms''" "sm_Key (rows_sample n) = ''row_count''"
  by (simp_all add: down_def ms_sample_def rows_sample_def)

lemma up_agrees_failed: "up_agrees (failed e ss)"
  if "ss = [] \<or> (\<exists>s. sample_for ss ''up'' = Some s \<and> sm_HasNum s \<and> sm_Value s = Fin 0)"
  using that by (auto simp: up_agrees_def failed_def up_value_def sample_for_def)

lemma up_agrees_mail: "up_agrees (mail_result err ms [] [])"
  "up_agrees (mail_result err ms [sampleNum ''mailbox_count'' a] [sampleNum ''mailbox_count'' b])"
  by (auto simp: mail_result_def up_agrees_def failed_def up_value_def sample_for_def split: option.splits)

named_theorems verdict_simps

lemmas [verdict_simps] = up_agrees_def failed_def up_value_def sample_for_def

lemma icmp_agrees: "up_agrees (runICMP cn ps)"
  by (auto simp: runICMP_def Let_def verdict_simps split: prod.split option.split sum.split list.split)

lemma tcp_agrees: "up_agrees (runTCP cn ps)"
  by (auto simp: runTCP_def Let_def verdict_simps split: prod.split option.split)

lemma http_agrees: "up_agrees (runHTTP cn ps)"
  by (auto simp: runHTTP_def Let_def verdict_simps split: prod.split option.split sum.split)

lemma dns_agrees: "up_agrees (runDNS cn ps)"
proof -
  have "up_agrees (dns_result a)" for a by (simp add: dns_result_def verdict_simps split: prod.split)
  then show ?thesis by (simp add: runDNS_def Let_def up_agrees_failed)
qed

lemma tls_agrees: "up_agrees (runTLS cn ps)"
  by (auto simp: runTLS_def Let_def verdict_simps split: tls_reply.split list.split)

lemma sql_agrees: "up_agrees (runSQL cn ps cred)"
proof -
  have "up_agrees (sql_result n r)" for n r
    by (auto simp: sql_result_def Let_def verdict_simps split: sql_reply.split option.split)
  moreover have "up_agrees (failed e [down])" for e by (simp add: verdict_simps)
  ultimately show ?thesis by (simp add: runSQL_def Let_def split: option.split sum.split)
qed

lemma smtp_agrees: "up_agrees (runSMTP cn ps cred)"
  by (auto simp: runSMTP_def Let_def up_agrees_mail up_agrees_failed sample_for_def split: option.split prod.split)

lemma imap_agrees: "up_agrees (runIMAP cn ps cred)"
  by (auto simp: runIMAP_def Let_def up_agrees_mail up_agrees_failed sample_for_def split: option.split prod.split)

lemma ldap_agrees: "up_agrees (runLDAPBind cn ps cred)"
  by (auto simp: runLDAPBind_def Let_def up_agrees_mail up_agrees_failed sample_for_def split: option.split prod.split)

text \<open>Whatever the network answers, the verdict of a check and its samples agree: the sample \<open>up\<close> is 1
  exactly for a check that is fine, and only a check that never reached its target has no samples.\<close>

theorem check_verdict_agrees: "up_agrees (Run cn typeID ps cred)"
  by (simp add: Run_def Let_def icmp_agrees tcp_agrees http_agrees dns_agrees tls_agrees sql_agrees smtp_agrees
      imap_agrees ldap_agrees up_agrees_failed)

text \<open>A vault type without a credential never opens a connection.\<close>

lemma no_credential: "RequiresCredential typeID \<Longrightarrow> Run cn typeID ps None = failed ''credential required'' [down]"
  by (auto simp: Run_def Let_def RequiresCredential_def ExpectedCredKind_def runSQL_def runSMTP_def runIMAP_def runLDAPBind_def
      split: if_splits)

subsection \<open>The read-only guard\<close>

lemma guard_ok_iff:
  "validateReadOnlySQL q = GuardOK \<longleftrightarrow>
     \<not> contains (trim_space q) '';'' \<and>
     (has_prefix (to_upper (trim_space q)) ''SELECT'' \<or> has_prefix (to_upper (trim_space q)) ''WITH'') \<and>
     \<not> list_ex (contains ('' '' @ to_upper (trim_space q) @ '' '')) write_words"
proof -
  have "has_prefix (to_upper []) ''SELECT'' = False" "has_prefix (to_upper []) ''WITH'' = False" by code_simp+
  then show ?thesis by (auto simp: validateReadOnlySQL_def Let_def)
qed

text \<open>What the guard lets through: a word it forbids only counts between two blanks.\<close>

definition deleting_query :: string where
  "deleting_query = ''WITH gone AS (DELETE FROM agents RETURNING id) SELECT count(*) FROM gone''"

lemma deleting_query_passes: "validateReadOnlySQL deleting_query = GuardOK"
  by code_simp

end
