(* ===== verification/Check_Service.thy ===== *)
theory Check_Service
  imports Check_Run Access
begin

text \<open>
  The life of a check: the central scheduler (\<open>internal/poller/checks.go\<close>), the handlers that create
  and change checks and serve them to agents (\<open>internal/api/handlers_checks.go\<close>) and the agent's loop
  (\<open>internal/probe/checks.go\<close>). The database is the table of checks, their samples, the agents and the
  credential vault; what a statement, a run or the clock does at a given moment is a parameter.
\<close>

subsection \<open>State and environment\<close>

record stored_check = check_row +
  sk_Enabled :: bool
  sk_LastRun :: "int option"
  sk_LastOK :: "bool option"
  sk_LastError :: "string option"

record check_obs =
  ob_Check :: uuid
  ob_Time :: int
  ob_Key :: string
  ob_Double :: "f64 option"
  ob_Text :: "string option"
  ob_Runner :: string
  ob_OK :: bool

record agent_presence =
  ap_ID :: uuid
  ap_SiteID :: uuid
  ap_LastSeen :: "int option"
  ap_Active :: bool

record vault_row =
  vr_ID :: uuid
  vr_SiteID :: uuid
  vr_Kind :: string
  vr_Enc :: string

record checks_db =
  kd_checks :: "stored_check list"
  kd_samples :: "check_obs list"
  kd_agents :: "agent_presence list"
  kd_vault :: "vault_row list"
  kd_bus :: "payload list"

text \<open>
  \<open>kv_accepts n args\<close>: the driver takes a statement with \<open>n\<close> placeholders and these arguments. The
  sealer is absent when the master key is.
\<close>

record check_world =
  kv_net :: "uuid \<Rightarrow> check_net"
  kv_slot :: "uuid \<Rightarrow> bool"
  kv_now :: int
  kv_done_at :: "uuid \<Rightarrow> int"
  kv_list_fails :: bool
  kv_agents_fail :: bool
  kv_scans :: "uuid \<Rightarrow> bool"
  kv_accepts :: "nat \<Rightarrow> uuid list \<Rightarrow> bool"
  kv_insert_fails :: "check_obs \<Rightarrow> bool"
  kv_update_fails :: "uuid \<Rightarrow> bool"
  kv_vault_fails :: bool
  kv_connected :: bool
  kv_encodable :: "payload \<Rightarrow> bool"
  kv_sealer :: "(string \<Rightarrow> string \<Rightarrow> string + string) option"
  kv_decode :: "string \<Rightarrow> string + params"
  kv_parse_uuid :: "string \<Rightarrow> uuid option"

subsection \<open>Results\<close>

definition obs_of :: "uuid \<Rightarrow> int \<Rightarrow> string \<Rightarrow> bool \<Rightarrow> sample_obs \<Rightarrow> check_obs" where
  "obs_of i now runner ok s =
     \<lparr>ob_Check = i, ob_Time = now, ob_Key = sm_Key s, ob_Double = (if sm_HasNum s then Some (sm_Value s) else None),
      ob_Text = (if sm_Text s = [] then None else Some (sm_Text s)), ob_Runner = runner, ob_OK = ok\<rparr>"

text \<open>The primary key of \<open>check_samples\<close>.\<close>

definition obs_key :: "check_obs \<Rightarrow> uuid \<times> string \<times> int" where
  "obs_key r = (ob_Check r, ob_Key r, ob_Time r)"

fun insert_samples :: "check_world \<Rightarrow> check_obs list \<Rightarrow> check_obs list \<Rightarrow> bool \<times> check_obs list" where
  "insert_samples env [] table = (True, table)"
| "insert_samples env (r # rs) table =
     (if kv_insert_fails env r \<or> obs_key r \<in> obs_key ` set table then (False, table)
      else insert_samples env rs (table @ [r]))"

definition check_payload :: "'a check_row_scheme \<Rightarrow> check_result \<Rightarrow> string \<Rightarrow> payload" where
  "check_payload c res runner =
     [''checkId'' \<mapsto> AnyString (cr_ID c), ''siteId'' \<mapsto> AnyString (cr_SiteID c), ''typeId'' \<mapsto> AnyString (cr_TypeID c),
      ''name'' \<mapsto> AnyString (cr_Name c), ''runner'' \<mapsto> AnyString runner, ''ok'' \<mapsto> AnyBool (rs_OK res)] ++ FlatFields (cr_TypeID c) res"

definition mark_run :: "uuid \<Rightarrow> int \<Rightarrow> check_result \<Rightarrow> stored_check \<Rightarrow> stored_check" where
  "mark_run i now res c =
     (if cr_ID c = i
      then c\<lparr>sk_LastRun := Some now, sk_LastOK := Some (rs_OK res),
             sk_LastError := (if rs_Error res = [] then None else Some (take 500 (rs_Error res)))\<rparr>
      else c)"

text \<open>The flag is whether the function returned nil.\<close>

definition PersistCheckResult :: "check_world \<Rightarrow> 'a check_row_scheme \<Rightarrow> check_result \<Rightarrow> string \<Rightarrow> checks_db \<Rightarrow> bool \<times> checks_db" where
  "PersistCheckResult env c res runner db =
     (let now = kv_done_at env (cr_ID c) in
      case insert_samples env (map (obs_of (cr_ID c) now runner (rs_OK res)) (rs_Samples res)) (kd_samples db) of
        (False, table) \<Rightarrow> (False, db\<lparr>kd_samples := table\<rparr>)
      | (True, table) \<Rightarrow>
          let db1 = db\<lparr>kd_samples := table\<rparr> in
          if kv_update_fails env (cr_ID c) then (False, db1)
          else let db2 = db1\<lparr>kd_checks := map (mark_run (cr_ID c) now res) (kd_checks db1)\<rparr>; p = check_payload c res runner in
            if \<not> kv_connected env then (True, db2)
            else if \<not> kv_encodable env p then (False, db2)
            else (True, db2\<lparr>kd_bus := kd_bus db2 @ [p]\<rparr>))"

subsection \<open>The central scheduler\<close>

definition resolveCheckCred :: "check_world \<Rightarrow> 'a check_row_scheme \<Rightarrow> checks_db \<Rightarrow> string + resolved_cred option" where
  "resolveCheckCred env c db =
     (let cn = kv_net env (cr_ID c) in
      case ExpectedCredKind (cr_TypeID c) of
        None \<Rightarrow> Inr None
      | Some wantKind \<Rightarrow>
          (case (case cr_CredentialID c of Some i \<Rightarrow> Some i | None \<Rightarrow> CredentialIDFromParams (cn_fmt cn) (kv_parse_uuid env) (cr_Params c)) of
             None \<Rightarrow> Inl (''credentialId required for '' @ cr_TypeID c)
           | Some i \<Rightarrow>
               (case kv_sealer env of
                  None \<Rightarrow> Inl ''credential sealer unavailable''
                | Some open_sealed \<Rightarrow>
                    (case (if kv_vault_fails env then None else find (\<lambda>v. vr_ID v = i) (kd_vault db)) of
                       None \<Rightarrow> Inl ''credential not found''
                     | Some v \<Rightarrow>
                         if vr_SiteID v \<noteq> cr_SiteID c then Inl ''credential site mismatch''
                         else if vr_Kind v \<noteq> wantKind
                           then Inl (''credential kind '' @ cn_quote cn (vr_Kind v) @ '' does not match check type (want '' @ wantKind @ '')'')
                         else case open_sealed (vr_Enc v) (''credential:'' @ i) of
                           Inl e \<Rightarrow> Inl ''credential unseal failed''
                         | Inr plain \<Rightarrow>
                             (case ParseResolvedCred (cn_fmt cn) (kv_decode env) (cn_quote cn) (vr_Kind v) plain of
                                Inl e \<Rightarrow> Inl e | Inr cred \<Rightarrow> Inr (Some cred))))))"

definition check_outcome :: "check_world \<Rightarrow> 'a check_row_scheme \<Rightarrow> checks_db \<Rightarrow> check_result" where
  "check_outcome env c db =
     (let run = Run (kv_net env (cr_ID c)) (cr_TypeID c) (cr_Params c) in
      if RequiresCredential (cr_TypeID c) then
        (case resolveCheckCred env c db of Inl e \<Rightarrow> failed e [sampleNum ''up'' (Fin 0)] | Inr cred \<Rightarrow> run cred)
      else run None)"

text \<open>Every error of persisting is only logged.\<close>

definition executeCheck :: "check_world \<Rightarrow> 'a check_row_scheme \<Rightarrow> string \<Rightarrow> checks_db \<Rightarrow> checks_db" where
  "executeCheck env c runner db =
     (if \<not> kv_slot env (cr_ID c) then db else snd (PersistCheckResult env c (check_outcome env c db) runner db))"

definition check_due :: "int \<Rightarrow> stored_check \<Rightarrow> bool" where
  "check_due now c =
     (let i = seconds (cr_IntervalSeconds c); interval = (if i < seconds 15 then seconds 15 else i)
      in \<not> time_sub now (case sk_LastRun c of None \<Rightarrow> 0 | Some t \<Rightarrow> t) < interval)"

definition listOnlineAgents :: "check_world \<Rightarrow> checks_db \<Rightarrow> online_agent list" where
  "listOnlineAgents env db =
     (if kv_agents_fail env then []
      else map (\<lambda>a. \<lparr>oa_ID = ap_ID a, oa_SiteID = ap_SiteID a, oa_LastSeen = (case ap_LastSeen a of None \<Rightarrow> 0 | Some t \<Rightarrow> t)\<rparr>)
             (filter ap_Active (kd_agents db)))"

definition central_runs :: "check_world \<Rightarrow> online_agent list \<Rightarrow> stored_check \<Rightarrow> bool" where
  "central_runs env agents c \<longleftrightarrow>
     kv_scans env (cr_ID c) \<and> check_due (kv_now env) c \<and>
     \<not> (\<not> IsCentralOnly (cr_TypeID c) \<and> SelectRunner c agents (kv_now env) = ''agent'')"

definition tickChecks :: "check_world \<Rightarrow> checks_db \<Rightarrow> checks_db" where
  "tickChecks env db =
     (let agents = listOnlineAgents env db in
      if kv_list_fails env then db
      else foldl (\<lambda>d c. if central_runs env agents c then executeCheck env c ''central'' d else d) db (filter sk_Enabled (kd_checks db)))"

subsection \<open>Checks for agents\<close>

text \<open>\<open>Inl (status, code)\<close> is an error answer.\<close>

definition agentIDFromRequest :: "access_env \<Rightarrow> string \<Rightarrow> request \<Rightarrow> (nat \<times> string) + uuid" where
  "agentIDFromRequest env query_token rq =
     (let tok = (if query_token = [] then bearerToken rq else query_token) in
      if tok = [] then Inl (401, ''unauthorized'')
      else case Parse_token (ae_lib env) (ae_iss env) (ae_now env) tok KindAgent of
        None \<Rightarrow> Inl (401, ''unauthorized'')
      | Some c \<Rightarrow> Inr (cl_UserID c))"

record check_job =
  cj_id :: uuid
  cj_typeId :: string
  cj_name :: string
  cj_params :: params

text \<open>The query has two placeholders, for the site and the agent; the code passes the agent only.\<close>

definition agent_check_rows :: "check_world \<Rightarrow> uuid list \<Rightarrow> checks_db \<Rightarrow> stored_check list option" where
  "agent_check_rows env args db =
     (if kv_list_fails env \<or> \<not> kv_accepts env 2 args then None
      else Some (filter (\<lambda>c. sk_Enabled c \<and> cr_SiteID c = args ! 0 \<and> cr_PreferredRunner c \<in> {''auto'', ''agent''} \<and>
             (cr_AssignedAgentID c = None \<or> cr_AssignedAgentID c = Some (args ! 1))) (kd_checks db)))"

definition touch_agent :: "int \<Rightarrow> uuid \<Rightarrow> checks_db \<Rightarrow> checks_db" where
  "touch_agent now i db =
     db\<lparr>kd_agents := map (\<lambda>a. if ap_ID a = i then a\<lparr>ap_LastSeen := Some now\<rparr> else a) (kd_agents db)\<rparr>"

definition agent_wants :: "check_world \<Rightarrow> online_agent list \<Rightarrow> stored_check \<Rightarrow> bool" where
  "agent_wants env agents c \<longleftrightarrow>
     kv_scans env (cr_ID c) \<and> \<not> IsCentralOnly (cr_TypeID c) \<and> check_due (kv_now env) c \<and>
     SelectRunner c agents (kv_now env) = ''agent''"

definition job_of :: "stored_check \<Rightarrow> check_job" where
  "job_of c = \<lparr>cj_id = cr_ID c, cj_typeId = cr_TypeID c, cj_name = cr_Name c, cj_params = cr_Params c\<rparr>"

definition handleAgentListChecks :: "check_world \<Rightarrow> (nat \<times> string) + uuid \<Rightarrow> checks_db \<Rightarrow> ((nat \<times> string) + check_job list) \<times> checks_db" where
  "handleAgentListChecks env auth db =
     (case auth of
        Inl e \<Rightarrow> (Inl e, db)
      | Inr agentID \<Rightarrow>
          (case find (\<lambda>a. ap_ID a = agentID) (kd_agents db) of
             None \<Rightarrow> (Inl (401, ''unauthorized''), db)
           | Some a \<Rightarrow>
               let db1 = touch_agent (kv_now env) agentID db;
                   agents = [\<lparr>oa_ID = agentID, oa_SiteID = ap_SiteID a, oa_LastSeen = kv_now env\<rparr>] in
               case agent_check_rows env [agentID] db1 of
                 None \<Rightarrow> (Inl (500, ''db_error''), db1)
               | Some rows \<Rightarrow> (Inr (map job_of (filter (agent_wants env agents) rows)), db1)))"

text \<open>
  A sample on the wire: \<open>omitempty\<close> leaves a zero value and an empty text out. What does not encode
  (a value that is not finite) makes the body empty.
\<close>

definition wire_sample :: "sample_obs \<Rightarrow> params" where
  "wire_sample s =
     (let v = (if sm_HasNum s then sm_Value s else Fin 0) in
      [(''key'', AnyString (sm_Key s))] @ (if v = Fin 0 then [] else [(''value'', AnyF64 v)]) @
      (if sm_Text s = [] then [] else [(''text'', AnyString (sm_Text s))]))"

record wire_result =
  wr_checkId :: string
  wr_ok :: bool
  wr_error :: string
  wr_samples :: "params list"

definition finite_sample :: "sample_obs \<Rightarrow> bool" where
  "finite_sample s = (case sm_Value s of Fin _ \<Rightarrow> True | _ \<Rightarrow> \<not> sm_HasNum s)"

definition run_job :: "check_world \<Rightarrow> check_job \<Rightarrow> check_result" where
  "run_job env j = Run (kv_net env (cj_id j)) (cj_typeId j) (cj_params j) None"

definition wire_of :: "uuid \<Rightarrow> check_result \<Rightarrow> wire_result" where
  "wire_of i res = \<lparr>wr_checkId = i, wr_ok = rs_OK res, wr_error = rs_Error res, wr_samples = map wire_sample (rs_Samples res)\<rparr>"

text \<open>The batch the agent posts: none when it got no job; \<open>Some None\<close> is a body that did not encode.\<close>

definition agent_results :: "check_world \<Rightarrow> check_job list \<Rightarrow> wire_result list option option" where
  "agent_results env jobs =
     (if jobs = [] then None
      else let mine = filter (\<lambda>j. \<not> IsCentralOnly (cj_typeId j)) jobs; results = map (run_job env) mine in
        if list_all (\<lambda>r. list_all finite_sample (rs_Samples r)) results
        then Some (Some (map2 (\<lambda>j r. wire_of (cj_id j) r) mine results)) else Some None)"

definition unwire_sample :: "params \<Rightarrow> sample_obs list" where
  "unwire_sample sm =
     (case map_of sm ''key'' of
        Some (AnyString k) \<Rightarrow>
          if k = [] then []
          else [\<lparr>sm_Key = k,
                 sm_Value = (case map_of sm ''value'' of Some (AnyF64 v) \<Rightarrow> v | _ \<Rightarrow> Fin 0),
                 sm_Text = (case map_of sm ''text'' of Some (AnyString t) \<Rightarrow> t | _ \<Rightarrow> []),
                 sm_HasNum = (case map_of sm ''value'' of Some (AnyF64 v) \<Rightarrow> True | _ \<Rightarrow> False)\<rparr>]
      | _ \<Rightarrow> [])"

definition result_of_wire :: "wire_result \<Rightarrow> check_result" where
  "result_of_wire w = \<lparr>rs_OK = wr_ok w, rs_Error = wr_error w, rs_Samples = concat (map unwire_sample (wr_samples w))\<rparr>"

definition accept_result :: "check_world \<Rightarrow> uuid \<Rightarrow> wire_result \<Rightarrow> checks_db \<Rightarrow> checks_db" where
  "accept_result env agentID w db =
     (case kv_parse_uuid env (wr_checkId w) of
        None \<Rightarrow> db
      | Some cid \<Rightarrow>
          (case find (\<lambda>c. cr_ID c = cid \<and> (cr_AssignedAgentID c = None \<or> cr_AssignedAgentID c = Some agentID)) (kd_checks db) of
             None \<Rightarrow> db
           | Some c \<Rightarrow>
               if IsCentralOnly (cr_TypeID c) then db
               else snd (PersistCheckResult env c (result_of_wire w) ''agent'' db)))"

definition handleAgentCheckResults :: "check_world \<Rightarrow> (nat \<times> string) + uuid \<Rightarrow> wire_result list option \<Rightarrow> checks_db \<Rightarrow> nat \<times> checks_db" where
  "handleAgentCheckResults env auth body db =
     (case auth of
        Inl (status, _) \<Rightarrow> (status, db)
      | Inr agentID \<Rightarrow>
          (case body of
             None \<Rightarrow> (400, db)
           | Some results \<Rightarrow> (200, foldl (\<lambda>d w. accept_result env agentID w d) db results)))"

text \<open>One round of the agent against the server, each request authenticated as the agent.\<close>

definition pullAndRunChecks :: "check_world \<Rightarrow> uuid \<Rightarrow> checks_db \<Rightarrow> checks_db" where
  "pullAndRunChecks env agentID db =
     (case handleAgentListChecks env (Inr agentID) db of
        (Inl e, db1) \<Rightarrow> db1
      | (Inr jobs, db1) \<Rightarrow>
          (case agent_results env jobs of
             None \<Rightarrow> db1
           | Some body \<Rightarrow> snd (handleAgentCheckResults env (Inr agentID) body db1)))"

subsection \<open>Creating and changing checks\<close>

definition put_param :: "string \<Rightarrow> any \<Rightarrow> params \<Rightarrow> params" where
  "put_param k v ps = upsert k v (\<lambda>_. v) ps"

definition validateCheckCredential :: "check_world \<Rightarrow> (any \<Rightarrow> string) \<Rightarrow> uuid \<Rightarrow> string \<Rightarrow> params \<Rightarrow> checks_db \<Rightarrow> string + uuid option" where
  "validateCheckCredential env fmt_any siteID typeID ps db =
     (case ExpectedCredKind typeID of
        None \<Rightarrow> Inr None
      | Some wantKind \<Rightarrow>
          (case CredentialIDFromParams fmt_any (kv_parse_uuid env) ps of
             None \<Rightarrow> Inl (''credentialId required for '' @ typeID)
           | Some i \<Rightarrow>
               (case (if kv_vault_fails env then None else find (\<lambda>v. vr_ID v = i) (kd_vault db)) of
                  None \<Rightarrow> Inl ''credentialId not found''
                | Some v \<Rightarrow>
                    if vr_SiteID v \<noteq> siteID then Inl ''credentialId must belong to the same site''
                    else if vr_Kind v \<noteq> wantKind then Inl (''credential kind must be '' @ wantKind @ '' for '' @ typeID)
                    else Inr (Some i))))"

definition parseOptionalUUID :: "check_world \<Rightarrow> string option \<Rightarrow> uuid option" where
  "parseOptionalUUID env p = (case p of None \<Rightarrow> None | Some s \<Rightarrow> if s = [] then None else kv_parse_uuid env s)"

definition runner_names :: "string list" where
  "runner_names = [''auto'', ''agent'', ''collector'', ''central'']"

record create_check_req =
  nq_SiteID :: string
  nq_Name :: string
  nq_TypeID :: string
  nq_Params :: "params option"
  nq_IntervalSeconds :: "int option"
  nq_PreferredRunner :: string
  nq_AssignedAgentID :: "string option"
  nq_AssignedCollectorID :: "string option"
  nq_ApplianceID :: "string option"
  nq_CredentialID :: "string option"
  nq_Enabled :: "bool option"

definition requested_params :: "create_check_req \<Rightarrow> params" where
  "requested_params req =
     (let ps = (case nq_Params req of None \<Rightarrow> [] | Some p \<Rightarrow> p) in
      case nq_CredentialID req of None \<Rightarrow> ps
      | Some c \<Rightarrow> if c = [] then ps else put_param ''credentialId'' (AnyString c) ps)"

definition requested_runner :: "create_check_req \<Rightarrow> string" where
  "requested_runner req =
     (if IsCentralOnly (nq_TypeID req) then ''central''
      else if nq_PreferredRunner req = [] then ''auto'' else nq_PreferredRunner req)"

definition new_check :: "check_world \<Rightarrow> create_check_req \<Rightarrow> uuid \<Rightarrow> uuid \<Rightarrow> uuid option \<Rightarrow> stored_check" where
  "new_check env req i siteID credID =
     (let central = IsCentralOnly (nq_TypeID req) in
      \<lparr>cr_ID = i, cr_SiteID = siteID, cr_Name = nq_Name req, cr_TypeID = nq_TypeID req, cr_Params = requested_params req,
       cr_IntervalSeconds = (case nq_IntervalSeconds req of None \<Rightarrow> 60 | Some n \<Rightarrow> if 15 \<le> n then n else 60),
       cr_PreferredRunner = requested_runner req,
       cr_AssignedAgentID = (if central then None else parseOptionalUUID env (nq_AssignedAgentID req)),
       cr_AssignedCollectorID = (if central then None else parseOptionalUUID env (nq_AssignedCollectorID req)),
       cr_ApplianceID = parseOptionalUUID env (nq_ApplianceID req), cr_CredentialID = credID,
       sk_Enabled = (case nq_Enabled req of None \<Rightarrow> True | Some b \<Rightarrow> b), sk_LastRun = None, sk_LastOK = None, sk_LastError = None\<rparr>)"

text \<open>\<open>insert\<close> is the id the database gives the row, or its refusal.\<close>

definition handleCreateCheck :: "check_world \<Rightarrow> (any \<Rightarrow> string) \<Rightarrow> uuid option \<Rightarrow> create_check_req option \<Rightarrow> checks_db \<Rightarrow> (nat \<times> string) \<times> checks_db" where
  "handleCreateCheck env fmt_any new_id body db =
     (case body of
        None \<Rightarrow> ((400, ''siteId, name, typeId required''), db)
      | Some req \<Rightarrow>
          if nq_SiteID req = [] \<or> nq_Name req = [] \<or> nq_TypeID req = [] then ((400, ''siteId, name, typeId required''), db)
          else if Lookup (nq_TypeID req) = None then ((400, ''unknown typeId''), db)
          else case kv_parse_uuid env (nq_SiteID req) of
            None \<Rightarrow> ((400, ''invalid siteId''), db)
          | Some siteID \<Rightarrow>
              if requested_runner req \<notin> set runner_names
                then ((400, ''preferredRunner must be auto|agent|collector|central''), db)
              else case RejectSecretParams (case nq_Params req of None \<Rightarrow> [] | Some p \<Rightarrow> p) of
                Some k \<Rightarrow> ((400, ''params must not contain secret field'' @ k), db)
              | None \<Rightarrow>
                  (case validateCheckCredential env fmt_any siteID (nq_TypeID req) (requested_params req) db of
                     Inl e \<Rightarrow> ((400, e), db)
                   | Inr credID \<Rightarrow>
                       (case new_id of
                          None \<Rightarrow> ((400, ''insert failed''), db)
                        | Some i \<Rightarrow> ((201, i), db\<lparr>kd_checks := kd_checks db @ [new_check env req i siteID credID]\<rparr>))))"

definition update_check :: "bool \<Rightarrow> uuid \<Rightarrow> (stored_check \<Rightarrow> stored_check) \<Rightarrow> checks_db \<Rightarrow> checks_db" where
  "update_check refused i f db =
     (if refused then db else db\<lparr>kd_checks := map (\<lambda>c. if cr_ID c = i then f c else c) (kd_checks db)\<rparr>)"

definition patch_name :: "bool \<Rightarrow> uuid \<Rightarrow> any option \<Rightarrow> checks_db \<Rightarrow> checks_db" where
  "patch_name refused i x db =
     (case x of Some (AnyString v) \<Rightarrow> if v = [] then db else update_check refused i (\<lambda>c. c\<lparr>cr_Name := v\<rparr>) db | _ \<Rightarrow> db)"

definition patch_enabled :: "bool \<Rightarrow> uuid \<Rightarrow> any option \<Rightarrow> checks_db \<Rightarrow> checks_db" where
  "patch_enabled refused i x db =
     (case x of Some (AnyBool b) \<Rightarrow> update_check refused i (\<lambda>c. c\<lparr>sk_Enabled := b\<rparr>) db | _ \<Rightarrow> db)"

text \<open>The schema refuses other names of runners and intervals below 15 or beyond 32 bits.\<close>

definition patch_runner :: "bool \<Rightarrow> uuid \<Rightarrow> string \<Rightarrow> any option \<Rightarrow> checks_db \<Rightarrow> checks_db" where
  "patch_runner refused i typeID x db =
     (case x of
        Some (AnyString v) \<Rightarrow>
          if v = [] then db
          else let v' = (if IsCentralOnly typeID then ''central'' else v) in
            update_check (refused \<or> v' \<notin> set runner_names) i (\<lambda>c. c\<lparr>cr_PreferredRunner := v'\<rparr>) db
      | _ \<Rightarrow> db)"

definition patch_interval :: "(f64 \<Rightarrow> int) \<Rightarrow> bool \<Rightarrow> uuid \<Rightarrow> any option \<Rightarrow> checks_db \<Rightarrow> checks_db" where
  "patch_interval oor refused i x db =
     (case x of
        Some (AnyF64 v) \<Rightarrow>
          if f64_le (Fin 15) v
          then let n = f64_to_i64 oor v in
            update_check (refused \<or> n < 15 \<or> 2 ^ 31 \<le> n) i (\<lambda>c. c\<lparr>cr_IntervalSeconds := n\<rparr>) db
          else db
      | _ \<Rightarrow> db)"

definition patch_plain :: "(f64 \<Rightarrow> int) \<Rightarrow> (string \<Rightarrow> bool) \<Rightarrow> uuid \<Rightarrow> string \<Rightarrow> params \<Rightarrow> checks_db \<Rightarrow> checks_db" where
  "patch_plain oor fails i typeID req db =
     patch_interval oor (fails ''intervalSeconds'') i (map_of req ''intervalSeconds'')
       (patch_runner (fails ''preferredRunner'') i typeID (map_of req ''preferredRunner'')
         (patch_enabled (fails ''enabled'') i (map_of req ''enabled'')
           (patch_name (fails ''name'') i (map_of req ''name'') db)))"

definition patch_params :: "check_world \<Rightarrow> (any \<Rightarrow> string) \<Rightarrow> (string \<Rightarrow> bool) \<Rightarrow> uuid \<Rightarrow> uuid \<Rightarrow> string \<Rightarrow> params \<Rightarrow> checks_db \<Rightarrow> nat \<times> checks_db" where
  "patch_params env fmt_any fails i siteID typeID ps db =
     (case validateCheckCredential env fmt_any siteID typeID ps db of
        Inl e \<Rightarrow> (400, db)
      | Inr credID \<Rightarrow> (200, update_check (fails ''params'') i (\<lambda>c. c\<lparr>cr_Params := ps, cr_CredentialID := credID\<rparr>) db))"

definition handlePatchCheck :: "check_world \<Rightarrow> (any \<Rightarrow> string) \<Rightarrow> (f64 \<Rightarrow> int) \<Rightarrow> (string \<Rightarrow> bool) \<Rightarrow> string \<Rightarrow> params option \<Rightarrow> checks_db \<Rightarrow> nat \<times> checks_db" where
  "handlePatchCheck env fmt_any oor fails id_text body db =
     (case kv_parse_uuid env id_text of
        None \<Rightarrow> (400, db)
      | Some i \<Rightarrow>
          (case body of
             None \<Rightarrow> (400, db)
           | Some req \<Rightarrow>
               (case (if fails ''lookup'' then None else find (\<lambda>c. cr_ID c = i) (kd_checks db)) of
                  None \<Rightarrow> (404, db)
                | Some c0 \<Rightarrow>
                    let siteID = cr_SiteID c0; typeID = cr_TypeID c0; db1 = patch_plain oor fails i typeID req db in
                    (case map_of req ''params'' of
                       Some (AnyObject ps) \<Rightarrow>
                         if RejectSecretParams ps \<noteq> None then (400, db1)
                         else patch_params env fmt_any fails i siteID typeID
                           (case map_of req ''credentialId'' of
                              Some (AnyString cid) \<Rightarrow> if cid = [] then ps else put_param ''credentialId'' (AnyString cid) ps
                            | _ \<Rightarrow> ps) db1
                     | _ \<Rightarrow>
                         (case map_of req ''credentialId'' of
                            Some (AnyString cid) \<Rightarrow>
                              let m = (case (if fails ''read'' then None else find (\<lambda>c. cr_ID c = i) (kd_checks db1)) of
                                         None \<Rightarrow> [] | Some c \<Rightarrow> cr_Params c) in
                              patch_params env fmt_any fails i siteID typeID (put_param ''credentialId'' (AnyString cid) m) db1
                          | _ \<Rightarrow> (200, db1))))))"

definition handleDeleteCheck :: "check_world \<Rightarrow> bool \<Rightarrow> string \<Rightarrow> checks_db \<Rightarrow> nat \<times> checks_db" where
  "handleDeleteCheck env refused id_text db =
     (case kv_parse_uuid env id_text of
        None \<Rightarrow> (400, db)
      | Some i \<Rightarrow>
          (200, if refused then db
             else db\<lparr>kd_checks := filter (\<lambda>c. cr_ID c \<noteq> i) (kd_checks db), kd_samples := filter (\<lambda>r. ob_Check r \<noteq> i) (kd_samples db)\<rparr>))"

subsection \<open>Vault checks stay bound to their vault row\<close>

definition vault_bound :: "vault_row list \<Rightarrow> 'a check_row_scheme \<Rightarrow> bool" where
  "vault_bound vault c \<longleftrightarrow>
     (case ExpectedCredKind (cr_TypeID c) of
        None \<Rightarrow> True
      | Some k \<Rightarrow> cr_PreferredRunner c = ''central'' \<and>
          (\<exists>v \<in> set vault. cr_CredentialID c = Some (vr_ID v) \<and> vr_SiteID v = cr_SiteID c \<and> vr_Kind v = k))"

definition vault_checks_ok :: "checks_db \<Rightarrow> bool" where
  "vault_checks_ok db \<longleftrightarrow>
     distinct (map cr_ID (kd_checks db)) \<and> (\<forall>c \<in> set (kd_checks db). vault_bound (kd_vault db) c)"

text \<open>Steps of the service; a new row gets an id of its own.\<close>

inductive check_step :: "checks_db \<Rightarrow> checks_db \<Rightarrow> bool" where
  tick: "check_step db (tickChecks env db)"
| listing: "check_step db (snd (handleAgentListChecks env auth db))"
| results: "check_step db (snd (handleAgentCheckResults env auth body db))"
| create: "(\<forall>i. new_id = Some i \<longrightarrow> i \<notin> cr_ID ` set (kd_checks db)) \<Longrightarrow>
     check_step db (snd (handleCreateCheck env fmt_any new_id creq db))"
| patch: "check_step db (snd (handlePatchCheck env fmt_any oor fails id_text req db))"
| delete: "check_step db (snd (handleDeleteCheck env refused id_text db))"

text \<open>What a run leaves alone: everything of the checks but the marks of their last run, and the vault.\<close>

definition settings :: "checks_db \<Rightarrow> (check_row \<times> bool) list \<times> vault_row list" where
  "settings db = (map (\<lambda>c. (check_row.truncate c, sk_Enabled c)) (kd_checks db), kd_vault db)"

lemma truncate_sel [simp]:
  "cr_ID (check_row.truncate c) = cr_ID c" "cr_SiteID (check_row.truncate c) = cr_SiteID c"
  "cr_TypeID (check_row.truncate c) = cr_TypeID c" "cr_PreferredRunner (check_row.truncate c) = cr_PreferredRunner c"
  "cr_CredentialID (check_row.truncate c) = cr_CredentialID c"
  by (simp_all add: check_row.truncate_def)

lemma vault_bound_truncate: "vault_bound vault (check_row.truncate c) = vault_bound vault c"
  by (simp add: vault_bound_def split: option.split)

lemma vault_checks_ok_settings: "settings db' = settings db \<Longrightarrow> vault_checks_ok db' = vault_checks_ok db"
proof -
  have "vault_checks_ok d \<longleftrightarrow> distinct (map (cr_ID \<circ> fst) (fst (settings d))) \<and> (\<forall>p \<in> set (fst (settings d)). vault_bound (snd (settings d)) (fst p))" for d
    by (simp add: vault_checks_ok_def settings_def vault_bound_truncate comp_def)
  then show "settings db' = settings db \<Longrightarrow> vault_checks_ok db' = vault_checks_ok db" by presburger
qed

lemma mark_run_settings: "(\<lambda>c. (check_row.truncate c, sk_Enabled c)) (mark_run i now res c) = (check_row.truncate c, sk_Enabled c)"
  by (simp add: mark_run_def check_row.truncate_def)

lemma persist_settings [simp]: "settings (snd (PersistCheckResult env c res runner db)) = settings db"
  by (simp add: PersistCheckResult_def settings_def Let_def mark_run_settings comp_def split: prod.split bool.split)

lemma execute_settings [simp]: "settings (executeCheck env c runner db) = settings db"
  by (simp add: executeCheck_def)

lemma foldl_settings: "(\<And>d x. settings (f d x) = settings d) \<Longrightarrow> settings (foldl f db xs) = settings db"
  by (induction xs arbitrary: db) simp_all

lemma tick_settings [simp]: "settings (tickChecks env db) = settings db"
  unfolding tickChecks_def Let_def by (auto intro!: foldl_settings)

lemma accept_settings [simp]: "settings (accept_result env i w db) = settings db"
  by (simp add: accept_result_def split: option.split)

lemma results_settings [simp]: "settings (snd (handleAgentCheckResults env auth body db)) = settings db"
  by (auto simp: handleAgentCheckResults_def intro!: foldl_settings split: sum.split option.split)

lemma listing_settings [simp]: "settings (snd (handleAgentListChecks env auth db)) = settings db"
  by (simp add: handleAgentListChecks_def Let_def touch_agent_def settings_def split: sum.split option.split)

lemma pull_settings [simp]: "settings (pullAndRunChecks env i db) = settings db"
proof -
  obtain r db1 where r: "handleAgentListChecks env (Inr i) db = (r, db1)" by fastforce
  then have "settings db1 = settings db" by (metis listing_settings snd_conv)
  then show ?thesis by (simp add: pullAndRunChecks_def r split: sum.split option.split)
qed

lemma validated_bound:
  assumes "validateCheckCredential env fmt_any siteID typeID ps db = Inr credID"
  shows "case ExpectedCredKind typeID of None \<Rightarrow> credID = None
    | Some k \<Rightarrow> \<exists>v \<in> set (kd_vault db). credID = Some (vr_ID v) \<and> vr_SiteID v = siteID \<and> vr_Kind v = k"
  using assms by (auto simp: validateCheckCredential_def dest!: find_SomeD split: option.splits if_splits) metis

lemma update_check_ok:
  assumes "vault_checks_ok db"
    and "\<And>c. c \<in> set (kd_checks db) \<Longrightarrow> cr_ID c = i \<Longrightarrow> cr_ID (f c) = i \<and> vault_bound (kd_vault db) (f c)"
  shows "vault_checks_ok (update_check refused i f db)"
proof (cases refused)
  case False
  have "map cr_ID (map (\<lambda>c. if cr_ID c = i then f c else c) (kd_checks db)) = map cr_ID (kd_checks db)"
    using assms(2) by simp
  then show ?thesis using assms False by (auto simp: update_check_def vault_checks_ok_def simp del: map_map)
qed (use assms in \<open>simp add: update_check_def\<close>)

lemma vault_bound_name [simp]:
  "vault_bound vault (c\<lparr>cr_Name := v\<rparr>) = vault_bound vault c"
  "vault_bound vault (d\<lparr>sk_Enabled := b\<rparr>) = vault_bound vault d"
  "vault_bound vault (c\<lparr>cr_IntervalSeconds := n\<rparr>) = vault_bound vault c"
  by (simp_all add: vault_bound_def split: option.split)

lemma update_check_frame [simp]:
  "kd_vault (update_check refused i f db) = kd_vault db"
  by (simp add: update_check_def)

text \<open>A check found by its id is the only one with it, so what holds of the row read holds of the row updated.\<close>

definition row_site_type :: "uuid \<Rightarrow> uuid \<Rightarrow> string \<Rightarrow> checks_db \<Rightarrow> bool" where
  "row_site_type i siteID typeID db \<longleftrightarrow> (\<forall>c \<in> set (kd_checks db). cr_ID c = i \<longrightarrow> cr_SiteID c = siteID \<and> cr_TypeID c = typeID)"

lemma update_check_rows:
  "kd_checks (update_check refused i f db) =
     (if refused then kd_checks db else map (\<lambda>c. if cr_ID c = i then f c else c) (kd_checks db))"
  by (simp add: update_check_def)

lemma row_site_type_update:
  assumes "\<And>c. cr_ID (f c) = cr_ID c \<and> cr_SiteID (f c) = cr_SiteID c \<and> cr_TypeID (f c) = cr_TypeID c"
    and "row_site_type i siteID typeID db"
  shows "row_site_type i siteID typeID (update_check refused i f db)"
proof (cases refused)
  case False
  have "cr_SiteID c = siteID \<and> cr_TypeID c = typeID"
    if "b \<in> set (kd_checks db)" "c = (if cr_ID b = i then f b else b)" "cr_ID c = i" for b c
    using that assms(1) [of b] assms(2) by (cases "cr_ID b = i") (simp_all add: row_site_type_def)
  note kept = this
  show ?thesis unfolding row_site_type_def
  proof (intro ballI impI)
    fix c assume c: "c \<in> set (kd_checks (update_check refused i f db))" "cr_ID c = i"
    then obtain b where b: "b \<in> set (kd_checks db)" "c = (if cr_ID b = i then f b else b)"
      using False unfolding update_check_rows by (auto simp only: if_False if_not_P set_map image_iff)
    show "cr_SiteID c = siteID \<and> cr_TypeID c = typeID" by (rule kept [OF b c(2)])
  qed
qed (use assms in \<open>simp add: update_check_def\<close>)

text \<open>What every UPDATE of a patch keeps.\<close>

definition patching :: "uuid \<Rightarrow> uuid \<Rightarrow> string \<Rightarrow> vault_row list \<Rightarrow> checks_db \<Rightarrow> bool" where
  "patching i siteID typeID vault d \<longleftrightarrow> vault_checks_ok d \<and> row_site_type i siteID typeID d \<and> kd_vault d = vault"

lemma patching_update:
  assumes "patching i siteID typeID vault d"
    and "\<And>c. cr_ID (f c) = cr_ID c \<and> cr_SiteID (f c) = cr_SiteID c \<and> cr_TypeID (f c) = cr_TypeID c"
    and "\<And>c. cr_TypeID c = typeID \<Longrightarrow> cr_SiteID c = siteID \<Longrightarrow> vault_bound vault c \<Longrightarrow> vault_bound vault (f c)"
  shows "patching i siteID typeID vault (update_check r i f d)"
proof -
  have d: "vault_checks_ok d" "row_site_type i siteID typeID d" "kd_vault d = vault" using assms(1) by (simp_all add: patching_def)
  have "vault_checks_ok (update_check r i f d)"
  proof (rule update_check_ok [OF d(1)])
    fix c assume c: "c \<in> set (kd_checks d)" "cr_ID c = i"
    then have "cr_TypeID c = typeID" "cr_SiteID c = siteID" using d(2) by (simp_all add: row_site_type_def)
    moreover have "vault_bound vault c" using d c(1) by (simp add: vault_checks_ok_def)
    ultimately show "cr_ID (f c) = i \<and> vault_bound (kd_vault d) (f c)" using assms(2) [of c] assms(3) c(2) d(3) by simp
  qed
  then show ?thesis using d row_site_type_update [OF assms(2) d(2)] by (simp add: patching_def)
qed

lemma patching_steps:
  assumes "patching i siteID typeID vault d"
  shows "patching i siteID typeID vault (patch_name r i x d)"
    and "patching i siteID typeID vault (patch_enabled r i x d)"
    and "patching i siteID typeID vault (patch_runner r i typeID x d)"
    and "patching i siteID typeID vault (patch_interval oor r i x d)"
proof -
  have "vault_bound vault (c\<lparr>cr_PreferredRunner := v\<rparr>)"
    if "vault_bound vault c" "v = ''central'' \<or> \<not> IsCentralOnly (cr_TypeID c)" for c :: stored_check and v
    using that by (auto simp: vault_bound_def IsCentralOnly_def RequiresCredential_def split: option.splits)
  note runner = this
  show "patching i siteID typeID vault (patch_name r i x d)" using assms
    by (auto simp: patch_name_def intro!: patching_update split: option.split any.split)
  show "patching i siteID typeID vault (patch_enabled r i x d)" using assms
    by (auto simp: patch_enabled_def intro!: patching_update split: option.split any.split)
  show "patching i siteID typeID vault (patch_runner r i typeID x d)" using assms
    by (auto simp: patch_runner_def Let_def intro!: patching_update runner simp del: if_split split: option.split any.split)
  show "patching i siteID typeID vault (patch_interval oor r i x d)" using assms
    by (auto simp: patch_interval_def Let_def intro!: patching_update split: option.split any.split)
qed

lemma patching_plain: "patching i siteID typeID vault d \<Longrightarrow> patching i siteID typeID vault (patch_plain oor fails i typeID req d)"
  by (simp add: patch_plain_def patching_steps)

lemma patching_params:
  assumes "patching i siteID typeID (kd_vault d) d" and "vault_checks_ok d"
  shows "vault_checks_ok (snd (patch_params env fmt_any fails i siteID typeID ps d))"
proof (cases "validateCheckCredential env fmt_any siteID typeID ps d")
  case (Inr credID)
  note v = validated_bound [OF Inr]
  have "patching i siteID typeID (kd_vault d)
      (update_check (fails ''params'') i (\<lambda>c. c\<lparr>cr_Params := ps, cr_CredentialID := credID\<rparr>) d)"
  proof (rule patching_update [OF assms(1)])
    fix c :: stored_check assume c: "cr_TypeID c = typeID" "cr_SiteID c = siteID" "vault_bound (kd_vault d) c"
    show "vault_bound (kd_vault d) (c\<lparr>cr_Params := ps, cr_CredentialID := credID\<rparr>)"
      using c v by (auto simp: vault_bound_def split: option.splits)
  qed simp
  then show ?thesis by (simp add: patch_params_def Inr patching_def)
qed (use assms(2) in \<open>simp add: patch_params_def\<close>)

lemma patch_ok:
  assumes "vault_checks_ok db"
  shows "vault_checks_ok (snd (handlePatchCheck env fmt_any oor fails id_text body db))"
proof -
  have go: "vault_checks_ok db1 \<and> (\<forall>ps. vault_checks_ok (snd (patch_params env fmt_any fails i (cr_SiteID c0) (cr_TypeID c0) ps db1)))"
    if c0: "find (\<lambda>c. cr_ID c = i) (kd_checks db) = Some c0" and db1: "db1 = patch_plain oor fails i (cr_TypeID c0) req db" for i c0 req db1
  proof -
    have mem: "c0 \<in> set (kd_checks db)" "cr_ID c0 = i" using c0 by (auto dest: find_SomeD)
    have "row_site_type i (cr_SiteID c0) (cr_TypeID c0) db"
      unfolding row_site_type_def
    proof (intro ballI impI)
      fix c assume "c \<in> set (kd_checks db)" "cr_ID c = i"
      then have "c = c0" using mem assms unfolding vault_checks_ok_def distinct_map by (metis inj_onD)
      then show "cr_SiteID c = cr_SiteID c0 \<and> cr_TypeID c = cr_TypeID c0" by simp
    qed
    then have "patching i (cr_SiteID c0) (cr_TypeID c0) (kd_vault db) db" using assms by (simp add: patching_def)
    from patching_plain [OF this] have "patching i (cr_SiteID c0) (cr_TypeID c0) (kd_vault db) db1" by (simp add: db1)
    then have "patching i (cr_SiteID c0) (cr_TypeID c0) (kd_vault db1) db1" "vault_checks_ok db1" by (simp_all add: patching_def)
    then show ?thesis using patching_params by blast
  qed
  show ?thesis unfolding handlePatchCheck_def Let_def
    using assms go by (simp split: option.split any.split)
qed

lemma create_ok:
  assumes "vault_checks_ok db" and "\<forall>i. new_id = Some i \<longrightarrow> i \<notin> cr_ID ` set (kd_checks db)"
  shows "vault_checks_ok (snd (handleCreateCheck env fmt_any new_id body db))"
proof -
  have "vault_bound (kd_vault db) (new_check env req i siteID credID)"
    if "validateCheckCredential env fmt_any siteID (nq_TypeID req) (requested_params req) db = Inr credID" for req i siteID credID
    using validated_bound [OF that]
    by (auto simp: vault_bound_def new_check_def Let_def requested_runner_def IsCentralOnly_def RequiresCredential_def split: option.splits)
  moreover have "cr_ID (new_check env req i siteID credID) = i" for req i siteID credID by (simp add: new_check_def Let_def)
  ultimately show ?thesis using assms
    by (auto simp: handleCreateCheck_def vault_checks_ok_def split: option.split sum.split)
qed

lemma delete_ok: "vault_checks_ok db \<Longrightarrow> vault_checks_ok (snd (handleDeleteCheck env refused id_text db))"
  by (auto simp: handleDeleteCheck_def vault_checks_ok_def distinct_map_filter split: option.split)

lemma check_step_ok: "check_step db db' \<Longrightarrow> vault_checks_ok db \<Longrightarrow> vault_checks_ok db'"
proof (induction rule: check_step.induct)
  case (tick db env) then show ?case using vault_checks_ok_settings [OF tick_settings] by blast
next
  case (listing db env auth) then show ?case using vault_checks_ok_settings [OF listing_settings] by blast
next
  case (results db env auth body) then show ?case using vault_checks_ok_settings [OF results_settings] by blast
next
  case (create new_id db env fmt_any creq) then show ?case using create_ok by blast
next
  case (patch db) then show ?case using patch_ok by blast
next
  case (delete db) then show ?case using delete_ok by blast
qed

end
