(* ===== verification/Check_Behaviour.thy ===== *)
theory Check_Behaviour
  imports Check_Service
begin

text \<open>
  What the scheduler, the handlers and the agents make of the checks together: checks are independent of
  each other, which credential a check may open, what the agents' reports lose, and which checks are
  never run.
\<close>

subsection \<open>The binding of vault checks\<close>

text \<open>C17: However checks are created, patched, deleted, run and reported, a check of a vault type stays
  assigned to the central runner and bound to a credential of its own site and of the kind it needs.\<close>

theorem vault_checks_bound:
  assumes "check_step\<^sup>*\<^sup>* db db'" and "vault_checks_ok db" and "c \<in> set (kd_checks db')" and "ExpectedCredKind (cr_TypeID c) = Some k"
  shows "cr_PreferredRunner c = ''central'' \<and>
    (\<exists>v \<in> set (kd_vault db'). cr_CredentialID c = Some (vr_ID v) \<and> vr_SiteID v = cr_SiteID c \<and> vr_Kind v = k)"
proof -
  have "vault_checks_ok db'" using assms(1,2) by (induction rule: rtranclp_induct) (auto intro: check_step_ok)
  then show ?thesis using assms(3,4) by (fastforce simp: vault_checks_ok_def vault_bound_def)
qed

subsection \<open>Checks are independent\<close>

text \<open>The part of the database a check is about.\<close>

definition about_check :: "uuid \<Rightarrow> checks_db \<Rightarrow> stored_check list \<times> check_obs list \<times> vault_row list" where
  "about_check i db =
     (filter (\<lambda>c. cr_ID c = i) (kd_checks db), filter (\<lambda>r. ob_Check r = i) (kd_samples db), kd_vault db)"

lemma mark_run_id [simp]: "cr_ID (mark_run i now res c) = cr_ID c"
  by (simp add: mark_run_def)

lemma mark_run_other: "cr_ID c \<noteq> i \<Longrightarrow> mark_run i now res c = c"
  by (simp add: mark_run_def)

lemma filter_mark_run:
  "filter (\<lambda>c. cr_ID c = k) (map (mark_run i now res) cs) =
     (if k = i then map (mark_run i now res) (filter (\<lambda>c. cr_ID c = k) cs) else filter (\<lambda>c. cr_ID c = k) cs)"
proof (cases "k = i")
  case True
  then show ?thesis by (induction cs) simp_all
next
  case False
  then show ?thesis by (induction cs) (auto simp: mark_run_other)
qed

lemma insert_samples_about:
  assumes "\<forall>r \<in> set rs. ob_Check r = i"
  shows "fst (insert_samples env rs t) = fst (insert_samples env rs (filter (\<lambda>r. ob_Check r = i) t)) \<and>
     filter (\<lambda>r. ob_Check r = i) (snd (insert_samples env rs t)) = snd (insert_samples env rs (filter (\<lambda>r. ob_Check r = i) t)) \<and>
     (k \<noteq> i \<longrightarrow> filter (\<lambda>r. ob_Check r = k) (snd (insert_samples env rs t)) = filter (\<lambda>r. ob_Check r = k) t)"
  using assms
proof (induction rs arbitrary: t)
  case (Cons r rs)
  have r: "ob_Check r = i" and rs: "\<forall>r \<in> set rs. ob_Check r = i" using Cons.prems by simp_all
  have taken: "obs_key r \<in> obs_key ` set (filter (\<lambda>r. ob_Check r = i) t) \<longleftrightarrow> obs_key r \<in> obs_key ` set t"
    using r by (simp add: obs_key_def image_iff) metis
  have grown: "filter (\<lambda>r. ob_Check r = i) (t @ [r]) = filter (\<lambda>r. ob_Check r = i) t @ [r]" using r by simp
  show ?case using Cons.IH [OF rs, of "t @ [r]"] taken r unfolding insert_samples.simps grown by simp
qed simp

lemma obs_of_check [simp]: "ob_Check (obs_of i now runner b s) = i"
  by (simp add: obs_of_def)

lemma about_persist:
  assumes "insert_samples env (map (obs_of (cr_ID c) (kv_done_at env (cr_ID c)) runner (rs_OK res)) (rs_Samples res)) (kd_samples db) = (b, t)"
  shows "about_check k (snd (PersistCheckResult env c res runner db)) =
    (if b \<and> \<not> kv_update_fails env (cr_ID c) \<and> k = cr_ID c
     then map (mark_run k (kv_done_at env k) res) (filter (\<lambda>c. cr_ID c = k) (kd_checks db)) else filter (\<lambda>c. cr_ID c = k) (kd_checks db),
     filter (\<lambda>r. ob_Check r = k) t, kd_vault db)"
  by (cases b; cases "kv_update_fails env (cr_ID c)")
    (simp_all add: PersistCheckResult_def about_check_def Let_def assms filter_mark_run)

text \<open>Storing a result touches its own check only, and looks at nothing else.\<close>

lemma persist_other:
  assumes "k \<noteq> cr_ID c"
  shows "about_check k (snd (PersistCheckResult env c res runner db)) = about_check k db"
proof -
  let ?rs = "map (obs_of (cr_ID c) (kv_done_at env (cr_ID c)) runner (rs_OK res)) (rs_Samples res)"
  obtain b t where i: "insert_samples env ?rs (kd_samples db) = (b, t)" by fastforce
  have "filter (\<lambda>r. ob_Check r = k) t = filter (\<lambda>r. ob_Check r = k) (kd_samples db)"
    using insert_samples_about [of ?rs "cr_ID c" env "kd_samples db" k] assms i by simp
  then show ?thesis using assms unfolding about_persist [OF i] by (simp add: about_check_def)
qed

lemma persist_own:
  assumes "about_check (cr_ID c) db = about_check (cr_ID c) db'"
  shows "about_check (cr_ID c) (snd (PersistCheckResult env c res runner db)) =
    about_check (cr_ID c) (snd (PersistCheckResult env c res runner db'))"
proof -
  let ?rs = "map (obs_of (cr_ID c) (kv_done_at env (cr_ID c)) runner (rs_OK res)) (rs_Samples res)"
  let ?own = "filter (\<lambda>r. ob_Check r = cr_ID c)"
  have own: "?own (kd_samples db) = ?own (kd_samples db')" using assms by (simp add: about_check_def)
  obtain b t where i: "insert_samples env ?rs (kd_samples db) = (b, t)" by fastforce
  obtain b' t' where i': "insert_samples env ?rs (kd_samples db') = (b', t')" by fastforce
  have "b = b'" "?own t = ?own t'"
    using insert_samples_about [of ?rs "cr_ID c" env "kd_samples db"] insert_samples_about [of ?rs "cr_ID c" env "kd_samples db'"] own i i'
    by simp_all
  then show ?thesis using assms unfolding about_persist [OF i] about_persist [OF i'] by (simp add: about_check_def)
qed

lemma outcome_vault:
  assumes "kd_vault db = kd_vault db'"
  shows "check_outcome env c db = check_outcome env c db'"
proof -
  have "resolveCheckCred env c db = resolveCheckCred env c db'" unfolding resolveCheckCred_def assms ..
  then show ?thesis by (simp only: check_outcome_def)
qed

lemma execute_other: "k \<noteq> cr_ID c \<Longrightarrow> about_check k (executeCheck env c runner db) = about_check k db"
  by (simp add: executeCheck_def persist_other)

lemma execute_own:
  "about_check (cr_ID c) db = about_check (cr_ID c) db' \<Longrightarrow>
   about_check (cr_ID c) (executeCheck env c runner db) = about_check (cr_ID c) (executeCheck env c runner db')"
  using persist_own [of c db db'] outcome_vault [of db db' env c] by (simp add: executeCheck_def about_check_def)

lemma execute_all_about:
  assumes "distinct (map cr_ID cs)"
  shows "about_check k (foldl (\<lambda>d c. if P c then executeCheck env c runner d else d) db cs) =
    (case find (\<lambda>c. cr_ID c = k) cs of
       Some c \<Rightarrow> about_check k (if P c then executeCheck env c runner db else db)
     | None \<Rightarrow> about_check k db)"
  using assms
proof (induction cs arbitrary: db)
  case (Cons c cs)
  let ?db = "if P c then executeCheck env c runner db else db"
  show ?case
  proof (cases "cr_ID c = k")
    case True
    then have "k \<notin> cr_ID ` set cs" using Cons.prems by simp
    then have "find (\<lambda>c. cr_ID c = k) cs = None" unfolding find_None_iff by blast
    then show ?thesis using Cons True by simp
  next
    case False
    have same: "about_check k ?db = about_check k db" using False by (simp add: execute_other)
    have "about_check k (if P e then executeCheck env e runner ?db else ?db) = about_check k (if P e then executeCheck env e runner db else db)"
      if "find (\<lambda>c. cr_ID c = k) cs = Some e" for e
      using find_SomeD [OF that] execute_own [of e ?db db] same by simp
    then show ?thesis using Cons False same by (auto split: option.split)
  qed
qed simp

lemma tick_each:
  assumes "distinct (map cr_ID (kd_checks db))" and "c \<in> set (kd_checks db)" and "\<not> kv_list_fails env"
  shows "about_check (cr_ID c) (tickChecks env db) =
    about_check (cr_ID c) (if sk_Enabled c \<and> central_runs env (listOnlineAgents env db) c then executeCheck env c ''central'' db else db)"
proof -
  let ?cs = "filter sk_Enabled (kd_checks db)"
  have d: "distinct (map cr_ID ?cs)" using assms(1) by (simp add: distinct_map_filter)
  have only: "e = c" if "e \<in> set (kd_checks db)" "cr_ID e = cr_ID c" for e
    using that assms(1,2) unfolding distinct_map by (metis inj_onD)
  have "find (\<lambda>e. cr_ID e = cr_ID c) ?cs = (if sk_Enabled c then Some c else None)"
  proof (cases "find (\<lambda>e. cr_ID e = cr_ID c) ?cs")
    case None
    then show ?thesis using assms(2) by (auto simp: find_None_iff)
  next
    case (Some e)
    then have "e \<in> set (kd_checks db)" "sk_Enabled e" "cr_ID e = cr_ID c" by (auto dest!: find_SomeD)
    then show ?thesis using Some only by auto
  qed
  then show ?thesis using assms(3) execute_all_about [OF d, of "cr_ID c" "central_runs env (listOnlineAgents env db)" env "''central''" db]
    by (simp add: tickChecks_def Let_def)
qed

lemma tick_about:
  assumes "distinct (map cr_ID (kd_checks db))" and "c \<in> set (kd_checks db)"
    and "\<not> central_runs env (listOnlineAgents env db) c"
  shows "about_check (cr_ID c) (tickChecks env db) = about_check (cr_ID c) db"
  using tick_each [of db c env] assms by (cases "kv_list_fails env") (simp_all add: tickChecks_def Let_def)

text \<open>C16: Checks are independent: what a tick of the central scheduler does to a check (its marks and its
  samples) is what running that check alone would do, when it is enabled, due and not left to an agent,
  and nothing otherwise, whatever the other checks do.\<close>

theorem tick_runs_checks_alone:
  assumes "distinct (map cr_ID (kd_checks db))" and "c \<in> set (kd_checks db)" and "\<not> kv_list_fails env"
  shows "about_check (cr_ID c) (tickChecks env db) =
    about_check (cr_ID c) (if sk_Enabled c \<and> central_runs env (listOnlineAgents env db) c then executeCheck env c ''central'' db else db)"
  using assms by (rule tick_each)

subsection \<open>Vault checks and agents\<close>

text \<open>What the agents may ask for.\<close>

inductive agent_step :: "checks_db \<Rightarrow> checks_db \<Rightarrow> bool" where
  list: "agent_step db (snd (handleAgentListChecks env auth db))"
| post: "agent_step db (snd (handleAgentCheckResults env auth body db))"

lemma ids_of_settings: "settings db' = settings db \<Longrightarrow> map cr_ID (kd_checks db') = map cr_ID (kd_checks db)"
proof -
  have "map cr_ID (kd_checks d) = map (cr_ID \<circ> fst) (fst (settings d))" for d by (simp add: settings_def comp_def)
  then show "settings db' = settings db \<Longrightarrow> map cr_ID (kd_checks db') = map cr_ID (kd_checks db)" by presburger
qed

lemma agent_step_settings: "agent_step db db' \<Longrightarrow> settings db' = settings db"
  by (erule agent_step.cases) simp_all

lemma listing_about [simp]: "about_check i (snd (handleAgentListChecks env auth db)) = about_check i db"
  by (simp add: handleAgentListChecks_def Let_def touch_agent_def about_check_def split: sum.split option.split)

text \<open>The row found by an id is central-only exactly when the settings of the table say so.\<close>

definition central_id :: "uuid \<Rightarrow> checks_db \<Rightarrow> bool" where
  "central_id i db \<longleftrightarrow> (\<forall>p \<in> set (fst (settings db)). cr_ID (fst p) = i \<longrightarrow> IsCentralOnly (cr_TypeID (fst p)))"

lemma central_idD: "central_id i db \<Longrightarrow> c \<in> set (kd_checks db) \<Longrightarrow> cr_ID c = i \<Longrightarrow> IsCentralOnly (cr_TypeID c)"
  by (auto simp: central_id_def settings_def)

lemma accept_about:
  assumes "central_id i db"
  shows "about_check i (accept_result env agentID w db) = about_check i db"
proof (cases "kv_parse_uuid env (wr_checkId w)")
  case (Some cid)
  let ?f = "find (\<lambda>c. cr_ID c = cid \<and> (cr_AssignedAgentID c = None \<or> cr_AssignedAgentID c = Some agentID)) (kd_checks db)"
  show ?thesis
  proof (cases ?f)
    case (Some c)
    then have c: "c \<in> set (kd_checks db)" "cr_ID c = cid" using find_SomeD [OF Some] by simp_all
    show ?thesis
    proof (cases "IsCentralOnly (cr_TypeID c)")
      case False
      then have "i \<noteq> cr_ID c" using central_idD [OF assms c(1)] by blast
      then show ?thesis using False Some \<open>kv_parse_uuid env (wr_checkId w) = Some cid\<close> by (simp add: accept_result_def persist_other)
    qed (use Some \<open>kv_parse_uuid env (wr_checkId w) = Some cid\<close> in \<open>simp add: accept_result_def\<close>)
  qed (use Some in \<open>simp add: accept_result_def\<close>)
qed (simp add: accept_result_def)

lemma accept_all_about:
  "central_id i db \<Longrightarrow> about_check i (foldl (\<lambda>d w. accept_result env agentID w d) db ws) = about_check i db"
proof (induction ws arbitrary: db)
  case (Cons w ws)
  have "central_id i (accept_result env agentID w db)" using Cons.prems by (simp add: central_id_def)
  then show ?case using Cons accept_about [of i db env agentID w] by simp
qed simp

lemma agent_step_about: "agent_step db db' \<Longrightarrow> central_id i db \<Longrightarrow> about_check i db' = about_check i db"
proof (induction rule: agent_step.induct)
  case (post db env auth body)
  then show ?case using accept_all_about
    by (simp add: handleAgentCheckResults_def split: sum.split option.split prod.split)
qed simp

text \<open>Whatever requests agents make, no check of a vault type is handed to one of them, and neither its
  samples nor the marks of its last run change.\<close>

theorem agents_never_touch_vault_checks:
  assumes "agent_step\<^sup>*\<^sup>* db db'" and "distinct (map cr_ID (kd_checks db))" and "c \<in> set (kd_checks db)" and "RequiresCredential (cr_TypeID c)"
  shows "about_check (cr_ID c) db' = about_check (cr_ID c) db \<and>
    (case fst (handleAgentListChecks env auth db') of Inl e \<Rightarrow> True | Inr jobs \<Rightarrow> \<not> list_ex (\<lambda>j. RequiresCredential (cj_typeId j)) jobs)"
proof -
  have only: "e = c" if "e \<in> set (kd_checks db)" "cr_ID e = cr_ID c" for e
    using that assms(2,3) unfolding distinct_map by (metis inj_onD)
  have "central_id (cr_ID c) db" using only assms(4) by (auto simp: central_id_def settings_def IsCentralOnly_def)
  with assms(1) have "about_check (cr_ID c) db' = about_check (cr_ID c) db \<and> central_id (cr_ID c) db'"
  proof (induction rule: rtranclp_induct)
    case (step db1 db2)
    then show ?case using agent_step_about [of db1 db2 "cr_ID c"] agent_step_settings [of db1 db2] by (simp add: central_id_def)
  qed simp
  moreover have "\<not> list_ex (\<lambda>j. RequiresCredential (cj_typeId j)) (map job_of (filter (agent_wants env as) rows))" for as rows
    by (induction rows) (simp_all add: job_of_def agent_wants_def IsCentralOnly_def)
  ultimately show ?thesis by (simp add: handleAgentListChecks_def Let_def split: sum.split option.split)
qed

subsection \<open>What the agents' reports lose\<close>

definition without_zero :: "sample_obs \<Rightarrow> sample_obs" where
  "without_zero s = (if sm_HasNum s \<and> sm_Value s \<noteq> Fin 0 then s else s\<lparr>sm_Value := Fin 0, sm_HasNum := False\<rparr>)"

lemma unwire_wire: "unwire_sample (wire_sample s) = (if sm_Key s = [] then [] else [without_zero s])"
  by (cases s) (auto simp: unwire_sample_def wire_sample_def without_zero_def Let_def)

text \<open>What an agent reports arrives as it was measured, except that numbers that are zero arrive as
  samples without a number and samples without a key do not arrive.\<close>

theorem agent_report_roundtrip:
  "result_of_wire (wire_of i res) = res\<lparr>rs_Samples := map without_zero (filter (\<lambda>s. sm_Key s \<noteq> []) (rs_Samples res))\<rparr>"
proof -
  have "concat (map unwire_sample (map wire_sample ss)) = map without_zero (filter (\<lambda>s. sm_Key s \<noteq> []) ss)" for ss
    by (induction ss) (simp_all add: unwire_wire)
  then show ?thesis by (cases res) (simp add: result_of_wire_def wire_of_def)
qed

text \<open>So a certificate for another host looks like one whose match was never measured.\<close>

lemma mismatch_lost:
  "FlatFields ''tls'' (result_of_wire (wire_of i \<lparr>rs_OK = True, rs_Error = [],
     rs_Samples = [sampleNum ''days_to_expiration'' d, sampleNum ''cn_match'' (Fin 0), sampleNum ''up'' (Fin 1)]\<rparr>)) ''tls_cn_match'' = None"
  by (simp add: FlatFields_def Lookup_def Packs_def chan_def result_of_wire_def wire_of_def unwire_wire without_zero_def
      sampleNum_def sample_for_def flat_field_def)

subsection \<open>Checks nobody runs\<close>

text \<open>
  Time passing at a site where some agent is online: ticks of the scheduler and pulls of agents, with a
  driver that takes exactly as many arguments as a statement has placeholders.
\<close>

inductive staffed_step :: "uuid \<Rightarrow> checks_db \<Rightarrow> checks_db \<Rightarrow> bool" for site where
  tick: "\<forall>n args. kv_accepts env n args \<longleftrightarrow> length args = n \<Longrightarrow>
     list_ex (\<lambda>a. oa_SiteID a = site \<and> agent_fresh (kv_now env) a) (listOnlineAgents env db) \<Longrightarrow>
     staffed_step site db (tickChecks env db)"
| pull: "\<forall>n args. kv_accepts env n args \<longleftrightarrow> length args = n \<Longrightarrow> staffed_step site db (pullAndRunChecks env agentID db)"

lemma staffed_agent:
  assumes "list_ex (\<lambda>a. oa_SiteID a = cr_SiteID c \<and> agent_fresh now a) agents"
    and "\<not> IsCentralOnly (cr_TypeID c)" and "cr_PreferredRunner c \<in> {''auto'', ''agent''}"
  shows "SelectRunner c agents now = ''agent''"
proof -
  have "find (\<lambda>a. oa_SiteID a = cr_SiteID c \<and> agent_fresh now a) agents \<noteq> None"
    using assms(1) unfolding find_None_iff list_ex_iff by blast
  moreover have "to_lower (trim_space ''auto'') = ''auto''" "to_lower (trim_space ''agent'') = ''agent''" by code_simp+
  ultimately show ?thesis using assms(2,3) by (auto simp: SelectRunner_def Let_def)
qed

lemma pull_about:
  assumes "\<forall>n args. kv_accepts env n args \<longleftrightarrow> length args = n"
  shows "about_check i (pullAndRunChecks env agentID db) = about_check i db"
  using assms
  by (auto simp: pullAndRunChecks_def handleAgentListChecks_def agent_check_rows_def Let_def touch_agent_def about_check_def
      split: option.split)

lemma staffed_step_settings: "staffed_step site db db' \<Longrightarrow> settings db' = settings db"
  by (erule staffed_step.cases) simp_all

text \<open>C18: As long as some agent of its site is online, a check of a network type that is left to the choice of
  the runner, or meant for an agent, is not run by anyone: the scheduler leaves it to the agents, and the
  query behind their list of checks takes two arguments but gets one.\<close>

theorem agent_checks_starve:
  assumes "(staffed_step (cr_SiteID c))\<^sup>*\<^sup>* db db'" and "distinct (map cr_ID (kd_checks db))" and "c \<in> set (kd_checks db)"
    and "\<not> IsCentralOnly (cr_TypeID c)" and "cr_PreferredRunner c \<in> {''auto'', ''agent''}"
  shows "about_check (cr_ID c) db' = about_check (cr_ID c) db"
proof -
  have "about_check (cr_ID c) db' = about_check (cr_ID c) db \<and> distinct (map cr_ID (kd_checks db'))"
    using assms(1)
  proof (induction rule: rtranclp_induct)
    case base
    then show ?case using assms(2) by simp
  next
    case (step db1 db2)
    have "distinct (map cr_ID (kd_checks db2))"
      using step ids_of_settings [OF staffed_step_settings [OF step.hyps(2)]] by simp
    moreover have mem: "c \<in> set (kd_checks db1)"
    proof -
      have "filter (\<lambda>e. cr_ID e = cr_ID c) (kd_checks db1) = filter (\<lambda>e. cr_ID e = cr_ID c) (kd_checks db)"
        using step.IH by (simp add: about_check_def)
      moreover have "c \<in> set (filter (\<lambda>e. cr_ID e = cr_ID c) (kd_checks db))" using assms(3) by simp
      ultimately have "c \<in> set (filter (\<lambda>e. cr_ID e = cr_ID c) (kd_checks db1))" by (simp only:)
      then show ?thesis by simp
    qed
    moreover from step.hyps(2) have "about_check (cr_ID c) db2 = about_check (cr_ID c) db1"
    proof cases
      case (tick env)
      then have "\<not> central_runs env (listOnlineAgents env db1) c"
        using staffed_agent [OF tick(3) assms(4,5)] assms(4) by (simp add: central_runs_def)
      then show ?thesis using tick_about [of db1 c env] tick(1) step.IH mem by simp
    next
      case (pull env agentID)
      then show ?thesis using pull_about by simp
    qed
    ultimately show ?case using step.IH by simp
  qed
  then show ?thesis by simp
qed

subsection \<open>Witnesses\<close>

definition dead_net :: check_net where
  "dead_net = \<lparr>cn_fmt = (\<lambda>_. []), cn_quote = id, cn_oor = (\<lambda>_. 0), cn_lookup = (\<lambda>_ _ _. (Inl ''down'', 0)),
     cn_cname = (\<lambda>_ _. (Inl ''down'', 0)), cn_icmp_listen = Some ''down'', cn_done = (\<lambda>_. True), cn_echo = (\<lambda>_ _. None),
     cn_dial = (\<lambda>_ _. (Some ''down'', 0)), cn_bad_url = (\<lambda>_. None), cn_http = (\<lambda>_ _. (Inl ''down'', 0)),
     cn_tls = (\<lambda>_ _ _. TLSDialFailed ''down''), cn_sql = (\<lambda>_ _ _ _. SQLOpenFailed ''down''),
     cn_smtp = (\<lambda>_ _. (\<lparr>sp_dial = Some ''down'', sp_handshake = None, sp_client = None, sp_has_starttls = False,
       sp_starttls = None, sp_has_auth = False, sp_auth = (\<lambda>_ _. None), sp_mail = (\<lambda>_. None), sp_rcpt = (\<lambda>_. None), sp_quit = None\<rparr>, 0)),
     cn_imap = (\<lambda>_ _. (\<lparr>ip_dial = Some ''down'', ip_handshake = None, ip_client = None, ip_starttls = None,
       ip_login = (\<lambda>_ _. None), ip_list = (0, None)\<rparr>, 0)),
     cn_ldap = (\<lambda>_ _ _ _ _. (Some ''down'', 0))\<rparr>"

definition dead_world :: check_world where
  "dead_world = \<lparr>kv_net = (\<lambda>_. dead_net), kv_slot = (\<lambda>_. True), kv_now = seconds 1000, kv_done_at = (\<lambda>_. seconds 1001),
     kv_list_fails = False, kv_agents_fail = False, kv_scans = (\<lambda>_. True), kv_accepts = (\<lambda>n args. length args = n),
     kv_insert_fails = (\<lambda>_. False), kv_update_fails = (\<lambda>_. False), kv_vault_fails = False, kv_connected = True,
     kv_encodable = (\<lambda>_. True), kv_sealer = None, kv_decode = (\<lambda>_. Inl ''bad''), kv_parse_uuid = Some\<rparr>"

definition demo_check :: "string \<Rightarrow> string \<Rightarrow> string \<Rightarrow> uuid option \<Rightarrow> stored_check" where
  "demo_check i typeID runner cred =
     \<lparr>cr_ID = i, cr_SiteID = ''s'', cr_Name = ''n'', cr_TypeID = typeID, cr_Params = [], cr_IntervalSeconds = 60,
      cr_PreferredRunner = runner, cr_AssignedAgentID = None, cr_AssignedCollectorID = None, cr_ApplianceID = None,
      cr_CredentialID = cred, sk_Enabled = True, sk_LastRun = None, sk_LastOK = None, sk_LastError = None\<rparr>"

definition demo_checks :: checks_db where
  "demo_checks =
     \<lparr>kd_checks = [demo_check ''c'' ''tcp'' ''auto'' None, demo_check ''d'' ''smtp'' ''central'' (Some ''v'')], kd_samples = [],
      kd_agents = [\<lparr>ap_ID = ''a'', ap_SiteID = ''s'', ap_LastSeen = Some (seconds 990), ap_Active = True\<rparr>],
      kd_vault = [\<lparr>vr_ID = ''v'', vr_SiteID = ''s'', vr_Kind = ''smtp'', vr_Enc = []\<rparr>], kd_bus = []\<rparr>"

lemma demo_staffed: "staffed_step ''s'' demo_checks (tickChecks dead_world demo_checks)"
  by (rule staffed_step.tick) (simp add: dead_world_def, code_simp)

lemma agent_checks_starve_witness:
  "about_check ''c'' (tickChecks dead_world demo_checks) = about_check ''c'' demo_checks \<and>
   central_runs dead_world (listOnlineAgents dead_world (demo_checks\<lparr>kd_agents := []\<rparr>)) (demo_check ''c'' ''tcp'' ''auto'' None)"
proof
  have "staffed_step (cr_SiteID (demo_check ''c'' ''tcp'' ''auto'' None)) demo_checks (tickChecks dead_world demo_checks)"
    using demo_staffed by (simp add: demo_check_def)
  then have "about_check (cr_ID (demo_check ''c'' ''tcp'' ''auto'' None)) (tickChecks dead_world demo_checks) =
      about_check (cr_ID (demo_check ''c'' ''tcp'' ''auto'' None)) demo_checks"
    by (intro agent_checks_starve r_into_rtranclp) (code_simp | simp add: demo_checks_def demo_check_def)+
  then show "about_check ''c'' (tickChecks dead_world demo_checks) = about_check ''c'' demo_checks" by (simp add: demo_check_def)
  show "central_runs dead_world (listOnlineAgents dead_world (demo_checks\<lparr>kd_agents := []\<rparr>)) (demo_check ''c'' ''tcp'' ''auto'' None)"
    by code_simp
qed

lemma tick_runs_checks_alone_witness:
  "about_check ''d'' (tickChecks dead_world demo_checks) = about_check ''d'' (executeCheck dead_world (demo_check ''d'' ''smtp'' ''central'' (Some ''v'')) ''central'' demo_checks)"
proof -
  let ?c = "demo_check ''d'' ''smtp'' ''central'' (Some ''v'')"
  have "about_check (cr_ID ?c) (tickChecks dead_world demo_checks) =
      about_check (cr_ID ?c) (if sk_Enabled ?c \<and> central_runs dead_world (listOnlineAgents dead_world demo_checks) ?c
        then executeCheck dead_world ?c ''central'' demo_checks else demo_checks)"
    by (rule tick_runs_checks_alone) (simp_all add: demo_checks_def demo_check_def dead_world_def)
  moreover have "sk_Enabled ?c" "central_runs dead_world (listOnlineAgents dead_world demo_checks) ?c" by code_simp+
  ultimately show ?thesis by (simp add: demo_check_def)
qed

lemma agents_never_touch_vault_checks_witness:
  "about_check ''d'' (snd (handleAgentCheckResults dead_world (Inr ''a'') (Some [wire_of ''d'' (failed ''x'' [])]) demo_checks)) = about_check ''d'' demo_checks"
proof -
  let ?c = "demo_check ''d'' ''smtp'' ''central'' (Some ''v'')"
  let ?db = "snd (handleAgentCheckResults dead_world (Inr ''a'') (Some [wire_of ''d'' (failed ''x'' [])]) demo_checks)"
  have "agent_step demo_checks ?db" by (rule agent_step.post)
  moreover have "distinct (map cr_ID (kd_checks demo_checks))" "?c \<in> set (kd_checks demo_checks)" "RequiresCredential (cr_TypeID ?c)"
    by code_simp (simp add: demo_checks_def, code_simp)
  ultimately have "about_check (cr_ID ?c) ?db = about_check (cr_ID ?c) demo_checks"
    using agents_never_touch_vault_checks [OF r_into_rtranclp] by blast
  then show ?thesis by (simp add: demo_check_def)
qed

lemma vault_checks_bound_witness:
  "\<exists>v \<in> set (kd_vault (tickChecks dead_world demo_checks)). vr_ID v = ''v'' \<and> vr_SiteID v = ''s'' \<and> vr_Kind v = ''smtp''"
proof -
  let ?c = "demo_check ''d'' ''smtp'' ''central'' (Some ''v'')"
  let ?db = "tickChecks dead_world demo_checks"
  have rows: "kd_checks demo_checks = [demo_check ''c'' ''tcp'' ''auto'' None, ?c]" by (simp add: demo_checks_def)
  have "map fst (fst (settings ?db)) = map fst (fst (settings demo_checks))" by simp
  then have "map check_row.truncate (kd_checks ?db) = map check_row.truncate [demo_check ''c'' ''tcp'' ''auto'' None, ?c]"
    unfolding rows [symmetric] by (simp add: settings_def comp_def)
  then obtain e c where "kd_checks ?db = [e, c]" and c: "check_row.truncate c = check_row.truncate ?c"
    by (auto simp: map_eq_Cons_conv)
  then have mem: "c \<in> set (kd_checks ?db)" by simp
  have cs: "cr_TypeID c = ''smtp''" "cr_SiteID c = ''s''" "cr_CredentialID c = Some ''v''"
    using c truncate_sel [of c] truncate_sel [of ?c] by (simp_all add: demo_check_def)
  have "ExpectedCredKind (cr_TypeID c) = Some ''smtp''" unfolding cs by code_simp
  moreover have "vault_checks_ok demo_checks" by code_simp
  moreover have "check_step demo_checks ?db" by (rule check_step.tick)
  ultimately have "\<exists>v \<in> set (kd_vault ?db). cr_CredentialID c = Some (vr_ID v) \<and> vr_SiteID v = cr_SiteID c \<and> vr_Kind v = ''smtp''"
    using vault_checks_bound [OF r_into_rtranclp, of demo_checks ?db c "''smtp''"] mem by blast
  then show ?thesis using cs by auto
qed

end
