(* ===== verification/Meraki_Snapshot.thy ===== *)
theory Meraki_Snapshot
  imports Float64
begin

text \<open>
  The snapshot of a Meraki device (\<open>internal/poller/meraki_telemetry.go\<close>): what the Dashboard poller
  stores for an appliance and what the topology reads. Times are nanoseconds.
\<close>

record MerakiPowerSupplySnap =
  mps_Slot :: int
  mps_Serial :: string
  mps_Model :: string
  mps_Status :: string
  mps_PoEMax :: "int option"
  mps_PoEUnit :: string

record MerakiHASnap =
  mha_Enabled :: bool
  mha_Role :: string

record MerakiUplinkSnap =
  mu_Interface :: string
  mu_Status :: string
  mu_IP :: string
  mu_Gateway :: string
  mu_PublicIP :: string
  mu_PrimaryDNS :: string
  mu_SecondaryDNS :: string
  mu_IPAssignedBy :: string
  mu_Provider :: string
  mu_SignalType :: string
  mu_ICCID :: string
  mu_ConnectionType :: string
  mu_RSRP :: string
  mu_RSRQ :: string

record MerakiPortSnap =
  mp_PortID :: string
  mp_IfIndex :: int
  mp_Name :: string
  mp_Status :: string
  mp_Speed :: string
  mp_Duplex :: string
  mp_Enabled :: bool
  mp_IsUplink :: bool
  mp_Errors :: "string list"
  mp_Warnings :: "string list"
  mp_PoEAllocated :: "bool option"
  mp_SecurePort :: string
  mp_STPStatuses :: "string list"
  mp_RxPackets :: "int option"
  mp_TxPackets :: "int option"
  mp_TotalPackets :: "int option"
  mp_InBps :: "u64 option"
  mp_OutBps :: "u64 option"
  mp_VLAN :: "int option"
  mp_Type :: string
  mp_ClientCount :: "int option"
  mp_Neighbor :: string
  mp_LLDP :: "string list"
  mp_CDP :: "string list"

record MerakiLossLatencySnap =
  mll_Uplink :: string
  mll_LossPercent :: "f64 option"
  mll_LatencyMs :: "f64 option"

record MerakiVPNPeerSnap =
  mv_Name :: string
  mv_Reachability :: string
  mv_PublicIP :: string

record MerakiVPNSnap =
  mvpn_Mode :: string
  mvpn_DeviceStatus :: string
  mvpn_MerakiPeers :: "MerakiVPNPeerSnap list"
  mvpn_ThirdPartyPeers :: "MerakiVPNPeerSnap list"
  mvpn_ReachablePeerCount :: int
  mvpn_TotalPeerCount :: int

record MerakiWirelessLossSnap =
  mwl_DownstreamLossPct :: "f64 option"
  mwl_UpstreamLossPct :: "f64 option"

record MerakiFirmwareSnap =
  mfw_Current :: string
  mfw_NextUpgrade :: string
  mfw_NextAt :: string
  mfw_Status :: string

record MerakiSensorReading =
  msr_Metric :: string
  msr_TS :: string
  msr_Value :: "f64 option"
  msr_Bool :: "bool option"
  msr_Unit :: string

record MerakiAlertSnap =
  mal_ID :: string
  mal_Severity :: string
  mal_Title :: string
  mal_Type :: string
  mal_StartedAt :: string

record MerakiNeighborSnap =
  mn_PortID :: string
  mn_Protocol :: string
  mn_Summary :: string

record MerakiTelemetrySnapshot =
  mt_SchemaVersion :: string
  mt_Source :: string
  mt_CapturedAt :: int
  mt_Status :: string
  mt_ProductType :: string
  mt_Model :: string
  mt_LastReportedAt :: string
  mt_Name :: string
  mt_MAC :: string
  mt_PublicIP :: string
  mt_LANIP :: string
  mt_Gateway :: string
  mt_IPType :: string
  mt_PrimaryDNS :: string
  mt_SecondaryDNS :: string
  mt_Tags :: "string list"
  mt_PowerSupplies :: "MerakiPowerSupplySnap list"
  mt_HA :: "MerakiHASnap option"
  mt_Uplinks :: "MerakiUplinkSnap list"
  mt_Ports :: "MerakiPortSnap list"
  mt_ClientCount :: "int option"
  mt_PhysUp :: "int option"
  mt_PhysTotal :: "int option"
  mt_UplinkCount :: "int option"
  mt_PortErrorCount :: "int option"
  mt_LossLatency :: "MerakiLossLatencySnap list"
  mt_VPN :: "MerakiVPNSnap option"
  mt_WirelessLoss :: "MerakiWirelessLossSnap option"
  mt_PerfScore :: "f64 option"
  mt_MemUsedBytes :: "u64 option"
  mt_MemTotalBytes :: "u64 option"
  mt_Firmware :: "MerakiFirmwareSnap option"
  mt_SensorReadings :: "MerakiSensorReading list"
  mt_Alerts :: "MerakiAlertSnap list"
  mt_Neighbors :: "MerakiNeighborSnap list"

end
