(* ===== verification/Topology.thy ===== *)
theory Topology
  imports Meraki_Snapshot Snmp_Snapshot Go_Any Go_Time
    "HOL-Library.List_Lexorder" "HOL-Library.Char_ord" "HOL-Library.Product_Lexorder"
begin

text \<open>
  The topology view (\<open>internal/api/handlers_topology.go\<close>, \<open>handlers_topology_extend.go\<close>): a graph of
  the managed appliances and of what their LLDP, CDP and Meraki neighbour rows, WAN uplinks and VPN
  peers name. Byte-wise order of strings is the order of \<open>List_Lexorder\<close> and \<open>Char_ord\<close>. Decoding a
  stored snapshot, the order in which Go walks its maps and the database are parameters.
\<close>

subsection \<open>Nodes, edges and reports\<close>

record topologyNode =
  tn_ID :: string
  tn_Kind :: string
  tn_Name :: string
  tn_Label :: string
  tn_Vendor :: string
  tn_Model :: string
  tn_Platform :: string
  tn_MgmtIP :: string
  tn_SiteID :: string
  tn_Status :: string
  tn_LastSeenAt :: "int option"
  tn_PortsTotal :: "int option"
  tn_PortsUp :: "int option"
  tn_UplinkCount :: "int option"
  tn_Tags :: "string list"

record topologyEdge =
  te_From :: string
  te_To :: string
  te_FromPort :: string
  te_ToPort :: string
  te_Protocol :: string
  te_OperUp :: bool
  te_LinkKind :: payload
  te_InBps :: "u64 option"
  te_OutBps :: "u64 option"
  te_UtilizationPct :: "f64 option"

type_synonym edgeKey = "string \<times> string \<times> string"

text \<open>The unordered pair of two nodes and the family of the link.\<close>

definition edge_key :: "string \<Rightarrow> string \<Rightarrow> string \<Rightarrow> edgeKey" where
  "edge_key a b family = (if b < a then (b, a, family) else (a, b, family))"

text \<open>What one call of \<open>addEdge\<close> is told.\<close>

record link_report =
  lr_localID :: string
  lr_localPort :: string
  lr_operUp :: bool
  lr_inBps :: "u64 option"
  lr_outBps :: "u64 option"
  lr_speedBps :: u64
  lr_remoteSys :: string
  lr_remotePortID :: string
  lr_remotePlatform :: string
  lr_remoteAddr :: string
  lr_proto :: string

record topo_state =
  ts_edges :: "(edgeKey \<times> topologyEdge) list"
  ts_foreign :: "(string \<times> topologyNode) list"

subsection \<open>Text heuristics\<close>

fun str_index :: "string \<Rightarrow> string \<Rightarrow> nat option" where
  "str_index [] p = (if p = [] then Some 0 else None)"
| "str_index (c # cs) p = (if has_prefix (c # cs) p then Some 0 else map_option Suc (str_index cs p))"

definition isWirelessIfName :: "string \<Rightarrow> bool" where
  "isWirelessIfName name \<longleftrightarrow>
     name \<noteq> [] \<and>
     (let low = to_lower name in
      has_prefix low ''dot11radio'' \<or> has_prefix low ''wlan'' \<or> has_prefix low ''ath'' \<or>
      contains low ''wireless'' \<or> contains low ''wifi'')"

definition topologyLayer2Kind :: "string \<Rightarrow> string \<Rightarrow> payload" where
  "topologyLayer2Kind protocol localPortName =
     (let low = to_lower protocol; p = (if low = ''both'' then ''lldp_cdp'' else low)
      in [''layer'' \<mapsto> AnyF64 (Fin 2), ''protocol'' \<mapsto> AnyString p,
          ''medium'' \<mapsto> AnyString (if isWirelessIfName localPortName then ''wireless'' else ''wired'')])"

definition topologyWANKind :: "string \<Rightarrow> payload" where
  "topologyWANKind ifc =
     [''layer'' \<mapsto> AnyF64 (Fin 3), ''protocol'' \<mapsto> AnyString ''uplink'', ''medium'' \<mapsto> AnyString ''wan'', ''interface'' \<mapsto> AnyString ifc]"

definition topologyVPNKind :: "string \<Rightarrow> payload" where
  "topologyVPNKind proto =
     [''layer'' \<mapsto> AnyF64 (Fin 3), ''protocol'' \<mapsto> AnyString (to_lower proto), ''medium'' \<mapsto> AnyString ''vpn'']"

definition phone_words :: "string list" where
  "phone_words = [''ip phone'', ''ip-phone'', ''voip phone'', ''polycom'', ''yealink'', ''grandstream'', ''snom'',
     ''cp-7'', ''cp-8'', ''cp-9'', ''cisco dx'']"

definition looksLikePhoneString :: "string \<Rightarrow> bool" where
  "looksLikePhoneString s = list_ex (contains (to_lower s)) phone_words"

definition isLLDPPhone :: "lldp \<Rightarrow> bool" where
  "isLLDPPhone n \<longleftrightarrow> bit (lldp_RemoteCaps n) 5 \<or> looksLikePhoneString (lldp_RemoteSysName n @ '' '' @ lldp_RemoteSysDescr n)"

definition isCDPPhone :: "cdp \<Rightarrow> bool" where
  "isCDPPhone n \<longleftrightarrow> bit (cdp_RemoteCaps n) 7 \<or>
     looksLikePhoneString (cdp_RemotePlatform n @ '' '' @ cdp_RemoteSysName n @ '' '' @ cdp_RemoteVersion n)"

definition deref :: "string option \<Rightarrow> string \<Rightarrow> string" where
  "deref p d = (case p of Some s \<Rightarrow> if s = [] then d else s | None \<Rightarrow> d)"

definition fallback :: "string \<Rightarrow> string \<Rightarrow> string" where
  "fallback a b = (if a \<noteq> [] then a else b)"

definition em_dash_sep :: string where
  "em_dash_sep = map char_of [32, 226, 128, 148, 32 :: nat]"

definition merakiNeighborRemote :: "string \<Rightarrow> string" where
  "merakiNeighborRemote summary =
     (let s = trim_space summary in
      if s = [] then []
      else case find (\<lambda>sep. case str_index s sep of None \<Rightarrow> False | Some i \<Rightarrow> 0 < i) [em_dash_sep, '' - '', '' | ''] of
        None \<Rightarrow> s
      | Some sep \<Rightarrow> trim_space (take (the (str_index s sep)) s))"

definition uplinkOperUp :: "string \<Rightarrow> bool" where
  "uplinkOperUp status =
     (let s = to_lower (trim_space status) in
      if s \<in> set [''active'', ''ready'', ''connected'', ''online'', ''up''] then True
      else if s \<in> set [''failed'', ''not connected'', ''offline'', ''down'', ''disabled''] then False
      else s \<noteq> [] \<and> \<not> contains s ''fail'' \<and> \<not> contains s ''down'')"

definition vpnPeerReachable :: "string \<Rightarrow> bool" where
  "vpnPeerReachable r = equal_fold (trim_space r) ''reachable''"

subsection \<open>Adding an edge\<close>

definition max_bps :: "u64 option \<Rightarrow> u64 option \<Rightarrow> u64" where
  "max_bps i out =
     (let m = (case i of Some x \<Rightarrow> if 0 < x then x else 0 | None \<Rightarrow> 0)
      in case out of Some x \<Rightarrow> if m < x then x else m | None \<Rightarrow> m)"

definition mergeEdgeUtil :: "u64 option \<Rightarrow> u64 option \<Rightarrow> u64 \<Rightarrow> topologyEdge \<Rightarrow> topologyEdge" where
  "mergeEdgeUtil inBps outBps speedBps e =
     (let e1 = (if inBps \<noteq> None then e\<lparr>te_InBps := inBps\<rparr> else e);
          e2 = (if outBps \<noteq> None then e1\<lparr>te_OutBps := outBps\<rparr> else e1);
          m = max_bps inBps outBps
      in if speedBps = 0 \<or> m = 0 then e2
         else let pct = f64_mul (f64_div (f64_of_int (uint m)) (f64_of_int (uint speedBps))) (Fin 100)
           in e2\<lparr>te_UtilizationPct := Some (if f64_lt (Fin 100) pct then Fin 100 else pct)\<rparr>)"

type_synonym sys_index = "(string \<times> string) list"

definition clean_name :: "string \<Rightarrow> string" where
  "clean_name remoteSys =
     (let clean = to_lower remoteSys in
      case str_index clean ''('' of
        None \<Rightarrow> clean
      | Some i \<Rightarrow> if 0 < i then trim_space (take i clean) else clean)"

definition remote_id :: "sys_index \<Rightarrow> string \<Rightarrow> string \<Rightarrow> string" where
  "remote_id idx remoteSys remoteAddr =
     (let clean = clean_name remoteSys in
      case map_of idx clean of
        Some i \<Rightarrow> i
      | None \<Rightarrow> ''foreign:'' @ (if clean = [] then to_lower remoteAddr else clean))"

definition l2_names :: "string list" where
  "l2_names = [''lldp'', ''cdp'', ''both'']"

definition report_again :: "link_report \<Rightarrow> string \<Rightarrow> topologyEdge \<Rightarrow> topologyEdge" where
  "report_again r remoteID e =
     (let e1 = (if te_Protocol e \<noteq> lr_proto r \<and> te_Protocol e \<in> set l2_names
                then e\<lparr>te_Protocol := ''both'', te_LinkKind := topologyLayer2Kind ''both'' (lr_localPort r)\<rparr> else e);
          e2 = (if te_FromPort e1 = [] \<and> lr_localID r = te_From e1 then e1\<lparr>te_FromPort := lr_localPort r\<rparr> else e1);
          e3 = (if te_ToPort e2 = [] \<and> remoteID = te_To e2 then e2\<lparr>te_ToPort := lr_remotePortID r\<rparr> else e2);
          e4 = (if lr_operUp r then e3\<lparr>te_OperUp := True\<rparr> else e3)
      in mergeEdgeUtil (lr_inBps r) (lr_outBps r) (lr_speedBps r) e4)"

definition new_edge :: "link_report \<Rightarrow> string \<Rightarrow> topologyEdge" where
  "new_edge r remoteID =
     mergeEdgeUtil (lr_inBps r) (lr_outBps r) (lr_speedBps r)
       \<lparr>te_From = lr_localID r, te_To = remoteID, te_FromPort = lr_localPort r, te_ToPort = lr_remotePortID r,
        te_Protocol = lr_proto r, te_OperUp = lr_operUp r, te_LinkKind = topologyLayer2Kind (lr_proto r) (lr_localPort r),
        te_InBps = None, te_OutBps = None, te_UtilizationPct = None\<rparr>"

definition nodeHasTag :: "topologyNode \<Rightarrow> string \<Rightarrow> bool" where
  "nodeHasTag n tag \<longleftrightarrow> tag \<in> set (tn_Tags n)"

definition foreign_node :: "string \<Rightarrow> string \<Rightarrow> string \<Rightarrow> string \<Rightarrow> string list \<Rightarrow> topologyNode" where
  "foreign_node i name plat addr tags =
     \<lparr>tn_ID = i, tn_Kind = ''foreign'', tn_Name = name, tn_Label = name, tn_Vendor = [], tn_Model = [], tn_Platform = plat,
      tn_MgmtIP = addr, tn_SiteID = [], tn_Status = ''unknown'', tn_LastSeenAt = None, tn_PortsTotal = None, tn_PortsUp = None,
      tn_UplinkCount = None, tn_Tags = tags\<rparr>"

definition note_foreign :: "link_report \<Rightarrow> string \<Rightarrow> string \<Rightarrow> (string \<times> topologyNode) list \<Rightarrow> (string \<times> topologyNode) list" where
  "note_foreign r remoteSys remoteID nodes =
     (if \<not> has_prefix remoteID ''foreign:'' then nodes
      else let phone = looksLikePhoneString (remoteSys @ '' '' @ lr_remotePlatform r @ '' '' @ lr_remoteAddr r) in
        case map_of nodes remoteID of
          Some n \<Rightarrow>
            if phone \<and> \<not> nodeHasTag n ''phone''
            then upsert remoteID n (\<lambda>n. n\<lparr>tn_Tags := tn_Tags n @ [''phone'']\<rparr>) nodes else nodes
        | None \<Rightarrow>
            upsert remoteID (foreign_node remoteID remoteSys (lr_remotePlatform r) (lr_remoteAddr r) (if phone then [''phone''] else []))
              (\<lambda>n. n) nodes)"

definition addEdge :: "sys_index \<Rightarrow> link_report \<Rightarrow> topo_state \<Rightarrow> topo_state" where
  "addEdge idx r s =
     (let remoteSys = trim_space (lr_remoteSys r) in
      if remoteSys = [] \<and> lr_remoteAddr r = [] then s
      else let remoteID = remote_id idx remoteSys (lr_remoteAddr r); k = edge_key (lr_localID r) remoteID ''l2'' in
        if map_of (ts_edges s) k \<noteq> None
        then s\<lparr>ts_edges := upsert k (new_edge r remoteID) (report_again r remoteID) (ts_edges s)\<rparr>
        else s\<lparr>ts_edges := upsert k (new_edge r remoteID) (\<lambda>e. e) (ts_edges s),
               ts_foreign := note_foreign r remoteSys remoteID (ts_foreign s)\<rparr>)"

subsection \<open>The neighbours of a snapshot\<close>

record port_info =
  pi_name :: string
  pi_operUp :: bool
  pi_inBps :: "u64 option"
  pi_outBps :: "u64 option"
  pi_speedBps :: u64

text \<open>Later rows of the interface table win; an index that is not in it gives the zero value.\<close>

definition port_of :: "snapshot \<Rightarrow> int \<Rightarrow> port_info" where
  "port_of snap i =
     (case find (\<lambda>f. if_Index f = i) (rev (snap_Interfaces snap)) of
        None \<Rightarrow> \<lparr>pi_name = [], pi_operUp = False, pi_inBps = None, pi_outBps = None, pi_speedBps = 0\<rparr>
      | Some f \<Rightarrow> \<lparr>pi_name = if_Name f, pi_operUp = if_OperUp f, pi_inBps = if_InBps f, pi_outBps = if_OutBps f,
                   pi_speedBps = if_SpeedBps f\<rparr>)"

definition lldp_report :: "string \<Rightarrow> snapshot \<Rightarrow> lldp \<Rightarrow> link_report" where
  "lldp_report localID snap n =
     (let p = port_of snap (lldp_LocalIfIndex n) in
      \<lparr>lr_localID = localID, lr_localPort = fallback (lldp_LocalPort n) (pi_name p), lr_operUp = pi_operUp p,
       lr_inBps = pi_inBps p, lr_outBps = pi_outBps p, lr_speedBps = pi_speedBps p, lr_remoteSys = lldp_RemoteSysName n,
       lr_remotePortID = fallback (lldp_RemotePortDescr n) (lldp_RemotePortID n),
       lr_remotePlatform = (if isLLDPPhone n then lldp_RemoteSysDescr n @ '' ip phone'' else lldp_RemoteSysDescr n),
       lr_remoteAddr = [], lr_proto = ''lldp''\<rparr>)"

definition cdp_report :: "string \<Rightarrow> snapshot \<Rightarrow> cdp \<Rightarrow> link_report" where
  "cdp_report localID snap n =
     (let p = port_of snap (cdp_LocalIfIndex n) in
      \<lparr>lr_localID = localID, lr_localPort = pi_name p, lr_operUp = pi_operUp p, lr_inBps = pi_inBps p, lr_outBps = pi_outBps p,
       lr_speedBps = pi_speedBps p, lr_remoteSys = cdp_RemoteSysName n, lr_remotePortID = cdp_RemotePortID n,
       lr_remotePlatform = (if isCDPPhone n then cdp_RemotePlatform n @ '' ip phone'' else cdp_RemotePlatform n),
       lr_remoteAddr = cdp_RemoteAddress n, lr_proto = ''cdp''\<rparr>)"

definition snmp_reports :: "string \<Rightarrow> snapshot \<Rightarrow> link_report list" where
  "snmp_reports localID snap = map (lldp_report localID snap) (snap_LLDP snap) @ map (cdp_report localID snap) (snap_CDP snap)"

text \<open>The rows of a Meraki snapshot that reach \<open>addEdge\<close>; \<open>seen\<close> holds the keys already passed on.\<close>

definition meraki_report :: "string \<Rightarrow> string \<Rightarrow> bool \<Rightarrow> u64 option \<Rightarrow> u64 option \<Rightarrow> string \<Rightarrow> string \<Rightarrow> string \<Rightarrow> link_report" where
  "meraki_report localID portID up inBps outBps summary remote proto =
     \<lparr>lr_localID = localID, lr_localPort = portID, lr_operUp = up, lr_inBps = inBps, lr_outBps = outBps, lr_speedBps = 0,
      lr_remoteSys = remote, lr_remotePortID = [],
      lr_remotePlatform = (if looksLikePhoneString (remote @ '' '' @ summary) then summary @ '' ip phone'' else summary),
      lr_remoteAddr = [], lr_proto = proto\<rparr>"

definition neighbor_key :: "string \<Rightarrow> string \<Rightarrow> string \<Rightarrow> string" where
  "neighbor_key proto portID remote = proto @ ''|'' @ portID @ ''|'' @ to_lower remote"

fun neighbor_reports :: "string \<Rightarrow> string set \<Rightarrow> MerakiNeighborSnap list \<Rightarrow> link_report list \<times> string set" where
  "neighbor_reports localID seen [] = ([], seen)"
| "neighbor_reports localID seen (n # ns) =
     (let remote = merakiNeighborRemote (mn_Summary n);
          low = to_lower (mn_Protocol n); proto = (if low = ''cdp'' then low else ''lldp'');
          key = neighbor_key proto (mn_PortID n) remote
      in if remote = [] \<or> key \<in> seen then neighbor_reports localID seen ns
         else let (rs, seen') = neighbor_reports localID (insert key seen) ns
           in (meraki_report localID (mn_PortID n) True None None (mn_Summary n) remote proto # rs, seen'))"

fun port_reports :: "string \<Rightarrow> string set \<Rightarrow> MerakiPortSnap list \<Rightarrow> link_report list" where
  "port_reports localID seen [] = []"
| "port_reports localID seen (p # ps) =
     (let remote = merakiNeighborRemote (mp_Neighbor p);
          proto = (if mp_LLDP p = [] \<and> mp_CDP p \<noteq> [] then ''cdp'' else ''lldp'');
          key = neighbor_key proto (mp_PortID p) remote
      in if mp_Neighbor p = [] \<or> remote = [] \<or> key \<in> seen then port_reports localID seen ps
         else meraki_report localID (mp_PortID p) (equal_fold (mp_Status p) ''Connected'' \<or> mp_Enabled p)
                (mp_InBps p) (mp_OutBps p) (mp_Neighbor p) remote proto # port_reports localID (insert key seen) ps)"

definition addMerakiL2Neighbors :: "string \<Rightarrow> MerakiTelemetrySnapshot option \<Rightarrow> link_report list" where
  "addMerakiL2Neighbors localID ms =
     (case ms of
        None \<Rightarrow> []
      | Some snap \<Rightarrow>
          let (rs, seen) = neighbor_reports localID {} (mt_Neighbors snap) in rs @ port_reports localID seen (mt_Ports snap))"

subsection \<open>Uplinks, VPN peers and tunnels\<close>

definition topologyInternetID :: string where
  "topologyInternetID = ''cloud:internet''"

definition internet_node :: topologyNode where
  "internet_node =
     \<lparr>tn_ID = topologyInternetID, tn_Kind = ''cloud'', tn_Name = ''Internet'', tn_Label = ''Internet'', tn_Vendor = [], tn_Model = [],
      tn_Platform = [], tn_MgmtIP = [], tn_SiteID = [], tn_Status = ''up'', tn_LastSeenAt = None, tn_PortsTotal = None,
      tn_PortsUp = None, tn_UplinkCount = None, tn_Tags = []\<rparr>"

definition ensureInternetCloud :: "topo_state \<Rightarrow> topo_state" where
  "ensureInternetCloud s =
     (if map_of (ts_foreign s) topologyInternetID \<noteq> None then s
      else s\<lparr>ts_foreign := upsert topologyInternetID internet_node (\<lambda>n. n) (ts_foreign s)\<rparr>)"

definition plain_edge :: "string \<Rightarrow> string \<Rightarrow> string \<Rightarrow> string \<Rightarrow> bool \<Rightarrow> payload \<Rightarrow> topologyEdge" where
  "plain_edge from to fromPort proto up kind =
     \<lparr>te_From = from, te_To = to, te_FromPort = fromPort, te_ToPort = [], te_Protocol = proto, te_OperUp = up, te_LinkKind = kind,
      te_InBps = None, te_OutBps = None, te_UtilizationPct = None\<rparr>"

definition add_uplink :: "string \<Rightarrow> MerakiUplinkSnap \<Rightarrow> topo_state \<Rightarrow> topo_state" where
  "add_uplink localID u s =
     (let ifc = trim_space (mu_Interface u) in
      if ifc = [] then s
      else let s1 = ensureInternetCloud s; k = edge_key localID topologyInternetID (''wan:'' @ to_lower ifc);
               e = plain_edge localID topologyInternetID ifc ''uplink'' (uplinkOperUp (mu_Status u)) (topologyWANKind ifc)
        in s1\<lparr>ts_edges := upsert k e (\<lambda>_. e) (ts_edges s1)\<rparr>)"

text \<open>\<open>order\<close> is the order in which the index is walked.\<close>

definition resolveVPNPeerID ::
    "string \<Rightarrow> string \<Rightarrow> (sys_index \<Rightarrow> sys_index) \<Rightarrow> sys_index \<Rightarrow> bool \<Rightarrow> topo_state \<Rightarrow> string \<times> topo_state" where
  "resolveVPNPeerID name publicIP order idx thirdParty s =
     (let clean = to_lower (trim_space name) in
      case map_of idx clean of
        Some i \<Rightarrow> (i, s)
      | None \<Rightarrow>
          (case find (\<lambda>(k, i). k \<noteq> [] \<and> (contains k clean \<or> contains clean k)) (order idx) of
             Some (k, i) \<Rightarrow> (i, s)
           | None \<Rightarrow>
               let key = (if clean = [] then to_lower publicIP else clean);
                   remoteID = (if thirdParty then ''foreign:vpn3p:'' else ''foreign:vpn:'') @ key;
                   lbl = (if name = [] then publicIP else name)
               in (remoteID,
                   if map_of (ts_foreign s) remoteID \<noteq> None then s
                   else s\<lparr>ts_foreign := upsert remoteID (foreign_node remoteID lbl [] publicIP []) (\<lambda>n. n) (ts_foreign s)\<rparr>)))"

definition putVPNEdge :: "string \<Rightarrow> string \<Rightarrow> string \<Rightarrow> string \<Rightarrow> string \<Rightarrow> bool \<Rightarrow> topo_state \<Rightarrow> topo_state" where
  "putVPNEdge localID remoteID fromPort proto family up s =
     (if localID = remoteID then s
      else s\<lparr>ts_edges := upsert (edge_key localID remoteID family)
               (plain_edge localID remoteID fromPort proto up (topologyVPNKind proto))
               (\<lambda>e. if up then e\<lparr>te_OperUp := True\<rparr> else e) (ts_edges s)\<rparr>)"

definition add_meraki_peer :: "string \<Rightarrow> (sys_index \<Rightarrow> sys_index) \<Rightarrow> sys_index \<Rightarrow> MerakiVPNPeerSnap \<Rightarrow> topo_state \<Rightarrow> topo_state" where
  "add_meraki_peer localID order idx p s =
     (let name = trim_space (mv_Name p) in
      if name = [] then s
      else case resolveVPNPeerID name [] order idx False s of (remoteID, s1) \<Rightarrow>
        putVPNEdge localID remoteID name ''meraki-autovpn'' (''vpn:meraki:'' @ to_lower name) (vpnPeerReachable (mv_Reachability p)) s1)"

definition add_third_party_peer :: "string \<Rightarrow> (sys_index \<Rightarrow> sys_index) \<Rightarrow> sys_index \<Rightarrow> MerakiVPNPeerSnap \<Rightarrow> topo_state \<Rightarrow> topo_state" where
  "add_third_party_peer localID order idx p s =
     (let n = trim_space (mv_Name p); name = (if n = [] then trim_space (mv_PublicIP p) else n) in
      if name = [] then s
      else case resolveVPNPeerID name (mv_PublicIP p) order idx True s of (remoteID, s1) \<Rightarrow>
        putVPNEdge localID remoteID name ''third-party-vpn'' (''vpn:3p:'' @ to_lower name) (vpnPeerReachable (mv_Reachability p)) s1)"

definition addMerakiWANAndVPN :: "string \<Rightarrow> MerakiTelemetrySnapshot option \<Rightarrow> (sys_index \<Rightarrow> sys_index) \<Rightarrow> sys_index \<Rightarrow> topo_state \<Rightarrow> topo_state" where
  "addMerakiWANAndVPN localID ms order idx s =
     (case ms of
        None \<Rightarrow> s
      | Some snap \<Rightarrow>
          let s1 = fold (add_uplink localID) (mt_Uplinks snap) s in
          (case mt_VPN snap of
             None \<Rightarrow> s1
           | Some vpn \<Rightarrow> fold (add_third_party_peer localID order idx) (mvpn_ThirdPartyPeers vpn)
               (fold (add_meraki_peer localID order idx) (mvpn_MerakiPeers vpn) s1)))"

definition addSNMPTunnelStubs :: "string \<Rightarrow> snapshot \<Rightarrow> topo_state \<Rightarrow> topo_state" where
  "addSNMPTunnelStubs localID snap s =
     (case find (\<lambda>f. equal_fold (if_Kind f) ''tunnel'' \<and> if_OperUp f) (snap_Interfaces snap) of
        None \<Rightarrow> s
      | Some f \<Rightarrow>
          let s1 = ensureInternetCloud s; k = edge_key localID topologyInternetID ''wan:snmp-tunnel'' in
          if map_of (ts_edges s1) k \<noteq> None then s1
          else s1\<lparr>ts_edges := upsert k
                 (plain_edge localID topologyInternetID (if_Name f) ''uplink'' True (topologyWANKind (fallback (if_Name f) ''tunnel'')))
                 (\<lambda>e. e) (ts_edges s1)\<rparr>)"

subsection \<open>The view\<close>

text \<open>\<open>td_peek\<close> decodes the schema version and the source, when both are strings.\<close>

record topo_decode =
  td_peek :: "string \<Rightarrow> (string \<times> string) option"
  td_meraki :: "string \<Rightarrow> MerakiTelemetrySnapshot option"
  td_snmp :: "string \<Rightarrow> snapshot option"

record topo_world =
  tw_decode :: topo_decode
  tw_index_order :: "sys_index \<Rightarrow> sys_index"
  tw_node_order :: "topologyNode list \<Rightarrow> topologyNode list"
  tw_edge_order :: "topologyEdge list \<Rightarrow> topologyEdge list"
  tw_now :: int
  tw_query_fails :: bool
  tw_scans :: "uuid \<Rightarrow> bool"

record topo_row =
  tr_ID :: uuid
  tr_SiteID :: uuid
  tr_Name :: string
  tr_Vendor :: string
  tr_Model :: "string option"
  tr_IP :: string
  tr_SysName :: "string option"
  tr_LastPolled :: "int option"
  tr_LastError :: "string option"
  tr_PhysTotal :: "int option"
  tr_PhysUp :: "int option"
  tr_Uplinks :: "int option"
  tr_Tags :: "string list"
  tr_Snapshot :: string

definition isMerakiSnapshot :: "topo_decode \<Rightarrow> string \<Rightarrow> bool" where
  "isMerakiSnapshot J raw \<longleftrightarrow>
     raw \<noteq> [] \<and>
     (case td_peek J raw of
        None \<Rightarrow> False
      | Some (version, source) \<Rightarrow> equal_fold source ''meraki-dashboard'' \<or> has_prefix (to_lower version) ''meraki'')"

definition appliance_status :: "int \<Rightarrow> int option \<Rightarrow> string option \<Rightarrow> string" where
  "appliance_status now lastPolled lastErr =
     (case lastPolled of
        None \<Rightarrow> ''unknown''
      | Some t \<Rightarrow>
          let age = time_sub now t in
          if deref lastErr [] \<noteq> [] then ''degraded''
          else if age \<le> seconds 300 then ''up''
          else if age \<le> seconds 1800 then ''degraded'' else ''down'')"

definition appliance_node :: "int \<Rightarrow> topo_row \<Rightarrow> topologyNode" where
  "appliance_node now r =
     \<lparr>tn_ID = tr_ID r, tn_Kind = ''appliance'', tn_Name = deref (tr_SysName r) (tr_Name r), tn_Label = tr_Name r,
      tn_Vendor = tr_Vendor r, tn_Model = deref (tr_Model r) [], tn_Platform = [], tn_MgmtIP = tr_IP r, tn_SiteID = tr_SiteID r,
      tn_Status = appliance_status now (tr_LastPolled r) (tr_LastError r), tn_LastSeenAt = tr_LastPolled r,
      tn_PortsTotal = tr_PhysTotal r, tn_PortsUp = tr_PhysUp r, tn_UplinkCount = tr_Uplinks r, tn_Tags = tr_Tags r\<rparr>"

definition index_row :: "topo_row \<Rightarrow> sys_index \<Rightarrow> sys_index" where
  "index_row r idx =
     (let i = tr_ID r; sys = deref (tr_SysName r) [];
          idx1 = (if sys = [] then idx else upsert (to_lower sys) i (\<lambda>_. i) idx)
      in upsert (to_lower (tr_Name r)) i (\<lambda>_. i) idx1)"

definition add_appliance :: "topo_world \<Rightarrow> sys_index \<Rightarrow> topo_row \<Rightarrow> topo_state \<Rightarrow> topo_state" where
  "add_appliance W idx r s =
     (let raw = tr_Snapshot r; J = tw_decode W in
      if raw = [] then s
      else if isMerakiSnapshot J raw then
        let ms = td_meraki J raw in
        addMerakiWANAndVPN (tr_ID r) ms (tw_index_order W) idx (fold (addEdge idx) (addMerakiL2Neighbors (tr_ID r) ms) s)
      else case td_snmp J raw of
        None \<Rightarrow> s
      | Some snap \<Rightarrow> addSNMPTunnelStubs (tr_ID r) snap (fold (addEdge idx) (snmp_reports (tr_ID r) snap) s))"

record topologyResp =
  tp_Nodes :: "topologyNode list"
  tp_Edges :: "topologyEdge list"
  tp_GeneratedAt :: int

definition topo_graph :: "topo_world \<Rightarrow> topo_row list \<Rightarrow> topo_state" where
  "topo_graph W rows = fold (add_appliance W (fold index_row rows [])) rows \<lparr>ts_edges = [], ts_foreign = []\<rparr>"

definition topology_response :: "topo_world \<Rightarrow> topo_row list \<Rightarrow> topologyResp" where
  "topology_response W rows =
     (let s = topo_graph W rows in
      \<lparr>tp_Nodes = sort_key tn_ID (map (appliance_node (tw_now W)) rows @ tw_node_order W (map snd (ts_foreign s))),
       tp_Edges = sort_key (\<lambda>e. (te_From e, te_To e)) (tw_edge_order W (map snd (ts_edges s))),
       tp_GeneratedAt = tw_now W\<rparr>)"

definition handleTopology :: "topo_world \<Rightarrow> string \<Rightarrow> topo_row list \<Rightarrow> (nat \<times> string) + topologyResp" where
  "handleTopology W siteID table =
     (let rows = filter (\<lambda>r. siteID = [] \<or> tr_SiteID r = siteID) table in
      if tw_query_fails W then Inl (500, ''topology query failed'')
      else if \<not> list_all (\<lambda>r. tw_scans W (tr_ID r)) rows then Inl (500, ''topology scan failed'')
      else Inr (topology_response W rows))"

end
