(* ===== verification/Topology_Graph.thy ===== *)
theory Topology_Graph
  imports Topology
begin

text \<open>
  What the topology view is: a closed graph without stray nodes, whose layer 2 edges are the reported
  adjacencies, one each.
\<close>

subsection \<open>Keys\<close>

definition ends :: "topologyEdge \<Rightarrow> string set" where
  "ends e = {te_From e, te_To e}"

lemma edge_key_eq_iff: "edge_key a b f = edge_key c d g \<longleftrightarrow> {a, b} = {c, d} \<and> f = g"
  by (auto simp: edge_key_def doubleton_eq_iff)

lemma mergeEdgeUtil_sel [simp]:
  "te_From (mergeEdgeUtil i out sp e) = te_From e" "te_To (mergeEdgeUtil i out sp e) = te_To e"
  "te_Protocol (mergeEdgeUtil i out sp e) = te_Protocol e" "te_OperUp (mergeEdgeUtil i out sp e) = te_OperUp e"
  by (simp_all add: mergeEdgeUtil_def Let_def)

lemma report_again_sel [simp]:
  "te_From (report_again r i e) = te_From e" "te_To (report_again r i e) = te_To e"
  "te_OperUp (report_again r i e) \<longleftrightarrow> te_OperUp e \<or> lr_operUp r"
  "te_Protocol (report_again r i e) = (if te_Protocol e \<noteq> lr_proto r \<and> te_Protocol e \<in> set l2_names then ''both'' else te_Protocol e)"
  by (simp_all add: report_again_def Let_def)

lemma new_edge_sel [simp]:
  "te_From (new_edge r i) = lr_localID r" "te_To (new_edge r i) = i" "te_OperUp (new_edge r i) = lr_operUp r"
  "te_Protocol (new_edge r i) = lr_proto r"
  by (simp_all add: new_edge_def)

lemma plain_edge_sel [simp]:
  "te_From (plain_edge a b p pr up k) = a" "te_To (plain_edge a b p pr up k) = b" "te_Protocol (plain_edge a b p pr up k) = pr"
  by (simp_all add: plain_edge_def)

subsection \<open>Layer 2\<close>

text \<open>A report that names a neighbour, the neighbour and the key of their link.\<close>

definition names_neighbor :: "link_report \<Rightarrow> bool" where
  "names_neighbor r \<longleftrightarrow> \<not> (trim_space (lr_remoteSys r) = [] \<and> lr_remoteAddr r = [])"

definition neighbor :: "sys_index \<Rightarrow> link_report \<Rightarrow> string" where
  "neighbor idx r = remote_id idx (trim_space (lr_remoteSys r)) (lr_remoteAddr r)"

definition link_key :: "sys_index \<Rightarrow> link_report \<Rightarrow> edgeKey" where
  "link_key idx r = edge_key (lr_localID r) (neighbor idx r) ''l2''"

definition merge_report :: "sys_index \<Rightarrow> link_report \<Rightarrow> topologyEdge option \<Rightarrow> topologyEdge option" where
  "merge_report idx r eo =
     Some (case eo of None \<Rightarrow> new_edge r (neighbor idx r) | Some e \<Rightarrow> report_again r (neighbor idx r) e)"

lemma addEdge_edges:
  "map_of (ts_edges (addEdge idx r s)) k =
     (if names_neighbor r \<and> link_key idx r = k then merge_report idx r (map_of (ts_edges s) k) else map_of (ts_edges s) k)"
  by (auto simp: addEdge_def names_neighbor_def link_key_def neighbor_def merge_report_def Let_def map_of_upsert split: option.split)

lemma addEdges_edges:
  "map_of (ts_edges (fold (addEdge idx) rs s)) k =
     fold (merge_report idx) (filter (\<lambda>r. names_neighbor r \<and> link_key idx r = k) rs) (map_of (ts_edges s) k)"
  by (induction rs arbitrary: s) (auto simp: addEdge_edges)

text \<open>Everything else leaves layer 2 alone.\<close>

definition same_l2 :: "topo_state \<Rightarrow> topo_state \<Rightarrow> bool" where
  "same_l2 s s' \<longleftrightarrow> (\<forall>a b. map_of (ts_edges s') (a, b, ''l2'') = map_of (ts_edges s) (a, b, ''l2''))"

lemma same_l2_refl [simp]: "same_l2 s s"
  by (simp add: same_l2_def)

lemma same_l2_trans: "same_l2 s t \<Longrightarrow> same_l2 t u \<Longrightarrow> same_l2 s u"
  by (simp add: same_l2_def)

lemma same_l2_fold: "(\<And>x s. same_l2 s (f x s)) \<Longrightarrow> same_l2 s (fold f xs s)"
  by (induction xs arbitrary: s) (auto intro: same_l2_trans)

lemma same_l2_upsert: "f \<noteq> ''l2'' \<Longrightarrow> same_l2 s (s\<lparr>ts_edges := upsert (edge_key a b f) d g (ts_edges s)\<rparr>)"
  by (auto simp: same_l2_def map_of_upsert edge_key_def)

lemma same_l2_cloud: "same_l2 s (ensureInternetCloud s)"
  by (simp add: ensureInternetCloud_def same_l2_def)

lemma resolve_edges: "ts_edges (snd (resolveVPNPeerID name ip order idx third s)) = ts_edges s"
proof (cases "map_of idx (to_lower (trim_space name))")
  case None
  then show ?thesis unfolding resolveVPNPeerID_def Let_def by (simp add: case_prod_beta split: option.split)
qed (simp add: resolveVPNPeerID_def Let_def)

lemma same_l2_peer: "same_l2 s (snd (resolveVPNPeerID name ip order idx third s))"
  by (simp add: same_l2_def resolve_edges)

lemma same_l2_vpn: "f \<noteq> ''l2'' \<Longrightarrow> same_l2 s (putVPNEdge l r p pr f up s)"
  by (simp add: putVPNEdge_def same_l2_upsert)

lemma same_l2_cloud_edge:
  "f \<noteq> ''l2'' \<Longrightarrow> same_l2 s ((ensureInternetCloud s)\<lparr>ts_edges := upsert (edge_key a b f) d g (ts_edges (ensureInternetCloud s))\<rparr>)"
  by (rule same_l2_trans [OF same_l2_cloud same_l2_upsert])

lemma same_l2_uplink: "same_l2 s (add_uplink l u s)"
  by (simp add: add_uplink_def Let_def same_l2_cloud_edge)

lemma same_l2_peers:
  "same_l2 s (add_meraki_peer l order idx p s)" "same_l2 s (add_third_party_peer l order idx p s)"
proof -
  have "same_l2 s (case resolveVPNPeerID name ip order idx third s of (i, s1) \<Rightarrow> putVPNEdge l i n pr f up s1)"
    if "f \<noteq> ''l2''" for name ip third n pr f up
    unfolding case_prod_beta by (rule same_l2_trans [OF same_l2_peer same_l2_vpn [OF that]])
  then show "same_l2 s (add_meraki_peer l order idx p s)" "same_l2 s (add_third_party_peer l order idx p s)"
    by (simp_all add: add_meraki_peer_def add_third_party_peer_def Let_def)
qed

lemma same_l2_meraki: "same_l2 s (addMerakiWANAndVPN l ms order idx s)"
proof (cases ms)
  case (Some snap)
  have up: "same_l2 s (fold (add_uplink l) us s)" for us by (rule same_l2_fold) (rule same_l2_uplink)
  have mp: "same_l2 t (fold (add_meraki_peer l order idx) ps t)" for ps t by (rule same_l2_fold) (rule same_l2_peers)
  have tp: "same_l2 t (fold (add_third_party_peer l order idx) ps t)" for ps t by (rule same_l2_fold) (rule same_l2_peers)
  show ?thesis
  proof (cases "mt_VPN snap")
    case None
    then show ?thesis unfolding addMerakiWANAndVPN_def Let_def Some option.case by (simp only: option.case up)
  next
    case vpn: (Some vpn)
    show ?thesis unfolding addMerakiWANAndVPN_def Let_def Some vpn option.case
      by (rule same_l2_trans [OF same_l2_trans [OF up mp] tp])
  qed
qed (simp add: addMerakiWANAndVPN_def)

lemma same_l2_tunnel: "same_l2 s (addSNMPTunnelStubs l snap s)"
  by (simp add: addSNMPTunnelStubs_def Let_def same_l2_cloud same_l2_cloud_edge split: option.split)

text \<open>The reports of an appliance.\<close>

definition row_reports :: "topo_world \<Rightarrow> topo_row \<Rightarrow> link_report list" where
  "row_reports W r =
     (let raw = tr_Snapshot r; J = tw_decode W in
      if raw = [] then []
      else if isMerakiSnapshot J raw then addMerakiL2Neighbors (tr_ID r) (td_meraki J raw)
      else case td_snmp J raw of None \<Rightarrow> [] | Some snap \<Rightarrow> snmp_reports (tr_ID r) snap)"

lemma add_appliance_l2: "same_l2 (fold (addEdge idx) (row_reports W r) s) (add_appliance W idx r s)"
  by (simp add: add_appliance_def row_reports_def Let_def same_l2_meraki same_l2_tunnel split: option.split)

definition the_index :: "topo_row list \<Rightarrow> sys_index" where
  "the_index rows = fold index_row rows []"

lemma fold_l2:
  "map_of (ts_edges (fold (add_appliance W idx) rows s)) (a, b, ''l2'') =
     fold (merge_report idx) (filter (\<lambda>r. names_neighbor r \<and> link_key idx r = (a, b, ''l2'')) (concat (map (row_reports W) rows)))
       (map_of (ts_edges s) (a, b, ''l2''))"
proof (induction rows arbitrary: s)
  case (Cons r rows)
  have "map_of (ts_edges (add_appliance W idx r s)) (a, b, ''l2'') = map_of (ts_edges (fold (addEdge idx) (row_reports W r) s)) (a, b, ''l2'')"
    using add_appliance_l2 [of idx W r s] by (simp add: same_l2_def)
  then show ?case by (simp add: Cons.IH addEdges_edges)
qed simp

lemma graph_l2:
  "map_of (ts_edges (topo_graph W rows)) (a, b, ''l2'') =
     fold (merge_report (the_index rows))
       (filter (\<lambda>r. names_neighbor r \<and> link_key (the_index rows) r = (a, b, ''l2'')) (concat (map (row_reports W) rows))) None"
  by (simp add: topo_graph_def fold_l2 the_index_def)

text \<open>What the reports of one link amount to.\<close>

definition link_proto :: "link_report list \<Rightarrow> string" where
  "link_proto rs = (if list_all (\<lambda>r. lr_proto r = lr_proto (hd rs)) rs then lr_proto (hd rs) else ''both'')"

lemma merged_reports:
  assumes "list_all (\<lambda>r. lr_proto r \<in> {''lldp'', ''cdp''}) rs"
  shows "case fold (merge_report idx) rs None of
      None \<Rightarrow> rs = []
    | Some e \<Rightarrow> rs \<noteq> [] \<and> ends e = {lr_localID (hd rs), neighbor idx (hd rs)} \<and> (te_OperUp e \<longleftrightarrow> list_ex lr_operUp rs) \<and>
        te_Protocol e = link_proto rs"
  using assms
proof (induction rs rule: rev_induct)
  case (snoc r rs)
  then have IH: "case fold (merge_report idx) rs None of
      None \<Rightarrow> rs = []
    | Some e \<Rightarrow> rs \<noteq> [] \<and> ends e = {lr_localID (hd rs), neighbor idx (hd rs)} \<and> (te_OperUp e \<longleftrightarrow> list_ex lr_operUp rs) \<and>
        te_Protocol e = link_proto rs" by simp
  show ?case
  proof (cases "fold (merge_report idx) rs None")
    case None
    then have "rs = []" using IH by simp
    then show ?thesis by (simp add: merge_report_def ends_def link_proto_def)
  next
    case (Some e)
    then have e: "rs \<noteq> []" "ends e = {lr_localID (hd rs), neighbor idx (hd rs)}" "te_OperUp e \<longleftrightarrow> list_ex lr_operUp rs"
      "te_Protocol e = link_proto rs" using IH by simp_all
    have known: "lr_proto (hd rs) \<in> {''lldp'', ''cdp''}" "lr_proto r \<in> {''lldp'', ''cdp''}"
      using snoc.prems e(1) by (cases rs; simp)+
    have "te_Protocol (report_again r (neighbor idx r) e) = link_proto (rs @ [r])"
    proof (cases "list_all (\<lambda>q. lr_proto q = lr_proto (hd rs)) rs")
      case True
      then have "te_Protocol e = lr_proto (hd rs)" using e(4) by (simp add: link_proto_def)
      moreover have "link_proto (rs @ [r]) = (if lr_proto r = lr_proto (hd rs) then lr_proto (hd rs) else ''both'')"
        using True e(1) by (simp add: link_proto_def)
      ultimately show ?thesis using known(1) by (auto simp: l2_names_def)
    next
      case False
      then have "te_Protocol e = ''both''" "link_proto (rs @ [r]) = ''both''" using e(1,4) by (simp_all add: link_proto_def)
      then show ?thesis by simp
    qed
    moreover have "fold (merge_report idx) (rs @ [r]) None = Some (report_again r (neighbor idx r) e)"
      using Some by (simp add: merge_report_def)
    ultimately show ?thesis using e(1,2,3) by (simp add: ends_def disj_commute)
  qed
qed simp

subsection \<open>Closed graphs\<close>

text \<open>Ids of appliances are UUIDs, so they carry neither of the prefixes of the synthesized nodes.\<close>

definition plain_ids :: "uuid set \<Rightarrow> bool" where
  "plain_ids apps \<longleftrightarrow> (\<forall>i \<in> apps. \<not> has_prefix i ''foreign:'' \<and> \<not> has_prefix i ''cloud:'')"

definition edge_ok :: "uuid set \<Rightarrow> string set \<Rightarrow> edgeKey \<Rightarrow> topologyEdge \<Rightarrow> bool" where
  "edge_ok apps foreign k e \<longleftrightarrow>
     (\<exists>f. k = edge_key (te_From e) (te_To e) f \<and> (f = ''l2'' \<longleftrightarrow> te_Protocol e \<in> set l2_names)) \<and>
     te_From e \<in> apps \<and> te_To e \<in> apps \<union> foreign"

definition edge_keys :: "topo_state \<Rightarrow> edgeKey set" where
  "edge_keys s = dom (map_of (ts_edges s))"

definition foreign_ids :: "topo_state \<Rightarrow> string set" where
  "foreign_ids s = dom (map_of (ts_foreign s))"

definition graph_closed :: "uuid set \<Rightarrow> topo_state \<Rightarrow> bool" where
  "graph_closed apps s \<longleftrightarrow>
     distinct (map fst (ts_edges s)) \<and> distinct (map fst (ts_foreign s)) \<and>
     (\<forall>k e. map_of (ts_edges s) k = Some e \<longrightarrow> edge_ok apps (foreign_ids s) k e) \<and>
     (\<forall>k n. map_of (ts_foreign s) k = Some n \<longrightarrow> tn_ID n = k \<and> k \<notin> apps)"

text \<open>Every synthesized node is the end of an edge.\<close>

definition no_orphan :: "topo_state \<Rightarrow> bool" where
  "no_orphan s \<longleftrightarrow> (\<forall>k \<in> foreign_ids s. \<exists>a f. edge_key a k f \<in> edge_keys s)"

definition graph_ok :: "uuid set \<Rightarrow> topo_state \<Rightarrow> bool" where
  "graph_ok apps s \<longleftrightarrow> graph_closed apps s \<and> no_orphan s"

lemma closedD:
  assumes "graph_closed apps s"
  shows "distinct (map fst (ts_edges s))" and "distinct (map fst (ts_foreign s))"
    and "map_of (ts_edges s) k = Some e \<Longrightarrow> edge_ok apps (foreign_ids s) k e"
    and "map_of (ts_foreign s) j = Some n \<Longrightarrow> tn_ID n = j" and "map_of (ts_foreign s) j = Some n \<Longrightarrow> j \<notin> apps"
  using assms unfolding graph_closed_def by blast+

lemma closedI:
  assumes "distinct (map fst (ts_edges s))" and "distinct (map fst (ts_foreign s))"
    and "\<And>k e. map_of (ts_edges s) k = Some e \<Longrightarrow> edge_ok apps (foreign_ids s) k e"
    and "\<And>k n. map_of (ts_foreign s) k = Some n \<Longrightarrow> tn_ID n = k \<and> k \<notin> apps"
  shows "graph_closed apps s"
  using assms unfolding graph_closed_def by blast

lemma put_edge:
  assumes "graph_closed apps s" and "edge_ok apps (foreign_ids s) k (f d)"
    and "\<And>e. edge_ok apps (foreign_ids s) k e \<Longrightarrow> edge_ok apps (foreign_ids s) k (f e)"
  shows "graph_closed apps (s\<lparr>ts_edges := upsert k d f (ts_edges s)\<rparr>)"
proof (rule closedI)
  fix j e assume j: "map_of (ts_edges (s\<lparr>ts_edges := upsert k d f (ts_edges s)\<rparr>)) j = Some e"
  have "edge_ok apps (foreign_ids s) j e"
  proof (cases "j = k")
    case True
    then have "e = f (case map_of (ts_edges s) k of None \<Rightarrow> d | Some r \<Rightarrow> r)" using j by (simp add: map_of_upsert)
    then show ?thesis using True assms(2,3) closedD(3) [OF assms(1), of k] by (cases "map_of (ts_edges s) k") simp_all
  next
    case False
    then have "map_of (ts_edges s) j = Some e" using j by (simp add: map_of_upsert)
    then show ?thesis by (rule closedD(3) [OF assms(1)])
  qed
  then show "edge_ok apps (foreign_ids (s\<lparr>ts_edges := upsert k d f (ts_edges s)\<rparr>)) j e" by (simp add: foreign_ids_def)
next
  fix j n assume "map_of (ts_foreign (s\<lparr>ts_edges := upsert k d f (ts_edges s)\<rparr>)) j = Some n"
  then show "tn_ID n = j \<and> j \<notin> apps" using closedD(4,5) [OF assms(1)] by simp
qed (use closedD(1,2) [OF assms(1)] in \<open>simp_all add: distinct_upsert\<close>)

lemma edge_ok_mono: "edge_ok apps F k e \<Longrightarrow> F \<subseteq> F' \<Longrightarrow> edge_ok apps F' k e"
  by (auto simp: edge_ok_def)

lemma put_node:
  assumes "graph_closed apps s" and "tn_ID (f d) = k" and "\<And>n. tn_ID n = k \<Longrightarrow> tn_ID (f n) = k" and "k \<notin> apps"
  shows "graph_closed apps (s\<lparr>ts_foreign := upsert k d f (ts_foreign s)\<rparr>)"
proof (rule closedI)
  fix j e assume "map_of (ts_edges (s\<lparr>ts_foreign := upsert k d f (ts_foreign s)\<rparr>)) j = Some e"
  then have "edge_ok apps (foreign_ids s) j e" using closedD(3) [OF assms(1)] by simp
  then show "edge_ok apps (foreign_ids (s\<lparr>ts_foreign := upsert k d f (ts_foreign s)\<rparr>)) j e"
    by (rule edge_ok_mono) (auto simp: foreign_ids_def map_of_upsert)
next
  fix j n assume j: "map_of (ts_foreign (s\<lparr>ts_foreign := upsert k d f (ts_foreign s)\<rparr>)) j = Some n"
  show "tn_ID n = j \<and> j \<notin> apps"
  proof (cases "j = k")
    case True
    then have "n = f (case map_of (ts_foreign s) k of None \<Rightarrow> d | Some r \<Rightarrow> r)" using j by (simp add: map_of_upsert)
    then show ?thesis using True assms(2-4) closedD(4) [OF assms(1), of k] by (cases "map_of (ts_foreign s) k") simp_all
  next
    case False
    then have "map_of (ts_foreign s) j = Some n" using j by (simp add: map_of_upsert)
    then show ?thesis using closedD(4,5) [OF assms(1)] by blast
  qed
qed (use closedD(1,2) [OF assms(1)] in \<open>simp_all add: distinct_upsert\<close>)

lemma foreign_ids_put [simp]:
  "foreign_ids (s\<lparr>ts_edges := E\<rparr>) = foreign_ids s"
  "foreign_ids (s\<lparr>ts_foreign := upsert k d f (ts_foreign s)\<rparr>) = insert k (foreign_ids s)"
  by (auto simp: foreign_ids_def map_of_upsert)

lemma edge_keys_put [simp]:
  "edge_keys (s\<lparr>ts_edges := upsert k d f (ts_edges s)\<rparr>) = insert k (edge_keys s)"
  "edge_keys (s\<lparr>ts_foreign := F\<rparr>) = edge_keys s"
  by (auto simp: edge_keys_def map_of_upsert)

lemma foreign_member: "map_of (ts_foreign s) k \<noteq> None \<longleftrightarrow> k \<in> foreign_ids s"
  by (auto simp: foreign_ids_def)

lemma edge_ok_plain:
  "a \<in> apps \<Longrightarrow> b \<in> apps \<union> F \<Longrightarrow> (f = ''l2'' \<longleftrightarrow> pr \<in> set l2_names) \<Longrightarrow> edge_ok apps F (edge_key a b f) (plain_edge a b p pr up kind)"
  by (auto simp: edge_ok_def)

text \<open>All synthesized nodes but perhaps one have their edge.\<close>

definition no_orphan_but :: "string \<Rightarrow> topo_state \<Rightarrow> bool" where
  "no_orphan_but b s \<longleftrightarrow> (\<forall>k \<in> foreign_ids s. k \<noteq> b \<longrightarrow> (\<exists>a f. edge_key a k f \<in> edge_keys s))"

lemma no_orphan_there:
  assumes "edge_key a b f \<in> edge_keys s" and "no_orphan_but b s"
  shows "no_orphan s"
  unfolding no_orphan_def
proof
  fix k assume k: "k \<in> foreign_ids s"
  show "\<exists>a f. edge_key a k f \<in> edge_keys s"
  proof (cases "k = b")
    case True
    then show ?thesis using assms(1) by (intro exI) simp
  qed (use assms(2) k in \<open>simp add: no_orphan_but_def\<close>)
qed

lemma no_orphan_edge:
  assumes "no_orphan_but b s"
  shows "no_orphan (s\<lparr>ts_edges := upsert (edge_key a b f) d g (ts_edges s)\<rparr>)" (is "no_orphan ?t")
proof (rule no_orphan_there)
  show "edge_key a b f \<in> edge_keys ?t" by simp
  show "no_orphan_but b ?t" unfolding no_orphan_but_def
  proof (intro ballI impI)
    fix k assume "k \<in> foreign_ids ?t" "k \<noteq> b"
    then have "\<exists>a f. edge_key a k f \<in> edge_keys s" using assms by (simp add: no_orphan_but_def)
    then show "\<exists>a f. edge_key a k f \<in> edge_keys ?t" unfolding edge_keys_put by (elim exE) (intro exI, erule insertI2)
  qed
qed

subsection \<open>Every operation keeps the graph closed\<close>

definition index_ok :: "uuid set \<Rightarrow> sys_index \<Rightarrow> bool" where
  "index_ok apps idx \<longleftrightarrow> snd ` set idx \<subseteq> apps"

lemma index_okD: "index_ok apps idx \<Longrightarrow> map_of idx k = Some i \<Longrightarrow> i \<in> apps"
  by (force simp: index_ok_def dest: map_of_SomeD)

lemma prefix_foreign: "has_prefix (''foreign:'' @ x) ''foreign:''"
  by (rule has_prefix_append)

lemma not_app:
  assumes "plain_ids apps"
  shows "''foreign:'' @ x \<notin> apps" and "topologyInternetID \<notin> apps"
proof -
  show "''foreign:'' @ x \<notin> apps" using assms prefix_foreign [of x] unfolding plain_ids_def by blast
  have "has_prefix topologyInternetID ''cloud:''" by code_simp
  then show "topologyInternetID \<notin> apps" using assms unfolding plain_ids_def by blast
qed

lemma neighbor_cases:
  assumes "index_ok apps idx"
  shows "neighbor idx r \<in> apps \<or> (\<exists>x. neighbor idx r = ''foreign:'' @ x)"
  using index_okD [OF assms] by (auto simp: neighbor_def remote_id_def Let_def split: option.splits)

definition report_ok :: "uuid set \<Rightarrow> link_report \<Rightarrow> bool" where
  "report_ok apps r \<longleftrightarrow> lr_localID r \<in> apps \<and> lr_proto r \<in> {''lldp'', ''cdp''}"

lemma edge_ok_seen: "edge_ok apps F k e \<Longrightarrow> edge_ok apps F k (report_again r i e)"
  by (auto simp: edge_ok_def l2_names_def)

lemma edge_ok_new:
  "report_ok apps r \<Longrightarrow> i \<in> apps \<union> F \<Longrightarrow> edge_ok apps F (edge_key (lr_localID r) i ''l2'') (new_edge r i)"
  by (auto simp: edge_ok_def report_ok_def l2_names_def)

lemma note_foreign_put:
  assumes "graph_closed apps s" and "plain_ids apps" and "i \<in> apps \<or> (\<exists>x. i = ''foreign:'' @ x)"
  shows "graph_closed apps (s\<lparr>ts_foreign := note_foreign r n i (ts_foreign s)\<rparr>) \<and>
    foreign_ids (s\<lparr>ts_foreign := note_foreign r n i (ts_foreign s)\<rparr>) = foreign_ids s \<union> (if i \<in> apps then {} else {i})"
proof (cases "i \<in> apps")
  case True
  then have "\<not> has_prefix i ''foreign:''" using assms(2) by (simp add: plain_ids_def)
  then show ?thesis using True assms(1) by (simp add: note_foreign_def foreign_ids_def)
next
  case False
  then obtain x where x: "i = ''foreign:'' @ x" using assms(3) by blast
  have pre: "has_prefix i ''foreign:''" unfolding x by (rule prefix_foreign)
  have put: "graph_closed apps (s\<lparr>ts_foreign := upsert i d f (ts_foreign s)\<rparr>)"
    if "tn_ID (f d) = i" "\<And>n. tn_ID n = i \<Longrightarrow> tn_ID (f n) = i" for d f
    by (rule put_node) (use that assms(1) False in auto)
  have old: "tn_ID m = i" if "map_of (ts_foreign s) i = Some m" for m using that by (rule closedD(4) [OF assms(1)])
  have same: "s\<lparr>ts_foreign := ts_foreign s\<rparr> = s" by simp
  have nid: "tn_ID (foreign_node i a b c t) = i" for a b c t by (simp add: foreign_node_def)
  show ?thesis
  proof (cases "map_of (ts_foreign s) i")
    case None
    then show ?thesis using pre False put [of "\<lambda>n. n", OF nid] by (simp add: note_foreign_def Let_def)
  next
    case (Some m)
    then have mem: "i \<in> foreign_ids s" by (auto simp: foreign_ids_def)
    then show ?thesis using Some pre False assms(1) put [of "\<lambda>n. n\<lparr>tn_Tags := tn_Tags n @ [''phone'']\<rparr>" m] old [OF Some]
      by (simp add: note_foreign_def Let_def insert_absorb)
  qed
qed

lemma addEdge_ok:
  assumes "graph_ok apps s" and "plain_ids apps" and "index_ok apps idx" and "report_ok apps r"
  shows "graph_ok apps (addEdge idx r s)"
proof -
  have c: "graph_closed apps s" and o: "no_orphan s" using assms(1) by (simp_all add: graph_ok_def)
  let ?i = "neighbor idx r"
  let ?k = "edge_key (lr_localID r) ?i ''l2''"
  note i = neighbor_cases [OF assms(3), of r]
  consider (none) "trim_space (lr_remoteSys r) = [] \<and> lr_remoteAddr r = []"
    | (again) "\<not> (trim_space (lr_remoteSys r) = [] \<and> lr_remoteAddr r = [])" "map_of (ts_edges s) ?k \<noteq> None"
    | (new) "\<not> (trim_space (lr_remoteSys r) = [] \<and> lr_remoteAddr r = [])" "map_of (ts_edges s) ?k = None"
    by blast
  then show ?thesis
  proof cases
    case none
    then show ?thesis using assms(1) by (simp add: addEdge_def)
  next
    case again
    then obtain e where e: "map_of (ts_edges s) ?k = Some e" by blast
    have eq: "addEdge idx r s = s\<lparr>ts_edges := upsert ?k (new_edge r ?i) (report_again r ?i) (ts_edges s)\<rparr>"
      using again by (simp only: addEdge_def neighbor_def Let_def if_False if_True not_False_eq_True)
    have "edge_ok apps (foreign_ids s) ?k e" by (rule closedD(3) [OF c e])
    then have "?i \<in> apps \<union> foreign_ids s"
      unfolding edge_ok_def edge_key_eq_iff by (auto simp: doubleton_eq_iff)
    then have "graph_closed apps (addEdge idx r s)" unfolding eq
      by (intro put_edge c edge_ok_seen edge_ok_new assms(4))
    moreover have "no_orphan (addEdge idx r s)" unfolding eq
      by (rule no_orphan_edge) (use o in \<open>simp add: no_orphan_def no_orphan_but_def\<close>)
    ultimately show ?thesis by (simp add: graph_ok_def)
  next
    case new
    let ?t = "s\<lparr>ts_foreign := note_foreign r (trim_space (lr_remoteSys r)) ?i (ts_foreign s)\<rparr>"
    have eq: "addEdge idx r s = ?t\<lparr>ts_edges := upsert ?k (new_edge r ?i) (\<lambda>e. e) (ts_edges ?t)\<rparr>"
      using new by (simp only: addEdge_def neighbor_def Let_def if_False not_True_eq_False topo_state.simps) simp?
    note t = note_foreign_put [OF c assms(2) i, of r "trim_space (lr_remoteSys r)"]
    have "?i \<in> apps \<union> foreign_ids ?t" using t by auto
    then have "graph_closed apps (addEdge idx r s)" unfolding eq
      using t by (intro put_edge edge_ok_new assms(4)) simp_all
    moreover have "no_orphan (addEdge idx r s)" unfolding eq
      by (rule no_orphan_edge) (use o t in \<open>auto simp: no_orphan_def no_orphan_but_def split: if_splits\<close>)
    ultimately show ?thesis by (simp add: graph_ok_def)
  qed
qed

lemma cloud_closed:
  assumes "graph_closed apps s" and "plain_ids apps"
  shows "graph_closed apps (ensureInternetCloud s)" and "foreign_ids (ensureInternetCloud s) = insert topologyInternetID (foreign_ids s)"
    and "ts_edges (ensureInternetCloud s) = ts_edges s"
proof -
  have "tn_ID internet_node = topologyInternetID" by (simp add: internet_node_def)
  then have "graph_closed apps (s\<lparr>ts_foreign := upsert topologyInternetID internet_node (\<lambda>n. n) (ts_foreign s)\<rparr>)"
    using put_node [OF assms(1), of "\<lambda>n. n" internet_node topologyInternetID] not_app(2) [OF assms(2)] by simp
  then show "graph_closed apps (ensureInternetCloud s)" using assms(1) by (simp add: ensureInternetCloud_def)
  show "foreign_ids (ensureInternetCloud s) = insert topologyInternetID (foreign_ids s)"
    using foreign_member [of s topologyInternetID] by (auto simp: ensureInternetCloud_def)
  show "ts_edges (ensureInternetCloud s) = ts_edges s" by (simp add: ensureInternetCloud_def)
qed

lemma cloud_orphan: "no_orphan s \<Longrightarrow> graph_closed apps s \<Longrightarrow> plain_ids apps \<Longrightarrow> no_orphan_but topologyInternetID (ensureInternetCloud s)"
  by (simp add: no_orphan_def no_orphan_but_def cloud_closed edge_keys_def)

lemma uplink_ok:
  assumes "graph_ok apps s" and "plain_ids apps" and "l \<in> apps"
  shows "graph_ok apps (add_uplink l u s)"
proof (cases "trim_space (mu_Interface u) = []")
  case False
  have c: "graph_closed apps s" and o: "no_orphan s" using assms(1) by (simp_all add: graph_ok_def)
  let ?t = "ensureInternetCloud s"
  let ?ifc = "trim_space (mu_Interface u)"
  let ?k = "edge_key l topologyInternetID (''wan:'' @ to_lower ?ifc)"
  let ?e = "plain_edge l topologyInternetID ?ifc ''uplink'' (uplinkOperUp (mu_Status u)) (topologyWANKind ?ifc)"
  have eq: "add_uplink l u s = ?t\<lparr>ts_edges := upsert ?k ?e (\<lambda>_. ?e) (ts_edges ?t)\<rparr>"
    using False by (simp add: add_uplink_def Let_def)
  have "edge_ok apps (foreign_ids ?t) ?k ?e"
    by (rule edge_ok_plain) (use assms(3) cloud_closed [OF c assms(2)] in \<open>simp_all add: l2_names_def\<close>)
  then have "graph_closed apps (add_uplink l u s)" unfolding eq by (intro put_edge cloud_closed(1) c assms(2))
  moreover have "no_orphan (add_uplink l u s)" unfolding eq
    by (rule no_orphan_edge) (rule cloud_orphan [OF o c assms(2)])
  ultimately show ?thesis by (simp add: graph_ok_def)
qed (use assms in \<open>simp add: add_uplink_def\<close>)

lemma tunnel_ok:
  assumes "graph_ok apps s" and "plain_ids apps" and "l \<in> apps"
  shows "graph_ok apps (addSNMPTunnelStubs l snap s)"
proof (cases "find (\<lambda>f. equal_fold (if_Kind f) ''tunnel'' \<and> if_OperUp f) (snap_Interfaces snap)")
  case (Some f)
  have c: "graph_closed apps s" and o: "no_orphan s" using assms(1) by (simp_all add: graph_ok_def)
  let ?t = "ensureInternetCloud s"
  let ?k = "edge_key l topologyInternetID ''wan:snmp-tunnel''"
  let ?e = "plain_edge l topologyInternetID (if_Name f) ''uplink'' True (topologyWANKind (fallback (if_Name f) ''tunnel''))"
  note t = cloud_closed [OF c assms(2)]
  show ?thesis
  proof (cases "map_of (ts_edges ?t) ?k")
    case None
    have eq: "addSNMPTunnelStubs l snap s = ?t\<lparr>ts_edges := upsert ?k ?e (\<lambda>e. e) (ts_edges ?t)\<rparr>"
      using None Some by (simp add: addSNMPTunnelStubs_def Let_def)
    have "edge_ok apps (foreign_ids ?t) ?k ?e"
      by (rule edge_ok_plain) (use assms(3) t in \<open>simp_all add: l2_names_def\<close>)
    then have "graph_closed apps (addSNMPTunnelStubs l snap s)" unfolding eq by (intro put_edge t(1))
    moreover have "no_orphan (addSNMPTunnelStubs l snap s)" unfolding eq
      by (rule no_orphan_edge) (rule cloud_orphan [OF o c assms(2)])
    ultimately show ?thesis by (simp add: graph_ok_def)
  next
    case (Some e)
    then have eq: "addSNMPTunnelStubs l snap s = ?t"
      using \<open>find _ _ = Some f\<close> by (simp add: addSNMPTunnelStubs_def Let_def)
    have "?k \<in> edge_keys ?t" using Some by (auto simp: edge_keys_def)
    then have "no_orphan ?t" using cloud_orphan [OF o c assms(2)] by (rule no_orphan_there)
    then show ?thesis unfolding eq by (simp add: graph_ok_def t(1))
  qed
qed (use assms in \<open>simp add: addSNMPTunnelStubs_def\<close>)

text \<open>VPN peers: either a known appliance or a node of their own.\<close>

lemma resolve_ok:
  assumes "graph_closed apps s" and "plain_ids apps" and "index_ok apps idx" and "\<And>xs. set (order xs) = set xs"
  shows "graph_closed apps (snd (resolveVPNPeerID name ip order idx third s))"
    and "fst (resolveVPNPeerID name ip order idx third s) \<in> apps \<or>
      (\<exists>x. fst (resolveVPNPeerID name ip order idx third s) = ''foreign:'' @ x)"
    and "foreign_ids (snd (resolveVPNPeerID name ip order idx third s)) =
      foreign_ids s \<union> ({fst (resolveVPNPeerID name ip order idx third s)} - apps)"
proof -
  let ?clean = "to_lower (trim_space name)"
  let ?soft = "find (\<lambda>(k, i). k \<noteq> [] \<and> (contains k ?clean \<or> contains ?clean k)) (order idx)"
  let ?r = "resolveVPNPeerID name ip order idx third s"
  consider (known) i where "map_of idx ?clean = Some i" "?r = (i, s)" "i \<in> apps"
    | (soft) i where "map_of idx ?clean = None" "?r = (i, s)" "i \<in> apps"
    | (new) "map_of idx ?clean = None" "?soft = None"
  proof (cases "map_of idx ?clean")
    case (Some i)
    then show ?thesis using that(1) index_okD [OF assms(3)] by (simp add: resolveVPNPeerID_def Let_def)
  next
    case None
    show ?thesis
    proof (cases ?soft)
      case (Some p)
      then have "p \<in> set idx" using assms(4) by (auto dest: find_SomeD)
      then have "snd p \<in> apps" using assms(3) by (auto simp: index_ok_def)
      then show ?thesis using that(2) [of "snd p"] None Some by (simp add: resolveVPNPeerID_def Let_def case_prod_beta)
    qed (use None that(3) in blast)
  qed
  then have "graph_closed apps (snd ?r) \<and> (fst ?r \<in> apps \<or> (\<exists>x. fst ?r = ''foreign:'' @ x)) \<and> foreign_ids (snd ?r) = foreign_ids s \<union> ({fst ?r} - apps)"
  proof cases
    case new
    define i where "i = (if third then ''foreign:vpn3p:'' else ''foreign:vpn:'') @ (if ?clean = [] then to_lower ip else ?clean)"
    have x: "\<exists>x. i = ''foreign:'' @ x" unfolding i_def by simp
    then have no: "i \<notin> apps" using not_app(1) [OF assms(2)] by blast
    have eq: "?r = (i, if map_of (ts_foreign s) i \<noteq> None then s
        else s\<lparr>ts_foreign := upsert i (foreign_node i (if name = [] then ip else name) [] ip []) (\<lambda>n. n) (ts_foreign s)\<rparr>)"
      using new by (simp add: resolveVPNPeerID_def Let_def i_def)
    have "graph_closed apps (s\<lparr>ts_foreign := upsert i (foreign_node i (if name = [] then ip else name) [] ip []) (\<lambda>n. n) (ts_foreign s)\<rparr>)"
      by (rule put_node) (use assms(1) no in \<open>simp_all add: foreign_node_def\<close>)
    then show ?thesis using x no assms(1) foreign_member [of s i] unfolding eq by auto
  qed (use assms(1) in auto)
  then show "graph_closed apps (snd ?r)" "fst ?r \<in> apps \<or> (\<exists>x. fst ?r = ''foreign:'' @ x)"
    "foreign_ids (snd ?r) = foreign_ids s \<union> ({fst ?r} - apps)" by blast+
qed

lemma peer_ok:
  assumes "graph_ok apps s" and "plain_ids apps" and "index_ok apps idx" and "\<And>xs. set (order xs) = set xs" and "l \<in> apps"
    and "f \<noteq> ''l2''" and "pr \<notin> set l2_names"
  shows "graph_ok apps (case resolveVPNPeerID name ip order idx third s of (i, s1) \<Rightarrow> putVPNEdge l i n pr f up s1)"
proof -
  have c: "graph_closed apps s" and o: "no_orphan s" using assms(1) by (simp_all add: graph_ok_def)
  obtain i t where r: "resolveVPNPeerID name ip order idx third s = (i, t)" by fastforce
  note t = resolve_ok [OF c assms(2-4), of name ip third, unfolded r fst_conv snd_conv]
  have e: "ts_edges t = ts_edges s" using resolve_edges [of name ip order idx third s] r by simp
  have almost: "no_orphan_but i t" using o by (auto simp: no_orphan_def no_orphan_but_def edge_keys_def e t(3))
  show ?thesis
  proof (cases "l = i")
    case True
    then have "foreign_ids t = foreign_ids s" using t(3) assms(5) by auto
    then have "no_orphan t" using o by (simp add: no_orphan_def edge_keys_def e)
    then show ?thesis using True t(1) by (simp add: r putVPNEdge_def graph_ok_def)
  next
    case False
    let ?e = "plain_edge l i n pr up (topologyVPNKind pr)"
    let ?g = "\<lambda>e. if up then e\<lparr>te_OperUp := True\<rparr> else e"
    let ?u = "t\<lparr>ts_edges := upsert (edge_key l i f) ?e ?g (ts_edges t)\<rparr>"
    have g: "edge_ok apps F k (?g x) = edge_ok apps F k x" for F k x by (simp add: edge_ok_def)
    have "edge_ok apps (foreign_ids t) (edge_key l i f) ?e"
      by (rule edge_ok_plain) (use assms(5-7) t(3) in auto)
    then have "graph_closed apps ?u" by (intro put_edge t(1)) (simp_all only: g)
    moreover have "no_orphan ?u" by (rule no_orphan_edge [OF almost])
    ultimately show ?thesis using False by (simp add: r putVPNEdge_def graph_ok_def)
  qed
qed

lemma fold_ok: "(\<And>x s. graph_ok apps s \<Longrightarrow> x \<in> set xs \<Longrightarrow> graph_ok apps (f x s)) \<Longrightarrow> graph_ok apps s \<Longrightarrow> graph_ok apps (fold f xs s)"
  by (induction xs arbitrary: s) simp_all

lemma add_uplinks_ok:
  "graph_ok apps s \<Longrightarrow> plain_ids apps \<Longrightarrow> l \<in> apps \<Longrightarrow> graph_ok apps (fold (add_uplink l) us s)"
  by (rule fold_ok) (rule uplink_ok)

lemma add_peers_ok:
  assumes "plain_ids apps" and "index_ok apps idx" and "\<And>xs. set (order xs) = set xs" and "l \<in> apps" and "graph_ok apps s"
  shows "graph_ok apps (fold (add_meraki_peer l order idx) ps s)" and "graph_ok apps (fold (add_third_party_peer l order idx) ps s)"
proof -
  have m: "graph_ok apps (add_meraki_peer l order idx p t)" if "graph_ok apps t" for p t
  proof (cases "trim_space (mv_Name p) = []")
    case False
    show ?thesis unfolding add_meraki_peer_def Let_def if_not_P [OF False]
      by (rule peer_ok [OF that assms(1-4)]) (simp_all add: l2_names_def)
  qed (use that in \<open>simp add: add_meraki_peer_def\<close>)
  show "graph_ok apps (fold (add_meraki_peer l order idx) ps s)" by (rule fold_ok, erule m, rule assms(5))
  have t: "graph_ok apps (add_third_party_peer l order idx p t)" if "graph_ok apps t" for p t
  proof (cases "(if trim_space (mv_Name p) = [] then trim_space (mv_PublicIP p) else trim_space (mv_Name p)) = []")
    case False
    show ?thesis unfolding add_third_party_peer_def Let_def if_not_P [OF False]
      by (rule peer_ok [OF that assms(1-4)]) (simp_all add: l2_names_def)
  next
    case True
    show ?thesis unfolding add_third_party_peer_def Let_def if_P [OF True] by (rule that)
  qed
  show "graph_ok apps (fold (add_third_party_peer l order idx) ps s)" by (rule fold_ok, erule t, rule assms(5))
qed

lemma meraki_ok:
  assumes "plain_ids apps" and "index_ok apps idx" and "\<And>xs. set (order xs) = set xs" and "l \<in> apps" and "graph_ok apps s"
  shows "graph_ok apps (addMerakiWANAndVPN l ms order idx s)"
proof (cases ms)
  case (Some snap)
  note up = add_uplinks_ok [OF assms(5,1,4), of "mt_Uplinks snap"]
  show ?thesis
  proof (cases "mt_VPN snap")
    case None
    show ?thesis unfolding addMerakiWANAndVPN_def Let_def Some None option.case by (rule up)
  next
    case vpn: (Some vpn)
    show ?thesis unfolding addMerakiWANAndVPN_def Let_def Some vpn option.case
      by (rule add_peers_ok(2) [OF assms(1-4) add_peers_ok(1) [OF assms(1-4) up]])
  qed
qed (use assms in \<open>simp add: addMerakiWANAndVPN_def\<close>)

lemma snmp_reports_ok: "l \<in> apps \<Longrightarrow> r \<in> set (snmp_reports l snap) \<Longrightarrow> report_ok apps r"
  by (auto simp: snmp_reports_def lldp_report_def cdp_report_def report_ok_def Let_def)

lemma meraki_report_ok: "l \<in> apps \<Longrightarrow> pr \<in> {''lldp'', ''cdp''} \<Longrightarrow> report_ok apps (meraki_report l p up i out su re pr)"
  by (simp add: meraki_report_def report_ok_def)

lemma neighbor_reports_ok: "l \<in> apps \<Longrightarrow> r \<in> set (fst (neighbor_reports l seen ns)) \<Longrightarrow> report_ok apps r"
  by (induction l seen ns rule: neighbor_reports.induct)
    (auto simp: Let_def meraki_report_ok split: prod.splits if_splits)

lemma port_reports_ok: "l \<in> apps \<Longrightarrow> r \<in> set (port_reports l seen ps) \<Longrightarrow> report_ok apps r"
  by (induction l seen ps rule: port_reports.induct) (auto simp: Let_def meraki_report_ok split: if_splits)

lemma meraki_l2_ok: "l \<in> apps \<Longrightarrow> r \<in> set (addMerakiL2Neighbors l ms) \<Longrightarrow> report_ok apps r"
proof (cases ms)
  case (Some snap)
  assume l: "l \<in> apps" and r: "r \<in> set (addMerakiL2Neighbors l ms)"
  obtain rs seen where n: "neighbor_reports l {} (mt_Neighbors snap) = (rs, seen)" by fastforce
  then have "r \<in> set rs \<or> r \<in> set (port_reports l seen (mt_Ports snap))" using r Some by (simp add: addMerakiL2Neighbors_def)
  then show ?thesis using neighbor_reports_ok [OF l, of r "{}" "mt_Neighbors snap"] port_reports_ok [OF l] n by auto
qed (simp add: addMerakiL2Neighbors_def)

lemma row_reports_ok:
  assumes "tr_ID row \<in> apps" and "r \<in> set (row_reports W row)"
  shows "report_ok apps r"
proof (cases "isMerakiSnapshot (tw_decode W) (tr_Snapshot row)")
  case True
  then have "r \<in> set (addMerakiL2Neighbors (tr_ID row) (td_meraki (tw_decode W) (tr_Snapshot row)))"
    using assms(2) by (simp add: row_reports_def Let_def split: if_splits)
  then show ?thesis by (rule meraki_l2_ok [OF assms(1)])
next
  case False
  then obtain snap where "r \<in> set (snmp_reports (tr_ID row) snap)"
    using assms(2) by (auto simp: row_reports_def Let_def split: if_splits option.splits)
  then show ?thesis by (rule snmp_reports_ok [OF assms(1)])
qed

lemma add_reports_ok:
  assumes "graph_ok apps s" and "plain_ids apps" and "index_ok apps idx" and "\<And>r. r \<in> set rs \<Longrightarrow> report_ok apps r"
  shows "graph_ok apps (fold (addEdge idx) rs s)"
proof (rule fold_ok)
  show "graph_ok apps (addEdge idx r t)" if "graph_ok apps t" "r \<in> set rs" for r t
    by (rule addEdge_ok [OF that(1) assms(2,3) assms(4) [OF that(2)]])
qed (rule assms(1))

lemma add_appliance_ok:
  assumes "graph_ok apps s" and "plain_ids apps" and "index_ok apps idx" and "\<And>xs. set (tw_index_order W xs) = set xs" and "tr_ID row \<in> apps"
  shows "graph_ok apps (add_appliance W idx row s)"
proof -
  let ?raw = "tr_Snapshot row" and ?J = "tw_decode W" and ?l = "tr_ID row"
  consider (none) "?raw = []" | (meraki) "?raw \<noteq> []" "isMerakiSnapshot ?J ?raw" | (snmp) "?raw \<noteq> []" "\<not> isMerakiSnapshot ?J ?raw" by blast
  then show ?thesis
  proof cases
    case meraki
    have "graph_ok apps (fold (addEdge idx) (addMerakiL2Neighbors ?l (td_meraki ?J ?raw)) s)"
      by (rule add_reports_ok [OF assms(1-3)]) (rule meraki_l2_ok [OF assms(5)])
    then show ?thesis using meraki_ok [OF assms(2-5)] meraki by (simp add: add_appliance_def Let_def)
  next
    case snmp
    show ?thesis
    proof (cases "td_snmp ?J ?raw")
      case (Some snap)
      have "graph_ok apps (fold (addEdge idx) (snmp_reports ?l snap) s)"
        by (rule add_reports_ok [OF assms(1-3)]) (rule snmp_reports_ok [OF assms(5)])
      then show ?thesis using tunnel_ok assms(2,5) snmp Some by (simp add: add_appliance_def Let_def)
    qed (use assms(1) snmp in \<open>simp add: add_appliance_def Let_def\<close>)
  qed (use assms(1) in \<open>simp add: add_appliance_def\<close>)
qed

lemma set_upsert_values: "snd ` set (upsert k d (\<lambda>_. i) xs) \<subseteq> insert i (snd ` set xs)"
proof (induction xs)
  case (Cons p xs)
  then show ?case by (cases p) (simp, blast)
qed simp

lemma index_row_ok: "index_ok apps idx \<Longrightarrow> tr_ID row \<in> apps \<Longrightarrow> index_ok apps (index_row row idx)"
  using set_upsert_values [of _ _ "tr_ID row"] unfolding index_ok_def index_row_def Let_def
  by (smt (verit, best) insert_subset order_trans subset_insertI2 insert_absorb)

lemma the_index_ok: "index_ok (tr_ID ` set rows) (the_index rows)"
proof -
  have "index_ok apps (fold index_row rs idx)" if "index_ok apps idx" "tr_ID ` set rs \<subseteq> apps" for rs idx apps
    using that by (induction rs arbitrary: idx) (simp_all add: index_row_ok)
  then show ?thesis by (simp add: the_index_def index_ok_def)
qed

lemma topo_graph_ok:
  assumes "plain_ids (tr_ID ` set rows)" and "\<And>xs. set (tw_index_order W xs) = set xs"
  shows "graph_ok (tr_ID ` set rows) (topo_graph W rows)"
proof -
  let ?apps = "tr_ID ` set rows"
  show ?thesis unfolding topo_graph_def the_index_def [symmetric]
  proof (rule fold_ok)
    show "graph_ok ?apps (add_appliance W (the_index rows) r s)" if "graph_ok ?apps s" "r \<in> set rows" for r s
      by (rule add_appliance_ok [OF that(1) assms(1) the_index_ok assms(2)]) (use that(2) in simp)
    show "graph_ok ?apps \<lparr>ts_edges = [], ts_foreign = []\<rparr>"
      by (simp add: graph_ok_def graph_closed_def no_orphan_def foreign_ids_def)
  qed
qed

subsection \<open>The response\<close>

definition is_l2 :: "topologyEdge \<Rightarrow> bool" where
  "is_l2 e \<longleftrightarrow> te_Protocol e \<in> set l2_names"

definition link_ends :: "sys_index \<Rightarrow> link_report \<Rightarrow> string set" where
  "link_ends idx r = {lr_localID r, neighbor idx r}"

definition link_reports :: "topo_world \<Rightarrow> topo_row list \<Rightarrow> link_report list" where
  "link_reports W rows = filter names_neighbor (concat (map (row_reports W) rows))"

text \<open>Go walks a map in any order, but over all of it.\<close>

definition walks :: "topo_world \<Rightarrow> bool" where
  "walks W \<longleftrightarrow> (\<forall>xs. set (tw_index_order W xs) = set xs) \<and> (\<forall>ns. mset (tw_node_order W ns) = mset ns) \<and>
     (\<forall>es. mset (tw_edge_order W es) = mset es)"

lemma graph_link:
  "map_of (ts_edges (topo_graph W rows)) (edge_key a b ''l2'') =
     fold (merge_report (the_index rows)) (filter (\<lambda>r. link_ends (the_index rows) r = {a, b}) (link_reports W rows)) None"
proof -
  obtain x y where k: "edge_key a b ''l2'' = (x, y, ''l2'')" by (cases "b < a") (simp_all add: edge_key_def)
  have "link_key (the_index rows) r = (x, y, ''l2'') \<longleftrightarrow> link_ends (the_index rows) r = {a, b}" for r
    unfolding k [symmetric] link_key_def edge_key_eq_iff link_ends_def by simp
  then show ?thesis unfolding k graph_l2 link_reports_def filter_filter by (simp add: conj_commute)
qed

lemma response_edges:
  "walks W \<Longrightarrow> mset (tp_Edges (topology_response W rows)) = mset (map snd (ts_edges (topo_graph W rows)))"
  by (simp add: walks_def topology_response_def Let_def)

lemma distinct_map_key:
  assumes "distinct (map f xs)" and "\<And>x y. x \<in> set xs \<Longrightarrow> y \<in> set xs \<Longrightarrow> g x = g y \<Longrightarrow> f x = f y"
  shows "distinct (map g xs)"
  using assms unfolding distinct_map by (auto intro!: inj_onI dest: inj_onD)

lemma graph_edge:
  assumes "graph_ok apps s" and "(k, e) \<in> set (ts_edges s)"
  shows "\<exists>f. k = edge_key (te_From e) (te_To e) f \<and> (f = ''l2'' \<longleftrightarrow> is_l2 e)" and "map_of (ts_edges s) k = Some e"
proof -
  have c: "graph_closed apps s" using assms(1) by (simp add: graph_ok_def)
  show k: "map_of (ts_edges s) k = Some e" using closedD(1) [OF c] assms(2) by simp
  show "\<exists>f. k = edge_key (te_From e) (te_To e) f \<and> (f = ''l2'' \<longleftrightarrow> is_l2 e)"
    using closedD(3) [OF c k] by (simp add: edge_ok_def is_l2_def)
qed

lemma l2_edge_merged:
  assumes "plain_ids (tr_ID ` set rows)" and "walks W" and "e \<in> set (tp_Edges (topology_response W rows))" and "is_l2 e"
  shows "fold (merge_report (the_index rows)) (filter (\<lambda>r. link_ends (the_index rows) r = ends e) (link_reports W rows)) None = Some e"
proof -
  have ok: "graph_ok (tr_ID ` set rows) (topo_graph W rows)"
    using assms(1,2) by (intro topo_graph_ok) (simp_all add: walks_def)
  have "e \<in> set (map snd (ts_edges (topo_graph W rows)))"
    using assms(3) mset_eq_setD [OF response_edges [OF assms(2)]] by blast
  then obtain k where k: "(k, e) \<in> set (ts_edges (topo_graph W rows))" by auto
  have "k = edge_key (te_From e) (te_To e) ''l2''" using graph_edge(1) [OF ok k] assms(4) by auto
  then show ?thesis using graph_edge(2) [OF ok k] by (simp add: graph_link ends_def)
qed

lemma link_reports_protos: "list_all (\<lambda>r. lr_proto r \<in> {''lldp'', ''cdp''}) (filter P (link_reports W rows))"
proof -
  have "lr_proto r \<in> {''lldp'', ''cdp''}" if "r \<in> set (link_reports W rows)" for r
    using that row_reports_ok [of _ "tr_ID ` set rows" r W] by (auto simp: link_reports_def report_ok_def)
  then show ?thesis by (simp add: list_all_iff)
qed

text \<open>C19: The layer 2 edges of the topology are exactly the adjacencies that the neighbour rows of the
  appliances report, one edge for each pair whatever the number, the direction and the protocols of the
  reports; an edge is up when one of its reports is, and carries the protocol of its reports or \<open>both\<close>.\<close>

theorem topology_links:
  assumes "plain_ids (tr_ID ` set rows)" and "walks W"
  defines "es \<equiv> filter is_l2 (tp_Edges (topology_response W rows))"
  shows "distinct (map ends es) \<and> ends ` set es = link_ends (the_index rows) ` set (link_reports W rows) \<and>
    (\<forall>e \<in> set es.
       (te_OperUp e \<longleftrightarrow> list_ex lr_operUp (filter (\<lambda>r. link_ends (the_index rows) r = ends e) (link_reports W rows))) \<and>
       te_Protocol e = link_proto (filter (\<lambda>r. link_ends (the_index rows) r = ends e) (link_reports W rows)))"
proof -
  let ?s = "topo_graph W rows" and ?idx = "the_index rows"
  have ok: "graph_ok (tr_ID ` set rows) ?s" using assms(1,2) by (intro topo_graph_ok) (simp_all add: walks_def)
  let ?E = "filter (\<lambda>p. is_l2 (snd p)) (ts_edges ?s)"
  have "filter is_l2 (map snd (ts_edges ?s)) = map snd ?E" by (simp add: filter_map comp_def)
  then have "mset es = mset (map snd ?E)"
    unfolding es_def mset_filter response_edges [OF assms(2)] by (metis mset_filter)
  moreover have "distinct (map (ends \<circ> snd) ?E)"
  proof (rule distinct_map_key)
    have "distinct (map fst (ts_edges ?s))" using ok closedD(1) unfolding graph_ok_def by blast
    then show "distinct (map fst ?E)" by (rule distinct_map_filter)
    fix p q assume "p \<in> set ?E" "q \<in> set ?E" and same: "(ends \<circ> snd) p = (ends \<circ> snd) q"
    then have "fst p = edge_key (te_From (snd p)) (te_To (snd p)) ''l2''" "fst q = edge_key (te_From (snd q)) (te_To (snd q)) ''l2''"
      using graph_edge(1) [OF ok, of "fst p" "snd p"] graph_edge(1) [OF ok, of "fst q" "snd q"] by auto
    then show "fst p = fst q" using same by (simp add: edge_key_eq_iff ends_def)
  qed
  ultimately have d: "distinct (map ends es)"
    by (metis (no_types) map_map mset_eq_imp_distinct_iff mset_map)
  have merged: "fold (merge_report ?idx) (filter (\<lambda>r. link_ends ?idx r = ends e) (link_reports W rows)) None = Some e" if "e \<in> set es" for e
    using l2_edge_merged [OF assms(1,2), of e] that by (simp add: es_def)
  have facts: "filter (\<lambda>r. link_ends ?idx r = ends e) (link_reports W rows) \<noteq> [] \<and>
      (te_OperUp e \<longleftrightarrow> list_ex lr_operUp (filter (\<lambda>r. link_ends ?idx r = ends e) (link_reports W rows))) \<and>
      te_Protocol e = link_proto (filter (\<lambda>r. link_ends ?idx r = ends e) (link_reports W rows))" if "e \<in> set es" for e
    using merged_reports [OF link_reports_protos [of "\<lambda>r. link_ends ?idx r = ends e" W rows], of ?idx] merged [OF that] by simp
  have "ends e \<in> link_ends ?idx ` set (link_reports W rows)" if "e \<in> set es" for e
    using facts [OF that] unfolding filter_empty_conv by blast
  moreover have "link_ends ?idx r \<in> ends ` set es" if r: "r \<in> set (link_reports W rows)" for r
  proof -
    let ?rs = "filter (\<lambda>q. link_ends ?idx q = link_ends ?idx r) (link_reports W rows)"
    have ne: "?rs \<noteq> []" using r unfolding filter_empty_conv by blast
    then obtain e where e: "fold (merge_report ?idx) ?rs None = Some e"
      using merged_reports [OF link_reports_protos [of "\<lambda>q. link_ends ?idx q = link_ends ?idx r" W rows], of ?idx]
      by (cases "fold (merge_report ?idx) ?rs None") simp_all
    then have m: "ends e = {lr_localID (hd ?rs), neighbor ?idx (hd ?rs)}" "te_Protocol e = link_proto ?rs"
      using merged_reports [OF link_reports_protos [of "\<lambda>q. link_ends ?idx q = link_ends ?idx r" W rows], of ?idx] by simp_all
    have hd: "hd ?rs \<in> set (link_reports W rows)" "link_ends ?idx (hd ?rs) = link_ends ?idx r"
      using hd_in_set [OF ne] by simp_all
    have "map_of (ts_edges ?s) (edge_key (lr_localID r) (neighbor ?idx r) ''l2'') = Some e"
      using e by (simp add: graph_link link_ends_def)
    then have "e \<in> set (map snd (ts_edges ?s))" by (force dest: map_of_SomeD)
    then have "e \<in> set (tp_Edges (topology_response W rows))"
      using mset_eq_setD [OF response_edges [OF assms(2), of rows]] by blast
    moreover have "is_l2 e"
    proof -
      have "lr_proto (hd ?rs) \<in> {''lldp'', ''cdp''}" using link_reports_protos [of "\<lambda>_. True" W rows] hd(1) by (simp add: list_all_iff)
      then show ?thesis using m(2) by (auto simp: is_l2_def link_proto_def l2_names_def)
    qed
    ultimately show ?thesis using m(1) hd(2) by (auto simp: es_def link_ends_def)
  qed
  ultimately have "ends ` set es = link_ends ?idx ` set (link_reports W rows)" by blast
  then show ?thesis using d facts by blast
qed

text \<open>The topology is a closed graph: the nodes carry distinct ids in increasing order and are exactly
  the appliances and the ends of the edges, so no edge leads nowhere and no synthesized node is without
  an edge.\<close>

theorem topology_closed:
  assumes "distinct (map tr_ID rows)" and "plain_ids (tr_ID ` set rows)" and "walks W"
  shows "sorted (map tn_ID (tp_Nodes (topology_response W rows))) \<and> distinct (map tn_ID (tp_Nodes (topology_response W rows))) \<and>
    tn_ID ` set (tp_Nodes (topology_response W rows)) = tr_ID ` set rows \<union> \<Union> (ends ` set (tp_Edges (topology_response W rows)))"
proof -
  let ?s = "topo_graph W rows" and ?apps = "tr_ID ` set rows"
  have ok: "graph_ok ?apps ?s" using assms(2,3) by (intro topo_graph_ok) (simp_all add: walks_def)
  have c: "graph_closed ?apps ?s" and o: "no_orphan ?s" using ok by (simp_all add: graph_ok_def)
  have ids: "map tn_ID (map snd (ts_foreign ?s)) = map fst (ts_foreign ?s)"
    using closedD(2,4) [OF c] by (simp add: comp_def)
  have fids: "foreign_ids ?s = fst ` set (ts_foreign ?s)" by (simp add: foreign_ids_def dom_map_of_conv_image_fst)
  have nodes: "mset (map tn_ID (tp_Nodes (topology_response W rows))) = mset (map tr_ID rows @ map fst (ts_foreign ?s))"
  proof -
    have "mset (tw_node_order W (map snd (ts_foreign ?s))) = mset (map snd (ts_foreign ?s))" using assms(3) by (simp add: walks_def)
    then have "image_mset tn_ID (mset (tw_node_order W (map snd (ts_foreign ?s)))) = mset (map fst (ts_foreign ?s))"
      by (simp only: ids [symmetric] mset_map)
    moreover have "map tn_ID (map (appliance_node (tw_now W)) rows) = map tr_ID rows" by (simp add: appliance_node_def)
    moreover have "mset (map tn_ID (tp_Nodes (topology_response W rows))) =
        mset (map tn_ID (map (appliance_node (tw_now W)) rows)) + image_mset tn_ID (mset (tw_node_order W (map snd (ts_foreign ?s))))"
      by (simp add: topology_response_def Let_def multiset.map_comp)
    ultimately show ?thesis by (simp only: mset_append)
  qed
  have "k \<notin> ?apps" if "k \<in> foreign_ids ?s" for k using that closedD(5) [OF c] by (auto simp: foreign_ids_def)
  then have "distinct (map tr_ID rows @ map fst (ts_foreign ?s))" using assms(1) closedD(2) [OF c] by (auto simp: fids)
  then have d: "distinct (map tn_ID (tp_Nodes (topology_response W rows)))" using mset_eq_imp_distinct_iff [OF nodes] by simp
  have "set (map tn_ID (tp_Nodes (topology_response W rows))) = ?apps \<union> foreign_ids ?s"
    using mset_eq_setD [OF nodes] by (simp add: fids)
  moreover have "set (tp_Edges (topology_response W rows)) = snd ` set (ts_edges ?s)"
    using mset_eq_setD [OF response_edges [OF assms(3), of rows]] by simp
  moreover have "ends e \<subseteq> ?apps \<union> foreign_ids ?s" if "(k, e) \<in> set (ts_edges ?s)" for k e
    using closedD(3) [OF c graph_edge(2) [OF ok that]] by (auto simp: edge_ok_def ends_def)
  moreover have "k \<in> \<Union> (ends ` snd ` set (ts_edges ?s))" if k: "k \<in> foreign_ids ?s" for k
  proof -
    obtain a f e where e: "map_of (ts_edges ?s) (edge_key a k f) = Some e"
      using o k by (force simp: no_orphan_def edge_keys_def)
    then have "k \<in> ends e" using closedD(3) [OF c e] by (auto simp: edge_ok_def edge_key_eq_iff ends_def)
    then show ?thesis using map_of_SomeD [OF e] by force
  qed
  ultimately have "tn_ID ` set (tp_Nodes (topology_response W rows)) = ?apps \<union> \<Union> (ends ` set (tp_Edges (topology_response W rows)))"
    by fastforce
  moreover have "sorted (map tn_ID (tp_Nodes (topology_response W rows)))" by (simp add: topology_response_def Let_def)
  ultimately show ?thesis using d by blast
qed

subsection \<open>A small network\<close>

text \<open>
  Two switches that see each other, one by LLDP and CDP, the other by LLDP only, and a phone behind the
  first one that only its CDP row gives away.
\<close>

definition topo_lldp :: "int \<Rightarrow> string \<Rightarrow> lldp" where
  "topo_lldp i sys = (fresh_lldp i)\<lparr>lldp_RemoteSysName := sys\<rparr>"

definition topo_cdp :: "int \<Rightarrow> string \<Rightarrow> string \<Rightarrow> cdp" where
  "topo_cdp i sys plat = (fresh_cdp i)\<lparr>cdp_RemoteSysName := sys, cdp_RemotePlatform := plat\<rparr>"

definition topo_snapshot :: "lldp list \<Rightarrow> cdp list \<Rightarrow> snapshot" where
  "topo_snapshot ls cs =
     \<lparr>snap_SchemaVersion = 1, snap_CapturedAt = 0, snap_CollectMs = 0, snap_System = zero_sysinfo, snap_Chassis = zero_chassis,
      snap_Interfaces = [], snap_Entities = [], snap_LLDP = ls, snap_CDP = cs, snap_Vendor = None, snap_CollectionWarnings = []\<rparr>"

definition topo_demo_decode :: topo_decode where
  "topo_demo_decode =
     \<lparr>td_peek = (\<lambda>_. None), td_meraki = (\<lambda>_. None),
      td_snmp = (\<lambda>raw. if raw = ''A'' then Some (topo_snapshot [topo_lldp 1 ''sw-b'', topo_lldp 2 ''SEP0011''] [topo_cdp 1 ''SW-B(FDO1)'' [], topo_cdp 2 ''SEP0011'' ''Cisco IP Phone 8841''])
        else Some (topo_snapshot [topo_lldp 7 ''sw-a''] []))\<rparr>"

definition topo_demo :: topo_world where
  "topo_demo = \<lparr>tw_decode = topo_demo_decode, tw_index_order = id, tw_node_order = id, tw_edge_order = id, tw_now = 0,
     tw_query_fails = False, tw_scans = (\<lambda>_. True)\<rparr>"

definition topo_demo_row :: "uuid \<Rightarrow> string \<Rightarrow> string \<Rightarrow> topo_row" where
  "topo_demo_row i name raw =
     \<lparr>tr_ID = i, tr_SiteID = ''s'', tr_Name = name, tr_Vendor = [], tr_Model = None, tr_IP = [], tr_SysName = Some name,
      tr_LastPolled = None, tr_LastError = None, tr_PhysTotal = None, tr_PhysUp = None, tr_Uplinks = None, tr_Tags = [], tr_Snapshot = raw\<rparr>"

definition topo_demo_rows :: "topo_row list" where
  "topo_demo_rows = [topo_demo_row ''a'' ''sw-a'' ''A'', topo_demo_row ''b'' ''sw-b'' ''B'']"

lemma topo_demo_plain: "plain_ids (tr_ID ` set topo_demo_rows)" "walks topo_demo" "distinct (map tr_ID topo_demo_rows)"
  by code_simp (simp add: walks_def topo_demo_def, code_simp)

lemma topology_links_witness:
  "ends ` set (filter is_l2 (tp_Edges (topology_response topo_demo topo_demo_rows))) = {{''a'', ''b''}, {''a'', ''foreign:sep0011''}}"
proof -
  have "ends ` set (filter is_l2 (tp_Edges (topology_response topo_demo topo_demo_rows))) =
      link_ends (the_index topo_demo_rows) ` set (link_reports topo_demo topo_demo_rows)"
    using topology_links [OF topo_demo_plain(1,2)] by blast
  also have "\<dots> = {{''a'', ''b''}, {''a'', ''foreign:sep0011''}}"
  proof -
    have "map (\<lambda>r. (lr_localID r, neighbor (the_index topo_demo_rows) r)) (link_reports topo_demo topo_demo_rows) =
        [(''a'', ''b''), (''a'', ''foreign:sep0011''), (''a'', ''b''), (''a'', ''foreign:sep0011''), (''b'', ''a'')]" by code_simp
    then have p: "(\<lambda>r. (lr_localID r, neighbor (the_index topo_demo_rows) r)) ` set (link_reports topo_demo topo_demo_rows) =
        {(''a'', ''b''), (''a'', ''foreign:sep0011''), (''b'', ''a'')}" by (simp flip: set_map) blast
    have q: "link_ends (the_index topo_demo_rows) = (\<lambda>(a, b). {a, b}) \<circ> (\<lambda>r. (lr_localID r, neighbor (the_index topo_demo_rows) r))"
      by (simp add: fun_eq_iff link_ends_def)
    show ?thesis unfolding q image_comp [symmetric] p by (simp add: insert_commute)
  qed
  finally show ?thesis .
qed

lemma topology_closed_witness:
  "tn_ID ` set (tp_Nodes (topology_response topo_demo topo_demo_rows)) =
     {''a'', ''b''} \<union> \<Union> (ends ` set (tp_Edges (topology_response topo_demo topo_demo_rows)))"
  using topology_closed [OF topo_demo_plain(3,1,2)] by (simp add: topo_demo_rows_def topo_demo_row_def insert_commute)

text \<open>The phone is not tagged: its LLDP row came first, and a link that is known is not looked at again.\<close>

lemma phone_untagged:
  "map (\<lambda>n. (tn_ID n, tn_Tags n)) (tp_Nodes (topology_response topo_demo topo_demo_rows)) =
     [(''a'', []), (''b'', []), (''foreign:sep0011'', [])] \<and>
   looksLikePhoneString ''Cisco IP Phone 8841''"
  by code_simp

text \<open>Edges of different families between the same nodes stay in the order in which the map was walked.\<close>

lemma parallel_edges_unsorted:
  "te_From e = te_From e' \<Longrightarrow> te_To e = te_To e' \<Longrightarrow> sort_key (\<lambda>e. (te_From e, te_To e)) [e, e'] = [e, e']"
  by simp

end
