(* ===== verification/Enrollment.thy ===== *)
theory Enrollment
  imports Access
begin

text \<open>
  How agents and collectors join (\<open>internal/api/handlers_agents.go\<close>, \<open>handlers_collectors.go\<close>): enrollment
  tokens, the transactions that redeem them, the sessions of the hosts and what operators change about
  them. The tables are lists; the refusal of a statement, the clock, the random source, SHA-256 and the
  token library come with \<open>access_env\<close>.
\<close>

subsection \<open>Tables\<close>

record enroll_token =
  et_ID :: uuid
  et_SiteID :: uuid
  et_Label :: string
  et_Hash :: "byte list"
  et_MaxUses :: int
  et_Used :: int
  et_Expires :: int
  et_Revoked :: "int option"

record agent_row =
  ag_ID :: uuid
  ag_SiteID :: uuid
  ag_Hostname :: string
  ag_Fingerprint :: string
  ag_OS :: string
  ag_OSVersion :: string
  ag_Version :: string
  ag_EnrolledAt :: int
  ag_LastSeen :: "int option"
  ag_Active :: bool
  ag_Tags :: "string list"
  ag_Criticality :: string
  ag_GroupID :: "uuid option"

record collector_row =
  co_ID :: uuid
  co_SiteID :: uuid
  co_Name :: string
  co_Hostname :: string
  co_Fingerprint :: string
  co_Version :: string
  co_LastSeen :: "int option"
  co_Active :: bool

record enroll_db =
  ed_agent_tokens :: "enroll_token list"
  ed_agents :: "agent_row list"
  ed_collector_tokens :: "enroll_token list"
  ed_collectors :: "collector_row list"

subsection \<open>Enrollment tokens\<close>

record createEnrollmentTokenReq =
  ctr_SiteID :: string
  ctr_Label :: string
  ctr_TTLHours :: int
  ctr_MaxUses :: int

text \<open>An answer is a status with a body; what fails has a text for a body.\<close>

datatype 'a reply = Failed nat string | Answered nat 'a

text \<open>The checks of the two handlers differ in their defaults and their limit only.\<close>

definition normalize_token_req :: "string \<Rightarrow> int \<Rightarrow> string \<Rightarrow> int \<Rightarrow> createEnrollmentTokenReq \<Rightarrow> string + string \<times> int \<times> int" where
  "normalize_token_req default_label default_ttl ttl_limit most_uses req =
     (let lbl = (if ctr_Label req = [] then default_label else ctr_Label req);
          ttl = (if ctr_TTLHours req \<le> 0 then default_ttl else ctr_TTLHours req);
          uses = (if ctr_MaxUses req \<le> 0 then 1 else ctr_MaxUses req)
      in if 720 < ttl then Inl (''ttlHours cannot exceed '' @ ttl_limit)
         else if most_uses < uses then Inl (''maxUses cannot exceed '' @ itoa most_uses) else Inr (lbl, ttl, uses))"

definition new_token :: "access_env \<Rightarrow> uuid \<Rightarrow> string \<times> int \<times> int \<Rightarrow> string \<Rightarrow> enroll_token" where
  "new_token env siteID spec plaintext =
     (case spec of (lbl, ttl, uses) \<Rightarrow>
        \<lparr>et_ID = ae_new_id env, et_SiteID = siteID, et_Label = lbl, et_Hash = ae_sha256 env (bytes_of plaintext),
         et_MaxUses = uses, et_Used = 0, et_Expires = ae_now env + ttl * 3600000000000, et_Revoked = None\<rparr>)"

text \<open>The insert is refused for a hash or an id that is taken.\<close>

definition issue_token ::
    "access_env \<Rightarrow> (createEnrollmentTokenReq \<Rightarrow> string + string \<times> int \<times> int) \<Rightarrow> createEnrollmentTokenReq option \<Rightarrow> enroll_token list \<Rightarrow>
     (enroll_token \<times> string) reply \<times> enroll_token list" where
  "issue_token env checked body tokens =
     (case body of
        None \<Rightarrow> (Failed 400 ''invalid JSON body'', tokens)
      | Some req \<Rightarrow>
          (case ae_parse_uuid env (ctr_SiteID req) of
             None \<Rightarrow> (Failed 400 ''siteId must be a UUID'', tokens)
           | Some siteID \<Rightarrow>
               (case checked req of
                  Inl e \<Rightarrow> (Failed 400 e, tokens)
                | Inr spec \<Rightarrow>
                    (case ae_rand env of
                       Inl e \<Rightarrow> (Failed 500 ''rng failed'', tokens)
                     | Inr raw \<Rightarrow>
                         let plaintext = EncodeToString RawURLEncoding raw; t = new_token env siteID spec plaintext in
                         if ae_fault env ''insert token'' \<or> list_ex (\<lambda>u. et_Hash u = et_Hash t \<or> et_ID u = et_ID t) tokens
                         then (Failed 400 ''create failed'', tokens)
                         else (Answered 201 (t, plaintext), tokens @ [t])))))"

definition handleCreateEnrollmentToken ::
    "access_env \<Rightarrow> createEnrollmentTokenReq option \<Rightarrow> enroll_db \<Rightarrow> (enroll_token \<times> string) reply \<times> enroll_db" where
  "handleCreateEnrollmentToken env body db =
     (case issue_token env (normalize_token_req ''untitled'' 24 ''720 (30 days)'' 100) body (ed_agent_tokens db) of
        (a, ts) \<Rightarrow> (a, db\<lparr>ed_agent_tokens := ts\<rparr>))"

definition handleCreateCollectorEnrollmentToken ::
    "access_env \<Rightarrow> createEnrollmentTokenReq option \<Rightarrow> enroll_db \<Rightarrow> (enroll_token \<times> string) reply \<times> enroll_db" where
  "handleCreateCollectorEnrollmentToken env body db =
     (case issue_token env (normalize_token_req ''collector'' 72 ''720'' 50) body (ed_collector_tokens db) of
        (a, ts) \<Rightarrow> (a, db\<lparr>ed_collector_tokens := ts\<rparr>))"

text \<open>The flag \<open>isValid\<close> of a listed token.\<close>

definition token_is_valid :: "int \<Rightarrow> enroll_token \<Rightarrow> bool" where
  "token_is_valid now t \<longleftrightarrow> et_Revoked t = None \<and> now < et_Expires t \<and> et_Used t < et_MaxUses t"

definition revoke_token :: "access_env \<Rightarrow> string \<Rightarrow> enroll_token list \<Rightarrow> unit reply \<times> enroll_token list" where
  "revoke_token env param tokens =
     (case ae_parse_uuid env param of
        None \<Rightarrow> (Failed 400 ''id must be a UUID'', tokens)
      | Some i \<Rightarrow>
          let live = (\<lambda>t. et_ID t = i \<and> et_Revoked t = None) in
          if ae_fault env ''revoke'' then (Failed 500 ''revoke failed'', tokens)
          else if \<not> list_ex live tokens then (Failed 404 ''token not found or already revoked'', tokens)
          else (Answered 204 (), map (\<lambda>t. if live t then t\<lparr>et_Revoked := Some (ae_now env)\<rparr> else t) tokens))"

definition handleRevokeEnrollmentToken :: "access_env \<Rightarrow> string \<Rightarrow> enroll_db \<Rightarrow> unit reply \<times> enroll_db" where
  "handleRevokeEnrollmentToken env param db =
     (case revoke_token env param (ed_agent_tokens db) of (a, ts) \<Rightarrow> (a, db\<lparr>ed_agent_tokens := ts\<rparr>))"

definition handleRevokeCollectorEnrollmentToken :: "access_env \<Rightarrow> string \<Rightarrow> enroll_db \<Rightarrow> unit reply \<times> enroll_db" where
  "handleRevokeCollectorEnrollmentToken env param db =
     (case revoke_token env param (ed_collector_tokens db) of (a, ts) \<Rightarrow> (a, db\<lparr>ed_collector_tokens := ts\<rparr>))"

subsection \<open>Addresses\<close>

record api_config =
  cfg_IngestURL :: string
  cfg_PublicURL :: string

text \<open>\<open>tls\<close>: the request came over TLS or says so in \<open>X-Forwarded-Proto\<close>.\<close>

definition ws_url :: "string \<Rightarrow> api_config \<Rightarrow> bool \<Rightarrow> string \<Rightarrow> string" where
  "ws_url path cfg tls host =
     (let base = (if cfg_IngestURL cfg = [] then cfg_PublicURL cfg else cfg_IngestURL cfg) in
      if base = [] then (if tls then ''wss'' else ''ws'') @ ''://'' @ host @ path
      else if has_prefix base ''https://'' then ''wss://'' @ trim_prefix base ''https://'' @ path
      else if has_prefix base ''http://'' then ''ws://'' @ trim_prefix base ''http://'' @ path
      else base)"

definition ingestWSURL :: "api_config \<Rightarrow> bool \<Rightarrow> string \<Rightarrow> string" where
  "ingestWSURL = ws_url ''/agent/ws''"

definition collectorWSURL :: "api_config \<Rightarrow> bool \<Rightarrow> string \<Rightarrow> string" where
  "collectorWSURL = ws_url ''/collector/ws''"

subsection \<open>Redeeming a token\<close>

text \<open>What the transaction reads under the lock of the row.\<close>

definition redeemable :: "access_env \<Rightarrow> string \<Rightarrow> enroll_token list \<Rightarrow> (nat \<times> string) + enroll_token" where
  "redeemable env token tokens =
     (if ae_fault env ''begin'' then Inl (500, ''begin tx'')
      else if ae_fault env ''lookup token'' then Inl (500, ''lookup failed'')
      else case find (\<lambda>t. et_Hash t = ae_sha256 env (bytes_of token)) tokens of
        None \<Rightarrow> Inl (401, ''invalid enrollment token'')
      | Some t \<Rightarrow>
          if et_Revoked t \<noteq> None then Inl (401, ''token revoked'')
          else if et_Expires t < ae_now env then Inl (401, ''token expired'')
          else if et_MaxUses t \<le> et_Used t then Inl (401, ''token exhausted'')
          else Inr t)"

definition use_token :: "uuid \<Rightarrow> enroll_token list \<Rightarrow> enroll_token list" where
  "use_token i tokens = map (\<lambda>t. if et_ID t = i then t\<lparr>et_Used := et_Used t + 1\<rparr> else t) tokens"

record enrollReq =
  er_Token :: string
  er_Hostname :: string
  er_Fingerprint :: string
  er_OS :: string
  er_OSVersion :: string
  er_AgentVersion :: string

text \<open>\<open>ON CONFLICT (site_id, hostname)\<close>; \<open>None\<close>: the database refuses the row, its id is taken.\<close>

definition upsert_agent :: "access_env \<Rightarrow> uuid \<Rightarrow> enrollReq \<Rightarrow> agent_row list \<Rightarrow> (uuid \<times> agent_row list) option" where
  "upsert_agent env siteID req agents =
     (let now = ae_now env; os = (if er_OS req = [] then ''linux'' else er_OS req);
          same = (\<lambda>a. ag_SiteID a = siteID \<and> ag_Hostname a = er_Hostname req)
      in case find same agents of
           None \<Rightarrow> if list_ex (\<lambda>a. ag_ID a = ae_new_id env) agents then None else Some (ae_new_id env, agents @
             [\<lparr>ag_ID = ae_new_id env, ag_SiteID = siteID, ag_Hostname = er_Hostname req, ag_Fingerprint = er_Fingerprint req, ag_OS = os,
               ag_OSVersion = er_OSVersion req, ag_Version = er_AgentVersion req, ag_EnrolledAt = now, ag_LastSeen = Some now,
               ag_Active = True, ag_Tags = [], ag_Criticality = ''normal'', ag_GroupID = None\<rparr>])
         | Some a \<Rightarrow> Some (ag_ID a, map (\<lambda>b. if same b then b\<lparr>ag_Fingerprint := er_Fingerprint req, ag_OS := os,
             ag_OSVersion := er_OSVersion req, ag_Version := er_AgentVersion req, ag_EnrolledAt := now,
             ag_LastSeen := Some now, ag_Active := True\<rparr> else b) agents))"

record enrollResp =
  ep_ID :: uuid
  ep_SiteID :: uuid
  ep_JWT :: string
  ep_IngestWS :: string

text \<open>The two handlers share their transaction: the lock, the use of the token, the row of the host by \<open>put_row\<close>, the
  commit, and the token of the session, which is made after the commit.\<close>

definition enroll_host ::
    "access_env \<Rightarrow> string \<Rightarrow> string \<Rightarrow> enroll_token list \<Rightarrow> (uuid \<Rightarrow> (uuid \<times> 'r list) option) \<Rightarrow> 'r list \<Rightarrow> string \<Rightarrow>
     enrollResp reply \<times> enroll_token list \<times> 'r list" where
  "enroll_host env kind token tokens put_row rows ws =
     (case redeemable env token tokens of
        Inl (n, e) \<Rightarrow> (Failed n e, tokens, rows)
      | Inr t \<Rightarrow>
          if ae_fault env ''increment'' then (Failed 500 ''increment failed'', tokens, rows)
          else (case (if ae_fault env ''upsert'' then None else put_row (et_SiteID t)) of
            None \<Rightarrow> (Failed 500 (kind @ '' upsert failed''), tokens, rows)
          | Some (i, rows') \<Rightarrow>
              if ae_fault env ''commit'' then (Failed 500 ''commit failed'', tokens, rows)
              else (case Issue (ae_lib env) (ae_iss env) (ae_now env) (ae_jti env 0) i [] kind of
                  Inl e \<Rightarrow> (Failed 500 ''jwt issue failed'', use_token (et_ID t) tokens, rows')
                | Inr (jwt, expiry) \<Rightarrow>
                    (Answered 201 \<lparr>ep_ID = i, ep_SiteID = et_SiteID t, ep_JWT = jwt, ep_IngestWS = ws\<rparr>,
                     use_token (et_ID t) tokens, rows'))))"

definition handleAgentEnroll :: "access_env \<Rightarrow> api_config \<Rightarrow> bool \<Rightarrow> string \<Rightarrow> enrollReq option \<Rightarrow> enroll_db \<Rightarrow> enrollResp reply \<times> enroll_db" where
  "handleAgentEnroll env cfg tls host body db =
     (case body of
        None \<Rightarrow> (Failed 400 ''invalid JSON body'', db)
      | Some req \<Rightarrow>
          if er_Token req = [] \<or> er_Hostname req = [] \<or> er_Fingerprint req = []
            then (Failed 400 ''token, hostname, fingerprint are required'', db)
          else (case enroll_host env KindAgent (er_Token req) (ed_agent_tokens db)
                  (\<lambda>site. upsert_agent env site req (ed_agents db)) (ed_agents db) (ingestWSURL cfg tls host) of
                (a, ts, rows) \<Rightarrow> (a, db\<lparr>ed_agent_tokens := ts, ed_agents := rows\<rparr>)))"

record collectorEnrollReq =
  cer_Token :: string
  cer_Name :: string
  cer_Hostname :: string
  cer_Fingerprint :: string
  cer_Version :: string

definition upsert_collector :: "access_env \<Rightarrow> uuid \<Rightarrow> collectorEnrollReq \<Rightarrow> collector_row list \<Rightarrow> (uuid \<times> collector_row list) option" where
  "upsert_collector env siteID req cs =
     (let now = ae_now env; host = (if cer_Hostname req = [] then cer_Name req else cer_Hostname req);
          same = (\<lambda>c. co_SiteID c = siteID \<and> co_Name c = cer_Name req)
      in case find same cs of
           None \<Rightarrow> if list_ex (\<lambda>c. co_ID c = ae_new_id env) cs then None else Some (ae_new_id env, cs @
             [\<lparr>co_ID = ae_new_id env, co_SiteID = siteID, co_Name = cer_Name req, co_Hostname = host, co_Fingerprint = cer_Fingerprint req,
               co_Version = cer_Version req, co_LastSeen = Some now, co_Active = True\<rparr>])
         | Some c \<Rightarrow> Some (co_ID c, map (\<lambda>b. if same b then b\<lparr>co_Hostname := host, co_Fingerprint := cer_Fingerprint req,
             co_Version := cer_Version req, co_LastSeen := Some now, co_Active := True\<rparr> else b) cs))"

definition handleCollectorEnroll :: "access_env \<Rightarrow> api_config \<Rightarrow> bool \<Rightarrow> string \<Rightarrow> collectorEnrollReq option \<Rightarrow> enroll_db \<Rightarrow> enrollResp reply \<times> enroll_db" where
  "handleCollectorEnroll env cfg tls host body db =
     (case body of
        None \<Rightarrow> (Failed 400 ''invalid JSON body'', db)
      | Some req \<Rightarrow>
          if cer_Token req = [] \<or> cer_Name req = [] \<or> cer_Fingerprint req = []
            then (Failed 400 ''token, name, fingerprint are required'', db)
          else (case enroll_host env KindCollector (cer_Token req) (ed_collector_tokens db)
                  (\<lambda>site. upsert_collector env site req (ed_collectors db)) (ed_collectors db) (collectorWSURL cfg tls host) of
                (a, ts, rows) \<Rightarrow> (a, db\<lparr>ed_collector_tokens := ts, ed_collectors := rows\<rparr>)))"

subsection \<open>Sessions\<close>

definition session_user :: "access_env \<Rightarrow> string \<Rightarrow> string \<Rightarrow> request \<Rightarrow> (nat \<times> string) + uuid" where
  "session_user env kind query_token rq =
     (let tok = (if query_token = [] then bearerToken rq else query_token) in
      if tok = [] then Inl (401, ''missing '' @ kind @ '' token'')
      else case Parse_token (ae_lib env) (ae_iss env) (ae_now env) tok kind of
        None \<Rightarrow> Inl (401, ''invalid '' @ kind @ '' token'')
      | Some c \<Rightarrow> Inr (cl_UserID c))"

definition seen_agent :: "access_env \<Rightarrow> uuid \<Rightarrow> enroll_db \<Rightarrow> enroll_db" where
  "seen_agent env i db =
     (if ae_fault env ''touch'' then db
      else db\<lparr>ed_agents := map (\<lambda>a. if ag_ID a = i then a\<lparr>ag_LastSeen := Some (ae_now env)\<rparr> else a) (ed_agents db)\<rparr>)"

definition seen_collector :: "access_env \<Rightarrow> uuid \<Rightarrow> enroll_db \<Rightarrow> enroll_db" where
  "seen_collector env i db =
     (if ae_fault env ''touch'' then db
      else db\<lparr>ed_collectors := map (\<lambda>c. if co_ID c = i then c\<lparr>co_LastSeen := Some (ae_now env)\<rparr> else c) (ed_collectors db)\<rparr>)"

text \<open>The identity a socket is opened with, and the touch of its row.\<close>

definition handleAgentWS :: "access_env \<Rightarrow> string \<Rightarrow> request \<Rightarrow> enroll_db \<Rightarrow> ((nat \<times> string) + uuid) \<times> enroll_db" where
  "handleAgentWS env query_token rq db =
     (case session_user env KindAgent query_token rq of Inl e \<Rightarrow> (Inl e, db) | Inr i \<Rightarrow> (Inr i, seen_agent env i db))"

definition handleCollectorWS :: "access_env \<Rightarrow> string \<Rightarrow> request \<Rightarrow> enroll_db \<Rightarrow> ((nat \<times> string) + uuid) \<times> enroll_db" where
  "handleCollectorWS env query_token rq db =
     (case session_user env KindCollector query_token rq of Inl e \<Rightarrow> (Inl e, db) | Inr i \<Rightarrow> (Inr i, seen_collector env i db))"

definition handleCollectorHealth :: "access_env \<Rightarrow> string \<Rightarrow> enroll_db \<Rightarrow> (bool \<times> bool) reply" where
  "handleCollectorHealth env param db =
     (case ae_parse_uuid env param of
        None \<Rightarrow> Failed 400 ''id must be a UUID''
      | Some i \<Rightarrow>
          if ae_fault env ''load'' then Failed 500 ''load failed''
          else case find (\<lambda>c. co_ID c = i) (ed_collectors db) of
            None \<Rightarrow> Failed 404 ''collector not found''
          | Some c \<Rightarrow>
              let online = (case co_LastSeen c of None \<Rightarrow> False | Some t \<Rightarrow> time_sub (ae_now env) t < seconds 180)
              in Answered 200 (online \<and> co_Active c, co_Active c))"

subsection \<open>Operators\<close>

record updateAgentReq =
  uar_Tags :: "string list option"
  uar_IsActive :: "bool option"
  uar_SiteID :: "string option"
  uar_Criticality :: "string option"
  uar_GroupID :: "string option"

text \<open>The tags in canonical form; \<open>None\<close> when one is too long.\<close>

fun clean_tags :: "string set \<Rightarrow> string list \<Rightarrow> string list option" where
  "clean_tags seen [] = Some []"
| "clean_tags seen (raw # raws) =
     (let t = to_lower (trim_space raw) in
      if t = [] \<or> t \<in> seen then clean_tags seen raws
      else if 64 < length t then None
      else map_option ((#) t) (clean_tags (insert t seen) raws))"

definition update_tags :: "updateAgentReq \<Rightarrow> agent_row \<Rightarrow> string + agent_row" where
  "update_tags req a =
     (case uar_Tags req of
        None \<Rightarrow> Inr a
      | Some raws \<Rightarrow> (case clean_tags {} raws of None \<Rightarrow> Inl ''tag exceeds 64 characters'' | Some ts \<Rightarrow> Inr (a\<lparr>ag_Tags := ts\<rparr>)))"

definition update_active :: "updateAgentReq \<Rightarrow> agent_row \<Rightarrow> agent_row" where
  "update_active req a = (case uar_IsActive req of None \<Rightarrow> a | Some b \<Rightarrow> a\<lparr>ag_Active := b\<rparr>)"

definition update_site :: "access_env \<Rightarrow> updateAgentReq \<Rightarrow> agent_row \<Rightarrow> string + agent_row" where
  "update_site env req a =
     (case uar_SiteID req of
        None \<Rightarrow> Inr a
      | Some p \<Rightarrow> (case ae_parse_uuid env p of None \<Rightarrow> Inl ''siteId must be a UUID'' | Some i \<Rightarrow> Inr (a\<lparr>ag_SiteID := i\<rparr>)))"

definition criticalities :: "string list" where
  "criticalities = [''low'', ''normal'', ''high'', ''critical'']"

definition update_criticality :: "updateAgentReq \<Rightarrow> agent_row \<Rightarrow> string + agent_row" where
  "update_criticality req a =
     (case uar_Criticality req of
        None \<Rightarrow> Inr a
      | Some c \<Rightarrow> if c \<in> set criticalities then Inr (a\<lparr>ag_Criticality := c\<rparr>) else Inl ''invalid criticality'')"

definition update_group :: "access_env \<Rightarrow> updateAgentReq \<Rightarrow> agent_row \<Rightarrow> string + agent_row" where
  "update_group env req a =
     (case uar_GroupID req of
        None \<Rightarrow> Inr a
      | Some p \<Rightarrow>
          if p = [] then Inr (a\<lparr>ag_GroupID := None\<rparr>)
          else (case ae_parse_uuid env p of None \<Rightarrow> Inl ''groupId must be a UUID'' | Some i \<Rightarrow> Inr (a\<lparr>ag_GroupID := Some i\<rparr>)))"

definition update_agent_row :: "access_env \<Rightarrow> updateAgentReq \<Rightarrow> agent_row \<Rightarrow> string + agent_row" where
  "update_agent_row env req a =
     (case update_tags req a of Inl e \<Rightarrow> Inl e
      | Inr a1 \<Rightarrow> (case update_site env req (update_active req a1) of Inl e \<Rightarrow> Inl e
      | Inr a2 \<Rightarrow> (case update_criticality req a2 of Inl e \<Rightarrow> Inl e
      | Inr a3 \<Rightarrow> update_group env req a3)))"

definition no_agent_fields :: "updateAgentReq \<Rightarrow> bool" where
  "no_agent_fields req \<longleftrightarrow> uar_Tags req = None \<and> uar_IsActive req = None \<and> uar_SiteID req = None \<and> uar_Criticality req = None \<and> uar_GroupID req = None"

text \<open>The one UPDATE fails for an id that is not there and for a host name that is taken at the new site.\<close>

definition handleUpdateAgent :: "access_env \<Rightarrow> string \<Rightarrow> updateAgentReq option \<Rightarrow> enroll_db \<Rightarrow> agent_row reply \<times> enroll_db" where
  "handleUpdateAgent env param body db =
     (case ae_parse_uuid env param of
        None \<Rightarrow> (Failed 400 ''id must be a UUID'', db)
      | Some i \<Rightarrow>
          (case body of
             None \<Rightarrow> (Failed 400 ''invalid JSON body'', db)
           | Some req \<Rightarrow>
               (case find (\<lambda>a. ag_ID a = i) (ed_agents db) of
                  None \<Rightarrow> (Failed 400 ''update failed'', db)
                | Some a \<Rightarrow>
                    (case update_agent_row env req a of
                       Inl e \<Rightarrow> (Failed 400 e, db)
                     | Inr a' \<Rightarrow>
                         if no_agent_fields req then (Failed 400 ''no fields to update'', db)
                         else if ae_fault env ''update agent'' \<or>
                             list_ex (\<lambda>b. ag_ID b \<noteq> i \<and> ag_SiteID b = ag_SiteID a' \<and> ag_Hostname b = ag_Hostname a') (ed_agents db)
                           then (Failed 400 ''update failed'', db)
                         else (Answered 200 a', db\<lparr>ed_agents := map (\<lambda>b. if ag_ID b = i then a' else b) (ed_agents db)\<rparr>)))))"

definition handleDeleteAgent :: "access_env \<Rightarrow> string \<Rightarrow> enroll_db \<Rightarrow> unit reply \<times> enroll_db" where
  "handleDeleteAgent env param db =
     (case ae_parse_uuid env param of
        None \<Rightarrow> (Failed 400 ''id must be a UUID'', db)
      | Some i \<Rightarrow>
          if ae_fault env ''delete agent'' then (Failed 500 ''delete failed'', db)
          else if \<not> list_ex (\<lambda>a. ag_ID a = i) (ed_agents db) then (Failed 404 ''agent not found'', db)
          else (Answered 204 (), db\<lparr>ed_agents := filter (\<lambda>a. ag_ID a \<noteq> i) (ed_agents db)\<rparr>))"

record patchCollectorReq =
  pcr_IsActive :: "bool option"
  pcr_Name :: "string option"

definition patched_collector :: "patchCollectorReq \<Rightarrow> collector_row \<Rightarrow> collector_row" where
  "patched_collector req c =
     (let c1 = (case pcr_IsActive req of None \<Rightarrow> c | Some b \<Rightarrow> c\<lparr>co_Active := b\<rparr>)
      in case pcr_Name req of None \<Rightarrow> c1 | Some n \<Rightarrow> c1\<lparr>co_Name := n\<rparr>)"

definition handlePatchCollector :: "access_env \<Rightarrow> string \<Rightarrow> patchCollectorReq option \<Rightarrow> enroll_db \<Rightarrow> collector_row reply \<times> enroll_db" where
  "handlePatchCollector env param body db =
     (case ae_parse_uuid env param of
        None \<Rightarrow> (Failed 400 ''id must be a UUID'', db)
      | Some i \<Rightarrow>
          (case body of
             None \<Rightarrow> (Failed 400 ''invalid JSON body'', db)
           | Some req \<Rightarrow>
               if pcr_Name req = Some [] then (Failed 400 ''name cannot be empty'', db)
               else if pcr_IsActive req = None \<and> pcr_Name req = None then (Failed 400 ''no fields to update'', db)
               else case find (\<lambda>c. co_ID c = i) (ed_collectors db) of
                 None \<Rightarrow> (Failed 400 ''update failed'', db)
               | Some c \<Rightarrow>
                   let c' = patched_collector req c in
                   if ae_fault env ''update collector'' \<or>
                       list_ex (\<lambda>b. co_ID b \<noteq> i \<and> co_SiteID b = co_SiteID c' \<and> co_Name b = co_Name c') (ed_collectors db)
                     then (Failed 400 ''update failed'', db)
                   else (Answered 200 c', db\<lparr>ed_collectors := map (\<lambda>b. if co_ID b = i then c' else b) (ed_collectors db)\<rparr>)))"

definition handleDeleteCollector :: "access_env \<Rightarrow> string \<Rightarrow> enroll_db \<Rightarrow> unit reply \<times> enroll_db" where
  "handleDeleteCollector env param db =
     (case ae_parse_uuid env param of
        None \<Rightarrow> (Failed 400 ''id must be a UUID'', db)
      | Some i \<Rightarrow>
          if ae_fault env ''delete collector'' then (Failed 500 ''delete failed'', db)
          else if \<not> list_ex (\<lambda>c. co_ID c = i) (ed_collectors db) then (Failed 404 ''collector not found'', db)
          else (Answered 204 (), db\<lparr>ed_collectors := filter (\<lambda>c. co_ID c \<noteq> i) (ed_collectors db)\<rparr>))"

subsection \<open>Runs\<close>

text \<open>A host that joined: the token it used, the site it was put in and when.\<close>

record join =
  jn_token :: uuid
  jn_site :: uuid
  jn_at :: int

record enroll_state =
  es_db :: enroll_db
  es_clock :: int
  es_agent_joins :: "join list"
  es_collector_joins :: "join list"

datatype enroll_op =
    MintAgentToken "createEnrollmentTokenReq option" | RevokeAgentToken string | JoinAgent bool string "enrollReq option"
  | MintCollectorToken "createEnrollmentTokenReq option" | RevokeCollectorToken string | JoinCollector bool string "collectorEnrollReq option"
  | AgentSession string request | CollectorSession string request
  | UpdateAgent string "updateAgentReq option" | DeleteAgent string
  | PatchCollector string "patchCollectorReq option" | DeleteCollector string

definition log_join :: "access_env \<Rightarrow> string \<Rightarrow> enroll_token list \<Rightarrow> enrollResp reply \<Rightarrow> join list \<Rightarrow> join list" where
  "log_join env token tokens a hist =
     (case a of Failed n e \<Rightarrow> hist
      | Answered n r \<Rightarrow> (case redeemable env token tokens of Inl e \<Rightarrow> hist
          | Inr t \<Rightarrow> \<lparr>jn_token = et_ID t, jn_site = ep_SiteID r, jn_at = ae_now env\<rparr> # hist))"

definition agent_token_text :: "enrollReq option \<Rightarrow> string" where
  "agent_token_text body = (case body of None \<Rightarrow> [] | Some req \<Rightarrow> er_Token req)"

definition collector_token_text :: "collectorEnrollReq option \<Rightarrow> string" where
  "collector_token_text body = (case body of None \<Rightarrow> [] | Some req \<Rightarrow> cer_Token req)"

fun enroll_run :: "access_env \<Rightarrow> api_config \<Rightarrow> enroll_op \<Rightarrow> enroll_state \<Rightarrow> enroll_state" where
  "enroll_run env cfg (MintAgentToken body) s = s\<lparr>es_db := snd (handleCreateEnrollmentToken env body (es_db s)), es_clock := ae_now env\<rparr>"
| "enroll_run env cfg (RevokeAgentToken p) s = s\<lparr>es_db := snd (handleRevokeEnrollmentToken env p (es_db s)), es_clock := ae_now env\<rparr>"
| "enroll_run env cfg (JoinAgent tls host body) s =
     (case handleAgentEnroll env cfg tls host body (es_db s) of (a, db) \<Rightarrow>
        s\<lparr>es_db := db, es_clock := ae_now env,
          es_agent_joins := log_join env (agent_token_text body) (ed_agent_tokens (es_db s)) a (es_agent_joins s)\<rparr>)"
| "enroll_run env cfg (MintCollectorToken body) s = s\<lparr>es_db := snd (handleCreateCollectorEnrollmentToken env body (es_db s)), es_clock := ae_now env\<rparr>"
| "enroll_run env cfg (RevokeCollectorToken p) s = s\<lparr>es_db := snd (handleRevokeCollectorEnrollmentToken env p (es_db s)), es_clock := ae_now env\<rparr>"
| "enroll_run env cfg (JoinCollector tls host body) s =
     (case handleCollectorEnroll env cfg tls host body (es_db s) of (a, db) \<Rightarrow>
        s\<lparr>es_db := db, es_clock := ae_now env,
          es_collector_joins := log_join env (collector_token_text body) (ed_collector_tokens (es_db s)) a (es_collector_joins s)\<rparr>)"
| "enroll_run env cfg (AgentSession q rq) s = s\<lparr>es_db := snd (handleAgentWS env q rq (es_db s)), es_clock := ae_now env\<rparr>"
| "enroll_run env cfg (CollectorSession q rq) s = s\<lparr>es_db := snd (handleCollectorWS env q rq (es_db s)), es_clock := ae_now env\<rparr>"
| "enroll_run env cfg (UpdateAgent p body) s = s\<lparr>es_db := snd (handleUpdateAgent env p body (es_db s)), es_clock := ae_now env\<rparr>"
| "enroll_run env cfg (DeleteAgent p) s = s\<lparr>es_db := snd (handleDeleteAgent env p (es_db s)), es_clock := ae_now env\<rparr>"
| "enroll_run env cfg (PatchCollector p body) s = s\<lparr>es_db := snd (handlePatchCollector env p body (es_db s)), es_clock := ae_now env\<rparr>"
| "enroll_run env cfg (DeleteCollector p) s = s\<lparr>es_db := snd (handleDeleteCollector env p (es_db s)), es_clock := ae_now env\<rparr>"

definition enroll_start :: enroll_state where
  "enroll_start = \<lparr>es_db = \<lparr>ed_agent_tokens = [], ed_agents = [], ed_collector_tokens = [], ed_collectors = []\<rparr>, es_clock = 0,
     es_agent_joins = [], es_collector_joins = []\<rparr>"

text \<open>Any run from the empty tables with a clock that does not go back; faults, ids and random bytes are those of
  the environment of each step.\<close>

inductive enroll_reached :: "enroll_state \<Rightarrow> bool" where
  er_start: "enroll_reached enroll_start"
| er_step: "enroll_reached s \<Longrightarrow> es_clock s \<le> ae_now env \<Longrightarrow> enroll_reached (enroll_run env cfg op s)"

subsection \<open>The budget of a token\<close>

definition admissions :: "uuid \<Rightarrow> join list \<Rightarrow> nat" where
  "admissions i hist = length (filter (\<lambda>j. jn_token j = i) hist)"

definition join_allowed :: "enroll_token \<Rightarrow> join \<Rightarrow> bool" where
  "join_allowed t j \<longleftrightarrow> jn_site j = et_SiteID t \<and> jn_at j \<le> et_Expires t \<and>
     (case et_Revoked t of None \<Rightarrow> True | Some r \<Rightarrow> jn_at j \<le> r)"

definition token_budget :: "join list \<Rightarrow> enroll_token \<Rightarrow> bool" where
  "token_budget hist t \<longleftrightarrow> int (admissions (et_ID t) hist) \<le> et_Used t \<and> et_Used t \<le> et_MaxUses t \<and>
     (\<forall>j \<in> set hist. jn_token j = et_ID t \<longrightarrow> join_allowed t j)"

definition tokens_inv :: "int \<Rightarrow> int \<Rightarrow> enroll_token list \<Rightarrow> join list \<Rightarrow> bool" where
  "tokens_inv most now ts hist \<longleftrightarrow> distinct (map et_ID ts) \<and> (\<forall>t \<in> set ts. token_budget hist t \<and> et_MaxUses t \<le> most) \<and>
     (\<forall>j \<in> set hist. jn_token j \<in> et_ID ` set ts \<and> jn_at j \<le> now)"

lemma admissions_simps [simp]: "admissions i [] = 0"
  "admissions i (j # hist) = (if jn_token j = i then Suc (admissions i hist) else admissions i hist)"
  by (simp_all add: admissions_def)

lemma admissions_none: "\<forall>j \<in> set hist. jn_token j \<noteq> i \<Longrightarrow> admissions i hist = 0"
  by (induction hist) auto

lemma tokens_inv_later: "tokens_inv most now ts hist \<Longrightarrow> now \<le> now' \<Longrightarrow> tokens_inv most now' ts hist"
  by (force simp: tokens_inv_def)

lemma new_token_id [simp]: "et_ID (new_token env siteID spec pt) = ae_new_id env"
  by (simp add: new_token_def split: prod.split)

lemma issue_token_inv:
  assumes "tokens_inv most now ts hist" and bounds: "\<And>req l ttl uses. checked req = Inr (l, ttl, uses) \<Longrightarrow> 0 < uses \<and> uses \<le> most"
  shows "tokens_inv most now (snd (issue_token env checked body ts)) hist"
proof -
  have new: "tokens_inv most now (ts @ [new_token env siteID spec pt]) hist"
    if "ae_new_id env \<notin> et_ID ` set ts" and "checked req = Inr spec" for siteID spec pt req
  proof -
    obtain l ttl uses where spec: "spec = (l, ttl, uses)" by (cases spec)
    have "\<forall>j \<in> set hist. jn_token j \<noteq> ae_new_id env" using assms(1) that(1) by (metis tokens_inv_def)
    then show ?thesis using assms(1) that bounds [of req l ttl uses] spec
      by (auto simp: tokens_inv_def token_budget_def new_token_def admissions_none)
  qed
  have "snd (issue_token env checked body ts) = ts \<or> (\<exists>req spec siteID pt. checked req = Inr spec \<and>
      ae_new_id env \<notin> et_ID ` set ts \<and> snd (issue_token env checked body ts) = ts @ [new_token env siteID spec pt])"
    by (simp add: issue_token_def Let_def list_ex_iff split: option.split sum.split) (metis imageE)
  then show ?thesis using assms(1) new by auto
qed

lemma tokens_inv_map:
  assumes inv: "tokens_inv most now ts hist" and le: "now \<le> now'"
    and f: "\<And>t. t \<in> set ts \<Longrightarrow> et_ID (f t) = et_ID t \<and> et_MaxUses (f t) = et_MaxUses t \<and> token_budget hist' (f t)"
    and hist': "\<And>j. j \<in> set hist' \<Longrightarrow> j \<in> set hist \<or> jn_token j \<in> et_ID ` set ts \<and> jn_at j \<le> now'"
  shows "tokens_inv most now' (map f ts) hist'"
proof -
  have ids: "map et_ID (map f ts) = map et_ID ts" using f by simp
  have "jn_token j \<in> et_ID ` set (map f ts) \<and> jn_at j \<le> now'" if "j \<in> set hist'" for j
  proof -
    have "jn_token j \<in> et_ID ` set ts \<and> jn_at j \<le> now'"
      using hist' [OF that] inv le by (meson order_trans tokens_inv_def)
    then show ?thesis using ids by (metis set_map)
  qed
  moreover have "token_budget hist' u \<and> et_MaxUses u \<le> most" if "u \<in> set (map f ts)" for u
    using that f inv by (auto simp: tokens_inv_def)
  moreover have "distinct (map et_ID ts)" using inv by (simp add: tokens_inv_def)
  ultimately show ?thesis unfolding tokens_inv_def ids by blast
qed

lemma revoke_token_inv:
  assumes inv: "tokens_inv most now ts hist" and le: "now \<le> ae_now env"
  shows "tokens_inv most (ae_now env) (snd (revoke_token env param ts)) hist"
proof -
  have "token_budget hist (t\<lparr>et_Revoked := Some (ae_now env)\<rparr>)" "token_budget hist t" if "t \<in> set ts" for t
  proof -
    show b: "token_budget hist t" using inv that by (simp add: tokens_inv_def)
    have "jn_at j \<le> ae_now env" if "j \<in> set hist" for j using inv le that by (meson order_trans tokens_inv_def)
    then show "token_budget hist (t\<lparr>et_Revoked := Some (ae_now env)\<rparr>)" using b by (auto simp: token_budget_def join_allowed_def)
  qed
  then have "tokens_inv most (ae_now env) (map (\<lambda>t. if et_ID t = i \<and> et_Revoked t = None then t\<lparr>et_Revoked := Some (ae_now env)\<rparr> else t) ts) hist"
    for i by (intro tokens_inv_map [OF inv le]) auto
  moreover have "tokens_inv most (ae_now env) ts hist" using inv le by (rule tokens_inv_later)
  ultimately show ?thesis by (simp add: revoke_token_def Let_def split: option.splits)
qed

lemma redeemable_Inr:
  "redeemable env token ts = Inr t \<longleftrightarrow> \<not> ae_fault env ''begin'' \<and> \<not> ae_fault env ''lookup token'' \<and>
     find (\<lambda>t. et_Hash t = ae_sha256 env (bytes_of token)) ts = Some t \<and> et_Revoked t = None \<and>
     ae_now env \<le> et_Expires t \<and> et_Used t < et_MaxUses t"
  by (auto simp: redeemable_def split: option.splits)

lemma use_token_inv:
  assumes inv: "tokens_inv most now ts hist" and le: "now \<le> ae_now env" and t: "redeemable env token ts = Inr t"
    and j: "hist' = hist \<or> hist' = \<lparr>jn_token = et_ID t, jn_site = et_SiteID t, jn_at = ae_now env\<rparr> # hist"
  shows "tokens_inv most (ae_now env) (use_token (et_ID t) ts) hist'"
  unfolding use_token_def
proof (rule tokens_inv_map [OF inv le])
  have t': "t \<in> set ts" "et_Revoked t = None" "ae_now env \<le> et_Expires t" "et_Used t < et_MaxUses t"
    using t by (auto simp: redeemable_Inr find_Some_iff)
  show "j \<in> set hist \<or> jn_token j \<in> et_ID ` set ts \<and> jn_at j \<le> ae_now env" if "j \<in> set hist'" for j
    using that j t'(1) by auto
  fix v assume v: "v \<in> set ts"
  then have b: "token_budget hist v" using inv by (simp add: tokens_inv_def)
  show "et_ID (if et_ID v = et_ID t then v\<lparr>et_Used := et_Used v + 1\<rparr> else v) = et_ID v \<and>
    et_MaxUses (if et_ID v = et_ID t then v\<lparr>et_Used := et_Used v + 1\<rparr> else v) = et_MaxUses v \<and>
    token_budget hist' (if et_ID v = et_ID t then v\<lparr>et_Used := et_Used v + 1\<rparr> else v)"
  proof (cases "et_ID v = et_ID t")
    case True
    then have "v = t" using inv t'(1) v by (auto simp: tokens_inv_def distinct_map inj_on_def)
    then show ?thesis using b t' j by (auto simp: token_budget_def join_allowed_def)
  next
    case False
    then show ?thesis using b j by (auto simp: token_budget_def join_allowed_def)
  qed
qed

lemma enroll_host_cases:
  obtains (refused) n e where "enroll_host env kind token tokens put_row rows ws = (Failed n e, tokens, rows)"
  | (silent) t i rows' n e where "redeemable env token tokens = Inr t" "put_row (et_SiteID t) = Some (i, rows')"
      "enroll_host env kind token tokens put_row rows ws = (Failed n e, use_token (et_ID t) tokens, rows')"
  | (joined) t i rows' jwt expiry where "redeemable env token tokens = Inr t" "put_row (et_SiteID t) = Some (i, rows')"
      "Issue (ae_lib env) (ae_iss env) (ae_now env) (ae_jti env 0) i [] kind = Inr (jwt, expiry)"
      "enroll_host env kind token tokens put_row rows ws =
         (Answered 201 \<lparr>ep_ID = i, ep_SiteID = et_SiteID t, ep_JWT = jwt, ep_IngestWS = ws\<rparr>, use_token (et_ID t) tokens, rows')"
proof (cases "redeemable env token tokens")
  case (Inl e)
  then show ?thesis using refused by (cases e) (simp add: enroll_host_def)
next
  case r: (Inr t)
  show ?thesis
  proof (cases "ae_fault env ''increment'' \<or> ae_fault env ''upsert'' \<or> ae_fault env ''commit'' \<or> put_row (et_SiteID t) = None")
    case True
    then have "\<exists>n e. enroll_host env kind token tokens put_row rows ws = (Failed n e, tokens, rows)"
      using r by (auto simp: enroll_host_def split: option.splits)
    then show ?thesis using refused by blast
  next
    case False
    then obtain i rows' where u: "put_row (et_SiteID t) = Some (i, rows')" by auto
    show ?thesis
    proof (cases "Issue (ae_lib env) (ae_iss env) (ae_now env) (ae_jti env 0) i [] kind")
      case (Inl e)
      then show ?thesis using False r u by (intro silent [of t i rows']) (simp_all add: enroll_host_def)
    next
      case (Inr issued)
      then obtain jwt expiry where "Issue (ae_lib env) (ae_iss env) (ae_now env) (ae_jti env 0) i [] kind = Inr (jwt, expiry)"
        by (cases issued) simp
      then show ?thesis using False r u by (intro joined [of t i rows' jwt expiry]) (simp_all add: enroll_host_def)
    qed
  qed
qed

lemma enroll_host_inv:
  assumes inv: "tokens_inv most now tokens hist" and le: "now \<le> ae_now env"
    and run: "enroll_host env kind token tokens put_row rows ws = (a, ts, rows')"
  shows "tokens_inv most (ae_now env) ts (log_join env token tokens a hist)"
proof (cases rule: enroll_host_cases [of env kind token tokens put_row rows ws])
  case (refused n e)
  then show ?thesis using run tokens_inv_later [OF inv le] by (simp add: log_join_def)
next
  case (silent t i rows' n e)
  then show ?thesis using run use_token_inv [OF inv le silent(1)] by (simp add: log_join_def)
next
  case (joined t i rows' jwt expiry)
  then show ?thesis using run use_token_inv [OF inv le joined(1)] by (simp add: log_join_def)
qed

subsection \<open>One row for a host\<close>

definition rows_inv :: "('r \<Rightarrow> uuid) \<Rightarrow> ('r \<Rightarrow> 'k) \<Rightarrow> 'r list \<Rightarrow> bool" where
  "rows_inv row_id key rows \<longleftrightarrow> distinct (map row_id rows) \<and> distinct (map key rows)"

definition agent_key :: "agent_row \<Rightarrow> uuid \<times> string" where
  "agent_key a = (ag_SiteID a, ag_Hostname a)"

definition collector_key :: "collector_row \<Rightarrow> uuid \<times> string" where
  "collector_key c = (co_SiteID c, co_Name c)"

lemma rows_inv_append:
  "rows_inv row_id key rows \<Longrightarrow> \<forall>r \<in> set rows. row_id r \<noteq> row_id x \<and> key r \<noteq> key x \<Longrightarrow> rows_inv row_id key (rows @ [x])"
  by (auto simp: rows_inv_def)

lemma rows_inv_map:
  assumes "rows_inv row_id key rows" and "\<And>r. row_id (f r) = row_id r \<and> key (f r) = key r"
  shows "rows_inv row_id key (map f rows)"
  using assms by (simp add: rows_inv_def comp_def)

lemma rows_inv_filter: "rows_inv row_id key rows \<Longrightarrow> rows_inv row_id key (filter P rows)"
  by (simp add: rows_inv_def distinct_map_filter)

lemma rows_inv_replace:
  assumes inv: "rows_inv row_id key rows" and x: "row_id x = i" "\<forall>r \<in> set rows. row_id r \<noteq> i \<longrightarrow> key r \<noteq> key x"
  shows "rows_inv row_id key (map (\<lambda>r. if row_id r = i then x else r) rows)"
proof -
  have "map row_id (map (\<lambda>r. if row_id r = i then x else r) rows) = map row_id rows" using x(1) by auto
  moreover have "distinct (map key (map (\<lambda>r. if row_id r = i then x else r) rows))"
    using inv x(2) by (auto simp: rows_inv_def distinct_map inj_on_def)
  ultimately show ?thesis using inv by (simp add: rows_inv_def del: map_map)
qed

lemma upsert_agent_inv:
  "rows_inv ag_ID agent_key rows \<Longrightarrow> upsert_agent env site req rows = Some (i, rows') \<Longrightarrow> rows_inv ag_ID agent_key rows'"
  by (auto simp: upsert_agent_def Let_def agent_key_def list_ex_iff find_None_iff find_Some_iff
      split: option.splits if_splits intro!: rows_inv_append rows_inv_map)

lemma upsert_collector_inv:
  "rows_inv co_ID collector_key rows \<Longrightarrow> upsert_collector env site req rows = Some (i, rows') \<Longrightarrow> rows_inv co_ID collector_key rows'"
  by (auto simp: upsert_collector_def Let_def collector_key_def list_ex_iff find_None_iff find_Some_iff
      split: option.splits if_splits intro!: rows_inv_append rows_inv_map)

lemma enroll_host_rows:
  assumes "P rows" and "\<And>site i rows'. put_row site = Some (i, rows') \<Longrightarrow> P rows'"
    and "enroll_host env kind token tokens put_row rows ws = (a, ts, rows')"
  shows "P rows'"
  by (cases rule: enroll_host_cases [of env kind token tokens put_row rows ws]) (use assms in auto)

lemma update_agent_row_id: "update_agent_row env req a = Inr a' \<Longrightarrow> ag_ID a' = ag_ID a"
  by (auto simp: update_agent_row_def update_tags_def update_active_def update_site_def update_criticality_def
      update_group_def split: option.splits sum.splits if_splits)

lemma patched_collector_id [simp]: "co_ID (patched_collector req c) = co_ID c"
  by (simp add: patched_collector_def Let_def split: option.splits)

definition enroll_inv :: "enroll_state \<Rightarrow> bool" where
  "enroll_inv s \<longleftrightarrow>
     tokens_inv 100 (es_clock s) (ed_agent_tokens (es_db s)) (es_agent_joins s) \<and>
     tokens_inv 50 (es_clock s) (ed_collector_tokens (es_db s)) (es_collector_joins s) \<and>
     rows_inv ag_ID agent_key (ed_agents (es_db s)) \<and> rows_inv co_ID collector_key (ed_collectors (es_db s))"

lemma normalized_bounds:
  "1 \<le> most \<Longrightarrow> normalize_token_req lbl d n most req = Inr (l, ttl, uses) \<Longrightarrow> 0 < uses \<and> uses \<le> most"
  by (auto simp: normalize_token_req_def Let_def split: if_splits)

lemma handleUpdateAgent_rows:
  assumes "rows_inv ag_ID agent_key (ed_agents db)"
  shows "rows_inv ag_ID agent_key (ed_agents (snd (handleUpdateAgent env param body db)))"
proof -
  have r: "rows_inv ag_ID agent_key (map (\<lambda>b. if ag_ID b = i then a' else b) (ed_agents db))"
    if "find (\<lambda>a. ag_ID a = i) (ed_agents db) = Some a" "update_agent_row env req a = Inr a'"
      "\<not> list_ex (\<lambda>b. ag_ID b \<noteq> i \<and> ag_SiteID b = ag_SiteID a' \<and> ag_Hostname b = ag_Hostname a') (ed_agents db)" for i a a' req
    using assms that by (intro rows_inv_replace) (auto simp: find_Some_iff update_agent_row_id list_ex_iff agent_key_def)
  show ?thesis using r by (simp add: handleUpdateAgent_def assms split: option.split sum.split)
qed

lemma handlePatchCollector_rows:
  assumes "rows_inv co_ID collector_key (ed_collectors db)"
  shows "rows_inv co_ID collector_key (ed_collectors (snd (handlePatchCollector env param body db)))"
proof -
  have r: "rows_inv co_ID collector_key (map (\<lambda>b. if co_ID b = i then patched_collector req c else b) (ed_collectors db))"
    if "find (\<lambda>c. co_ID c = i) (ed_collectors db) = Some c"
      "\<not> list_ex (\<lambda>b. co_ID b \<noteq> i \<and> co_SiteID b = co_SiteID (patched_collector req c) \<and> co_Name b = co_Name (patched_collector req c)) (ed_collectors db)"
    for i c req
    using assms that by (intro rows_inv_replace) (auto simp: find_Some_iff list_ex_iff collector_key_def)
  show ?thesis using r by (simp add: handlePatchCollector_def Let_def assms split: option.split)
qed


lemma handler_frames [simp]:
  "ed_agent_tokens (snd (handleUpdateAgent env p ub db)) = ed_agent_tokens db"
  "ed_collector_tokens (snd (handleUpdateAgent env p ub db)) = ed_collector_tokens db"
  "ed_collectors (snd (handleUpdateAgent env p ub db)) = ed_collectors db"
  "ed_agent_tokens (snd (handlePatchCollector env p pb db)) = ed_agent_tokens db"
  "ed_collector_tokens (snd (handlePatchCollector env p pb db)) = ed_collector_tokens db"
  "ed_agents (snd (handlePatchCollector env p pb db)) = ed_agents db"
  by (simp_all add: handleUpdateAgent_def handlePatchCollector_def Let_def split: option.split sum.split)

lemma seen_rows:
  "rows_inv ag_ID agent_key rows \<Longrightarrow> rows_inv ag_ID agent_key (map (\<lambda>a. if ag_ID a = i then a\<lparr>ag_LastSeen := w\<rparr> else a) rows)"
  "rows_inv co_ID collector_key cs \<Longrightarrow> rows_inv co_ID collector_key (map (\<lambda>c. if co_ID c = i then c\<lparr>co_LastSeen := w\<rparr> else c) cs)"
  by (intro rows_inv_map; simp add: agent_key_def collector_key_def)+

lemma enroll_run_inv:
  assumes inv: "enroll_inv s" and le: "es_clock s \<le> ae_now env"
  shows "enroll_inv (enroll_run env cfg op s)"
proof -
  note i = inv [unfolded enroll_inv_def, THEN conjunct1] inv [unfolded enroll_inv_def, THEN conjunct2, THEN conjunct1]
    inv [unfolded enroll_inv_def, THEN conjunct2, THEN conjunct2, THEN conjunct1]
    inv [unfolded enroll_inv_def, THEN conjunct2, THEN conjunct2, THEN conjunct2]
  note l = tokens_inv_later [OF i(1) le] tokens_inv_later [OF i(2) le]
  show ?thesis
  proof (cases op)
    case (MintAgentToken body)
    have "tokens_inv 100 (ae_now env) (snd (issue_token env (normalize_token_req ''untitled'' 24 ''720 (30 days)'' 100) body
        (ed_agent_tokens (es_db s)))) (es_agent_joins s)"
      by (rule issue_token_inv [OF l(1)]) (rule normalized_bounds, simp_all)
    then show ?thesis using MintAgentToken i l
      by (simp add: enroll_inv_def handleCreateEnrollmentToken_def case_prod_beta)
  next
    case (MintCollectorToken body)
    have "tokens_inv 50 (ae_now env) (snd (issue_token env (normalize_token_req ''collector'' 72 ''720'' 50) body
        (ed_collector_tokens (es_db s)))) (es_collector_joins s)"
      by (rule issue_token_inv [OF l(2)]) (rule normalized_bounds, simp_all)
    then show ?thesis using MintCollectorToken i l
      by (simp add: enroll_inv_def handleCreateCollectorEnrollmentToken_def case_prod_beta)
  next
    case (RevokeAgentToken p)
    then show ?thesis using i l revoke_token_inv [OF i(1) le, of p]
      by (simp add: enroll_inv_def handleRevokeEnrollmentToken_def case_prod_beta)
  next
    case (RevokeCollectorToken p)
    then show ?thesis using i l revoke_token_inv [OF i(2) le, of p]
      by (simp add: enroll_inv_def handleRevokeCollectorEnrollmentToken_def case_prod_beta)
  next
    case (AgentSession q rq)
    then show ?thesis using i l seen_rows(1) by (simp add: enroll_inv_def handleAgentWS_def seen_agent_def split: sum.split)
  next
    case (CollectorSession q rq)
    then show ?thesis using i l seen_rows(2) by (simp add: enroll_inv_def handleCollectorWS_def seen_collector_def split: sum.split)
  next
    case (UpdateAgent p body)
    then show ?thesis using i l handleUpdateAgent_rows by (simp add: enroll_inv_def)
  next
    case (PatchCollector p body)
    then show ?thesis using i l handlePatchCollector_rows by (simp add: enroll_inv_def)
  next
    case (DeleteAgent p)
    then show ?thesis using i l rows_inv_filter [OF i(3)] by (simp add: enroll_inv_def handleDeleteAgent_def split: option.split)
  next
    case (DeleteCollector p)
    then show ?thesis using i l rows_inv_filter [OF i(4)] by (simp add: enroll_inv_def handleDeleteCollector_def split: option.split)
  next
    case (JoinAgent tls host body)
    show ?thesis
    proof (cases "\<exists>req. body = Some req \<and> \<not> (er_Token req = [] \<or> er_Hostname req = [] \<or> er_Fingerprint req = [])")
      case False
      then have "\<exists>n e. handleAgentEnroll env cfg tls host body (es_db s) = (Failed n e, es_db s)"
        by (auto simp: handleAgentEnroll_def split: option.split)
      then show ?thesis using JoinAgent i l by (auto simp: enroll_inv_def log_join_def)
    next
      case True
      then obtain req where req: "body = Some req" "\<not> (er_Token req = [] \<or> er_Hostname req = [] \<or> er_Fingerprint req = [])" by blast
      let ?put = "\<lambda>site. upsert_agent env site req (ed_agents (es_db s))"
      obtain a ts rows where e: "enroll_host env KindAgent (er_Token req) (ed_agent_tokens (es_db s)) ?put
          (ed_agents (es_db s)) (ingestWSURL cfg tls host) = (a, ts, rows)" by (metis prod_cases3)
      have "rows_inv ag_ID agent_key rows"
        by (rule enroll_host_rows [where P = "rows_inv ag_ID agent_key" and put_row = ?put, OF i(3) _ e]) (rule upsert_agent_inv [OF i(3)])
      then show ?thesis using JoinAgent i l e req enroll_host_inv [OF i(1) le e]
        by (simp add: enroll_inv_def handleAgentEnroll_def agent_token_text_def)
    qed
  next
    case (JoinCollector tls host body)
    show ?thesis
    proof (cases "\<exists>req. body = Some req \<and> \<not> (cer_Token req = [] \<or> cer_Name req = [] \<or> cer_Fingerprint req = [])")
      case False
      then have "\<exists>n e. handleCollectorEnroll env cfg tls host body (es_db s) = (Failed n e, es_db s)"
        by (auto simp: handleCollectorEnroll_def split: option.split)
      then show ?thesis using JoinCollector i l by (auto simp: enroll_inv_def log_join_def)
    next
      case True
      then obtain req where req: "body = Some req" "\<not> (cer_Token req = [] \<or> cer_Name req = [] \<or> cer_Fingerprint req = [])" by blast
      let ?put = "\<lambda>site. upsert_collector env site req (ed_collectors (es_db s))"
      obtain a ts rows where e: "enroll_host env KindCollector (cer_Token req) (ed_collector_tokens (es_db s)) ?put
          (ed_collectors (es_db s)) (collectorWSURL cfg tls host) = (a, ts, rows)" by (metis prod_cases3)
      have "rows_inv co_ID collector_key rows"
        by (rule enroll_host_rows [where P = "rows_inv co_ID collector_key" and put_row = ?put, OF i(4) _ e]) (rule upsert_collector_inv [OF i(4)])
      then show ?thesis using JoinCollector i l e req enroll_host_inv [OF i(2) le e]
        by (simp add: enroll_inv_def handleCollectorEnroll_def collector_token_text_def)
    qed
  qed
qed

lemma reached_enroll_inv: "enroll_reached s \<Longrightarrow> enroll_inv s"
proof (induction rule: enroll_reached.induct)
  case er_start
  then show ?case by (simp add: enroll_inv_def enroll_start_def tokens_inv_def rows_inv_def)
next
  case (er_step s env cfg op)
  then show ?case by (intro enroll_run_inv)
qed

lemma budget_of_inv:
  assumes "tokens_inv most now ts js" "t \<in> set ts"
  shows "int (admissions (et_ID t) js) \<le> et_MaxUses t \<and> et_MaxUses t \<le> most \<and>
    list_all (join_allowed t) (filter (\<lambda>j. jn_token j = et_ID t) js)"
  using assms by (fastforce simp: tokens_inv_def token_budget_def list_all_iff)

text \<open>C20: In every run of the enrollment handlers from empty tables, whatever fails and in whatever order tokens are
  made, revoked and redeemed, an agent token lets at most as many hosts in as it was made for, never more than a
  hundred, each at the site of the token, none after it expired and none after it was revoked.\<close>

theorem enrollment_budget:
  assumes "enroll_reached s" "t \<in> set (ed_agent_tokens (es_db s))"
  shows "int (admissions (et_ID t) (es_agent_joins s)) \<le> et_MaxUses t \<and> et_MaxUses t \<le> 100 \<and>
    list_all (join_allowed t) (filter (\<lambda>j. jn_token j = et_ID t) (es_agent_joins s))"
  using budget_of_inv assms reached_enroll_inv unfolding enroll_inv_def by blast

text \<open>The same for collectors, fifty at most.\<close>

theorem collector_enrollment_budget:
  assumes "enroll_reached s" "t \<in> set (ed_collector_tokens (es_db s))"
  shows "int (admissions (et_ID t) (es_collector_joins s)) \<le> et_MaxUses t \<and> et_MaxUses t \<le> 50 \<and>
    list_all (join_allowed t) (filter (\<lambda>j. jn_token j = et_ID t) (es_collector_joins s))"
  using budget_of_inv assms reached_enroll_inv unfolding enroll_inv_def by blast

text \<open>A host has one row: ids and the pairs of site and name are unique in both tables.\<close>

theorem one_row_per_host:
  assumes "enroll_reached s"
  shows "rows_inv ag_ID agent_key (ed_agents (es_db s)) \<and> rows_inv co_ID collector_key (ed_collectors (es_db s))"
  using reached_enroll_inv [OF assms] by (simp add: enroll_inv_def)

subsection \<open>What a host gets\<close>

lemma upserted_row:
  assumes "upsert_agent env site req rows = Some (i, rows')"
  shows "\<exists>a \<in> set rows'. ag_ID a = i \<and> ag_SiteID a = site \<and> ag_Hostname a = er_Hostname req \<and>
    ag_Fingerprint a = er_Fingerprint req \<and> ag_Active a"
proof (cases "find (\<lambda>a. ag_SiteID a = site \<and> ag_Hostname a = er_Hostname req) rows")
  case None
  then show ?thesis using assms by (auto simp: upsert_agent_def Let_def split: if_splits)
next
  case (Some b)
  then have b: "b \<in> set rows" "ag_SiteID b = site" "ag_Hostname b = er_Hostname req" by (auto simp: find_Some_iff)
  obtain f where r: "rows' = map f rows" "i = ag_ID b" and f: "ag_ID (f b) = ag_ID b" "ag_SiteID (f b) = site"
      "ag_Hostname (f b) = er_Hostname req" "ag_Fingerprint (f b) = er_Fingerprint req" "ag_Active (f b)"
    using Some assms b(2,3) by (fastforce simp: upsert_agent_def Let_def)
  have "f b \<in> set rows'" unfolding r set_map using b(1) by (rule imageI)
  then show ?thesis using f r(2) by (intro bexI [of _ "f b"]) simp_all
qed

lemma enrolled_agent:
  assumes "handleAgentEnroll env cfg tls host (Some req) db = (Answered n r, db')"
  obtains jti expiry where "Issue (ae_lib env) (ae_iss env) (ae_now env) jti (ep_ID r) [] KindAgent = Inr (ep_JWT r, expiry)"
    "\<exists>a \<in> set (ed_agents db'). ag_ID a = ep_ID r \<and> ag_SiteID a = ep_SiteID r \<and> ag_Hostname a = er_Hostname req \<and>
      ag_Fingerprint a = er_Fingerprint req \<and> ag_Active a"
proof -
  let ?put = "\<lambda>site. upsert_agent env site req (ed_agents db)"
  obtain a ts rows where e: "enroll_host env KindAgent (er_Token req) (ed_agent_tokens db) ?put (ed_agents db) (ingestWSURL cfg tls host) = (a, ts, rows)"
    by (metis prod_cases3)
  then have r: "a = Answered n r" "db' = db\<lparr>ed_agent_tokens := ts, ed_agents := rows\<rparr>"
    using assms by (simp_all add: handleAgentEnroll_def split: if_splits)
  show ?thesis
  proof (cases rule: enroll_host_cases [of env KindAgent "er_Token req" "ed_agent_tokens db" ?put "ed_agents db" "ingestWSURL cfg tls host"])
    case (joined t i rows' jwt expiry)
    then show ?thesis using that e r upserted_row [OF joined(2)] by auto
  qed (use e r in simp_all)
qed

text \<open>A host whose enrollment is answered has an active row with the name and fingerprint it gave, at the site of its
  token, and the token it gets opens the agent socket as that row and no other for thirty days. The collector
  socket refuses it. No table is read: deactivating or deleting the row leaves the session open.\<close>

theorem enrolled_agent_admitted:
  assumes "jwt_ok (ae_lib env)" "handleAgentEnroll env cfg tls host (Some req) db = (Answered n r, db')"
    and "ep_ID r \<noteq> uuid_Nil" "ep_JWT r \<noteq> []"
    and "ae_lib later = ae_lib env" "ae_iss later = ae_iss env" "ae_now env \<le> ae_now later"
    and "ae_now later < (ae_now env + AgentTTL) div 1000000000 * 1000000000"
  shows "(\<exists>a \<in> set (ed_agents db'). ag_ID a = ep_ID r \<and> ag_SiteID a = ep_SiteID r \<and> ag_Hostname a = er_Hostname req \<and>
      ag_Fingerprint a = er_Fingerprint req \<and> ag_Active a) \<and>
    fst (handleAgentWS later (ep_JWT r) rq db2) = Inr (ep_ID r) \<and>
    fst (handleCollectorWS later (ep_JWT r) rq db2) = Inl (401, ''invalid collector token'')"
proof -
  obtain jti expiry where i: "Issue (ae_lib env) (ae_iss env) (ae_now env) jti (ep_ID r) [] KindAgent = Inr (ep_JWT r, expiry)"
    and row: "\<exists>a \<in> set (ed_agents db'). ag_ID a = ep_ID r \<and> ag_SiteID a = ep_SiteID r \<and> ag_Hostname a = er_Hostname req \<and>
      ag_Fingerprint a = er_Fingerprint req \<and> ag_Active a"
    using enrolled_agent [OF assms(2)] by metis
  note p = parse_issued [OF assms(1) i, of "ae_now later"]
  have "numeric_date (ae_now env) * 1000000000 \<le> ae_now later"
    using assms(7) by (simp add: numeric_date_def)
  then show ?thesis using p [of KindAgent] p [of KindCollector] assms row
    by (simp add: handleAgentWS_def handleCollectorWS_def session_user_def Let_def numeric_date_def token_ttl_def kind_names token_claims_def)
qed

text \<open>The comment on the statement says that it replaces the row of a host by its fingerprint, so that a renamed host
  keeps its row. The code looks at the name: a host that changed its name leaves its old row behind, active as it was.\<close>

theorem renamed_host_duplicated:
  assumes "a \<in> set rows" "ag_Hostname a \<noteq> er_Hostname req" and "upsert_agent env site req rows = Some (i, rows')"
  shows "a \<in> set rows' \<and> (ag_ID a \<noteq> i \<or> \<not> distinct (map ag_ID rows))"
proof -
  have "ag_ID a \<noteq> i \<or> \<not> distinct (map ag_ID rows)"
  proof (cases "find (\<lambda>a. ag_SiteID a = site \<and> ag_Hostname a = er_Hostname req) rows")
    case None
    then show ?thesis using assms by (auto simp: upsert_agent_def Let_def list_ex_iff split: if_splits)
  next
    case (Some b)
    then have "b \<in> set rows" "ag_Hostname b = er_Hostname req" by (auto simp: find_Some_iff)
    then show ?thesis using Some assms by (auto simp: upsert_agent_def Let_def distinct_map inj_on_def)
  qed
  moreover have "a \<in> set rows'"
    using assms by (auto simp: upsert_agent_def Let_def image_iff split: option.splits if_splits)
  ultimately show ?thesis by blast
qed

subsection \<open>Tags\<close>

lemma clean_tags_set:
  "clean_tags seen raws = Some ts \<Longrightarrow> distinct ts \<and> set ts \<inter> seen = {} \<and> set ts \<subseteq> (\<lambda>r. to_lower (trim_space r)) ` set raws - {[]} \<and>
     (\<lambda>r. to_lower (trim_space r)) ` set raws \<subseteq> set ts \<union> seen \<union> {[]} \<and> (\<forall>t \<in> set ts. length t \<le> 64)"
proof (induction raws arbitrary: seen ts)
  case Nil
  then show ?case by simp
next
  case (Cons raw raws)
  let ?t = "to_lower (trim_space raw)"
  show ?case
  proof (cases "?t = [] \<or> ?t \<in> seen")
    case True
    then have "clean_tags seen raws = Some ts" using Cons.prems by (auto simp: Let_def)
    from Cons.IH [OF this] True show ?thesis by auto
  next
    case False
    then obtain us where us: "clean_tags (insert ?t seen) raws = Some us" "ts = ?t # us" "length ?t \<le> 64"
      using Cons.prems by (auto simp: Let_def split: if_splits)
    from Cons.IH [OF us(1)] us(2,3) False show ?thesis by auto
  qed
qed


subsection \<open>A session\<close>

definition enroll_env :: "int \<Rightarrow> access_env" where
  "enroll_env now = (demo_access_env now)\<lparr>ae_lib := table_lib [(token_claims demo_iss 5000000000 ''j1'' ''k2'' [] KindAgent, ''t-agent'')]\<rparr>"

definition demo_api_config :: api_config where
  "demo_api_config = \<lparr>cfg_IngestURL = [], cfg_PublicURL = ''https://sonar''\<rparr>"

definition demo_enroll_req :: enrollReq where
  "demo_enroll_req = \<lparr>er_Token = EncodeToString RawURLEncoding [1, 2, 3], er_Hostname = ''pc'', er_Fingerprint = ''f1'', er_OS = [],
     er_OSVersion = [], er_AgentVersion = ''1''\<rparr>"

definition demo_token :: enroll_token where
  "demo_token = \<lparr>et_ID = ''k2'', et_SiteID = ''s1'', et_Label = ''untitled'', et_Hash = bytes_of (EncodeToString RawURLEncoding [1, 2, 3]),
     et_MaxUses = 1, et_Used = 0, et_Expires = 86405000000000, et_Revoked = None\<rparr>"

definition demo_enroll_db :: enroll_db where
  "demo_enroll_db = \<lparr>ed_agent_tokens = [demo_token], ed_agents = [], ed_collector_tokens = [], ed_collectors = []\<rparr>"

lemma enroll_env_simps [simp]:
  "ae_lib (enroll_env now) = table_lib [(token_claims demo_iss 5000000000 ''j1'' ''k2'' [] KindAgent, ''t-agent'')]"
  "ae_iss (enroll_env now) = demo_iss" "ae_now (enroll_env now) = now" "ae_fault (enroll_env now) = (\<lambda>_. False)"
  "ae_sha256 (enroll_env now) = (\<lambda>bs. bs)" "ae_rand (enroll_env now) = Inr [1, 2, 3]" "ae_new_id (enroll_env now) = ''k2''"
  "ae_parse_uuid (enroll_env now) = Some"
  by (simp_all add: enroll_env_def demo_access_env_def)

lemma demo_enroll_req_simps [simp]:
  "er_Token demo_enroll_req = EncodeToString RawURLEncoding [1, 2, 3]" "er_Hostname demo_enroll_req = ''pc''"
  "er_Fingerprint demo_enroll_req = ''f1''" "er_OS demo_enroll_req = []"
  by (simp_all add: demo_enroll_req_def)

lemma demo_minted:
  "handleCreateEnrollmentToken (enroll_env 5000000000) (Some \<lparr>ctr_SiteID = ''s1'', ctr_Label = [], ctr_TTLHours = 0, ctr_MaxUses = 0\<rparr>)
     (es_db enroll_start) = (Answered 201 (demo_token, EncodeToString RawURLEncoding [1, 2, 3]), demo_enroll_db)"
  by (simp add: handleCreateEnrollmentToken_def issue_token_def normalize_token_req_def new_token_def enroll_start_def
      demo_enroll_db_def demo_token_def Let_def)

lemma demo_enrolled:
  "\<exists>db. handleAgentEnroll (enroll_env 5000000000) demo_api_config True [] (Some demo_enroll_req) demo_enroll_db
     = (Answered 201 \<lparr>ep_ID = ''k2'', ep_SiteID = ''s1'', ep_JWT = ''t-agent'', ep_IngestWS = ''wss://sonar/agent/ws''\<rparr>, db) \<and>
     ed_agent_tokens db = [demo_token\<lparr>et_Used := 1\<rparr>]"
proof -
  have r: "redeemable (enroll_env 5000000000) (er_Token demo_enroll_req) (ed_agent_tokens demo_enroll_db) = Inr demo_token"
    by (simp add: redeemable_def demo_enroll_req_def demo_enroll_db_def demo_token_def)
  have i: "Issue (table_lib [(token_claims demo_iss 5000000000 ''j1'' ''k2'' [] KindAgent, ''t-agent'')]) demo_iss 5000000000
      (ae_jti (enroll_env 5000000000) 0) ''k2'' [] KindAgent = Inr (''t-agent'', 5000000000 + AgentTTL)"
    by (simp add: Issue_def table_lib_def enroll_env_def demo_access_env_def token_ttl_def kind_names)
  have u: "ingestWSURL demo_api_config True [] = ''wss://sonar/agent/ws''"
    by (simp add: ingestWSURL_def ws_url_def demo_api_config_def has_prefix_def trim_prefix_def)
  have e: "EncodeToString RawURLEncoding [1, 2, 3] \<noteq> []" by (simp add: Let_def)
  show ?thesis using r e
    by (simp add: handleAgentEnroll_def enroll_host_def i u upsert_agent_def demo_enroll_db_def demo_token_def use_token_def Let_def)
qed

definition demo_joined :: enroll_state where
  "demo_joined = enroll_run (enroll_env 5000000000) demo_api_config (JoinAgent True [] (Some demo_enroll_req))
     (enroll_run (enroll_env 5000000000) demo_api_config
       (MintAgentToken (Some \<lparr>ctr_SiteID = ''s1'', ctr_Label = [], ctr_TTLHours = 0, ctr_MaxUses = 0\<rparr>)) enroll_start)"

lemma demo_joined_reached:
  "enroll_reached demo_joined" "demo_token\<lparr>et_Used := 1\<rparr> \<in> set (ed_agent_tokens (es_db demo_joined))"
  "es_agent_joins demo_joined = [\<lparr>jn_token = ''k2'', jn_site = ''s1'', jn_at = 5000000000\<rparr>]"
proof -
  obtain db where h: "handleAgentEnroll (enroll_env 5000000000) demo_api_config True [] (Some demo_enroll_req) demo_enroll_db
     = (Answered 201 \<lparr>ep_ID = ''k2'', ep_SiteID = ''s1'', ep_JWT = ''t-agent'', ep_IngestWS = ''wss://sonar/agent/ws''\<rparr>, db)"
    and t: "ed_agent_tokens db = [demo_token\<lparr>et_Used := 1\<rparr>]" using demo_enrolled by blast
  have r: "redeemable (enroll_env 5000000000) (er_Token demo_enroll_req) [demo_token] = Inr demo_token"
    by (simp add: redeemable_def demo_token_def)
  have j: "es_db demo_joined = db" "es_agent_joins demo_joined = [\<lparr>jn_token = ''k2'', jn_site = ''s1'', jn_at = 5000000000\<rparr>]"
    using h r by (simp_all add: demo_joined_def demo_minted log_join_def agent_token_text_def)
      (simp_all add: demo_enroll_db_def demo_token_def enroll_start_def)
  show "enroll_reached demo_joined" unfolding demo_joined_def
    by (intro er_step er_start) (simp_all add: enroll_start_def)
  show "demo_token\<lparr>et_Used := 1\<rparr> \<in> set (ed_agent_tokens (es_db demo_joined))" using j t by simp
  show "es_agent_joins demo_joined = [\<lparr>jn_token = ''k2'', jn_site = ''s1'', jn_at = 5000000000\<rparr>]" by (rule j)
qed

theorem enrollment_budget_witness:
  "admissions ''k2'' (es_agent_joins demo_joined) = 1 \<and> int (admissions ''k2'' (es_agent_joins demo_joined)) \<le> 1"
  using enrollment_budget [OF demo_joined_reached(1,2)] demo_joined_reached(3) by (simp add: demo_token_def)

theorem enrolled_agent_admitted_witness:
  "fst (handleAgentWS (enroll_env 6000000000) ''t-agent'' (bearer []) demo_enroll_db) = Inr ''k2''"
proof -
  obtain db where h: "handleAgentEnroll (enroll_env 5000000000) demo_api_config True [] (Some demo_enroll_req) demo_enroll_db
     = (Answered 201 \<lparr>ep_ID = ''k2'', ep_SiteID = ''s1'', ep_JWT = ''t-agent'', ep_IngestWS = ''wss://sonar/agent/ws''\<rparr>, db)"
    using demo_enrolled by blast
  have "jwt_ok (ae_lib (enroll_env 5000000000))" by (simp add: table_lib_ok)
  from enrolled_agent_admitted [OF this h, of "enroll_env 6000000000" "bearer []" demo_enroll_db]
  show ?thesis by (simp add: uuid_Nil_def AgentTTL_def seconds_small)
qed

end
