(* ===== verification/Retention.thy ===== *)
theory Retention
  imports Auth "HOL-Library.Multiset"
begin

text \<open>
  Retention (\<open>internal/retention/settings.go\<close>, \<open>internal/api/handlers_retention.go\<close>): the settings and their
  bounds, the policies they become, the pruning of alarms and the audit log, and the ranges the metric
  endpoints accept (\<open>parseRangeDuration\<close> in \<open>handlers_agent_telemetry.go\<close>) with \<open>time.ParseDuration\<close>.
\<close>

subsection \<open>Settings\<close>

record Settings =
  rs_HotWindowDays :: int
  rs_CompressAfterDays :: int
  rs_RollupRetentionDays :: int
  rs_FlowHotWindowDays :: int
  rs_VendorSamplesDays :: int
  rs_AlarmsClearedDays :: int
  rs_AuditLogDays :: int
  rs_UpdatedAt :: int

definition Defaults :: Settings where
  "Defaults = \<lparr>rs_HotWindowDays = 30, rs_CompressAfterDays = 1, rs_RollupRetentionDays = 365, rs_FlowHotWindowDays = 14,
     rs_VendorSamplesDays = 180, rs_AlarmsClearedDays = 365, rs_AuditLogDays = 365, rs_UpdatedAt = zero_time\<rparr>"

definition clampInt :: "int \<Rightarrow> int \<Rightarrow> int \<Rightarrow> int \<Rightarrow> int" where
  "clampInt v lo hi fallback = (if v < lo \<or> hi < v then fallback else v)"

definition Clamp :: "Settings \<Rightarrow> Settings" where
  "Clamp s =
     \<lparr>rs_HotWindowDays = clampInt (rs_HotWindowDays s) 7 90 (rs_HotWindowDays Defaults),
      rs_CompressAfterDays = clampInt (rs_CompressAfterDays s) 0 7 (rs_CompressAfterDays Defaults),
      rs_RollupRetentionDays = clampInt (rs_RollupRetentionDays s) 30 1825 (rs_RollupRetentionDays Defaults),
      rs_FlowHotWindowDays = clampInt (rs_FlowHotWindowDays s) 3 90 (rs_FlowHotWindowDays Defaults),
      rs_VendorSamplesDays = clampInt (rs_VendorSamplesDays s) 30 730 (rs_VendorSamplesDays Defaults),
      rs_AlarmsClearedDays = clampInt (rs_AlarmsClearedDays s) 30 1825 (rs_AlarmsClearedDays Defaults),
      rs_AuditLogDays = clampInt (rs_AuditLogDays s) 30 1825 (rs_AuditLogDays Defaults),
      rs_UpdatedAt = rs_UpdatedAt s\<rparr>"

definition day :: int where "day = 24 * 3600000000000"

text \<open>\<open>time.Duration(n) * 24 * time.Hour\<close> wraps.\<close>

definition days :: "int \<Rightarrow> int" where
  "days n = i64 (i64 (n * 24) * 3600000000000)"

definition HotWindow :: "Settings \<Rightarrow> int" where "HotWindow s = days (rs_HotWindowDays s)"
definition MaxChartRange :: "Settings \<Rightarrow> int" where "MaxChartRange s = days (rs_RollupRetentionDays s)"
definition UseRollup :: "Settings \<Rightarrow> int \<Rightarrow> bool" where "UseRollup s rangeDur \<longleftrightarrow> HotWindow s < rangeDur"

subsection \<open>The database\<close>

text \<open>Alarms with the time they were cleared, audit rows with the time they occurred, and of every relation the intervals
  of its retention and of its compression policy.\<close>

record retention_db =
  rd_settings :: "Settings option"
  rd_alarms :: "(uuid \<times> int option) list"
  rd_audit :: "(uuid \<times> int) list"
  rd_retention :: "(string \<times> string) list"
  rd_compression :: "(string \<times> string) list"

text \<open>\<open>rv_fault\<close> names the statements that fail, \<open>rv_relation\<close> the relations that TimescaleDB knows (the block that sets a
  policy swallows the error of any other), \<open>rv_order\<close> the order in which rows of the same time come.\<close>

record retention_env =
  rv_now :: int
  rv_fault :: "string \<Rightarrow> bool"
  rv_timescale :: bool
  rv_relation :: "string \<Rightarrow> bool"
  rv_order :: "(uuid \<times> int) list \<Rightarrow> (uuid \<times> int) list"

definition Load :: "retention_env \<Rightarrow> retention_db \<Rightarrow> Settings \<times> bool" where
  "Load env db =
     (if rv_fault env ''load'' then (Defaults, False)
      else case rd_settings db of None \<Rightarrow> (Defaults, True) | Some s \<Rightarrow> (Clamp s, True))"

text \<open>\<open>Load\<close> gives back whether it went without an error; \<open>Save\<close> the settings also when it fails.\<close>

definition Save :: "retention_env \<Rightarrow> Settings \<Rightarrow> retention_db \<Rightarrow> (Settings \<times> bool) \<times> retention_db" where
  "Save env s db =
     (let s1 = Clamp s; stored = s1\<lparr>rs_UpdatedAt := rv_now env\<rparr> in
      if rv_fault env ''save'' then ((s1, False), db) else ((stored, True), db\<lparr>rd_settings := Some stored\<rparr>))"

definition days_text :: "int \<Rightarrow> string" where
  "days_text n = itoa n @ '' days''"

definition put_policy :: "string \<Rightarrow> string \<Rightarrow> (string \<times> string) list \<Rightarrow> (string \<times> string) list" where
  "put_policy rel interval ps = (rel, interval) # filter (\<lambda>(r, _). r \<noteq> rel) ps"

definition setRetention :: "retention_env \<Rightarrow> string \<Rightarrow> string \<Rightarrow> retention_db \<Rightarrow> retention_db" where
  "setRetention env interval rel db =
     (if rv_fault env (''retention '' @ rel) \<or> \<not> rv_relation env rel then db
      else db\<lparr>rd_retention := put_policy rel interval (rd_retention db)\<rparr>)"

definition setCompression :: "retention_env \<Rightarrow> string \<Rightarrow> string \<Rightarrow> retention_db \<Rightarrow> retention_db" where
  "setCompression env interval rel db =
     (if rv_fault env (''compression '' @ rel) \<or> \<not> rv_relation env rel then db
      else db\<lparr>rd_compression := put_policy rel interval (rd_compression db)\<rparr>)"

definition core_tables :: "string list" where
  "core_tables = [''agent_metric_samples'', ''agent_network_samples'', ''agent_latency_samples'', ''appliance_metric_samples'',
     ''appliance_iface_samples'']"

definition caggs :: "string list" where
  "caggs = [''agent_metric_samples_hourly'', ''agent_network_samples_hourly'', ''agent_latency_samples_hourly'',
     ''appliance_metric_samples_hourly'', ''appliance_iface_samples_hourly'']"

text \<open>The oldest 5000 of the rows before \<open>limit\<close>.\<close>

definition prune_batch :: "((uuid \<times> int) list \<Rightarrow> (uuid \<times> int) list) \<Rightarrow> int \<Rightarrow> (uuid \<times> int) list \<Rightarrow> uuid list" where
  "prune_batch order before rows = map fst (take 5000 (sort_key snd (order (filter (\<lambda>(i, t). t < before) rows))))"

definition cleared_alarms :: "(uuid \<times> int option) list \<Rightarrow> (uuid \<times> int) list" where
  "cleared_alarms rows = List.map_filter (\<lambda>(i, t). map_option (Pair i) t) rows"

definition prune_alarms :: "retention_env \<Rightarrow> Settings \<Rightarrow> retention_db \<Rightarrow> retention_db" where
  "prune_alarms env s db =
     (let before = rv_now env - rs_AlarmsClearedDays s * day;
          batch = prune_batch (rv_order env) before (cleared_alarms (rd_alarms db))
      in if rv_fault env ''prune alarms'' then db
         else db\<lparr>rd_alarms := filter (\<lambda>(i, t). \<not> (t \<noteq> None \<and> the t < before \<and> i \<in> set batch)) (rd_alarms db)\<rparr>)"

definition prune_audit :: "retention_env \<Rightarrow> Settings \<Rightarrow> retention_db \<Rightarrow> retention_db" where
  "prune_audit env s db =
     (let before = rv_now env - rs_AuditLogDays s * day;
          batch = prune_batch (rv_order env) before (rd_audit db)
      in if rv_fault env ''prune audit'' then db
         else db\<lparr>rd_audit := filter (\<lambda>(i, t). \<not> (t < before \<and> i \<in> set batch)) (rd_audit db)\<rparr>)"

definition Prune :: "retention_env \<Rightarrow> Settings \<Rightarrow> retention_db \<Rightarrow> retention_db" where
  "Prune env s db = (let s1 = Clamp s in prune_audit env s1 (prune_alarms env s1 db))"

text \<open>The flag says whether \<open>Apply\<close> went without an error.\<close>

definition set_policies :: "retention_env \<Rightarrow> Settings \<Rightarrow> retention_db \<Rightarrow> retention_db" where
  "set_policies env s db =
     (let hot = days_text (rs_HotWindowDays s); flow = days_text (rs_FlowHotWindowDays s); vendor = days_text (rs_VendorSamplesDays s);
          rollup = days_text (rs_RollupRetentionDays s);
          compress = (if rs_CompressAfterDays s = 0 then ''1 hour'' else days_text (rs_CompressAfterDays s));
          db1 = fold (\<lambda>ht d. setCompression env compress ht (setRetention env hot ht d)) core_tables db;
          db2 = setCompression env compress ''flow_summaries'' (setRetention env flow ''flow_summaries'' db1);
          db3 = setCompression env compress ''appliance_vendor_samples'' (setRetention env vendor ''appliance_vendor_samples'' db2)
      in fold (setRetention env rollup) caggs db3)"

definition Apply :: "retention_env \<Rightarrow> Settings \<Rightarrow> retention_db \<Rightarrow> bool \<times> retention_db" where
  "Apply env s db =
     (let s1 = Clamp s in
      if rv_fault env ''extension'' then (False, db)
      else if \<not> rv_timescale env then (True, Prune env s1 db)
      else (True, Prune env s1 (set_policies env s1 db)))"

definition applyOnce :: "retention_env \<Rightarrow> retention_db \<Rightarrow> retention_db" where
  "applyOnce env db = (case Load env db of (s, ok) \<Rightarrow> snd (Apply env (if ok then s else Defaults) db))"

definition handleGetRetentionSettings :: "retention_env \<Rightarrow> retention_db \<Rightarrow> Settings" where
  "handleGetRetentionSettings env db = (case Load env db of (s, ok) \<Rightarrow> if ok then s else Defaults)"

datatype retention_reply = RetentionFailed nat string | RetentionSaved Settings

definition handlePutRetentionSettings :: "retention_env \<Rightarrow> Settings option \<Rightarrow> retention_db \<Rightarrow> retention_reply \<times> retention_db" where
  "handlePutRetentionSettings env body db =
     (case body of
        None \<Rightarrow> (RetentionFailed 400 ''invalid JSON body'', db)
      | Some req \<Rightarrow>
          (case Save env (Clamp req) db of
             ((saved, False), db1) \<Rightarrow> (RetentionFailed 400 ''save failed'', db1)
           | ((saved, True), db1) \<Rightarrow> (RetentionSaved saved, snd (Apply env saved db1))))"

definition loadRetention :: "retention_env \<Rightarrow> retention_db \<Rightarrow> Settings" where
  "loadRetention env db = (case Load env db of (s, ok) \<Rightarrow> if ok then s else Defaults)"

subsection \<open>Settings stay in bounds\<close>

definition settings_ok :: "Settings \<Rightarrow> bool" where
  "settings_ok s \<longleftrightarrow> 7 \<le> rs_HotWindowDays s \<and> rs_HotWindowDays s \<le> 90 \<and> 0 \<le> rs_CompressAfterDays s \<and> rs_CompressAfterDays s \<le> 7 \<and>
     30 \<le> rs_RollupRetentionDays s \<and> rs_RollupRetentionDays s \<le> 1825 \<and> 3 \<le> rs_FlowHotWindowDays s \<and> rs_FlowHotWindowDays s \<le> 90 \<and>
     30 \<le> rs_VendorSamplesDays s \<and> rs_VendorSamplesDays s \<le> 730 \<and> 30 \<le> rs_AlarmsClearedDays s \<and> rs_AlarmsClearedDays s \<le> 1825 \<and>
     30 \<le> rs_AuditLogDays s \<and> rs_AuditLogDays s \<le> 1825"

lemma settings_ok_Clamp [simp]: "settings_ok (Clamp s)"
  by (simp add: settings_ok_def Clamp_def clampInt_def Defaults_def)

lemma settings_ok_Defaults [simp]: "settings_ok Defaults"
  by (simp add: settings_ok_def Defaults_def)

lemma Clamp_ok: "settings_ok s \<Longrightarrow> Clamp s = s"
  by (simp add: settings_ok_def Clamp_def clampInt_def)

lemma Load_ok [simp]: "settings_ok (fst (Load env db))"
  by (simp add: Load_def split: option.split)

lemma days_small: "\<bar>n\<bar> \<le> 106751 \<Longrightarrow> days n = n * day"
  by (simp add: days_def day_def i64_small)

text \<open>C21: What settings are put, stored or read, all that is used stays in the documented bounds: what a client can read
  after a save is what was saved with the values out of bounds replaced, whatever was there before.\<close>

theorem saved_settings_read:
  assumes "handlePutRetentionSettings env (Some req) db = (RetentionSaved saved, db')" and "\<not> rv_fault later ''load''"
  shows "settings_ok saved \<and> saved = (Clamp req)\<lparr>rs_UpdatedAt := rv_now env\<rparr> \<and> handleGetRetentionSettings later db' = saved"
proof -
  have frame: "rd_settings (snd (Apply env s d)) = rd_settings d" for s d
  proof -
    have r: "rd_settings (setRetention env x y d) = rd_settings d" "rd_settings (setCompression env x y d) = rd_settings d" for x y d
      by (simp_all add: setRetention_def setCompression_def)
    have f: "rd_settings (fold (setRetention env x) ys d) = rd_settings d"
      "rd_settings (fold (\<lambda>ht d. setCompression env x ht (setRetention env w ht d)) ys d) = rd_settings d" for w x ys d
      by (induction ys arbitrary: d) (simp_all add: r)
    show ?thesis by (simp add: Apply_def set_policies_def Prune_def prune_alarms_def prune_audit_def Let_def r f)
  qed
  have ok: "settings_ok ((Clamp req)\<lparr>rs_UpdatedAt := t\<rparr>)" for t
    using settings_ok_Clamp [of req] by (simp add: settings_ok_def)
  then have "saved = (Clamp req)\<lparr>rs_UpdatedAt := rv_now env\<rparr>" "rd_settings db' = Some saved"
    using assms(1) Clamp_ok [of "Clamp req"] frame
    by (auto simp: handlePutRetentionSettings_def Save_def Let_def split: if_splits)
  then show ?thesis using assms(2) ok by (simp add: handleGetRetentionSettings_def Load_def Clamp_ok)
qed

subsection \<open>Pruning takes the oldest\<close>

text \<open>What a batch did to rows: only expired ones are gone, as many as the batch holds, and none that is older stays.\<close>

definition pruned :: "int \<Rightarrow> (uuid \<times> int) list \<Rightarrow> (uuid \<times> int) list \<Rightarrow> bool" where
  "pruned before rows rows' \<longleftrightarrow>
     (\<exists>gone. rows' = filter (\<lambda>r. r \<notin> gone) rows \<and> gone \<subseteq> {r \<in> set rows. snd r < before} \<and>
        card gone = min 5000 (card {r \<in> set rows. snd r < before}) \<and>
        (\<forall>g \<in> gone. \<forall>k \<in> set rows'. snd k < before \<longrightarrow> snd g \<le> snd k))"

lemma sorted_split:
  assumes "sorted (map f xs)" "x \<in> set (take n xs)" "y \<in> set (drop n xs)"
  shows "f x \<le> f y"
proof -
  have "sorted (map f (take n xs @ drop n xs))" using assms(1) by simp
  then have "\<forall>a \<in> set (map f (take n xs)). \<forall>b \<in> set (map f (drop n xs)). a \<le> b" unfolding map_append sorted_append by blast
  then show ?thesis using assms(2,3) by simp
qed

lemma prune_batch_pruned:
  assumes d: "distinct (map fst rows)" and o: "\<And>xs. mset (order xs) = mset xs"
  shows "pruned before rows (filter (\<lambda>(i, t). \<not> (t < before \<and> i \<in> set (prune_batch order before rows))) rows)"
proof -
  define ex where "ex = filter (\<lambda>(i, t). t < before) rows"
  define l where "l = sort_key snd (order ex)"
  have m: "mset l = mset ex" using o by (simp add: l_def)
  have de: "distinct (map fst ex)" using d by (simp add: ex_def distinct_map_filter)
  have "mset (map fst l) = mset (map fst ex)" using m by simp
  then have "distinct (map fst l)" using de mset_eq_imp_distinct_iff by blast
  then have l: "set l = set ex" "distinct (map fst l)" "length l = length ex"
    using mset_eq_setD [OF m] mset_eq_length [OF m] by simp_all
  let ?gone = "set (take 5000 l)"
  have ex: "set ex = {r \<in> set rows. snd r < before}" by (auto simp: ex_def)
  have b: "prune_batch order before rows = map fst (take 5000 l)" by (simp add: prune_batch_def l_def ex_def)
  have inj: "r \<in> ?gone \<longleftrightarrow> snd r < before \<and> fst r \<in> set (prune_batch order before rows)" if r: "r \<in> set rows" for r
  proof
    assume "r \<in> ?gone"
    then show "snd r < before \<and> fst r \<in> set (prune_batch order before rows)" using l(1) ex set_take_subset [of 5000 l] by (auto simp: b)
  next
    assume a: "snd r < before \<and> fst r \<in> set (prune_batch order before rows)"
    then obtain x where x: "x \<in> ?gone" "fst x = fst r" by (auto simp: b)
    then have "x \<in> set rows" using l(1) ex set_take_subset [of 5000 l] by auto
    then have "x = r" using d r x(2) by (auto simp: distinct_map inj_on_def)
    then show "r \<in> ?gone" using x by simp
  qed
  have "filter (\<lambda>(i, t). \<not> (t < before \<and> i \<in> set (prune_batch order before rows))) rows = filter (\<lambda>r. r \<notin> ?gone) rows"
    using inj by (intro filter_cong) auto
  moreover have "?gone \<subseteq> {r \<in> set rows. snd r < before}" using l(1) ex set_take_subset [of 5000 l] by auto
  moreover have "card ?gone = min 5000 (card {r \<in> set rows. snd r < before})"
  proof -
    have "distinct l" using l(2) by (rule distinct_map [THEN iffD1, THEN conjunct1])
    then have "card ?gone = length (take 5000 l)" "card (set l) = length l" by (simp_all add: distinct_card)
    then show ?thesis using l(1) ex by simp
  qed
  moreover have "snd g \<le> snd k" if "g \<in> ?gone" "k \<in> set rows" "k \<notin> ?gone" "snd k < before" for g k
  proof -
    have "k \<in> set l" using that ex l(1) by auto
    then have "k \<in> set (drop 5000 l)" using that(3) by (metis Un_iff append_take_drop_id set_append)
    then show ?thesis using that(1) by (intro sorted_split [of snd l g 5000 k]) (simp_all add: l_def)
  qed
  ultimately show ?thesis unfolding pruned_def by (intro exI [of _ ?gone]) auto
qed


lemma cleared_alarms_simps [simp]: "cleared_alarms [] = []"
  "cleared_alarms ((i, t) # rows) = (case t of None \<Rightarrow> cleared_alarms rows | Some u \<Rightarrow> (i, u) # cleared_alarms rows)"
  by (simp_all add: cleared_alarms_def map_filter_def split: option.split)

lemma cleared_alarms_filter:
  "cleared_alarms (filter (\<lambda>(i, t). \<not> (t \<noteq> None \<and> the t < before \<and> i \<in> B)) rows)
   = filter (\<lambda>(i, t). \<not> (t < before \<and> i \<in> B)) (cleared_alarms rows)"
  by (induction rows) (auto split: option.split)

lemma cleared_alarms_ids: "set (map fst (cleared_alarms rows)) \<subseteq> set (map fst rows)"
proof (induction rows)
  case (Cons r rows)
  obtain i t where "r = (i, t)" by (cases r)
  then show ?case using Cons.IH by (cases t) (simp_all add: subset_insertI2)
qed simp

lemma distinct_cleared: "distinct (map fst rows) \<Longrightarrow> distinct (map fst (cleared_alarms rows))"
proof (induction rows)
  case (Cons r rows)
  obtain i t where "r = (i, t)" by (cases r)
  moreover have "i \<notin> fst ` set (cleared_alarms rows)" if "i \<notin> fst ` set rows"
    using cleared_alarms_ids [of rows] that by (metis set_map subsetD)
  ultimately show ?case using Cons by (cases t) simp_all
qed simp

definition alarm_horizon :: "retention_env \<Rightarrow> Settings \<Rightarrow> int" where
  "alarm_horizon env s = rv_now env - rs_AlarmsClearedDays (Clamp s) * day"

definition audit_horizon :: "retention_env \<Rightarrow> Settings \<Rightarrow> int" where
  "audit_horizon env s = rv_now env - rs_AuditLogDays (Clamp s) * day"

text \<open>Ids are unique; the database may order equal rows as it likes.\<close>

definition retention_world :: "retention_env \<Rightarrow> retention_db \<Rightarrow> bool" where
  "retention_world env db \<longleftrightarrow> distinct (map fst (rd_alarms db)) \<and> distinct (map fst (rd_audit db)) \<and>
     (\<forall>xs. mset (rv_order env xs) = mset xs) \<and> \<not> rv_fault env ''prune alarms'' \<and> \<not> rv_fault env ''prune audit''"

lemma Prune_parts:
  "rd_audit (Prune env s db) = (if rv_fault env ''prune audit'' then rd_audit db else
     filter (\<lambda>(i, t). \<not> (t < audit_horizon env s \<and> i \<in> set (prune_batch (rv_order env) (audit_horizon env s) (rd_audit db)))) (rd_audit db))"
  "rd_alarms (Prune env s db) = (if rv_fault env ''prune alarms'' then rd_alarms db else
     filter (\<lambda>(i, t). \<not> (t \<noteq> None \<and> the t < alarm_horizon env s \<and>
       i \<in> set (prune_batch (rv_order env) (alarm_horizon env s) (cleared_alarms (rd_alarms db))))) (rd_alarms db))"
  by (simp_all add: Prune_def prune_audit_def prune_alarms_def Let_def audit_horizon_def alarm_horizon_def)

text \<open>C22: A pruning deletes of the audit log and of the cleared alarms exactly the oldest rows past their retention, at most
  5000 of each and all when there are no more; an alarm that was not cleared is never deleted.\<close>

theorem prune_oldest:
  assumes "retention_world env db"
  shows "pruned (audit_horizon env s) (rd_audit db) (rd_audit (Prune env s db)) \<and>
    pruned (alarm_horizon env s) (cleared_alarms (rd_alarms db)) (cleared_alarms (rd_alarms (Prune env s db))) \<and>
    filter (\<lambda>(i, t). t = None) (rd_alarms (Prune env s db)) = filter (\<lambda>(i, t). t = None) (rd_alarms db)"
proof -
  have o: "\<And>xs. mset (rv_order env xs) = mset xs" and nf: "\<not> rv_fault env ''prune alarms''" "\<not> rv_fault env ''prune audit''"
    and d: "distinct (map fst (rd_audit db))" "distinct (map fst (cleared_alarms (rd_alarms db)))"
    using assms distinct_cleared by (auto simp: retention_world_def)
  have keep: "filter (\<lambda>(i, t). t = None) (filter (\<lambda>(i, t). \<not> (t \<noteq> None \<and> the t < before \<and> i \<in> B)) rows) = filter (\<lambda>(i, t). t = None) rows"
    for before B and rows :: "(uuid \<times> int option) list" by (induction rows) auto
  show ?thesis
    by (simp only: Prune_parts nf if_False cleared_alarms_filter keep prune_batch_pruned [OF d(1) o] prune_batch_pruned [OF d(2) o] simp_thms)
qed

lemma pruned_drains:
  assumes "pruned before rows rows'"
  shows "card {r \<in> set rows'. snd r < before} = card {r \<in> set rows. snd r < before} - 5000"
proof -
  obtain gone where g: "rows' = filter (\<lambda>r. r \<notin> gone) rows" "gone \<subseteq> {r \<in> set rows. snd r < before}"
    "card gone = min 5000 (card {r \<in> set rows. snd r < before})" using assms by (auto simp: pruned_def)
  have "{r \<in> set rows'. snd r < before} = {r \<in> set rows. snd r < before} - gone" using g(1) by auto
  moreover have "finite gone" using g(2) by (rule finite_subset) simp
  ultimately show ?thesis using g(2,3) by (simp add: card_Diff_subset)
qed

lemma retention_world_Prune: "retention_world env db \<Longrightarrow> retention_world env (Prune env s db)"
  by (simp add: retention_world_def Prune_parts distinct_map_filter)

text \<open>Repeating the pruning empties any backlog, 5000 rows at a time.\<close>

theorem backlog_drains:
  assumes "retention_world env db" "card {r \<in> set (rd_audit db). snd r < audit_horizon env s} \<le> 5000 * k"
  shows "{r \<in> set (rd_audit (((Prune env s) ^^ k) db)). snd r < audit_horizon env s} = {}"
  using assms
proof (induction k arbitrary: db)
  case 0
  then show ?case by simp
next
  case (Suc k)
  have "pruned (audit_horizon env s) (rd_audit db) (rd_audit (Prune env s db))"
    using prune_batch_pruned [where order = "rv_order env" and rows = "rd_audit db"] Suc.prems(1)
    by (simp add: Prune_parts retention_world_def)
  from pruned_drains [OF this] Suc.prems(2)
  have "card {r \<in> set (rd_audit (Prune env s db)). snd r < audit_horizon env s} \<le> 5000 * k" by simp
  from Suc.IH [OF retention_world_Prune [OF Suc.prems(1)] this] show ?case by (simp add: funpow_swap1)
qed

definition demo_retention_env :: retention_env where
  "demo_retention_env = \<lparr>rv_now = 400 * day, rv_fault = (\<lambda>_. False), rv_timescale = False, rv_relation = (\<lambda>_. True), rv_order = rev\<rparr>"

definition demo_retention_db :: retention_db where
  "demo_retention_db = \<lparr>rd_settings = None, rd_alarms = [(''a'', Some 5), (''b'', None)], rd_audit = [(''x'', 0), (''y'', 399 * day)],
     rd_retention = [], rd_compression = []\<rparr>"

theorem prune_oldest_witness:
  "filter (\<lambda>(i, t). t = None) (rd_alarms (Prune demo_retention_env Defaults demo_retention_db)) = [(''b'', None)]"
  using prune_oldest [of demo_retention_env demo_retention_db Defaults]
  by (simp add: retention_world_def demo_retention_env_def demo_retention_db_def)

theorem saved_settings_read_witness:
  "rs_HotWindowDays (handleGetRetentionSettings demo_retention_env
     (snd (handlePutRetentionSettings demo_retention_env (Some (Defaults\<lparr>rs_HotWindowDays := 200\<rparr>)) demo_retention_db))) = 30"
proof -
  let ?r = "handlePutRetentionSettings demo_retention_env (Some (Defaults\<lparr>rs_HotWindowDays := 200\<rparr>)) demo_retention_db"
  obtain saved where s: "?r = (RetentionSaved saved, snd ?r)"
    by (simp add: handlePutRetentionSettings_def Save_def demo_retention_env_def Let_def)
  from saved_settings_read [OF s, of demo_retention_env] show ?thesis
    by (simp add: demo_retention_env_def Clamp_def clampInt_def Defaults_def)
qed

end
