(* ===== verification/Metric_Range.thy ===== *)
theory Metric_Range
  imports Retention Access
begin

text \<open>
  The ranges of the metric endpoints: \<open>parseRangeDuration\<close> (\<open>internal/api/handlers_agent_telemetry.go\<close>) with Go's
  \<open>time.ParseDuration\<close>, and \<open>clampMetricRange\<close> (\<open>internal/api/handlers_retention.go\<close>).
\<close>

subsection \<open>\<open>time.ParseDuration\<close>\<close>

text \<open>The digits at the front as a number up to \<open>2 ^ 63\<close>; \<open>None\<close> for a larger one.\<close>

fun leadingInt :: "int \<Rightarrow> string \<Rightarrow> (int \<times> string) option" where
  "leadingInt x [] = Some (x, [])"
| "leadingInt x (c # s) =
     (if \<not> is_digit c then Some (x, c # s)
      else if 2 ^ 63 div 10 < x then None
      else let y = x * 10 + int (digit_val c) in if 2 ^ 63 < y then None else leadingInt y s)"

text \<open>The digits of a fraction, those that still fit, with the power of ten they stand over.\<close>

fun leadingFraction :: "bool \<Rightarrow> int \<Rightarrow> f64 \<Rightarrow> string \<Rightarrow> int \<times> f64 \<times> string" where
  "leadingFraction overflow x scale [] = (x, scale, [])"
| "leadingFraction overflow x scale (c # s) =
     (if \<not> is_digit c then (x, scale, c # s)
      else if overflow \<or> (2 ^ 63 - 1) div 10 < x then leadingFraction True x scale s
      else let y = x * 10 + int (digit_val c) in
        if 2 ^ 63 < y then leadingFraction True x scale s else leadingFraction False y (f64_mul scale (Fin 10)) s)"

definition unit_map :: "(string \<times> int) list" where
  "unit_map = [(''ns'', 1), (''us'', 1000), ([char_of (194 :: nat), char_of (181 :: nat), CHR ''s''], 1000),
     ([char_of (206 :: nat), char_of (188 :: nat), CHR ''s''], 1000), (''ms'', 1000000), (''s'', 1000000000),
     (''m'', 60 * 1000000000), (''h'', 3600 * 1000000000)]"

definition number_char :: "char \<Rightarrow> bool" where
  "number_char c \<longleftrightarrow> c = CHR ''.'' \<or> is_digit c"

text \<open>The fraction after the whole digits: its digits, their scale, the rest, and whether there was a digit.\<close>

definition fraction :: "string \<Rightarrow> int \<times> f64 \<times> string \<times> bool" where
  "fraction s =
     (case s of
        c # r \<Rightarrow> if c = CHR ''.'' then (case leadingFraction False 0 (Fin 1) r of (f, scale, s') \<Rightarrow> (f, scale, s', length s' \<noteq> length r))
                 else (0, Fin 1, s, False)
      | [] \<Rightarrow> (0, Fin 1, s, False))"

text \<open>One number with its unit. \<open>oor\<close> is what the conversion of a float that does not fit gives.\<close>

definition parse_term :: "(f64 \<Rightarrow> u64) \<Rightarrow> string \<Rightarrow> (int \<times> string) option" where
  "parse_term oor s =
     (if \<not> number_char (hd s) then None
      else case leadingInt 0 s of None \<Rightarrow> None
      | Some (v, s1) \<Rightarrow>
          (case fraction s1 of (f, scale, s2, post) \<Rightarrow>
             if length s1 = length s \<and> \<not> post then None
             else let u = takeWhile (\<lambda>c. \<not> number_char c) s2; s3 = drop (length u) s2 in
               if u = [] then None
               else case map_of unit_map u of None \<Rightarrow> None
               | Some unit \<Rightarrow>
                   if 2 ^ 63 div unit < v then None
                   else let w = v * unit;
                            w' = (if 0 < f then w + uint (f64_to_u64 oor (f64_mul (f64_of_int f) (f64_div (f64_of_int unit) scale))) else w)
                        in if 0 < f \<and> 2 ^ 63 < w' mod 2 ^ 64 then None else Some (w' mod 2 ^ 64, s3)))"

lemma leadingInt_length: "leadingInt x s = Some (v, r) \<Longrightarrow> length r \<le> length s"
  by (induction x s rule: leadingInt.induct) (auto simp: Let_def split: if_splits)

lemma leadingFraction_length: "leadingFraction b x c s = (f, d, r) \<Longrightarrow> length r \<le> length s"
  by (induction b x c s rule: leadingFraction.induct) (auto simp: Let_def split: if_splits)

lemma fraction_length: "fraction s = (f, scale, r, post) \<Longrightarrow> length r \<le> length s"
  using leadingFraction_length by (fastforce simp: fraction_def split: list.splits if_splits prod.splits)

lemma parse_term_length:
  assumes "parse_term oor s = Some (v, r)" shows "length r < length s"
proof -
  obtain x s1 where l: "leadingInt 0 s = Some (x, s1)" using assms by (auto simp: parse_term_def split: if_splits option.splits)
  obtain f scale s2 post where f: "fraction s1 = (f, scale, s2, post)" by (cases "fraction s1")
  define u where "u = takeWhile (\<lambda>c. \<not> number_char c) s2"
  have u: "u \<noteq> []" "r = drop (length u) s2"
    using assms l f by (auto simp: parse_term_def u_def Let_def split: if_splits option.splits)
  then have "s2 \<noteq> []" by (auto simp: u_def)
  then have "length r < length s2" using u by (cases u) auto
  then show ?thesis using leadingInt_length [OF l] fraction_length [OF f] by simp
qed

function parse_terms :: "(f64 \<Rightarrow> u64) \<Rightarrow> int \<Rightarrow> string \<Rightarrow> int option" where
  "parse_terms oor d s =
     (if s = [] then Some d
      else case parse_term oor s of None \<Rightarrow> None
      | Some (v, s') \<Rightarrow> let d' = (d + v) mod 2 ^ 64 in if 2 ^ 63 < d' then None else parse_terms oor d' s')"
  by pat_completeness auto
termination by (relation "measure (\<lambda>(oor, d, s). length s)") (simp, clarsimp, erule parse_term_length)

declare parse_terms.simps [simp del]

definition ParseDuration :: "(f64 \<Rightarrow> u64) \<Rightarrow> string \<Rightarrow> int option" where
  "ParseDuration oor s =
     (let neg = has_prefix s ''-''; r = (if neg \<or> has_prefix s ''+'' then tl s else s) in
      if r = ''0'' then Some 0
      else if r = [] then None
      else case parse_terms oor 0 r of None \<Rightarrow> None
      | Some d \<Rightarrow> if neg then Some (i64 (- d)) else if 2 ^ 63 - 1 < d then None else Some d)"

subsection \<open>Ranges\<close>

definition parseRangeDuration :: "(f64 \<Rightarrow> u64) \<Rightarrow> string \<Rightarrow> string + int" where
  "parseRangeDuration oor raw =
     (let s = trim_space (to_lower raw) in
      if s = [] then Inl ''range required''
      else if has_suffix s ''d''
        then (case scan_int (butlast s) of None \<Rightarrow> Inl ''invalid range''
              | Some (n, rest) \<Rightarrow> if n \<le> 0 then Inl ''invalid range'' else Inr (days n))
      else (case ParseDuration oor s of None \<Rightarrow> Inl ''invalid range''
            | Some d \<Rightarrow> if d \<le> 0 then Inl ''invalid range'' else Inr d))"

definition clampMetricRange :: "(f64 \<Rightarrow> u64) \<Rightarrow> retention_env \<Rightarrow> retention_db \<Rightarrow> string \<Rightarrow> string + (int \<times> bool \<times> Settings)" where
  "clampMetricRange oor env db rangeStr =
     (let cfg = loadRetention env db in
      case parseRangeDuration oor rangeStr of Inl e \<Rightarrow> Inl e
      | Inr dur \<Rightarrow> let d = (if MaxChartRange cfg < dur then MaxChartRange cfg else dur) in Inr (d, UseRollup cfg d, cfg))"


subsection \<open>What a range becomes\<close>

lemma lower_digits: "list_all is_digit ds \<Longrightarrow> to_lower ds = ds"
  by (induction ds) (auto simp: to_lower_def lower_char_def is_digit_def)

lemma parse_days:
  assumes "0 < n" "n < 2 ^ 63"
  shows "parseRangeDuration oor (dec_nat n @ ''d'') = Inr (days (int n))"
proof -
  have d: "list_all is_digit (dec_nat n)" using dec_nat_digits by blast
  have "to_lower (dec_nat n @ ''d'') = dec_nat n @ ''d''"
    using lower_digits [OF d] by (simp add: to_lower_def lower_char_def char_code_def)
  moreover have "\<forall>c \<in> set (dec_nat n @ ''d''). \<not> is_space c"
    using d digit_not_blank by (auto simp: list_all_iff is_space_def char_code_def)
  then have "trim_space (dec_nat n @ ''d'') = dec_nat n @ ''d''" by (rule trim_space_plain)
  moreover have "int n < 2 ^ 63" using assms(2) by simp
  ultimately show ?thesis
    using assms(1) by (simp add: parseRangeDuration_def has_suffix_def has_prefix_def butlast_append scan_int_dec_nat)
qed

lemma i64_wrapped: "2 ^ 63 \<le> n \<Longrightarrow> n < 2 ^ 64 \<Longrightarrow> i64 n = n - 2 ^ 64"
proof -
  assume n: "2 ^ 63 \<le> n" "n < 2 ^ 64"
  have "i64 n = i64 (n - 2 ^ 64)"
    unfolding i64_def by (simp add: signed_take_bit_eq_iff_take_bit_eq take_bit_eq_mod)
  also have "\<dots> = n - 2 ^ 64" using n by (intro i64_small) simp_all
  finally show ?thesis .
qed

lemma days_wrapped: "106752 \<le> n \<Longrightarrow> n \<le> 213503 \<Longrightarrow> days n = n * day - 2 ^ 64"
  by (simp add: days_def day_def i64_small i64_wrapped)

lemma horizons: "settings_ok s \<Longrightarrow> MaxChartRange s = rs_RollupRetentionDays s * day \<and> HotWindow s = rs_HotWindowDays s * day"
  by (simp add: MaxChartRange_def HotWindow_def settings_ok_def days_small)

lemma loadRetention_ok [simp]: "settings_ok (loadRetention env db)"
  using Load_ok [of env db] by (simp add: loadRetention_def case_prod_beta)

text \<open>A range of n days is answered with the lesser of n days and the rollup horizon, from the rollups exactly when that
  is more than the hot window, for every n up to 106751. From 106752 to 213503 days the multiplication wraps: the
  range is negative and passes the cap, so that the query asks for samples of the future.\<close>

theorem day_range_clamped:
  assumes "0 < n" "n \<le> 213503"
  shows "clampMetricRange oor env db (dec_nat n @ ''d'') =
    (let cfg = loadRetention env db in
     if n \<le> 106751 then Inr (min (int n) (rs_RollupRetentionDays cfg) * day, rs_HotWindowDays cfg < min (int n) (rs_RollupRetentionDays cfg), cfg)
     else Inr (int n * day - 2 ^ 64, False, cfg)) \<and> (106751 < n \<longrightarrow> int n * day - 2 ^ 64 < 0)"
proof -
  let ?cfg = "loadRetention env db"
  have ok: "settings_ok ?cfg" by simp
  have p: "parseRangeDuration oor (dec_nat n @ ''d'') = Inr (days (int n))" using assms by (intro parse_days) simp_all
  have r: "30 \<le> rs_RollupRetentionDays ?cfg" "7 \<le> rs_HotWindowDays ?cfg" using ok by (simp_all add: settings_ok_def)
  show ?thesis
  proof (cases "n \<le> 106751")
    case True
    then have "days (int n) = int n * day" by (intro days_small) simp
    then show ?thesis using True p horizons [OF ok]
      by (simp add: clampMetricRange_def UseRollup_def Let_def day_def min_def)
  next
    case False
    then have d: "days (int n) = int n * day - 2 ^ 64" using assms by (intro days_wrapped) simp_all
    have neg: "int n * day - 2 ^ 64 < 0" using assms by (simp add: day_def)
    have "0 \<le> rs_RollupRetentionDays ?cfg * day" "0 \<le> rs_HotWindowDays ?cfg * day" using r by (simp_all add: day_def)
    then have "\<not> MaxChartRange ?cfg < days (int n)" "\<not> HotWindow ?cfg < days (int n)"
      using d neg horizons [OF ok] by simp_all
    then show ?thesis using False p d neg by (simp add: clampMetricRange_def UseRollup_def Let_def)
  qed
qed

theorem day_range_clamped_witness:
  "clampMetricRange (\<lambda>_. 0) demo_retention_env demo_retention_db ''45d'' = Inr (45 * day, True, Defaults)"
proof -
  have "dec_nat 45 = ''45''" by code_simp
  moreover have "loadRetention demo_retention_env demo_retention_db = Defaults"
    by (simp add: loadRetention_def Load_def demo_retention_env_def demo_retention_db_def)
  ultimately show ?thesis
    using day_range_clamped [of 45 "\<lambda>_. 0" demo_retention_env demo_retention_db] by (simp add: Defaults_def)
qed

end
