(* ===== verification/Score.thy ===== *)
theory Score
  imports Float64
begin

text \<open>
  The experience score of a device (\<open>internal/api/score.go\<close>), on \<open>float64\<close> as the code computes it: every
  difference, quotient and product is rounded. It stays between 0 and 10 and never rises when a signal
  gets worse.
\<close>

record ScoreInputs =
  si_CPUPct :: "f64 option"
  si_MemPct :: "f64 option"
  si_DiskPct :: "f64 option"
  si_BatteryHealthPct :: "f64 option"
  si_BSODCount24h :: "int option"
  si_AppCrashCount24h :: "int option"
  si_LatencyAvgMs :: "f64 option"
  si_LossPct :: "f64 option"

definition scaledPenalty :: "f64 \<Rightarrow> f64 \<Rightarrow> f64 \<Rightarrow> f64 \<Rightarrow> f64" where
  "scaledPenalty v begin_at end_at maxPenalty =
     (if f64_eq end_at begin_at then (if f64_le begin_at v then maxPenalty else Fin 0)
      else let t = f64_div (f64_sub v begin_at) (f64_sub end_at begin_at) in
        if f64_le t (Fin 0) then Fin 0
        else if f64_le (Fin 1) t then maxPenalty
        else f64_mul t maxPenalty)"

text \<open>An input that is missing takes nothing off.\<close>

definition take_off :: "('a \<Rightarrow> f64) \<Rightarrow> 'a option \<Rightarrow> f64 \<Rightarrow> f64" where
  "take_off penalty x score = (case x of None \<Rightarrow> score | Some v \<Rightarrow> f64_sub score (penalty v))"

definition cpu_penalty :: "f64 \<Rightarrow> f64" where "cpu_penalty v = scaledPenalty v (Fin 50) (Fin 100) (Fin 2)"
definition mem_penalty :: "f64 \<Rightarrow> f64" where "mem_penalty v = scaledPenalty v (Fin 60) (Fin 100) (Fin (3 / 2))"
definition disk_penalty :: "f64 \<Rightarrow> f64" where "disk_penalty v = scaledPenalty v (Fin 70) (Fin 100) (Fin (3 / 2))"
definition battery_penalty :: "f64 \<Rightarrow> f64" where
  "battery_penalty v = scaledPenalty (f64_sub (Fin 70) v) (Fin 0) (Fin 40) (Fin 1)"
definition crash_penalty :: "int \<Rightarrow> f64" where "crash_penalty n = scaledPenalty (f64_of_int n) (Fin 0) (Fin 50) (Fin 1)"
definition latency_penalty :: "f64 \<Rightarrow> f64" where "latency_penalty v = scaledPenalty v (Fin 50) (Fin 250) (Fin (3 / 2))"
definition loss_penalty :: "f64 \<Rightarrow> f64" where "loss_penalty v = scaledPenalty v (Fin 0) (Fin 25) (Fin 1)"

definition bsod_off :: "int option \<Rightarrow> f64 \<Rightarrow> f64" where
  "bsod_off x score = (case x of None \<Rightarrow> score | Some n \<Rightarrow> if 0 < n then f64_sub score (Fin 2) else score)"

definition penalized :: "ScoreInputs \<Rightarrow> f64" where
  "penalized i =
     take_off loss_penalty (si_LossPct i)
      (take_off latency_penalty (si_LatencyAvgMs i)
       (take_off crash_penalty (si_AppCrashCount24h i)
        (bsod_off (si_BSODCount24h i)
         (take_off battery_penalty (si_BatteryHealthPct i)
          (take_off disk_penalty (si_DiskPct i)
           (take_off mem_penalty (si_MemPct i)
            (take_off cpu_penalty (si_CPUPct i) (Fin 10))))))))"

definition ComputeScore :: "ScoreInputs \<Rightarrow> f64" where
  "ComputeScore i =
     (let score = penalized i;
          s1 = (if f64_lt score (Fin 0) then Fin 0 else score);
          s2 = (if f64_lt (Fin 10) s1 then Fin 10 else s1)
      in f64_div (f64_round (f64_mul s2 (Fin 10))) (Fin 10))"

subsection \<open>Penalties are monotone\<close>

abbreviation "limit \<equiv> (2 ^ 50 :: rat)"

definition pen :: "rat \<Rightarrow> rat \<Rightarrow> rat \<Rightarrow> rat \<Rightarrow> rat" where
  "pen v b e m = (let t = round_rat (round_rat (v - b) / (e - b)) in
     if t \<le> 0 then 0 else if 1 \<le> t then m else round_rat (t * m))"

lemma limit_int: "limit = of_int (2 ^ 50)" by simp

lemma scaledPenalty_pen:
  fixes b e :: int
  assumes v: "\<bar>v\<bar> \<le> 2 * limit" and b: "\<bar>b\<bar> \<le> 250" "b < e" "\<bar>e\<bar> \<le> 250" and m: "0 \<le> m" "m \<le> 2"
  shows "scaledPenalty (Fin v) (Fin (of_int b)) (Fin (of_int e)) (Fin m) = Fin (pen v (of_int b) (of_int e) m)"
proof -
  have eb: "f64_of_rat (of_int e - of_int b) = Fin (of_int e - of_int b)"
    using f64_of_int_exact [of "e - b"] b by (simp add: f64_of_int_def)
  have bb: "\<bar>of_int b :: rat\<bar> \<le> 250" using b(1) by linarith
  have "\<bar>v - of_int b\<bar> \<le> of_int (2 ^ 52)" using v bb by (simp add: abs_le_iff)
  then have vb: "f64_of_rat (v - of_int b) = Fin (round_rat (v - of_int b))" by (rule small_finite) simp
  have r: "\<bar>round_rat (v - of_int b)\<bar> \<le> of_int (2 ^ 52)"
    using \<open>\<bar>v - of_int b\<bar> \<le> of_int (2 ^ 52)\<close> b64.rnd_le_int [of "v - of_int b" "2 ^ 52"] b64.rnd_ge_int [of "- (2 ^ 52)" "v - of_int b"]
    by (simp add: abs_le_iff)
  have one: "1 \<le> (of_int e - of_int b :: rat)" using b(2) by linarith
  have "\<bar>round_rat (v - of_int b) / (of_int e - of_int b)\<bar> \<le> of_int (2 ^ 52)"
    using r one by (simp add: abs_divide divide_le_eq)
  then have q: "f64_of_rat (round_rat (v - of_int b) / (of_int e - of_int b))
      = Fin (round_rat (round_rat (v - of_int b) / (of_int e - of_int b)))" by (rule small_finite) simp
  have p: "f64_of_rat (t * m) = Fin (round_rat (t * m))" if "0 < t" "t < 1" for t
  proof -
    have "t * m \<le> 1 * 2" using that m by (intro mult_mono) auto
    then have "\<bar>t * m\<bar> \<le> of_int 2" using that m by simp
    then show ?thesis by (rule small_finite) simp
  qed
  show ?thesis
    using one p by (simp add: scaledPenalty_def pen_def eb vb q Let_def)
qed

lemma round_three_halves: "round_rat (3 / 2) = 3 / 2"
  by code_simp

lemma pen_mono:
  assumes v: "v \<le> w" and b: "b < e" and m: "0 \<le> m" "round_rat m = m"
  shows "0 \<le> pen v b e m \<and> pen v b e m \<le> pen w b e m \<and> pen w b e m \<le> m"
proof -
  define t where "t = round_rat (round_rat (v - b) / (e - b))"
  define u where "u = round_rat (round_rat (w - b) / (e - b))"
  have "t \<le> u" unfolding t_def u_def using v b by (intro round_rat_mono divide_right_mono) auto
  have lo: "0 \<le> round_rat (x * m)" if "0 \<le> x" for x using that m(1) by (intro b64.rnd_nonneg) simp
  have hi: "round_rat (x * m) \<le> m" if "x \<le> 1" for x
    using round_rat_mono [of "x * m" m] mult_right_mono [OF that m(1)] m(2) by simp
  have mid: "round_rat (t * m) \<le> round_rat (u * m)" using \<open>t \<le> u\<close> m(1) by (intro round_rat_mono mult_right_mono)
  show ?thesis unfolding pen_def t_def [symmetric] u_def [symmetric] Let_def
    using \<open>t \<le> u\<close> lo [of t] lo [of u] hi [of t] hi [of u] mid m(1) by auto
qed

subsection \<open>The score\<close>

text \<open>A signal that is worse, of a size the conversion to \<open>float64\<close> keeps; both present or both missing.\<close>

definition higher_value :: "f64 \<Rightarrow> f64 \<Rightarrow> bool" where
  "higher_value x y \<longleftrightarrow> (case (x, y) of (Fin p, Fin q) \<Rightarrow> q \<le> p \<and> \<bar>p\<bar> \<le> limit \<and> \<bar>q\<bar> \<le> limit | _ \<Rightarrow> False)"

definition more_events :: "int \<Rightarrow> int \<Rightarrow> bool" where
  "more_events m n \<longleftrightarrow> n \<le> m \<and> \<bar>m\<bar> \<le> 2 ^ 50 \<and> \<bar>n\<bar> \<le> 2 ^ 50"

definition both :: "('a \<Rightarrow> 'a \<Rightarrow> bool) \<Rightarrow> 'a option \<Rightarrow> 'a option \<Rightarrow> bool" where
  "both R x y \<longleftrightarrow> (case (x, y) of (None, None) \<Rightarrow> True | (Some v, Some w) \<Rightarrow> R v w | _ \<Rightarrow> False)"

abbreviation "higher \<equiv> both higher_value"
abbreviation "oftener \<equiv> both more_events"

definition worse :: "ScoreInputs \<Rightarrow> ScoreInputs \<Rightarrow> bool" where
  "worse i j \<longleftrightarrow> higher (si_CPUPct i) (si_CPUPct j) \<and> higher (si_MemPct i) (si_MemPct j) \<and> higher (si_DiskPct i) (si_DiskPct j) \<and>
     higher (si_BatteryHealthPct j) (si_BatteryHealthPct i) \<and> oftener (si_BSODCount24h i) (si_BSODCount24h j) \<and>
     oftener (si_AppCrashCount24h i) (si_AppCrashCount24h j) \<and> higher (si_LatencyAvgMs i) (si_LatencyAvgMs j) \<and>
     higher (si_LossPct i) (si_LossPct j)"

definition below :: "int \<Rightarrow> f64 \<Rightarrow> f64 \<Rightarrow> bool" where
  "below n x y \<longleftrightarrow> (\<exists>p q. x = Fin p \<and> y = Fin q \<and> - of_int n \<le> p \<and> p \<le> q \<and> q \<le> 10)"

text \<open>What a penalty does that the score relies on.\<close>

locale penalty =
  fixes worse_value :: "'a \<Rightarrow> 'a \<Rightarrow> bool" and fee :: "'a \<Rightarrow> f64"
  assumes fee_mono: "worse_value x y \<Longrightarrow> \<exists>p q. fee x = Fin p \<and> fee y = Fin q \<and> 0 \<le> q \<and> q \<le> p \<and> p \<le> 2"
begin

lemma fee_below:
  assumes "worse_value x y" "below n s t" "0 \<le> n" "n \<le> 100"
  shows "below (n + 2) (f64_sub s (fee x)) (f64_sub t (fee y))"
proof -
  obtain p q where f: "fee x = Fin p" "fee y = Fin q" "0 \<le> q" "q \<le> p" "p \<le> 2" using fee_mono [OF assms(1)] by blast
  obtain a b where ab: "s = Fin a" "t = Fin b" "- of_int n \<le> a" "a \<le> b" "b \<le> 10" using assms(2) by (auto simp: below_def)
  have n: "(of_int n :: rat) \<le> 100" "(0 :: rat) \<le> of_int n" using assms(3,4) by simp_all
  have lo: "of_int (- n - 2) \<le> a - p" using ab(3) f(5) by simp
  have hi: "b - q \<le> of_int 10" using ab(5) f(3) by simp
  have le: "a - p \<le> b - q" using ab(4) f(4) by simp
  have "\<bar>a - p\<bar> \<le> of_int 200" "\<bar>b - q\<bar> \<le> of_int 200" using lo hi le n by (auto simp: abs_le_iff)
  then have "f64_of_rat (a - p) = Fin (round_rat (a - p))" "f64_of_rat (b - q) = Fin (round_rat (b - q))"
    by (auto intro!: small_finite)
  moreover have "of_int (- n - 2) \<le> round_rat (a - p)" using lo assms(3,4) by (intro b64.rnd_ge_int) auto
  moreover have "round_rat (b - q) \<le> of_int 10" using hi by (intro b64.rnd_le_int) auto
  ultimately show ?thesis using round_rat_mono [OF le] f ab by (simp add: below_def)
qed

lemma take_off_below:
  assumes "both worse_value x y" "below n s t" "0 \<le> n" "n \<le> 100"
  shows "below (n + 2) (take_off fee x s) (take_off fee y t)"
proof (cases x)
  case None
  moreover have "below (n + 2) s t" using assms(2) by (force simp: below_def)
  ultimately show ?thesis using assms(1) by (simp add: take_off_def both_def split: option.splits)
next
  case (Some v)
  then show ?thesis using assms(1) fee_below [OF _ assms(2-)] by (auto simp: take_off_def both_def split: option.splits)
qed

end

lemma higher_valueE:
  assumes "higher_value x y"
  obtains p q where "x = Fin p" "y = Fin q" "q \<le> p" "\<bar>p\<bar> \<le> limit" "\<bar>q\<bar> \<le> limit"
  using assms by (cases x; cases y) (auto simp: higher_value_def)

lemma linear_fee:
  fixes b e :: int
  assumes "higher_value x y" and b: "\<bar>b\<bar> \<le> 250" "b < e" "\<bar>e\<bar> \<le> 250" and m: "0 \<le> m" "m \<le> 2" "round_rat m = m"
  shows "\<exists>p q. scaledPenalty x (Fin (of_int b)) (Fin (of_int e)) (Fin m) = Fin p \<and>
    scaledPenalty y (Fin (of_int b)) (Fin (of_int e)) (Fin m) = Fin q \<and> 0 \<le> q \<and> q \<le> p \<and> p \<le> 2"
proof -
  obtain v w where v: "x = Fin v" "y = Fin w" "w \<le> v" "\<bar>v\<bar> \<le> 2 * limit" "\<bar>w\<bar> \<le> 2 * limit"
    using assms(1) by (elim higher_valueE) (use zero_le_power [of 2 50] in \<open>auto simp del: power_numeral\<close>)
  show ?thesis
    using scaledPenalty_pen [OF v(4) b m(1,2)] scaledPenalty_pen [OF v(5) b m(1,2)] v(1,2) m(2)
      pen_mono [OF v(3), of "of_int b" "of_int e" m] b(2) m by fastforce
qed

interpretation cpu: penalty higher_value cpu_penalty
  by unfold_locales (use linear_fee [where b = 50 and e = 100 and m = 2] b64.rnd_of_int [of 2] in \<open>simp add: cpu_penalty_def\<close>)

interpretation mem: penalty higher_value mem_penalty
  by unfold_locales (use linear_fee [where b = 60 and e = 100 and m = "3 / 2"] round_three_halves in \<open>simp add: mem_penalty_def\<close>)

interpretation disk: penalty higher_value disk_penalty
  by unfold_locales (use linear_fee [where b = 70 and e = 100 and m = "3 / 2"] round_three_halves in \<open>simp add: disk_penalty_def\<close>)

interpretation latency: penalty higher_value latency_penalty
  by unfold_locales (use linear_fee [where b = 50 and e = 250 and m = "3 / 2"] round_three_halves in \<open>simp add: latency_penalty_def\<close>)

interpretation loss: penalty higher_value loss_penalty
  by unfold_locales (use linear_fee [where b = 0 and e = 25 and m = 1] b64.rnd_of_int [of 1] in \<open>simp add: loss_penalty_def\<close>)

interpretation crash: penalty more_events crash_penalty
proof
  fix m n assume "more_events m n"
  then have "higher_value (f64_of_int m) (f64_of_int n)"
    by (simp add: more_events_def higher_value_def f64_of_int_exact abs_le_iff flip: of_int_minus)
  from linear_fee [OF this, where b = 0 and e = 50 and m = 1]
  show "\<exists>p q. crash_penalty m = Fin p \<and> crash_penalty n = Fin q \<and> 0 \<le> q \<and> q \<le> p \<and> p \<le> 2"
    using b64.rnd_of_int [of 1] by (simp add: crash_penalty_def)
qed

interpretation battery: penalty "\<lambda>x y. higher_value y x" battery_penalty
proof
  fix x y assume "higher_value y x"
  then obtain p q where pq: "y = Fin p" "x = Fin q" "q \<le> p" "\<bar>p\<bar> \<le> limit" "\<bar>q\<bar> \<le> limit" by (rule higher_valueE)
  have a: "\<bar>70 - p\<bar> \<le> of_int (2 ^ 52)" "\<bar>70 - q\<bar> \<le> of_int (2 ^ 52)" using pq(4,5) by (simp_all add: abs_le_iff)
  have f: "f64_of_rat (70 - p) = Fin (round_rat (70 - p))" "f64_of_rat (70 - q) = Fin (round_rat (70 - q))"
    using a by (auto intro!: small_finite)
  have r: "\<bar>round_rat (70 - r)\<bar> \<le> 2 * limit" if "\<bar>r\<bar> \<le> limit" for r
    using b64.rnd_le_int [of "70 - r" "2 ^ 51"] b64.rnd_ge_int [of "- (2 ^ 51)" "70 - r"] that by (simp add: abs_le_iff)
  have b: "\<bar>0 :: int\<bar> \<le> 250" "(0 :: int) < 40" "\<bar>40 :: int\<bar> \<le> 250" by simp_all
  have m: "(0 :: rat) \<le> 1" "(1 :: rat) \<le> 2" "round_rat 1 = 1" using b64.rnd_of_int [of 1] by simp_all
  have "round_rat (70 - p) \<le> round_rat (70 - q)" using pq(3) by (intro round_rat_mono) simp
  from pen_mono [OF this, of 0 40 1] m
  show "\<exists>p q. battery_penalty x = Fin p \<and> battery_penalty y = Fin q \<and> 0 \<le> q \<and> q \<le> p \<and> p \<le> 2"
    using scaledPenalty_pen [OF r [OF pq(4)] b m(1,2)] scaledPenalty_pen [OF r [OF pq(5)] b m(1,2)] f pq(1,2)
    by (simp add: battery_penalty_def)
qed

text \<open>A crash of the system takes two points off, however many there were.\<close>

lemma bsod_below:
  assumes "oftener x y" "below n s t" "0 \<le> n" "n \<le> 100"
  shows "below (n + 2) (bsod_off x s) (bsod_off y t)"
proof -
  obtain a b where ab: "s = Fin a" "t = Fin b" "- of_int n \<le> a" "a \<le> b" "b \<le> 10" using assms(2) by (auto simp: below_def)
  have keep: "below (n + 2) s t" using assms(2) by (force simp: below_def)
  have n: "(of_int n :: rat) \<le> 100" "(0 :: rat) \<le> of_int n" using assms(3,4) by simp_all
  have f: "f64_of_rat (c - 2) = Fin (round_rat (c - 2))" if "a \<le> c" "c \<le> 10" for c
  proof (rule small_finite)
    show "\<bar>c - 2\<bar> \<le> of_int 200" using that ab n by (auto simp: abs_le_iff)
  qed simp
  have lo: "of_int (- n - 2) \<le> round_rat (a - 2)" using ab(3) assms(3,4) by (intro b64.rnd_ge_int) auto
  define k where "k = \<lfloor>a\<rfloor>"
  have "of_int k \<le> a" "a < of_int k + 1" unfolding k_def by linarith+
  moreover have "- 200 \<le> k" "k \<le> 200" using ab n by (simp_all add: k_def floor_le_iff le_floor_iff)
  ultimately have k: "of_int k \<le> a" "a < of_int k + 1" "- 200 \<le> k" "k \<le> 200" by simp_all
  then have "round_rat (a - 2) \<le> of_int k" by (intro b64.rnd_le_int) auto
  then have step: "round_rat (a - 2) \<le> a" using k(1) by linarith
  have hi: "round_rat (b - 2) \<le> of_int 8" using ab(5) by (intro b64.rnd_le_int) auto
  show ?thesis
    using assms(1) keep lo hi step ab f [of a] f [of b] round_rat_mono [of "a - 2" "b - 2"]
    by (auto simp: bsod_off_def both_def more_events_def below_def split: option.splits)
qed

lemma penalized_below:
  assumes "worse i j"
  shows "below 16 (penalized i) (penalized j)"
proof -
  have "below 0 (Fin 10) (Fin 10)" by (simp add: below_def)
  then have "below (0 + 2 + 2 + 2 + 2 + 2 + 2 + 2 + 2) (penalized i) (penalized j)"
    unfolding penalized_def using assms [unfolded worse_def]
    by (intro loss.take_off_below latency.take_off_below crash.take_off_below bsod_below battery.take_off_below
        disk.take_off_below mem.take_off_below cpu.take_off_below) (auto simp: both_def split: option.splits)
  then show ?thesis by simp
qed

lemma tenths:
  assumes "0 \<le> p" "p \<le> q" "q \<le> (10 :: rat)"
  defines "tenth r \<equiv> f64_div (f64_round (f64_mul (Fin r) (Fin 10))) (Fin 10)"
  shows "\<exists>a b. tenth p = Fin a \<and> tenth q = Fin b \<and> 0 \<le> a \<and> a \<le> b \<and> b \<le> 10"
proof -
  let ?r = "\<lambda>x. \<lfloor>round_rat (x * 10) + 1 / 2\<rfloor>"
  have b: "0 \<le> round_rat (x * 10) \<and> round_rat (x * 10) \<le> 100" if "0 \<le> x" "x \<le> 10" for x
    using b64.rnd_ge_int [of 0 "x * 10"] b64.rnd_le_int [of "x * 10" 100] that by simp
  have t: "tenth x = Fin (round_rat (of_int (?r x) / 10)) \<and> 0 \<le> ?r x \<and> ?r x \<le> 100" if x: "0 \<le> x" "x \<le> 10" for x
  proof -
    have "f64_of_rat (x * 10) = Fin (round_rat (x * 10))" using x by (intro small_finite [of _ 100]) auto
    moreover have r: "0 \<le> ?r x" "?r x \<le> 100" using b [OF x] by (simp_all add: floor_le_iff le_floor_iff)
    moreover have "f64_of_rat (of_int (?r x) / 10) = Fin (round_rat (of_int (?r x) / 10))"
      using r by (intro small_finite [of _ 100]) (auto simp: abs_le_iff)
    ultimately show ?thesis using b [OF x] by (simp add: tenth_def)
  qed
  have "?r p \<le> ?r q" using assms(2) by (intro floor_mono add_right_mono round_rat_mono) simp
  then have "round_rat (of_int (?r p) / 10) \<le> round_rat (of_int (?r q) / 10)" by (intro round_rat_mono) (simp add: divide_right_mono)
  moreover have "0 \<le> round_rat (of_int (?r p) / 10)" using t [of p] assms by (intro b64.rnd_nonneg) simp
  moreover have "round_rat (of_int (?r q) / 10) \<le> of_int 10" using t [of q] assms by (intro b64.rnd_le_int) auto
  ultimately show ?thesis using t [of p] t [of q] assms(1-3) by simp
qed

text \<open>C23: Whatever signals are present, the score is a number between 0 and 10, and a device none of whose signals is
  better and none of which is missing in one and present in the other never has the higher score: rounding
  notwithstanding, more load, more crashes, more latency or less battery never raise it.\<close>

theorem score_antitone:
  assumes "worse i j"
  shows "\<exists>p q. ComputeScore i = Fin p \<and> ComputeScore j = Fin q \<and> 0 \<le> p \<and> p \<le> q \<and> q \<le> 10"
proof -
  obtain p q where pq: "penalized i = Fin p" "penalized j = Fin q" "p \<le> q" "q \<le> 10"
    using penalized_below [OF assms] by (auto simp: below_def)
  have c: "ComputeScore k = f64_div (f64_round (f64_mul (Fin (max 0 r)) (Fin 10))) (Fin 10)" if "penalized k = Fin r" "r \<le> 10" for k r
    using that by (simp add: ComputeScore_def max_def)
  show ?thesis using tenths [of "max 0 p" "max 0 q"] c [OF pq(1)] c [OF pq(2)] pq(3,4) by simp
qed

definition demo_scored :: "rat \<Rightarrow> ScoreInputs" where
  "demo_scored cpu = \<lparr>si_CPUPct = Some (Fin cpu), si_MemPct = None, si_DiskPct = Some (Fin 90), si_BatteryHealthPct = Some (Fin 60),
     si_BSODCount24h = Some 1, si_AppCrashCount24h = None, si_LatencyAvgMs = None, si_LossPct = Some (Fin 5)\<rparr>"

theorem score_antitone_witness:
  "f64_le (ComputeScore (demo_scored 95)) (ComputeScore (demo_scored 60))"
  using score_antitone [of "demo_scored 95" "demo_scored 60"]
  by (auto simp: worse_def demo_scored_def both_def higher_value_def more_events_def)

end
