(* ===== verification/Accounts.thy ===== *)
theory Accounts
  imports Enrollment
begin

text \<open>
  Sites and users (\<open>internal/api/handlers_resources.go\<close>): what operators create, patch and delete, and
  the guards of the deletions. A row of \<open>users\<close> is the row of \<open>Access\<close> with the display name beside it. The
  statements of one request run after each other, those of two requests may interleave: the transaction of
  \<open>handleDeleteUser\<close> is at the default isolation of PostgreSQL, where every statement sees what has been
  committed when it starts.
\<close>

subsection \<open>Tables and requests\<close>

record account = user_row +
  us_display :: string

record site_row =
  si_ID :: uuid
  si_Slug :: string
  si_Name :: string
  si_Timezone :: string
  si_Description :: "string option"

text \<open>Of the children of a site, its id is what the handlers read.\<close>

record resource_db =
  rd_users :: "account list"
  rd_sites :: "site_row list"
  rd_appliances :: "uuid list"
  rd_agents :: "uuid list"
  rd_collectors :: "uuid list"

record createSiteReq =
  csr_Slug :: string
  csr_Name :: string
  csr_Timezone :: string
  csr_Description :: string

record updateSiteReq =
  usr_Slug :: "string option"
  usr_Name :: "string option"
  usr_Timezone :: "string option"
  usr_Description :: "string option"

record createUserReq =
  cur_Email :: string
  cur_DisplayName :: string
  cur_Password :: string
  cur_Role :: string

record updateUserReq =
  uur_DisplayName :: "string option"
  uur_Role :: "string option"
  uur_IsActive :: "bool option"
  uur_Password :: "string option"

subsection \<open>Sites\<close>

text \<open>The expression \<open>^[a-z0-9-]+$\<close>.\<close>

definition slugRE_MatchString :: "string \<Rightarrow> bool" where
  "slugRE_MatchString s \<longleftrightarrow> s \<noteq> [] \<and>
     list_all (\<lambda>c. 97 \<le> char_code c \<and> char_code c \<le> 122 \<or> is_digit c \<or> c = CHR ''-'') s"

definition NULLIF_empty :: "string \<Rightarrow> string option" where
  "NULLIF_empty s = (if s = [] then None else Some s)"

definition handleCreateSite ::
    "access_env \<Rightarrow> createSiteReq option \<Rightarrow> resource_db \<Rightarrow> site_row reply \<times> resource_db" where
  "handleCreateSite env body db =
     (case body of
        None \<Rightarrow> (Failed 400 ''invalid JSON body'', db)
      | Some req \<Rightarrow>
          if \<not> slugRE_MatchString (csr_Slug req) then (Failed 400 ''slug must match ^[a-z0-9-]+$'', db)
          else if csr_Name req = [] then (Failed 400 ''name is required'', db)
          else
            let v = \<lparr>si_ID = ae_new_id env, si_Slug = csr_Slug req, si_Name = csr_Name req,
                     si_Timezone = (if csr_Timezone req = [] then ''UTC'' else csr_Timezone req),
                     si_Description = NULLIF_empty (csr_Description req)\<rparr>
            in if ae_fault env ''insert site'' \<or> list_ex (\<lambda>s. si_Slug s = si_Slug v \<or> si_ID s = si_ID v) (rd_sites db)
               then (Failed 400 ''site exists or invalid'', db)
               else (Answered 201 v, db\<lparr>rd_sites := rd_sites db @ [v]\<rparr>))"

text \<open>The assignments of the SET clause, in the order of the columns.\<close>

definition site_sets :: "updateSiteReq \<Rightarrow> string + (site_row \<Rightarrow> site_row) list" where
  "site_sets req =
     (if (\<exists>s\<in>set_option (usr_Slug req). \<not> slugRE_MatchString s) then Inl ''slug must match ^[a-z0-9-]+$''
      else if usr_Name req = Some [] then Inl ''name cannot be empty''
      else Inr (
        (case usr_Slug req of None \<Rightarrow> [] | Some s \<Rightarrow> [\<lambda>r. r\<lparr>si_Slug := s\<rparr>]) @
        (case usr_Name req of None \<Rightarrow> [] | Some n \<Rightarrow> [\<lambda>r. r\<lparr>si_Name := n\<rparr>]) @
        (case usr_Timezone req of None \<Rightarrow> [] | Some z \<Rightarrow> [\<lambda>r. r\<lparr>si_Timezone := z\<rparr>]) @
        (case usr_Description req of None \<Rightarrow> [] | Some d \<Rightarrow> [\<lambda>r. r\<lparr>si_Description := NULLIF_empty d\<rparr>])))"

definition apply_sets :: "('a \<Rightarrow> 'a) list \<Rightarrow> 'a \<Rightarrow> 'a" where
  "apply_sets sets r = foldl (\<lambda>r f. f r) r sets"

definition handleUpdateSite ::
    "access_env \<Rightarrow> string \<Rightarrow> updateSiteReq option \<Rightarrow> resource_db \<Rightarrow> site_row reply \<times> resource_db" where
  "handleUpdateSite env param body db =
     (case ae_parse_uuid env param of
        None \<Rightarrow> (Failed 400 ''id must be a UUID'', db)
      | Some i \<Rightarrow>
          (case body of
             None \<Rightarrow> (Failed 400 ''invalid JSON body'', db)
           | Some req \<Rightarrow>
               (case site_sets req of
                  Inl e \<Rightarrow> (Failed 400 e, db)
                | Inr sets \<Rightarrow>
                    if sets = [] then (Failed 400 ''no fields to update'', db)
                    else (case find (\<lambda>s. si_ID s = i) (rd_sites db) of
                            None \<Rightarrow> (Failed 400 ''update failed (slug conflict?)'', db)
                          | Some old \<Rightarrow>
                              let v = apply_sets sets old in
                              if ae_fault env ''update site'' \<or>
                                 list_ex (\<lambda>s. si_ID s \<noteq> i \<and> si_Slug s = si_Slug v) (rd_sites db)
                              then (Failed 400 ''update failed (slug conflict?)'', db)
                              else (Answered 200 v,
                                    db\<lparr>rd_sites := map (\<lambda>s. if si_ID s = i then v else s) (rd_sites db)\<rparr>)))))"

definition has_children :: "uuid \<Rightarrow> resource_db \<Rightarrow> bool" where
  "has_children i db \<longleftrightarrow> 0 < length (filter ((=) i) (rd_appliances db)) \<or>
     0 < length (filter ((=) i) (rd_agents db)) \<or> 0 < length (filter ((=) i) (rd_collectors db))"

definition handleDeleteSite :: "access_env \<Rightarrow> string \<Rightarrow> resource_db \<Rightarrow> unit reply \<times> resource_db" where
  "handleDeleteSite env param db =
     (case ae_parse_uuid env param of
        None \<Rightarrow> (Failed 400 ''id must be a UUID'', db)
      | Some i \<Rightarrow>
          if ae_fault env ''count children'' then (Failed 500 ''child count failed'', db)
          else if has_children i db
          then (Failed 409 ''site still has appliances, agents, or collectors; remove or reassign them first'', db)
          else if ae_fault env ''delete site'' then (Failed 500 ''delete failed'', db)
          else if \<not> list_ex (\<lambda>s. si_ID s = i) (rd_sites db) then (Failed 404 ''site not found'', db)
          else (Answered 204 (), db\<lparr>rd_sites := filter (\<lambda>s. si_ID s \<noteq> i) (rd_sites db)\<rparr>))"

subsection \<open>Users\<close>

text \<open>\<open>numCPU\<close> is a parameter of the hash; the check constraint and the index of the table refuse a row.\<close>

definition hash_of :: "access_env \<Rightarrow> nat \<Rightarrow> string \<Rightarrow> string + string" where
  "hash_of env numCPU pw = HashPassword (ae_kdf env) numCPU (ae_rand env) pw"

definition handleCreateUser ::
    "access_env \<Rightarrow> nat \<Rightarrow> createUserReq option \<Rightarrow> resource_db \<Rightarrow> account reply \<times> resource_db" where
  "handleCreateUser env numCPU body db =
     (case body of
        None \<Rightarrow> (Failed 400 ''invalid JSON body'', db)
      | Some req \<Rightarrow>
          if cur_Email req = [] \<or> cur_DisplayName req = [] \<or> cur_Password req = []
          then (Failed 400 ''email, displayName and password are required'', db)
          else if length (cur_Password req) < 12 then (Failed 400 ''password must be at least 12 characters'', db)
          else if \<not> Role_Valid (cur_Role req) then (Failed 400 ''invalid role'', db)
          else (case hash_of env numCPU (cur_Password req) of
                  Inl e \<Rightarrow> (Failed 500 ''hash failed'', db)
                | Inr h \<Rightarrow>
                    let v = \<lparr>us_id = ae_new_id env, us_email = cur_Email req, us_role = cur_Role req, us_hash = h,
                             us_totp_enrolled = False, us_active = True, us_display = cur_DisplayName req\<rparr>
                    in if ae_fault env ''insert user'' \<or>
                          list_ex (\<lambda>u. to_lower (us_email u) = to_lower (us_email v) \<or> us_id u = us_id v) (rd_users db)
                       then (Failed 400 ''user exists or invalid'', db)
                       else (Answered 201 v, db\<lparr>rd_users := rd_users db @ [v]\<rparr>)))"

definition user_sets :: "access_env \<Rightarrow> nat \<Rightarrow> updateUserReq \<Rightarrow> nat \<times> string + (account \<Rightarrow> account) list" where
  "user_sets env numCPU req =
     (if uur_DisplayName req = Some [] then Inl (400, ''displayName cannot be empty'')
      else if (\<exists>r\<in>set_option (uur_Role req). \<not> Role_Valid r) then Inl (400, ''invalid role'')
      else
        let sets =
          (case uur_DisplayName req of None \<Rightarrow> [] | Some d \<Rightarrow> [\<lambda>u. u\<lparr>us_display := d\<rparr>]) @
          (case uur_Role req of None \<Rightarrow> [] | Some r \<Rightarrow> [\<lambda>u. u\<lparr>us_role := r\<rparr>]) @
          (case uur_IsActive req of None \<Rightarrow> [] | Some a \<Rightarrow> [\<lambda>u. u\<lparr>us_active := a\<rparr>])
        in case uur_Password req of
             None \<Rightarrow> Inr sets
           | Some pw \<Rightarrow>
               if length pw < 12 then Inl (400, ''password must be at least 12 characters'')
               else (case hash_of env numCPU pw of
                       Inl e \<Rightarrow> Inl (500, ''hash failed'')
                     | Inr h \<Rightarrow> Inr (sets @ [\<lambda>u. u\<lparr>us_hash := h\<rparr>])))"

definition handleUpdateUser ::
    "access_env \<Rightarrow> nat \<Rightarrow> string \<Rightarrow> updateUserReq option \<Rightarrow> resource_db \<Rightarrow> account reply \<times> resource_db" where
  "handleUpdateUser env numCPU param body db =
     (case ae_parse_uuid env param of
        None \<Rightarrow> (Failed 400 ''id must be a UUID'', db)
      | Some i \<Rightarrow>
          (case body of
             None \<Rightarrow> (Failed 400 ''invalid JSON body'', db)
           | Some req \<Rightarrow>
               (case user_sets env numCPU req of
                  Inl (status, e) \<Rightarrow> (Failed status e, db)
                | Inr sets \<Rightarrow>
                    if sets = [] then (Failed 400 ''no fields to update'', db)
                    else (case find (\<lambda>u. us_id u = i) (rd_users db) of
                            None \<Rightarrow> (Failed 400 ''update failed'', db)
                          | Some old \<Rightarrow>
                              if ae_fault env ''update user'' then (Failed 400 ''update failed'', db)
                              else let v = apply_sets sets old in
                                (Answered 200 v,
                                 db\<lparr>rd_users := map (\<lambda>u. if us_id u = i then v else u) (rd_users db)\<rparr>)))))"

subsection \<open>The deletion of a user\<close>

definition active_superadmin :: "account \<Rightarrow> bool" where
  "active_superadmin u \<longleftrightarrow> us_role u = RoleSuperAdmin \<and> us_active u"

text \<open>What the transaction reads: the row, and for a superadmin how many active ones are left without it.\<close>

definition delete_guard :: "access_env \<Rightarrow> uuid \<Rightarrow> account list \<Rightarrow> nat \<times> string + string \<times> string" where
  "delete_guard env i us =
     (case (if ae_fault env ''read user'' then None else find (\<lambda>u. us_id u = i) us) of
        None \<Rightarrow> Inl (404, ''user not found'')
      | Some u \<Rightarrow>
          if us_role u = RoleSuperAdmin then
            (if ae_fault env ''count superadmins'' then Inl (500, ''count superadmins failed'')
             else if length (filter (\<lambda>v. us_role v = RoleSuperAdmin \<and> us_id v \<noteq> i \<and> us_active v) us) = 0
             then Inl (400, ''refusing to delete the last active superadmin'')
             else Inr (us_email u, us_role u))
          else Inr (us_email u, us_role u))"

text \<open>What it writes, and its commit.\<close>

definition delete_exec :: "access_env \<Rightarrow> uuid \<Rightarrow> account list \<Rightarrow> unit reply \<times> account list" where
  "delete_exec env i us =
     (if ae_fault env ''delete user'' then (Failed 500 ''delete failed'', us)
      else if \<not> list_ex (\<lambda>u. us_id u = i) us then (Failed 404 ''user not found'', us)
      else if ae_fault env ''commit'' then (Failed 500 ''commit failed'', us)
      else (Answered 204 (), filter (\<lambda>u. us_id u \<noteq> i) us))"

definition handleDeleteUser :: "access_env \<Rightarrow> uuid \<Rightarrow> string \<Rightarrow> resource_db \<Rightarrow> unit reply \<times> resource_db" where
  "handleDeleteUser env caller param db =
     (case ae_parse_uuid env param of
        None \<Rightarrow> (Failed 400 ''id must be a UUID'', db)
      | Some i \<Rightarrow>
          if i = caller then (Failed 400 ''you cannot delete your own account; ask another superadmin'', db)
          else if ae_fault env ''begin'' then (Failed 500 ''begin tx failed'', db)
          else (case delete_guard env i (rd_users db) of
                  Inl (status, e) \<Rightarrow> (Failed status e, db)
                | Inr _ \<Rightarrow> (case delete_exec env i (rd_users db) of (a, us) \<Rightarrow> (a, db\<lparr>rd_users := us\<rparr>))))"

subsection \<open>Requests one after the other\<close>

datatype request_op =
    CreateSite "createSiteReq option"
  | UpdateSite string "updateSiteReq option"
  | DeleteSite string
  | CreateUser "createUserReq option"
  | UpdateUser string "updateUserReq option"
  | DeleteUser uuid string

definition serve :: "access_env \<Rightarrow> nat \<Rightarrow> request_op \<Rightarrow> resource_db \<Rightarrow> resource_db" where
  "serve env numCPU q db =
     (case q of
        CreateSite b \<Rightarrow> snd (handleCreateSite env b db)
      | UpdateSite i b \<Rightarrow> snd (handleUpdateSite env i b db)
      | DeleteSite i \<Rightarrow> snd (handleDeleteSite env i db)
      | CreateUser b \<Rightarrow> snd (handleCreateUser env numCPU b db)
      | UpdateUser i b \<Rightarrow> snd (handleUpdateUser env numCPU i b db)
      | DeleteUser c i \<Rightarrow> snd (handleDeleteUser env c i db))"

text \<open>Each request has an environment of its own: the clock, the ids and the faults differ.\<close>

definition serve_all :: "nat \<Rightarrow> (access_env \<times> request_op) list \<Rightarrow> resource_db \<Rightarrow> resource_db" where
  "serve_all numCPU qs db = foldl (\<lambda>db (env, q). serve env numCPU q db) db qs"

definition resources_ok :: "resource_db \<Rightarrow> bool" where
  "resources_ok db \<longleftrightarrow>
     distinct (map us_id (rd_users db)) \<and> distinct (map (\<lambda>u. to_lower (us_email u)) (rd_users db)) \<and>
     (\<forall>u\<in>set (rd_users db). Role_Valid (us_role u)) \<and>
     distinct (map si_ID (rd_sites db)) \<and> distinct (map si_Slug (rd_sites db)) \<and>
     (\<forall>s\<in>set (rd_sites db). slugRE_MatchString (si_Slug s) \<and> si_Name s \<noteq> [])"

text \<open>A patch that can take an active superadmin away: one that sets another role or clears the flag.\<close>

definition demotes :: "request_op \<Rightarrow> bool" where
  "demotes q \<longleftrightarrow>
     (case q of UpdateUser i (Some req) \<Rightarrow> (\<exists>r\<in>set_option (uur_Role req). r \<noteq> RoleSuperAdmin) \<or> uur_IsActive req = Some False
      | _ \<Rightarrow> False)"

definition has_superadmin :: "resource_db \<Rightarrow> bool" where
  "has_superadmin db \<longleftrightarrow> list_ex active_superadmin (rd_users db)"

subsection \<open>What the assignments do\<close>

lemma site_sets_result:
  assumes "site_sets req = Inr sets"
  shows "si_ID (apply_sets sets r) = si_ID r"
    and "si_Slug (apply_sets sets r) = (case usr_Slug req of None \<Rightarrow> si_Slug r | Some s \<Rightarrow> s)"
    and "si_Name (apply_sets sets r) = (case usr_Name req of None \<Rightarrow> si_Name r | Some n \<Rightarrow> n)"
    and "slugRE_MatchString (si_Slug r) \<Longrightarrow> slugRE_MatchString (si_Slug (apply_sets sets r))"
    and "si_Name r \<noteq> [] \<Longrightarrow> si_Name (apply_sets sets r) \<noteq> []"
  using assms by (auto simp: site_sets_def apply_sets_def split: if_splits option.splits)

lemma user_sets_result:
  assumes "user_sets env numCPU req = Inr sets"
  shows "us_id (apply_sets sets u) = us_id u"
    and "us_email (apply_sets sets u) = us_email u"
    and "us_role (apply_sets sets u) = (case uur_Role req of None \<Rightarrow> us_role u | Some r \<Rightarrow> r)"
    and "us_active (apply_sets sets u) = (case uur_IsActive req of None \<Rightarrow> us_active u | Some a \<Rightarrow> a)"
    and "Role_Valid (us_role u) \<Longrightarrow> Role_Valid (us_role (apply_sets sets u))"
  using assms by (auto simp: user_sets_def apply_sets_def Let_def split: if_splits option.splits sum.splits)

lemma distinct_replaced:
  assumes "distinct (map key xs)" "distinct (map f xs)" "\<And>s. s \<in> set xs \<Longrightarrow> key s \<noteq> i \<Longrightarrow> f s \<noteq> f v"
  shows "distinct (map f (map (\<lambda>s. if key s = i then v else s) xs))"
  using assms
proof (induction xs)
  case (Cons x xs)
  have ih: "distinct (map f (map (\<lambda>s. if key s = i then v else s) xs))"
    using Cons.IH Cons.prems by simp
  show ?case
  proof (cases "key x = i")
    case True
    then have "map (\<lambda>s. if key s = i then v else s) xs = xs"
      using Cons.prems(1) by (auto intro!: map_idI simp: image_iff)
    moreover have "f v \<notin> f ` set xs"
    proof
      assume "f v \<in> f ` set xs"
      then obtain s where "s \<in> set xs" "f v = f s" by auto
      then show False using Cons.prems(1) Cons.prems(3)[of s] True by (auto simp: image_iff)
    qed
    ultimately show ?thesis using True Cons.prems(2) by (auto simp: image_iff)
  next
    case False
    then have "f x \<noteq> f v" using Cons.prems(3)[of x] by simp
    then show ?thesis using False ih Cons.prems(2) by (auto simp: image_iff)
  qed
qed simp

lemma find_id: "find (\<lambda>s. key s = i) xs = Some old \<Longrightarrow> old \<in> set xs \<and> key old = i"
  by (auto dest: find_SomeD)

subsection \<open>Every request keeps the tables\<close>

lemma create_site_ok: "resources_ok db \<Longrightarrow> resources_ok (snd (handleCreateSite env b db))"
  by (auto simp: handleCreateSite_def resources_ok_def Let_def list_ex_iff split: option.splits)

lemma update_site_ok:
  assumes ok: "resources_ok db"
  shows "resources_ok (snd (handleUpdateSite env param b db))"
proof (cases "snd (handleUpdateSite env param b db) = db")
  case False
  then obtain i req sets old where v: "site_sets req = Inr sets" "find (\<lambda>s. si_ID s = i) (rd_sites db) = Some old"
      "\<not> list_ex (\<lambda>s. si_ID s \<noteq> i \<and> si_Slug s = si_Slug (apply_sets sets old)) (rd_sites db)"
      "snd (handleUpdateSite env param b db) = db\<lparr>rd_sites := map (\<lambda>s. if si_ID s = i then apply_sets sets old else s) (rd_sites db)\<rparr>"
    by (auto simp: handleUpdateSite_def Let_def split: option.splits sum.splits if_splits)
  note old = find_id[OF v(2)] and new = site_sets_result[OF v(1), of old]
  have "distinct (map si_ID (map (\<lambda>s. if si_ID s = i then apply_sets sets old else s) (rd_sites db)))"
    using ok old new(1) by (intro distinct_replaced) (auto simp: resources_ok_def)
  moreover have "distinct (map si_Slug (map (\<lambda>s. if si_ID s = i then apply_sets sets old else s) (rd_sites db)))"
    using ok v(3) by (intro distinct_replaced) (auto simp: resources_ok_def list_ex_iff)
  moreover have "slugRE_MatchString (si_Slug (apply_sets sets old)) \<and> si_Name (apply_sets sets old) \<noteq> []"
    using ok old new(4,5) by (auto simp: resources_ok_def)
  ultimately show ?thesis using ok unfolding v(4) resources_ok_def by auto
qed (use ok in simp)

lemma delete_site_ok: "resources_ok db \<Longrightarrow> resources_ok (snd (handleDeleteSite env param db))"
  by (auto simp: handleDeleteSite_def resources_ok_def distinct_map_filter split: option.splits)

lemma create_user_ok: "resources_ok db \<Longrightarrow> resources_ok (snd (handleCreateUser env n b db))"
  by (auto simp: handleCreateUser_def resources_ok_def Let_def list_ex_iff split: option.splits sum.splits)

lemma update_user_cases:
  obtains (same) "snd (handleUpdateUser env n param b db) = db"
  | (patched) i req sets old where "b = Some req" "user_sets env n req = Inr sets"
      "find (\<lambda>u. us_id u = i) (rd_users db) = Some old"
      "snd (handleUpdateUser env n param b db) = db\<lparr>rd_users := map (\<lambda>u. if us_id u = i then apply_sets sets old else u) (rd_users db)\<rparr>"
  by (cases "snd (handleUpdateUser env n param b db) = db")
     (auto simp: handleUpdateUser_def Let_def split: option.splits sum.splits if_splits)

lemma update_user_ok:
  assumes ok: "resources_ok db"
  shows "resources_ok (snd (handleUpdateUser env n param b db))"
proof (cases rule: update_user_cases[of env n param b db])
  case same
  then show ?thesis using ok by simp
next
  case (patched i req sets old)
  note old = find_id[OF patched(3)] and new = user_sets_result[OF patched(2), of old]
  have d: "distinct (map us_id (rd_users db))" "distinct (map (\<lambda>u. to_lower (us_email u)) (rd_users db))"
    using ok by (simp_all add: resources_ok_def)
  have mail: "to_lower (us_email u) \<noteq> to_lower (us_email (apply_sets sets old))"
    if "u \<in> set (rd_users db)" "us_id u \<noteq> i" for u
  proof -
    have "u \<noteq> old" using that(2) old by auto
    then show ?thesis using d(2) old that(1) new(2) by (auto simp: distinct_map inj_on_def)
  qed
  have "distinct (map us_id (map (\<lambda>u. if us_id u = i then apply_sets sets old else u) (rd_users db)))"
    using d(1) old new(1) by (intro distinct_replaced) auto
  moreover have "distinct (map (\<lambda>u. to_lower (us_email u)) (map (\<lambda>u. if us_id u = i then apply_sets sets old else u) (rd_users db)))"
    using d mail by (intro distinct_replaced) auto
  moreover have "Role_Valid (us_role (apply_sets sets old))" using ok old new(5) by (auto simp: resources_ok_def)
  ultimately show ?thesis using ok unfolding patched(4) resources_ok_def by auto
qed

lemma delete_user_cases:
  obtains (same) "snd (handleDeleteUser env c param db) = db"
  | (gone) i r where "delete_guard env i (rd_users db) = Inr r" "i \<noteq> c"
      "snd (handleDeleteUser env c param db) = db\<lparr>rd_users := filter (\<lambda>u. us_id u \<noteq> i) (rd_users db)\<rparr>"
  by (cases "snd (handleDeleteUser env c param db) = db")
     (auto simp: handleDeleteUser_def delete_exec_def split: option.splits sum.splits if_splits prod.splits)

lemma delete_user_ok: "resources_ok db \<Longrightarrow> resources_ok (snd (handleDeleteUser env c param db))"
  by (cases rule: delete_user_cases[of env c param db]) (auto simp: resources_ok_def distinct_map_filter)

lemma serve_ok: "resources_ok db \<Longrightarrow> resources_ok (serve env n q db)"
  by (cases q) (simp_all add: serve_def create_site_ok update_site_ok delete_site_ok create_user_ok update_user_ok delete_user_ok)

subsection \<open>The last superadmin\<close>

lemma guard_leaves_superadmin:
  assumes "delete_guard env i us = Inr r" "distinct (map us_id us)" "list_ex active_superadmin us"
  shows "list_ex active_superadmin (filter (\<lambda>u. us_id u \<noteq> i) us)"
proof -
  obtain u where u: "find (\<lambda>u. us_id u = i) us = Some u"
    using assms(1) by (auto simp: delete_guard_def split: option.splits if_splits)
  show ?thesis
  proof (cases "us_role u = RoleSuperAdmin")
    case True
    then have "filter (\<lambda>v. us_role v = RoleSuperAdmin \<and> us_id v \<noteq> i \<and> us_active v) us \<noteq> []"
      using assms(1) u by (auto simp: delete_guard_def split: if_splits)
    then show ?thesis by (auto simp: filter_empty_conv list_ex_iff active_superadmin_def)
  next
    case False
    obtain v where v: "v \<in> set us" "active_superadmin v" using assms(3) by (auto simp: list_ex_iff)
    have "us_id v \<noteq> i"
      using find_id[OF u] v False assms(2) by (auto simp: active_superadmin_def distinct_map inj_on_def)
    then show ?thesis using v by (auto simp: list_ex_iff)
  qed
qed

lemma serve_keeps_superadmin:
  assumes ok: "resources_ok db" and adm: "has_superadmin db" and q: "\<not> demotes q"
  shows "has_superadmin (serve env n q db)"
proof (cases q)
  case (CreateUser b)
  have "set (rd_users db) \<subseteq> set (rd_users (snd (handleCreateUser env n b db)))"
    by (auto simp: handleCreateUser_def Let_def split: option.splits sum.splits)
  then show ?thesis using adm by (auto simp: CreateUser serve_def has_superadmin_def list_ex_iff)
next
  case (UpdateUser param b)
  show ?thesis
  proof (cases rule: update_user_cases[of env n param b db])
    case same
    then show ?thesis using adm by (simp add: UpdateUser serve_def)
  next
    case (patched i req sets old)
    note old = find_id[OF patched(3)] and new = user_sets_result[OF patched(2), of old]
    obtain v where v: "v \<in> set (rd_users db)" "active_superadmin v" using adm by (auto simp: has_superadmin_def list_ex_iff)
    show ?thesis
    proof (cases "us_id v = i")
      case True
      then have "v = old" using old v(1) ok by (auto simp: resources_ok_def distinct_map inj_on_def)
      then have "active_superadmin (apply_sets sets old)"
        using v(2) q new(3,4) patched(1)
        by (auto simp: UpdateUser demotes_def active_superadmin_def split: option.splits)
      then show ?thesis using old by (auto simp: UpdateUser serve_def patched(4) has_superadmin_def list_ex_iff)
    next
      case False
      then show ?thesis using v by (auto simp: UpdateUser serve_def patched(4) has_superadmin_def list_ex_iff)
    qed
  qed
next
  case (DeleteUser c param)
  show ?thesis
    using adm guard_leaves_superadmin ok
    by (cases rule: delete_user_cases[of env c param db])
       (auto simp: DeleteUser serve_def has_superadmin_def resources_ok_def)
qed (use adm in \<open>auto simp: serve_def has_superadmin_def handleCreateSite_def handleUpdateSite_def handleDeleteSite_def Let_def
       split: option.splits sum.splits if_splits\<close>)

text \<open>C29: However requests follow each other, the tables keep their keys, roles and slugs, and as long as no patch
  demotes or deactivates anyone some active superadmin is left: no deletion takes the last one away.\<close>

theorem last_superadmin_kept:
  assumes "resources_ok db" "has_superadmin db" "list_all (\<lambda>(env, q). \<not> demotes q) qs"
  shows "resources_ok (serve_all n qs db) \<and> has_superadmin (serve_all n qs db)"
  using assms
proof (induction qs arbitrary: db)
  case Nil
  then show ?case by (simp add: serve_all_def)
next
  case (Cons eq qs)
  obtain env q where e: "eq = (env, q)" by (cases eq)
  have "resources_ok (serve env n q db)" "has_superadmin (serve env n q db)"
    using Cons.prems by (auto simp: e serve_ok serve_keeps_superadmin)
  then have "resources_ok (serve_all n qs (serve env n q db)) \<and> has_superadmin (serve_all n qs (serve env n q db))"
    using Cons.IH Cons.prems(3) by simp
  then show ?case by (simp add: serve_all_def e)
qed

definition demo_user :: "string \<Rightarrow> string \<Rightarrow> account" where
  "demo_user i role = \<lparr>us_id = i, us_email = i @ ''@x.org'', us_role = role, us_hash = [], us_totp_enrolled = False,
                        us_active = True, us_display = i\<rparr>"

definition demo_resources :: resource_db where
  "demo_resources = \<lparr>rd_users = [demo_user ''1'' RoleSuperAdmin, demo_user ''2'' RoleSuperAdmin], rd_sites = [],
                     rd_appliances = [], rd_agents = [], rd_collectors = []\<rparr>"

definition demo_resource_env :: access_env where
  "demo_resource_env = demo_access_env 0"

lemma demo_resource_simps [simp]:
  "ae_parse_uuid demo_resource_env = Some" "ae_fault demo_resource_env = (\<lambda>_. False)"
  by (simp_all add: demo_resource_env_def demo_access_env_def)

lemma demo_resources_ok: "resources_ok demo_resources" "has_superadmin demo_resources"
proof -
  have "to_lower ''1@x.org'' \<noteq> to_lower ''2@x.org''" by code_simp
  then show "resources_ok demo_resources"
    by (simp add: resources_ok_def demo_resources_def demo_user_def Role_Valid_def)
  show "has_superadmin demo_resources"
    by (simp add: has_superadmin_def demo_resources_def demo_user_def active_superadmin_def)
qed

lemma demo_deletions:
  "serve demo_resource_env n (DeleteUser ''1'' ''2'') demo_resources = demo_resources\<lparr>rd_users := [demo_user ''1'' RoleSuperAdmin]\<rparr>"
  "handleDeleteUser demo_resource_env ''3'' ''1'' (demo_resources\<lparr>rd_users := [demo_user ''1'' RoleSuperAdmin]\<rparr>)
     = (Failed 400 ''refusing to delete the last active superadmin'', demo_resources\<lparr>rd_users := [demo_user ''1'' RoleSuperAdmin]\<rparr>)"
  by (simp_all add: serve_def handleDeleteUser_def delete_guard_def delete_exec_def demo_resources_def demo_user_def)

theorem last_superadmin_kept_witness:
  "map us_id (rd_users (serve_all 8 [(demo_resource_env, DeleteUser ''1'' ''2''), (demo_resource_env, DeleteUser ''3'' ''1'')]
      demo_resources)) = [''1''] \<and>
   has_superadmin (serve_all 8 [(demo_resource_env, DeleteUser ''1'' ''2''), (demo_resource_env, DeleteUser ''3'' ''1'')]
      demo_resources)"
  (is "map us_id (rd_users (serve_all 8 ?qs _)) = _ \<and> _")
proof -
  have "list_all (\<lambda>(env, q). \<not> demotes q) ?qs" by (simp add: demotes_def)
  then have "has_superadmin (serve_all 8 ?qs demo_resources)"
    using last_superadmin_kept[OF demo_resources_ok] by blast
  moreover have "serve demo_resource_env 8 (DeleteUser ''3'' ''1'') (demo_resources\<lparr>rd_users := [demo_user ''1'' RoleSuperAdmin]\<rparr>)
      = demo_resources\<lparr>rd_users := [demo_user ''1'' RoleSuperAdmin]\<rparr>"
    by (simp add: serve_def demo_deletions(2))
  then have "serve_all 8 ?qs demo_resources = demo_resources\<lparr>rd_users := [demo_user ''1'' RoleSuperAdmin]\<rparr>"
    by (simp add: serve_all_def demo_deletions(1))
  ultimately show ?thesis by (simp add: demo_user_def)
qed

subsection \<open>Where the guard does not reach\<close>

text \<open>A patch has no guard: it may demote the only superadmin.\<close>

definition demote_patch :: updateUserReq where
  "demote_patch = \<lparr>uur_DisplayName = None, uur_Role = Some RoleReadOnly, uur_IsActive = None, uur_Password = None\<rparr>"

theorem patch_removes_last_superadmin:
  "\<exists>db q. resources_ok db \<and> has_superadmin db \<and> \<not> has_superadmin (serve demo_resource_env 8 q db)"
proof (intro exI conjI)
  let ?db = "demo_resources\<lparr>rd_users := [demo_user ''1'' RoleSuperAdmin]\<rparr>"
  have "?db = serve demo_resource_env 8 (DeleteUser ''1'' ''2'') demo_resources" by (simp add: demo_deletions(1))
  then show "resources_ok ?db" using serve_ok[OF demo_resources_ok(1)] by metis
  show "has_superadmin ?db" by (simp add: has_superadmin_def active_superadmin_def demo_user_def)
  show "\<not> has_superadmin (serve demo_resource_env 8 (UpdateUser ''1'' (Some demote_patch)) ?db)"
    by (simp add: serve_def handleUpdateUser_def user_sets_def demote_patch_def Role_Valid_def demo_user_def apply_sets_def
        has_superadmin_def active_superadmin_def Let_def role_names)
qed

text \<open>
  The transactions of several deletions over the committed table. A deletion waits, has passed its guard, or has
  been answered. Nothing that the guard read is locked: only a deletion of the same row waits for another.
\<close>

datatype deletion = Asked uuid uuid | Guarded uuid | Replied "unit reply"

inductive del_step :: "access_env \<Rightarrow> account list \<times> deletion list \<Rightarrow> account list \<times> deletion list \<Rightarrow> bool" for env where
  guard_passes: "k < length ds \<Longrightarrow> ds ! k = Asked c i \<Longrightarrow> i \<noteq> c \<Longrightarrow> delete_guard env i us = Inr r \<Longrightarrow>
     del_step env (us, ds) (us, ds[k := Guarded i])"
| guard_refuses: "k < length ds \<Longrightarrow> ds ! k = Asked c i \<Longrightarrow> i \<noteq> c \<Longrightarrow> delete_guard env i us = Inl (n, e) \<Longrightarrow>
     del_step env (us, ds) (us, ds[k := Replied (Failed n e)])"
| own_account: "k < length ds \<Longrightarrow> ds ! k = Asked c c \<Longrightarrow>
     del_step env (us, ds) (us, ds[k := Replied (Failed 400 ''you cannot delete your own account; ask another superadmin'')])"
| executes: "k < length ds \<Longrightarrow> ds ! k = Guarded i \<Longrightarrow> delete_exec env i us = (a, us') \<Longrightarrow>
     del_step env (us, ds) (us', ds[k := Replied a])"

text \<open>Alone, the steps are the handler.\<close>

lemma handler_steps:
  assumes "ae_parse_uuid env param = Some i" "\<not> ae_fault env ''begin''"
  shows "(del_step env)\<^sup>*\<^sup>* (rd_users db, [Asked c i])
    (rd_users (snd (handleDeleteUser env c param db)), [Replied (fst (handleDeleteUser env c param db))])"
proof (cases "i = c")
  case True
  then have "del_step env (rd_users db, [Asked c i]) (rd_users db, [Asked c i][0 :=
      Replied (Failed 400 ''you cannot delete your own account; ask another superadmin'')])"
    by (intro own_account[where c = c]) auto
  then show ?thesis using assms True by (simp add: handleDeleteUser_def r_into_rtranclp)
next
  case False
  show ?thesis
  proof (cases "delete_guard env i (rd_users db)")
    case (Inl ne)
    obtain n e where "ne = (n, e)" by (cases ne)
    with Inl False have "del_step env (rd_users db, [Asked c i]) (rd_users db, [Asked c i][0 := Replied (Failed n e)])"
      by (intro guard_refuses[where c = c and i = i]) auto
    then show ?thesis using assms False Inl \<open>ne = (n, e)\<close> by (simp add: handleDeleteUser_def r_into_rtranclp)
  next
    case (Inr r)
    obtain a us where x: "delete_exec env i (rd_users db) = (a, us)" by (cases "delete_exec env i (rd_users db)")
    have "del_step env (rd_users db, [Asked c i]) (rd_users db, [Asked c i][0 := Guarded i])"
      using False Inr by (intro guard_passes[where c = c and i = i]) auto
    moreover have "del_step env (rd_users db, [Guarded i]) (us, [Guarded i][0 := Replied a])"
      using x by (intro executes[where i = i]) auto
    ultimately show ?thesis using assms False Inr x by (simp add: handleDeleteUser_def)
  qed
qed

text \<open>Side by side, two superadmins that delete each other are both gone.\<close>

theorem concurrent_deletes_leave_none:
  "(del_step demo_resource_env)\<^sup>*\<^sup>* (rd_users demo_resources, [Asked ''1'' ''2'', Asked ''2'' ''1''])
     ([], [Replied (Answered 204 ()), Replied (Answered 204 ())])"
proof -
  let ?s = "del_step demo_resource_env" and ?us = "rd_users demo_resources"
  have g: "delete_guard demo_resource_env ''2'' ?us = Inr (''2@x.org'', RoleSuperAdmin)"
    "delete_guard demo_resource_env ''1'' ?us = Inr (''1@x.org'', RoleSuperAdmin)"
    by (simp_all add: delete_guard_def demo_resources_def demo_user_def)
  have x: "delete_exec demo_resource_env ''2'' ?us = (Answered 204 (), [demo_user ''1'' RoleSuperAdmin])"
    "delete_exec demo_resource_env ''1'' [demo_user ''1'' RoleSuperAdmin] = (Answered 204 (), [])"
    by (simp_all add: delete_exec_def demo_resources_def demo_user_def)
  have s1: "?s (?us, [Asked ''1'' ''2'', Asked ''2'' ''1'']) (?us, [Guarded ''2'', Asked ''2'' ''1''])"
    using guard_passes[of 0 "[Asked ''1'' ''2'', Asked ''2'' ''1'']" "''1''" "''2''", OF _ _ _ g(1)] by simp
  have s2: "?s (?us, [Guarded ''2'', Asked ''2'' ''1'']) (?us, [Guarded ''2'', Guarded ''1''])"
    using guard_passes[of 1 "[Guarded ''2'', Asked ''2'' ''1'']" "''2''" "''1''", OF _ _ _ g(2)] by simp
  have s3: "?s (?us, [Guarded ''2'', Guarded ''1'']) ([demo_user ''1'' RoleSuperAdmin], [Replied (Answered 204 ()), Guarded ''1''])"
    using executes[of 0 "[Guarded ''2'', Guarded ''1'']" "''2''", OF _ _ x(1)] by simp
  have s4: "?s ([demo_user ''1'' RoleSuperAdmin], [Replied (Answered 204 ()), Guarded ''1'']) ([], [Replied (Answered 204 ()), Replied (Answered 204 ())])"
    using executes[of 1 "[Replied (Answered 204 ()), Guarded ''1'']" "''1''", OF _ _ x(2)] by simp
  show ?thesis
    by (rule converse_rtranclp_into_rtranclp[where r = ?s, OF s1 converse_rtranclp_into_rtranclp[where r = ?s, OF s2
          converse_rtranclp_into_rtranclp[where r = ?s, OF s3 r_into_rtranclp[where r = ?s, OF s4]]]])
qed

end
