(* ===== verification/Probe_Trackers.thy ===== *)
theory Probe_Trackers
  imports Go_Time
begin

text \<open>
  Counters of the probe that become rates (\<open>internal/probe/nic_tracker.go\<close>, \<open>process_tracker.go\<close>), the kind
  of a network adapter (\<open>nic_kind.go\<close>), the adapters of a snapshot and the small helpers of \<open>snapshot.go\<close>.
  A conversion of a float that does not fit \<open>uint64\<close> gives \<open>oor\<close>.
\<close>

subsection \<open>Rates\<close>

text \<open>The closure \<open>rate\<close> of both trackers.\<close>

definition rate :: "(f64 \<Rightarrow> u64) \<Rightarrow> f64 \<Rightarrow> u64 \<Rightarrow> u64 \<Rightarrow> u64" where
  "rate oor dt a b = (if a < b then 0 else f64_to_u64 oor (f64_div (f64_of_int (uint (a - b))) dt))"

text \<open>What both trackers do with a sample: it replaces the one before under its key, and the rates are those against
  that one, unless there was none or it is at most half a second old.\<close>

definition record_and_rate ::
    "('c \<Rightarrow> int) \<Rightarrow> (f64 \<Rightarrow> 'c \<Rightarrow> 'c \<Rightarrow> 'r) \<Rightarrow> 'r \<Rightarrow> 'k \<Rightarrow> 'c \<Rightarrow> ('k \<rightharpoonup> 'c) \<Rightarrow> 'r \<times> ('k \<rightharpoonup> 'c)" where
  "record_and_rate at_of rates zero key now prev =
     ((case prev key of None \<Rightarrow> zero
       | Some p \<Rightarrow> let dt = duration_seconds (time_sub (at_of now) (at_of p)) in
           if f64_le dt (Fin (1 / 2)) then zero else rates dt now p),
      prev(key \<mapsto> now))"

definition reapMissing :: "'k set \<Rightarrow> ('k \<rightharpoonup> 'c) \<Rightarrow> ('k \<rightharpoonup> 'c)" where
  "reapMissing seen prev = prev |` seen"

record nicCounters =
  nc_bytesSent :: u64
  nc_bytesRecv :: u64
  nc_at :: int

type_synonym nicTracker = "string \<rightharpoonup> nicCounters"

definition nic_rates :: "(f64 \<Rightarrow> u64) \<Rightarrow> f64 \<Rightarrow> nicCounters \<Rightarrow> nicCounters \<Rightarrow> u64 \<times> u64" where
  "nic_rates oor dt now p = (rate oor dt (nc_bytesSent now) (nc_bytesSent p), rate oor dt (nc_bytesRecv now) (nc_bytesRecv p))"

definition nic_recordAndDelta :: "(f64 \<Rightarrow> u64) \<Rightarrow> string \<Rightarrow> nicCounters \<Rightarrow> nicTracker \<Rightarrow> (u64 \<times> u64) \<times> nicTracker" where
  "nic_recordAndDelta oor = record_and_rate nc_at (nic_rates oor) (0, 0)"

record procCounters =
  pc_readBytes :: u64
  pc_writeBytes :: u64
  pc_netSent :: u64
  pc_netRecv :: u64
  pc_at :: int

record procKey =
  pk_pid :: int
  pk_started :: int

type_synonym procTracker = "procKey \<rightharpoonup> procCounters"

definition proc_rates :: "(f64 \<Rightarrow> u64) \<Rightarrow> f64 \<Rightarrow> procCounters \<Rightarrow> procCounters \<Rightarrow> u64 \<times> u64 \<times> u64 \<times> u64" where
  "proc_rates oor dt now p =
     (rate oor dt (pc_readBytes now) (pc_readBytes p), rate oor dt (pc_writeBytes now) (pc_writeBytes p),
      rate oor dt (pc_netSent now) (pc_netSent p), rate oor dt (pc_netRecv now) (pc_netRecv p))"

definition proc_recordAndDelta ::
    "(f64 \<Rightarrow> u64) \<Rightarrow> procKey \<Rightarrow> procCounters \<Rightarrow> procTracker \<Rightarrow> (u64 \<times> u64 \<times> u64 \<times> u64) \<times> procTracker" where
  "proc_recordAndDelta oor = record_and_rate pc_at (proc_rates oor) (0, 0, 0, 0)"

subsection \<open>Adapters\<close>

definition loopback_prefixes :: "string list" where "loopback_prefixes = [''lo0'', ''loopback'']"
definition wireless_prefixes :: "string list" where "wireless_prefixes = [''wlan'', ''wlp'', ''wlx'', ''ath'', ''ra0'']"
definition wireless_words :: "string list" where "wireless_words = [''wi-fi'', ''wifi'', ''wireless'']"
definition virtual_prefixes :: "string list" where
  "virtual_prefixes = [''docker'', ''br-'', ''virbr'', ''veth'', ''tap'', ''tun'', ''vmnet'', ''vboxnet'', ''utun'', ''ppp'']"
definition virtual_words :: "string list" where
  "virtual_words = [''vethernet'', ''hyper-v'', ''vpn'', ''tailscale'', ''wireguard'', ''zerotier'']"

definition classifyNICName :: "string \<Rightarrow> string" where
  "classifyNICName name =
     (let n = to_lower name in
      if n = ''lo'' \<or> list_ex (has_prefix n) loopback_prefixes then ''loopback''
      else if list_ex (has_prefix n) wireless_prefixes \<or> list_ex (contains n) wireless_words then ''wireless''
      else if list_ex (has_prefix n) virtual_prefixes \<or> list_ex (contains n) virtual_words then ''virtual''
      else ''wired'')"

text \<open>\<open>classifyNICOS\<close> of Linux over what \<open>/sys\<close> holds for an adapter: whether there is a directory \<open>wireless\<close>, and the
  text of \<open>type\<close>.\<close>

definition classifyNICOS_linux :: "(string \<Rightarrow> bool) \<Rightarrow> (string \<Rightarrow> string option) \<Rightarrow> string \<Rightarrow> string" where
  "classifyNICOS_linux wireless type_file name =
     (if name = [] then []
      else if wireless name then ''wireless''
      else (case type_file name of
              None \<Rightarrow> []
            | Some s \<Rightarrow> if (if s \<noteq> [] \<and> last s = char_of (10 :: nat) then butlast s else s) = ''772'' then ''loopback'' else []))"

definition classifyNIC :: "(string \<Rightarrow> string) \<Rightarrow> string \<Rightarrow> string" where
  "classifyNIC classifyNICOS name = (let k = classifyNICOS name in if k \<noteq> [] then k else classifyNICName name)"

record NIC =
  nic_Name :: string
  nic_MAC :: string
  nic_MTU :: int
  nic_Up :: bool
  nic_Kind :: string
  nic_Addresses :: "string list"
  nic_BytesSent :: u64
  nic_BytesRecv :: u64
  nic_PktsSent :: u64
  nic_PktsRecv :: u64
  nic_ErrIn :: u64
  nic_ErrOut :: u64
  nic_DropIn :: u64
  nic_DropOut :: u64
  nic_BytesSentBps :: u64
  nic_BytesRecvBps :: u64

text \<open>What the library reports of an interface, and of its counters.\<close>

record iface_stat =
  is_Name :: string
  is_HardwareAddr :: string
  is_MTU :: int
  is_Flags :: "string list"
  is_Addrs :: "string list"

record io_stat =
  io_Name :: string
  io_BytesSent :: u64
  io_BytesRecv :: u64
  io_PacketsSent :: u64
  io_PacketsRecv :: u64
  io_Errin :: u64
  io_Errout :: u64
  io_Dropin :: u64
  io_Dropout :: u64

definition contains_fold :: "string list \<Rightarrow> string \<Rightarrow> bool" where
  "contains_fold haystack needle \<longleftrightarrow> list_ex (\<lambda>h. equal_fold h needle) haystack"

definition counter_map :: "io_stat list \<Rightarrow> (string \<rightharpoonup> io_stat)" where
  "counter_map cs = fold (\<lambda>c m. m(io_Name c \<mapsto> c)) cs (\<lambda>_. None)"

definition collect_nic ::
    "(f64 \<Rightarrow> u64) \<Rightarrow> (string \<Rightarrow> string) \<Rightarrow> int \<Rightarrow> (string \<rightharpoonup> io_stat) \<Rightarrow> iface_stat \<Rightarrow>
     NIC list \<times> string set \<times> nicTracker \<Rightarrow> NIC list \<times> string set \<times> nicTracker" where
  "collect_nic oor os now cmap iface acc =
     (case acc of (nics, seen, prev) \<Rightarrow>
        if is_Name iface = [] then acc
        else let n = \<lparr>nic_Name = is_Name iface, nic_MAC = is_HardwareAddr iface, nic_MTU = is_MTU iface,
                      nic_Up = contains_fold (is_Flags iface) ''up'', nic_Kind = classifyNIC os (is_Name iface),
                      nic_Addresses = is_Addrs iface, nic_BytesSent = 0, nic_BytesRecv = 0,
                      nic_PktsSent = 0, nic_PktsRecv = 0, nic_ErrIn = 0, nic_ErrOut = 0, nic_DropIn = 0, nic_DropOut = 0,
                      nic_BytesSentBps = 0, nic_BytesRecvBps = 0\<rparr>
             in case cmap (is_Name iface) of
                  None \<Rightarrow> (nics @ [n], seen, prev)
                | Some c \<Rightarrow>
                    (case nic_recordAndDelta oor (is_Name iface)
                            \<lparr>nc_bytesSent = io_BytesSent c, nc_bytesRecv = io_BytesRecv c, nc_at = now\<rparr> prev of
                       ((s, r), prev') \<Rightarrow>
                         (nics @ [n\<lparr>nic_BytesSent := io_BytesSent c, nic_BytesRecv := io_BytesRecv c,
                                    nic_PktsSent := io_PacketsSent c, nic_PktsRecv := io_PacketsRecv c,
                                    nic_ErrIn := io_Errin c, nic_ErrOut := io_Errout c, nic_DropIn := io_Dropin c, nic_DropOut := io_Dropout c,
                                    nic_BytesSentBps := s, nic_BytesRecvBps := r\<rparr>],
                          insert (is_Name iface) seen, prev')))"

definition collectNICs ::
    "(f64 \<Rightarrow> u64) \<Rightarrow> (string \<Rightarrow> string) \<Rightarrow> int \<Rightarrow> iface_stat list option \<Rightarrow> io_stat list \<Rightarrow> nicTracker \<Rightarrow> NIC list \<times> nicTracker" where
  "collectNICs oor os now ifaces counters prev =
     (case ifaces of
        None \<Rightarrow> ([], prev)
      | Some is \<Rightarrow> (case fold (collect_nic oor os now (counter_map counters)) is ([], {}, prev) of
                       (nics, seen, prev') \<Rightarrow> (nics, reapMissing seen prev')))"

subsection \<open>Helpers of the process table\<close>

definition niceToPriority :: "int \<Rightarrow> string" where
  "niceToPriority nice =
     (if nice \<le> -10 then ''High'' else if nice < 0 then ''Above normal'' else if nice = 0 then ''Normal''
      else if nice < 10 then ''Below normal'' else ''Low'')"

definition trimMiddle :: "string \<Rightarrow> nat \<Rightarrow> string" where
  "trimMiddle s most =
     (if length s \<le> most then s
      else let keep = (most - 3) div 2 in take keep s @ ''...'' @ drop (length s - keep) s)"

lemma trimMiddle_length: "5 \<le> most \<Longrightarrow> length (trimMiddle s most) \<le> most"
  by (simp add: trimMiddle_def Let_def) presburger

lemma classifyNICName_kinds: "classifyNICName name \<in> {''loopback'', ''wireless'', ''virtual'', ''wired''}"
  by (simp add: classifyNICName_def Let_def)

subsection \<open>What a rate is taken against\<close>

text \<open>The calls on a tracker, the last one first, and the sample a key has after them: the last one recorded that no later
  sweep without the key has dropped.\<close>

datatype ('k, 'c) track_op = Recorded 'k 'c | Reaped "'k set"

fun last_sample :: "'k \<Rightarrow> ('k, 'c) track_op list \<Rightarrow> 'c option" where
  "last_sample k [] = None"
| "last_sample k (Recorded k' c # h) = (if k = k' then Some c else last_sample k h)"
| "last_sample k (Reaped seen # h) = (if k \<in> seen then last_sample k h else None)"

fun nic_track :: "(f64 \<Rightarrow> u64) \<Rightarrow> (string, nicCounters) track_op list \<Rightarrow> nicTracker" where
  "nic_track oor [] = (\<lambda>_. None)"
| "nic_track oor (Recorded k c # h) = snd (nic_recordAndDelta oor k c (nic_track oor h))"
| "nic_track oor (Reaped seen # h) = reapMissing seen (nic_track oor h)"

fun proc_track :: "(f64 \<Rightarrow> u64) \<Rightarrow> (procKey, procCounters) track_op list \<Rightarrow> procTracker" where
  "proc_track oor [] = (\<lambda>_. None)"
| "proc_track oor (Recorded k c # h) = snd (proc_recordAndDelta oor k c (proc_track oor h))"
| "proc_track oor (Reaped seen # h) = reapMissing seen (proc_track oor h)"

text \<open>A tracker as its callers see it: recording replaces one key, a sweep drops keys, and the answer depends on the old
  sample of the key alone.\<close>

locale tracker =
  fixes keep :: "'k \<Rightarrow> 'c \<Rightarrow> ('k \<rightharpoonup> 'c) \<Rightarrow> 'r \<times> ('k \<rightharpoonup> 'c)" and answer_from :: "'c option \<Rightarrow> 'c \<Rightarrow> 'r"
  assumes keep_eq: "keep k c prev = (answer_from (prev k) c, prev(k \<mapsto> c))"
begin

lemma recorded_at: "snd (keep k c prev) k = Some c"
  by (simp add: keep_eq)

lemma recorded_elsewhere: "k' \<noteq> k \<Longrightarrow> snd (keep k c prev) k' = prev k'"
  by (simp add: keep_eq)

lemma track_last_sample:
  assumes "run [] = (\<lambda>_. None)" "\<And>k c h. run (Recorded k c # h) = snd (keep k c (run h))"
    and "\<And>seen h. run (Reaped seen # h) = reapMissing seen (run h)"
  shows "run hist k = last_sample k hist"
proof (induction hist)
  case Nil
  then show ?case by (simp add: assms)
next
  case (Cons e hist)
  then show ?case by (cases e) (simp_all add: assms keep_eq reapMissing_def restrict_map_def)
qed

end

definition against :: "('c \<Rightarrow> int) \<Rightarrow> (f64 \<Rightarrow> 'c \<Rightarrow> 'c \<Rightarrow> 'r) \<Rightarrow> 'r \<Rightarrow> 'c option \<Rightarrow> 'c \<Rightarrow> 'r" where
  "against at_of rates zero p now =
     (case p of None \<Rightarrow> zero
      | Some q \<Rightarrow> if f64_le (duration_seconds (time_sub (at_of now) (at_of q))) (Fin (1 / 2)) then zero
                  else rates (duration_seconds (time_sub (at_of now) (at_of q))) now q)"

interpretation nics: tracker "nic_recordAndDelta oor" "against nc_at (nic_rates oor) (0, 0)"
  by unfold_locales (simp add: nic_recordAndDelta_def record_and_rate_def against_def Let_def split: option.split)

interpretation procs: tracker "proc_recordAndDelta oor" "against pc_at (proc_rates oor) (0, 0, 0, 0)"
  by unfold_locales (simp add: proc_recordAndDelta_def record_and_rate_def against_def Let_def split: option.split)

text \<open>Over a whole number of seconds the rate of a counter that did not go back is the quotient or one more.\<close>

lemma rate_accuracy:
  assumes "b \<le> a" "uint (a - b) \<le> 2 ^ 53" "0 < n"
  shows "uint (rate oor (Fin (of_int n)) a b) \<in> {uint (a - b) div n, uint (a - b) div n + 1}"
proof -
  define d where "d = uint (a - b)"
  have d: "0 \<le> d" "d \<le> 2 ^ 53" using assms(2) by (simp_all add: d_def)
  define k where "k = d div n"
  have "d = k * n + d mod n" by (simp add: k_def)
  moreover have "0 \<le> d mod n" "d mod n < n" using assms(3) by simp_all
  ultimately have k: "k * n \<le> d" "d \<le> (k + 1) * n" by (simp_all add: algebra_simps)
  have k0: "0 \<le> k" using d assms(3) by (simp add: k_def pos_imp_zdiv_nonneg_iff)
  have "k * 1 \<le> k * n" using k0 assms(3) by (intro mult_left_mono) simp_all
  then have k53: "0 \<le> k" "k \<le> 2 ^ 53" using k(1) d(2) k0 by simp_all
  define q where "q = (of_int d / of_int n :: rat)"
  have "(of_int (k * n) :: rat) \<le> of_int d" "(of_int d :: rat) \<le> of_int ((k + 1) * n)" using k by (simp_all only: of_int_le_iff)
  then have q: "of_int k \<le> q" "q \<le> of_int (k + 1)" using assms(3) by (simp_all add: q_def field_simps)
  have q0: "0 \<le> q" using d(1) assms(3) by (simp add: q_def)
  have "q \<le> of_int d" using assms(3) d(1) by (simp add: q_def divide_le_eq mult_le_cancel_left1)
  moreover have "(of_int d :: rat) \<le> of_int (2 ^ 53)" using d(2) by (simp only: of_int_le_iff)
  ultimately have q53: "q \<le> of_int (2 ^ 53)" by linarith
  have f: "f64_div (f64_of_int d) (Fin (of_int n)) = Fin (round_rat q)"
    using small_finite [of q "2 ^ 53"] q0 q53 assms(3) d f64_of_int_exact [of d] by (simp add: q_def)
  have r: "of_int k \<le> round_rat q" using q(1) k53 by (intro b64.rnd_ge_int) simp_all
  have r53: "round_rat q \<le> of_int (2 ^ 53)" using q53 by (intro b64.rnd_le_int) simp_all
  have r1: "round_rat q \<le> of_int (k + 1)"
  proof (cases "k = 2 ^ 53")
    case True
    then show ?thesis using r53 by simp
  next
    case False
    then show ?thesis using q(2) k53 by (intro b64.rnd_le_int) simp_all
  qed
  define m where "m = \<lfloor>round_rat q\<rfloor>"
  have m: "k \<le> m" "m \<le> k + 1" using r r1 by (simp_all add: m_def le_floor_iff floor_le_iff)
  have "0 \<le> round_rat q" using r k53(1) by (metis of_int_0_le_iff order_trans)
  moreover have "round_rat q < 2 ^ 64" using r53 by simp
  ultimately have "rate oor (Fin (of_int n)) a b = word_of_int m"
    using f leD [OF assms(1)] by (simp add: rate_def d_def [symmetric] m_def)
  moreover have "uint (word_of_int m :: u64) = m" using m k53 by (simp add: uint_word_of_int)
  ultimately show ?thesis using m by (auto simp: d_def [symmetric] k_def [symmetric])
qed

text \<open>Whatever was recorded and swept before, the rates of an adapter are those against its own last sample that was
  not swept away, and none when there is no such sample or it is at most half a second old.\<close>

theorem rates_use_last_sample:
  "fst (nic_recordAndDelta oor k c (nic_track oor hist)) = against nc_at (nic_rates oor) (0, 0) (last_sample k hist) c \<and>
   nic_track oor hist k = last_sample k hist"
  using nics.track_last_sample [where run = "nic_track oor" and oor = oor and k = k and hist = hist]
  by (simp add: nics.keep_eq)

text \<open>The same for processes.\<close>

theorem process_rates_use_last_sample:
  "fst (proc_recordAndDelta oor k c (proc_track oor hist)) = against pc_at (proc_rates oor) (0, 0, 0, 0) (last_sample k hist) c"
  using procs.track_last_sample [where run = "proc_track oor" and oor = oor and k = k and hist = hist]
  by (simp add: procs.keep_eq)

text \<open>After a sweep the tracker holds nothing but the adapters of the last snapshot.\<close>

theorem tracker_memory_bounded:
  "dom (snd (collectNICs oor os now (Some ifaces) counters prev)) \<subseteq> is_Name ` set ifaces"
proof -
  have f: "fst (snd (fold (collect_nic oor os now cmap) ifs (nics, seen, prev))) \<subseteq> seen \<union> is_Name ` set ifs" for cmap ifs nics seen prev
  proof (induction ifs arbitrary: nics seen prev)
    case (Cons i ifs)
    obtain nics' seen' prev' where c: "collect_nic oor os now cmap i (nics, seen, prev) = (nics', seen', prev')" by (metis prod_cases3)
    then have "seen' \<subseteq> insert (is_Name i) seen"
      by (auto simp: collect_nic_def Let_def split: option.splits prod.splits if_splits)
    then show ?case using Cons.IH [of nics' seen' prev'] c by auto
  qed simp
  obtain nics seen prev' where c: "fold (collect_nic oor os now (counter_map counters)) ifaces ([], {}, prev) = (nics, seen, prev')"
    by (metis prod_cases3)
  then have "seen \<subseteq> is_Name ` set ifaces" using f [of "counter_map counters" ifaces "[]" "{}" prev] by simp
  then show ?thesis using c by (auto simp: collectNICs_def reapMissing_def)
qed

end
