(* ===== verification/Probe_Sockets.thy ===== *)
theory Probe_Sockets
  imports Sonar_Prelude "HOL-Library.List_Lexorder" "HOL-Library.Char_ord" "HOL-Library.Product_Lexorder"
begin

text \<open>
  The sockets of a snapshot (\<open>collectSockets\<close> in \<open>internal/probe/snapshot.go\<close>): what the host listens on and whom it
  talks to, and the reverse DNS of the peers (\<open>internal/probe/dnscache.go\<close>) with its pool of lookups.
\<close>

subsection \<open>Sockets\<close>

text \<open>A row of the library's connection table.\<close>

record sock =
  sk_Type :: int
  sk_Status :: string
  sk_LaddrIP :: string
  sk_LaddrPort :: int
  sk_RaddrIP :: string
  sk_RaddrPort :: int
  sk_Pid :: int

record Listener =
  ln_Proto :: string
  ln_Address :: string
  ln_Port :: int
  ln_PID :: int
  ln_ProcessName :: string

record Conversation =
  cv_Proto :: string
  cv_Direction :: string
  cv_RemoteIP :: string
  cv_RemoteHost :: string
  cv_RemotePort :: int
  cv_LocalIP :: string
  cv_LocalPort :: int
  cv_State :: string
  cv_PID :: int
  cv_ProcessName :: string
  cv_Count :: nat

record convKey =
  ck_proto :: string
  ck_direction :: string
  ck_remoteIP :: string
  ck_remotePort :: int
  ck_localPort :: int
  ck_processName :: string

definition isLoopbackIP :: "string \<Rightarrow> bool" where
  "isLoopbackIP ip \<longleftrightarrow> ip \<noteq> [] \<and> (has_prefix ip ''127.'' \<or> ip = ''::1'')"

definition sock_proto :: "sock \<Rightarrow> string" where
  "sock_proto c = (if sk_Type c = 2 then ''udp'' else ''tcp'')"

definition sock_state :: "sock \<Rightarrow> string" where
  "sock_state c = to_upper (sk_Status c)"

definition listening :: "sock \<Rightarrow> bool" where
  "listening c \<longleftrightarrow> sock_state c = ''LISTEN'' \<or> sock_state c = ''NONE''"

definition active_states :: "string list" where
  "active_states = [''ESTABLISHED'', ''CLOSE_WAIT'', ''FIN_WAIT1'', ''FIN_WAIT2'', ''CLOSING'', ''LAST_ACK'']"

definition talking :: "sock \<Rightarrow> bool" where
  "talking c \<longleftrightarrow> \<not> listening c \<and> sock_state c \<in> set active_states \<and> sk_RaddrIP c \<noteq> [] \<and> sk_RaddrPort c \<noteq> 0 \<and>
     \<not> isLoopbackIP (sk_RaddrIP c)"

text \<open>\<open>pname\<close> is the name of a process, empty when it cannot be found.\<close>

definition resolvePidName :: "(int \<Rightarrow> string) \<Rightarrow> int \<Rightarrow> string" where
  "resolvePidName pname pid = (if pid = 0 then [] else pname pid)"

definition listener_row :: "(int \<Rightarrow> string) \<Rightarrow> sock \<Rightarrow> Listener" where
  "listener_row pname c =
     \<lparr>ln_Proto = sock_proto c, ln_Address = sk_LaddrIP c, ln_Port = sk_LaddrPort c, ln_PID = sk_Pid c,
      ln_ProcessName = resolvePidName pname (sk_Pid c)\<rparr>"

definition direction_of :: "(string \<times> int) set \<Rightarrow> sock \<Rightarrow> string" where
  "direction_of ours c = (if (sock_proto c, sk_LaddrPort c) \<in> ours then ''inbound'' else ''outbound'')"

definition conv_key :: "(int \<Rightarrow> string) \<Rightarrow> (string \<times> int) set \<Rightarrow> sock \<Rightarrow> convKey" where
  "conv_key pname ours c =
     \<lparr>ck_proto = sock_proto c, ck_direction = direction_of ours c, ck_remoteIP = sk_RaddrIP c, ck_remotePort = sk_RaddrPort c,
      ck_localPort = sk_LaddrPort c, ck_processName = resolvePidName pname (sk_Pid c)\<rparr>"

definition new_conversation :: "convKey \<Rightarrow> sock \<Rightarrow> Conversation" where
  "new_conversation k c =
     \<lparr>cv_Proto = ck_proto k, cv_Direction = ck_direction k, cv_RemoteIP = ck_remoteIP k, cv_RemoteHost = [],
      cv_RemotePort = ck_remotePort k, cv_LocalIP = sk_LaddrIP c, cv_LocalPort = ck_localPort k, cv_State = sock_state c,
      cv_PID = sk_Pid c, cv_ProcessName = ck_processName k, cv_Count = 1\<rparr>"

definition bump :: "string \<Rightarrow> Conversation \<Rightarrow> Conversation" where
  "bump state v = (let v1 = v\<lparr>cv_Count := Suc (cv_Count v)\<rparr> in if state = ''ESTABLISHED'' then v1\<lparr>cv_State := state\<rparr> else v1)"

type_synonym sock_acc = "Listener list \<times> (string \<times> int) set \<times> (convKey \<rightharpoonup> Conversation)"

text \<open>The body of the loop over the connections.\<close>

definition sock_step :: "(int \<Rightarrow> string) \<Rightarrow> sock \<Rightarrow> sock_acc \<Rightarrow> sock_acc" where
  "sock_step pname c acc =
     (case acc of (ls, ours, agg) \<Rightarrow>
        if listening c then (ls @ [listener_row pname c], insert (sock_proto c, sk_LaddrPort c) ours, agg)
        else if \<not> talking c then acc
        else let k = conv_key pname ours c in
          (ls, ours, agg(k \<mapsto> (case agg k of Some v \<Rightarrow> bump (sock_state c) v | None \<Rightarrow> new_conversation k c))))"

definition pid_conns :: "sock list \<Rightarrow> int \<Rightarrow> nat" where
  "pid_conns conns pid = (if pid = 0 then 0 else length (filter (\<lambda>c. sk_Pid c = pid) conns))"

definition conv_order :: "Conversation \<Rightarrow> int \<times> int \<times> string" where
  "conv_order v = (- int (cv_Count v), cv_RemotePort v, cv_RemoteIP v)"

definition name_hosts :: "(string list \<Rightarrow> (string \<rightharpoonup> string)) \<Rightarrow> Conversation list \<Rightarrow> Conversation list" where
  "name_hosts resolve vs =
     (if vs = [] then []
      else let names = resolve (rev (remdups (rev (map cv_RemoteIP vs))))
           in map (\<lambda>v. case names (cv_RemoteIP v) of None \<Rightarrow> v | Some n \<Rightarrow> v\<lparr>cv_RemoteHost := n\<rparr>) vs)"

text \<open>\<open>order\<close> and \<open>order_ls\<close> are the orders the sorts find their rows in: the iteration of the map, and the freedom of
  \<open>sort.Slice\<close> among equal rows.\<close>

definition collectSockets ::
    "(int \<Rightarrow> string) \<Rightarrow> ((convKey \<rightharpoonup> Conversation) \<Rightarrow> Conversation list) \<Rightarrow> (Listener list \<Rightarrow> Listener list) \<Rightarrow>
     (string list \<Rightarrow> (string \<rightharpoonup> string)) \<Rightarrow> sock list \<Rightarrow> Listener list \<times> Conversation list" where
  "collectSockets pname order order_ls resolve conns =
     (case fold (sock_step pname) conns ([], {}, \<lambda>_. None) of
        (ls, ours, agg) \<Rightarrow>
          (sort_key (\<lambda>l. (ln_Proto l, ln_Port l)) (order_ls ls),
           name_hosts resolve (take 200 (sort_key conv_order (order agg)))))"

subsection \<open>Rows count sockets\<close>

text \<open>The keys under which the loop files the sockets that talk, in order; the direction is judged by the listeners before.\<close>

fun filed :: "(int \<Rightarrow> string) \<Rightarrow> (string \<times> int) set \<Rightarrow> sock list \<Rightarrow> convKey list" where
  "filed pname ours [] = []"
| "filed pname ours (c # cs) =
     (if listening c then filed pname (insert (sock_proto c, sk_LaddrPort c) ours) cs
      else if talking c then conv_key pname ours c # filed pname ours cs else filed pname ours cs)"

definition key_of :: "Conversation \<Rightarrow> convKey" where
  "key_of v = \<lparr>ck_proto = cv_Proto v, ck_direction = cv_Direction v, ck_remoteIP = cv_RemoteIP v, ck_remotePort = cv_RemotePort v,
     ck_localPort = cv_LocalPort v, ck_processName = cv_ProcessName v\<rparr>"

lemma key_of_simps [simp]: "key_of (new_conversation k c) = k" "key_of (bump s v) = key_of v"
  "key_of (v\<lparr>cv_RemoteHost := h\<rparr>) = key_of v"
  by (simp_all add: key_of_def new_conversation_def bump_def Let_def)

lemma count_simps [simp]: "cv_Count (new_conversation k c) = 1" "cv_Count (bump s v) = Suc (cv_Count v)"
  by (simp_all add: new_conversation_def bump_def Let_def)

definition agg_counts :: "convKey list \<Rightarrow> (convKey \<rightharpoonup> Conversation) \<Rightarrow> bool" where
  "agg_counts ks agg \<longleftrightarrow> (\<forall>k. case agg k of None \<Rightarrow> k \<notin> set ks | Some v \<Rightarrow> key_of v = k \<and> cv_Count v = count_list ks k \<and> k \<in> set ks)"

lemma agg_counts_put:
  assumes "agg_counts ks agg"
  shows "agg_counts (ks @ [k]) (agg(k \<mapsto> (case agg k of Some v \<Rightarrow> bump st v | None \<Rightarrow> new_conversation k c)))"
  unfolding agg_counts_def
proof (rule allI)
  fix j
  have a: "case agg j of None \<Rightarrow> j \<notin> set ks | Some v \<Rightarrow> key_of v = j \<and> cv_Count v = count_list ks j \<and> j \<in> set ks"
    using assms by (simp add: agg_counts_def)
  show "case (agg(k \<mapsto> (case agg k of Some v \<Rightarrow> bump st v | None \<Rightarrow> new_conversation k c))) j of None \<Rightarrow> j \<notin> set (ks @ [k])
      | Some v \<Rightarrow> key_of v = j \<and> cv_Count v = count_list (ks @ [k]) j \<and> j \<in> set (ks @ [k])"
  proof (cases "j = k")
    case True
    then show ?thesis using a by (cases "agg k") (simp_all add: count_notin)
  next
    case False
    then show ?thesis using a by (cases "agg j") simp_all
  qed
qed

lemma sock_step_simps:
  "listening c \<Longrightarrow> sock_step pname c (ls, ours, agg) = (ls @ [listener_row pname c], insert (sock_proto c, sk_LaddrPort c) ours, agg)"
  "\<not> talking c \<Longrightarrow> \<not> listening c \<Longrightarrow> sock_step pname c (ls, ours, agg) = (ls, ours, agg)"
  "talking c \<Longrightarrow> \<not> listening c \<Longrightarrow> sock_step pname c (ls, ours, agg) =
     (ls, ours, agg(conv_key pname ours c \<mapsto> (case agg (conv_key pname ours c) of Some v \<Rightarrow> bump (sock_state c) v
        | None \<Rightarrow> new_conversation (conv_key pname ours c) c)))"
  by (simp_all add: sock_step_def Let_def)

lemma sock_fold:
  assumes "agg_counts done agg"
  shows "\<exists>ls' ours' agg'. fold (sock_step pname) conns (ls, ours, agg) = (ls', ours', agg') \<and>
    agg_counts (done @ filed pname ours conns) agg'"
  using assms
proof (induction conns arbitrary: ls ours agg "done")
  case Nil
  then show ?case by simp
next
  case (Cons c conns)
  let ?k = "conv_key pname ours c"
  show ?case
  proof (cases "\<not> listening c \<and> talking c")
    case True
    let ?agg = "agg(?k \<mapsto> (case agg ?k of Some v \<Rightarrow> bump (sock_state c) v | None \<Rightarrow> new_conversation ?k c))"
    have "agg_counts (done @ [?k]) ?agg" using Cons.prems by (rule agg_counts_put)
    note ih = Cons.IH [OF this, of ls ours]
    have "fold (sock_step pname) (c # conns) (ls, ours, agg) = fold (sock_step pname) conns (ls, ours, ?agg)"
      using True by (simp only: fold_simps sock_step_simps(3) simp_thms)
    moreover have "filed pname ours (c # conns) = ?k # filed pname ours conns" using True by simp
    ultimately show ?thesis using ih by (simp only: append_assoc append_Cons append_Nil)
  next
    case False
    then show ?thesis using Cons.IH [OF Cons.prems] by (cases "listening c") (simp_all add: sock_step_simps)
  qed
qed

lemma filed_length: "length (filed pname ours conns) = length (filter talking conns)"
  by (induction pname ours conns rule: filed.induct) (auto simp: talking_def)

text \<open>The rows of the aggregation in some order; \<open>order\<close> is a way to list a map.\<close>

definition lists_map :: "((convKey \<rightharpoonup> Conversation) \<Rightarrow> Conversation list) \<Rightarrow> (convKey \<rightharpoonup> Conversation) \<Rightarrow> bool" where
  "lists_map order m \<longleftrightarrow> set (order m) = ran m \<and> length (order m) = card (dom m)"

definition sock_table :: "(int \<Rightarrow> string) \<Rightarrow> sock list \<Rightarrow> (convKey \<rightharpoonup> Conversation)" where
  "sock_table pname conns = snd (snd (fold (sock_step pname) conns ([], {}, \<lambda>_. None)))"

lemma name_hosts_rows:
  obtains f where "name_hosts resolve vs = map f vs" "\<And>v. key_of (f v) = key_of v" "\<And>v. cv_Count (f v) = cv_Count v"
proof (cases "vs = []")
  case True
  then show ?thesis using that [of "\<lambda>v. v"] by (simp add: name_hosts_def)
next
  case False
  define names where "names = resolve (rev (remdups (rev (map cv_RemoteIP vs))))"
  show ?thesis
    by (rule that [of "\<lambda>v. case names (cv_RemoteIP v) of None \<Rightarrow> v | Some n \<Rightarrow> v\<lparr>cv_RemoteHost := n\<rparr>"])
      (simp_all add: name_hosts_def False names_def Let_def split: option.split)
qed

text \<open>Each conversation of a snapshot counts the sockets that talk under its key, at most 200 conversations are shown,
  and when there are no more keys than that every socket that talks is counted by exactly one row: the counts add up
  to the number of talking sockets.\<close>

theorem conversations_count:
  assumes "lists_map order (sock_table pname conns)"
    and "collectSockets pname order order_ls resolve conns = (ls, convs)"
  defines "ks \<equiv> filed pname {} conns"
  shows "(\<forall>v \<in> set convs. cv_Count v = count_list ks (key_of v)) \<and> length convs \<le> 200 \<and>
    (card (set ks) \<le> 200 \<longrightarrow> key_of ` set convs = set ks \<and> length convs = card (set ks) \<and>
       sum_list (map cv_Count convs) = length (filter talking conns))"
proof -
  obtain ls' ours agg where f: "fold (sock_step pname) conns ([], {}, \<lambda>_. None) = (ls', ours, agg)" and a: "agg_counts ks agg"
    using sock_fold [of "[]" "\<lambda>_. None" pname conns "[]" "{}"] by (auto simp: agg_counts_def ks_def)
  have row: "key_of v = k \<and> cv_Count v = count_list ks k \<and> k \<in> set ks" if "agg k = Some v" for k v
    using a [unfolded agg_counts_def, THEN spec, of k] that by simp
  have dom: "dom agg = set ks"
  proof (intro set_eqI iffI)
    fix k show "k \<in> dom agg \<Longrightarrow> k \<in> set ks" using row by blast
    show "k \<in> set ks \<Longrightarrow> k \<in> dom agg" using a [unfolded agg_counts_def, THEN spec, of k] by (auto split: option.splits)
  qed
  have o: "set (order agg) = ran agg" "length (order agg) = card (set ks)"
    using assms(1) dom f by (auto simp: lists_map_def sock_table_def)
  let ?all = "sort_key conv_order (order agg)"
  have c: "convs = name_hosts resolve (take 200 ?all)" using assms(2) f by (simp add: collectSockets_def)
  obtain f where n: "convs = map f (take 200 ?all)" "\<And>v. key_of (f v) = key_of v" "\<And>v. cv_Count (f v) = cv_Count v"
    unfolding c by (rule name_hosts_rows [of resolve "take 200 ?all"]) blast
  have shown: "cv_Count v = count_list ks (key_of v)" if v: "v \<in> set convs" for v
  proof -
    obtain w where w: "w \<in> set (take 200 ?all)" "v = f w" using v n(1) by auto
    then have "w \<in> ran agg" using set_take_subset [of 200 ?all] o(1) by auto
    then obtain k where "agg k = Some w" by (auto simp: ran_def)
    from row [OF this] w(2) n show ?thesis by simp
  qed
  have len: "length convs = min 200 (card (set ks))" using n(1) o(2) by simp
  have full: "key_of ` set convs = set ks \<and> length convs = card (set ks) \<and> sum_list (map cv_Count convs) = length (filter talking conns)"
    if "card (set ks) \<le> 200"
  proof -
    have t: "take 200 ?all = ?all" using that o(2) by simp
    have keys: "key_of ` set convs = key_of ` ran agg" using n t o(1) by (simp add: image_image)
    have "key_of ` ran agg = set ks"
    proof
      show "key_of ` ran agg \<subseteq> set ks" using row by (auto simp: ran_def)
      show "set ks \<subseteq> key_of ` ran agg"
      proof
        fix k assume "k \<in> set ks"
        then obtain v where "agg k = Some v" using dom by blast
        then show "k \<in> key_of ` ran agg" using row [of k v] by (force simp: ran_def)
      qed
    qed
    then have ks: "key_of ` set convs = set ks" using keys by simp
    moreover have l: "length convs = card (set ks)" using len that by simp
    moreover have d: "distinct (map key_of convs)" using ks l by (metis card_distinct length_map set_map)
    moreover have "sum_list (map cv_Count convs) = (\<Sum>k \<in> set ks. count_list ks k)"
    proof -
      have "map cv_Count convs = map (count_list ks) (map key_of convs)" using shown by simp
      then have "sum_list (map cv_Count convs) = sum_list (map (count_list ks) (map key_of convs))" by (rule arg_cong)
      also have "\<dots> = (\<Sum>k \<in> set (map key_of convs). count_list ks k)" using d by (rule sum_list_distinct_conv_sum_set)
      finally show ?thesis using ks by simp
    qed
    ultimately show ?thesis by (simp add: sum_count_set ks_def filed_length)
  qed
  show ?thesis using shown len full by auto
qed

subsection \<open>What the counts miss\<close>

definition demo_sock :: "int \<Rightarrow> sock" where
  "demo_sock port = \<lparr>sk_Type = 1, sk_Status = ''ESTABLISHED'', sk_LaddrIP = ''10.0.0.5'', sk_LaddrPort = port,
     sk_RaddrIP = ''10.0.0.9'', sk_RaddrPort = 443, sk_Pid = 7\<rparr>"

definition demo_listener :: "int \<Rightarrow> sock" where
  "demo_listener port = (demo_sock port)\<lparr>sk_Status := ''LISTEN'', sk_RaddrIP := [], sk_RaddrPort := 0\<rparr>"

lemma demo_states: "sock_state (demo_sock p) = ''ESTABLISHED''" "sock_state (demo_listener p) = ''LISTEN''"
  by (simp_all add: sock_state_def demo_sock_def demo_listener_def to_upper_def upper_char_def char_code_def)

text \<open>The comment wants the sockets of a process to one peer in one row. The local port is part of the key for outbound
  sockets too, so that sockets with ports of their own are never counted together.\<close>

theorem outbound_never_collapses:
  assumes "conv_key pname ours c = conv_key pname ours' d"
  shows "sk_LaddrPort c = sk_LaddrPort d"
  using assms by (simp add: conv_key_def)

text \<open>Direction is judged by the listeners seen so far: the same two sockets are inbound or outbound by their order.\<close>

theorem direction_depends_on_order:
  "map ck_direction (filed pname {} [demo_listener 443, demo_sock 443]) = [''inbound''] \<and>
   map ck_direction (filed pname {} [demo_sock 443, demo_listener 443]) = [''outbound'']"
  by (simp add: talking_def listening_def demo_states active_states_def conv_key_def direction_of_def sock_proto_def
      isLoopbackIP_def has_prefix_def)
    (simp add: demo_sock_def demo_listener_def has_prefix_def)

definition demo_key :: convKey where
  "demo_key = conv_key (\<lambda>_. ''sshd'') {} (demo_sock 22)"

theorem conversations_count_witness:
  "\<exists>v. snd (collectSockets (\<lambda>_. ''sshd'') (\<lambda>m. [the (m demo_key)]) (\<lambda>ls. ls) (\<lambda>_ _. None) [demo_sock 22, demo_sock 22]) = [v] \<and>
     cv_Count v = 2"
proof -
  let ?cs = "[demo_sock 22, demo_sock 22]" and ?order = "\<lambda>m. [the (m demo_key)]"
  have t: "talking (demo_sock 22)" "\<not> listening (demo_sock 22)"
    by (simp_all add: talking_def listening_def demo_states active_states_def isLoopbackIP_def)
      (simp_all add: demo_sock_def has_prefix_def)
  have table: "sock_table (\<lambda>_. ''sshd'') ?cs = [demo_key \<mapsto> bump ''ESTABLISHED'' (new_conversation demo_key (demo_sock 22))]"
    using t by (simp add: sock_table_def sock_step_simps demo_key_def [symmetric] demo_states)
  then have l: "lists_map ?order (sock_table (\<lambda>_. ''sshd'') ?cs)" by (simp add: lists_map_def)
  have f: "filed (\<lambda>_. ''sshd'') {} ?cs = [demo_key, demo_key]" using t by (simp add: demo_key_def)
  obtain ls convs where c: "collectSockets (\<lambda>_. ''sshd'') ?order (\<lambda>ls. ls) (\<lambda>_ _. None) ?cs = (ls, convs)"
    by (cases "collectSockets (\<lambda>_. ''sshd'') ?order (\<lambda>ls. ls) (\<lambda>_ _. None) ?cs")
  from conversations_count [OF l c] f have "key_of ` set convs = {demo_key}" "length convs = 1"
      "\<forall>v \<in> set convs. cv_Count v = count_list [demo_key, demo_key] (key_of v)" by simp_all
  then show ?thesis using c by (cases convs) auto
qed

end
