(* ===== verification/Probe_Dns.thy ===== *)
theory Probe_Dns
  imports Sonar_Prelude
begin

text \<open>
  The reverse-DNS cache of the probe and its pool of lookups (\<open>internal/probe/dnscache.go\<close>). The goroutines of
  \<open>resolveBatch\<close> are steps of one relation: the feeding loop, the deadline, and the lookups that run, in any order.
  Instants are nanoseconds.
\<close>

subsection \<open>The cache\<close>

definition dnsPositiveTTL :: int where "dnsPositiveTTL = 3600 * 1000000000"
definition dnsNegativeTTL :: int where "dnsNegativeTTL = 5 * 60 * 1000000000"
definition dnsParallel :: nat where "dnsParallel = 8"

record dnsRec =
  dr_name :: string
  dr_until :: int

type_synonym dns_cache = "string \<rightharpoonup> dnsRec"

text \<open>\<open>None\<close> is a miss; a hit with the empty name says that there is no PTR record.\<close>

definition dnsCachedName :: "int \<Rightarrow> dns_cache \<Rightarrow> string \<Rightarrow> string option" where
  "dnsCachedName now cache ip =
     (case cache ip of None \<Rightarrow> None | Some r \<Rightarrow> if dr_until r < now then None else Some (dr_name r))"

definition dnsStore :: "int \<Rightarrow> string \<Rightarrow> string \<Rightarrow> dns_cache \<Rightarrow> dns_cache" where
  "dnsStore now ip name cache =
     cache(ip \<mapsto> \<lparr>dr_name = name, dr_until = now + (if name = [] then dnsNegativeTTL else dnsPositiveTTL)\<rparr>)"

theorem stored_name_cached:
  "dnsCachedName later (dnsStore now ip name cache) ip =
     (if later \<le> now + (if name = [] then dnsNegativeTTL else dnsPositiveTTL) then Some name else None)"
  "ip' \<noteq> ip \<Longrightarrow> dnsCachedName later (dnsStore now ip name cache) ip' = dnsCachedName later cache ip'"
  by (simp_all add: dnsCachedName_def dnsStore_def)

subsection \<open>A batch\<close>

text \<open>What a lookup that answered \<open>names\<close> leaves, \<open>None\<close> for an error: the first name without its final dot.\<close>

definition looked_up :: "string list option \<Rightarrow> string" where
  "looked_up names = (case names of Some (n # _) \<Rightarrow> trim_suffix n ''.'' | _ \<Rightarrow> [])"

text \<open>Where the goroutine of a lookup stands: in the resolver, before \<open>dnsStore\<close>, before the write to the map, before it
  frees its place in the semaphore, before it leaves the wait group.\<close>

datatype lookup_point = AtResolver | AtStore string | AtWrite string | AtRelease | AtLeave

text \<open>\<open>GaveUp\<close> is the return at the deadline, which leaves goroutines behind; \<open>Returned\<close> the one after the wait group.\<close>

datatype dns_phase = Scanning | Feeding | Waiting | Returned | GaveUp

text \<open>\<open>ds_todo\<close> are the addresses the first loop has not looked at, \<open>ds_pending\<close> those the second has not started,
  \<open>ds_jobs\<close> the goroutines, \<open>ds_sem\<close> the places of the semaphore that are taken, \<open>ds_out\<close> the map that is returned, which
  the goroutines share; the cache is shared with every other batch of the process.\<close>

record dns_state =
  ds_now :: int
  ds_cache :: dns_cache
  ds_todo :: "string list"
  ds_pending :: "string list"
  ds_jobs :: "(string \<times> lookup_point) list"
  ds_sem :: nat
  ds_out :: "string \<rightharpoonup> string"
  ds_phase :: dns_phase

definition batch_start :: "int \<Rightarrow> dns_cache \<Rightarrow> string list \<Rightarrow> dns_state" where
  "batch_start now cache ips =
     \<lparr>ds_now = now, ds_cache = cache, ds_todo = ips, ds_pending = [], ds_jobs = [], ds_sem = 0, ds_out = \<lambda>_. None, ds_phase = Scanning\<rparr>"

text \<open>An address in the first loop: answered from the cache or left to the second.\<close>

definition take_cached :: "string \<Rightarrow> dns_state \<Rightarrow> dns_state" where
  "take_cached ip s =
     (case dnsCachedName (ds_now s) (ds_cache s) ip of
        Some name \<Rightarrow> if name \<noteq> [] then s\<lparr>ds_out := (ds_out s)(ip \<mapsto> name)\<rparr> else s
      | None \<Rightarrow> s\<lparr>ds_pending := ds_pending s @ [ip]\<rparr>)"

text \<open>What the batch is told: by the cache, or by the resolver.\<close>

datatype dns_event = CacheTold string string | ResolverTold string "string list option"

definition cache_events :: "string \<Rightarrow> dns_state \<Rightarrow> dns_event list" where
  "cache_events ip s = (case dnsCachedName (ds_now s) (ds_cache s) ip of None \<Rightarrow> [] | Some name \<Rightarrow> [CacheTold ip name])"

text \<open>The steps, in any order. \<open>resolver\<close> is what \<open>LookupAddr\<close> may answer for an address, errors and the deadlines of its
  context included. \<open>other_batch\<close> is the \<open>dnsStore\<close> of a goroutine of another batch, one that was left behind at its deadline
  for instance.\<close>

inductive dns_step :: "(string \<Rightarrow> string list option \<Rightarrow> bool) \<Rightarrow> dns_state \<Rightarrow> dns_event list \<Rightarrow> dns_state \<Rightarrow> bool" for resolver where
  tick: "ds_now s \<le> t \<Longrightarrow> dns_step resolver s [] (s\<lparr>ds_now := t\<rparr>)"
| other_batch: "resolver ip names \<Longrightarrow>
    dns_step resolver s [] (s\<lparr>ds_cache := dnsStore (ds_now s) ip (looked_up names) (ds_cache s)\<rparr>)"
| scan: "ds_phase s = Scanning \<Longrightarrow> ds_todo s = ip # rest \<Longrightarrow>
    dns_step resolver s (cache_events ip s) (take_cached ip (s\<lparr>ds_todo := rest\<rparr>))"
| scanned: "ds_phase s = Scanning \<Longrightarrow> ds_todo s = [] \<Longrightarrow>
    dns_step resolver s [] (s\<lparr>ds_phase := (if ds_pending s = [] then Returned else Feeding)\<rparr>)"
| start_lookup: "ds_phase s = Feeding \<Longrightarrow> ds_pending s = ip # rest \<Longrightarrow> ds_sem s < dnsParallel \<Longrightarrow>
    dns_step resolver s [] (s\<lparr>ds_pending := rest, ds_sem := ds_sem s + 1, ds_jobs := (ip, AtResolver) # ds_jobs s\<rparr>)"
| deadline: "ds_phase s = Feeding \<Longrightarrow> ds_pending s \<noteq> [] \<Longrightarrow> dns_step resolver s [] (s\<lparr>ds_phase := GaveUp\<rparr>)"
| fed: "ds_phase s = Feeding \<Longrightarrow> ds_pending s = [] \<Longrightarrow> dns_step resolver s [] (s\<lparr>ds_phase := Waiting\<rparr>)"
| answered: "ds_jobs s = xs @ (ip, AtResolver) # ys \<Longrightarrow> resolver ip names \<Longrightarrow>
    dns_step resolver s [ResolverTold ip names] (s\<lparr>ds_jobs := xs @ (ip, AtStore (looked_up names)) # ys\<rparr>)"
| store: "ds_jobs s = xs @ (ip, AtStore name) # ys \<Longrightarrow>
    dns_step resolver s [] (s\<lparr>ds_cache := dnsStore (ds_now s) ip name (ds_cache s), ds_jobs := xs @ (ip, AtWrite name) # ys\<rparr>)"
| write_out: "ds_jobs s = xs @ (ip, AtWrite name) # ys \<Longrightarrow>
    dns_step resolver s [] (s\<lparr>ds_out := (if name \<noteq> [] then (ds_out s)(ip \<mapsto> name) else ds_out s), ds_jobs := xs @ (ip, AtRelease) # ys\<rparr>)"
| release: "ds_jobs s = xs @ (ip, AtRelease) # ys \<Longrightarrow>
    dns_step resolver s [] (s\<lparr>ds_sem := ds_sem s - 1, ds_jobs := xs @ (ip, AtLeave) # ys\<rparr>)"
| leave: "ds_jobs s = xs @ (ip, AtLeave) # ys \<Longrightarrow> dns_step resolver s [] (s\<lparr>ds_jobs := xs @ ys\<rparr>)"
| all_done: "ds_phase s = Waiting \<Longrightarrow> ds_jobs s = [] \<Longrightarrow> dns_step resolver s [] (s\<lparr>ds_phase := Returned\<rparr>)"

inductive dns_reached :: "(string \<Rightarrow> string list option \<Rightarrow> bool) \<Rightarrow> int \<Rightarrow> dns_cache \<Rightarrow> string list \<Rightarrow> dns_event list \<Rightarrow> dns_state \<Rightarrow> bool"
  for resolver now cache ips where
  batch: "dns_reached resolver now cache ips [] (batch_start now cache ips)"
| step: "dns_reached resolver now cache ips tr s \<Longrightarrow> dns_step resolver s es t \<Longrightarrow> dns_reached resolver now cache ips (tr @ es) t"

subsection \<open>What a batch keeps\<close>

text \<open>The names the batch was told for an address; the empty one is that there is none.\<close>

definition told :: "dns_event list \<Rightarrow> string \<Rightarrow> string set" where
  "told tr ip = {n. CacheTold ip n \<in> set tr \<or> (\<exists>names. ResolverTold ip names \<in> set tr \<and> n = looked_up names)}"

definition resolver_name :: "(string \<Rightarrow> string list option \<Rightarrow> bool) \<Rightarrow> string \<Rightarrow> string \<Rightarrow> bool" where
  "resolver_name resolver ip n \<longleftrightarrow> (\<exists>names. resolver ip names \<and> looked_up names = n)"

definition truthful :: "(string \<Rightarrow> string list option \<Rightarrow> bool) \<Rightarrow> dns_cache \<Rightarrow> bool" where
  "truthful resolver cache \<longleftrightarrow> (\<forall>ip r. cache ip = Some r \<longrightarrow> resolver_name resolver ip (dr_name r))"

definition holds_place :: "string \<times> lookup_point \<Rightarrow> bool" where
  "holds_place j \<longleftrightarrow> snd j \<noteq> AtLeave"

definition answers_told :: "(string \<Rightarrow> string list option \<Rightarrow> bool) \<Rightarrow> dns_event list \<Rightarrow> (string \<rightharpoonup> string) \<Rightarrow> bool" where
  "answers_told resolver tr out \<longleftrightarrow>
     (\<forall>ip n. n \<in> told tr ip \<longrightarrow> resolver_name resolver ip n) \<and> (\<forall>ip n. out ip = Some n \<longrightarrow> n \<noteq> [] \<and> n \<in> told tr ip)"

text \<open>An address of the batch is still to be looked at, under way, or was told a name; a name that was told is in the map or
  on its way there.\<close>

definition on_the_way :: "dns_state \<Rightarrow> string \<Rightarrow> string \<Rightarrow> bool" where
  "on_the_way s ip n \<longleftrightarrow> (ip, AtStore n) \<in> set (ds_jobs s) \<or> (ip, AtWrite n) \<in> set (ds_jobs s)"

definition accounted :: "dns_event list \<Rightarrow> dns_state \<Rightarrow> string \<Rightarrow> bool" where
  "accounted tr s ip \<longleftrightarrow>
     (ip \<in> set (ds_todo s) \<or> ip \<in> set (ds_pending s) \<or> (ip, AtResolver) \<in> set (ds_jobs s) \<or> told tr ip \<noteq> {}) \<and>
     (\<forall>n \<in> told tr ip. n \<noteq> [] \<longrightarrow> ds_out s ip \<noteq> None \<or> on_the_way s ip n)"

definition jobs_told :: "dns_event list \<Rightarrow> dns_state \<Rightarrow> bool" where
  "jobs_told tr s \<longleftrightarrow> (\<forall>ip n. on_the_way s ip n \<longrightarrow> n \<in> told tr ip)"

definition phase_ok :: "dns_state \<Rightarrow> bool" where
  "phase_ok s \<longleftrightarrow> (ds_phase s \<noteq> Scanning \<longrightarrow> ds_todo s = []) \<and> (ds_phase s = Scanning \<longrightarrow> ds_jobs s = []) \<and>
     (ds_phase s = Waiting \<or> ds_phase s = Returned \<longrightarrow> ds_pending s = []) \<and> (ds_phase s = Returned \<longrightarrow> ds_jobs s = [])"

definition places_ok :: "dns_state \<Rightarrow> bool" where
  "places_ok s \<longleftrightarrow> ds_sem s = length (filter holds_place (ds_jobs s)) \<and> ds_sem s \<le> dnsParallel"


lemma told_append: "told (tr @ es) ip = told tr ip \<union> told es ip"
  by (auto simp: told_def)

lemma told_events [simp]:
  "told [] ip = {}"
  "told [ResolverTold ip' names] ip = (if ip = ip' then {looked_up names} else {})"
  "told (cache_events ip' s) ip = (if ip = ip' then set_option (dnsCachedName (ds_now s) (ds_cache s) ip) else {})"
  by (auto simp: told_def cache_events_def split: option.splits if_splits)

lemma take_cached_fields [simp]:
  "ds_jobs (take_cached ip s) = ds_jobs s" "ds_todo (take_cached ip s) = ds_todo s" "ds_phase (take_cached ip s) = ds_phase s"
  "ds_sem (take_cached ip s) = ds_sem s" "ds_cache (take_cached ip s) = ds_cache s"
  by (simp_all add: take_cached_def split: option.split)

lemma places_step: "dns_step resolver s es t \<Longrightarrow> places_ok s \<Longrightarrow> places_ok t"
  by (induction rule: dns_step.induct) (auto simp: places_ok_def holds_place_def)

lemma phase_step: "dns_step resolver s es t \<Longrightarrow> phase_ok s \<Longrightarrow> phase_ok t"
  by (induction rule: dns_step.induct) (auto simp: phase_ok_def)

lemma truthful_store:
  assumes "truthful resolver cache" "resolver_name resolver ip name"
  shows "truthful resolver (dnsStore now ip name cache)"
  using assms by (cases "name = []") (simp_all add: truthful_def dnsStore_def)

lemma cached_truthful: "truthful resolver cache \<Longrightarrow> dnsCachedName now cache ip = Some n \<Longrightarrow> resolver_name resolver ip n"
  by (auto simp: truthful_def dnsCachedName_def split: option.splits if_splits)

lemma jobs_step:
  assumes "dns_step resolver s es t" "jobs_told tr s"
  shows "jobs_told (tr @ es) t"
  using assms by (induction rule: dns_step.induct) (auto simp: jobs_told_def on_the_way_def told_append)

definition told_ok :: "(string \<Rightarrow> string list option \<Rightarrow> bool) \<Rightarrow> dns_event list \<Rightarrow> dns_state \<Rightarrow> bool" where
  "told_ok resolver tr s \<longleftrightarrow> truthful resolver (ds_cache s) \<and> answers_told resolver tr (ds_out s) \<and> jobs_told tr s"

lemma told_resolver: "told_ok resolver tr s \<Longrightarrow> n \<in> told tr ip \<Longrightarrow> resolver_name resolver ip n"
  by (simp add: told_ok_def answers_told_def)

lemma job_told: "told_ok resolver tr s \<Longrightarrow> on_the_way s ip n \<Longrightarrow> n \<in> told tr ip"
  by (simp add: told_ok_def jobs_told_def)

lemma answers_more:
  assumes "answers_told resolver tr out" "\<And>ip n. n \<in> told es ip \<Longrightarrow> resolver_name resolver ip n"
  shows "answers_told resolver (tr @ es) out"
  using assms by (auto simp: answers_told_def told_append)

lemma answers_put:
  assumes "answers_told resolver tr out" "n \<in> told tr ip"
  shows "answers_told resolver tr (if n \<noteq> [] then out(ip \<mapsto> n) else out)"
  using assms by (auto simp: answers_told_def)

lemma scan_answers:
  assumes "truthful resolver (ds_cache s)" "answers_told resolver tr (ds_out s)"
  shows "answers_told resolver (tr @ cache_events ip s) (ds_out (take_cached ip (s\<lparr>ds_todo := rest\<rparr>)))"
proof (cases "dnsCachedName (ds_now s) (ds_cache s) ip")
  case None
  then show ?thesis using assms(2) by (simp add: cache_events_def take_cached_def)
next
  case (Some n)
  have "answers_told resolver (tr @ cache_events ip s) (ds_out s)"
    using cached_truthful[OF assms(1) Some] Some by (intro answers_more[OF assms(2)]) (auto split: if_splits)
  moreover have "n \<in> told (tr @ cache_events ip s) ip" using Some by (simp add: told_append)
  ultimately have "answers_told resolver (tr @ cache_events ip s) (if n \<noteq> [] then (ds_out s)(ip \<mapsto> n) else ds_out s)" by (rule answers_put)
  moreover have "ds_out (take_cached ip (s\<lparr>ds_todo := rest\<rparr>)) = (if n \<noteq> [] then (ds_out s)(ip \<mapsto> n) else ds_out s)"
    using Some by (simp add: take_cached_def)
  ultimately show ?thesis by simp
qed

lemma names_step:
  assumes "dns_step resolver s es t" "told_ok resolver tr s"
  shows "told_ok resolver (tr @ es) t"
proof -
  have c: "truthful resolver (ds_cache s)" and a: "answers_told resolver tr (ds_out s)" and j: "jobs_told tr s"
    using assms(2) by (simp_all add: told_ok_def)
  have "jobs_told (tr @ es) t" by (rule jobs_step[OF assms(1) j])
  moreover have "truthful resolver (ds_cache t) \<and> answers_told resolver (tr @ es) (ds_out t)"
    using assms(1)
  proof (cases rule: dns_step.cases)
    case (other_batch ip names)
    then have "resolver_name resolver ip (looked_up names)" by (auto simp: resolver_name_def)
    then show ?thesis using other_batch a truthful_store[OF c] by simp
  next
    case (scan ip rest)
    then show ?thesis using c scan_answers[OF c a] by simp
  next
    case (answered xs ip ys names)
    then have "resolver_name resolver ip (looked_up names)" by (auto simp: resolver_name_def)
    then have "answers_told resolver (tr @ es) (ds_out s)"
      using answered by (intro answers_more[OF a]) (auto split: if_splits)
    then show ?thesis using answered c by simp
  next
    case (store xs ip name ys)
    then have "name \<in> told tr ip" using job_told[OF assms(2)] by (simp add: on_the_way_def)
    then show ?thesis using store a truthful_store[OF c] told_resolver[OF assms(2)] by simp
  next
    case (write_out xs ip name ys)
    then have "name \<in> told tr ip" using job_told[OF assms(2)] by (simp add: on_the_way_def)
    then show ?thesis using write_out c answers_put[OF a] by simp
  qed (use a c in simp_all)
  ultimately show ?thesis by (simp add: told_ok_def)
qed

lemma accounted_step:
  assumes "dns_step resolver s es t" "accounted tr s ip" 
  shows "accounted (tr @ es) t ip"
  using assms(1)
proof (cases rule: dns_step.cases)
  case (scan ip' rest)
  show ?thesis
  proof (cases "dnsCachedName (ds_now s) (ds_cache s) ip'")
    case None
    then have e: "es = []" "t = s\<lparr>ds_todo := rest, ds_pending := ds_pending s @ [ip']\<rparr>" using scan by (simp_all add: cache_events_def take_cached_def)
    show ?thesis using assms(2) scan(4) by (auto simp: e accounted_def on_the_way_def)
  next
    case (Some n)
    then have e: "es = [CacheTold ip' n]" "t = s\<lparr>ds_todo := rest, ds_out := (if n \<noteq> [] then (ds_out s)(ip' \<mapsto> n) else ds_out s)\<rparr>"
      using scan by (simp_all add: cache_events_def take_cached_def)
    have "told es ip = (if ip = ip' then {n} else {})" by (auto simp: e told_def)
    then show ?thesis using assms(2) scan(4) by (auto simp: e(2) accounted_def on_the_way_def told_append)
  qed
qed (use assms(2) in \<open>auto simp: accounted_def on_the_way_def told_append split: if_splits\<close>)

definition asked :: "string list \<Rightarrow> dns_event list \<Rightarrow> dns_state \<Rightarrow> bool" where
  "asked ips tr s \<longleftrightarrow> set (ds_todo s) \<union> set (ds_pending s) \<union> fst ` set (ds_jobs s) \<union> {ip. told tr ip \<noteq> {}} \<subseteq> set ips"

lemma asked_step:
  assumes "dns_step resolver s es t" "asked ips tr s"
  shows "asked ips (tr @ es) t"
  using assms
  by (induction rule: dns_step.induct)
    (auto simp: asked_def told_append take_cached_def image_Un split: option.splits if_splits)

lemma reached_inv:
  assumes "dns_reached resolver now cache ips tr s" "truthful resolver cache"
  shows "places_ok s \<and> phase_ok s \<and> told_ok resolver tr s \<and> (\<forall>ip\<in>set ips. accounted tr s ip) \<and> asked ips tr s"
  using assms
proof (induction rule: dns_reached.induct)
  case batch
  then show ?case
    by (simp add: batch_start_def places_ok_def phase_ok_def told_ok_def answers_told_def jobs_told_def on_the_way_def accounted_def asked_def)
next
  case (step tr s es t)
  then have i: "places_ok s" "phase_ok s" "told_ok resolver tr s" "\<forall>ip\<in>set ips. accounted tr s ip" "asked ips tr s" by simp_all
  note d = step.hyps(2)
  show ?case
    using places_step[OF d i(1)] phase_step[OF d i(2)] names_step[OF d i(3)] accounted_step[OF d] i(4) asked_step[OF d i(5)] by simp
qed

lemma looking_bounded:
  assumes "places_ok s"
  shows "length (filter (\<lambda>j. snd j = AtResolver) (ds_jobs s)) \<le> dnsParallel"
proof -
  have "length (filter (\<lambda>j. snd j = AtResolver) js) \<le> length (filter holds_place js)" for js
    by (induction js) (auto simp: holds_place_def)
  then have "length (filter (\<lambda>j. snd j = AtResolver) (ds_jobs s)) \<le> ds_sem s" using assms by (simp add: places_ok_def)
  then show ?thesis using assms by (simp add: places_ok_def)
qed

text \<open>C31: However the two loops of a batch, its lookups, its deadline and the goroutines of other batches interleave, at most
  eight of its goroutines are in the resolver; every name in the map is one that the cache or the resolver gave the batch for
  that address, which was asked for; the cache all batches share keeps to names the resolver gave for the address; and a batch
  that returns without its deadline was told of every address, which the map lacks only if all it was told is that there is
  no name.\<close>

theorem resolve_batch_answers:
  assumes "dns_reached resolver now cache ips tr s" "truthful resolver cache"
  shows "length (filter (\<lambda>j. snd j = AtResolver) (ds_jobs s)) \<le> 8 \<and>
    (\<forall>ip n. ds_out s ip = Some n \<longrightarrow> ip \<in> set ips \<and> n \<noteq> [] \<and> n \<in> told tr ip \<and> resolver_name resolver ip n) \<and>
    truthful resolver (ds_cache s) \<and>
    (ds_phase s = Returned \<longrightarrow> (\<forall>ip\<in>set ips. told tr ip \<noteq> {} \<and> (ds_out s ip = None \<longleftrightarrow> told tr ip = {[]})))"
proof -
  note inv = reached_inv[OF assms]
  then have names: "told_ok resolver tr s" and "places_ok s" by simp_all
  then have "length (filter (\<lambda>j. snd j = AtResolver) (ds_jobs s)) \<le> 8" using looking_bounded by (simp add: dnsParallel_def)
  moreover have "ip \<in> set ips \<and> n \<noteq> [] \<and> n \<in> told tr ip \<and> resolver_name resolver ip n" if o: "ds_out s ip = Some n" for ip n
  proof -
    have n: "n \<noteq> []" "n \<in> told tr ip" using names o by (auto simp: told_ok_def answers_told_def)
    then have "ip \<in> {x. told tr x \<noteq> {}}" by auto
    then show ?thesis using n inv told_resolver[OF names n(2)] by (auto simp: asked_def)
  qed
  moreover have "truthful resolver (ds_cache s)" using names by (simp add: told_ok_def)
  moreover have "told tr ip \<noteq> {} \<and> (ds_out s ip = None \<longleftrightarrow> told tr ip = {[]})" if r: "ds_phase s = Returned" "ip \<in> set ips" for ip
  proof -
    have e: "ds_todo s = []" "ds_pending s = []" "ds_jobs s = []" using inv r(1) by (simp_all add: phase_ok_def)
    have "accounted tr s ip" using inv r(2) by blast
    then have t: "told tr ip \<noteq> {}" "\<forall>n\<in>told tr ip. n \<noteq> [] \<longrightarrow> ds_out s ip \<noteq> None"
      by (simp_all add: accounted_def on_the_way_def e)
    moreover have "\<exists>n\<in>told tr ip. n \<noteq> []" if found: "ds_out s ip \<noteq> None"
    proof -
      obtain n where "ds_out s ip = Some n" using found by blast
      then have "n \<noteq> [] \<and> n \<in> told tr ip" using names by (simp add: told_ok_def answers_told_def)
      then show ?thesis by blast
    qed
    ultimately show ?thesis by auto
  qed
  ultimately show ?thesis by blast
qed

subsection \<open>Runs\<close>

lemma reached_silent: "dns_reached resolver now cache ips tr s \<Longrightarrow> dns_step resolver s [] t \<Longrightarrow> dns_reached resolver now cache ips tr t"
  using dns_reached.step[of resolver now cache ips tr s "[]" t] by simp

text \<open>Two addresses, neither of them in the cache, after the first loop.\<close>

lemma scanned_two:
  assumes "a \<noteq> b"
  shows "dns_reached resolver 0 (\<lambda>_. None) [a, b] []
    ((batch_start 0 (\<lambda>_. None) [a, b])\<lparr>ds_todo := [], ds_pending := [a, b], ds_phase := Feeding\<rparr>)"
proof -
  let ?s0 = "batch_start 0 (\<lambda>_. None) [a, b]"
  let ?s1 = "?s0\<lparr>ds_todo := [b], ds_pending := [a]\<rparr>" and ?s2 = "?s0\<lparr>ds_todo := [], ds_pending := [a, b]\<rparr>"
  have "dns_step resolver ?s0 [] ?s1" using dns_step.scan[of ?s0 a "[b]" resolver]
    by (simp add: batch_start_def cache_events_def take_cached_def dnsCachedName_def)
  then have r1: "dns_reached resolver 0 (\<lambda>_. None) [a, b] [] ?s1" by (rule reached_silent[OF dns_reached.batch])
  have "dns_step resolver ?s1 [] ?s2" using dns_step.scan[of ?s1 b "[]" resolver]
    by (simp add: batch_start_def cache_events_def take_cached_def dnsCachedName_def)
  then have r2: "dns_reached resolver 0 (\<lambda>_. None) [a, b] [] ?s2" by (rule reached_silent[OF r1])
  have "dns_step resolver ?s2 [] (?s2\<lparr>ds_phase := Feeding\<rparr>)" using dns_step.scanned[of ?s2 resolver] by (simp add: batch_start_def)
  then show ?thesis using reached_silent[OF r2] by simp
qed

text \<open>A lookup from the semaphore to the wait group, with no other under way.\<close>

lemma lookup_run:
  assumes "dns_reached resolver now cache ips tr s" "ds_phase s = Feeding" "ds_pending s = ip # rest" "ds_jobs s = []" "ds_sem s = 0"
    and "resolver ip names"
  shows "dns_reached resolver now cache ips (tr @ [ResolverTold ip names])
    (s\<lparr>ds_pending := rest, ds_cache := dnsStore (ds_now s) ip (looked_up names) (ds_cache s),
       ds_out := (if looked_up names \<noteq> [] then (ds_out s)(ip \<mapsto> looked_up names) else ds_out s)\<rparr>)"
proof -
  let ?n = "looked_up names"
  let ?s1 = "s\<lparr>ds_pending := rest, ds_sem := 1, ds_jobs := [(ip, AtResolver)]\<rparr>"
  let ?s2 = "?s1\<lparr>ds_jobs := [(ip, AtStore ?n)]\<rparr>"
  let ?s3 = "?s2\<lparr>ds_cache := dnsStore (ds_now s) ip ?n (ds_cache s), ds_jobs := [(ip, AtWrite ?n)]\<rparr>"
  let ?s4 = "?s3\<lparr>ds_out := (if ?n \<noteq> [] then (ds_out s)(ip \<mapsto> ?n) else ds_out s), ds_jobs := [(ip, AtRelease)]\<rparr>"
  let ?s5 = "?s4\<lparr>ds_sem := 0, ds_jobs := [(ip, AtLeave)]\<rparr>" and ?s6 = "?s4\<lparr>ds_sem := 0, ds_jobs := []\<rparr>"
  have "dns_step resolver s [] ?s1" using dns_step.start_lookup[OF assms(2,3), of resolver] assms(4,5) by (simp add: dnsParallel_def)
  then have r1: "dns_reached resolver now cache ips tr ?s1" by (rule reached_silent[OF assms(1)])
  have "dns_step resolver ?s1 [ResolverTold ip names] ?s2"
    using dns_step.answered[where s = ?s1 and xs = "[]" and ys = "[]" and ip = ip and resolver = resolver and names = names] assms(6) by simp
  then have r2: "dns_reached resolver now cache ips (tr @ [ResolverTold ip names]) ?s2" by (rule dns_reached.step[OF r1])
  have "dns_step resolver ?s2 [] ?s3" using dns_step.store[where s = ?s2 and xs = "[]" and ys = "[]" and ip = ip and name = ?n] by simp
  then have r3: "dns_reached resolver now cache ips (tr @ [ResolverTold ip names]) ?s3" by (rule reached_silent[OF r2])
  have "dns_step resolver ?s3 [] ?s4" using dns_step.write_out[where s = ?s3 and xs = "[]" and ys = "[]" and ip = ip and name = ?n and resolver = resolver]
    by (cases "?n = []") simp_all
  then have r4: "dns_reached resolver now cache ips (tr @ [ResolverTold ip names]) ?s4" by (rule reached_silent[OF r3])
  have "dns_step resolver ?s4 [] ?s5" using dns_step.release[where s = ?s4 and xs = "[]" and ys = "[]" and ip = ip] by simp
  then have r5: "dns_reached resolver now cache ips (tr @ [ResolverTold ip names]) ?s5" by (rule reached_silent[OF r4])
  have "dns_step resolver ?s5 [] ?s6" using dns_step.leave[where s = ?s5 and xs = "[]" and ys = "[]" and ip = ip] by simp
  then have r6: "dns_reached resolver now cache ips (tr @ [ResolverTold ip names]) ?s6" by (rule reached_silent[OF r5])
  have "?s6 = s\<lparr>ds_pending := rest, ds_cache := dnsStore (ds_now s) ip ?n (ds_cache s),
      ds_out := (if ?n \<noteq> [] then (ds_out s)(ip \<mapsto> ?n) else ds_out s)\<rparr>"
    using assms(4,5) by simp
  then show ?thesis using r6 by simp
qed

definition demo_resolver :: "string \<Rightarrow> string list option \<Rightarrow> bool" where
  "demo_resolver ip names \<longleftrightarrow> names = None \<or> ip = ''10.0.0.1'' \<and> names = Some [''gw.'', ''router.'']"

lemma demo_names: "looked_up (Some [''gw.'', ''router.'']) = ''gw''" "looked_up None = []"
  by (simp_all add: looked_up_def trim_suffix_def has_suffix_def has_prefix_def)

text \<open>A batch of two addresses: the first is found, the lookup of the second fails. A batch that meets its deadline while
  the first lookup is in the resolver.\<close>

theorem resolve_batch_answers_witness:
  "\<exists>s u. dns_reached demo_resolver 0 (\<lambda>_. None) [''10.0.0.1'', ''10.0.0.2'']
        [ResolverTold ''10.0.0.1'' (Some [''gw.'', ''router.'']), ResolverTold ''10.0.0.2'' None] s \<and> ds_phase s = Returned \<and>
     ds_out s ''10.0.0.1'' = Some ''gw'' \<and> ds_out s ''10.0.0.2'' = None \<and>
     dns_reached demo_resolver 0 (\<lambda>_. None) [''10.0.0.1'', ''10.0.0.2''] [] u \<and> ds_phase u = GaveUp \<and>
     length (filter (\<lambda>j. snd j = AtResolver) (ds_jobs u)) = 1 \<and> ds_out u ''10.0.0.1'' = None"
proof -
  let ?ips = "[''10.0.0.1'', ''10.0.0.2'']" and ?gw = "Some [''gw.'', ''router.'']"
  let ?tr = "[ResolverTold ''10.0.0.1'' ?gw, ResolverTold ''10.0.0.2'' None]"
  let ?s0 = "(batch_start 0 (\<lambda>_. None) ?ips)\<lparr>ds_todo := [], ds_pending := ?ips, ds_phase := Feeding\<rparr>"
  have r0: "dns_reached demo_resolver 0 (\<lambda>_. None) ?ips [] ?s0" by (rule scanned_two) simp
  have tf: "truthful demo_resolver (\<lambda>_. None)" by (simp add: truthful_def)
  obtain s1 where r1: "dns_reached demo_resolver 0 (\<lambda>_. None) ?ips [ResolverTold ''10.0.0.1'' ?gw] s1"
    and s1: "ds_phase s1 = Feeding" "ds_pending s1 = [''10.0.0.2'']" "ds_jobs s1 = []" "ds_sem s1 = 0"
    using lookup_run[OF r0, of "''10.0.0.1''" "[''10.0.0.2'']" ?gw] by (auto simp: batch_start_def demo_resolver_def)
  obtain s2 where r2: "dns_reached demo_resolver 0 (\<lambda>_. None) ?ips ?tr s2"
    and s2: "ds_phase s2 = Feeding" "ds_pending s2 = []" "ds_jobs s2 = []"
    using lookup_run[OF r1 s1, of None] s1 by (auto simp: demo_resolver_def)
  let ?s3 = "s2\<lparr>ds_phase := Waiting\<rparr>" and ?s4 = "s2\<lparr>ds_phase := Returned\<rparr>"
  have "dns_step demo_resolver s2 [] ?s3" using s2 by (intro dns_step.fed) simp_all
  then have r3: "dns_reached demo_resolver 0 (\<lambda>_. None) ?ips ?tr ?s3" by (rule reached_silent[OF r2])
  have "dns_step demo_resolver ?s3 [] ?s4" using dns_step.all_done[of ?s3 demo_resolver] s2 by simp
  then have r4: "dns_reached demo_resolver 0 (\<lambda>_. None) ?ips ?tr ?s4" by (rule reached_silent[OF r3])
  have told: "told ?tr ''10.0.0.1'' = {''gw''}" "told ?tr ''10.0.0.2'' = {[]}" by (simp_all add: told_def demo_names)
  note ans = resolve_batch_answers[OF r4 tf]
  have "ds_phase ?s4 = Returned" by simp
  then have done_all: "\<forall>ip\<in>set ?ips. ds_out ?s4 ip = None \<longleftrightarrow> told ?tr ip = {[]}" using ans by blast
  then have "ds_out ?s4 ''10.0.0.1'' \<noteq> None" "ds_out ?s4 ''10.0.0.2'' = None" by (simp_all add: told)
  moreover then obtain n where "ds_out ?s4 ''10.0.0.1'' = Some n" by blast
  moreover then have "n \<in> told ?tr ''10.0.0.1''" using ans by blast
  ultimately have o: "ds_out ?s4 ''10.0.0.1'' = Some ''gw''" "ds_out ?s4 ''10.0.0.2'' = None" by (simp_all add: told)
  let ?u1 = "?s0\<lparr>ds_pending := [''10.0.0.2''], ds_sem := 1, ds_jobs := [(''10.0.0.1'', AtResolver)]\<rparr>"
  let ?u2 = "?u1\<lparr>ds_phase := GaveUp\<rparr>"
  have "dns_step demo_resolver ?s0 [] ?u1"
    using dns_step.start_lookup[of ?s0 "''10.0.0.1''" "[''10.0.0.2'']" demo_resolver] by (simp add: batch_start_def dnsParallel_def)
  then have u1: "dns_reached demo_resolver 0 (\<lambda>_. None) ?ips [] ?u1" by (rule reached_silent[OF r0])
  have "dns_step demo_resolver ?u1 [] ?u2" by (rule dns_step.deadline) simp_all
  then have u2: "dns_reached demo_resolver 0 (\<lambda>_. None) ?ips [] ?u2" by (rule reached_silent[OF u1])
  show ?thesis using r4 o u2 by (intro exI[of _ ?s4] exI[of _ ?u2]) (simp add: batch_start_def)
qed

subsection \<open>After the deadline\<close>

text \<open>The deadline returns the map while lookups run. They still write to it, without a lock the caller would hold: two
  addresses are enough.\<close>

theorem map_written_after_return:
  "\<exists>tr s t. dns_reached demo_resolver 0 (\<lambda>_. None) [''10.0.0.1'', ''10.0.0.2''] tr s \<and> ds_phase s = GaveUp \<and>
     dns_step demo_resolver s [] t \<and> ds_out s ''10.0.0.1'' = None \<and> ds_out t ''10.0.0.1'' = Some ''gw''"
proof -
  let ?ips = "[''10.0.0.1'', ''10.0.0.2'']" and ?gw = "Some [''gw.'', ''router.'']"
  let ?tr = "[ResolverTold ''10.0.0.1'' ?gw]"
  let ?s0 = "(batch_start 0 (\<lambda>_. None) ?ips)\<lparr>ds_todo := [], ds_pending := ?ips, ds_phase := Feeding\<rparr>"
  have r0: "dns_reached demo_resolver 0 (\<lambda>_. None) ?ips [] ?s0" by (rule scanned_two) simp
  let ?u1 = "?s0\<lparr>ds_pending := [''10.0.0.2''], ds_sem := 1, ds_jobs := [(''10.0.0.1'', AtResolver)]\<rparr>"
  let ?u2 = "?u1\<lparr>ds_jobs := [(''10.0.0.1'', AtStore ''gw'')]\<rparr>"
  let ?u3 = "?u2\<lparr>ds_cache := dnsStore 0 ''10.0.0.1'' ''gw'' (\<lambda>_. None), ds_jobs := [(''10.0.0.1'', AtWrite ''gw'')]\<rparr>"
  let ?u4 = "?u3\<lparr>ds_phase := GaveUp\<rparr>"
  let ?u5 = "?u4\<lparr>ds_out := [''10.0.0.1'' \<mapsto> ''gw''], ds_jobs := [(''10.0.0.1'', AtRelease)]\<rparr>"
  have "dns_step demo_resolver ?s0 [] ?u1"
    using dns_step.start_lookup[of ?s0 "''10.0.0.1''" "[''10.0.0.2'']" demo_resolver] by (simp add: batch_start_def dnsParallel_def)
  then have u1: "dns_reached demo_resolver 0 (\<lambda>_. None) ?ips [] ?u1" by (rule reached_silent[OF r0])
  have "demo_resolver ''10.0.0.1'' ?gw" by (simp add: demo_resolver_def)
  then have "dns_step demo_resolver ?u1 ?tr ?u2"
    using dns_step.answered[where s = ?u1 and xs = "[]" and ys = "[]" and ip = "''10.0.0.1''" and resolver = demo_resolver and names = ?gw]
    by (simp add: demo_names)
  then have u2: "dns_reached demo_resolver 0 (\<lambda>_. None) ?ips ?tr ?u2" using dns_reached.step[OF u1, of ?tr ?u2] by simp
  have "dns_step demo_resolver ?u2 [] ?u3"
    using dns_step.store[where s = ?u2 and xs = "[]" and ys = "[]" and ip = "''10.0.0.1''" and name = "''gw''" and resolver = demo_resolver]
    by (simp add: batch_start_def)
  then have u3: "dns_reached demo_resolver 0 (\<lambda>_. None) ?ips ?tr ?u3" by (rule reached_silent[OF u2])
  have "dns_step demo_resolver ?u3 [] ?u4" by (rule dns_step.deadline) simp_all
  then have u4: "dns_reached demo_resolver 0 (\<lambda>_. None) ?ips ?tr ?u4" by (rule reached_silent[OF u3])
  have "dns_step demo_resolver ?u4 [] ?u5"
    using dns_step.write_out[where s = ?u4 and xs = "[]" and ys = "[]" and ip = "''10.0.0.1''" and name = "''gw''" and resolver = demo_resolver]
    by (simp add: batch_start_def)
  then show ?thesis using u4 by (intro exI[of _ ?tr] exI[of _ ?u4] exI[of _ ?u5]) (simp add: batch_start_def)
qed

end
