(* ===== verification/Go_Calendar.thy ===== *)
theory Go_Calendar
  imports Go_Time
begin

text \<open>
  The layout \<open>RFC3339\<close> of package \<open>time\<close> for instants in UTC: days and civil dates, the text \<open>Format\<close> writes, and
  what \<open>Parse\<close> reads of texts without a fraction and with the zone \<open>Z\<close>. Every other text is refused here; the
  program parses with this layout what it has formatted.
\<close>

subsection \<open>Civil dates\<close>

text \<open>Years that start in March, in cycles of 400, 100, 4 and 1 years; days count from the start of 1970.\<close>

definition civil_of_days :: "int \<Rightarrow> int \<times> int \<times> int" where
  "civil_of_days days =
     (let z = days + 719468; era = z div 146097; doe = z mod 146097;
          c = min 3 (doe div 36524); r = doe - c * 36524; q = r div 1461; r2 = r - q * 1461;
          y = min 3 (r2 div 365); doy = r2 - y * 365; mp = (5 * doy + 2) div 153;
          d = doy - (153 * mp + 2) div 5 + 1; m = (if mp < 10 then mp + 3 else mp - 9)
      in (era * 400 + 100 * c + 4 * q + y + (if m \<le> 2 then 1 else 0), m, d))"

definition days_of_civil :: "int \<times> int \<times> int \<Rightarrow> int" where
  "days_of_civil date =
     (case date of (year, m, d) \<Rightarrow>
        let y = year - (if m \<le> 2 then 1 else 0); era = y div 400; yoe = y mod 400;
            mp = (if 2 < m then m - 3 else m + 9); doy = (153 * mp + 2) div 5 + d - 1
        in era * 146097 + (yoe * 365 + yoe div 4 - yoe div 100 + doy) - 719468)"

definition leap_year :: "int \<Rightarrow> bool" where
  "leap_year y \<longleftrightarrow> y mod 4 = 0 \<and> (y mod 100 \<noteq> 0 \<or> y mod 400 = 0)"

definition days_in :: "int \<Rightarrow> int \<Rightarrow> int" where
  "days_in y m = (if m = 2 then (if leap_year y then 29 else 28) else if m \<in> {4, 6, 9, 11} then 30 else 31)"

lemma cycle_bounds:
  fixes doe c q y :: int
  assumes "0 \<le> doe" "doe < 146097" "c = min 3 (doe div 36524)" "q = (doe - c * 36524) div 1461"
    and "y = min 3 ((doe - c * 36524 - q * 1461) div 365)"
  shows "0 \<le> c" "c \<le> 3" "0 \<le> q" "q \<le> 24" "0 \<le> y" "y \<le> 3"
    and "0 \<le> doe - c * 36524 - q * 1461 - y * 365" "doe - c * 36524 - q * 1461 - y * 365 \<le> 365"
    and "doe - c * 36524 - q * 1461 - y * 365 = 365 \<Longrightarrow> y = 3 \<and> (q < 24 \<or> c = 3)"
proof -
  show c: "0 \<le> c" "c \<le> 3" using assms(1,3) by simp_all
  have r: "0 \<le> doe - c * 36524" "doe - c * 36524 \<le> 36524" "c < 3 \<longrightarrow> doe - c * 36524 < 36524"
    using assms(1,2,3) by (auto simp: min_def split: if_splits)
  show q: "0 \<le> q" "q \<le> 24" using r assms(4) by simp_all
  have r2: "0 \<le> doe - c * 36524 - q * 1461" "doe - c * 36524 - q * 1461 \<le> 1460"
    using r minus_div_mult_eq_mod[of "doe - c * 36524" 1461] by (simp_all add: assms(4))
  show y: "0 \<le> y" "y \<le> 3" using r2 assms(5) by simp_all
  show d: "0 \<le> doe - c * 36524 - q * 1461 - y * 365" "doe - c * 36524 - q * 1461 - y * 365 \<le> 365"
    using r2 assms(5) by (auto simp: min_def split: if_splits)
  show "doe - c * 36524 - q * 1461 - y * 365 = 365 \<Longrightarrow> y = 3 \<and> (q < 24 \<or> c = 3)"
    using r2 r q c assms(5) by (auto simp: min_def split: if_splits)
qed

lemma month_bounds:
  fixes doy mp :: int
  assumes "0 \<le> doy" "doy \<le> 365" "mp = (5 * doy + 2) div 153"
  shows "0 \<le> mp" "mp \<le> 11" "1 \<le> doy - (153 * mp + 2) div 5 + 1" "doy - (153 * mp + 2) div 5 + 1 \<le> 31"
    and "mp \<in> {1, 3, 6, 8} \<Longrightarrow> doy - (153 * mp + 2) div 5 + 1 \<le> 30"
    and "mp = 11 \<Longrightarrow> doy - (153 * mp + 2) div 5 + 1 \<le> 29"
    and "mp = 11 \<Longrightarrow> doy < 365 \<Longrightarrow> doy - (153 * mp + 2) div 5 + 1 \<le> 28"
proof -
  have b: "153 * mp \<le> 5 * doy + 2" "5 * doy + 2 < 153 * mp + 153" using assms(3) by simp_all
  show m: "0 \<le> mp" "mp \<le> 11" using assms by simp_all
  then have "mp \<in> {0, 1, 2, 3, 4, 5, 6, 7, 8, 9, 10, 11}" by (simp; presburger)
  then have "1 \<le> doy - (153 * mp + 2) div 5 + 1 \<and> doy - (153 * mp + 2) div 5 + 1 \<le> 31 \<and>
      (mp \<in> {1, 3, 6, 8} \<longrightarrow> doy - (153 * mp + 2) div 5 + 1 \<le> 30) \<and>
      (mp = 11 \<longrightarrow> doy - (153 * mp + 2) div 5 + 1 \<le> 29 \<and> (doy < 365 \<longrightarrow> doy - (153 * mp + 2) div 5 + 1 \<le> 28))"
    using b assms(1,2) by (elim insertE) simp_all
  then show "1 \<le> doy - (153 * mp + 2) div 5 + 1" "doy - (153 * mp + 2) div 5 + 1 \<le> 31"
    and "mp \<in> {1, 3, 6, 8} \<Longrightarrow> doy - (153 * mp + 2) div 5 + 1 \<le> 30"
    and "mp = 11 \<Longrightarrow> doy - (153 * mp + 2) div 5 + 1 \<le> 29"
    and "mp = 11 \<Longrightarrow> doy < 365 \<Longrightarrow> doy - (153 * mp + 2) div 5 + 1 \<le> 28"
    by blast+
qed

lemma civil_parts:
  obtains era c q y doy mp where
    "civil_of_days days = (era * 400 + 100 * c + 4 * q + y + (if mp < 10 then 0 else 1), if mp < 10 then mp + 3 else mp - 9,
        doy - (153 * mp + 2) div 5 + 1)"
    "0 \<le> c" "c \<le> 3" "0 \<le> q" "q \<le> 24" "0 \<le> y" "y \<le> 3" "0 \<le> doy" "doy \<le> 365" "mp = (5 * doy + 2) div 153"
    "doy = 365 \<Longrightarrow> y = 3 \<and> (q < 24 \<or> c = 3)" "days = era * 146097 + c * 36524 + q * 1461 + y * 365 + doy - 719468"
proof -
  define doe where "doe = (days + 719468) mod 146097"
  define era where "era = (days + 719468) div 146097"
  define c where "c = min 3 (doe div 36524)"
  define q where "q = (doe - c * 36524) div 1461"
  define y where "y = min 3 ((doe - c * 36524 - q * 1461) div 365)"
  define doy where "doy = doe - c * 36524 - q * 1461 - y * 365"
  define mp where "mp = (5 * doy + 2) div 153"
  have doe: "0 \<le> doe" "doe < 146097" by (simp_all add: doe_def)
  note b = cycle_bounds[OF doe c_def q_def y_def, folded doy_def]
  have mp: "0 \<le> mp" "mp \<le> 11" using month_bounds(1,2)[OF b(7,8) mp_def] .
  show ?thesis
  proof
    show "civil_of_days days = (era * 400 + 100 * c + 4 * q + y + (if mp < 10 then 0 else 1), if mp < 10 then mp + 3 else mp - 9,
        doy - (153 * mp + 2) div 5 + 1)"
      using mp unfolding civil_of_days_def Let_def
      by (simp add: era_def [symmetric] doe_def [symmetric] c_def [symmetric] q_def [symmetric] y_def [symmetric]
          doy_def [symmetric] mp_def [symmetric])
    have "days + 719468 = era * 146097 + doe" by (simp add: era_def doe_def)
    then show "days = era * 146097 + c * 36524 + q * 1461 + y * 365 + doy - 719468" by (simp add: doy_def)
  qed (use b mp_def in auto)
qed

lemma civil_ranges:
  assumes "civil_of_days days = (yr, m, d)"
  shows "1 \<le> m" "m \<le> 12" "1 \<le> d" "d \<le> days_in yr m"
proof -
  obtain era c q y doy mp where p: "civil_of_days days = (era * 400 + 100 * c + 4 * q + y + (if mp < 10 then 0 else 1),
        if mp < 10 then mp + 3 else mp - 9, doy - (153 * mp + 2) div 5 + 1)"
    and b: "0 \<le> c" "c \<le> 3" "0 \<le> q" "q \<le> 24" "0 \<le> y" "y \<le> 3" "0 \<le> doy" "doy \<le> 365" "mp = (5 * doy + 2) div 153"
    and l: "doy = 365 \<Longrightarrow> y = 3 \<and> (q < 24 \<or> c = 3)"
    and days: "days = era * 146097 + c * 36524 + q * 1461 + y * 365 + doy - 719468"
    by (rule civil_parts[of days]) blast
  note mb = month_bounds[OF b(7,8,9)]
  have yr: "yr = era * 400 + 100 * c + 4 * q + y + (if mp < 10 then 0 else 1)" and m: "m = (if mp < 10 then mp + 3 else mp - 9)"
    and d: "d = doy - (153 * mp + 2) div 5 + 1"
    using p assms by simp_all
  show "1 \<le> m" "m \<le> 12" using mb(1,2) m by (auto split: if_splits)
  show "1 \<le> d" using mb(3) d by simp
  show "d \<le> days_in yr m"
  proof (cases "mp = 11")
    case True
    show ?thesis
    proof (cases "doy = 365")
      case leap: True
      have "yr = era * 400 + 100 * c + 4 * (q + 1)" using True l[OF leap] yr by simp
      then have m4: "yr = 4 * (100 * era + 25 * c + q + 1)" by simp
      have "leap_year yr"
      proof (cases "q < 24")
        case q24: True
        have "yr = 4 * (q + 1) + (4 * era + c) * 100" using m4 by simp
        then have "yr mod 100 = 4 * (q + 1) mod 100" by (simp only: mod_mult_self1)
        then have "yr mod 100 = 4 * (q + 1)" using q24 b(3) by simp
        then show ?thesis using m4 b(3) by (simp add: leap_year_def)
      next
        case False
        then have "yr = 400 * (era + 1)" using m4 b(4) l[OF leap] by simp
        then show ?thesis by (simp add: leap_year_def)
      qed
      then show ?thesis using mb(6)[OF True] True m d by (simp add: days_in_def)
    next
      case False
      then show ?thesis using mb(7)[OF True] b(8) True m d by (simp add: days_in_def)
    qed
  next
    case False
    then have "m \<noteq> 2" using mb(1,2) m by (auto split: if_splits)
    moreover have "m \<in> {4, 6, 9, 11} \<Longrightarrow> mp \<in> {1, 3, 6, 8}" using m mb(2) by (auto split: if_splits)
    ultimately show ?thesis using mb(4,5) d by (auto simp: days_in_def)
  qed
qed

lemma days_of_civil_of_days: "days_of_civil (civil_of_days days) = days"
proof -
  obtain era c q y doy mp where p: "civil_of_days days = (era * 400 + 100 * c + 4 * q + y + (if mp < 10 then 0 else 1),
        if mp < 10 then mp + 3 else mp - 9, doy - (153 * mp + 2) div 5 + 1)"
    and b: "0 \<le> c" "c \<le> 3" "0 \<le> q" "q \<le> 24" "0 \<le> y" "y \<le> 3" "0 \<le> doy" "doy \<le> 365" "mp = (5 * doy + 2) div 153"
    and l: "doy = 365 \<Longrightarrow> y = 3 \<and> (q < 24 \<or> c = 3)"
    and days: "days = era * 146097 + c * 36524 + q * 1461 + y * 365 + doy - 719468"
    by (rule civil_parts[of days]) blast
  define yoe where "yoe = 100 * c + 4 * q + y"
  have mp: "0 \<le> mp" "mp \<le> 11" using month_bounds(1,2)[OF b(7,8,9)] .
  have yoe: "0 \<le> yoe" "yoe < 400" using b by (simp_all add: yoe_def)
  have e: "(era * 400 + yoe) div 400 = era" "(era * 400 + yoe) mod 400 = yoe" using yoe by simp_all
  have "yoe = y + (25 * c + q) * 4" "yoe = (4 * q + y) + c * 100" by (simp_all add: yoe_def)
  then have "yoe div 4 = 25 * c + q" "yoe div 100 = c"
    using b div_mult_self1[of 4 y "25 * c + q"] div_mult_self1[of 100 "4 * q + y" c] by simp_all
  then have v: "yoe * 365 + yoe div 4 - yoe div 100 = c * 36524 + q * 1461 + y * 365" by (simp add: yoe_def)
  have s: "era * 400 + 100 * c + 4 * q + y = era * 400 + yoe" by (simp add: yoe_def)
  show ?thesis
    unfolding p s using mp e v days by (cases "mp < 10") (simp_all add: days_of_civil_def Let_def)
qed

subsection \<open>The text\<close>

definition pad_int :: "nat \<Rightarrow> int \<Rightarrow> string" where
  "pad_int w n = (let ds = dec_nat (nat \<bar>n\<bar>) in (if n < 0 then ''-'' else []) @ replicate (w - length ds) (digit_char 0) @ ds)"

text \<open>\<open>Format(time.RFC3339)\<close> of an instant in UTC, given in seconds.\<close>

definition format_RFC3339 :: "int \<Rightarrow> string" where
  "format_RFC3339 sec =
     (case civil_of_days (sec div 86400) of (y, m, d) \<Rightarrow>
        let t = sec mod 86400 in
        pad_int 4 y @ ''-'' @ pad_int 2 m @ ''-'' @ pad_int 2 d @ ''T'' @ pad_int 2 (t div 3600) @ '':'' @
        pad_int 2 (t div 60 mod 60) @ '':'' @ pad_int 2 (t mod 60) @ ''Z'')"

text \<open>\<open>Format(time.RFC3339Nano)\<close> of nanoseconds: the zeros at the end of the fraction are left out.\<close>

definition format_RFC3339Nano :: "int \<Rightarrow> string" where
  "format_RFC3339Nano ns =
     (let f = ns mod 1000000000; ds = rev (dropWhile (\<lambda>c. c = digit_char 0) (rev (pad_int 9 f))) in
      butlast (format_RFC3339 (ns div 1000000000)) @ (if f = 0 then [] else ''.'' @ ds) @ ''Z'')"

definition number_at :: "nat \<Rightarrow> nat \<Rightarrow> string \<Rightarrow> int option" where
  "number_at i w s = (let ds = take w (drop i s) in
     if length ds = w \<and> list_all is_digit ds then Some (int (digits_val ds)) else None)"

definition parse_RFC3339 :: "string \<Rightarrow> int option" where
  "parse_RFC3339 s =
     (case (number_at 0 4 s, number_at 5 2 s, number_at 8 2 s, number_at 11 2 s, number_at 14 2 s, number_at 17 2 s) of
        (Some y, Some mo, Some d, Some h, Some mi, Some se) \<Rightarrow>
          if length s = 20 \<and> s ! 4 = CHR ''-'' \<and> s ! 7 = CHR ''-'' \<and> s ! 10 = CHR ''T'' \<and> s ! 13 = CHR '':'' \<and>
             s ! 16 = CHR '':'' \<and> s ! 19 = CHR ''Z'' \<and> 1 \<le> mo \<and> mo \<le> 12 \<and> 1 \<le> d \<and> d \<le> days_in y mo \<and>
             h < 24 \<and> mi < 60 \<and> se < 60
          then Some (days_of_civil (y, mo, d) * 86400 + h * 3600 + mi * 60 + se) else None
      | _ \<Rightarrow> None)"

lemma dec_nat_length: "n < 10 ^ w \<Longrightarrow> 0 < w \<Longrightarrow> length (dec_nat n) \<le> w"
proof (induction w arbitrary: n)
  case (Suc w)
  show ?case
  proof (cases "n < 10")
    case True
    then show ?thesis by (subst dec_nat.simps) simp
  next
    case False
    then have w: "0 < w" using Suc.prems(1) by (cases w) simp_all
    have "n div 10 < 10 ^ w" using Suc.prems(1) by (simp add: less_mult_imp_div_less)
    then have "length (dec_nat (n div 10)) \<le> w" using Suc.IH w by blast
    then show ?thesis using False by (subst dec_nat.simps) simp
  qed
qed simp

lemma pad_int_parts:
  assumes "0 \<le> n" "n < 10 ^ w" "0 < w"
  shows "length (pad_int w n) = w" "list_all is_digit (pad_int w n)" "int (digits_val (pad_int w n)) = n"
proof -
  have "nat n < 10 ^ w" using assms(1,2) by (simp add: nat_less_iff)
  then have l: "length (dec_nat (nat n)) \<le> w" using dec_nat_length assms(3) by blast
  have d: "list_all is_digit (dec_nat (nat n))" using dec_nat_digits by blast
  have z: "digits_val (replicate k (digit_char 0) @ ds) = digits_val ds" for k ds
    by (induction k) (simp_all add: digits_val_def)
  show "length (pad_int w n) = w" "list_all is_digit (pad_int w n)" "int (digits_val (pad_int w n)) = n"
    using assms(1) l d by (simp_all add: pad_int_def Let_def z list_all_iff ball_Un set_replicate_conv_if)
qed

text \<open>With the layout \<open>RFC3339Nano\<close> a fraction and an offset are read as well; the result is in nanoseconds.\<close>

definition zone_offset :: "string \<Rightarrow> int option" where
  "zone_offset z =
     (if z = ''Z'' then Some 0
      else case (number_at 1 2 z, number_at 4 2 z) of
             (Some h, Some m) \<Rightarrow>
               if length z = 6 \<and> z ! 0 \<in> set ''+-'' \<and> z ! 3 = CHR '':'' \<and> h \<le> 24 \<and> m \<le> 60
               then Some ((if z ! 0 = CHR ''-'' then -1 else 1) * (h * 3600 + m * 60)) else None
           | _ \<Rightarrow> None)"

definition parse_RFC3339Nano :: "string \<Rightarrow> int option" where
  "parse_RFC3339Nano s =
     (let rest = drop 19 s;
          point = (rest \<noteq> [] \<and> hd rest \<in> set ''.,'' \<and> takeWhile is_digit (tl rest) \<noteq> []);
          ds = (if point then takeWhile is_digit (tl rest) else []);
          zone = (if point then dropWhile is_digit (tl rest) else rest);
          nanos = int (digits_val (take 9 (ds @ replicate 9 (digit_char 0))))
      in case (parse_RFC3339 (take 19 s @ ''Z''), zone_offset zone) of
           (Some t, Some off) \<Rightarrow> Some ((t - off) * 1000000000 + nanos)
         | _ \<Rightarrow> None)"

text \<open>What is formatted within the years of four digits is read back.\<close>

lemma parse_format_RFC3339:
  assumes "fst (civil_of_days (sec div 86400)) \<in> {0..9999}"
  shows "parse_RFC3339 (format_RFC3339 sec) = Some sec"
proof -
  obtain y m d where c: "civil_of_days (sec div 86400) = (y, m, d)" by (metis prod_cases3)
  define t where "t = sec mod 86400"
  note r = civil_ranges[OF c]
  have d31: "d \<le> 31" using r(4) by (auto simp: days_in_def split: if_splits)
  have t: "0 \<le> t" "t < 86400" by (simp_all add: t_def)
  define h mi se where "h = t div 3600" and "mi = t div 60 mod 60" and "se = t mod 60"
  have b: "0 \<le> h" "h < 24" "0 \<le> mi" "mi < 60" "0 \<le> se" "se < 60" using t by (simp_all add: h_def mi_def se_def)
  have hms: "t = h * 3600 + mi * 60 + se" proof -
    have "t div 3600 = t div 60 div 60" by (simp add: zdiv_zmult2_eq[symmetric])
    then have "t div 60 = h * 60 + mi" by (simp add: h_def mi_def)
    moreover have "t = t div 60 * 60 + se" by (simp add: se_def)
    ultimately show ?thesis by simp
  qed
  have y: "0 \<le> y" "y \<le> 9999" using assms c by simp_all
  have p4: "length (pad_int 4 y) = 4" "list_all is_digit (pad_int 4 y)" "int (digits_val (pad_int 4 y)) = y"
    using pad_int_parts[of y 4] y by simp_all
  have p2: "length (pad_int 2 n) = 2" "list_all is_digit (pad_int 2 n)" "int (digits_val (pad_int 2 n)) = n"
    if "0 \<le> n" "n < 100" for n :: int
    using pad_int_parts[of n 2] that by simp_all
  obtain y1 y2 y3 y4 where Y: "pad_int 4 y = [y1, y2, y3, y4]" using p4(1) by (auto simp: length_Suc_conv numeral_eq_Suc)
  have two: "\<exists>a b. pad_int 2 n = [a, b]" if "0 \<le> n" "n < 100" for n :: int
    using p2(1)[OF that] by (auto simp: length_Suc_conv numeral_eq_Suc)
  obtain m1 m2 d1 d2 h1 h2 i1 i2 s1 s2 where S: "pad_int 2 m = [m1, m2]" "pad_int 2 d = [d1, d2]" "pad_int 2 h = [h1, h2]"
      "pad_int 2 mi = [i1, i2]" "pad_int 2 se = [s1, s2]"
    using two[of m] two[of d] two[of h] two[of mi] two[of se] r d31 b by fastforce
  have f: "format_RFC3339 sec = [y1, y2, y3, y4, CHR ''-'', m1, m2, CHR ''-'', d1, d2, CHR ''T'', h1, h2, CHR '':'', i1, i2,
      CHR '':'', s1, s2, CHR ''Z'']"
    by (simp add: format_RFC3339_def c Let_def t_def [symmetric] h_def [symmetric] mi_def [symmetric] se_def [symmetric] Y S)
  note v = p4(2,3)[unfolded Y] p2(2,3)[of m, unfolded S] p2(2,3)[of d, unfolded S] p2(2,3)[of h, unfolded S]
    p2(2,3)[of mi, unfolded S] p2(2,3)[of se, unfolded S]
  have n: "number_at 0 4 (format_RFC3339 sec) = Some y" "number_at 5 2 (format_RFC3339 sec) = Some m"
    "number_at 8 2 (format_RFC3339 sec) = Some d" "number_at 11 2 (format_RFC3339 sec) = Some h"
    "number_at 14 2 (format_RFC3339 sec) = Some mi" "number_at 17 2 (format_RFC3339 sec) = Some se"
    using v r d31 b unfolding f by (simp_all add: number_at_def Let_def)
  have s: "sec = sec div 86400 * 86400 + t" by (simp add: t_def)
  have "days_of_civil (y, m, d) = sec div 86400" using days_of_civil_of_days[of "sec div 86400"] c by simp
  then show ?thesis using r b hms s by (simp add: parse_RFC3339_def n) (simp add: f)
qed

text \<open>The instants from 1970 up to the year 9600.\<close>

lemma parse_format_since_1970:
  assumes "0 \<le> sec" "sec < 240784704000"
  shows "parse_RFC3339 (format_RFC3339 sec) = Some sec"
proof -
  define days where "days = sec div 86400"
  have d: "0 \<le> days" "days < 2786860" using assms by (simp_all add: days_def pos_imp_zdiv_nonneg_iff)
  obtain era c q y doy mp where p: "civil_of_days days = (era * 400 + 100 * c + 4 * q + y + (if mp < 10 then 0 else 1),
        if mp < 10 then mp + 3 else mp - 9, doy - (153 * mp + 2) div 5 + 1)"
    and b: "0 \<le> c" "c \<le> 3" "0 \<le> q" "q \<le> 24" "0 \<le> y" "y \<le> 3" "0 \<le> doy" "doy \<le> 365" "mp = (5 * doy + 2) div 153"
    and l: "doy = 365 \<Longrightarrow> y = 3 \<and> (q < 24 \<or> c = 3)"
    and days: "days = era * 146097 + c * 36524 + q * 1461 + y * 365 + doy - 719468"
    by (rule civil_parts[of days]) blast
  have "0 \<le> era" "era \<le> 23" using d days b by linarith+
  then have "fst (civil_of_days days) \<in> {0..9999}" using p b by (auto split: if_splits)
  then show ?thesis using parse_format_RFC3339 days_def by simp
qed

end
