(* ===== verification/Go_Sort.thy ===== *)
theory Go_Sort
  imports Sonar_Prelude "HOL-Library.Multiset"
begin

text \<open>
  Sorting by a \<open>less\<close> function: \<open>sort_by\<close> for \<open>sort.Slice\<close>, whose freedom among equal elements is a permutation of its
  argument, and the insertion sort with swaps that the code writes out in several places.
\<close>

fun insert_by :: "('a \<Rightarrow> 'a \<Rightarrow> bool) \<Rightarrow> 'a \<Rightarrow> 'a list \<Rightarrow> 'a list" where
  "insert_by before x [] = [x]"
| "insert_by before x (y # ys) = (if before y x then y # insert_by before x ys else x # y # ys)"

definition sort_by :: "('a \<Rightarrow> 'a \<Rightarrow> bool) \<Rightarrow> 'a list \<Rightarrow> 'a list" where
  "sort_by before xs = foldr (insert_by before) xs []"

text \<open>The inner loop: the element at \<open>j\<close> moves left over those it is before.\<close>

fun swap_left :: "('a \<Rightarrow> 'a \<Rightarrow> bool) \<Rightarrow> nat \<Rightarrow> 'a list \<Rightarrow> 'a list" where
  "swap_left before 0 xs = xs"
| "swap_left before (Suc j) xs =
     (if before (xs ! Suc j) (xs ! j) then swap_left before j (xs[Suc j := xs ! j, j := xs ! Suc j]) else xs)"

definition insertion_sort :: "('a \<Rightarrow> 'a \<Rightarrow> bool) \<Rightarrow> 'a list \<Rightarrow> 'a list" where
  "insertion_sort before xs = fold (swap_left before) [1..<length xs] xs"

lemma insert_by_mset [simp]: "mset (insert_by before x ys) = add_mset x (mset ys)"
  by (induction ys) auto

lemma insert_by_set [simp]: "set (insert_by before x ys) = insert x (set ys)"
  by (induction ys) auto

lemma sort_by_mset [simp]: "mset (sort_by before xs) = mset xs"
  by (induction xs) (simp_all add: sort_by_def)

lemma insert_by_sorted:
  fixes f :: "'a \<Rightarrow> 'b :: linorder"
  assumes "\<And>a b. before a b \<longleftrightarrow> f a < f b" "sorted_wrt (\<lambda>a b. f a \<le> f b) ys"
  shows "sorted_wrt (\<lambda>a b. f a \<le> f b) (insert_by before x ys)"
  using assms(2)
proof (induction ys)
  case (Cons y ys)
  then show ?case by (auto simp: assms(1))
qed simp

lemma sort_by_sorted:
  fixes f :: "'a \<Rightarrow> 'b :: linorder"
  assumes "\<And>a b. before a b \<longleftrightarrow> f a < f b"
  shows "sorted_wrt (\<lambda>a b. f a \<le> f b) (sort_by before xs)"
  by (induction xs) (simp_all add: sort_by_def insert_by_sorted[OF assms])

text \<open>One pass puts the element at \<open>j\<close> in its place among those before it.\<close>

lemma swap_left_inv:
  fixes f :: "'a \<Rightarrow> 'b :: linorder"
  assumes "j < length xs" "\<And>a b. a \<in> set xs \<Longrightarrow> b \<in> set xs \<Longrightarrow> before a b \<longleftrightarrow> f a < f b"
    and "sorted_wrt (\<lambda>a b. f a \<le> f b) (take j xs)"
  shows "mset (swap_left before j xs) = mset xs \<and> drop (Suc j) (swap_left before j xs) = drop (Suc j) xs \<and>
    sorted_wrt (\<lambda>a b. f a \<le> f b) (take (Suc j) (swap_left before j xs))"
  using assms
proof (induction j arbitrary: xs)
  case 0
  then show ?case by (cases xs) simp_all
next
  case (Suc j)
  let ?R = "\<lambda>a b. f a \<le> f b"
  have j: "j < length xs" "Suc j < length xs" using Suc.prems(1) by simp_all
  have tk: "take (Suc j) xs = take j xs @ [xs ! j]" using j by (simp add: take_Suc_conv_app_nth)
  have lt: "before (xs ! Suc j) (xs ! j) \<longleftrightarrow> f (xs ! Suc j) < f (xs ! j)" using Suc.prems(2) j by simp
  show ?case
  proof (cases "before (xs ! Suc j) (xs ! j)")
    case True
    let ?xs = "xs[Suc j := xs ! j, j := xs ! Suc j]"
    have m: "mset ?xs = mset xs" using mset_swap[OF j] by simp
    have less: "before a b \<longleftrightarrow> f a < f b" if "a \<in> set ?xs" "b \<in> set ?xs" for a b
      using that Suc.prems(2) m by (metis set_mset_mset)
    have t: "take j ?xs = take j xs" by simp
    have "sorted_wrt ?R (take j ?xs)" using Suc.prems(3) tk by (simp add: sorted_wrt_append)
    then have ih: "mset (swap_left before j ?xs) = mset xs" "drop (Suc j) (swap_left before j ?xs) = drop (Suc j) ?xs"
      "sorted_wrt ?R (take (Suc j) (swap_left before j ?xs))"
      using Suc.IH[of ?xs] j less m by simp_all
    have l: "length (swap_left before j ?xs) = length xs" using ih(1) by (metis size_mset)
    have d: "drop (Suc j) ?xs = xs ! j # drop (Suc (Suc j)) xs"
      using j by (simp add: Cons_nth_drop_Suc[symmetric] drop_update_swap)
    have nx: "take (Suc (Suc j)) (swap_left before j ?xs) = take (Suc j) (swap_left before j ?xs) @ [xs ! j]"
      using ih(2) d l j by (metis (no_types) append_take_drop_id take_Suc_conv_app_nth nth_append_length hd_drop_conv_nth list.sel(1))
    have "mset (take (Suc j) (swap_left before j ?xs)) + mset (drop (Suc j) (swap_left before j ?xs)) = mset xs"
      using ih(1) by (metis append_take_drop_id mset_append)
    moreover have "mset (take (Suc j) ?xs) + mset (drop (Suc j) ?xs) = mset xs"
      using m by (metis append_take_drop_id mset_append)
    ultimately have "mset (take (Suc j) (swap_left before j ?xs)) = mset (take (Suc j) ?xs)" using ih(2) by (metis add_right_cancel)
    then have "set (take (Suc j) (swap_left before j ?xs)) = set (take (Suc j) ?xs)" by (metis set_mset_mset)
    moreover have "take (Suc j) ?xs = take j xs @ [xs ! Suc j]" using j t by (simp add: take_Suc_conv_app_nth)
    moreover have "\<forall>x\<in>set (take j xs). f x \<le> f (xs ! j)" using Suc.prems(3) tk by (simp add: sorted_wrt_append)
    ultimately have "\<forall>x\<in>set (take (Suc j) (swap_left before j ?xs)). f x \<le> f (xs ! j)" using lt True by auto
    then have "sorted_wrt ?R (take (Suc (Suc j)) (swap_left before j ?xs))" using ih(3) unfolding nx by (simp add: sorted_wrt_append)
    moreover have "drop (Suc (Suc j)) (swap_left before j ?xs) = drop (Suc (Suc j)) xs"
      using ih(2) d by (metis drop_Suc list.sel(3) tl_drop)
    ultimately show ?thesis using ih(1) True by simp
  next
    case False
    have "sorted_wrt ?R (take (Suc (Suc j)) xs)"
      using Suc.prems(3) False lt j tk by (auto simp: take_Suc_conv_app_nth[of "Suc j"] sorted_wrt_append)
    then show ?thesis using False by simp
  qed
qed

theorem insertion_sort_sorts:
  fixes f :: "'a \<Rightarrow> 'b :: linorder"
  assumes "\<And>a b. a \<in> set xs \<Longrightarrow> b \<in> set xs \<Longrightarrow> before a b \<longleftrightarrow> f a < f b"
  shows "mset (insertion_sort before xs) = mset xs \<and> sorted_wrt (\<lambda>a b. f a \<le> f b) (insertion_sort before xs)"
proof -
  let ?R = "\<lambda>a b. f a \<le> f b"
  have upto: "mset (fold (swap_left before) [1..<Suc k] xs) = mset xs \<and>
      sorted_wrt ?R (take (Suc k) (fold (swap_left before) [1..<Suc k] xs))" if "k < length xs" for k
    using that
  proof (induction k)
    case 0
    then show ?case by (cases xs) simp_all
  next
    case (Suc k)
    let ?qs = "fold (swap_left before) [1..<Suc k] xs"
    have ih: "mset ?qs = mset xs" "sorted_wrt ?R (take (Suc k) ?qs)" using Suc by simp_all
    have "length ?qs = length xs" "set ?qs = set xs" using ih(1) by (metis size_mset, metis set_mset_mset)
    then show ?case using swap_left_inv[of "Suc k" ?qs before f] Suc.prems ih assms by simp
  qed
  show ?thesis
  proof (cases "xs = []")
    case True
    then show ?thesis by (simp add: insertion_sort_def)
  next
    case False
    then have k: "length xs - 1 < length xs" "Suc (length xs - 1) = length xs" by simp_all
    have m: "mset (insertion_sort before xs) = mset xs" and t: "sorted_wrt ?R (take (length xs) (insertion_sort before xs))"
      using upto[OF k(1)] unfolding k(2) insertion_sort_def by simp_all
    have "length (insertion_sort before xs) = length xs" using m by (metis size_mset)
    then show ?thesis using m t by simp
  qed
qed

end
