(* ===== verification/Probe_Processes.thy ===== *)
theory Probe_Processes
  imports Checks Probe_Trackers Probe_Sockets Go_Calendar Go_Sort
begin

text \<open>
  The process table of a snapshot (\<open>collectProcesses\<close>, \<open>applyOpenConns\<close> in \<open>internal/probe/snapshot.go\<close>) and the
  state that lives from one snapshot to the next (\<open>dex.go\<close>): the processes seen before, the rings of stopped
  processes and of storage samples, and the time applications had the focus. What the library tells of a process is
  the record \<open>proc_info\<close>, \<open>None\<close> where it fails.
\<close>

subsection \<open>Records\<close>

record proc_info =
  pi_Pid :: int
  pi_Name :: string
  pi_Username :: "string option"
  pi_Cmdline :: "string option"
  pi_CPUPercent :: "f64 option"
  pi_RSS :: "u64 option"
  pi_CreateTime :: int
  pi_Nice :: "int option"
  pi_IOCounters :: "(u64 \<times> u64) option"

record ProcessRow =
  pr_PID :: int
  pr_Name :: string
  pr_User :: string
  pr_Cmdline :: string
  pr_CPUPct :: f64
  pr_RSSBytes :: u64
  pr_MemPct :: f64
  pr_DiskReadBps :: u64
  pr_DiskWriteBps :: u64
  pr_NetSentBps :: u64
  pr_NetRecvBps :: u64
  pr_OpenConns :: nat
  pr_StartedAt :: string
  pr_Architecture :: string
  pr_Priority :: string

record StorageIOEvent =
  sio_Time :: string
  sio_Process :: string
  sio_PID :: int
  sio_File :: string
  sio_Bytes :: u64
  sio_ReadBps :: u64
  sio_WriteBps :: u64

record ProcessStopEvent =
  pse_Time :: string
  pse_Name :: string
  pse_PID :: int
  pse_User :: string
  pse_CPUPct :: f64
  pse_MemPct :: f64
  pse_Duration :: string

record dexState =
  dx_focusCounts :: "string \<rightharpoonup> f64"
  dx_focusPID :: "string \<rightharpoonup> int"
  dx_focusLast :: "string \<rightharpoonup> int"
  dx_focusSamples :: int
  dx_stopped :: "ProcessStopEvent list"
  dx_storage :: "StorageIOEvent list"
  dx_priorProcs :: "procKey \<rightharpoonup> ProcessRow"

text \<open>\<open>pe_order\<close> is the iteration of a map, \<open>pe_shuffle\<close> and \<open>pe_shuffle_io\<close> the freedom of \<open>sort.Slice\<close> among equal
  rows, \<open>pe_oor\<close> and \<open>pe_oori\<close> the conversions of floats out of range.\<close>

record proc_env =
  pe_now :: int
  pe_arch :: string
  pe_totalMem :: u64
  pe_oor :: "f64 \<Rightarrow> u64"
  pe_oori :: "f64 \<Rightarrow> int"
  pe_order :: "(procKey \<rightharpoonup> ProcessRow) \<Rightarrow> (procKey \<times> ProcessRow) list"
  pe_shuffle :: "ProcessRow list \<Rightarrow> ProcessRow list"
  pe_shuffle_io :: "StorageIOEvent list \<Rightarrow> StorageIOEvent list"

subsection \<open>Helpers\<close>

definition roundTo :: "(f64 \<Rightarrow> int) \<Rightarrow> f64 \<Rightarrow> nat \<Rightarrow> f64" where
  "roundTo oori v decimals =
     (let mult = ((\<lambda>m. f64_mul m (Fin 10)) ^^ decimals) (Fin 1)
      in f64_div (f64_of_int (f64_to_i64 oori (f64_add (f64_mul v mult) (Fin (1 / 2))))) mult)"

text \<open>\<open>int(d.Seconds())\<close> of a duration that is not negative; the quotients of the source are \<open>div\<close> on it.\<close>

definition formatDurShort :: "(f64 \<Rightarrow> int) \<Rightarrow> int \<Rightarrow> string" where
  "formatDurShort oori d0 =
     (let d = (if d0 < 0 then 0 else d0); sec = f64_to_i64 oori (duration_seconds d) in
      if sec < 60 then itoa sec @ ''s''
      else if sec < 3600 then itoa (sec div 60) @ ''m '' @ itoa (sec mod 60) @ ''s''
      else itoa (sec div 3600) @ ''h '' @ itoa (sec mod 3600 div 60) @ ''m'')"

definition push_ring :: "'a list \<Rightarrow> 'a list \<Rightarrow> 'a list" where
  "push_ring ring evs =
     (if evs = [] then ring else let r = ring @ evs in if 200 < length r then drop (length r - 200) r else r)"

subsection \<open>Rows\<close>

definition started_text :: "int \<Rightarrow> string" where
  "started_text ms = (if 0 < ms then format_RFC3339 (ms div 1000) else [])"

definition process_row :: "proc_env \<Rightarrow> u64 \<times> u64 \<times> u64 \<times> u64 \<Rightarrow> proc_info \<Rightarrow> ProcessRow" where
  "process_row env rates p =
     (case rates of (rd, wr, sent, recv) \<Rightarrow>
      let totalMem = f64_of_int (uint (pe_totalMem env)) in
      \<lparr>pr_PID = pi_Pid p, pr_Name = pi_Name p,
       pr_User = (case pi_Username p of None \<Rightarrow> [] | Some u \<Rightarrow> u),
       pr_Cmdline = (case pi_Cmdline p of None \<Rightarrow> [] | Some c \<Rightarrow> trimMiddle c 200),
       pr_CPUPct = (case pi_CPUPercent p of None \<Rightarrow> Fin 0 | Some c \<Rightarrow> roundTo (pe_oori env) c 1),
       pr_RSSBytes = (case pi_RSS p of None \<Rightarrow> 0 | Some r \<Rightarrow> r),
       pr_MemPct = (case pi_RSS p of None \<Rightarrow> Fin 0
                    | Some r \<Rightarrow> if f64_lt (Fin 0) totalMem
                                then roundTo (pe_oori env) (f64_mul (f64_div (f64_of_int (uint r)) totalMem) (Fin 100)) 1
                                else Fin 0),
       pr_DiskReadBps = rd, pr_DiskWriteBps = wr, pr_NetSentBps = sent, pr_NetRecvBps = recv, pr_OpenConns = 0,
       pr_StartedAt = started_text (pi_CreateTime p), pr_Architecture = pe_arch env,
       pr_Priority = (case pi_Nice p of None \<Rightarrow> [] | Some n \<Rightarrow> niceToPriority n)\<rparr>)"

definition proc_counters :: "proc_env \<Rightarrow> proc_info \<Rightarrow> procCounters" where
  "proc_counters env p =
     (case pi_IOCounters p of
        None \<Rightarrow> \<lparr>pc_readBytes = 0, pc_writeBytes = 0, pc_netSent = 0, pc_netRecv = 0, pc_at = pe_now env\<rparr>
      | Some (r, w) \<Rightarrow> \<lparr>pc_readBytes = r, pc_writeBytes = w, pc_netSent = 0, pc_netRecv = 0, pc_at = pe_now env\<rparr>)"

definition proc_key :: "proc_info \<Rightarrow> procKey" where
  "proc_key p = \<lparr>pk_pid = pi_Pid p, pk_started = pi_CreateTime p\<rparr>"

definition collect_process ::
    "proc_env \<Rightarrow> proc_info \<Rightarrow> ProcessRow list \<times> procKey set \<times> procTracker \<Rightarrow> ProcessRow list \<times> procKey set \<times> procTracker" where
  "collect_process env p acc =
     (case acc of (rows, seen, prev) \<Rightarrow>
        if pi_Name p = [] then acc
        else case proc_recordAndDelta (pe_oor env) (proc_key p) (proc_counters env p) prev of
               (rates, prev') \<Rightarrow> (rows @ [process_row env rates p], insert (proc_key p) seen, prev'))"

subsection \<open>Stopped processes\<close>

text \<open>The key that \<open>noteProcesses\<close> makes of a row again.\<close>

definition rebuilt_key :: "ProcessRow \<Rightarrow> procKey" where
  "rebuilt_key r =
     \<lparr>pk_pid = pr_PID r,
      pk_started = (if pr_StartedAt r = [] then 0 else case parse_RFC3339 (pr_StartedAt r) of None \<Rightarrow> 0 | Some t \<Rightarrow> t * 1000)\<rparr>"

definition stop_event :: "proc_env \<Rightarrow> ProcessRow \<Rightarrow> ProcessStopEvent" where
  "stop_event env r =
     \<lparr>pse_Time = format_RFC3339Nano (pe_now env), pse_Name = pr_Name r, pse_PID = pr_PID r, pse_User = pr_User r,
      pse_CPUPct = pr_CPUPct r, pse_MemPct = pr_MemPct r,
      pse_Duration = (if pr_StartedAt r = [] then []
                      else case parse_RFC3339 (pr_StartedAt r) of None \<Rightarrow> []
                           | Some t \<Rightarrow> formatDurShort (pe_oori env) (time_sub (pe_now env) (t * 1000000000)))\<rparr>"

definition proc_stops :: "proc_env \<Rightarrow> (procKey \<rightharpoonup> ProcessRow) \<Rightarrow> procKey set \<Rightarrow> ProcessStopEvent list" where
  "proc_stops env prior keys = map (\<lambda>(_, r). stop_event env r) (filter (\<lambda>(k, _). k \<notin> keys) (pe_order env prior))"

definition next_prior :: "ProcessRow list \<Rightarrow> (procKey \<rightharpoonup> ProcessRow)" where
  "next_prior rows = fold (\<lambda>r m. m(rebuilt_key r \<mapsto> r)) rows (\<lambda>_. None)"

definition noteProcesses :: "proc_env \<Rightarrow> ProcessRow list \<Rightarrow> procKey set \<Rightarrow> dexState \<Rightarrow> dexState" where
  "noteProcesses env rows keys d =
     d\<lparr>dx_priorProcs := next_prior rows,
       dx_stopped := push_ring (dx_stopped d) (proc_stops env (dx_priorProcs d) keys)\<rparr>"

subsection \<open>The tables\<close>

definition io_sample :: "proc_env \<Rightarrow> ProcessRow \<Rightarrow> StorageIOEvent" where
  "io_sample env r =
     \<lparr>sio_Time = format_RFC3339Nano (pe_now env), sio_Process = pr_Name r, sio_PID = pr_PID r,
      sio_File = ''(process aggregate I/O)'', sio_Bytes = pr_DiskReadBps r + pr_DiskWriteBps r,
      sio_ReadBps = pr_DiskReadBps r, sio_WriteBps = pr_DiskWriteBps r\<rparr>"

definition io_samples :: "proc_env \<Rightarrow> ProcessRow list \<Rightarrow> StorageIOEvent list" where
  "io_samples env rows =
     (let xs = map (io_sample env) (filter (\<lambda>r. \<not> pr_DiskReadBps r + pr_DiskWriteBps r < 64 * 1024) rows)
      in if 15 < length xs then take 15 (sort_by (\<lambda>a b. sio_Bytes b < sio_Bytes a) (pe_shuffle_io env xs)) else xs)"

definition pushStorage :: "StorageIOEvent list \<Rightarrow> dexState \<Rightarrow> dexState" where
  "pushStorage evs d = d\<lparr>dx_storage := push_ring (dx_storage d) evs\<rparr>"

definition top_rows :: "proc_env \<Rightarrow> nat \<Rightarrow> (ProcessRow \<Rightarrow> ProcessRow \<Rightarrow> bool) \<Rightarrow> ProcessRow list \<Rightarrow> ProcessRow list" where
  "top_rows env n before rows = take n (sort_by before (pe_shuffle env rows))"

definition active_score :: "ProcessRow \<Rightarrow> f64" where
  "active_score r = f64_add (f64_mul (pr_CPUPct r) (Fin 2)) (pr_MemPct r)"

record proc_tables =
  pt_TopByCPU :: "ProcessRow list"
  pt_TopByMem :: "ProcessRow list"
  pt_ActiveProcesses :: "ProcessRow list"

definition table_rows :: "proc_env \<Rightarrow> proc_info list \<Rightarrow> procTracker \<Rightarrow> ProcessRow list \<times> procKey set \<times> procTracker" where
  "table_rows env procs prev = fold (collect_process env) procs ([], {}, prev)"

definition collectProcesses ::
    "proc_env \<Rightarrow> proc_info list option \<Rightarrow> procTracker \<times> dexState \<Rightarrow> proc_tables \<times> procTracker \<times> dexState" where
  "collectProcesses env procs st =
     (case (procs, st) of
        (None, (prev, d)) \<Rightarrow> (\<lparr>pt_TopByCPU = [], pt_TopByMem = [], pt_ActiveProcesses = []\<rparr>, prev, d)
      | (Some ps, (prev, d)) \<Rightarrow>
          (case table_rows env ps prev of
             (rows, seen, prev') \<Rightarrow>
               (\<lparr>pt_TopByCPU = top_rows env 10 (\<lambda>a b. f64_lt (pr_CPUPct b) (pr_CPUPct a)) rows,
                 pt_TopByMem = top_rows env 10 (\<lambda>a b. pr_RSSBytes b < pr_RSSBytes a) rows,
                 pt_ActiveProcesses = top_rows env 40 (\<lambda>a b. f64_lt (active_score b) (active_score a)) rows\<rparr>,
                reapMissing seen prev', pushStorage (io_samples env rows) (noteProcesses env rows seen d))))"

definition applyOpenConns :: "(int \<Rightarrow> nat) \<Rightarrow> proc_tables \<Rightarrow> proc_tables" where
  "applyOpenConns perPid t =
     (let f = map (\<lambda>r. r\<lparr>pr_OpenConns := perPid (pr_PID r)\<rparr>) in
      \<lparr>pt_TopByCPU = f (pt_TopByCPU t), pt_TopByMem = f (pt_TopByMem t), pt_ActiveProcesses = f (pt_ActiveProcesses t)\<rparr>)"

subsection \<open>Focus\<close>

definition recordFocus :: "proc_env \<Rightarrow> string \<Rightarrow> int \<Rightarrow> f64 \<Rightarrow> dexState \<Rightarrow> dexState" where
  "recordFocus env name pid secs d =
     (if name = [] \<or> f64_le secs (Fin 0) then d
      else d\<lparr>dx_focusCounts := (dx_focusCounts d)(name \<mapsto>
               f64_add (case dx_focusCounts d name of None \<Rightarrow> Fin 0 | Some c \<Rightarrow> c) secs),
             dx_focusPID := (dx_focusPID d)(name \<mapsto> pid), dx_focusLast := (dx_focusLast d)(name \<mapsto> pe_now env),
             dx_focusSamples := dx_focusSamples d + 1\<rparr>)"

text \<open>One tick of \<open>runFocusLoop\<close>; \<open>prev\<close> is the time of the last one, \<open>sample\<close> what had the focus.\<close>

definition focus_tick :: "proc_env \<Rightarrow> (string \<times> int) option \<Rightarrow> int \<times> dexState \<Rightarrow> int \<times> dexState" where
  "focus_tick env sample st =
     (case st of (prev, d) \<Rightarrow>
        let dt0 = duration_seconds (time_sub (pe_now env) prev);
            dt = (if f64_le dt0 (Fin 0) \<or> f64_lt (Fin 60) dt0 then Fin 15 else dt0)
        in (pe_now env, case sample of None \<Rightarrow> d | Some (name, pid) \<Rightarrow> recordFocus env name pid dt d))"

record AppFocusRow =
  af_Name :: string
  af_PID :: int
  af_FocusSeconds :: f64
  af_FocusPct :: f64
  af_LastSeen :: string

definition sort_pairs :: "(string \<times> f64) list \<Rightarrow> (string \<times> f64) list" where
  "sort_pairs ps = insertion_sort (\<lambda>a b. f64_lt (snd b) (snd a)) ps"

definition focus_row :: "proc_env \<Rightarrow> dexState \<Rightarrow> f64 \<Rightarrow> string \<times> f64 \<Rightarrow> AppFocusRow" where
  "focus_row env d all_secs p =
     \<lparr>af_Name = fst p, af_PID = (case dx_focusPID d (fst p) of None \<Rightarrow> 0 | Some i \<Rightarrow> i),
      af_FocusSeconds = roundTo (pe_oori env) (snd p) 1,
      af_FocusPct = (if f64_lt (Fin 0) all_secs then roundTo (pe_oori env) (f64_mul (f64_div (snd p) all_secs) (Fin 100)) 1 else Fin 0),
      af_LastSeen = (case dx_focusLast d (fst p) of None \<Rightarrow> [] | Some t \<Rightarrow> format_RFC3339 (t div 1000000000))\<rparr>"

text \<open>\<open>pairs\<close> are the counts in the order the map is iterated.\<close>

definition topApps :: "proc_env \<Rightarrow> nat \<Rightarrow> (string \<times> f64) list \<Rightarrow> dexState \<Rightarrow> AppFocusRow list" where
  "topApps env limit pairs d =
     (let all_secs = foldl (\<lambda>t p. f64_add t (snd p)) (Fin 0) pairs; ranked = sort_pairs pairs;
          shown = (if 0 < limit \<and> limit < length ranked then take limit ranked else ranked)
      in map (focus_row env d all_secs) shown)"

subsection \<open>What a snapshot remembers of its processes\<close>

definition named :: "proc_info list \<Rightarrow> proc_info list" where
  "named procs = filter (\<lambda>p. pi_Name p \<noteq> []) procs"

lemma rows_of_table:
  "map (\<lambda>r. (pr_PID r, pr_StartedAt r)) (fst (fold (collect_process env) procs (rows, seen, prev)))
     = map (\<lambda>r. (pr_PID r, pr_StartedAt r)) rows @ map (\<lambda>p. (pi_Pid p, started_text (pi_CreateTime p))) (named procs)"
  by (induction procs arbitrary: rows seen prev)
     (auto simp: collect_process_def named_def process_row_def Let_def split: prod.split)

lemma keys_of_table:
  "fst (snd (fold (collect_process env) procs (rows, seen, prev))) = seen \<union> proc_key ` set (named procs)"
  by (induction procs arbitrary: rows seen prev) (auto simp: collect_process_def named_def split: prod.split)

definition truncated_key :: "proc_info \<Rightarrow> procKey" where
  "truncated_key p = \<lparr>pk_pid = pi_Pid p, pk_started = pi_CreateTime p div 1000 * 1000\<rparr>"

lemma rebuilt_of_started:
  assumes "pr_PID r = pi_Pid p" "pr_StartedAt r = started_text (pi_CreateTime p)"
    and "0 \<le> pi_CreateTime p" "pi_CreateTime p < 240784704000000"
  shows "rebuilt_key r = truncated_key p"
proof (cases "pi_CreateTime p = 0")
  case True
  then show ?thesis using assms(1,2) by (simp add: rebuilt_key_def truncated_key_def started_text_def)
next
  case False
  have b: "0 \<le> pi_CreateTime p div 1000" "pi_CreateTime p div 1000 < 240784704000" using assms(3,4) by simp_all
  have "length (format_RFC3339 (pi_CreateTime p div 1000)) = 20"
    using parse_format_since_1970[OF b] by (auto simp: parse_RFC3339_def split: option.splits prod.splits if_splits)
  then have "format_RFC3339 (pi_CreateTime p div 1000) \<noteq> []" by auto
  then show ?thesis
    using assms(1,2,3) False parse_format_since_1970[OF b] by (simp add: rebuilt_key_def truncated_key_def started_text_def)
qed

lemma next_prior_rows:
  "dom (next_prior rows) = rebuilt_key ` set rows"
  "next_prior rows k = Some r \<Longrightarrow> r \<in> set rows \<and> rebuilt_key r = k"
proof -
  have f: "dom (fold (\<lambda>r m. m(rebuilt_key r \<mapsto> r)) rows m) = rebuilt_key ` set rows \<union> dom m" for m
    by (induction rows arbitrary: m) auto
  have g: "fold (\<lambda>r m. m(rebuilt_key r \<mapsto> r)) rows m k = Some r \<Longrightarrow> (r \<in> set rows \<and> rebuilt_key r = k) \<or> m k = Some r" for m
  proof (induction rows arbitrary: m)
    case (Cons x rows)
    show ?case using Cons.IH[of "m(rebuilt_key x \<mapsto> x)"] Cons.prems by (auto split: if_splits)
  qed simp
  show "dom (next_prior rows) = rebuilt_key ` set rows" by (simp add: next_prior_def f)
  show "next_prior rows k = Some r \<Longrightarrow> r \<in> set rows \<and> rebuilt_key r = k" using g[of "\<lambda>_. None"] by (simp add: next_prior_def)
qed

definition iterates :: "((procKey \<rightharpoonup> ProcessRow) \<Rightarrow> (procKey \<times> ProcessRow) list) \<Rightarrow> bool" where
  "iterates order \<longleftrightarrow> (\<forall>m. finite (dom m) \<longrightarrow> set (order m) = {(k, v). m k = Some v})"

lemma stops_of_rows:
  assumes "iterates (pe_order env)"
  shows "pse_PID ` set (proc_stops env (next_prior rows) keys) = pk_pid ` (rebuilt_key ` set rows - keys)"
proof -
  have o: "set (pe_order env (next_prior rows)) = {(k, r). next_prior rows k = Some r}"
    using assms by (simp add: iterates_def next_prior_rows(1))
  have p: "pr_PID r = pk_pid k" if "next_prior rows k = Some r" for k r
    using next_prior_rows(2)[OF that] by (auto simp: rebuilt_key_def)
  have "pse_PID ` set (proc_stops env (next_prior rows) keys) = pk_pid ` (dom (next_prior rows) - keys)"
    using o p by (force simp: proc_stops_def stop_event_def image_iff)
  then show ?thesis by (simp add: next_prior_rows(1))
qed

lemma prior_after_collect:
  assumes "\<forall>p\<in>set procs. 0 \<le> pi_CreateTime p \<and> pi_CreateTime p < 240784704000000"
  shows "\<exists>rows. dx_priorProcs (snd (snd (collectProcesses env (Some procs) st))) = next_prior rows \<and>
    rebuilt_key ` set rows = truncated_key ` set (named procs)"
proof -
  obtain prev d where st: "st = (prev, d)" by (cases st)
  obtain rows seen prev' where t: "table_rows env procs prev = (rows, seen, prev')" by (metis prod_cases3)
  have m: "map (\<lambda>r. (pr_PID r, pr_StartedAt r)) rows = map (\<lambda>p. (pi_Pid p, started_text (pi_CreateTime p))) (named procs)"
    using rows_of_table[of env procs "[]" "{}" prev] t by (simp add: table_rows_def)
  have "map rebuilt_key rows = map truncated_key (named procs)"
  proof (rule nth_equalityI)
    show l: "length (map rebuilt_key rows) = length (map truncated_key (named procs))" using m by (metis length_map)
    fix i assume i: "i < length (map rebuilt_key rows)"
    then have j: "i < length rows" "i < length (named procs)" using l by simp_all
    have "(pr_PID (rows ! i), pr_StartedAt (rows ! i)) = (pi_Pid (named procs ! i), started_text (pi_CreateTime (named procs ! i)))"
      using arg_cong[OF m, of "\<lambda>xs. xs ! i"] j by simp
    moreover have "named procs ! i \<in> set procs" using j(2) nth_mem[of i "named procs"] by (simp add: named_def)
    ultimately show "map rebuilt_key rows ! i = map truncated_key (named procs) ! i"
      using rebuilt_of_started[of "rows ! i" "named procs ! i"] assms j by simp
  qed
  then have "rebuilt_key ` set rows = truncated_key ` set (named procs)" by (metis list.set_map)
  then show ?thesis
    using t by (auto simp: collectProcesses_def st noteProcesses_def pushStorage_def)
qed

text \<open>C30: Between two snapshots the processes reported as stopped are those whose start, cut to whole seconds, is not the start
  of a named process of the same id in the second one; they enter a ring that keeps the last 200.\<close>

theorem snapshot_stops:
  assumes "\<forall>p\<in>set procs. 0 \<le> pi_CreateTime p \<and> pi_CreateTime p < 240784704000000" "iterates (pe_order env')"
    and first: "snd (collectProcesses env (Some procs) st) = (trk, d)"
  shows "\<exists>stops. dx_stopped (snd (snd (collectProcesses env' (Some procs') (trk, d)))) = push_ring (dx_stopped d) stops \<and>
    pse_PID ` set stops = {pi_Pid p | p. p \<in> set (named procs) \<and>
      (\<forall>q\<in>set (named procs'). pi_Pid q = pi_Pid p \<longrightarrow> pi_CreateTime q \<noteq> pi_CreateTime p div 1000 * 1000)}"
proof -
  obtain rows where r: "dx_priorProcs d = next_prior rows" "rebuilt_key ` set rows = truncated_key ` set (named procs)"
    using prior_after_collect[OF assms(1), of env st] first by auto
  obtain rows2 seen2 prev2 where t: "table_rows env' procs' trk = (rows2, seen2, prev2)" by (metis prod_cases3)
  have k: "seen2 = proc_key ` set (named procs')"
    using keys_of_table[of env' procs' "[]" "{}" trk] t by (simp add: table_rows_def)
  let ?stops = "proc_stops env' (next_prior rows) seen2"
  have "dx_stopped (snd (snd (collectProcesses env' (Some procs') (trk, d)))) = push_ring (dx_stopped d) ?stops"
    by (simp add: collectProcesses_def t noteProcesses_def pushStorage_def r(1))
  moreover have "pse_PID ` set ?stops = pk_pid ` (truncated_key ` set (named procs) - proc_key ` set (named procs'))"
    using stops_of_rows[OF assms(2)] r(2) k by simp
  moreover have "\<dots> = {pi_Pid p | p. p \<in> set (named procs) \<and>
      (\<forall>q\<in>set (named procs'). pi_Pid q = pi_Pid p \<longrightarrow> pi_CreateTime q \<noteq> pi_CreateTime p div 1000 * 1000)}"
    (is "pk_pid ` ?gone = ?pids")
  proof
    show "pk_pid ` ?gone \<subseteq> ?pids"
    proof
      fix i assume "i \<in> pk_pid ` ?gone"
      then obtain p where p: "p \<in> set (named procs)" "truncated_key p \<notin> proc_key ` set (named procs')" "i = pi_Pid p"
        by (auto simp: truncated_key_def)
      then have "\<forall>q\<in>set (named procs'). proc_key q \<noteq> truncated_key p" by (metis image_eqI)
      then show "i \<in> ?pids" using p(1,3) by (auto simp: proc_key_def truncated_key_def)
    qed
    show "?pids \<subseteq> pk_pid ` ?gone"
    proof
      fix i assume "i \<in> ?pids"
      then obtain p where p: "p \<in> set (named procs)" "i = pi_Pid p"
          "\<forall>q\<in>set (named procs'). pi_Pid q = pi_Pid p \<longrightarrow> pi_CreateTime q \<noteq> pi_CreateTime p div 1000 * 1000" by blast
      then have "truncated_key p \<notin> proc_key ` set (named procs')" by (auto simp: proc_key_def truncated_key_def)
      then have "truncated_key p \<in> ?gone" using p(1) by blast
      then show "i \<in> pk_pid ` ?gone" using p(2) by (force simp: truncated_key_def)
    qed
  qed
  ultimately show ?thesis by auto
qed

definition demo_proc :: "int \<Rightarrow> int \<Rightarrow> proc_info" where
  "demo_proc pid ms = \<lparr>pi_Pid = pid, pi_Name = ''p'', pi_Username = None, pi_Cmdline = None, pi_CPUPercent = None, pi_RSS = None,
     pi_CreateTime = ms, pi_Nice = None, pi_IOCounters = None\<rparr>"

definition demo_proc_env :: "((procKey \<rightharpoonup> ProcessRow) \<Rightarrow> (procKey \<times> ProcessRow) list) \<Rightarrow> proc_env" where
  "demo_proc_env order = \<lparr>pe_now = 0, pe_arch = ''amd64'', pe_totalMem = 0, pe_oor = (\<lambda>_. 0), pe_oori = (\<lambda>_. 0), pe_order = order,
     pe_shuffle = (\<lambda>xs. xs), pe_shuffle_io = (\<lambda>xs. xs)\<rparr>"

definition demo_dex :: dexState where
  "demo_dex = \<lparr>dx_focusCounts = (\<lambda>_. None), dx_focusPID = (\<lambda>_. None), dx_focusLast = (\<lambda>_. None), dx_focusSamples = 0,
     dx_stopped = [], dx_storage = [], dx_priorProcs = (\<lambda>_. None)\<rparr>"

lemma some_iteration: "\<exists>order. iterates order"
proof -
  have "\<exists>xs. finite (dom m) \<longrightarrow> set xs = {(k, v). m k = Some v}" for m :: "procKey \<rightharpoonup> ProcessRow"
  proof (cases "finite (dom m)")
    case True
    moreover have "{(k, v). m k = Some v} = (\<lambda>k. (k, the (m k))) ` dom m" by force
    ultimately show ?thesis using finite_list by (metis finite_imageI)
  qed simp
  then show ?thesis unfolding iterates_def by metis
qed

theorem snapshot_stops_witness:
  "\<exists>order trk d stops. snd (collectProcesses (demo_proc_env order) (Some [demo_proc 7 1500, demo_proc 8 2000])
      ((\<lambda>_. None), demo_dex)) = (trk, d) \<and>
    dx_stopped (snd (snd (collectProcesses (demo_proc_env order) (Some [demo_proc 7 1500, demo_proc 8 2000]) (trk, d))))
      = push_ring (dx_stopped d) stops \<and> pse_PID ` set stops = {7}"
proof -
  obtain order where o: "iterates order" using some_iteration by blast
  let ?env = "demo_proc_env order" and ?ps = "[demo_proc 7 1500, demo_proc 8 2000]"
  obtain trk d where c: "snd (collectProcesses ?env (Some ?ps) ((\<lambda>_. None), demo_dex)) = (trk, d)" by (metis surj_pair)
  have n: "named ?ps = ?ps" by (simp add: named_def demo_proc_def)
  have t: "\<forall>p\<in>set ?ps. 0 \<le> pi_CreateTime p \<and> pi_CreateTime p < 240784704000000" by (simp add: demo_proc_def)
  have "{pi_Pid p | p. p \<in> set ?ps \<and> (\<forall>q\<in>set ?ps. pi_Pid q = pi_Pid p \<longrightarrow> pi_CreateTime q \<noteq> pi_CreateTime p div 1000 * 1000)} = {7}"
    by (auto simp: demo_proc_def intro!: exI[of _ "demo_proc 7 1500"])
  then show ?thesis
    using snapshot_stops[OF t _ c, of ?env ?ps] o c n by (auto simp: demo_proc_env_def)
qed

text \<open>A process that did not start on a full second is reported as stopped while it runs: it is in both snapshots.\<close>

theorem living_process_reported:
  assumes "p \<in> set procs \<inter> set procs'" "pi_Name p \<noteq> []" "pi_CreateTime p mod 1000 \<noteq> 0"
    and "\<forall>q\<in>set procs'. pi_Pid q = pi_Pid p \<longrightarrow> q = p"
    and "\<forall>p\<in>set procs. 0 \<le> pi_CreateTime p \<and> pi_CreateTime p < 240784704000000" "iterates (pe_order env')"
  shows "pi_Pid p \<in> pse_PID ` set (proc_stops env'
    (dx_priorProcs (snd (snd (collectProcesses env (Some procs) st)))) (proc_key ` set (named procs')))"
proof -
  obtain rows where r: "dx_priorProcs (snd (snd (collectProcesses env (Some procs) st))) = next_prior rows"
      "rebuilt_key ` set rows = truncated_key ` set (named procs)"
    using prior_after_collect[OF assms(5), of env st] by blast
  have "truncated_key p \<in> rebuilt_key ` set rows" using assms(1,2) r(2) by (auto simp: named_def)
  moreover have "pi_CreateTime p \<noteq> pi_CreateTime p div 1000 * 1000" using assms(3) by (simp add: minus_mod_eq_div_mult[symmetric])
  then have "truncated_key p \<notin> proc_key ` set (named procs')"
    using assms(4) by (auto simp: truncated_key_def proc_key_def named_def)
  ultimately have "truncated_key p \<in> rebuilt_key ` set rows - proc_key ` set (named procs')" by blast
  moreover have "pi_Pid p = pk_pid (truncated_key p)" by (simp add: truncated_key_def)
  ultimately have "pi_Pid p \<in> pk_pid ` (rebuilt_key ` set rows - proc_key ` set (named procs'))" by (metis image_eqI)
  then show ?thesis using stops_of_rows[OF assms(6)] r(1) by simp
qed

subsection \<open>The tables hold the largest\<close>

text \<open>What a table leaves out does not come before what it shows.\<close>

lemma top_rows_largest:
  fixes f :: "ProcessRow \<Rightarrow> 'b :: linorder"
  assumes "\<And>a b. before a b \<longleftrightarrow> f a < f b" "mset (pe_shuffle env rows) = mset rows"
  shows "\<exists>rest. mset (top_rows env n before rows @ rest) = mset rows \<and> length (top_rows env n before rows) = min n (length rows) \<and>
    (\<forall>r\<in>set (top_rows env n before rows). \<forall>q\<in>set rest. f r \<le> f q)"
proof -
  let ?xs = "sort_by before (pe_shuffle env rows)"
  have s: "sorted_wrt (\<lambda>a b. f a \<le> f b) (take n ?xs @ drop n ?xs)" using sort_by_sorted[of before f, OF assms(1)] by simp
  have m: "mset ?xs = mset rows" using assms(2) by simp
  then have "length ?xs = length rows" by (metis size_mset)
  then show ?thesis using s m unfolding top_rows_def sorted_wrt_append
    by (intro exI[of _ "drop n ?xs"]) (auto simp flip: mset_append)
qed

text \<open>The insertion sort of \<open>topApps\<close> sorts: the seconds descend when they are finite.\<close>

definition secs_of :: "string \<times> f64 \<Rightarrow> rat" where
  "secs_of p = (case snd p of Fin x \<Rightarrow> x | _ \<Rightarrow> 0)"

theorem sort_pairs_sorts:
  assumes "\<forall>p\<in>set ps. \<exists>x. snd p = Fin x"
  shows "mset (sort_pairs ps) = mset ps \<and> sorted_wrt (\<lambda>a b. secs_of b \<le> secs_of a) (sort_pairs ps)"
proof -
  have "f64_lt (snd b) (snd a) \<longleftrightarrow> - secs_of a < - secs_of b" if ab: "a \<in> set ps" "b \<in> set ps" for a b
  proof -
    obtain x y where "snd a = Fin x" "snd b = Fin y" using assms ab by metis
    then show ?thesis by (simp add: secs_of_def)
  qed
  from insertion_sort_sorts[of ps _ "\<lambda>p. - secs_of p", OF this] show ?thesis by (simp add: sort_pairs_def)
qed

end
