(* ===== verification/Agent_Ingest.thy ===== *)
theory Agent_Ingest
  imports Sonar_Prelude Float64 Go_Calendar
begin

text \<open>
  How a metrics frame of an agent is stored (\<open>ingestMetrics\<close> and its helpers in
  \<open>internal/api/handlers_agent_telemetry.go\<close>): the columns of the agent, its public address with what GeoIP knows of
  it, and the samples. The transaction is a state with the tables as written so far; a statement that fails aborts it,
  and every statement after it fails. The decoded frame, the GeoIP database and which texts PostgreSQL takes for an
  address are parameters.
\<close>

subsection \<open>The decoded snapshot\<close>

record parsedDisk =
  pd_Mountpoint :: string
  pd_TotalBytes :: u64
  pd_UsedBytes :: u64

record parsedNIC =
  pn_Name :: string
  pn_Kind :: string
  pn_Up :: bool
  pn_Addresses :: "string list"
  pn_BytesSentBps :: u64
  pn_BytesRecvBps :: u64

record parsedLatency =
  pl_Target :: string
  pl_Address :: string
  pl_AvgMs :: f64
  pl_MinMs :: f64
  pl_MaxMs :: f64
  pl_LossPct :: f64

record parsedSnapshot =
  ps_UptimeSeconds :: u64
  ps_PublicIP :: string
  ps_CPU :: f64
  ps_MemTotal :: u64
  ps_MemUsed :: u64
  ps_Disks :: "parsedDisk list"
  ps_NICs :: "parsedNIC list"
  ps_Latency :: "parsedLatency list"
  ps_PendingReboot :: bool

subsection \<open>Headline values\<close>

definition nic_counts :: "bool \<Rightarrow> parsedNIC \<Rightarrow> bool" where
  "nic_counts hasKind n \<longleftrightarrow> pn_Up n \<and>
     (if hasKind then pn_Kind n = ''wired'' \<or> pn_Kind n = ''wireless''
      else \<not> (equal_fold (pn_Name n) ''lo'' \<or> has_prefix (to_lower (pn_Name n)) ''loopback''))"

definition add_nic :: "bool \<Rightarrow> parsedNIC \<Rightarrow> u64 \<times> u64 \<times> bool \<Rightarrow> u64 \<times> u64 \<times> bool" where
  "add_nic hasKind n acc =
     (case acc of (i, out, ok) \<Rightarrow>
        if nic_counts hasKind n then (i + pn_BytesRecvBps n, out + pn_BytesSentBps n, True) else acc)"

definition sumPhysicalNICBps :: "parsedNIC list \<Rightarrow> u64 \<times> u64 \<times> bool" where
  "sumPhysicalNICBps nics = fold (add_nic (list_ex (\<lambda>n. pn_Kind n \<noteq> []) nics)) nics (0, 0, False)"

definition parseRFC3339OrNow :: "int \<Rightarrow> string \<Rightarrow> int" where
  "parseRFC3339OrNow now s =
     (if s = [] then now else case parse_RFC3339Nano s of Some t \<Rightarrow> t | None \<Rightarrow> now)"

definition root_mount :: "string \<Rightarrow> bool" where
  "root_mount mountpoint = (let mp = to_lower (trim_space mountpoint) in
     mp = ''/'' \<or> mp = ''c:'' \<or> mp = [CHR ''c'', CHR '':'', CHR 0x5C])"

definition larger_disk :: "parsedDisk \<Rightarrow> u64 \<times> u64 \<times> u64 \<Rightarrow> u64 \<times> u64 \<times> u64" where
  "larger_disk d acc = (case acc of (best, used, all_bytes) \<Rightarrow>
     if best < pd_TotalBytes d then (pd_TotalBytes d, pd_UsedBytes d, pd_TotalBytes d) else acc)"

definition pickRootDisk :: "parsedDisk list \<Rightarrow> u64 \<times> u64" where
  "pickRootDisk disks =
     (case find (\<lambda>d. root_mount (pd_Mountpoint d)) disks of
        Some d \<Rightarrow> (pd_UsedBytes d, pd_TotalBytes d)
      | None \<Rightarrow> snd (fold larger_disk disks (0, 0, 0)))"

definition stripCIDR :: "string \<Rightarrow> string" where
  "stripCIDR addr = takeWhile (\<lambda>c. c \<noteq> CHR ''/'') addr"

definition isLoopbackOrLinkLocal :: "string \<Rightarrow> bool" where
  "isLoopbackOrLinkLocal ip \<longleftrightarrow> has_prefix ip ''127.'' \<or> has_prefix ip ''169.254.'' \<or> ip = ''::1''"

definition headline_ip :: "string \<Rightarrow> bool" where
  "headline_ip ip \<longleftrightarrow> ip \<noteq> [] \<and> \<not> isLoopbackOrLinkLocal ip \<and> \<not> contains ip '':''"

definition pickPrimaryIP :: "parsedNIC list \<Rightarrow> string" where
  "pickPrimaryIP nics =
     (case find headline_ip (concat (map (\<lambda>n. if pn_Up n then map stripCIDR (pn_Addresses n) else []) nics)) of
        None \<Rightarrow> [] | Some ip \<Rightarrow> ip)"

text \<open>\<open>int64(v)\<close> keeps the bits; a zero is NULL.\<close>

definition nullableUint64 :: "u64 \<Rightarrow> int option" where
  "nullableUint64 v = (if v = 0 then None else Some (sint v))"

definition nullableFloat64 :: "f64 \<Rightarrow> f64 option" where
  "nullableFloat64 v = (if f64_eq v (Fin 0) then None else Some v)"

definition NULLIF_text :: "string \<Rightarrow> string option" where
  "NULLIF_text s = (if s = [] then None else Some s)"

subsection \<open>Tables\<close>

record geo_result =
  gr_CountryISO :: string
  gr_CountryName :: string
  gr_Subdivision :: string
  gr_City :: string
  gr_Lat :: f64
  gr_Lon :: f64
  gr_ASN :: int
  gr_Organization :: string

record geo_columns =
  gc_country_iso :: "string option"
  gc_country_name :: "string option"
  gc_subdivision :: "string option"
  gc_city :: "string option"
  gc_lat :: "f64 option"
  gc_lon :: "f64 option"
  gc_asn :: "int option"
  gc_org :: "string option"

text \<open>The columns of \<open>agents\<close> that a frame reads or writes. \<open>am_last_metrics\<close> is the JSON text.\<close>

record agent_metrics =
  am_site :: uuid
  am_criticality :: "string option"
  am_hostname :: string
  am_group :: "uuid option"
  am_last_seen :: "int option"
  am_last_metrics :: "string option"
  am_last_metrics_at :: "int option"
  am_cpu_pct :: "f64 option"
  am_mem_used :: "int option"
  am_mem_total :: "int option"
  am_root_used :: "int option"
  am_root_total :: "int option"
  am_uptime :: "int option"
  am_pending_reboot :: bool
  am_primary_ip :: "string option"
  am_public_ip :: "string option"
  am_public_ip_seen :: "int option"
  am_geo :: geo_columns
  am_geo_resolved :: "int option"

record metric_sample =
  ms_cpu :: f64
  ms_mem_used :: int
  ms_mem_total :: int
  ms_root_used :: "int option"
  ms_root_total :: "int option"

record latency_sample =
  ls_address :: "string option"
  ls_avg :: f64
  ls_min :: f64
  ls_max :: f64
  ls_loss :: f64

record ingest_db =
  ib_agents :: "uuid \<rightharpoonup> agent_metrics"
  ib_samples :: "uuid \<times> int \<rightharpoonup> metric_sample"
  ib_network :: "uuid \<times> int \<rightharpoonup> int \<times> int"
  ib_latency :: "uuid \<times> int \<times> string \<rightharpoonup> latency_sample"

text \<open>\<open>ie_fault n\<close> is the failure of the n-th statement, counted from the first query of the transaction; the commit
  is the one after the last. Instants are nanoseconds, the columns keep microseconds.\<close>

record ingest_env =
  ie_now :: int
  ie_begin :: "string option"
  ie_fault :: "nat \<Rightarrow> string option"
  ie_inet :: "string \<Rightarrow> bool"
  ie_geo :: "(string \<Rightarrow> geo_result option) option"

definition pg_time :: "int \<Rightarrow> int" where
  "pg_time t = t div 1000 * 1000"

subsection \<open>Statements\<close>

text \<open>What each statement makes of the tables when it is accepted. A row that is not there is not updated.\<close>

definition on_agent :: "uuid \<Rightarrow> (agent_metrics \<Rightarrow> agent_metrics) \<Rightarrow> ingest_db \<Rightarrow> ingest_db" where
  "on_agent i f db = db\<lparr>ib_agents := (ib_agents db)(i := map_option f (ib_agents db i))\<rparr>"

definition headline_update :: "int \<Rightarrow> string \<Rightarrow> parsedSnapshot \<Rightarrow> int \<Rightarrow> agent_metrics \<Rightarrow> agent_metrics" where
  "headline_update now raw ps sentAt a =
     (case pickRootDisk (ps_Disks ps) of (rootUsed, rootTotal) \<Rightarrow>
      a\<lparr>am_last_metrics := Some raw, am_last_metrics_at := Some (pg_time sentAt), am_cpu_pct := Some (ps_CPU ps),
        am_mem_used := Some (uint (ps_MemUsed ps)), am_mem_total := Some (uint (ps_MemTotal ps)),
        am_root_used := nullableUint64 rootUsed, am_root_total := nullableUint64 rootTotal,
        am_uptime := Some (uint (ps_UptimeSeconds ps)), am_pending_reboot := ps_PendingReboot ps,
        am_primary_ip := NULLIF_text (pickPrimaryIP (ps_NICs ps)), am_last_seen := Some (pg_time now)\<rparr>)"

definition public_ip_update :: "string \<Rightarrow> int \<Rightarrow> agent_metrics \<Rightarrow> agent_metrics" where
  "public_ip_update ip sentAt a = a\<lparr>am_public_ip := NULLIF_text ip, am_public_ip_seen := Some (pg_time sentAt)\<rparr>"

definition geo_columns_of :: "geo_result \<Rightarrow> geo_columns" where
  "geo_columns_of g =
     \<lparr>gc_country_iso = NULLIF_text (gr_CountryISO g), gc_country_name = NULLIF_text (gr_CountryName g),
      gc_subdivision = NULLIF_text (gr_Subdivision g), gc_city = NULLIF_text (gr_City g),
      gc_lat = nullableFloat64 (gr_Lat g), gc_lon = nullableFloat64 (gr_Lon g),
      gc_asn = (if gr_ASN g = 0 then None else Some (gr_ASN g)), gc_org = NULLIF_text (gr_Organization g)\<rparr>"

definition geoTTL :: int where "geoTTL = 7 * 24 * 3600 * 1000000000"

definition needs_lookup :: "ingest_env \<Rightarrow> string \<Rightarrow> agent_metrics \<Rightarrow> bool" where
  "needs_lookup env ip a \<longleftrightarrow> ie_geo env \<noteq> None \<and>
     (am_public_ip a \<noteq> Some ip \<or>
      (case am_geo_resolved a of None \<Rightarrow> True | Some t \<Rightarrow> geoTTL < time_sub (ie_now env) t))"

definition geo_update :: "ingest_env \<Rightarrow> string \<Rightarrow> int \<Rightarrow> agent_metrics \<Rightarrow> agent_metrics" where
  "geo_update env ip sentAt a =
     (if \<not> needs_lookup env ip a then public_ip_update ip sentAt a
      else case the (ie_geo env) ip of
             None \<Rightarrow> (public_ip_update ip sentAt a)\<lparr>am_geo_resolved := Some (pg_time sentAt)\<rparr>
           | Some g \<Rightarrow> (public_ip_update ip sentAt a)\<lparr>am_geo := geo_columns_of g, am_geo_resolved := Some (pg_time sentAt)\<rparr>)"

definition metric_sample_of :: "parsedSnapshot \<Rightarrow> metric_sample" where
  "metric_sample_of ps =
     (case pickRootDisk (ps_Disks ps) of (rootUsed, rootTotal) \<Rightarrow>
      \<lparr>ms_cpu = ps_CPU ps, ms_mem_used = uint (ps_MemUsed ps), ms_mem_total = uint (ps_MemTotal ps),
       ms_root_used = nullableUint64 rootUsed, ms_root_total = nullableUint64 rootTotal\<rparr>)"

definition latency_sample_of :: "parsedLatency \<Rightarrow> latency_sample" where
  "latency_sample_of lr =
     \<lparr>ls_address = NULLIF_text (pl_Address lr), ls_avg = pl_AvgMs lr, ls_min = pl_MinMs lr, ls_max = pl_MaxMs lr,
      ls_loss = pl_LossPct lr\<rparr>"

text \<open>A 64-bit number beyond the range of BIGINT and a text that is no address are refused.\<close>

definition fits_bigint :: "u64 \<Rightarrow> bool" where
  "fits_bigint v \<longleftrightarrow> uint v < 2 ^ 63"

definition inet_ok :: "ingest_env \<Rightarrow> string \<Rightarrow> bool" where
  "inet_ok env s \<longleftrightarrow> s = [] \<or> ie_inet env s"

subsection \<open>The transaction\<close>

record ingest_tx =
  it_db :: ingest_db
  it_step :: nat
  it_aborted :: bool

definition ix_stmt ::
    "ingest_env \<Rightarrow> string \<Rightarrow> (ingest_db \<Rightarrow> string + 'a \<times> ingest_db) \<Rightarrow> ingest_tx \<Rightarrow> (string + 'a) \<times> ingest_tx" where
  "ix_stmt env msg f t =
     (let t' = t\<lparr>it_step := Suc (it_step t)\<rparr> in
      if it_aborted t then (Inl (msg @ ''current transaction is aborted''), t')
      else case ie_fault env (it_step t) of
             Some e \<Rightarrow> (Inl (msg @ e), t'\<lparr>it_aborted := True\<rparr>)
           | None \<Rightarrow> (case f (it_db t) of
                        Inl e \<Rightarrow> (Inl (msg @ e), t'\<lparr>it_aborted := True\<rparr>)
                      | Inr (x, db) \<Rightarrow> (Inr x, t'\<lparr>it_db := db\<rparr>)))"

definition ix_bind ::
    "(ingest_tx \<Rightarrow> (string + 'a) \<times> ingest_tx) \<Rightarrow> ('a \<Rightarrow> ingest_tx \<Rightarrow> (string + 'b) \<times> ingest_tx) \<Rightarrow> ingest_tx \<Rightarrow> (string + 'b) \<times> ingest_tx" where
  "ix_bind m k t = (case m t of (Inl e, t') \<Rightarrow> (Inl e, t') | (Inr x, t') \<Rightarrow> k x t')"

definition ix_ok :: "ingest_tx \<Rightarrow> (string + unit) \<times> ingest_tx" where
  "ix_ok t = (Inr (), t)"

text \<open>A failure that is logged only.\<close>

definition ix_logged :: "(ingest_tx \<Rightarrow> (string + unit) \<times> ingest_tx) \<Rightarrow> ingest_tx \<Rightarrow> (string + unit) \<times> ingest_tx" where
  "ix_logged m t = (Inr (), snd (m t))"

definition guarded :: "bool \<Rightarrow> (ingest_db \<Rightarrow> ingest_db) \<Rightarrow> ingest_db \<Rightarrow> string + unit \<times> ingest_db" where
  "guarded ok f db = (if ok then Inr ((), f db) else Inl ''invalid value'')"

definition read_agent :: "uuid \<Rightarrow> ingest_db \<Rightarrow> string + agent_metrics \<times> ingest_db" where
  "read_agent i db = (case ib_agents db i of None \<Rightarrow> Inl ''no rows in result set'' | Some a \<Rightarrow> Inr (a, db))"

definition maybeUpdateAgentGeo :: "ingest_env \<Rightarrow> uuid \<Rightarrow> string \<Rightarrow> int \<Rightarrow> ingest_tx \<Rightarrow> (string + unit) \<times> ingest_tx" where
  "maybeUpdateAgentGeo env i publicIP sentAt =
     ix_bind (ix_stmt env ''read current geo: '' (read_agent i)) (\<lambda>_.
       ix_stmt env [] (guarded (inet_ok env publicIP) (on_agent i (geo_update env publicIP sentAt))))"

fun insert_latency :: "ingest_env \<Rightarrow> uuid \<Rightarrow> int \<Rightarrow> parsedLatency list \<Rightarrow> ingest_tx \<Rightarrow> (string + unit) \<times> ingest_tx" where
  "insert_latency env i sentAt [] = ix_ok"
| "insert_latency env i sentAt (lr # lrs) =
     (if pl_Target lr = [] then insert_latency env i sentAt lrs
      else ix_bind (ix_stmt env ''insert latency sample: '' (guarded (inet_ok env (pl_Address lr))
             (\<lambda>db. db\<lparr>ib_latency := (ib_latency db)((i, pg_time sentAt, pl_Target lr) \<mapsto> latency_sample_of lr)\<rparr>)))
           (\<lambda>_. insert_latency env i sentAt lrs))"

definition ingest_body :: "ingest_env \<Rightarrow> uuid \<Rightarrow> string \<Rightarrow> parsedSnapshot \<Rightarrow> int \<Rightarrow> ingest_tx \<Rightarrow> (string + agent_metrics) \<times> ingest_tx" where
  "ingest_body env i raw ps sentAt =
     ix_bind (ix_stmt env ''read agent row: '' (read_agent i)) (\<lambda>before.
     ix_bind (ix_stmt env ''update agents: '' (guarded
                (fits_bigint (ps_MemUsed ps) \<and> fits_bigint (ps_MemTotal ps) \<and> fits_bigint (ps_UptimeSeconds ps) \<and>
                 inet_ok env (pickPrimaryIP (ps_NICs ps)))
                (on_agent i (headline_update (ie_now env) raw ps sentAt)))) (\<lambda>_.
     ix_bind (if ps_PublicIP ps = [] then ix_ok else ix_logged (maybeUpdateAgentGeo env i (ps_PublicIP ps) sentAt)) (\<lambda>_.
     ix_bind (ix_stmt env ''insert sample: '' (guarded (fits_bigint (ps_MemUsed ps) \<and> fits_bigint (ps_MemTotal ps))
                (\<lambda>db. db\<lparr>ib_samples := (ib_samples db)((i, pg_time sentAt) \<mapsto> metric_sample_of ps)\<rparr>))) (\<lambda>_.
     ix_bind (case sumPhysicalNICBps (ps_NICs ps) of (inBps, outBps, ok) \<Rightarrow>
                if ok then ix_stmt env ''insert network sample: '' (guarded True
                   (\<lambda>db. db\<lparr>ib_network := (ib_network db)((i, pg_time sentAt) \<mapsto> (sint inBps, sint outBps))\<rparr>))
                else ix_ok) (\<lambda>_.
     ix_bind (insert_latency env i sentAt (ps_Latency ps)) (\<lambda>_ t. (Inr before, t)))))))"

text \<open>The result is the row as it was before, from which the enrichment goes on. A commit of an aborted transaction
  fails.\<close>

definition ingestMetrics ::
    "ingest_env \<Rightarrow> uuid \<Rightarrow> string \<Rightarrow> string \<Rightarrow> parsedSnapshot option \<Rightarrow> ingest_db \<Rightarrow> (string + agent_metrics) \<times> ingest_db" where
  "ingestMetrics env i sent raw ps db =
     (case ps of
        None \<Rightarrow> (Inl ''decode snapshot fields'', db)
      | Some ps \<Rightarrow>
          (case ie_begin env of
             Some e \<Rightarrow> (Inl (''begin tx: '' @ e), db)
           | None \<Rightarrow>
               (case ingest_body env i raw ps (parseRFC3339OrNow (ie_now env) sent)
                       \<lparr>it_db = db, it_step = 0, it_aborted = False\<rparr> of
                  (Inl e, _) \<Rightarrow> (Inl e, db)
                | (Inr before, t) \<Rightarrow>
                    if it_aborted t then (Inl ''commit: transaction was aborted'', db)
                    else case ie_fault env (it_step t) of
                           Some e \<Rightarrow> (Inl (''commit: '' @ e), db)
                         | None \<Rightarrow> (Inr before, it_db t))))"

text \<open>A frame: its type decides. \<open>decode\<close> and \<open>decode_frame\<close> stand for the two decodings of the text.\<close>

record frame =
  fr_Type :: string
  fr_SentAt :: string
  fr_Snapshot :: string

definition handleAgentFrame ::
    "ingest_env \<Rightarrow> (string \<Rightarrow> frame option) \<Rightarrow> (string \<Rightarrow> parsedSnapshot option) \<Rightarrow> uuid \<Rightarrow> string \<Rightarrow> ingest_db \<Rightarrow>
     (string + agent_metrics) option \<times> ingest_db" where
  "handleAgentFrame env decode_frame decode i data db =
     (case decode_frame data of
        None \<Rightarrow> (None, db)
      | Some f \<Rightarrow>
          if fr_Type f = ''metrics'' \<and> fr_Snapshot f \<noteq> [] then
            (case ingestMetrics env i (fr_SentAt f) (fr_Snapshot f) (decode (fr_Snapshot f)) db of
               (r, db') \<Rightarrow> (Some r, db'))
          else (None, db))"

subsection \<open>A frame is stored as a whole\<close>

text \<open>What a frame does to the tables, without transaction or statements.\<close>

definition add_latency :: "uuid \<Rightarrow> int \<Rightarrow> parsedLatency \<Rightarrow> ingest_db \<Rightarrow> ingest_db" where
  "add_latency i sentAt lr db =
     (if pl_Target lr = [] then db
      else db\<lparr>ib_latency := (ib_latency db)((i, pg_time sentAt, pl_Target lr) \<mapsto> latency_sample_of lr)\<rparr>)"

definition with_sample :: "uuid \<Rightarrow> int \<Rightarrow> parsedSnapshot \<Rightarrow> ingest_db \<Rightarrow> ingest_db" where
  "with_sample i sentAt ps db = db\<lparr>ib_samples := (ib_samples db)((i, pg_time sentAt) \<mapsto> metric_sample_of ps)\<rparr>"

definition with_network :: "uuid \<Rightarrow> int \<Rightarrow> parsedSnapshot \<Rightarrow> ingest_db \<Rightarrow> ingest_db" where
  "with_network i sentAt ps db =
     (case sumPhysicalNICBps (ps_NICs ps) of (inBps, outBps, ok) \<Rightarrow>
        if ok then db\<lparr>ib_network := (ib_network db)((i, pg_time sentAt) \<mapsto> (sint inBps, sint outBps))\<rparr> else db)"

definition with_agent :: "ingest_env \<Rightarrow> uuid \<Rightarrow> string \<Rightarrow> parsedSnapshot \<Rightarrow> int \<Rightarrow> ingest_db \<Rightarrow> ingest_db" where
  "with_agent env i raw ps sentAt db =
     on_agent i ((if ps_PublicIP ps = [] then id else geo_update env (ps_PublicIP ps) sentAt) \<circ>
                 headline_update (ie_now env) raw ps sentAt) db"

definition ingested :: "ingest_env \<Rightarrow> uuid \<Rightarrow> string \<Rightarrow> parsedSnapshot \<Rightarrow> int \<Rightarrow> ingest_db \<Rightarrow> ingest_db" where
  "ingested env i raw ps sentAt db =
     fold (add_latency i sentAt) (ps_Latency ps)
       (with_network i sentAt ps (with_sample i sentAt ps (with_agent env i raw ps sentAt db)))"

lemma ix_bind_InrE:
  assumes "ix_bind m k t = (Inr y, t'')"
  obtains x t' where "m t = (Inr x, t')" "k x t' = (Inr y, t'')"
  using assms by (auto simp: ix_bind_def split: prod.splits sum.splits)

lemma ix_stmt_InrE:
  assumes "ix_stmt env msg f t = (Inr x, t')"
  obtains "\<not> it_aborted t" "f (it_db t) = Inr (x, it_db t')" "\<not> it_aborted t'"
  using assms by (auto simp: ix_stmt_def Let_def split: if_splits option.splits sum.splits prod.splits)

lemma ix_stmt_aborts: "ix_stmt env msg f t = (Inl e, t') \<Longrightarrow> it_aborted t'"
  by (auto simp: ix_stmt_def Let_def split: if_splits option.splits sum.splits prod.splits)

lemma guarded_Inr: "guarded ok f db = Inr (x, db') \<longleftrightarrow> ok \<and> db' = f db"
  by (auto simp: guarded_def)

lemma on_agent_twice: "on_agent i f (on_agent i g db) = on_agent i (f \<circ> g) db"
  by (simp add: on_agent_def option.map_comp)

lemma geo_kept_or_aborted:
  assumes "maybeUpdateAgentGeo env i ip sentAt t = (r, t')" "\<not> it_aborted t'"
  shows "it_db t' = on_agent i (geo_update env ip sentAt) (it_db t)"
proof (cases r)
  case (Inl e)
  then have "it_aborted t'"
    using assms(1) by (auto simp: maybeUpdateAgentGeo_def ix_bind_def split: prod.splits sum.splits dest: ix_stmt_aborts)
  then show ?thesis using assms(2) by simp
next
  case (Inr u)
  obtain a t1 where r: "ix_stmt env ''read current geo: '' (read_agent i) t = (Inr a, t1)"
    and w: "ix_stmt env [] (guarded (inet_ok env ip) (on_agent i (geo_update env ip sentAt))) t1 = (Inr u, t')"
    using assms(1) unfolding Inr maybeUpdateAgentGeo_def by (auto elim!: ix_bind_InrE)
  have "it_db t1 = it_db t" using r by (auto elim!: ix_stmt_InrE simp: read_agent_def split: option.splits)
  then show ?thesis using w by (auto elim!: ix_stmt_InrE simp: guarded_Inr)
qed

lemma latency_inserted:
  assumes "insert_latency env i sentAt lrs t = (Inr u, t')" "\<not> it_aborted t"
  shows "it_db t' = fold (add_latency i sentAt) lrs (it_db t) \<and> \<not> it_aborted t'"
  using assms
proof (induction lrs arbitrary: t)
  case Nil
  then show ?case by (simp add: ix_ok_def)
next
  case (Cons lr lrs)
  show ?case
  proof (cases "pl_Target lr = []")
    case True
    then show ?thesis using Cons by (simp add: add_latency_def)
  next
    case False
    then obtain v t1 where w: "ix_stmt env ''insert latency sample: '' (guarded (inet_ok env (pl_Address lr))
          (\<lambda>db. db\<lparr>ib_latency := (ib_latency db)((i, pg_time sentAt, pl_Target lr) \<mapsto> latency_sample_of lr)\<rparr>)) t = (Inr v, t1)"
        and rest: "insert_latency env i sentAt lrs t1 = (Inr u, t')"
      using Cons.prems(1) by (auto elim!: ix_bind_InrE)
    have "it_db t1 = add_latency i sentAt lr (it_db t)" "\<not> it_aborted t1"
      using w False by (auto elim!: ix_stmt_InrE simp: guarded_Inr add_latency_def)
    then show ?thesis using Cons.IH[OF rest] by simp
  qed
qed

lemma body_stores:
  assumes body: "ingest_body env i raw ps sentAt t = (Inr before, t')"
  shows "ib_agents (it_db t) i = Some before \<and> it_db t' = ingested env i raw ps sentAt (it_db t) \<and> \<not> it_aborted t'"
proof -
  obtain t1 t2 t3 t4 t5 u1 u2 u3 u4 where
      rd: "ix_stmt env ''read agent row: '' (read_agent i) t = (Inr before, t1)"
    and hd: "ix_stmt env ''update agents: '' (guarded
                (fits_bigint (ps_MemUsed ps) \<and> fits_bigint (ps_MemTotal ps) \<and> fits_bigint (ps_UptimeSeconds ps) \<and>
                 inet_ok env (pickPrimaryIP (ps_NICs ps)))
                (on_agent i (headline_update (ie_now env) raw ps sentAt))) t1 = (Inr u1, t2)"
    and geo: "(if ps_PublicIP ps = [] then ix_ok else ix_logged (maybeUpdateAgentGeo env i (ps_PublicIP ps) sentAt)) t2 = (Inr u2, t3)"
    and smp: "ix_stmt env ''insert sample: '' (guarded (fits_bigint (ps_MemUsed ps) \<and> fits_bigint (ps_MemTotal ps))
                (\<lambda>db. db\<lparr>ib_samples := (ib_samples db)((i, pg_time sentAt) \<mapsto> metric_sample_of ps)\<rparr>)) t3 = (Inr u3, t4)"
    and net: "(case sumPhysicalNICBps (ps_NICs ps) of (inBps, outBps, ok) \<Rightarrow>
                if ok then ix_stmt env ''insert network sample: '' (guarded True
                   (\<lambda>db. db\<lparr>ib_network := (ib_network db)((i, pg_time sentAt) \<mapsto> (sint inBps, sint outBps))\<rparr>))
                else ix_ok) t4 = (Inr u4, t5)"
    and lat: "ix_bind (insert_latency env i sentAt (ps_Latency ps)) (\<lambda>_ t. (Inr before, t)) t5 = (Inr before, t')"
    using body unfolding ingest_body_def by (elim ix_bind_InrE) (auto simp: ix_bind_def split: prod.splits sum.splits)
  have 1: "ib_agents (it_db t) i = Some before" "it_db t1 = it_db t"
    using rd by (auto elim!: ix_stmt_InrE simp: read_agent_def split: option.splits)
  have 2: "it_db t2 = on_agent i (headline_update (ie_now env) raw ps sentAt) (it_db t)"
    using hd 1(2) by (auto elim!: ix_stmt_InrE simp: guarded_Inr)
  have 4: "\<not> it_aborted t3" "it_db t4 = with_sample i sentAt ps (it_db t3)" "\<not> it_aborted t4"
    using smp by (auto elim!: ix_stmt_InrE simp: guarded_Inr with_sample_def)
  have 3: "it_db t3 = with_agent env i raw ps sentAt (it_db t)"
  proof (cases "ps_PublicIP ps = []")
    case True
    then show ?thesis using geo 2 by (simp add: ix_ok_def with_agent_def)
  next
    case False
    then have "it_db t3 = on_agent i (geo_update env (ps_PublicIP ps) sentAt) (it_db t2)"
      using geo 4(1) geo_kept_or_aborted[of env i "ps_PublicIP ps" sentAt t2
          "fst (maybeUpdateAgentGeo env i (ps_PublicIP ps) sentAt t2)" "snd (maybeUpdateAgentGeo env i (ps_PublicIP ps) sentAt t2)"]
      by (auto simp: ix_logged_def)
    then show ?thesis using False 2 by (simp add: with_agent_def on_agent_twice)
  qed
  have 5: "it_db t5 = with_network i sentAt ps (it_db t4) \<and> \<not> it_aborted t5"
    using net 4(3) by (auto elim!: ix_stmt_InrE simp: guarded_Inr with_network_def ix_ok_def split: prod.splits if_splits)
  obtain u where "insert_latency env i sentAt (ps_Latency ps) t5 = (Inr u, t')"
    using lat by (auto elim!: ix_bind_InrE)
  then have "it_db t' = fold (add_latency i sentAt) (ps_Latency ps) (it_db t5) \<and> \<not> it_aborted t'"
    using latency_inserted 5 by blast
  then show ?thesis using 1(1) 3 4(2) 5 by (simp add: ingested_def)
qed

text \<open>C26: A metrics frame is stored as a whole or not at all: when it is answered with success the tables are those with the
  columns of the agent, its address and the samples of the frame, all at one instant, and after any failure, GeoIP's
  included, they are as before.\<close>

theorem ingest_all_or_nothing:
  "case ingestMetrics env i sent raw (Some ps) db of
     (Inl e, db') \<Rightarrow> db' = db
   | (Inr before, db') \<Rightarrow> ib_agents db i = Some before \<and>
       db' = ingested env i raw ps (parseRFC3339OrNow (ie_now env) sent) db"
proof (cases "ingestMetrics env i sent raw (Some ps) db")
  case (Pair r db')
  show ?thesis
  proof (cases r)
    case (Inl e)
    then have "db' = db" using Pair by (auto simp: ingestMetrics_def split: option.splits prod.splits sum.splits if_splits)
    then show ?thesis using Pair Inl by simp
  next
    case (Inr before)
    then obtain t where b: "ingest_body env i raw ps (parseRFC3339OrNow (ie_now env) sent)
        \<lparr>it_db = db, it_step = 0, it_aborted = False\<rparr> = (Inr before, t)" and "db' = it_db t"
      using Pair by (auto simp: ingestMetrics_def split: option.splits prod.splits sum.splits if_splits)
    then show ?thesis using body_stores[OF b] Pair Inr by simp
  qed
qed

subsection \<open>Frames that are accepted\<close>

definition acceptable :: "ingest_env \<Rightarrow> parsedSnapshot \<Rightarrow> bool" where
  "acceptable env ps \<longleftrightarrow> ie_begin env = None \<and> (\<forall>n. ie_fault env n = None) \<and>
     fits_bigint (ps_MemUsed ps) \<and> fits_bigint (ps_MemTotal ps) \<and> fits_bigint (ps_UptimeSeconds ps) \<and>
     inet_ok env (pickPrimaryIP (ps_NICs ps)) \<and> inet_ok env (ps_PublicIP ps) \<and>
     (\<forall>lr\<in>set (ps_Latency ps). pl_Target lr \<noteq> [] \<longrightarrow> inet_ok env (pl_Address lr))"

lemma ix_stmt_passes:
  assumes "\<forall>n. ie_fault env n = None" "\<not> it_aborted t" "f (it_db t) = Inr (x, db)"
  shows "ix_stmt env msg f t = (Inr x, t\<lparr>it_db := db, it_step := Suc (it_step t)\<rparr>)"
  using assms by (simp add: ix_stmt_def Let_def)

lemma latency_passes:
  assumes "\<forall>n. ie_fault env n = None" "\<not> it_aborted t" "\<forall>lr\<in>set lrs. pl_Target lr \<noteq> [] \<longrightarrow> inet_ok env (pl_Address lr)"
  shows "\<exists>t'. insert_latency env i sentAt lrs t = (Inr (), t')"
  using assms(2,3)
proof (induction lrs arbitrary: t)
  case (Cons lr lrs)
  then show ?case by (auto simp: ix_bind_def ix_stmt_passes[OF assms(1)] guarded_def)
qed (simp add: ix_ok_def)

lemma body_passes:
  assumes ok: "acceptable env ps" and t: "\<not> it_aborted t" "ib_agents (it_db t) i = Some a"
  shows "\<exists>t'. ingest_body env i raw ps sentAt t = (Inr a, t')"
proof -
  note nf = ok[unfolded acceptable_def, THEN conjunct2, THEN conjunct1]
  have o: "ib_agents (on_agent i f db) i = map_option f (ib_agents db i)" for f db by (simp add: on_agent_def)
  let ?geo = "\<lambda>t. if ps_PublicIP ps = [] then ix_ok t else ix_logged (maybeUpdateAgentGeo env i (ps_PublicIP ps) sentAt) t"
  have g: "\<exists>t'. ?geo t = (Inr (), t') \<and> \<not> it_aborted t'" if "\<not> it_aborted t" "ib_agents (it_db t) i = Some b" for t b
    using that ok nf
    by (auto simp: ix_ok_def ix_logged_def maybeUpdateAgentGeo_def ix_bind_def ix_stmt_passes read_agent_def guarded_def acceptable_def)
  let ?t2 = "t\<lparr>it_db := on_agent i (headline_update (ie_now env) raw ps sentAt) (it_db t), it_step := Suc (Suc (it_step t))\<rparr>"
  obtain t3 where t3: "?geo ?t2 = (Inr (), t3)" "\<not> it_aborted t3" using g[of ?t2] t by (auto simp: o)
  let ?t4 = "t3\<lparr>it_db := with_sample i sentAt ps (it_db t3), it_step := Suc (it_step t3)\<rparr>"
  obtain inB outB hasNIC where nic: "sumPhysicalNICBps (ps_NICs ps) = (inB, outB, hasNIC)" by (metis prod_cases3)
  obtain t5 where t5: "(if hasNIC then ix_stmt env ''insert network sample: '' (guarded True
      (\<lambda>db. db\<lparr>ib_network := (ib_network db)((i, pg_time sentAt) \<mapsto> (sint inB, sint outB))\<rparr>)) else ix_ok) ?t4 = (Inr (), t5)"
      "\<not> it_aborted t5"
    using t3(2) by (cases hasNIC) (simp_all add: ix_stmt_passes[OF nf] guarded_def ix_ok_def)
  obtain t6 where t6: "insert_latency env i sentAt (ps_Latency ps) t5 = (Inr (), t6)"
    using latency_passes[OF nf t5(2), of "ps_Latency ps" i sentAt] ok unfolding acceptable_def by blast
  have r: "ix_stmt env ''read agent row: '' (read_agent i) t = (Inr a, t\<lparr>it_step := Suc (it_step t)\<rparr>)"
    using t by (simp add: ix_stmt_passes[OF nf] read_agent_def)
  have h: "ix_stmt env ''update agents: '' (guarded
                (fits_bigint (ps_MemUsed ps) \<and> fits_bigint (ps_MemTotal ps) \<and> fits_bigint (ps_UptimeSeconds ps) \<and>
                 inet_ok env (pickPrimaryIP (ps_NICs ps)))
                (on_agent i (headline_update (ie_now env) raw ps sentAt))) (t\<lparr>it_step := Suc (it_step t)\<rparr>) = (Inr (), ?t2)"
    using t ok by (simp add: ix_stmt_passes[OF nf] guarded_def acceptable_def)
  have s: "ix_stmt env ''insert sample: '' (guarded (fits_bigint (ps_MemUsed ps) \<and> fits_bigint (ps_MemTotal ps))
                (\<lambda>db. db\<lparr>ib_samples := (ib_samples db)((i, pg_time sentAt) \<mapsto> metric_sample_of ps)\<rparr>)) t3 = (Inr (), ?t4)"
    using t3(2) ok by (simp add: ix_stmt_passes[OF nf] guarded_def acceptable_def with_sample_def)
  have g2: "(if ps_PublicIP ps = [] then ix_ok else ix_logged (maybeUpdateAgentGeo env i (ps_PublicIP ps) sentAt)) ?t2 = (Inr (), t3)"
    using t3(1) by (simp split: if_splits)
  show ?thesis
    unfolding ingest_body_def nic by (simp add: ix_bind_def r h g2 s t5(1) t6)
qed

text \<open>Without faults a frame whose numbers and addresses the columns take is stored.\<close>

theorem ingest_accepted:
  assumes "acceptable env ps" "ib_agents db i = Some a"
  shows "ingestMetrics env i sent raw (Some ps) db = (Inr a, ingested env i raw ps (parseRFC3339OrNow (ie_now env) sent) db)"
proof -
  let ?t = "\<lparr>it_db = db, it_step = 0, it_aborted = False\<rparr>" and ?at = "parseRFC3339OrNow (ie_now env) sent"
  obtain t where b: "ingest_body env i raw ps ?at ?t = (Inr a, t)" using body_passes[OF assms(1), of ?t i a] assms(2) by auto
  show ?thesis using body_stores[OF b] b assms(1) by (simp add: ingestMetrics_def acceptable_def)
qed

subsection \<open>Which frame is the latest\<close>

lemma ingested_parts:
  "ib_samples (ingested env i raw ps sentAt db) = (ib_samples db)((i, pg_time sentAt) \<mapsto> metric_sample_of ps)"
  "ib_agents (ingested env i raw ps sentAt db) = ib_agents (with_agent env i raw ps sentAt db)"
proof -
  have f: "ib_samples (fold (add_latency i sentAt) lrs d) = ib_samples d \<and> ib_agents (fold (add_latency i sentAt) lrs d) = ib_agents d" for lrs d
    by (induction lrs arbitrary: d) (simp_all add: add_latency_def)
  have n: "ib_samples (with_network i sentAt ps d) = ib_samples d \<and> ib_agents (with_network i sentAt ps d) = ib_agents d" for d
    by (simp add: with_network_def split: prod.split)
  show "ib_samples (ingested env i raw ps sentAt db) = (ib_samples db)((i, pg_time sentAt) \<mapsto> metric_sample_of ps)"
    "ib_agents (ingested env i raw ps sentAt db) = ib_agents (with_agent env i raw ps sentAt db)"
    by (simp_all add: ingested_def f n with_sample_def with_agent_def on_agent_def)
qed

lemma latest_columns:
  assumes "ib_agents db i = Some a"
  shows "map_option (\<lambda>a. (am_last_metrics a, am_last_metrics_at a)) (ib_agents (ingested env i raw ps sentAt db) i)
    = Some (Some raw, Some (pg_time sentAt))"
  using assms
  by (simp add: ingested_parts with_agent_def on_agent_def headline_update_def geo_update_def public_ip_update_def
      split: prod.split option.split)

text \<open>The frame that arrived last is the one of the detail page, whatever the instants say: the columns may hold an older
  frame than the newest sample.\<close>

theorem older_frame_wins:
  assumes "ib_agents db i = Some a" "pg_time t1 < pg_time t2"
  shows "map_option am_last_metrics_at (ib_agents (ingested env' i raw' ps' t1 (ingested env i raw ps t2 db)) i) = Some (Some (pg_time t1)) \<and>
    ib_samples (ingested env' i raw' ps' t1 (ingested env i raw ps t2 db)) (i, pg_time t2) = Some (metric_sample_of ps)"
proof -
  obtain b where "ib_agents (ingested env i raw ps t2 db) i = Some b"
    using latest_columns[OF assms(1), of env raw ps t2] by (cases "ib_agents (ingested env i raw ps t2 db) i") simp_all
  then show ?thesis
    using latest_columns[of "ingested env i raw ps t2 db" i b env' raw' ps' t1] assms(2) by (auto simp: ingested_parts)
qed

text \<open>A lookup is dated by the clock of the probe and ages by that of the server: one dated in the future is never stale
  while it lasts.\<close>

theorem future_clock_keeps_geo:
  assumes "am_public_ip a = Some ip" "am_geo_resolved a = Some t" "ie_now env - geoTTL \<le> t"
  shows "\<not> needs_lookup env ip a"
  using assms by (simp add: needs_lookup_def time_sub_def geoTTL_def max_def)

end
