(* ===== verification/Agent_Enrich.thy ===== *)
theory Agent_Enrich
  imports Agent_Ingest Score Compliance Go_Any Go_Sort
begin

text \<open>
  What follows the commit of a metrics frame (\<open>internal/api/handlers_agent_dex_ingest.go\<close>): whether the agent counts as
  back online, the rows of the history tables, the experience score, the payload for the alarm engine and the signals
  the compliance rules are evaluated on. The statements here are single and their errors are ignored, so what they
  write is given as rows.
\<close>

subsection \<open>The second decoding\<close>

record dexProcess =
  dp_PID :: int
  dp_Name :: string
  dp_User :: string
  dp_CPUPct :: f64
  dp_RSSBytes :: u64

record dexHealth =
  dh_BatteryHealthPct :: "f64 option"
  dh_BatteryWearPct :: "f64 option"
  dh_BSODCount24h :: "int option"
  dh_AppCrashCount24h :: "int option"
  dh_MissingPatchCount :: "int option"
  dh_WiFiRSSIdBm :: "int option"
  dh_LogonAvgMs :: "f64 option"
  dh_BootDurationMs :: "int option"
  dh_EDRProducts :: "string list"

record dexApp =
  da_Name :: string
  da_Version :: string
  da_Publisher :: string

record dexPatch =
  dpa_Title :: string
  dpa_KB :: string
  dpa_Severity :: string
  dpa_SizeMB :: "f64 option"

record dexGPU =
  dg_Product :: string
  dg_Vendor :: string

record dexExtension =
  dxe_Browser :: string
  dxe_Name :: string
  dxe_Version :: string

record dexSnapshot =
  ds_OS :: string
  ds_Uptime :: u64
  ds_CPU :: f64
  ds_MemTotal :: u64
  ds_MemUsed :: u64
  ds_Disks :: "parsedDisk list"
  ds_PendingReboot :: bool
  ds_TopByCPU :: "dexProcess list"
  ds_ActiveProcesses :: "dexProcess list"
  ds_Health :: "dexHealth option"
  ds_InstalledApps :: "dexApp list"
  ds_MissingPatches :: "dexPatch list"
  ds_Win11 :: "(bool option \<times> bool option) option"
  ds_GPUs :: "dexGPU list option"
  ds_Extensions :: "dexExtension list"
  ds_Latency :: "parsedLatency list"

record dexEnrichResult =
  re_Score :: f64
  re_DiskUsedRatio :: f64
  re_BSOD24h :: int
  re_AppCrash24h :: int
  re_MissingPatchCount :: int
  re_PendingReboot :: f64
  re_BatteryHealthPct :: f64
  re_BatteryWearPct :: "f64 option"
  re_BootDurationMs :: "int option"
  re_WiFiRSSIdBm :: int
  re_UptimeSec :: u64
  re_GPUName :: string

subsection \<open>History\<close>

definition u64_ratio :: "u64 \<Rightarrow> u64 \<Rightarrow> f64" where
  "u64_ratio a b = f64_div (f64_of_int (uint a)) (f64_of_int (uint b))"

definition percent_of :: "u64 \<Rightarrow> u64 \<Rightarrow> f64 option" where
  "percent_of used all_bytes = (if 0 < all_bytes then Some (f64_mul (u64_ratio used all_bytes) (Fin 100)) else None)"

text \<open>\<open>math.Max(0, x)\<close>: NaN stays.\<close>

definition max_zero :: "f64 \<Rightarrow> f64" where
  "max_zero x = (if f64_lt x (Fin 0) then Fin 0 else x)"

definition battery_wear :: "dexHealth \<Rightarrow> f64 option" where
  "battery_wear h =
     (case dh_BatteryWearPct h of Some w \<Rightarrow> Some w
      | None \<Rightarrow> map_option (\<lambda>b. max_zero (f64_sub (Fin 100) b)) (dh_BatteryHealthPct h))"

definition pick_latency :: "parsedLatency \<Rightarrow> (f64 \<times> f64) option \<Rightarrow> (f64 \<times> f64) option" where
  "pick_latency lr acc =
     (if pl_Target lr = ''8.8.8.8'' \<or> acc = None then Some (pl_AvgMs lr, pl_LossPct lr) else acc)"

definition health_of :: "(dexHealth \<Rightarrow> 'a option) \<Rightarrow> dexSnapshot \<Rightarrow> 'a option" where
  "health_of f ds = (case ds_Health ds of None \<Rightarrow> None | Some h \<Rightarrow> f h)"

definition score_inputs :: "dexSnapshot \<Rightarrow> ScoreInputs" where
  "score_inputs ds =
     (let lat = fold pick_latency (ds_Latency ds) None in
      \<lparr>si_CPUPct = Some (ds_CPU ds), si_MemPct = percent_of (ds_MemUsed ds) (ds_MemTotal ds),
       si_DiskPct = (case pickRootDisk (ds_Disks ds) of (used, all_bytes) \<Rightarrow> percent_of used all_bytes),
       si_BatteryHealthPct = health_of dh_BatteryHealthPct ds, si_BSODCount24h = health_of dh_BSODCount24h ds,
       si_AppCrashCount24h = health_of dh_AppCrashCount24h ds,
       si_LatencyAvgMs = map_option fst lat, si_LossPct = map_option snd lat\<rparr>)"

definition patch_count :: "dexSnapshot \<Rightarrow> int" where
  "patch_count ds =
     (let n = (case health_of dh_MissingPatchCount ds of None \<Rightarrow> 0 | Some n \<Rightarrow> n);
          k = int (length (ds_MissingPatches ds)) in if n < k then k else n)"

definition gpu_name :: "dexSnapshot \<Rightarrow> string" where
  "gpu_name ds = (case ds_GPUs ds of Some (g # _) \<Rightarrow> if dg_Product g = [] then dg_Vendor g else dg_Product g | _ \<Rightarrow> [])"

definition dex_result :: "dexSnapshot \<Rightarrow> dexEnrichResult" where
  "dex_result ds =
     (let num = (\<lambda>f. case health_of f ds of None \<Rightarrow> 0 | Some n \<Rightarrow> n) in
      case pickRootDisk (ds_Disks ds) of (rootUsed, rootTotal) \<Rightarrow>
      \<lparr>re_Score = ComputeScore (score_inputs ds),
       re_DiskUsedRatio = (if 0 < rootTotal then u64_ratio rootUsed rootTotal else Fin 0),
       re_BSOD24h = num dh_BSODCount24h, re_AppCrash24h = num dh_AppCrashCount24h,
       re_MissingPatchCount = patch_count ds, re_PendingReboot = (if ds_PendingReboot ds then Fin 1 else Fin 0),
       re_BatteryHealthPct = (case health_of dh_BatteryHealthPct ds of None \<Rightarrow> Fin 0 | Some b \<Rightarrow> b),
       re_BatteryWearPct = health_of battery_wear ds, re_BootDurationMs = health_of dh_BootDurationMs ds,
       re_WiFiRSSIdBm = num dh_WiFiRSSIdBm, re_UptimeSec = ds_Uptime ds, re_GPUName = gpu_name ds\<rparr>)"

text \<open>The rows of the tables that take several of a frame; \<open>shuffle\<close> is the freedom of the sort.\<close>

definition process_samples :: "(dexProcess list \<Rightarrow> dexProcess list) \<Rightarrow> dexSnapshot \<Rightarrow> dexProcess list" where
  "process_samples shuffle ds =
     (let procs = (if ds_ActiveProcesses ds = [] then ds_TopByCPU ds else ds_ActiveProcesses ds)
      in filter (\<lambda>p. dp_Name p \<noteq> [] \<and> dp_PID p \<noteq> 0)
           (take 25 (sort_by (\<lambda>a b. f64_lt (dp_CPUPct b) (dp_CPUPct a)) (shuffle procs))))"

text \<open>\<open>(name, version, publisher)\<close>; the last column tells whether a later row of the day replaces the publisher.\<close>

definition add_app :: "dexApp \<Rightarrow> string set \<times> dexApp list \<Rightarrow> string set \<times> dexApp list" where
  "add_app a acc =
     (case acc of (seen, rows) \<Rightarrow>
        let key = da_Name a @ ''|'' @ da_Version a in
        if da_Name a = [] \<or> key \<in> seen then acc else (insert key seen, rows @ [a]))"

definition app_rows :: "dexSnapshot \<Rightarrow> (string \<times> string \<times> string \<times> bool) list" where
  "app_rows ds =
     map (\<lambda>a. (da_Name a, da_Version a, da_Publisher a, True)) (snd (fold add_app (ds_InstalledApps ds) ({}, []))) @
     map (\<lambda>e. (dxe_Browser e @ '' ext: '' @ dxe_Name e, dxe_Version e, dxe_Browser e, False))
       (filter (\<lambda>e. dxe_Name e \<noteq> []) (ds_Extensions ds))"

definition patch_rows :: "dexSnapshot \<Rightarrow> dexPatch list" where
  "patch_rows ds = filter (\<lambda>p. dpa_Title p \<noteq> []) (ds_MissingPatches ds)"

text \<open>The columns of the agent: a value that is missing leaves the old one.\<close>

definition hot_columns :: "dexEnrichResult \<Rightarrow> f64 option \<times> int option \<times> string option \<Rightarrow> f64 option \<times> int option \<times> string option" where
  "hot_columns res old =
     (case old of (wear, boot, gpu) \<Rightarrow>
        (if re_BatteryWearPct res = None then wear else re_BatteryWearPct res,
         if re_BootDurationMs res = None then boot else re_BootDurationMs res,
         if re_GPUName res = [] then gpu else Some (re_GPUName res)))"

subsection \<open>Presence, alarms and compliance\<close>

definition offlineThresh :: int where "offlineThresh = 5 * 60 * 1000000000"

definition wasOffline :: "int \<Rightarrow> int option \<Rightarrow> bool" where
  "wasOffline now prevLastSeen \<longleftrightarrow>
     (case prevLastSeen of None \<Rightarrow> True | Some t \<Rightarrow> offlineThresh < time_sub now t)"

definition agent_payload :: "uuid \<Rightarrow> agent_metrics \<Rightarrow> dexSnapshot \<Rightarrow> dexEnrichResult \<Rightarrow> payload" where
  "agent_payload i a ds res =
     (let p = [''agentId'' \<mapsto> AnyString i, ''siteId'' \<mapsto> AnyString (am_site a), ''cpuPct'' \<mapsto> AnyF64 (ds_CPU ds),
               ''memUsedRatio'' \<mapsto> AnyF64 (if 0 < ds_MemTotal ds then u64_ratio (ds_MemUsed ds) (ds_MemTotal ds) else Fin 0),
               ''diskUsedRatio'' \<mapsto> AnyF64 (re_DiskUsedRatio res), ''score'' \<mapsto> AnyF64 (re_Score res),
               ''bsod24h'' \<mapsto> AnyInt (re_BSOD24h res), ''appCrash24h'' \<mapsto> AnyInt (re_AppCrash24h res),
               ''missingPatchCount'' \<mapsto> AnyInt (re_MissingPatchCount res),
               ''pendingReboot'' \<mapsto> AnyF64 (re_PendingReboot res),
               ''batteryHealthPct'' \<mapsto> AnyF64 (re_BatteryHealthPct res), ''wifiRssi'' \<mapsto> AnyInt (re_WiFiRSSIdBm res),
               ''uptimeSec'' \<mapsto> AnyUint64 (re_UptimeSec res),
               ''criticality'' \<mapsto> AnyString (case am_criticality a of None \<Rightarrow> ''normal'' | Some c \<Rightarrow> c),
               ''vendor'' \<mapsto> AnyString (am_hostname a), ''hostname'' \<mapsto> AnyString (am_hostname a)]
      in case am_group a of None \<Rightarrow> p | Some g \<Rightarrow> if g = [] then p else p(''groupId'' \<mapsto> AnyString g))"

definition compliance_signals :: "int \<Rightarrow> agent_metrics \<Rightarrow> dexSnapshot \<Rightarrow> dexEnrichResult \<Rightarrow> signals" where
  "compliance_signals now a ds res =
     (let k = int (length (ds_MissingPatches ds)) in
      \<lparr>sg_PendingReboot = ds_PendingReboot ds,
       sg_MissingPatchCount = (if re_MissingPatchCount res < k then k else re_MissingPatchCount res),
       sg_Patches = map (\<lambda>p. \<lparr>pt_Title = dpa_Title p, pt_KB = dpa_KB p, pt_Severity = dpa_Severity p\<rparr>) (ds_MissingPatches ds),
       sg_Apps = map (\<lambda>a. \<lparr>ap_Name = da_Name a, ap_Version = da_Version a\<rparr>) (ds_InstalledApps ds),
       sg_Win11Eligible = (case ds_Win11 ds of None \<Rightarrow> None | Some w \<Rightarrow> fst w),
       sg_SecureBoot = (case ds_Win11 ds of None \<Rightarrow> None | Some w \<Rightarrow> snd w),
       sg_EDRProducts = (case ds_Health ds of None \<Rightarrow> [] | Some h \<Rightarrow> dh_EDRProducts h),
       sg_LastSeenAge = (case am_last_seen a of None \<Rightarrow> 0 | Some t \<Rightarrow> time_sub now t),
       sg_OS = ds_OS ds\<rparr>)"

text \<open>\<open>a\<close> is the row of the agent as it was before the frame; a snapshot that does not decode is not enriched.\<close>

record enrichment =
  en_online :: bool
  en_result :: dexEnrichResult
  en_payload :: payload
  en_signals :: signals

definition enrichAfterMetricsIngest :: "int \<Rightarrow> uuid \<Rightarrow> agent_metrics \<Rightarrow> dexSnapshot option \<Rightarrow> enrichment option" where
  "enrichAfterMetricsIngest now i a ds =
     (case ds of
        None \<Rightarrow> None
      | Some ds \<Rightarrow>
          let res = dex_result ds in
          Some \<lparr>en_online = wasOffline now (am_last_seen a), en_result = res, en_payload = agent_payload i a ds res,
                en_signals = compliance_signals now a ds res\<rparr>)"

subsection \<open>Rows\<close>

lemma add_app_keys:
  "fst (fold add_app apps (seen, rows)) = seen \<union> (\<lambda>a. da_Name a @ ''|'' @ da_Version a) ` {a \<in> set apps. da_Name a \<noteq> []}"
  by (induction apps arbitrary: seen rows) (auto simp: add_app_def Let_def)

lemma app_rows_distinct:
  assumes "distinct (map (\<lambda>a. da_Name a @ ''|'' @ da_Version a) rows)" "seen = (\<lambda>a. da_Name a @ ''|'' @ da_Version a) ` set rows"
  shows "distinct (map (\<lambda>a. da_Name a @ ''|'' @ da_Version a) (snd (fold add_app apps (seen, rows))))"
  using assms
proof (induction apps arbitrary: seen rows)
  case (Cons a apps)
  obtain seen' rows' where n: "add_app a (seen, rows) = (seen', rows')" by (cases "add_app a (seen, rows)")
  then have "distinct (map (\<lambda>a. da_Name a @ ''|'' @ da_Version a) rows')" "seen' = (\<lambda>a. da_Name a @ ''|'' @ da_Version a) ` set rows'"
    using Cons.prems by (auto simp: add_app_def Let_def split: if_splits)
  from Cons.IH[OF this] show ?case using n by simp
qed simp

text \<open>The compliance rules see a patch count that is at least the number of patches the frame lists.\<close>

lemma signals_patches: "int (length (sg_Patches (compliance_signals now a ds (dex_result ds)))) \<le> sg_MissingPatchCount (compliance_signals now a ds (dex_result ds))"
  by (simp add: compliance_signals_def Let_def)

end
