(* ===== verification/Agent_Presence.thy ===== *)
theory Agent_Presence
  imports Agent_Enrich
begin

text \<open>
  Whether an agent counts as online: its socket (\<open>handleAgentWS\<close> and \<open>runAgentHeartbeatTouch\<close> in
  \<open>handlers_agents.go\<close>), its frames (\<open>handleAgentFrame\<close> with the enrichment after it), the polls of its checks
  (\<open>handlers_checks.go\<close>) and the watcher of \<open>agent_presence.go\<close>, as steps over the tables and the clock. The agent is a
  fixed one, and it has at most one socket.
\<close>

subsection \<open>State\<close>

definition KindAgentOnline :: string where "KindAgentOnline = ''agent.online''"
definition KindAgentOffline :: string where "KindAgentOffline = ''agent.offline''"

text \<open>\<open>pw_beat\<close> is when the next beat of the open socket is due. Events are kept with their time, the newest first.\<close>

record presence =
  pw_now :: int
  pw_db :: ingest_db
  pw_active :: bool
  pw_beat :: "int option"
  pw_events :: "(int \<times> string) list"

definition touch :: "uuid \<Rightarrow> int \<Rightarrow> ingest_db \<Rightarrow> ingest_db" where
  "touch i now db = on_agent i (\<lambda>a. a\<lparr>am_last_seen := Some (pg_time now)\<rparr>) db"

definition heartbeat_every :: int where "heartbeat_every = 60 * 1000000000"
definition agentOfflineAfter :: int where "agentOfflineAfter = 5 * 60 * 1000000000"

definition stale_offline :: "uuid \<Rightarrow> presence \<Rightarrow> bool" where
  "stale_offline i s \<longleftrightarrow> pw_active s \<and>
     (case ib_agents (pw_db s) i of
        None \<Rightarrow> False
      | Some a \<Rightarrow> (case am_last_seen a of
                     None \<Rightarrow> False
                   | Some t \<Rightarrow> t < pg_time (pw_now s) - agentOfflineAfter \<and>
                       \<not> list_ex (\<lambda>(te, k). k = KindAgentOffline \<and> t < te) (pw_events s)))"

definition emit_if :: "bool \<Rightarrow> string \<Rightarrow> presence \<Rightarrow> presence" where
  "emit_if c k s = (if c then s\<lparr>pw_events := (pg_time (pw_now s), k) # pw_events s\<rparr> else s)"

definition emitStaleAgentOffline :: "uuid \<Rightarrow> presence \<Rightarrow> presence" where
  "emitStaleAgentOffline i s = emit_if (stale_offline i s) KindAgentOffline s"

text \<open>A frame on the open socket: when it is stored the enrichment goes on from the row before it, if the snapshot
  decodes a second time.\<close>

definition take_frame ::
    "ingest_env \<Rightarrow> (string \<Rightarrow> frame option) \<Rightarrow> (string \<Rightarrow> parsedSnapshot option) \<Rightarrow> dexSnapshot option \<Rightarrow> uuid \<Rightarrow> string \<Rightarrow>
     presence \<Rightarrow> enrichment option \<times> presence" where
  "take_frame env decode_frame decode ds i data s =
     (case handleAgentFrame (env\<lparr>ie_now := pw_now s\<rparr>) decode_frame decode i data (pw_db s) of
        (Some (Inr before), db) \<Rightarrow>
          (let en = enrichAfterMetricsIngest (pw_now s) i before ds; s' = s\<lparr>pw_db := db\<rparr> in
           (en, emit_if (case en of None \<Rightarrow> False | Some x \<Rightarrow> en_online x) KindAgentOnline s'))
      | (_, db) \<Rightarrow> (None, s\<lparr>pw_db := db\<rparr>))"

subsection \<open>Steps\<close>

text \<open>The ticker of the socket may be late by \<open>slack\<close>. With \<open>faulty\<close> a touch may fail, which the code ignores.\<close>

inductive presence_step :: "bool \<Rightarrow> int \<Rightarrow> uuid \<Rightarrow> presence \<Rightarrow> presence \<Rightarrow> bool" for faulty slack i where
  connect: "presence_step faulty slack i s
     (s\<lparr>pw_db := touch i (pw_now s) (pw_db s), pw_beat := Some (pw_now s + heartbeat_every)\<rparr>)"
| connect_untouched: "faulty \<Longrightarrow> presence_step faulty slack i s (s\<lparr>pw_beat := Some (pw_now s + heartbeat_every)\<rparr>)"
| beat: "pw_beat s = Some due \<Longrightarrow> due \<le> pw_now s \<Longrightarrow> presence_step faulty slack i s
     (s\<lparr>pw_db := touch i (pw_now s) (pw_db s), pw_beat := Some (due + heartbeat_every)\<rparr>)"
| beat_untouched: "faulty \<Longrightarrow> pw_beat s = Some due \<Longrightarrow> due \<le> pw_now s \<Longrightarrow> presence_step faulty slack i s
     (s\<lparr>pw_beat := Some (due + heartbeat_every)\<rparr>)"
| elapse: "pw_now s \<le> t \<Longrightarrow> (case pw_beat s of None \<Rightarrow> True | Some due \<Rightarrow> t \<le> due + slack) \<Longrightarrow>
     presence_step faulty slack i s (s\<lparr>pw_now := t\<rparr>)"
| frame: "pw_beat s \<noteq> None \<Longrightarrow> take_frame env decode_frame decode ds i data s = (en, s') \<Longrightarrow>
     presence_step faulty slack i s s'"
| poll: "presence_step faulty slack i s (s\<lparr>pw_db := touch i (pw_now s) (pw_db s)\<rparr>)"
| watch: "presence_step faulty slack i s (emitStaleAgentOffline i s)"
| disconnect: "presence_step faulty slack i s (s\<lparr>pw_beat := None\<rparr>)"

inductive_cases presence_stepE: "presence_step faulty slack i s t"

text \<open>Any start without a socket: the agent may have been away for long.\<close>

inductive presence_reached :: "bool \<Rightarrow> int \<Rightarrow> uuid \<Rightarrow> presence \<Rightarrow> presence \<Rightarrow> bool" for faulty slack i s0 where
  pr_start: "pw_beat s0 = None \<Longrightarrow> presence_reached faulty slack i s0 s0"
| pr_step: "presence_reached faulty slack i s0 s \<Longrightarrow> presence_step faulty slack i s t \<Longrightarrow> presence_reached faulty slack i s0 t"

subsection \<open>While a socket is open the agent was seen lately\<close>

definition seen_lately :: "int \<Rightarrow> uuid \<Rightarrow> presence \<Rightarrow> bool" where
  "seen_lately slack i s \<longleftrightarrow>
     (case pw_beat s of
        None \<Rightarrow> True
      | Some due \<Rightarrow> pw_now s \<le> due + slack \<and> due \<le> pw_now s + heartbeat_every \<and>
          (\<forall>a. ib_agents (pw_db s) i = Some a \<longrightarrow>
             (\<exists>t. am_last_seen a = Some t \<and> due - heartbeat_every - 1000 \<le> t \<and> t \<le> pw_now s)))"

lemma pg_time_bounds: "pg_time t \<le> t" "t - 1000 \<le> pg_time t"
proof -
  have "t = t div 1000 * 1000 + t mod 1000" "0 \<le> t mod 1000" "t mod 1000 < 1000" by simp_all
  then show "pg_time t \<le> t" "t - 1000 \<le> pg_time t" unfolding pg_time_def by linarith+
qed

lemma touched_row: "ib_agents (touch i now db) i = Some a \<Longrightarrow> am_last_seen a = Some (pg_time now)"
  by (auto simp: touch_def on_agent_def)

lemma update_last_seen:
  "am_last_seen (headline_update now raw ps sentAt a) = Some (pg_time now)"
  "am_last_seen (geo_update env ip sentAt a) = am_last_seen a"
  by (simp_all add: headline_update_def geo_update_def public_ip_update_def split: prod.split option.split)

lemma ingested_last_seen:
  assumes "ib_agents (ingested env i raw ps sentAt db) i = Some a"
  shows "am_last_seen a = Some (pg_time (ie_now env))"
  using assms by (auto simp: ingested_parts with_agent_def on_agent_def update_last_seen split: if_splits)

lemma frame_stored:
  assumes "handleAgentFrame env decode_frame decode i data db = (Some (Inr before), db')"
  shows "ib_agents db i = Some before \<and> (\<exists>raw ps sentAt. db' = ingested env i raw ps sentAt db)"
proof -
  have "\<exists>f :: frame. ingestMetrics env i (fr_SentAt f) (fr_Snapshot f) (decode (fr_Snapshot f)) db = (Inr before, db')"
    using assms by (auto simp: handleAgentFrame_def split: option.splits if_splits prod.splits)
  then obtain f :: frame where "ingestMetrics env i (fr_SentAt f) (fr_Snapshot f) (decode (fr_Snapshot f)) db = (Inr before, db')" by blast
  moreover from this obtain ps where "decode (fr_Snapshot f) = Some ps"
    by (cases "decode (fr_Snapshot f)") (auto simp: ingestMetrics_def)
  ultimately have f: "ingestMetrics env i (fr_SentAt f) (fr_Snapshot f) (Some ps) db = (Inr before, db')" by simp
  then obtain t where b: "ingest_body env i (fr_Snapshot f) ps (parseRFC3339OrNow (ie_now env) (fr_SentAt f))
        \<lparr>it_db = db, it_step = 0, it_aborted = False\<rparr> = (Inr before, t)" and "db' = it_db t"
    by (auto simp: ingestMetrics_def split: option.splits prod.splits sum.splits if_splits)
  then show ?thesis using body_stores[OF b] by auto
qed

lemma frame_refused:
  assumes "handleAgentFrame env decode_frame decode i data db = (r, db')" "\<nexists>before. r = Some (Inr before)"
  shows "db' = db"
  using assms
  by (auto simp: handleAgentFrame_def ingestMetrics_def split: option.splits if_splits prod.splits sum.splits)

lemma take_frame_cases:
  assumes "take_frame env decode_frame decode ds i data s = (en, s')"
  obtains (refused) "en = None" "s' = s"
  | (stored) before raw ps sentAt where "ib_agents (pw_db s) i = Some before" "en = enrichAfterMetricsIngest (pw_now s) i before ds"
      "s' = emit_if (case en of None \<Rightarrow> False | Some x \<Rightarrow> en_online x) KindAgentOnline
              (s\<lparr>pw_db := ingested (env\<lparr>ie_now := pw_now s\<rparr>) i raw ps sentAt (pw_db s)\<rparr>)"
proof -
  let ?env = "env\<lparr>ie_now := pw_now s\<rparr>"
  obtain r db where h: "handleAgentFrame ?env decode_frame decode i data (pw_db s) = (r, db)" by (metis surj_pair)
  show thesis
  proof (cases "\<exists>before. r = Some (Inr before)")
    case True
    then obtain before where r: "r = Some (Inr before)" by blast
    then obtain raw ps sentAt where "ib_agents (pw_db s) i = Some before" "db = ingested ?env i raw ps sentAt (pw_db s)"
      using frame_stored h by blast
    moreover have "en = enrichAfterMetricsIngest (pw_now s) i before ds"
      "s' = emit_if (case en of None \<Rightarrow> False | Some x \<Rightarrow> en_online x) KindAgentOnline (s\<lparr>pw_db := db\<rparr>)"
      using assms h r by (auto simp: take_frame_def Let_def)
    ultimately show thesis using stored[of before raw ps sentAt] by blast
  next
    case False
    then have "db = pw_db s" using frame_refused h by blast
    then show thesis using refused assms h False by (cases r) (auto simp: take_frame_def split: sum.splits)
  qed
qed

lemma emit_if_simps [simp]:
  "pw_now (emit_if c k s) = pw_now s" "pw_db (emit_if c k s) = pw_db s" "pw_beat (emit_if c k s) = pw_beat s"
  "pw_events (emit_if c k s) = (if c then (pg_time (pw_now s), k) # pw_events s else pw_events s)"
  by (simp_all add: emit_if_def)

text \<open>So the row a frame finds was seen less than the threshold ago.\<close>

lemma not_offline:
  assumes "seen_lately slack i s" "pw_beat s \<noteq> None" "slack < 4 * heartbeat_every - 1000" "ib_agents (pw_db s) i = Some a"
  shows "\<not> wasOffline (pw_now s) (am_last_seen a)" "\<exists>t. am_last_seen a = Some t \<and> 0 \<le> pw_now s - t \<and> pw_now s - t \<le> offlineThresh"
proof -
  obtain due where d: "pw_beat s = Some due" using assms(2) by blast
  then obtain t where t: "am_last_seen a = Some t" "due - heartbeat_every - 1000 \<le> t" "t \<le> pw_now s" "pw_now s \<le> due + slack"
    using assms(1,4) by (auto simp: seen_lately_def)
  then have "pw_now s - t \<le> offlineThresh" using assms(3) by (simp add: heartbeat_every_def offlineThresh_def)
  then show "\<not> wasOffline (pw_now s) (am_last_seen a)" "\<exists>t. am_last_seen a = Some t \<and> 0 \<le> pw_now s - t \<and> pw_now s - t \<le> offlineThresh"
    using t by (auto simp: wasOffline_def time_sub_def offlineThresh_def)
qed

lemma step_seen_lately:
  assumes step: "presence_step False slack i s t" and inv: "seen_lately slack i s" and slack: "0 \<le> slack" "slack < 4 * heartbeat_every - 1000"
  shows "seen_lately slack i t"
  using step
proof (cases rule: presence_step.cases)
  case connect
  then show ?thesis using slack(1) pg_time_bounds[of "pw_now s"]
    by (auto simp: seen_lately_def heartbeat_every_def dest: touched_row)
next
  case (beat due)
  then show ?thesis using inv slack(1) pg_time_bounds[of "pw_now s"]
    by (auto simp: seen_lately_def heartbeat_every_def dest!: touched_row)
next
  case (elapse u)
  then show ?thesis using inv by (fastforce simp: seen_lately_def split: option.splits)
next
  case (frame env decode_frame decode ds data en)
  from frame(2) show ?thesis
  proof (cases rule: take_frame_cases)
    case refused
    then show ?thesis using inv by simp
  next
    case (stored before raw ps sentAt)
    then show ?thesis using inv pg_time_bounds[of "pw_now s"]
      by (auto simp: seen_lately_def split: option.splits dest!: ingested_last_seen)
  qed
next
  case poll
  then show ?thesis using inv pg_time_bounds[of "pw_now s"]
    by (auto simp: seen_lately_def split: option.splits dest!: touched_row)
next
  case watch
  then show ?thesis using inv by (simp add: seen_lately_def emitStaleAgentOffline_def split: option.splits)
qed (simp_all add: seen_lately_def)

lemma reached_seen_lately:
  assumes "presence_reached False slack i s0 s" "0 \<le> slack" "slack < 4 * heartbeat_every - 1000"
  shows "seen_lately slack i s"
  using assms(1)
proof induction
  case pr_start
  then show ?case by (simp add: seen_lately_def)
next
  case (pr_step s t)
  then show ?case using step_seen_lately assms(2,3) by blast
qed

lemma frame_not_online:
  assumes "seen_lately slack i s" "pw_beat s \<noteq> None" "slack < 4 * heartbeat_every - 1000"
    and "take_frame env decode_frame decode ds i data s = (Some en, s')"
  shows "\<not> en_online en \<and> sg_LastSeenAge (en_signals en) \<le> offlineThresh \<and>
    ''agent_stale'' \<notin> iss_Code ` set (posture_issues (en_signals en))"
  using assms(4)
proof (cases rule: take_frame_cases)
  case (stored before raw ps sentAt)
  obtain d where d: "en_online en = wasOffline (pw_now s) (am_last_seen before)"
      "en_signals en = compliance_signals (pw_now s) before d (dex_result d)"
    using stored(2) by (auto simp: enrichAfterMetricsIngest_def Let_def split: option.splits)
  obtain t where t: "am_last_seen before = Some t" "0 \<le> pw_now s - t" "pw_now s - t \<le> offlineThresh"
    using not_offline(2)[OF assms(1,2,3) stored(1)] by blast
  have age: "sg_LastSeenAge (en_signals en) \<le> offlineThresh"
    using t by (simp add: d(2) compliance_signals_def Let_def time_sub_def offlineThresh_def)
  moreover have "offlineThresh \<le> seconds (24 * 3600)" by (simp add: seconds_small offlineThresh_def)
  ultimately have "''agent_stale'' \<notin> iss_Code ` set (posture_issues (en_signals en))" by (auto simp: posture_issues_def)
  then show ?thesis using not_offline(1)[OF assms(1,2,3) stored(1)] d(1) age by simp
qed simp

lemma step_no_online:
  assumes step: "presence_step False slack i s t" and inv: "seen_lately slack i s" and slack: "slack < 4 * heartbeat_every - 1000"
  shows "\<forall>e\<in>set (pw_events t). snd e = KindAgentOnline \<longrightarrow> e \<in> set (pw_events s)"
  using step
proof (cases rule: presence_step.cases)
  case (frame env decode_frame decode ds data en)
  from frame(2) show ?thesis
  proof (cases rule: take_frame_cases)
    case (stored before raw ps sentAt)
    have "\<not> (case en of None \<Rightarrow> False | Some x \<Rightarrow> en_online x)"
      using frame_not_online[OF inv frame(1) slack] frame(2) by (auto split: option.split)
    then show ?thesis using stored(3) by simp
  qed simp
next
  case watch
  then show ?thesis by (simp add: emitStaleAgentOffline_def KindAgentOnline_def KindAgentOffline_def)
qed simp_all

lemma reached_no_online:
  assumes "presence_reached False slack i s0 s" "0 \<le> slack" "slack < 4 * heartbeat_every - 1000"
  shows "\<forall>e\<in>set (pw_events s). snd e = KindAgentOnline \<longrightarrow> e \<in> set (pw_events s0)"
  using assms(1)
proof induction
  case (pr_step s t)
  then show ?case using step_no_online[OF pr_step(2) reached_seen_lately[OF pr_step(1) assms(2,3)] assms(3)] by blast
qed simp

text \<open>C27: The touch at the start of a session hides that an agent was away: as long as the touches succeed and the ticker is
  less than four minutes late, no run ever records that the agent came online, and every frame is evaluated with the
  agent seen at most five minutes ago, so the rule for stale agents never fires.\<close>

theorem online_never_announced:
  assumes "presence_reached False slack i s0 s" "0 \<le> slack" "slack < 4 * heartbeat_every - 1000"
  shows "(\<forall>e\<in>set (pw_events s). snd e = KindAgentOnline \<longrightarrow> e \<in> set (pw_events s0)) \<and>
    (pw_beat s \<noteq> None \<longrightarrow> take_frame env decode_frame decode ds i data s = (Some en, s') \<longrightarrow>
       \<not> en_online en \<and> sg_LastSeenAge (en_signals en) \<le> offlineThresh \<and>
       ''agent_stale'' \<notin> iss_Code ` set (posture_issues (en_signals en)))"
  using reached_no_online[OF assms] frame_not_online[OF reached_seen_lately[OF assms] _ assms(3)] by blast

subsection \<open>An agent that was away\<close>

definition demo_row :: agent_metrics where
  "demo_row = \<lparr>am_site = ''s'', am_criticality = None, am_hostname = ''h'', am_group = None, am_last_seen = Some 0,
     am_last_metrics = None, am_last_metrics_at = None, am_cpu_pct = None, am_mem_used = None, am_mem_total = None,
     am_root_used = None, am_root_total = None, am_uptime = None, am_pending_reboot = False, am_primary_ip = None,
     am_public_ip = None, am_public_ip_seen = None,
     am_geo = \<lparr>gc_country_iso = None, gc_country_name = None, gc_subdivision = None, gc_city = None, gc_lat = None, gc_lon = None,
               gc_asn = None, gc_org = None\<rparr>, am_geo_resolved = None\<rparr>"

definition away :: presence where
  "away = \<lparr>pw_now = 1000000000000, pw_db = \<lparr>ib_agents = [''a'' \<mapsto> demo_row], ib_samples = (\<lambda>_. None), ib_network = (\<lambda>_. None),
      ib_latency = (\<lambda>_. None)\<rparr>, pw_active = True, pw_beat = None, pw_events = []\<rparr>"

definition demo_ingest_env :: ingest_env where
  "demo_ingest_env = \<lparr>ie_now = 0, ie_begin = None, ie_fault = (\<lambda>_. None), ie_inet = (\<lambda>_. True), ie_geo = None\<rparr>"

definition demo_parsed :: parsedSnapshot where
  "demo_parsed = \<lparr>ps_UptimeSeconds = 1, ps_PublicIP = [], ps_CPU = Fin 1, ps_MemTotal = 1, ps_MemUsed = 1, ps_Disks = [],
     ps_NICs = [], ps_Latency = [], ps_PendingReboot = False\<rparr>"

definition demo_dex_snapshot :: dexSnapshot where
  "demo_dex_snapshot = \<lparr>ds_OS = ''linux'', ds_Uptime = 1, ds_CPU = Fin 1, ds_MemTotal = 1, ds_MemUsed = 1, ds_Disks = [],
     ds_PendingReboot = False, ds_TopByCPU = [], ds_ActiveProcesses = [], ds_Health = None, ds_InstalledApps = [],
     ds_MissingPatches = [], ds_Win11 = None, ds_GPUs = None, ds_Extensions = [], ds_Latency = []\<rparr>"

definition demo_frame :: frame where
  "demo_frame = \<lparr>fr_Type = ''metrics'', fr_SentAt = [], fr_Snapshot = ''{}''\<rparr>"

lemma demo_frame_taken:
  assumes "ib_agents (pw_db s) ''a'' = Some b"
  shows "\<exists>db. take_frame demo_ingest_env (\<lambda>_. Some demo_frame) (\<lambda>_. Some demo_parsed) (Some demo_dex_snapshot) ''a'' [] s =
    (enrichAfterMetricsIngest (pw_now s) ''a'' b (Some demo_dex_snapshot),
     emit_if (wasOffline (pw_now s) (am_last_seen b)) KindAgentOnline (s\<lparr>pw_db := db\<rparr>))"
proof -
  have "acceptable (demo_ingest_env\<lparr>ie_now := pw_now s\<rparr>) demo_parsed"
    by (simp add: acceptable_def demo_ingest_env_def demo_parsed_def fits_bigint_def inet_ok_def)
  note stored = ingest_accepted[OF this assms]
  show ?thesis
    by (intro exI) (simp add: take_frame_def handleAgentFrame_def demo_frame_def enrichAfterMetricsIngest_def stored Let_def)
qed

lemma away_watched: "emitStaleAgentOffline ''a'' away = away\<lparr>pw_events := [(1000000000000, KindAgentOffline)]\<rparr>"
  by (simp add: emitStaleAgentOffline_def emit_if_def stale_offline_def away_def demo_row_def pg_time_def agentOfflineAfter_def)

theorem online_never_announced_witness:
  "\<exists>s en s'. presence_reached False 0 ''a'' away s \<and>
     take_frame demo_ingest_env (\<lambda>_. Some demo_frame) (\<lambda>_. Some demo_parsed) (Some demo_dex_snapshot) ''a'' [] s = (Some en, s') \<and>
     map snd (pw_events s) = [KindAgentOffline] \<and> \<not> en_online en \<and> sg_LastSeenAge (en_signals en) \<le> offlineThresh"
proof -
  let ?w = "away\<lparr>pw_events := [(1000000000000, KindAgentOffline)]\<rparr>"
  let ?s = "?w\<lparr>pw_db := touch ''a'' (pw_now ?w) (pw_db ?w), pw_beat := Some (pw_now ?w + heartbeat_every)\<rparr>"
  have "presence_reached False 0 ''a'' away ?w"
    using pr_step[OF pr_start watch, of away False 0 "''a''"] by (simp add: away_watched) (simp add: away_def)
  then have r: "presence_reached False 0 ''a'' away ?s" using pr_step connect by blast
  have "ib_agents (pw_db ?s) ''a'' \<noteq> None" by (simp add: away_def touch_def on_agent_def)
  then obtain b where "ib_agents (pw_db ?s) ''a'' = Some b" by blast
  from demo_frame_taken[OF this] obtain en s' where t: "take_frame demo_ingest_env (\<lambda>_. Some demo_frame) (\<lambda>_. Some demo_parsed)
      (Some demo_dex_snapshot) ''a'' [] ?s = (Some en, s')"
    by (auto simp: enrichAfterMetricsIngest_def Let_def)
  have "\<not> en_online en \<and> sg_LastSeenAge (en_signals en) \<le> offlineThresh"
    using online_never_announced[OF r] t by (fastforce simp: heartbeat_every_def)
  then show ?thesis using r t by (intro exI[of _ ?s] exI[of _ en] exI[of _ s']) (simp add: away_def)
qed

text \<open>Only a touch that failed lets the event through.\<close>

theorem failed_touch_announces:
  "\<exists>s. presence_reached True 0 ''a'' away s \<and> KindAgentOnline \<in> snd ` set (pw_events s)"
proof -
  let ?s = "away\<lparr>pw_beat := Some (pw_now away + heartbeat_every)\<rparr>"
  have "presence_reached True 0 ''a'' away away" by (rule pr_start) (simp add: away_def)
  then have r: "presence_reached True 0 ''a'' away ?s" by (rule pr_step) (rule connect_untouched, rule TrueI)
  have "ib_agents (pw_db ?s) ''a'' = Some demo_row" by (simp add: away_def)
  from demo_frame_taken[OF this] obtain db where "take_frame demo_ingest_env (\<lambda>_. Some demo_frame) (\<lambda>_. Some demo_parsed)
      (Some demo_dex_snapshot) ''a'' [] ?s = (enrichAfterMetricsIngest (pw_now ?s) ''a'' demo_row (Some demo_dex_snapshot),
        emit_if (wasOffline (pw_now ?s) (am_last_seen demo_row)) KindAgentOnline (?s\<lparr>pw_db := db\<rparr>))" by blast
  moreover have "wasOffline (pw_now ?s) (am_last_seen demo_row)"
    by (simp add: away_def demo_row_def wasOffline_def offlineThresh_def time_sub_def)
  ultimately have "presence_step True 0 ''a'' ?s (emit_if True KindAgentOnline (?s\<lparr>pw_db := db\<rparr>))"
    by (intro presence_step.frame) (auto simp: away_def)
  from pr_step[OF r this] show ?thesis by force
qed

end
