(* ===== verification/Net_Graph.thy ===== *)
theory Net_Graph
  imports Agent_Ingest Auth Go_Sort "HOL-Library.List_Lexorder" "HOL-Library.Char_ord" "HOL-Library.Product_Lexorder"
begin

text \<open>
  The graph of the hosts a device talks to (\<open>handleAgentNetworkGraph\<close> in
  \<open>internal/api/handlers_agent_telemetry.go\<close>): the conversations of the last snapshot folded into peers. The query, the
  decoding of the snapshot and the GeoIP database are parameters; \<open>order\<close> is the iteration of the map of peers.
\<close>

subsection \<open>Records\<close>

record graph_conversation =
  gv_Direction :: string
  gv_RemoteIP :: string
  gv_RemoteHost :: string
  gv_RemotePort :: int
  gv_PID :: int
  gv_ProcessName :: string
  gv_Count :: int

record netPeerProc =
  np_Name :: string
  np_PID :: int
  np_Count :: int

record netPeer =
  nx_IP :: string
  nx_Host :: string
  nx_ASN :: int
  nx_Org :: string
  nx_CountryISO :: string
  nx_CountryName :: string
  nx_City :: string
  nx_Lat :: f64
  nx_Lon :: f64
  nx_Direction :: string
  nx_IsPrivate :: bool
  nx_Processes :: "netPeerProc list"
  nx_TotalConns :: int
  nx_Ports :: "int list"

subsection \<open>Addresses that are not looked up\<close>

text \<open>\<open>Sscanf(ip, "172.%d.", &second)\<close>.\<close>

definition second_octet :: "string \<Rightarrow> int option" where
  "second_octet ip =
     (case scan_literal ''172.'' ip of None \<Rightarrow> None
      | Some t \<Rightarrow> (case scan_int t of None \<Rightarrow> None
          | Some (n, r) \<Rightarrow> (case scan_literal ''.'' r of None \<Rightarrow> None | Some _ \<Rightarrow> Some n)))"

definition isPrivateIP :: "string \<Rightarrow> bool" where
  "isPrivateIP ip \<longleftrightarrow>
     has_prefix ip ''10.'' \<or> has_prefix ip ''192.168.'' \<or> has_prefix ip ''169.254.'' \<or> has_prefix ip ''127.'' \<or> ip = ''::1'' \<or>
     has_prefix ip ''172.'' \<and> (case second_octet ip of None \<Rightarrow> False | Some n \<Rightarrow> 16 \<le> n \<and> n \<le> 31) \<or>
     has_prefix ip ''fd'' \<or> has_prefix ip ''fc''"

subsection \<open>Peers\<close>

definition new_peer :: "(string \<Rightarrow> geo_result option) option \<Rightarrow> graph_conversation \<Rightarrow> netPeer" where
  "new_peer geo c =
     (let p = \<lparr>nx_IP = gv_RemoteIP c, nx_Host = gv_RemoteHost c, nx_ASN = 0, nx_Org = [], nx_CountryISO = [], nx_CountryName = [],
               nx_City = [], nx_Lat = Fin 0, nx_Lon = Fin 0, nx_Direction = gv_Direction c,
               nx_IsPrivate = isPrivateIP (gv_RemoteIP c), nx_Processes = [], nx_TotalConns = 0, nx_Ports = []\<rparr>
      in if nx_IsPrivate p then p
         else case geo of None \<Rightarrow> p
           | Some look \<Rightarrow>
               (case look (gv_RemoteIP c) of None \<Rightarrow> p
                | Some g \<Rightarrow> p\<lparr>nx_ASN := gr_ASN g, nx_Org := gr_Organization g, nx_CountryISO := gr_CountryISO g,
                              nx_CountryName := gr_CountryName g, nx_City := gr_City g, nx_Lat := gr_Lat g, nx_Lon := gr_Lon g\<rparr>))"

fun merge_proc :: "graph_conversation \<Rightarrow> netPeerProc list \<Rightarrow> netPeerProc list" where
  "merge_proc c [] = [\<lparr>np_Name = gv_ProcessName c, np_PID = gv_PID c, np_Count = gv_Count c\<rparr>]"
| "merge_proc c (p # ps) =
     (if np_Name p = gv_ProcessName c \<and> np_PID p = gv_PID c then p\<lparr>np_Count := i64 (np_Count p + gv_Count c)\<rparr> # ps
      else p # merge_proc c ps)"

definition merge_port :: "int \<Rightarrow> int list \<Rightarrow> int list" where
  "merge_port port ports = (if 0 < port \<and> port \<notin> set ports then ports @ [port] else ports)"

definition merge_conversation :: "graph_conversation \<Rightarrow> netPeer \<Rightarrow> netPeer" where
  "merge_conversation c p =
     p\<lparr>nx_Processes := merge_proc c (nx_Processes p), nx_TotalConns := i64 (nx_TotalConns p + gv_Count c),
       nx_Ports := merge_port (gv_RemotePort c) (nx_Ports p)\<rparr>"

definition peer_key :: "graph_conversation \<Rightarrow> string \<times> string" where
  "peer_key c = (gv_RemoteIP c, gv_Direction c)"

definition peer_step ::
    "(string \<Rightarrow> geo_result option) option \<Rightarrow> graph_conversation \<Rightarrow> (string \<times> string \<rightharpoonup> netPeer) \<times> string set \<Rightarrow>
     (string \<times> string \<rightharpoonup> netPeer) \<times> string set" where
  "peer_step geo c acc =
     (case acc of (peers, procs) \<Rightarrow>
        if gv_RemoteIP c = [] then acc
        else let p = (case peers (peer_key c) of None \<Rightarrow> new_peer geo c | Some p \<Rightarrow> p) in
          (peers(peer_key c \<mapsto> merge_conversation c p),
           if gv_ProcessName c = [] then procs else insert (gv_ProcessName c) procs))"

definition sortPeerProcs :: "netPeerProc list \<Rightarrow> netPeerProc list" where
  "sortPeerProcs = insertion_sort (\<lambda>a b. np_Count b < np_Count a)"

definition sortPeers :: "netPeer list \<Rightarrow> netPeer list" where
  "sortPeers = insertion_sort (\<lambda>a b. if nx_TotalConns a \<noteq> nx_TotalConns b then nx_TotalConns b < nx_TotalConns a else nx_IP a < nx_IP b)"

definition stringsSort :: "string list \<Rightarrow> string list" where
  "stringsSort = insertion_sort (<)"

definition peer_table :: "(string \<Rightarrow> geo_result option) option \<Rightarrow> graph_conversation list \<Rightarrow> (string \<times> string \<rightharpoonup> netPeer) \<times> string set" where
  "peer_table geo convs = fold (peer_step geo) convs (\<lambda>_. None, {})"

definition network_graph ::
    "(string \<Rightarrow> geo_result option) option \<Rightarrow> ((string \<times> string \<rightharpoonup> netPeer) \<Rightarrow> netPeer list) \<Rightarrow> (string set \<Rightarrow> string list) \<Rightarrow>
     graph_conversation list \<Rightarrow> netPeer list \<times> string list" where
  "network_graph geo order order_names convs =
     (case peer_table geo convs of (peers, procs) \<Rightarrow>
        (sortPeers (map (\<lambda>p. p\<lparr>nx_Processes := sortPeerProcs (nx_Processes p)\<rparr>) (order peers)),
         stringsSort (order_names procs)))"

text \<open>The handler: \<open>loaded\<close> is what the query found, the text of the snapshot or nothing; \<open>decode\<close> its decoding.\<close>

datatype graph_reply = GraphFailed nat string | GraphOf "netPeer list" "string list"

definition handleAgentNetworkGraph ::
    "(string \<Rightarrow> uuid option) \<Rightarrow> (uuid \<Rightarrow> bool + string option) \<Rightarrow> (string \<Rightarrow> graph_conversation list option) \<Rightarrow>
     (string \<Rightarrow> geo_result option) option \<Rightarrow> ((string \<times> string \<rightharpoonup> netPeer) \<Rightarrow> netPeer list) \<Rightarrow> (string set \<Rightarrow> string list) \<Rightarrow> string \<Rightarrow> graph_reply" where
  "handleAgentNetworkGraph parse_uuid loaded decode geo order order_names param =
     (case parse_uuid param of
        None \<Rightarrow> GraphFailed 400 ''id must be a UUID''
      | Some i \<Rightarrow>
          (case loaded i of
             Inl no_rows \<Rightarrow> if no_rows then GraphFailed 404 ''agent not found'' else GraphFailed 500 ''load agent failed''
           | Inr None \<Rightarrow> GraphOf [] []
           | Inr (Some text) \<Rightarrow>
               if text = [] then GraphOf [] []
               else (case decode text of
                       None \<Rightarrow> GraphFailed 500 ''parse snapshot failed''
                     | Some convs \<Rightarrow> (case network_graph geo order order_names convs of (ps, ns) \<Rightarrow> GraphOf ps ns))))"

subsection \<open>What a peer counts\<close>

definition of_peer :: "string \<times> string \<Rightarrow> graph_conversation list \<Rightarrow> graph_conversation list" where
  "of_peer k convs = filter (\<lambda>c. gv_RemoteIP c \<noteq> [] \<and> peer_key c = k) convs"

definition of_process :: "string \<times> int \<Rightarrow> graph_conversation list \<Rightarrow> graph_conversation list" where
  "of_process k cs = filter (\<lambda>c. (gv_ProcessName c, gv_PID c) = k) cs"

text \<open>A count is stored as it was decoded, and wraps around when another is added to it.\<close>

definition added_up :: "int list \<Rightarrow> int" where
  "added_up ns = (case ns of [n] \<Rightarrow> n | _ \<Rightarrow> i64 (sum_list ns))"

definition counts_conversations :: "graph_conversation list \<Rightarrow> netPeer \<Rightarrow> bool" where
  "counts_conversations cs p \<longleftrightarrow>
     nx_TotalConns p = i64 (sum_list (map gv_Count cs)) \<and>
     i64 (sum_list (map np_Count (nx_Processes p))) = nx_TotalConns p \<and>
     distinct (map (\<lambda>q. (np_Name q, np_PID q)) (nx_Processes p)) \<and>
     (\<lambda>q. (np_Name q, np_PID q)) ` set (nx_Processes p) = (\<lambda>c. (gv_ProcessName c, gv_PID c)) ` set cs \<and>
     (\<forall>q\<in>set (nx_Processes p). np_Count q = added_up (map gv_Count (of_process (np_Name q, np_PID q) cs))) \<and>
     distinct (nx_Ports p) \<and> set (nx_Ports p) = {port \<in> gv_RemotePort ` set cs. 0 < port}"

lemma i64_add_left: "i64 (i64 a + b) = i64 (a + b)"
proof -
  have "i64 (i64 a + b) = i64 (i64 (i64 a) + i64 b)" unfolding i64_def by (rule signed_take_bit_add[symmetric])
  also have "\<dots> = i64 (i64 a + i64 b)" by (simp add: i64_def)
  also have "\<dots> = i64 (a + b)" unfolding i64_def by (rule signed_take_bit_add)
  finally show ?thesis .
qed

lemma i64_add_right: "i64 (b + i64 a) = i64 (b + a)"
  using i64_add_left[of a b] by (simp add: add.commute)

definition proc_name :: "netPeerProc \<Rightarrow> string \<times> int" where
  "proc_name q = (np_Name q, np_PID q)"

lemma merge_proc_names:
  "map proc_name (merge_proc c ps) =
     (if (gv_ProcessName c, gv_PID c) \<in> proc_name ` set ps then map proc_name ps else map proc_name ps @ [(gv_ProcessName c, gv_PID c)])"
  by (induction ps) (auto simp: proc_name_def)

lemma merge_proc_sum: "i64 (sum_list (map np_Count (merge_proc c ps))) = i64 (sum_list (map np_Count ps) + gv_Count c)"
proof (induction ps)
  case (Cons p ps)
  show ?case
  proof (cases "np_Name p = gv_ProcessName c \<and> np_PID p = gv_PID c")
    case True
    then show ?thesis by (simp add: i64_add_left i64_add_right add.commute add.left_commute)
  next
    case False
    then have "sum_list (map np_Count (merge_proc c (p # ps))) = np_Count p + sum_list (map np_Count (merge_proc c ps))" by auto
    then have "i64 (sum_list (map np_Count (merge_proc c (p # ps)))) = i64 (np_Count p + i64 (sum_list (map np_Count (merge_proc c ps))))"
      by (simp only: i64_add_right)
    then show ?thesis by (simp only: Cons i64_add_right) (simp add: add.assoc)
  qed
qed simp

lemma counts_alt:
  "counts_conversations cs p \<longleftrightarrow>
     nx_TotalConns p = i64 (sum_list (map gv_Count cs)) \<and>
     i64 (sum_list (map np_Count (nx_Processes p))) = nx_TotalConns p \<and>
     distinct (map proc_name (nx_Processes p)) \<and>
     proc_name ` set (nx_Processes p) = (\<lambda>c. (gv_ProcessName c, gv_PID c)) ` set cs \<and>
     (\<forall>q\<in>set (nx_Processes p). np_Count q = added_up (map gv_Count (of_process (proc_name q) cs))) \<and>
     distinct (nx_Ports p) \<and> set (nx_Ports p) = {port \<in> gv_RemotePort ` set cs. 0 < port}"
  by (simp add: counts_conversations_def proc_name_def[abs_def])

lemma added_up_snoc: "ns \<noteq> [] \<Longrightarrow> added_up (ns @ [n]) = i64 (added_up ns + n)"
  by (auto simp: added_up_def i64_add_left add.assoc split: list.split)

lemma added_up_single [simp]: "added_up [n] = n"
  by (simp add: added_up_def)

lemma of_process_snoc:
  "of_process k (cs @ [c]) = (if k = (gv_ProcessName c, gv_PID c) then of_process k cs @ [c] else of_process k cs)"
  by (auto simp: of_process_def)

lemma of_process_empty: "of_process k cs = [] \<longleftrightarrow> k \<notin> (\<lambda>c. (gv_ProcessName c, gv_PID c)) ` set cs"
  by (auto simp: of_process_def filter_empty_conv)

text \<open>A conversation is added to the process it names and to no other.\<close>

lemma merge_proc_entry:
  assumes "q \<in> set (merge_proc c ps)" "distinct (map proc_name ps)"
  shows "(q \<in> set ps \<and> proc_name q \<noteq> (gv_ProcessName c, gv_PID c)) \<or>
    (\<exists>p\<in>set ps. proc_name p = (gv_ProcessName c, gv_PID c) \<and> proc_name q = proc_name p \<and> np_Count q = i64 (np_Count p + gv_Count c)) \<or>
    ((gv_ProcessName c, gv_PID c) \<notin> proc_name ` set ps \<and> proc_name q = (gv_ProcessName c, gv_PID c) \<and> np_Count q = gv_Count c)"
  using assms
proof (induction ps)
  case Nil
  then show ?case by (simp add: proc_name_def)
next
  case (Cons p ps)
  show ?case
  proof (cases "proc_name p = (gv_ProcessName c, gv_PID c)")
    case True
    then have m: "merge_proc c (p # ps) = p\<lparr>np_Count := i64 (np_Count p + gv_Count c)\<rparr> # ps" by (simp add: proc_name_def)
    have fresh: "(gv_ProcessName c, gv_PID c) \<notin> proc_name ` set ps" using Cons.prems(2) True by auto
    show ?thesis
    proof (cases "q \<in> set ps")
      case True
      then have "proc_name q \<noteq> (gv_ProcessName c, gv_PID c)" using fresh by (metis imageI)
      then show ?thesis using True by simp
    next
      case False
      then have "q = p\<lparr>np_Count := i64 (np_Count p + gv_Count c)\<rparr>" using Cons.prems(1) m by simp
      then show ?thesis using True by (simp add: proc_name_def)
    qed
  next
    case False
    then have m: "merge_proc c (p # ps) = p # merge_proc c ps" by (auto simp: proc_name_def)
    show ?thesis
    proof (cases "q = p")
      case True
      then show ?thesis using False by simp
    next
      case other: False
      then have "q \<in> set (merge_proc c ps)" using Cons.prems(1) m by simp
      then show ?thesis using Cons.IH Cons.prems(2) False by auto
    qed
  qed
qed

lemma merge_proc_count:
  assumes "counts_conversations cs p" "q \<in> set (merge_proc c (nx_Processes p))"
  shows "np_Count q = added_up (map gv_Count (of_process (proc_name q) (cs @ [c])))"
proof -
  let ?k = "(gv_ProcessName c, gv_PID c)" and ?ps = "nx_Processes p"
  have d: "distinct (map proc_name ?ps)" and n: "proc_name ` set ?ps = (\<lambda>c. (gv_ProcessName c, gv_PID c)) ` set cs"
    and old: "\<forall>q\<in>set ?ps. np_Count q = added_up (map gv_Count (of_process (proc_name q) cs))"
    using assms(1) by (simp_all add: counts_alt)
  consider "q \<in> set ?ps" "proc_name q \<noteq> ?k"
    | r where "r \<in> set ?ps" "proc_name r = ?k" "proc_name q = ?k" "np_Count q = i64 (np_Count r + gv_Count c)"
    | "?k \<notin> proc_name ` set ?ps" "proc_name q = ?k" "np_Count q = gv_Count c"
    using merge_proc_entry[OF assms(2) d] by auto
  then show ?thesis
  proof cases
    case 1
    then show ?thesis using old by (simp add: of_process_snoc)
  next
    case 2
    then have "?k \<in> (\<lambda>c. (gv_ProcessName c, gv_PID c)) ` set cs" using n by (metis imageI)
    then have "of_process ?k cs \<noteq> []" by (simp add: of_process_empty)
    then show ?thesis using 2 old by (simp add: of_process_snoc added_up_snoc)
  next
    case 3
    then have "of_process ?k cs = []" using n by (simp add: of_process_empty)
    then show ?thesis using 3 by (simp add: of_process_snoc)
  qed
qed

lemma merge_counts:
  assumes "counts_conversations cs p"
  shows "counts_conversations (cs @ [c]) (merge_conversation c p)"
proof -
  have "i64 (sum_list (map np_Count (nx_Processes p))) = i64 (sum_list (map gv_Count cs))" using assms by (simp add: counts_alt)
  then have "i64 (sum_list (map np_Count (merge_proc c (nx_Processes p)))) = i64 (sum_list (map gv_Count cs) + gv_Count c)"
    by (metis merge_proc_sum i64_add_left)
  moreover have "distinct (map proc_name (merge_proc c (nx_Processes p)))"
    using assms by (auto simp: merge_proc_names counts_alt)
  moreover have "proc_name ` set (merge_proc c (nx_Processes p)) = insert (gv_ProcessName c, gv_PID c) (proc_name ` set (nx_Processes p))"
    using merge_proc_names[of c "nx_Processes p"] by (metis (no_types, lifting) insert_absorb list.set_map list.simps(15) rotate1.simps(2) set_rotate1)
  moreover have "\<forall>q\<in>set (merge_proc c (nx_Processes p)). np_Count q = added_up (map gv_Count (of_process (proc_name q) (cs @ [c])))"
    using merge_proc_count[OF assms] by blast
  ultimately show ?thesis
    using assms by (auto simp: counts_alt merge_conversation_def merge_port_def i64_add_left)
qed

lemma new_peer_empty: "nx_Processes (new_peer geo c) = []" "nx_TotalConns (new_peer geo c) = 0" "nx_Ports (new_peer geo c) = []"
  "nx_IP (new_peer geo c) = gv_RemoteIP c" "nx_Direction (new_peer geo c) = gv_Direction c"
  by (simp_all add: new_peer_def Let_def split: option.split)

lemma new_peer_counts: "counts_conversations [] (new_peer geo c)"
  by (simp add: counts_conversations_def new_peer_empty i64_def)

lemma peer_table_inv:
  assumes "peer_table geo convs = (peers, procs)"
  shows "dom peers = peer_key ` {c \<in> set convs. gv_RemoteIP c \<noteq> []} \<and>
    (\<forall>k p. peers k = Some p \<longrightarrow> k = (nx_IP p, nx_Direction p) \<and> counts_conversations (of_peer k convs) p) \<and>
    procs = {gv_ProcessName c | c. c \<in> set convs \<and> gv_RemoteIP c \<noteq> [] \<and> gv_ProcessName c \<noteq> []}"
  using assms
proof (induction convs arbitrary: peers procs rule: rev_induct)
  case Nil
  then show ?case by (auto simp: peer_table_def)
next
  case (snoc c convs)
  obtain m ns where t: "peer_table geo convs = (m, ns)" by (cases "peer_table geo convs")
  note ih = snoc.IH[OF t]
  have s: "peer_step geo c (m, ns) = (peers, procs)" using snoc.prems t by (simp add: peer_table_def)
  show ?case
  proof (cases "gv_RemoteIP c = []")
    case True
    then have e: "peers = m" "procs = ns" using s by (simp_all add: peer_step_def)
    have "of_peer k (convs @ [c]) = of_peer k convs" for k using True by (simp add: of_peer_def)
    moreover have "{x \<in> set (convs @ [c]). gv_RemoteIP x \<noteq> []} = {x \<in> set convs. gv_RemoteIP x \<noteq> []}" using True by auto
    ultimately show ?thesis using ih True unfolding e by auto
  next
    case False
    let ?k = "peer_key c" and ?p = "case m (peer_key c) of None \<Rightarrow> new_peer geo c | Some p \<Rightarrow> p"
    have e: "peers = m(?k \<mapsto> merge_conversation c ?p)" "procs = (if gv_ProcessName c = [] then ns else insert (gv_ProcessName c) ns)"
      using s False by (simp_all add: peer_step_def Let_def)
    have old: "counts_conversations (of_peer ?k convs) ?p \<and> ?k = (nx_IP ?p, nx_Direction ?p)"
    proof (cases "m ?k")
      case None
      then have "?k \<notin> dom m" by blast
      then have "\<forall>x\<in>set convs. gv_RemoteIP x \<noteq> [] \<longrightarrow> peer_key x \<noteq> ?k" using ih by (metis (mono_tags, lifting) image_eqI mem_Collect_eq)
      then have "of_peer ?k convs = []" by (auto simp: of_peer_def filter_empty_conv)
      then show ?thesis using None by (simp add: new_peer_counts new_peer_empty peer_key_def)
    next
      case (Some p)
      then have "counts_conversations (of_peer ?k convs) p \<and> ?k = (nx_IP p, nx_Direction p)" using ih by blast
      moreover have "?p = p" using Some by simp
      ultimately show ?thesis by metis
    qed
    have "of_peer ?k (convs @ [c]) = of_peer ?k convs @ [c]" using False by (simp add: of_peer_def)
    then have new: "counts_conversations (of_peer ?k (convs @ [c])) (merge_conversation c ?p)"
      using merge_counts old by simp
    have other: "of_peer k (convs @ [c]) = of_peer k convs" if "k \<noteq> ?k" for k using that by (simp add: of_peer_def)
    have "dom peers = peer_key ` {x \<in> set (convs @ [c]). gv_RemoteIP x \<noteq> []}" using ih False by (auto simp: e(1))
    moreover have "k = (nx_IP p, nx_Direction p) \<and> counts_conversations (of_peer k (convs @ [c])) p" if "peers k = Some p" for k p
    proof (cases "k = ?k")
      case True
      then have "p = merge_conversation c ?p" using that by (simp add: e(1))
      then show ?thesis using True new old by (simp add: merge_conversation_def)
    next
      case False
      then have "m k = Some p" using that by (simp add: e(1))
      then have "k = (nx_IP p, nx_Direction p) \<and> counts_conversations (of_peer k convs) p" using ih by blast
      then show ?thesis using other[OF False] by metis
    qed
    moreover have "procs = {gv_ProcessName x | x. x \<in> set (convs @ [c]) \<and> gv_RemoteIP x \<noteq> [] \<and> gv_ProcessName x \<noteq> []}"
      using ih False by (auto simp: e(2))
    ultimately show ?thesis by blast
  qed
qed

subsection \<open>The answer\<close>

definition lists_peers :: "((string \<times> string \<rightharpoonup> netPeer) \<Rightarrow> netPeer list) \<Rightarrow> bool" where
  "lists_peers order \<longleftrightarrow> (\<forall>m. finite (dom m) \<longrightarrow> mset (order m) = image_mset (\<lambda>k. the (m k)) (mset_set (dom m)))"

lemma processes_sorted:
  "mset (sortPeerProcs ps) = mset ps" "sorted_wrt (\<lambda>a b. np_Count b \<le> np_Count a) (sortPeerProcs ps)"
  using insertion_sort_sorts[of ps "\<lambda>a b. np_Count b < np_Count a" "\<lambda>q. - np_Count q"] by (simp_all add: sortPeerProcs_def)

lemma peers_sorted:
  "mset (sortPeers ps) = mset ps \<and> sorted_wrt (\<lambda>a b. (- nx_TotalConns a, nx_IP a) \<le> (- nx_TotalConns b, nx_IP b)) (sortPeers ps)"
  unfolding sortPeers_def
  by (rule insertion_sort_sorts[of ps _ "\<lambda>p. (- nx_TotalConns p, nx_IP p)"]) auto

lemma names_sorted: "mset (stringsSort ns) = mset ns \<and> sorted_wrt (\<le>) (stringsSort ns)"
  unfolding stringsSort_def by (rule insertion_sort_sorts[of ns "(<)" id, simplified]) 

lemma sorted_processes_count:
  assumes "counts_conversations cs p"
  shows "counts_conversations cs (p\<lparr>nx_Processes := sortPeerProcs (nx_Processes p)\<rparr>)"
proof -
  have m: "mset (map f (sortPeerProcs (nx_Processes p))) = mset (map f (nx_Processes p))" for f :: "netPeerProc \<Rightarrow> 'z"
    by (simp add: processes_sorted(1))
  have "sum_list (map np_Count (sortPeerProcs (nx_Processes p))) = sum_list (map np_Count (nx_Processes p))"
    using m[of np_Count] by (metis sum_mset_sum_list)
  moreover have "distinct (map proc_name (sortPeerProcs (nx_Processes p))) = distinct (map proc_name (nx_Processes p))"
    using m[of proc_name] by (metis mset_eq_imp_distinct_iff)
  moreover have "set (sortPeerProcs (nx_Processes p)) = set (nx_Processes p)" using processes_sorted(1) by (metis set_mset_mset)
  ultimately show ?thesis using assms by (simp add: counts_alt)
qed

text \<open>C28: The answer has one peer for each remote address and direction of the conversations; it counts their sockets,
  in all and for each process of them by itself, and lists their ports; the busiest come first, the address breaking ties, and the names are those
  of the processes, in order.\<close>

theorem network_graph_counts:
  assumes "lists_peers order" "\<forall>ns. finite ns \<longrightarrow> distinct (order_names ns) \<and> set (order_names ns) = ns"
    and "network_graph geo order order_names convs = (peers, names)"
  shows "distinct (map (\<lambda>p. (nx_IP p, nx_Direction p)) peers) \<and>
    (\<lambda>p. (nx_IP p, nx_Direction p)) ` set peers = peer_key ` {c \<in> set convs. gv_RemoteIP c \<noteq> []} \<and>
    (\<forall>p\<in>set peers. counts_conversations (of_peer (nx_IP p, nx_Direction p) convs) p) \<and>
    sorted_wrt (\<lambda>a b. (- nx_TotalConns a, nx_IP a) \<le> (- nx_TotalConns b, nx_IP b)) peers \<and>
    names = sorted_list_of_set {gv_ProcessName c | c. c \<in> set convs \<and> gv_RemoteIP c \<noteq> [] \<and> gv_ProcessName c \<noteq> []}"
proof -
  obtain m ns where t: "peer_table geo convs = (m, ns)" by (cases "peer_table geo convs")
  note inv = peer_table_inv[OF t]
  let ?key = "\<lambda>p. (nx_IP p, nx_Direction p)" and ?sp = "\<lambda>p. p\<lparr>nx_Processes := sortPeerProcs (nx_Processes p)\<rparr>"
  have fin: "finite (dom m)" using inv by simp
  have e: "peers = sortPeers (map ?sp (order m))" "names = stringsSort (order_names ns)"
    using assms(3) t by (simp_all add: network_graph_def)
  have mp: "mset peers = mset (map ?sp (order m))" using peers_sorted e(1) by blast
  have mo: "mset (order m) = image_mset (\<lambda>k. the (m k)) (mset_set (dom m))" using assms(1) fin by (simp add: lists_peers_def)
  have keys: "mset (map ?key peers) = mset_set (dom m)"
  proof -
    have "mset (map ?key peers) = image_mset (?key \<circ> ?sp) (mset (order m))" using mp by (simp add: multiset.map_comp)
    also have "\<dots> = image_mset (\<lambda>k. ?key (the (m k))) (mset_set (dom m))" by (simp add: mo multiset.map_comp comp_def)
    also have "\<dots> = image_mset (\<lambda>k. k) (mset_set (dom m))"
    proof (rule image_mset_cong)
      fix k assume "k \<in># mset_set (dom m)"
      then obtain p where "m k = Some p" using fin by auto
      moreover have "\<forall>k p. m k = Some p \<longrightarrow> k = ?key p" using inv by blast
      ultimately show "?key (the (m k)) = k" by (metis option.sel)
    qed
    finally show ?thesis by simp
  qed
  have d: "distinct (map ?key peers)"
  proof -
    have "mset (map ?key peers) = mset (sorted_list_of_set (dom m))" using keys by (metis mset_sorted_list_of_multiset sorted_list_of_mset_set)
    then show ?thesis using mset_eq_imp_distinct_iff distinct_sorted_list_of_set by blast
  qed
  have k: "?key ` set peers = dom m"
  proof -
    have "set (map ?key peers) = set_mset (mset_set (dom m))" using arg_cong[OF keys, of set_mset] by simp
    then show ?thesis using fin by simp
  qed
  have c: "counts_conversations (of_peer (?key p) convs) p" if p: "p \<in> set peers" for p
  proof -
    have "set peers = ?sp ` set (order m)" using arg_cong[OF mp, of set_mset] by simp
    then obtain q where q: "q \<in> set (order m)" "p = ?sp q" using p by blast
    have "set (order m) = (\<lambda>k. the (m k)) ` dom m" using arg_cong[OF mo, of set_mset] fin by simp
    then obtain k where "m k = Some q" using q(1) by auto
    then have q2: "k = ?key q" "counts_conversations (of_peer k convs) q" using inv by blast+
    then have "counts_conversations (of_peer k convs) p" using sorted_processes_count q(2) by simp
    moreover have "?key p = k" using q(2) q2(1) by simp
    ultimately show ?thesis by metis
  qed
  have n: "sorted names" "distinct names" "set names = ns"
  proof -
    have o: "distinct (order_names ns)" "set (order_names ns) = ns" using assms(2) inv by simp_all
    have "mset names = mset (order_names ns)" using names_sorted e(2) by blast
    then show "distinct names" "set names = ns" using o by (metis mset_eq_imp_distinct_iff, metis o(2) set_mset_mset)
    show "sorted names" using names_sorted[of "order_names ns"] e(2) by simp
  qed
  have "names = sorted_list_of_set ns"
    using n inv by (intro sorted_distinct_set_unique) simp_all
  then show ?thesis using d k c inv peers_sorted[of "map ?sp (order m)"] e(1) by simp
qed

subsection \<open>One address in both directions\<close>

definition demo_talk :: "string \<Rightarrow> int \<Rightarrow> int \<Rightarrow> graph_conversation" where
  "demo_talk dir p n = \<lparr>gv_Direction = dir, gv_RemoteIP = ''9.9.9.9'', gv_RemoteHost = [], gv_RemotePort = 443, gv_PID = p,
     gv_ProcessName = ''app'', gv_Count = n\<rparr>"

lemma some_peer_order: "\<exists>order. lists_peers order"
proof -
  have "\<exists>xs. finite (dom m) \<longrightarrow> mset xs = image_mset (\<lambda>k. the (m k)) (mset_set (dom m))" for m :: "string \<times> string \<rightharpoonup> netPeer"
    using ex_mset by blast
  then show ?thesis unfolding lists_peers_def by metis
qed

text \<open>The address is in the graph once for each direction.\<close>

theorem network_graph_counts_witness:
  "\<exists>order peers names. lists_peers order \<and>
     network_graph None order sorted_list_of_set [demo_talk ''inbound'' 7 2, demo_talk ''outbound'' 7 1, demo_talk ''inbound'' 8 3, demo_talk ''inbound'' 7 4] = (peers, names) \<and>
     length peers = 2 \<and> nx_IP ` set peers = {''9.9.9.9''} \<and> (\<exists>p\<in>set peers. nx_TotalConns p = 9 \<and>
       (\<lambda>q. (np_Name q, np_PID q, np_Count q)) ` set (nx_Processes p) = {(''app'', 7, 6), (''app'', 8, 3)}) \<and> names = [''app'']"
proof -
  let ?cs = "[demo_talk ''inbound'' 7 2, demo_talk ''outbound'' 7 1, demo_talk ''inbound'' 8 3, demo_talk ''inbound'' 7 4]" and ?key = "\<lambda>p. (nx_IP p, nx_Direction p)"
  obtain order where o: "lists_peers order" using some_peer_order by blast
  obtain peers names where g: "network_graph None order sorted_list_of_set ?cs = (peers, names)" by (metis surj_pair)
  have s: "\<forall>ns :: string set. finite ns \<longrightarrow> distinct (sorted_list_of_set ns) \<and> set (sorted_list_of_set ns) = ns" by simp
  note c = network_graph_counts[OF o s g]
  have "{c \<in> set ?cs. gv_RemoteIP c \<noteq> []} = set ?cs" by (auto simp: demo_talk_def)
  then have "peer_key ` {c \<in> set ?cs. gv_RemoteIP c \<noteq> []} = peer_key ` set ?cs" by (rule arg_cong)
  then have "peer_key ` {c \<in> set ?cs. gv_RemoteIP c \<noteq> []} = {(''9.9.9.9'', ''inbound''), (''9.9.9.9'', ''outbound'')}"
    by (simp add: demo_talk_def peer_key_def insert_commute)
  then have k: "?key ` set peers = {(''9.9.9.9'', ''inbound''), (''9.9.9.9'', ''outbound'')}" using c[THEN conjunct2, THEN conjunct1] by (simp only:)
  have "length peers = card (?key ` set peers)" using distinct_card[OF c[THEN conjunct1]] by simp
  then have l: "length peers = 2" by (simp add: k)
  have "nx_IP ` set peers = fst ` ?key ` set peers" by (simp add: image_image)
  then have ip: "nx_IP ` set peers = {''9.9.9.9''}" by (simp add: k)
  obtain p where p: "p \<in> set peers" "?key p = (''9.9.9.9'', ''inbound'')" proof -
    have "(''9.9.9.9'', ''inbound'') \<in> ?key ` set peers" unfolding k by (rule insertI1)
    then show thesis using that by (auto simp del: prod.inject) 
  qed
  have "of_peer (''9.9.9.9'', ''inbound'') ?cs = [demo_talk ''inbound'' 7 2, demo_talk ''inbound'' 8 3, demo_talk ''inbound'' 7 4]"
    by (simp add: of_peer_def peer_key_def demo_talk_def)
  then have cc: "counts_conversations [demo_talk ''inbound'' 7 2, demo_talk ''inbound'' 8 3, demo_talk ''inbound'' 7 4] p"
    using c[THEN conjunct2, THEN conjunct2, THEN conjunct1, THEN bspec, OF p(1)] p(2) by (simp only:)
  from cc have t: "nx_TotalConns p = 9" by (simp add: counts_conversations_def demo_talk_def i64_small)
  from cc have ks: "proc_name ` set (nx_Processes p) = {(''app'', 7), (''app'', 8)}" by (auto simp: counts_alt demo_talk_def)
  have counted: "(np_Name q, np_PID q, np_Count q) = (fst (proc_name q), snd (proc_name q), if snd (proc_name q) = 7 then 6 else 3)"
    if q: "q \<in> set (nx_Processes p)" for q
  proof -
    have "np_Count q = added_up (map gv_Count (of_process (proc_name q)
        [demo_talk ''inbound'' 7 2, demo_talk ''inbound'' 8 3, demo_talk ''inbound'' 7 4]))"
      using cc q by (simp add: counts_alt)
    moreover have "proc_name q = (''app'', 7) \<or> proc_name q = (''app'', 8)" using ks q by blast
    ultimately show ?thesis by (auto simp: of_process_def demo_talk_def added_up_def proc_name_def i64_small)
  qed
  have "(\<lambda>q. (np_Name q, np_PID q, np_Count q)) ` set (nx_Processes p) =
      (\<lambda>k. (fst k, snd k, if snd k = 7 then 6 else 3)) ` proc_name ` set (nx_Processes p)"
    unfolding image_image by (rule image_cong) (simp_all only: counted)
  then have procs: "(\<lambda>q. (np_Name q, np_PID q, np_Count q)) ` set (nx_Processes p) = {(''app'', 7, 6), (''app'', 8, 3)}"
    by (simp add: ks)
  have "{gv_ProcessName c | c. c \<in> set ?cs \<and> gv_RemoteIP c \<noteq> [] \<and> gv_ProcessName c \<noteq> []} = {''app''}"
    by (auto simp: demo_talk_def intro!: exI[of _ "demo_talk ''inbound'' 7 2"])
  then have "names = sorted_list_of_set {''app''}" using c[THEN conjunct2, THEN conjunct2, THEN conjunct2, THEN conjunct2] by (simp only:)
  then have n: "names = [''app'']" by simp
  show ?thesis using o g l ip p(1) t procs n by blast
qed

end
