(* ===== verification/Sql_Update.thy ===== *)
theory Sql_Update
  imports Sonar_Prelude Base64
begin

text \<open>
  The assignments of an UPDATE that a handler collects from the fields of a body: a field that is absent sets nothing, one
  that is wrong ends the request, and the first wrong one decides.
\<close>

definition column :: "'v option \<Rightarrow> ('v \<Rightarrow> string option) \<Rightarrow> ('v \<Rightarrow> 'r \<Rightarrow> 'r) \<Rightarrow> string + ('r \<Rightarrow> 'r) list" where
  "column x problem put =
     (case x of None \<Rightarrow> Inr [] | Some v \<Rightarrow> (case problem v of Some e \<Rightarrow> Inl e | None \<Rightarrow> Inr [put v]))"

fun columns :: "(string + 'a list) list \<Rightarrow> string + 'a list" where
  "columns [] = Inr []"
| "columns (c # cs) =
     (case c of Inl e \<Rightarrow> Inl e | Inr s \<Rightarrow> (case columns cs of Inl e \<Rightarrow> Inl e | Inr t \<Rightarrow> Inr (s @ t)))"

definition problem_unless :: "bool \<Rightarrow> string \<Rightarrow> string option" where
  "problem_unless ok e = (if ok then None else Some e)"

definition assign_all :: "('r \<Rightarrow> 'r) list \<Rightarrow> 'r \<Rightarrow> 'r" where
  "assign_all fs r = fold (\<lambda>f. f) fs r"

lemma assign_all_simps [simp]:
  "assign_all [] r = r" "assign_all (f # fs) r = assign_all fs (f r)" "assign_all (fs @ gs) r = assign_all gs (assign_all fs r)"
  by (simp_all add: assign_all_def)

lemma columns_keep:
  assumes "columns cs = Inr fs" "list_all (\<lambda>c. \<forall>s. c = Inr s \<longrightarrow> (\<forall>f\<in>set s. P f)) cs" "f \<in> set fs"
  shows "P f"
  using assms by (induction cs arbitrary: fs) (auto split: sum.splits)

lemma column_keeps:
  assumes "\<And>v. problem v = None \<Longrightarrow> P (put v)"
  shows "\<forall>s. column x problem put = Inr s \<longrightarrow> (\<forall>f\<in>set s. P f)"
  using assms by (auto simp: column_def split: option.splits)

text \<open>A column of bytes gives back what was stored in it.\<close>

lemma bytes_of_string_of: "bytes_of (string_of bs) = bs"
proof -
  have "word_of_nat (char_code (char_of (unat b))) = b" for b :: byte
    using unsigned_less[of b, where ?'a = nat] by (simp add: char_code_def)
  then show ?thesis by (simp add: bytes_of_def string_of_def map_idI)
qed

end
