(* ===== verification/Go_Marshal.thy ===== *)
theory Go_Marshal
  imports Go_Json
begin

text \<open>
  \<open>json.Marshal\<close> of texts and of objects whose members are texts: the quoting with its escapes for HTML and for the two
  line separators, and that \<open>Go_Json\<close> reads back what was written. A text is valid UTF-8, as in \<open>Go_Json\<close>.
\<close>

definition hex_lower :: "nat \<Rightarrow> char" where
  "hex_lower n = ''0123456789abcdef'' ! n"

definition escape_char :: "char \<Rightarrow> string" where
  "escape_char c =
     (if c = CHR 0x22 \<or> c = CHR 0x5C then [CHR 0x5C, c]
      else if c = CHR 0x08 then [CHR 0x5C, CHR ''b''] else if c = CHR 0x0C then [CHR 0x5C, CHR ''f'']
      else if c = CHR 0x0A then [CHR 0x5C, CHR ''n''] else if c = CHR 0x0D then [CHR 0x5C, CHR ''r'']
      else if c = CHR 0x09 then [CHR 0x5C, CHR ''t'']
      else if char_code c < 32 \<or> c \<in> {CHR ''<'', CHR ''>'', CHR ''&''}
        then [CHR 0x5C, CHR ''u'', CHR ''0'', CHR ''0'', hex_lower (char_code c div 16), hex_lower (char_code c mod 16)]
      else [c])"

text \<open>The three bytes of U+2028 and U+2029.\<close>

fun escaped :: "string \<Rightarrow> string" where
  "escaped [] = []"
| "escaped (c # s) =
     (if take 3 (c # s) = [CHR 0xE2, CHR 0x80, CHR 0xA8] \<or> take 3 (c # s) = [CHR 0xE2, CHR 0x80, CHR 0xA9]
      then [CHR 0x5C, CHR ''u'', CHR ''2'', CHR ''0'', CHR ''2'', if s ! 1 = CHR 0xA8 then CHR ''8'' else CHR ''9''] @
           escaped (drop 2 s)
      else escape_char c @ escaped s)"

definition quoted :: "string \<Rightarrow> string" where
  "quoted s = CHR 0x22 # escaped s @ [CHR 0x22]"

definition member_of :: "string \<times> string \<Rightarrow> string" where
  "member_of kv = quoted (fst kv) @ CHR '':'' # quoted (snd kv)"

fun members_of :: "(string \<times> string) list \<Rightarrow> string" where
  "members_of [] = []"
| "members_of [kv] = member_of kv"
| "members_of (kv # kvs) = member_of kv @ CHR '','' # members_of kvs"

definition object_of :: "(string \<times> string) list \<Rightarrow> string" where
  "object_of kvs = CHR ''{'' # members_of kvs @ [CHR ''}'']"

subsection \<open>Reading back\<close>

lemma nibble_hex: "n < 16 \<Longrightarrow> nibble (hex_lower n) = Some n"
proof -
  assume "n < 16"
  then have "n = 0 \<or> n = 1 \<or> n = 2 \<or> n = 3 \<or> n = 4 \<or> n = 5 \<or> n = 6 \<or> n = 7 \<or> n = 8 \<or> n = 9 \<or> n = 10 \<or> n = 11 \<or>
      n = 12 \<or> n = 13 \<or> n = 14 \<or> n = 15" by arith
  then show ?thesis by (elim disjE) (simp_all add: hex_lower_def nibble_def char_code_def)
qed

lemma char_code_less: "char_code c < 256"
  by (simp add: char_code_def)

lemma char_of_code: "char_of (char_code c) = c"
  by (simp add: char_code_def)

lemma hex4_code: "hex4 (CHR ''0'' # CHR ''0'' # hex_lower (char_code c div 16) # hex_lower (char_code c mod 16) # t) = Some (char_code c, t)"
proof -
  have "nibble (CHR ''0'') = Some 0" by code_simp
  moreover have "char_code c div 16 < 16" using char_code_less[of c] by linarith
  ultimately show ?thesis by (simp add: nibble_hex)
qed

lemma unicode_escape_code: "char_code c < 128 \<Longrightarrow> unicode_escape (char_code c) t = ([c], t)"
  by (simp add: unicode_escape_def utf8_def char_of_code)

lemma html_codes: "c \<in> {CHR ''<'', CHR ''>'', CHR ''&''} \<Longrightarrow> char_code c < 128"
  by (auto simp: char_code_def)

lemma simple_escapes:
  "simple_escape (CHR 0x22) = Some (CHR 0x22)" "simple_escape (CHR 0x5C) = Some (CHR 0x5C)"
  "simple_escape (CHR ''b'') = Some (CHR 0x08)" "simple_escape (CHR ''f'') = Some (CHR 0x0C)"
  "simple_escape (CHR ''n'') = Some (CHR 0x0A)" "simple_escape (CHR ''r'') = Some (CHR 0x0D)"
  "simple_escape (CHR ''t'') = Some (CHR 0x09)"
  by (simp_all add: simple_escape_def)

lemma read_escape: "json_string (Suc f) acc (escape_char c @ t) = json_string f (acc @ [c]) t"
proof -
  consider (short) "c \<in> {CHR 0x22, CHR 0x5C, CHR 0x08, CHR 0x0C, CHR 0x0A, CHR 0x0D, CHR 0x09}"
    | (hex) "c \<notin> {CHR 0x22, CHR 0x5C, CHR 0x08, CHR 0x0C, CHR 0x0A, CHR 0x0D, CHR 0x09}"
        "char_code c < 32 \<or> c \<in> {CHR ''<'', CHR ''>'', CHR ''&''}"
    | (plain) "c \<notin> {CHR 0x22, CHR 0x5C, CHR 0x08, CHR 0x0C, CHR 0x0A, CHR 0x0D, CHR 0x09}"
        "\<not> char_code c < 32" "c \<notin> {CHR ''<'', CHR ''>'', CHR ''&''}" by argo
  then show ?thesis
  proof cases
    case short
    then show ?thesis by (elim insertE emptyE) (simp_all add: escape_char_def simple_escapes char_code_def)
  next
    case hex
    then have "escape_char c = [CHR 0x5C, CHR ''u'', CHR ''0'', CHR ''0'', hex_lower (char_code c div 16), hex_lower (char_code c mod 16)]"
      unfolding escape_char_def by auto
    moreover have "char_code c < 128" using hex(2) html_codes by fastforce
    ultimately show ?thesis by (simp add: hex4_code unicode_escape_code char_code_def[of "CHR 0x5C"] del: hex4.simps)
  next
    case plain
    then have "escape_char c = [c]" unfolding escape_char_def by auto
    then show ?thesis using plain by simp
  qed
qed

lemma read_separator:
  "json_string (Suc f) acc ([CHR 0x5C, CHR ''u'', CHR ''2'', CHR ''0'', CHR ''2'', CHR ''8''] @ t) =
     json_string f (acc @ [CHR 0xE2, CHR 0x80, CHR 0xA8]) t"
  "json_string (Suc f) acc ([CHR 0x5C, CHR ''u'', CHR ''2'', CHR ''0'', CHR ''2'', CHR ''9''] @ t) =
     json_string f (acc @ [CHR 0xE2, CHR 0x80, CHR 0xA9]) t"
proof -
  have "hex4 (CHR ''2'' # CHR ''0'' # CHR ''2'' # CHR ''8'' # t) = Some (8232, t)"
    "hex4 (CHR ''2'' # CHR ''0'' # CHR ''2'' # CHR ''9'' # t) = Some (8233, t)"
    by (simp_all add: nibble_def char_code_def)
  moreover have "utf8 8232 = [CHR 0xE2, CHR 0x80, CHR 0xA8]" "utf8 8233 = [CHR 0xE2, CHR 0x80, CHR 0xA9]" by (simp_all add: utf8_def char_of_eq_iff)
  ultimately show "json_string (Suc f) acc ([CHR 0x5C, CHR ''u'', CHR ''2'', CHR ''0'', CHR ''2'', CHR ''8''] @ t) =
     json_string f (acc @ [CHR 0xE2, CHR 0x80, CHR 0xA8]) t"
    "json_string (Suc f) acc ([CHR 0x5C, CHR ''u'', CHR ''2'', CHR ''0'', CHR ''2'', CHR ''9''] @ t) =
     json_string f (acc @ [CHR 0xE2, CHR 0x80, CHR 0xA9]) t"
    by (simp_all add: char_code_def unicode_escape_def del: hex4.simps)
qed

lemma escape_char_length: "0 < length (escape_char c)"
  by (simp add: escape_char_def)

lemma read_escaped: "length (escaped s) < f \<Longrightarrow> json_string f acc (escaped s @ CHR 0x22 # t) = Some (acc @ s, t)"
proof (induction s arbitrary: acc f rule: escaped.induct)
  case 1
  then show ?case by (cases f) simp_all
next
  case (2 c s)
  then obtain g where f: "f = Suc g" by (cases f) auto
  show ?case
  proof (cases "take 3 (c # s) = [CHR 0xE2, CHR 0x80, CHR 0xA8] \<or> take 3 (c # s) = [CHR 0xE2, CHR 0x80, CHR 0xA9]")
    case True
    then obtain d where d: "d = CHR 0xA8 \<or> d = CHR 0xA9" "c = CHR 0xE2" "s = CHR 0x80 # d # drop 2 s"
      by (cases s; cases "tl s") auto
    then have s1: "s ! 1 = d" by (metis One_nat_def nth_Cons_0 nth_Cons_Suc)
    have e: "escaped (c # s) = [CHR 0x5C, CHR ''u'', CHR ''2'', CHR ''0'', CHR ''2'', if d = CHR 0xA8 then CHR ''8'' else CHR ''9''] @ escaped (drop 2 s)"
      using True s1 by simp
    have "json_string f acc (escaped (c # s) @ CHR 0x22 # t) = json_string g (acc @ [c, CHR 0x80, d]) (escaped (drop 2 s) @ CHR 0x22 # t)"
      unfolding e f append_assoc using d(1,2) read_separator by (elim disjE) simp_all
    also have "\<dots> = Some ((acc @ [c, CHR 0x80, d]) @ drop 2 s, t)"
      using 2(1)[OF True, of g] 2(3) e f by simp
    finally show ?thesis using d(3) by (metis append_Cons append_assoc self_append_conv2)
  next
    case False
    then have e: "escaped (c # s) = escape_char c @ escaped s" by (simp only: escaped.simps if_False)
    have "length (escaped (c # s)) = length (escape_char c) + length (escaped s)" unfolding e by simp
    then have "length (escaped s) < g" using 2(3) f escape_char_length[of c] by linarith
    from 2(2)[OF False this] show ?thesis unfolding e f append_assoc read_escape by simp
  qed
qed

lemma skip_stop: "\<not> json_space c \<Longrightarrow> skip_json_space (c # t) = c # t"
  by (simp add: skip_json_space_def)

lemma marks_no_space: "\<not> json_space (CHR 0x22)" "\<not> json_space (CHR '':'')" "\<not> json_space (CHR '','')"
    "\<not> json_space (CHR ''}'')" "\<not> json_space (CHR ''{'')"
  by (simp_all add: json_space_def)

lemma read_text_value: "json_value (Suc f) (quoted s @ t) = Some (JString s, t)"
  by (simp add: quoted_def skip_stop marks_no_space read_escaped del: json_string.simps)

lemma members_Cons: "kvs \<noteq> [] \<Longrightarrow> members_of (kv # kvs) = member_of kv @ CHR '','' # members_of kvs"
  by (cases kvs) simp_all

lemma read_member:
  "members (Suc (Suc f)) (member_of (k, v) @ t) =
     (case skip_json_space t of
        [] \<Rightarrow> None
      | d # y \<Rightarrow> if d = CHR ''}'' then Some ([(k, JString v)], y)
          else if d = CHR '','' then map_option (\<lambda>(kvs, z). ((k, JString v) # kvs, z)) (members (Suc f) y) else None)"
  unfolding member_of_def fst_conv snd_conv
  by (simp add: quoted_def[of k] skip_stop marks_no_space read_escaped read_text_value
      del: json_value.simps json_string.simps)

lemma read_members:
  assumes "kvs \<noteq> []" "length kvs < f"
  shows "members f (members_of kvs @ CHR ''}'' # t) = Some (map (\<lambda>(k, v). (k, JString v)) kvs, t)"
  using assms
proof (induction kvs arbitrary: f)
  case (Cons kv kvs)
  obtain k v where kv: "kv = (k, v)" by (cases kv)
  obtain g where f: "f = Suc (Suc g)" using Cons.prems by (cases f; cases "f - 1") auto
  show ?case
  proof (cases "kvs = []")
    case True
    then show ?thesis unfolding f kv by (simp add: read_member skip_stop marks_no_space del: members.simps)
  next
    case False
    have "members (Suc g) (members_of kvs @ CHR ''}'' # t) = Some (map (\<lambda>(k, v). (k, JString v)) kvs, t)"
      using Cons.IH[OF False, of "Suc g"] Cons.prems(2) f by simp
    then show ?thesis unfolding f kv members_Cons[OF False]
      by (simp add: read_member skip_stop marks_no_space del: members.simps)
  qed
qed simp

lemma members_of_length: "length kvs \<le> length (members_of kvs)"
  by (induction kvs rule: members_of.induct) (simp_all add: member_of_def quoted_def)

lemma decode_object: "json_decode (object_of kvs) = Some (JObject (map (\<lambda>(k, v). (k, JString v)) kvs))"
proof (cases "kvs = []")
  case True
  then show ?thesis by (simp add: json_decode_def object_of_def skip_json_space_def json_space_def numeral_eq_Suc)
next
  case False
  then obtain q t where m: "members_of kvs = q # t" "q = CHR 0x22"
    by (cases kvs; cases "tl kvs") (auto simp: member_of_def quoted_def)
  have r: "members (2 * length (object_of kvs) + 1) (members_of kvs @ CHR ''}'' # []) = Some (map (\<lambda>(k, v). (k, JString v)) kvs, [])"
    using members_of_length[of kvs] by (intro read_members[OF False]) (simp add: object_of_def)
  have "json_value (Suc (2 * length (object_of kvs) + 1)) (object_of kvs) = Some (JObject (map (\<lambda>(k, v). (k, JString v)) kvs), [])"
    using r unfolding object_of_def json_value.simps by (simp add: skip_stop marks_no_space m del: members.simps)
  then show ?thesis by (simp add: json_decode_def skip_json_space_def del: json_value.simps)
qed

end
