(* ===== verification/Snmp_Dial.thy ===== *)
theory Snmp_Dial
  imports Go_Marshal Go_Time
begin

text \<open>
  The credentials of an SNMP session (\<open>internal/snmp/client.go\<close>): their JSON form, which is what the server seals, and
  the configuration of the library that \<open>Dial\<close> makes of them. Opening the socket is the argument \<open>connect\<close>.
\<close>

subsection \<open>Credentials\<close>

record Creds =
  cr_Version :: string
  cr_Community :: string
  cr_V3User :: string
  cr_V3AuthProto :: string
  cr_V3AuthPass :: string
  cr_V3PrivProto :: string
  cr_V3PrivPass :: string

definition zero_creds :: Creds where
  "zero_creds = \<lparr>cr_Version = [], cr_Community = [], cr_V3User = [], cr_V3AuthProto = [], cr_V3AuthPass = [],
     cr_V3PrivProto = [], cr_V3PrivPass = []\<rparr>"

definition omitempty :: "string \<times> string \<Rightarrow> (string \<times> string) list" where
  "omitempty kv = (if snd kv = [] then [] else [kv])"

definition creds_members :: "Creds \<Rightarrow> (string \<times> string) list" where
  "creds_members c =
     (''version'', cr_Version c) # concat (map omitempty
       [(''community'', cr_Community c), (''v3User'', cr_V3User c), (''v3AuthProto'', cr_V3AuthProto c),
        (''v3AuthPass'', cr_V3AuthPass c), (''v3PrivProto'', cr_V3PrivProto c), (''v3PrivPass'', cr_V3PrivPass c)])"

definition marshal_creds :: "Creds \<Rightarrow> string" where
  "marshal_creds c = object_of (creds_members c)"

definition creds_fields :: "(string \<times> (string \<Rightarrow> Creds \<Rightarrow> Creds)) list" where
  "creds_fields =
     [(''version'', \<lambda>v c. c\<lparr>cr_Version := v\<rparr>), (''community'', \<lambda>v c. c\<lparr>cr_Community := v\<rparr>),
      (''v3User'', \<lambda>v c. c\<lparr>cr_V3User := v\<rparr>), (''v3AuthProto'', \<lambda>v c. c\<lparr>cr_V3AuthProto := v\<rparr>),
      (''v3AuthPass'', \<lambda>v c. c\<lparr>cr_V3AuthPass := v\<rparr>), (''v3PrivProto'', \<lambda>v c. c\<lparr>cr_V3PrivProto := v\<rparr>),
      (''v3PrivPass'', \<lambda>v c. c\<lparr>cr_V3PrivPass := v\<rparr>)]"

text \<open>\<open>Unmarshal\<close>: the case of a name is ignored, an unknown name too, a null leaves the field, and a member of another
  type is an error at the end.\<close>

definition set_member :: "string \<times> json \<Rightarrow> bool \<times> Creds \<Rightarrow> bool \<times> Creds" where
  "set_member kv acc =
     (case find (\<lambda>(name, _). equal_fold name (fst kv)) creds_fields of
        None \<Rightarrow> acc
      | Some (_, put) \<Rightarrow> (case snd kv of JNull \<Rightarrow> acc | JString v \<Rightarrow> (fst acc, put v (snd acc)) | _ \<Rightarrow> (False, snd acc)))"

definition unmarshal_creds :: "string \<Rightarrow> string + Creds" where
  "unmarshal_creds s =
     (case json_decode s of
        None \<Rightarrow> Inl ''invalid character''
      | Some JNull \<Rightarrow> Inr zero_creds
      | Some (JObject kvs) \<Rightarrow>
          (case fold set_member kvs (True, zero_creds) of (ok, c) \<Rightarrow> if ok then Inr c else Inl ''cannot unmarshal'')
      | Some _ \<Rightarrow> Inl ''cannot unmarshal'')"

lemma set_creds_member:
  assumes "(k, put) \<in> set creds_fields"
  shows "set_member (k, JString v) (ok, c) = (ok, put v c)"
proof -
  have "find (\<lambda>(name, _). equal_fold name k) creds_fields = Some (k, put)"
    using assms unfolding creds_fields_def
    by (simp only: list.set insert_iff empty_iff prod.inject) (elim disjE conjE; simp add: equal_fold_def to_lower_def lower_char_def char_code_def)
  then show ?thesis by (simp add: set_member_def)
qed

lemma set_omitted:
  "cr_Community c = [] \<Longrightarrow> fold set_member (map (\<lambda>(k, v). (k, JString v)) (omitempty (''community'', v))) (ok, c) = (ok, c\<lparr>cr_Community := v\<rparr>)"
  "cr_V3User c = [] \<Longrightarrow> fold set_member (map (\<lambda>(k, v). (k, JString v)) (omitempty (''v3User'', v))) (ok, c) = (ok, c\<lparr>cr_V3User := v\<rparr>)"
  "cr_V3AuthProto c = [] \<Longrightarrow> fold set_member (map (\<lambda>(k, v). (k, JString v)) (omitempty (''v3AuthProto'', v))) (ok, c) = (ok, c\<lparr>cr_V3AuthProto := v\<rparr>)"
  "cr_V3AuthPass c = [] \<Longrightarrow> fold set_member (map (\<lambda>(k, v). (k, JString v)) (omitempty (''v3AuthPass'', v))) (ok, c) = (ok, c\<lparr>cr_V3AuthPass := v\<rparr>)"
  "cr_V3PrivProto c = [] \<Longrightarrow> fold set_member (map (\<lambda>(k, v). (k, JString v)) (omitempty (''v3PrivProto'', v))) (ok, c) = (ok, c\<lparr>cr_V3PrivProto := v\<rparr>)"
  "cr_V3PrivPass c = [] \<Longrightarrow> fold set_member (map (\<lambda>(k, v). (k, JString v)) (omitempty (''v3PrivPass'', v))) (ok, c) = (ok, c\<lparr>cr_V3PrivPass := v\<rparr>)"
  by (cases c; simp add: omitempty_def set_creds_member creds_fields_def)+

lemma unmarshal_marshal: "unmarshal_creds (marshal_creds c) = Inr c"
proof -
  have "set_member (''version'', JString (cr_Version c)) (True, zero_creds) = (True, zero_creds\<lparr>cr_Version := cr_Version c\<rparr>)"
    by (rule set_creds_member) (simp add: creds_fields_def)
  then have "fold set_member (map (\<lambda>(k, v). (k, JString v)) (creds_members c)) (True, zero_creds) = (True, c)"
    unfolding creds_members_def by (cases c) (simp add: set_omitted zero_creds_def)
  then show ?thesis by (simp add: unmarshal_creds_def marshal_creds_def decode_object)
qed

subsection \<open>The session\<close>

record Target =
  tg_Host :: string
  tg_Port :: int
  tg_Timeout :: int
  tg_Retries :: int

datatype snmp_version = Version1 | Version2c | Version3

datatype auth_proto = NoAuth | MD5 | SHA | SHA224 | SHA256 | SHA384 | SHA512

datatype priv_proto = NoPriv | DES | AES | AES192 | AES256

datatype msg_flags = NoAuthNoPriv | AuthNoPriv | AuthPriv

text \<open>The fields of the library's structure that \<open>Dial\<close> sets, the constants apart; the last five are set for version 3.\<close>

record gosnmp =
  gs_Target :: string
  gs_Port :: int
  gs_Community :: string
  gs_Timeout :: int
  gs_Retries :: int
  gs_Version :: snmp_version
  gs_Flags :: msg_flags
  gs_UserName :: string
  gs_Auth :: auth_proto
  gs_AuthPass :: string
  gs_Priv :: priv_proto
  gs_PrivPass :: string

definition mapAuthProto :: "string \<Rightarrow> string + auth_proto" where
  "mapAuthProto s =
     (case map_of [([], NoAuth), (''NONE'', NoAuth), (''MD5'', MD5), (''SHA'', SHA), (''SHA224'', SHA224), (''SHA256'', SHA256),
        (''SHA384'', SHA384), (''SHA512'', SHA512)] s of
        None \<Rightarrow> Inl (''snmp: unknown auth proto '' @ s) | Some a \<Rightarrow> Inr a)"

definition mapPrivProto :: "string \<Rightarrow> string + priv_proto" where
  "mapPrivProto s =
     (case map_of [([], NoPriv), (''NONE'', NoPriv), (''DES'', DES), (''AES'', AES), (''AES128'', AES), (''AES192'', AES192),
        (''AES256'', AES256)] s of
        None \<Rightarrow> Inl (''snmp: unknown priv proto '' @ s) | Some p \<Rightarrow> Inr p)"

definition msg_flags_of :: "auth_proto \<Rightarrow> priv_proto \<Rightarrow> msg_flags" where
  "msg_flags_of a p =
     (if a \<noteq> NoAuth \<and> p \<noteq> NoPriv then AuthPriv else if a \<noteq> NoAuth then AuthNoPriv else NoAuthNoPriv)"

definition base_config :: "Target \<Rightarrow> Creds \<Rightarrow> gosnmp" where
  "base_config t c =
     \<lparr>gs_Target = tg_Host t, gs_Port = (if tg_Port t = 0 then 161 else tg_Port t), gs_Community = cr_Community c,
      gs_Timeout = (if tg_Timeout t \<le> 0 then 4 * 1000000000 else tg_Timeout t),
      gs_Retries = (if tg_Retries t \<le> 0 then 2 else tg_Retries t), gs_Version = Version1, gs_Flags = NoAuthNoPriv,
      gs_UserName = [], gs_Auth = NoAuth, gs_AuthPass = [], gs_Priv = NoPriv, gs_PrivPass = []\<rparr>"

definition v3_config :: "Creds \<Rightarrow> gosnmp \<Rightarrow> string + gosnmp" where
  "v3_config c g =
     (if cr_V3User c = [] then Inl ''snmp: v3 requires user''
      else case mapAuthProto (cr_V3AuthProto c) of
        Inl e \<Rightarrow> Inl e
      | Inr auth \<Rightarrow>
          (case mapPrivProto (cr_V3PrivProto c) of
             Inl e \<Rightarrow> Inl e
           | Inr priv \<Rightarrow>
               Inr (g\<lparr>gs_Version := Version3, gs_Flags := msg_flags_of auth priv, gs_UserName := cr_V3User c, gs_Auth := auth,
                      gs_AuthPass := cr_V3AuthPass c, gs_Priv := priv, gs_PrivPass := cr_V3PrivPass c\<rparr>)))"

definition dial_config :: "Target \<Rightarrow> Creds \<Rightarrow> string + gosnmp" where
  "dial_config t c =
     (let g = base_config t c in
      if tg_Host t = [] then Inl ''snmp: target host required''
      else if cr_Version c = ''v1'' then
        (if cr_Community c = [] then Inl ''snmp: v1 requires community'' else Inr g)
      else if cr_Version c = [] \<or> cr_Version c = ''v2c'' then
        (if cr_Community c = [] then Inl ''snmp: v2c requires community'' else Inr (g\<lparr>gs_Version := Version2c\<rparr>))
      else if cr_Version c = ''v3'' then v3_config c g
      else Inl (''snmp: unsupported version '' @ cr_Version c))"

definition Dial :: "(gosnmp \<Rightarrow> string option) \<Rightarrow> Target \<Rightarrow> Creds \<Rightarrow> string + gosnmp" where
  "Dial connect t c =
     (case dial_config t c of
        Inl e \<Rightarrow> Inl e
      | Inr g \<Rightarrow> (case connect g of Some e \<Rightarrow> Inl (''snmp: connect '' @ tg_Host t @ '': '' @ e) | None \<Rightarrow> Inr g))"

text \<open>What the credentials must be for a session to start.\<close>

definition dialable :: "Creds \<Rightarrow> bool" where
  "dialable c \<longleftrightarrow>
     (if cr_Version c \<in> {''v1'', ''v2c'', []} then cr_Community c \<noteq> []
      else cr_Version c = ''v3'' \<and> cr_V3User c \<noteq> [] \<and>
        cr_V3AuthProto c \<in> {[], ''NONE'', ''MD5'', ''SHA'', ''SHA224'', ''SHA256'', ''SHA384'', ''SHA512''} \<and>
        cr_V3PrivProto c \<in> {[], ''NONE'', ''DES'', ''AES'', ''AES128'', ''AES192'', ''AES256''})"

lemma map_proto_ok:
  "isl (mapAuthProto a) \<longleftrightarrow> a \<notin> {[], ''NONE'', ''MD5'', ''SHA'', ''SHA224'', ''SHA256'', ''SHA384'', ''SHA512''}"
  "isl (mapPrivProto p) \<longleftrightarrow> p \<notin> {[], ''NONE'', ''DES'', ''AES'', ''AES128'', ''AES192'', ''AES256''}"
  by (auto simp: mapAuthProto_def mapPrivProto_def)

lemma v3_config_ok: "isl (v3_config c g) \<longleftrightarrow> cr_V3User c = [] \<or> isl (mapAuthProto (cr_V3AuthProto c)) \<or> isl (mapPrivProto (cr_V3PrivProto c))"
  by (simp add: v3_config_def split: sum.split)

lemma dial_config_ok: "isl (dial_config t c) \<longleftrightarrow> tg_Host t = [] \<or> \<not> dialable c"
  by (auto simp: dial_config_def dialable_def Let_def v3_config_ok map_proto_ok)

lemma dial_config_version:
  assumes "dial_config t c = Inr g"
  shows "gs_Version g = (if cr_Version c = ''v1'' then Version1 else if cr_Version c = ''v3'' then Version3 else Version2c) \<and>
    gs_Community g = cr_Community c \<and> gs_Target g = tg_Host t \<and>
    (cr_Version c = ''v3'' \<longrightarrow> gs_UserName g = cr_V3User c \<and> gs_AuthPass g = cr_V3AuthPass c \<and> gs_PrivPass g = cr_V3PrivPass c)"
  using assms by (auto simp: dial_config_def v3_config_def base_config_def Let_def split: if_splits sum.splits)

text \<open>Without a protocol for the authentication the packets are neither authenticated nor encrypted, whatever passphrases
  and privacy protocol the credentials have.\<close>

lemma privacy_needs_auth:
  assumes "dial_config t c = Inr g" "cr_Version c = ''v3''" "cr_V3AuthProto c = [] \<or> cr_V3AuthProto c = ''NONE''"
  shows "gs_Flags g = NoAuthNoPriv"
  using assms by (auto simp: dial_config_def v3_config_def mapAuthProto_def msg_flags_of_def Let_def split: if_splits sum.splits)

end
