(* ===== verification/Appliances.thy ===== *)
theory Appliances
  imports Go_Net Sql_Update Snmp_Dial Envelope Scheduler Snmp_Vendor Enrollment
begin

text \<open>
  How operators create, change and delete appliances (\<open>internal/api/handlers_appliances.go\<close>): the checks of the two
  bodies, the collector of a row, the sealing of its credentials, and what the poller makes of the rows. The sealer is its
  master key \<open>master\<close> over the block function \<open>aes\<close>; \<open>av_reads\<close> is the random source. The collectors are the rows of
  \<open>Enrollment\<close>.
\<close>

subsection \<open>Tables\<close>

record appliance_record =
  apr_ID :: uuid
  apr_SiteID :: uuid
  apr_Name :: string
  apr_Vendor :: string
  apr_Model :: "string option"
  apr_Serial :: "string option"
  apr_MgmtIP :: string
  apr_SNMPVersion :: string
  apr_Sealed :: "byte list option"
  apr_PollSec :: int
  apr_Active :: bool
  apr_Tags :: "string list"
  apr_Criticality :: string
  apr_Collector :: "uuid option"

record appl_db =
  apd_rows :: "appliance_record list"
  apd_collectors :: "collector_row list"
  apd_sites :: "uuid list"

record appl_env =
  av_parse_uuid :: "string \<Rightarrow> uuid option"
  av_new_id :: uuid
  av_reads :: "nat \<Rightarrow> nat \<Rightarrow> string + byte list"
  av_fault :: "string \<Rightarrow> bool"

text \<open>What the table refuses: an unknown site, a name the site has already, a number that is no \<open>INTEGER\<close>.\<close>

definition row_storable :: "appl_db \<Rightarrow> appliance_record \<Rightarrow> bool" where
  "row_storable db r \<longleftrightarrow>
     apr_SiteID r \<in> set (apd_sites db) \<and> - (2 ^ 31) \<le> apr_PollSec r \<and> apr_PollSec r < 2 ^ 31 \<and>
     \<not> list_ex (\<lambda>q. apr_ID q \<noteq> apr_ID r \<and> apr_SiteID q = apr_SiteID r \<and> apr_Name q = apr_Name r) (apd_rows db)"

definition nullif_empty :: "string \<Rightarrow> string option" where
  "nullif_empty s = (if s = [] then None else Some s)"

subsection \<open>Checks\<close>

record createApplianceReq =
  car_SiteID :: string
  car_Name :: string
  car_Vendor :: string
  car_Model :: string
  car_Serial :: string
  car_MgmtIP :: string
  car_Creds :: Creds
  car_PollSec :: int
  car_Tags :: "string list"
  car_CollectorID :: string
  car_Criticality :: string

definition validVendors :: "string set" where
  "validVendors = {''meraki'', ''cisco'', ''aruba'', ''ubiquiti'', ''mikrotik'', ''generic''}"

definition seal_creds :: "blockfun \<Rightarrow> byte list \<Rightarrow> appl_env \<Rightarrow> uuid \<Rightarrow> Creds \<Rightarrow> crypto_error + byte list" where
  "seal_creds aes master env i c =
     Seal aes (av_reads env) master (bytes_of (marshal_creds c)) (bytes_of (''appliance:'' @ i))"

text \<open>The collector a body names, for an appliance of \<open>site\<close>.\<close>

definition pick_collector :: "appl_env \<Rightarrow> appl_db \<Rightarrow> uuid \<Rightarrow> string \<Rightarrow> nat \<times> string + uuid" where
  "pick_collector env db site raw =
     (case av_parse_uuid env raw of
        None \<Rightarrow> Inl (400, ''collectorId must be a UUID'')
      | Some cid \<Rightarrow>
          if av_fault env ''collector'' then Inl (500, ''collector lookup failed'')
          else (case find (\<lambda>c. co_ID c = cid \<and> co_Active c) (apd_collectors db) of
                  None \<Rightarrow> Inl (400, ''collector not found or inactive'')
                | Some c \<Rightarrow> if co_SiteID c \<noteq> site then Inl (400, ''collector belongs to a different site'') else Inr cid))"

text \<open>The version a missing one stands for, and what is wrong with the credentials of a new appliance.\<close>

definition or_default :: "string \<Rightarrow> string \<Rightarrow> string" where
  "or_default d s = (if s = [] then d else s)"

definition creds_problem :: "Creds \<Rightarrow> string option" where
  "creds_problem c =
     (if cr_Version c = ''v1'' \<or> cr_Version c = ''v2c'' then
        (if cr_Community c = [] then Some ''community is required for SNMP v1/v2c'' else None)
      else if cr_Version c = ''v3'' then
        (if cr_V3User c = [] \<or> cr_V3AuthPass c = [] then Some ''v3User and v3AuthPass are required for SNMP v3'' else None)
      else Some ''snmpVersion must be v1, v2c, or v3'')"

text \<open>The checks before the collector is looked up: the site and the body with its defaults.\<close>

definition check_create :: "appl_env \<Rightarrow> createApplianceReq \<Rightarrow> string + uuid \<times> createApplianceReq" where
  "check_create env req =
     (case av_parse_uuid env (car_SiteID req) of
        None \<Rightarrow> Inl ''siteId must be a UUID''
      | Some site \<Rightarrow>
          let vendor = or_default ''generic'' (car_Vendor req);
              creds = (car_Creds req)\<lparr>cr_Version := or_default ''v2c'' (cr_Version (car_Creds req))\<rparr>;
              interval = (if car_PollSec req \<le> 0 then 60 else car_PollSec req)
          in if car_Name req = [] then Inl ''name is required''
             else if vendor \<notin> validVendors then Inl ''unknown vendor''
             else if parse_addr (car_MgmtIP req) = None then Inl ''mgmtIp must be a valid IP''
             else (case creds_problem creds of
                     Some e \<Rightarrow> Inl e
                   | None \<Rightarrow>
                       if interval < 15 then Inl ''pollIntervalSeconds must be >= 15''
                       else Inr (site, req\<lparr>car_Vendor := vendor, car_Creds := creds, car_PollSec := interval\<rparr>)))"

definition new_appliance :: "appl_env \<Rightarrow> uuid \<Rightarrow> createApplianceReq \<Rightarrow> uuid option \<Rightarrow> byte list \<Rightarrow> appliance_record" where
  "new_appliance env site req coll sealed =
     \<lparr>apr_ID = av_new_id env, apr_SiteID = site, apr_Name = car_Name req, apr_Vendor = car_Vendor req,
      apr_Model = nullif_empty (car_Model req), apr_Serial = nullif_empty (car_Serial req), apr_MgmtIP = car_MgmtIP req,
      apr_SNMPVersion = cr_Version (car_Creds req), apr_Sealed = Some sealed, apr_PollSec = car_PollSec req,
      apr_Active = True, apr_Tags = car_Tags req, apr_Criticality = or_default ''normal'' (car_Criticality req),
      apr_Collector = coll\<rparr>"

definition handleCreateAppliance ::
    "blockfun \<Rightarrow> byte list \<Rightarrow> appl_env \<Rightarrow> createApplianceReq option \<Rightarrow> appl_db \<Rightarrow> appliance_record reply \<times> appl_db" where
  "handleCreateAppliance aes master env body db =
     (case body of
        None \<Rightarrow> (Failed 400 ''invalid JSON body'', db)
      | Some body \<Rightarrow>
          (case check_create env body of
             Inl e \<Rightarrow> (Failed 400 e, db)
           | Inr (site, req) \<Rightarrow>
               (case (if car_CollectorID req = [] then Inr None
                      else case pick_collector env db site (car_CollectorID req) of Inl e \<Rightarrow> Inl e | Inr c \<Rightarrow> Inr (Some c)) of
                  Inl (code, e) \<Rightarrow> (Failed code e, db)
                | Inr coll \<Rightarrow>
                    if or_default ''normal'' (car_Criticality req) \<notin> set criticalities then (Failed 400 ''invalid criticality'', db)
                    else (case seal_creds aes master env (av_new_id env) (car_Creds req) of
                            Inl _ \<Rightarrow> (Failed 500 ''seal creds'', db)
                          | Inr sealed \<Rightarrow>
                              let r = new_appliance env site req coll sealed in
                              if av_fault env ''insert'' \<or> \<not> row_storable db r \<or> list_ex (\<lambda>q. apr_ID q = apr_ID r) (apd_rows db)
                              then (Failed 400 ''appliance exists or invalid'', db)
                              else (Answered 201 r, db\<lparr>apd_rows := apd_rows db @ [r]\<rparr>)))))"

subsection \<open>Changes\<close>

record updateApplianceReq =
  uap_SiteID :: "string option"
  uap_Name :: "string option"
  uap_Vendor :: "string option"
  uap_Model :: "string option"
  uap_Serial :: "string option"
  uap_MgmtIP :: "string option"
  uap_PollSec :: "int option"
  uap_IsActive :: "bool option"
  uap_Tags :: "string list option"
  uap_Criticality :: "string option"
  uap_SNMPVersion :: "string option"
  uap_Community :: "string option"
  uap_V3User :: "string option"
  uap_V3AuthProto :: "string option"
  uap_V3AuthPass :: "string option"
  uap_V3PrivProto :: "string option"
  uap_V3PrivPass :: "string option"
  uap_CollectorID :: "string option"

type_synonym assignment = "appliance_record \<Rightarrow> appliance_record"

definition plain_columns :: "appl_env \<Rightarrow> updateApplianceReq \<Rightarrow> string + assignment list" where
  "plain_columns env req =
     columns
       [column (uap_SiteID req) (\<lambda>s. problem_unless (av_parse_uuid env s \<noteq> None) ''siteId must be a UUID'')
          (\<lambda>s r. r\<lparr>apr_SiteID := the (av_parse_uuid env s)\<rparr>),
        column (uap_Name req) (\<lambda>s. problem_unless (s \<noteq> []) ''name cannot be empty'') (\<lambda>s r. r\<lparr>apr_Name := s\<rparr>),
        column (uap_Vendor req) (\<lambda>s. problem_unless (s \<in> validVendors) ''unknown vendor'') (\<lambda>s r. r\<lparr>apr_Vendor := s\<rparr>),
        column (uap_Model req) (\<lambda>_. None) (\<lambda>s r. r\<lparr>apr_Model := nullif_empty s\<rparr>),
        column (uap_Serial req) (\<lambda>_. None) (\<lambda>s r. r\<lparr>apr_Serial := nullif_empty s\<rparr>),
        column (uap_MgmtIP req) (\<lambda>s. problem_unless (parse_addr s \<noteq> None) ''mgmtIp must be a valid IP'') (\<lambda>s r. r\<lparr>apr_MgmtIP := s\<rparr>),
        column (uap_PollSec req) (\<lambda>n. problem_unless (15 \<le> n) ''pollIntervalSeconds must be >= 15'') (\<lambda>n r. r\<lparr>apr_PollSec := n\<rparr>),
        column (uap_IsActive req) (\<lambda>_. None) (\<lambda>b r. r\<lparr>apr_Active := b\<rparr>),
        column (uap_Tags req) (\<lambda>_. None) (\<lambda>ts r. r\<lparr>apr_Tags := ts\<rparr>),
        column (uap_Criticality req) (\<lambda>s. problem_unless (s \<in> set criticalities) ''invalid criticality'') (\<lambda>s r. r\<lparr>apr_Criticality := s\<rparr>)]"

text \<open>The collector must be of the site the appliance will have.\<close>

definition collector_column :: "appl_env \<Rightarrow> appl_db \<Rightarrow> uuid \<Rightarrow> updateApplianceReq \<Rightarrow> nat \<times> string + assignment list" where
  "collector_column env db curSite req =
     (case uap_CollectorID req of
        None \<Rightarrow> Inr []
      | Some raw \<Rightarrow>
          let effSite = (case uap_SiteID req of None \<Rightarrow> curSite | Some s \<Rightarrow> the (av_parse_uuid env s)) in
          if raw = [] then Inr [\<lambda>r. r\<lparr>apr_Collector := None\<rparr>]
          else (case pick_collector env db effSite raw of
                  Inl e \<Rightarrow> Inl e | Inr cid \<Rightarrow> Inr [\<lambda>r. r\<lparr>apr_Collector := Some cid\<rparr>]))"

definition cred_change :: "updateApplianceReq \<Rightarrow> bool" where
  "cred_change req \<longleftrightarrow>
     uap_SNMPVersion req \<noteq> None \<or> uap_Community req \<noteq> None \<or> uap_V3User req \<noteq> None \<or> uap_V3AuthPass req \<noteq> None \<or>
     uap_V3PrivPass req \<noteq> None \<or> uap_V3AuthProto req \<noteq> None \<or> uap_V3PrivProto req \<noteq> None"

definition or_empty :: "string option \<Rightarrow> string" where
  "or_empty x = (case x of None \<Rightarrow> [] | Some s \<Rightarrow> s)"

definition rotated_creds :: "string \<Rightarrow> updateApplianceReq \<Rightarrow> string + Creds" where
  "rotated_creds ver req =
     (if ver = ''v1'' \<or> ver = ''v2c'' then
        (if or_empty (uap_Community req) = [] then Inl ''community is required for SNMP v1/v2c rotation''
         else Inr (zero_creds\<lparr>cr_Version := ver, cr_Community := or_empty (uap_Community req)\<rparr>))
      else if ver = ''v3'' then
        (case (uap_V3User req, uap_V3AuthPass req) of
           (Some user, Some pass) \<Rightarrow>
             Inr (zero_creds\<lparr>cr_Version := ver, cr_V3User := user, cr_V3AuthPass := pass,
                             cr_V3AuthProto := or_empty (uap_V3AuthProto req), cr_V3PrivProto := or_empty (uap_V3PrivProto req),
                             cr_V3PrivPass := or_empty (uap_V3PrivPass req)\<rparr>)
         | _ \<Rightarrow> Inl ''v3User and v3AuthPass are required for SNMP v3 rotation'')
      else Inl ''snmpVersion must be v1, v2c, or v3'')"

definition cred_columns ::
    "blockfun \<Rightarrow> byte list \<Rightarrow> appl_env \<Rightarrow> appliance_record \<Rightarrow> updateApplianceReq \<Rightarrow> nat \<times> string + assignment list" where
  "cred_columns aes master env cur req =
     (if \<not> cred_change req then Inr []
      else if av_fault env ''version'' then Inl (404, ''appliance not found'')
      else let ver = (case uap_SNMPVersion req of None \<Rightarrow> apr_SNMPVersion cur | Some v \<Rightarrow> v) in
           case rotated_creds ver req of
             Inl e \<Rightarrow> Inl (400, e)
           | Inr c \<Rightarrow>
               (case seal_creds aes master env (apr_ID cur) c of
                  Inl _ \<Rightarrow> Inl (500, ''seal creds'')
                | Inr sealed \<Rightarrow> Inr [\<lambda>r. r\<lparr>apr_SNMPVersion := ver\<rparr>, \<lambda>r. r\<lparr>apr_Sealed := Some sealed\<rparr>]))"

definition update_columns ::
    "blockfun \<Rightarrow> byte list \<Rightarrow> appl_env \<Rightarrow> appl_db \<Rightarrow> appliance_record \<Rightarrow> updateApplianceReq \<Rightarrow> nat \<times> string + assignment list" where
  "update_columns aes master env db cur req =
     (case plain_columns env req of
        Inl e \<Rightarrow> Inl (400, e)
      | Inr plain \<Rightarrow>
          (case collector_column env db (apr_SiteID cur) req of
             Inl e \<Rightarrow> Inl e
           | Inr coll \<Rightarrow>
               (case cred_columns aes master env cur req of
                  Inl e \<Rightarrow> Inl e
                | Inr creds \<Rightarrow> if plain @ coll @ creds = [] then Inl (400, ''no fields to update'') else Inr (plain @ coll @ creds))))"

definition handleUpdateAppliance ::
    "blockfun \<Rightarrow> byte list \<Rightarrow> appl_env \<Rightarrow> string \<Rightarrow> updateApplianceReq option \<Rightarrow> appl_db \<Rightarrow> appliance_record reply \<times> appl_db" where
  "handleUpdateAppliance aes master env param body db =
     (case av_parse_uuid env param of
        None \<Rightarrow> (Failed 400 ''id must be a UUID'', db)
      | Some i \<Rightarrow>
          (case body of
             None \<Rightarrow> (Failed 400 ''invalid JSON body'', db)
           | Some req \<Rightarrow>
               if av_fault env ''load'' then (Failed 500 ''load appliance failed'', db)
               else (case find (\<lambda>r. apr_ID r = i) (apd_rows db) of
                  None \<Rightarrow> (Failed 404 ''appliance not found'', db)
                | Some cur \<Rightarrow>
                    (case update_columns aes master env db cur req of
                       Inl (code, e) \<Rightarrow> (Failed code e, db)
                     | Inr sets \<Rightarrow>
                         let r = assign_all sets cur in
                         if av_fault env ''update'' \<or> \<not> row_storable db r then (Failed 400 ''update failed (name/IP conflict?)'', db)
                         else (Answered 200 r, db\<lparr>apd_rows := map (\<lambda>q. if apr_ID q = i then r else q) (apd_rows db)\<rparr>)))))"

definition handleDeleteAppliance :: "appl_env \<Rightarrow> string \<Rightarrow> appl_db \<Rightarrow> unit reply \<times> appl_db" where
  "handleDeleteAppliance env param db =
     (case av_parse_uuid env param of
        None \<Rightarrow> (Failed 400 ''id must be a UUID'', db)
      | Some i \<Rightarrow>
          if av_fault env ''delete'' then (Failed 500 ''delete failed'', db)
          else if \<not> list_ex (\<lambda>r. apr_ID r = i) (apd_rows db) then (Failed 404 ''appliance not found'', db)
          else (Answered 204 (), db\<lparr>apd_rows := filter (\<lambda>r. apr_ID r \<noteq> i) (apd_rows db)\<rparr>))"

text \<open>A table that is edited: every request has its own clock, random bytes and refusals.\<close>

inductive appl_edited :: "blockfun \<Rightarrow> byte list \<Rightarrow> appl_db \<Rightarrow> appl_db \<Rightarrow> bool" for aes master db0 where
  edit_none: "appl_edited aes master db0 db0"
| edit_create: "appl_edited aes master db0 db \<Longrightarrow> reads_ok (av_reads env) \<Longrightarrow>
    appl_edited aes master db0 (snd (handleCreateAppliance aes master env creq db))"
| edit_update: "appl_edited aes master db0 db \<Longrightarrow> reads_ok (av_reads env) \<Longrightarrow>
    appl_edited aes master db0 (snd (handleUpdateAppliance aes master env param ureq db))"
| edit_delete: "appl_edited aes master db0 db \<Longrightarrow> appl_edited aes master db0 (snd (handleDeleteAppliance env param db))"

subsection \<open>What the poller makes of the rows\<close>

text \<open>The rows of the query of \<open>reconcile\<close>: active, with credentials, and polled by no collector.\<close>

definition listed_row :: "appliance_record \<Rightarrow> appliance_listing option" where
  "listed_row r =
     (case apr_Sealed r of
        Some sealed \<Rightarrow>
          if apr_Active r \<and> apr_Collector r = None
          then Some \<lparr>al_id = apr_ID r, al_ip = apr_MgmtIP r, al_snmpv = apr_SNMPVersion r, al_sealed = string_of sealed,
                     al_pollSec = apr_PollSec r, al_vendor = apr_Vendor r\<rparr>
          else None
      | None \<Rightarrow> None)"

definition unseal :: "blockfun \<Rightarrow> byte list \<Rightarrow> string \<Rightarrow> string \<Rightarrow> string + string" where
  "unseal aes master sealed ad =
     (case Open aes master (bytes_of sealed) (bytes_of ad) of Inl _ \<Rightarrow> Inl ''crypto'' | Inr plain \<Rightarrow> Inr (string_of plain))"

definition creds_for :: "string \<Rightarrow> Creds \<Rightarrow> bool" where
  "creds_for ver c \<longleftrightarrow> cr_Version c = ver \<and> (if ver = ''v1'' \<or> ver = ''v2c'' then cr_Community c \<noteq> [] else ver = ''v3'')"

definition row_holds :: "blockfun \<Rightarrow> byte list \<Rightarrow> appliance_record \<Rightarrow> bool" where
  "row_holds aes master r \<longleftrightarrow>
     apr_Vendor r \<in> validVendors \<and> apr_Criticality r \<in> set criticalities \<and> 15 \<le> apr_PollSec r \<and> apr_PollSec r < 2 ^ 31 \<and>
     (\<forall>sealed. apr_Sealed r = Some sealed \<longrightarrow>
        (\<exists>c. creds_for (apr_SNMPVersion r) c \<and>
           Open aes master sealed (bytes_of (''appliance:'' @ apr_ID r)) = Inr (bytes_of (marshal_creds c))))"

lemma seal_creds_opens:
  assumes "reads_ok (av_reads env)" "seal_creds aes master env i c = Inr sealed"
  shows "Open aes master sealed (bytes_of (''appliance:'' @ i)) = Inr (bytes_of (marshal_creds c))"
  using assms Open_sealed_with unfolding seal_creds_def Seal_shape[OF assms(1)] by (auto simp: reads_ok_def)

lemma openCreds_unseal:
  assumes "Open aes master sealed (bytes_of (''appliance:'' @ i)) = Inr (bytes_of (marshal_creds c))"
  shows "openCreds (unseal aes master) unmarshal_creds i (string_of sealed) = Inr c"
proof -
  have "sealed \<noteq> []" using assms by (auto simp: Open_def)
  then have "string_of sealed \<noteq> []" by (simp add: string_of_def)
  moreover have "bytes_of (string_of sealed) = sealed" by (simp add: bytes_of_string_of)
  ultimately show ?thesis using assms by (simp add: openCreds_def unseal_def unmarshal_marshal del: append_Cons)
qed

lemma check_create_ok:
  assumes "check_create env body = Inr (site, req)"
  shows "car_Vendor req \<in> validVendors \<and> 15 \<le> car_PollSec req \<and> creds_problem (car_Creds req) = None"
  using assms by (auto simp: check_create_def Let_def split: option.splits if_splits)

lemma creds_problem_for: "creds_problem c = None \<Longrightarrow> creds_for (cr_Version c) c"
  by (auto simp: creds_problem_def creds_for_def split: if_splits)

lemma rotated_creds_for: "rotated_creds ver req = Inr c \<Longrightarrow> creds_for ver c"
  by (auto simp: rotated_creds_def creds_for_def split: if_splits option.splits)

lemma create_holds:
  assumes "reads_ok (av_reads env)" "\<forall>r\<in>set (apd_rows db). row_holds aes master r"
  shows "\<forall>r\<in>set (apd_rows (snd (handleCreateAppliance aes master env body db))). row_holds aes master r"
proof -
  have new: "row_holds aes master (new_appliance env site req coll sealed)"
    if "check_create env b = Inr (site, req)" "or_default ''normal'' (car_Criticality req) \<in> set criticalities"
      "seal_creds aes master env (av_new_id env) (car_Creds req) = Inr sealed"
      "row_storable db (new_appliance env site req coll sealed)" for b site req coll sealed
    using check_create_ok[OF that(1)] that(2,4) seal_creds_opens[OF assms(1) that(3)] creds_problem_for
    by (auto simp: row_holds_def new_appliance_def row_storable_def)
  show ?thesis
    using assms(2) new by (auto simp: handleCreateAppliance_def Let_def split: option.splits sum.splits if_splits prod.splits)
qed

text \<open>What the assignments of an update keep: the id always, the credentials and their version unless they are set together.\<close>

definition keeps_creds :: "assignment \<Rightarrow> bool" where
  "keeps_creds f \<longleftrightarrow> (\<forall>r. apr_ID (f r) = apr_ID r \<and> apr_SNMPVersion (f r) = apr_SNMPVersion r \<and> apr_Sealed (f r) = apr_Sealed r)"

definition keeps_checked :: "assignment \<Rightarrow> bool" where
  "keeps_checked f \<longleftrightarrow>
     (\<forall>r. (apr_Vendor r \<in> validVendors \<longrightarrow> apr_Vendor (f r) \<in> validVendors) \<and>
          (apr_Criticality r \<in> set criticalities \<longrightarrow> apr_Criticality (f r) \<in> set criticalities) \<and>
          (15 \<le> apr_PollSec r \<longrightarrow> 15 \<le> apr_PollSec (f r)))"

lemma plain_columns_keep:
  assumes "plain_columns env req = Inr fs" "f \<in> set fs"
  shows "keeps_creds f \<and> keeps_checked f"
proof (rule columns_keep[OF assms(1)[unfolded plain_columns_def] _ assms(2)], unfold list.pred_inject, intro conjI TrueI)
qed ((rule column_keeps, simp add: problem_unless_def keeps_creds_def keeps_checked_def split: if_splits)+, simp)

lemma collector_column_keeps:
  assumes "collector_column env db site req = Inr fs" "f \<in> set fs"
  shows "keeps_creds f \<and> keeps_checked f"
  using assms by (auto simp: collector_column_def keeps_creds_def keeps_checked_def Let_def split: option.splits sum.splits if_splits)

lemma fold_keeps_creds:
  "\<forall>f\<in>set fs. keeps_creds f \<Longrightarrow> apr_ID (assign_all fs r) = apr_ID r \<and>
     apr_SNMPVersion (assign_all fs r) = apr_SNMPVersion r \<and> apr_Sealed (assign_all fs r) = apr_Sealed r"
  by (induction fs arbitrary: r) (simp_all add: keeps_creds_def)

lemma fold_keeps_checked:
  "\<forall>f\<in>set fs. keeps_checked f \<Longrightarrow>
    (apr_Vendor r \<in> validVendors \<longrightarrow> apr_Vendor (assign_all fs r) \<in> validVendors) \<and>
    (apr_Criticality r \<in> set criticalities \<longrightarrow> apr_Criticality (assign_all fs r) \<in> set criticalities) \<and>
    (15 \<le> apr_PollSec r \<longrightarrow> 15 \<le> apr_PollSec (assign_all fs r))"
proof (induction fs arbitrary: r)
  case (Cons f fs)
  then have "keeps_checked f" by simp
  then show ?case using Cons.IH[of "f r"] Cons.prems by (auto simp: keeps_checked_def)
qed simp

lemma cred_columns_set:
  assumes "cred_columns aes master env cur req = Inr fs" "reads_ok (av_reads env)"
  shows "(\<forall>f\<in>set fs. keeps_checked f) \<and> (fs = [] \<or> (\<exists>ver c sealed. creds_for ver c \<and>
     Open aes master sealed (bytes_of (''appliance:'' @ apr_ID cur)) = Inr (bytes_of (marshal_creds c)) \<and>
     fs = [\<lambda>r. r\<lparr>apr_SNMPVersion := ver\<rparr>, \<lambda>r. r\<lparr>apr_Sealed := Some sealed\<rparr>]))"
proof (cases "fs = []")
  case False
  then obtain ver c sealed where "rotated_creds ver req = Inr c" "seal_creds aes master env (apr_ID cur) c = Inr sealed"
      "fs = [\<lambda>r. r\<lparr>apr_SNMPVersion := ver\<rparr>, \<lambda>r. r\<lparr>apr_Sealed := Some sealed\<rparr>]"
    using assms(1) by (auto simp: cred_columns_def Let_def split: if_splits sum.splits)
  then have "creds_for ver c" "Open aes master sealed (bytes_of (''appliance:'' @ apr_ID cur)) = Inr (bytes_of (marshal_creds c))"
    "\<forall>f\<in>set fs. keeps_checked f"
    using rotated_creds_for seal_creds_opens[OF assms(2)] by (simp_all add: keeps_checked_def)
  then show ?thesis using \<open>fs = _\<close> by blast
qed simp

lemma updated_holds:
  assumes "reads_ok (av_reads env)" "row_holds aes master cur" "update_columns aes master env db cur req = Inr sets"
    and "apr_PollSec (assign_all sets cur) < 2 ^ 31"
  shows "row_holds aes master (assign_all sets cur)"
proof -
  obtain plain coll creds where s: "plain_columns env req = Inr plain" "collector_column env db (apr_SiteID cur) req = Inr coll"
      "cred_columns aes master env cur req = Inr creds" "sets = plain @ coll @ creds"
    using assms(3) by (auto simp: update_columns_def split: sum.splits if_splits)
  let ?r = "assign_all (plain @ coll) cur"
  have k: "\<forall>f\<in>set (plain @ coll). keeps_creds f \<and> keeps_checked f"
    using plain_columns_keep[OF s(1)] collector_column_keeps[OF s(2)] by auto
  note creds = cred_columns_set[OF s(3) assms(1)]
  have checked: "\<forall>f\<in>set sets. keeps_checked f" using k creds s(4) by auto
  have "assign_all sets cur = assign_all creds ?r" by (simp add: s(4))
  moreover have "apr_ID ?r = apr_ID cur" "apr_SNMPVersion ?r = apr_SNMPVersion cur" "apr_Sealed ?r = apr_Sealed cur"
    using fold_keeps_creds[of "plain @ coll" cur] k by simp_all
  ultimately have "\<forall>sealed. apr_Sealed (assign_all sets cur) = Some sealed \<longrightarrow>
        (\<exists>c. creds_for (apr_SNMPVersion (assign_all sets cur)) c \<and>
           Open aes master sealed (bytes_of (''appliance:'' @ apr_ID (assign_all sets cur))) = Inr (bytes_of (marshal_creds c)))"
    using creds assms(2) by (auto simp: row_holds_def)
  then show ?thesis using fold_keeps_checked[OF checked, of cur] assms(2,4) by (simp add: row_holds_def)
qed

lemma update_holds:
  assumes "reads_ok (av_reads env)" "\<forall>r\<in>set (apd_rows db). row_holds aes master r"
  shows "\<forall>r\<in>set (apd_rows (snd (handleUpdateAppliance aes master env param body db))). row_holds aes master r"
proof -
  have new: "row_holds aes master (assign_all sets cur)"
    if "find (\<lambda>r. apr_ID r = i) (apd_rows db) = Some cur" "update_columns aes master env db cur req = Inr sets"
      "row_storable db (assign_all sets cur)" for i cur req sets
    using updated_holds[OF assms(1) _ that(2)] assms(2) that(1,3) by (auto simp: find_Some_iff row_storable_def)
  show ?thesis
    using assms(2) new by (auto simp: handleUpdateAppliance_def Let_def split: option.splits sum.splits if_splits prod.splits)
qed

lemma edited_holds:
  assumes "appl_edited aes master db0 db" "\<forall>r\<in>set (apd_rows db0). row_holds aes master r"
  shows "\<forall>r\<in>set (apd_rows db). row_holds aes master r"
  using assms
proof induction
  case (edit_delete db env param)
  then show ?case by (auto simp: handleDeleteAppliance_def split: option.splits)
qed (use create_holds update_holds in blast)+

subsection \<open>Properties\<close>

lemma listed_sealed:
  assumes "listed_row r = Some row"
  shows "\<exists>sealed. apr_Sealed r = Some sealed \<and> al_id row = apr_ID r \<and> al_snmpv row = apr_SNMPVersion r \<and>
    al_sealed row = string_of sealed \<and> al_pollSec row = apr_PollSec r"
  using assms by (auto simp: listed_row_def split: option.splits if_splits)

lemma dial_community:
  assumes "creds_for ver c" "ver \<noteq> ''v3''" "tg_Host t \<noteq> []"
  shows "\<exists>g. dial_config t c = Inr g \<and> gs_Version g = (if ver = ''v1'' then Version1 else Version2c) \<and>
    gs_Community g = cr_Community c \<and> gs_Community g \<noteq> []"
proof -
  have c: "cr_Version c = ver" "ver = ''v1'' \<or> ver = ''v2c''" "cr_Community c \<noteq> []"
    using assms(1,2) by (auto simp: creds_for_def split: if_splits)
  then have "\<not> isl (dial_config t c)" using assms(3) by (auto simp: dial_config_ok dialable_def)
  then obtain g where g: "dial_config t c = Inr g" by (cases "dial_config t c") auto
  then show ?thesis using dial_config_version[OF g] c by auto
qed

text \<open>C9: Whatever operators create, change and delete, every row the poller lists opens under its own id to credentials of
  the version in the row; with those of version 1 or 2c a session is configured with a community, and the interval is the
  one of the row, which the floor of the poller leaves alone.\<close>

theorem stored_creds_dialled:
  assumes "appl_edited aes master db0 db" "\<forall>r\<in>set (apd_rows db0). row_holds aes master r"
    and "r \<in> set (apd_rows db)" "listed_row r = Some row" "tg_Host t \<noteq> []"
  shows "row_interval row = al_pollSec row * 1000000000 \<and>
    (\<exists>c. openCreds (unseal aes master) unmarshal_creds (al_id row) (al_sealed row) = Inr c \<and> cr_Version c = al_snmpv row \<and>
       (al_snmpv row \<noteq> ''v3'' \<longrightarrow>
         (\<exists>g. dial_config t c = Inr g \<and> gs_Version g = (if al_snmpv row = ''v1'' then Version1 else Version2c) \<and>
            gs_Community g = cr_Community c \<and> gs_Community g \<noteq> [])))"
proof -
  have h: "row_holds aes master r" using edited_holds[OF assms(1,2)] assms(3) by blast
  obtain sealed where s: "apr_Sealed r = Some sealed" "al_id row = apr_ID r" "al_snmpv row = apr_SNMPVersion r"
      "al_sealed row = string_of sealed" "al_pollSec row = apr_PollSec r" using listed_sealed[OF assms(4)] by blast
  obtain c where c: "creds_for (apr_SNMPVersion r) c"
      "Open aes master sealed (bytes_of (''appliance:'' @ apr_ID r)) = Inr (bytes_of (marshal_creds c))"
    using h s(1) by (auto simp: row_holds_def)
  have "15 \<le> al_pollSec row" "al_pollSec row < 2 ^ 31" using h s(5) by (simp_all add: row_holds_def)
  then have "row_interval row = al_pollSec row * 1000000000"
    by (simp add: row_interval_def seconds_def Let_def i64_small)
  moreover have "cr_Version c = apr_SNMPVersion r" using c(1) by (simp add: creds_for_def)
  ultimately show ?thesis using openCreds_unseal[OF c(2)] dial_community[OF c(1) _ assms(5)] s by auto
qed

text \<open>What a create or a rotation was given is what the poller reads.\<close>

lemma created_creds:
  assumes "reads_ok (av_reads env)" "handleCreateAppliance aes master env (Some body) db = (Answered code r, db')"
    and "listed_row r = Some row"
  shows "openCreds (unseal aes master) unmarshal_creds (al_id row) (al_sealed row) =
    Inr ((car_Creds body)\<lparr>cr_Version := or_default ''v2c'' (cr_Version (car_Creds body))\<rparr>)"
proof -
  obtain site req coll sealed where c: "check_create env body = Inr (site, req)"
      "seal_creds aes master env (av_new_id env) (car_Creds req) = Inr sealed" "r = new_appliance env site req coll sealed"
    using assms(2) by (auto simp: handleCreateAppliance_def Let_def split: sum.splits if_splits prod.splits)
  have "car_Creds req = (car_Creds body)\<lparr>cr_Version := or_default ''v2c'' (cr_Version (car_Creds body))\<rparr>"
    using c(1) by (auto simp: check_create_def Let_def split: option.splits if_splits)
  moreover have "al_id row = av_new_id env" "al_sealed row = string_of sealed"
    using listed_sealed[OF assms(3)] c(3) by (auto simp: new_appliance_def)
  ultimately show ?thesis using openCreds_unseal[OF seal_creds_opens[OF assms(1) c(2)]] by simp
qed

definition demo_aes :: blockfun where
  "demo_aes k w = w XOR block_of k"

definition demo_appl_env :: appl_env where
  "demo_appl_env = \<lparr>av_parse_uuid = Some, av_new_id = ''a1'', av_reads = demo_rd, av_fault = (\<lambda>_. False)\<rparr>"

definition demo_appl_req :: createApplianceReq where
  "demo_appl_req = \<lparr>car_SiteID = ''s1'', car_Name = ''core'', car_Vendor = ''cisco'', car_Model = [], car_Serial = [],
     car_MgmtIP = ''10.0.0.1'', car_Creds = zero_creds\<lparr>cr_Community := ''public''\<rparr>, car_PollSec = 0, car_Tags = [],
     car_CollectorID = [], car_Criticality = []\<rparr>"

definition demo_appl_db :: appl_db where
  "demo_appl_db = \<lparr>apd_rows = [], apd_collectors = [], apd_sites = [''s1'', ''s2'']\<rparr>"

lemma demo_created:
  "\<exists>r. handleCreateAppliance demo_aes (replicate 32 7) demo_appl_env (Some demo_appl_req) demo_appl_db =
     (Answered 201 r, demo_appl_db\<lparr>apd_rows := [r]\<rparr>) \<and> listed_row r \<noteq> None \<and> apr_SNMPVersion r = ''v2c'' \<and>
     apr_ID r = ''a1'' \<and> apr_PollSec r = 60"
proof -
  obtain sealed where s: "seal_creds demo_aes (replicate 32 7) demo_appl_env ''a1'' (zero_creds\<lparr>cr_Version := ''v2c'', cr_Community := ''public''\<rparr>) = Inr sealed"
    unfolding seal_creds_def by (simp add: demo_appl_env_def Seal_shape[OF demo_reads]) (simp add: demo_rd_def)
  have ip: "parse_addr ''10.0.0.1'' \<noteq> None" by code_simp
  have "check_create demo_appl_env demo_appl_req = Inr (''s1'', demo_appl_req\<lparr>car_Creds := zero_creds\<lparr>cr_Version := ''v2c'', cr_Community := ''public''\<rparr>, car_PollSec := 60\<rparr>)"
    by (simp add: check_create_def demo_appl_env_def demo_appl_req_def or_default_def validVendors_def creds_problem_def zero_creds_def ip[unfolded not_None_eq] Let_def)
  then show ?thesis
    using s by (simp add: handleCreateAppliance_def demo_appl_req_def demo_appl_db_def new_appliance_def row_storable_def listed_row_def
        or_default_def criticalities_def zero_creds_def nullif_empty_def Let_def)
      (simp add: demo_appl_env_def new_appliance_def row_storable_def listed_row_def or_default_def criticalities_def
        nullif_empty_def Let_def)
qed

theorem stored_creds_dialled_witness:
  "\<exists>r row c g. snd (handleCreateAppliance demo_aes (replicate 32 7) demo_appl_env (Some demo_appl_req) demo_appl_db) =
     demo_appl_db\<lparr>apd_rows := [r]\<rparr> \<and> listed_row r = Some row \<and> row_interval row = 60000000000 \<and>
     openCreds (unseal demo_aes (replicate 32 7)) unmarshal_creds (al_id row) (al_sealed row) = Inr c \<and>
     dial_config \<lparr>tg_Host = ''10.0.0.1'', tg_Port = 0, tg_Timeout = 0, tg_Retries = 0\<rparr> c = Inr g \<and> gs_Version g = Version2c"
proof -
  obtain r where r: "handleCreateAppliance demo_aes (replicate 32 7) demo_appl_env (Some demo_appl_req) demo_appl_db =
     (Answered 201 r, demo_appl_db\<lparr>apd_rows := [r]\<rparr>)" "listed_row r \<noteq> None" "apr_SNMPVersion r = ''v2c''"
     "apr_ID r = ''a1''" "apr_PollSec r = 60" using demo_created by blast
  then obtain row where row: "listed_row r = Some row" by blast
  have "appl_edited demo_aes (replicate 32 7) demo_appl_db (demo_appl_db\<lparr>apd_rows := [r]\<rparr>)"
    using edit_create[OF edit_none, of demo_appl_env demo_aes "replicate 32 7" demo_appl_db "Some demo_appl_req"] demo_reads r(1)
    by (simp add: demo_appl_env_def)
  then have "row_interval row = al_pollSec row * 1000000000 \<and>
    (\<exists>c. openCreds (unseal demo_aes (replicate 32 7)) unmarshal_creds (al_id row) (al_sealed row) = Inr c \<and> cr_Version c = al_snmpv row \<and>
       (al_snmpv row \<noteq> ''v3'' \<longrightarrow>
         (\<exists>g. dial_config \<lparr>tg_Host = ''10.0.0.1'', tg_Port = 0, tg_Timeout = 0, tg_Retries = 0\<rparr> c = Inr g \<and>
            gs_Version g = (if al_snmpv row = ''v1'' then Version1 else Version2c) \<and> gs_Community g = cr_Community c \<and> gs_Community g \<noteq> [])))"
    by (rule stored_creds_dialled[OF _ _ _ row]) (simp_all add: demo_appl_db_def)
  moreover have "al_snmpv row = ''v2c''" "al_pollSec row = 60" using listed_sealed[OF row] r(3,5) by auto
  ultimately show ?thesis using r(1) row by fastforce
qed

text \<open>C10: No row that operators create or change has a vendor that selects the collectors of a UPS, of Synology, of Palo Alto
  or of Alletra, so a poll of it never fills those parts of a snapshot.\<close>

theorem vendor_data_unreachable:
  assumes "appl_edited aes master db0 db" "\<forall>r\<in>set (apd_rows db0). row_holds aes master r"
    and "r \<in> set (apd_rows db)" "snap_Vendor snap = None"
  shows "case snap_Vendor (CollectVendor cat pick expired ords c (apr_Vendor r) snap) of
      None \<Rightarrow> True
    | Some vh \<Rightarrow> vh_UPS vh = None \<and> vh_Synology vh = None \<and> vh_PaloAlto vh = None \<and> vh_Alletra vh = None"
proof -
  have "apr_Vendor r \<in> validVendors" using edited_holds[OF assms(1,2)] assms(3) by (auto simp: row_holds_def)
  moreover have "\<forall>v\<in>validVendors. to_lower (trim_space v) = v \<and>
      v \<notin> {''ups'', ''ups-apc'', ''ups-generic'', ''apc'', ''synology'', ''paloalto'', ''palo-alto'', ''panw'', ''alletra'', ''nimble'', ''hpe-alletra''}"
    unfolding validVendors_def
    by (simp only: ball_simps) (simp add: to_lower_def lower_char_def char_code_def trim_space_def is_space_def)
  ultimately have "to_lower (trim_space (apr_Vendor r)) \<notin> {''ups'', ''ups-apc'', ''ups-generic'', ''apc'', ''synology'', ''paloalto'',
      ''palo-alto'', ''panw'', ''alletra'', ''nimble'', ''hpe-alletra''}" by simp
  then show ?thesis
    using collect_vendor_dispatch[OF assms(4), where cat = cat and pick = pick and expired = expired and ords = ords and c = c and vendor = "apr_Vendor r"]
    by (cases "snap_Vendor (CollectVendor cat pick expired ords c (apr_Vendor r) snap)") (simp_all only: option.case, blast)
qed

theorem vendor_data_unreachable_witness:
  "\<exists>r. snd (handleCreateAppliance demo_aes (replicate 32 7) demo_appl_env (Some demo_appl_req) demo_appl_db) =
     demo_appl_db\<lparr>apd_rows := [r]\<rparr> \<and>
     (case snap_Vendor (CollectVendor lab_catalog (\<lambda>vs. VNil) (\<lambda>p i. False) lab_vendor_orders lab_session (apr_Vendor r)
         (CollectAll lab_orders 0 0 lab_session)) of
        None \<Rightarrow> True
      | Some vh \<Rightarrow> vh_UPS vh = None \<and> vh_Synology vh = None \<and> vh_PaloAlto vh = None \<and> vh_Alletra vh = None)"
proof -
  obtain r where r: "handleCreateAppliance demo_aes (replicate 32 7) demo_appl_env (Some demo_appl_req) demo_appl_db =
     (Answered 201 r, demo_appl_db\<lparr>apd_rows := [r]\<rparr>)" using demo_created by blast
  have "appl_edited demo_aes (replicate 32 7) demo_appl_db (demo_appl_db\<lparr>apd_rows := [r]\<rparr>)"
    using edit_create[OF edit_none, of demo_appl_env demo_aes "replicate 32 7" demo_appl_db "Some demo_appl_req"] demo_reads r
    by (simp add: demo_appl_env_def)
  from vendor_data_unreachable[OF this _ _ CollectAll_no_vendor, of r] show ?thesis
    using r by (intro exI[of _ r] conjI) (simp_all add: demo_appl_db_def)
qed

text \<open>A vendor of the collectors is refused, as the name of a new appliance as well as in a change.\<close>

lemma other_vendor_refused:
  assumes "av_parse_uuid env (car_SiteID body) \<noteq> None" "car_Name body \<noteq> []" "car_Vendor body \<noteq> []" "car_Vendor body \<notin> validVendors"
  shows "handleCreateAppliance aes master env (Some body) db = (Failed 400 ''unknown vendor'', db)"
  using assms by (auto simp: handleCreateAppliance_def check_create_def or_default_def Let_def)

subsection \<open>Gaps\<close>

definition no_change :: updateApplianceReq where
  "no_change = \<lparr>uap_SiteID = None, uap_Name = None, uap_Vendor = None, uap_Model = None, uap_Serial = None, uap_MgmtIP = None,
     uap_PollSec = None, uap_IsActive = None, uap_Tags = None, uap_Criticality = None, uap_SNMPVersion = None, uap_Community = None,
     uap_V3User = None, uap_V3AuthProto = None, uap_V3AuthPass = None, uap_V3PrivProto = None, uap_V3PrivPass = None,
     uap_CollectorID = None\<rparr>"

text \<open>The site of a collector is compared with that of the appliance when the collector is set, not when the appliance moves.\<close>

theorem moved_appliance_keeps_collector:
  assumes "av_parse_uuid env param = Some (apr_ID cur)" "find (\<lambda>r. apr_ID r = apr_ID cur) (apd_rows db) = Some cur"
    and "av_parse_uuid env raw = Some site" "row_storable db (cur\<lparr>apr_SiteID := site\<rparr>)" "av_fault env = (\<lambda>_. False)"
  shows "fst (handleUpdateAppliance aes master env param (Some (no_change\<lparr>uap_SiteID := Some raw\<rparr>)) db) =
    Answered 200 (cur\<lparr>apr_SiteID := site\<rparr>)"
  using assms by (simp add: handleUpdateAppliance_def update_columns_def plain_columns_def column_def problem_unless_def no_change_def
      collector_column_def cred_columns_def cred_change_def Let_def)

text \<open>A rotation to version 3 takes an empty user, which a new appliance may not have and no session starts with.\<close>

theorem rotation_without_user:
  "rotated_creds ''v3'' (no_change\<lparr>uap_V3User := Some [], uap_V3AuthPass := Some pass\<rparr>) =
     Inr (zero_creds\<lparr>cr_Version := ''v3'', cr_V3AuthPass := pass\<rparr>) \<and>
   \<not> dialable (zero_creds\<lparr>cr_Version := ''v3'', cr_V3AuthPass := pass\<rparr>)"
  by (simp add: rotated_creds_def no_change_def or_empty_def dialable_def zero_creds_def)

text \<open>The names of the protocols are not checked: a new appliance with a name no session knows is stored.\<close>

theorem unknown_protocol_accepted:
  "creds_problem (zero_creds\<lparr>cr_Version := ''v3'', cr_V3User := ''u'', cr_V3AuthPass := ''p'', cr_V3AuthProto := ''sha256''\<rparr>) = None \<and>
   \<not> dialable (zero_creds\<lparr>cr_Version := ''v3'', cr_V3User := ''u'', cr_V3AuthPass := ''p'', cr_V3AuthProto := ''sha256''\<rparr>)"
  by (simp add: creds_problem_def dialable_def zero_creds_def)

end
