(* ===== verification/Passive_Capture.thy ===== *)
theory Passive_Capture
  imports Discovery Go_Net Go_Time "HOL-Library.List_Lexorder" "HOL-Library.Char_ord"
begin

text \<open>
  Passive SNMP discovery on a collector: the capture (\<open>internal/collector/discovery/passive_snmp_linux.go\<close>), which reads
  frames and keeps the addresses SNMP packets go to, and its schedule (\<open>internal/collector/passive_snmp_runner.go\<close>). The
  frames a socket delivers, the interfaces of the host and the classification of an address are parameters; so is the
  order in which maps are iterated and classifications finish.
\<close>

unbundle bit_operations_syntax

subsection \<open>The interface\<close>

record PassiveCaptureOpts =
  pco_Interface :: string
  pco_CaptureSeconds :: int
  pco_MaxIPs :: int

text \<open>An interface with its flags; of its addresses, where they can be listed, whether each is an IPv4 network.\<close>

record net_interface =
  ni_Name :: string
  ni_Loopback :: bool
  ni_Up :: bool
  ni_IPv4 :: "bool list option"

definition pickDefaultInterface :: "string + net_interface list \<Rightarrow> string + string" where
  "pickDefaultInterface ifaces =
     (case ifaces of
        Inl e \<Rightarrow> Inl e
      | Inr is \<Rightarrow>
          (case find (\<lambda>i. \<not> ni_Loopback i \<and> ni_Up i \<and> (case ni_IPv4 i of None \<Rightarrow> False | Some as \<Rightarrow> True \<in> set as)) is of
             None \<Rightarrow> Inl ''no non-loopback IPv4 interface found''
           | Some i \<Rightarrow> Inr (ni_Name i)))"

subsection \<open>Frames\<close>

definition header_len :: "byte list \<Rightarrow> nat" where
  "header_len f = unat ((f ! 14) AND 0x0F) * 4"

text \<open>The address a frame is kept for: the frame is what \<open>Recvfrom\<close> has written to the buffer.\<close>

definition frame_dst :: "byte list \<Rightarrow> ip option" where
  "frame_dst f =
     (if length f < 14 + 20 + 8 then None
      else if f ! 12 \<noteq> 0x08 \<or> f ! 13 \<noteq> 0x00 then None
      else let ihl = header_len f in
           if ihl < 20 \<or> length f < 14 + ihl + 8 then None
           else if f ! (14 + 9) \<noteq> 17 then None
           else let dstPort = be16 f (14 + ihl) in
                if dstPort \<noteq> 161 then None
                else Some (net_IPv4 (f ! (14 + 16)) (f ! (14 + 17)) (f ! (14 + 18)) (f ! (14 + 19))))"

text \<open>The filter in the kernel; a load past the end of the frame drops it.\<close>

definition bpf_filter :: "byte list \<Rightarrow> bool" where
  "bpf_filter f \<longleftrightarrow>
     24 \<le> length f \<and> be16 f 12 = 0x0800 \<and> f ! 23 = 17 \<and> be16 f 20 AND 0x1fff = 0 \<and>
     (let x = header_len f in 16 + x + 2 \<le> length f \<and> be16 f (16 + x) = 161)"

text \<open>What reading the socket brings: a frame, a timeout or an interruption, another error. The list ends where the window or
  the context ends.\<close>

datatype read_event = Frame "byte list" | NoPacket | ReadError

fun capture_loop :: "int \<Rightarrow> string set \<Rightarrow> read_event list \<Rightarrow> string set" where
  "capture_loop maxIPs seen [] = seen"
| "capture_loop maxIPs seen (NoPacket # es) = capture_loop maxIPs seen es"
| "capture_loop maxIPs seen (ReadError # es) = seen"
| "capture_loop maxIPs seen (Frame f # es) =
     (case frame_dst f of
        None \<Rightarrow> capture_loop maxIPs seen es
      | Some ip \<Rightarrow>
          let seen' = insert (ip_String ip) seen in
          if maxIPs \<le> int (card seen') then seen' else capture_loop maxIPs seen' es)"

record capture_env =
  ce_ifaces :: "string + net_interface list"
  ce_open :: "string \<Rightarrow> string option"
  ce_events :: "int \<Rightarrow> read_event list"
  ce_classify :: "string \<Rightarrow> passive_device"
  ce_order :: "string set \<Rightarrow> string list"
  ce_finish :: "passive_device list \<Rightarrow> passive_device list"

text \<open>\<open>ce_open\<close> is the error of the interface, the socket or its binding; \<open>ce_events\<close> what a window of so many seconds brings.\<close>

definition CapturePassiveSNMP :: "capture_env \<Rightarrow> PassiveCaptureOpts \<Rightarrow> string + passive_device list" where
  "CapturePassiveSNMP env opts =
     (let secs = (if pco_CaptureSeconds opts \<le> 0 then 60 else pco_CaptureSeconds opts);
          maxIPs = (if pco_MaxIPs opts \<le> 0 then 4096 else pco_MaxIPs opts)
      in case (if pco_Interface opts = [] then pickDefaultInterface (ce_ifaces env) else Inr (pco_Interface opts)) of
           Inl e \<Rightarrow> Inl (''pick interface: '' @ e)
         | Inr name \<Rightarrow>
             (case ce_open env name of
                Some e \<Rightarrow> Inl e
              | None \<Rightarrow> Inr (ce_finish env (map (ce_classify env) (ce_order env (capture_loop maxIPs {} (ce_events env secs)))))))"

subsection \<open>What is captured\<close>

text \<open>The ports of an IPv4 packet with UDP in a frame of Ethernet, as the protocols have them.\<close>

definition udp_frame :: "byte list \<Rightarrow> bool" where
  "udp_frame f \<longleftrightarrow>
     42 \<le> length f \<and> f ! 12 = 0x08 \<and> f ! 13 = 0x00 \<and> 20 \<le> header_len f \<and> 14 + header_len f + 8 \<le> length f \<and> f ! 23 = 17"

definition udp_source_port :: "byte list \<Rightarrow> 16 word" where
  "udp_source_port f = be16 f (14 + header_len f)"

definition udp_dest_port :: "byte list \<Rightarrow> 16 word" where
  "udp_dest_port f = be16 f (14 + header_len f + 2)"

definition ip_dest :: "byte list \<Rightarrow> ip" where
  "ip_dest f = net_IPv4 (f ! 30) (f ! 31) (f ! 32) (f ! 33)"

lemma frame_dst_iff: "frame_dst f = Some ip \<longleftrightarrow> udp_frame f \<and> udp_source_port f = 161 \<and> ip = ip_dest f"
  by (auto simp: frame_dst_def udp_frame_def udp_source_port_def ip_dest_def Let_def)

lemma frame_dst_None: "frame_dst f = None \<longleftrightarrow> \<not> (udp_frame f \<and> udp_source_port f = 161)"
  by (auto simp: frame_dst_def udp_frame_def udp_source_port_def Let_def)

definition harvest :: "read_event list \<Rightarrow> string set" where
  "harvest es = {ip_String (ip_dest f) | f. Frame f \<in> set es \<and> udp_frame f \<and> udp_source_port f = 161}"

lemma capture_loop_bound:
  assumes "finite seen" "int (card seen) < m"
  shows "finite (capture_loop m seen es) \<and> int (card (capture_loop m seen es)) \<le> m"
  using assms
proof (induction m seen es rule: capture_loop.induct)
  case (4 m seen f es)
  then show ?case by (cases "frame_dst f") (auto simp: Let_def card_insert_if)
qed simp_all

lemma capture_loop_subset: "capture_loop m seen es \<subseteq> seen \<union> harvest es"
proof (induction m seen es rule: capture_loop.induct)
  case (4 m seen f es)
  have mono: "harvest es \<subseteq> harvest (Frame f # es)" by (auto simp: harvest_def)
  show ?case
  proof (cases "frame_dst f")
    case None
    then show ?thesis using 4(1) mono by auto
  next
    case (Some ip)
    then have "ip_String ip \<in> harvest (Frame f # es)" by (auto simp: harvest_def frame_dst_iff)
    then show ?thesis using Some 4(2)[OF Some refl] mono by (auto simp: Let_def)
  qed
qed (auto simp: harvest_def)

lemma harvest_Cons:
  "harvest [] = {}" "harvest (NoPacket # es) = harvest es"
  "harvest (Frame f # es) = (case frame_dst f of None \<Rightarrow> {} | Some ip \<Rightarrow> {ip_String ip}) \<union> harvest es"
  by (auto simp: harvest_def frame_dst_iff frame_dst_None split: option.splits)

lemma capture_loop_complete:
  assumes "ReadError \<notin> set es" "finite seen" "int (card (seen \<union> harvest es)) < m" "finite (harvest es)"
  shows "capture_loop m seen es = seen \<union> harvest es"
  using assms
proof (induction m seen es rule: capture_loop.induct)
  case (4 m seen f es)
  show ?case
  proof (cases "frame_dst f")
    case None
    then show ?thesis using 4 by (simp add: harvest_Cons)
  next
    case (Some ip)
    have eq: "seen \<union> harvest (Frame f # es) = insert (ip_String ip) seen \<union> harvest es" using Some by (auto simp: harvest_Cons)
    have fin: "finite (harvest es)" using 4(6) Some by (simp add: harvest_Cons)
    have "card (insert (ip_String ip) seen) \<le> card (insert (ip_String ip) seen \<union> harvest es)"
      using fin 4(4) by (intro card_mono) auto
    then have "int (card (insert (ip_String ip) seen)) < m" using 4(5) eq by simp
    then show ?thesis using 4(2)[OF Some refl] 4(3-5) Some fin eq by (simp add: Let_def)
  qed
qed (simp_all add: harvest_Cons)

definition any_order :: "(string set \<Rightarrow> string list) \<Rightarrow> (passive_device list \<Rightarrow> passive_device list) \<Rightarrow> bool" where
  "any_order order finish \<longleftrightarrow>
     (\<forall>A. finite A \<longrightarrow> distinct (order A) \<and> set (order A) = A) \<and> (\<forall>ds. mset (finish ds) = mset ds)"

text \<open>C34: A capture keeps the destinations of the frames whose UDP source port is 161, not of those sent to port 161: each
  device comes from such a frame, is listed once and within the limit, and below the limit, with no error of the socket,
  all of them are found; a window without a packet from port 161 finds nothing.\<close>

theorem capture_reads_source_port:
  assumes "any_order (ce_order env) (ce_finish env)" "CapturePassiveSNMP env opts = Inr devs"
    and "es = ce_events env (if pco_CaptureSeconds opts \<le> 0 then 60 else pco_CaptureSeconds opts)"
    and "m = (if pco_MaxIPs opts \<le> 0 then 4096 else pco_MaxIPs opts)"
  shows "int (length devs) \<le> m \<and>
    (\<exists>ips. distinct ips \<and> mset devs = mset (map (ce_classify env) ips) \<and> set ips \<subseteq> harvest es \<and>
       (ReadError \<notin> set es \<longrightarrow> int (card (harvest es)) < m \<longrightarrow> set ips = harvest es)) \<and>
    ((\<forall>f. Frame f \<in> set es \<longrightarrow> udp_source_port f \<noteq> 161) \<longrightarrow> devs = [])"
proof -
  let ?C = "capture_loop m {} es" and ?ips = "ce_order env (capture_loop m {} es)"
  have m: "0 < m" using assms(4) by (simp split: if_splits)
  have c: "finite ?C" "int (card ?C) \<le> m" using capture_loop_bound[of "{}" m es] m by simp_all
  have d: "devs = ce_finish env (map (ce_classify env) ?ips)"
    using assms(2) unfolding assms(3,4) by (auto simp: CapturePassiveSNMP_def Let_def split: sum.splits option.splits)
  have o: "distinct ?ips" "set ?ips = ?C" and ms: "mset devs = mset (map (ce_classify env) ?ips)"
    using assms(1) c(1) d by (simp_all add: any_order_def)
  have len: "length devs = card ?C" using mset_eq_length[OF ms] o distinct_card[OF o(1)] by simp
  have sub: "?C \<subseteq> harvest es" using capture_loop_subset[of m "{}" es] by simp
  have fin: "finite (harvest es)"
  proof -
    have "harvest es \<subseteq> (\<lambda>e. case e of Frame f \<Rightarrow> ip_String (ip_dest f) | _ \<Rightarrow> []) ` set es"
      by (force simp: harvest_def image_iff)
    then show ?thesis using finite_subset by blast
  qed
  have all: "?C = harvest es" if "ReadError \<notin> set es" "int (card (harvest es)) < m"
    using capture_loop_complete[OF that(1), of "{}" m] that(2) fin by simp
  have none: "devs = []" if "\<forall>f. Frame f \<in> set es \<longrightarrow> udp_source_port f \<noteq> 161"
  proof -
    have "harvest es = {}" using that by (auto simp: harvest_def)
    then show ?thesis using sub len by simp
  qed
  show ?thesis
  proof (intro conjI)
    show "int (length devs) \<le> m" using len c(2) by simp
    show "\<exists>ips. distinct ips \<and> mset devs = mset (map (ce_classify env) ips) \<and> set ips \<subseteq> harvest es \<and>
       (ReadError \<notin> set es \<longrightarrow> int (card (harvest es)) < m \<longrightarrow> set ips = harvest es)"
    proof (intro exI[of _ ?ips] conjI)
      show "ReadError \<notin> set es \<longrightarrow> int (card (harvest es)) < m \<longrightarrow> set ?ips = harvest es" unfolding o(2) using all by blast
      show "set ?ips \<subseteq> harvest es" unfolding o(2) by (rule sub)
    qed (rule o(1), rule ms)
    show "(\<forall>f. Frame f \<in> set es \<longrightarrow> udp_source_port f \<noteq> 161) \<longrightarrow> devs = []" using none by blast
  qed
qed

text \<open>Behind the filter only packets from port 161 to port 161 are left to be kept.\<close>

lemma filtered_both_ports:
  assumes "bpf_filter f" "frame_dst f = Some ip"
  shows "udp_source_port f = 161 \<and> udp_dest_port f = 161 \<and> ip = ip_dest f"
  using assms by (simp add: bpf_filter_def frame_dst_iff udp_dest_port_def Let_def add.commute add.left_commute)

lemma filtered_harvest:
  assumes "\<forall>f. Frame f \<in> set es \<longrightarrow> bpf_filter f"
  shows "harvest es \<subseteq> {ip_String (ip_dest f) | f. Frame f \<in> set es \<and> udp_source_port f = 161 \<and> udp_dest_port f = 161}"
  using assms filtered_both_ports by (auto simp: harvest_def frame_dst_iff)

text \<open>A request goes from any port to port 161, the reply the other way.\<close>

definition demo_udp :: "16 word \<Rightarrow> 16 word \<Rightarrow> byte \<Rightarrow> byte list" where
  "demo_udp src dst host =
     [0, 0, 0, 0, 0, 0, 0, 0, 0, 0, 0, 0, 0x08, 0x00, 0x45, 0, 0, 0, 0, 0, 0, 0, 0, 17, 0, 0, 0, 0, 0, 0, 10, 0, 0, host] @
     put16 src @ put16 dst @ [0, 0, 0, 0]"

definition demo_capture :: capture_env where
  "demo_capture = \<lparr>ce_ifaces = Inr [\<lparr>ni_Name = ''eth0'', ni_Loopback = False, ni_Up = True, ni_IPv4 = Some [True]\<rparr>],
     ce_open = (\<lambda>_. None), ce_events = (\<lambda>_. [Frame (demo_udp 40000 161 5), NoPacket, Frame (demo_udp 161 40000 9)]),
     ce_classify = unknown_device, ce_order = sorted_list_of_set, ce_finish = rev\<rparr>"

theorem capture_reads_source_port_witness:
  "\<exists>devs. CapturePassiveSNMP demo_capture \<lparr>pco_Interface = [], pco_CaptureSeconds = 0, pco_MaxIPs = 0\<rparr> = Inr devs \<and>
     (\<forall>d\<in>set devs. pd_IP d = ''10.0.0.9'') \<and> udp_dest_port (demo_udp 40000 161 5) = 161"
proof -
  let ?es = "ce_events demo_capture 60"
  obtain devs where d: "CapturePassiveSNMP demo_capture \<lparr>pco_Interface = [], pco_CaptureSeconds = 0, pco_MaxIPs = 0\<rparr> = Inr devs"
    by (simp add: CapturePassiveSNMP_def demo_capture_def pickDefaultInterface_def Let_def)
  have "any_order (ce_order demo_capture) (ce_finish demo_capture)" by (simp add: any_order_def demo_capture_def)
  from capture_reads_source_port[OF this d refl refl]
  obtain ips where ips: "mset devs = mset (map (ce_classify demo_capture) ips)" "set ips \<subseteq> harvest ?es" by auto
  have u: "header_len (demo_udp s t h) = 20" "ip_dest (demo_udp s t h) = net_IPv4 10 0 0 h" for s t h
    by (simp_all add: demo_udp_def header_len_def ip_dest_def)
  have v: "udp_source_port (demo_udp s t h) = s" "udp_dest_port (demo_udp s t h) = t" for s t h
    using be_in_context(1)[of "[0, 0, 0, 0, 0, 0, 0, 0, 0, 0, 0, 0, 0x08, 0x00, 0x45, 0, 0, 0, 0, 0, 0, 0, 0, 17, 0, 0, 0, 0, 0, 0, 10, 0, 0, h]"
        34 s "put16 t @ [0, 0, 0, 0]"]
      be_in_context(1)[of "[0, 0, 0, 0, 0, 0, 0, 0, 0, 0, 0, 0, 0x08, 0x00, 0x45, 0, 0, 0, 0, 0, 0, 0, 0, 17, 0, 0, 0, 0, 0, 0, 10, 0, 0, h] @ put16 s"
        36 t "[0, 0, 0, 0]"]
    unfolding udp_source_port_def udp_dest_port_def u by (simp_all add: demo_udp_def)
  have "ip_String (net_IPv4 10 0 0 9) = ''10.0.0.9''" by code_simp
  then have "harvest ?es \<subseteq> {''10.0.0.9''}" by (auto simp: harvest_def demo_capture_def u v)
  moreover have "set devs = unknown_device ` set ips"
    using mset_eq_setD[OF ips(1)] by (simp add: demo_capture_def)
  ultimately have "\<forall>d\<in>set devs. pd_IP d = ''10.0.0.9''" using ips(2) by (auto simp: unknown_device_def)
  then show ?thesis using d v(2) by blast
qed

subsection \<open>The schedule\<close>

record passiveSNMPSettings =
  pss_Enabled :: bool
  pss_Interface :: string
  pss_CaptureSeconds :: int
  pss_RetireAfter :: int
  pss_RunIntervalSecs :: int
  pss_SNMPCommunity :: string

text \<open>One turn of the loop: the settings as fetched, the clock when they are there, and the clock after a capture. \<open>None\<close> is
  the zero time.\<close>

record passive_turn =
  pt_fetched :: "passiveSNMPSettings option"
  pt_now :: int
  pt_end :: int

definition quarter_hour :: int where "quarter_hour = 15 * 60 * 1000000000"

definition run_gap :: "passiveSNMPSettings \<Rightarrow> int" where
  "run_gap s = seconds (if pss_RunIntervalSecs s < 600 then 600 else pss_RunIntervalSecs s)"

text \<open>The new \<open>nextRun\<close> and whether a capture did.\<close>

definition passive_step :: "passive_turn \<Rightarrow> int option \<Rightarrow> int option \<times> bool" where
  "passive_step t nextRun =
     (case pt_fetched t of
        None \<Rightarrow> (Some (pt_now t + quarter_hour), False)
      | Some s \<Rightarrow>
          if \<not> pss_Enabled s then (Some (pt_now t + quarter_hour), False)
          else if (case nextRun of None \<Rightarrow> False | Some n \<Rightarrow> pt_now t < n) then (nextRun, False)
          else (Some (pt_end t + run_gap s), True))"

fun passive_runs :: "int option \<Rightarrow> passive_turn list \<Rightarrow> passive_turn list" where
  "passive_runs nextRun [] = []"
| "passive_runs nextRun (t # ts) =
     (case passive_step t nextRun of (n, did) \<Rightarrow> (if did then [t] else []) @ passive_runs n ts)"

definition in_time :: "passive_turn list \<Rightarrow> bool" where
  "in_time ts \<longleftrightarrow> (\<forall>t\<in>set ts. pt_now t \<le> pt_end t) \<and> sorted_wrt (\<lambda>s t. pt_end s \<le> pt_now t) ts"

definition sane_intervals :: "passive_turn list \<Rightarrow> bool" where
  "sane_intervals ts \<longleftrightarrow> (\<forall>t\<in>set ts. case pt_fetched t of None \<Rightarrow> True | Some s \<Rightarrow> pss_RunIntervalSecs s \<le> 9223372036)"

lemma run_gap_bound: "pss_RunIntervalSecs s \<le> 9223372036 \<Longrightarrow> seconds 600 \<le> run_gap s"
  by (auto simp: run_gap_def seconds_def i64_small)

text \<open>After a capture that ended at \<open>e\<close>, what is left of the list runs ten minutes later at the earliest.\<close>

lemma passive_runs_after:
  assumes "in_time ts" "sane_intervals ts" "\<forall>t\<in>set ts. e \<le> pt_now t" "nextRun = Some n" "e + seconds 600 \<le> n"
  shows "\<forall>t\<in>set (passive_runs nextRun ts). e + seconds 600 \<le> pt_now t"
  using assms
proof (induction ts arbitrary: nextRun n)
  case (Cons t ts)
  have tl: "in_time ts" "sane_intervals ts" "\<forall>t\<in>set ts. e \<le> pt_now t"
    using Cons.prems by (auto simp: in_time_def sane_intervals_def)
  have s600: "seconds 600 = 600 * 1000000000" by (simp add: seconds_def i64_small)
  have q: "e + seconds 600 \<le> pt_now t + quarter_hour" using Cons.prems(3) by (simp add: quarter_hour_def s600)
  show ?case
  proof (cases "snd (passive_step t nextRun)")
    case False
    then obtain n' where "passive_step t nextRun = (Some n', False)" "e + seconds 600 \<le> n'"
      using Cons.prems(4,5) q by (cases "passive_step t nextRun") (auto simp: passive_step_def split: option.splits if_splits)
    then show ?thesis using Cons.IH[OF tl refl] by simp
  next
    case True
    then obtain s where s: "pt_fetched t = Some s" "n \<le> pt_now t" "passive_step t nextRun = (Some (pt_end t + run_gap s), True)"
      using Cons.prems(4) by (auto simp: passive_step_def split: option.splits if_splits)
    have "seconds 600 \<le> run_gap s" using Cons.prems(2) s(1) by (intro run_gap_bound) (auto simp: sane_intervals_def)
    moreover have "e \<le> pt_end t" using Cons.prems(1,3) by (force simp: in_time_def)
    ultimately have "\<forall>t\<in>set (passive_runs (Some (pt_end t + run_gap s)) ts). e + seconds 600 \<le> pt_now t"
      by (intro Cons.IH[OF tl refl]) simp
    then show ?thesis using s Cons.prems(5) by simp
  qed
qed simp

lemma passive_runs_spaced:
  assumes "in_time ts" "sane_intervals ts"
  shows "sorted_wrt (\<lambda>s t. pt_end s + seconds 600 \<le> pt_now t) (passive_runs nextRun ts)"
  using assms
proof (induction ts arbitrary: nextRun)
  case (Cons t ts)
  have tl: "in_time ts" "sane_intervals ts" "\<forall>u\<in>set ts. pt_end t \<le> pt_now u"
    using Cons.prems by (auto simp: in_time_def sane_intervals_def)
  obtain n did where p: "passive_step t nextRun = (n, did)" by (cases "passive_step t nextRun")
  show ?case
  proof (cases did)
    case True
    then obtain s where s: "pt_fetched t = Some s" "n = Some (pt_end t + run_gap s)"
      using p by (auto simp: passive_step_def split: option.splits if_splits)
    have "seconds 600 \<le> run_gap s" using Cons.prems(2) s(1) by (intro run_gap_bound) (auto simp: sane_intervals_def)
    then show ?thesis using passive_runs_after[OF tl s(2)] Cons.IH[OF tl(1,2)] p True by simp
  qed (use p Cons.IH[OF tl(1,2)] in simp)
qed simp

text \<open>The interval an operator has set holds only while the settings can be fetched: one failure brings the next capture
  to a quarter of an hour.\<close>

definition demo_settings :: passiveSNMPSettings where
  "demo_settings = \<lparr>pss_Enabled = True, pss_Interface = [], pss_CaptureSeconds = 60, pss_RetireAfter = 3,
     pss_RunIntervalSecs = 21600, pss_SNMPCommunity = []\<rparr>"

lemma failed_fetch_runs_early:
  "map (\<lambda>t. pt_now t div 60000000000) (passive_runs None
     [\<lparr>pt_fetched = Some demo_settings, pt_now = 0, pt_end = 60000000000\<rparr>,
      \<lparr>pt_fetched = None, pt_now = 300000000000, pt_end = 300000000000\<rparr>,
      \<lparr>pt_fetched = Some demo_settings, pt_now = 1200000000000, pt_end = 1260000000000\<rparr>]) = [0, 20]"
  by (simp add: passive_step_def demo_settings_def run_gap_def quarter_hour_def seconds_def i64_small)

end
