(* ===== verification/Probe_Update.thy ===== *)
theory Probe_Update
  imports Go_Net Go_Time
begin

text \<open>
  The self-update of the probe: the signature over its binaries (\<open>internal/probesign/sign.go\<close>), the manifests and downloads
  of the server (\<open>internal/api/handlers_probe.go\<close>) and what a probe does with them (\<open>internal/probe/update.go\<close> and
  \<open>update_unix.go\<close>). SHA-256, Ed25519 and the network are parameters, and so is which operation on a file fails.
\<close>

subsection \<open>Signatures\<close>

definition DefaultPublicKeyB64 :: string where
  "DefaultPublicKeyB64 = ''06lBVEH3DBvnDVrZpd81qN4RxmLQozfwbvNJpkI8bHI=''"

definition DefaultPrivateKeyB64 :: string where
  "DefaultPrivateKeyB64 = ''/GcdE4MMkjcp9x1QXhikoVSzd39ECn4P4ObRDYQb13E=''"

record Manifest =
  mf_Version :: string
  mf_OS :: string
  mf_Arch :: string
  mf_SHA256 :: string
  mf_Sig :: string
  mf_URL :: string

record sign_lib =
  sl_sha256 :: "byte list \<Rightarrow> byte list"
  sl_sign :: "byte list \<Rightarrow> byte list \<Rightarrow> byte list"
  sl_verify :: "byte list \<Rightarrow> byte list \<Rightarrow> byte list \<Rightarrow> bool"

text \<open>A key of 32 bytes in standard base64: the public key, and the seed of the private one.\<close>

definition key_of :: "string \<Rightarrow> string + byte list" where
  "key_of b64 =
     (case DecodeString StdEncoding b64 of
        None \<Rightarrow> Inl ''probesign: decode key''
      | Some raw \<Rightarrow> if length raw \<noteq> 32 then Inl ''probesign: key length'' else Inr raw)"

definition PublicKey :: "string \<Rightarrow> string + byte list" where
  "PublicKey pub64 = key_of pub64"

definition PrivateKeyFromEnv :: "string \<Rightarrow> string + byte list" where
  "PrivateKeyFromEnv env = key_of (if env = [] then DefaultPrivateKeyB64 else env)"

definition HashSHA256Hex :: "sign_lib \<Rightarrow> byte list \<Rightarrow> string" where
  "HashSHA256Hex lib bin = concat (map hex_byte (sl_sha256 lib bin))"

definition SignHash :: "sign_lib \<Rightarrow> byte list \<Rightarrow> string \<Rightarrow> string" where
  "SignHash lib seed sha256Hex = EncodeToString RawURLEncoding (sl_sign lib seed (bytes_of sha256Hex))"

text \<open>\<open>None\<close> is no error.\<close>

definition Verify :: "sign_lib \<Rightarrow> string \<Rightarrow> string \<Rightarrow> string \<Rightarrow> string option" where
  "Verify lib pub64 sha256Hex sigB64 =
     (case PublicKey pub64 of
        Inl e \<Rightarrow> Some e
      | Inr pub \<Rightarrow>
          (case DecodeString RawURLEncoding sigB64 of
             None \<Rightarrow> Some ''probesign: decode sig''
           | Some sig \<Rightarrow> if sl_verify lib pub (bytes_of sha256Hex) sig then None else Some ''probesign: signature mismatch''))"

subsection \<open>Versions\<close>

fun split_loop :: "int \<Rightarrow> bool \<Rightarrow> string \<Rightarrow> int list" where
  "split_loop cur have_digit [] = (if have_digit then [cur] else [])"
| "split_loop cur have_digit (c # s) =
     (if c = CHR ''.'' then (if have_digit then [cur] else []) @ split_loop 0 False s
      else if is_digit c then split_loop (i64 (cur * 10 + (int (char_code c) - 48))) True s
      else split_loop cur have_digit s)"

definition splitVer :: "string \<Rightarrow> int list" where
  "splitVer s = split_loop 0 False s"

fun newer :: "int list \<Rightarrow> int list \<Rightarrow> bool" where
  "newer [] rs = (rs \<noteq> [])"
| "newer (l # ls) [] = False"
| "newer (l # ls) (r # rs) = (if l < r then True else if r < l then False else newer ls rs)"

definition CompareCalVer :: "string \<Rightarrow> string \<Rightarrow> bool" where
  "CompareCalVer here remote =
     (if here = [] \<or> here = ''dev'' then remote \<noteq> [] \<and> remote \<noteq> ''dev'' \<and> remote \<noteq> here
      else if remote = [] \<or> remote = ''dev'' then False
      else if here = remote then False
      else newer (splitVer here) (splitVer remote))"

subsection \<open>The server\<close>

definition allowedProbePlatforms :: "(string \<times> string) list" where
  "allowedProbePlatforms = [(''linux'', ''amd64''), (''linux'', ''arm64''), (''windows'', ''amd64'')]"

definition probeArtifact :: "string \<Rightarrow> string" where
  "probeArtifact osName = (if osName = ''windows'' then ''sonar-probe.exe'' else ''sonar-probe'')"

definition artifact_path :: "string \<Rightarrow> string \<Rightarrow> string" where
  "artifact_path osName arch = osName @ ''/'' @ arch @ ''/'' @ probeArtifact osName"

text \<open>The files in the image, \<open>None\<close> without any; a file that cannot be opened or read is absent.\<close>

type_synonym probe_fs = "(string \<Rightarrow> byte list option) option"

definition probe_manifest :: "sign_lib \<Rightarrow> byte list \<Rightarrow> string \<Rightarrow> (string \<Rightarrow> byte list option) \<Rightarrow> string \<times> string \<Rightarrow> Manifest option" where
  "probe_manifest lib priv ver files p =
     (case p of (osName, arch) \<Rightarrow>
        (case files (artifact_path osName arch) of
           None \<Rightarrow> None
         | Some bin \<Rightarrow>
             if bin = [] then None
             else let h = HashSHA256Hex lib bin in
                  Some \<lparr>mf_Version = ver, mf_OS = osName, mf_Arch = arch, mf_SHA256 = h, mf_Sig = SignHash lib priv h,
                        mf_URL = ''/api/v1/probe/download/'' @ osName @ ''/'' @ arch\<rparr>))"

definition ensureProbeManifests :: "sign_lib \<Rightarrow> string \<Rightarrow> string \<Rightarrow> probe_fs \<Rightarrow> string option \<times> (string \<rightharpoonup> Manifest)" where
  "ensureProbeManifests lib env ver fs =
     (case fs of
        None \<Rightarrow> (Some ''file does not exist'', Map.empty)
      | Some files \<Rightarrow>
          (case PrivateKeyFromEnv env of
             Inl e \<Rightarrow> (Some e, Map.empty)
           | Inr priv \<Rightarrow>
               (None, map_of (map (\<lambda>(p, m). (fst p @ ''/'' @ snd p, the m))
                  (filter (\<lambda>(p, m). m \<noteq> None) (map (\<lambda>p. (p, probe_manifest lib priv ver files p)) allowedProbePlatforms))))))"

definition handleProbeLatest :: "sign_lib \<Rightarrow> string \<Rightarrow> string \<Rightarrow> probe_fs \<Rightarrow> string \<Rightarrow> string \<Rightarrow> string + Manifest" where
  "handleProbeLatest lib env ver fs osName arch =
     (if (osName, arch) \<notin> set allowedProbePlatforms then Inl ''no probe build for that os/arch''
      else case ensureProbeManifests lib env ver fs of (err, ms) \<Rightarrow>
        if err \<noteq> None \<and> dom ms = {} then Inl ''probe binaries not bundled with this build''
        else (case ms (osName @ ''/'' @ arch) of None \<Rightarrow> Inl ''probe binary missing from image'' | Some m \<Rightarrow> Inr m))"

definition handleProbeDownload :: "probe_fs \<Rightarrow> string \<Rightarrow> string \<Rightarrow> string + byte list" where
  "handleProbeDownload fs osName arch =
     (if (osName, arch) \<notin> set allowedProbePlatforms then Inl ''no probe build for that os/arch''
      else case fs of
        None \<Rightarrow> Inl ''probe binaries not bundled with this build''
      | Some files \<Rightarrow>
          (case files (artifact_path osName arch) of None \<Rightarrow> Inl ''probe binary missing from image'' | Some bin \<Rightarrow> Inr bin))"

subsection \<open>The probe\<close>

fun trim_slashes :: "string \<Rightarrow> string" where
  "trim_slashes [] = []"
| "trim_slashes (c # s) = (if c = CHR ''/'' then trim_slashes s else c # s)"

definition trimSlash :: "string \<Rightarrow> string" where
  "trimSlash s = rev (trim_slashes (rev s))"

text \<open>The files of the host. \<open>hf op\<close> is the error of an operation; a renaming moves the content.\<close>

type_synonym host_files = "string \<rightharpoonup> byte list"

definition rename :: "string \<Rightarrow> string \<Rightarrow> host_files \<Rightarrow> host_files" where
  "rename a b fs = (case fs a of None \<Rightarrow> fs | Some x \<Rightarrow> fs(a := None, b := Some x))"

datatype applied = Swapped | HelperStarted | ApplyFailed string

text \<open>The helper that waits for the process to end and moves the file then.\<close>

definition spawnUnixUpdater :: "(string \<Rightarrow> string option) \<Rightarrow> applied" where
  "spawnUnixUpdater hf =
     (case hf ''create helper'' of Some e \<Rightarrow> ApplyFailed e
      | None \<Rightarrow> (case hf ''write helper'' of Some e \<Rightarrow> ApplyFailed e
      | None \<Rightarrow> (case hf ''start helper'' of Some e \<Rightarrow> ApplyFailed (''spawn updater: '' @ e) | None \<Rightarrow> HelperStarted)))"

definition applyUpdate :: "(string \<Rightarrow> string option) \<Rightarrow> string \<Rightarrow> string \<Rightarrow> host_files \<Rightarrow> applied \<times> host_files" where
  "applyUpdate hf exe staging fs =
     (let bak = exe @ ''.bak''; fs1 = (if hf ''remove bak'' = None then fs(bak := None) else fs) in
      if hf ''rename exe'' \<noteq> None then (spawnUnixUpdater hf, fs1)
      else let fs2 = rename exe bak fs1 in
           case hf ''rename staging'' of
             Some e \<Rightarrow> (ApplyFailed e, if hf ''rename bak'' = None then rename bak exe fs2 else fs2)
           | None \<Rightarrow> (Swapped, rename staging exe fs2))"

record update_env =
  ue_lib :: sign_lib
  ue_pub64 :: string
  ue_base :: string
  ue_os :: string
  ue_arch :: string
  ue_local :: string
  ue_latest :: "string \<Rightarrow> string + Manifest"
  ue_get :: "string \<Rightarrow> string + byte list"
  ue_exe :: "string + string"
  ue_hf :: "string \<Rightarrow> string option"

definition latest_url :: "update_env \<Rightarrow> string" where
  "latest_url env = trimSlash (ue_base env) @ ''/api/v1/probe/latest?os='' @ ue_os env @ ''&arch='' @ ue_arch env"

definition download_url :: "update_env \<Rightarrow> Manifest \<Rightarrow> string" where
  "download_url env m =
     (case mf_URL m of
        [] \<Rightarrow> trimSlash (ue_base env) @ ''/api/v1/probe/download/'' @ ue_os env @ ''/'' @ ue_arch env
      | c # _ \<Rightarrow> if c = CHR ''/'' then trimSlash (ue_base env) @ mf_URL m else mf_URL m)"

text \<open>At most 128 MiB are read of a download.\<close>

definition downloadBytes :: "update_env \<Rightarrow> string \<Rightarrow> string + byte list" where
  "downloadBytes env url = (case ue_get env url of Inl e \<Rightarrow> Inl e | Inr bin \<Rightarrow> Inr (take (128 * 2 ^ 20) bin))"

datatype update_result = UpToDate | UpdateFailed string | Exited applied

definition checkAndMaybeUpdate :: "update_env \<Rightarrow> host_files \<Rightarrow> update_result \<times> host_files" where
  "checkAndMaybeUpdate env fs =
     (if ue_base env = [] then (UpdateFailed ''missing baseUrl'', fs)
      else case ue_latest env (latest_url env) of
        Inl e \<Rightarrow> (UpdateFailed e, fs)
      | Inr man \<Rightarrow>
          if \<not> CompareCalVer (ue_local env) (mf_Version man) then (UpToDate, fs)
          else (case Verify (ue_lib env) (ue_pub64 env) (mf_SHA256 man) (mf_Sig man) of
             Some e \<Rightarrow> (UpdateFailed (''verify manifest: '' @ e), fs)
           | None \<Rightarrow>
               (case downloadBytes env (download_url env man) of
                  Inl e \<Rightarrow> (UpdateFailed e, fs)
                | Inr bin \<Rightarrow>
                    let got = HashSHA256Hex (ue_lib env) bin in
                    if got \<noteq> mf_SHA256 man then (UpdateFailed ''sha256 mismatch'', fs)
                    else (case Verify (ue_lib env) (ue_pub64 env) got (mf_Sig man) of
                       Some e \<Rightarrow> (UpdateFailed e, fs)
                     | None \<Rightarrow>
                         (case ue_exe env of
                            Inl e \<Rightarrow> (UpdateFailed e, fs)
                          | Inr exe \<Rightarrow>
                              let staging = exe @ ''.new'' in
                              if ue_hf env ''write staging'' \<noteq> None then (UpdateFailed ''write staging'', fs)
                              else (case applyUpdate (ue_hf env) exe staging (fs(staging \<mapsto> bin)) of
                                 (ApplyFailed e, fs') \<Rightarrow>
                                   (UpdateFailed e, if ue_hf env ''remove staging'' = None then fs'(staging := None) else fs')
                               | (a, fs') \<Rightarrow> (Exited a, fs')))))))"

subsection \<open>Order of versions\<close>

lemma newer_irrefl: "\<not> newer ls ls"
  by (induction ls) simp_all

lemma newer_trans: "newer xs ys \<Longrightarrow> newer ys zs \<Longrightarrow> newer xs zs"
proof (induction xs ys arbitrary: zs rule: newer.induct)
  case (1 rs)
  then show ?case by (cases rs; cases zs) auto
next
  case (3 l ls r rs)
  then show ?case by (cases zs) (auto split: if_splits)
qed simp

lemma newer_total: "xs \<noteq> ys \<Longrightarrow> newer xs ys \<or> newer ys xs"
  by (induction xs ys rule: newer.induct) auto

text \<open>A probe that runs what the server has does not update again.\<close>

lemma same_version_stays:
  assumes "ue_base env \<noteq> []" "ue_latest env (latest_url env) = Inr man"
    and "mf_Version man = ue_local env"
  shows "checkAndMaybeUpdate env fs = (UpToDate, fs)"
  using assms by (auto simp: checkAndMaybeUpdate_def CompareCalVer_def)

text \<open>Characters that are no digits are skipped, so a suffix is read as part of the number before it.\<close>

lemma suffix_counts: "CompareCalVer ''2026.5.1.9'' ''2026.5.1.8-rc2''"
  by (simp add: CompareCalVer_def splitVer_def is_digit_def char_code_def i64_def)

subsection \<open>What is installed\<close>

lemma suffix_neq: "exe @ ''.bak'' \<noteq> exe" "exe @ ''.new'' \<noteq> exe" "exe @ ''.new'' \<noteq> exe @ ''.bak''" "exe @ ''.bak'' \<noteq> exe @ ''.new''"
  by simp_all

lemma applyUpdate_exe:
  assumes "applyUpdate hf exe (exe @ ''.new'') (fs(exe @ ''.new'' \<mapsto> bin)) = (a, fs')" "fs exe = Some old"
  shows "case a of
      Swapped \<Rightarrow> fs' exe = Some bin \<and> fs' (exe @ ''.bak'') = Some old
    | HelperStarted \<Rightarrow> fs' exe = Some old \<and> fs' (exe @ ''.new'') = Some bin
    | ApplyFailed e \<Rightarrow> if hf ''rename exe'' = None \<and> hf ''rename bak'' \<noteq> None
        then fs' exe = None \<and> fs' (exe @ ''.bak'') = Some old else fs' exe = Some old"
  using assms suffix_neq[of exe]
  by (auto simp: applyUpdate_def rename_def spawnUnixUpdater_def Let_def split: option.splits if_splits)

text \<open>C32: The program of a probe is replaced only by bytes of at most 128 MiB whose hash has a signature the embedded key
  accepts, under a manifest newer than the probe; otherwise the file is as it was, except that it is only under its backup
  name when the swap and its undoing both fail.\<close>

theorem update_only_signed:
  assumes "ue_exe env = Inr exe" "fs exe = Some old" "checkAndMaybeUpdate env fs = (r, fs')"
  shows "if r = Exited Swapped
    then \<exists>bin man. fs' exe = Some bin \<and> fs' (exe @ ''.bak'') = Some old \<and> length bin \<le> 128 * 2 ^ 20 \<and>
      ue_latest env (latest_url env) = Inr man \<and> mf_SHA256 man = HashSHA256Hex (ue_lib env) bin \<and> CompareCalVer (ue_local env) (mf_Version man) \<and>
      Verify (ue_lib env) (ue_pub64 env) (HashSHA256Hex (ue_lib env) bin) (mf_Sig man) = None
    else fs' exe = Some old \<or>
      (fs' exe = None \<and> fs' (exe @ ''.bak'') = Some old \<and> ue_hf env ''rename staging'' \<noteq> None \<and> ue_hf env ''rename bak'' \<noteq> None)"
proof (cases "r = UpToDate \<or> fs' = fs \<and> r \<noteq> Exited Swapped")
  case True
  then show ?thesis using assms by (auto simp: checkAndMaybeUpdate_def Let_def split: sum.splits option.splits if_splits prod.splits applied.splits)
next
  case False
  then obtain man bin a fs1 where l: "ue_latest env (latest_url env) = Inr man" and m: "CompareCalVer (ue_local env) (mf_Version man)"
      "downloadBytes env (download_url env man) = Inr bin" "HashSHA256Hex (ue_lib env) bin = mf_SHA256 man"
      "Verify (ue_lib env) (ue_pub64 env) (HashSHA256Hex (ue_lib env) bin) (mf_Sig man) = None"
      "applyUpdate (ue_hf env) exe (exe @ ''.new'') (fs(exe @ ''.new'' \<mapsto> bin)) = (a, fs1)"
      "(r, fs') = (case a of ApplyFailed e \<Rightarrow> (UpdateFailed e, if ue_hf env ''remove staging'' = None then fs1(exe @ ''.new'' := None) else fs1)
         | _ \<Rightarrow> (Exited a, fs1))"
    using assms by (auto simp: checkAndMaybeUpdate_def Let_def split: sum.splits option.splits if_splits prod.splits applied.splits)
  have len: "length bin \<le> 128 * 2 ^ 20" using m(2) by (auto simp: downloadBytes_def split: sum.splits)
  note exe = applyUpdate_exe[OF m(5) assms(2)]
  show ?thesis
  proof (cases a)
    case Swapped
    then show ?thesis using exe l m len by (auto intro!: exI[of _ bin] exI[of _ man])
  next
    case HelperStarted
    then show ?thesis using exe m by auto
  next
    case (ApplyFailed e)
    moreover have "ue_hf env ''rename staging'' \<noteq> None" if "ue_hf env ''rename exe'' = None"
      using m(5) ApplyFailed that by (auto simp: applyUpdate_def Let_def split: option.splits)
    ultimately show ?thesis using exe m(6) by (auto split: if_splits)
  qed
qed

subsection \<open>An update end to end\<close>

definition no_faults :: "(string \<Rightarrow> string option) \<Rightarrow> bool" where
  "no_faults hf \<longleftrightarrow> (\<forall>op. hf op = None)"

lemma signed_update_applies:
  assumes "ue_base env \<noteq> []" "ue_latest env (latest_url env) = Inr man" "CompareCalVer (ue_local env) (mf_Version man)"
    and "ue_get env (download_url env man) = Inr bin" "length bin \<le> 128 * 2 ^ 20" "mf_SHA256 man = HashSHA256Hex (ue_lib env) bin"
    and "Verify (ue_lib env) (ue_pub64 env) (HashSHA256Hex (ue_lib env) bin) (mf_Sig man) = None"
    and "ue_exe env = Inr exe" "no_faults (ue_hf env)" "fs exe = Some old"
  shows "\<exists>fs'. checkAndMaybeUpdate env fs = (Exited Swapped, fs') \<and> fs' exe = Some bin \<and> fs' (exe @ ''.bak'') = Some old"
proof -
  have "downloadBytes env (download_url env man) = Inr bin" using assms(4,5) by (simp add: downloadBytes_def)
  moreover have "\<exists>fs'. applyUpdate (ue_hf env) exe (exe @ ''.new'') (fs(exe @ ''.new'' \<mapsto> bin)) = (Swapped, fs') \<and>
      fs' exe = Some bin \<and> fs' (exe @ ''.bak'') = Some old"
    using assms(9,10) suffix_neq[of exe] by (simp add: applyUpdate_def no_faults_def rename_def Let_def)
  ultimately show ?thesis using assms by (auto simp: checkAndMaybeUpdate_def no_faults_def Let_def)
qed

lemma manifest_at:
  assumes "handleProbeLatest lib env ver fs osName arch = Inr man"
  shows "\<exists>files priv bin. fs = Some files \<and> PrivateKeyFromEnv env = Inr priv \<and> files (artifact_path osName arch) = Some bin \<and>
    (osName, arch) \<in> set allowedProbePlatforms \<and>
    man = \<lparr>mf_Version = ver, mf_OS = osName, mf_Arch = arch, mf_SHA256 = HashSHA256Hex lib bin,
      mf_Sig = SignHash lib priv (HashSHA256Hex lib bin), mf_URL = ''/api/v1/probe/download/'' @ osName @ ''/'' @ arch\<rparr>"
proof -
  obtain files priv where f: "fs = Some files" "PrivateKeyFromEnv env = Inr priv" "(osName, arch) \<in> set allowedProbePlatforms"
    using assms by (auto simp: handleProbeLatest_def ensureProbeManifests_def split: if_splits option.splits sum.splits)
  then have "probe_manifest lib priv ver files (osName, arch) = Some man"
    using assms by (auto simp: handleProbeLatest_def ensureProbeManifests_def allowedProbePlatforms_def split: if_splits option.splits)
  then show ?thesis using f by (auto simp: probe_manifest_def Let_def split: option.splits if_splits)
qed

lemma url_slash: "\<exists>u. ''/api/v1/probe/download/'' @ osName @ ''/'' @ arch = CHR ''/'' # u"
  by simp

text \<open>C33: What the server signs and serves, a probe of that platform with the matching key and an older version verifies and
  installs as it is, and it keeps the old program as a backup.\<close>

theorem published_update_applies:
  assumes "handleProbeLatest lib keyEnv ver img (ue_os env) (ue_arch env) = Inr man"
    and "handleProbeDownload img (ue_os env) (ue_arch env) = Inr bin" "length bin \<le> 128 * 2 ^ 20"
    and "\<And>priv pub m. PrivateKeyFromEnv keyEnv = Inr priv \<Longrightarrow> PublicKey (ue_pub64 env) = Inr pub \<Longrightarrow> sl_verify lib pub m (sl_sign lib priv m)"
    and "PublicKey (ue_pub64 env) = Inr pub" "ue_lib env = lib"
    and "ue_base env \<noteq> []" "ue_latest env (latest_url env) = Inr man"
    and "ue_get env (trimSlash (ue_base env) @ ''/api/v1/probe/download/'' @ ue_os env @ ''/'' @ ue_arch env) = Inr bin"
    and "CompareCalVer (ue_local env) ver" "ue_exe env = Inr exe" "no_faults (ue_hf env)" "fs exe = Some old"
  shows "\<exists>fs'. checkAndMaybeUpdate env fs = (Exited Swapped, fs') \<and> fs' exe = Some bin \<and> fs' (exe @ ''.bak'') = Some old"
proof -
  obtain files priv data where f: "img = Some files" "PrivateKeyFromEnv keyEnv = Inr priv"
      "files (artifact_path (ue_os env) (ue_arch env)) = Some data" "(ue_os env, ue_arch env) \<in> set allowedProbePlatforms"
      "man = \<lparr>mf_Version = ver, mf_OS = ue_os env, mf_Arch = ue_arch env, mf_SHA256 = HashSHA256Hex lib data,
        mf_Sig = SignHash lib priv (HashSHA256Hex lib data), mf_URL = ''/api/v1/probe/download/'' @ ue_os env @ ''/'' @ ue_arch env\<rparr>"
    using manifest_at[OF assms(1)] by blast
  have bin: "data = bin" using assms(2) f by (simp add: handleProbeDownload_def)
  have v: "Verify lib (ue_pub64 env) (HashSHA256Hex lib bin) (mf_Sig man) = None"
    using assms(4)[OF f(2) assms(5)] f(5) bin assms(5) by (simp add: Verify_def SignHash_def DecodeString_EncodeToString)
  have "download_url env man = trimSlash (ue_base env) @ ''/api/v1/probe/download/'' @ ue_os env @ ''/'' @ ue_arch env"
    using f(5) by (simp add: download_url_def)
  then have g: "ue_get env (download_url env man) = Inr bin" using assms(9) by metis
  show ?thesis
  proof (rule signed_update_applies[where env = env and man = man and bin = bin and exe = exe and fs = fs and old = old,
        OF assms(7,8) _ g assms(3) _ _ assms(11-13)])
    show "CompareCalVer (ue_local env) (mf_Version man)" using assms(10) f(5) by simp
    show "mf_SHA256 man = HashSHA256Hex (ue_lib env) bin" using f(5) bin assms(6) by simp
    show "Verify (ue_lib env) (ue_pub64 env) (HashSHA256Hex (ue_lib env) bin) (mf_Sig man) = None" using v assms(6) by simp
  qed
qed

text \<open>The signature covers the hash alone: whoever can answer for the server gives an old or foreign program that was once
  signed any newer version, and the probe installs it.\<close>

theorem old_release_accepted:
  assumes "Verify (ue_lib env) (ue_pub64 env) (HashSHA256Hex (ue_lib env) old_bin) sig = None"
    and "CompareCalVer (ue_local env) v" "length old_bin \<le> 128 * 2 ^ 20"
    and "ue_base env \<noteq> []" "ue_exe env = Inr exe" "no_faults (ue_hf env)" "fs exe = Some old"
  shows "\<exists>fs'. checkAndMaybeUpdate (env\<lparr>ue_latest := \<lambda>_. Inr \<lparr>mf_Version = v, mf_OS = any_os, mf_Arch = any_arch,
        mf_SHA256 = HashSHA256Hex (ue_lib env) old_bin, mf_Sig = sig, mf_URL = []\<rparr>, ue_get := \<lambda>_. Inr old_bin\<rparr>) fs = (Exited Swapped, fs') \<and>
      fs' exe = Some old_bin \<and> fs' (exe @ ''.bak'') = Some old"
  using assms by (intro signed_update_applies[where man = "\<lparr>mf_Version = v, mf_OS = any_os, mf_Arch = any_arch,
        mf_SHA256 = HashSHA256Hex (ue_lib env) old_bin, mf_Sig = sig, mf_URL = []\<rparr>"]) simp_all

subsection \<open>An example\<close>

definition demo_sign :: sign_lib where
  "demo_sign = \<lparr>sl_sha256 = (\<lambda>bs. bs), sl_sign = (\<lambda>priv m. m), sl_verify = (\<lambda>pub m sig. m = sig)\<rparr>"

definition demo_image :: probe_fs where
  "demo_image = Some (\<lambda>f. if f = artifact_path ''linux'' ''amd64'' then Some [1, 2] else None)"

definition demo_key :: string where
  "demo_key = EncodeToString StdEncoding (replicate 32 1)"

lemma demo_keys: "PublicKey demo_key = Inr (replicate 32 1)" "PrivateKeyFromEnv demo_key = Inr (replicate 32 1)"
proof -
  have d: "DecodeString StdEncoding demo_key = Some (replicate 32 1)" by (simp only: demo_key_def DecodeString_EncodeToString)
  have "DecodeString StdEncoding [] = Some []" by code_simp
  then have "demo_key \<noteq> []" using d by auto
  then show "PublicKey demo_key = Inr (replicate 32 1)" "PrivateKeyFromEnv demo_key = Inr (replicate 32 1)"
    by (simp_all add: PublicKey_def PrivateKeyFromEnv_def key_of_def d)
qed

definition demo_probe :: update_env where
  "demo_probe = \<lparr>ue_lib = demo_sign, ue_pub64 = demo_key, ue_base = ''https://s/'', ue_os = ''linux'', ue_arch = ''amd64'',
     ue_local = ''2026.5.1.8'',
     ue_latest = (\<lambda>_. handleProbeLatest demo_sign demo_key ''2026.5.1.9'' demo_image ''linux'' ''amd64''),
     ue_get = (\<lambda>_. handleProbeDownload demo_image ''linux'' ''amd64''), ue_exe = Inr ''/bin/p'', ue_hf = (\<lambda>_. None)\<rparr>"

lemma demo_manifest:
  "\<exists>man. handleProbeLatest demo_sign demo_key ''2026.5.1.9'' demo_image ''linux'' ''amd64'' = Inr man"
  using demo_keys(2)
  by (auto simp: handleProbeLatest_def ensureProbeManifests_def allowedProbePlatforms_def demo_image_def probe_manifest_def
      artifact_path_def Let_def)

theorem published_update_applies_witness:
  "\<exists>fs'. checkAndMaybeUpdate demo_probe [''/bin/p'' \<mapsto> [7]] = (Exited Swapped, fs') \<and> fs' ''/bin/p'' = Some [1, 2] \<and>
     fs' ''/bin/p.bak'' = Some [7]"
proof -
  obtain man where m: "handleProbeLatest demo_sign demo_key ''2026.5.1.9'' demo_image ''linux'' ''amd64'' = Inr man" using demo_manifest by blast
  have d: "handleProbeDownload demo_image ''linux'' ''amd64'' = Inr [1, 2]"
    by (simp add: handleProbeDownload_def demo_image_def allowedProbePlatforms_def)
  have v: "CompareCalVer ''2026.5.1.8'' ''2026.5.1.9''"
    by (simp add: CompareCalVer_def splitVer_def is_digit_def char_code_def i64_def)
  have "\<exists>fs'. checkAndMaybeUpdate demo_probe [''/bin/p'' \<mapsto> [7]] = (Exited Swapped, fs') \<and> fs' ''/bin/p'' = Some [1, 2] \<and>
      fs' (''/bin/p'' @ ''.bak'') = Some [7]"
    by (rule published_update_applies[where lib = demo_sign and keyEnv = demo_key and ver = "''2026.5.1.9''" and img = demo_image
          and man = man and pub = "replicate 32 1" and exe = "''/bin/p''"])
      (simp_all add: demo_probe_def m d demo_keys v no_faults_def, simp_all add: demo_sign_def)
  then show ?thesis by simp
qed

theorem update_only_signed_witness:
  "\<exists>fs'. checkAndMaybeUpdate demo_probe [''/bin/p'' \<mapsto> [7]] = (Exited Swapped, fs') \<and>
     (\<exists>bin. \<exists>man :: Manifest. fs' ''/bin/p'' = Some bin \<and> Verify demo_sign demo_key (HashSHA256Hex demo_sign bin) (mf_Sig man) = None)"
proof -
  obtain man where m: "handleProbeLatest demo_sign demo_key ''2026.5.1.9'' demo_image ''linux'' ''amd64'' = Inr man" using demo_manifest by blast
  have d: "handleProbeDownload demo_image ''linux'' ''amd64'' = Inr [1, 2]"
    by (simp add: handleProbeDownload_def demo_image_def allowedProbePlatforms_def)
  have v: "CompareCalVer ''2026.5.1.8'' ''2026.5.1.9''"
    by (simp add: CompareCalVer_def splitVer_def is_digit_def char_code_def i64_def)
  have man: "mf_Version man = ''2026.5.1.9''" "mf_SHA256 man = HashSHA256Hex demo_sign [1, 2]"
      "mf_Sig man = SignHash demo_sign (replicate 32 1) (HashSHA256Hex demo_sign [1, 2])"
    using manifest_at[OF m] demo_keys(2) by (auto simp: demo_image_def)
  have s: "Verify demo_sign demo_key (HashSHA256Hex demo_sign [1, 2]) (mf_Sig man) = None"
    unfolding man(3) by (simp add: Verify_def demo_keys SignHash_def DecodeString_EncodeToString demo_sign_def)
  obtain fs' where r: "checkAndMaybeUpdate demo_probe [''/bin/p'' \<mapsto> [7]] = (Exited Swapped, fs')"
    using signed_update_applies[of demo_probe man "[1, 2]" "''/bin/p''" "[''/bin/p'' \<mapsto> [7]]" "[7]"] m d v man s
    by (auto simp: demo_probe_def no_faults_def)
  have "ue_exe demo_probe = Inr ''/bin/p''" "[''/bin/p'' \<mapsto> [7]] ''/bin/p'' = Some [7]" by (simp_all add: demo_probe_def)
  from update_only_signed[OF this r] show ?thesis using r by (auto simp: demo_probe_def)
qed

end
