(* ===== verification/Probe_Run.thy ===== *)
theory Probe_Run
  imports Go_Time "HOL-Library.Sublist"
begin

text \<open>
  The connection of a probe to the server (\<open>internal/probe/run.go\<close>; \<open>internal/collector/run.go\<close> has the same text): the
  loop that dials again, and the goroutine that writes the frames of several senders to one connection.
\<close>

subsection \<open>Dialling again\<close>

text \<open>How one connection goes: errors of the address, of the dial and of the first frame, and what each read brings, \<open>None\<close>
  for a message. The list ends while the connection is read.\<close>

record connection =
  cn_parse :: "string option"
  cn_dial :: "string option"
  cn_hello :: "string option"
  cn_reads :: "string option list"

text \<open>\<open>Ended None\<close> is a return without an error.\<close>

datatype pumping = Reading | Ended "string option"

fun read_frames :: "string option list \<Rightarrow> pumping" where
  "read_frames [] = Reading"
| "read_frames (None # rs) = read_frames rs"
| "read_frames (Some e # rs) = Ended (Some e)"

definition dialAndPump :: "connection \<Rightarrow> pumping" where
  "dialAndPump c =
     (case cn_parse c of Some e \<Rightarrow> Ended (Some (''parse ingestWs: '' @ e))
      | None \<Rightarrow> (case cn_dial c of Some e \<Rightarrow> Ended (Some (''ws dial: '' @ e))
      | None \<Rightarrow> (case cn_hello c of Some e \<Rightarrow> Ended (Some (''ws write hello: '' @ e))
      | None \<Rightarrow> read_frames (cn_reads c))))"

definition longest_backoff :: int where "longest_backoff = 60 * 1000000000"

definition next_backoff :: "int \<Rightarrow> int" where
  "next_backoff b = (if b < longest_backoff then if longest_backoff < b * 2 then longest_backoff else b * 2 else b)"

text \<open>The waits of the loop, one after every connection that ended with an error.\<close>

fun redial :: "int \<Rightarrow> connection list \<Rightarrow> int list" where
  "redial b [] = []"
| "redial b (c # cs) =
     (case dialAndPump c of
        Reading \<Rightarrow> []
      | Ended None \<Rightarrow> redial 1000000000 cs
      | Ended (Some e) \<Rightarrow> b # redial (next_backoff b) cs)"

text \<open>\<open>Run\<close> without an address fails at once.\<close>

definition Run_loop :: "string \<Rightarrow> connection list \<Rightarrow> string + int list" where
  "Run_loop ingestWS cs = (if ingestWS = [] then Inl ''probe: missing ingestWs in config'' else Inr (redial 1000000000 cs))"

lemma read_frames_error: "read_frames rs \<noteq> Ended None"
  by (induction rs rule: read_frames.induct) simp_all

lemma dialAndPump_error: "dialAndPump c \<noteq> Ended None"
  by (simp add: dialAndPump_def read_frames_error split: option.split)

text \<open>A connection never ends without an error, so the wait is never set back: it doubles from one second to a minute with
  every connection, however long each of them lasted.\<close>

lemma redial_nth:
  assumes "\<forall>c\<in>set cs. dialAndPump c \<noteq> Reading" "n < length cs" "0 < b" "b \<le> longest_backoff"
  shows "length (redial b cs) = length cs \<and> redial b cs ! n = min (b * 2 ^ n) longest_backoff"
  using assms
proof (induction cs arbitrary: n b)
  case (Cons c cs)
  obtain e where e: "dialAndPump c = Ended (Some e)"
    using Cons.prems(1) dialAndPump_error[of c] by (metis list.set_intros(1) option.exhaust pumping.exhaust)
  have nb: "0 < next_backoff b" "next_backoff b \<le> longest_backoff" "next_backoff b = min (b * 2) longest_backoff"
    using Cons.prems(3,4) by (auto simp: next_backoff_def longest_backoff_def min_def)
  have len: "length (redial (next_backoff b) cs) = length cs"
  proof (cases cs)
    case (Cons d ds)
    then show ?thesis using Cons.IH[of 0 "next_backoff b"] Cons.prems(1) nb by simp
  qed simp
  show ?case
  proof (cases n)
    case 0
    then show ?thesis using e len Cons.prems(4) by simp
  next
    case (Suc k)
    have "redial (next_backoff b) cs ! k = min (next_backoff b * 2 ^ k) longest_backoff"
      using Cons.IH[of k "next_backoff b"] Cons.prems(1,2) nb(1,2) Suc by simp
    also have "\<dots> = min (b * 2 ^ n) longest_backoff"
    proof (cases "b * 2 \<le> longest_backoff")
      case True
      then show ?thesis using nb(3) Suc by (simp add: mult.assoc)
    next
      case False
      have one: "(1 :: int) \<le> 2 ^ k" by simp
      have "longest_backoff * 1 \<le> longest_backoff * 2 ^ k" using one by (rule mult_left_mono) (simp add: longest_backoff_def)
      moreover have "next_backoff b = longest_backoff" using False nb(3) by simp
      ultimately have l: "longest_backoff \<le> next_backoff b * 2 ^ k" by simp
      have "b * 2 * 1 \<le> b * 2 * 2 ^ k" using one by (rule mult_left_mono) (use Cons.prems(3) in simp)
      moreover have "b * 2 ^ n = b * 2 * 2 ^ k" using Suc by simp
      ultimately have "longest_backoff \<le> b * 2 ^ n" using False by (simp only: mult_1_right)
      with l have "longest_backoff \<le> next_backoff b * 2 ^ k \<and> longest_backoff \<le> b * 2 ^ n" ..
      then show ?thesis by (simp only: min_absorb2)
    qed
    finally show ?thesis using e len Suc by simp
  qed
qed simp

theorem backoff_never_reset:
  assumes "\<forall>c\<in>set cs. dialAndPump c \<noteq> Reading" "6 \<le> n" "n < length cs"
  shows "redial 1000000000 cs ! n = longest_backoff"
proof -
  have "(2 :: int) ^ 6 \<le> 2 ^ n" using assms(2) by (rule power_increasing) simp
  then have "longest_backoff \<le> 1000000000 * 2 ^ n" by (simp add: longest_backoff_def)
  then show ?thesis using redial_nth[OF assms(1,3), of 1000000000] by (simp add: longest_backoff_def min_def)
qed

subsection \<open>The writer\<close>

text \<open>The channel, the message the goroutine is writing, and its error; what \<open>send\<close> took and what was written are kept for the
  statements.\<close>

record ws_writer =
  ww_in :: "string list"
  ww_writing :: "string option"
  ww_err :: "string option"
  ww_stopped :: bool
  ww_taken :: "string list"
  ww_written :: "string list"

definition ws_buffer :: nat where "ws_buffer = 8"

definition newWSWriter :: ws_writer where
  "newWSWriter = \<lparr>ww_in = [], ww_writing = None, ww_err = None, ww_stopped = False, ww_taken = [], ww_written = []\<rparr>"

text \<open>\<open>cancelled\<close> tells whether the select, which takes any ready case, took the one of the context.\<close>

definition ws_send :: "bool \<Rightarrow> string \<Rightarrow> ws_writer \<Rightarrow> string option \<times> ws_writer" where
  "ws_send cancelled msg w =
     (if ww_err w \<noteq> None then (ww_err w, w)
      else if cancelled then (Some ''context canceled'', w)
      else if length (ww_in w) < ws_buffer then (None, w\<lparr>ww_in := ww_in w @ [msg], ww_taken := ww_taken w @ [msg]\<rparr>)
      else (Some ''ws writer buffer full; dropping frame'', w))"

inductive ws_step :: "ws_writer \<Rightarrow> ws_writer \<Rightarrow> bool" where
  send: "ws_step w (snd (ws_send cancelled msg w))"
| take: "ww_in w = m # ms \<Longrightarrow> ww_writing w = None \<Longrightarrow> \<not> ww_stopped w \<Longrightarrow> ws_step w (w\<lparr>ww_in := ms, ww_writing := Some m\<rparr>)"
| wrote: "ww_writing w = Some m \<Longrightarrow> ws_step w (w\<lparr>ww_writing := None, ww_written := ww_written w @ [m]\<rparr>)"
| failed: "ww_writing w = Some m \<Longrightarrow>
    ws_step w (w\<lparr>ww_writing := None, ww_err := Some e, ww_stopped := True\<rparr>)"
| stop: "ww_writing w = None \<Longrightarrow> ws_step w (w\<lparr>ww_stopped := True\<rparr>)"

definition ws_inv :: "ws_writer \<Rightarrow> bool" where
  "ws_inv w \<longleftrightarrow> length (ww_in w) \<le> ws_buffer \<and>
     (if ww_stopped w then ww_writing w = None \<and> prefix (ww_written w) (ww_taken w)
      else ww_err w = None \<and> ww_taken w = ww_written w @ (case ww_writing w of None \<Rightarrow> [] | Some m \<Rightarrow> [m]) @ ww_in w)"

lemma ws_inv_new: "ws_inv newWSWriter"
  by (simp add: ws_inv_def newWSWriter_def)

lemma ws_inv_step:
  assumes "ws_step w w'" "ws_inv w"
  shows "ws_inv w'"
  using assms
proof cases
  case (send cancelled msg)
  then show ?thesis using assms(2) by (auto simp: ws_inv_def ws_send_def ws_buffer_def prefix_def)
next
  case (failed m e)
  then show ?thesis using assms(2) by (auto simp: ws_inv_def split: if_splits)
qed (use assms(2) in \<open>auto simp: ws_inv_def split: if_splits option.splits\<close>)

text \<open>Of the frames it took the writer has written the first ones, in order, and at most nine wait.\<close>

theorem writer_in_order:
  assumes "ws_step\<^sup>*\<^sup>* newWSWriter w"
  shows "prefix (ww_written w) (ww_taken w) \<and> length (ww_in w) \<le> ws_buffer \<and>
    (\<not> ww_stopped w \<longrightarrow> length (ww_taken w) \<le> length (ww_written w) + Suc ws_buffer)"
proof -
  have "ws_inv w" using assms by (induction rule: rtranclp_induct) (auto intro: ws_inv_new ws_inv_step)
  then show ?thesis by (auto simp: ws_inv_def split: if_splits option.splits)
qed

subsection \<open>What is logged\<close>

definition redactQuery :: "string \<Rightarrow> string" where
  "redactQuery s = (if CHR ''?'' \<in> set s then takeWhile (\<lambda>c. c \<noteq> CHR ''?'') s @ ''?token=REDACTED'' else s)"

end
