(* ===== verification/Alarm_Rules.thy ===== *)
theory Alarm_Rules
  imports Sql_Update Envelope Alarm_Engine Enrollment
begin

text \<open>
  How operators create, change and delete alarm rules and notification channels
  (\<open>internal/api/handlers_alarm_crud.go\<close>), and what that means for the engine: the rules it reads are the enabled rows,
  newest first, and the alarms of a deleted rule lose their reference to it. \<open>ar_fault\<close> tells which statement is refused.
\<close>

subsection \<open>Tables\<close>

record stored_rule =
  str_rule :: rule_row
  str_enabled :: bool

record rules_db =
  rd_rules :: "stored_rule list"
  rd_channels :: "channel_row list"
  rd_engine :: engine

record rules_env =
  ar_parse :: "string \<Rightarrow> uuid option"
  ar_new_id :: uuid
  ar_reads :: "nat \<Rightarrow> nat \<Rightarrow> string + byte list"
  ar_json_ok :: "string \<Rightarrow> bool"
  ar_fault :: "string \<Rightarrow> bool"

definition rule_severities :: "string set" where
  "rule_severities = {''emergency'', ''critical'', ''warning'', ''info''}"

definition target_kinds :: "string set" where
  "target_kinds = {''any'', ''agent'', ''appliance'', ''check''}"

text \<open>What the table refuses: a severity of its own, a window that is no \<open>INTEGER\<close>.\<close>

definition rule_storable :: "rule_row \<Rightarrow> bool" where
  "rule_storable r \<longleftrightarrow> ru_Severity r \<in> rule_severities \<and> ru_TargetKind r \<in> target_kinds \<and>
     ru_ForSeconds r < 2 ^ 31 \<and> ru_ClearForSeconds r < 2 ^ 31"

subsection \<open>Rules\<close>

fun parse_ids :: "(string \<Rightarrow> uuid option) \<Rightarrow> string list \<Rightarrow> uuid list option" where
  "parse_ids parse [] = Some []"
| "parse_ids parse (x # xs) =
     (case parse x of None \<Rightarrow> None | Some i \<Rightarrow> map_option (\<lambda>is. i # is) (parse_ids parse xs))"

record createAlarmRuleReq =
  crr_SiteID :: "string option"
  crr_Name :: string
  crr_Severity :: string
  crr_Expression :: string
  crr_ChannelIDs :: "string list"
  crr_Enabled :: "bool option"
  crr_ForSeconds :: "int option"
  crr_ClearForSeconds :: "int option"
  crr_TargetKind :: string

definition window_of :: "int option \<Rightarrow> int" where
  "window_of x = (case x of None \<Rightarrow> 0 | Some n \<Rightarrow> if 0 \<le> n then n else 0)"

definition handleCreateAlarmRule :: "rules_env \<Rightarrow> createAlarmRuleReq option \<Rightarrow> rules_db \<Rightarrow> uuid reply \<times> rules_db" where
  "handleCreateAlarmRule env body db =
     (case body of
        None \<Rightarrow> (Failed 400 ''name, severity, expression required'', db)
      | Some req \<Rightarrow>
          if crr_Name req = [] \<or> crr_Expression req = [] \<or> crr_Severity req = []
          then (Failed 400 ''name, severity, expression required'', db)
          else (case parse_ids (ar_parse env) (crr_ChannelIDs req) of
             None \<Rightarrow> (Failed 400 ''invalid channel id'', db)
           | Some chIDs \<Rightarrow>
               (case (case crr_SiteID req of None \<Rightarrow> Some None
                      | Some s \<Rightarrow> if s = [] then Some None else map_option Some (ar_parse env s)) of
                  None \<Rightarrow> (Failed 400 ''invalid siteId'', db)
                | Some site \<Rightarrow>
                    let kind = (if crr_TargetKind req = [] then ''any'' else crr_TargetKind req);
                        r = \<lparr>ru_ID = ar_new_id env, ru_SiteID = site, ru_Name = crr_Name req, ru_Severity = crr_Severity req,
                             ru_Expression = crr_Expression req, ru_ChannelIDs = chIDs,
                             ru_ForSeconds = window_of (crr_ForSeconds req),
                             ru_ClearForSeconds = window_of (crr_ClearForSeconds req), ru_TargetKind = kind\<rparr>
                    in if kind \<notin> target_kinds then (Failed 400 ''targetKind must be any|agent|appliance|check'', db)
                       else if ar_fault env ''insert rule'' \<or> \<not> rule_storable r \<or> list_ex (\<lambda>q. ru_ID (str_rule q) = ru_ID r) (rd_rules db)
                       then (Failed 400 ''insert failed'', db)
                       else (Answered 201 (ru_ID r),
                             db\<lparr>rd_rules := \<lparr>str_rule = r, str_enabled = (case crr_Enabled req of None \<Rightarrow> True | Some b \<Rightarrow> b)\<rparr> # rd_rules db\<rparr>))))"

record patchAlarmRuleReq =
  prr_Name :: "string option"
  prr_Severity :: "string option"
  prr_Expression :: "string option"
  prr_Enabled :: "bool option"
  prr_ForSeconds :: "int option"
  prr_ClearForSeconds :: "int option"
  prr_ChannelIDs :: "string list option"
  prr_SiteID :: "string option"
  prr_TargetKind :: "string option"

definition on_rule :: "(rule_row \<Rightarrow> rule_row) \<Rightarrow> stored_rule \<Rightarrow> stored_rule" where
  "on_rule f s = s\<lparr>str_rule := f (str_rule s)\<rparr>"

text \<open>A negative window sets nothing.\<close>

definition rule_columns :: "rules_env \<Rightarrow> patchAlarmRuleReq \<Rightarrow> string + (stored_rule \<Rightarrow> stored_rule) list" where
  "rule_columns env req =
     (let natural = (\<lambda>x. case x of None \<Rightarrow> None | Some n \<Rightarrow> if 0 \<le> n then Some n else (None :: int option)) in
      columns
        [column (prr_Name req) (\<lambda>_. None) (\<lambda>s. on_rule (\<lambda>r. r\<lparr>ru_Name := s\<rparr>)),
         column (prr_Severity req) (\<lambda>_. None) (\<lambda>s. on_rule (\<lambda>r. r\<lparr>ru_Severity := s\<rparr>)),
         column (prr_Expression req) (\<lambda>_. None) (\<lambda>s. on_rule (\<lambda>r. r\<lparr>ru_Expression := s\<rparr>)),
         column (prr_Enabled req) (\<lambda>_. None) (\<lambda>b s. s\<lparr>str_enabled := b\<rparr>),
         column (natural (prr_ForSeconds req)) (\<lambda>_. None) (\<lambda>n. on_rule (\<lambda>r. r\<lparr>ru_ForSeconds := n\<rparr>)),
         column (natural (prr_ClearForSeconds req)) (\<lambda>_. None) (\<lambda>n. on_rule (\<lambda>r. r\<lparr>ru_ClearForSeconds := n\<rparr>)),
         column (prr_ChannelIDs req) (\<lambda>xs. problem_unless (parse_ids (ar_parse env) xs \<noteq> None) ''invalid channel id'')
           (\<lambda>xs. on_rule (\<lambda>r. r\<lparr>ru_ChannelIDs := the (parse_ids (ar_parse env) xs)\<rparr>)),
         column (prr_SiteID req) (\<lambda>s. problem_unless (s = [] \<or> ar_parse env s \<noteq> None) ''invalid siteId'')
           (\<lambda>s. on_rule (\<lambda>r. r\<lparr>ru_SiteID := (if s = [] then None else ar_parse env s)\<rparr>)),
         column (prr_TargetKind req) (\<lambda>s. problem_unless (s \<in> target_kinds) ''targetKind must be any|agent|appliance|check'')
           (\<lambda>s. on_rule (\<lambda>r. r\<lparr>ru_TargetKind := s\<rparr>))])"

definition handlePatchAlarmRule :: "rules_env \<Rightarrow> string \<Rightarrow> patchAlarmRuleReq option \<Rightarrow> rules_db \<Rightarrow> unit reply \<times> rules_db" where
  "handlePatchAlarmRule env param body db =
     (case ar_parse env param of
        None \<Rightarrow> (Failed 400 ''invalid id'', db)
      | Some i \<Rightarrow>
          (case body of
             None \<Rightarrow> (Failed 400 ''invalid JSON'', db)
           | Some req \<Rightarrow>
               (case rule_columns env req of
                  Inl e \<Rightarrow> (Failed 400 e, db)
                | Inr sets \<Rightarrow>
                    let hit = (\<lambda>s. ru_ID (str_rule s) = i) in
                    if sets = [] then (Failed 400 ''no fields'', db)
                    else if ar_fault env ''update rule'' \<or> (\<exists>s\<in>set (rd_rules db). hit s \<and> \<not> rule_storable (str_rule (assign_all sets s)))
                    then (Failed 400 ''update failed'', db)
                    else if \<not> list_ex hit (rd_rules db) then (Failed 404 ''rule not found'', db)
                    else (Answered 204 (), db\<lparr>rd_rules := map (\<lambda>s. if hit s then assign_all sets s else s) (rd_rules db)\<rparr>))))"

text \<open>\<open>ON DELETE SET NULL\<close> of the alarms.\<close>

definition forget_rule :: "uuid \<Rightarrow> alarm \<Rightarrow> alarm" where
  "forget_rule i a = (if am_Rule a = Some i then a\<lparr>am_Rule := None\<rparr> else a)"

definition handleDeleteAlarmRule :: "rules_env \<Rightarrow> string \<Rightarrow> rules_db \<Rightarrow> unit reply \<times> rules_db" where
  "handleDeleteAlarmRule env param db =
     (case ar_parse env param of
        None \<Rightarrow> (Failed 400 ''invalid id'', db)
      | Some i \<Rightarrow>
          if ar_fault env ''delete rule'' then (Failed 500 ''delete failed'', db)
          else if \<not> list_ex (\<lambda>s. ru_ID (str_rule s) = i) (rd_rules db) then (Failed 404 ''rule not found'', db)
          else (Answered 204 (), db\<lparr>rd_rules := filter (\<lambda>s. ru_ID (str_rule s) \<noteq> i) (rd_rules db),
                  rd_engine := (rd_engine db)\<lparr>en_alarms := map (forget_rule i) (en_alarms (rd_engine db))\<rparr>\<rparr>))"

text \<open>The answer to the query of \<open>refreshRules\<close>.\<close>

definition rule_query :: "stored_rule list \<Rightarrow> (string + string \<times> rule_row) list" where
  "rule_query rules =
     map (\<lambda>s. Inr (case ru_SiteID (str_rule s) of None \<Rightarrow> [] | Some u \<Rightarrow> u, str_rule s)) (filter str_enabled rules)"

subsection \<open>Channels\<close>

record createNotifChannelReq =
  cnr_Kind :: string
  cnr_Name :: string
  cnr_Config :: string
  cnr_SigningSecret :: string

text \<open>The table takes e-mail and webhook channels with a valid configuration; a sealed secret is \<open>NULL\<close>, here empty, without one.\<close>

definition handleCreateNotificationChannel ::
    "blockfun \<Rightarrow> byte list \<Rightarrow> rules_env \<Rightarrow> createNotifChannelReq option \<Rightarrow> rules_db \<Rightarrow> uuid reply \<times> rules_db" where
  "handleCreateNotificationChannel aes master env body db =
     (case body of
        None \<Rightarrow> (Failed 400 ''kind and name required'', db)
      | Some req \<Rightarrow>
          if cnr_Kind req = [] \<or> cnr_Name req = [] then (Failed 400 ''kind and name required'', db)
          else let config = (if cnr_Config req = [] then ''{}'' else cnr_Config req); i = ar_new_id env in
            case (if cnr_SigningSecret req = [] then Inr []
                  else Seal aes (ar_reads env) master (bytes_of (cnr_SigningSecret req)) (bytes_of (''notification:'' @ i))) of
              Inl _ \<Rightarrow> (Failed 500 ''seal failed'', db)
            | Inr sealed \<Rightarrow>
                if ar_fault env ''insert channel'' \<or> cnr_Kind req \<notin> {''email'', ''webhook''} \<or> \<not> ar_json_ok env config \<or>
                   list_ex (\<lambda>c. cr_ID c = i) (rd_channels db)
                then (Failed 400 ''create failed'', db)
                else (Answered 201 i, db\<lparr>rd_channels := \<lparr>cr_ID = i, cr_Kind = cnr_Kind req, cr_Name = cnr_Name req,
                        cr_Config = config, cr_Secret = string_of sealed\<rparr> # rd_channels db\<rparr>))"

definition handleDeleteNotificationChannel :: "rules_env \<Rightarrow> string \<Rightarrow> rules_db \<Rightarrow> unit reply \<times> rules_db" where
  "handleDeleteNotificationChannel env param db =
     (case ar_parse env param of
        None \<Rightarrow> (Failed 400 ''invalid id'', db)
      | Some i \<Rightarrow>
          if ar_fault env ''delete channel'' then (Failed 500 ''delete failed'', db)
          else (Answered 204 (), db\<lparr>rd_channels := filter (\<lambda>c. cr_ID c \<noteq> i) (rd_channels db)\<rparr>))"

text \<open>What the notifier loads of a new channel is the secret of the request.\<close>

theorem channel_secret_roundtrip:
  assumes "reads_ok (ar_reads env)"
    and "handleCreateNotificationChannel aes master env (Some req) db = (Answered 201 i, db')"
    and "\<And>blob ad. open_sealed blob ad =
           (case Open aes master (bytes_of blob) (bytes_of ad) of Inl _ \<Rightarrow> None | Inr plain \<Rightarrow> Some (string_of plain))"
  shows "\<exists>r\<in>set (rd_channels db'). cr_ID r = i \<and>
    chan_SigningSecret (load_channel decode open_sealed r) = cnr_SigningSecret req"
proof (cases "cnr_SigningSecret req = []")
  case True
  then show ?thesis
    using assms(2) by (auto simp: handleCreateNotificationChannel_def Let_def load_channel_def string_of_def split: if_splits)
next
  case False
  define ad where "ad = bytes_of (''notification:'' @ i)"
  obtain blob where b: "Seal aes (ar_reads env) master (bytes_of (cnr_SigningSecret req)) ad = Inr blob" "i = ar_new_id env"
      "\<lparr>cr_ID = i, cr_Kind = cnr_Kind req, cr_Name = cnr_Name req,
        cr_Config = (if cnr_Config req = [] then ''{}'' else cnr_Config req), cr_Secret = string_of blob\<rparr> \<in> set (rd_channels db')"
    using assms(2) False by (auto simp: handleCreateNotificationChannel_def Let_def ad_def split: if_splits sum.splits)
  obtain dk wn dn where r: "ar_reads env 0 32 = Inr dk" "ar_reads env 1 12 = Inr wn" "ar_reads env 2 12 = Inr dn"
      and blob: "blob = sealed_with aes master dk wn dn (bytes_of (cnr_SigningSecret req)) ad"
    using b(1) unfolding Seal_shape[OF assms(1)] by blast
  have k: "length dk = 32" "length wn = 12" "length dn = 12" using r assms(1) unfolding reads_ok_def by blast+
  have opened: "Open aes master blob ad = Inr (bytes_of (cnr_SigningSecret req))" "blob \<noteq> []"
    using Open_sealed_with[OF k, of aes master "bytes_of (cnr_SigningSecret req)" ad] blob by auto
  have "open_sealed (string_of blob) (''notification:'' @ i) = Some (cnr_SigningSecret req)"
    using opened(1) by (simp add: assms(3) bytes_of_string_of ad_def)
  moreover have "string_of blob \<noteq> []" using opened(2) by (simp add: string_of_def)
  ultimately show ?thesis by (intro bexI[OF _ b(3)]) (simp add: load_channel_def)
qed

subsection \<open>What the engine reads\<close>

text \<open>The rules in force after a refresh are the enabled ones of the table, with their sites and kinds.\<close>

lemma refreshed_rules:
  assumes "\<forall>s\<in>set rules. ru_TargetKind (str_rule s) \<noteq> [] \<and> ru_SiteID (str_rule s) \<noteq> Some [] \<and>
      (\<forall>u. ru_SiteID (str_rule s) = Some u \<longrightarrow> parse u = Some u)"
  shows "en_rules (refreshRules parse (Inr (rule_query rules)) e) = map str_rule (filter str_enabled rules)"
  using assms
proof (induction rules)
  case (Cons s rules)
  have "scan_rule parse (case ru_SiteID (str_rule s) of None \<Rightarrow> [] | Some u \<Rightarrow> u, str_rule s) = str_rule s"
    using Cons.prems by (cases "ru_SiteID (str_rule s)") (auto simp: scan_rule_def Let_def)
  then show ?case using Cons by (simp add: refreshRules_def rule_query_def List.map_filter_def)
qed (simp add: refreshRules_def rule_query_def List.map_filter_def)

lemma refreshed_id:
  assumes "rl \<in> set (en_rules (refreshRules parse (Inr (rule_query rules)) e))"
  obtains s where "s \<in> set rules" "ru_ID rl = ru_ID (str_rule s)"
  using assms by (auto simp: refreshRules_def rule_query_def List.map_filter_def scan_rule_def Let_def)

lemma refreshed_alarms: "en_alarms (refreshRules parse (Inr q) e) = en_alarms e"
  by (simp add: refreshRules_def)

subsection \<open>The alarms of a rule that is gone\<close>

text \<open>No rule of the table has the id \<open>i\<close>; ids are UUIDs, without a colon.\<close>

definition lacks_rule :: "string \<Rightarrow> stored_rule list \<Rightarrow> bool" where
  "lacks_rule i rules \<longleftrightarrow> (\<forall>s\<in>set rules. CHR '':'' \<notin> set (ru_ID (str_rule s)) \<and> ru_ID (str_rule s) \<noteq> i)"

text \<open>What the engine goes through while no operator clears the alarm \<open>n\<close>: metrics, traps, clears of other alarms and
  refreshes of a table whose other rules may be created, changed and deleted, with any failures of the database.\<close>

inductive unattended :: "(string \<Rightarrow> uuid option) \<Rightarrow> string \<Rightarrow> nat \<Rightarrow> engine \<Rightarrow> engine \<Rightarrow> bool" for parse i n e0 where
  idle: "unattended parse i n e0 e0"
| measured: "unattended parse i n e0 e \<Longrightarrow> unattended parse i n e0 (evaluate fb fa now m e)"
| refreshed: "unattended parse i n e0 e \<Longrightarrow> lacks_rule i rules \<Longrightarrow> unattended parse i n e0 (refreshRules parse (Inr (rule_query rules)) e)"
| unreadable: "unattended parse i n e0 e \<Longrightarrow> unattended parse i n e0 (refreshRules parse (Inl err) e)"
| trapped: "unattended parse i n e0 e \<Longrightarrow> unattended parse i n e0 (handleTrap target encode fa up t e)"
| cleared: "unattended parse i n e0 e \<Longrightarrow> j \<noteq> n \<Longrightarrow> unattended parse i n e0 (clear_by_id j e)"

lemma eval_rule_keeps:
  assumes "a \<in> set (en_alarms e)" "am_Dedup a \<noteq> dedup_key rl (me_kind m) (me_key m)"
  shows "a \<in> set (en_alarms (eval_rule fb fa now m rl e))"
  using assms by (auto simp: eval_rule_def Let_def maybeOpen_tables maybeAutoClear_tables is_open_def image_iff split: option.split)

lemma evaluate_keeps:
  assumes "a \<in> set (en_alarms e)" "\<forall>rl\<in>set (en_rules e). am_Dedup a \<noteq> dedup_key rl (me_kind m) (me_key m)"
  shows "a \<in> set (en_alarms (evaluate fb fa now m e))"
proof -
  have "a \<in> set (en_alarms (foldl (\<lambda>e rl. eval_rule fb fa now m rl e) e1 rls))"
    if "a \<in> set (en_alarms e1)" "\<forall>rl\<in>set rls. am_Dedup a \<noteq> dedup_key rl (me_kind m) (me_key m)" for e1 rls
    using that by (induction rls arbitrary: e1) (simp_all add: eval_rule_keeps)
  then show ?thesis using assms by (simp add: evaluate_def)
qed

lemma other_rule_key:
  assumes "CHR '':'' \<notin> set i" "CHR '':'' \<notin> set (ru_ID rl)" "ru_ID rl \<noteq> i" "d = i @ '':'' @ t"
  shows "d \<noteq> dedup_key rl kind key"
  using append_colon_inject[of "CHR '':''" i "ru_ID rl" t "kind @ '':'' @ key"] assms by (auto simp: dedup_key_def)

lemma unattended_keeps:
  assumes "unattended parse i n e0 e" "a \<in> set (en_alarms e0)" "am_ID a = n" "am_Dedup a = i @ '':'' @ t" "CHR '':'' \<notin> set i"
    and "\<forall>rl\<in>set (en_rules e0). CHR '':'' \<notin> set (ru_ID rl) \<and> ru_ID rl \<noteq> i"
  shows "a \<in> set (en_alarms e) \<and> (\<forall>rl\<in>set (en_rules e). CHR '':'' \<notin> set (ru_ID rl) \<and> ru_ID rl \<noteq> i)"
  using assms(1)
proof induction
  case (measured e fb fa now m)
  then show ?case using other_rule_key[OF assms(5) _ _ assms(4)] by (auto intro!: evaluate_keeps)
next
  case (refreshed e rules)
  let ?e = "refreshRules parse (Inr (rule_query rules)) e"
  have "CHR '':'' \<notin> set (ru_ID rl) \<and> ru_ID rl \<noteq> i" if rl: "rl \<in> set (en_rules ?e)" for rl
  proof -
    obtain s where "s \<in> set rules" "ru_ID rl = ru_ID (str_rule s)" by (rule refreshed_id[OF rl])
    then show ?thesis using refreshed.hyps(2) by (simp add: lacks_rule_def)
  qed
  then show ?case using refreshed by (simp add: refreshed_alarms)
next
  case (unreadable e err)
  then show ?case by (simp add: refreshRules_def)
next
  case (trapped e target encode fa up t)
  then show ?case by (auto simp: handleTrap_def Let_def)
next
  case (cleared e j)
  then show ?case using assms(3) by (auto simp: clear_by_id_def image_iff intro: bexI[of _ a])
qed (use assms in simp)

text \<open>C35: Deleting a rule leaves its alarms in the table, open ones open and without a rule, and leaves the rule in the engine
  until the next successful refresh. From that refresh on the engine closes none of its alarms: one that is still open then,
  whether it was open at the deletion or opened since, stays as it is through all metrics, refreshes, traps and clears of
  other alarms.\<close>

theorem orphaned_alarm_stays:
  assumes "handleDeleteAlarmRule env param db = (Answered 204 (), db')" "ar_parse env param = Some i"
    and "\<forall>s\<in>set (rd_rules db). CHR '':'' \<notin> set (ru_ID (str_rule s))" "CHR '':'' \<notin> set i"
    and "unattended parse i (am_ID a) (rd_engine db') e1"
    and "a \<in> set (en_alarms e1)" "am_Dedup a = i @ '':'' @ t" "\<not> am_Cleared a"
    and "unattended parse i (am_ID a) (refreshRules parse (Inr (rule_query (rd_rules db'))) e1) e"
  shows "(\<forall>b\<in>set (en_alarms (rd_engine db)). am_Rule b = Some i \<longrightarrow> b\<lparr>am_Rule := None\<rparr> \<in> set (en_alarms (rd_engine db'))) \<and>
    en_rules (rd_engine db') = en_rules (rd_engine db) \<and>
    a \<in> set (en_alarms e) \<and> is_open (am_Dedup a) a"
proof -
  let ?e0 = "refreshRules parse (Inr (rule_query (rd_rules db'))) e1"
  have db': "rd_rules db' = filter (\<lambda>s. ru_ID (str_rule s) \<noteq> i) (rd_rules db)"
      "rd_engine db' = (rd_engine db)\<lparr>en_alarms := map (forget_rule i) (en_alarms (rd_engine db))\<rparr>"
    using assms(1,2) by (auto simp: handleDeleteAlarmRule_def split: if_splits)
  have "b\<lparr>am_Rule := None\<rparr> \<in> set (en_alarms (rd_engine db'))" if "b \<in> set (en_alarms (rd_engine db))" "am_Rule b = Some i" for b
  proof -
    have "forget_rule i b = b\<lparr>am_Rule := None\<rparr>" using that(2) by (simp add: forget_rule_def)
    then have "b\<lparr>am_Rule := None\<rparr> \<in> forget_rule i ` set (en_alarms (rd_engine db))" using that(1) by (metis imageI)
    then show ?thesis by (simp add: db')
  qed
  moreover have "CHR '':'' \<notin> set (ru_ID rl) \<and> ru_ID rl \<noteq> i" if rl: "rl \<in> set (en_rules ?e0)" for rl
  proof -
    obtain s where "s \<in> set (rd_rules db')" "ru_ID rl = ru_ID (str_rule s)"
      by (rule refreshed_id[OF rl])
    then show ?thesis using assms(3) by (auto simp: db')
  qed
  then have in_force: "\<forall>rl\<in>set (en_rules ?e0). CHR '':'' \<notin> set (ru_ID rl) \<and> ru_ID rl \<noteq> i" by blast
  have "a \<in> set (en_alarms ?e0)" using assms(6) by (simp add: refreshed_alarms)
  then have "a \<in> set (en_alarms e)"
    using unattended_keeps[OF assms(9) _ refl assms(7,4) in_force] by blast
  ultimately show ?thesis using assms(8) by (simp add: is_open_def db')
qed

subsection \<open>A rule deleted while it alarms\<close>

definition demo_stored :: stored_rule where
  "demo_stored = \<lparr>str_rule = \<lparr>ru_ID = ''r1'', ru_SiteID = None, ru_Name = ''cpu'', ru_Severity = ''warning'',
     ru_Expression = ''device.cpu_pct > 90'', ru_ChannelIDs = [], ru_ForSeconds = 0, ru_ClearForSeconds = 0, ru_TargetKind = ''agent''\<rparr>,
     str_enabled = True\<rparr>"

definition demo_open_alarm :: alarm where
  "demo_open_alarm = \<lparr>am_ID = 1, am_Rule = Some ''r1'', am_Site = ''s1'', am_Kind = ''agent'', am_Target = ''a1'',
     am_Severity = ''warning'', am_Title = ''cpu'', am_Body = None, am_Dedup = ''r1:agent:a1'', am_Value = ''95'',
     am_Cleared = False, am_Auto = False\<rparr>"

definition demo_alarming :: rules_db where
  "demo_alarming = \<lparr>rd_rules = [demo_stored], rd_channels = [],
     rd_engine = \<lparr>en_rules = [str_rule demo_stored], en_pending = Map.empty, en_alarms = [demo_open_alarm], en_next = 2,
       en_effects = []\<rparr>\<rparr>"

definition demo_rules_env :: rules_env where
  "demo_rules_env = \<lparr>ar_parse = Some, ar_new_id = ''r2'', ar_reads = demo_rd, ar_json_ok = (\<lambda>_. True), ar_fault = (\<lambda>_. False)\<rparr>"

text \<open>Before the refresh the rule is still evaluated, and a false verdict would close the alarm; after it none does.\<close>

theorem orphaned_alarm_stays_witness:
  "let db' = snd (handleDeleteAlarmRule demo_rules_env ''r1'' demo_alarming);
       e1 = evaluate None no_faults 50 (cpu_metric 95) (rd_engine db');
       e0 = refreshRules Some (Inr (rule_query (rd_rules db'))) e1
   in demo_open_alarm\<lparr>am_Rule := None\<rparr> \<in> set (en_alarms (evaluate None no_faults 60 (cpu_metric 20) e0)) \<and>
      demo_open_alarm\<lparr>am_Rule := None\<rparr> \<notin> set (en_alarms (evaluate None no_faults 60 (cpu_metric 20) e1))"
proof -
  define db' where "db' = snd (handleDeleteAlarmRule demo_rules_env ''r1'' demo_alarming)"
  define e1 where "e1 = evaluate None no_faults 50 (cpu_metric 95) (rd_engine db')"
  let ?a = "demo_open_alarm\<lparr>am_Rule := None\<rparr>"
  have deleted: "handleDeleteAlarmRule demo_rules_env ''r1'' demo_alarming = (Answered 204 (), db')"
    by (simp add: db'_def handleDeleteAlarmRule_def demo_rules_env_def demo_alarming_def demo_stored_def)
  have alarms: "set (en_alarms e1) = {?a} \<and> ?a \<notin> set (en_alarms (evaluate None no_faults 60 (cpu_metric 20) e1))"
    unfolding e1_def db'_def by code_simp
  then have here: "?a \<in> set (en_alarms e1)" by blast
  have run: "unattended Some ''r1'' (am_ID ?a) (rd_engine db') e1" unfolding e1_def by (intro unattended.measured unattended.idle)
  have parsed: "ar_parse demo_rules_env ''r1'' = Some ''r1''" by (simp add: demo_rules_env_def)
  have ids: "\<forall>s\<in>set (rd_rules demo_alarming). CHR '':'' \<notin> set (ru_ID (str_rule s))" "CHR '':'' \<notin> set ''r1''"
    by (simp_all add: demo_alarming_def demo_stored_def)
  have a: "am_Dedup ?a = ''r1'' @ '':'' @ ''agent:a1''" "\<not> am_Cleared ?a" by (simp_all add: demo_open_alarm_def)
  have "?a \<in> set (en_alarms (evaluate None no_faults 60 (cpu_metric 20)
      (refreshRules Some (Inr (rule_query (rd_rules db'))) e1)))"
    using orphaned_alarm_stays[OF deleted parsed ids run here a unattended.measured[OF unattended.idle]] by blast
  then show ?thesis using alarms by (simp add: Let_def db'_def[symmetric] e1_def[symmetric])
qed

end
