(* ===== verification/Site_Vault.thy ===== *)
theory Site_Vault
  imports Sql_Update Envelope Enrollment
begin

text \<open>
  The credentials of a site: operators create, change and delete them (\<open>internal/api/handlers_site_discovery.go\<close>), the
  collectors of the site fetch them in the clear (\<open>handlers_collector_discovery.go\<close>). A row is sealed with its own id as
  associated data. \<open>sv_fault\<close> tells which statement is refused, for a site that does not exist too; \<open>cq_rows\<close> is what a
  query yields of the rows that match, in its order.
\<close>

subsection \<open>The table\<close>

record credential_row =
  sc_ID :: uuid
  sc_SiteID :: uuid
  sc_Kind :: string
  sc_Name :: string
  sc_Enc :: "byte list"

record vault_env =
  sv_parse :: "string \<Rightarrow> uuid option"
  sv_new_id :: uuid
  sv_reads :: "nat \<Rightarrow> nat \<Rightarrow> string + byte list"
  sv_fault :: "string \<Rightarrow> bool"

definition credential_kinds :: "string set" where
  "credential_kinds = {''snmp'', ''ssh'', ''telnet'', ''vmware'', ''wmi'', ''cli'', ''generic'', ''winagent'', ''meraki''}"

definition cred_key :: "credential_row \<Rightarrow> uuid \<times> string \<times> string" where
  "cred_key c = (sc_SiteID c, sc_Kind c, sc_Name c)"

definition cred_ad :: "uuid \<Rightarrow> byte list" where
  "cred_ad i = bytes_of (''credential:'' @ i)"

subsection \<open>Requests of operators\<close>

record createSiteCredReq =
  csr_Kind :: string
  csr_Name :: string
  csr_Secret :: string

definition handleCreateSiteCredential ::
    "blockfun \<Rightarrow> byte list \<Rightarrow> vault_env \<Rightarrow> string \<Rightarrow> createSiteCredReq option \<Rightarrow> credential_row list \<Rightarrow>
     uuid reply \<times> credential_row list" where
  "handleCreateSiteCredential aes master env param body rows =
     (case sv_parse env param of
        None \<Rightarrow> (Failed 400 ''site id must be UUID'', rows)
      | Some sid \<Rightarrow>
          (case body of
             None \<Rightarrow> (Failed 400 ''kind, name, secret required'', rows)
           | Some req \<Rightarrow>
               if csr_Kind req = [] \<or> csr_Name req = [] \<or> csr_Secret req = []
               then (Failed 400 ''kind, name, secret required'', rows)
               else let i = sv_new_id env in
                 case Seal aes (sv_reads env) master (bytes_of (csr_Secret req)) (cred_ad i) of
                   Inl _ \<Rightarrow> (Failed 500 ''seal failed'', rows)
                 | Inr sealed \<Rightarrow>
                     let r = \<lparr>sc_ID = i, sc_SiteID = sid, sc_Kind = csr_Kind req, sc_Name = csr_Name req, sc_Enc = sealed\<rparr>
                     in if sv_fault env ''insert credential'' \<or> sc_Kind r \<notin> credential_kinds \<or>
                           list_ex (\<lambda>c. sc_ID c = i \<or> cred_key c = cred_key r) rows
                        then (Failed 400 ''insert failed (duplicate kind/name?)'', rows)
                        else (Answered 201 i, r # rows)))"

record patchSiteCredReq =
  psr_Name :: "string option"
  psr_Secret :: "string option"

text \<open>An empty secret sets nothing.\<close>

definition sealed_change ::
    "blockfun \<Rightarrow> byte list \<Rightarrow> vault_env \<Rightarrow> uuid \<Rightarrow> patchSiteCredReq \<Rightarrow> crypto_error + byte list option" where
  "sealed_change aes master env i req =
     (case psr_Secret req of
        None \<Rightarrow> Inr None
      | Some s \<Rightarrow> if s = [] then Inr None
                  else (case Seal aes (sv_reads env) master (bytes_of s) (cred_ad i) of Inl e \<Rightarrow> Inl e | Inr b \<Rightarrow> Inr (Some b)))"

definition change_cred :: "string option \<Rightarrow> byte list option \<Rightarrow> credential_row \<Rightarrow> credential_row" where
  "change_cred name sealed c =
     c\<lparr>sc_Name := (case name of None \<Rightarrow> sc_Name c | Some n \<Rightarrow> n), sc_Enc := (case sealed of None \<Rightarrow> sc_Enc c | Some b \<Rightarrow> b)\<rparr>"

definition handlePatchSiteCredential ::
    "blockfun \<Rightarrow> byte list \<Rightarrow> vault_env \<Rightarrow> string \<Rightarrow> string \<Rightarrow> patchSiteCredReq option \<Rightarrow> credential_row list \<Rightarrow>
     unit reply \<times> credential_row list" where
  "handlePatchSiteCredential aes master env site_param param body rows =
     (case sv_parse env site_param of
        None \<Rightarrow> (Failed 400 ''site id must be UUID'', rows)
      | Some sid \<Rightarrow>
     (case sv_parse env param of
        None \<Rightarrow> (Failed 400 ''credential id must be UUID'', rows)
      | Some i \<Rightarrow>
     (case body of
        None \<Rightarrow> (Failed 400 ''invalid JSON'', rows)
      | Some req \<Rightarrow>
          if psr_Name req = Some [] then (Failed 400 ''name cannot be empty'', rows)
          else (case sealed_change aes master env i req of
             Inl _ \<Rightarrow> (Failed 500 ''seal failed'', rows)
           | Inr sealed \<Rightarrow>
               let hit = (\<lambda>c. sc_ID c = i \<and> sc_SiteID c = sid); f = change_cred (psr_Name req) sealed in
               if psr_Name req = None \<and> sealed = None then (Failed 400 ''no fields to update'', rows)
               else if sv_fault env ''update credential'' \<or>
                       (\<exists>c\<in>set rows. hit c \<and> (\<exists>d\<in>set rows. sc_ID d \<noteq> i \<and> cred_key d = cred_key (f c)))
               then (Failed 400 ''update failed'', rows)
               else if \<not> list_ex hit rows then (Failed 404 ''credential not found'', rows)
               else (Answered 204 (), map (\<lambda>c. if hit c then f c else c) rows)))))"

definition handleDeleteSiteCredential ::
    "vault_env \<Rightarrow> string \<Rightarrow> string \<Rightarrow> credential_row list \<Rightarrow> unit reply \<times> credential_row list" where
  "handleDeleteSiteCredential env site_param param rows =
     (case sv_parse env site_param of
        None \<Rightarrow> (Failed 400 ''site id must be UUID'', rows)
      | Some sid \<Rightarrow>
     (case sv_parse env param of
        None \<Rightarrow> (Failed 400 ''credential id must be UUID'', rows)
      | Some i \<Rightarrow>
          let hit = (\<lambda>c. sc_ID c = i \<and> sc_SiteID c = sid) in
          if sv_fault env ''delete credential'' then (Failed 500 ''delete failed'', rows)
          else if \<not> list_ex hit rows then (Failed 404 ''credential not found'', rows)
          else (Answered 204 (), filter (\<lambda>c. \<not> hit c) rows)))"

subsection \<open>The request of a collector\<close>

record collector_query =
  cq_fault :: "string \<Rightarrow> bool"
  cq_rows :: "credential_row list \<Rightarrow> credential_row list"

type_synonym delivered_cred = "uuid \<times> string \<times> string \<times> string"

definition deliver :: "blockfun \<Rightarrow> byte list \<Rightarrow> credential_row \<Rightarrow> delivered_cred option" where
  "deliver aes master r =
     (case Open aes master (sc_Enc r) (cred_ad (sc_ID r)) of
        Inl _ \<Rightarrow> None | Inr plain \<Rightarrow> Some (sc_ID r, sc_Kind r, sc_Name r, string_of plain))"

definition handleCollectorSiteCredentials ::
    "blockfun \<Rightarrow> byte list \<Rightarrow> collector_query \<Rightarrow> collector_row list \<Rightarrow> credential_row list \<Rightarrow> uuid \<Rightarrow>
     delivered_cred list reply" where
  "handleCollectorSiteCredentials aes master q cs rows cid =
     (if cq_fault q ''lookup collector'' then Failed 500 ''lookup failed''
      else case find (\<lambda>c. co_ID c = cid \<and> co_Active c) cs of
        None \<Rightarrow> Failed 404 ''collector not found''
      | Some c \<Rightarrow>
          if cq_fault q ''select credentials'' then Failed 500 ''query failed''
          else Answered 200 (List.map_filter (deliver aes master) (cq_rows q (filter (\<lambda>r. sc_SiteID r = co_SiteID c) rows))))"

subsection \<open>What the vault promises\<close>

text \<open>Requests of operators in any order, each with its own environment; the run keeps the ones that were answered.\<close>

datatype vault_op =
    CreateCred vault_env string "createSiteCredReq option"
  | PatchCred vault_env string string "patchSiteCredReq option"
  | DeleteCred vault_env string string

definition answered :: "'a reply \<Rightarrow> bool" where
  "answered r = (case r of Failed _ _ \<Rightarrow> False | Answered _ _ \<Rightarrow> True)"

fun vault_call :: "blockfun \<Rightarrow> byte list \<Rightarrow> vault_op \<Rightarrow> credential_row list \<Rightarrow> bool \<times> credential_row list" where
  "vault_call aes master (CreateCred env p b) rows = apfst answered (handleCreateSiteCredential aes master env p b rows)"
| "vault_call aes master (PatchCred env p q b) rows = apfst answered (handlePatchSiteCredential aes master env p q b rows)"
| "vault_call aes master (DeleteCred env p q) rows = apfst answered (handleDeleteSiteCredential env p q rows)"

fun vault_run :: "blockfun \<Rightarrow> byte list \<Rightarrow> vault_op list \<Rightarrow> credential_row list \<Rightarrow> vault_op list \<times> credential_row list" where
  "vault_run aes master [] rows = ([], rows)"
| "vault_run aes master (op # ops) rows =
     (case vault_call aes master op rows of (ok, rows') \<Rightarrow>
        apfst (\<lambda>kept. if ok then op # kept else kept) (vault_run aes master ops rows'))"

text \<open>The vault without cryptography: identity, site, kind, name, secret.\<close>

type_synonym vault_entry = "uuid \<times> uuid \<times> string \<times> string \<times> string"

fun vault_spec :: "vault_op \<Rightarrow> vault_entry list \<Rightarrow> vault_entry list" where
  "vault_spec (CreateCred env p b) es =
     (sv_new_id env, the (sv_parse env p), csr_Kind (the b), csr_Name (the b), csr_Secret (the b)) # es"
| "vault_spec (PatchCred env p q b) es =
     map (\<lambda>(i, s, k, n, x). if sv_parse env q = Some i \<and> sv_parse env p = Some s
            then (i, s, k, case psr_Name (the b) of None \<Rightarrow> n | Some m \<Rightarrow> m,
                  case psr_Secret (the b) of None \<Rightarrow> x | Some y \<Rightarrow> if y = [] then x else y)
            else (i, s, k, n, x)) es"
| "vault_spec (DeleteCred env p q) es =
     filter (\<lambda>(i, s, k, n, x). \<not> (sv_parse env q = Some i \<and> sv_parse env p = Some s)) es"

fun op_env :: "vault_op \<Rightarrow> vault_env" where
  "op_env (CreateCred env p b) = env"
| "op_env (PatchCred env p q b) = env"
| "op_env (DeleteCred env p q) = env"

text \<open>A row stands for an entry when its secret opens under its id.\<close>

fun stands_for :: "blockfun \<Rightarrow> byte list \<Rightarrow> credential_row \<Rightarrow> vault_entry \<Rightarrow> bool" where
  "stands_for aes master r (i, s, k, n, x) \<longleftrightarrow>
     sc_ID r = i \<and> sc_SiteID r = s \<and> sc_Kind r = k \<and> sc_Name r = n \<and> Open aes master (sc_Enc r) (cred_ad i) = Inr (bytes_of x)"

lemma Seal_opens:
  assumes "reads_ok rd" "Seal aes rd master pt ad = Inr blob"
  shows "Open aes master blob ad = Inr pt"
proof -
  obtain dk wn dn where r: "rd 0 32 = Inr dk" "rd 1 12 = Inr wn" "rd 2 12 = Inr dn"
      and b: "blob = sealed_with aes master dk wn dn pt ad"
    using assms(2) unfolding Seal_shape[OF assms(1)] by blast
  have "length dk = 32" "length wn = 12" "length dn = 12" using r assms(1) unfolding reads_ok_def by blast+
  then show ?thesis unfolding b by (rule Open_sealed_with(1))
qed

lemma create_refines:
  assumes "handleCreateSiteCredential aes master env p b rows = (rep, rows')" "reads_ok (sv_reads env)"
    and "list_all2 (stands_for aes master) rows es"
  shows "if answered rep then list_all2 (stands_for aes master) rows' (vault_spec (CreateCred env p b) es) else rows' = rows"
  using assms
  by (auto simp: handleCreateSiteCredential_def Let_def answered_def dest: Seal_opens split: option.splits sum.splits if_splits)

lemma delete_refines:
  assumes "handleDeleteSiteCredential env p q rows = (rep, rows')" "list_all2 (stands_for aes master) rows es"
  shows "if answered rep then list_all2 (stands_for aes master) rows' (vault_spec (DeleteCred env p q) es) else rows' = rows"
proof (cases "answered rep")
  case True
  then obtain sid i where s: "sv_parse env p = Some sid" "sv_parse env q = Some i"
      "rows' = filter (\<lambda>c. \<not> (sc_ID c = i \<and> sc_SiteID c = sid)) rows"
    using assms(1) by (auto simp: handleDeleteSiteCredential_def Let_def answered_def split: option.splits if_splits)
  have "list_all2 (stands_for aes master) (filter (\<lambda>c. \<not> (sc_ID c = i \<and> sc_SiteID c = sid)) rows)
      (filter (\<lambda>(j, s, k, n, x). \<not> (Some i = Some j \<and> Some sid = Some s)) es)"
    using assms(2) by (induction rule: list_all2_induct) auto
  then show ?thesis using True s by simp
next
  case False
  then show ?thesis
    using assms(1) by (auto simp: handleDeleteSiteCredential_def Let_def answered_def split: option.splits if_splits)
qed

lemma change_stands_for:
  assumes "sealed_change aes master env i req = Inr sealed" "reads_ok (sv_reads env)" "stands_for aes master r (i, s, k, n, x)"
  shows "stands_for aes master (change_cred (psr_Name req) sealed r)
    (i, s, k, case psr_Name req of None \<Rightarrow> n | Some m \<Rightarrow> m, case psr_Secret req of None \<Rightarrow> x | Some y \<Rightarrow> if y = [] then x else y)"
  using assms by (auto simp: sealed_change_def change_cred_def dest: Seal_opens split: option.splits if_splits sum.splits)

lemma patch_refines:
  assumes "handlePatchSiteCredential aes master env p q b rows = (rep, rows')" "reads_ok (sv_reads env)"
    and "list_all2 (stands_for aes master) rows es"
  shows "if answered rep then list_all2 (stands_for aes master) rows' (vault_spec (PatchCred env p q b) es) else rows' = rows"
proof (cases "answered rep")
  case True
  then obtain sid i req sealed where s: "sv_parse env p = Some sid" "sv_parse env q = Some i" "b = Some req"
      "sealed_change aes master env i req = Inr sealed"
      "rows' = map (\<lambda>c. if sc_ID c = i \<and> sc_SiteID c = sid then change_cred (psr_Name req) sealed c else c) rows"
    using assms(1) by (auto simp: handlePatchSiteCredential_def Let_def answered_def split: option.splits if_splits sum.splits)
  have "list_all2 (stands_for aes master)
      (map (\<lambda>c. if sc_ID c = i \<and> sc_SiteID c = sid then change_cred (psr_Name req) sealed c else c) rows)
      (map (\<lambda>(j, s, k, n, x). if Some i = Some j \<and> Some sid = Some s
            then (j, s, k, case psr_Name req of None \<Rightarrow> n | Some m \<Rightarrow> m,
                  case psr_Secret req of None \<Rightarrow> x | Some y \<Rightarrow> if y = [] then x else y)
            else (j, s, k, n, x)) es)"
    using assms(3)
  proof (induction rule: list_all2_induct)
    case (Cons r rs e es)
    obtain j t k n x where e: "e = (j, t, k, n, x)" by (cases e)
    show ?case using Cons e change_stands_for[OF s(4) assms(2), of r t k n x] by auto
  qed simp
  then show ?thesis using True unfolding vault_spec.simps s option.sel by simp
next
  case False
  then show ?thesis
    using assms(1) by (auto simp: handlePatchSiteCredential_def Let_def answered_def split: option.splits if_splits sum.splits)
qed

lemma vault_run_refines:
  assumes "\<forall>op\<in>set ops. reads_ok (sv_reads (op_env op))" "vault_run aes master ops rows = (kept, rows')"
    and "list_all2 (stands_for aes master) rows es"
  shows "list_all2 (stands_for aes master) rows' (fold vault_spec kept es)"
  using assms
proof (induction ops arbitrary: rows es kept)
  case (Cons op ops)
  obtain ok rows1 where c: "vault_call aes master op rows = (ok, rows1)" by (cases "vault_call aes master op rows")
  obtain kept1 where d: "vault_run aes master ops rows1 = (kept1, rows')" "kept = (if ok then op # kept1 else kept1)"
    using Cons.prems(2) c by (cases "vault_run aes master ops rows1") auto
  have ok_env: "reads_ok (sv_reads (op_env op))" using Cons.prems(1) by simp
  have "list_all2 (stands_for aes master) rows1 (if ok then vault_spec op es else es)"
  proof (cases op)
    case (CreateCred env p b)
    then show ?thesis
      using c create_refines[of aes master env p b rows _ rows1 es] ok_env Cons.prems(3)
      by (cases "handleCreateSiteCredential aes master env p b rows") (auto split: if_splits)
  next
    case (PatchCred env p q b)
    then show ?thesis
      using c patch_refines[of aes master env p q b rows _ rows1 es] ok_env Cons.prems(3)
      by (cases "handlePatchSiteCredential aes master env p q b rows") (auto split: if_splits)
  next
    case (DeleteCred env p q)
    then show ?thesis
      using c delete_refines[of env p q rows _ rows1 aes master es] Cons.prems(3)
      by (cases "handleDeleteSiteCredential env p q rows") (auto split: if_splits)
  qed
  then show ?case using Cons.IH[OF _ d(1)] Cons.prems(1) d(2) by (auto split: if_splits)
qed simp

fun entry_for :: "uuid \<Rightarrow> vault_entry \<Rightarrow> delivered_cred option" where
  "entry_for site (i, s, k, n, x) = (if s = site then Some (i, k, n, x) else None)"

lemma deliver_stands_for: "stands_for aes master r (i, s, k, n, x) \<Longrightarrow> deliver aes master r = Some (i, k, n, x)"
  by (auto simp: deliver_def)

lemma delivered_entries:
  assumes "list_all2 (stands_for aes master) rows es"
  shows "List.map_filter (deliver aes master) (filter (\<lambda>r. sc_SiteID r = site) rows) = List.map_filter (entry_for site) es"
  using assms
proof (induction rule: list_all2_induct)
  case (Cons r rs e es)
  obtain i s k n x where e: "e = (i, s, k, n, x)" by (cases e)
  show ?case using Cons e deliver_stands_for[of aes master r i s k n x] by (auto simp: List.map_filter_simps)
qed (simp add: List.map_filter_simps)

lemma mset_map_filter: "mset xs = mset ys \<Longrightarrow> mset (List.map_filter f xs) = mset (List.map_filter f ys)"
  by (simp add: List.map_filter_def)

text \<open>C36: Whatever operators create, change and delete, with any failures, an active collector receives exactly the
  credentials of its site that the answered requests leave, each once, with the secret last set for it.\<close>

theorem vault_delivers:
  assumes "\<forall>op\<in>set ops. reads_ok (sv_reads (op_env op))" "vault_run aes master ops [] = (kept, rows)"
    and "find (\<lambda>c. co_ID c = cid \<and> co_Active c) cs = Some c" "\<not> cq_fault q ''lookup collector''"
    and "\<not> cq_fault q ''select credentials''" "\<And>rs. mset (cq_rows q rs) = mset rs"
  shows "\<exists>out. handleCollectorSiteCredentials aes master q cs rows cid = Answered 200 out \<and>
    mset out = mset (List.map_filter (entry_for (co_SiteID c)) (fold vault_spec kept []))"
proof -
  have "list_all2 (stands_for aes master) rows (fold vault_spec kept [])"
    using vault_run_refines[OF assms(1,2)] by simp
  then have "List.map_filter (deliver aes master) (filter (\<lambda>r. sc_SiteID r = co_SiteID c) rows) =
      List.map_filter (entry_for (co_SiteID c)) (fold vault_spec kept [])"
    by (rule delivered_entries)
  then have "mset (List.map_filter (deliver aes master) (cq_rows q (filter (\<lambda>r. sc_SiteID r = co_SiteID c) rows))) =
      mset (List.map_filter (entry_for (co_SiteID c)) (fold vault_spec kept []))"
    using mset_map_filter[OF assms(6)] by metis
  then show ?thesis using assms(3-5) by (simp add: handleCollectorSiteCredentials_def)
qed

definition demo_vault_env :: vault_env where
  "demo_vault_env = \<lparr>sv_parse = Some, sv_new_id = ''v1'', sv_reads = demo_rd, sv_fault = (\<lambda>_. False)\<rparr>"

theorem vault_delivers_witness:
  "let aes = (\<lambda>k w. w XOR block_of k); key = replicate 32 7;
       ops = [CreateCred demo_vault_env ''s1'' (Some \<lparr>csr_Kind = ''snmp'', csr_Name = ''core'', csr_Secret = ''x''\<rparr>)];
       c = \<lparr>co_ID = ''c1'', co_SiteID = ''s1'', co_Name = [], co_Hostname = [], co_Fingerprint = [], co_Version = [],
            co_LastSeen = None, co_Active = True\<rparr>
   in \<exists>out. handleCollectorSiteCredentials aes key \<lparr>cq_fault = (\<lambda>_. False), cq_rows = rev\<rparr> [c]
        (snd (vault_run aes key ops [])) ''c1'' = Answered 200 out \<and> mset out = {#(''v1'', ''snmp'', ''core'', ''x'')#}"
proof -
  define aes :: blockfun where "aes = (\<lambda>k w. w XOR block_of k)"
  define op where "op = CreateCred demo_vault_env ''s1'' (Some \<lparr>csr_Kind = ''snmp'', csr_Name = ''core'', csr_Secret = ''x''\<rparr>)"
  define c where "c = \<lparr>co_ID = ''c1'', co_SiteID = ''s1'', co_Name = [], co_Hostname = [], co_Fingerprint = [], co_Version = [],
      co_LastSeen = None, co_Active = True\<rparr>"
  obtain sealed where "Seal aes demo_rd (replicate 32 7) (bytes_of ''x'') (cred_ad ''v1'') = Inr sealed"
    unfolding Seal_shape[OF demo_reads] by (simp add: demo_rd_def)
  then have "fst (vault_run aes (replicate 32 7) [op] []) = [op]"
    by (simp add: op_def demo_vault_env_def handleCreateSiteCredential_def credential_kinds_def answered_def Let_def)
  then have run: "vault_run aes (replicate 32 7) [op] [] = ([op], snd (vault_run aes (replicate 32 7) [op] []))"
    by (metis prod.collapse)
  have "\<exists>out. handleCollectorSiteCredentials aes (replicate 32 7) \<lparr>cq_fault = (\<lambda>_. False), cq_rows = rev\<rparr> [c]
      (snd (vault_run aes (replicate 32 7) [op] [])) ''c1'' = Answered 200 out \<and>
      mset out = mset (List.map_filter (entry_for (co_SiteID c)) (fold vault_spec [op] []))"
    by (rule vault_delivers[OF _ run]) (simp_all add: op_def demo_vault_env_def demo_reads c_def)
  then show ?thesis
    by (simp add: Let_def aes_def op_def c_def demo_vault_env_def List.map_filter_simps)
qed

end
