(* ===== verification/Site_Discovery.thy ===== *)
theory Site_Discovery
  imports Passive_Capture Site_Vault Go_Any
begin

text \<open>
  The discovery of a site: its settings (\<open>internal/api/handlers_site_discovery.go\<close>), the jobs and the passive settings its
  collectors poll (\<open>handlers_collectors.go\<close>) and the devices they report (\<open>handlers_collector_discovery.go\<close>).
  \<open>jsonb\<close> is the text PostgreSQL keeps of a JSON text.
\<close>

subsection \<open>Settings\<close>

record discovery_settings =
  ds_Subnets :: string
  ds_ScanInterval :: int
  ds_SubnetsPerPeriod :: int
  ds_OfflineDeleteDays :: int
  ds_UnidentifiedDeleteDays :: int
  ds_BackupInterval :: int
  ds_IcmpTimeoutMs :: int
  ds_CliFeatures :: string
  ds_FilterRules :: string
  ds_LastDispatched :: "int option"
  ds_PassiveEnabled :: bool
  ds_PassiveInterface :: string
  ds_CaptureSeconds :: int
  ds_RetireAfter :: int
  ds_RunInterval :: int

record putDiscoverySettingsReq =
  dsr_Subnets :: string
  dsr_ScanInterval :: "int option"
  dsr_SubnetsPerPeriod :: "int option"
  dsr_OfflineDeleteDays :: "int option"
  dsr_UnidentifiedDeleteDays :: "int option"
  dsr_BackupInterval :: "int option"
  dsr_IcmpTimeoutMs :: "int option"
  dsr_CliFeatures :: string
  dsr_FilterRules :: string

definition no_filters :: string where
  "no_filters = [CHR ''{'', CHR 0x22] @ ''include'' @ [CHR 0x22] @ '':[],'' @ [CHR 0x22] @ ''exclude'' @ [CHR 0x22] @ '':[]}''"

definition int_or :: "int \<Rightarrow> int option \<Rightarrow> int" where
  "int_or d x = (case x of None \<Rightarrow> d | Some n \<Rightarrow> n)"

definition text_or :: "string \<Rightarrow> string \<Rightarrow> string" where
  "text_or d s = (if s = [] then d else s)"

text \<open>The row of an INSERT: the columns it does not name have the defaults of the table.\<close>

definition inserted_settings :: "(string \<Rightarrow> string) \<Rightarrow> putDiscoverySettingsReq \<Rightarrow> discovery_settings" where
  "inserted_settings jsonb req =
     \<lparr>ds_Subnets = jsonb (text_or ''[]'' (dsr_Subnets req)), ds_ScanInterval = int_or 3600 (dsr_ScanInterval req),
      ds_SubnetsPerPeriod = int_or 4 (dsr_SubnetsPerPeriod req), ds_OfflineDeleteDays = int_or 30 (dsr_OfflineDeleteDays req),
      ds_UnidentifiedDeleteDays = int_or 7 (dsr_UnidentifiedDeleteDays req), ds_BackupInterval = int_or 86400 (dsr_BackupInterval req),
      ds_IcmpTimeoutMs = int_or 2000 (dsr_IcmpTimeoutMs req), ds_CliFeatures = jsonb (text_or ''{}'' (dsr_CliFeatures req)),
      ds_FilterRules = jsonb (text_or no_filters (dsr_FilterRules req)), ds_LastDispatched = None, ds_PassiveEnabled = False,
      ds_PassiveInterface = [], ds_CaptureSeconds = 60, ds_RetireAfter = 3, ds_RunInterval = 21600\<rparr>"

text \<open>\<open>ON CONFLICT DO UPDATE\<close> leaves the other columns as they are.\<close>

definition replaced_settings :: "discovery_settings \<Rightarrow> discovery_settings \<Rightarrow> discovery_settings" where
  "replaced_settings new old =
     new\<lparr>ds_LastDispatched := ds_LastDispatched old, ds_PassiveEnabled := ds_PassiveEnabled old,
         ds_PassiveInterface := ds_PassiveInterface old, ds_CaptureSeconds := ds_CaptureSeconds old,
         ds_RetireAfter := ds_RetireAfter old, ds_RunInterval := ds_RunInterval old\<rparr>"

definition settings_out_of_bounds :: "discovery_settings \<Rightarrow> bool" where
  "settings_out_of_bounds s \<longleftrightarrow>
     ds_ScanInterval s < 60 \<or> ds_SubnetsPerPeriod s < 1 \<or> ds_OfflineDeleteDays s < 1 \<or> ds_UnidentifiedDeleteDays s < 1 \<or>
     ds_BackupInterval s < 300 \<or> ds_IcmpTimeoutMs s < 1"

text \<open>The columns are \<open>INTEGER\<close>.\<close>

definition settings_storable :: "discovery_settings \<Rightarrow> bool" where
  "settings_storable s \<longleftrightarrow>
     (\<forall>n\<in>{ds_ScanInterval s, ds_SubnetsPerPeriod s, ds_OfflineDeleteDays s, ds_UnidentifiedDeleteDays s, ds_BackupInterval s,
         ds_IcmpTimeoutMs s}. n < 2 ^ 31)"

record site_env =
  si_parse :: "string \<Rightarrow> uuid option"
  si_jsonb :: "string \<Rightarrow> string"
  si_fault :: "string \<Rightarrow> bool"
  si_now :: int
  si_db_now :: int

type_synonym site_settings = "uuid \<rightharpoonup> discovery_settings"

definition handlePutSiteDiscoverySettings ::
    "site_env \<Rightarrow> string \<Rightarrow> putDiscoverySettingsReq option \<Rightarrow> site_settings \<Rightarrow> unit reply \<times> site_settings" where
  "handlePutSiteDiscoverySettings env param body db =
     (case si_parse env param of
        None \<Rightarrow> (Failed 400 ''site id must be UUID'', db)
      | Some sid \<Rightarrow>
          (case body of
             None \<Rightarrow> (Failed 400 ''invalid JSON'', db)
           | Some req \<Rightarrow>
               let new = inserted_settings (si_jsonb env) req in
               if settings_out_of_bounds new then (Failed 400 ''invalid numeric bounds'', db)
               else if si_fault env ''upsert settings'' \<or> \<not> settings_storable new then (Failed 400 ''save failed'', db)
               else (Answered 204 (),
                     db(sid \<mapsto> (case db sid of None \<Rightarrow> new | Some old \<Rightarrow> replaced_settings new old)))))"

text \<open>The nine values of the answer; the defaults of a site without a row are texts of the program, not of the database.\<close>

definition shown_settings ::
    "discovery_settings \<Rightarrow> string \<times> int \<times> int \<times> int \<times> int \<times> int \<times> int \<times> string \<times> string" where
  "shown_settings s =
     (ds_Subnets s, ds_ScanInterval s, ds_SubnetsPerPeriod s, ds_OfflineDeleteDays s, ds_UnidentifiedDeleteDays s,
      ds_BackupInterval s, ds_IcmpTimeoutMs s, ds_CliFeatures s, ds_FilterRules s)"

definition handleGetSiteDiscoverySettings ::
    "site_env \<Rightarrow> string \<Rightarrow> site_settings \<Rightarrow>
     (string \<times> int \<times> int \<times> int \<times> int \<times> int \<times> int \<times> string \<times> string) reply" where
  "handleGetSiteDiscoverySettings env param db =
     (case si_parse env param of
        None \<Rightarrow> Failed 400 ''site id must be UUID''
      | Some sid \<Rightarrow>
          if si_fault env ''select settings'' then Failed 500 ''query failed''
          else (case db sid of
             None \<Rightarrow> Answered 200 (''[]'', 3600, 4, 30, 7, 86400, 2000, ''{}'', no_filters)
           | Some s \<Rightarrow> Answered 200 (shown_settings s)))"

lemma settings_read_back:
  assumes "handlePutSiteDiscoverySettings env param (Some req) db = (Answered 204 (), db')"
    and "si_parse env' param = si_parse env param" "\<not> si_fault env' ''select settings''"
  shows "handleGetSiteDiscoverySettings env' param db' =
    Answered 200 (shown_settings (inserted_settings (si_jsonb env) req))"
  using assms
  by (auto simp: handlePutSiteDiscoverySettings_def handleGetSiteDiscoverySettings_def Let_def replaced_settings_def
      shown_settings_def split: option.splits if_splits)

subsection \<open>Jobs\<close>

record collectorJob =
  jb_ID :: string
  jb_Kind :: string
  jb_Description :: string
  jb_Payload :: string

record delegated_row =
  de_ID :: uuid
  de_Name :: string
  de_Collector :: "uuid option"
  de_Active :: bool
  de_HasCreds :: bool

definition discovery_payload :: "discovery_settings \<Rightarrow> string" where
  "discovery_payload s =
     [CHR ''{'', CHR 0x22] @ ''subnets'' @ [CHR 0x22, CHR '':''] @ ds_Subnets s @ [CHR '','', CHR 0x22] @ ''icmpTimeoutMs'' @
     [CHR 0x22, CHR '':''] @ itoa (ds_IcmpTimeoutMs s) @ ''}''"

definition discovery_job :: "discovery_settings \<Rightarrow> collectorJob" where
  "discovery_job s = \<lparr>jb_ID = ''discovery'', jb_Kind = ''discovery_scan'', jb_Description = ''ICMP/TCP discovery sweep'',
     jb_Payload = discovery_payload s\<rparr>"

definition scan_interval :: "discovery_settings \<Rightarrow> int" where
  "scan_interval s = (let i = seconds (ds_ScanInterval s) in if i \<le> 0 then 5 * 60 * 1000000000 else i)"

definition discovery_due :: "int \<Rightarrow> discovery_settings \<Rightarrow> bool" where
  "discovery_due now s \<longleftrightarrow> ds_Subnets s \<notin> {[], ''[]'', ''null''} \<and>
     (case ds_LastDispatched s of None \<Rightarrow> True | Some d \<Rightarrow> scan_interval s \<le> time_sub now d)"

definition poll_jobs :: "(delegated_row list \<Rightarrow> delegated_row list) \<Rightarrow> uuid \<Rightarrow> delegated_row list \<Rightarrow> collectorJob list" where
  "poll_jobs order cid rows =
     map (\<lambda>r. \<lparr>jb_ID = de_ID r, jb_Kind = ''snmp_poll'', jb_Description = de_Name r, jb_Payload = []\<rparr>)
       (order (filter (\<lambda>r. de_Collector r = Some cid \<and> de_Active r \<and> de_HasCreds r) rows))"

text \<open>The two SELECTs of a poll and its answer, with the site whose time is still to be written; the UPDATE that follows is
  a statement of its own. \<open>order\<close> is the order of the rows by name. The discovery is left out when its settings cannot be
  read.\<close>

definition jobs_read ::
    "(delegated_row list \<Rightarrow> delegated_row list) \<Rightarrow> site_env \<Rightarrow> collector_row list \<Rightarrow> delegated_row list \<Rightarrow> uuid \<Rightarrow> site_settings \<Rightarrow>
     collectorJob list reply \<times> uuid option" where
  "jobs_read order env cs rows cid db =
     (if si_fault env ''select jobs'' then (Failed 500 ''jobs query failed'', None)
      else let polls = poll_jobs order cid rows
      in case (if si_fault env ''select settings'' then None else find (\<lambda>c. co_ID c = cid) cs) of
           None \<Rightarrow> (Answered 200 polls, None)
         | Some c \<Rightarrow>
             (case db (co_SiteID c) of
                None \<Rightarrow> (Answered 200 polls, None)
              | Some s \<Rightarrow>
                  if discovery_due (si_now env) s
                  then (Answered 200 (polls @ [discovery_job s]), Some (co_SiteID c))
                  else (Answered 200 polls, None)))"

text \<open>The UPDATE; a failed one is only logged.\<close>

definition record_dispatch :: "site_env \<Rightarrow> uuid \<Rightarrow> site_settings \<Rightarrow> site_settings" where
  "record_dispatch env site db =
     (if si_fault env ''update dispatched'' then db
      else case db site of None \<Rightarrow> db | Some s \<Rightarrow> db(site \<mapsto> s\<lparr>ds_LastDispatched := Some (si_db_now env)\<rparr>))"

text \<open>A poll that nothing comes between.\<close>

definition handleCollectorJobs ::
    "(delegated_row list \<Rightarrow> delegated_row list) \<Rightarrow> site_env \<Rightarrow> collector_row list \<Rightarrow> delegated_row list \<Rightarrow> uuid \<Rightarrow> site_settings \<Rightarrow>
     collectorJob list reply \<times> site_settings" where
  "handleCollectorJobs order env cs rows cid db =
     (case jobs_read order env cs rows cid db of
        (rep, None) \<Rightarrow> (rep, db)
      | (rep, Some site) \<Rightarrow> (rep, record_dispatch env site db))"

text \<open>Polls that overlap: \<open>JobRead\<close> is a poll up to its UPDATE, \<open>JobWrite\<close> the UPDATE of the \<open>k\<close>th poll that waits for its
  own, \<open>PutSettings\<close> a change of the settings. The log has the scans that were given out, with the settings in force, and the
  times that were written.\<close>

datatype site_event =
    JobRead "delegated_row list \<Rightarrow> delegated_row list" site_env "delegated_row list" uuid
  | JobWrite site_env nat
  | PutSettings site_env string "putDiscoverySettingsReq option"

datatype scan_log = ScanGiven uuid int discovery_settings | DispatchWritten uuid int

record site_run =
  sr_db :: site_settings
  sr_writes :: "uuid list"
  sr_log :: "scan_log list"

definition given_scan :: "collectorJob list reply \<Rightarrow> bool" where
  "given_scan r = (case r of Failed _ _ \<Rightarrow> False | Answered _ jobs \<Rightarrow> list_ex (\<lambda>j. jb_Kind j = ''discovery_scan'') jobs)"

definition polled_site :: "collector_row list \<Rightarrow> uuid \<Rightarrow> uuid" where
  "polled_site cs cid = (case find (\<lambda>c. co_ID c = cid) cs of None \<Rightarrow> [] | Some c \<Rightarrow> co_SiteID c)"

fun site_step :: "collector_row list \<Rightarrow> site_event \<Rightarrow> site_run \<Rightarrow> site_run" where
  "site_step cs (JobRead order env rows cid) r =
     (case jobs_read order env cs rows cid (sr_db r) of (rep, w) \<Rightarrow>
        r\<lparr>sr_writes := sr_writes r @ (case w of None \<Rightarrow> [] | Some site \<Rightarrow> [site]),
          sr_log := sr_log r @ (if given_scan rep then [ScanGiven (polled_site cs cid) (si_now env) (the (sr_db r (polled_site cs cid)))] else [])\<rparr>)"
| "site_step cs (JobWrite env k) r =
     (if length (sr_writes r) \<le> k then r
      else let site = sr_writes r ! k in
        r\<lparr>sr_db := record_dispatch env site (sr_db r), sr_writes := take k (sr_writes r) @ drop (Suc k) (sr_writes r),
          sr_log := sr_log r @ (if si_fault env ''update dispatched'' \<or> sr_db r site = None then [] else [DispatchWritten site (si_db_now env)])\<rparr>)"
| "site_step cs (PutSettings env p b) r = r\<lparr>sr_db := snd (handlePutSiteDiscoverySettings env p b (sr_db r))\<rparr>"

definition site_runs :: "collector_row list \<Rightarrow> site_event list \<Rightarrow> site_settings \<Rightarrow> site_run" where
  "site_runs cs es db = fold (site_step cs) es \<lparr>sr_db = db, sr_writes = [], sr_log = []\<rparr>"

text \<open>The last dispatch of a site the database has a record of, after a log.\<close>

definition last_written :: "site_settings \<Rightarrow> uuid \<Rightarrow> scan_log list \<Rightarrow> int option" where
  "last_written db site l =
     fold (\<lambda>e t. case e of DispatchWritten i d \<Rightarrow> if i = site then Some d else t | ScanGiven _ _ _ \<Rightarrow> t) l
       (Option.bind (db site) ds_LastDispatched)"

definition settings_checked :: "site_settings \<Rightarrow> bool" where
  "settings_checked db \<longleftrightarrow> (\<forall>s\<in>ran db. 60 \<le> ds_ScanInterval s \<and> ds_ScanInterval s < 2 ^ 31)"

lemma scan_interval_bound:
  assumes "60 \<le> ds_ScanInterval s" "ds_ScanInterval s < 2 ^ 31"
  shows "60 * 1000000000 \<le> scan_interval s"
  using assms by (simp add: scan_interval_def seconds_def i64_small Let_def)

lemma put_checked:
  assumes "settings_checked db"
  shows "settings_checked (snd (handlePutSiteDiscoverySettings env p b db))"
  using assms
  by (auto simp: handlePutSiteDiscoverySettings_def settings_checked_def settings_out_of_bounds_def settings_storable_def
      replaced_settings_def ran_def Let_def split: option.splits if_splits)

lemma record_checked: "settings_checked db \<Longrightarrow> settings_checked (record_dispatch env site db)"
  by (auto simp: record_dispatch_def settings_checked_def ran_def split: option.splits)

lemma step_checked: "settings_checked (sr_db r) \<Longrightarrow> settings_checked (sr_db (site_step cs e r))"
  by (cases e) (simp_all add: put_checked record_checked Let_def split: prod.split)

text \<open>A change of the settings keeps the time of the last dispatch.\<close>

lemma put_last:
  "Option.bind (snd (handlePutSiteDiscoverySettings env p b db) site) ds_LastDispatched = Option.bind (db site) ds_LastDispatched"
  by (auto simp: handlePutSiteDiscoverySettings_def replaced_settings_def inserted_settings_def Let_def split: option.splits if_splits)

lemma record_last:
  "Option.bind (record_dispatch env i db site) ds_LastDispatched =
     (if i = site \<and> \<not> si_fault env ''update dispatched'' \<and> db i \<noteq> None then Some (si_db_now env) else Option.bind (db site) ds_LastDispatched)"
  by (auto simp: record_dispatch_def split: option.splits)

lemma no_scan_polls [simp]: "\<not> list_ex (\<lambda>j. jb_Kind j = ''discovery_scan'') (poll_jobs order cid rows)"
  by (simp add: poll_jobs_def list_ex_iff)

lemma jobs_read_given:
  assumes "jobs_read order env cs rows cid db = (rep, w)"
  shows "w = (if given_scan rep then Some (polled_site cs cid) else None)"
    and "given_scan rep \<Longrightarrow> \<exists>s. db (polled_site cs cid) = Some s \<and> discovery_due (si_now env) s"
  using assms
  by (auto simp: jobs_read_def given_scan_def discovery_job_def polled_site_def Let_def split: option.splits if_splits)

lemma scan_interval_pos: "0 < scan_interval s" "scan_interval s < 2 ^ 63"
proof -
  have "seconds n < 2 ^ 63" for n using signed_take_bit_int_less_exp[of 63 "n * 1000000000"] by (simp add: seconds_def i64_def)
  then show "0 < scan_interval s" "scan_interval s < 2 ^ 63" by (auto simp: scan_interval_def Let_def)
qed

lemma due_after:
  assumes "ds_LastDispatched s = Some d" "discovery_due now s"
  shows "d + scan_interval s \<le> now"
proof -
  have "scan_interval s \<le> time_sub now d" using assms by (simp add: discovery_due_def)
  then show ?thesis using scan_interval_pos[of s] by (simp add: time_sub_def max_def min_def split: if_splits)
qed

lemma last_written_snoc:
  "last_written db site (l @ [DispatchWritten i d]) = (if i = site then Some d else last_written db site l)"
  "last_written db site (l @ [ScanGiven i t s]) = last_written db site l"
  by (simp_all add: last_written_def)

text \<open>The column is the last dispatch of the log.\<close>

lemma step_last_written:
  assumes "\<forall>site. last_written db site (sr_log r) = Option.bind (sr_db r site) ds_LastDispatched"
  shows "last_written db site (sr_log (site_step cs e r)) = Option.bind (sr_db (site_step cs e r) site) ds_LastDispatched"
proof (cases e)
  case (JobRead order env rows cid)
  then show ?thesis using assms by (simp add: last_written_snoc split: prod.split)
next
  case (JobWrite env k)
  then show ?thesis using assms by (auto simp: last_written_snoc record_last Let_def)
next
  case (PutSettings env p b)
  then show ?thesis using assms by (simp add: put_last)
qed

text \<open>A scan comes after the last dispatch that was written before it by the interval in force, which is at least a minute
  with settings that were put.\<close>

definition scan_apart :: "site_settings \<Rightarrow> scan_log list \<Rightarrow> scan_log \<Rightarrow> bool" where
  "scan_apart db before e =
     (case e of DispatchWritten _ _ \<Rightarrow> True
      | ScanGiven site now s \<Rightarrow>
          (case last_written db site before of None \<Rightarrow> True | Some d \<Rightarrow> d + scan_interval s \<le> now) \<and>
          (settings_checked db \<longrightarrow> 60 * 1000000000 \<le> scan_interval s))"

definition scans_apart :: "site_settings \<Rightarrow> scan_log list \<Rightarrow> bool" where
  "scans_apart db l \<longleftrightarrow> (\<forall>n<length l. scan_apart db (take n l) (l ! n))"

lemma scans_apart_snoc: "scans_apart db (l @ [e]) \<longleftrightarrow> scans_apart db l \<and> scan_apart db l e"
  by (auto simp: scans_apart_def nth_append less_Suc_eq)

lemma read_apart:
  assumes "jobs_read order env cs rows cid (sr_db r) = (rep, w)" "given_scan rep"
    and "\<forall>site. last_written db site (sr_log r) = Option.bind (sr_db r site) ds_LastDispatched"
    and "settings_checked db \<longrightarrow> settings_checked (sr_db r)"
  shows "scan_apart db (sr_log r) (ScanGiven (polled_site cs cid) (si_now env) (the (sr_db r (polled_site cs cid))))"
proof -
  obtain s where s: "sr_db r (polled_site cs cid) = Some s" "discovery_due (si_now env) s" using jobs_read_given(2)[OF assms(1,2)] by blast
  have col: "last_written db (polled_site cs cid) (sr_log r) = ds_LastDispatched s" using assms(3)[THEN spec, of "polled_site cs cid"] s(1) by simp
  have "d + scan_interval s \<le> si_now env" if written: "last_written db (polled_site cs cid) (sr_log r) = Some d" for d
    by (rule due_after[OF _ s(2)]) (use written col in simp)
  moreover have "60 * 1000000000 \<le> scan_interval s" if checked: "settings_checked db"
  proof -
    have "s \<in> ran (sr_db r)" using s(1) by (rule ranI)
    then show ?thesis using assms(4) checked by (intro scan_interval_bound) (simp_all add: settings_checked_def)
  qed
  ultimately show ?thesis using s(1) by (simp add: scan_apart_def split: option.split)
qed

lemma run_apart:
  "(\<forall>site. last_written db site (sr_log (site_runs cs es db)) = Option.bind (sr_db (site_runs cs es db) site) ds_LastDispatched) \<and>
   (settings_checked db \<longrightarrow> settings_checked (sr_db (site_runs cs es db))) \<and> scans_apart db (sr_log (site_runs cs es db))"
proof (induction es rule: rev_induct)
  case Nil
  show ?case by (simp add: site_runs_def last_written_def scans_apart_def)
next
  case (snoc e es)
  let ?r = "site_runs cs es db"
  have r: "site_runs cs (es @ [e]) db = site_step cs e ?r" by (simp add: site_runs_def)
  have "scans_apart db (sr_log (site_step cs e ?r))"
  proof (cases e)
    case (JobRead order env rows cid)
    obtain rep w where j: "jobs_read order env cs rows cid (sr_db ?r) = (rep, w)" by (metis surj_pair)
    show ?thesis
    proof (cases "given_scan rep")
      case True
      then show ?thesis using read_apart[OF j True] snoc.IH JobRead j by (simp add: scans_apart_snoc)
    next
      case False
      then show ?thesis using snoc.IH JobRead j by simp
    qed
  next
    case (JobWrite env k)
    then show ?thesis using snoc.IH by (simp add: scans_apart_snoc scan_apart_def Let_def)
  next
    case (PutSettings env p b)
    then show ?thesis using snoc.IH by simp
  qed
  then show ?case unfolding r using step_last_written step_checked snoc.IH by blast
qed

text \<open>C37: However the polls of a site's collectors, the writes of their dispatches and changes of the settings interleave, a
  poll is given the discovery scan no earlier after the last dispatch that was written before than the interval in force
  then; with settings that were put the interval is at least a minute. The write is a statement of its own: polls that read
  before it are given the scan as well.\<close>

theorem scans_spaced:
  assumes "sr_log (site_runs cs es db) = before @ ScanGiven site now s # after"
  shows "(case last_written db site before of None \<Rightarrow> True | Some d \<Rightarrow> d + scan_interval s \<le> now) \<and>
    (settings_checked db \<longrightarrow> 60 * 1000000000 \<le> scan_interval s)"
proof -
  have "scans_apart db (before @ ScanGiven site now s # after)" using run_apart[where cs = cs and es = es and db = db] assms by simp
  then have "scan_apart db (take (length before) (before @ ScanGiven site now s # after)) ((before @ ScanGiven site now s # after) ! length before)"
    unfolding scans_apart_def by (rule allE[of _ "length before"]) simp
  then show ?thesis by (simp add: scan_apart_def)
qed

text \<open>Two polls that read one after the other, before either writes, both get a scan that is due.\<close>

lemma overlapping_polls:
  assumes "jobs_read order env cs rows cid (sr_db r) = (rep, w)" "given_scan rep" "si_now env' = si_now env"
    and "polled_site cs cid' = polled_site cs cid" "find (\<lambda>c. co_ID c = cid') cs \<noteq> None"
    and "\<not> si_fault env' ''select jobs''" "\<not> si_fault env' ''select settings''"
  shows "\<exists>s. sr_log (site_step cs (JobRead order' env' rows' cid') (site_step cs (JobRead order env rows cid) r)) =
    sr_log r @ [ScanGiven (polled_site cs cid) (si_now env) s, ScanGiven (polled_site cs cid) (si_now env) s]"
proof -
  obtain s where s: "sr_db r (polled_site cs cid) = Some s" "discovery_due (si_now env) s" using jobs_read_given(2)[OF assms(1,2)] by blast
  obtain c where c: "find (\<lambda>c. co_ID c = cid') cs = Some c" using assms(5) by blast
  then have "co_SiteID c = polled_site cs cid" using assms(4) by (simp add: polled_site_def)
  then have second: "jobs_read order' env' cs rows' cid' (sr_db r) = (Answered 200 (poll_jobs order' cid' rows' @ [discovery_job s]), Some (polled_site cs cid))"
    using c s assms(3,6,7) by (simp add: jobs_read_def)
  have "given_scan (Answered 200 (poll_jobs order' cid' rows' @ [discovery_job s]))" by (simp add: given_scan_def discovery_job_def)
  then show ?thesis using assms(1-4) second s by (intro exI[of _ s]) simp
qed

subsection \<open>Passive settings\<close>

definition passive_of :: "discovery_settings option \<Rightarrow> string \<Rightarrow> passiveSNMPSettings" where
  "passive_of s community =
     (case s of
        None \<Rightarrow> \<lparr>pss_Enabled = False, pss_Interface = [], pss_CaptureSeconds = 60, pss_RetireAfter = 3, pss_RunIntervalSecs = 21600,
                 pss_SNMPCommunity = community\<rparr>
      | Some s \<Rightarrow> \<lparr>pss_Enabled = ds_PassiveEnabled s, pss_Interface = ds_PassiveInterface s, pss_CaptureSeconds = ds_CaptureSeconds s,
                   pss_RetireAfter = ds_RetireAfter s, pss_RunIntervalSecs = ds_RunInterval s, pss_SNMPCommunity = community\<rparr>)"

text \<open>\<open>community_of\<close> decodes the stored JSON. The secret is opened under the id of the collector.\<close>

definition site_community ::
    "blockfun \<Rightarrow> byte list \<Rightarrow> (string \<Rightarrow> string option) \<Rightarrow> collector_query \<Rightarrow> credential_row list \<Rightarrow> uuid \<Rightarrow> uuid \<Rightarrow> string" where
  "site_community aes master community_of q rows site cid =
     (if cq_fault q ''select community'' then []
      else case cq_rows q (filter (\<lambda>r. sc_SiteID r = site \<and> sc_Kind r = ''snmp'') rows) of
        [] \<Rightarrow> []
      | r # _ \<Rightarrow>
          (case Open aes master (sc_Enc r) (cred_ad cid) of
             Inl _ \<Rightarrow> []
           | Inr plain \<Rightarrow> (case community_of (string_of plain) of None \<Rightarrow> [] | Some c \<Rightarrow> c)))"

definition handleCollectorPassiveSNMPSettings ::
    "blockfun \<Rightarrow> byte list \<Rightarrow> (string \<Rightarrow> string option) \<Rightarrow> collector_query \<Rightarrow> collector_row list \<Rightarrow> credential_row list \<Rightarrow>
     site_settings \<Rightarrow> uuid \<Rightarrow> passiveSNMPSettings reply" where
  "handleCollectorPassiveSNMPSettings aes master community_of q cs rows db cid =
     (if cq_fault q ''load settings'' then Failed 500 ''load failed''
      else case find (\<lambda>c. co_ID c = cid) cs of
        None \<Rightarrow> Answered 200 \<lparr>pss_Enabled = False, pss_Interface = [], pss_CaptureSeconds = 0, pss_RetireAfter = 0,
                  pss_RunIntervalSecs = 0, pss_SNMPCommunity = []\<rparr>
      | Some c \<Rightarrow> Answered 200 (passive_of (db (co_SiteID c)) (site_community aes master community_of q rows (co_SiteID c) cid)))"

text \<open>A community is served only when its row opens under the id of the collector, and operators seal rows under their own:
  a row they made is readable by chance only.\<close>

lemma community_of_other_seal:
  assumes "site_community aes master community_of q rows site cid \<noteq> []" "\<And>rs. mset (cq_rows q rs) = mset rs"
  shows "\<exists>r\<in>set rows. sc_SiteID r = site \<and> sc_Kind r = ''snmp'' \<and>
    (\<exists>dk wn dn plain. sc_Enc r = sealed_with aes master dk wn dn plain (cred_ad cid))"
proof -
  obtain r rs plain where r: "cq_rows q (filter (\<lambda>r. sc_SiteID r = site \<and> sc_Kind r = ''snmp'') rows) = r # rs"
      "Open aes master (sc_Enc r) (cred_ad cid) = Inr plain"
    using assms(1) by (auto simp: site_community_def split: list.splits sum.splits if_splits)
  have "r \<in> set (filter (\<lambda>r. sc_SiteID r = site \<and> sc_Kind r = ''snmp'') rows)"
    using mset_eq_setD[OF assms(2)[of "filter (\<lambda>r. sc_SiteID r = site \<and> sc_Kind r = ''snmp'') rows"]] r(1) by auto
  then show ?thesis using Open_shape[OF r(2)] by (intro bexI[of _ r]) auto
qed

text \<open>No request turns passive discovery on: the settings that are put leave it as it is, off in a new row.\<close>

lemma passive_never_enabled:
  assumes "\<forall>s\<in>ran db. \<not> ds_PassiveEnabled s"
  shows "\<forall>s\<in>ran (snd (handlePutSiteDiscoverySettings env p b db)). \<not> ds_PassiveEnabled s"
    and "\<forall>s\<in>ran (snd (handleCollectorJobs order env' cs rows cid db)). \<not> ds_PassiveEnabled s"
  using assms
  by (auto simp: handlePutSiteDiscoverySettings_def handleCollectorJobs_def record_dispatch_def inserted_settings_def replaced_settings_def
      ran_def Let_def split: option.splits if_splits prod.splits)

subsection \<open>Devices\<close>

record discoveryDeviceIngest =
  di_IP :: string
  di_MAC :: string
  di_Hostname :: string
  di_Vendor :: string
  di_SysObjectID :: string
  di_Identified :: bool
  di_Protocols :: "string list"
  di_Metadata :: "payload option"
  di_Criticality :: string

record discovered_row =
  dr_Collector :: uuid
  dr_MAC :: "string option"
  dr_Hostname :: "string option"
  dr_Vendor :: "string option"
  dr_SysObjectID :: "string option"
  dr_Identified :: bool
  dr_Protocols :: "string list"
  dr_Metadata :: payload
  dr_LastSeen :: int
  dr_Criticality :: string

definition text_null :: "string \<Rightarrow> string option" where
  "text_null s = (if s = [] then None else Some s)"

definition or_else :: "'a option \<Rightarrow> 'a option \<Rightarrow> 'a option" where
  "or_else x y = (case x of None \<Rightarrow> y | Some _ \<Rightarrow> x)"

definition excluded_row :: "int \<Rightarrow> uuid \<Rightarrow> discoveryDeviceIngest \<Rightarrow> discovered_row" where
  "excluded_row now cid d =
     \<lparr>dr_Collector = cid, dr_MAC = text_null (di_MAC d), dr_Hostname = text_null (di_Hostname d), dr_Vendor = text_null (di_Vendor d),
      dr_SysObjectID = text_null (di_SysObjectID d), dr_Identified = di_Identified d,
      dr_Protocols = (if di_Protocols d = [] then [''icmp''] else di_Protocols d),
      dr_Metadata = (case di_Metadata d of None \<Rightarrow> Map.empty | Some m \<Rightarrow> m), dr_LastSeen = now,
      dr_Criticality = text_or ''normal'' (di_Criticality d)\<rparr>"

text \<open>\<open>ON CONFLICT (site_id, ip) DO UPDATE\<close>; \<open>||\<close> of two JSON objects prefers the right one.\<close>

definition upserted_row :: "discovered_row \<Rightarrow> discovered_row option \<Rightarrow> discovered_row" where
  "upserted_row new old =
     (case old of
        None \<Rightarrow> new
      | Some r \<Rightarrow>
          r\<lparr>dr_Collector := dr_Collector new, dr_MAC := or_else (dr_MAC new) (dr_MAC r),
            dr_Hostname := or_else (dr_Hostname new) (dr_Hostname r), dr_Vendor := or_else (dr_Vendor new) (dr_Vendor r),
            dr_SysObjectID := or_else (dr_SysObjectID new) (dr_SysObjectID r),
            dr_Identified := (dr_Identified r \<or> dr_Identified new),
            dr_Protocols := (if dr_Protocols new \<noteq> [] then dr_Protocols new else dr_Protocols r),
            dr_Metadata := dr_Metadata r ++ dr_Metadata new, dr_LastSeen := dr_LastSeen new,
            dr_Criticality := dr_Criticality new\<rparr>)"

type_synonym discovered_table = "uuid \<times> ip \<rightharpoonup> discovered_row"

record results_env =
  re_fault :: "string \<Rightarrow> bool"
  re_upsert_fault :: "nat \<Rightarrow> bool"
  re_now :: int
  re_nats_up :: bool

definition criticalities :: "string set" where
  "criticalities = {''low'', ''normal'', ''high'', ''critical''}"

text \<open>The devices of a batch one after the other, without a transaction: the error that ended it, the table, and the
  announced addresses.\<close>

fun ingest_devices ::
    "results_env \<Rightarrow> uuid \<Rightarrow> uuid \<Rightarrow> nat \<Rightarrow> discoveryDeviceIngest list \<Rightarrow> discovered_table \<Rightarrow>
     string option \<times> discovered_table \<times> (uuid \<times> string) list" where
  "ingest_devices env site cid n [] db = (None, db, [])"
| "ingest_devices env site cid n (d # ds) db =
     (case parse_addr (di_IP d) of
        None \<Rightarrow> (Some ''invalid ip in batch'', db, [])
      | Some x \<Rightarrow>
          if re_upsert_fault env n \<or> text_or ''normal'' (di_Criticality d) \<notin> criticalities
          then (Some ''upsert failed'', db, [])
          else let db' = db((site, x) \<mapsto> upserted_row (excluded_row (re_now env) cid d) (db (site, x))) in
            (case ingest_devices env site cid (Suc n) ds db' of (e, db'', pub) \<Rightarrow>
               (e, db'', (if re_nats_up env then [(site, di_IP d)] else []) @ pub)))"

definition handleCollectorDiscoveryResults ::
    "results_env \<Rightarrow> collector_row list \<Rightarrow> discoveryDeviceIngest list option \<Rightarrow> uuid \<Rightarrow> discovered_table \<Rightarrow>
     unit reply \<times> discovered_table \<times> (uuid \<times> string) list" where
  "handleCollectorDiscoveryResults env cs body cid db =
     (if re_fault env ''lookup collector'' then (Failed 500 ''lookup failed'', db, [])
      else case find (\<lambda>c. co_ID c = cid \<and> co_Active c) cs of
        None \<Rightarrow> (Failed 404 ''collector not found'', db, [])
      | Some c \<Rightarrow>
          (case body of
             None \<Rightarrow> (Failed 400 ''devices array required'', db, [])
           | Some ds \<Rightarrow>
               if ds = [] then (Failed 400 ''devices array required'', db, [])
               else (case ingest_devices env (co_SiteID c) cid 0 ds db of
                  (None, db', pub) \<Rightarrow> (Answered 204 (), db', pub)
                | (Some e, db', pub) \<Rightarrow> (Failed 400 e, db', pub))))"

definition reported_at :: "ip \<Rightarrow> discoveryDeviceIngest \<Rightarrow> bool" where
  "reported_at x d \<longleftrightarrow> parse_addr (di_IP d) = Some x"

text \<open>What a list of reports makes of the row of one address.\<close>

definition merged_row :: "int \<Rightarrow> uuid \<Rightarrow> ip \<Rightarrow> discoveryDeviceIngest list \<Rightarrow> discovered_row option \<Rightarrow> discovered_row option" where
  "merged_row now cid x ds = fold (\<lambda>d r. Some (upserted_row (excluded_row now cid d) r)) (filter (reported_at x) ds)"

text \<open>A device that ends its batch: one whose address is no address, whose criticality the table does not admit or whose
  statement fails; \<open>accepted\<close> are the devices before the first of them.\<close>

definition bad_device :: "results_env \<Rightarrow> nat \<times> discoveryDeviceIngest \<Rightarrow> bool" where
  "bad_device env p \<longleftrightarrow> parse_addr (di_IP (snd p)) = None \<or> re_upsert_fault env (fst p) \<or>
     text_or ''normal'' (di_Criticality (snd p)) \<notin> criticalities"

definition accepted :: "results_env \<Rightarrow> nat \<Rightarrow> discoveryDeviceIngest list \<Rightarrow> discoveryDeviceIngest list" where
  "accepted env n ds = map snd (takeWhile (\<lambda>p. \<not> bad_device env p) (List.enumerate n ds))"

definition batch_refusal :: "results_env \<Rightarrow> nat \<Rightarrow> discoveryDeviceIngest list \<Rightarrow> string option" where
  "batch_refusal env n ds =
     (case dropWhile (\<lambda>p. \<not> bad_device env p) (List.enumerate n ds) of
        [] \<Rightarrow> None
      | p # _ \<Rightarrow> Some (if parse_addr (di_IP (snd p)) = None then ''invalid ip in batch'' else ''upsert failed''))"

lemma batch_refusal_none: "batch_refusal env n ds = None \<longleftrightarrow> (\<forall>p\<in>set (List.enumerate n ds). \<not> bad_device env p)"
proof -
  have "batch_refusal env n ds = None \<longleftrightarrow> dropWhile (\<lambda>p. \<not> bad_device env p) (List.enumerate n ds) = []"
    unfolding batch_refusal_def by (cases "dropWhile (\<lambda>p. \<not> bad_device env p) (List.enumerate n ds)") (simp_all del: dropWhile_eq_Nil_conv)
  then show ?thesis by (simp only: dropWhile_eq_Nil_conv)
qed

lemma ingest_devices_prefix:
  "ingest_devices env site cid n ds db =
     (batch_refusal env n ds,
      (\<lambda>(s, x). if s = site then merged_row (re_now env) cid x (accepted env n ds) (db (s, x)) else db (s, x)),
      if re_nats_up env then map (\<lambda>d. (site, di_IP d)) (accepted env n ds) else [])"
proof (induction ds arbitrary: n db)
  case Nil
  show ?case by (auto simp: merged_row_def accepted_def batch_refusal_def fun_eq_iff)
next
  case (Cons d ds)
  show ?case
  proof (cases "bad_device env (n, d)")
    case True
    then have "accepted env n (d # ds) = []"
      "batch_refusal env n (d # ds) = Some (if parse_addr (di_IP d) = None then ''invalid ip in batch'' else ''upsert failed'')"
      by (simp_all add: accepted_def batch_refusal_def)
    moreover have "ingest_devices env site cid n (d # ds) db =
        (Some (if parse_addr (di_IP d) = None then ''invalid ip in batch'' else ''upsert failed''), db, [])"
      using True by (auto simp: bad_device_def split: option.split)
    ultimately show ?thesis by (simp add: merged_row_def fun_eq_iff)
  next
    case False
    then obtain x where x: "parse_addr (di_IP d) = Some x" by (auto simp: bad_device_def)
    let ?db = "db((site, x) \<mapsto> upserted_row (excluded_row (re_now env) cid d) (db (site, x)))"
    have a: "accepted env n (d # ds) = d # accepted env (Suc n) ds" "batch_refusal env n (d # ds) = batch_refusal env (Suc n) ds"
      using False by (simp_all add: accepted_def batch_refusal_def)
    have "ingest_devices env site cid n (d # ds) db =
        (case ingest_devices env site cid (Suc n) ds ?db of (e, db'', pub) \<Rightarrow>
           (e, db'', (if re_nats_up env then [(site, di_IP d)] else []) @ pub))"
      using False x by (simp add: bad_device_def Let_def)
    moreover have "merged_row (re_now env) cid y (accepted env (Suc n) ds) (?db (site, y)) =
        merged_row (re_now env) cid y (accepted env n (d # ds)) (db (site, y))" for y
      using x by (simp add: a merged_row_def reported_at_def)
    ultimately show ?thesis unfolding a(2) by (simp add: Cons.IH fun_eq_iff a(1))
  qed
qed

text \<open>C38: A batch of discovered devices is stored up to its first bad device and no further. A device is bad when its address
  is none, its criticality is not one of the table or its statement fails; the answer is a success exactly when none is bad,
  and otherwise names what was wrong with the first; the row of every address is what the reports before that one make of it
  in their order, other sites keep their rows, and exactly the stored devices are announced.\<close>

theorem discovery_batch_prefix:
  assumes "find (\<lambda>c. co_ID c = cid \<and> co_Active c) cs = Some c" "\<not> re_fault env ''lookup collector''" "ds \<noteq> []"
  shows "case handleCollectorDiscoveryResults env cs (Some ds) cid db of (rep, db', pub) \<Rightarrow>
    (rep = Answered 204 () \<longleftrightarrow> (\<forall>p\<in>set (List.enumerate 0 ds). \<not> bad_device env p)) \<and>
    rep = (case batch_refusal env 0 ds of None \<Rightarrow> Answered 204 () | Some e \<Rightarrow> Failed 400 e) \<and>
    (\<forall>s x. db' (s, x) =
       (if s = co_SiteID c then merged_row (re_now env) cid x (accepted env 0 ds) (db (s, x)) else db (s, x))) \<and>
    pub = (if re_nats_up env then map (\<lambda>d. (co_SiteID c, di_IP d)) (accepted env 0 ds) else [])"
proof -
  have "rep = Answered 204 () \<longleftrightarrow> batch_refusal env 0 ds = None"
    if "rep = (case batch_refusal env 0 ds of None \<Rightarrow> Answered 204 () | Some e \<Rightarrow> Failed 400 e)" for rep :: "unit reply"
    using that by (cases "batch_refusal env 0 ds") simp_all
  then show ?thesis using assms
    by (simp add: handleCollectorDiscoveryResults_def ingest_devices_prefix batch_refusal_none[symmetric] split: option.split)
qed

text \<open>Once a device is identified it stays so, and what was learned of it is never lost to an empty report.\<close>

definition row_keeps :: "discovered_row \<Rightarrow> discovered_row \<Rightarrow> bool" where
  "row_keeps r r' \<longleftrightarrow> (dr_Identified r \<longrightarrow> dr_Identified r') \<and> (dr_MAC r \<noteq> None \<longrightarrow> dr_MAC r' \<noteq> None) \<and>
     (dr_Hostname r \<noteq> None \<longrightarrow> dr_Hostname r' \<noteq> None) \<and> dom (dr_Metadata r) \<subseteq> dom (dr_Metadata r')"

lemma upserted_row_keeps: "row_keeps r (upserted_row new (Some r))"
  by (auto simp: row_keeps_def upserted_row_def or_else_def split: option.splits)

lemma row_keeps_trans: "row_keeps r s \<Longrightarrow> row_keeps s t \<Longrightarrow> row_keeps r t"
  by (auto simp: row_keeps_def)

lemma merged_row_keeps:
  assumes "merged_row now cid x ds (Some r) = Some r'"
  shows "row_keeps r r'"
proof -
  have "row_keeps r r'" if "fold (\<lambda>d r. Some (upserted_row (excluded_row now cid d) r)) ds (Some r) = Some r'" for ds r
    using that
  proof (induction ds arbitrary: r)
    case Nil
    then show ?case by (simp add: row_keeps_def)
  next
    case (Cons d ds)
    then have "row_keeps (upserted_row (excluded_row now cid d) (Some r)) r'" by simp
    then show ?case by (rule row_keeps_trans[OF upserted_row_keeps])
  qed
  then show ?thesis using assms by (simp add: merged_row_def)
qed

subsection \<open>Examples\<close>

definition demo_site_env :: "int \<Rightarrow> site_env" where
  "demo_site_env now = \<lparr>si_parse = Some, si_jsonb = (\<lambda>x. x), si_fault = (\<lambda>_. False), si_now = now, si_db_now = now\<rparr>"

definition demo_put :: putDiscoverySettingsReq where
  "demo_put = \<lparr>dsr_Subnets = ''[1]'', dsr_ScanInterval = Some 60, dsr_SubnetsPerPeriod = None, dsr_OfflineDeleteDays = None,
     dsr_UnidentifiedDeleteDays = None, dsr_BackupInterval = None, dsr_IcmpTimeoutMs = None, dsr_CliFeatures = [], dsr_FilterRules = []\<rparr>"

definition demo_collector :: "uuid \<Rightarrow> collector_row" where
  "demo_collector i = \<lparr>co_ID = i, co_SiteID = ''s1'', co_Name = i, co_Hostname = i, co_Fingerprint = i, co_Version = [],
     co_LastSeen = None, co_Active = True\<rparr>"

text \<open>Two collectors of a site poll at once and again half a minute and a minute later.\<close>

definition demo_events :: "site_event list" where
  "demo_events =
     (let poll = \<lambda>t c. JobRead (\<lambda>x. x) (demo_site_env (t * 1000000000)) [] c; wr = \<lambda>t. JobWrite (demo_site_env (t * 1000000000)) 0
      in [PutSettings (demo_site_env 0) ''s1'' (Some demo_put), poll 10 ''c1'', poll 10 ''c2'', wr 10, wr 10,
          poll 40 ''c1'', poll 70 ''c2'', wr 70])"

definition log_entry :: "scan_log \<Rightarrow> bool \<times> uuid \<times> int" where
  "log_entry e = (case e of ScanGiven i t _ \<Rightarrow> (True, i, t) | DispatchWritten i t \<Rightarrow> (False, i, t))"

definition demo_log :: "(bool \<times> uuid \<times> int) list" where
  "demo_log = map (\<lambda>(b, t). (b, ''s1'', t * 1000000000)) [(True, 10), (True, 10), (False, 10), (False, 10), (True, 70), (False, 70)]"

lemma demo_run_log: "map log_entry (sr_log (site_runs [demo_collector ''c1'', demo_collector ''c2''] demo_events Map.empty)) = demo_log"
  by (simp add: site_runs_def log_entry_def demo_log_def demo_events_def demo_site_env_def demo_put_def demo_collector_def
      handlePutSiteDiscoverySettings_def jobs_read_def record_dispatch_def polled_site_def poll_jobs_def given_scan_def discovery_job_def
      inserted_settings_def settings_out_of_bounds_def settings_storable_def discovery_due_def scan_interval_def time_sub_def seconds_def
      i64_small int_or_def text_or_def Let_def)

lemma log_entry_inv:
  "log_entry e = (True, i, t) \<Longrightarrow> \<exists>s. e = ScanGiven i t s"
  "log_entry e = (False, i, t) \<Longrightarrow> e = DispatchWritten i t"
  by (auto simp: log_entry_def split: scan_log.splits)

text \<open>Both first polls get the scan, the one half a minute later does not, the one after a minute does; an entry that begins
  with \<open>True\<close> is a scan.\<close>

theorem scans_spaced_witness:
  "\<exists>before s after. let l = sr_log (site_runs [demo_collector ''c1'', demo_collector ''c2''] demo_events Map.empty) in
     map log_entry l = demo_log \<and> l = before @ ScanGiven ''s1'' (70 * 1000000000) s # after \<and>
     last_written Map.empty ''s1'' before = Some (10 * 1000000000) \<and> 10 * 1000000000 + scan_interval s \<le> 70 * 1000000000 \<and>
     60 * 1000000000 \<le> scan_interval s"
proof -
  let ?l = "sr_log (site_runs [demo_collector ''c1'', demo_collector ''c2''] demo_events Map.empty)"
  obtain e1 e2 e3 e4 e5 e6 where l: "?l = [e1, e2, e3, e4, e5, e6]"
    and e: "log_entry e4 = (False, ''s1'', 10 * 1000000000)" "log_entry e5 = (True, ''s1'', 70 * 1000000000)"
    using demo_run_log by (auto simp: demo_log_def map_eq_Cons_conv)
  obtain s where s: "e5 = ScanGiven ''s1'' (70 * 1000000000) s" using log_entry_inv(1)[OF e(2)] by blast
  have split: "?l = ([e1, e2, e3] @ [e4]) @ ScanGiven ''s1'' (70 * 1000000000) s # [e6]" by (simp add: l s)
  have w: "last_written Map.empty ''s1'' ([e1, e2, e3] @ [e4]) = Some (10 * 1000000000)"
    unfolding log_entry_inv(2)[OF e(1)] last_written_snoc by simp
  have checked: "settings_checked Map.empty" by (simp add: settings_checked_def)
  show ?thesis
    using scans_spaced[OF split] split w checked demo_run_log
    by (intro exI[of _ "[e1, e2, e3] @ [e4]"] exI[of _ s] exI[of _ "[e6]"]) (simp only: Let_def option.case simp_thms)
qed

definition demo_device :: "string \<Rightarrow> string \<Rightarrow> discoveryDeviceIngest" where
  "demo_device addr crit = \<lparr>di_IP = addr, di_MAC = [], di_Hostname = [], di_Vendor = [], di_SysObjectID = [], di_Identified = True,
     di_Protocols = [], di_Metadata = None, di_Criticality = crit\<rparr>"

text \<open>The second device is refused: the first is stored, the third is not looked at.\<close>

theorem discovery_batch_prefix_witness:
  "\<exists>db' r. handleCollectorDiscoveryResults \<lparr>re_fault = (\<lambda>_. False), re_upsert_fault = (\<lambda>_. False), re_now = 7, re_nats_up = True\<rparr>
      [demo_collector ''c1''] (Some [demo_device ''10.0.0.5'' [], demo_device ''10.0.0.6'' ''top'', demo_device ''10.0.0.7'' []]) ''c1'' Map.empty =
      (Failed 400 ''upsert failed'', db', [(''s1'', ''10.0.0.5'')]) \<and>
      db' (''s1'', [10, 0, 0, 5]) = Some r \<and> dr_Collector r = ''c1'' \<and> db' (''s1'', [10, 0, 0, 7]) = None"
proof -
  let ?env = "\<lparr>re_fault = (\<lambda>_. False), re_upsert_fault = (\<lambda>_. False), re_now = 7, re_nats_up = True\<rparr>"
  let ?ds = "[demo_device ''10.0.0.5'' [], demo_device ''10.0.0.6'' ''top'', demo_device ''10.0.0.7'' []]"
  obtain rep db' pub where h: "handleCollectorDiscoveryResults ?env [demo_collector ''c1''] (Some ?ds) ''c1'' Map.empty = (rep, db', pub)"
    by (metis surj_pair)
  have addr: "parse_addr ''10.0.0.5'' = Some [10, 0, 0, 5]" "parse_addr ''10.0.0.6'' \<noteq> None" by code_simp+
  have good: "accepted ?env 0 ?ds = [demo_device ''10.0.0.5'' []]" "batch_refusal ?env 0 ?ds = Some ''upsert failed''"
    using addr by (simp_all add: accepted_def batch_refusal_def bad_device_def demo_device_def text_or_def criticalities_def)
  have "find (\<lambda>c. co_ID c = ''c1'' \<and> co_Active c) [demo_collector ''c1''] = Some (demo_collector ''c1'')" by (simp add: demo_collector_def)
  from discovery_batch_prefix[OF this, of ?env ?ds Map.empty]
  have r: "rep = Failed 400 ''upsert failed''" "pub = [(''s1'', ''10.0.0.5'')]"
    and rows: "db' (''s1'', x) = merged_row 7 ''c1'' x [demo_device ''10.0.0.5'' []] None" for x
    by (simp_all only: h good prod.case results_env.select_convs simp_thms option.case list.distinct if_True list.map)
      (simp_all add: demo_collector_def demo_device_def)
  have "db' (''s1'', [10, 0, 0, 7]) = None" by (simp add: rows merged_row_def reported_at_def demo_device_def addr)
  moreover have "db' (''s1'', [10, 0, 0, 5]) = Some (excluded_row 7 ''c1'' (demo_device ''10.0.0.5'' []))"
    by (simp add: rows merged_row_def reported_at_def demo_device_def addr upserted_row_def)
  ultimately show ?thesis using h r by (simp add: excluded_row_def)
qed

end
