(* ===== verification/Probe_Latency.thy ===== *)
theory Probe_Latency
  imports Checks Go_Net
begin

text \<open>
  What a probe measures with ICMP (\<open>internal/probe/latency.go\<close>): round trips to a target and the length of the path to it,
  which targets it measures (\<open>extras.go\<close>), and where it finds the gateway on Linux (\<open>gateway_linux.go\<close>). What the raw socket
  delivers is a parameter: such a socket gets every ICMP message of the host.
\<close>

subsection \<open>Messages\<close>

text \<open>A message as \<open>icmp.ParseMessage\<close> reads it; \<open>OtherMessage\<close> is one it cannot read or of another type.\<close>

datatype icmp_msg = EchoReply int int | TimeExceeded | OtherMessage

text \<open>One attempt: whether the context was over before it, whether the echo was sent, the messages read until the deadline with
  the time since the echo, and whether the context ended in the pause after it.\<close>

record echo_try =
  ec_cancelled :: bool
  ec_sent :: bool
  ec_msgs :: "(int \<times> icmp_msg) list"
  ec_pause_cut :: bool

fun wait_reply :: "int \<Rightarrow> int \<Rightarrow> (int \<times> icmp_msg) list \<Rightarrow> int list" where
  "wait_reply ident sq [] = []"
| "wait_reply ident sq ((t, m) # ms) = (if m = EchoReply ident sq then [t] else wait_reply ident sq ms)"

text \<open>The round trips that were measured; an echo that could not be sent has no pause after it.\<close>

fun echo_tries :: "int \<Rightarrow> int \<Rightarrow> echo_try list \<Rightarrow> int list" where
  "echo_tries ident sq [] = []"
| "echo_tries ident sq (t # ts) =
     (if ec_cancelled t then []
      else if \<not> ec_sent t then echo_tries ident (sq + 1) ts
      else wait_reply ident sq (ec_msgs t) @ (if ec_pause_cut t then [] else echo_tries ident (sq + 1) ts))"

subsection \<open>Round trips\<close>

record LatencyRow =
  lt_Target :: string
  lt_Address :: string
  lt_AvgMs :: f64
  lt_MinMs :: f64
  lt_MaxMs :: f64
  lt_LossPct :: f64

definition round1 :: "(f64 \<Rightarrow> int) \<Rightarrow> f64 \<Rightarrow> f64" where
  "round1 oor v =
     (if f64_le (Fin 0) v
      then f64_div (f64_of_int (f64_to_i64 oor (f64_add (f64_mul v (Fin 10)) (Fin (1 / 2))))) (Fin 10)
      else f64_div (f64_of_int (f64_to_i64 oor (f64_sub (f64_mul v (Fin 10)) (Fin (1 / 2))))) (Fin 10))"

definition echo_count :: nat where "echo_count = 4"

definition to_ms :: "f64 \<Rightarrow> f64" where "to_ms x = f64_div x (Fin 1000000)"

definition summarize_rtts :: "(f64 \<Rightarrow> int) \<Rightarrow> string \<Rightarrow> int list \<Rightarrow> LatencyRow" where
  "summarize_rtts oor addr rtts =
     (let row = \<lparr>lt_Target = addr, lt_Address = addr, lt_AvgMs = Fin 0, lt_MinMs = Fin 0, lt_MaxMs = Fin 0, lt_LossPct = Fin 100\<rparr> in
      if rtts = [] then row
      else let rs = sort rtts; total = foldl (\<lambda>s r. i64 (s + r)) 0 rs in
        row\<lparr>lt_MinMs := round1 oor (to_ms (f64_of_int (hd rs))), lt_MaxMs := round1 oor (to_ms (f64_of_int (last rs))),
            lt_AvgMs := round1 oor (to_ms (f64_div (f64_of_int total) (f64_of_int (int (length rs))))),
            lt_LossPct := round1 oor (f64_mul (f64_div (f64_of_int (int echo_count - int (length rs))) (f64_of_int (int echo_count))) (Fin 100))\<rparr>)"

definition literal_v4 :: "string \<Rightarrow> bool" where
  "literal_v4 addr \<longleftrightarrow> (case parse_addr addr of None \<Rightarrow> False | Some x \<Rightarrow> To4 x \<noteq> None)"

definition ProbeICMP :: "(f64 \<Rightarrow> int) \<Rightarrow> string option \<Rightarrow> int \<Rightarrow> echo_try list \<Rightarrow> string \<Rightarrow> string + LatencyRow" where
  "ProbeICMP oor listen_err ident ts addr =
     (if \<not> literal_v4 addr then Inl ''latency: not a valid IPv4 address''
      else case listen_err of
        Some e \<Rightarrow> Inl (''latency: ICMP listen failed: '' @ e)
      | None \<Rightarrow> Inr (summarize_rtts oor addr (echo_tries ident 1 (take echo_count ts))))"

subsection \<open>The path\<close>

text \<open>Whether a wait for one hop got an answer and whether it was the target's.\<close>

fun trace_wait :: "int \<Rightarrow> icmp_msg list \<Rightarrow> bool \<times> bool" where
  "trace_wait ident [] = (False, False)"
| "trace_wait ident (TimeExceeded # ms) = (True, False)"
| "trace_wait ident (EchoReply i s # ms) = (if i \<noteq> ident then trace_wait ident ms else (True, True))"
| "trace_wait ident (OtherMessage # ms) = trace_wait ident ms"

text \<open>The number of hops and the error of the context, one attempt per TTL.\<close>

fun trace_loop :: "int \<Rightarrow> int \<Rightarrow> echo_try list \<Rightarrow> int \<times> string option" where
  "trace_loop ident hops [] = (hops, None)"
| "trace_loop ident hops (t # ts) =
     (if ec_cancelled t then (hops, Some ''context done'')
      else if \<not> ec_sent t then trace_loop ident hops ts
      else case trace_wait ident (map snd (ec_msgs t)) of (got, reached) \<Rightarrow>
        let hops' = (if got then hops + 1 else hops) in
        if reached then (hops', None) else trace_loop ident hops' ts)"

definition traceICMPRamp :: "string option \<Rightarrow> int \<Rightarrow> echo_try list \<Rightarrow> string \<Rightarrow> int \<Rightarrow> int \<times> string option" where
  "traceICMPRamp listen_err ident ts addr maxTTL0 =
     (let maxTTL = (if maxTTL0 \<le> 0 \<or> 64 < maxTTL0 then 30 else maxTTL0) in
      if \<not> literal_v4 addr then (0, Some ''traceroute: not a valid IPv4 address'')
      else case listen_err of
        Some e \<Rightarrow> (0, Some (''latency: ICMP listen failed: '' @ e))
      | None \<Rightarrow> trace_loop ident 0 (take (nat maxTTL) ts))"

subsection \<open>The gateway\<close>

function go_Fields :: "string \<Rightarrow> string list" where
  "go_Fields [] = []"
| "go_Fields (c # s) =
     (if is_space c then go_Fields s
      else (c # takeWhile (\<lambda>d. \<not> is_space d) s) # go_Fields (dropWhile (\<lambda>d. \<not> is_space d) s))"
  by pat_completeness auto
termination by (relation "measure length") (auto simp: less_Suc_eq_le length_dropWhile_le)

definition hex_at :: "string \<Rightarrow> nat \<Rightarrow> byte" where
  "hex_at s k = word_of_nat (hex_val (take 2 (drop (2 * k) s)))"

definition decodeProcRouteHex :: "string \<Rightarrow> string" where
  "decodeProcRouteHex s =
     (if length s \<noteq> 8 \<or> \<not> list_all is_hex s then []
      else let x = net_IPv4 (hex_at s 3) (hex_at s 2) (hex_at s 1) (hex_at s 0) in
           if x = net_IPv4 0 0 0 0 then [] else ip_String x)"

fun first_gateway :: "string list \<Rightarrow> string" where
  "first_gateway [] = []"
| "first_gateway (l # ls) =
     (let fs = go_Fields l in
      if length fs < 3 \<or> fs ! 1 \<noteq> ''00000000'' \<or> decodeProcRouteHex (fs ! 2) = [] then first_gateway ls
      else decodeProcRouteHex (fs ! 2))"

text \<open>The lines of \<open>/proc/net/route\<close> where it can be opened; the first is the header.\<close>

definition DefaultGatewayIP :: "string list option \<Rightarrow> string" where
  "DefaultGatewayIP file = (case file of None \<Rightarrow> [] | Some ls \<Rightarrow> first_gateway (drop 1 ls))"

definition LatencyTargets :: "string list option \<Rightarrow> string \<Rightarrow> (string \<times> string) list" where
  "LatencyTargets file target =
     (let t = (if target = [] then ''8.8.8.8'' else target); gw = DefaultGatewayIP file in
      (t, t) # (if gw \<noteq> [] then [(''gateway'', gw)] else []))"

text \<open>One tick: the rows that replace the cached ones and the flag, which is never cleared.\<close>

record extrasState =
  xs_latency :: "LatencyRow list"
  xs_icmpBroken :: bool

definition latency_tick :: "(string \<Rightarrow> string + LatencyRow) \<Rightarrow> string list option \<Rightarrow> string \<Rightarrow> extrasState \<Rightarrow> extrasState" where
  "latency_tick probe file target x =
     (let results = map (\<lambda>(name, addr). (name, addr, probe addr)) (LatencyTargets file target) in
      x\<lparr>xs_latency := List.map_filter (\<lambda>(name, addr, r). case r of
            Inl _ \<Rightarrow> None | Inr row \<Rightarrow> Some (row\<lparr>lt_Target := name, lt_Address := addr\<rparr>)) results,
        xs_icmpBroken := (xs_icmpBroken x \<or> list_ex (\<lambda>(name, addr, r). \<exists>e. r = Inl e) results)\<rparr>)"

subsection \<open>Rounding to tenths\<close>

definition tenths :: "rat \<Rightarrow> rat" where
  "tenths a = round_rat (of_int \<lfloor>round_rat (round_rat (a * 10) + 1 / 2)\<rfloor> / 10)"

lemma tenths_mono: "a \<le> b \<Longrightarrow> tenths a \<le> tenths b"
  unfolding tenths_def
  by (intro b64.rnd_mono divide_right_mono of_int_le_iff[THEN iffD2] floor_mono add_right_mono mult_right_mono) simp_all

lemma round1_tenths:
  assumes "0 \<le> a" "a \<le> of_int (2 ^ 40)"
  shows "round1 oor (Fin a) = Fin (tenths a)"
proof -
  have m: "0 \<le> a * 10" "a * 10 \<le> of_int (2 ^ 44)" using assms by simp_all
  have f1: "f64_mul (Fin a) (Fin 10) = Fin (round_rat (a * 10))"
    using m small_finite[of "a * 10" "2 ^ 44"] by simp
  have r1: "0 \<le> round_rat (a * 10)" "round_rat (a * 10) \<le> of_int (2 ^ 44)"
    using b64.rnd_nonneg[OF m(1)] b64.rnd_le_int[OF m(2)] by simp_all
  let ?b = "round_rat (a * 10) + 1 / 2"
  have b: "0 \<le> ?b" "?b \<le> of_int (2 ^ 45)" using r1 by simp_all
  have f2: "f64_add (Fin (round_rat (a * 10))) (Fin (1 / 2)) = Fin (round_rat ?b)"
    using b small_finite[of ?b "2 ^ 45"] by simp
  have r2: "0 \<le> round_rat ?b" "round_rat ?b \<le> of_int (2 ^ 45)"
    using b64.rnd_nonneg[OF b(1)] b64.rnd_le_int[OF b(2)] by simp_all
  have fl: "0 \<le> \<lfloor>round_rat ?b\<rfloor>" "\<lfloor>round_rat ?b\<rfloor> \<le> 2 ^ 45" using r2 by (simp_all add: floor_le_iff)
  have f3: "f64_to_i64 oor (Fin (round_rat ?b)) = \<lfloor>round_rat ?b\<rfloor>" using r2(1) fl by simp
  have f4: "f64_of_int \<lfloor>round_rat ?b\<rfloor> = Fin (of_int \<lfloor>round_rat ?b\<rfloor>)" using fl by (intro f64_of_int_exact) simp
  have q: "\<bar>of_int \<lfloor>round_rat ?b\<rfloor> / 10 :: rat\<bar> \<le> of_int (2 ^ 45)"
  proof -
    have "(of_int \<lfloor>round_rat ?b\<rfloor> :: rat) \<le> of_int (2 ^ 45)" using fl(2) by (simp only: of_int_le_iff)
    moreover have "(0 :: rat) \<le> of_int \<lfloor>round_rat ?b\<rfloor>" using fl(1) by (simp only: of_int_0_le_iff)
    ultimately show ?thesis by simp
  qed
  have f5: "f64_div (Fin (of_int \<lfloor>round_rat ?b\<rfloor>)) (Fin 10) = Fin (tenths a)"
    using small_finite[OF q] by (simp add: tenths_def)
  show ?thesis using assms(1) by (simp only: round1_def f64_le_simps if_True f1 f2 f3 f4 f5)
qed

subsection \<open>The row\<close>

lemma total_sum:
  assumes "\<forall>r\<in>set rs. 0 \<le> r \<and> r \<le> 2 ^ 40" "length rs \<le> 4" "0 \<le> s" "s + 2 ^ 40 * int (length rs) < 2 ^ 63"
  shows "foldl (\<lambda>s r. i64 (s + r)) s rs = s + sum_list rs"
  using assms
proof (induction rs arbitrary: s)
  case (Cons r rs)
  have "i64 (s + r) = s + r" using Cons.prems by (intro i64_small) auto
  then show ?case using Cons.IH[of "s + r"] Cons.prems by simp
qed simp

lemma sorted_sum_bounds:
  assumes "sorted rs" "rs \<noteq> []"
  shows "hd rs * int (length rs) \<le> sum_list rs" "sum_list rs \<le> last rs * int (length rs)"
proof -
  have "\<forall>r\<in>set rs. hd rs \<le> r" using assms by (cases rs) auto
  then show "hd rs * int (length rs) \<le> sum_list rs"
    using sum_list_mono[of rs "\<lambda>_. hd rs" "\<lambda>r. r"] by (simp add: sum_list_triv mult.commute)
  have "\<forall>r\<in>set rs. r \<le> last rs"
  proof
    fix r assume "r \<in> set rs"
    then obtain i where "i < length rs" "rs ! i = r" by (auto simp: in_set_conv_nth)
    then show "r \<le> last rs" using assms sorted_nth_mono[of rs i "length rs - 1"] by (simp add: last_conv_nth)
  qed
  then show "sum_list rs \<le> last rs * int (length rs)"
    using sum_list_mono[of rs "\<lambda>r. r" "\<lambda>_. last rs"] by (simp add: sum_list_triv mult.commute)
qed

definition ms_of :: "rat \<Rightarrow> rat" where "ms_of x = round_rat (x / 1000000)"

lemma ms_of_mono: "x \<le> y \<Longrightarrow> ms_of x \<le> ms_of y"
  unfolding ms_of_def by (intro b64.rnd_mono divide_right_mono) simp_all

lemma round1_ms:
  assumes "0 \<le> x" "x \<le> of_int (2 ^ 40)"
  shows "round1 oor (to_ms (Fin x)) = Fin (tenths (ms_of x))"
proof -
  have d: "0 \<le> x / 1000000" "x / 1000000 \<le> of_int (2 ^ 40)" using assms by simp_all
  have "to_ms (Fin x) = Fin (ms_of x)" using d small_finite[of "x / 1000000" "2 ^ 40"] by (simp add: to_ms_def ms_of_def)
  moreover have "0 \<le> ms_of x" "ms_of x \<le> of_int (2 ^ 40)"
    unfolding ms_of_def using b64.rnd_nonneg[OF d(1)] b64.rnd_le_int[OF d(2)] by simp_all
  ultimately show ?thesis using round1_tenths by simp
qed

definition loss_of :: "(f64 \<Rightarrow> int) \<Rightarrow> nat \<Rightarrow> f64" where
  "loss_of oor n = round1 oor (f64_mul (f64_div (f64_of_int (int echo_count - int n)) (f64_of_int (int echo_count))) (Fin 100))"

lemma quarters: "f64_of_rat (1 / 4) = Fin (1 / 4)" "f64_of_rat (1 / 2) = Fin (1 / 2)" "f64_of_rat (3 / 4) = Fin (3 / 4)"
  by code_simp+

lemma percents: "f64_of_rat (1 / 2 + 250) = Fin (1 / 2 + 250)" "f64_of_rat (1 / 2 + 500) = Fin (1 / 2 + 500)"
  "f64_of_rat (1 / 2 + 750) = Fin (1 / 2 + 750)"
  by code_simp+

lemma loss_value:
  assumes "n \<le> 4"
  shows "loss_of oor n = Fin (100 - 25 * of_nat n)"
proof -
  have int_exact: "f64_of_rat (of_int k) = Fin (of_int k)" if "\<bar>k\<bar> \<le> 1000" for k
    using f64_of_int_exact[of k] that by (simp add: f64_of_int_def)
  have ints: "f64_of_rat 0 = Fin 0" "f64_of_rat 1 = Fin 1" "f64_of_rat 2 = Fin 2" "f64_of_rat 3 = Fin 3" "f64_of_rat 4 = Fin 4"
    "f64_of_rat 25 = Fin 25" "f64_of_rat 50 = Fin 50" "f64_of_rat 75 = Fin 75" "f64_of_rat 100 = Fin 100"
    "f64_of_rat 250 = Fin 250" "f64_of_rat 500 = Fin 500" "f64_of_rat 750 = Fin 750" "f64_of_rat 1000 = Fin 1000"
    using int_exact[of 0] int_exact[of 1] int_exact[of 2] int_exact[of 3] int_exact[of 4] int_exact[of 25] int_exact[of 50]
      int_exact[of 75] int_exact[of 100] int_exact[of 250] int_exact[of 500] int_exact[of 750] int_exact[of 1000] by simp_all
  consider "n = 0" | "n = 1" | "n = 2" | "n = 3" | "n = 4" using assms by linarith
  then show ?thesis
  proof cases
    case 1
    have "f64_of_rat (1000 + 1 / 2) = Fin (1000 + 1 / 2)" by code_simp
    moreover have "\<lfloor>2001 / 2 :: rat\<rfloor> = 1000" by code_simp
    ultimately show ?thesis using 1 by (simp add: loss_of_def echo_count_def round1_def f64_of_int_def ints)
  next
    case 2
    have "f64_of_rat (750 + 1 / 2) = Fin (750 + 1 / 2)" by code_simp
    moreover have "\<lfloor>1501 / 2 :: rat\<rfloor> = 750" by code_simp
    ultimately show ?thesis using 2 by (simp add: loss_of_def echo_count_def round1_def f64_of_int_def ints quarters)
  next
    case 3
    have "f64_of_rat (500 + 1 / 2) = Fin (500 + 1 / 2)" by code_simp
    moreover have "\<lfloor>1001 / 2 :: rat\<rfloor> = 500" by code_simp
    ultimately show ?thesis using 3 by (simp add: loss_of_def echo_count_def round1_def f64_of_int_def ints quarters)
  next
    case 4
    have "f64_of_rat (250 + 1 / 2) = Fin (250 + 1 / 2)" by code_simp
    moreover have "\<lfloor>501 / 2 :: rat\<rfloor> = 250" by code_simp
    ultimately show ?thesis using 4 by (simp add: loss_of_def echo_count_def round1_def f64_of_int_def ints quarters)
  next
    case 5
    have "\<lfloor>1 / 2 :: rat\<rfloor> = 0" by code_simp
    then show ?thesis using 5 by (simp add: loss_of_def echo_count_def round1_def f64_of_int_def ints quarters)
  qed
qed

lemma wait_reply_at_most_one: "length (wait_reply ident sq ms) \<le> 1" "set (wait_reply ident sq ms) \<subseteq> fst ` set ms"
  by (induction ident sq ms rule: wait_reply.induct) auto

lemma echo_tries_bounds:
  assumes "\<forall>t\<in>set ts. \<forall>m\<in>set (ec_msgs t). 0 \<le> fst m \<and> fst m \<le> 2 ^ 40"
  shows "length (echo_tries ident sq ts) \<le> length ts \<and> (\<forall>r\<in>set (echo_tries ident sq ts). 0 \<le> r \<and> r \<le> 2 ^ 40)"
  using assms
proof (induction ident sq ts rule: echo_tries.induct)
  case (2 ident sq t ts)
  have "\<forall>r\<in>set (wait_reply ident sq (ec_msgs t)). 0 \<le> r \<and> r \<le> 2 ^ 40"
    using wait_reply_at_most_one(2)[of ident sq "ec_msgs t"] 2(3) by fastforce
  then show ?case using 2 wait_reply_at_most_one(1)[of ident sq "ec_msgs t"] by auto
qed simp

text \<open>Whatever the socket delivers, the row of a probe is consistent: the loss is 25 percent for each of the four echoes
  that got no reply with its own identifier and number, and minimum, mean and maximum, rounded to tenths on float64, are in
  order and not negative.\<close>

theorem latency_row_consistent:
  assumes "ProbeICMP oor listen_err ident ts addr = Inr row"
    and "\<forall>t\<in>set ts. \<forall>m\<in>set (ec_msgs t). 0 \<le> fst m \<and> fst m \<le> 2 ^ 40"
  shows "length (echo_tries ident 1 (take echo_count ts)) \<le> 4 \<and>
    lt_LossPct row = Fin (100 - 25 * of_nat (length (echo_tries ident 1 (take echo_count ts)))) \<and>
    (\<exists>a b c. lt_MinMs row = Fin a \<and> lt_AvgMs row = Fin b \<and> lt_MaxMs row = Fin c \<and> 0 \<le> a \<and> a \<le> b \<and> b \<le> c)"
proof -
  define rtts where "rtts = echo_tries ident 1 (take echo_count ts)"
  have "\<forall>t\<in>set (take echo_count ts). \<forall>m\<in>set (ec_msgs t). 0 \<le> fst m \<and> fst m \<le> 2 ^ 40"
    using assms(2) by (meson in_set_takeD)
  from echo_tries_bounds[OF this, of ident 1]
  have len: "length rtts \<le> 4" and pos: "\<forall>r\<in>set rtts. 0 \<le> r \<and> r \<le> 2 ^ 40"
    by (auto simp: rtts_def echo_count_def)
  have row: "row = summarize_rtts oor addr rtts"
    using assms(1) by (simp add: ProbeICMP_def rtts_def split: if_splits option.splits)
  have "lt_LossPct row = Fin (100 - 25 * of_nat (length rtts)) \<and>
    (\<exists>a b c. lt_MinMs row = Fin a \<and> lt_AvgMs row = Fin b \<and> lt_MaxMs row = Fin c \<and> 0 \<le> a \<and> a \<le> b \<and> b \<le> c)"
  proof (cases "rtts = []")
    case True
    then show ?thesis by (simp add: row summarize_rtts_def)
  next
    case False
    define rs where "rs = sort rtts"
    let ?n = "int (length rs)"
    have rs: "sorted rs" "rs \<noteq> []" "length rs = length rtts" "\<forall>r\<in>set rs. 0 \<le> r \<and> r \<le> 2 ^ 40"
      using False pos by (simp_all add: rs_def) (metis length_0_conv length_sort)
    have rs4: "length rs \<le> 4" using rs(3) len by linarith
    define total where "total = sum_list rs"
    have fold: "foldl (\<lambda>s r. i64 (s + r)) 0 rs = total" using total_sum[OF rs(4) rs4, of 0] rs4 by (simp add: total_def)
    have ends: "0 \<le> hd rs" "hd rs \<le> 2 ^ 40" "0 \<le> last rs" "last rs \<le> 2 ^ 40"
      using rs(4) hd_in_set[OF rs(2)] last_in_set[OF rs(2)] by auto
    note bounds = sorted_sum_bounds[OF rs(1,2), folded total_def]
    have n: "1 \<le> ?n" "?n \<le> 4" using rs(2) rs4 by (simp_all add: Suc_le_eq)
    have tot: "0 \<le> total" "total \<le> 2 ^ 42"
    proof -
      show "0 \<le> total" using bounds(1) ends(1) n(1) by (meson mult_nonneg_nonneg of_nat_0_le_iff order_trans)
      have "last rs * ?n \<le> 2 ^ 40 * 4" using ends n by (intro mult_mono) auto
      then show "total \<le> 2 ^ 42" using bounds(2) by simp
    qed
    define mean where "mean = (of_int total / of_int ?n :: rat)"
    have nq: "(0 :: rat) < of_int ?n" using rs(2) by simp
    have mean: "of_int (hd rs) \<le> mean" "mean \<le> of_int (last rs)"
    proof -
      have "(of_int (hd rs * ?n) :: rat) \<le> of_int total" "(of_int total :: rat) \<le> of_int (last rs * ?n)"
        using bounds by (simp_all only: of_int_le_iff)
      then show "of_int (hd rs) \<le> mean" "mean \<le> of_int (last rs)"
        using nq by (simp_all only: mean_def pos_le_divide_eq pos_divide_le_eq of_int_mult)
    qed
    have rmean: "of_int (hd rs) \<le> round_rat mean" "round_rat mean \<le> of_int (last rs)"
      using b64.rnd_ge_int[OF mean(1)] b64.rnd_le_int[OF mean(2)] ends by simp_all
    have fmean: "f64_div (f64_of_int total) (f64_of_int ?n) = Fin (round_rat mean)"
    proof -
      have small: "\<bar>total\<bar> \<le> 2 ^ 53" "\<bar>?n\<bar> \<le> 2 ^ 53" using tot n by simp_all
      note f64_of_int_exact[OF small(1)] f64_of_int_exact[OF small(2)]
      moreover have "\<bar>mean\<bar> \<le> of_int (2 ^ 40)"
        using mean ends by (smt (verit) abs_of_nonneg of_int_0_le_iff of_int_le_iff order_trans)
      ultimately show ?thesis using nq small_finite[of mean "2 ^ 40"] by (simp add: mean_def)
    qed
    have hi: "(of_int (last rs) :: rat) \<le> of_int (2 ^ 40)" using ends(4) by (simp only: of_int_le_iff)
    have lo: "(0 :: rat) \<le> of_int (hd rs)" using ends(1) by simp
    have "lt_MinMs row = Fin (tenths (ms_of (of_int (hd rs))))"
      using round1_ms[OF lo, of oor] rmean hi False ends f64_of_int_exact[of "hd rs"]
      by (simp add: row summarize_rtts_def rs_def[symmetric] Let_def)
    moreover have "lt_AvgMs row = Fin (tenths (ms_of (round_rat mean)))"
      using round1_ms[of "round_rat mean" oor] rmean hi lo fmean False
      by (simp add: row summarize_rtts_def rs_def[symmetric] Let_def fold)
    moreover have "lt_MaxMs row = Fin (tenths (ms_of (of_int (last rs))))"
      using round1_ms[of "of_int (last rs)" oor] hi False ends f64_of_int_exact[of "last rs"]
      by (simp add: row summarize_rtts_def rs_def[symmetric] Let_def)
    moreover have "lt_LossPct row = Fin (100 - 25 * of_nat (length rtts))"
      using loss_value[OF len, of oor] False rs(3) by (simp add: row summarize_rtts_def rs_def[symmetric] Let_def loss_of_def)
    moreover have "0 \<le> tenths (ms_of (of_int (hd rs)))"
    proof -
      have "0 \<le> ms_of (of_int (hd rs))" unfolding ms_of_def by (rule b64.rnd_nonneg) (use lo in simp)
      then have "tenths 0 \<le> tenths (ms_of (of_int (hd rs)))" by (rule tenths_mono)
      moreover have "tenths 0 = 0" by code_simp
      ultimately show ?thesis by simp
    qed
    moreover have "tenths (ms_of (of_int (hd rs))) \<le> tenths (ms_of (round_rat mean))"
        "tenths (ms_of (round_rat mean)) \<le> tenths (ms_of (of_int (last rs)))"
      by (intro tenths_mono ms_of_mono rmean)+
    ultimately show ?thesis by simp
  qed
  then show ?thesis using len by (simp add: rtts_def)
qed

definition demo_try :: "(int \<times> icmp_msg) list \<Rightarrow> echo_try" where
  "demo_try ms = \<lparr>ec_cancelled = False, ec_sent = True, ec_msgs = ms, ec_pause_cut = False\<rparr>"

text \<open>The second echo gets no reply of its own, only a late one to the first.\<close>

theorem latency_row_consistent_witness:
  "\<exists>row. ProbeICMP (\<lambda>_. 0) None 7 (map demo_try [[(3000000, EchoReply 7 1)], [(900000000, EchoReply 7 1)],
       [(5000000, OtherMessage), (6000000, EchoReply 7 3)], [(9000000, EchoReply 7 4)]]) ''8.8.8.8'' = Inr row \<and>
     lt_LossPct row = Fin 25 \<and> f64_le (lt_MinMs row) (lt_AvgMs row) \<and> f64_le (lt_AvgMs row) (lt_MaxMs row)"
proof -
  let ?ts = "map demo_try [[(3000000, EchoReply 7 1)], [(900000000, EchoReply 7 1)],
       [(5000000, OtherMessage), (6000000, EchoReply 7 3)], [(9000000, EchoReply 7 4)]]"
  have "literal_v4 ''8.8.8.8''" by code_simp
  then obtain row where r: "ProbeICMP (\<lambda>_. 0) None 7 ?ts ''8.8.8.8'' = Inr row" by (simp add: ProbeICMP_def)
  have e: "length (echo_tries 7 1 (take echo_count ?ts)) = 3" by (simp add: demo_try_def echo_count_def)
  have "\<forall>t\<in>set ?ts. \<forall>m\<in>set (ec_msgs t). 0 \<le> fst m \<and> fst m \<le> 2 ^ 40" by (simp add: demo_try_def)
  from latency_row_consistent[OF r this] show ?thesis using r unfolding e by auto
qed

subsection \<open>The number of hops\<close>

lemma trace_loop_bound: "hops \<le> fst (trace_loop ident hops ts) \<and> fst (trace_loop ident hops ts) \<le> hops + int (length ts)"
proof (induction ident hops ts rule: trace_loop.induct)
  case (2 ident hops t ts)
  obtain got reached where w: "trace_wait ident (map snd (ec_msgs t)) = (got, reached)"
    by (cases "trace_wait ident (map snd (ec_msgs t))")
  show ?case using 2(1) 2(2)[OF _ _ w[symmetric] refl] w by (auto simp: Let_def)
qed simp

lemma trace_hops_bound: "0 \<le> fst (traceICMPRamp listen_err ident ts addr m) \<and> fst (traceICMPRamp listen_err ident ts addr m) \<le> 64"
proof -
  define k where "k = (if m \<le> 0 \<or> 64 < m then 30 else m)"
  have "length (take (nat k) ts) \<le> 64" by (auto simp: k_def min_def)
  then have "0 \<le> fst (trace_loop ident 0 (take (nat k) ts)) \<and> fst (trace_loop ident 0 (take (nat k) ts)) \<le> 64"
    using trace_loop_bound[of 0 ident "take (nat k) ts"] by linarith
  moreover have "traceICMPRamp listen_err ident ts addr m =
      (if \<not> literal_v4 addr then (0, Some ''traceroute: not a valid IPv4 address'')
       else case listen_err of Some e \<Rightarrow> (0, Some (''latency: ICMP listen failed: '' @ e)) | None \<Rightarrow> trace_loop ident 0 (take (nat k) ts))"
    unfolding traceICMPRamp_def Let_def k_def ..
  ultimately show ?thesis by (auto split: option.split)
qed

text \<open>The number of the echo is not compared, so a reply to a latency probe, which has the same identifier, ends the trace with
  the hops so far.\<close>

lemma foreign_reply_ends_trace:
  assumes "literal_v4 addr" "ec_msgs t = (d, EchoReply ident sq) # ms" "ec_sent t" "\<not> ec_cancelled t"
  shows "traceICMPRamp None ident (t # ts) addr 30 = (1, None)"
  using assms by (simp add: traceICMPRamp_def)

subsection \<open>The gateway\<close>

lemma gateway_example:
  "DefaultGatewayIP (Some [''Iface Destination Gateway Flags'', ''eth0 0003A8C0 00000000 0001'', ''eth0 00000000 0103A8C0 0003'']) =
     ''192.168.3.1''"
  by code_simp

lemma targets_nonempty: "LatencyTargets file target \<noteq> [] \<and> length (LatencyTargets file target) \<le> 2"
  by (simp add: LatencyTargets_def Let_def)

lemma broken_stays: "xs_icmpBroken x \<Longrightarrow> xs_icmpBroken (latency_tick probe file target x)"
  by (simp add: latency_tick_def Let_def)

end
