(* ===== verification/Meraki_Sync.thy ===== *)
theory Meraki_Sync
  imports Appliances Site_Vault
begin

text \<open>
  The inventory of the Meraki Dashboard (\<open>internal/poller/meraki_sync.go\<close>): devices of the organisations an API key sees
  become appliances of a site. The answers of the Dashboard (\<open>internal/vendors/meraki/client.go\<close>), the refusal of a
  statement and the end of the context are parameters; the appliances are those of \<open>Appliances\<close>, the credentials those of
  \<open>Site_Vault\<close>.
\<close>

subsection \<open>The Dashboard\<close>

text \<open>The fields of a device that the synchronisation reads.\<close>

record Organization =
  mo_ID :: string
  mo_Name :: string

record Device =
  md_Name :: string
  md_Model :: string
  md_Serial :: string
  md_LANIP :: string
  md_NetworkID :: string
  md_ProductType :: string

record ApplianceVLAN =
  mv_ID :: int
  mv_Name :: string
  mv_ApplianceIP :: string

record dashboard =
  mk_orgs :: "string + Organization list"
  mk_devices :: "string \<Rightarrow> string + Device list"
  mk_vlans :: "string \<Rightarrow> string + ApplianceVLAN list"
  mk_single :: "string \<Rightarrow> string + string"

subsection \<open>Addresses\<close>

text \<open>\<open>IP.IsUnspecified\<close>, \<open>IP.IsLoopback\<close> and \<open>IP.IsPrivate\<close>.\<close>

definition ip_unspecified :: "ip \<Rightarrow> bool" where
  "ip_unspecified x \<longleftrightarrow> (case To4 x of Some b \<Rightarrow> list_all (\<lambda>n. n = 0) b | None \<Rightarrow> list_all (\<lambda>n. n = 0) x)"

definition ip_loopback :: "ip \<Rightarrow> bool" where
  "ip_loopback x \<longleftrightarrow> (case To4 x of Some b \<Rightarrow> b ! 0 = 127 | None \<Rightarrow> x = replicate 15 0 @ [1])"

definition ip_private :: "ip \<Rightarrow> bool" where
  "ip_private x \<longleftrightarrow>
     (case To4 x of
        Some b \<Rightarrow> b ! 0 = 10 \<or> b ! 0 = 172 \<and> drop_bit 4 (b ! 1) = 1 \<or> b ! 0 = 192 \<and> b ! 1 = 168
      | None \<Rightarrow> length x = 16 \<and> drop_bit 1 (x ! 0) = 126)"

definition usableMerakiIP :: "string \<Rightarrow> bool" where
  "usableMerakiIP s0 \<longleftrightarrow>
     (let s = trim_space s0 in
      if s = [] \<or> s = ''0.0.0.0'' \<or> s = ''::'' then False
      else case parse_addr s of None \<Rightarrow> False | Some x \<Rightarrow> \<not> ip_unspecified x \<and> \<not> ip_loopback x)"

definition meraki_private :: "string \<Rightarrow> bool" where
  "meraki_private s \<longleftrightarrow> (case parse_addr (trim_space s) of None \<Rightarrow> False | Some x \<Rightarrow> ip_private x)"

definition vlan_score :: "ApplianceVLAN \<Rightarrow> int" where
  "vlan_score v =
     (let name = to_lower (trim_space (mv_Name v));
          s0 = i64 (1000 - mv_ID v);
          s1 = (if mv_ID v = 1 then i64 (s0 + 500) else s0);
          s2 = (if name \<in> {''default'', ''lan'', ''data'', ''management'', ''mgmt''} then i64 (s1 + 300) else s1);
          s3 = (if contains name ''data'' then i64 (s2 + 80) else s2)
      in if contains name ''guest'' \<or> contains name ''dmz'' then i64 (s3 - 400) else s3)"

definition vlan_step :: "ApplianceVLAN \<Rightarrow> string \<times> int \<Rightarrow> string \<times> int" where
  "vlan_step v best =
     (let ip = trim_space (mv_ApplianceIP v) in
      if \<not> usableMerakiIP ip \<or> \<not> meraki_private ip then best
      else if snd best < vlan_score v then (ip, vlan_score v) else best)"

definition pickVLANApplianceIP :: "ApplianceVLAN list \<Rightarrow> string" where
  "pickVLANApplianceIP vlans = fst (fold vlan_step vlans ([], - (2 ^ 30)))"

definition fetchApplianceLANIP :: "dashboard \<Rightarrow> string \<Rightarrow> string" where
  "fetchApplianceLANIP cli net =
     (let v = (case mk_vlans cli net of Inl _ \<Rightarrow> [] | Inr vlans \<Rightarrow> pickVLANApplianceIP vlans) in
      if v \<noteq> [] then v
      else case mk_single cli net of
        Inl _ \<Rightarrow> []
      | Inr ip \<Rightarrow> if usableMerakiIP ip \<and> meraki_private ip then trim_space ip else [])"

definition pickMerakiMgmtIP :: "Device \<Rightarrow> string \<Rightarrow> string" where
  "pickMerakiMgmtIP d lan =
     (case find usableMerakiIP [md_LANIP d, lan] of None \<Rightarrow> ''0.0.0.0'' | Some c \<Rightarrow> trim_space c)"

definition merakiNeedsApplianceLAN :: "Device \<Rightarrow> bool" where
  "merakiNeedsApplianceLAN d \<longleftrightarrow>
     equal_fold (trim_space (md_ProductType d)) ''appliance'' \<or>
     (let m = to_upper (trim_space (md_Model d)) in has_prefix m ''MX'' \<or> has_prefix m ''Z'')"

subsection \<open>Tags\<close>

definition product_roles :: "(string \<times> string) list" where
  "product_roles = [(''appliance'', ''firewall''), (''wireless'', ''wap''), (''switch'', ''switch''), (''sensor'', ''sensor''),
     (''camera'', ''camera''), (''cellulargateway'', ''cellular''), (''wirelesscontroller'', ''wlc'')]"

definition model_roles :: "(string \<times> string) list" where
  "model_roles = [(''MX'', ''firewall''), (''Z'', ''firewall''), (''MR'', ''wap''), (''CW'', ''wap''), (''MS'', ''switch''),
     (''C9'', ''switch''), (''MT'', ''sensor''), (''MV'', ''camera''), (''MG'', ''cellular'')]"

definition merakiRoleFromProduct :: "string \<Rightarrow> string \<Rightarrow> string" where
  "merakiRoleFromProduct productType model =
     (case map_of product_roles (to_lower (trim_space productType)) of
        Some r \<Rightarrow> r
      | None \<Rightarrow> (case find (\<lambda>p. has_prefix (to_upper (trim_space model)) (fst p)) model_roles of None \<Rightarrow> [] | Some p \<Rightarrow> snd p))"

definition merakiRoleTags :: "string \<Rightarrow> string \<Rightarrow> string \<Rightarrow> string list" where
  "merakiRoleTags orgName productType model =
     (let role = merakiRoleFromProduct productType model in
      [''meraki''] @ (if orgName \<noteq> [] then [orgName] else []) @ (if role \<noteq> [] then [role] else []))"

subsection \<open>The synchronisation\<close>

record MerakiSyncResult =
  mr_Upserted :: int
  mr_Orgs :: int
  mr_Devices :: int

definition device_name :: "Device \<Rightarrow> string" where
  "device_name d = (if md_Name d = [] then md_Serial d else md_Name d)"

definition null_str :: "string \<Rightarrow> string option" where
  "null_str s = (if s = [] then None else Some s)"

text \<open>\<open>ON CONFLICT (site_id, name) DO UPDATE\<close>, and the defaults of a new row.\<close>

definition meraki_update :: "string \<Rightarrow> string \<Rightarrow> Device \<Rightarrow> appliance_record \<Rightarrow> appliance_record" where
  "meraki_update orgName ip d r =
     r\<lparr>apr_Model := null_str (md_Model d), apr_Serial := null_str (md_Serial d), apr_MgmtIP := ip,
       apr_Tags := merakiRoleTags orgName (md_ProductType d) (md_Model d), apr_Vendor := ''meraki'', apr_Active := True\<rparr>"

definition meraki_row :: "uuid \<Rightarrow> uuid \<Rightarrow> string \<Rightarrow> string \<Rightarrow> Device \<Rightarrow> appliance_record" where
  "meraki_row i site orgName ip d =
     meraki_update orgName ip d
       \<lparr>apr_ID = i, apr_SiteID = site, apr_Name = device_name d, apr_Vendor = ''meraki'', apr_Model = None, apr_Serial = None,
        apr_MgmtIP = ip, apr_SNMPVersion = ''v2c'', apr_Sealed = None, apr_PollSec = 60, apr_Active = True, apr_Tags = [],
        apr_Criticality = ''normal'', apr_Collector = None\<rparr>"

definition same_appliance :: "uuid \<Rightarrow> string \<Rightarrow> appliance_record \<Rightarrow> bool" where
  "same_appliance site name r \<longleftrightarrow> apr_SiteID r = site \<and> apr_Name r = name"

definition upsert_meraki ::
    "uuid \<Rightarrow> uuid \<Rightarrow> string \<Rightarrow> string \<Rightarrow> Device \<Rightarrow> appliance_record list \<Rightarrow> appliance_record list" where
  "upsert_meraki i site orgName ip d rows =
     (if list_ex (same_appliance site (device_name d)) rows
      then map (\<lambda>r. if same_appliance site (device_name d) r then meraki_update orgName ip d r else r) rows
      else rows @ [meraki_row i site orgName ip d])"

text \<open>\<open>sy_fault\<close> tells which upsert is refused, \<open>sy_new_id\<close> the id a new row gets.\<close>

record sync_env =
  sy_fault :: "Device \<Rightarrow> bool"
  sy_new_id :: "Device \<Rightarrow> uuid"

definition lan_step :: "dashboard \<Rightarrow> Device \<Rightarrow> (string \<rightharpoonup> string) \<Rightarrow> (string \<rightharpoonup> string)" where
  "lan_step cli d lans =
     (if md_NetworkID d = [] \<or> \<not> merakiNeedsApplianceLAN d \<or> lans (md_NetworkID d) \<noteq> None then lans
      else let ip = fetchApplianceLANIP cli (md_NetworkID d) in
           if ip \<noteq> [] then lans(md_NetworkID d \<mapsto> ip) else lans)"

definition lan_of :: "(string \<rightharpoonup> string) \<Rightarrow> Device \<Rightarrow> string" where
  "lan_of lans d = (case lans (md_NetworkID d) of None \<Rightarrow> [] | Some ip \<Rightarrow> ip)"

definition sync_device ::
    "sync_env \<Rightarrow> uuid \<Rightarrow> string \<Rightarrow> (string \<rightharpoonup> string) \<Rightarrow> Device \<Rightarrow> MerakiSyncResult \<times> appliance_record list \<Rightarrow>
     MerakiSyncResult \<times> appliance_record list" where
  "sync_device env site orgName lans d st =
     (let res = (fst st)\<lparr>mr_Devices := mr_Devices (fst st) + 1\<rparr> in
      if device_name d = [] \<or> sy_fault env d then (res, snd st)
      else (res\<lparr>mr_Upserted := mr_Upserted res + 1\<rparr>,
            upsert_meraki (sy_new_id env d) site orgName (pickMerakiMgmtIP d (lan_of lans d)) d (snd st)))"

definition sync_org ::
    "sync_env \<Rightarrow> dashboard \<Rightarrow> uuid \<Rightarrow> Organization \<Rightarrow> Device list \<Rightarrow> MerakiSyncResult \<times> appliance_record list \<Rightarrow>
     MerakiSyncResult \<times> appliance_record list" where
  "sync_org env cli site org devs st = fold (sync_device env site (mo_Name org) (fold (lan_step cli) devs Map.empty)) devs st"

fun sync_orgs ::
    "sync_env \<Rightarrow> dashboard \<Rightarrow> uuid \<Rightarrow> string set \<Rightarrow> Organization list \<Rightarrow> MerakiSyncResult \<times> appliance_record list \<Rightarrow>
     string option \<times> MerakiSyncResult \<times> appliance_record list" where
  "sync_orgs env cli site allow [] st = (None, st)"
| "sync_orgs env cli site allow (org # orgs) st =
     (if allow \<noteq> {} \<and> mo_ID org \<notin> allow then sync_orgs env cli site allow orgs st
      else let st1 = ((fst st)\<lparr>mr_Orgs := mr_Orgs (fst st) + 1\<rparr>, snd st) in
           case mk_devices cli (mo_ID org) of
             Inl e \<Rightarrow> (Some (''list devices for org '' @ mo_Name org @ '': '' @ e), st1)
           | Inr devs \<Rightarrow> sync_orgs env cli site allow orgs (sync_org env cli site org devs st1))"

definition allowed_orgs :: "string list \<Rightarrow> string set" where
  "allowed_orgs orgFilter = set (filter (\<lambda>i. i \<noteq> []) (map trim_space orgFilter))"

definition SyncSiteMeraki ::
    "sync_env \<Rightarrow> dashboard \<Rightarrow> uuid \<Rightarrow> string list \<Rightarrow> appliance_record list \<Rightarrow>
     string option \<times> MerakiSyncResult \<times> appliance_record list" where
  "SyncSiteMeraki env cli site orgFilter rows =
     (let zero = \<lparr>mr_Upserted = 0, mr_Orgs = 0, mr_Devices = 0\<rparr> in
      case mk_orgs cli of
        Inl e \<Rightarrow> (Some e, zero, rows)
      | Inr orgs \<Rightarrow> sync_orgs env cli site (allowed_orgs orgFilter) orgs (zero, rows))"

subsection \<open>When it runs\<close>

record meraki_settings =
  mg_Enabled :: bool
  mg_OrgIDs :: string
  mg_Interval :: int
  mg_LastSync :: "int option"
  mg_LastError :: "string option"

type_synonym meraki_table = "uuid \<rightharpoonup> meraki_settings"

text \<open>The statement is sent in the context of the synchronisation; PostgreSQL takes no text that is not UTF-8.\<close>

definition RecordMerakiSyncStatus :: "bool \<Rightarrow> (string \<Rightarrow> bool) \<Rightarrow> int \<Rightarrow> uuid \<Rightarrow> string option \<Rightarrow> meraki_table \<Rightarrow> meraki_table" where
  "RecordMerakiSyncStatus over valid now site err db =
     (let text = map_option (take 500) err in
      if over \<or> (case text of None \<Rightarrow> False | Some x \<Rightarrow> \<not> valid x) then db
      else db(site \<mapsto> (case db site of
             None \<Rightarrow> \<lparr>mg_Enabled = False, mg_OrgIDs = ''[]'', mg_Interval = 900, mg_LastSync = Some now, mg_LastError = text\<rparr>
           | Some g \<Rightarrow> g\<lparr>mg_LastSync := Some now, mg_LastError := text\<rparr>)))"

definition meraki_due :: "int \<Rightarrow> meraki_settings \<Rightarrow> bool" where
  "meraki_due now g \<longleftrightarrow> mg_Enabled g \<and>
     (case mg_LastSync g of None \<Rightarrow> True | Some t \<Rightarrow> t < now - mg_Interval g * 1000000000)"

text \<open>\<open>decode\<close> reads a JSON object of strings.\<close>

definition parseMerakiAPIKey :: "(string \<Rightarrow> (string \<rightharpoonup> string) option) \<Rightarrow> string \<Rightarrow> string" where
  "parseMerakiAPIKey decode plain =
     (let s = trim_space plain;
          member = (\<lambda>m k. case m k of None \<Rightarrow> [] | Some v \<Rightarrow> trim_space v)
      in if s = [] then []
         else if has_prefix s ''{'' then
           (case decode plain of
              None \<Rightarrow> s
            | Some m \<Rightarrow> if member m ''apiKey'' \<noteq> [] then member m ''apiKey''
                        else if member m ''api_key'' \<noteq> [] then member m ''api_key'' else s)
         else s)"

record meraki_world =
  mw_aes :: blockfun
  mw_master :: "byte list"
  mw_decode :: "string \<Rightarrow> (string \<rightharpoonup> string) option"
  mw_ids :: "string \<Rightarrow> string list"
  mw_cli :: "string \<Rightarrow> dashboard"
  mw_env :: sync_env
  mw_over :: "uuid \<Rightarrow> bool"
  mw_utf8 :: "string \<Rightarrow> bool"
  mw_done :: "uuid \<Rightarrow> int"

text \<open>One row of the query: a site that is due with one of its credentials, as the query found them. \<open>mw_over\<close> tells whether
  the three minutes of a site were over, \<open>mw_done\<close> when it was done.\<close>

definition sync_row ::
    "meraki_world \<Rightarrow> credential_row \<times> meraki_settings \<Rightarrow> appliance_record list \<times> meraki_table \<Rightarrow> appliance_record list \<times> meraki_table" where
  "sync_row w cg st =
     (case Open (mw_aes w) (mw_master w) (sc_Enc (fst cg)) (cred_ad (sc_ID (fst cg))) of
        Inl _ \<Rightarrow> st
      | Inr plain \<Rightarrow>
          let key = parseMerakiAPIKey (mw_decode w) (string_of plain); site = sc_SiteID (fst cg) in
          if key = [] then st
          else (case SyncSiteMeraki (mw_env w) (mw_cli w key) site (mw_ids w (mg_OrgIDs (snd cg))) (fst st) of (err, res, rows) \<Rightarrow>
            (rows, RecordMerakiSyncStatus (mw_over w site) (mw_utf8 w) (mw_done w site) site err (snd st))))"

definition due_rows :: "int \<Rightarrow> credential_row list \<Rightarrow> meraki_table \<Rightarrow> (credential_row \<times> meraki_settings) list" where
  "due_rows now creds db =
     List.map_filter (\<lambda>c. case db (sc_SiteID c) of
         None \<Rightarrow> None | Some g \<Rightarrow> if sc_Kind c = ''meraki'' \<and> meraki_due now g then Some (c, g) else None) creds"

definition syncMerakiDBDue ::
    "meraki_world \<Rightarrow> bool \<Rightarrow> int \<Rightarrow> credential_row list \<Rightarrow> appliance_record list \<times> meraki_table \<Rightarrow> appliance_record list \<times> meraki_table" where
  "syncMerakiDBDue w query_fails now creds st =
     (if query_fails then st else fold (sync_row w) (due_rows now creds (snd st)) st)"

text \<open>A synchronisation that takes its three minutes is not recorded: the site stays due and is synchronised again every minute.\<close>

lemma overrun_not_recorded:
  assumes "mw_over w site"
  shows "snd (syncMerakiDBDue w q now creds st) site = snd st site"
proof -
  have step: "snd (sync_row w cg st) site = snd st site" for cg st
    using assms by (cases "sc_SiteID (fst cg) = site")
      (auto simp: sync_row_def RecordMerakiSyncStatus_def Let_def split: sum.split prod.split)
  have "snd (fold (sync_row w) cgs st) site = snd st site" for cgs
    by (induction cgs arbitrary: st) (simp_all add: step)
  then show ?thesis by (simp add: syncMerakiDBDue_def)
qed

lemma overrun_stays_due:
  assumes "mw_over w site" "snd st site = Some g" "meraki_due now g" "now \<le> later"
  shows "\<exists>g'. snd (syncMerakiDBDue w q now creds st) site = Some g' \<and> meraki_due later g'"
  using assms overrun_not_recorded[OF assms(1), of q now creds st] by (auto simp: meraki_due_def split: option.splits)

subsection \<open>What it writes\<close>

text \<open>The Dashboard's devices as writes: the id a new row would get, the organisation, the address and the device. The address is
  the device's own if it is usable, else that of its network's appliance, which is asked for when a device of the
  organisation's list that is an appliance is in the network, else none.\<close>

type_synonym meraki_write = "uuid \<times> string \<times> string \<times> Device"

definition network_lan :: "dashboard \<Rightarrow> Device list \<Rightarrow> Device \<Rightarrow> string" where
  "network_lan cli devs d =
     (if md_NetworkID d \<noteq> [] \<and> (\<exists>x\<in>set devs. md_NetworkID x = md_NetworkID d \<and> merakiNeedsApplianceLAN x)
      then fetchApplianceLANIP cli (md_NetworkID d) else [])"

definition device_address :: "dashboard \<Rightarrow> Device list \<Rightarrow> Device \<Rightarrow> string" where
  "device_address cli devs d =
     (if usableMerakiIP (md_LANIP d) then trim_space (md_LANIP d)
      else if usableMerakiIP (network_lan cli devs d) then trim_space (network_lan cli devs d) else ''0.0.0.0'')"

definition org_writes :: "sync_env \<Rightarrow> dashboard \<Rightarrow> Organization \<Rightarrow> Device list \<Rightarrow> meraki_write list" where
  "org_writes env cli org devs =
     map (\<lambda>d. (sy_new_id env d, mo_Name org, device_address cli devs d, d)) (filter (\<lambda>d. device_name d \<noteq> [] \<and> \<not> sy_fault env d) devs)"

definition org_listed :: "dashboard \<Rightarrow> Organization \<Rightarrow> bool" where
  "org_listed cli org \<longleftrightarrow> (case mk_devices cli (mo_ID org) of Inl _ \<Rightarrow> False | Inr _ \<Rightarrow> True)"

text \<open>The organisations that are allowed; those before the first whose devices cannot be listed are synchronised.\<close>

definition wanted_orgs :: "string set \<Rightarrow> Organization list \<Rightarrow> Organization list" where
  "wanted_orgs allow = filter (\<lambda>org. allow = {} \<or> mo_ID org \<in> allow)"

definition orgs_writes :: "sync_env \<Rightarrow> dashboard \<Rightarrow> string set \<Rightarrow> Organization list \<Rightarrow> meraki_write list" where
  "orgs_writes env cli allow orgs =
     concat (map (\<lambda>org. case mk_devices cli (mo_ID org) of Inl _ \<Rightarrow> [] | Inr devs \<Rightarrow> org_writes env cli org devs)
       (takeWhile (org_listed cli) (wanted_orgs allow orgs)))"

definition sync_writes :: "sync_env \<Rightarrow> dashboard \<Rightarrow> string list \<Rightarrow> meraki_write list" where
  "sync_writes env cli orgFilter =
     (case mk_orgs cli of Inl _ \<Rightarrow> [] | Inr orgs \<Rightarrow> orgs_writes env cli (allowed_orgs orgFilter) orgs)"

text \<open>The loops write exactly these.\<close>

definition upsert_write :: "uuid \<Rightarrow> meraki_write \<Rightarrow> appliance_record list \<Rightarrow> appliance_record list" where
  "upsert_write site u rows = (case u of (i, orgName, ip, d) \<Rightarrow> upsert_meraki i site orgName ip d rows)"

lemma lan_fold:
  assumes "\<And>n ip. lans n = Some ip \<Longrightarrow> n \<noteq> [] \<and> ip \<noteq> [] \<and> ip = fetchApplianceLANIP cli n"
  shows "lan_of (fold (lan_step cli) devs lans) d =
    (if lans (md_NetworkID d) \<noteq> None then lan_of lans d else network_lan cli devs d)"
  using assms
proof (induction devs arbitrary: lans)
  case Nil
  then show ?case by (auto simp: lan_of_def network_lan_def)
next
  case (Cons x devs)
  have keys: "n \<noteq> [] \<and> ip \<noteq> [] \<and> ip = fetchApplianceLANIP cli n" if "lan_step cli x lans n = Some ip" for n ip
    using that Cons.prems by (auto simp: lan_step_def Let_def split: if_splits)
  have "lan_of (fold (lan_step cli) (x # devs) lans) d =
      (if lan_step cli x lans (md_NetworkID d) \<noteq> None then lan_of (lan_step cli x lans) d else network_lan cli devs d)"
    using Cons.IH[of "lan_step cli x lans"] keys by auto
  also have "\<dots> = (if lans (md_NetworkID d) \<noteq> None then lan_of lans d else network_lan cli (x # devs) d)"
    using Cons.prems[of "md_NetworkID d"] by (auto simp: lan_step_def lan_of_def network_lan_def Let_def split: if_splits)
  finally show ?case .
qed

lemma sync_address: "pickMerakiMgmtIP d (lan_of (fold (lan_step cli) devs Map.empty) d) = device_address cli devs d"
proof -
  have "lan_of (fold (lan_step cli) devs Map.empty) d = network_lan cli devs d" using lan_fold[of Map.empty cli devs d] by simp
  then show ?thesis by (simp add: pickMerakiMgmtIP_def device_address_def)
qed

lemma sync_org_writes:
  "sync_org env cli site org devs st =
     ((fst st)\<lparr>mr_Upserted := mr_Upserted (fst st) + int (length (org_writes env cli org devs)),
        mr_Devices := mr_Devices (fst st) + int (length devs)\<rparr>,
      fold (upsert_write site) (org_writes env cli org devs) (snd st))"
proof -
  let ?lans = "fold (lan_step cli) devs Map.empty"
  have "fold (sync_device env site (mo_Name org) ?lans) ds st =
      ((fst st)\<lparr>mr_Upserted := mr_Upserted (fst st) + int (length (filter (\<lambda>d. device_name d \<noteq> [] \<and> \<not> sy_fault env d) ds)),
         mr_Devices := mr_Devices (fst st) + int (length ds)\<rparr>,
       fold (upsert_write site) (map (\<lambda>d. (sy_new_id env d, mo_Name org, device_address cli devs d, d))
         (filter (\<lambda>d. device_name d \<noteq> [] \<and> \<not> sy_fault env d) ds)) (snd st))" for ds
    by (induction ds arbitrary: st) (auto simp: sync_device_def sync_address upsert_write_def Let_def)
  then show ?thesis by (simp add: sync_org_def org_writes_def)
qed

lemma sync_orgs_writes:
  "snd (snd (sync_orgs env cli site allow orgs st)) = fold (upsert_write site) (orgs_writes env cli allow orgs) (snd st) \<and>
   mr_Upserted (fst (snd (sync_orgs env cli site allow orgs st))) = mr_Upserted (fst st) + int (length (orgs_writes env cli allow orgs)) \<and>
   (fst (sync_orgs env cli site allow orgs st) = None \<longleftrightarrow> (\<forall>org\<in>set (wanted_orgs allow orgs). org_listed cli org))"
proof (induction env cli site allow orgs st rule: sync_orgs.induct)
  case (1 env cli site allow st)
  show ?case by (simp add: orgs_writes_def wanted_orgs_def)
next
  case (2 env cli site allow org orgs st)
  show ?case
  proof (cases "allow \<noteq> {} \<and> mo_ID org \<notin> allow")
    case True
    then show ?thesis using 2(1) by (simp add: orgs_writes_def wanted_orgs_def)
  next
    case False
    show ?thesis
    proof (cases "mk_devices cli (mo_ID org)")
      case (Inl e)
      then show ?thesis using False by (auto simp: orgs_writes_def wanted_orgs_def org_listed_def)
    next
      case (Inr devs)
      have w: "orgs_writes env cli allow (org # orgs) = org_writes env cli org devs @ orgs_writes env cli allow orgs"
        using False Inr by (auto simp: orgs_writes_def wanted_orgs_def org_listed_def)
      let ?st1 = "((fst st)\<lparr>mr_Orgs := mr_Orgs (fst st) + 1\<rparr>, snd st)"
      have step: "sync_orgs env cli site allow (org # orgs) st = sync_orgs env cli site allow orgs (sync_org env cli site org devs ?st1)"
        using False Inr by (subst sync_orgs.simps(2)) (auto simp: Let_def)
      have wanted: "(\<forall>o'\<in>set (wanted_orgs allow (org # orgs)). org_listed cli o') \<longleftrightarrow> (\<forall>o'\<in>set (wanted_orgs allow orgs). org_listed cli o')"
        using Inr by (auto simp: wanted_orgs_def org_listed_def)
      show ?thesis unfolding w step wanted using 2(2)[OF False refl Inr]
        by (simp add: sync_org_writes)
    qed
  qed
qed

text \<open>What the writes make of a row.\<close>

definition apply_write :: "uuid \<Rightarrow> meraki_write \<Rightarrow> appliance_record \<Rightarrow> appliance_record" where
  "apply_write site u r =
     (case u of (i, orgName, ip, d) \<Rightarrow> if same_appliance site (device_name d) r then meraki_update orgName ip d r else r)"

definition taken_over :: "uuid \<Rightarrow> meraki_write list \<Rightarrow> appliance_record \<Rightarrow> appliance_record" where
  "taken_over site us r = fold (apply_write site) us r"

definition written_name :: "meraki_write \<Rightarrow> string" where
  "written_name u = (case u of (i, orgName, ip, d) \<Rightarrow> device_name d)"

definition meraki_new :: "uuid \<Rightarrow> meraki_write \<Rightarrow> appliance_record" where
  "meraki_new site u = (case u of (i, orgName, ip, d) \<Rightarrow> meraki_row i site orgName ip d)"

text \<open>The first write of every name that is not known.\<close>

fun new_writes :: "string set \<Rightarrow> meraki_write list \<Rightarrow> meraki_write list" where
  "new_writes known [] = []"
| "new_writes known (u # us) =
     (if written_name u \<in> known then new_writes known us else u # new_writes (insert (written_name u) known) us)"

definition site_names :: "uuid \<Rightarrow> appliance_record list \<Rightarrow> string set" where
  "site_names site rows = {apr_Name r | r. r \<in> set rows \<and> apr_SiteID r = site}"

lemma new_writes_unknown: "v \<in> set (new_writes known us) \<Longrightarrow> written_name v \<notin> known"
  by (induction us arbitrary: known) (auto split: if_splits)

lemma apply_meraki_new:
  "apply_write site u (meraki_new site u) = meraki_new site u"
  "written_name v \<noteq> written_name u \<Longrightarrow> apply_write site u (meraki_new site v) = meraki_new site v"
  by (auto simp: apply_write_def meraki_new_def written_name_def same_appliance_def meraki_row_def meraki_update_def split: prod.split)

lemma known_row: "list_ex (same_appliance site n) rows \<longleftrightarrow> n \<in> site_names site rows"
  by (auto simp: list_ex_iff site_names_def same_appliance_def)

lemma upserts_rows:
  "fold (upsert_write site) us rows =
     map (taken_over site us) rows @ map (\<lambda>u. taken_over site us (meraki_new site u)) (new_writes (site_names site rows) us)"
proof (induction us arbitrary: rows)
  case Nil
  show ?case by (simp add: taken_over_def[abs_def])
next
  case (Cons u us)
  obtain i o' ip d where u: "u = (i, o', ip, d)" by (cases u)
  have t: "taken_over site (u # us) r = taken_over site us (apply_write site u r)" for r by (simp add: taken_over_def)
  show ?case
  proof (cases "written_name u \<in> site_names site rows")
    case True
    then have up: "upsert_write site u rows = map (apply_write site u) rows"
      by (auto simp: u upsert_write_def upsert_meraki_def apply_write_def known_row written_name_def)
    have "same_appliance site n (apply_write site u r) = same_appliance site n r" for n r
      by (simp add: u apply_write_def meraki_update_def same_appliance_def)
    then have names: "site_names site (map (apply_write site u) rows) = site_names site rows"
      by (intro set_eqI) (simp add: known_row[symmetric] list_ex_iff)
    have "taken_over site us (meraki_new site v) = taken_over site (u # us) (meraki_new site v)"
      if "v \<in> set (new_writes (site_names site rows) us)" for v
      using new_writes_unknown[OF that] True unfolding t by (metis apply_meraki_new(2))
    then show ?thesis using True by (simp add: up Cons.IH names t)
  next
    case False
    then have up: "upsert_write site u rows = rows @ [meraki_new site u]"
      by (simp add: u upsert_write_def upsert_meraki_def known_row written_name_def meraki_new_def)
    have names: "site_names site (rows @ [meraki_new site u]) = insert (written_name u) (site_names site rows)"
      by (intro set_eqI) (auto simp: known_row[symmetric] u meraki_new_def meraki_row_def meraki_update_def written_name_def same_appliance_def)
    have "apply_write site u r = r" if "r \<in> set rows" for r
      using False that by (auto simp: u apply_write_def written_name_def site_names_def same_appliance_def)
    moreover have "taken_over site us (meraki_new site v) = taken_over site (u # us) (meraki_new site v)"
      if "v \<in> set (new_writes (insert (written_name u) (site_names site rows)) us)" for v
      using new_writes_unknown[OF that] unfolding t by (metis apply_meraki_new(2) insertI1)
    ultimately show ?thesis using False by (simp add: up Cons.IH names t apply_meraki_new(1))
  qed
qed

lemma taken_over_keeps:
  "apr_ID (taken_over site us r) = apr_ID r \<and> apr_SiteID (taken_over site us r) = apr_SiteID r \<and>
   apr_Name (taken_over site us r) = apr_Name r \<and> apr_Sealed (taken_over site us r) = apr_Sealed r \<and>
   apr_SNMPVersion (taken_over site us r) = apr_SNMPVersion r \<and> apr_PollSec (taken_over site us r) = apr_PollSec r \<and>
   apr_Collector (taken_over site us r) = apr_Collector r"
  unfolding taken_over_def
  by (induction us arbitrary: r) (auto simp: apply_write_def meraki_update_def split: prod.split)

definition last_write :: "uuid \<Rightarrow> meraki_write list \<Rightarrow> appliance_record \<Rightarrow> meraki_write option" where
  "last_write site us r = find (\<lambda>(i, orgName, ip, d). same_appliance site (device_name d) r) (rev us)"

lemma taken_over_last:
  "case last_write site us r of
     None \<Rightarrow> taken_over site us r = r
   | Some (i, orgName, ip, d) \<Rightarrow> apr_Vendor (taken_over site us r) = ''meraki'' \<and> apr_Active (taken_over site us r) \<and>
       apr_MgmtIP (taken_over site us r) = ip"
proof (induction us rule: rev_induct)
  case Nil
  then show ?case by (simp add: last_write_def taken_over_def)
next
  case (snoc u us)
  obtain i o' ip d where u: "u = (i, o', ip, d)" by (cases u)
  have key: "same_appliance site n (taken_over site us r) = same_appliance site n r" for n
    using taken_over_keeps[of site us r] by (simp add: same_appliance_def)
  have step: "taken_over site (us @ [u]) r = apply_write site u (taken_over site us r)" by (simp add: taken_over_def)
  show ?case
  proof (cases "same_appliance site (device_name d) r")
    case True
    then show ?thesis unfolding step by (simp add: u apply_write_def key last_write_def meraki_update_def)
  next
    case False
    have "apply_write site u (taken_over site us r) = taken_over site us r" using False by (simp add: u apply_write_def key)
    moreover have "last_write site (us @ [u]) r = last_write site us r" using False by (simp add: last_write_def u)
    ultimately show ?thesis using snoc step by metis
  qed
qed

text \<open>C39: A synchronisation writes every device of the allowed organisations that has a name or serial number and is not refused,
  up to the first organisation whose devices cannot be listed, in which case it reports an error; the address is the device's
  own if usable, else that of its network's appliance. Every appliance of the table keeps its place, its identity and its
  sealed SNMP credentials; one of the site that shares its name with a written device becomes an active Meraki appliance at the
  address of the last such device, whatever it was before, and the others stay as they are; the names that were not in the
  table get one row each, without credentials.\<close>

theorem meraki_takes_over:
  assumes "SyncSiteMeraki env cli site orgFilter rows = (e, res, rows')"
  shows "let us = sync_writes env cli orgFilter; new = new_writes (site_names site rows) us in
    rows' = map (taken_over site us) rows @ map (\<lambda>u. taken_over site us (meraki_new site u)) new \<and>
    mr_Upserted res = int (length us) \<and>
    (e = None \<longleftrightarrow> (\<exists>orgs. mk_orgs cli = Inr orgs \<and> (\<forall>org\<in>set (wanted_orgs (allowed_orgs orgFilter) orgs). org_listed cli org))) \<and>
    (\<forall>r. apr_ID (taken_over site us r) = apr_ID r \<and> apr_Sealed (taken_over site us r) = apr_Sealed r \<and>
       (case last_write site us r of
          None \<Rightarrow> taken_over site us r = r
        | Some (i, orgName, ip, d) \<Rightarrow> apr_Vendor (taken_over site us r) = ''meraki'' \<and> apr_Active (taken_over site us r) \<and>
            apr_MgmtIP (taken_over site us r) = ip)) \<and>
    (\<forall>u\<in>set new. apr_Sealed (taken_over site us (meraki_new site u)) = None)"
proof -
  let ?us = "sync_writes env cli orgFilter"
  have "rows' = fold (upsert_write site) ?us rows \<and> mr_Upserted res = int (length ?us) \<and>
      (e = None \<longleftrightarrow> (\<exists>orgs. mk_orgs cli = Inr orgs \<and> (\<forall>org\<in>set (wanted_orgs (allowed_orgs orgFilter) orgs). org_listed cli org)))"
  proof (cases "mk_orgs cli")
    case (Inl x)
    then show ?thesis using assms by (auto simp: SyncSiteMeraki_def sync_writes_def Let_def)
  next
    case (Inr orgs)
    then show ?thesis
      using assms sync_orgs_writes[of env cli site "allowed_orgs orgFilter" orgs "(\<lparr>mr_Upserted = 0, mr_Orgs = 0, mr_Devices = 0\<rparr>, rows)"]
      by (simp add: SyncSiteMeraki_def sync_writes_def Let_def)
  qed
  moreover have "apr_Sealed (meraki_new site u) = None" for u
    by (cases u) (simp add: meraki_new_def meraki_row_def meraki_update_def)
  ultimately show ?thesis unfolding Let_def upserts_rows using taken_over_keeps taken_over_last by (intro conjI allI ballI) simp_all
qed

text \<open>A switch polled over SNMP with stored credentials; a Meraki device of the same name and a camera without an address.\<close>

definition demo_switch :: appliance_record where
  "demo_switch = \<lparr>apr_ID = ''a1'', apr_SiteID = ''s1'', apr_Name = ''core'', apr_Vendor = ''cisco'', apr_Model = None, apr_Serial = None,
     apr_MgmtIP = ''10.0.0.1'', apr_SNMPVersion = ''v2c'', apr_Sealed = Some [1], apr_PollSec = 60, apr_Active = True, apr_Tags = [],
     apr_Criticality = ''high'', apr_Collector = None\<rparr>"

definition demo_devices :: "Device list" where
  "demo_devices =
     [\<lparr>md_Name = ''core'', md_Model = ''MS120'', md_Serial = ''Q1'', md_LANIP = ''10.9.9.9'', md_NetworkID = ''n1'', md_ProductType = ''switch''\<rparr>,
      \<lparr>md_Name = [], md_Model = ''MV2'', md_Serial = ''Q2'', md_LANIP = [], md_NetworkID = [], md_ProductType = ''camera''\<rparr>]"

definition demo_dashboard :: dashboard where
  "demo_dashboard = \<lparr>mk_orgs = Inr [\<lparr>mo_ID = ''1'', mo_Name = ''Acme''\<rparr>], mk_devices = (\<lambda>_. Inr demo_devices),
     mk_vlans = (\<lambda>_. Inl ''404''), mk_single = (\<lambda>_. Inl ''404'')\<rparr>"

theorem meraki_takes_over_witness:
  "\<exists>res r n. SyncSiteMeraki \<lparr>sy_fault = (\<lambda>_. False), sy_new_id = (\<lambda>_. ''n'')\<rparr> demo_dashboard ''s1'' [] [demo_switch] = (None, res, [r, n]) \<and>
     mr_Upserted res = 2 \<and> apr_Sealed r = Some [1] \<and> apr_ID r = ''a1'' \<and> apr_Vendor r = ''meraki'' \<and> apr_MgmtIP r = ''10.9.9.9'' \<and>
     apr_Name n = ''Q2'' \<and> apr_MgmtIP n = ''0.0.0.0'' \<and> apr_Sealed n = None"
proof -
  let ?env = "\<lparr>sy_fault = (\<lambda>_. False), sy_new_id = (\<lambda>_. ''n'')\<rparr>"
  let ?u = "(''n'', ''Acme'', ''10.9.9.9'', demo_devices ! 0)" and ?v = "(''n'', ''Acme'', ''0.0.0.0'', demo_devices ! 1)"
  have usable: "usableMerakiIP ''10.9.9.9''" "trim_space ''10.9.9.9'' = ''10.9.9.9''" "\<not> usableMerakiIP []" by code_simp+
  obtain e res rows' where s: "SyncSiteMeraki ?env demo_dashboard ''s1'' [] [demo_switch] = (e, res, rows')" by (metis surj_pair)
  have us: "sync_writes ?env demo_dashboard [] = [?u, ?v]"
    by (simp add: sync_writes_def orgs_writes_def wanted_orgs_def org_listed_def org_writes_def allowed_orgs_def demo_dashboard_def
        demo_devices_def device_name_def device_address_def network_lan_def usable)
  have names: "device_name (demo_devices ! 0) = ''core''" "device_name (demo_devices ! Suc 0) = ''Q2''" by (simp_all add: device_name_def demo_devices_def)
  have new: "new_writes (site_names ''s1'' [demo_switch]) [?u, ?v] = [?v]"
    by (auto simp: site_names_def demo_switch_def written_name_def names)
  note c = meraki_takes_over[OF s, unfolded Let_def us new]
  have e: "e = None" using c by (simp add: demo_dashboard_def wanted_orgs_def org_listed_def)
  have res: "mr_Upserted res = 2" using c by simp
  have rows': "rows' = [taken_over ''s1'' [?u, ?v] demo_switch, taken_over ''s1'' [?u, ?v] (meraki_new ''s1'' ?v)]" using c by simp
  have "last_write ''s1'' [?u, ?v] demo_switch = Some ?u" by (simp add: last_write_def names same_appliance_def demo_switch_def)
  then have r: "apr_ID (taken_over ''s1'' [?u, ?v] demo_switch) = ''a1''" "apr_Sealed (taken_over ''s1'' [?u, ?v] demo_switch) = Some [1]"
      "apr_Vendor (taken_over ''s1'' [?u, ?v] demo_switch) = ''meraki''" "apr_MgmtIP (taken_over ''s1'' [?u, ?v] demo_switch) = ''10.9.9.9''"
    using c[THEN conjunct2, THEN conjunct2, THEN conjunct2, THEN conjunct1, THEN spec, of demo_switch] by (simp_all add: demo_switch_def)
  have n: "taken_over ''s1'' [?u, ?v] (meraki_new ''s1'' ?v) = meraki_new ''s1'' ?v"
    by (simp add: taken_over_def apply_write_def same_appliance_def meraki_new_def meraki_row_def meraki_update_def names)
  have "apr_Name (meraki_new ''s1'' ?v) = ''Q2''" "apr_MgmtIP (meraki_new ''s1'' ?v) = ''0.0.0.0''" "apr_Sealed (meraki_new ''s1'' ?v) = None"
    by (simp_all add: meraki_new_def meraki_row_def meraki_update_def names)
  then show ?thesis using s[unfolded e rows' n] res r by blast
qed

end
