(* ===== verification/Spec2Isabelle.thy ===== *)
theory Spec2Isabelle
  imports Scheduler Alarm_Engine Compliance_Store Envelope Access Flows Passive_Inventory Discovery_Poller Collector_Poller Check_Behaviour Topology_Graph Enrollment Metric_Range Score Accounts Probe_Trackers Probe_Sockets Probe_Dns Probe_Processes Agent_Presence Net_Graph Appliances Passive_Capture Probe_Update Probe_Run Alarm_Rules Site_Discovery Probe_Latency Meraki_Sync
begin

text \<open>
  ScanRay Sonar is a network and endpoint monitor. A central server (\<open>cmd/sonar-api\<close>) keeps its
  state in PostgreSQL, polls network appliances over SNMP (\<open>internal/poller\<close>, \<open>internal/snmp\<close>),
  evaluates alarm rules on the metrics it publishes (\<open>internal/alarms\<close>), notifies through channels
  (\<open>internal/notify\<close>), and serves an HTTP API (\<open>internal/api\<close>). Probes on endpoints report snapshots
  that are checked for compliance (\<open>internal/compliance\<close>). Collectors at remote sites
  (\<open>internal/collector\<close>) poll and discover on the server's behalf; a flow daemon
  (\<open>internal/flows\<close>) stores NetFlow records. This development models those parts in Isabelle/HOL and
  proves what makes them correct.

  Conventions. A definition carries the name of the Go function, type or constant it translates.
  Structures are records, sum types datatypes, \<open>uint64\<close> and \<open>uint32\<close> are \<open>u64\<close> and \<open>32 word\<close>, an
  \<open>int64\<close> that may wrap goes through \<open>i64\<close>; \<open>float64\<close> is the type \<open>f64\<close> of \<open>Float64\<close>, rationals
  rounded to 53 bits with infinities and NaN. Strings are lists of bytes. Errors are values of a sum
  or option; a run-time panic is the outcome \<open>Panicked\<close> (\<open>Go_Net\<close>) or \<open>None\<close>, so that the absence of
  panics is a theorem and not an assumption. What lies outside the sources is a parameter: the
  device behind an SNMP session, the network, the clock, the random source, AES, Argon2 and the JWT
  library, PostgreSQL's refusal of a statement, the iteration order of Go maps. Transactions are
  lists of statements, or functions over a transaction state, with a fault for every statement.

  Shared theories.
    \<^item> \<open>Sonar_Prelude\<close>: text functions of the standard library (case folding, trimming, numbers), lists
      and maps, used everywhere. \<open>Go_Sort\<close>: sorting by a \<open>less\<close> function.
    \<^item> \<open>Float64\<close>, \<open>Float_Text\<close>: the binary64 arithmetic and the printing of floats. \<open>Go_Time\<close>: instants
      and durations. \<open>Go_Any\<close>: dynamically typed values and the payload of metrics. \<open>Base64\<close>,
      \<open>Go_Net\<close>, \<open>Go_Json\<close>, \<open>Go_Marshal\<close>: encoding/base64, net, and encoding/json as far as the program
      uses them; what \<open>Go_Marshal\<close> writes \<open>Go_Json\<close> reads back. \<open>Go_Calendar\<close>: RFC 3339 for instants in UTC.

  Appliance polling.
    \<^item> \<open>Snmp_Value\<close>, \<open>Snmp_Dial\<close> (\<open>snmp/client.go\<close>): PDU values, Get and BulkWalk over a session; the
      credentials, their JSON form and the configuration of a session.
    \<^item> \<open>Appliances\<close> (\<open>api/handlers_appliances.go\<close>): creation, change and deletion; every row the poller
      lists opens to the credentials of its version, and no row selects four of the vendor collectors.
    \<^item> \<open>Snmp_Snapshot\<close> (\<open>snmp/snapshot.go\<close>): the snapshot and its parts.
    \<^item> \<open>Snmp_Collect\<close> (\<open>snmp/collect.go\<close>): the collectors of one poll; the interface table is sorted,
      complete and independent of map order, uplinks are exactly those the heuristics or neighbours
      name, warnings come only from two of the collectors.
    \<^item> \<open>Oid_Packs\<close>, \<open>Snmp_Vendor\<close> (\<open>snmp/collect_oidpacks.go\<close>, \<open>snmp/oidpack\<close>, \<open>snmp/vendor_*.go\<close>): vendor
      data; bounds on requests and rows, exact 64-bit capacities, the payload fields.
    \<^item> \<open>Persist_Snapshot\<close> (\<open>poller/persist_snapshot.go\<close>): one poll as a transaction that refines an abstract
      update of four tables.
    \<^item> \<open>Scheduler\<close> (\<open>poller/scheduler.go\<close>): a step relation whose reachable states keep one loop per
      appliance; rates from counter differences; a poll commits entirely or not at all.
    \<^item> \<open>Collector_Poller\<close> (\<open>collector/snmp_poller.go\<close>, \<open>api/handlers_collectors_snmp.go\<close>): the same poll
      delegated to a collector, shown to have the central poller's effect.

  Alarms and compliance.
    \<^item> \<open>Mini_Expr\<close> (\<open>alarms/miniexpr.go\<close>): the rule expressions; clauses are read back as written.
    \<^item> \<open>Notify\<close> (\<open>alarms/dispatch.go\<close>, \<open>notify\<close>): channels and their audit.
    \<^item> \<open>Alarm_Engine\<close> (\<open>alarms/engine.go\<close>, \<open>poller/traps.go\<close>, \<open>api/handlers_alarms_lifecycle.go\<close>): when an
      alarm opens and closes, at most one open alarm per key, the pending state as a refinement of
      the history of verdicts.
    \<^item> \<open>Compliance\<close>, \<open>Compliance_Store\<close> (\<open>compliance/evaluator.go\<close>): score and issues; the persistence
      reconciles the open rows with the evaluated ones, as an interpretation of a store contract
      (a locale) for the two tables.

  Synthetic checks.
    \<^item> \<open>Checks\<close>, \<open>Check_Run\<close> (\<open>checks\<close>): the catalog, parameters, credentials and the checks, over a network
      given as a record of functions; the verdict agrees with what the network answered.
    \<^item> \<open>Check_Service\<close>, \<open>Check_Behaviour\<close> (\<open>poller/checks.go\<close>, \<open>api/handlers_checks.go\<close>, \<open>probe/checks.go\<close>): the
      scheduler, the handlers and the agent's loop; checks run independently of each other, those of a vault
      type stay bound to their credential, and which checks are never run.

  Topology.
    \<^item> \<open>Meraki_Snapshot\<close>, \<open>Topology\<close>, \<open>Topology_Graph\<close> (\<open>api/handlers_topology.go\<close>, \<open>handlers_topology_extend.go\<close>,
      the record of \<open>poller/meraki_telemetry.go\<close>): the graph of appliances, neighbours, uplinks and peers, and
      that its layer 2 links are the reported adjacencies.

  Endpoints.
    \<^item> \<open>Probe_Trackers\<close> (\<open>probe/nic_tracker.go\<close>, \<open>process_tracker.go\<close>, \<open>nic_kind.go\<close>): rates of counters, as
      interpretations of one tracker contract. \<open>Probe_Processes\<close> (\<open>snapshot.go\<close>, \<open>dex.go\<close>): the process table
      and what is remembered between snapshots. \<open>Probe_Sockets\<close> (\<open>snapshot.go\<close>): listeners and conversations.
      \<open>Probe_Dns\<close> (\<open>dnscache.go\<close>): the cache and its bounded pool of lookups, a step relation in which every locked
      section is a step and the goroutines of other batches share the cache.
    \<^item> \<open>Agent_Ingest\<close> (\<open>api/handlers_agent_telemetry.go\<close>): a metrics frame as a transaction that is stored whole
      or not at all. \<open>Agent_Enrich\<close> (\<open>api/handlers_agent_dex_ingest.go\<close>): what follows its commit.
      \<open>Agent_Presence\<close> (\<open>api/agent_presence.go\<close>, \<open>handlers_agents.go\<close>): sessions, heartbeats, frames and the
      sweep as a step relation, and that no run announces an agent that came back.
    \<^item> \<open>Net_Graph\<close> (\<open>handleAgentNetworkGraph\<close>): conversations folded into peers. \<open>Score\<close> (\<open>api/score.go\<close>): the
      experience score, bounded and antitone, as interpretations of a contract of penalties.

    \<^item> \<open>Probe_Latency\<close> (\<open>probe/latency.go\<close>): round trips and hops over a raw socket, in float64.
    \<^item> \<open>Probe_Update\<close> (\<open>probesign/sign.go\<close>, \<open>api/handlers_probe.go\<close>, \<open>probe/update.go\<close>): how the server signs and
      publishes programs and how a probe replaces its own. \<open>Probe_Run\<close> (\<open>probe/run.go\<close>): dialling again and the
      writer of the connection, a step relation.

  Administration.
    \<^item> \<open>Sql_Update\<close>: the assignments of an UPDATE collected from a body, shared by the handlers. \<open>Alarm_Rules\<close>
      (\<open>api/handlers_alarm_crud.go\<close>): rules and channels, and what becomes of the alarms of a deleted rule.
    \<^item> \<open>Enrollment\<close> (\<open>api/handlers_agents.go\<close>, \<open>handlers_collectors.go\<close>): enrollment tokens and sessions; a token is
      redeemed at most as often as it allows.
    \<^item> \<open>Accounts\<close> (\<open>api/handlers_resources.go\<close>): sites and users, with the interleaving of deletions.
    \<^item> \<open>Retention\<close>, \<open>Metric_Range\<close> (\<open>retention/settings.go\<close>, \<open>api/handlers_retention.go\<close>): settings, policies,
      pruning, and the ranges of the metric endpoints.

  Security.
    \<^item> \<open>Envelope\<close> (\<open>crypto/envelope.go\<close>): sealing, with AES-GCM over an arbitrary block function behind a
      locale of authenticated encryption. \<open>Auth\<close> (\<open>auth\<close>): roles, password hashes, tokens.
    \<^item> \<open>Access\<close> (\<open>api/middleware.go\<close>, \<open>server.go\<close>, login and API keys): the route table and who reaches it.

  Sites.
    \<^item> \<open>Flows\<close> (\<open>flows\<close>): the NetFlow v5 decoder and the buffering listener.
    \<^item> \<open>Subnet\<close>, \<open>Discovery\<close>, \<open>Telnet\<close> (\<open>collector/discovery\<close>): host enumeration, a loop over a 32-bit counter
      whose result is given for every text and so always ends, device classification, the telnet dialogue.
    \<^item> \<open>Meraki_Sync\<close> (\<open>poller/meraki_sync.go\<close>): the devices of the Meraki Dashboard as appliances of a site;
      the loops are shown to write a specified list of devices and addresses.
    \<^item> \<open>Site_Vault\<close>, \<open>Site_Discovery\<close> (\<open>api/handlers_site_discovery.go\<close>, \<open>handlers_collector_discovery.go\<close>,
      \<open>handlers_collectors.go\<close>): the credentials of a site as an abstract vault, the settings of its discovery, the jobs
      of its collectors (the read and the write of a poll as separate steps) and the devices they report.
    \<^item> \<open>Discovery_Poller\<close> (\<open>collector/discovery_poller.go\<close> and its clients): one discovery job.
    \<^item> \<open>Passive_Capture\<close> (\<open>collector/discovery/passive_snmp_linux.go\<close>, \<open>collector/passive_snmp_runner.go\<close>): which
      frames a capture keeps, and when captures run. \<open>Passive_Inventory\<close> (\<open>api/handlers_passive_snmp.go\<close>): the merge of
      a batch of passively seen devices.

  Fuel. \<open>decode_first\<close> runs the JSON decoder with twice the length of the text plus two, one unit per
  value or bracket, which no text exceeds; no other definition has fuel. Loops that need not end
  are \<open>partial_function (option)\<close>.

  Not modelled: HTML and e-mail rendering, the operating system interfaces of the probe (procfs, WMI,
  the registry, raw sockets), the updater on Windows, the helper and install scripts, the Meraki cloud client and its
  telemetry, OIDC and TOTP, GeoIP and object-store wrappers, reports, migrations and connection
  pools, configuration and entry points, the web front end, the audit log, and handlers that only run a
  query and print its rows. The list is in the manifest of components.
\<close>

end
